(* ===== verification/Prelude.thy ===== *)
theory Prelude
  imports Main "HOL-Library.Word" "HOL-Library.Monad_Syntax"
begin

text \<open>
  Shared vocabulary of the development: the C integer types of the target (32-bit ARM, so
  \<open>uint_t\<close>, \<open>size_t\<close> and \<open>systime_t\<close> are 32 bits wide), the error codes of
  \<open>common/error.h\<close> that the modelled code returns, byte-order helpers, overwriting a run of
  a byte list (the effect of \<open>osMemcpy\<close>), and the word and list lemmas the components share.
\<close>

unbundle bit_operations_syntax

section \<open>Types\<close>

type_synonym u8 = "8 word"
type_synonym u16 = "16 word"
type_synonym u32 = "32 word"
type_synonym systime_t = "32 word"

text \<open>The members of the \<open>error_t\<close> enumeration that the modelled functions return.\<close>

datatype error_t =
    NO_ERROR
  | ERROR_FAILURE
  | ERROR_INVALID_PARAMETER
  | ERROR_OUT_OF_MEMORY
  | ERROR_OUT_OF_RESOURCES
  | ERROR_CONNECTION_FAILED
  | ERROR_CONNECTION_CLOSING
  | ERROR_CONNECTION_RESET
  | ERROR_NOT_CONNECTED
  | ERROR_ALREADY_CONNECTED
  | ERROR_INVALID_SOCKET
  | ERROR_TIMEOUT
  | ERROR_INVALID_ADDRESS
  | ERROR_NOT_CONFIGURED
  | ERROR_NO_ROUTE
  | ERROR_END_OF_STREAM
  | ERROR_INVALID_HEADER
  | ERROR_INVALID_LENGTH
  | ERROR_WRONG_CHECKSUM
  | ERROR_RECEIVE_QUEUE_FULL
  | ERROR_PORT_UNREACHABLE
  | ERROR_INVALID_TYPE
  | ERROR_WRONG_IDENTIFIER
  | ERROR_PROTOCOL_UNREACHABLE
  | ERROR_NOT_IMPLEMENTED
  | ERROR_IN_PROGRESS
  | ERROR_NO_ADDRESS
  | ERROR_NOT_FOUND
  | ERROR_UNEXPECTED_STATE
  | ERROR_OUT_OF_RANGE
  | ERROR_ADDRESS_NOT_FOUND
  | ERROR_INVALID_SYNTAX
  | ERROR_INVALID_INTERFACE
  | ERROR_INVALID_PROTOCOL
  | ERROR_TRANSMITTER_BUSY
  | ERROR_INVALID_MESSAGE
  | ERROR_BUFFER_OVERFLOW | ERROR_NO_DNS_SERVER | ERROR_INVALID_OPTION
  | ERROR_UNKNOWN_OPTION | ERROR_UNEXPECTED_MESSAGE | ERROR_BUFFER_EMPTY | ERROR_INVALID_VALUE

named_theorems frame_simps \<open>fields an operation leaves unchanged\<close>
named_theorems ext_simps \<open>effects of calls outside the modelled code\<close>

section \<open>Overwriting a run of a list\<close>

definition list_write :: "'a list \<Rightarrow> nat \<Rightarrow> 'a list \<Rightarrow> 'a list" where
  "list_write xs i ys = take i xs @ ys @ drop (i + length ys) xs"

lemma length_list_write [simp]:
  "i + length ys \<le> length xs \<Longrightarrow> length (list_write xs i ys) = length xs"
  by (simp add: list_write_def)

lemma list_write_Nil [simp]: "i \<le> length xs \<Longrightarrow> list_write xs i [] = xs"
  by (simp add: list_write_def)

lemma nth_list_write:
  assumes "i + length ys \<le> length xs" and "k < length xs"
  shows "list_write xs i ys ! k = (if i \<le> k \<and> k < i + length ys then ys ! (k - i) else xs ! k)"
  using assms by (auto simp: list_write_def nth_append min_def not_less)

lemma list_write_append1:
  "i + length ys \<le> length xs \<Longrightarrow> list_write (xs @ zs) i ys = list_write xs i ys @ zs"
  by (simp add: list_write_def)

lemma list_write_append2:
  "length xs \<le> i \<Longrightarrow> list_write (xs @ zs) i ys = xs @ list_write zs (i - length xs) ys"
  by (simp add: list_write_def)

lemma list_write_split:
  assumes "i + length ys + length zs \<le> length xs"
  shows "list_write (list_write xs i ys) (i + length ys) zs = list_write xs i (ys @ zs)"
  using assms by (simp add: list_write_def ac_simps)

lemma take_list_write:
  "i + length ys \<le> n \<Longrightarrow> n \<le> length xs \<Longrightarrow> take n (list_write xs i ys) = list_write (take n xs) i ys"
  by (cases "n = i") (auto simp: list_write_def min_def take_drop)

section \<open>Byte order\<close>

text \<open>Most significant byte first (network order) and least significant byte first (the host).\<close>

definition be16 :: "u16 \<Rightarrow> u8 list" where
  "be16 x = [ucast (drop_bit 8 x), ucast x]"

definition le16 :: "u16 \<Rightarrow> u8 list" where
  "le16 x = [ucast x, ucast (drop_bit 8 x)]"

definition be32 :: "u32 \<Rightarrow> u8 list" where
  "be32 x = [ucast (drop_bit 24 x), ucast (drop_bit 16 x), ucast (drop_bit 8 x), ucast x]"

definition of_be16 :: "u8 \<Rightarrow> u8 \<Rightarrow> u16" where
  "of_be16 a b = push_bit 8 (ucast a) OR ucast b"

definition of_le16 :: "u8 \<Rightarrow> u8 \<Rightarrow> u16" where
  "of_le16 a b = push_bit 8 (ucast b) OR ucast a"

definition of_be32 :: "u8 \<Rightarrow> u8 \<Rightarrow> u8 \<Rightarrow> u8 \<Rightarrow> u32" where
  "of_be32 a b c d =
     push_bit 24 (ucast a) OR push_bit 16 (ucast b) OR push_bit 8 (ucast c) OR ucast d"

lemma of_be16_be16 [simp]: "of_be16 (ucast (drop_bit 8 x)) (ucast x) = x"
  by (rule bit_word_eqI) (auto simp: of_be16_def bit_simps)

lemma of_le16_le16 [simp]: "of_le16 (ucast x) (ucast (drop_bit 8 x)) = x"
  by (rule bit_word_eqI) (auto simp: of_le16_def bit_simps)

lemma of_be32_be32 [simp]:
  "of_be32 (ucast (drop_bit 24 x)) (ucast (drop_bit 16 x)) (ucast (drop_bit 8 x)) (ucast x) = x"
proof (rule bit_word_eqI)
  fix n :: nat
  assume "n < LENGTH(32)"
  then consider "n < 8" | "8 \<le> n" "n < 16" | "16 \<le> n" "n < 24" | "24 \<le> n" "n < 32"
    by fastforce
  then show "bit (of_be32 (ucast (drop_bit 24 x)) (ucast (drop_bit 16 x)) (ucast (drop_bit 8 x)) (ucast x)) n
      = bit x n"
    by cases (auto simp: of_be32_def bit_simps)
qed

lemma length_be [simp]: "length (be16 x) = 2" "length (le16 x) = 2" "length (be32 y) = 4"
  by (simp_all add: be16_def le16_def be32_def)

section \<open>Ranges of machine integers\<close>

lemma u8_bound: "unat (x::u8) < 256"
  using unsigned_less [of x, where ?'a = nat] by simp

lemma u16_bound: "unat (x::u16) < 65536"
  using unsigned_less [of x, where ?'a = nat] by simp

lemma u32_bound: "unat (x::u32) < 4294967296"
  using unsigned_less [of x, where ?'a = nat] by simp

text \<open>Reading words as natural numbers: shifts, masks and conversions.\<close>

lemma unat_and_FFFF: "unat ((c::u32) AND 0xFFFF) = unat c mod 65536"
proof -
  have "(0xFFFF::u32) = mask 16" by (simp add: mask_eq_exp_minus_1)
  then have "c AND 0xFFFF = take_bit 16 c" by (simp only: take_bit_eq_mask)
  then show ?thesis by (simp only: unsigned_take_bit_eq) (simp add: take_bit_eq_mod)
qed

lemma unat_drop_bit: "unat (drop_bit n (c::'a::len word)) = unat c div 2 ^ n"
  by (simp only: unat_drop_bit_eq) (simp add: drop_bit_eq_div)

lemma unat_ucast_8_32 [simp]: "unat (ucast (b::u8) :: u32) = unat b"
  using u8_bound [of b] by (simp add: unsigned_ucast_eq take_bit_nat_eq_self)

lemma unat_ucast_16_32 [simp]: "unat (ucast (b::u16) :: u32) = unat b"
  using u16_bound [of b] by (simp add: unsigned_ucast_eq take_bit_nat_eq_self)

lemma unat_ucast_32_16: "unat (ucast (b::u32) :: u16) = unat b mod 65536"
  by (simp add: unsigned_ucast_eq take_bit_eq_mod)

lemma unat_push_bit: "unat (push_bit n (c::'a::len word)) = unat c * 2 ^ n mod 2 ^ LENGTH('a)"
  by (simp only: unsigned_push_bit_eq) (simp add: take_bit_eq_mod push_bit_eq_mult)

lemma unat_add_nowrap: "unat a + unat b < 2 ^ LENGTH('a) \<Longrightarrow> unat (a + b) = unat a + unat (b::'a::len word)"
  by (simp add: unat_word_ariths)

lemma unat_xor_FFFF: "unat ((c::u32) XOR 0xFFFF) = 65535 - unat c" if "unat c \<le> 65535"
proof -
  have m: "(0xFFFF::u32) = mask 16" by (simp add: mask_eq_exp_minus_1)
  have c: "c = take_bit 16 c"
    using that by (intro word_unat_eq_iff [THEN iffD2]) (simp only: unsigned_take_bit_eq, simp add: take_bit_nat_eq_self)
  have b: "bit c n \<Longrightarrow> n < 16" for n
    by (subst (asm) c) (simp add: bit_take_bit_iff)
  have "(c XOR mask 16) + c = (c XOR mask 16) OR c"
    by (rule disjunctive_add) (auto simp: bit_simps dest: b)
  also have "\<dots> = mask 16"
    by (rule bit_eqI) (auto simp: bit_simps dest: b)
  finally have "c XOR mask 16 = mask 16 - c" by (simp add: eq_diff_eq)
  then have "c XOR 0xFFFF = 0xFFFF - c" by (simp only: m)
  moreover have "c \<le> 0xFFFF" using that by (simp add: word_le_nat_alt)
  ultimately show ?thesis by (simp add: unat_sub)
qed

text \<open>The signed reading of a 32-bit difference.\<close>

lemma sint_u32:
  "sint (w::u32) = (if unat w < 2147483648 then int (unat w) else int (unat w) - 4294967296)"
proof -
  define k where "k = int (unat w)"
  have s: "sint w = (k + 2147483648) mod 4294967296 - 2147483648"
    unfolding k_def
    by (simp only: sint_uint signed_take_bit_eq_take_bit_shift take_bit_eq_mod uint_nat) simp
  have k: "0 \<le> k" "k < 4294967296" using u32_bound [of w] unfolding k_def by linarith+
  have "(k + 2147483648) mod 4294967296 = k - 2147483648" if "\<not> k < 2147483648"
  proof -
    have "(k + 2147483648) mod 4294967296 = (k - 2147483648 + 4294967296) mod 4294967296" by (simp add: add.commute)
    also have "\<dots> = k - 2147483648" using that k by (simp only: mod_add_self2) simp
    finally show ?thesis .
  qed
  moreover have "(k + 2147483648) mod 4294967296 = k + 2147483648" if "k < 2147483648"
    using that k by simp
  moreover have "unat w < 2147483648 \<longleftrightarrow> k < 2147483648" unfolding k_def by linarith
  ultimately show ?thesis unfolding s k_def [symmetric] by simp
qed

lemma sint_nonneg_iff: "0 \<le> sint (w::u32) \<longleftrightarrow> unat w < 2147483648"
  unfolding sint_u32 using u32_bound [of w] by (auto simp only: split: if_splits)

lemma sint_pos_iff: "0 < sint (w::u32) \<longleftrightarrow> 0 < unat w \<and> unat w < 2147483648"
  unfolding sint_u32 using u32_bound [of w] by (auto simp only: split: if_splits)

lemma unat_diff_u32:
  "unat ((a::u32) - b) = (if unat b \<le> unat a then unat a - unat b else unat a + 4294967296 - unat b)"
  using u32_bound [of a] u32_bound [of b] by (simp add: unat_sub_if_size word_size)

lemma unat_ucast_32_16_small: "unat (w::u32) < 65536 \<Longrightarrow> unat (ucast w :: u16) = unat w"
  by (simp add: unat_ucast_32_16)

lemma unat_word_of_nat_u32: "n < 4294967296 \<Longrightarrow> unat (word_of_nat n :: u32) = n"
  by (simp add: unsigned_of_nat take_bit_nat_eq_self)

end
