(* ===== verification/Net_Mem.thy ===== *)
theory Net_Mem
  imports Prelude
begin

text \<open>
  Memory management (\<open>core/net_mem.c\<close>): the fixed-size block pool and the multi-part
  buffers (\<open>NetBuffer\<close>) every protocol layer passes around.

  The pool is the allocation table with its two usage statistics; a block is named by its index
  in \<open>memPool\<close>.
  A multi-part buffer is the list of its chunk descriptors: \<open>chunkCount\<close> is the length of
  that list, the array slots behind it hold no data. A descriptor carries the address of its
  first byte (only the alignment of it matters, to the checksum) and the bytes stored there;
  \<open>chLength\<close> of them belong to the buffer, and \<open>chSize\<close> is nonzero for a chunk whose
  block the buffer owns. Lengths are natural numbers: no sum of chunk lengths reaches
  \<open>2^32\<close>; the one narrowing assignment (\<open>netBufferAppend\<close> stores a \<open>size_t\<close> in a
  \<open>uint16_t\<close>) is written out.

  \<open>netBufferSetLength\<close> takes the allocator as a parameter, since the build chooses between
  the block pool and the heap of the operating system; the locale \<open>block_allocator\<close> says
  what it relies on, and the pool is shown to provide it.
  The locale \<open>byte_store\<close> is what the TCP buffers need of a multi-part buffer: reads and
  writes act on the flat sequence of bytes.
\<close>

section \<open>The block pool\<close>

definition NET_MEM_POOL_BUFFER_COUNT :: nat where "NET_MEM_POOL_BUFFER_COUNT = 32"
definition NET_MEM_POOL_BUFFER_SIZE :: nat where "NET_MEM_POOL_BUFFER_SIZE = 1536"

record mem_pool =
  memPoolAllocTable :: "bool list"
  memPoolCurrentUsage :: u32
  memPoolMaxUsage :: u32

text \<open>\<open>mutexOk\<close>: the result of \<open>osCreateMutex\<close>; the table is cleared only when it succeeds.\<close>

definition memPoolInit :: "bool \<Rightarrow> mem_pool \<Rightarrow> error_t \<times> mem_pool" where
  "memPoolInit mutexOk p =
     (if \<not> mutexOk then (ERROR_OUT_OF_RESOURCES, p)
      else (NO_ERROR, \<lparr>memPoolAllocTable = replicate NET_MEM_POOL_BUFFER_COUNT False,
                       memPoolCurrentUsage = 0, memPoolMaxUsage = 0\<rparr>))"

text \<open>The loop over the allocation table: the first entry that is not in use.\<close>

fun first_free :: "bool list \<Rightarrow> nat option" where
  "first_free [] = None"
| "first_free (b # bs) = (if \<not> b then Some 0 else map_option Suc (first_free bs))"

definition memPoolAlloc :: "nat \<Rightarrow> mem_pool \<Rightarrow> nat option \<times> mem_pool" where
  "memPoolAlloc sz p =
     (if sz \<le> NET_MEM_POOL_BUFFER_SIZE then
        (case first_free (memPoolAllocTable p) of
           None \<Rightarrow> (None, p)
         | Some i \<Rightarrow>
             (let usage = memPoolCurrentUsage p + 1
              in (Some i, p\<lparr>memPoolAllocTable := (memPoolAllocTable p)[i := True],
                            memPoolCurrentUsage := usage,
                            memPoolMaxUsage := max usage (memPoolMaxUsage p)\<rparr>)))
      else (None, p))"

text \<open>A pointer that is not the start of a block of the pool is ignored.\<close>

definition memPoolFree :: "nat \<Rightarrow> mem_pool \<Rightarrow> mem_pool" where
  "memPoolFree i p =
     (if i < length (memPoolAllocTable p)
      then p\<lparr>memPoolAllocTable := (memPoolAllocTable p)[i := False],
             memPoolCurrentUsage := memPoolCurrentUsage p - 1\<rparr>
      else p)"

definition memPoolGetStats :: "mem_pool \<Rightarrow> u32 \<times> u32 \<times> nat" where
  "memPoolGetStats p =
     (memPoolCurrentUsage p, memPoolMaxUsage p, NET_MEM_POOL_BUFFER_COUNT)"

subsection \<open>Invariant of the pool\<close>

definition pool_live :: "mem_pool \<Rightarrow> nat set" where
  "pool_live p = {i. i < length (memPoolAllocTable p) \<and> memPoolAllocTable p ! i}"

definition pool_inv :: "mem_pool \<Rightarrow> bool" where
  "pool_inv p \<longleftrightarrow>
     length (memPoolAllocTable p) = NET_MEM_POOL_BUFFER_COUNT \<and>
     unat (memPoolCurrentUsage p) = card (pool_live p) \<and>
     memPoolCurrentUsage p \<le> memPoolMaxUsage p \<and>
     unat (memPoolMaxUsage p) \<le> NET_MEM_POOL_BUFFER_COUNT"

lemma first_free_None: "first_free bs = None \<longleftrightarrow> (\<forall>b \<in> set bs. b)"
  by (induction bs) auto

lemma first_free_Some:
  "first_free bs = Some i \<Longrightarrow> i < length bs \<and> \<not> bs ! i \<and> (\<forall>j < i. bs ! j)"
proof (induction bs arbitrary: i)
  case Nil
  then show ?case by simp
next
  case (Cons b bs)
  then show ?case
    by (auto split: if_splits simp: less_Suc_eq_0_disj)
qed

lemma finite_pool_live [simp]: "finite (pool_live p)"
  by (simp add: pool_live_def)

lemma pool_live_le: "card (pool_live p) \<le> length (memPoolAllocTable p)"
proof -
  have "pool_live p \<subseteq> {..< length (memPoolAllocTable p)}" by (auto simp: pool_live_def)
  from card_mono [OF _ this] show ?thesis by simp
qed

lemma pool_live_set_True:
  "i < length (memPoolAllocTable p) \<Longrightarrow>
   pool_live (p\<lparr>memPoolAllocTable := (memPoolAllocTable p)[i := True],
               memPoolCurrentUsage := u, memPoolMaxUsage := m\<rparr>) = insert i (pool_live p)"
  by (auto simp: pool_live_def nth_list_update)

lemma pool_live_set_False:
  "pool_live (p\<lparr>memPoolAllocTable := (memPoolAllocTable p)[i := False],
               memPoolCurrentUsage := u\<rparr>) = pool_live p - {i}"
  by (auto simp: pool_live_def nth_list_update) (metis nth_list_update_neq nth_list_update_eq)+

lemma pool_inv_init: "memPoolInit True p = (e, p') \<Longrightarrow> pool_inv p'"
  by (auto simp: memPoolInit_def pool_inv_def pool_live_def)

lemma memPoolAlloc_Some:
  assumes "pool_inv p" and "memPoolAlloc sz p = (Some i, p')"
  shows "i \<notin> pool_live p" and "pool_live p' = insert i (pool_live p)" and "pool_inv p'"
    and "i < NET_MEM_POOL_BUFFER_COUNT"
proof -
  from assms(2) have ff: "first_free (memPoolAllocTable p) = Some i"
    and p': "p' = p\<lparr>memPoolAllocTable := (memPoolAllocTable p)[i := True],
      memPoolCurrentUsage := memPoolCurrentUsage p + 1,
      memPoolMaxUsage := max (memPoolCurrentUsage p + 1) (memPoolMaxUsage p)\<rparr>"
    by (auto simp: memPoolAlloc_def Let_def split: if_splits option.splits)
  from first_free_Some [OF ff]
  have i: "i < length (memPoolAllocTable p)" and free: "\<not> memPoolAllocTable p ! i" by auto
  from free show ni: "i \<notin> pool_live p" by (simp add: pool_live_def)
  show live: "pool_live p' = insert i (pool_live p)"
    unfolding p' by (rule pool_live_set_True [OF i])
  from i assms(1) show "i < NET_MEM_POOL_BUFFER_COUNT" by (simp add: pool_inv_def)
  have card': "card (pool_live p') = Suc (card (pool_live p))"
    using live ni by simp
  have le: "card (pool_live p') \<le> 32"
    using pool_live_le [of p'] assms(1)
    by (simp add: p' pool_inv_def NET_MEM_POOL_BUFFER_COUNT_def)
  have "unat (memPoolCurrentUsage p + 1) = card (pool_live p')"
    using assms(1) card' le by (simp add: pool_inv_def unat_word_ariths)
  then show "pool_inv p'"
    using assms(1) le by (auto simp: p' pool_inv_def max_def NET_MEM_POOL_BUFFER_COUNT_def
        pool_live_set_True [OF i, symmetric])
qed

lemma memPoolAlloc_None:
  assumes "memPoolAlloc sz p = (None, p')"
  shows "p' = p" and "sz \<le> NET_MEM_POOL_BUFFER_SIZE \<Longrightarrow> pool_live p = {..< length (memPoolAllocTable p)}"
  using assms
  by (auto simp: memPoolAlloc_def Let_def pool_live_def first_free_None all_set_conv_all_nth
      split: if_splits option.splits)

lemma memPoolFree_live: "pool_live (memPoolFree i p) = pool_live p - {i}"
  by (auto simp: memPoolFree_def pool_live_set_False) (auto simp: pool_live_def)

lemma memPoolFree_inv:
  assumes "pool_inv p" and "i \<in> pool_live p"
  shows "pool_inv (memPoolFree i p)"
proof -
  from assms(2) have i: "i < length (memPoolAllocTable p)" by (simp add: pool_live_def)
  have pos: "0 < card (pool_live p)" using assms(2) by (auto simp: card_gt_0_iff)
  have "unat (memPoolCurrentUsage p - 1) = unat (memPoolCurrentUsage p) - 1"
    using assms(1) pos by (intro unat_minus_one) (auto simp: pool_inv_def)
  moreover have "memPoolCurrentUsage p - 1 \<le> memPoolMaxUsage p"
    using assms(1) pos calculation by (auto simp: pool_inv_def word_le_nat_alt)
  ultimately show ?thesis
    using assms i by (simp add: memPoolFree_def pool_inv_def pool_live_set_False)
qed

subsection \<open>The allocator interface\<close>

text \<open>
  What the multi-part buffers rely on: an allocated block was not in use before and is in use
  afterwards, a failed request changes nothing, releasing a block makes exactly that block
  available again.
\<close>

locale block_allocator =
  fixes alloc :: "'p \<Rightarrow> nat option \<times> 'p"
    and free :: "nat \<Rightarrow> 'p \<Rightarrow> 'p"
    and live :: "'p \<Rightarrow> nat set"
    and inv :: "'p \<Rightarrow> bool"
  assumes alloc_fresh: "inv p \<Longrightarrow> alloc p = (Some b, p') \<Longrightarrow> b \<notin> live p"
    and alloc_live: "inv p \<Longrightarrow> alloc p = (Some b, p') \<Longrightarrow> live p' = insert b (live p)"
    and alloc_inv: "inv p \<Longrightarrow> alloc p = (r, p') \<Longrightarrow> inv p'"
    and alloc_None: "inv p \<Longrightarrow> alloc p = (None, p') \<Longrightarrow> p' = p"
    and free_live: "inv p \<Longrightarrow> b \<in> live p \<Longrightarrow> live (free b p) = live p - {b}"
    and free_inv: "inv p \<Longrightarrow> b \<in> live p \<Longrightarrow> inv (free b p)"

interpretation pool: block_allocator
  "memPoolAlloc NET_MEM_POOL_BUFFER_SIZE" memPoolFree pool_live pool_inv
proof unfold_locales
  fix p p' r assume "pool_inv p" "memPoolAlloc NET_MEM_POOL_BUFFER_SIZE p = (r, p')"
  then show "pool_inv p'"
    by (cases r) (auto dest: memPoolAlloc_None(1) memPoolAlloc_Some(3))
qed (auto dest: memPoolAlloc_Some memPoolAlloc_None(1) simp: memPoolFree_live memPoolFree_inv)

section \<open>Multi-part buffers\<close>

record ChunkDesc =
  address :: nat
  storage :: "u8 list"
  chLength :: nat
  chSize :: nat

record NetBuffer =
  maxChunkCount :: nat
  chunk :: "ChunkDesc list"

abbreviation chunkCount :: "NetBuffer \<Rightarrow> nat" where
  "chunkCount b \<equiv> length (chunk b)"

definition netBufferGetLength :: "NetBuffer \<Rightarrow> nat" where
  "netBufferGetLength b = foldl (\<lambda>len c. len + chLength c) 0 (chunk b)"

subsection \<open>Changing the length\<close>

text \<open>
  First loop of \<open>netBufferSetLength\<close>: walk the chunks while some length is left, shortening
  the chunk where the requested length ends, or using the spare room of the last one. The result is
  the chunks walked over, the length left and the chunks not reached.
\<close>

fun set_length_walk :: "ChunkDesc list \<Rightarrow> nat \<Rightarrow> ChunkDesc list \<times> nat \<times> ChunkDesc list" where
  "set_length_walk [] len = ([], len, [])"
| "set_length_walk (c # cs) len =
     (if len = 0 then ([], 0, c # cs)
      else
        let c' = (if len \<le> chLength c then c\<lparr>chLength := len\<rparr>
                  else if 0 < chSize c \<and> cs = [] then c\<lparr>chLength := min len (chSize c)\<rparr>
                  else c);
            (done, left, rest) = set_length_walk cs (len - chLength c')
        in (c' # done, left, rest))"

text \<open>Releasing the chunks behind the new end: only owned blocks go back to the allocator.\<close>

fun release_chunks :: "(nat \<Rightarrow> 'p \<Rightarrow> 'p) \<Rightarrow> ChunkDesc list \<Rightarrow> 'p \<Rightarrow> 'p" where
  "release_chunks free [] p = p"
| "release_chunks free (c # cs) p =
     release_chunks free cs (if 0 < chSize c then free (address c) p else p)"

text \<open>
  Adding chunks until the length is reached: \<open>k\<close> array slots are left, \<open>mem a\<close> is the
  content of the block at address \<open>a\<close>.
\<close>

fun add_chunks :: "('p \<Rightarrow> nat option \<times> 'p) \<Rightarrow> (nat \<Rightarrow> u8 list) \<Rightarrow> nat \<Rightarrow> nat \<Rightarrow> 'p \<Rightarrow>
    error_t \<times> 'p \<times> ChunkDesc list" where
  "add_chunks alloc mem 0 len p = (if 0 < len then ERROR_OUT_OF_RESOURCES else NO_ERROR, p, [])"
| "add_chunks alloc mem (Suc k) len p =
     (if len = 0 then (NO_ERROR, p, [])
      else case alloc p of
        (None, p) \<Rightarrow> (ERROR_OUT_OF_MEMORY, p, [])
      | (Some a, p) \<Rightarrow>
          let c = \<lparr>address = a, storage = mem a,
                   chLength = min len NET_MEM_POOL_BUFFER_SIZE,
                   chSize = NET_MEM_POOL_BUFFER_SIZE\<rparr>;
              (e, p, cs) = add_chunks alloc mem k (len - chLength c) p
          in (e, p, c # cs))"

definition netBufferSetLength :: "('p \<Rightarrow> nat option \<times> 'p) \<Rightarrow> (nat \<Rightarrow> 'p \<Rightarrow> 'p) \<Rightarrow> (nat \<Rightarrow> u8 list) \<Rightarrow>
    'p \<Rightarrow> NetBuffer \<Rightarrow> nat \<Rightarrow> error_t \<times> 'p \<times> NetBuffer" where
  "netBufferSetLength alloc free mem p b len =
     (case set_length_walk (chunk b) len of
        (done, left, rest) \<Rightarrow>
          if left = 0 then (NO_ERROR, release_chunks free rest p, b\<lparr>chunk := done\<rparr>)
          else case add_chunks alloc mem (maxChunkCount b - length done) left p of
            (e, p, new) \<Rightarrow> (e, p, b\<lparr>chunk := done @ new\<rparr>))"

subsection \<open>Allocation and release\<close>

text \<open>
  \<open>N(8192) + 3\<close> chunks, for the largest datagram that is reassembled; the descriptors take
  \<open>8 + 9 * 8\<close> bytes at the front of the block, the rest of the block is the first chunk.
\<close>

definition MAX_CHUNK_COUNT :: nat where "MAX_CHUNK_COUNT = 9"
definition CHUNKED_BUFFER_HEADER_SIZE :: nat where "CHUNKED_BUFFER_HEADER_SIZE = 80"

definition netBufferFree :: "('p \<Rightarrow> nat option \<times> 'p) \<Rightarrow> (nat \<Rightarrow> 'p \<Rightarrow> 'p) \<Rightarrow> (nat \<Rightarrow> u8 list) \<Rightarrow>
    'p \<Rightarrow> nat \<Rightarrow> NetBuffer \<Rightarrow> 'p" where
  "netBufferFree alloc free mem p a b =
     (case netBufferSetLength alloc free mem p b 0 of (e, p, b) \<Rightarrow> free a p)"

definition netBufferAlloc :: "('p \<Rightarrow> nat option \<times> 'p) \<Rightarrow> (nat \<Rightarrow> 'p \<Rightarrow> 'p) \<Rightarrow> (nat \<Rightarrow> u8 list) \<Rightarrow>
    'p \<Rightarrow> nat \<Rightarrow> (nat \<times> NetBuffer) option \<times> 'p" where
  "netBufferAlloc alloc free mem p len =
     (case alloc p of
        (None, p) \<Rightarrow> (None, p)
      | (Some a, p) \<Rightarrow>
          let b = \<lparr>maxChunkCount = MAX_CHUNK_COUNT,
                   chunk = [\<lparr>address = a + CHUNKED_BUFFER_HEADER_SIZE,
                             storage = drop CHUNKED_BUFFER_HEADER_SIZE (mem a),
                             chLength = NET_MEM_POOL_BUFFER_SIZE - CHUNKED_BUFFER_HEADER_SIZE,
                             chSize = 0\<rparr>]\<rparr>
          in case netBufferSetLength alloc free mem p b len of
               (e, p, b) \<Rightarrow>
                 if e \<noteq> NO_ERROR then (None, netBufferFree alloc free mem p a b)
                 else (Some (a, b), p))"

subsection \<open>Positions\<close>

text \<open>The pointer returned: address and bytes from the given offset to the end of the block.\<close>

fun chunk_at :: "ChunkDesc list \<Rightarrow> nat \<Rightarrow> (nat \<times> u8 list) option" where
  "chunk_at [] off = None"
| "chunk_at (c # cs) off =
     (if off < chLength c then Some (address c + off, drop off (storage c))
      else chunk_at cs (off - chLength c))"

definition netBufferAt :: "NetBuffer \<Rightarrow> nat \<Rightarrow> (nat \<times> u8 list) option" where
  "netBufferAt b off = chunk_at (chunk b) off"

text \<open>Skipping the chunks before an offset: the chunks not skipped and the offset in the first.\<close>

fun skip_chunks :: "ChunkDesc list \<Rightarrow> nat \<Rightarrow> ChunkDesc list \<times> nat" where
  "skip_chunks [] off = ([], off)"
| "skip_chunks (c # cs) off =
     (if off < chLength c then (c # cs, off) else skip_chunks cs (off - chLength c))"

subsection \<open>Concatenation and append\<close>

text \<open>\<open>k\<close>: array slots left in the destination. The new chunks share the bytes of the source.\<close>

fun concat_loop :: "nat \<Rightarrow> ChunkDesc list \<Rightarrow> nat \<Rightarrow> nat \<Rightarrow> ChunkDesc list \<times> nat" where
  "concat_loop k [] off len = ([], len)"
| "concat_loop k (c # cs) off len =
     (if 0 < len \<and> 0 < k then
        let n = (if len < chLength c - off then len else chLength c - off);
            d = \<lparr>address = address c + off, storage = drop off (storage c), chLength = n, chSize = 0\<rparr>;
            (ds, left) = concat_loop (k - 1) cs 0 (len - n)
        in (d # ds, left)
      else ([], len))"

definition netBufferConcat :: "NetBuffer \<Rightarrow> NetBuffer \<Rightarrow> nat \<Rightarrow> nat \<Rightarrow> error_t \<times> NetBuffer" where
  "netBufferConcat dest src srcOffset len =
     (case skip_chunks (chunk src) srcOffset of
        ([], _) \<Rightarrow> (ERROR_INVALID_PARAMETER, dest)
      | (c # cs, off) \<Rightarrow>
          case concat_loop (maxChunkCount dest - chunkCount dest) (c # cs) off len of
            (ds, left) \<Rightarrow> (if 0 < left then ERROR_FAILURE else NO_ERROR,
                          dest\<lparr>chunk := chunk dest @ ds\<rparr>))"

definition netBufferAppend :: "NetBuffer \<Rightarrow> nat \<Rightarrow> u8 list \<Rightarrow> nat \<Rightarrow> error_t \<times> NetBuffer" where
  "netBufferAppend dest addr src len =
     (if maxChunkCount dest \<le> chunkCount dest then (ERROR_FAILURE, dest)
      else (NO_ERROR, dest\<lparr>chunk := chunk dest @
              [\<lparr>address = addr, storage = src, chLength = len mod 2 ^ 16, chSize = 0\<rparr>]\<rparr>))"

subsection \<open>Copying\<close>

text \<open>One step of \<open>osMemcpy\<close> into the storage of a chunk.\<close>

definition chunk_put :: "ChunkDesc \<Rightarrow> nat \<Rightarrow> u8 list \<Rightarrow> ChunkDesc" where
  "chunk_put c off xs = c\<lparr>storage := list_write (storage c) off xs\<rparr>"

function copy_loop :: "ChunkDesc list \<Rightarrow> nat \<Rightarrow> ChunkDesc list \<Rightarrow> nat \<Rightarrow> nat \<Rightarrow> nat \<times> ChunkDesc list" where
  "copy_loop [] doff ss soff len = (len, [])"
| "copy_loop (d # ds) doff [] soff len = (len, d # ds)"
| "copy_loop (d # ds) doff (s # ss) soff len =
     (if len = 0 then (0, d # ds)
      else
        let n = min (min len (chLength d - doff)) (chLength s - soff);
            d' = chunk_put d doff (take n (drop soff (storage s)));
            ss' = (if chLength s \<le> soff + n then ss else s # ss);
            soff' = (if chLength s \<le> soff + n then 0 else soff + n)
        in if chLength d \<le> doff + n
           then (case copy_loop ds 0 ss' soff' (len - n) of (left, ds') \<Rightarrow> (left, d' # ds'))
           else copy_loop (d' # ds) (doff + n) ss' soff' (len - n))"
  by pat_completeness auto
termination
proof (relation "measure (\<lambda>(ds, doff, ss, soff, len). length ds + length ss + (if len = 0 then 0 else 1))",
    goal_cases)
  case (3 d ds doff s ss soff len n)
  then have "n = len \<or> n = chLength s - soff" by (simp add: min_def split: if_splits)
  then show ?case using 3 by fastforce
qed simp_all

declare copy_loop.simps(3) [simp del]

definition netBufferCopy :: "NetBuffer \<Rightarrow> nat \<Rightarrow> NetBuffer \<Rightarrow> nat \<Rightarrow> nat \<Rightarrow> error_t \<times> NetBuffer" where
  "netBufferCopy dest destOffset src srcOffset len =
     (case skip_chunks (chunk dest) destOffset of
        ([], _) \<Rightarrow> (ERROR_INVALID_PARAMETER, dest)
      | (d # ds, doff) \<Rightarrow>
         (case skip_chunks (chunk src) srcOffset of
            ([], _) \<Rightarrow> (ERROR_INVALID_PARAMETER, dest)
          | (s # ss, soff) \<Rightarrow>
             (case copy_loop (d # ds) doff (s # ss) soff len of
                (left, ds') \<Rightarrow>
                  (if 0 < left then ERROR_FAILURE else NO_ERROR,
                   dest\<lparr>chunk := take (chunkCount dest - length (d # ds)) (chunk dest) @ ds'\<rparr>))))"

text \<open>Writing a user buffer: the bytes not yet written are passed along.\<close>

fun write_loop :: "ChunkDesc list \<Rightarrow> nat \<Rightarrow> u8 list \<Rightarrow> nat \<times> ChunkDesc list" where
  "write_loop [] off src = (0, [])"
| "write_loop (c # cs) off src =
     (if src = [] then (0, c # cs)
      else if off < chLength c then
        let n = min (length src) (chLength c - off);
            (t, cs') = write_loop cs 0 (drop n src)
        in (n + t, chunk_put c off (take n src) # cs')
      else
        let (t, cs') = write_loop cs (off - chLength c) src in (t, c # cs'))"

definition netBufferWrite :: "NetBuffer \<Rightarrow> nat \<Rightarrow> u8 list \<Rightarrow> nat \<times> NetBuffer" where
  "netBufferWrite dest destOffset src =
     (case write_loop (chunk dest) destOffset src of (t, cs) \<Rightarrow> (t, dest\<lparr>chunk := cs\<rparr>))"

text \<open>Reading: the bytes copied to the user buffer, whose number is the return value.\<close>

fun read_loop :: "ChunkDesc list \<Rightarrow> nat \<Rightarrow> nat \<Rightarrow> u8 list" where
  "read_loop [] off len = []"
| "read_loop (c # cs) off len =
     (if len = 0 then []
      else if off < chLength c then
        let n = min len (chLength c - off)
        in take n (drop off (storage c)) @ read_loop cs 0 (len - n)
      else read_loop cs (off - chLength c) len)"

definition netBufferRead :: "NetBuffer \<Rightarrow> nat \<Rightarrow> nat \<Rightarrow> u8 list" where
  "netBufferRead src srcOffset len = read_loop (chunk src) srcOffset len"

section \<open>The flat view of a buffer\<close>

text \<open>
  The abstract content of a buffer is the concatenation of its chunks. Every operation is an
  operation on that sequence of bytes, whatever the chunk boundaries are.
\<close>

definition chunk_bytes :: "ChunkDesc \<Rightarrow> u8 list" where
  "chunk_bytes c = take (chLength c) (storage c)"

abbreviation chunks_bytes :: "ChunkDesc list \<Rightarrow> u8 list" where
  "chunks_bytes cs \<equiv> concat (map chunk_bytes cs)"

definition nb_bytes :: "NetBuffer \<Rightarrow> u8 list" where
  "nb_bytes b = chunks_bytes (chunk b)"

definition chunk_wf :: "ChunkDesc \<Rightarrow> bool" where
  "chunk_wf c \<longleftrightarrow> chLength c \<le> length (storage c)"

definition nb_wf :: "NetBuffer \<Rightarrow> bool" where
  "nb_wf b \<longleftrightarrow> (\<forall>c \<in> set (chunk b). chunk_wf c)"

lemma length_chunk_bytes [simp]: "chunk_wf c \<Longrightarrow> length (chunk_bytes c) = chLength c"
  by (simp add: chunk_wf_def chunk_bytes_def)

lemma chunk_bytes_literal [simp]:
  "chunk_bytes \<lparr>address = a, storage = xs, chLength = n, chSize = z\<rparr> = take n xs"
  by (simp add: chunk_bytes_def)

lemma chunk_put_simps [simp]:
  "chLength (chunk_put c off xs) = chLength c"
  "address (chunk_put c off xs) = address c"
  "chSize (chunk_put c off xs) = chSize c"
  by (simp_all add: chunk_put_def)

lemma chunk_put_wf [simp]:
  "chunk_wf c \<Longrightarrow> off + length xs \<le> chLength c \<Longrightarrow> chunk_wf (chunk_put c off xs)"
  by (simp add: chunk_put_def chunk_wf_def)

lemma chunk_bytes_put:
  "chunk_wf c \<Longrightarrow> off + length xs \<le> chLength c \<Longrightarrow>
   chunk_bytes (chunk_put c off xs) = list_write (chunk_bytes c) off xs"
  by (simp add: chunk_bytes_def chunk_put_def chunk_wf_def take_list_write)

lemma netBufferGetLength_bytes: "nb_wf b \<Longrightarrow> netBufferGetLength b = length (nb_bytes b)"
proof -
  have "foldl (\<lambda>len c. len + chLength c) k cs = k + length (chunks_bytes cs)"
    if "\<forall>c \<in> set cs. chunk_wf c" for k cs
    using that by (induction cs arbitrary: k) auto
  then show "nb_wf b \<Longrightarrow> ?thesis"
    by (simp add: netBufferGetLength_def nb_bytes_def nb_wf_def)
qed

subsection \<open>Reading\<close>

lemma read_loop_bytes:
  "\<forall>c \<in> set cs. chunk_wf c \<Longrightarrow> read_loop cs off len = take len (drop off (chunks_bytes cs))"
proof (induction cs off len rule: read_loop.induct)
  case (1 off len)
  then show ?case by simp
next
  case (2 c cs off len)
  show ?case
  proof (cases "off < chLength c")
    case True
    have "take (min len (chLength c - off)) (drop off (storage c)) = take len (drop off (chunk_bytes c))"
      by (simp add: chunk_bytes_def drop_take take_take min.commute)
    with True 2 show ?thesis by (auto simp: Let_def min_def)
  next
    case False
    with 2 show ?thesis by auto
  qed
qed

lemma netBufferRead_bytes:
  "nb_wf b \<Longrightarrow> netBufferRead b off len = take len (drop off (nb_bytes b))"
  by (simp add: netBufferRead_def nb_bytes_def nb_wf_def read_loop_bytes)

lemma chunk_at_bytes:
  "\<forall>c \<in> set cs. chunk_wf c \<Longrightarrow> chunk_at cs off = Some (a, xs) \<Longrightarrow>
   off < length (chunks_bytes cs) \<and> xs \<noteq> [] \<and> hd xs = chunks_bytes cs ! off"
proof (induction cs arbitrary: off)
  case Nil
  then show ?case by simp
next
  case (Cons c cs)
  show ?case
  proof (cases "off < chLength c")
    case True
    with Cons.prems have "xs = drop off (storage c)" "off < length (storage c)" "chunk_wf c"
      by (auto simp: chunk_wf_def)
    with True show ?thesis
      by (auto simp: nth_append hd_drop_conv_nth) (simp add: chunk_bytes_def)
  next
    case False
    with Cons have "off - chLength c < length (chunks_bytes cs)" "xs \<noteq> []"
      "hd xs = chunks_bytes cs ! (off - chLength c)" by auto
    with False Cons.prems(1) show ?thesis by (simp add: nth_append)
  qed
qed

lemma chunk_at_None_iff:
  "\<forall>c \<in> set cs. chunk_wf c \<Longrightarrow> chunk_at cs off = None \<longleftrightarrow> length (chunks_bytes cs) \<le> off"
  by (induction cs arbitrary: off) auto

subsection \<open>Writing\<close>

lemma write_loop_bytes:
  assumes "\<forall>c \<in> set cs. chunk_wf c" and "off + length src \<le> length (chunks_bytes cs)"
  shows "fst (write_loop cs off src) = length src \<and>
         chunks_bytes (snd (write_loop cs off src)) = list_write (chunks_bytes cs) off src \<and>
         (\<forall>c \<in> set (snd (write_loop cs off src)). chunk_wf c) \<and>
         map chLength (snd (write_loop cs off src)) = map chLength cs"
  using assms
proof (induction cs off src rule: write_loop.induct)
  case (1 off src)
  then show ?case by simp
next
  case (2 c cs off src)
  show ?case
  proof (cases "src = []")
    case True
    with 2 show ?thesis by simp
  next
    case ne: False
    show ?thesis
    proof (cases "off < chLength c")
      case True
      define n where "n = min (length src) (chLength c - off)"
      have n: "n \<le> length src" "off + n \<le> chLength c" using True by (auto simp: n_def)
      have "0 + length (drop n src) \<le> length (chunks_bytes cs)"
        using 2(3,4) True by (auto simp: n_def min_def)
      then have IH: "fst (write_loop cs 0 (drop n src)) = length (drop n src)"
        "chunks_bytes (snd (write_loop cs 0 (drop n src))) = list_write (chunks_bytes cs) 0 (drop n src)"
        "\<forall>c \<in> set (snd (write_loop cs 0 (drop n src))). chunk_wf c"
        "map chLength (snd (write_loop cs 0 (drop n src))) = map chLength cs"
        using 2(1) [OF ne True n_def] 2(3) by auto
      have fits: "off + length (take n src) \<le> chLength c" using n by simp
      have "list_write (chunk_bytes c) off (take n src) @ list_write (chunks_bytes cs) 0 (drop n src) =
            list_write (chunk_bytes c @ chunks_bytes cs) off src"
      proof (cases "length src \<le> chLength c - off")
        case True
        then have "n = length src" by (simp add: n_def)
        with 2(3) fits show ?thesis by (simp add: list_write_append1)
      next
        case False
        then have "off + n = chLength c" "n = chLength c - off" using \<open>off < chLength c\<close> by (auto simp: n_def)
        with 2(3) False show ?thesis
          by (simp add: list_write_def add.commute [of off])
      qed
      with ne True n fits IH 2(3) show ?thesis
        by (simp add: n_def [symmetric] Let_def split_beta chunk_bytes_put)
    next
      case False
      have "off - chLength c + length src \<le> length (chunks_bytes cs)"
        using 2(3,4) False by auto
      then have IH: "fst (write_loop cs (off - chLength c) src) = length src"
        "chunks_bytes (snd (write_loop cs (off - chLength c) src)) =
           list_write (chunks_bytes cs) (off - chLength c) src"
        "\<forall>c \<in> set (snd (write_loop cs (off - chLength c) src)). chunk_wf c"
        "map chLength (snd (write_loop cs (off - chLength c) src)) = map chLength cs"
        using 2(2) [OF ne False] 2(3) by auto
      with ne False 2(3) show ?thesis
        by (simp add: Let_def split_beta list_write_append2)
    qed
  qed
qed

lemma netBufferWrite_bytes:
  assumes "nb_wf b" and "off + length src \<le> length (nb_bytes b)"
  shows "fst (netBufferWrite b off src) = length src"
    and "nb_bytes (snd (netBufferWrite b off src)) = list_write (nb_bytes b) off src"
    and "nb_wf (snd (netBufferWrite b off src))"
  using write_loop_bytes [of "chunk b" off src] assms
  by (simp_all add: netBufferWrite_def nb_bytes_def nb_wf_def split_beta)

subsection \<open>Copying between buffers\<close>

lemma skip_chunks_split:
  assumes "skip_chunks cs off = (cs', off')"
  shows "\<exists>pre. cs = pre @ cs' \<and> off = off' + sum_list (map chLength pre) \<and>
           (cs' \<noteq> [] \<longrightarrow> off' < chLength (hd cs'))"
  using assms
proof (induction cs off rule: skip_chunks.induct)
  case (1 off)
  then show ?case by simp
next
  case (2 c cs off)
  show ?case
  proof (cases "off < chLength c")
    case True
    with 2(2) show ?thesis by (intro exI [of _ "[]"]) auto
  next
    case False
    with 2 obtain pre where "cs = pre @ cs'" "off - chLength c = off' + sum_list (map chLength pre)"
      "cs' \<noteq> [] \<longrightarrow> off' < chLength (hd cs')" by auto
    with False show ?thesis by (intro exI [of _ "c # pre"]) auto
  qed
qed

lemma length_chunks_bytes: "\<forall>c \<in> set cs. chunk_wf c \<Longrightarrow> length (chunks_bytes cs) = sum_list (map chLength cs)"
  by (induction cs) auto

text \<open>
  The copying loop writes the requested run of the source to the destination, whatever the
  chunk boundaries of the two are.
\<close>

lemma copy_loop_bytes:
  assumes "\<forall>c \<in> set ds. chunk_wf c" and "\<forall>c \<in> set ss. chunk_wf c"
    and "doff + len \<le> length (chunks_bytes ds)" and "soff + len \<le> length (chunks_bytes ss)"
    and "ds \<noteq> [] \<Longrightarrow> doff \<le> chLength (hd ds)" and "ss \<noteq> [] \<Longrightarrow> soff \<le> chLength (hd ss)"
  shows "fst (copy_loop ds doff ss soff len) = 0 \<and>
         chunks_bytes (snd (copy_loop ds doff ss soff len)) =
           list_write (chunks_bytes ds) doff (take len (drop soff (chunks_bytes ss))) \<and>
         (\<forall>c \<in> set (snd (copy_loop ds doff ss soff len)). chunk_wf c)"
  using assms
proof (induction ds doff ss soff len rule: copy_loop.induct)
  case (1 doff ss soff len)
  then show ?case by simp
next
  case (2 d ds doff soff len)
  then show ?case by simp
next
  case (3 d ds doff s ss soff len)
  show ?case
  proof (cases "len = 0")
    case True
    with 3(3,5) show ?thesis by (simp add: copy_loop.simps(3))
  next
    case ne: False
    define n where "n = min (min len (chLength d - doff)) (chLength s - soff)"
    define xs where "xs = take n (drop soff (storage s))"
    define d' where "d' = chunk_put d doff xs"
    define ss' where "ss' = (if chLength s \<le> soff + n then ss else s # ss)"
    define soff' where "soff' = (if chLength s \<le> soff + n then 0 else soff + n)"
    from 3(3-8) have wf: "chunk_wf d" "chunk_wf s" "doff \<le> chLength d" "soff \<le> chLength s" by auto
    have n: "n \<le> len" "doff + n \<le> chLength d" "soff + n \<le> chLength s"
      using wf by (auto simp: n_def)
    have xs: "xs = take n (drop soff (chunk_bytes s))" and lxs [simp]: "length xs = n"
      using n wf by (auto simp: xs_def chunk_bytes_def chunk_wf_def drop_take take_take min_def)
    have src: "take len (drop soff (chunks_bytes (s # ss))) =
               xs @ take (len - n) (drop soff' (chunks_bytes ss'))"
    proof (cases "chLength s \<le> soff + n")
      case True
      then have "n = chLength s - soff" using n by simp
      with True wf n show ?thesis by (simp add: soff'_def ss'_def xs)
    next
      case False
      have "take len ys = take n ys @ take (len - n) (drop n ys)" for ys :: "u8 list"
        using take_add [of n "len - n" ys] n by simp
      from this [of "drop soff (chunks_bytes (s # ss))"] False wf n show ?thesis
        by (simp add: soff'_def ss'_def xs add.commute [of soff] not_le)
    qed
    have soff': "soff' + (len - n) \<le> length (chunks_bytes ss')"
      using 3(6) wf n by (auto simp: soff'_def ss'_def)
    have hs: "ss' \<noteq> [] \<Longrightarrow> soff' \<le> chLength (hd ss')"
      using n by (auto simp: soff'_def ss'_def)
    have wss: "\<forall>c \<in> set ss'. chunk_wf c" using 3(4) by (auto simp: ss'_def)
    have bd': "chunk_bytes d' = list_write (chunk_bytes d) doff xs" and wd': "chunk_wf d'"
      and ld': "chLength d' = chLength d"
      using wf n by (simp_all add: d'_def chunk_bytes_put)
    show ?thesis
    proof (cases "chLength d \<le> doff + n")
      case True
      then have eq: "doff + n = chLength d" using n by simp
      have "0 + (len - n) \<le> length (chunks_bytes ds)" using 3(5) eq wf by simp
      with 3(1) [OF ne n_def d'_def [unfolded xs_def] ss'_def soff'_def True] 3(3) wss soff' hs
      have IH: "fst (copy_loop ds 0 ss' soff' (len - n)) = 0"
        "chunks_bytes (snd (copy_loop ds 0 ss' soff' (len - n))) =
           list_write (chunks_bytes ds) 0 (take (len - n) (drop soff' (chunks_bytes ss')))"
        "\<forall>c \<in> set (snd (copy_loop ds 0 ss' soff' (len - n))). chunk_wf c" by auto
      let ?t = "take (len - n) (drop soff' (chunks_bytes ss'))"
      have "list_write (chunk_bytes d) doff xs @ list_write (chunks_bytes ds) 0 ?t =
            list_write (chunk_bytes d @ chunks_bytes ds) doff (xs @ ?t)"
      proof -
        have "doff + (n + k) - chLength d = k" for k using eq by simp
        then show ?thesis using eq wf by (simp add: list_write_def)
      qed
      with IH True ne bd' wd' show ?thesis
        by (simp add: src [simplified] n_def [symmetric] xs_def [symmetric] d'_def [symmetric]
            ss'_def [symmetric] soff'_def [symmetric] Let_def split_beta copy_loop.simps(3))
    next
      case False
      have le: "doff + n + (len - n) \<le> length (chunks_bytes (d' # ds))"
        using 3(5) n wd' ld' wf by simp
      with 3(2) [OF ne n_def d'_def [unfolded xs_def] ss'_def soff'_def False] 3(3) wss soff' hs wd' ld' n
      have IH: "fst (copy_loop (d' # ds) (doff + n) ss' soff' (len - n)) = 0"
        "chunks_bytes (snd (copy_loop (d' # ds) (doff + n) ss' soff' (len - n))) =
           list_write (chunks_bytes (d' # ds)) (doff + n) (take (len - n) (drop soff' (chunks_bytes ss')))"
        "\<forall>c \<in> set (snd (copy_loop (d' # ds) (doff + n) ss' soff' (len - n))). chunk_wf c" by auto
      let ?t = "take (len - n) (drop soff' (chunks_bytes ss'))"
      have "length ?t = len - n" using soff' by simp
      then have "list_write (list_write (chunk_bytes d) doff xs @ chunks_bytes ds) (doff + n) ?t =
            list_write (chunk_bytes d @ chunks_bytes ds) doff (xs @ ?t)"
        using list_write_split [of doff xs ?t "chunk_bytes d @ chunks_bytes ds"] n wf 3(5)
        by (simp add: list_write_append1)
      with IH False ne bd' show ?thesis
        by (simp add: src [simplified] n_def [symmetric] xs_def [symmetric] d'_def [symmetric]
            ss'_def [symmetric] soff'_def [symmetric] Let_def split_beta copy_loop.simps(3))
    qed
  qed
qed

lemma netBufferCopy_bytes:
  assumes wf: "nb_wf dest" "nb_wf src"
    and le: "doff + len \<le> length (nb_bytes dest)" "soff + len \<le> length (nb_bytes src)"
    and len: "0 < len"
  shows "fst (netBufferCopy dest doff src soff len) = NO_ERROR"
    and "nb_bytes (snd (netBufferCopy dest doff src soff len)) =
           list_write (nb_bytes dest) doff (take len (drop soff (nb_bytes src)))"
    and "nb_wf (snd (netBufferCopy dest doff src soff len))"
proof -
  obtain ds' doff' where skd: "skip_chunks (chunk dest) doff = (ds', doff')" by fastforce
  obtain ss' soff' where sks: "skip_chunks (chunk src) soff = (ss', soff')" by fastforce
  from skip_chunks_split [OF skd] obtain dp where dp: "chunk dest = dp @ ds'"
    "doff = doff' + sum_list (map chLength dp)" "ds' \<noteq> [] \<longrightarrow> doff' < chLength (hd ds')" by blast
  from skip_chunks_split [OF sks] obtain sp where sp: "chunk src = sp @ ss'"
    "soff = soff' + sum_list (map chLength sp)" "ss' \<noteq> [] \<longrightarrow> soff' < chLength (hd ss')" by blast
  have wfs: "\<forall>c \<in> set dp. chunk_wf c" "\<forall>c \<in> set ds'. chunk_wf c"
    "\<forall>c \<in> set sp. chunk_wf c" "\<forall>c \<in> set ss'. chunk_wf c"
    using wf dp(1) sp(1) by (auto simp: nb_wf_def)
  have ledp: "length (chunks_bytes dp) = sum_list (map chLength dp)"
    and lesp: "length (chunks_bytes sp) = sum_list (map chLength sp)"
    using wfs by (simp_all add: length_chunks_bytes)
  have fits: "doff' + len \<le> length (chunks_bytes ds')" "soff' + len \<le> length (chunks_bytes ss')"
    using le dp(1,2) sp(1,2) ledp lesp by (simp_all add: nb_bytes_def)
  then have ne: "ds' \<noteq> []" "ss' \<noteq> []" using len by auto
  note cp = copy_loop_bytes [OF wfs(2,4) fits]
  have cp': "fst (copy_loop ds' doff' ss' soff' len) = 0"
    "chunks_bytes (snd (copy_loop ds' doff' ss' soff' len)) =
       list_write (chunks_bytes ds') doff' (take len (drop soff' (chunks_bytes ss')))"
    "\<forall>c \<in> set (snd (copy_loop ds' doff' ss' soff' len)). chunk_wf c"
    using cp dp(3) sp(3) by auto
  have res: "netBufferCopy dest doff src soff len =
      (NO_ERROR, dest\<lparr>chunk := dp @ snd (copy_loop ds' doff' ss' soff' len)\<rparr>)"
  proof -
    have "take (chunkCount dest - length ds') (chunk dest) = dp" using dp(1) by simp
    then show ?thesis
      using ne cp'(1) by (auto simp: netBufferCopy_def skd sks split_beta neq_Nil_conv)
  qed
  have srceq: "drop soff (nb_bytes src) = drop soff' (chunks_bytes ss')"
    using sp(1,2) lesp by (simp add: nb_bytes_def)
  have "list_write (chunks_bytes dp @ chunks_bytes ds') doff xs =
        chunks_bytes dp @ list_write (chunks_bytes ds') doff' xs" for xs
    using ledp dp(2) by (simp add: list_write_append2)
  then show "nb_bytes (snd (netBufferCopy dest doff src soff len)) =
           list_write (nb_bytes dest) doff (take len (drop soff (nb_bytes src)))"
    using res cp'(2) dp(1) srceq by (simp add: nb_bytes_def)
  show "fst (netBufferCopy dest doff src soff len) = NO_ERROR" using res by simp
  show "nb_wf (snd (netBufferCopy dest doff src soff len))"
    using res cp'(3) wfs(1) by (auto simp: nb_wf_def)
qed

subsection \<open>Concatenation\<close>

text \<open>The bytes a step of the loop takes from the current chunk, and the rest of the run.\<close>

lemma concat_step:
  assumes "chunk_wf c" and "off \<le> chLength c"
    and "n = (if len < chLength c - off then len else chLength c - off)"
  shows "take n (drop off (storage c)) @ take (len - n) xs = take len (drop off (chunk_bytes c @ xs))"
    and "n \<le> length (drop off (storage c))"
proof -
  have "take n (drop off (storage c)) = take len (drop off (chunk_bytes c))"
    using assms(3) by (auto simp: chunk_bytes_def drop_take take_take min_def)
  then show "take n (drop off (storage c)) @ take (len - n) xs = take len (drop off (chunk_bytes c @ xs))"
    using assms by auto
  show "n \<le> length (drop off (storage c))" using assms by (auto simp: chunk_wf_def)
qed

lemma concat_loop_bytes:
  assumes "\<forall>c \<in> set cs. chunk_wf c" and "cs \<noteq> [] \<Longrightarrow> off \<le> chLength (hd cs)"
    and "snd (concat_loop k cs off len) = 0"
  shows "chunks_bytes (fst (concat_loop k cs off len)) = take len (drop off (chunks_bytes cs))"
  using assms
proof (induction k cs off len rule: concat_loop.induct)
  case (1 k off len)
  then show ?case by simp
next
  case (2 k c cs off len)
  define n where "n = (if len < chLength c - off then len else chLength c - off)"
  show ?case
  proof (cases "0 < len \<and> 0 < k")
    case True
    with 2(4) have "snd (concat_loop (k - 1) cs 0 (len - n)) = 0"
      by (simp add: n_def [symmetric] Let_def split_beta)
    with 2(1) [OF True n_def refl] 2(2) have
      IH: "chunks_bytes (fst (concat_loop (k - 1) cs 0 (len - n))) = take (len - n) (chunks_bytes cs)"
      by auto
    have "off \<le> chLength c" "chunk_wf c" using 2(2,3) by auto
    from concat_step(1) [OF this(2,1) n_def, of "chunks_bytes cs"] True IH show ?thesis
      by (simp add: n_def [symmetric] Let_def split_beta)
  next
    case False
    with 2(4) show ?thesis by (auto split: if_splits)
  qed
qed

lemma concat_loop_wf:
  assumes "\<forall>c \<in> set cs. chunk_wf c" and "cs \<noteq> [] \<Longrightarrow> off \<le> chLength (hd cs)"
  shows "\<forall>c \<in> set (fst (concat_loop k cs off len)). chunk_wf c"
  using assms
proof (induction k cs off len rule: concat_loop.induct)
  case (1 k off len)
  then show ?case by simp
next
  case (2 k c cs off len)
  define n where "n = (if len < chLength c - off then len else chLength c - off)"
  show ?case
  proof (cases "0 < len \<and> 0 < k")
    case True
    have "off \<le> chLength c" "chunk_wf c" using 2(2,3) by auto
    from concat_step(2) [OF this(2,1) n_def] 2(1) [OF True n_def refl] 2(2) True show ?thesis
      by (auto simp: n_def [symmetric] Let_def split_beta chunk_wf_def)
  next
    case False
    then show ?thesis by auto
  qed
qed

lemma concat_loop_enough:
  assumes "\<forall>c \<in> set cs. chunk_wf c" and "cs \<noteq> [] \<Longrightarrow> off \<le> chLength (hd cs)"
    and "length cs \<le> k" and "off + len \<le> length (chunks_bytes cs)"
  shows "snd (concat_loop k cs off len) = 0"
  using assms
proof (induction k cs off len rule: concat_loop.induct)
  case (1 k off len)
  then show ?case by simp
next
  case (2 k c cs off len)
  define n where "n = (if len < chLength c - off then len else chLength c - off)"
  show ?case
  proof (cases "0 < len \<and> 0 < k")
    case True
    with 2(2-5) have "len - n \<le> length (chunks_bytes cs)" "length cs \<le> k - 1"
      by (auto simp: n_def)
    with 2(1) [OF True n_def refl] 2(2) True show ?thesis
      by (simp add: n_def [symmetric] Let_def split_beta)
  next
    case False
    with 2(4) show ?thesis by auto
  qed
qed

lemma netBufferConcat_bytes:
  assumes "nb_wf dest" "nb_wf src" and "netBufferConcat dest src off len = (NO_ERROR, dest')"
  shows "nb_bytes dest' = nb_bytes dest @ take len (drop off (nb_bytes src))" and "nb_wf dest'"
proof -
  obtain ss soff where sk: "skip_chunks (chunk src) off = (ss, soff)" by fastforce
  from skip_chunks_split [OF sk] obtain sp where sp: "chunk src = sp @ ss"
    "off = soff + sum_list (map chLength sp)" "ss \<noteq> [] \<longrightarrow> soff < chLength (hd ss)" by blast
  have wfs: "\<forall>c \<in> set sp. chunk_wf c" "\<forall>c \<in> set ss. chunk_wf c"
    using assms(2) sp(1) by (auto simp: nb_wf_def)
  let ?k = "maxChunkCount dest - chunkCount dest"
  from assms(3) have ne: "ss \<noteq> []" and z: "snd (concat_loop ?k ss soff len) = 0"
    and d': "dest' = dest\<lparr>chunk := chunk dest @ fst (concat_loop ?k ss soff len)\<rparr>"
    by (auto simp: netBufferConcat_def sk split_beta split: list.splits if_splits)
  have hd: "ss \<noteq> [] \<Longrightarrow> soff \<le> chLength (hd ss)" using sp(3) by auto
  have "drop off (nb_bytes src) = drop soff (chunks_bytes ss)"
    using sp(1,2) wfs(1) by (simp add: nb_bytes_def length_chunks_bytes)
  with concat_loop_bytes [OF wfs(2) hd z]
  show "nb_bytes dest' = nb_bytes dest @ take len (drop off (nb_bytes src))"
    by (simp add: d' nb_bytes_def)
  show "nb_wf dest'"
    using concat_loop_wf [OF wfs(2) hd] assms(1) by (auto simp: d' nb_wf_def)
qed

lemma netBufferConcat_ok:
  assumes "nb_wf src" and "off + len \<le> length (nb_bytes src)" and "off < length (nb_bytes src)"
    and "chunkCount dest + chunkCount src \<le> maxChunkCount dest"
  shows "fst (netBufferConcat dest src off len) = NO_ERROR"
proof -
  obtain ss soff where sk: "skip_chunks (chunk src) off = (ss, soff)" by fastforce
  from skip_chunks_split [OF sk] obtain sp where sp: "chunk src = sp @ ss"
    "off = soff + sum_list (map chLength sp)" "ss \<noteq> [] \<longrightarrow> soff < chLength (hd ss)" by blast
  have wfs: "\<forall>c \<in> set sp. chunk_wf c" "\<forall>c \<in> set ss. chunk_wf c"
    using assms(1) sp(1) by (auto simp: nb_wf_def)
  have l: "length (nb_bytes src) = sum_list (map chLength sp) + length (chunks_bytes ss)"
    using sp(1) wfs(1) by (simp add: nb_bytes_def length_chunks_bytes)
  then have ne: "ss \<noteq> []" using assms(3) sp(2) by auto
  have "snd (concat_loop (maxChunkCount dest - chunkCount dest) ss soff len) = 0"
    using sp assms(2,4) l by (intro concat_loop_enough [OF wfs(2)]) auto
  with ne show ?thesis
    by (auto simp: netBufferConcat_def sk split_beta split: list.splits)
qed

subsection \<open>Changing the length\<close>

lemma set_length_walk_cut:
  assumes "\<forall>c \<in> set cs. chunk_wf c" and "len \<le> length (chunks_bytes cs)"
    and "set_length_walk cs len = (done, left, rest)"
  shows "left = 0 \<and> chunks_bytes done = take len (chunks_bytes cs) \<and>
         (\<forall>c \<in> set done. chunk_wf c) \<and>
         map address cs = map address done @ map address rest \<and> map chSize cs = map chSize done @ map chSize rest"
  using assms
proof (induction cs len arbitrary: "done" left rest rule: set_length_walk.induct)
  case (1 len)
  then show ?case by simp
next
  case (2 c cs len)
  show ?case
  proof (cases "len = 0")
    case True
    with 2(4) show ?thesis by auto
  next
    case ne: False
    show ?thesis
    proof (cases "len \<le> chLength c")
      case True
      then have e: "set_length_walk cs 0 = ([], 0, cs)" by (cases cs) auto
      from True ne 2(4) have "done = [c\<lparr>chLength := len\<rparr>]" "left = 0" "rest = cs"
        by (auto simp: e Let_def split_beta)
      with True 2(2) show ?thesis
        by (auto simp: chunk_bytes_def chunk_wf_def min_def)
    next
      case False
      with 2(2,3) have cs: "cs \<noteq> []" "len - chLength c \<le> length (chunks_bytes cs)" by auto
      define c' where "c' = (if len \<le> chLength c then c\<lparr>chLength := len\<rparr>
                  else if 0 < chSize c \<and> cs = [] then c\<lparr>chLength := min len (chSize c)\<rparr>
                  else c)"
      have c': "c' = c" using False cs by (simp add: c'_def)
      obtain d l r where w: "set_length_walk cs (len - chLength c) = (d, l, r)"
        by (metis prod.exhaust)
      from 2(1) [OF ne c'_def, unfolded c', OF _ cs(2) w] 2(2)
      have "l = 0 \<and> chunks_bytes d = take (len - chLength c) (chunks_bytes cs) \<and>
         (\<forall>c \<in> set d. chunk_wf c) \<and> map address cs = map address d @ map address r \<and>
         map chSize cs = map chSize d @ map chSize r" by simp
      moreover from 2(4) False ne cs w have "done = c # d" "left = l" "rest = r"
        by (auto simp: Let_def split_beta)
      ultimately show ?thesis using False 2(2) by auto
    qed
  qed
qed

text \<open>Shortening keeps the first bytes, never fails and needs no memory.\<close>

lemma netBufferSetLength_shrink:
  assumes "nb_wf b" and "len \<le> length (nb_bytes b)"
    and "netBufferSetLength alloc free mem p b len = (e, p', b')"
  shows "e = NO_ERROR" and "nb_bytes b' = take len (nb_bytes b)" and "nb_wf b'"
proof -
  obtain d l r where w: "set_length_walk (chunk b) len = (d, l, r)" by (metis prod.exhaust)
  have "\<forall>c \<in> set (chunk b). chunk_wf c" "len \<le> length (chunks_bytes (chunk b))"
    using assms(1,2) by (auto simp: nb_wf_def nb_bytes_def)
  from set_length_walk_cut [OF this w] assms(3)
  show "e = NO_ERROR" "nb_bytes b' = take len (nb_bytes b)" "nb_wf b'"
    by (auto simp: netBufferSetLength_def w nb_bytes_def nb_wf_def)
qed

lemma netBufferSetLength_0: "netBufferSetLength alloc free mem p b 0 =
    (NO_ERROR, release_chunks free (chunk b) p, b\<lparr>chunk := []\<rparr>)"
proof -
  have "set_length_walk cs 0 = ([], 0, cs)" for cs by (cases cs) auto
  then show ?thesis by (simp add: netBufferSetLength_def)
qed

text \<open>
  Adding chunks: on success the new chunks hold exactly the missing length, each in a block of
  its own.
\<close>

lemma add_chunks_SucE:
  assumes "add_chunks alloc mem (Suc k) len p = (e, p', cs)"
  obtains (enough) "len = 0" "e = NO_ERROR" "p' = p" "cs = []"
  | (failed) "len \<noteq> 0" "alloc p = (None, p')" "e = ERROR_OUT_OF_MEMORY" "cs = []"
  | (added) a q ds where "len \<noteq> 0" "alloc p = (Some a, q)"
      "add_chunks alloc mem k (len - min len NET_MEM_POOL_BUFFER_SIZE) q = (e, p', ds)"
      "cs = \<lparr>address = a, storage = mem a, chLength = min len NET_MEM_POOL_BUFFER_SIZE,
             chSize = NET_MEM_POOL_BUFFER_SIZE\<rparr> # ds"
  using assms by (auto simp: Let_def split: if_splits prod.splits option.splits)

lemma add_chunks_length:
  assumes "add_chunks alloc mem k len p = (NO_ERROR, p', cs)"
  shows "sum_list (map chLength cs) = len"
  using assms
proof (induction k arbitrary: len p p' cs)
  case 0
  then show ?case by (auto split: if_splits)
next
  case (Suc k)
  from Suc.prems show ?case
  proof (cases rule: add_chunks_SucE)
    case (added a q ds)
    from Suc.IH [OF added(3)] added(4) show ?thesis by simp
  qed simp_all
qed

lemma add_chunks_wf:
  assumes "add_chunks alloc mem k len p = (e, p', cs)"
    and mem: "\<And>a. length (mem a) = NET_MEM_POOL_BUFFER_SIZE"
  shows "\<forall>c \<in> set cs. chunk_wf c"
  using assms(1)
proof (induction k arbitrary: len p p' cs)
  case 0
  then show ?case by simp
next
  case (Suc k)
  from Suc.prems show ?case
  proof (cases rule: add_chunks_SucE)
    case (added a q ds)
    from Suc.IH [OF added(3)] added(4) show ?thesis by (simp add: chunk_wf_def mem)
  qed simp_all
qed

lemma netBufferSetLength_empty:
  assumes "netBufferSetLength alloc free mem p (b\<lparr>chunk := []\<rparr>) len = (NO_ERROR, p', b')"
    and mem: "\<And>a. length (mem a) = NET_MEM_POOL_BUFFER_SIZE"
  shows "nb_wf b'" and "length (nb_bytes b') = len"
proof -
  from assms(1) consider "len = 0" "chunk b' = []"
    | "add_chunks alloc mem (maxChunkCount b) len p = (NO_ERROR, p', chunk b')"
    by (auto simp: netBufferSetLength_def split: if_splits prod.splits)
  then have "(\<forall>c \<in> set (chunk b'). chunk_wf c) \<and> sum_list (map chLength (chunk b')) = len"
  proof cases
    case 2
    from add_chunks_length [OF this] add_chunks_wf [OF this mem] show ?thesis by simp
  qed simp
  then show "nb_wf b'" "length (nb_bytes b') = len"
    by (auto simp: nb_wf_def nb_bytes_def length_chunks_bytes)
qed

text \<open>Ownership, for any allocator that keeps its contract.\<close>

context block_allocator
begin

lemma add_chunks_live:
  assumes "inv p" and "add_chunks alloc mem k len p = (e, p', cs)"
  shows "inv p' \<and> live p' = live p \<union> address ` set cs \<and> distinct (map address cs) \<and>
         live p \<inter> address ` set cs = {} \<and> (\<forall>c \<in> set cs. 0 < chSize c)"
  using assms
proof (induction k arbitrary: len p p' cs)
  case 0
  then show ?case by simp
next
  case (Suc k)
  from Suc.prems(2) show ?case
  proof (cases rule: add_chunks_SucE)
    case failed
    then show ?thesis using Suc.prems(1) alloc_None by auto
  next
    case (added a q ds)
    have q: "inv q" "a \<notin> live p" "live q = insert a (live p)"
      using Suc.prems(1) added(2) alloc_inv alloc_fresh alloc_live by auto
    from Suc.IH [OF q(1) added(3)] q added(4) show ?thesis
      by (auto simp: NET_MEM_POOL_BUFFER_SIZE_def)
  qed (simp add: Suc.prems)
qed

lemma release_chunks_live:
  assumes "inv p" and "distinct (map address (filter (\<lambda>c. 0 < chSize c) cs))"
    and "address ` set (filter (\<lambda>c. 0 < chSize c) cs) \<subseteq> live p"
  shows "inv (release_chunks free cs p) \<and>
         live (release_chunks free cs p) = live p - address ` set (filter (\<lambda>c. 0 < chSize c) cs)"
  using assms
proof (induction cs arbitrary: p)
  case Nil
  then show ?case by simp
next
  case (Cons c cs)
  show ?case
  proof (cases "0 < chSize c")
    case True
    then have c: "address c \<in> live p" using Cons.prems by auto
    then have "inv (free (address c) p)" "live (free (address c) p) = live p - {address c}"
      using Cons.prems(1) free_inv free_live by auto
    with Cons.IH [of "free (address c) p"] Cons.prems True show ?thesis by auto
  next
    case False
    with Cons show ?thesis by auto
  qed
qed

text \<open>Growing an empty buffer takes fresh blocks; emptying it again gives all of them back.\<close>

lemma set_length_no_leak:
  assumes "inv p" and "netBufferSetLength alloc free mem p (b\<lparr>chunk := []\<rparr>) len = (e, p', b')"
    and "netBufferSetLength alloc free mem p' b' 0 = (e', p'', b'')"
  shows "inv p'' \<and> live p'' = live p"
proof -
  from assms(2) have "(p' = p \<and> chunk b' = []) \<or>
      (\<exists>e. add_chunks alloc mem (maxChunkCount b) len p = (e, p', chunk b'))"
    by (auto simp: netBufferSetLength_def split: if_splits prod.splits)
  then have "inv p' \<and> live p' = live p \<union> address ` set (chunk b') \<and> distinct (map address (chunk b')) \<and>
         live p \<inter> address ` set (chunk b') = {} \<and> (\<forall>c \<in> set (chunk b'). 0 < chSize c)"
  proof (elim disjE exE)
    fix e1 assume "add_chunks alloc mem (maxChunkCount b) len p = (e1, p', chunk b')"
    from add_chunks_live [OF assms(1) this] show ?thesis .
  qed (use assms(1) in simp)
  moreover from this have "filter (\<lambda>c. 0 < chSize c) (chunk b') = chunk b'"
    by (simp add: filter_id_conv)
  moreover have "p'' = release_chunks free (chunk b') p'"
    using assms(3) by (simp add: netBufferSetLength_0)
  ultimately show ?thesis
    using release_chunks_live [of p' "chunk b'"] by auto
qed

end

section \<open>The byte store interface\<close>

text \<open>
  What the circular TCP buffers need: \<open>wr\<close> and \<open>rd\<close> act on a flat array of bytes. The
  client's lemma is about a buffer used as a ring of \<open>N\<close> bytes: a run that crosses the end of the
  array is written, and read, in two parts.
\<close>

locale byte_store =
  fixes abs :: "'b \<Rightarrow> u8 list"
    and wr :: "'b \<Rightarrow> nat \<Rightarrow> u8 list \<Rightarrow> 'b"
    and rd :: "'b \<Rightarrow> nat \<Rightarrow> nat \<Rightarrow> u8 list"
    and inv :: "'b \<Rightarrow> bool"
  assumes wr_abs: "inv b \<Longrightarrow> off + length xs \<le> length (abs b) \<Longrightarrow> abs (wr b off xs) = list_write (abs b) off xs"
    and wr_inv: "inv b \<Longrightarrow> off + length xs \<le> length (abs b) \<Longrightarrow> inv (wr b off xs)"
    and rd_abs: "inv b \<Longrightarrow> rd b off len = take len (drop off (abs b))"
begin

lemma ring_write_nth:
  assumes b: "inv b" and N: "length (abs b) = N" and off: "off < N" and xs: "length xs \<le> N" and k: "k < N"
    and b': "b' = (if off + length xs \<le> N then wr b off xs
                   else wr (wr b off (take (N - off) xs)) 0 (drop (N - off) xs))"
  shows "abs b' ! k = (if (k + N - off) mod N < length xs then xs ! ((k + N - off) mod N) else abs b ! k)"
    and "inv b'" and "length (abs b') = N"
proof -
  have mod: "(k + N - off) mod N = (if off \<le> k then k - off else k + N - off)"
    using k off by (auto simp: mod_if)
  show "inv b'" "length (abs b') = N"
    using b N xs off by (auto simp: b' wr_abs wr_inv)
  show "abs b' ! k = (if (k + N - off) mod N < length xs then xs ! ((k + N - off) mod N) else abs b ! k)"
  proof (cases "off + length xs \<le> N")
    case True
    with b N k off show ?thesis by (auto simp: b' wr_abs nth_list_write mod)
  next
    case False
    have 1: "abs (wr b off (take (N - off) xs)) = list_write (abs b) off (take (N - off) xs)"
      "inv (wr b off (take (N - off) xs))"
      using b N off False by (simp_all add: wr_abs wr_inv)
    have "abs b' = list_write (list_write (abs b) off (take (N - off) xs)) 0 (drop (N - off) xs)"
      using 1 False xs N off by (simp add: b' wr_abs)
    with False xs N off k show ?thesis
      unfolding mod by (auto simp: nth_list_write add.commute [of k])
  qed
qed

lemma ring_read_nth:
  assumes b: "inv b" and N: "length (abs b) = N" and off: "off < N" and n: "n \<le> N" and i: "i < n"
    and r: "r = (if off + n \<le> N then rd b off n else rd b off (N - off) @ rd b 0 (n + off - N))"
  shows "r ! i = abs b ! ((off + i) mod N)" and "length r = n"
proof -
  have mod: "(off + i) mod N = (if off + i < N then off + i else off + i - N)"
    using off n i by (auto simp: mod_if)
  show "length r = n" using b N off n by (auto simp: r rd_abs)
  show "r ! i = abs b ! ((off + i) mod N)"
    using b N off n i by (auto simp: r rd_abs mod nth_append add.commute [of i])
qed

end

interpretation netbuf: byte_store nb_bytes "\<lambda>b off xs. snd (netBufferWrite b off xs)" netBufferRead nb_wf
  by unfold_locales (simp_all add: netBufferWrite_bytes netBufferRead_bytes)

section \<open>Properties\<close>

text \<open>Two buffers with different chunk boundaries, and an initialised pool, for the examples.\<close>

definition example_dest :: NetBuffer where
  "example_dest = \<lparr>maxChunkCount = 4, chunk =
     [\<lparr>address = 100, storage = [1, 2, 3, 9], chLength = 3, chSize = 0\<rparr>,
      \<lparr>address = 201, storage = [4, 5], chLength = 2, chSize = 0\<rparr>]\<rparr>"

definition example_src :: NetBuffer where
  "example_src = \<lparr>maxChunkCount = 4, chunk =
     [\<lparr>address = 300, storage = [10], chLength = 1, chSize = 0\<rparr>,
      \<lparr>address = 401, storage = [11, 12, 13], chLength = 3, chSize = 0\<rparr>]\<rparr>"

definition example_pool :: mem_pool where
  "example_pool = snd (memPoolInit True \<lparr>memPoolAllocTable = [], memPoolCurrentUsage = 0, memPoolMaxUsage = 0\<rparr>)"

lemma example_wf: "nb_wf example_dest" "nb_wf example_src"
  "nb_bytes example_dest = [1, 2, 3, 4, 5]" "nb_bytes example_src = [10, 11, 12, 13]"
  by (simp_all add: example_dest_def example_src_def nb_wf_def chunk_wf_def nb_bytes_def chunk_bytes_def)

text \<open>
  Copying between two multi-part buffers succeeds whenever the ranges lie inside
  both, and overwrites exactly the destination range with the source range, whatever the chunk
  boundaries of the two buffers are.
\<close>

theorem netBufferCopy_flat:
  assumes "nb_wf dest" and "nb_wf src" and "0 < len"
    and "doff + len \<le> length (nb_bytes dest)" and "soff + len \<le> length (nb_bytes src)"
  shows "fst (netBufferCopy dest doff src soff len) = NO_ERROR \<and>
    nb_bytes (snd (netBufferCopy dest doff src soff len)) =
      take doff (nb_bytes dest) @ take len (drop soff (nb_bytes src)) @ drop (doff + len) (nb_bytes dest) \<and>
    nb_wf (snd (netBufferCopy dest doff src soff len))"
  using netBufferCopy_bytes [OF assms(1,2,4,5,3)] assms(5) by (simp add: list_write_def min_absorb2)

theorem netBufferCopy_flat_witness:
  "nb_bytes (snd (netBufferCopy example_dest 1 example_src 0 3)) = [1, 10, 11, 12, 5]"
  using netBufferCopy_flat [OF example_wf(1,2), of 3 1 0] by (simp add: example_wf)

text \<open>
  Reading a multi-part buffer after writing it returns the written bytes inside the
  written range and the former bytes elsewhere: the buffer behaves as one flat array.
\<close>

theorem netBufferWrite_read:
  assumes "nb_wf b" and "off + length src \<le> length (nb_bytes b)"
  shows "netBufferRead (snd (netBufferWrite b off src)) pos n =
    take n (drop pos (take off (nb_bytes b) @ src @ drop (off + length src) (nb_bytes b)))"
  using netBufferWrite_bytes [OF assms] netBufferRead_bytes by (simp add: list_write_def)

theorem netBufferWrite_read_witness:
  "netBufferRead (snd (netBufferWrite example_dest 2 [7, 8])) 1 4 = [2, 7, 8, 5]"
  using netBufferWrite_read [OF example_wf(1), of 2 "[7, 8]" 1 4] by (simp add: example_wf)

text \<open>
  Appending a range of one buffer to another, when it succeeds, appends exactly
  those bytes; it always succeeds when the range exists and enough chunk slots are left.
\<close>

theorem netBufferConcat_flat:
  assumes "nb_wf dest" and "nb_wf src" and "off + len \<le> length (nb_bytes src)" and "off < length (nb_bytes src)"
    and "chunkCount dest + chunkCount src \<le> maxChunkCount dest"
  shows "\<exists>dest'. netBufferConcat dest src off len = (NO_ERROR, dest') \<and> nb_wf dest' \<and>
    nb_bytes dest' = nb_bytes dest @ take len (drop off (nb_bytes src))"
  using netBufferConcat_ok [OF assms(2,3,4,5)] netBufferConcat_bytes [OF assms(1,2)]
  by (metis prod.collapse)

theorem netBufferConcat_flat_witness:
  "\<exists>dest'. netBufferConcat example_dest example_src 1 2 = (NO_ERROR, dest') \<and> nb_bytes dest' = [1, 2, 3, 4, 5, 11, 12]"
proof -
  have "chunkCount example_dest + chunkCount example_src \<le> maxChunkCount example_dest"
    by (simp add: example_dest_def example_src_def)
  with netBufferConcat_flat [OF example_wf(1,2), of 1 2] show ?thesis by (auto simp: example_wf)
qed

text \<open>
  Giving an empty buffer a length and taking it back to zero leaves the block pool as
  it was: every block that was allocated is released, also when the pool runs out half-way, and
  the usage counter is right.
\<close>

theorem netBufferSetLength_no_leak:
  assumes "pool_inv p"
    and "netBufferSetLength (memPoolAlloc NET_MEM_POOL_BUFFER_SIZE) memPoolFree mem p (b\<lparr>chunk := []\<rparr>) len = (e, p', b')"
    and "netBufferSetLength (memPoolAlloc NET_MEM_POOL_BUFFER_SIZE) memPoolFree mem p' b' 0 = (e', p'', b'')"
  shows "pool_live p'' = pool_live p \<and> pool_inv p'' \<and> memPoolCurrentUsage p'' = memPoolCurrentUsage p"
proof -
  note l = pool.set_length_no_leak [OF assms]
  then have "unat (memPoolCurrentUsage p'') = unat (memPoolCurrentUsage p)"
    using assms(1) by (simp add: pool_inv_def)
  with l show ?thesis by (simp add: word_unat_eq_iff)
qed

lemma example_pool_inv: "pool_inv example_pool"
  by (rule pool_inv_init [of _ NO_ERROR]) (simp add: example_pool_def memPoolInit_def)

theorem netBufferSetLength_no_leak_witness:
  "\<exists>p' b' p'' e b''. netBufferSetLength (memPoolAlloc NET_MEM_POOL_BUFFER_SIZE) memPoolFree (\<lambda>a. replicate 1536 0)
      example_pool (example_dest\<lparr>chunk := []\<rparr>) 2000 = (NO_ERROR, p', b') \<and> length (chunk b') = 2 \<and>
    netBufferSetLength (memPoolAlloc NET_MEM_POOL_BUFFER_SIZE) memPoolFree (\<lambda>a. replicate 1536 0) p' b' 0 = (e, p'', b'') \<and>
    pool_live p'' = {} \<and> memPoolCurrentUsage p'' = 0"
proof -
  let ?f = "netBufferSetLength (memPoolAlloc NET_MEM_POOL_BUFFER_SIZE) memPoolFree (\<lambda>a. replicate 1536 (0::u8))"
  obtain p' b' where 1: "?f example_pool (example_dest\<lparr>chunk := []\<rparr>) 2000 = (NO_ERROR, p', b')" "length (chunk b') = 2"
    by (simp add: netBufferSetLength_def example_pool_def example_dest_def memPoolInit_def memPoolAlloc_def
        NET_MEM_POOL_BUFFER_COUNT_def NET_MEM_POOL_BUFFER_SIZE_def numeral_eq_Suc Let_def)
  obtain e p'' b'' where 2: "?f p' b' 0 = (e, p'', b'')" by (metis prod_cases3)
  have "pool_live example_pool = {}" "memPoolCurrentUsage example_pool = 0"
    by (simp_all add: pool_live_def example_pool_def memPoolInit_def)
  with netBufferSetLength_no_leak [OF example_pool_inv 1(1) 2] 1 2 show ?thesis by metis
qed

end
