(* ===== verification/Ip_Checksum.thy ===== *)
theory Ip_Checksum
  imports Net_Mem
begin

text \<open>
  The Internet checksum (\<open>core/ip.c\<close>). The code adds 32 bits at a time after bringing the
  pointer to a 32-bit boundary, swaps the sum when the data starts at an odd address, and sums a
  multi-part buffer chunk by chunk, swapping for chunks that start at an odd position. The
  specification is the textbook one: the one's complement sum of the 16-bit words of the data.
  The theorems show that the result is that sum, whatever the alignment and the chunk boundaries are, and
  that a packet carrying the checksum verifies.
\<close>

section \<open>The implementation\<close>

definition ld16 :: "u8 \<Rightarrow> u8 \<Rightarrow> u32" where
  "ld16 a b = ucast a + push_bit 8 (ucast b)"

definition ld32 :: "u8 \<Rightarrow> u8 \<Rightarrow> u8 \<Rightarrow> u8 \<Rightarrow> u32" where
  "ld32 a b c d = ucast a + push_bit 8 (ucast b) + push_bit 16 (ucast c) + push_bit 24 (ucast d)"

text \<open>The main loop, four bytes at a time, with the end-around carry of the 32-bit addition.\<close>

fun checksum_loop :: "u32 \<Rightarrow> u8 list \<Rightarrow> u32 \<times> u8 list" where
  "checksum_loop checksum (a # b # c # d # p) =
     (let temp = checksum + ld32 a b c d
      in checksum_loop (if temp < checksum then temp + 1 else temp) p)"
| "checksum_loop checksum p = (checksum, p)"

definition fold32 :: "u32 \<Rightarrow> u32" where
  "fold32 checksum = (checksum AND 0xFFFF) + drop_bit 16 checksum"

definition swap16 :: "u32 \<Rightarrow> u32" where
  "swap16 checksum = (drop_bit 8 checksum OR push_bit 8 checksum) AND 0xFFFF"

text \<open>Bringing the pointer to a 16-bit and then to a 32-bit boundary.\<close>

definition checksum_align :: "nat \<Rightarrow> u8 list \<Rightarrow> u32 \<times> u8 list" where
  "checksum_align addr data =
     (let (checksum, p, addr) =
        (if odd addr then
           (case data of [] \<Rightarrow> (0, data, addr)
            | x # xs \<Rightarrow> (push_bit 8 (ucast x :: u32), xs, addr + 1))
         else (0, data, addr))
      in if odd (addr div 2) then
           (case p of x # y # xs \<Rightarrow> (checksum + ld16 x y, xs) | _ \<Rightarrow> (checksum, p))
         else (checksum, p))"

text \<open>The bytes behind the last 32-bit word.\<close>

definition checksum_tail :: "u32 \<Rightarrow> u8 list \<Rightarrow> u32" where
  "checksum_tail checksum p =
     (case p of
        [] \<Rightarrow> checksum
      | [x] \<Rightarrow> checksum + ucast x
      | [x, y] \<Rightarrow> checksum + ld16 x y
      | x # y # z # _ \<Rightarrow> checksum + ld16 x y + ucast z)"

definition ipCalcChecksum :: "nat \<Rightarrow> u8 list \<Rightarrow> u16" where
  "ipCalcChecksum addr data =
     (let (checksum, p) = checksum_align addr data;
          (checksum, p) = checksum_loop checksum p;
          checksum = fold32 checksum;
          checksum = checksum_tail checksum p;
          checksum = fold32 checksum;
          checksum = fold32 checksum;
          checksum = (if odd addr then swap16 checksum else checksum)
      in ucast (checksum XOR 0xFFFF))"

text \<open>One chunk of a multi-part buffer, and the loop over the chunks.\<close>

definition checksumEx_chunk :: "nat \<Rightarrow> nat \<Rightarrow> u8 list \<Rightarrow> u32 \<Rightarrow> u32" where
  "checksumEx_chunk pos addr data checksum =
     (let checksum = (if odd pos then swap16 checksum else checksum);
          checksum = checksum + (ucast (ipCalcChecksum addr data) XOR 0xFFFF);
          checksum = fold32 checksum
      in if odd pos then swap16 checksum else checksum)"

fun checksumEx_loop :: "ChunkDesc list \<Rightarrow> nat \<Rightarrow> nat \<Rightarrow> nat \<Rightarrow> u32 \<Rightarrow> u32" where
  "checksumEx_loop [] off pos len checksum = checksum"
| "checksumEx_loop (c # cs) off pos len checksum =
     (if pos < len then
        if off < chLength c then
          let n = min (chLength c - off) (len - pos)
          in checksumEx_loop cs 0 (pos + n) len
               (checksumEx_chunk pos (address c + off) (take n (drop off (storage c))) checksum)
        else checksumEx_loop cs (off - chLength c) pos len checksum
      else checksum)"

definition ipCalcChecksumEx :: "NetBuffer \<Rightarrow> nat \<Rightarrow> nat \<Rightarrow> u16" where
  "ipCalcChecksumEx b off len = ucast (checksumEx_loop (chunk b) off 0 len 0 XOR 0xFFFF)"

definition ipCalcUpperLayerChecksum :: "nat \<Rightarrow> u8 list \<Rightarrow> nat \<Rightarrow> u8 list \<Rightarrow> u16" where
  "ipCalcUpperLayerChecksum paddr pseudoHeader addr data =
     (let checksum = (ucast (ipCalcChecksum paddr pseudoHeader) XOR 0xFFFF :: u32);
          checksum = checksum + (ucast (ipCalcChecksum addr data) XOR 0xFFFF)
      in ucast (fold32 checksum XOR 0xFFFF))"

definition ipCalcUpperLayerChecksumEx :: "nat \<Rightarrow> u8 list \<Rightarrow> NetBuffer \<Rightarrow> nat \<Rightarrow> nat \<Rightarrow> u16" where
  "ipCalcUpperLayerChecksumEx paddr pseudoHeader b off len =
     (let checksum = (ucast (ipCalcChecksum paddr pseudoHeader) XOR 0xFFFF :: u32);
          checksum = checksum + (ucast (ipCalcChecksumEx b off len) XOR 0xFFFF)
      in ucast (fold32 checksum XOR 0xFFFF))"

section \<open>The specification\<close>

text \<open>
  16-bit one's complement addition, and the sum of the words of a byte sequence (first byte in
  the low half, as the little-endian target loads it; an odd last byte is padded with zero).
\<close>

definition oc_add :: "nat \<Rightarrow> nat \<Rightarrow> nat" where
  "oc_add x y = (if x + y < 65536 then x + y else x + y - 65535)"

fun oc_sum :: "u8 list \<Rightarrow> nat" where
  "oc_sum [] = 0"
| "oc_sum [a] = unat a"
| "oc_sum (a # b # r) = oc_add (unat a + 256 * unat b) (oc_sum r)"

text \<open>The same sum in the integers, before any reduction.\<close>

fun le_sum :: "u8 list \<Rightarrow> nat" where
  "le_sum [] = 0"
| "le_sum [a] = unat a"
| "le_sum (a # b # r) = unat a + 256 * unat b + le_sum r"

text \<open>\<open>c\<close> represents the sum \<open>s\<close>: equal modulo \<open>65535\<close>, and zero only for zero.\<close>

definition rep :: "nat \<Rightarrow> nat \<Rightarrow> bool" where
  "rep c s \<longleftrightarrow> c mod 65535 = s mod 65535 \<and> (c = 0 \<longleftrightarrow> s = 0)"

lemma rep_refl [simp]: "rep s s"
  by (simp add: rep_def)

lemma rep_unique: "rep c s \<Longrightarrow> rep d s \<Longrightarrow> c \<le> 65535 \<Longrightarrow> d \<le> 65535 \<Longrightarrow> c = d"
proof -
  assume r: "rep c s" "rep d s" and le: "c \<le> 65535" "d \<le> 65535"
  have "n mod 65535 = (if n = 65535 then 0 else n)" if "n \<le> 65535" for n :: nat
    using that by simp
  with r le show ?thesis by (auto simp: rep_def split: if_splits)
qed

lemma rep_trans: "rep a b \<Longrightarrow> rep b c \<Longrightarrow> rep a c"
  by (simp add: rep_def)

lemma rep_add: "rep c s \<Longrightarrow> rep d t \<Longrightarrow> rep (c + d) (s + t)"
  by (auto simp: rep_def intro: mod_add_cong)

lemma rep_mult256: "rep c s \<Longrightarrow> rep (256 * c) (256 * s)"
  by (auto simp: rep_def intro: mod_mult_cong)

lemma rep_65536: "rep (65536 * x + y) (x + y)"
proof -
  have "65536 * x + y = x + y + x * 65535" by simp
  then have "(65536 * x + y) mod 65535 = (x + y) mod 65535" by (simp only: mod_mult_self1)
  then show ?thesis by (auto simp: rep_def)
qed

lemma rep_fold: "rep c s \<Longrightarrow> rep (c mod 65536 + c div 65536) s"
  using rep_65536 [of "c div 65536" "c mod 65536"]
  by (auto simp: rep_def add.commute)

lemma rep_oc_add: "rep (oc_add x y) (x + y)"
proof (cases "x + y < 65536")
  case False
  then obtain k where "x + y = 65535 + k" "0 < k" using le_Suc_ex [of 65536 "x + y"] by auto
  with False show ?thesis by (auto simp: rep_def oc_add_def)
qed (simp add: oc_add_def)

lemma byte_pair_bound: "unat (a::u8) + 256 * unat (b::u8) \<le> 65535"
  using u8_bound [of a] u8_bound [of b] by simp

lemma oc_sum_le: "oc_sum xs \<le> 65535"
proof (induction xs rule: oc_sum.induct)
  case (2 a)
  then show ?case using u8_bound [of a] by simp
next
  case (3 a b r)
  then show ?case using byte_pair_bound [of a b] by (auto simp: oc_add_def)
qed simp

lemma rep_oc_sum: "rep (oc_sum xs) (le_sum xs)"
proof (induction xs rule: oc_sum.induct)
  case (3 a b r)
  have "rep (unat a + 256 * unat b + oc_sum r) (unat a + 256 * unat b + le_sum r)"
    using 3 by (intro rep_add) simp_all
  with rep_oc_add show ?case by (auto intro: rep_trans)
qed simp_all

section \<open>The implementation computes the sum\<close>

text \<open>Each step of the code on the natural number the 32-bit accumulator holds.\<close>

lemma unat_ld16: "unat (ld16 a b) = unat a + 256 * unat b"
proof -
  have "unat (push_bit 8 (ucast b) :: u32) = 256 * unat b"
    using u8_bound [of b] by (simp add: unat_push_bit)
  with byte_pair_bound [of a b] show ?thesis by (simp add: ld16_def unat_add_nowrap)
qed

lemma unat_ld32:
  "unat (ld32 a b c d) = unat a + 256 * unat b + 65536 * (unat c + 256 * unat d)"
proof -
  have s: "unat (push_bit 8 (ucast b) :: u32) = 256 * unat b"
    "unat (push_bit 16 (ucast c) :: u32) = 65536 * unat c"
    "unat (push_bit 24 (ucast d) :: u32) = 16777216 * unat d"
    using u8_bound [of b] u8_bound [of c] u8_bound [of d] by (simp_all add: unat_push_bit)
  show ?thesis using u8_bound [of a] u8_bound [of b] u8_bound [of c] u8_bound [of d]
    by (simp add: ld32_def unat_add_nowrap s)
qed

lemma unat_fold32: "unat (fold32 c) = unat c mod 65536 + unat c div 65536"
proof -
  have "unat c div 65536 < 65536" using u32_bound [of c] by simp
  moreover have "unat c mod 65536 < 65536" by simp
  moreover have "unat (c AND 0xFFFF) = unat c mod 65536" "unat (drop_bit 16 c) = unat c div 65536"
    by (simp_all only: unat_and_FFFF unat_drop_bit) simp
  ultimately show ?thesis
    unfolding fold32_def by (subst unat_add_nowrap) (simp_all del: mod_less_divisor)
qed

lemma mult256_split: "256 * (n::nat) = 65536 * (n div 256) + 256 * (n mod 256)"
proof -
  have "n = 256 * (n div 256) + n mod 256" by simp
  then have "256 * n = 256 * (256 * (n div 256) + n mod 256)" by (rule arg_cong)
  also have "\<dots> = 65536 * (n div 256) + 256 * (n mod 256)" by (simp only: distrib_left mult.assoc [symmetric])
  finally show ?thesis .
qed

lemma unat_swap16:
  assumes "unat c \<le> 65535"
  shows "unat (swap16 c) = unat c div 256 + 256 * (unat c mod 256)"
proof -
  have c: "unat c < 65536" using assms by simp
  have low: "drop_bit 8 c = take_bit 8 (drop_bit 8 c)"
    using c by (intro word_unat_eq_iff [THEN iffD2])
      (simp only: unsigned_take_bit_eq unat_drop_bit, simp add: take_bit_nat_eq_self)
  have b: "bit (drop_bit 8 c) n \<Longrightarrow> n < 8" for n
    by (subst (asm) low) (simp only: bit_take_bit_iff)
  have "drop_bit 8 c OR push_bit 8 c = drop_bit 8 c + push_bit 8 c"
    by (rule disjunctive_add [symmetric]) (metis b bit_push_bit_iff leD)
  moreover have "unat (drop_bit 8 c + push_bit 8 c) = unat c div 256 + 256 * unat c"
    using c by (subst unat_add_nowrap)
      (simp_all only: unat_drop_bit unat_push_bit, simp_all)
  ultimately have "unat (swap16 c) = (unat c div 256 + 256 * unat c) mod 65536"
    by (simp only: swap16_def unat_and_FFFF)
  also have "unat c div 256 + 256 * unat c = unat c div 256 + 256 * (unat c mod 256) + 65536 * (unat c div 256)"
    using mult256_split [of "unat c"] by simp
  also have "\<dots> mod 65536 = unat c div 256 + 256 * (unat c mod 256)"
  proof -
    have "unat c div 256 < 256" "unat c mod 256 < 256" using c by (simp_all add: less_mult_imp_div_less)
    then have "unat c div 256 + 256 * (unat c mod 256) < 65536" by linarith
    then show ?thesis by (simp only: mod_mult_self2 mod_less)
  qed
  finally show ?thesis .
qed

lemma swap16_le: "unat c \<le> 65535 \<Longrightarrow> unat (swap16 c) \<le> 65535"
proof -
  assume c: "unat c \<le> 65535"
  then have "unat c div 256 \<le> 255" by simp
  moreover have "unat c mod 256 \<le> 255" using mod_less_divisor [of 256 "unat c"] by linarith
  ultimately show ?thesis by (simp add: unat_swap16 [OF c])
qed

lemma rep_swap16: "rep (unat c) s \<Longrightarrow> unat c \<le> 65535 \<Longrightarrow> rep (unat (swap16 c)) (256 * s)"
proof -
  assume r: "rep (unat c) s" and c: "unat c \<le> 65535"
  have "rep (256 * unat c) (unat (swap16 c))"
    unfolding unat_swap16 [OF c] by (subst mult256_split) (rule rep_65536)
  with rep_mult256 [OF r] show ?thesis by (auto simp: rep_def)
qed

lemma rep_carry:
  assumes "rep (unat c) s" and "rep (unat w) t"
  shows "rep (unat (if c + w < c then c + w + 1 else c + w :: u32)) (s + t)"
proof (cases "unat c + unat w < 2 ^ 32")
  case True
  then have "unat (c + w) = unat c + unat w" by (simp add: unat_add_nowrap)
  then show ?thesis using rep_add [OF assms] by (simp add: word_less_nat_alt)
next
  case False
  have lt: "unat c + unat w - 2 ^ 32 < unat c"
    using u32_bound [of w] u32_bound [of c] False by simp
  have cw: "unat (c + w) = unat c + unat w - 2 ^ 32"
    using False u32_bound [of c] u32_bound [of w] by (simp add: unat_word_ariths mod_if)
  then have "unat (c + w + 1) = unat c + unat w - 2 ^ 32 + 1"
    using u32_bound [of c] lt by (subst unat_add_nowrap) auto
  moreover have "rep (unat c + unat w - 2 ^ 32 + 1) (unat c + unat w)"
  proof -
    have "unat c + unat w = 65535 * 65537 + (unat c + unat w - 2 ^ 32 + 1)" using False by simp
    then have "(unat c + unat w) mod 65535 = (unat c + unat w - 2 ^ 32 + 1) mod 65535"
      by (metis mod_mult_self4)
    then show ?thesis using False by (auto simp: rep_def)
  qed
  ultimately show ?thesis using rep_add [OF assms] lt cw
    by (auto simp: word_less_nat_alt intro: rep_trans)
qed

lemma le_sum_Cons: "rep (le_sum (b # r)) (unat b + 256 * le_sum r)"
proof (induction r arbitrary: b)
  case (Cons c r)
  have "rep (256 * le_sum (c # r)) (65536 * le_sum r + 256 * unat c)"
    using rep_mult256 [OF Cons [of c]] by (simp add: algebra_simps)
  from rep_trans [OF this rep_65536]
  have "rep (256 * le_sum (c # r)) (le_sum r + 256 * unat c)" .
  from rep_add [OF rep_refl this, of "unat b"] show ?case
    by (simp add: rep_def ac_simps)
qed simp

lemma le_sum_append:
  "rep (le_sum (xs @ ys)) (le_sum xs + (if even (length xs) then 1 else 256) * le_sum ys)"
proof (induction xs rule: le_sum.induct)
  case (2 a)
  then show ?case by (simp add: le_sum_Cons)
next
  case (3 a b r)
  from rep_add [OF rep_refl this, of "unat a + 256 * unat b"] show ?case by (simp add: ac_simps)
qed simp

lemma checksum_loop_rep:
  "rep (unat (fst (checksum_loop c p)) + le_sum (snd (checksum_loop c p))) (unat c + le_sum p)
   \<and> length (snd (checksum_loop c p)) < 4"
proof (induction c p rule: checksum_loop.induct)
  case (1 checksum a b c d p)
  let ?w = "ld32 a b c d"
  let ?n = "if checksum + ?w < checksum then checksum + ?w + 1 else checksum + ?w"
  have w: "rep (unat ?w) (unat a + 256 * unat b + (unat c + 256 * unat d))"
    unfolding unat_ld32 using rep_65536 [of "unat c + 256 * unat d" "unat a + 256 * unat b"]
    by (simp add: ac_simps)
  have "rep (unat ?n + le_sum p) (unat checksum + (unat a + 256 * unat b + (unat c + 256 * unat d)) + le_sum p)"
    by (intro rep_add rep_carry rep_refl w)
  with 1 [OF refl] show ?case by (auto simp: Let_def ac_simps intro: rep_trans)
qed simp_all

lemma checksum_tail_sum:
  "length p < 4 \<Longrightarrow> unat c \<le> 131070 \<Longrightarrow> unat (checksum_tail c p) = unat c + le_sum p"
proof -
  assume l: "length p < 4" and c: "unat c \<le> 131070"
  have a: "unat (c + ld16 x y) = unat c + (unat x + 256 * unat y)" for x y
    using c byte_pair_bound [of x y] by (subst unat_add_nowrap) (auto simp: unat_ld16)
  have b: "unat (c + ucast x) = unat c + unat x" for x :: u8
    using c u8_bound [of x] by (subst unat_add_nowrap) auto
  have d: "unat (c + ld16 x y + ucast z) = unat c + (unat x + 256 * unat y) + unat z" for x y and z :: u8
    using c byte_pair_bound [of x y] u8_bound [of z] by (subst unat_add_nowrap) (auto simp: a)
  from l consider "p = []" | x where "p = [x]" | x y where "p = [x, y]" | x y z where "p = [x, y, z]"
    by (auto simp: less_Suc_eq numeral_eq_Suc length_Suc_conv)
  then show ?thesis by cases (simp_all add: checksum_tail_def a b d)
qed

definition align_sum :: "nat \<Rightarrow> u8 list \<Rightarrow> nat" where
  "align_sum addr data =
     (if odd addr then (case data of [] \<Rightarrow> 0 | x # xs \<Rightarrow> 256 * unat x + le_sum xs) else le_sum data)"

lemma checksum_align_sum:
  "unat (fst (checksum_align addr data)) + le_sum (snd (checksum_align addr data)) = align_sum addr data"
proof -
  have x: "unat (push_bit 8 (ucast (x::u8)) :: u32) = 256 * unat x" for x
    using u8_bound [of x] by (simp add: unat_push_bit)
  have xy: "unat (push_bit 8 (ucast (x::u8)) + ld16 y z) = 256 * unat x + (unat y + 256 * unat z)" for x y z
    using u8_bound [of x] byte_pair_bound [of y z] by (subst unat_add_nowrap) (auto simp: x unat_ld16)
  show ?thesis
    by (auto simp: checksum_align_def align_sum_def x xy unat_ld16 split: list.splits)
qed

lemma fold32_small: "unat c \<le> 131070 \<Longrightarrow> unat (fold32 c) \<le> 65535"
  by (cases "unat c < 65536") (simp_all add: unat_fold32 mod_if [of "unat c"] div_if [of _ "unat c"])

lemma rep_fold32: "rep (unat c) s \<Longrightarrow> rep (unat (fold32 c)) s"
  unfolding unat_fold32 by (rule rep_fold)

lemma unat_complement: "unat c \<le> 65535 \<Longrightarrow> unat (ucast ((c::u32) XOR 0xFFFF) :: u16) = 65535 - unat c"
  by (simp add: unat_ucast_32_16 unat_xor_FFFF)

lemma rep_align: "rep (if odd addr then 256 * align_sum addr xs else align_sum addr xs) (le_sum xs)"
proof (cases "odd addr")
  case True
  show ?thesis
  proof (cases xs)
    case (Cons x r)
    have "rep (65536 * unat x + 256 * le_sum r) (le_sum xs)"
      using rep_trans [OF rep_65536] le_sum_Cons [of x r] Cons by (auto simp: rep_def)
    then show ?thesis using True Cons by (simp add: align_sum_def algebra_simps)
  qed (simp add: align_sum_def)
qed (simp add: align_sum_def)

lemma ipCalcChecksum_sum: "unat (ipCalcChecksum addr xs) = 65535 - oc_sum xs"
proof -
  obtain c p where al: "checksum_align addr xs = (c, p)" by fastforce
  obtain d q where lp: "checksum_loop c p = (d, q)" by fastforce
  have S: "unat c + le_sum p = align_sum addr xs" using checksum_align_sum [of addr xs] by (simp add: al)
  have q: "length q < 4" "rep (unat d + le_sum q) (align_sum addr xs)"
    using checksum_loop_rep [of c p] by (simp_all add: lp S)
  have f: "unat (fold32 d) \<le> 131070"
    using u32_bound [of d] mod_less_divisor [of 65536 "unat d"] by (simp add: unat_fold32)
  define e where "e = checksum_tail (fold32 d) q"
  have e: "unat e = unat (fold32 d) + le_sum q" unfolding e_def by (rule checksum_tail_sum [OF q(1) f])
  have "rep (unat e) (unat d + le_sum q)" unfolding e by (intro rep_add rep_fold32 rep_refl)
  from this q(2) have "rep (unat e) (align_sum addr xs)" by (rule rep_trans)
  define g where "g = fold32 (fold32 e)"
  have g: "rep (unat g) (align_sum addr xs)" unfolding g_def by (intro rep_fold32) fact
  have "unat (fold32 e) \<le> 131070"
    using u32_bound [of e] mod_less_divisor [of 65536 "unat e"] by (simp add: unat_fold32)
  then have gl: "unat g \<le> 65535" unfolding g_def by (rule fold32_small)
  define h where "h = (if odd addr then swap16 g else g)"
  have "rep (unat h) (if odd addr then 256 * align_sum addr xs else align_sum addr xs)"
    using rep_swap16 [OF g gl] g by (simp add: h_def)
  from rep_trans [OF this rep_align] have "rep (unat h) (le_sum xs)" .
  moreover have hl: "unat h \<le> 65535" using gl swap16_le [OF gl] by (simp add: h_def)
  ultimately have "unat h = oc_sum xs" using rep_unique rep_oc_sum oc_sum_le by blast
  moreover have "ipCalcChecksum addr xs = ucast (h XOR 0xFFFF)"
    by (simp add: ipCalcChecksum_def al lp h_def g_def e_def Let_def)
  ultimately show ?thesis using unat_complement [OF hl] by simp
qed

text \<open>The code works on the complemented result of a nested call.\<close>

lemma checksum_uncomplement: "unat (ucast (c::u16) XOR (0xFFFF::u32)) = 65535 - unat c"
  using u16_bound [of c] by (subst unat_xor_FFFF) simp_all

lemma part_sum: "unat (ucast (ipCalcChecksum addr xs) XOR (0xFFFF::u32)) = oc_sum xs"
  using oc_sum_le [of xs] by (simp add: checksum_uncomplement ipCalcChecksum_sum)

lemma add_fold:
  assumes "rep (unat c) s" and "rep (unat d) t" and "unat c \<le> 65535" and "unat (d::u32) \<le> 65535"
  shows "rep (unat (fold32 (c + d))) (s + t)" and "unat (fold32 (c + d)) \<le> 65535"
proof -
  have u: "unat (c + d) = unat c + unat d" using assms by (simp add: unat_add_nowrap)
  show "rep (unat (fold32 (c + d))) (s + t)" by (rule rep_fold32) (simp only: u rep_add assms)
  show "unat (fold32 (c + d)) \<le> 65535" by (rule fold32_small) (use u assms in simp)
qed

lemma checksumEx_chunk_rep:
  assumes s: "rep (unat s) (le_sum pre)" and l: "unat s \<le> 65535"
  shows "rep (unat (checksumEx_chunk (length pre) addr xs s)) (le_sum (pre @ xs))
    \<and> unat (checksumEx_chunk (length pre) addr xs s) \<le> 65535"
proof -
  let ?d = "ucast (ipCalcChecksum addr xs) XOR (0xFFFF::u32)"
  have d: "rep (unat ?d) (le_sum xs)" "unat ?d \<le> 65535"
    by (simp_all add: part_sum rep_oc_sum oc_sum_le)
  show ?thesis
  proof (cases "odd (length pre)")
    case True
    note f = add_fold [OF rep_swap16 [OF s l] d(1) swap16_le [OF l] d(2)]
    have "rep (256 * (256 * le_sum pre + le_sum xs)) (le_sum pre + 256 * le_sum xs)"
      using rep_65536 [of "le_sum pre" "256 * le_sum xs"] by (simp add: algebra_simps)
    moreover have "rep (le_sum (pre @ xs)) (le_sum pre + 256 * le_sum xs)"
      using le_sum_append [of pre xs] True by simp
    ultimately have "rep (256 * (256 * le_sum pre + le_sum xs)) (le_sum (pre @ xs))"
      by (simp add: rep_def)
    from rep_trans [OF rep_swap16 [OF f] this] show ?thesis
      using True swap16_le [OF f(2)] by (simp add: checksumEx_chunk_def)
  next
    case False
    note f = add_fold [OF s d(1) l d(2)]
    have "rep (le_sum pre + le_sum xs) (le_sum (pre @ xs))"
      using le_sum_append [of pre xs] False by (simp add: rep_def)
    from rep_trans [OF f(1) this] show ?thesis using False f(2) by (simp add: checksumEx_chunk_def)
  qed
qed

lemma checksumEx_loop_rep:
  assumes "\<forall>c \<in> set cs. chunk_wf c" and "rep (unat s) (le_sum pre)" and "unat s \<le> 65535"
  shows "rep (unat (checksumEx_loop cs off (length pre) len s))
           (le_sum (pre @ take (len - length pre) (drop off (chunks_bytes cs))))
    \<and> unat (checksumEx_loop cs off (length pre) len s) \<le> 65535"
  using assms
proof (induction cs arbitrary: off pre s)
  case (Cons c cs)
  show ?case
  proof (cases "length pre < len \<and> off < chLength c")
    case True
    let ?n = "min (chLength c - off) (len - length pre)"
    let ?d = "take ?n (drop off (storage c))"
    have cb: "length (chunk_bytes c) = chLength c" using Cons.prems(1) by simp
    have d: "?d = take (len - length pre) (drop off (chunk_bytes c))"
      by (simp add: chunk_bytes_def drop_take take_take ac_simps)
    have n: "length ?d = ?n" using cb unfolding d by simp
    have rest: "take (len - length pre) (drop off (chunks_bytes (c # cs)))
        = ?d @ take (len - length (pre @ ?d)) (chunks_bytes cs)"
      using True n unfolding d by (simp add: cb) (simp add: min_def)
    note k = checksumEx_chunk_rep [OF Cons.prems(2,3), of "address c + off" ?d]
    have "length pre + ?n = length (pre @ ?d)" by (simp only: length_append n)
    with True have "checksumEx_loop (c # cs) off (length pre) len s
        = checksumEx_loop cs 0 (length (pre @ ?d)) len (checksumEx_chunk (length pre) (address c + off) ?d s)"
      by (simp only: checksumEx_loop.simps Let_def if_True simp_thms)
    with Cons.IH [of _ "pre @ ?d" 0] Cons.prems(1) k show ?thesis
      by (simp only: rest) simp
  next
    case False
    have cb: "length (chunk_bytes c) = chLength c" using Cons.prems(1) by simp
    show ?thesis using False Cons by (auto simp: cb not_less)
  qed
qed simp

lemma checksumEx_loop_sum:
  "nb_wf b \<Longrightarrow> unat (checksumEx_loop (chunk b) off 0 len 0) = oc_sum (take len (drop off (nb_bytes b)))"
  using checksumEx_loop_rep [of "chunk b" 0 "[]" off len] rep_unique rep_oc_sum oc_sum_le
  by (fastforce simp: nb_wf_def nb_bytes_def)

lemma ipCalcChecksumEx_sum:
  "nb_wf b \<Longrightarrow> unat (ipCalcChecksumEx b off len) = 65535 - oc_sum (take len (drop off (nb_bytes b)))"
  by (simp add: ipCalcChecksumEx_def unat_complement checksumEx_loop_sum oc_sum_le)

lemma two_part_sum:
  fixes c d :: u32
  assumes "unat c = oc_sum xs" and "unat d = oc_sum ys"
  shows "unat (ucast (fold32 (c + d) XOR 0xFFFF) :: u16) = 65535 - oc_add (oc_sum xs) (oc_sum ys)"
proof -
  note f = add_fold [of c "oc_sum xs" d "oc_sum ys"]
  have "unat (fold32 (c + d)) = oc_add (oc_sum xs) (oc_sum ys)"
    using f rep_oc_add [of "oc_sum xs" "oc_sum ys"] assms oc_sum_le [of xs] oc_sum_le [of ys]
    by (intro rep_unique) (auto simp: oc_add_def)
  moreover have "unat (fold32 (c + d)) \<le> 65535" using f assms oc_sum_le by simp
  ultimately show ?thesis by (simp add: unat_complement)
qed

lemma ipCalcUpperLayerChecksum_sum:
  "unat (ipCalcUpperLayerChecksum pa ph a xs) = 65535 - oc_add (oc_sum ph) (oc_sum xs)"
  unfolding ipCalcUpperLayerChecksum_def Let_def by (intro two_part_sum part_sum)

lemma ipCalcUpperLayerChecksumEx_sum:
  assumes "nb_wf b"
  shows "unat (ipCalcUpperLayerChecksumEx pa ph b off len)
    = 65535 - oc_add (oc_sum ph) (oc_sum (take len (drop off (nb_bytes b))))"
proof -
  have "unat (ucast (ipCalcChecksumEx b off len) XOR (0xFFFF::u32)) = oc_sum (take len (drop off (nb_bytes b)))"
    using oc_sum_le by (simp add: checksum_uncomplement ipCalcChecksumEx_sum [OF assms])
  then show ?thesis unfolding ipCalcUpperLayerChecksumEx_def Let_def by (intro two_part_sum part_sum)
qed

section \<open>A packet carrying its checksum verifies\<close>

lemma le_sum_two: "le_sum [a, b] = unat a + 256 * unat b"
  by simp

lemma le16_le_sum: "le_sum (le16 c) = unat c"
proof -
  have "unat (ucast c :: u8) = unat c mod 256" "unat (ucast (drop_bit 8 c) :: u8) = unat c div 256"
    using u16_bound [of c] by (simp_all add: unsigned_ucast_eq take_bit_eq_mod unat_drop_bit)
  then show ?thesis by (simp add: le16_def)
qed

lemma field_sum:
  assumes "even (length pre)"
  shows "rep (le_sum (pre @ le16 c @ post)) (unat c + le_sum (pre @ [0, 0] @ post))"
proof -
  have "rep (le_sum (pre @ f @ post)) (le_sum pre + (le_sum f + le_sum post))" if "length f = 2" for f
  proof -
    obtain x y where f: "f = [x, y]" using \<open>length f = 2\<close> by (auto simp: numeral_2_eq_2 length_Suc_conv)
    show ?thesis using le_sum_append [of pre "f @ post"] assms by (simp add: f)
  qed
  from this [of "le16 c"] this [of "[0, 0]"] rep_add [OF rep_refl [of "unat c"] this [of "[0, 0]"]]
  show ?thesis by (auto simp: rep_def le16_le_sum ac_simps)
qed

lemma complement_rep:
  assumes "rep s t" and "s \<le> 65535"
  shows "rep 65535 (65535 - s + t)"
proof -
  have "(65535 - s + t) mod 65535 = (65535 - s + s) mod 65535"
    using assms(1) by (intro mod_add_cong) (simp_all add: rep_def)
  with assms show ?thesis by (auto simp: rep_def)
qed

lemma oc_sum_field:
  assumes "even (length pre)"
    and "unat c = 65535 - oc_add (oc_sum ph) (oc_sum (pre @ [0, 0] @ post))"
  shows "oc_add (oc_sum ph) (oc_sum (pre @ le16 c @ post)) = 65535"
proof -
  let ?z = "pre @ [0, 0] @ post" and ?f = "pre @ le16 c @ post"
  have s: "rep (oc_add (oc_sum ph) (oc_sum ys)) (le_sum ph + le_sum ys)" for ys
    using rep_trans [OF rep_oc_add rep_add [OF rep_oc_sum rep_oc_sum]] .
  have le: "oc_add (oc_sum ph) (oc_sum ys) \<le> 65535" for ys
    using oc_sum_le [of ph] oc_sum_le [of ys] by (auto simp: oc_add_def)
  have "rep (le_sum ph + le_sum ?f) (le_sum ph + (unat c + le_sum ?z))"
    by (intro rep_add rep_refl field_sum assms)
  then have "rep (oc_add (oc_sum ph) (oc_sum ?f)) (unat c + (le_sum ph + le_sum ?z))"
    using rep_trans [OF s [of ?f]] by (simp add: ac_simps)
  moreover have "rep 65535 (unat c + (le_sum ph + le_sum ?z))"
    unfolding assms(2) by (rule complement_rep [OF s le])
  ultimately show ?thesis using le by (intro rep_unique) auto
qed

lemma checksum_inserted:
  assumes "nb_wf b" and "nb_wf b'" and "even (length pre)"
    and "take len (drop off (nb_bytes b)) = pre @ [0, 0] @ post"
    and "take len' (drop off' (nb_bytes b')) = pre @ le16 (ipCalcUpperLayerChecksumEx pa ph b off len) @ post"
  shows "ipCalcUpperLayerChecksumEx pa' ph b' off' len' = 0"
proof -
  let ?c = "ipCalcUpperLayerChecksumEx pa ph b off len"
  have "unat ?c = 65535 - oc_add (oc_sum ph) (oc_sum (pre @ [0, 0] @ post))"
    using ipCalcUpperLayerChecksumEx_sum [OF assms(1), of pa ph off len] assms(4) by simp
  from oc_sum_field [OF assms(3) this]
  have "unat (ipCalcUpperLayerChecksumEx pa' ph b' off' len') = 0"
    using ipCalcUpperLayerChecksumEx_sum [OF assms(2), of pa' ph off' len'] assms(5) by simp
  then show ?thesis by (simp add: unat_eq_zero)
qed

section \<open>Properties\<close>

text \<open>
  Property C40. \<open>ipCalcChecksum\<close> returns the complement of the one's complement sum of the 16-bit
  words of the data, for every address of the data: the alignment steps, the 32-bit loop with its
  end-around carry, the folding and the final byte swap change nothing.
\<close>

theorem ipCalcChecksum_rfc1071: "unat (ipCalcChecksum addr data) = 65535 - oc_sum data"
  by (rule ipCalcChecksum_sum)

text \<open>
  The checksum over a multi-part buffer is the checksum of the flat bytes of the
  range, whatever the chunk boundaries (at odd positions too) and the addresses are, added to the
  sum of the pseudo header.
\<close>

theorem ipCalcUpperLayerChecksumEx_flat:
  assumes "nb_wf b"
  shows "unat (ipCalcUpperLayerChecksumEx pa ph b off len)
    = 65535 - oc_add (oc_sum ph) (oc_sum (take len (drop off (nb_bytes b))))"
  by (rule ipCalcUpperLayerChecksumEx_sum [OF assms])

theorem ipCalcUpperLayerChecksumEx_flat_witness:
  "unat (ipCalcUpperLayerChecksumEx 0 [192, 168] example_dest 0 5) = 65535 - oc_add (oc_sum [192, 168]) (oc_sum [1, 2, 3, 4, 5])"
  using ipCalcUpperLayerChecksumEx_flat [OF example_wf(1), of 0 "[192, 168]" 0 5] by (simp add: example_wf)

text \<open>
  A packet verifies: if the checksum is computed with a zero checksum field at an even
  position and then stored in that field, the receiver's computation over the whole packet gives
  zero, however the packet is cut into chunks on either side.
\<close>

theorem checksum_verifies:
  assumes "nb_wf b" and "nb_wf b'" and "even (length pre)"
    and "take len (drop off (nb_bytes b)) = pre @ [0, 0] @ post"
    and "take len' (drop off' (nb_bytes b')) = pre @ le16 (ipCalcUpperLayerChecksumEx pa ph b off len) @ post"
  shows "ipCalcUpperLayerChecksumEx pa' ph b' off' len' = 0"
  by (rule checksum_inserted [OF assms])

definition example_packet :: "u8 list \<Rightarrow> NetBuffer" where
  "example_packet xs = \<lparr>maxChunkCount = 2, chunk = [\<lparr>address = 1, storage = xs, chLength = length xs, chSize = 0\<rparr>]\<rparr>"

lemma example_packet_bytes: "nb_wf (example_packet xs)" "nb_bytes (example_packet xs) = xs"
  by (simp_all add: example_packet_def nb_wf_def chunk_wf_def nb_bytes_def chunk_bytes_def)

theorem checksum_verifies_witness:
  "ipCalcUpperLayerChecksumEx 3 [10, 0] (example_packet ([1, 2] @
     le16 (ipCalcUpperLayerChecksumEx 0 [10, 0] (example_packet [1, 2, 0, 0, 5]) 0 5) @ [5])) 0 5 = 0"
  by (rule checksum_verifies [OF example_packet_bytes(1) example_packet_bytes(1), of "[1, 2]" 5 0 "[1, 2, 0, 0, 5]" "[5]"])
    (simp_all add: example_packet_bytes)

end
