(* ===== verification/Tcp_Types.thy ===== *)
theory Tcp_Types
  imports Ip_Checksum
begin

text \<open>
  The data of the TCP module: the enumerations and constants of \<open>core/tcp.h\<close> and
  \<open>core/socket.h\<close>, the structures (\<open>Socket\<close> with the fields of the source, at their
  widths), IP addresses and pseudo headers (\<open>core/ip.h\<close>), and the calls that leave the
  module.

  Addresses keep the representation of the source: a length and the bytes of the union, so that
  reading the IPv4 member of an address that holds something else is what it is in C.
  \<open>ctx\<close> is the world outside one socket: the answers of the operating system and of the
  IP layer to successive calls (each call increments \<open>calls\<close>; nothing is assumed about the
  answers), the blocks currently allocated, the datagrams handed to the IP layer so far, and the
  global variables of \<open>core/net.c\<close> and \<open>core/tcp.c\<close> the code uses. A handler works on a \<open>conn\<close>: the world and the socket.
\<close>

section \<open>Constants\<close>

abbreviation (input) TCP_MAX_MSS :: u32 where "TCP_MAX_MSS \<equiv> 1430"
abbreviation (input) TCP_MIN_MSS :: u32 where "TCP_MIN_MSS \<equiv> 64"
abbreviation (input) TCP_DEFAULT_MSS :: u32 where "TCP_DEFAULT_MSS \<equiv> 536"
abbreviation (input) TCP_DEFAULT_TX_BUFFER_SIZE :: u32 where "TCP_DEFAULT_TX_BUFFER_SIZE \<equiv> 2860"
abbreviation (input) TCP_DEFAULT_RX_BUFFER_SIZE :: u32 where "TCP_DEFAULT_RX_BUFFER_SIZE \<equiv> 2860"
abbreviation (input) TCP_MAX_TX_BUFFER_SIZE :: u32 where "TCP_MAX_TX_BUFFER_SIZE \<equiv> 22880"
abbreviation (input) TCP_MAX_RX_BUFFER_SIZE :: u32 where "TCP_MAX_RX_BUFFER_SIZE \<equiv> 22880"
abbreviation (input) TCP_DEFAULT_SYN_QUEUE_SIZE :: u32 where "TCP_DEFAULT_SYN_QUEUE_SIZE \<equiv> 4"
abbreviation (input) TCP_MAX_SYN_QUEUE_SIZE :: u32 where "TCP_MAX_SYN_QUEUE_SIZE \<equiv> 16"
abbreviation (input) TCP_MAX_RETRIES :: u32 where "TCP_MAX_RETRIES \<equiv> 5"
abbreviation (input) TCP_INITIAL_RTO :: u32 where "TCP_INITIAL_RTO \<equiv> 1000"
abbreviation (input) TCP_MIN_RTO :: u32 where "TCP_MIN_RTO \<equiv> 1000"
abbreviation (input) TCP_MAX_RTO :: u32 where "TCP_MAX_RTO \<equiv> 60000"
abbreviation (input) TCP_FAST_RETRANSMIT_THRES :: u32 where "TCP_FAST_RETRANSMIT_THRES \<equiv> 3"
abbreviation (input) TCP_INITIAL_WINDOW :: u32 where "TCP_INITIAL_WINDOW \<equiv> 3"
abbreviation (input) TCP_LOSS_WINDOW :: u32 where "TCP_LOSS_WINDOW \<equiv> 1"
abbreviation (input) TCP_DEFAULT_PROBE_INTERVAL :: u32 where "TCP_DEFAULT_PROBE_INTERVAL \<equiv> 1000"
abbreviation (input) TCP_MAX_PROBE_INTERVAL :: u32 where "TCP_MAX_PROBE_INTERVAL \<equiv> 60000"
abbreviation (input) TCP_OVERRIDE_TIMEOUT :: u32 where "TCP_OVERRIDE_TIMEOUT \<equiv> 500"
abbreviation (input) TCP_FIN_WAIT_2_TIMER :: u32 where "TCP_FIN_WAIT_2_TIMER \<equiv> 4000"
abbreviation (input) TCP_2MSL_TIMER :: u32 where "TCP_2MSL_TIMER \<equiv> 4000"
abbreviation (input) TCP_MAX_SACK_BLOCKS :: nat where "TCP_MAX_SACK_BLOCKS \<equiv> 4"
abbreviation (input) TCP_MAX_HEADER_LENGTH :: nat where "TCP_MAX_HEADER_LENGTH \<equiv> 60"
abbreviation (input) SIZEOF_TCP_HEADER :: nat where "SIZEOF_TCP_HEADER \<equiv> 20"
abbreviation (input) SOCKET_MAX_COUNT :: nat where "SOCKET_MAX_COUNT \<equiv> 10"
abbreviation (input) SOCKET_EPHEMERAL_PORT_MIN :: u32 where "SOCKET_EPHEMERAL_PORT_MIN \<equiv> 49152"
abbreviation (input) SOCKET_EPHEMERAL_PORT_MAX :: u32 where "SOCKET_EPHEMERAL_PORT_MAX \<equiv> 65535"
abbreviation (input) INFINITE_DELAY :: u32 where "INFINITE_DELAY \<equiv> 0xFFFFFFFF"

abbreviation (input) TCP_FLAG_FIN :: u8 where "TCP_FLAG_FIN \<equiv> 0x01"
abbreviation (input) TCP_FLAG_SYN :: u8 where "TCP_FLAG_SYN \<equiv> 0x02"
abbreviation (input) TCP_FLAG_RST :: u8 where "TCP_FLAG_RST \<equiv> 0x04"
abbreviation (input) TCP_FLAG_PSH :: u8 where "TCP_FLAG_PSH \<equiv> 0x08"
abbreviation (input) TCP_FLAG_ACK :: u8 where "TCP_FLAG_ACK \<equiv> 0x10"

abbreviation (input) TCP_OPTION_END :: u8 where "TCP_OPTION_END \<equiv> 0"
abbreviation (input) TCP_OPTION_NOP :: u8 where "TCP_OPTION_NOP \<equiv> 1"
abbreviation (input) TCP_OPTION_MAX_SEGMENT_SIZE :: u8 where "TCP_OPTION_MAX_SEGMENT_SIZE \<equiv> 2"

abbreviation (input) SOCKET_FLAG_DONT_WAIT :: u32 where "SOCKET_FLAG_DONT_WAIT \<equiv> 0x0100"
abbreviation (input) SOCKET_FLAG_WAIT_ALL :: u32 where "SOCKET_FLAG_WAIT_ALL \<equiv> 0x0800"
abbreviation (input) SOCKET_FLAG_BREAK_CHAR :: u32 where "SOCKET_FLAG_BREAK_CHAR \<equiv> 0x1000"
abbreviation (input) SOCKET_FLAG_WAIT_ACK :: u32 where "SOCKET_FLAG_WAIT_ACK \<equiv> 0x2000"
abbreviation (input) SOCKET_FLAG_NO_DELAY :: u32 where "SOCKET_FLAG_NO_DELAY \<equiv> 0x4000"
abbreviation (input) SOCKET_FLAG_DELAY :: u32 where "SOCKET_FLAG_DELAY \<equiv> 0x8000"

abbreviation (input) SOCKET_EVENT_CONNECTED :: u32 where "SOCKET_EVENT_CONNECTED \<equiv> 0x0001"
abbreviation (input) SOCKET_EVENT_CLOSED :: u32 where "SOCKET_EVENT_CLOSED \<equiv> 0x0002"
abbreviation (input) SOCKET_EVENT_TX_READY :: u32 where "SOCKET_EVENT_TX_READY \<equiv> 0x0004"
abbreviation (input) SOCKET_EVENT_TX_DONE :: u32 where "SOCKET_EVENT_TX_DONE \<equiv> 0x0008"
abbreviation (input) SOCKET_EVENT_TX_ACKED :: u32 where "SOCKET_EVENT_TX_ACKED \<equiv> 0x0010"
abbreviation (input) SOCKET_EVENT_TX_SHUTDOWN :: u32 where "SOCKET_EVENT_TX_SHUTDOWN \<equiv> 0x0020"
abbreviation (input) SOCKET_EVENT_RX_READY :: u32 where "SOCKET_EVENT_RX_READY \<equiv> 0x0040"
abbreviation (input) SOCKET_EVENT_RX_SHUTDOWN :: u32 where "SOCKET_EVENT_RX_SHUTDOWN \<equiv> 0x0080"
abbreviation (input) SOCKET_EVENT_LINK_UP :: u32 where "SOCKET_EVENT_LINK_UP \<equiv> 0x0100"
abbreviation (input) SOCKET_EVENT_LINK_DOWN :: u32 where "SOCKET_EVENT_LINK_DOWN \<equiv> 0x0200"

section \<open>Enumerations\<close>

datatype TcpState =
    TCP_STATE_CLOSED
  | TCP_STATE_LISTEN
  | TCP_STATE_SYN_SENT
  | TCP_STATE_SYN_RECEIVED
  | TCP_STATE_ESTABLISHED
  | TCP_STATE_CLOSE_WAIT
  | TCP_STATE_LAST_ACK
  | TCP_STATE_FIN_WAIT_1
  | TCP_STATE_FIN_WAIT_2
  | TCP_STATE_CLOSING
  | TCP_STATE_TIME_WAIT

datatype TcpCongestState =
    TCP_CONGEST_STATE_IDLE
  | TCP_CONGEST_STATE_RECOVERY
  | TCP_CONGEST_STATE_LOSS_RECOVERY

datatype SocketType =
    SOCKET_TYPE_UNUSED
  | SOCKET_TYPE_STREAM
  | SOCKET_TYPE_DGRAM
  | SOCKET_TYPE_RAW_IP
  | SOCKET_TYPE_RAW_ETH

datatype SocketShutdown = SOCKET_SD_RECEIVE | SOCKET_SD_SEND | SOCKET_SD_BOTH

section \<open>Structures\<close>

record IpAddr =
  ipLength :: nat
  ipData :: "u8 list"

text \<open>The \<open>ipv4Addr\<close> and \<open>ipv6Addr\<close> members of the union.\<close>

definition ipv4Addr :: "IpAddr \<Rightarrow> u8 list" where "ipv4Addr a = take 4 (ipData a)"
definition ipv6Addr :: "IpAddr \<Rightarrow> u8 list" where "ipv6Addr a = take 16 (ipData a)"

text \<open>\<open>IpPseudoHeader\<close>: the length of the member in use selects its layout.\<close>

record IpPseudoHeader =
  phLength :: nat
  phSrcAddr :: "u8 list"
  phDestAddr :: "u8 list"
  phProtocol :: u8
  phDataLength :: u32

abbreviation (input) SIZEOF_IPV4_PSEUDO_HEADER :: nat where "SIZEOF_IPV4_PSEUDO_HEADER \<equiv> 12"
abbreviation (input) SIZEOF_IPV6_PSEUDO_HEADER :: nat where "SIZEOF_IPV6_PSEUDO_HEADER \<equiv> 40"

text \<open>The bytes of the member in use (\<open>pseudoHeader.ipv4Data\<close> or \<open>pseudoHeader.ipv6Data\<close>).\<close>

definition pseudoHeader_bytes :: "IpPseudoHeader \<Rightarrow> u8 list" where
  "pseudoHeader_bytes ph =
     (if phLength ph = SIZEOF_IPV4_PSEUDO_HEADER
      then phSrcAddr ph @ phDestAddr ph @ [0, phProtocol ph] @ be16 (ucast (phDataLength ph))
      else phSrcAddr ph @ phDestAddr ph @ be32 (phDataLength ph) @ [0, 0, 0, phProtocol ph])"

record TcpHeader =
  srcPort :: u16
  destPort :: u16
  seqNum :: u32
  ackNum :: u32
  dataOffset :: u8
  flags :: u8
  window :: u16
  checksum :: u16
  urgentPointer :: u16
  options :: "u8 list"

record TcpTimer =
  running :: bool
  startTime :: systime_t
  interval :: systime_t

text \<open>\<open>qiAddress\<close> and \<open>sqAddress\<close>: the block the item lives in; the list order is the \<open>next\<close> chain.\<close>

record TcpQueueItem =
  qiAddress :: nat
  qiLength :: u32
  qiSacked :: bool
  qiPseudoHeader :: IpPseudoHeader
  qiHeader :: "u8 list"

record TcpSynQueueItem =
  sqAddress :: nat
  sqInterface :: nat
  sqSrcAddr :: IpAddr
  sqSrcPort :: u16
  sqDestAddr :: IpAddr
  sqIsn :: u32
  sqMss :: u16

record TcpSackBlock =
  leftEdge :: u32
  rightEdge :: u32

text \<open>Additional options passed with a packet (\<open>core/net_misc.h\<close>), without VLAN and port tagging.\<close>

record NetAncillaryData =
  anTtl :: u8
  dontRoute :: bool

definition NET_DEFAULT_ANCILLARY_DATA :: NetAncillaryData where
  "NET_DEFAULT_ANCILLARY_DATA = \<lparr>anTtl = 0, dontRoute = False\<rparr>"

definition ttl_option :: "u8 \<Rightarrow> NetAncillaryData" where
  "ttl_option t = NET_DEFAULT_ANCILLARY_DATA\<lparr>anTtl := t\<rparr>"

text \<open>
  An item of the receive queue of a UDP socket. The item lies in the first bytes of its own
  buffer, whose block is \<open>rqAddress\<close>; those bytes are never read as data. The list order is
  the \<open>next\<close> chain.
\<close>

record SocketQueueItem =
  rqSrcIpAddr :: IpAddr
  rqSrcPort :: u16
  rqDestIpAddr :: IpAddr
  rqAddress :: nat
  rqBuffer :: NetBuffer
  rqOffset :: nat
  rqAncillary :: NetAncillaryData

text \<open>
  The socket. \<open>event\<close> is the state of the event object, \<open>userEvent\<close> that of the object
  the user registered, if any; an interface is named by a number. The array
  \<open>sackBlock\<close> is the list of its first \<open>sackBlockCount\<close> entries.
\<close>

record Socket =
  descriptor :: nat
  sk_type :: SocketType
  protocol :: u32
  sk_interface :: "nat option"
  localIpAddr :: IpAddr
  localPort :: u16
  remoteIpAddr :: IpAddr
  remotePort :: u16
  sk_timeout :: systime_t
  ttl :: u8
  multicastTtl :: u8
  event :: bool
  eventMask :: u32
  eventFlags :: u32
  userEvent :: "bool option"
  sk_state :: TcpState
  ownedFlag :: bool
  closedFlag :: bool
  resetFlag :: bool
  smss :: u16
  rmss :: u16
  iss :: u32
  irs :: u32
  sndUna :: u32
  sndNxt :: u32
  sndUser :: u16
  sndWnd :: u16
  maxSndWnd :: u16
  sndWl1 :: u32
  sndWl2 :: u32
  rcvNxt :: u32
  rcvUser :: u16
  rcvWnd :: u16
  rttBusy :: bool
  rttSeqNum :: u32
  rttStartTime :: systime_t
  srtt :: systime_t
  rttvar :: systime_t
  rto :: systime_t
  congestState :: TcpCongestState
  cwnd :: u16
  ssthresh :: u16
  dupAckCount :: u32
  sk_n :: u32
  recover :: u32
  txBuffer :: NetBuffer
  txBufferSize :: u32
  rxBuffer :: NetBuffer
  rxBufferSize :: u32
  retransmitQueue :: "TcpQueueItem list"
  retransmitTimer :: TcpTimer
  retransmitCount :: u32
  synQueue :: "TcpSynQueueItem list"
  synQueueSize :: u32
  wndProbeCount :: u32
  wndProbeInterval :: systime_t
  persistTimer :: TcpTimer
  overrideTimer :: TcpTimer
  finWait2Timer :: TcpTimer
  timeWaitTimer :: TcpTimer
  sackBlock :: "TcpSackBlock list"
  receiveQueue :: "SocketQueueItem list"

text \<open>A socket structure filled with zero bytes.\<close>

definition zeroTimer :: TcpTimer where
  "zeroTimer = \<lparr>running = False, startTime = 0, interval = 0\<rparr>"

definition zeroAddr :: IpAddr where
  "zeroAddr = \<lparr>ipLength = 0, ipData = replicate 16 0\<rparr>"

definition zeroSocket :: Socket where
  "zeroSocket =
     \<lparr>descriptor = 0, sk_type = SOCKET_TYPE_UNUSED, protocol = 0, sk_interface = None,
      localIpAddr = zeroAddr, localPort = 0, remoteIpAddr = zeroAddr, remotePort = 0,
      sk_timeout = 0, ttl = 0, multicastTtl = 0, event = False, eventMask = 0, eventFlags = 0, userEvent = None,
      sk_state = TCP_STATE_CLOSED, ownedFlag = False, closedFlag = False, resetFlag = False,
      smss = 0, rmss = 0, iss = 0, irs = 0, sndUna = 0, sndNxt = 0, sndUser = 0, sndWnd = 0,
      maxSndWnd = 0, sndWl1 = 0, sndWl2 = 0, rcvNxt = 0, rcvUser = 0, rcvWnd = 0,
      rttBusy = False, rttSeqNum = 0, rttStartTime = 0, srtt = 0, rttvar = 0, rto = 0,
      congestState = TCP_CONGEST_STATE_IDLE, cwnd = 0, ssthresh = 0, dupAckCount = 0, sk_n = 0,
      recover = 0, txBuffer = \<lparr>maxChunkCount = 0, chunk = []\<rparr>, txBufferSize = 0,
      rxBuffer = \<lparr>maxChunkCount = 0, chunk = []\<rparr>, rxBufferSize = 0,
      retransmitQueue = [], retransmitTimer = zeroTimer, retransmitCount = 0,
      synQueue = [], synQueueSize = 0, wndProbeCount = 0, wndProbeInterval = 0,
      persistTimer = zeroTimer, overrideTimer = zeroTimer, finWait2Timer = zeroTimer,
      timeWaitTimer = zeroTimer, sackBlock = [], receiveQueue = []\<rparr>"

section \<open>The world outside a socket\<close>

text \<open>A datagram handed to the IP layer: interface, pseudo header, bytes and options.\<close>

record Datagram =
  dgInterface :: "nat option"
  dgPseudoHeader :: IpPseudoHeader
  dgBytes :: "u8 list"
  dgAncillary :: NetAncillaryData

record ctx =
  clock :: "nat \<Rightarrow> systime_t"
  heapResult :: "nat \<Rightarrow> nat option"
  heapByte :: "nat \<Rightarrow> nat \<Rightarrow> nat \<Rightarrow> u8"
  ipResult :: "nat \<Rightarrow> error_t"
  sourceResult :: "nat \<Rightarrow> error_t \<times> nat option \<times> u8 list"
  linkState :: "nat \<Rightarrow> bool"
  isBroadcastAddr :: "nat \<Rightarrow> u8 list \<Rightarrow> bool"
  calls :: nat
  live :: "nat list"
  sent :: "Datagram list"
  prngState :: u32
  tcpDynamicPort :: u16
  udpDynamicPort :: u16

record conn =
  cx :: ctx
  sk :: Socket

definition upd :: "(Socket \<Rightarrow> Socket) \<Rightarrow> conn \<Rightarrow> conn" where
  "upd f c = c\<lparr>sk := f (sk c)\<rparr>"

lemma upd_simps [simp]: "sk (upd f c) = f (sk c)" "cx (upd f c) = cx c"
  by (simp_all add: upd_def)

text \<open>One call to the outside: the answers are read at the current call number.\<close>

definition tick_call :: "ctx \<Rightarrow> ctx" where
  "tick_call x = x\<lparr>calls := Suc (calls x)\<rparr>"

definition osGetSystemTime :: "ctx \<Rightarrow> systime_t \<times> ctx" where
  "osGetSystemTime x = (clock x (calls x), tick_call x)"

text \<open>The linear congruential generator of \<open>core/net.c\<close>.\<close>

definition lcg :: "u32 \<Rightarrow> u32" where "lcg v = v * 1103515245 + 12345"

definition netGetRand :: "ctx \<Rightarrow> u32 \<times> ctx" where
  "netGetRand x =
     (let p = lcg (prngState x);
          value = drop_bit 16 p AND 0x07FF;
          p = lcg p;
          value = push_bit 10 value OR (drop_bit 16 p AND 0x03FF);
          p = lcg p;
          value = push_bit 10 value OR (drop_bit 16 p AND 0x03FF)
      in (value, x\<lparr>prngState := p\<rparr>))"

text \<open>The heap of the operating system: \<open>memPoolAlloc\<close> and \<open>memPoolFree\<close> of the default build.\<close>

definition heapAlloc :: "ctx \<Rightarrow> nat option \<times> ctx" where
  "heapAlloc x =
     (case heapResult x (calls x) of
        None \<Rightarrow> (None, tick_call x)
      | Some a \<Rightarrow> (Some a, (tick_call x)\<lparr>live := a # live x\<rparr>))"

definition heapFree :: "nat \<Rightarrow> ctx \<Rightarrow> ctx" where
  "heapFree a x = x\<lparr>live := remove1 a (live x)\<rparr>"

definition heapMem :: "ctx \<Rightarrow> nat \<Rightarrow> u8 list" where
  "heapMem x a = map (heapByte x (calls x) a) [0..<NET_MEM_POOL_BUFFER_SIZE]"

definition bufSetLength :: "ctx \<Rightarrow> NetBuffer \<Rightarrow> nat \<Rightarrow> error_t \<times> ctx \<times> NetBuffer" where
  "bufSetLength x b len = netBufferSetLength heapAlloc heapFree (heapMem x) x b len"

definition bufAlloc :: "ctx \<Rightarrow> nat \<Rightarrow> (nat \<times> NetBuffer) option \<times> ctx" where
  "bufAlloc x len = netBufferAlloc heapAlloc heapFree (heapMem x) x len"

definition bufFree :: "ctx \<Rightarrow> nat \<Rightarrow> NetBuffer \<Rightarrow> ctx" where
  "bufFree x a b = netBufferFree heapAlloc heapFree (heapMem x) x a b"

section \<open>Sequence numbers, flags and timers\<close>

definition TCP_CMP_SEQ :: "u32 \<Rightarrow> u32 \<Rightarrow> int" where
  "TCP_CMP_SEQ a b = sint (a - b)"

definition has_flag :: "u8 \<Rightarrow> u8 \<Rightarrow> bool" where
  "has_flag f m \<longleftrightarrow> f AND m \<noteq> 0"

definition has_opt :: "u32 \<Rightarrow> u32 \<Rightarrow> bool" where
  "has_opt f m \<longleftrightarrow> f AND m \<noteq> 0"

section \<open>Example states\<close>

text \<open>A world where every call succeeds, and a socket with small buffers, for the examples.\<close>

definition example_ctx :: ctx where
  "example_ctx = \<lparr>clock = (\<lambda>n. 0xFFFFFF00 + of_nat n * 300), heapResult = (\<lambda>n. Some n), heapByte = (\<lambda>n a i. 0),
     ipResult = (\<lambda>n. NO_ERROR), sourceResult = (\<lambda>n. (NO_ERROR, Some 0, [192, 168, 0, 1])), linkState = (\<lambda>i. True),
     isBroadcastAddr = (\<lambda>i a. False), calls = 0, live = [], sent = [], prngState = 1, tcpDynamicPort = 0,
     udpDynamicPort = 0\<rparr>"

definition example_sock :: Socket where
  "example_sock = zeroSocket\<lparr>sk_type := SOCKET_TYPE_STREAM, sk_state := TCP_STATE_ESTABLISHED,
     localIpAddr := \<lparr>ipLength = 4, ipData = [192, 168, 0, 1]\<rparr>, localPort := 80,
     remoteIpAddr := \<lparr>ipLength = 4, ipData = [192, 168, 0, 2]\<rparr>, remotePort := 4000, smss := 536, rmss := 1430,
     txBuffer := example_dest, txBufferSize := 5, rxBuffer := example_dest, rxBufferSize := 5, rcvWnd := 5,
     sndWnd := 100, cwnd := 5, rto := 1000\<rparr>"

end
