(* ===== verification/Tcp_Timer.thy ===== *)
theory Tcp_Timer
  imports Tcp_Types
begin

text \<open>
  TCP timers (\<open>core/tcp_timer.c\<close>, all functions but \<open>tcpTick\<close>) over the wrapping 32-bit
  millisecond clock. A timer fires exactly when its interval has passed since it was started,
  across the wrap-around of the clock, as long as it is looked at within \<open>2^31\<close> milliseconds
  of the deadline.
\<close>

definition timeCompare :: "systime_t \<Rightarrow> systime_t \<Rightarrow> int" where
  "timeCompare t1 t2 = sint (t1 - t2)"

definition tcpTimerStart :: "TcpTimer \<Rightarrow> systime_t \<Rightarrow> ctx \<Rightarrow> TcpTimer \<times> ctx" where
  "tcpTimerStart timer delay x =
     (let (now, x) = osGetSystemTime x
      in (timer\<lparr>startTime := now, interval := delay, running := True\<rparr>, x))"

definition tcpTimerStop :: "TcpTimer \<Rightarrow> TcpTimer" where
  "tcpTimerStop timer = timer\<lparr>running := False\<rparr>"

definition tcpTimerRunning :: "TcpTimer \<Rightarrow> bool" where
  "tcpTimerRunning timer = running timer"

definition tcpTimerElapsed :: "TcpTimer \<Rightarrow> ctx \<Rightarrow> bool \<times> ctx" where
  "tcpTimerElapsed timer x =
     (if \<not> running timer then (False, x)
      else let (time, x) = osGetSystemTime x
           in (timeCompare time (startTime timer + interval timer) \<ge> 0, x))"

definition tcpTimerGetInterval :: "TcpTimer \<Rightarrow> systime_t" where
  "tcpTimerGetInterval timer = interval timer"

text \<open>
  The calls \<open>tcpTimerStart(&socket->t, delay)\<close> and \<open>tcpTimerElapsed(&socket->t)\<close> on a
  timer of the socket, selected by its field and its update.
\<close>

definition start_timer ::
  "(Socket \<Rightarrow> TcpTimer) \<Rightarrow> ((TcpTimer \<Rightarrow> TcpTimer) \<Rightarrow> Socket \<Rightarrow> Socket) \<Rightarrow> systime_t \<Rightarrow> conn \<Rightarrow> conn" where
  "start_timer get put delay c =
     (let (t, x) = tcpTimerStart (get (sk c)) delay (cx c)
      in \<lparr>cx = x, sk = put (\<lambda>_. t) (sk c)\<rparr>)"

definition timer_elapsed :: "(Socket \<Rightarrow> TcpTimer) \<Rightarrow> conn \<Rightarrow> bool \<times> conn" where
  "timer_elapsed get c =
     (let (b, x) = tcpTimerElapsed (get (sk c)) (cx c) in (b, c\<lparr>cx := x\<rparr>))"

lemma sk_timer_elapsed [simp]: "sk (snd (timer_elapsed get c)) = sk c"
  by (simp add: timer_elapsed_def tcpTimerElapsed_def osGetSystemTime_def split_beta)

lemma sk_start_timer:
  "sk (start_timer get put delay c)
   = put (\<lambda>_. (get (sk c))\<lparr>startTime := clock (cx c) (calls (cx c)), interval := delay, running := True\<rparr>) (sk c)"
  by (simp add: start_timer_def tcpTimerStart_def osGetSystemTime_def)

lemma ctx_osGetSystemTime [simp]:
  "live (snd (osGetSystemTime x)) = live x" "sent (snd (osGetSystemTime x)) = sent x"
  "linkState (snd (osGetSystemTime x)) = linkState x"
  by (simp_all add: osGetSystemTime_def tick_call_def)

lemma ctx_start_timer [simp]:
  "live (cx (start_timer g p d c)) = live (cx c)" "sent (cx (start_timer g p d c)) = sent (cx c)"
  by (simp_all add: start_timer_def tcpTimerStart_def split_beta)

lemma ctx_timer_elapsed [simp]:
  "live (cx (snd (timer_elapsed g c))) = live (cx c)"
  "sent (cx (snd (timer_elapsed g c))) = sent (cx c)"
  by (simp_all add: timer_elapsed_def tcpTimerElapsed_def split_beta)

text \<open>A timer started at call \<open>n0\<close> of the clock and looked at later: \<open>d\<close> milliseconds have passed.\<close>

lemma timer_elapsed_iff:
  assumes "now = startTime t + of_nat d" and "running t" and "d < 2 ^ 31 + unat (interval t)" and "unat (interval t) \<le> 2 ^ 31"
    and "clock x (calls x) = now"
  shows "fst (tcpTimerElapsed t x) \<longleftrightarrow> unat (interval t) \<le> d"
proof -
  have "now - (startTime t + interval t) = of_nat d - interval t"
    using assms(1) by (simp add: algebra_simps)
  moreover have "unat (of_nat d :: u32) = d" using assms(3,4) by (simp add: unsigned_of_nat take_bit_nat_eq_self)
  ultimately have "unat (now - (startTime t + interval t))
      = (if unat (interval t) \<le> d then d - unat (interval t) else d + 4294967296 - unat (interval t))"
    by (simp only: unat_diff_u32)
  with assms u32_bound [of "interval t"] show ?thesis
    by (auto simp: tcpTimerElapsed_def osGetSystemTime_def timeCompare_def sint_nonneg_iff)
qed

section \<open>Properties\<close>

text \<open>
  A timer fires exactly when its interval has passed since it was started: \<open>d\<close>
  milliseconds later, across the wrap-around of the 32-bit clock, \<open>tcpTimerElapsed\<close> answers
  whether \<open>d\<close> has reached the delay (as long as it is polled within \<open>2^31\<close> ms of the deadline).
\<close>

theorem tcpTimer_fires:
  assumes "tcpTimerStart t0 delay x = (t, x1)" and "clock x2 (calls x2) = clock x (calls x) + of_nat d"
    and "unat delay \<le> 2 ^ 31" and "d < 2 ^ 31 + unat delay"
  shows "fst (tcpTimerElapsed t x2) \<longleftrightarrow> unat delay \<le> d"
  using assms by (intro timer_elapsed_iff [of "clock x2 (calls x2)" t d x2, THEN trans])
    (auto simp: tcpTimerStart_def osGetSystemTime_def)

theorem tcpTimer_fires_witness:
  "\<not> fst (tcpTimerElapsed (fst (tcpTimerStart \<lparr>running = False, startTime = 0, interval = 0\<rparr> 500 example_ctx))
       (example_ctx\<lparr>calls := 1\<rparr>)) \<and>
   fst (tcpTimerElapsed (fst (tcpTimerStart \<lparr>running = False, startTime = 0, interval = 0\<rparr> 500 example_ctx))
       (example_ctx\<lparr>calls := 2\<rparr>))"
proof -
  let ?t = "\<lparr>running = False, startTime = 0, interval = 0\<rparr>"
  obtain t x where s: "tcpTimerStart ?t 500 example_ctx = (t, x)" by fastforce
  have c: "clock (example_ctx\<lparr>calls := 1\<rparr>) (calls (example_ctx\<lparr>calls := 1\<rparr>)) = clock example_ctx (calls example_ctx) + of_nat 300"
    "clock (example_ctx\<lparr>calls := 2\<rparr>) (calls (example_ctx\<lparr>calls := 2\<rparr>)) = clock example_ctx (calls example_ctx) + of_nat 600"
    by (simp_all add: example_ctx_def)
  show ?thesis
    using tcpTimer_fires [OF s c(1)] tcpTimer_fires [OF s c(2)] by (simp add: s)
qed

end
