(* ===== verification/Tcp_Buffer.thy ===== *)
theory Tcp_Buffer
  imports Tcp_Types
begin

text \<open>
  The circular send and receive buffers (end of \<open>core/tcp_misc.c\<close>). A byte of the stream lives
  in the slot given by its sequence number, relative to the initial one, modulo the buffer size.
  The specification is a ring of bytes, \<open>ring_write\<close> and \<open>ring_read\<close>; the four functions
  implement it on multi-part buffers, through the interface \<open>byte_store\<close>.
\<close>

section \<open>The implementation\<close>

definition tcpWriteTxBuffer :: "Socket \<Rightarrow> u32 \<Rightarrow> u8 list \<Rightarrow> u32 \<Rightarrow> Socket" where
  "tcpWriteTxBuffer s seq data len =
     (let offset = (seq - iss s - 1) mod txBufferSize s
      in if offset + len \<le> txBufferSize s
         then s\<lparr>txBuffer := snd (netBufferWrite (txBuffer s) (unat offset) (take (unat len) data))\<rparr>
         else
           let n = unat (txBufferSize s - offset);
               b = snd (netBufferWrite (txBuffer s) (unat offset) (take n data));
               b = snd (netBufferWrite b 0 (take (unat (len - txBufferSize s + offset)) (drop n data)))
           in s\<lparr>txBuffer := b\<rparr>)"

definition tcpReadTxBuffer :: "Socket \<Rightarrow> u32 \<Rightarrow> NetBuffer \<Rightarrow> u32 \<Rightarrow> error_t \<times> NetBuffer" where
  "tcpReadTxBuffer s seq buffer len =
     (let offset = (seq - iss s - 1) mod txBufferSize s
      in if offset + len \<le> txBufferSize s
         then netBufferConcat buffer (txBuffer s) (unat offset) (unat len)
         else
           case netBufferConcat buffer (txBuffer s) (unat offset) (unat (txBufferSize s - offset)) of
             (error, buffer) \<Rightarrow>
               if error = NO_ERROR
               then netBufferConcat buffer (txBuffer s) 0 (unat (len - txBufferSize s + offset))
               else (error, buffer))"

definition tcpWriteRxBuffer :: "Socket \<Rightarrow> u32 \<Rightarrow> NetBuffer \<Rightarrow> nat \<Rightarrow> u32 \<Rightarrow> Socket" where
  "tcpWriteRxBuffer s seq data doff len =
     (let offset = (seq - irs s - 1) mod rxBufferSize s
      in if offset + len \<le> rxBufferSize s
         then s\<lparr>rxBuffer := snd (netBufferCopy (rxBuffer s) (unat offset) data doff (unat len))\<rparr>
         else
           let n = unat (rxBufferSize s - offset);
               b = snd (netBufferCopy (rxBuffer s) (unat offset) data doff n);
               b = snd (netBufferCopy b 0 data (doff + n) (unat (len - rxBufferSize s + offset)))
           in s\<lparr>rxBuffer := b\<rparr>)"

text \<open>The result is the user's buffer after the call.\<close>

definition tcpReadRxBuffer :: "Socket \<Rightarrow> u32 \<Rightarrow> u8 list \<Rightarrow> u32 \<Rightarrow> u8 list" where
  "tcpReadRxBuffer s seq data len =
     (let offset = (seq - irs s - 1) mod rxBufferSize s
      in if offset + len \<le> rxBufferSize s
         then list_write data 0 (netBufferRead (rxBuffer s) (unat offset) (unat len))
         else
           let n = unat (rxBufferSize s - offset);
               data = list_write data 0 (netBufferRead (rxBuffer s) (unat offset) n)
           in list_write data n (netBufferRead (rxBuffer s) 0 (unat (len - rxBufferSize s + offset))))"

section \<open>The specification: a ring of bytes\<close>

definition ring_write :: "'a list \<Rightarrow> nat \<Rightarrow> 'a list \<Rightarrow> 'a list" where
  "ring_write r p xs =
     map (\<lambda>k. let d = (k + length r - p mod length r) mod length r
              in if d < length xs then xs ! d else r ! k) [0..<length r]"

definition ring_read :: "'a list \<Rightarrow> nat \<Rightarrow> nat \<Rightarrow> 'a list" where
  "ring_read r p n = map (\<lambda>i. r ! ((p + i) mod length r)) [0..<n]"

lemma length_ring_write [simp]: "length (ring_write r p xs) = length r"
  by (simp add: ring_write_def)

lemma length_ring_read [simp]: "length (ring_read r p n) = n"
  by (simp add: ring_read_def)

lemma ring_write_mod [simp]: "ring_write r (p mod length r) xs = ring_write r p xs"
  by (simp add: ring_write_def)

lemma ring_read_mod [simp]: "ring_read r (p mod length r) n = ring_read r p n"
  by (simp add: ring_read_def mod_add_left_eq)

text \<open>The slot of stream position \<open>q\<close>, seen from a write at \<open>p\<close>.\<close>

lemma ring_distance:
  assumes "0 < N" and "p \<le> q" and "q < p + N"
  shows "(q mod N + N - p mod N) mod N = q - (p::nat)"
proof -
  obtain d where q: "q = p + d" and d: "d < N" using assms by (metis add_less_cancel_left le_Suc_ex)
  have a: "p mod N < N" using assms(1) by simp
  have "q mod N = (p mod N + d) mod N" by (simp add: q mod_add_left_eq)
  then have "q mod N + N - p mod N = d + N \<or> q mod N + N - p mod N = d"
    using a d by (cases "p mod N + d < N") (simp_all add: le_mod_geq)
  then show ?thesis using d by (auto simp: q)
qed

lemma nth_ring_write:
  assumes "p \<le> q" and "q < p + length r"
  shows "ring_write r p xs ! (q mod length r) = (if q - p < length xs then xs ! (q - p) else r ! (q mod length r))"
proof -
  have N: "0 < length r" using assms by linarith
  show ?thesis using N ring_distance [OF N assms] by (simp add: ring_write_def Let_def)
qed

text \<open>What was written is read back, and a write leaves the rest of the window alone.\<close>

lemma ring_read_write:
  "length xs \<le> length r \<Longrightarrow> k + n \<le> length xs \<Longrightarrow>
   ring_read (ring_write r p xs) (p + k) n = take n (drop k xs)"
  by (intro nth_equalityI) (auto simp: ring_read_def nth_ring_write add.assoc)

lemma ring_read_other:
  assumes "q + n \<le> p" and "p + length xs \<le> q + length r"
  shows "ring_read (ring_write r p xs) q n = ring_read r q n"
proof (rule nth_equalityI)
  fix i assume "i < length (ring_read (ring_write r p xs) q n)"
  then have i: "i < n" by simp
  let ?N = "length r"
  have "p \<le> q + i + ?N" "q + i + ?N < p + ?N" using assms i by linarith+
  moreover have "\<not> q + i + ?N - p < length xs" using assms by linarith
  ultimately have "ring_write r p xs ! ((q + i + ?N) mod ?N) = r ! ((q + i + ?N) mod ?N)"
    by (simp only: nth_ring_write if_False)
  then show "ring_read (ring_write r p xs) q n ! i = ring_read r q n ! i"
    using i by (simp add: ring_read_def)
qed simp

text \<open>The two-piece write and read of the code, on a flat sequence of bytes.\<close>

interpretation flat: byte_store "\<lambda>xs. xs" list_write "\<lambda>xs off len. take len (drop off xs)" "\<lambda>_. True"
  by unfold_locales simp_all

lemma list_write_ring:
  fixes r :: "u8 list"
  assumes "length r = N" and "off < N" and "length xs \<le> N"
  shows "(if off + length xs \<le> N then list_write r off xs
          else list_write (list_write r off (take (N - off) xs)) 0 (drop (N - off) xs)) = ring_write r off xs"
    (is "?b = _")
proof (rule nth_equalityI)
  have l: "length ?b = N"
    using flat.ring_write_nth(3) [of r N off xs 0 ?b] assms by simp
  then show "length ?b = length (ring_write r off xs)" using assms by simp
  fix k assume "k < length ?b"
  then have "k < N" using l by simp
  with flat.ring_write_nth(1) [of r N off xs k ?b] assms show "?b ! k = ring_write r off xs ! k"
    by (simp add: ring_write_def Let_def)
qed

lemma take_drop_ring:
  fixes r :: "u8 list"
  assumes "length r = N" and "off < N" and "n \<le> N"
  shows "(if off + n \<le> N then take n (drop off r) else drop off r @ take (n + off - N) r) = ring_read r off n"
proof (rule nth_equalityI)
  show "length (if off + n \<le> N then take n (drop off r) else drop off r @ take (n + off - N) r)
      = length (ring_read r off n)"
    using assms by auto
qed (use assms flat.ring_read_nth(1) [of r N off n] in \<open>auto simp: ring_read_def\<close>)

section \<open>The implementation is the ring\<close>

text \<open>A buffer that is allocated at its full size, and the stream position of a sequence number.\<close>

definition tx_ok :: "Socket \<Rightarrow> bool" where
  "tx_ok s \<longleftrightarrow> nb_wf (txBuffer s) \<and> length (nb_bytes (txBuffer s)) = unat (txBufferSize s) \<and>
     0 < txBufferSize s \<and> txBufferSize s \<le> TCP_MAX_TX_BUFFER_SIZE"

definition rx_ok :: "Socket \<Rightarrow> bool" where
  "rx_ok s \<longleftrightarrow> nb_wf (rxBuffer s) \<and> length (nb_bytes (rxBuffer s)) = unat (rxBufferSize s) \<and>
     0 < rxBufferSize s \<and> rxBufferSize s \<le> TCP_MAX_RX_BUFFER_SIZE"

definition tx_pos :: "Socket \<Rightarrow> u32 \<Rightarrow> nat" where "tx_pos s seq = unat (seq - iss s - 1)"
definition rx_pos :: "Socket \<Rightarrow> u32 \<Rightarrow> nat" where "rx_pos s seq = unat (seq - irs s - 1)"

abbreviation tx_ring :: "Socket \<Rightarrow> u8 list" where "tx_ring s \<equiv> nb_bytes (txBuffer s)"
abbreviation rx_ring :: "Socket \<Rightarrow> u8 list" where "rx_ring s \<equiv> nb_bytes (rxBuffer s)"

text \<open>The split of the code at the end of the buffer, in natural numbers.\<close>

lemma split_arith:
  fixes seq len size :: u32
  assumes "0 < size" and "size \<le> 22880" and "len \<le> size"
  defines "offset \<equiv> seq mod size"
  shows "unat offset = unat seq mod unat size" and "unat offset < unat size"
    and "offset + len \<le> size \<longleftrightarrow> unat offset + unat len \<le> unat size"
    and "unat (size - offset) = unat size - unat offset"
    and "\<not> offset + len \<le> size \<Longrightarrow> unat (len - size + offset) = unat len - (unat size - unat offset)"
proof -
  have u: "0 < unat size" "unat size \<le> 22880" "unat len \<le> unat size"
    using assms by (simp_all add: word_less_nat_alt word_le_nat_alt)
  show o: "unat offset = unat seq mod unat size" by (simp add: offset_def unat_mod_distrib)
  then show l: "unat offset < unat size" using u by simp
  have s: "unat (offset + len) = unat offset + unat len"
    using l u by (intro unat_add_nowrap) simp
  show le: "offset + len \<le> size \<longleftrightarrow> unat offset + unat len \<le> unat size"
    by (simp add: word_le_nat_alt s)
  show "unat (size - offset) = unat size - unat offset"
    using l by (simp add: unat_diff_u32)
  assume "\<not> offset + len \<le> size"
  with le have "unat size \<le> unat (offset + len)" by (simp add: s)
  moreover have "len - size + offset = offset + len - size" by simp
  ultimately show "unat (len - size + offset) = unat len - (unat size - unat offset)"
    using l by (simp only: unat_diff_u32 if_True s)
qed

lemma tcpWriteTxBuffer_ring:
  assumes "tx_ok s" and "len \<le> txBufferSize s" and "unat len \<le> length data"
  shows "tx_ring (tcpWriteTxBuffer s seq data len) = ring_write (tx_ring s) (tx_pos s seq) (take (unat len) data)"
    and "nb_wf (txBuffer (tcpWriteTxBuffer s seq data len))"
proof -
  let ?N = "unat (txBufferSize s)" and ?xs = "take (unat len) data"
  define off where "off = (seq - iss s - 1) mod txBufferSize s"
  have ok: "nb_wf (txBuffer s)" "length (tx_ring s) = ?N" using assms(1) by (simp_all add: tx_ok_def)
  note ar = split_arith [of "txBufferSize s" len "seq - iss s - 1", folded off_def]
  have u: "unat off = tx_pos s seq mod ?N" "unat off < ?N"
    "off + len \<le> txBufferSize s \<longleftrightarrow> unat off + length ?xs \<le> ?N"
    "unat (txBufferSize s - off) = ?N - unat off"
    using ar assms by (simp_all add: tx_ok_def tx_pos_def min_absorb2)
  have xs: "length ?xs = unat len" "length ?xs \<le> ?N" using assms by (simp_all add: word_le_nat_alt)
  have d: "take (unat (len - txBufferSize s + off)) (drop (?N - unat off) data) = drop (?N - unat off) ?xs"
    and t: "take (?N - unat off) data = take (?N - unat off) ?xs" if "\<not> off + len \<le> txBufferSize s"
    using ar(5) that assms u(3) xs(1) by (simp_all add: tx_ok_def drop_take min_absorb1)
  have w: "txBuffer (tcpWriteTxBuffer s seq data len)
    = (if unat off + length ?xs \<le> ?N then snd (netBufferWrite (txBuffer s) (unat off) ?xs)
       else snd (netBufferWrite (snd (netBufferWrite (txBuffer s) (unat off) (take (?N - unat off) ?xs))) 0
              (drop (?N - unat off) ?xs)))"
    using d t by (simp add: tcpWriteTxBuffer_def Let_def off_def [symmetric] u(3,4))
  show "nb_wf (txBuffer (tcpWriteTxBuffer s seq data len))"
    unfolding w by (rule netbuf.ring_write_nth(2) [OF ok u(2) xs(2) u(2) refl])
  have "tx_ring (tcpWriteTxBuffer s seq data len) = ring_write (tx_ring s) (unat off) ?xs"
    unfolding list_write_ring [OF ok(2) u(2) xs(2), symmetric] w
    using ok u(2) xs(2) by (simp add: netBufferWrite_bytes)
  then show "tx_ring (tcpWriteTxBuffer s seq data len) = ring_write (tx_ring s) (tx_pos s seq) ?xs"
    using ring_write_mod [of "tx_ring s"] by (simp add: u(1) ok(2))
qed

lemma tcpReadTxBuffer_ring:
  assumes "tx_ok s" and "nb_wf b" and "len \<le> txBufferSize s" and r: "tcpReadTxBuffer s seq b len = (NO_ERROR, b')"
  shows "nb_bytes b' = nb_bytes b @ ring_read (tx_ring s) (tx_pos s seq) (unat len)" and "nb_wf b'"
proof -
  let ?N = "unat (txBufferSize s)" and ?n = "unat len"
  define off where "off = (seq - iss s - 1) mod txBufferSize s"
  have ok: "nb_wf (txBuffer s)" "length (tx_ring s) = ?N" using assms(1) by (simp_all add: tx_ok_def)
  note ar = split_arith [of "txBufferSize s" len "seq - iss s - 1", folded off_def]
  have u: "unat off = tx_pos s seq mod ?N" "unat off < ?N" "off + len \<le> txBufferSize s \<longleftrightarrow> unat off + ?n \<le> ?N"
    "unat (txBufferSize s - off) = ?N - unat off" and n: "?n \<le> ?N"
    using ar assms by (simp_all add: tx_ok_def tx_pos_def word_le_nat_alt)
  have m: "unat (len - txBufferSize s + off) = ?n + unat off - ?N" if "\<not> unat off + ?n \<le> ?N"
    using ar(5) that assms u(2,3) by (simp add: tx_ok_def)
  have ring: "ring_read (tx_ring s) (unat off) ?n = ring_read (tx_ring s) (tx_pos s seq) ?n"
    using ring_read_mod [of "tx_ring s" "tx_pos s seq" ?n] by (simp only: u(1) ok(2))
  have "nb_bytes b' = nb_bytes b @ ring_read (tx_ring s) (unat off) ?n \<and> nb_wf b'"
  proof (cases "unat off + ?n \<le> ?N")
    case True
    with r u(3) have "netBufferConcat b (txBuffer s) (unat off) ?n = (NO_ERROR, b')"
      by (simp add: tcpReadTxBuffer_def off_def)
    from netBufferConcat_bytes [OF assms(2) ok(1) this] True take_drop_ring [OF ok(2) u(2) n]
    show ?thesis by simp
  next
    case False
    with r u obtain b1 where
      1: "netBufferConcat b (txBuffer s) (unat off) (?N - unat off) = (NO_ERROR, b1)" and
      2: "netBufferConcat b1 (txBuffer s) 0 (?n + unat off - ?N) = (NO_ERROR, b')"
      by (auto simp: tcpReadTxBuffer_def Let_def off_def [symmetric] m split: prod.splits if_splits)
    from netBufferConcat_bytes [OF assms(2) ok(1) 1]
    have b1: "nb_bytes b1 = nb_bytes b @ drop (unat off) (tx_ring s)" "nb_wf b1"
      using u(2) by (simp_all add: ok(2))
    from netBufferConcat_bytes [OF b1(2) ok(1) 2] b1(1) False take_drop_ring [OF ok(2) u(2) n]
    show ?thesis by simp
  qed
  then show "nb_bytes b' = nb_bytes b @ ring_read (tx_ring s) (tx_pos s seq) ?n" "nb_wf b'"
    by (simp_all only: ring)
qed

lemma netBufferCopy_chunk: "0 < len \<Longrightarrow> nb_wf dest \<Longrightarrow> nb_wf src \<Longrightarrow>
   doff + len \<le> length (nb_bytes dest) \<Longrightarrow> xs = take len (drop soff (nb_bytes src)) \<Longrightarrow> length xs = len \<Longrightarrow>
   nb_bytes (snd (netBufferCopy dest doff src soff len)) = list_write (nb_bytes dest) doff xs
   \<and> nb_wf (snd (netBufferCopy dest doff src soff len))"
  by (auto simp: netBufferCopy_bytes)

lemma tcpWriteRxBuffer_ring:
  assumes "rx_ok s" and "nb_wf b" and "0 < len" and "len \<le> rxBufferSize s"
    and "doff + unat len \<le> length (nb_bytes b)"
  shows "rx_ring (tcpWriteRxBuffer s seq b doff len)
      = ring_write (rx_ring s) (rx_pos s seq) (take (unat len) (drop doff (nb_bytes b)))"
    and "nb_wf (rxBuffer (tcpWriteRxBuffer s seq b doff len))"
proof -
  let ?N = "unat (rxBufferSize s)" and ?xs = "take (unat len) (drop doff (nb_bytes b))"
  define off where "off = (seq - irs s - 1) mod rxBufferSize s"
  have ok: "nb_wf (rxBuffer s)" "length (rx_ring s) = ?N" using assms(1) by (simp_all add: rx_ok_def)
  note ar = split_arith [of "rxBufferSize s" len "seq - irs s - 1", folded off_def]
  have u: "unat off = rx_pos s seq mod ?N" "unat off < ?N" "off + len \<le> rxBufferSize s \<longleftrightarrow> unat off + unat len \<le> ?N"
    "unat (rxBufferSize s - off) = ?N - unat off"
    using ar assms by (simp_all add: rx_ok_def rx_pos_def)
  have m: "unat (len - rxBufferSize s + off) = unat len - (?N - unat off)" if "\<not> unat off + unat len \<le> ?N"
    using ar(5) that assms u(3) by (simp add: rx_ok_def)
  have xs: "length ?xs = unat len" "length ?xs \<le> ?N" "0 < unat len"
    using assms by (simp_all add: word_le_nat_alt word_less_nat_alt)
  have "rx_ring (tcpWriteRxBuffer s seq b doff len) = ring_write (rx_ring s) (unat off) ?xs
      \<and> nb_wf (rxBuffer (tcpWriteRxBuffer s seq b doff len))"
  proof (cases "unat off + unat len \<le> ?N")
    case True
    then have "rxBuffer (tcpWriteRxBuffer s seq b doff len) = snd (netBufferCopy (rxBuffer s) (unat off) b doff (unat len))"
      by (simp add: tcpWriteRxBuffer_def off_def [symmetric] u(3))
    moreover have "list_write (rx_ring s) (unat off) ?xs = ring_write (rx_ring s) (unat off) ?xs"
      using list_write_ring [OF ok(2) u(2) xs(2)] True xs(1) by simp
    ultimately show ?thesis
      using netBufferCopy_chunk [OF xs(3) ok(1) assms(2) _ refl xs(1)] True ok(2) by simp
  next
    case False
    let ?n = "?N - unat off"
    define b1 where "b1 = snd (netBufferCopy (rxBuffer s) (unat off) b doff ?n)"
    have b1: "nb_bytes b1 = list_write (rx_ring s) (unat off) (take ?n ?xs)" "nb_wf b1"
      using netBufferCopy_chunk [of ?n "rxBuffer s" b "unat off" "take ?n ?xs" doff] ok assms u(2) False xs
      by (simp_all add: b1_def min_def)
    then have l: "length (nb_bytes b1) = ?N" using ok(2) u(2) xs by simp
    have w: "rxBuffer (tcpWriteRxBuffer s seq b doff len) = snd (netBufferCopy b1 0 b (doff + ?n) (unat len - ?n))"
      using False by (simp add: tcpWriteRxBuffer_def Let_def off_def [symmetric] u(3,4) m b1_def)
    have d: "drop ?n ?xs = take (unat len - ?n) (drop (doff + ?n) (nb_bytes b))"
      by (simp add: drop_take add.commute)
    have "nb_bytes (snd (netBufferCopy b1 0 b (doff + ?n) (unat len - ?n)))
        = list_write (nb_bytes b1) 0 (drop ?n ?xs) \<and> nb_wf (snd (netBufferCopy b1 0 b (doff + ?n) (unat len - ?n)))"
      using False xs u(2) l assms by (intro netBufferCopy_chunk d b1(2) assms(2)) simp_all
    then show ?thesis
      using list_write_ring [OF ok(2) u(2) xs(2)] False xs(1) unfolding w b1(1) by simp
  qed
  then show "rx_ring (tcpWriteRxBuffer s seq b doff len) = ring_write (rx_ring s) (rx_pos s seq) ?xs"
    and "nb_wf (rxBuffer (tcpWriteRxBuffer s seq b doff len))"
    using ring_write_mod [of "rx_ring s"] by (simp_all add: u(1) ok(2))
qed

lemma list_write_two:
  assumes "length xs + length ys \<le> length data"
  shows "list_write (list_write data 0 xs) (length xs) ys = list_write data 0 (xs @ ys)"
  using list_write_split [of 0 xs ys data] assms by simp

lemma tcpReadRxBuffer_ring:
  assumes "rx_ok s" and "len \<le> rxBufferSize s" and "unat len \<le> length data"
  shows "tcpReadRxBuffer s seq data len = list_write data 0 (ring_read (rx_ring s) (rx_pos s seq) (unat len))"
proof -
  let ?N = "unat (rxBufferSize s)" and ?n = "unat len"
  define off where "off = (seq - irs s - 1) mod rxBufferSize s"
  have ok: "nb_wf (rxBuffer s)" "length (rx_ring s) = ?N" using assms(1) by (simp_all add: rx_ok_def)
  note ar = split_arith [of "rxBufferSize s" len "seq - irs s - 1", folded off_def]
  have u: "unat off = rx_pos s seq mod ?N" "unat off < ?N" "off + len \<le> rxBufferSize s \<longleftrightarrow> unat off + ?n \<le> ?N"
    "unat (rxBufferSize s - off) = ?N - unat off" and n: "?n \<le> ?N"
    using ar assms by (simp_all add: rx_ok_def rx_pos_def word_le_nat_alt)
  have m: "unat (len - rxBufferSize s + off) = ?n + unat off - ?N" if "\<not> unat off + ?n \<le> ?N"
    using ar(5) that assms u(2,3) by (simp add: rx_ok_def)
  have "tcpReadRxBuffer s seq data len = list_write data 0 (ring_read (rx_ring s) (unat off) ?n)"
  proof (cases "unat off + ?n \<le> ?N")
    case True
    with take_drop_ring [OF ok(2) u(2) n] show ?thesis
      by (simp add: tcpReadRxBuffer_def off_def [symmetric] u(3) netBufferRead_bytes [OF ok(1)])
  next
    case False
    let ?a = "drop (unat off) (rx_ring s)" and ?b = "take (?n + unat off - ?N) (rx_ring s)"
    have "tcpReadRxBuffer s seq data len = list_write (list_write data 0 ?a) (?N - unat off) ?b"
      using False ok(2)
      by (simp add: tcpReadRxBuffer_def Let_def off_def [symmetric] u(3,4) m netBufferRead_bytes [OF ok(1)])
    with take_drop_ring [OF ok(2) u(2) n] False list_write_two [of ?a ?b data] assms(3) ok(2) u(2) n
    show ?thesis by simp
  qed
  then show ?thesis using ring_read_mod [of "rx_ring s" "rx_pos s seq" ?n] by (simp only: u(1) ok(2))
qed

text \<open>The position of a sequence number further on, before the relative number wraps.\<close>

lemma pos_add: "unat (seq - i - 1) + n < 2 ^ 32 \<Longrightarrow> unat (seq + of_nat n - i - 1 :: u32) = unat (seq - i - 1) + n"
proof -
  assume n: "unat (seq - i - 1) + n < 2 ^ 32"
  then have "unat (of_nat n :: u32) = n" by (simp add: unsigned_of_nat take_bit_nat_eq_self)
  then have "unat ((seq - i - 1) + of_nat n) = unat (seq - i - 1) + n"
    using n by (subst unat_add_nowrap) simp_all
  moreover have "seq + of_nat n - i - 1 = (seq - i - 1) + of_nat n" by simp
  ultimately show ?thesis by (simp only:)
qed

lemma tcpWriteTxBuffer_frame [simp]:
  "descriptor (tcpWriteTxBuffer s seq data len) = descriptor (s)"
  "sk_type (tcpWriteTxBuffer s seq data len) = sk_type (s)"
  "protocol (tcpWriteTxBuffer s seq data len) = protocol (s)"
  "sk_interface (tcpWriteTxBuffer s seq data len) = sk_interface (s)"
  "localIpAddr (tcpWriteTxBuffer s seq data len) = localIpAddr (s)"
  "localPort (tcpWriteTxBuffer s seq data len) = localPort (s)"
  "remoteIpAddr (tcpWriteTxBuffer s seq data len) = remoteIpAddr (s)"
  "remotePort (tcpWriteTxBuffer s seq data len) = remotePort (s)"
  "sk_timeout (tcpWriteTxBuffer s seq data len) = sk_timeout (s)"
  "ttl (tcpWriteTxBuffer s seq data len) = ttl (s)" "event (tcpWriteTxBuffer s seq data len) = event (s)"
  "eventMask (tcpWriteTxBuffer s seq data len) = eventMask (s)"
  "eventFlags (tcpWriteTxBuffer s seq data len) = eventFlags (s)"
  "userEvent (tcpWriteTxBuffer s seq data len) = userEvent (s)"
  "sk_state (tcpWriteTxBuffer s seq data len) = sk_state (s)"
  "ownedFlag (tcpWriteTxBuffer s seq data len) = ownedFlag (s)"
  "closedFlag (tcpWriteTxBuffer s seq data len) = closedFlag (s)"
  "resetFlag (tcpWriteTxBuffer s seq data len) = resetFlag (s)"
  "smss (tcpWriteTxBuffer s seq data len) = smss (s)" "rmss (tcpWriteTxBuffer s seq data len) = rmss (s)"
  "iss (tcpWriteTxBuffer s seq data len) = iss (s)" "irs (tcpWriteTxBuffer s seq data len) = irs (s)"
  "sndUna (tcpWriteTxBuffer s seq data len) = sndUna (s)"
  "sndNxt (tcpWriteTxBuffer s seq data len) = sndNxt (s)"
  "sndUser (tcpWriteTxBuffer s seq data len) = sndUser (s)"
  "sndWnd (tcpWriteTxBuffer s seq data len) = sndWnd (s)"
  "maxSndWnd (tcpWriteTxBuffer s seq data len) = maxSndWnd (s)"
  "sndWl1 (tcpWriteTxBuffer s seq data len) = sndWl1 (s)"
  "sndWl2 (tcpWriteTxBuffer s seq data len) = sndWl2 (s)"
  "rcvNxt (tcpWriteTxBuffer s seq data len) = rcvNxt (s)"
  "rcvUser (tcpWriteTxBuffer s seq data len) = rcvUser (s)"
  "rcvWnd (tcpWriteTxBuffer s seq data len) = rcvWnd (s)"
  "rttBusy (tcpWriteTxBuffer s seq data len) = rttBusy (s)"
  "rttSeqNum (tcpWriteTxBuffer s seq data len) = rttSeqNum (s)"
  "rttStartTime (tcpWriteTxBuffer s seq data len) = rttStartTime (s)"
  "srtt (tcpWriteTxBuffer s seq data len) = srtt (s)" "rttvar (tcpWriteTxBuffer s seq data len) = rttvar (s)"
  "rto (tcpWriteTxBuffer s seq data len) = rto (s)"
  "congestState (tcpWriteTxBuffer s seq data len) = congestState (s)"
  "cwnd (tcpWriteTxBuffer s seq data len) = cwnd (s)"
  "ssthresh (tcpWriteTxBuffer s seq data len) = ssthresh (s)"
  "dupAckCount (tcpWriteTxBuffer s seq data len) = dupAckCount (s)"
  "sk_n (tcpWriteTxBuffer s seq data len) = sk_n (s)" "recover (tcpWriteTxBuffer s seq data len) = recover (s)"
  "txBufferSize (tcpWriteTxBuffer s seq data len) = txBufferSize (s)"
  "rxBuffer (tcpWriteTxBuffer s seq data len) = rxBuffer (s)"
  "rxBufferSize (tcpWriteTxBuffer s seq data len) = rxBufferSize (s)"
  "retransmitQueue (tcpWriteTxBuffer s seq data len) = retransmitQueue (s)"
  "retransmitTimer (tcpWriteTxBuffer s seq data len) = retransmitTimer (s)"
  "retransmitCount (tcpWriteTxBuffer s seq data len) = retransmitCount (s)"
  "synQueue (tcpWriteTxBuffer s seq data len) = synQueue (s)"
  "synQueueSize (tcpWriteTxBuffer s seq data len) = synQueueSize (s)"
  "wndProbeCount (tcpWriteTxBuffer s seq data len) = wndProbeCount (s)"
  "wndProbeInterval (tcpWriteTxBuffer s seq data len) = wndProbeInterval (s)"
  "persistTimer (tcpWriteTxBuffer s seq data len) = persistTimer (s)"
  "overrideTimer (tcpWriteTxBuffer s seq data len) = overrideTimer (s)"
  "finWait2Timer (tcpWriteTxBuffer s seq data len) = finWait2Timer (s)"
  "timeWaitTimer (tcpWriteTxBuffer s seq data len) = timeWaitTimer (s)"
  "sackBlock (tcpWriteTxBuffer s seq data len) = sackBlock (s)"
  by (simp_all add: tcpWriteTxBuffer_def Let_def)

lemma tcpWriteRxBuffer_frame [simp]:
  "descriptor (tcpWriteRxBuffer s seq b doff len) = descriptor (s)"
  "sk_type (tcpWriteRxBuffer s seq b doff len) = sk_type (s)"
  "protocol (tcpWriteRxBuffer s seq b doff len) = protocol (s)"
  "sk_interface (tcpWriteRxBuffer s seq b doff len) = sk_interface (s)"
  "localIpAddr (tcpWriteRxBuffer s seq b doff len) = localIpAddr (s)"
  "localPort (tcpWriteRxBuffer s seq b doff len) = localPort (s)"
  "remoteIpAddr (tcpWriteRxBuffer s seq b doff len) = remoteIpAddr (s)"
  "remotePort (tcpWriteRxBuffer s seq b doff len) = remotePort (s)"
  "sk_timeout (tcpWriteRxBuffer s seq b doff len) = sk_timeout (s)"
  "ttl (tcpWriteRxBuffer s seq b doff len) = ttl (s)" "event (tcpWriteRxBuffer s seq b doff len) = event (s)"
  "eventMask (tcpWriteRxBuffer s seq b doff len) = eventMask (s)"
  "eventFlags (tcpWriteRxBuffer s seq b doff len) = eventFlags (s)"
  "userEvent (tcpWriteRxBuffer s seq b doff len) = userEvent (s)"
  "sk_state (tcpWriteRxBuffer s seq b doff len) = sk_state (s)"
  "ownedFlag (tcpWriteRxBuffer s seq b doff len) = ownedFlag (s)"
  "closedFlag (tcpWriteRxBuffer s seq b doff len) = closedFlag (s)"
  "resetFlag (tcpWriteRxBuffer s seq b doff len) = resetFlag (s)"
  "smss (tcpWriteRxBuffer s seq b doff len) = smss (s)" "rmss (tcpWriteRxBuffer s seq b doff len) = rmss (s)"
  "iss (tcpWriteRxBuffer s seq b doff len) = iss (s)" "irs (tcpWriteRxBuffer s seq b doff len) = irs (s)"
  "sndUna (tcpWriteRxBuffer s seq b doff len) = sndUna (s)"
  "sndNxt (tcpWriteRxBuffer s seq b doff len) = sndNxt (s)"
  "sndUser (tcpWriteRxBuffer s seq b doff len) = sndUser (s)"
  "sndWnd (tcpWriteRxBuffer s seq b doff len) = sndWnd (s)"
  "maxSndWnd (tcpWriteRxBuffer s seq b doff len) = maxSndWnd (s)"
  "sndWl1 (tcpWriteRxBuffer s seq b doff len) = sndWl1 (s)"
  "sndWl2 (tcpWriteRxBuffer s seq b doff len) = sndWl2 (s)"
  "rcvNxt (tcpWriteRxBuffer s seq b doff len) = rcvNxt (s)"
  "rcvUser (tcpWriteRxBuffer s seq b doff len) = rcvUser (s)"
  "rcvWnd (tcpWriteRxBuffer s seq b doff len) = rcvWnd (s)"
  "rttBusy (tcpWriteRxBuffer s seq b doff len) = rttBusy (s)"
  "rttSeqNum (tcpWriteRxBuffer s seq b doff len) = rttSeqNum (s)"
  "rttStartTime (tcpWriteRxBuffer s seq b doff len) = rttStartTime (s)"
  "srtt (tcpWriteRxBuffer s seq b doff len) = srtt (s)"
  "rttvar (tcpWriteRxBuffer s seq b doff len) = rttvar (s)" "rto (tcpWriteRxBuffer s seq b doff len) = rto (s)"
  "congestState (tcpWriteRxBuffer s seq b doff len) = congestState (s)"
  "cwnd (tcpWriteRxBuffer s seq b doff len) = cwnd (s)"
  "ssthresh (tcpWriteRxBuffer s seq b doff len) = ssthresh (s)"
  "dupAckCount (tcpWriteRxBuffer s seq b doff len) = dupAckCount (s)"
  "sk_n (tcpWriteRxBuffer s seq b doff len) = sk_n (s)"
  "recover (tcpWriteRxBuffer s seq b doff len) = recover (s)"
  "txBuffer (tcpWriteRxBuffer s seq b doff len) = txBuffer (s)"
  "txBufferSize (tcpWriteRxBuffer s seq b doff len) = txBufferSize (s)"
  "rxBufferSize (tcpWriteRxBuffer s seq b doff len) = rxBufferSize (s)"
  "retransmitQueue (tcpWriteRxBuffer s seq b doff len) = retransmitQueue (s)"
  "retransmitTimer (tcpWriteRxBuffer s seq b doff len) = retransmitTimer (s)"
  "retransmitCount (tcpWriteRxBuffer s seq b doff len) = retransmitCount (s)"
  "synQueue (tcpWriteRxBuffer s seq b doff len) = synQueue (s)"
  "synQueueSize (tcpWriteRxBuffer s seq b doff len) = synQueueSize (s)"
  "wndProbeCount (tcpWriteRxBuffer s seq b doff len) = wndProbeCount (s)"
  "wndProbeInterval (tcpWriteRxBuffer s seq b doff len) = wndProbeInterval (s)"
  "persistTimer (tcpWriteRxBuffer s seq b doff len) = persistTimer (s)"
  "overrideTimer (tcpWriteRxBuffer s seq b doff len) = overrideTimer (s)"
  "finWait2Timer (tcpWriteRxBuffer s seq b doff len) = finWait2Timer (s)"
  "timeWaitTimer (tcpWriteRxBuffer s seq b doff len) = timeWaitTimer (s)"
  "sackBlock (tcpWriteRxBuffer s seq b doff len) = sackBlock (s)"
  by (simp_all add: tcpWriteRxBuffer_def Let_def)

section \<open>Properties\<close>

text \<open>
  Data written to the send buffer for a range of sequence numbers is what a segment
  carrying any part of that range reads back from it, also when the range wraps around the end of
  the circular buffer, as long as the relative sequence numbers do not pass \<open>2^32\<close>.
\<close>

theorem tx_roundtrip:
  assumes "tx_ok s" and "nb_wf b" and "len \<le> txBufferSize s" and "unat len \<le> length data"
    and "k + unat n \<le> unat len" and "tx_pos s seq + unat len < 2 ^ 32"
    and "tcpReadTxBuffer (tcpWriteTxBuffer s seq data len) (seq + of_nat k) b n = (NO_ERROR, b')"
  shows "nb_bytes b' = nb_bytes b @ take (unat n) (drop k data)"
proof -
  let ?s = "tcpWriteTxBuffer s seq data len" and ?xs = "take (unat len) data"
  note w = tcpWriteTxBuffer_ring [OF assms(1,3,4), of seq]
  have N: "length (tx_ring s) = unat (txBufferSize s)" "unat len \<le> unat (txBufferSize s)"
    using assms by (simp_all add: tx_ok_def word_le_nat_alt)
  have ok: "tx_ok ?s" using w assms(1) by (simp add: tx_ok_def)
  have n: "n \<le> txBufferSize ?s" using assms(5) N by (simp add: word_le_nat_alt)
  have pos: "tx_pos ?s (seq + of_nat k) = tx_pos s seq + k"
    using assms(5,6) pos_add [of seq "iss s" k] by (simp add: tx_pos_def)
  have "nb_bytes b' = nb_bytes b @ ring_read (ring_write (tx_ring s) (tx_pos s seq) ?xs) (tx_pos s seq + k) (unat n)"
    using tcpReadTxBuffer_ring(1) [OF ok assms(2) n assms(7)] by (simp only: w pos)
  also have "\<dots> = nb_bytes b @ take (unat n) (drop k ?xs)"
    using assms(4,5) N by (subst ring_read_write) simp_all
  finally show ?thesis using assms(5) by (simp add: drop_take)
qed

lemma example_ok: "tx_ok example_sock" "rx_ok example_sock"
  by (simp_all add: tx_ok_def rx_ok_def example_sock_def example_wf)

theorem tx_roundtrip_witness:
  "\<exists>b'. tcpReadTxBuffer (tcpWriteTxBuffer example_sock 4 [21, 22, 23] 3) (4 + of_nat 1) example_src 2 = (NO_ERROR, b') \<and>
     nb_bytes b' = [10, 11, 12, 13, 22, 23]"
proof -
  have "fst (tcpReadTxBuffer (tcpWriteTxBuffer example_sock 4 [21, 22, 23] 3) (4 + of_nat 1) example_src 2) = NO_ERROR"
    by code_simp
  then obtain b' where b': "tcpReadTxBuffer (tcpWriteTxBuffer example_sock 4 [21, 22, 23] 3) (4 + of_nat 1) example_src 2 = (NO_ERROR, b')"
    by (metis prod.collapse)
  with tx_roundtrip [OF example_ok(1) example_wf(2) _ _ _ _ b'] show ?thesis
    by (simp add: example_wf tx_pos_def example_sock_def zeroSocket_def)
qed

text \<open>
  Writing new data does not disturb older data that is still in the send buffer:
  everything in the window of one buffer size that ends where the new data ends, and lies before
  it, is read as before.
\<close>

theorem tx_write_keeps:
  assumes "tx_ok s" and "nb_wf b" and "len \<le> txBufferSize s" and "unat len \<le> length data" and "n \<le> txBufferSize s"
    and "tx_pos s q + unat n \<le> tx_pos s seq" and "tx_pos s seq + unat len \<le> tx_pos s q + unat (txBufferSize s)"
    and "tcpReadTxBuffer (tcpWriteTxBuffer s seq data len) q b n = (NO_ERROR, b')"
    and "tcpReadTxBuffer s q b n = (NO_ERROR, b'')"
  shows "nb_bytes b' = nb_bytes b''"
proof -
  let ?s = "tcpWriteTxBuffer s seq data len"
  note w = tcpWriteTxBuffer_ring [OF assms(1,3,4), of seq]
  have ok: "tx_ok ?s" and N: "length (tx_ring s) = unat (txBufferSize s)" using w assms(1) by (simp_all add: tx_ok_def)
  have "tx_pos ?s q = tx_pos s q" by (simp add: tx_pos_def)
  then have "nb_bytes b' = nb_bytes b @ ring_read (ring_write (tx_ring s) (tx_pos s seq) (take (unat len) data)) (tx_pos s q) (unat n)"
    using tcpReadTxBuffer_ring(1) [OF ok assms(2) _ assms(8)] assms(5) by (simp add: w)
  also have "\<dots> = nb_bytes b @ ring_read (tx_ring s) (tx_pos s q) (unat n)"
    using assms(4,6,7) N by (subst ring_read_other) simp_all
  finally show ?thesis using tcpReadTxBuffer_ring(1) [OF assms(1,2,5,9)] by simp
qed

theorem tx_write_keeps_witness:
  "\<exists>b' b''. tcpReadTxBuffer (tcpWriteTxBuffer example_sock 4 [21, 22, 23] 3) 2 example_src 2 = (NO_ERROR, b') \<and>
     tcpReadTxBuffer example_sock 2 example_src 2 = (NO_ERROR, b'') \<and> nb_bytes b' = nb_bytes b''"
proof -
  have "fst (tcpReadTxBuffer (tcpWriteTxBuffer example_sock 4 [21, 22, 23] 3) 2 example_src 2) = NO_ERROR"
    "fst (tcpReadTxBuffer example_sock 2 example_src 2) = NO_ERROR"
    by code_simp+
  then obtain b' b'' where b: "tcpReadTxBuffer (tcpWriteTxBuffer example_sock 4 [21, 22, 23] 3) 2 example_src 2 = (NO_ERROR, b')"
    "tcpReadTxBuffer example_sock 2 example_src 2 = (NO_ERROR, b'')"
    by (metis prod.collapse)
  with tx_write_keeps [OF example_ok(1) example_wf(2) _ _ _ _ _ b] show ?thesis
    by (simp add: tx_pos_def example_sock_def zeroSocket_def)
qed

text \<open>
  Data of an incoming segment copied to the receive buffer is what the user reads
  for those sequence numbers, also across the end of the circular buffer and the chunk boundaries
  of both buffers.
\<close>

theorem rx_roundtrip:
  assumes "rx_ok s" and "nb_wf b" and "0 < len" and "len \<le> rxBufferSize s" and "doff + unat len \<le> length (nb_bytes b)"
    and "k + unat n \<le> unat len" and "rx_pos s seq + unat len < 2 ^ 32" and "unat n \<le> length out"
  shows "tcpReadRxBuffer (tcpWriteRxBuffer s seq b doff len) (seq + of_nat k) out n
    = take (unat n) (drop (doff + k) (nb_bytes b)) @ drop (unat n) out"
proof -
  let ?s = "tcpWriteRxBuffer s seq b doff len" and ?xs = "take (unat len) (drop doff (nb_bytes b))"
  note w = tcpWriteRxBuffer_ring [OF assms(1,2,3,4,5), of seq]
  have N: "length (rx_ring s) = unat (rxBufferSize s)" "unat len \<le> unat (rxBufferSize s)"
    using assms by (simp_all add: rx_ok_def word_le_nat_alt)
  have ok: "rx_ok ?s" using w assms(1) by (simp add: rx_ok_def)
  have n: "n \<le> rxBufferSize ?s" using assms(6) N by (simp add: word_le_nat_alt)
  have pos: "rx_pos ?s (seq + of_nat k) = rx_pos s seq + k"
    using assms(6,7) pos_add [of seq "irs s" k] by (simp add: rx_pos_def)
  have xs: "length ?xs = unat len" using assms(5) by simp
  have "ring_read (rx_ring ?s) (rx_pos ?s (seq + of_nat k)) (unat n) = take (unat n) (drop k ?xs)"
    unfolding w pos using assms(6) N xs by (intro ring_read_write) simp_all
  also have "\<dots> = take (unat n) (drop (doff + k) (nb_bytes b))"
    using assms(6) by (simp add: drop_take add.commute min_def)
  finally show ?thesis
    unfolding tcpReadRxBuffer_ring [OF ok n assms(8)] using assms(5,6) by (simp add: list_write_def)
qed

theorem rx_roundtrip_witness:
  "tcpReadRxBuffer (tcpWriteRxBuffer example_sock 4 example_src 1 3) (4 + of_nat 1) [0, 0, 0] 2 = [12, 13, 0]"
  using rx_roundtrip [OF example_ok(2) example_wf(2), of 3 1 1 2 4 "[0, 0, 0]"]
  by (simp add: example_wf rx_pos_def example_sock_def zeroSocket_def)

end
