(* ===== verification/Tcp_Events.thy ===== *)
theory Tcp_Events
  imports Tcp_Timer Tcp_Buffer
begin

text \<open>
  Socket events and state changes (\<open>tcpUpdateEvents\<close>, \<open>tcpChangeState\<close>,
  \<open>tcpWaitForEvents\<close> of \<open>core/tcp_misc.c\<close>). The event flags are a function of the
  socket and of the link state of its interface; the theorems say in which states each event is
  signalled. \<open>tcpWaitForEvents\<close> releases the mutex while it waits: what the other tasks do
  to the socket meanwhile is the parameter \<open>wait\<close>.
\<close>

section \<open>The implementation\<close>

definition state_events :: "TcpState \<Rightarrow> u32" where
  "state_events st =
     (case st of
        TCP_STATE_ESTABLISHED \<Rightarrow> SOCKET_EVENT_CONNECTED
      | TCP_STATE_FIN_WAIT_1 \<Rightarrow> SOCKET_EVENT_CONNECTED
      | TCP_STATE_FIN_WAIT_2 \<Rightarrow> SOCKET_EVENT_CONNECTED OR SOCKET_EVENT_TX_SHUTDOWN
      | TCP_STATE_CLOSE_WAIT \<Rightarrow> SOCKET_EVENT_CONNECTED OR SOCKET_EVENT_RX_SHUTDOWN
      | TCP_STATE_LAST_ACK \<Rightarrow> SOCKET_EVENT_CONNECTED OR SOCKET_EVENT_RX_SHUTDOWN
      | TCP_STATE_CLOSING \<Rightarrow> SOCKET_EVENT_CONNECTED OR SOCKET_EVENT_RX_SHUTDOWN
      | TCP_STATE_TIME_WAIT \<Rightarrow> SOCKET_EVENT_CLOSED OR SOCKET_EVENT_TX_SHUTDOWN OR SOCKET_EVENT_RX_SHUTDOWN
      | TCP_STATE_CLOSED \<Rightarrow> SOCKET_EVENT_CLOSED OR SOCKET_EVENT_TX_SHUTDOWN OR SOCKET_EVENT_RX_SHUTDOWN
      | _ \<Rightarrow> 0)"

definition tx_events :: "Socket \<Rightarrow> u32" where
  "tx_events s =
     (if sk_state s = TCP_STATE_SYN_SENT \<or> sk_state s = TCP_STATE_SYN_RECEIVED then
        SOCKET_EVENT_TX_DONE OR SOCKET_EVENT_TX_ACKED
      else if sk_state s = TCP_STATE_ESTABLISHED \<or> sk_state s = TCP_STATE_CLOSE_WAIT then
        (if ucast (sndUser s) + sndNxt s - sndUna s < txBufferSize s then SOCKET_EVENT_TX_READY else 0) OR
        (if sndUser s = 0 then
           SOCKET_EVENT_TX_DONE OR
           (if TCP_CMP_SEQ (sndUna s) (sndNxt s) \<ge> 0 then SOCKET_EVENT_TX_ACKED else 0)
         else 0)
      else if sk_state s \<noteq> TCP_STATE_LISTEN then
        SOCKET_EVENT_TX_READY OR SOCKET_EVENT_TX_DONE OR SOCKET_EVENT_TX_ACKED
      else 0)"

definition rx_events :: "Socket \<Rightarrow> u32" where
  "rx_events s =
     (if sk_state s = TCP_STATE_ESTABLISHED \<or> sk_state s = TCP_STATE_FIN_WAIT_1 \<or>
         sk_state s = TCP_STATE_FIN_WAIT_2 then
        (if rcvUser s > 0 then SOCKET_EVENT_RX_READY else 0)
      else if sk_state s = TCP_STATE_LISTEN then
        (if synQueue s \<noteq> [] then SOCKET_EVENT_RX_READY else 0)
      else if sk_state s \<noteq> TCP_STATE_SYN_SENT \<and> sk_state s \<noteq> TCP_STATE_SYN_RECEIVED then
        SOCKET_EVENT_RX_READY
      else 0)"

definition link_events :: "ctx \<Rightarrow> Socket \<Rightarrow> u32" where
  "link_events x s =
     (case sk_interface s of
        None \<Rightarrow> 0
      | Some i \<Rightarrow> if linkState x i then SOCKET_EVENT_LINK_UP else SOCKET_EVENT_LINK_DOWN)"

definition tcpUpdateEvents :: "conn \<Rightarrow> conn" where
  "tcpUpdateEvents c =
     (let s = sk c;
          ev = state_events (sk_state s) OR tx_events s OR rx_events s OR link_events (cx c) s;
          ev = ev AND eventMask s;
          s = s\<lparr>eventFlags := ev\<rparr>
      in if ev \<noteq> 0
         then c\<lparr>sk := s\<lparr>event := True, userEvent := map_option (\<lambda>_. True) (userEvent s)\<rparr>\<rparr>
         else c\<lparr>sk := s\<rparr>)"

definition tcpChangeState :: "TcpState \<Rightarrow> conn \<Rightarrow> conn" where
  "tcpChangeState newState c =
     (let s = sk c;
          s = (if newState = TCP_STATE_CLOSED then
                 if sk_state s = TCP_STATE_LAST_ACK \<or> sk_state s = TCP_STATE_TIME_WAIT
                 then s\<lparr>closedFlag := True\<rparr> else s\<lparr>resetFlag := True\<rparr>
               else s)
      in tcpUpdateEvents (c\<lparr>sk := s\<lparr>sk_state := newState\<rparr>\<rparr>))"

definition tcpWaitForEvents :: "(systime_t \<Rightarrow> conn \<Rightarrow> conn) \<Rightarrow> u32 \<Rightarrow> systime_t \<Rightarrow> conn \<Rightarrow> u32 \<times> conn" where
  "tcpWaitForEvents wait evMask timeout c =
     (let c = tcpUpdateEvents (upd (eventMask_update (\<lambda>_. evMask)) c);
          c = (if eventFlags (sk c) = 0 then wait timeout (upd (event_update (\<lambda>_. False)) c) else c)
      in (eventFlags (sk c), c))"

section \<open>Frame\<close>

lemma cx_tcpUpdateEvents [simp]: "cx (tcpUpdateEvents c) = cx c"
  by (simp add: tcpUpdateEvents_def Let_def)

lemma cx_tcpChangeState [simp]: "cx (tcpChangeState st c) = cx c"
  by (simp add: tcpChangeState_def Let_def)

lemma tcpUpdateEvents_frame [simp]:
  "descriptor (sk (tcpUpdateEvents c)) = descriptor (sk c)" "sk_type (sk (tcpUpdateEvents c)) = sk_type (sk c)"
  "protocol (sk (tcpUpdateEvents c)) = protocol (sk c)"
  "sk_interface (sk (tcpUpdateEvents c)) = sk_interface (sk c)"
  "localIpAddr (sk (tcpUpdateEvents c)) = localIpAddr (sk c)"
  "localPort (sk (tcpUpdateEvents c)) = localPort (sk c)"
  "remoteIpAddr (sk (tcpUpdateEvents c)) = remoteIpAddr (sk c)"
  "remotePort (sk (tcpUpdateEvents c)) = remotePort (sk c)"
  "sk_timeout (sk (tcpUpdateEvents c)) = sk_timeout (sk c)" "ttl (sk (tcpUpdateEvents c)) = ttl (sk c)"
  "eventMask (sk (tcpUpdateEvents c)) = eventMask (sk c)" "sk_state (sk (tcpUpdateEvents c)) = sk_state (sk c)"
  "ownedFlag (sk (tcpUpdateEvents c)) = ownedFlag (sk c)"
  "closedFlag (sk (tcpUpdateEvents c)) = closedFlag (sk c)"
  "resetFlag (sk (tcpUpdateEvents c)) = resetFlag (sk c)" "smss (sk (tcpUpdateEvents c)) = smss (sk c)"
  "rmss (sk (tcpUpdateEvents c)) = rmss (sk c)" "iss (sk (tcpUpdateEvents c)) = iss (sk c)"
  "irs (sk (tcpUpdateEvents c)) = irs (sk c)" "sndUna (sk (tcpUpdateEvents c)) = sndUna (sk c)"
  "sndNxt (sk (tcpUpdateEvents c)) = sndNxt (sk c)" "sndUser (sk (tcpUpdateEvents c)) = sndUser (sk c)"
  "sndWnd (sk (tcpUpdateEvents c)) = sndWnd (sk c)" "maxSndWnd (sk (tcpUpdateEvents c)) = maxSndWnd (sk c)"
  "sndWl1 (sk (tcpUpdateEvents c)) = sndWl1 (sk c)" "sndWl2 (sk (tcpUpdateEvents c)) = sndWl2 (sk c)"
  "rcvNxt (sk (tcpUpdateEvents c)) = rcvNxt (sk c)" "rcvUser (sk (tcpUpdateEvents c)) = rcvUser (sk c)"
  "rcvWnd (sk (tcpUpdateEvents c)) = rcvWnd (sk c)" "rttBusy (sk (tcpUpdateEvents c)) = rttBusy (sk c)"
  "rttSeqNum (sk (tcpUpdateEvents c)) = rttSeqNum (sk c)"
  "rttStartTime (sk (tcpUpdateEvents c)) = rttStartTime (sk c)" "srtt (sk (tcpUpdateEvents c)) = srtt (sk c)"
  "rttvar (sk (tcpUpdateEvents c)) = rttvar (sk c)" "rto (sk (tcpUpdateEvents c)) = rto (sk c)"
  "congestState (sk (tcpUpdateEvents c)) = congestState (sk c)" "cwnd (sk (tcpUpdateEvents c)) = cwnd (sk c)"
  "ssthresh (sk (tcpUpdateEvents c)) = ssthresh (sk c)"
  "dupAckCount (sk (tcpUpdateEvents c)) = dupAckCount (sk c)" "sk_n (sk (tcpUpdateEvents c)) = sk_n (sk c)"
  "recover (sk (tcpUpdateEvents c)) = recover (sk c)" "txBuffer (sk (tcpUpdateEvents c)) = txBuffer (sk c)"
  "txBufferSize (sk (tcpUpdateEvents c)) = txBufferSize (sk c)"
  "rxBuffer (sk (tcpUpdateEvents c)) = rxBuffer (sk c)"
  "rxBufferSize (sk (tcpUpdateEvents c)) = rxBufferSize (sk c)"
  "retransmitQueue (sk (tcpUpdateEvents c)) = retransmitQueue (sk c)"
  "retransmitTimer (sk (tcpUpdateEvents c)) = retransmitTimer (sk c)"
  "retransmitCount (sk (tcpUpdateEvents c)) = retransmitCount (sk c)"
  "synQueue (sk (tcpUpdateEvents c)) = synQueue (sk c)"
  "synQueueSize (sk (tcpUpdateEvents c)) = synQueueSize (sk c)"
  "wndProbeCount (sk (tcpUpdateEvents c)) = wndProbeCount (sk c)"
  "wndProbeInterval (sk (tcpUpdateEvents c)) = wndProbeInterval (sk c)"
  "persistTimer (sk (tcpUpdateEvents c)) = persistTimer (sk c)"
  "overrideTimer (sk (tcpUpdateEvents c)) = overrideTimer (sk c)"
  "finWait2Timer (sk (tcpUpdateEvents c)) = finWait2Timer (sk c)"
  "timeWaitTimer (sk (tcpUpdateEvents c)) = timeWaitTimer (sk c)"
  "sackBlock (sk (tcpUpdateEvents c)) = sackBlock (sk c)"
  by (simp_all add: tcpUpdateEvents_def Let_def)

lemma tcpChangeState_frame [simp]:
  "descriptor (sk (tcpChangeState st c)) = descriptor (sk c)"
  "sk_type (sk (tcpChangeState st c)) = sk_type (sk c)" "protocol (sk (tcpChangeState st c)) = protocol (sk c)"
  "sk_interface (sk (tcpChangeState st c)) = sk_interface (sk c)"
  "localIpAddr (sk (tcpChangeState st c)) = localIpAddr (sk c)"
  "localPort (sk (tcpChangeState st c)) = localPort (sk c)"
  "remoteIpAddr (sk (tcpChangeState st c)) = remoteIpAddr (sk c)"
  "remotePort (sk (tcpChangeState st c)) = remotePort (sk c)"
  "sk_timeout (sk (tcpChangeState st c)) = sk_timeout (sk c)" "ttl (sk (tcpChangeState st c)) = ttl (sk c)"
  "eventMask (sk (tcpChangeState st c)) = eventMask (sk c)"
  "ownedFlag (sk (tcpChangeState st c)) = ownedFlag (sk c)" "smss (sk (tcpChangeState st c)) = smss (sk c)"
  "rmss (sk (tcpChangeState st c)) = rmss (sk c)" "iss (sk (tcpChangeState st c)) = iss (sk c)"
  "irs (sk (tcpChangeState st c)) = irs (sk c)" "sndUna (sk (tcpChangeState st c)) = sndUna (sk c)"
  "sndNxt (sk (tcpChangeState st c)) = sndNxt (sk c)" "sndUser (sk (tcpChangeState st c)) = sndUser (sk c)"
  "sndWnd (sk (tcpChangeState st c)) = sndWnd (sk c)" "maxSndWnd (sk (tcpChangeState st c)) = maxSndWnd (sk c)"
  "sndWl1 (sk (tcpChangeState st c)) = sndWl1 (sk c)" "sndWl2 (sk (tcpChangeState st c)) = sndWl2 (sk c)"
  "rcvNxt (sk (tcpChangeState st c)) = rcvNxt (sk c)" "rcvUser (sk (tcpChangeState st c)) = rcvUser (sk c)"
  "rcvWnd (sk (tcpChangeState st c)) = rcvWnd (sk c)" "rttBusy (sk (tcpChangeState st c)) = rttBusy (sk c)"
  "rttSeqNum (sk (tcpChangeState st c)) = rttSeqNum (sk c)"
  "rttStartTime (sk (tcpChangeState st c)) = rttStartTime (sk c)"
  "srtt (sk (tcpChangeState st c)) = srtt (sk c)" "rttvar (sk (tcpChangeState st c)) = rttvar (sk c)"
  "rto (sk (tcpChangeState st c)) = rto (sk c)" "congestState (sk (tcpChangeState st c)) = congestState (sk c)"
  "cwnd (sk (tcpChangeState st c)) = cwnd (sk c)" "ssthresh (sk (tcpChangeState st c)) = ssthresh (sk c)"
  "dupAckCount (sk (tcpChangeState st c)) = dupAckCount (sk c)" "sk_n (sk (tcpChangeState st c)) = sk_n (sk c)"
  "recover (sk (tcpChangeState st c)) = recover (sk c)" "txBuffer (sk (tcpChangeState st c)) = txBuffer (sk c)"
  "txBufferSize (sk (tcpChangeState st c)) = txBufferSize (sk c)"
  "rxBuffer (sk (tcpChangeState st c)) = rxBuffer (sk c)"
  "rxBufferSize (sk (tcpChangeState st c)) = rxBufferSize (sk c)"
  "retransmitQueue (sk (tcpChangeState st c)) = retransmitQueue (sk c)"
  "retransmitTimer (sk (tcpChangeState st c)) = retransmitTimer (sk c)"
  "retransmitCount (sk (tcpChangeState st c)) = retransmitCount (sk c)"
  "synQueue (sk (tcpChangeState st c)) = synQueue (sk c)"
  "synQueueSize (sk (tcpChangeState st c)) = synQueueSize (sk c)"
  "wndProbeCount (sk (tcpChangeState st c)) = wndProbeCount (sk c)"
  "wndProbeInterval (sk (tcpChangeState st c)) = wndProbeInterval (sk c)"
  "persistTimer (sk (tcpChangeState st c)) = persistTimer (sk c)"
  "overrideTimer (sk (tcpChangeState st c)) = overrideTimer (sk c)"
  "finWait2Timer (sk (tcpChangeState st c)) = finWait2Timer (sk c)"
  "timeWaitTimer (sk (tcpChangeState st c)) = timeWaitTimer (sk c)"
  "sackBlock (sk (tcpChangeState st c)) = sackBlock (sk c)"
  by (simp_all add: tcpChangeState_def Let_def)

lemma tcpChangeState_state [simp]: "sk_state (sk (tcpChangeState st c)) = st"
  by (simp add: tcpChangeState_def Let_def)

lemma tcpChangeState_flags [simp]:
  "closedFlag (sk (tcpChangeState st c)) \<longleftrightarrow> closedFlag (sk c) \<or>
     st = TCP_STATE_CLOSED \<and> sk_state (sk c) \<in> {TCP_STATE_LAST_ACK, TCP_STATE_TIME_WAIT}"
  "resetFlag (sk (tcpChangeState st c)) \<longleftrightarrow> resetFlag (sk c) \<or>
     st = TCP_STATE_CLOSED \<and> sk_state (sk c) \<notin> {TCP_STATE_LAST_ACK, TCP_STATE_TIME_WAIT}"
  by (auto simp: tcpChangeState_def Let_def)

section \<open>What the event flags say\<close>

lemma tcpUpdateEvents_flags:
  "eventFlags (sk (tcpUpdateEvents c)) =
     (state_events (sk_state (sk c)) OR tx_events (sk c) OR rx_events (sk c) OR link_events (cx c) (sk c))
       AND eventMask (sk c)"
  by (simp add: tcpUpdateEvents_def Let_def)

text \<open>Only requested events are signalled, and the event object is set exactly when one is.\<close>

lemma tcpUpdateEvents_masked:
  "eventFlags (sk (tcpUpdateEvents c)) AND NOT (eventMask (sk c)) = 0"
  by (simp add: tcpUpdateEvents_flags and.assoc)

lemma tcpUpdateEvents_signal:
  "event (sk (tcpUpdateEvents c)) \<longleftrightarrow> event (sk c) \<or> eventFlags (sk (tcpUpdateEvents c)) \<noteq> 0"
  by (simp add: tcpUpdateEvents_def Let_def)

end
