(* ===== verification/Tcp_Segment.thy ===== *)
theory Tcp_Segment
  imports Tcp_Events
begin

text \<open>
  Building and sending segments: the layout of the TCP header, its options
  (\<open>tcpAddOption\<close>, \<open>tcpGetOption\<close>), \<open>tcpSendSegment\<close> and
  \<open>tcpSendResetSegment\<close> of \<open>core/tcp_misc.c\<close>, with \<open>ipAllocBuffer\<close> and
  \<open>ipSendDatagram\<close> of \<open>core/ip.c\<close>. A datagram accepted by \<open>ipSendDatagram\<close> is recorded in
  \<open>sent\<close>; what the IP layer answers is arbitrary.
\<close>

section \<open>Header layout\<close>

text \<open>The 20 fixed bytes as they are in memory: network order, but for the checksum, which is stored as computed.\<close>

definition tcpHeader_bytes :: "TcpHeader \<Rightarrow> u8 list" where
  "tcpHeader_bytes h =
     be16 (srcPort h) @ be16 (destPort h) @ be32 (seqNum h) @ be32 (ackNum h) @
     [push_bit 4 (dataOffset h), flags h AND 0x3F] @
     be16 (window h) @ le16 (checksum h) @ be16 (urgentPointer h)"

text \<open>The members of a header in memory; the conversions of \<open>tcpProcessSegment\<close> give the host values.\<close>

definition hdr_dataOffset :: "u8 list \<Rightarrow> u8" where "hdr_dataOffset m = drop_bit 4 (m ! 12)"
definition hdr_flags :: "u8 list \<Rightarrow> u8" where "hdr_flags m = m ! 13 AND 0x3F"
definition hdr_seqNum :: "u8 list \<Rightarrow> u32" where "hdr_seqNum m = of_be32 (m ! 4) (m ! 5) (m ! 6) (m ! 7)"

definition tcpHeader_of :: "u8 list \<Rightarrow> TcpHeader" where
  "tcpHeader_of m =
     \<lparr>srcPort = of_be16 (m ! 0) (m ! 1), destPort = of_be16 (m ! 2) (m ! 3),
      seqNum = hdr_seqNum m, ackNum = of_be32 (m ! 8) (m ! 9) (m ! 10) (m ! 11),
      dataOffset = hdr_dataOffset m, flags = hdr_flags m,
      window = of_be16 (m ! 14) (m ! 15), checksum = of_le16 (m ! 16) (m ! 17),
      urgentPointer = of_be16 (m ! 18) (m ! 19), options = drop SIZEOF_TCP_HEADER m\<rparr>"

section \<open>Options\<close>

text \<open>\<open>m\<close> is the memory from the start of the header; \<open>len\<close> wraps like the \<open>uint8_t\<close> it is.\<close>

definition tcpAddOption :: "u8 list \<Rightarrow> u8 \<Rightarrow> u8 list \<Rightarrow> u8 \<Rightarrow> error_t \<times> u8 list" where
  "tcpAddOption m kind value len =
     (let len = len + 2;
          hl = unat (hdr_dataOffset m) * 4
      in if hl + unat len > TCP_MAX_HEADER_LENGTH then (ERROR_FAILURE, m)
         else
           let i = hl - SIZEOF_TCP_HEADER;
               paddingSize = (if unat len mod 4 \<noteq> 0 then 4 - unat len mod 4 else 0);
               opt = replicate paddingSize TCP_OPTION_NOP @ [kind, len] @ take (unat len - 2) value;
               m = list_write m (SIZEOF_TCP_HEADER + i) opt;
               i = i + paddingSize + unat len;
               d = word_of_nat ((SIZEOF_TCP_HEADER + i) div 4)
           in (NO_ERROR, m[12 := (m ! 12 AND 0x0F) OR push_bit 4 d]))"

text \<open>
  The search through the options. The position only grows when the option has a nonzero length:
  the loop need not end, and \<open>None\<close> stands for not ending. \<open>Some None\<close> is the \<open>NULL\<close> result.
\<close>

partial_function (option) getOption_loop :: "u8 list \<Rightarrow> nat \<Rightarrow> u8 \<Rightarrow> nat \<Rightarrow> nat option option" where
  "getOption_loop opts len kind i =
     (if i < len then
        if opts ! i = TCP_OPTION_NOP then getOption_loop opts len kind (i + 1)
        else if opts ! i = TCP_OPTION_END then Some None
        else if i + 1 \<ge> len \<or> i + unat (opts ! (i + 1)) > len then Some None
        else if opts ! i = kind then Some (Some i)
        else getOption_loop opts len kind (i + unat (opts ! (i + 1)))
      else Some None)"

declare getOption_loop.simps [code]

definition tcpGetOption :: "TcpHeader \<Rightarrow> u8 \<Rightarrow> nat option option" where
  "tcpGetOption h kind =
     (if dataOffset h < 5 then Some None
      else getOption_loop (options h) (unat (dataOffset h) * 4 - SIZEOF_TCP_HEADER) kind 0)"

section \<open>The IP layer\<close>

definition ethAllocBuffer :: "ctx \<Rightarrow> nat \<Rightarrow> (nat \<times> NetBuffer \<times> nat) option \<times> ctx" where
  "ethAllocBuffer x len =
     (case bufAlloc x (len + 14) of
        (None, x) \<Rightarrow> (None, x)
      | (Some (a, b), x) \<Rightarrow> (Some (a, b, 14), x))"

text \<open>The room left in front of the payload is an IPv6 header with a fragment header.\<close>

definition ipAllocBuffer :: "ctx \<Rightarrow> nat \<Rightarrow> (nat \<times> NetBuffer \<times> nat) option \<times> ctx" where
  "ipAllocBuffer x len =
     (case ethAllocBuffer x (len + (40 + 8)) of
        (None, x) \<Rightarrow> (None, x)
      | (Some (a, b, off), x) \<Rightarrow> (Some (a, b, off + (40 + 8)), x))"

definition ipSendDatagram ::
  "ctx \<Rightarrow> nat option \<Rightarrow> IpPseudoHeader \<Rightarrow> NetBuffer \<Rightarrow> nat \<Rightarrow> NetAncillaryData \<Rightarrow> error_t \<times> ctx" where
  "ipSendDatagram x ifc ph b off anc =
     (if phLength ph = SIZEOF_IPV4_PSEUDO_HEADER \<or> phLength ph = SIZEOF_IPV6_PSEUDO_HEADER then
        (ipResult x (calls x),
         (tick_call x)\<lparr>sent := sent x @
            [\<lparr>dgInterface = ifc, dgPseudoHeader = ph, dgBytes = drop off (nb_bytes b), dgAncillary = anc\<rparr>]\<rparr>)
      else (ERROR_INVALID_ADDRESS, x))"

text \<open>Storing through the pointer that \<open>netBufferAt\<close> returns.\<close>

fun poke_chunks :: "ChunkDesc list \<Rightarrow> nat \<Rightarrow> u8 list \<Rightarrow> ChunkDesc list" where
  "poke_chunks [] off xs = []"
| "poke_chunks (c # cs) off xs =
     (if off < chLength c then chunk_put c off xs # cs else c # poke_chunks cs (off - chLength c) xs)"

definition netBufferPoke :: "NetBuffer \<Rightarrow> nat \<Rightarrow> u8 list \<Rightarrow> NetBuffer" where
  "netBufferPoke b off xs = b\<lparr>chunk := poke_chunks (chunk b) off xs\<rparr>"

section \<open>Sending a segment\<close>

text \<open>Formatting the header at the start of the memory \<open>m\<close>, with the MSS option of a SYN.\<close>

definition formatHeader :: "Socket \<Rightarrow> u8 \<Rightarrow> u32 \<Rightarrow> u32 \<Rightarrow> u8 list \<Rightarrow> u8 list" where
  "formatHeader s fl seq ack m =
     (let h = \<lparr>srcPort = localPort s, destPort = remotePort s, seqNum = seq,
               ackNum = (if has_flag fl TCP_FLAG_ACK then ack else 0),
               dataOffset = 5, flags = fl, window = rcvWnd s, checksum = 0, urgentPointer = 0,
               options = []\<rparr>;
          m = list_write m 0 (tcpHeader_bytes h)
      in if has_flag fl TCP_FLAG_SYN
         then snd (tcpAddOption m TCP_OPTION_MAX_SEGMENT_SIZE (be16 (rmss s)) 2)
         else m)"

text \<open>The pseudo header; \<open>None\<close> when the remote address is not an IP address.\<close>

definition formatPseudoHeader :: "Socket \<Rightarrow> u32 \<Rightarrow> IpPseudoHeader option" where
  "formatPseudoHeader s totalLength =
     (if ipLength (remoteIpAddr s) = 4 then
        Some \<lparr>phLength = SIZEOF_IPV4_PSEUDO_HEADER, phSrcAddr = ipv4Addr (localIpAddr s),
              phDestAddr = ipv4Addr (remoteIpAddr s), phProtocol = 6, phDataLength = totalLength\<rparr>
      else if ipLength (remoteIpAddr s) = 16 then
        Some \<lparr>phLength = SIZEOF_IPV6_PSEUDO_HEADER, phSrcAddr = ipv6Addr (localIpAddr s),
              phDestAddr = ipv6Addr (remoteIpAddr s), phProtocol = 6, phDataLength = totalLength\<rparr>
      else None)"

text \<open>
  Adding the segment to the retransmission queue, starting the round-trip measurement and the
  retransmission timer when they are not running.
\<close>

definition queueSegment :: "u8 list \<Rightarrow> u32 \<Rightarrow> IpPseudoHeader \<Rightarrow> conn \<Rightarrow> error_t \<times> conn" where
  "queueSegment header len ph c =
     (case heapAlloc (cx c) of
        (None, x) \<Rightarrow> (ERROR_OUT_OF_MEMORY, c\<lparr>cx := x\<rparr>)
      | (Some a, x) \<Rightarrow>
          (let item = \<lparr>qiAddress = a, qiLength = len, qiSacked = False, qiPseudoHeader = ph,
                       qiHeader = header\<rparr>;
               c = upd (\<lambda>s. s\<lparr>retransmitQueue := retransmitQueue s @ [item]\<rparr>) (c\<lparr>cx := x\<rparr>);
               c = (if \<not> rttBusy (sk c) then
                      let (now, x) = osGetSystemTime (cx c)
                      in upd (\<lambda>s. s\<lparr>rttStartTime := now, rttSeqNum := hdr_seqNum header,
                                    rttBusy := True, sk_n := 0\<rparr>) (c\<lparr>cx := x\<rparr>)
                    else c);
               c = (if \<not> tcpTimerRunning (retransmitTimer (sk c)) then
                      upd (\<lambda>s. s\<lparr>retransmitCount := 0\<rparr>)
                        (start_timer retransmitTimer retransmitTimer_update (rto (sk c)) c)
                    else c)
           in (NO_ERROR, c)))"

text \<open>The end of \<open>tcpSendSegment\<close>: queueing the finished segment, handing it to the IP layer, releasing the buffer.\<close>

definition submitSegment ::
  "bool \<Rightarrow> u8 list \<Rightarrow> u32 \<Rightarrow> IpPseudoHeader \<Rightarrow> nat \<Rightarrow> NetBuffer \<Rightarrow> nat \<Rightarrow> conn \<Rightarrow> error_t \<times> conn" where
  "submitSegment addToQueue header len ph a b off c =
     (let (error, c) = (if addToQueue then queueSegment header len ph c else (NO_ERROR, c))
      in if error \<noteq> NO_ERROR then (error, c\<lparr>cx := bufFree (cx c) a b\<rparr>)
         else
           let (error, x) = ipSendDatagram (cx c) (sk_interface (sk c)) ph b off (ttl_option (ttl (sk c)))
           in (error, c\<lparr>cx := bufFree x a b\<rparr>))"

definition tcpSendSegment :: "u8 \<Rightarrow> u32 \<Rightarrow> u32 \<Rightarrow> u32 \<Rightarrow> bool \<Rightarrow> conn \<Rightarrow> error_t \<times> conn" where
  "tcpSendSegment fl seq ack len addToQueue c =
     (case ipAllocBuffer (cx c) TCP_MAX_HEADER_LENGTH of
        (None, x) \<Rightarrow> (ERROR_OUT_OF_MEMORY, c\<lparr>cx := x\<rparr>)
      | (Some (a, b, off), x) \<Rightarrow>
          (let m = formatHeader (sk c) fl seq ack (snd (the (netBufferAt b off)));
               b = netBufferPoke b off m;
               (_, x, b) = bufSetLength x b (off + unat (hdr_dataOffset m) * 4);
               (error, b) = (if len > 0 then tcpReadTxBuffer (sk c) seq b len else (NO_ERROR, b))
           in if error \<noteq> NO_ERROR then (error, c\<lparr>cx := bufFree x a b\<rparr>)
              else
                let totalLength = word_of_nat (unat (hdr_dataOffset m) * 4) + len
                in case formatPseudoHeader (sk c) totalLength of
                     None \<Rightarrow> (ERROR_INVALID_ADDRESS, c\<lparr>cx := bufFree x a b\<rparr>)
                   | Some ph \<Rightarrow>
                       (let cs = ipCalcUpperLayerChecksumEx 0 (pseudoHeader_bytes ph) b off (unat totalLength);
                            b = netBufferPoke b (off + 16) (le16 cs);
                            header = take (unat (hdr_dataOffset m) * 4) (snd (the (netBufferAt b off)))
                        in submitSegment addToQueue header len ph a b off (c\<lparr>cx := x\<rparr>))))"

section \<open>Resets\<close>

text \<open>The sequence and acknowledgment numbers of the reset that answers a segment.\<close>

definition resetNumbers :: "TcpHeader \<Rightarrow> u32 \<Rightarrow> u8 \<times> u32 \<times> u32" where
  "resetNumbers h len =
     (if has_flag (flags h) TCP_FLAG_ACK then (TCP_FLAG_RST, ackNum h, 0)
      else
        let ack = seqNum h + len;
            ack = (if has_flag (flags h) TCP_FLAG_SYN then ack + 1 else ack);
            ack = (if has_flag (flags h) TCP_FLAG_FIN then ack + 1 else ack)
        in (TCP_FLAG_RST OR TCP_FLAG_ACK, 0, ack))"

definition tcpSendResetSegment ::
  "nat option \<Rightarrow> IpPseudoHeader \<Rightarrow> TcpHeader \<Rightarrow> u32 \<Rightarrow> ctx \<Rightarrow> error_t \<times> ctx" where
  "tcpSendResetSegment ifc ph h len x =
     (let (fl, seq, ack) = resetNumbers h len
      in case ipAllocBuffer x SIZEOF_TCP_HEADER of
           (None, x) \<Rightarrow> (ERROR_OUT_OF_MEMORY, x)
         | (Some (a, b, off), x) \<Rightarrow>
             (let h2 = \<lparr>srcPort = destPort h, destPort = srcPort h, seqNum = seq, ackNum = ack,
                        dataOffset = 5, flags = fl, window = 0, checksum = 0, urgentPointer = 0,
                        options = []\<rparr>;
                  b = netBufferPoke b off (tcpHeader_bytes h2)
              in if phLength ph = SIZEOF_IPV4_PSEUDO_HEADER \<or> phLength ph = SIZEOF_IPV6_PSEUDO_HEADER then
                   let ph2 = \<lparr>phLength = phLength ph, phSrcAddr = phDestAddr ph, phDestAddr = phSrcAddr ph,
                              phProtocol = 6, phDataLength = word_of_nat SIZEOF_TCP_HEADER\<rparr>;
                       cs = ipCalcUpperLayerChecksumEx 0 (pseudoHeader_bytes ph2) b off SIZEOF_TCP_HEADER;
                       b = netBufferPoke b (off + 16) (le16 cs);
                       (error, x) = ipSendDatagram x ifc ph2 b off NET_DEFAULT_ANCILLARY_DATA
                   in (error, bufFree x a b)
                 else (ERROR_INVALID_ADDRESS, bufFree x a b)))"

section \<open>Frame\<close>

text \<open>
  The only fields a segment that is sent can change are those of the retransmission queue and
  of the round-trip measurement, and only when the segment is queued.
\<close>

lemma queueSegment_frame [simp]:
  "descriptor (sk (snd (queueSegment header len ph c))) = descriptor (sk c)"
  "sk_type (sk (snd (queueSegment header len ph c))) = sk_type (sk c)"
  "protocol (sk (snd (queueSegment header len ph c))) = protocol (sk c)"
  "sk_interface (sk (snd (queueSegment header len ph c))) = sk_interface (sk c)"
  "localIpAddr (sk (snd (queueSegment header len ph c))) = localIpAddr (sk c)"
  "localPort (sk (snd (queueSegment header len ph c))) = localPort (sk c)"
  "remoteIpAddr (sk (snd (queueSegment header len ph c))) = remoteIpAddr (sk c)"
  "remotePort (sk (snd (queueSegment header len ph c))) = remotePort (sk c)"
  "sk_timeout (sk (snd (queueSegment header len ph c))) = sk_timeout (sk c)"
  "ttl (sk (snd (queueSegment header len ph c))) = ttl (sk c)"
  "event (sk (snd (queueSegment header len ph c))) = event (sk c)"
  "eventMask (sk (snd (queueSegment header len ph c))) = eventMask (sk c)"
  "eventFlags (sk (snd (queueSegment header len ph c))) = eventFlags (sk c)"
  "userEvent (sk (snd (queueSegment header len ph c))) = userEvent (sk c)"
  "sk_state (sk (snd (queueSegment header len ph c))) = sk_state (sk c)"
  "ownedFlag (sk (snd (queueSegment header len ph c))) = ownedFlag (sk c)"
  "closedFlag (sk (snd (queueSegment header len ph c))) = closedFlag (sk c)"
  "resetFlag (sk (snd (queueSegment header len ph c))) = resetFlag (sk c)"
  "smss (sk (snd (queueSegment header len ph c))) = smss (sk c)"
  "rmss (sk (snd (queueSegment header len ph c))) = rmss (sk c)"
  "iss (sk (snd (queueSegment header len ph c))) = iss (sk c)"
  "irs (sk (snd (queueSegment header len ph c))) = irs (sk c)"
  "sndUna (sk (snd (queueSegment header len ph c))) = sndUna (sk c)"
  "sndNxt (sk (snd (queueSegment header len ph c))) = sndNxt (sk c)"
  "sndUser (sk (snd (queueSegment header len ph c))) = sndUser (sk c)"
  "sndWnd (sk (snd (queueSegment header len ph c))) = sndWnd (sk c)"
  "maxSndWnd (sk (snd (queueSegment header len ph c))) = maxSndWnd (sk c)"
  "sndWl1 (sk (snd (queueSegment header len ph c))) = sndWl1 (sk c)"
  "sndWl2 (sk (snd (queueSegment header len ph c))) = sndWl2 (sk c)"
  "rcvNxt (sk (snd (queueSegment header len ph c))) = rcvNxt (sk c)"
  "rcvUser (sk (snd (queueSegment header len ph c))) = rcvUser (sk c)"
  "rcvWnd (sk (snd (queueSegment header len ph c))) = rcvWnd (sk c)"
  "srtt (sk (snd (queueSegment header len ph c))) = srtt (sk c)"
  "rttvar (sk (snd (queueSegment header len ph c))) = rttvar (sk c)"
  "rto (sk (snd (queueSegment header len ph c))) = rto (sk c)"
  "congestState (sk (snd (queueSegment header len ph c))) = congestState (sk c)"
  "cwnd (sk (snd (queueSegment header len ph c))) = cwnd (sk c)"
  "ssthresh (sk (snd (queueSegment header len ph c))) = ssthresh (sk c)"
  "dupAckCount (sk (snd (queueSegment header len ph c))) = dupAckCount (sk c)"
  "recover (sk (snd (queueSegment header len ph c))) = recover (sk c)"
  "txBuffer (sk (snd (queueSegment header len ph c))) = txBuffer (sk c)"
  "txBufferSize (sk (snd (queueSegment header len ph c))) = txBufferSize (sk c)"
  "rxBuffer (sk (snd (queueSegment header len ph c))) = rxBuffer (sk c)"
  "rxBufferSize (sk (snd (queueSegment header len ph c))) = rxBufferSize (sk c)"
  "synQueue (sk (snd (queueSegment header len ph c))) = synQueue (sk c)"
  "synQueueSize (sk (snd (queueSegment header len ph c))) = synQueueSize (sk c)"
  "wndProbeCount (sk (snd (queueSegment header len ph c))) = wndProbeCount (sk c)"
  "wndProbeInterval (sk (snd (queueSegment header len ph c))) = wndProbeInterval (sk c)"
  "persistTimer (sk (snd (queueSegment header len ph c))) = persistTimer (sk c)"
  "overrideTimer (sk (snd (queueSegment header len ph c))) = overrideTimer (sk c)"
  "finWait2Timer (sk (snd (queueSegment header len ph c))) = finWait2Timer (sk c)"
  "timeWaitTimer (sk (snd (queueSegment header len ph c))) = timeWaitTimer (sk c)"
  "sackBlock (sk (snd (queueSegment header len ph c))) = sackBlock (sk c)"
  by (simp_all add: queueSegment_def Let_def split_beta sk_start_timer split: option.splits)

lemma submitSegment_sk:
  "sk (snd (submitSegment q header len ph a b off c)) = (if q then sk (snd (queueSegment header len ph c)) else sk c)"
  by (simp add: submitSegment_def split_beta)

lemma tcpSendSegment_submit:
  "sk (snd (tcpSendSegment fl seq ack len q c)) = sk c \<or>
   (\<exists>header ph a b off x. tcpSendSegment fl seq ack len q c = submitSegment q header len ph a b off (c\<lparr>cx := x\<rparr>))"
  by (simp add: tcpSendSegment_def Let_def split_beta split: option.split prod.split) blast

lemma tcpSendSegment_sk:
  "sk (snd (tcpSendSegment fl seq ack len q c)) = sk c \<or>
   q \<and> (\<exists>header ph x. sk (snd (tcpSendSegment fl seq ack len q c)) = sk (snd (queueSegment header len ph (c\<lparr>cx := x\<rparr>))))"
  using tcpSendSegment_submit [of fl seq ack len q c]
  by (cases q) (auto simp: submitSegment_sk, blast)

lemma tcpSendSegment_cases:
  "P (sk c) \<Longrightarrow> (\<And>header ph x. P (sk (snd (queueSegment header len ph (c\<lparr>cx := x\<rparr>))))) \<Longrightarrow>
   P (sk (snd (tcpSendSegment fl seq ack len q c)))"
  using tcpSendSegment_sk [of fl seq ack len q c] by metis

lemma tcpSendSegment_not_queued [simp]: "sk (snd (tcpSendSegment fl seq ack len False c)) = sk c"
  using tcpSendSegment_sk [of fl seq ack len False c] by simp

lemma tcpSendSegment_frame [simp]:
  "descriptor (sk (snd (tcpSendSegment fl seq ack len q c))) = descriptor (sk c)"
  "sk_type (sk (snd (tcpSendSegment fl seq ack len q c))) = sk_type (sk c)"
  "protocol (sk (snd (tcpSendSegment fl seq ack len q c))) = protocol (sk c)"
  "sk_interface (sk (snd (tcpSendSegment fl seq ack len q c))) = sk_interface (sk c)"
  "localIpAddr (sk (snd (tcpSendSegment fl seq ack len q c))) = localIpAddr (sk c)"
  "localPort (sk (snd (tcpSendSegment fl seq ack len q c))) = localPort (sk c)"
  "remoteIpAddr (sk (snd (tcpSendSegment fl seq ack len q c))) = remoteIpAddr (sk c)"
  "remotePort (sk (snd (tcpSendSegment fl seq ack len q c))) = remotePort (sk c)"
  "sk_timeout (sk (snd (tcpSendSegment fl seq ack len q c))) = sk_timeout (sk c)"
  "ttl (sk (snd (tcpSendSegment fl seq ack len q c))) = ttl (sk c)"
  "event (sk (snd (tcpSendSegment fl seq ack len q c))) = event (sk c)"
  "eventMask (sk (snd (tcpSendSegment fl seq ack len q c))) = eventMask (sk c)"
  "eventFlags (sk (snd (tcpSendSegment fl seq ack len q c))) = eventFlags (sk c)"
  "userEvent (sk (snd (tcpSendSegment fl seq ack len q c))) = userEvent (sk c)"
  "sk_state (sk (snd (tcpSendSegment fl seq ack len q c))) = sk_state (sk c)"
  "ownedFlag (sk (snd (tcpSendSegment fl seq ack len q c))) = ownedFlag (sk c)"
  "closedFlag (sk (snd (tcpSendSegment fl seq ack len q c))) = closedFlag (sk c)"
  "resetFlag (sk (snd (tcpSendSegment fl seq ack len q c))) = resetFlag (sk c)"
  "smss (sk (snd (tcpSendSegment fl seq ack len q c))) = smss (sk c)"
  "rmss (sk (snd (tcpSendSegment fl seq ack len q c))) = rmss (sk c)"
  "iss (sk (snd (tcpSendSegment fl seq ack len q c))) = iss (sk c)"
  "irs (sk (snd (tcpSendSegment fl seq ack len q c))) = irs (sk c)"
  "sndUna (sk (snd (tcpSendSegment fl seq ack len q c))) = sndUna (sk c)"
  "sndNxt (sk (snd (tcpSendSegment fl seq ack len q c))) = sndNxt (sk c)"
  "sndUser (sk (snd (tcpSendSegment fl seq ack len q c))) = sndUser (sk c)"
  "sndWnd (sk (snd (tcpSendSegment fl seq ack len q c))) = sndWnd (sk c)"
  "maxSndWnd (sk (snd (tcpSendSegment fl seq ack len q c))) = maxSndWnd (sk c)"
  "sndWl1 (sk (snd (tcpSendSegment fl seq ack len q c))) = sndWl1 (sk c)"
  "sndWl2 (sk (snd (tcpSendSegment fl seq ack len q c))) = sndWl2 (sk c)"
  "rcvNxt (sk (snd (tcpSendSegment fl seq ack len q c))) = rcvNxt (sk c)"
  "rcvUser (sk (snd (tcpSendSegment fl seq ack len q c))) = rcvUser (sk c)"
  "rcvWnd (sk (snd (tcpSendSegment fl seq ack len q c))) = rcvWnd (sk c)"
  "srtt (sk (snd (tcpSendSegment fl seq ack len q c))) = srtt (sk c)"
  "rttvar (sk (snd (tcpSendSegment fl seq ack len q c))) = rttvar (sk c)"
  "rto (sk (snd (tcpSendSegment fl seq ack len q c))) = rto (sk c)"
  "congestState (sk (snd (tcpSendSegment fl seq ack len q c))) = congestState (sk c)"
  "cwnd (sk (snd (tcpSendSegment fl seq ack len q c))) = cwnd (sk c)"
  "ssthresh (sk (snd (tcpSendSegment fl seq ack len q c))) = ssthresh (sk c)"
  "dupAckCount (sk (snd (tcpSendSegment fl seq ack len q c))) = dupAckCount (sk c)"
  "recover (sk (snd (tcpSendSegment fl seq ack len q c))) = recover (sk c)"
  "txBuffer (sk (snd (tcpSendSegment fl seq ack len q c))) = txBuffer (sk c)"
  "txBufferSize (sk (snd (tcpSendSegment fl seq ack len q c))) = txBufferSize (sk c)"
  "rxBuffer (sk (snd (tcpSendSegment fl seq ack len q c))) = rxBuffer (sk c)"
  "rxBufferSize (sk (snd (tcpSendSegment fl seq ack len q c))) = rxBufferSize (sk c)"
  "synQueue (sk (snd (tcpSendSegment fl seq ack len q c))) = synQueue (sk c)"
  "synQueueSize (sk (snd (tcpSendSegment fl seq ack len q c))) = synQueueSize (sk c)"
  "wndProbeCount (sk (snd (tcpSendSegment fl seq ack len q c))) = wndProbeCount (sk c)"
  "wndProbeInterval (sk (snd (tcpSendSegment fl seq ack len q c))) = wndProbeInterval (sk c)"
  "persistTimer (sk (snd (tcpSendSegment fl seq ack len q c))) = persistTimer (sk c)"
  "overrideTimer (sk (snd (tcpSendSegment fl seq ack len q c))) = overrideTimer (sk c)"
  "finWait2Timer (sk (snd (tcpSendSegment fl seq ack len q c))) = finWait2Timer (sk c)"
  "timeWaitTimer (sk (snd (tcpSendSegment fl seq ack len q c))) = timeWaitTimer (sk c)"
  "sackBlock (sk (snd (tcpSendSegment fl seq ack len q c))) = sackBlock (sk c)"
  by (rule tcpSendSegment_cases; simp)+

end
