(* ===== verification/Tcp_Window.thy ===== *)
theory Tcp_Window
  imports Tcp_Segment
begin

text \<open>
  Windows and estimators (\<open>core/tcp_misc.c\<close>): the acceptability test of RFC 793, the check of
  a SYN in the window, the send and receive windows, the list of blocks received out of order,
  and the retransmission timeout of RFC 6298. Sequence numbers are 32-bit words; comparisons are
  the signed comparison of their difference, as in the code.
\<close>

section \<open>The implementation\<close>

text \<open>The three cases of the acceptability test (the fourth, data and no window, is never acceptable).\<close>

definition acceptable :: "Socket \<Rightarrow> TcpHeader \<Rightarrow> u32 \<Rightarrow> bool" where
  "acceptable s h len =
     (if len = 0 \<and> rcvWnd s = 0 then seqNum h = rcvNxt s
      else if len = 0 \<and> rcvWnd s \<noteq> 0 then
        TCP_CMP_SEQ (seqNum h) (rcvNxt s) \<ge> 0 \<and>
        TCP_CMP_SEQ (seqNum h) (rcvNxt s + ucast (rcvWnd s)) < 0
      else if len \<noteq> 0 \<and> rcvWnd s \<noteq> 0 then
        (TCP_CMP_SEQ (seqNum h) (rcvNxt s) \<ge> 0 \<and>
         TCP_CMP_SEQ (seqNum h) (rcvNxt s + ucast (rcvWnd s)) < 0) \<or>
        (TCP_CMP_SEQ (seqNum h + len - 1) (rcvNxt s) \<ge> 0 \<and>
         TCP_CMP_SEQ (seqNum h + len - 1) (rcvNxt s + ucast (rcvWnd s)) < 0)
      else False)"

definition tcpCheckSequenceNumber :: "TcpHeader \<Rightarrow> u32 \<Rightarrow> conn \<Rightarrow> error_t \<times> conn" where
  "tcpCheckSequenceNumber h len c =
     (if \<not> acceptable (sk c) h len then
        (ERROR_FAILURE,
         if \<not> has_flag (flags h) TCP_FLAG_RST
         then snd (tcpSendSegment TCP_FLAG_ACK (sndNxt (sk c)) (rcvNxt (sk c)) 0 False c)
         else c)
      else (NO_ERROR, c))"

definition tcpCheckSyn :: "TcpHeader \<Rightarrow> u32 \<Rightarrow> conn \<Rightarrow> error_t \<times> conn" where
  "tcpCheckSyn h len c =
     (if has_flag (flags h) TCP_FLAG_SYN then
        (ERROR_FAILURE,
         if has_flag (flags h) TCP_FLAG_ACK
         then snd (tcpSendSegment TCP_FLAG_RST (ackNum h) 0 0 False c)
         else snd (tcpSendSegment (TCP_FLAG_RST OR TCP_FLAG_ACK) 0 (seqNum h + len + 1) 0 False c))
      else (NO_ERROR, c))"

text \<open>A connection request that is already in the SYN queue.\<close>

definition matchesSyn :: "IpPseudoHeader \<Rightarrow> TcpHeader \<Rightarrow> TcpSynQueueItem \<Rightarrow> bool" where
  "matchesSyn ph h q =
     (if ipLength (sqSrcAddr q) = 4 \<and> ipLength (sqDestAddr q) = 4 \<and> phLength ph = SIZEOF_IPV4_PSEUDO_HEADER then
        ipv4Addr (sqSrcAddr q) = phSrcAddr ph \<and> ipv4Addr (sqDestAddr q) = phDestAddr ph \<and>
        sqSrcPort q = srcPort h
      else if ipLength (sqSrcAddr q) = 16 \<and> ipLength (sqDestAddr q) = 16 \<and> phLength ph = SIZEOF_IPV6_PSEUDO_HEADER then
        ipv6Addr (sqSrcAddr q) = phSrcAddr ph \<and> ipv6Addr (sqDestAddr q) = phDestAddr ph \<and>
        sqSrcPort q = srcPort h
      else False)"

fun duplicateSyn_loop :: "IpPseudoHeader \<Rightarrow> TcpHeader \<Rightarrow> TcpSynQueueItem list \<Rightarrow> bool \<Rightarrow> bool" where
  "duplicateSyn_loop ph h [] flag = flag"
| "duplicateSyn_loop ph h (q # qs) flag =
     duplicateSyn_loop ph h qs (if matchesSyn ph h q then True else flag)"

definition tcpIsDuplicateSyn :: "Socket \<Rightarrow> IpPseudoHeader \<Rightarrow> TcpHeader \<Rightarrow> bool" where
  "tcpIsDuplicateSyn s ph h = duplicateSyn_loop ph h (synQueue s) False"

definition tcpIsDuplicateAck :: "Socket \<Rightarrow> TcpHeader \<Rightarrow> u32 \<Rightarrow> bool" where
  "tcpIsDuplicateAck s h len \<longleftrightarrow>
     retransmitQueue s \<noteq> [] \<and> len = 0 \<and> \<not> has_flag (flags h) (TCP_FLAG_SYN OR TCP_FLAG_FIN) \<and>
     ackNum h = sndUna s \<and> window h = sndWnd s"

text \<open>
  Merging the incoming block with those it touches, in the order of the list; \<open>MIN\<close> and
  \<open>MAX\<close> compare the raw sequence numbers.
\<close>

fun sack_merge :: "TcpSackBlock list \<Rightarrow> u32 \<Rightarrow> u32 \<Rightarrow> u32 \<times> u32 \<times> TcpSackBlock list" where
  "sack_merge [] l r = (l, r, [])"
| "sack_merge (b # bs) l r =
     (if TCP_CMP_SEQ r (leftEdge b) \<ge> 0 \<and> TCP_CMP_SEQ l (rightEdge b) \<le> 0
      then sack_merge bs (min l (leftEdge b)) (max r (rightEdge b))
      else case sack_merge bs l r of (l', r', bs') \<Rightarrow> (l', r', b # bs'))"

definition tcpUpdateSackBlocks :: "Socket \<Rightarrow> u32 \<Rightarrow> u32 \<Rightarrow> u32 \<times> u32 \<times> Socket" where
  "tcpUpdateSackBlocks s l r =
     (case sack_merge (sackBlock s) l r of
        (l, r, bs) \<Rightarrow>
          (l, r, s\<lparr>sackBlock :=
             (if TCP_CMP_SEQ l (rcvNxt s) > 0
              then take TCP_MAX_SACK_BLOCKS (\<lparr>leftEdge = l, rightEdge = r\<rparr> # bs) else bs)\<rparr>))"

definition tcpUpdateSendWindow :: "TcpHeader \<Rightarrow> conn \<Rightarrow> conn" where
  "tcpUpdateSendWindow h c =
     (let s = sk c;
          record_window = (\<lambda>s. s\<lparr>sndWnd := window h, sndWl1 := seqNum h, sndWl2 := ackNum h,
                                 maxSndWnd := max (maxSndWnd s) (window h)\<rparr>)
      in if seqNum h = sndWl1 s \<and> ackNum h = sndWl2 s then
           if window h > sndWnd s then upd record_window c else c
         else if TCP_CMP_SEQ (seqNum h) (sndWl1 s) \<ge> 0 \<and> TCP_CMP_SEQ (ackNum h) (sndWl2 s) \<ge> 0 then
           let c = (if window h = 0 \<and> sndWnd s \<noteq> 0 then
                      start_timer persistTimer persistTimer_update TCP_DEFAULT_PROBE_INTERVAL
                        (upd (\<lambda>s. s\<lparr>wndProbeCount := 0, wndProbeInterval := TCP_DEFAULT_PROBE_INTERVAL\<rparr>) c)
                    else c)
           in upd record_window c
         else c)"

definition tcpUpdateReceiveWindow :: "conn \<Rightarrow> conn" where
  "tcpUpdateReceiveWindow c =
     (let s = sk c;
          reduction = (ucast (rxBufferSize s - ucast (rcvUser s) - ucast (rcvWnd s)) :: u16);
          thresh = min (ucast (rmss s)) (rxBufferSize s div 2)
      in if (ucast (rcvWnd s) + ucast reduction :: u32) \<ge> thresh then
           let c' = upd (rcvWnd_update (\<lambda>w. w + reduction)) c
           in if ucast (rcvWnd s) < thresh
              then snd (tcpSendSegment TCP_FLAG_ACK (sndNxt s) (rcvNxt s) 0 False c')
              else c'
         else c)"

text \<open>The estimators after a round-trip measurement \<open>r\<close>, and the timeout that follows from them.\<close>

definition rtt_estimate :: "systime_t \<Rightarrow> systime_t \<Rightarrow> systime_t \<Rightarrow> systime_t \<times> systime_t" where
  "rtt_estimate r srtt0 rttvar0 =
     (if srtt0 = 0 \<and> rttvar0 = 0 then (r, r div 2)
      else let delta = (if r > srtt0 then r - srtt0 else srtt0 - r)
           in ((7 * srtt0 + r) div 8, (3 * rttvar0 + delta) div 4))"

definition rto_measure :: "systime_t \<Rightarrow> Socket \<Rightarrow> Socket" where
  "rto_measure r s =
     (let (srtt1, rttvar1) = rtt_estimate r (srtt s) (rttvar s);
          t = srtt1 + 4 * rttvar1;
          t = max t TCP_MIN_RTO;
          t = min t TCP_MAX_RTO
      in s\<lparr>srtt := srtt1, rttvar := rttvar1, rto := t, rttBusy := False\<rparr>)"

definition tcpComputeRto :: "conn \<Rightarrow> bool \<times> conn" where
  "tcpComputeRto c =
     (if rttBusy (sk c) \<and> TCP_CMP_SEQ (sndUna (sk c)) (rttSeqNum (sk c)) > 0 then
        let (now, x) = osGetSystemTime (cx c)
        in (True, \<lparr>cx = x, sk = rto_measure (now - rttStartTime (sk c)) (sk c)\<rparr>)
      else (False, c))"

section \<open>Frame\<close>

lemma tcpCheckSequenceNumber_sk [simp]: "sk (snd (tcpCheckSequenceNumber h len c)) = sk c"
  by (simp add: tcpCheckSequenceNumber_def)

lemma tcpCheckSequenceNumber_ok: "fst (tcpCheckSequenceNumber h len c) = NO_ERROR \<longleftrightarrow> acceptable (sk c) h len"
  by (simp add: tcpCheckSequenceNumber_def)

lemma tcpCheckSyn_sk [simp]: "sk (snd (tcpCheckSyn h len c)) = sk c"
  by (simp add: tcpCheckSyn_def)

lemma tcpCheckSyn_ok: "fst (tcpCheckSyn h len c) = NO_ERROR \<longleftrightarrow> \<not> has_flag (flags h) TCP_FLAG_SYN"
  by (simp add: tcpCheckSyn_def)

lemma tcpUpdateSackBlocks_frame [simp]:
  "descriptor (snd (snd (tcpUpdateSackBlocks s l r))) = descriptor (s)"
  "sk_type (snd (snd (tcpUpdateSackBlocks s l r))) = sk_type (s)"
  "protocol (snd (snd (tcpUpdateSackBlocks s l r))) = protocol (s)"
  "sk_interface (snd (snd (tcpUpdateSackBlocks s l r))) = sk_interface (s)"
  "localIpAddr (snd (snd (tcpUpdateSackBlocks s l r))) = localIpAddr (s)"
  "localPort (snd (snd (tcpUpdateSackBlocks s l r))) = localPort (s)"
  "remoteIpAddr (snd (snd (tcpUpdateSackBlocks s l r))) = remoteIpAddr (s)"
  "remotePort (snd (snd (tcpUpdateSackBlocks s l r))) = remotePort (s)"
  "sk_timeout (snd (snd (tcpUpdateSackBlocks s l r))) = sk_timeout (s)"
  "ttl (snd (snd (tcpUpdateSackBlocks s l r))) = ttl (s)"
  "event (snd (snd (tcpUpdateSackBlocks s l r))) = event (s)"
  "eventMask (snd (snd (tcpUpdateSackBlocks s l r))) = eventMask (s)"
  "eventFlags (snd (snd (tcpUpdateSackBlocks s l r))) = eventFlags (s)"
  "userEvent (snd (snd (tcpUpdateSackBlocks s l r))) = userEvent (s)"
  "sk_state (snd (snd (tcpUpdateSackBlocks s l r))) = sk_state (s)"
  "ownedFlag (snd (snd (tcpUpdateSackBlocks s l r))) = ownedFlag (s)"
  "closedFlag (snd (snd (tcpUpdateSackBlocks s l r))) = closedFlag (s)"
  "resetFlag (snd (snd (tcpUpdateSackBlocks s l r))) = resetFlag (s)"
  "smss (snd (snd (tcpUpdateSackBlocks s l r))) = smss (s)"
  "rmss (snd (snd (tcpUpdateSackBlocks s l r))) = rmss (s)"
  "iss (snd (snd (tcpUpdateSackBlocks s l r))) = iss (s)"
  "irs (snd (snd (tcpUpdateSackBlocks s l r))) = irs (s)"
  "sndUna (snd (snd (tcpUpdateSackBlocks s l r))) = sndUna (s)"
  "sndNxt (snd (snd (tcpUpdateSackBlocks s l r))) = sndNxt (s)"
  "sndUser (snd (snd (tcpUpdateSackBlocks s l r))) = sndUser (s)"
  "sndWnd (snd (snd (tcpUpdateSackBlocks s l r))) = sndWnd (s)"
  "maxSndWnd (snd (snd (tcpUpdateSackBlocks s l r))) = maxSndWnd (s)"
  "sndWl1 (snd (snd (tcpUpdateSackBlocks s l r))) = sndWl1 (s)"
  "sndWl2 (snd (snd (tcpUpdateSackBlocks s l r))) = sndWl2 (s)"
  "rcvNxt (snd (snd (tcpUpdateSackBlocks s l r))) = rcvNxt (s)"
  "rcvUser (snd (snd (tcpUpdateSackBlocks s l r))) = rcvUser (s)"
  "rcvWnd (snd (snd (tcpUpdateSackBlocks s l r))) = rcvWnd (s)"
  "rttBusy (snd (snd (tcpUpdateSackBlocks s l r))) = rttBusy (s)"
  "rttSeqNum (snd (snd (tcpUpdateSackBlocks s l r))) = rttSeqNum (s)"
  "rttStartTime (snd (snd (tcpUpdateSackBlocks s l r))) = rttStartTime (s)"
  "srtt (snd (snd (tcpUpdateSackBlocks s l r))) = srtt (s)"
  "rttvar (snd (snd (tcpUpdateSackBlocks s l r))) = rttvar (s)"
  "rto (snd (snd (tcpUpdateSackBlocks s l r))) = rto (s)"
  "congestState (snd (snd (tcpUpdateSackBlocks s l r))) = congestState (s)"
  "cwnd (snd (snd (tcpUpdateSackBlocks s l r))) = cwnd (s)"
  "ssthresh (snd (snd (tcpUpdateSackBlocks s l r))) = ssthresh (s)"
  "dupAckCount (snd (snd (tcpUpdateSackBlocks s l r))) = dupAckCount (s)"
  "sk_n (snd (snd (tcpUpdateSackBlocks s l r))) = sk_n (s)"
  "recover (snd (snd (tcpUpdateSackBlocks s l r))) = recover (s)"
  "txBuffer (snd (snd (tcpUpdateSackBlocks s l r))) = txBuffer (s)"
  "txBufferSize (snd (snd (tcpUpdateSackBlocks s l r))) = txBufferSize (s)"
  "rxBuffer (snd (snd (tcpUpdateSackBlocks s l r))) = rxBuffer (s)"
  "rxBufferSize (snd (snd (tcpUpdateSackBlocks s l r))) = rxBufferSize (s)"
  "retransmitQueue (snd (snd (tcpUpdateSackBlocks s l r))) = retransmitQueue (s)"
  "retransmitTimer (snd (snd (tcpUpdateSackBlocks s l r))) = retransmitTimer (s)"
  "retransmitCount (snd (snd (tcpUpdateSackBlocks s l r))) = retransmitCount (s)"
  "synQueue (snd (snd (tcpUpdateSackBlocks s l r))) = synQueue (s)"
  "synQueueSize (snd (snd (tcpUpdateSackBlocks s l r))) = synQueueSize (s)"
  "wndProbeCount (snd (snd (tcpUpdateSackBlocks s l r))) = wndProbeCount (s)"
  "wndProbeInterval (snd (snd (tcpUpdateSackBlocks s l r))) = wndProbeInterval (s)"
  "persistTimer (snd (snd (tcpUpdateSackBlocks s l r))) = persistTimer (s)"
  "overrideTimer (snd (snd (tcpUpdateSackBlocks s l r))) = overrideTimer (s)"
  "finWait2Timer (snd (snd (tcpUpdateSackBlocks s l r))) = finWait2Timer (s)"
  "timeWaitTimer (snd (snd (tcpUpdateSackBlocks s l r))) = timeWaitTimer (s)"
  by (simp_all add: tcpUpdateSackBlocks_def split_beta)

lemma tcpUpdateSendWindow_frame [simp]:
  "descriptor (sk (tcpUpdateSendWindow h c)) = descriptor (sk c)"
  "sk_type (sk (tcpUpdateSendWindow h c)) = sk_type (sk c)"
  "protocol (sk (tcpUpdateSendWindow h c)) = protocol (sk c)"
  "sk_interface (sk (tcpUpdateSendWindow h c)) = sk_interface (sk c)"
  "localIpAddr (sk (tcpUpdateSendWindow h c)) = localIpAddr (sk c)"
  "localPort (sk (tcpUpdateSendWindow h c)) = localPort (sk c)"
  "remoteIpAddr (sk (tcpUpdateSendWindow h c)) = remoteIpAddr (sk c)"
  "remotePort (sk (tcpUpdateSendWindow h c)) = remotePort (sk c)"
  "sk_timeout (sk (tcpUpdateSendWindow h c)) = sk_timeout (sk c)"
  "ttl (sk (tcpUpdateSendWindow h c)) = ttl (sk c)" "event (sk (tcpUpdateSendWindow h c)) = event (sk c)"
  "eventMask (sk (tcpUpdateSendWindow h c)) = eventMask (sk c)"
  "eventFlags (sk (tcpUpdateSendWindow h c)) = eventFlags (sk c)"
  "userEvent (sk (tcpUpdateSendWindow h c)) = userEvent (sk c)"
  "sk_state (sk (tcpUpdateSendWindow h c)) = sk_state (sk c)"
  "ownedFlag (sk (tcpUpdateSendWindow h c)) = ownedFlag (sk c)"
  "closedFlag (sk (tcpUpdateSendWindow h c)) = closedFlag (sk c)"
  "resetFlag (sk (tcpUpdateSendWindow h c)) = resetFlag (sk c)"
  "smss (sk (tcpUpdateSendWindow h c)) = smss (sk c)" "rmss (sk (tcpUpdateSendWindow h c)) = rmss (sk c)"
  "iss (sk (tcpUpdateSendWindow h c)) = iss (sk c)" "irs (sk (tcpUpdateSendWindow h c)) = irs (sk c)"
  "sndUna (sk (tcpUpdateSendWindow h c)) = sndUna (sk c)"
  "sndNxt (sk (tcpUpdateSendWindow h c)) = sndNxt (sk c)"
  "sndUser (sk (tcpUpdateSendWindow h c)) = sndUser (sk c)"
  "rcvNxt (sk (tcpUpdateSendWindow h c)) = rcvNxt (sk c)"
  "rcvUser (sk (tcpUpdateSendWindow h c)) = rcvUser (sk c)"
  "rcvWnd (sk (tcpUpdateSendWindow h c)) = rcvWnd (sk c)"
  "rttBusy (sk (tcpUpdateSendWindow h c)) = rttBusy (sk c)"
  "rttSeqNum (sk (tcpUpdateSendWindow h c)) = rttSeqNum (sk c)"
  "rttStartTime (sk (tcpUpdateSendWindow h c)) = rttStartTime (sk c)"
  "srtt (sk (tcpUpdateSendWindow h c)) = srtt (sk c)" "rttvar (sk (tcpUpdateSendWindow h c)) = rttvar (sk c)"
  "rto (sk (tcpUpdateSendWindow h c)) = rto (sk c)"
  "congestState (sk (tcpUpdateSendWindow h c)) = congestState (sk c)"
  "cwnd (sk (tcpUpdateSendWindow h c)) = cwnd (sk c)"
  "ssthresh (sk (tcpUpdateSendWindow h c)) = ssthresh (sk c)"
  "dupAckCount (sk (tcpUpdateSendWindow h c)) = dupAckCount (sk c)"
  "sk_n (sk (tcpUpdateSendWindow h c)) = sk_n (sk c)" "recover (sk (tcpUpdateSendWindow h c)) = recover (sk c)"
  "txBuffer (sk (tcpUpdateSendWindow h c)) = txBuffer (sk c)"
  "txBufferSize (sk (tcpUpdateSendWindow h c)) = txBufferSize (sk c)"
  "rxBuffer (sk (tcpUpdateSendWindow h c)) = rxBuffer (sk c)"
  "rxBufferSize (sk (tcpUpdateSendWindow h c)) = rxBufferSize (sk c)"
  "retransmitQueue (sk (tcpUpdateSendWindow h c)) = retransmitQueue (sk c)"
  "retransmitTimer (sk (tcpUpdateSendWindow h c)) = retransmitTimer (sk c)"
  "retransmitCount (sk (tcpUpdateSendWindow h c)) = retransmitCount (sk c)"
  "synQueue (sk (tcpUpdateSendWindow h c)) = synQueue (sk c)"
  "synQueueSize (sk (tcpUpdateSendWindow h c)) = synQueueSize (sk c)"
  "overrideTimer (sk (tcpUpdateSendWindow h c)) = overrideTimer (sk c)"
  "finWait2Timer (sk (tcpUpdateSendWindow h c)) = finWait2Timer (sk c)"
  "timeWaitTimer (sk (tcpUpdateSendWindow h c)) = timeWaitTimer (sk c)"
  "sackBlock (sk (tcpUpdateSendWindow h c)) = sackBlock (sk c)"
  by (simp_all add: tcpUpdateSendWindow_def Let_def sk_start_timer)

lemma tcpUpdateReceiveWindow_frame [simp]:
  "descriptor (sk (tcpUpdateReceiveWindow c)) = descriptor (sk c)"
  "sk_type (sk (tcpUpdateReceiveWindow c)) = sk_type (sk c)"
  "protocol (sk (tcpUpdateReceiveWindow c)) = protocol (sk c)"
  "sk_interface (sk (tcpUpdateReceiveWindow c)) = sk_interface (sk c)"
  "localIpAddr (sk (tcpUpdateReceiveWindow c)) = localIpAddr (sk c)"
  "localPort (sk (tcpUpdateReceiveWindow c)) = localPort (sk c)"
  "remoteIpAddr (sk (tcpUpdateReceiveWindow c)) = remoteIpAddr (sk c)"
  "remotePort (sk (tcpUpdateReceiveWindow c)) = remotePort (sk c)"
  "sk_timeout (sk (tcpUpdateReceiveWindow c)) = sk_timeout (sk c)"
  "ttl (sk (tcpUpdateReceiveWindow c)) = ttl (sk c)" "event (sk (tcpUpdateReceiveWindow c)) = event (sk c)"
  "eventMask (sk (tcpUpdateReceiveWindow c)) = eventMask (sk c)"
  "eventFlags (sk (tcpUpdateReceiveWindow c)) = eventFlags (sk c)"
  "userEvent (sk (tcpUpdateReceiveWindow c)) = userEvent (sk c)"
  "sk_state (sk (tcpUpdateReceiveWindow c)) = sk_state (sk c)"
  "ownedFlag (sk (tcpUpdateReceiveWindow c)) = ownedFlag (sk c)"
  "closedFlag (sk (tcpUpdateReceiveWindow c)) = closedFlag (sk c)"
  "resetFlag (sk (tcpUpdateReceiveWindow c)) = resetFlag (sk c)"
  "smss (sk (tcpUpdateReceiveWindow c)) = smss (sk c)" "rmss (sk (tcpUpdateReceiveWindow c)) = rmss (sk c)"
  "iss (sk (tcpUpdateReceiveWindow c)) = iss (sk c)" "irs (sk (tcpUpdateReceiveWindow c)) = irs (sk c)"
  "sndUna (sk (tcpUpdateReceiveWindow c)) = sndUna (sk c)"
  "sndNxt (sk (tcpUpdateReceiveWindow c)) = sndNxt (sk c)"
  "sndUser (sk (tcpUpdateReceiveWindow c)) = sndUser (sk c)"
  "sndWnd (sk (tcpUpdateReceiveWindow c)) = sndWnd (sk c)"
  "maxSndWnd (sk (tcpUpdateReceiveWindow c)) = maxSndWnd (sk c)"
  "sndWl1 (sk (tcpUpdateReceiveWindow c)) = sndWl1 (sk c)"
  "sndWl2 (sk (tcpUpdateReceiveWindow c)) = sndWl2 (sk c)"
  "rcvNxt (sk (tcpUpdateReceiveWindow c)) = rcvNxt (sk c)"
  "rcvUser (sk (tcpUpdateReceiveWindow c)) = rcvUser (sk c)"
  "rttBusy (sk (tcpUpdateReceiveWindow c)) = rttBusy (sk c)"
  "rttSeqNum (sk (tcpUpdateReceiveWindow c)) = rttSeqNum (sk c)"
  "rttStartTime (sk (tcpUpdateReceiveWindow c)) = rttStartTime (sk c)"
  "srtt (sk (tcpUpdateReceiveWindow c)) = srtt (sk c)" "rttvar (sk (tcpUpdateReceiveWindow c)) = rttvar (sk c)"
  "rto (sk (tcpUpdateReceiveWindow c)) = rto (sk c)"
  "congestState (sk (tcpUpdateReceiveWindow c)) = congestState (sk c)"
  "cwnd (sk (tcpUpdateReceiveWindow c)) = cwnd (sk c)"
  "ssthresh (sk (tcpUpdateReceiveWindow c)) = ssthresh (sk c)"
  "dupAckCount (sk (tcpUpdateReceiveWindow c)) = dupAckCount (sk c)"
  "sk_n (sk (tcpUpdateReceiveWindow c)) = sk_n (sk c)"
  "recover (sk (tcpUpdateReceiveWindow c)) = recover (sk c)"
  "txBuffer (sk (tcpUpdateReceiveWindow c)) = txBuffer (sk c)"
  "txBufferSize (sk (tcpUpdateReceiveWindow c)) = txBufferSize (sk c)"
  "rxBuffer (sk (tcpUpdateReceiveWindow c)) = rxBuffer (sk c)"
  "rxBufferSize (sk (tcpUpdateReceiveWindow c)) = rxBufferSize (sk c)"
  "retransmitQueue (sk (tcpUpdateReceiveWindow c)) = retransmitQueue (sk c)"
  "retransmitTimer (sk (tcpUpdateReceiveWindow c)) = retransmitTimer (sk c)"
  "retransmitCount (sk (tcpUpdateReceiveWindow c)) = retransmitCount (sk c)"
  "synQueue (sk (tcpUpdateReceiveWindow c)) = synQueue (sk c)"
  "synQueueSize (sk (tcpUpdateReceiveWindow c)) = synQueueSize (sk c)"
  "wndProbeCount (sk (tcpUpdateReceiveWindow c)) = wndProbeCount (sk c)"
  "wndProbeInterval (sk (tcpUpdateReceiveWindow c)) = wndProbeInterval (sk c)"
  "persistTimer (sk (tcpUpdateReceiveWindow c)) = persistTimer (sk c)"
  "overrideTimer (sk (tcpUpdateReceiveWindow c)) = overrideTimer (sk c)"
  "finWait2Timer (sk (tcpUpdateReceiveWindow c)) = finWait2Timer (sk c)"
  "timeWaitTimer (sk (tcpUpdateReceiveWindow c)) = timeWaitTimer (sk c)"
  "sackBlock (sk (tcpUpdateReceiveWindow c)) = sackBlock (sk c)"
  by (simp_all add: tcpUpdateReceiveWindow_def Let_def)

lemma tcpComputeRto_frame [simp]:
  "descriptor (sk (snd (tcpComputeRto c))) = descriptor (sk c)"
  "sk_type (sk (snd (tcpComputeRto c))) = sk_type (sk c)"
  "protocol (sk (snd (tcpComputeRto c))) = protocol (sk c)"
  "sk_interface (sk (snd (tcpComputeRto c))) = sk_interface (sk c)"
  "localIpAddr (sk (snd (tcpComputeRto c))) = localIpAddr (sk c)"
  "localPort (sk (snd (tcpComputeRto c))) = localPort (sk c)"
  "remoteIpAddr (sk (snd (tcpComputeRto c))) = remoteIpAddr (sk c)"
  "remotePort (sk (snd (tcpComputeRto c))) = remotePort (sk c)"
  "sk_timeout (sk (snd (tcpComputeRto c))) = sk_timeout (sk c)" "ttl (sk (snd (tcpComputeRto c))) = ttl (sk c)"
  "event (sk (snd (tcpComputeRto c))) = event (sk c)"
  "eventMask (sk (snd (tcpComputeRto c))) = eventMask (sk c)"
  "eventFlags (sk (snd (tcpComputeRto c))) = eventFlags (sk c)"
  "userEvent (sk (snd (tcpComputeRto c))) = userEvent (sk c)"
  "sk_state (sk (snd (tcpComputeRto c))) = sk_state (sk c)"
  "ownedFlag (sk (snd (tcpComputeRto c))) = ownedFlag (sk c)"
  "closedFlag (sk (snd (tcpComputeRto c))) = closedFlag (sk c)"
  "resetFlag (sk (snd (tcpComputeRto c))) = resetFlag (sk c)" "smss (sk (snd (tcpComputeRto c))) = smss (sk c)"
  "rmss (sk (snd (tcpComputeRto c))) = rmss (sk c)" "iss (sk (snd (tcpComputeRto c))) = iss (sk c)"
  "irs (sk (snd (tcpComputeRto c))) = irs (sk c)" "sndUna (sk (snd (tcpComputeRto c))) = sndUna (sk c)"
  "sndNxt (sk (snd (tcpComputeRto c))) = sndNxt (sk c)" "sndUser (sk (snd (tcpComputeRto c))) = sndUser (sk c)"
  "sndWnd (sk (snd (tcpComputeRto c))) = sndWnd (sk c)"
  "maxSndWnd (sk (snd (tcpComputeRto c))) = maxSndWnd (sk c)"
  "sndWl1 (sk (snd (tcpComputeRto c))) = sndWl1 (sk c)" "sndWl2 (sk (snd (tcpComputeRto c))) = sndWl2 (sk c)"
  "rcvNxt (sk (snd (tcpComputeRto c))) = rcvNxt (sk c)" "rcvUser (sk (snd (tcpComputeRto c))) = rcvUser (sk c)"
  "rcvWnd (sk (snd (tcpComputeRto c))) = rcvWnd (sk c)"
  "rttSeqNum (sk (snd (tcpComputeRto c))) = rttSeqNum (sk c)"
  "rttStartTime (sk (snd (tcpComputeRto c))) = rttStartTime (sk c)"
  "congestState (sk (snd (tcpComputeRto c))) = congestState (sk c)"
  "cwnd (sk (snd (tcpComputeRto c))) = cwnd (sk c)" "ssthresh (sk (snd (tcpComputeRto c))) = ssthresh (sk c)"
  "dupAckCount (sk (snd (tcpComputeRto c))) = dupAckCount (sk c)"
  "sk_n (sk (snd (tcpComputeRto c))) = sk_n (sk c)" "recover (sk (snd (tcpComputeRto c))) = recover (sk c)"
  "txBuffer (sk (snd (tcpComputeRto c))) = txBuffer (sk c)"
  "txBufferSize (sk (snd (tcpComputeRto c))) = txBufferSize (sk c)"
  "rxBuffer (sk (snd (tcpComputeRto c))) = rxBuffer (sk c)"
  "rxBufferSize (sk (snd (tcpComputeRto c))) = rxBufferSize (sk c)"
  "retransmitQueue (sk (snd (tcpComputeRto c))) = retransmitQueue (sk c)"
  "retransmitTimer (sk (snd (tcpComputeRto c))) = retransmitTimer (sk c)"
  "retransmitCount (sk (snd (tcpComputeRto c))) = retransmitCount (sk c)"
  "synQueue (sk (snd (tcpComputeRto c))) = synQueue (sk c)"
  "synQueueSize (sk (snd (tcpComputeRto c))) = synQueueSize (sk c)"
  "wndProbeCount (sk (snd (tcpComputeRto c))) = wndProbeCount (sk c)"
  "wndProbeInterval (sk (snd (tcpComputeRto c))) = wndProbeInterval (sk c)"
  "persistTimer (sk (snd (tcpComputeRto c))) = persistTimer (sk c)"
  "overrideTimer (sk (snd (tcpComputeRto c))) = overrideTimer (sk c)"
  "finWait2Timer (sk (snd (tcpComputeRto c))) = finWait2Timer (sk c)"
  "timeWaitTimer (sk (snd (tcpComputeRto c))) = timeWaitTimer (sk c)"
  "sackBlock (sk (snd (tcpComputeRto c))) = sackBlock (sk c)"
  by (simp_all add: tcpComputeRto_def rto_measure_def Let_def split_beta)

section \<open>Acceptability\<close>

text \<open>\<open>x\<close> is one of the sequence numbers the receiver is willing to take.\<close>

definition in_window :: "Socket \<Rightarrow> u32 \<Rightarrow> bool" where
  "in_window s x \<longleftrightarrow> unat (x - rcvNxt s) < unat (rcvWnd s)"

lemma seq_window:
  fixes x a :: u32 and w :: u16
  shows "TCP_CMP_SEQ x a \<ge> 0 \<and> TCP_CMP_SEQ x (a + ucast w) < 0 \<longleftrightarrow> unat (x - a) < unat w"
proof -
  have "x - (a + ucast w) = (x - a) - ucast w" by simp
  then have "unat (x - (a + ucast w)) =
      (if unat w \<le> unat (x - a) then unat (x - a) - unat w else unat (x - a) + 4294967296 - unat w)"
    by (simp only: unat_diff_u32 unat_ucast_16_32)
  then show ?thesis
    using u16_bound [of w] u32_bound [of "x - a"]
    by (auto simp: TCP_CMP_SEQ_def sint_nonneg_iff not_le [symmetric])
qed

lemma acceptable_window:
  "acceptable s h len \<longleftrightarrow>
     (if rcvWnd s = 0 then len = 0 \<and> seqNum h = rcvNxt s
      else in_window s (seqNum h) \<or> len \<noteq> 0 \<and> in_window s (seqNum h + len - 1))"
  by (auto simp: acceptable_def seq_window in_window_def)

section \<open>The receive window\<close>

text \<open>What is buffered and what is offered to the peer fit into the receive buffer.\<close>

definition rcv_inv :: "Socket \<Rightarrow> bool" where
  "rcv_inv s \<longleftrightarrow> unat (rcvUser s) + unat (rcvWnd s) \<le> unat (rxBufferSize s) \<and> rxBufferSize s \<le> TCP_MAX_RX_BUFFER_SIZE"

lemma rcv_reduction:
  assumes "rcv_inv s"
  shows "unat (ucast (rxBufferSize s - ucast (rcvUser s) - ucast (rcvWnd s)) :: u16)
    = unat (rxBufferSize s) - unat (rcvUser s) - unat (rcvWnd s)"
proof -
  have "unat (rxBufferSize s - ucast (rcvUser s) - ucast (rcvWnd s))
      = unat (rxBufferSize s) - unat (rcvUser s) - unat (rcvWnd s)"
    using assms by (auto simp: rcv_inv_def unat_diff_u32)
  moreover have "unat (rxBufferSize s) - unat (rcvUser s) - unat (rcvWnd s) < 65536"
    using assms by (auto simp: rcv_inv_def word_le_nat_alt)
  ultimately show ?thesis by (simp add: unat_ucast_32_16)
qed

lemma tcpUpdateReceiveWindow_wnd:
  assumes "rcv_inv (sk c)"
  shows "rcvWnd (sk (tcpUpdateReceiveWindow c)) = rcvWnd (sk c) \<or>
     unat (rcvWnd (sk (tcpUpdateReceiveWindow c))) = unat (rxBufferSize (sk c)) - unat (rcvUser (sk c))"
proof -
  let ?s = "sk c"
  let ?r = "ucast (rxBufferSize ?s - ucast (rcvUser ?s) - ucast (rcvWnd ?s)) :: u16"
  have "unat (rcvWnd ?s + ?r) = unat (rxBufferSize ?s) - unat (rcvUser ?s)"
    using assms rcv_reduction [OF assms]
    by (subst unat_add_nowrap) (auto simp: rcv_inv_def word_le_nat_alt)
  moreover have "rcvWnd (sk (tcpUpdateReceiveWindow c)) \<in> {rcvWnd ?s, rcvWnd ?s + ?r}"
    by (simp add: tcpUpdateReceiveWindow_def Let_def)
  ultimately show ?thesis by auto
qed

lemma tcpUpdateReceiveWindow_inv: "rcv_inv (sk c) \<Longrightarrow> rcv_inv (sk (tcpUpdateReceiveWindow c))"
  using tcpUpdateReceiveWindow_wnd [of c] by (auto simp: rcv_inv_def)

section \<open>The retransmission timeout\<close>

lemma rto_measure_bounds: "TCP_MIN_RTO \<le> rto (rto_measure r s)" "rto (rto_measure r s) \<le> TCP_MAX_RTO"
  by (simp_all add: rto_measure_def Let_def split_beta)

lemma tcpComputeRto_bounds:
  "TCP_MIN_RTO \<le> rto (sk c) \<Longrightarrow> TCP_MIN_RTO \<le> rto (sk (snd (tcpComputeRto c)))"
  "rto (sk c) \<le> TCP_MAX_RTO \<Longrightarrow> rto (sk (snd (tcpComputeRto c))) \<le> TCP_MAX_RTO"
  by (simp_all add: tcpComputeRto_def rto_measure_bounds split_beta)

section \<open>Duplicate connection requests\<close>

lemma duplicateSyn_loop_iff: "duplicateSyn_loop ph h qs flag \<longleftrightarrow> flag \<or> (\<exists>q \<in> set qs. matchesSyn ph h q)"
  by (induction qs arbitrary: flag) auto

lemma tcpIsDuplicateSyn_iff: "tcpIsDuplicateSyn s ph h \<longleftrightarrow> (\<exists>q \<in> set (synQueue s). matchesSyn ph h q)"
  by (simp add: tcpIsDuplicateSyn_def duplicateSyn_loop_iff)

section \<open>Blocks received out of order\<close>

text \<open>
  The sequence numbers of a list of blocks, as natural numbers. While the numbers involved do not
  straddle the wrap-around (\<open>no_wrap\<close>), merging keeps exactly the set of received numbers.
\<close>

definition span :: "u32 \<Rightarrow> u32 \<Rightarrow> nat set" where
  "span l r = {unat l ..< unat r}"

definition blocks_span :: "TcpSackBlock list \<Rightarrow> nat set" where
  "blocks_span bs = (\<Union>b \<in> set bs. span (leftEdge b) (rightEdge b))"

definition no_wrap :: "nat \<Rightarrow> u32 \<Rightarrow> u32 \<Rightarrow> TcpSackBlock list \<Rightarrow> bool" where
  "no_wrap m l r bs \<longleftrightarrow> m \<le> unat l \<and> unat l \<le> unat r \<and> unat r < m + 2147483648 \<and>
     (\<forall>b \<in> set bs. m \<le> unat (leftEdge b) \<and> unat (leftEdge b) \<le> unat (rightEdge b) \<and>
        unat (rightEdge b) < m + 2147483648)"

lemma seq_ge_iff:
  assumes "m \<le> unat a" "unat a < m + 2147483648" "m \<le> unat b" "unat b < m + 2147483648"
  shows "TCP_CMP_SEQ a b \<ge> 0 \<longleftrightarrow> unat b \<le> unat a" and "TCP_CMP_SEQ a b \<le> 0 \<longleftrightarrow> unat a \<le> unat b"
    and "TCP_CMP_SEQ a b > 0 \<longleftrightarrow> unat b < unat a"
proof -
  note d = unat_diff_u32 [of a b] u32_bound [of a] u32_bound [of b]
  show ge: "TCP_CMP_SEQ a b \<ge> 0 \<longleftrightarrow> unat b \<le> unat a"
    using assms d unfolding TCP_CMP_SEQ_def sint_nonneg_iff by (auto split: if_splits)
  show gt: "TCP_CMP_SEQ a b > 0 \<longleftrightarrow> unat b < unat a"
    using assms d unfolding TCP_CMP_SEQ_def sint_pos_iff by (auto split: if_splits)
  show "TCP_CMP_SEQ a b \<le> 0 \<longleftrightarrow> unat a \<le> unat b"
    using gt by linarith
qed

lemma span_join:
  assumes "unat l \<le> unat r" "unat l' \<le> unat r'" "unat l' \<le> unat r" "unat l \<le> unat r'"
  shows "span (min l l') (max r r') = span l r \<union> span l' r'"
  using assms by (auto simp: span_def min_def max_def word_le_nat_alt)

lemma sack_merge_span:
  assumes "no_wrap m l r bs" and "sack_merge bs l r = (l', r', bs')"
  shows "span l' r' \<union> blocks_span bs' = span l r \<union> blocks_span bs \<and> no_wrap m l' r' bs'
    \<and> length bs' \<le> length bs"
  using assms
proof (induction bs arbitrary: l r l' r' bs')
  case (Cons b bs)
  let ?touch = "TCP_CMP_SEQ r (leftEdge b) \<ge> 0 \<and> TCP_CMP_SEQ l (rightEdge b) \<le> 0"
  have e: "?touch \<longleftrightarrow> unat (leftEdge b) \<le> unat r \<and> unat l \<le> unat (rightEdge b)"
    using Cons.prems(1) by (auto simp: no_wrap_def seq_ge_iff [of m])
  show ?case
  proof (cases ?touch)
    case True
    have "no_wrap m (min l (leftEdge b)) (max r (rightEdge b)) bs"
      using Cons.prems(1) True e by (auto simp: no_wrap_def min_def max_def)
    moreover have "sack_merge bs (min l (leftEdge b)) (max r (rightEdge b)) = (l', r', bs')"
      using Cons.prems(2) True by simp
    moreover have "span (min l (leftEdge b)) (max r (rightEdge b)) = span l r \<union> span (leftEdge b) (rightEdge b)"
      using Cons.prems(1) True e by (intro span_join) (auto simp: no_wrap_def)
    ultimately show ?thesis using Cons.IH by (fastforce simp: blocks_span_def)
  next
    case False
    then obtain bs2 where b2: "sack_merge bs l r = (l', r', bs2)" "bs' = b # bs2"
      using Cons.prems(2) by (auto simp: split_beta prod_eq_iff simp del: not_less not_le)
    moreover have "no_wrap m l r bs" using Cons.prems(1) by (simp add: no_wrap_def)
    ultimately show ?thesis using Cons.IH [of l r l' r' bs2] Cons.prems(1)
      by (auto simp: blocks_span_def no_wrap_def)
  qed
qed (simp add: no_wrap_def)

lemma tcpUpdateSackBlocks_length:
  "length (sackBlock s) \<le> TCP_MAX_SACK_BLOCKS \<Longrightarrow>
   length (sackBlock (snd (snd (tcpUpdateSackBlocks s l r)))) \<le> TCP_MAX_SACK_BLOCKS"
proof -
  have "length (snd (snd (sack_merge bs l r))) \<le> length bs" for bs
    by (induction bs arbitrary: l r) (auto simp: split_beta le_SucI)
  from this [of "sackBlock s"] show "length (sackBlock s) \<le> TCP_MAX_SACK_BLOCKS \<Longrightarrow> ?thesis"
    by (simp add: tcpUpdateSackBlocks_def split_beta)
qed

end
