(* ===== verification/Tcp_Retransmit.thy ===== *)
theory Tcp_Retransmit
  imports Tcp_Window
begin

text \<open>
  The retransmission queue (\<open>core/tcp_misc.c\<close>): removing acknowledged segments, flushing the
  queues, retransmitting, and releasing the control block. The queue is the list of its items in
  order; the loops that unlink items from the C list are recursions that carry the items kept so
  far.
\<close>

section \<open>The implementation\<close>

text \<open>The sequence space a queued segment occupies, and whether \<open>SND.UNA\<close> covers it.\<close>

definition qi_space :: "TcpQueueItem \<Rightarrow> u32" where
  "qi_space q =
     (if has_flag (hdr_flags (qiHeader q)) TCP_FLAG_SYN then 1
      else if has_flag (hdr_flags (qiHeader q)) TCP_FLAG_FIN then qiLength q + 1
      else qiLength q)"

definition qi_acked :: "u32 \<Rightarrow> TcpQueueItem \<Rightarrow> bool" where
  "qi_acked una q \<longleftrightarrow> TCP_CMP_SEQ una (hdr_seqNum (qiHeader q) + qi_space q) \<ge> 0"

fun updateRetransmit_loop :: "TcpQueueItem list \<Rightarrow> TcpQueueItem list \<Rightarrow> conn \<Rightarrow> conn" where
  "updateRetransmit_loop kept [] c = c"
| "updateRetransmit_loop kept (q # qs) c =
     (if qi_acked (sndUna (sk c)) q then
        let c = upd (\<lambda>s. s\<lparr>retransmitQueue := kept @ qs\<rparr>) c;
            c = c\<lparr>cx := heapFree (qiAddress q) (cx c)\<rparr>;
            c = start_timer retransmitTimer retransmitTimer_update (rto (sk c)) c;
            c = upd (\<lambda>s. s\<lparr>retransmitCount := 0\<rparr>) c
        in updateRetransmit_loop kept qs c
      else updateRetransmit_loop (kept @ [q]) qs c)"

definition tcpUpdateRetransmitQueue :: "conn \<Rightarrow> conn" where
  "tcpUpdateRetransmitQueue c =
     (let c = updateRetransmit_loop [] (retransmitQueue (sk c)) c
      in if retransmitQueue (sk c) = [] then upd (retransmitTimer_update tcpTimerStop) c else c)"

definition tcpFlushRetransmitQueue :: "conn \<Rightarrow> conn" where
  "tcpFlushRetransmitQueue c =
     (let c = c\<lparr>cx := fold (\<lambda>q. heapFree (qiAddress q)) (retransmitQueue (sk c)) (cx c)\<rparr>
      in upd (\<lambda>s. s\<lparr>retransmitQueue := [], retransmitTimer := tcpTimerStop (retransmitTimer s)\<rparr>) c)"

definition tcpFlushSynQueue :: "conn \<Rightarrow> conn" where
  "tcpFlushSynQueue c =
     (let c = c\<lparr>cx := fold (\<lambda>q. heapFree (sqAddress q)) (synQueue (sk c)) (cx c)\<rparr>
      in upd (\<lambda>s. s\<lparr>synQueue := []\<rparr>) c)"

definition tcpDeleteControlBlock :: "conn \<Rightarrow> conn" where
  "tcpDeleteControlBlock c =
     (let c = tcpFlushSynQueue (tcpFlushRetransmitQueue c);
          (_, x, b) = bufSetLength (cx c) (txBuffer (sk c)) 0;
          c = upd (\<lambda>s. s\<lparr>txBuffer := b\<rparr>) (c\<lparr>cx := x\<rparr>);
          (_, x, b) = bufSetLength (cx c) (rxBuffer (sk c)) 0
      in upd (\<lambda>s. s\<lparr>rxBuffer := b\<rparr>) (c\<lparr>cx := x\<rparr>))"

text \<open>One segment of the queue, sent again from the saved header and the send buffer.\<close>

definition resendItem :: "Socket \<Rightarrow> TcpQueueItem \<Rightarrow> ctx \<Rightarrow> error_t \<times> ctx" where
  "resendItem s q x =
     (case ipAllocBuffer x 0 of
        (None, x) \<Rightarrow> (ERROR_OUT_OF_MEMORY, x)
      | (Some (a, b, off), x) \<Rightarrow>
          (let (error, b) = netBufferAppend b (qiAddress q) (qiHeader q) (unat (hdr_dataOffset (qiHeader q)) * 4)
           in if error \<noteq> NO_ERROR then (error, bufFree x a b)
              else
                let (error, b) = tcpReadTxBuffer s (hdr_seqNum (qiHeader q)) b (qiLength q)
                in if error \<noteq> NO_ERROR then (error, bufFree x a b)
                   else
                     let (error, x) = ipSendDatagram x (sk_interface s) (qiPseudoHeader q) b off (ttl_option (ttl s))
                     in (error, bufFree x a b)))"

fun retransmit_loop :: "Socket \<Rightarrow> u32 \<Rightarrow> TcpQueueItem list \<Rightarrow> ctx \<Rightarrow> error_t \<times> ctx" where
  "retransmit_loop s len [] x = (NO_ERROR, x)"
| "retransmit_loop s len (q # qs) x =
     (if len + qiLength q > ucast (smss s) then (NO_ERROR, x)
      else case resendItem s q x of
        (error, x) \<Rightarrow> if error \<noteq> NO_ERROR then (error, x) else retransmit_loop s (len + qiLength q) qs x)"

definition tcpRetransmitSegment :: "conn \<Rightarrow> error_t \<times> conn" where
  "tcpRetransmitSegment c =
     (let (error, x) = retransmit_loop (sk c) 0 (retransmitQueue (sk c)) (cx c) in (error, c\<lparr>cx := x\<rparr>))"

section \<open>Frame\<close>

lemma tcpRetransmitSegment_sk [simp]: "sk (snd (tcpRetransmitSegment c)) = sk c"
  by (simp add: tcpRetransmitSegment_def split_beta)

text \<open>The loop changes the queue, the timer and the retry counter only.\<close>

lemma updateRetransmit_loop_sk:
  "\<exists>q t n. sk (updateRetransmit_loop kept qs c) = (sk c)\<lparr>retransmitQueue := q, retransmitTimer := t, retransmitCount := n\<rparr>"
proof (induction kept qs c rule: updateRetransmit_loop.induct)
  case (1 kept c)
  show ?case by (intro exI [of _ "retransmitQueue (sk c)"] exI [of _ "retransmitTimer (sk c)"]
        exI [of _ "retransmitCount (sk c)"]) simp
next
  case (2 kept q qs c)
  show ?case
  proof (cases "qi_acked (sndUna (sk c)) q")
    case True
    with 2(1) [OF True refl refl refl refl] show ?thesis by (auto simp: Let_def sk_start_timer)
  qed (use 2 in simp)
qed

lemma tcpUpdateRetransmitQueue_sk:
  "\<exists>q t n. sk (tcpUpdateRetransmitQueue c) = (sk c)\<lparr>retransmitQueue := q, retransmitTimer := t, retransmitCount := n\<rparr>"
proof -
  obtain q t n where "sk (updateRetransmit_loop [] (retransmitQueue (sk c)) c)
      = (sk c)\<lparr>retransmitQueue := q, retransmitTimer := t, retransmitCount := n\<rparr>"
    using updateRetransmit_loop_sk by blast
  then have "sk (tcpUpdateRetransmitQueue c)
      = (sk c)\<lparr>retransmitQueue := q, retransmitTimer := if q = [] then tcpTimerStop t else t, retransmitCount := n\<rparr>"
    by (simp add: tcpUpdateRetransmitQueue_def Let_def)
  then show ?thesis by blast
qed

lemma tcpUpdateRetransmitQueue_cases:
  "(\<And>q t n. P ((sk c)\<lparr>retransmitQueue := q, retransmitTimer := t, retransmitCount := n\<rparr>)) \<Longrightarrow>
   P (sk (tcpUpdateRetransmitQueue c))"
  using tcpUpdateRetransmitQueue_sk [of c] by metis

lemma tcpUpdateRetransmitQueue_frame [simp]:
  "descriptor (sk (tcpUpdateRetransmitQueue c)) = descriptor (sk c)"
  "sk_type (sk (tcpUpdateRetransmitQueue c)) = sk_type (sk c)"
  "protocol (sk (tcpUpdateRetransmitQueue c)) = protocol (sk c)"
  "sk_interface (sk (tcpUpdateRetransmitQueue c)) = sk_interface (sk c)"
  "localIpAddr (sk (tcpUpdateRetransmitQueue c)) = localIpAddr (sk c)"
  "localPort (sk (tcpUpdateRetransmitQueue c)) = localPort (sk c)"
  "remoteIpAddr (sk (tcpUpdateRetransmitQueue c)) = remoteIpAddr (sk c)"
  "remotePort (sk (tcpUpdateRetransmitQueue c)) = remotePort (sk c)"
  "sk_timeout (sk (tcpUpdateRetransmitQueue c)) = sk_timeout (sk c)"
  "ttl (sk (tcpUpdateRetransmitQueue c)) = ttl (sk c)" "event (sk (tcpUpdateRetransmitQueue c)) = event (sk c)"
  "eventMask (sk (tcpUpdateRetransmitQueue c)) = eventMask (sk c)"
  "eventFlags (sk (tcpUpdateRetransmitQueue c)) = eventFlags (sk c)"
  "userEvent (sk (tcpUpdateRetransmitQueue c)) = userEvent (sk c)"
  "sk_state (sk (tcpUpdateRetransmitQueue c)) = sk_state (sk c)"
  "ownedFlag (sk (tcpUpdateRetransmitQueue c)) = ownedFlag (sk c)"
  "closedFlag (sk (tcpUpdateRetransmitQueue c)) = closedFlag (sk c)"
  "resetFlag (sk (tcpUpdateRetransmitQueue c)) = resetFlag (sk c)"
  "smss (sk (tcpUpdateRetransmitQueue c)) = smss (sk c)" "rmss (sk (tcpUpdateRetransmitQueue c)) = rmss (sk c)"
  "iss (sk (tcpUpdateRetransmitQueue c)) = iss (sk c)" "irs (sk (tcpUpdateRetransmitQueue c)) = irs (sk c)"
  "sndUna (sk (tcpUpdateRetransmitQueue c)) = sndUna (sk c)"
  "sndNxt (sk (tcpUpdateRetransmitQueue c)) = sndNxt (sk c)"
  "sndUser (sk (tcpUpdateRetransmitQueue c)) = sndUser (sk c)"
  "sndWnd (sk (tcpUpdateRetransmitQueue c)) = sndWnd (sk c)"
  "maxSndWnd (sk (tcpUpdateRetransmitQueue c)) = maxSndWnd (sk c)"
  "sndWl1 (sk (tcpUpdateRetransmitQueue c)) = sndWl1 (sk c)"
  "sndWl2 (sk (tcpUpdateRetransmitQueue c)) = sndWl2 (sk c)"
  "rcvNxt (sk (tcpUpdateRetransmitQueue c)) = rcvNxt (sk c)"
  "rcvUser (sk (tcpUpdateRetransmitQueue c)) = rcvUser (sk c)"
  "rcvWnd (sk (tcpUpdateRetransmitQueue c)) = rcvWnd (sk c)"
  "rttBusy (sk (tcpUpdateRetransmitQueue c)) = rttBusy (sk c)"
  "rttSeqNum (sk (tcpUpdateRetransmitQueue c)) = rttSeqNum (sk c)"
  "rttStartTime (sk (tcpUpdateRetransmitQueue c)) = rttStartTime (sk c)"
  "srtt (sk (tcpUpdateRetransmitQueue c)) = srtt (sk c)"
  "rttvar (sk (tcpUpdateRetransmitQueue c)) = rttvar (sk c)"
  "rto (sk (tcpUpdateRetransmitQueue c)) = rto (sk c)"
  "congestState (sk (tcpUpdateRetransmitQueue c)) = congestState (sk c)"
  "cwnd (sk (tcpUpdateRetransmitQueue c)) = cwnd (sk c)"
  "ssthresh (sk (tcpUpdateRetransmitQueue c)) = ssthresh (sk c)"
  "dupAckCount (sk (tcpUpdateRetransmitQueue c)) = dupAckCount (sk c)"
  "sk_n (sk (tcpUpdateRetransmitQueue c)) = sk_n (sk c)"
  "recover (sk (tcpUpdateRetransmitQueue c)) = recover (sk c)"
  "txBuffer (sk (tcpUpdateRetransmitQueue c)) = txBuffer (sk c)"
  "txBufferSize (sk (tcpUpdateRetransmitQueue c)) = txBufferSize (sk c)"
  "rxBuffer (sk (tcpUpdateRetransmitQueue c)) = rxBuffer (sk c)"
  "rxBufferSize (sk (tcpUpdateRetransmitQueue c)) = rxBufferSize (sk c)"
  "synQueue (sk (tcpUpdateRetransmitQueue c)) = synQueue (sk c)"
  "synQueueSize (sk (tcpUpdateRetransmitQueue c)) = synQueueSize (sk c)"
  "wndProbeCount (sk (tcpUpdateRetransmitQueue c)) = wndProbeCount (sk c)"
  "wndProbeInterval (sk (tcpUpdateRetransmitQueue c)) = wndProbeInterval (sk c)"
  "persistTimer (sk (tcpUpdateRetransmitQueue c)) = persistTimer (sk c)"
  "overrideTimer (sk (tcpUpdateRetransmitQueue c)) = overrideTimer (sk c)"
  "finWait2Timer (sk (tcpUpdateRetransmitQueue c)) = finWait2Timer (sk c)"
  "timeWaitTimer (sk (tcpUpdateRetransmitQueue c)) = timeWaitTimer (sk c)"
  "sackBlock (sk (tcpUpdateRetransmitQueue c)) = sackBlock (sk c)"
  by (rule tcpUpdateRetransmitQueue_cases; simp)+

lemma tcpDeleteControlBlock_frame [simp]:
  "descriptor (sk (tcpDeleteControlBlock c)) = descriptor (sk c)"
  "sk_type (sk (tcpDeleteControlBlock c)) = sk_type (sk c)"
  "protocol (sk (tcpDeleteControlBlock c)) = protocol (sk c)"
  "sk_interface (sk (tcpDeleteControlBlock c)) = sk_interface (sk c)"
  "localIpAddr (sk (tcpDeleteControlBlock c)) = localIpAddr (sk c)"
  "localPort (sk (tcpDeleteControlBlock c)) = localPort (sk c)"
  "remoteIpAddr (sk (tcpDeleteControlBlock c)) = remoteIpAddr (sk c)"
  "remotePort (sk (tcpDeleteControlBlock c)) = remotePort (sk c)"
  "sk_timeout (sk (tcpDeleteControlBlock c)) = sk_timeout (sk c)"
  "ttl (sk (tcpDeleteControlBlock c)) = ttl (sk c)" "event (sk (tcpDeleteControlBlock c)) = event (sk c)"
  "eventMask (sk (tcpDeleteControlBlock c)) = eventMask (sk c)"
  "eventFlags (sk (tcpDeleteControlBlock c)) = eventFlags (sk c)"
  "userEvent (sk (tcpDeleteControlBlock c)) = userEvent (sk c)"
  "sk_state (sk (tcpDeleteControlBlock c)) = sk_state (sk c)"
  "ownedFlag (sk (tcpDeleteControlBlock c)) = ownedFlag (sk c)"
  "closedFlag (sk (tcpDeleteControlBlock c)) = closedFlag (sk c)"
  "resetFlag (sk (tcpDeleteControlBlock c)) = resetFlag (sk c)"
  "smss (sk (tcpDeleteControlBlock c)) = smss (sk c)" "rmss (sk (tcpDeleteControlBlock c)) = rmss (sk c)"
  "iss (sk (tcpDeleteControlBlock c)) = iss (sk c)" "irs (sk (tcpDeleteControlBlock c)) = irs (sk c)"
  "sndUna (sk (tcpDeleteControlBlock c)) = sndUna (sk c)"
  "sndNxt (sk (tcpDeleteControlBlock c)) = sndNxt (sk c)"
  "sndUser (sk (tcpDeleteControlBlock c)) = sndUser (sk c)"
  "sndWnd (sk (tcpDeleteControlBlock c)) = sndWnd (sk c)"
  "maxSndWnd (sk (tcpDeleteControlBlock c)) = maxSndWnd (sk c)"
  "sndWl1 (sk (tcpDeleteControlBlock c)) = sndWl1 (sk c)"
  "sndWl2 (sk (tcpDeleteControlBlock c)) = sndWl2 (sk c)"
  "rcvNxt (sk (tcpDeleteControlBlock c)) = rcvNxt (sk c)"
  "rcvUser (sk (tcpDeleteControlBlock c)) = rcvUser (sk c)"
  "rcvWnd (sk (tcpDeleteControlBlock c)) = rcvWnd (sk c)"
  "rttBusy (sk (tcpDeleteControlBlock c)) = rttBusy (sk c)"
  "rttSeqNum (sk (tcpDeleteControlBlock c)) = rttSeqNum (sk c)"
  "rttStartTime (sk (tcpDeleteControlBlock c)) = rttStartTime (sk c)"
  "srtt (sk (tcpDeleteControlBlock c)) = srtt (sk c)" "rttvar (sk (tcpDeleteControlBlock c)) = rttvar (sk c)"
  "rto (sk (tcpDeleteControlBlock c)) = rto (sk c)"
  "congestState (sk (tcpDeleteControlBlock c)) = congestState (sk c)"
  "cwnd (sk (tcpDeleteControlBlock c)) = cwnd (sk c)"
  "ssthresh (sk (tcpDeleteControlBlock c)) = ssthresh (sk c)"
  "dupAckCount (sk (tcpDeleteControlBlock c)) = dupAckCount (sk c)"
  "sk_n (sk (tcpDeleteControlBlock c)) = sk_n (sk c)" "recover (sk (tcpDeleteControlBlock c)) = recover (sk c)"
  "txBufferSize (sk (tcpDeleteControlBlock c)) = txBufferSize (sk c)"
  "rxBufferSize (sk (tcpDeleteControlBlock c)) = rxBufferSize (sk c)"
  "retransmitCount (sk (tcpDeleteControlBlock c)) = retransmitCount (sk c)"
  "synQueueSize (sk (tcpDeleteControlBlock c)) = synQueueSize (sk c)"
  "wndProbeCount (sk (tcpDeleteControlBlock c)) = wndProbeCount (sk c)"
  "wndProbeInterval (sk (tcpDeleteControlBlock c)) = wndProbeInterval (sk c)"
  "persistTimer (sk (tcpDeleteControlBlock c)) = persistTimer (sk c)"
  "overrideTimer (sk (tcpDeleteControlBlock c)) = overrideTimer (sk c)"
  "finWait2Timer (sk (tcpDeleteControlBlock c)) = finWait2Timer (sk c)"
  "timeWaitTimer (sk (tcpDeleteControlBlock c)) = timeWaitTimer (sk c)"
  "sackBlock (sk (tcpDeleteControlBlock c)) = sackBlock (sk c)"
  by (simp_all add: tcpDeleteControlBlock_def tcpFlushRetransmitQueue_def tcpFlushSynQueue_def Let_def split_beta)

section \<open>The queue after an acknowledgment\<close>

lemma updateRetransmit_loop_queue:
  "retransmitQueue (sk c) = kept @ qs \<Longrightarrow>
   retransmitQueue (sk (updateRetransmit_loop kept qs c)) = kept @ filter (\<lambda>q. \<not> qi_acked (sndUna (sk c)) q) qs"
proof (induction kept qs c rule: updateRetransmit_loop.induct)
  case (2 kept q qs c)
  show ?case
  proof (cases "qi_acked (sndUna (sk c)) q")
    case True
    with 2(1) [OF True refl refl refl refl] show ?thesis by (simp add: Let_def sk_start_timer)
  qed (use 2 in simp)
qed simp

lemma updateRetransmit_loop_live:
  "live (cx (updateRetransmit_loop kept qs c)) =
     fold remove1 (map qiAddress (filter (qi_acked (sndUna (sk c))) qs)) (live (cx c))"
proof (induction kept qs c rule: updateRetransmit_loop.induct)
  case (2 kept q qs c)
  show ?case
  proof (cases "qi_acked (sndUna (sk c)) q")
    case True
    with 2(1) [OF True refl refl refl refl] show ?thesis
      by (simp add: Let_def sk_start_timer heapFree_def)
  qed (use 2 in simp)
qed simp

lemma tcpUpdateRetransmitQueue_queue:
  "retransmitQueue (sk (tcpUpdateRetransmitQueue c)) =
     filter (\<lambda>q. \<not> qi_acked (sndUna (sk c)) q) (retransmitQueue (sk c))"
  using updateRetransmit_loop_queue [of c "[]" "retransmitQueue (sk c)"]
  by (simp add: tcpUpdateRetransmitQueue_def Let_def)

text \<open>The timer is stopped when nothing is outstanding, and restarted when something was acknowledged.\<close>

lemma tcpUpdateRetransmitQueue_empty:
  "retransmitQueue (sk (tcpUpdateRetransmitQueue c)) = [] \<Longrightarrow> \<not> running (retransmitTimer (sk (tcpUpdateRetransmitQueue c)))"
  by (simp add: tcpUpdateRetransmitQueue_def Let_def tcpTimerStop_def split: if_splits)

lemma tcpDeleteControlBlock_empty [simp]:
  "retransmitQueue (sk (tcpDeleteControlBlock c)) = []" "synQueue (sk (tcpDeleteControlBlock c)) = []"
  "nb_bytes (txBuffer (sk (tcpDeleteControlBlock c))) = []" "nb_bytes (rxBuffer (sk (tcpDeleteControlBlock c))) = []"
  "\<not> running (retransmitTimer (sk (tcpDeleteControlBlock c)))"
  by (simp_all add: tcpDeleteControlBlock_def tcpFlushRetransmitQueue_def tcpFlushSynQueue_def Let_def
      split_beta bufSetLength_def netBufferSetLength_0 nb_bytes_def tcpTimerStop_def)

end
