(* ===== verification/Tcp_Ack.thy ===== *)
theory Tcp_Ack
  imports Tcp_Retransmit
begin

text \<open>
  Acknowledgments and congestion control (\<open>core/tcp_misc.c\<close>): \<open>tcpCheckAck\<close> with fast
  retransmit, fast recovery and loss recovery (RFC 5681, RFC 6582, RFC 5827), and
  \<open>tcpProcessSegmentData\<close>, which takes the data of a segment into the receive buffer.
  Windows are 16-bit words; every narrowing assignment of the code is a \<open>ucast\<close> here.
\<close>

section \<open>Congestion control\<close>

definition tcpFastRetransmit :: "conn \<Rightarrow> conn" where
  "tcpFastRetransmit c =
     (let flightSize = sndNxt (sk c) - sndUna (sk c);
          c = upd (\<lambda>s. s\<lparr>ssthresh := ucast (max (flightSize div 2) (2 * ucast (smss s))),
                         recover := sndNxt s - 1\<rparr>) c;
          c = snd (tcpRetransmitSegment c)
      in upd (\<lambda>s. s\<lparr>cwnd := ucast (ucast (ssthresh s) + TCP_FAST_RETRANSMIT_THRES * ucast (smss s)),
                    congestState := TCP_CONGEST_STATE_RECOVERY\<rparr>) c)"

definition tcpFastRecovery :: "TcpHeader \<Rightarrow> u32 \<Rightarrow> conn \<Rightarrow> conn" where
  "tcpFastRecovery h n c =
     (if TCP_CMP_SEQ (ackNum h) (recover (sk c)) > 0 then
        upd (\<lambda>s. s\<lparr>cwnd := ssthresh s, congestState := TCP_CONGEST_STATE_IDLE\<rparr>) c
      else
        let c = snd (tcpRetransmitSegment c);
            c = (if ucast (cwnd (sk c)) > n
                 then upd (\<lambda>s. s\<lparr>cwnd := ucast (ucast (cwnd s) - n)\<rparr>) c else c);
            c = (if n \<ge> ucast (smss (sk c))
                 then upd (\<lambda>s. s\<lparr>cwnd := cwnd s + smss s\<rparr>) c else c)
        in upd (\<lambda>s. s\<lparr>congestState := TCP_CONGEST_STATE_RECOVERY\<rparr>) c)"

definition tcpFastLossRecovery :: "TcpHeader \<Rightarrow> conn \<Rightarrow> conn" where
  "tcpFastLossRecovery h c =
     (if TCP_CMP_SEQ (ackNum h) (recover (sk c)) > 0 then
        upd (\<lambda>s. s\<lparr>congestState := TCP_CONGEST_STATE_IDLE\<rparr>) c
      else
        upd (\<lambda>s. s\<lparr>congestState := TCP_CONGEST_STATE_LOSS_RECOVERY\<rparr>) (snd (tcpRetransmitSegment c)))"

text \<open>The congestion window never exceeds the send buffer.\<close>

definition limit_cwnd :: "Socket \<Rightarrow> Socket" where
  "limit_cwnd s = s\<lparr>cwnd := ucast (min (ucast (cwnd s)) (txBufferSize s))\<rparr>"

section \<open>Acknowledgments\<close>

text \<open>Slow start below \<open>ssthresh\<close>, congestion avoidance above it.\<close>

definition grow_cwnd :: "u32 \<Rightarrow> bool \<Rightarrow> Socket \<Rightarrow> Socket" where
  "grow_cwnd n updateFlag s =
     (if cwnd s < ssthresh s then s\<lparr>cwnd := ucast (ucast (cwnd s) + min n (ucast (smss s)))\<rparr>
      else if updateFlag then s\<lparr>cwnd := ucast (ucast (cwnd s) + min (sk_n s) (ucast (smss s)))\<rparr>
      else s)"

text \<open>The acknowledgment covers new data.\<close>

definition ackNewData :: "TcpHeader \<Rightarrow> conn \<Rightarrow> conn" where
  "ackNewData h c =
     (let n = ackNum h - sndUna (sk c);
          n = (if sndUna (sk c) = iss (sk c) then n - 1 else n);
          c = upd (\<lambda>s. s\<lparr>sk_n := sk_n s + n, sndUna := ackNum h\<rparr>) c;
          (updateFlag, c) = tcpComputeRto c;
          c = tcpUpdateRetransmitQueue c;
          c = (if congestState (sk c) = TCP_CONGEST_STATE_RECOVERY then tcpFastRecovery h n c
               else
                 let c = upd (\<lambda>s. s\<lparr>dupAckCount := 0\<rparr>) c;
                     c = (if congestState (sk c) = TCP_CONGEST_STATE_LOSS_RECOVERY
                          then tcpFastLossRecovery h c else c)
                 in upd (grow_cwnd n updateFlag) c)
      in upd limit_cwnd c)"

text \<open>The number of duplicate acknowledgments that triggers a fast retransmit (RFC 5827).\<close>

definition dupAck_thresh :: "Socket \<Rightarrow> u32" where
  "dupAck_thresh s =
     (let ownd = sndNxt s - sndUna s
      in if sndUser s = 0 \<or> ucast (sndWnd s) \<le> sndNxt s - sndUna s then
           if ownd \<le> 3 * ucast (smss s) then 1
           else if ownd \<le> 4 * ucast (smss s) then 2
           else TCP_FAST_RETRANSMIT_THRES
         else TCP_FAST_RETRANSMIT_THRES)"

text \<open>The acknowledgment does not cover new data.\<close>

definition ackNoNewData :: "TcpHeader \<Rightarrow> bool \<Rightarrow> conn \<Rightarrow> conn" where
  "ackNoNewData h duplicateFlag c =
     (let c = upd (\<lambda>s. s\<lparr>dupAckCount := if duplicateFlag then dupAckCount s + 1 else 0\<rparr>) c;
          c = (if congestState (sk c) = TCP_CONGEST_STATE_IDLE then
                 if dupAckCount (sk c) \<ge> dupAck_thresh (sk c) \<and>
                    TCP_CMP_SEQ (ackNum h) (recover (sk c) + 1) > 0
                 then tcpFastRetransmit c else c
               else if congestState (sk c) = TCP_CONGEST_STATE_RECOVERY then
                 if duplicateFlag then upd (\<lambda>s. s\<lparr>cwnd := cwnd s + smss s\<rparr>) c else c
               else c)
      in upd limit_cwnd c)"

definition tcpCheckAck :: "TcpHeader \<Rightarrow> u32 \<Rightarrow> conn \<Rightarrow> error_t \<times> conn" where
  "tcpCheckAck h len c =
     (if \<not> has_flag (flags h) TCP_FLAG_ACK then (ERROR_FAILURE, c)
      else if TCP_CMP_SEQ (ackNum h) (sndUna (sk c)) < 0 then (NO_ERROR, c)
      else if TCP_CMP_SEQ (ackNum h) (sndNxt (sk c)) > 0 then
        (ERROR_FAILURE, snd (tcpSendSegment TCP_FLAG_ACK (sndNxt (sk c)) (rcvNxt (sk c)) 0 False c))
      else
        let duplicateFlag = tcpIsDuplicateAck (sk c) h len;
            c = tcpUpdateSendWindow h c;
            c = (if TCP_CMP_SEQ (ackNum h) (sndUna (sk c)) > 0 then ackNewData h c
                 else ackNoNewData h duplicateFlag c)
        in (NO_ERROR, tcpUpdateEvents c))"

section \<open>Segment text\<close>

definition tcpProcessSegmentData :: "TcpHeader \<Rightarrow> NetBuffer \<Rightarrow> nat \<Rightarrow> u32 \<Rightarrow> conn \<Rightarrow> conn" where
  "tcpProcessSegmentData h b off len c =
     (let l = seqNum h;
          r = seqNum h + len;
          s = sk c;
          (off, l) = (if TCP_CMP_SEQ l (rcvNxt s) < 0 then (off + unat (rcvNxt s - l), rcvNxt s) else (off, l));
          r = (if TCP_CMP_SEQ r (rcvNxt s + ucast (rcvWnd s)) > 0 then rcvNxt s + ucast (rcvWnd s) else r);
          s = tcpWriteRxBuffer s l b off (r - l);
          (l, r, s) = tcpUpdateSackBlocks s l r;
          c = c\<lparr>sk := s\<rparr>
      in if TCP_CMP_SEQ l (rcvNxt s) > 0 then
           snd (tcpSendSegment TCP_FLAG_ACK (sndNxt s) (rcvNxt s) 0 False c)
         else
           let len = r - l;
               c = upd (\<lambda>s. s\<lparr>rcvNxt := rcvNxt s + len, rcvUser := rcvUser s + ucast len,
                              rcvWnd := rcvWnd s - ucast len\<rparr>) c;
               c = snd (tcpSendSegment TCP_FLAG_ACK (sndNxt (sk c)) (rcvNxt (sk c)) 0 False c)
           in tcpUpdateEvents c)"

section \<open>Frame\<close>

lemma tcpFastRetransmit_frame [simp]:
  "descriptor (sk (tcpFastRetransmit c)) = descriptor (sk c)"
  "sk_type (sk (tcpFastRetransmit c)) = sk_type (sk c)" "protocol (sk (tcpFastRetransmit c)) = protocol (sk c)"
  "sk_interface (sk (tcpFastRetransmit c)) = sk_interface (sk c)"
  "localIpAddr (sk (tcpFastRetransmit c)) = localIpAddr (sk c)"
  "localPort (sk (tcpFastRetransmit c)) = localPort (sk c)"
  "remoteIpAddr (sk (tcpFastRetransmit c)) = remoteIpAddr (sk c)"
  "remotePort (sk (tcpFastRetransmit c)) = remotePort (sk c)"
  "sk_timeout (sk (tcpFastRetransmit c)) = sk_timeout (sk c)" "ttl (sk (tcpFastRetransmit c)) = ttl (sk c)"
  "event (sk (tcpFastRetransmit c)) = event (sk c)" "eventMask (sk (tcpFastRetransmit c)) = eventMask (sk c)"
  "eventFlags (sk (tcpFastRetransmit c)) = eventFlags (sk c)"
  "userEvent (sk (tcpFastRetransmit c)) = userEvent (sk c)"
  "sk_state (sk (tcpFastRetransmit c)) = sk_state (sk c)"
  "ownedFlag (sk (tcpFastRetransmit c)) = ownedFlag (sk c)"
  "closedFlag (sk (tcpFastRetransmit c)) = closedFlag (sk c)"
  "resetFlag (sk (tcpFastRetransmit c)) = resetFlag (sk c)" "smss (sk (tcpFastRetransmit c)) = smss (sk c)"
  "rmss (sk (tcpFastRetransmit c)) = rmss (sk c)" "iss (sk (tcpFastRetransmit c)) = iss (sk c)"
  "irs (sk (tcpFastRetransmit c)) = irs (sk c)" "sndUna (sk (tcpFastRetransmit c)) = sndUna (sk c)"
  "sndNxt (sk (tcpFastRetransmit c)) = sndNxt (sk c)" "sndUser (sk (tcpFastRetransmit c)) = sndUser (sk c)"
  "sndWnd (sk (tcpFastRetransmit c)) = sndWnd (sk c)" "maxSndWnd (sk (tcpFastRetransmit c)) = maxSndWnd (sk c)"
  "sndWl1 (sk (tcpFastRetransmit c)) = sndWl1 (sk c)" "sndWl2 (sk (tcpFastRetransmit c)) = sndWl2 (sk c)"
  "rcvNxt (sk (tcpFastRetransmit c)) = rcvNxt (sk c)" "rcvUser (sk (tcpFastRetransmit c)) = rcvUser (sk c)"
  "rcvWnd (sk (tcpFastRetransmit c)) = rcvWnd (sk c)" "rttBusy (sk (tcpFastRetransmit c)) = rttBusy (sk c)"
  "rttSeqNum (sk (tcpFastRetransmit c)) = rttSeqNum (sk c)"
  "rttStartTime (sk (tcpFastRetransmit c)) = rttStartTime (sk c)"
  "srtt (sk (tcpFastRetransmit c)) = srtt (sk c)" "rttvar (sk (tcpFastRetransmit c)) = rttvar (sk c)"
  "rto (sk (tcpFastRetransmit c)) = rto (sk c)" "dupAckCount (sk (tcpFastRetransmit c)) = dupAckCount (sk c)"
  "sk_n (sk (tcpFastRetransmit c)) = sk_n (sk c)" "txBuffer (sk (tcpFastRetransmit c)) = txBuffer (sk c)"
  "txBufferSize (sk (tcpFastRetransmit c)) = txBufferSize (sk c)"
  "rxBuffer (sk (tcpFastRetransmit c)) = rxBuffer (sk c)"
  "rxBufferSize (sk (tcpFastRetransmit c)) = rxBufferSize (sk c)"
  "retransmitQueue (sk (tcpFastRetransmit c)) = retransmitQueue (sk c)"
  "retransmitTimer (sk (tcpFastRetransmit c)) = retransmitTimer (sk c)"
  "retransmitCount (sk (tcpFastRetransmit c)) = retransmitCount (sk c)"
  "synQueue (sk (tcpFastRetransmit c)) = synQueue (sk c)"
  "synQueueSize (sk (tcpFastRetransmit c)) = synQueueSize (sk c)"
  "wndProbeCount (sk (tcpFastRetransmit c)) = wndProbeCount (sk c)"
  "wndProbeInterval (sk (tcpFastRetransmit c)) = wndProbeInterval (sk c)"
  "persistTimer (sk (tcpFastRetransmit c)) = persistTimer (sk c)"
  "overrideTimer (sk (tcpFastRetransmit c)) = overrideTimer (sk c)"
  "finWait2Timer (sk (tcpFastRetransmit c)) = finWait2Timer (sk c)"
  "timeWaitTimer (sk (tcpFastRetransmit c)) = timeWaitTimer (sk c)"
  "sackBlock (sk (tcpFastRetransmit c)) = sackBlock (sk c)"
  by (simp_all add: tcpFastRetransmit_def Let_def)

lemma tcpFastRecovery_frame [simp]:
  "descriptor (sk (tcpFastRecovery h n c)) = descriptor (sk c)"
  "sk_type (sk (tcpFastRecovery h n c)) = sk_type (sk c)"
  "protocol (sk (tcpFastRecovery h n c)) = protocol (sk c)"
  "sk_interface (sk (tcpFastRecovery h n c)) = sk_interface (sk c)"
  "localIpAddr (sk (tcpFastRecovery h n c)) = localIpAddr (sk c)"
  "localPort (sk (tcpFastRecovery h n c)) = localPort (sk c)"
  "remoteIpAddr (sk (tcpFastRecovery h n c)) = remoteIpAddr (sk c)"
  "remotePort (sk (tcpFastRecovery h n c)) = remotePort (sk c)"
  "sk_timeout (sk (tcpFastRecovery h n c)) = sk_timeout (sk c)" "ttl (sk (tcpFastRecovery h n c)) = ttl (sk c)"
  "event (sk (tcpFastRecovery h n c)) = event (sk c)"
  "eventMask (sk (tcpFastRecovery h n c)) = eventMask (sk c)"
  "eventFlags (sk (tcpFastRecovery h n c)) = eventFlags (sk c)"
  "userEvent (sk (tcpFastRecovery h n c)) = userEvent (sk c)"
  "sk_state (sk (tcpFastRecovery h n c)) = sk_state (sk c)"
  "ownedFlag (sk (tcpFastRecovery h n c)) = ownedFlag (sk c)"
  "closedFlag (sk (tcpFastRecovery h n c)) = closedFlag (sk c)"
  "resetFlag (sk (tcpFastRecovery h n c)) = resetFlag (sk c)" "smss (sk (tcpFastRecovery h n c)) = smss (sk c)"
  "rmss (sk (tcpFastRecovery h n c)) = rmss (sk c)" "iss (sk (tcpFastRecovery h n c)) = iss (sk c)"
  "irs (sk (tcpFastRecovery h n c)) = irs (sk c)" "sndUna (sk (tcpFastRecovery h n c)) = sndUna (sk c)"
  "sndNxt (sk (tcpFastRecovery h n c)) = sndNxt (sk c)" "sndUser (sk (tcpFastRecovery h n c)) = sndUser (sk c)"
  "sndWnd (sk (tcpFastRecovery h n c)) = sndWnd (sk c)"
  "maxSndWnd (sk (tcpFastRecovery h n c)) = maxSndWnd (sk c)"
  "sndWl1 (sk (tcpFastRecovery h n c)) = sndWl1 (sk c)" "sndWl2 (sk (tcpFastRecovery h n c)) = sndWl2 (sk c)"
  "rcvNxt (sk (tcpFastRecovery h n c)) = rcvNxt (sk c)" "rcvUser (sk (tcpFastRecovery h n c)) = rcvUser (sk c)"
  "rcvWnd (sk (tcpFastRecovery h n c)) = rcvWnd (sk c)" "rttBusy (sk (tcpFastRecovery h n c)) = rttBusy (sk c)"
  "rttSeqNum (sk (tcpFastRecovery h n c)) = rttSeqNum (sk c)"
  "rttStartTime (sk (tcpFastRecovery h n c)) = rttStartTime (sk c)"
  "srtt (sk (tcpFastRecovery h n c)) = srtt (sk c)" "rttvar (sk (tcpFastRecovery h n c)) = rttvar (sk c)"
  "rto (sk (tcpFastRecovery h n c)) = rto (sk c)" "ssthresh (sk (tcpFastRecovery h n c)) = ssthresh (sk c)"
  "dupAckCount (sk (tcpFastRecovery h n c)) = dupAckCount (sk c)"
  "sk_n (sk (tcpFastRecovery h n c)) = sk_n (sk c)" "recover (sk (tcpFastRecovery h n c)) = recover (sk c)"
  "txBuffer (sk (tcpFastRecovery h n c)) = txBuffer (sk c)"
  "txBufferSize (sk (tcpFastRecovery h n c)) = txBufferSize (sk c)"
  "rxBuffer (sk (tcpFastRecovery h n c)) = rxBuffer (sk c)"
  "rxBufferSize (sk (tcpFastRecovery h n c)) = rxBufferSize (sk c)"
  "retransmitQueue (sk (tcpFastRecovery h n c)) = retransmitQueue (sk c)"
  "retransmitTimer (sk (tcpFastRecovery h n c)) = retransmitTimer (sk c)"
  "retransmitCount (sk (tcpFastRecovery h n c)) = retransmitCount (sk c)"
  "synQueue (sk (tcpFastRecovery h n c)) = synQueue (sk c)"
  "synQueueSize (sk (tcpFastRecovery h n c)) = synQueueSize (sk c)"
  "wndProbeCount (sk (tcpFastRecovery h n c)) = wndProbeCount (sk c)"
  "wndProbeInterval (sk (tcpFastRecovery h n c)) = wndProbeInterval (sk c)"
  "persistTimer (sk (tcpFastRecovery h n c)) = persistTimer (sk c)"
  "overrideTimer (sk (tcpFastRecovery h n c)) = overrideTimer (sk c)"
  "finWait2Timer (sk (tcpFastRecovery h n c)) = finWait2Timer (sk c)"
  "timeWaitTimer (sk (tcpFastRecovery h n c)) = timeWaitTimer (sk c)"
  "sackBlock (sk (tcpFastRecovery h n c)) = sackBlock (sk c)"
  by (simp_all add: tcpFastRecovery_def Let_def)

lemma tcpFastLossRecovery_frame [simp]:
  "descriptor (sk (tcpFastLossRecovery h c)) = descriptor (sk c)"
  "sk_type (sk (tcpFastLossRecovery h c)) = sk_type (sk c)"
  "protocol (sk (tcpFastLossRecovery h c)) = protocol (sk c)"
  "sk_interface (sk (tcpFastLossRecovery h c)) = sk_interface (sk c)"
  "localIpAddr (sk (tcpFastLossRecovery h c)) = localIpAddr (sk c)"
  "localPort (sk (tcpFastLossRecovery h c)) = localPort (sk c)"
  "remoteIpAddr (sk (tcpFastLossRecovery h c)) = remoteIpAddr (sk c)"
  "remotePort (sk (tcpFastLossRecovery h c)) = remotePort (sk c)"
  "sk_timeout (sk (tcpFastLossRecovery h c)) = sk_timeout (sk c)"
  "ttl (sk (tcpFastLossRecovery h c)) = ttl (sk c)" "event (sk (tcpFastLossRecovery h c)) = event (sk c)"
  "eventMask (sk (tcpFastLossRecovery h c)) = eventMask (sk c)"
  "eventFlags (sk (tcpFastLossRecovery h c)) = eventFlags (sk c)"
  "userEvent (sk (tcpFastLossRecovery h c)) = userEvent (sk c)"
  "sk_state (sk (tcpFastLossRecovery h c)) = sk_state (sk c)"
  "ownedFlag (sk (tcpFastLossRecovery h c)) = ownedFlag (sk c)"
  "closedFlag (sk (tcpFastLossRecovery h c)) = closedFlag (sk c)"
  "resetFlag (sk (tcpFastLossRecovery h c)) = resetFlag (sk c)"
  "smss (sk (tcpFastLossRecovery h c)) = smss (sk c)" "rmss (sk (tcpFastLossRecovery h c)) = rmss (sk c)"
  "iss (sk (tcpFastLossRecovery h c)) = iss (sk c)" "irs (sk (tcpFastLossRecovery h c)) = irs (sk c)"
  "sndUna (sk (tcpFastLossRecovery h c)) = sndUna (sk c)"
  "sndNxt (sk (tcpFastLossRecovery h c)) = sndNxt (sk c)"
  "sndUser (sk (tcpFastLossRecovery h c)) = sndUser (sk c)"
  "sndWnd (sk (tcpFastLossRecovery h c)) = sndWnd (sk c)"
  "maxSndWnd (sk (tcpFastLossRecovery h c)) = maxSndWnd (sk c)"
  "sndWl1 (sk (tcpFastLossRecovery h c)) = sndWl1 (sk c)"
  "sndWl2 (sk (tcpFastLossRecovery h c)) = sndWl2 (sk c)"
  "rcvNxt (sk (tcpFastLossRecovery h c)) = rcvNxt (sk c)"
  "rcvUser (sk (tcpFastLossRecovery h c)) = rcvUser (sk c)"
  "rcvWnd (sk (tcpFastLossRecovery h c)) = rcvWnd (sk c)"
  "rttBusy (sk (tcpFastLossRecovery h c)) = rttBusy (sk c)"
  "rttSeqNum (sk (tcpFastLossRecovery h c)) = rttSeqNum (sk c)"
  "rttStartTime (sk (tcpFastLossRecovery h c)) = rttStartTime (sk c)"
  "srtt (sk (tcpFastLossRecovery h c)) = srtt (sk c)" "rttvar (sk (tcpFastLossRecovery h c)) = rttvar (sk c)"
  "rto (sk (tcpFastLossRecovery h c)) = rto (sk c)" "cwnd (sk (tcpFastLossRecovery h c)) = cwnd (sk c)"
  "ssthresh (sk (tcpFastLossRecovery h c)) = ssthresh (sk c)"
  "dupAckCount (sk (tcpFastLossRecovery h c)) = dupAckCount (sk c)"
  "sk_n (sk (tcpFastLossRecovery h c)) = sk_n (sk c)" "recover (sk (tcpFastLossRecovery h c)) = recover (sk c)"
  "txBuffer (sk (tcpFastLossRecovery h c)) = txBuffer (sk c)"
  "txBufferSize (sk (tcpFastLossRecovery h c)) = txBufferSize (sk c)"
  "rxBuffer (sk (tcpFastLossRecovery h c)) = rxBuffer (sk c)"
  "rxBufferSize (sk (tcpFastLossRecovery h c)) = rxBufferSize (sk c)"
  "retransmitQueue (sk (tcpFastLossRecovery h c)) = retransmitQueue (sk c)"
  "retransmitTimer (sk (tcpFastLossRecovery h c)) = retransmitTimer (sk c)"
  "retransmitCount (sk (tcpFastLossRecovery h c)) = retransmitCount (sk c)"
  "synQueue (sk (tcpFastLossRecovery h c)) = synQueue (sk c)"
  "synQueueSize (sk (tcpFastLossRecovery h c)) = synQueueSize (sk c)"
  "wndProbeCount (sk (tcpFastLossRecovery h c)) = wndProbeCount (sk c)"
  "wndProbeInterval (sk (tcpFastLossRecovery h c)) = wndProbeInterval (sk c)"
  "persistTimer (sk (tcpFastLossRecovery h c)) = persistTimer (sk c)"
  "overrideTimer (sk (tcpFastLossRecovery h c)) = overrideTimer (sk c)"
  "finWait2Timer (sk (tcpFastLossRecovery h c)) = finWait2Timer (sk c)"
  "timeWaitTimer (sk (tcpFastLossRecovery h c)) = timeWaitTimer (sk c)"
  "sackBlock (sk (tcpFastLossRecovery h c)) = sackBlock (sk c)"
  by (simp_all add: tcpFastLossRecovery_def)

lemma limit_cwnd_frame [simp]:
  "descriptor (limit_cwnd s) = descriptor (s)" "sk_type (limit_cwnd s) = sk_type (s)"
  "protocol (limit_cwnd s) = protocol (s)" "sk_interface (limit_cwnd s) = sk_interface (s)"
  "localIpAddr (limit_cwnd s) = localIpAddr (s)" "localPort (limit_cwnd s) = localPort (s)"
  "remoteIpAddr (limit_cwnd s) = remoteIpAddr (s)" "remotePort (limit_cwnd s) = remotePort (s)"
  "sk_timeout (limit_cwnd s) = sk_timeout (s)" "ttl (limit_cwnd s) = ttl (s)" "event (limit_cwnd s) = event (s)"
  "eventMask (limit_cwnd s) = eventMask (s)" "eventFlags (limit_cwnd s) = eventFlags (s)"
  "userEvent (limit_cwnd s) = userEvent (s)" "sk_state (limit_cwnd s) = sk_state (s)"
  "ownedFlag (limit_cwnd s) = ownedFlag (s)" "closedFlag (limit_cwnd s) = closedFlag (s)"
  "resetFlag (limit_cwnd s) = resetFlag (s)" "smss (limit_cwnd s) = smss (s)" "rmss (limit_cwnd s) = rmss (s)"
  "iss (limit_cwnd s) = iss (s)" "irs (limit_cwnd s) = irs (s)" "sndUna (limit_cwnd s) = sndUna (s)"
  "sndNxt (limit_cwnd s) = sndNxt (s)" "sndUser (limit_cwnd s) = sndUser (s)"
  "sndWnd (limit_cwnd s) = sndWnd (s)" "maxSndWnd (limit_cwnd s) = maxSndWnd (s)"
  "sndWl1 (limit_cwnd s) = sndWl1 (s)" "sndWl2 (limit_cwnd s) = sndWl2 (s)" "rcvNxt (limit_cwnd s) = rcvNxt (s)"
  "rcvUser (limit_cwnd s) = rcvUser (s)" "rcvWnd (limit_cwnd s) = rcvWnd (s)"
  "rttBusy (limit_cwnd s) = rttBusy (s)" "rttSeqNum (limit_cwnd s) = rttSeqNum (s)"
  "rttStartTime (limit_cwnd s) = rttStartTime (s)" "srtt (limit_cwnd s) = srtt (s)"
  "rttvar (limit_cwnd s) = rttvar (s)" "rto (limit_cwnd s) = rto (s)"
  "congestState (limit_cwnd s) = congestState (s)" "ssthresh (limit_cwnd s) = ssthresh (s)"
  "dupAckCount (limit_cwnd s) = dupAckCount (s)" "sk_n (limit_cwnd s) = sk_n (s)"
  "recover (limit_cwnd s) = recover (s)" "txBuffer (limit_cwnd s) = txBuffer (s)"
  "txBufferSize (limit_cwnd s) = txBufferSize (s)" "rxBuffer (limit_cwnd s) = rxBuffer (s)"
  "rxBufferSize (limit_cwnd s) = rxBufferSize (s)" "retransmitQueue (limit_cwnd s) = retransmitQueue (s)"
  "retransmitTimer (limit_cwnd s) = retransmitTimer (s)" "retransmitCount (limit_cwnd s) = retransmitCount (s)"
  "synQueue (limit_cwnd s) = synQueue (s)" "synQueueSize (limit_cwnd s) = synQueueSize (s)"
  "wndProbeCount (limit_cwnd s) = wndProbeCount (s)" "wndProbeInterval (limit_cwnd s) = wndProbeInterval (s)"
  "persistTimer (limit_cwnd s) = persistTimer (s)" "overrideTimer (limit_cwnd s) = overrideTimer (s)"
  "finWait2Timer (limit_cwnd s) = finWait2Timer (s)" "timeWaitTimer (limit_cwnd s) = timeWaitTimer (s)"
  "sackBlock (limit_cwnd s) = sackBlock (s)"
  by (simp_all add: limit_cwnd_def)

lemma grow_cwnd_frame [simp]:
  "descriptor (grow_cwnd n f s) = descriptor (s)" "sk_type (grow_cwnd n f s) = sk_type (s)"
  "protocol (grow_cwnd n f s) = protocol (s)" "sk_interface (grow_cwnd n f s) = sk_interface (s)"
  "localIpAddr (grow_cwnd n f s) = localIpAddr (s)" "localPort (grow_cwnd n f s) = localPort (s)"
  "remoteIpAddr (grow_cwnd n f s) = remoteIpAddr (s)" "remotePort (grow_cwnd n f s) = remotePort (s)"
  "sk_timeout (grow_cwnd n f s) = sk_timeout (s)" "ttl (grow_cwnd n f s) = ttl (s)"
  "event (grow_cwnd n f s) = event (s)" "eventMask (grow_cwnd n f s) = eventMask (s)"
  "eventFlags (grow_cwnd n f s) = eventFlags (s)" "userEvent (grow_cwnd n f s) = userEvent (s)"
  "sk_state (grow_cwnd n f s) = sk_state (s)" "ownedFlag (grow_cwnd n f s) = ownedFlag (s)"
  "closedFlag (grow_cwnd n f s) = closedFlag (s)" "resetFlag (grow_cwnd n f s) = resetFlag (s)"
  "smss (grow_cwnd n f s) = smss (s)" "rmss (grow_cwnd n f s) = rmss (s)" "iss (grow_cwnd n f s) = iss (s)"
  "irs (grow_cwnd n f s) = irs (s)" "sndUna (grow_cwnd n f s) = sndUna (s)"
  "sndNxt (grow_cwnd n f s) = sndNxt (s)" "sndUser (grow_cwnd n f s) = sndUser (s)"
  "sndWnd (grow_cwnd n f s) = sndWnd (s)" "maxSndWnd (grow_cwnd n f s) = maxSndWnd (s)"
  "sndWl1 (grow_cwnd n f s) = sndWl1 (s)" "sndWl2 (grow_cwnd n f s) = sndWl2 (s)"
  "rcvNxt (grow_cwnd n f s) = rcvNxt (s)" "rcvUser (grow_cwnd n f s) = rcvUser (s)"
  "rcvWnd (grow_cwnd n f s) = rcvWnd (s)" "rttBusy (grow_cwnd n f s) = rttBusy (s)"
  "rttSeqNum (grow_cwnd n f s) = rttSeqNum (s)" "rttStartTime (grow_cwnd n f s) = rttStartTime (s)"
  "srtt (grow_cwnd n f s) = srtt (s)" "rttvar (grow_cwnd n f s) = rttvar (s)" "rto (grow_cwnd n f s) = rto (s)"
  "congestState (grow_cwnd n f s) = congestState (s)" "ssthresh (grow_cwnd n f s) = ssthresh (s)"
  "dupAckCount (grow_cwnd n f s) = dupAckCount (s)" "sk_n (grow_cwnd n f s) = sk_n (s)"
  "recover (grow_cwnd n f s) = recover (s)" "txBuffer (grow_cwnd n f s) = txBuffer (s)"
  "txBufferSize (grow_cwnd n f s) = txBufferSize (s)" "rxBuffer (grow_cwnd n f s) = rxBuffer (s)"
  "rxBufferSize (grow_cwnd n f s) = rxBufferSize (s)" "retransmitQueue (grow_cwnd n f s) = retransmitQueue (s)"
  "retransmitTimer (grow_cwnd n f s) = retransmitTimer (s)"
  "retransmitCount (grow_cwnd n f s) = retransmitCount (s)" "synQueue (grow_cwnd n f s) = synQueue (s)"
  "synQueueSize (grow_cwnd n f s) = synQueueSize (s)" "wndProbeCount (grow_cwnd n f s) = wndProbeCount (s)"
  "wndProbeInterval (grow_cwnd n f s) = wndProbeInterval (s)"
  "persistTimer (grow_cwnd n f s) = persistTimer (s)" "overrideTimer (grow_cwnd n f s) = overrideTimer (s)"
  "finWait2Timer (grow_cwnd n f s) = finWait2Timer (s)" "timeWaitTimer (grow_cwnd n f s) = timeWaitTimer (s)"
  "sackBlock (grow_cwnd n f s) = sackBlock (s)"
  by (simp_all add: grow_cwnd_def)

lemma ackNewData_frame [simp]:
  "descriptor (sk (ackNewData h c)) = descriptor (sk c)" "sk_type (sk (ackNewData h c)) = sk_type (sk c)"
  "protocol (sk (ackNewData h c)) = protocol (sk c)" "sk_interface (sk (ackNewData h c)) = sk_interface (sk c)"
  "localIpAddr (sk (ackNewData h c)) = localIpAddr (sk c)" "localPort (sk (ackNewData h c)) = localPort (sk c)"
  "remoteIpAddr (sk (ackNewData h c)) = remoteIpAddr (sk c)"
  "remotePort (sk (ackNewData h c)) = remotePort (sk c)" "sk_timeout (sk (ackNewData h c)) = sk_timeout (sk c)"
  "ttl (sk (ackNewData h c)) = ttl (sk c)" "event (sk (ackNewData h c)) = event (sk c)"
  "eventMask (sk (ackNewData h c)) = eventMask (sk c)" "eventFlags (sk (ackNewData h c)) = eventFlags (sk c)"
  "userEvent (sk (ackNewData h c)) = userEvent (sk c)" "sk_state (sk (ackNewData h c)) = sk_state (sk c)"
  "ownedFlag (sk (ackNewData h c)) = ownedFlag (sk c)" "closedFlag (sk (ackNewData h c)) = closedFlag (sk c)"
  "resetFlag (sk (ackNewData h c)) = resetFlag (sk c)" "smss (sk (ackNewData h c)) = smss (sk c)"
  "rmss (sk (ackNewData h c)) = rmss (sk c)" "iss (sk (ackNewData h c)) = iss (sk c)"
  "irs (sk (ackNewData h c)) = irs (sk c)" "sndNxt (sk (ackNewData h c)) = sndNxt (sk c)"
  "sndUser (sk (ackNewData h c)) = sndUser (sk c)" "sndWnd (sk (ackNewData h c)) = sndWnd (sk c)"
  "maxSndWnd (sk (ackNewData h c)) = maxSndWnd (sk c)" "sndWl1 (sk (ackNewData h c)) = sndWl1 (sk c)"
  "sndWl2 (sk (ackNewData h c)) = sndWl2 (sk c)" "rcvNxt (sk (ackNewData h c)) = rcvNxt (sk c)"
  "rcvUser (sk (ackNewData h c)) = rcvUser (sk c)" "rcvWnd (sk (ackNewData h c)) = rcvWnd (sk c)"
  "rttSeqNum (sk (ackNewData h c)) = rttSeqNum (sk c)"
  "rttStartTime (sk (ackNewData h c)) = rttStartTime (sk c)" "ssthresh (sk (ackNewData h c)) = ssthresh (sk c)"
  "recover (sk (ackNewData h c)) = recover (sk c)" "txBuffer (sk (ackNewData h c)) = txBuffer (sk c)"
  "txBufferSize (sk (ackNewData h c)) = txBufferSize (sk c)" "rxBuffer (sk (ackNewData h c)) = rxBuffer (sk c)"
  "rxBufferSize (sk (ackNewData h c)) = rxBufferSize (sk c)" "synQueue (sk (ackNewData h c)) = synQueue (sk c)"
  "synQueueSize (sk (ackNewData h c)) = synQueueSize (sk c)"
  "wndProbeCount (sk (ackNewData h c)) = wndProbeCount (sk c)"
  "wndProbeInterval (sk (ackNewData h c)) = wndProbeInterval (sk c)"
  "persistTimer (sk (ackNewData h c)) = persistTimer (sk c)"
  "overrideTimer (sk (ackNewData h c)) = overrideTimer (sk c)"
  "finWait2Timer (sk (ackNewData h c)) = finWait2Timer (sk c)"
  "timeWaitTimer (sk (ackNewData h c)) = timeWaitTimer (sk c)"
  "sackBlock (sk (ackNewData h c)) = sackBlock (sk c)"
  by (simp_all add: ackNewData_def Let_def split_beta)

lemma ackNoNewData_frame [simp]:
  "descriptor (sk (ackNoNewData h d c)) = descriptor (sk c)"
  "sk_type (sk (ackNoNewData h d c)) = sk_type (sk c)" "protocol (sk (ackNoNewData h d c)) = protocol (sk c)"
  "sk_interface (sk (ackNoNewData h d c)) = sk_interface (sk c)"
  "localIpAddr (sk (ackNoNewData h d c)) = localIpAddr (sk c)"
  "localPort (sk (ackNoNewData h d c)) = localPort (sk c)"
  "remoteIpAddr (sk (ackNoNewData h d c)) = remoteIpAddr (sk c)"
  "remotePort (sk (ackNoNewData h d c)) = remotePort (sk c)"
  "sk_timeout (sk (ackNoNewData h d c)) = sk_timeout (sk c)" "ttl (sk (ackNoNewData h d c)) = ttl (sk c)"
  "event (sk (ackNoNewData h d c)) = event (sk c)" "eventMask (sk (ackNoNewData h d c)) = eventMask (sk c)"
  "eventFlags (sk (ackNoNewData h d c)) = eventFlags (sk c)"
  "userEvent (sk (ackNoNewData h d c)) = userEvent (sk c)"
  "sk_state (sk (ackNoNewData h d c)) = sk_state (sk c)"
  "ownedFlag (sk (ackNoNewData h d c)) = ownedFlag (sk c)"
  "closedFlag (sk (ackNoNewData h d c)) = closedFlag (sk c)"
  "resetFlag (sk (ackNoNewData h d c)) = resetFlag (sk c)" "smss (sk (ackNoNewData h d c)) = smss (sk c)"
  "rmss (sk (ackNoNewData h d c)) = rmss (sk c)" "iss (sk (ackNoNewData h d c)) = iss (sk c)"
  "irs (sk (ackNoNewData h d c)) = irs (sk c)" "sndUna (sk (ackNoNewData h d c)) = sndUna (sk c)"
  "sndNxt (sk (ackNoNewData h d c)) = sndNxt (sk c)" "sndUser (sk (ackNoNewData h d c)) = sndUser (sk c)"
  "sndWnd (sk (ackNoNewData h d c)) = sndWnd (sk c)" "maxSndWnd (sk (ackNoNewData h d c)) = maxSndWnd (sk c)"
  "sndWl1 (sk (ackNoNewData h d c)) = sndWl1 (sk c)" "sndWl2 (sk (ackNoNewData h d c)) = sndWl2 (sk c)"
  "rcvNxt (sk (ackNoNewData h d c)) = rcvNxt (sk c)" "rcvUser (sk (ackNoNewData h d c)) = rcvUser (sk c)"
  "rcvWnd (sk (ackNoNewData h d c)) = rcvWnd (sk c)" "rttBusy (sk (ackNoNewData h d c)) = rttBusy (sk c)"
  "rttSeqNum (sk (ackNoNewData h d c)) = rttSeqNum (sk c)"
  "rttStartTime (sk (ackNoNewData h d c)) = rttStartTime (sk c)" "srtt (sk (ackNoNewData h d c)) = srtt (sk c)"
  "rttvar (sk (ackNoNewData h d c)) = rttvar (sk c)" "rto (sk (ackNoNewData h d c)) = rto (sk c)"
  "sk_n (sk (ackNoNewData h d c)) = sk_n (sk c)" "txBuffer (sk (ackNoNewData h d c)) = txBuffer (sk c)"
  "txBufferSize (sk (ackNoNewData h d c)) = txBufferSize (sk c)"
  "rxBuffer (sk (ackNoNewData h d c)) = rxBuffer (sk c)"
  "rxBufferSize (sk (ackNoNewData h d c)) = rxBufferSize (sk c)"
  "retransmitQueue (sk (ackNoNewData h d c)) = retransmitQueue (sk c)"
  "retransmitTimer (sk (ackNoNewData h d c)) = retransmitTimer (sk c)"
  "retransmitCount (sk (ackNoNewData h d c)) = retransmitCount (sk c)"
  "synQueue (sk (ackNoNewData h d c)) = synQueue (sk c)"
  "synQueueSize (sk (ackNoNewData h d c)) = synQueueSize (sk c)"
  "wndProbeCount (sk (ackNoNewData h d c)) = wndProbeCount (sk c)"
  "wndProbeInterval (sk (ackNoNewData h d c)) = wndProbeInterval (sk c)"
  "persistTimer (sk (ackNoNewData h d c)) = persistTimer (sk c)"
  "overrideTimer (sk (ackNoNewData h d c)) = overrideTimer (sk c)"
  "finWait2Timer (sk (ackNoNewData h d c)) = finWait2Timer (sk c)"
  "timeWaitTimer (sk (ackNoNewData h d c)) = timeWaitTimer (sk c)"
  "sackBlock (sk (ackNoNewData h d c)) = sackBlock (sk c)"
  by (simp_all add: ackNoNewData_def Let_def)

lemma tcpCheckAck_frame [simp]:
  "descriptor (sk (snd (tcpCheckAck h len c))) = descriptor (sk c)"
  "sk_type (sk (snd (tcpCheckAck h len c))) = sk_type (sk c)"
  "protocol (sk (snd (tcpCheckAck h len c))) = protocol (sk c)"
  "sk_interface (sk (snd (tcpCheckAck h len c))) = sk_interface (sk c)"
  "localIpAddr (sk (snd (tcpCheckAck h len c))) = localIpAddr (sk c)"
  "localPort (sk (snd (tcpCheckAck h len c))) = localPort (sk c)"
  "remoteIpAddr (sk (snd (tcpCheckAck h len c))) = remoteIpAddr (sk c)"
  "remotePort (sk (snd (tcpCheckAck h len c))) = remotePort (sk c)"
  "sk_timeout (sk (snd (tcpCheckAck h len c))) = sk_timeout (sk c)"
  "ttl (sk (snd (tcpCheckAck h len c))) = ttl (sk c)"
  "eventMask (sk (snd (tcpCheckAck h len c))) = eventMask (sk c)"
  "sk_state (sk (snd (tcpCheckAck h len c))) = sk_state (sk c)"
  "ownedFlag (sk (snd (tcpCheckAck h len c))) = ownedFlag (sk c)"
  "closedFlag (sk (snd (tcpCheckAck h len c))) = closedFlag (sk c)"
  "resetFlag (sk (snd (tcpCheckAck h len c))) = resetFlag (sk c)"
  "smss (sk (snd (tcpCheckAck h len c))) = smss (sk c)" "rmss (sk (snd (tcpCheckAck h len c))) = rmss (sk c)"
  "iss (sk (snd (tcpCheckAck h len c))) = iss (sk c)" "irs (sk (snd (tcpCheckAck h len c))) = irs (sk c)"
  "sndNxt (sk (snd (tcpCheckAck h len c))) = sndNxt (sk c)"
  "sndUser (sk (snd (tcpCheckAck h len c))) = sndUser (sk c)"
  "rcvNxt (sk (snd (tcpCheckAck h len c))) = rcvNxt (sk c)"
  "rcvUser (sk (snd (tcpCheckAck h len c))) = rcvUser (sk c)"
  "rcvWnd (sk (snd (tcpCheckAck h len c))) = rcvWnd (sk c)"
  "rttSeqNum (sk (snd (tcpCheckAck h len c))) = rttSeqNum (sk c)"
  "rttStartTime (sk (snd (tcpCheckAck h len c))) = rttStartTime (sk c)"
  "txBuffer (sk (snd (tcpCheckAck h len c))) = txBuffer (sk c)"
  "txBufferSize (sk (snd (tcpCheckAck h len c))) = txBufferSize (sk c)"
  "rxBuffer (sk (snd (tcpCheckAck h len c))) = rxBuffer (sk c)"
  "rxBufferSize (sk (snd (tcpCheckAck h len c))) = rxBufferSize (sk c)"
  "synQueue (sk (snd (tcpCheckAck h len c))) = synQueue (sk c)"
  "synQueueSize (sk (snd (tcpCheckAck h len c))) = synQueueSize (sk c)"
  "overrideTimer (sk (snd (tcpCheckAck h len c))) = overrideTimer (sk c)"
  "finWait2Timer (sk (snd (tcpCheckAck h len c))) = finWait2Timer (sk c)"
  "timeWaitTimer (sk (snd (tcpCheckAck h len c))) = timeWaitTimer (sk c)"
  "sackBlock (sk (snd (tcpCheckAck h len c))) = sackBlock (sk c)"
  by (simp_all add: tcpCheckAck_def Let_def)

lemma tcpProcessSegmentData_frame [simp]:
  "descriptor (sk (tcpProcessSegmentData h b off len c)) = descriptor (sk c)"
  "sk_type (sk (tcpProcessSegmentData h b off len c)) = sk_type (sk c)"
  "protocol (sk (tcpProcessSegmentData h b off len c)) = protocol (sk c)"
  "sk_interface (sk (tcpProcessSegmentData h b off len c)) = sk_interface (sk c)"
  "localIpAddr (sk (tcpProcessSegmentData h b off len c)) = localIpAddr (sk c)"
  "localPort (sk (tcpProcessSegmentData h b off len c)) = localPort (sk c)"
  "remoteIpAddr (sk (tcpProcessSegmentData h b off len c)) = remoteIpAddr (sk c)"
  "remotePort (sk (tcpProcessSegmentData h b off len c)) = remotePort (sk c)"
  "sk_timeout (sk (tcpProcessSegmentData h b off len c)) = sk_timeout (sk c)"
  "ttl (sk (tcpProcessSegmentData h b off len c)) = ttl (sk c)"
  "eventMask (sk (tcpProcessSegmentData h b off len c)) = eventMask (sk c)"
  "sk_state (sk (tcpProcessSegmentData h b off len c)) = sk_state (sk c)"
  "ownedFlag (sk (tcpProcessSegmentData h b off len c)) = ownedFlag (sk c)"
  "closedFlag (sk (tcpProcessSegmentData h b off len c)) = closedFlag (sk c)"
  "resetFlag (sk (tcpProcessSegmentData h b off len c)) = resetFlag (sk c)"
  "smss (sk (tcpProcessSegmentData h b off len c)) = smss (sk c)"
  "rmss (sk (tcpProcessSegmentData h b off len c)) = rmss (sk c)"
  "iss (sk (tcpProcessSegmentData h b off len c)) = iss (sk c)"
  "irs (sk (tcpProcessSegmentData h b off len c)) = irs (sk c)"
  "sndUna (sk (tcpProcessSegmentData h b off len c)) = sndUna (sk c)"
  "sndNxt (sk (tcpProcessSegmentData h b off len c)) = sndNxt (sk c)"
  "sndUser (sk (tcpProcessSegmentData h b off len c)) = sndUser (sk c)"
  "sndWnd (sk (tcpProcessSegmentData h b off len c)) = sndWnd (sk c)"
  "maxSndWnd (sk (tcpProcessSegmentData h b off len c)) = maxSndWnd (sk c)"
  "sndWl1 (sk (tcpProcessSegmentData h b off len c)) = sndWl1 (sk c)"
  "sndWl2 (sk (tcpProcessSegmentData h b off len c)) = sndWl2 (sk c)"
  "rttBusy (sk (tcpProcessSegmentData h b off len c)) = rttBusy (sk c)"
  "rttSeqNum (sk (tcpProcessSegmentData h b off len c)) = rttSeqNum (sk c)"
  "rttStartTime (sk (tcpProcessSegmentData h b off len c)) = rttStartTime (sk c)"
  "srtt (sk (tcpProcessSegmentData h b off len c)) = srtt (sk c)"
  "rttvar (sk (tcpProcessSegmentData h b off len c)) = rttvar (sk c)"
  "rto (sk (tcpProcessSegmentData h b off len c)) = rto (sk c)"
  "congestState (sk (tcpProcessSegmentData h b off len c)) = congestState (sk c)"
  "cwnd (sk (tcpProcessSegmentData h b off len c)) = cwnd (sk c)"
  "ssthresh (sk (tcpProcessSegmentData h b off len c)) = ssthresh (sk c)"
  "dupAckCount (sk (tcpProcessSegmentData h b off len c)) = dupAckCount (sk c)"
  "sk_n (sk (tcpProcessSegmentData h b off len c)) = sk_n (sk c)"
  "recover (sk (tcpProcessSegmentData h b off len c)) = recover (sk c)"
  "txBuffer (sk (tcpProcessSegmentData h b off len c)) = txBuffer (sk c)"
  "txBufferSize (sk (tcpProcessSegmentData h b off len c)) = txBufferSize (sk c)"
  "rxBufferSize (sk (tcpProcessSegmentData h b off len c)) = rxBufferSize (sk c)"
  "retransmitQueue (sk (tcpProcessSegmentData h b off len c)) = retransmitQueue (sk c)"
  "retransmitTimer (sk (tcpProcessSegmentData h b off len c)) = retransmitTimer (sk c)"
  "retransmitCount (sk (tcpProcessSegmentData h b off len c)) = retransmitCount (sk c)"
  "synQueue (sk (tcpProcessSegmentData h b off len c)) = synQueue (sk c)"
  "synQueueSize (sk (tcpProcessSegmentData h b off len c)) = synQueueSize (sk c)"
  "wndProbeCount (sk (tcpProcessSegmentData h b off len c)) = wndProbeCount (sk c)"
  "wndProbeInterval (sk (tcpProcessSegmentData h b off len c)) = wndProbeInterval (sk c)"
  "persistTimer (sk (tcpProcessSegmentData h b off len c)) = persistTimer (sk c)"
  "overrideTimer (sk (tcpProcessSegmentData h b off len c)) = overrideTimer (sk c)"
  "finWait2Timer (sk (tcpProcessSegmentData h b off len c)) = finWait2Timer (sk c)"
  "timeWaitTimer (sk (tcpProcessSegmentData h b off len c)) = timeWaitTimer (sk c)"
  by (simp_all add: tcpProcessSegmentData_def Let_def split_beta)

end
