(* ===== verification/Tcp_Nagle.thy ===== *)
theory Tcp_Nagle
  imports Tcp_Ack
begin

text \<open>
  Deciding what to send (\<open>tcpNagleAlgo\<close> of \<open>core/tcp_misc.c\<close>). Each iteration sends at
  most one segment; the loop ends because a segment carries at least one byte of the data
  waiting, which needs a nonzero \<open>smss\<close>. It is a partial function (\<open>None\<close>: does not
  return), and the theorems show that it returns for every socket with a nonzero \<open>smss\<close>,
  that it never sends beyond the usable window, and that the data waiting plus the data in
  flight is unchanged.
\<close>

section \<open>The implementation\<close>

text \<open>Whether a segment of \<open>n\<close> bytes is sent now, given the usable window \<open>u\<close>.\<close>

definition nagle_send :: "u32 \<Rightarrow> u32 \<Rightarrow> u32 \<Rightarrow> Socket \<Rightarrow> bool" where
  "nagle_send fl u n s =
     (if has_opt fl SOCKET_FLAG_NO_DELAY then n > 0
      else if has_opt fl SOCKET_FLAG_DELAY then min (ucast (sndUser s)) u \<ge> ucast (smss s)
      else min (ucast (sndUser s)) u \<ge> ucast (smss s) \<or>
           sndNxt s = sndUna s \<and> ucast (sndUser s) \<le> u \<or>
           min (ucast (sndUser s)) u \<ge> ucast (maxSndWnd s) div 2)"

definition nagle_size :: "u32 \<Rightarrow> Socket \<Rightarrow> u32" where
  "nagle_size u s = min (min u (ucast (sndUser s))) (ucast (smss s))"

text \<open>\<open>n\<close> bytes have been sent: they move from waiting to in flight.\<close>

definition advance_snd :: "u32 \<Rightarrow> Socket \<Rightarrow> Socket" where
  "advance_snd n s = s\<lparr>sndNxt := sndNxt s + n, sndUser := ucast (ucast (sndUser s) - n)\<rparr>"

partial_function (option) nagle_loop :: "u32 \<Rightarrow> u32 \<Rightarrow> conn \<Rightarrow> (error_t \<times> conn) option" where
  "nagle_loop fl u c =
     (if sndUser (sk c) > 0 \<and> sint u > 0 \<and> nagle_send fl u (nagle_size u (sk c)) (sk c) then
        (let n = nagle_size u (sk c);
             r = tcpSendSegment (TCP_FLAG_PSH OR TCP_FLAG_ACK) (sndNxt (sk c)) (rcvNxt (sk c)) n True c
         in if fst r \<noteq> NO_ERROR then Some r
            else nagle_loop fl (u - n) (upd (advance_snd n) (snd r)))
      else Some (NO_ERROR, tcpUpdateEvents c))"

declare nagle_loop.simps [code]

text \<open>The window usable for new data.\<close>

definition usable_window :: "Socket \<Rightarrow> u32" where
  "usable_window s =
     (let n = min (ucast (sndWnd s)) (txBufferSize s);
          n = min n (ucast (cwnd s))
      in n - (sndNxt s - sndUna s))"

definition tcpNagleAlgo :: "u32 \<Rightarrow> conn \<Rightarrow> (error_t \<times> conn) option" where
  "tcpNagleAlgo fl c = nagle_loop fl (usable_window (sk c)) c"

section \<open>Termination\<close>

lemma nagle_size_pos:
  "0 < smss s \<Longrightarrow> 0 < sndUser s \<Longrightarrow> 0 < sint u \<Longrightarrow> 0 < unat (nagle_size u s)"
  by (auto simp: nagle_size_def min_def sint_pos_iff word_less_nat_alt)

lemma nagle_size_le:
  "unat (nagle_size u s) \<le> unat u" "unat (nagle_size u s) \<le> unat (sndUser s)" "unat (nagle_size u s) \<le> unat (smss s)"
  by (auto simp: nagle_size_def min_def word_le_nat_alt)

lemma advance_snd_user:
  "unat n \<le> unat (sndUser s) \<Longrightarrow> unat (sndUser (advance_snd n s)) = unat (sndUser s) - unat n"
  using u16_bound [of "sndUser s"]
  by (simp add: advance_snd_def unat_ucast_32_16 unat_diff_u32)

lemma nagle_loop_returns: "0 < smss (sk c) \<Longrightarrow> \<exists>r. nagle_loop fl u c = Some r"
proof (induction "unat (sndUser (sk c))" arbitrary: u c rule: less_induct)
  case less
  let ?n = "nagle_size u (sk c)"
  let ?r = "tcpSendSegment (TCP_FLAG_PSH OR TCP_FLAG_ACK) (sndNxt (sk c)) (rcvNxt (sk c)) ?n True c"
  let ?c = "upd (advance_snd ?n) (snd ?r)"
  show ?case
  proof (cases "sndUser (sk c) > 0 \<and> sint u > 0 \<and> nagle_send fl u ?n (sk c) \<and> fst ?r = NO_ERROR")
    case True
    have "unat (sndUser (sk ?c)) = unat (sndUser (sk c)) - unat ?n"
      using nagle_size_le(2) [of u "sk c"] by (simp add: advance_snd_user)
    moreover have "0 < unat ?n" using less.prems True by (simp add: nagle_size_pos)
    ultimately have "unat (sndUser (sk ?c)) < unat (sndUser (sk c))"
      using nagle_size_le(2) [of u "sk c"] by linarith
    from less.hyps [OF this, of "u - ?n"] less.prems True show ?thesis
      by (subst nagle_loop.simps) (simp add: Let_def advance_snd_def)
  next
    case False
    then show ?thesis by (subst nagle_loop.simps) (auto simp: Let_def)
  qed
qed

section \<open>Invariants of the loop\<close>

text \<open>
  What every iteration keeps holds of the result: \<open>S\<close> relates the usable window and the
  connection at the head of the loop, \<open>Q\<close> is shown of the two exits.
\<close>

lemma nagle_loop_invariant:
  assumes "nagle_loop fl u c = Some r" and "S u c"
    and step: "\<And>u c c'. S u c \<Longrightarrow> sndUser (sk c) > 0 \<Longrightarrow> sint u > 0 \<Longrightarrow>
      nagle_send fl u (nagle_size u (sk c)) (sk c) \<Longrightarrow>
      tcpSendSegment (TCP_FLAG_PSH OR TCP_FLAG_ACK) (sndNxt (sk c)) (rcvNxt (sk c)) (nagle_size u (sk c)) True c = (NO_ERROR, c') \<Longrightarrow>
      S (u - nagle_size u (sk c)) (upd (advance_snd (nagle_size u (sk c))) c')"
    and fail: "\<And>u c e c'. S u c \<Longrightarrow>
      tcpSendSegment (TCP_FLAG_PSH OR TCP_FLAG_ACK) (sndNxt (sk c)) (rcvNxt (sk c)) (nagle_size u (sk c)) True c = (e, c') \<Longrightarrow>
      e \<noteq> NO_ERROR \<Longrightarrow> Q c'"
    and leave: "\<And>u c. S u c \<Longrightarrow> Q (tcpUpdateEvents c)"
  shows "Q (snd r)"
proof -
  have "fl = fl \<longrightarrow> S u c \<longrightarrow> Q (snd r)"
  proof (rule nagle_loop.raw_induct [where P = "\<lambda>fl' u c r. fl' = fl \<longrightarrow> S u c \<longrightarrow> Q (snd r)", OF _ assms(1)], intro impI)
    fix lp fl' u c r
    assume IH: "\<And>fl' u c r. lp fl' u c = Some r \<Longrightarrow> fl' = fl \<longrightarrow> S u c \<longrightarrow> Q (snd r)"
      and body: "(if sndUser (sk c) > 0 \<and> sint u > 0 \<and> nagle_send fl' u (nagle_size u (sk c)) (sk c) then
        (let n = nagle_size u (sk c);
             r = tcpSendSegment (TCP_FLAG_PSH OR TCP_FLAG_ACK) (sndNxt (sk c)) (rcvNxt (sk c)) n True c
         in if fst r \<noteq> NO_ERROR then Some r
            else lp fl' (u - n) (upd (advance_snd n) (snd r)))
        else Some (NO_ERROR, tcpUpdateEvents c)) = Some r"
      and fl: "fl' = fl" and S: "S u c"
    obtain e c' where r': "tcpSendSegment (TCP_FLAG_PSH OR TCP_FLAG_ACK) (sndNxt (sk c)) (rcvNxt (sk c))
        (nagle_size u (sk c)) True c = (e, c')" by fastforce
    show "Q (snd r)"
    proof (cases "sndUser (sk c) > 0 \<and> sint u > 0 \<and> nagle_send fl u (nagle_size u (sk c)) (sk c)")
      case True
      show ?thesis
      proof (cases "e = NO_ERROR")
        case ok: True
        with True body fl r' have "lp fl (u - nagle_size u (sk c)) (upd (advance_snd (nagle_size u (sk c))) c') = Some r"
          by (simp add: Let_def)
        from IH [OF this] step [OF S] True r' ok show ?thesis by simp
      next
        case False
        with True body fl r' have "r = (e, c')" by (simp add: Let_def)
        with fail [OF S r'] False show ?thesis by simp
      qed
    next
      case False
      with body fl have "r = (NO_ERROR, tcpUpdateEvents c)" by (simp split: if_splits)
      with leave [OF S] show ?thesis by simp
    qed
  qed
  with assms(2) show ?thesis by simp
qed

lemma nagle_loop_keeps:
  assumes "nagle_loop fl u c = Some r"
    and "\<And>f a b n c. F (sk (snd (tcpSendSegment f a b n True c))) = F (sk c)"
    and "\<And>n s. F (advance_snd n s) = F s"
    and "\<And>c. F (sk (tcpUpdateEvents c)) = F (sk c)"
  shows "F (sk (snd r)) = F (sk c)"
proof (rule nagle_loop_invariant [where S = "\<lambda>u c'. F (sk c') = F (sk c)" and Q = "\<lambda>c'. F (sk c') = F (sk c)",
      OF assms(1)])
  fix u c1 e c2
  assume F: "F (sk c1) = F (sk c)"
    and r: "tcpSendSegment (TCP_FLAG_PSH OR TCP_FLAG_ACK) (sndNxt (sk c1)) (rcvNxt (sk c1)) (nagle_size u (sk c1)) True c1 = (e, c2)"
  have "F (sk c2) = F (sk c1)" using assms(2) r by (metis snd_conv)
  with F show "F (sk c2) = F (sk c)" by simp
next
  fix u c1 c2
  assume F: "F (sk c1) = F (sk c)"
    and r: "tcpSendSegment (TCP_FLAG_PSH OR TCP_FLAG_ACK) (sndNxt (sk c1)) (rcvNxt (sk c1)) (nagle_size u (sk c1)) True c1 = (NO_ERROR, c2)"
  have "F (sk c2) = F (sk c1)" using assms(2) r by (metis snd_conv)
  with F assms(3) show "F (sk (upd (advance_snd (nagle_size u (sk c1))) c2)) = F (sk c)" by simp
qed (simp_all add: assms(4))

lemma tcpNagleAlgo_frame:
  assumes "tcpNagleAlgo fl c = Some r"
  shows
    "descriptor (sk (snd r)) = descriptor (sk c)" and "sk_type (sk (snd r)) = sk_type (sk c)"
    and "protocol (sk (snd r)) = protocol (sk c)" and "sk_interface (sk (snd r)) = sk_interface (sk c)"
    and "localIpAddr (sk (snd r)) = localIpAddr (sk c)" and "localPort (sk (snd r)) = localPort (sk c)"
    and "remoteIpAddr (sk (snd r)) = remoteIpAddr (sk c)" and "remotePort (sk (snd r)) = remotePort (sk c)"
    and "sk_timeout (sk (snd r)) = sk_timeout (sk c)" and "ttl (sk (snd r)) = ttl (sk c)"
    and "eventMask (sk (snd r)) = eventMask (sk c)" and "sk_state (sk (snd r)) = sk_state (sk c)"
    and "ownedFlag (sk (snd r)) = ownedFlag (sk c)" and "closedFlag (sk (snd r)) = closedFlag (sk c)"
    and "resetFlag (sk (snd r)) = resetFlag (sk c)" and "smss (sk (snd r)) = smss (sk c)"
    and "rmss (sk (snd r)) = rmss (sk c)" and "iss (sk (snd r)) = iss (sk c)" and "irs (sk (snd r)) = irs (sk c)"
    and "sndUna (sk (snd r)) = sndUna (sk c)" and "sndWnd (sk (snd r)) = sndWnd (sk c)"
    and "maxSndWnd (sk (snd r)) = maxSndWnd (sk c)" and "sndWl1 (sk (snd r)) = sndWl1 (sk c)"
    and "sndWl2 (sk (snd r)) = sndWl2 (sk c)" and "rcvNxt (sk (snd r)) = rcvNxt (sk c)"
    and "rcvUser (sk (snd r)) = rcvUser (sk c)" and "rcvWnd (sk (snd r)) = rcvWnd (sk c)"
    and "srtt (sk (snd r)) = srtt (sk c)" and "rttvar (sk (snd r)) = rttvar (sk c)"
    and "rto (sk (snd r)) = rto (sk c)" and "congestState (sk (snd r)) = congestState (sk c)"
    and "cwnd (sk (snd r)) = cwnd (sk c)" and "ssthresh (sk (snd r)) = ssthresh (sk c)"
    and "dupAckCount (sk (snd r)) = dupAckCount (sk c)" and "recover (sk (snd r)) = recover (sk c)"
    and "txBuffer (sk (snd r)) = txBuffer (sk c)" and "txBufferSize (sk (snd r)) = txBufferSize (sk c)"
    and "rxBuffer (sk (snd r)) = rxBuffer (sk c)" and "rxBufferSize (sk (snd r)) = rxBufferSize (sk c)"
    and "synQueue (sk (snd r)) = synQueue (sk c)" and "synQueueSize (sk (snd r)) = synQueueSize (sk c)"
    and "wndProbeCount (sk (snd r)) = wndProbeCount (sk c)"
    and "wndProbeInterval (sk (snd r)) = wndProbeInterval (sk c)"
    and "persistTimer (sk (snd r)) = persistTimer (sk c)" and "overrideTimer (sk (snd r)) = overrideTimer (sk c)"
    and "finWait2Timer (sk (snd r)) = finWait2Timer (sk c)"
    and "timeWaitTimer (sk (snd r)) = timeWaitTimer (sk c)" and "sackBlock (sk (snd r)) = sackBlock (sk c)"
  by (rule nagle_loop_keeps [OF assms [unfolded tcpNagleAlgo_def]]; simp add: advance_snd_def)+

section \<open>What is sent\<close>

text \<open>The end of the buffered data is the sequence number \<open>SND.NXT\<close> plus the data waiting: it does not move.\<close>

definition snd_end :: "Socket \<Rightarrow> u32" where "snd_end s = sndNxt s + ucast (sndUser s)"

lemma advance_snd_end: "unat n \<le> unat (sndUser s) \<Longrightarrow> snd_end (advance_snd n s) = snd_end s"
proof -
  assume n: "unat n \<le> unat (sndUser s)"
  have "ucast (sndUser (advance_snd n s)) = (ucast (sndUser s) - n :: u32)"
    using advance_snd_user [OF n] n by (intro word_unat_eq_iff [THEN iffD2]) (simp add: unat_diff_u32)
  then show ?thesis by (simp add: snd_end_def advance_snd_def)
qed

lemma sk_send_queued:
  "tcpSendSegment fl a b n True c = (e, c') \<Longrightarrow>
   sndNxt (sk c') = sndNxt (sk c) \<and> sndUna (sk c') = sndUna (sk c) \<and> sndUser (sk c') = sndUser (sk c) \<and>
   smss (sk c') = smss (sk c)"
  using tcpSendSegment_frame [of fl a b n True c] by simp

lemma tcpNagleAlgo_end:
  assumes "tcpNagleAlgo fl c = Some r"
  shows "snd_end (sk (snd r)) = snd_end (sk c)"
proof (rule nagle_loop_invariant [where S = "\<lambda>u c'. snd_end (sk c') = snd_end (sk c)"
      and Q = "\<lambda>c'. snd_end (sk c') = snd_end (sk c)", OF assms [unfolded tcpNagleAlgo_def]])
qed (auto simp: advance_snd_end nagle_size_le snd_end_def dest!: sk_send_queued,
     metis advance_snd_end nagle_size_le(2) snd_end_def)

text \<open>The send limit, and the data in flight: nothing is sent beyond the limit.\<close>

definition send_limit :: "Socket \<Rightarrow> nat" where
  "send_limit s = min (min (unat (sndWnd s)) (unat (txBufferSize s))) (unat (cwnd s))"

definition flight :: "Socket \<Rightarrow> nat" where "flight s = unat (sndNxt s - sndUna s)"

lemma usable_window_limit: "usable_window s = word_of_nat (send_limit s) - (sndNxt s - sndUna s)"
proof -
  have "min (min (ucast (sndWnd s)) (txBufferSize s)) (ucast (cwnd s)) = (word_of_nat (send_limit s) :: u32)"
    by (simp add: send_limit_def min_def word_le_nat_alt)
  then show ?thesis by (simp add: usable_window_def Let_def)
qed

lemma send_limit_bound: "send_limit s < 65536"
  using u16_bound [of "cwnd s"] by (simp add: send_limit_def min_def)

text \<open>One more segment within the usable window.\<close>

lemma flight_advance:
  fixes u f n :: u32
  assumes u: "u = word_of_nat L - f" and L: "L < 65536" and f: "unat f \<le> 2147483648"
    and pos: "0 < sint u" and n: "unat n \<le> unat u"
  shows "unat (f + n) \<le> L"
proof -
  have L': "unat (word_of_nat L :: u32) = L" using L by (simp add: unsigned_of_nat take_bit_nat_eq_self)
  have "unat u = (if unat f \<le> L then L - unat f else L + 4294967296 - unat f)"
    unfolding u unat_diff_u32 by (simp add: L')
  with pos f have "unat f \<le> L" "unat u = L - unat f" by (auto simp: sint_pos_iff split: if_splits)
  with n L show ?thesis by (subst unat_add_nowrap) auto
qed

lemma tcpNagleAlgo_window:
  assumes r: "tcpNagleAlgo fl c = Some r" and f: "flight (sk c) \<le> 2147483648"
  shows "sndNxt (sk (snd r)) = sndNxt (sk c) \<or> flight (sk (snd r)) \<le> send_limit (sk c)"
proof -
  let ?L = "send_limit (sk c)" and ?una = "sndUna (sk c)"
  define Q where "Q = (\<lambda>c' :: conn. sndUna (sk c') = ?una \<and> (sndNxt (sk c') = sndNxt (sk c) \<or> flight (sk c') \<le> ?L))"
  define S where "S = (\<lambda>u (c' :: conn). Q c' \<and> u = word_of_nat ?L - (sndNxt (sk c') - ?una))"
  have "Q (snd r)"
  proof (rule nagle_loop_invariant [OF r [unfolded tcpNagleAlgo_def], where S = S])
    show "S (usable_window (sk c)) c" by (simp add: S_def Q_def usable_window_limit)
  next
    fix u :: u32 and c1 c2 :: conn
    let ?n = "nagle_size u (sk c1)"
    assume S: "S u c1" and pos: "0 < sint u" and "tcpSendSegment (TCP_FLAG_PSH OR TCP_FLAG_ACK)
      (sndNxt (sk c1)) (rcvNxt (sk c1)) ?n True c1 = (NO_ERROR, c2)"
    then have c2: "sndNxt (sk c2) = sndNxt (sk c1)" "sndUna (sk c2) = sndUna (sk c1)"
      by (auto dest: sk_send_queued)
    have "unat (sndNxt (sk c1) - ?una) \<le> 2147483648"
      using S f send_limit_bound [of "sk c"] by (auto simp: S_def Q_def flight_def)
    then have "unat (sndNxt (sk c1) - ?una + ?n) \<le> ?L"
      using S pos nagle_size_le(1) by (intro flight_advance [where u = u] send_limit_bound) (auto simp: S_def)
    then show "S (u - ?n) (upd (advance_snd ?n) c2)"
      using S c2 by (auto simp: S_def Q_def advance_snd_def flight_def algebra_simps)
  qed (auto simp: S_def Q_def flight_def dest!: sk_send_queued)
  then show ?thesis by (simp add: Q_def)
qed

end
