(* ===== verification/Tcp_Fsm.thy ===== *)
theory Tcp_Fsm
  imports Tcp_Nagle
begin

text \<open>
  The TCP state machine (\<open>core/tcp_fsm.c\<close>): one definition per state handler, and
  \<open>tcpProcessSegment\<close>, which validates a segment, finds its socket in the table and runs the
  handler of the socket's state. A handler that runs \<open>tcpGetOption\<close> or
  \<open>tcpNagleAlgo\<close> is partial: \<open>None\<close> means that it does not return.

  What the handlers keep and which transitions they take is shown in \<open>Tcp_Transitions\<close>,
  \<open>Tcp_Invariants\<close> and the theories built on them.
\<close>

section \<open>The state handlers\<close>

text \<open>Early return on a nonzero error code: \<open>ret\<close> is the rest when there is an error.\<close>

definition on_error :: "error_t \<times> conn \<Rightarrow> (conn \<Rightarrow> 'a) \<Rightarrow> (conn \<Rightarrow> 'a) \<Rightarrow> 'a" where
  "on_error r ret k = (if fst r \<noteq> NO_ERROR then ret (snd r) else k (snd r))"

text \<open>Sending a bare acknowledgment, and switching to TIME-WAIT.\<close>

definition sendAck :: "conn \<Rightarrow> conn" where
  "sendAck c = snd (tcpSendSegment TCP_FLAG_ACK (sndNxt (sk c)) (rcvNxt (sk c)) 0 False c)"

definition enterTimeWait :: "conn \<Rightarrow> conn" where
  "enterTimeWait c =
     tcpChangeState TCP_STATE_TIME_WAIT
       (start_timer timeWaitTimer timeWaitTimer_update TCP_2MSL_TIMER (tcpDeleteControlBlock c))"

definition tcpStateClosed :: "nat \<Rightarrow> IpPseudoHeader \<Rightarrow> TcpHeader \<Rightarrow> u32 \<Rightarrow> ctx \<Rightarrow> ctx" where
  "tcpStateClosed ifc ph h len x =
     (if \<not> has_flag (flags h) TCP_FLAG_RST then snd (tcpSendResetSegment (Some ifc) ph h len x) else x)"

text \<open>The maximum segment size of the peer: option found at position \<open>i\<close>, clamped to the limits.\<close>

definition clamp_mss :: "u16 \<Rightarrow> u16" where
  "clamp_mss v = ucast (max (ucast (ucast (min (ucast v) TCP_MAX_MSS) :: u16)) TCP_MIN_MSS)"

definition mss_option :: "TcpHeader \<Rightarrow> nat option \<Rightarrow> u16 option" where
  "mss_option h opt =
     (case opt of
        None \<Rightarrow> None
      | Some i \<Rightarrow> if options h ! (i + 1) = 4
                  then Some (clamp_mss (of_be16 (options h ! (i + 2)) (options h ! (i + 3)))) else None)"

text \<open>
  A SYN queue item for a connection request. With an invalid pseudo header the code returns with
  an uninitialised item linked into the queue, so nothing is defined from there on (\<open>None\<close>);
  \<open>tcpProcessSegment\<close> discards such packets before.
\<close>

definition addr_of :: "nat \<Rightarrow> u8 list \<Rightarrow> IpAddr" where
  "addr_of n bs = \<lparr>ipLength = n, ipData = bs\<rparr>"

definition synItem :: "nat \<Rightarrow> nat \<Rightarrow> IpPseudoHeader \<Rightarrow> TcpHeader \<Rightarrow> u16 \<Rightarrow> TcpSynQueueItem" where
  "synItem a ifc ph h mss =
     (let n = (if phLength ph = SIZEOF_IPV4_PSEUDO_HEADER then 4 else 16)
      in \<lparr>sqAddress = a, sqInterface = ifc, sqSrcAddr = addr_of n (phSrcAddr ph), sqSrcPort = srcPort h,
          sqDestAddr = addr_of n (phDestAddr ph), sqIsn = seqNum h, sqMss = mss\<rparr>)"

definition tcpStateListen :: "nat \<Rightarrow> IpPseudoHeader \<Rightarrow> TcpHeader \<Rightarrow> u32 \<Rightarrow> conn \<Rightarrow> conn option" where
  "tcpStateListen ifc ph h len c =
     (if has_flag (flags h) TCP_FLAG_RST then Some c
      else if has_flag (flags h) TCP_FLAG_ACK then
        Some (c\<lparr>cx := snd (tcpSendResetSegment (Some ifc) ph h len (cx c))\<rparr>)
      else if has_flag (flags h) TCP_FLAG_SYN then
        if tcpIsDuplicateSyn (sk c) ph h then Some c
        else if synQueue (sk c) \<noteq> [] \<and> word_of_nat (length (synQueue (sk c))) \<ge> synQueueSize (sk c) then Some c
        else
          (case heapAlloc (cx c) of
             (None, x) \<Rightarrow> Some (c\<lparr>cx := x\<rparr>)
           | (Some a, x) \<Rightarrow>
               if phLength ph \<noteq> SIZEOF_IPV4_PSEUDO_HEADER \<and> phLength ph \<noteq> SIZEOF_IPV6_PSEUDO_HEADER then None
               else (case tcpGetOption h TCP_OPTION_MAX_SEGMENT_SIZE of
                  None \<Rightarrow> None
                | Some opt \<Rightarrow>
                    let mss = (case mss_option h opt of None \<Rightarrow> ucast (min TCP_DEFAULT_MSS TCP_MAX_MSS) | Some v \<Rightarrow> v);
                        c = upd (\<lambda>s. s\<lparr>synQueue := synQueue s @ [synItem a ifc ph h mss]\<rparr>) (c\<lparr>cx := x\<rparr>)
                    in Some (tcpUpdateEvents c)))
      else Some c)"

text \<open>The part of the SYN-SENT handler behind the checks of ACK and RST.\<close>

definition synSent_syn :: "TcpHeader \<Rightarrow> conn \<Rightarrow> conn option" where
  "synSent_syn h c =
     (let c = upd (\<lambda>s. s\<lparr>irs := seqNum h, rcvNxt := seqNum h + 1\<rparr>) c;
          c = (if has_flag (flags h) TCP_FLAG_ACK then upd (\<lambda>s. s\<lparr>sndUna := ackNum h\<rparr>) c else c);
          c = snd (tcpComputeRto c);
          c = tcpUpdateRetransmitQueue c
      in case tcpGetOption h TCP_OPTION_MAX_SEGMENT_SIZE of
           None \<Rightarrow> None
         | Some opt \<Rightarrow>
             (let c = (case mss_option h opt of None \<Rightarrow> c | Some v \<Rightarrow> upd (\<lambda>s. s\<lparr>smss := v\<rparr>) c);
                  c = upd (\<lambda>s. s\<lparr>cwnd := ucast (min (TCP_INITIAL_WINDOW * ucast (smss s)) (txBufferSize s))\<rparr>) c
              in if TCP_CMP_SEQ (sndUna (sk c)) (iss (sk c)) > 0 then
                   let c = upd (\<lambda>s. s\<lparr>sndWnd := window h, sndWl1 := seqNum h, sndWl2 := ackNum h,
                                      maxSndWnd := window h\<rparr>) c
                   in Some (tcpChangeState TCP_STATE_ESTABLISHED (sendAck c))
                 else
                   let c = snd (tcpSendSegment (TCP_FLAG_SYN OR TCP_FLAG_ACK) (iss (sk c)) (rcvNxt (sk c)) 0 True c)
                   in Some (tcpChangeState TCP_STATE_SYN_RECEIVED c)))"

definition tcpStateSynSent :: "TcpHeader \<Rightarrow> u32 \<Rightarrow> conn \<Rightarrow> conn option" where
  "tcpStateSynSent h len c =
     (if has_flag (flags h) TCP_FLAG_ACK \<and> ackNum h \<noteq> sndNxt (sk c) then
        Some (if \<not> has_flag (flags h) TCP_FLAG_RST
              then snd (tcpSendSegment TCP_FLAG_RST (ackNum h) 0 0 False c) else c)
      else if has_flag (flags h) TCP_FLAG_RST then
        Some (if has_flag (flags h) TCP_FLAG_ACK then tcpChangeState TCP_STATE_CLOSED c else c)
      else if has_flag (flags h) TCP_FLAG_SYN then synSent_syn h c
      else Some c)"

text \<open>The Nagle algorithm at the end of a handler, its error ignored.\<close>

definition nagle :: "u32 \<Rightarrow> conn \<Rightarrow> conn option" where
  "nagle fl c = map_option snd (tcpNagleAlgo fl c)"

text \<open>The FIN of a segment counts only when all of its data has been received.\<close>

definition fin_received :: "TcpHeader \<Rightarrow> u32 \<Rightarrow> Socket \<Rightarrow> bool" where
  "fin_received h len s \<longleftrightarrow> has_flag (flags h) TCP_FLAG_FIN \<and> rcvNxt s = seqNum h + len"

definition ackFin :: "conn \<Rightarrow> conn" where
  "ackFin c = sendAck (upd (\<lambda>s. s\<lparr>rcvNxt := rcvNxt s + 1\<rparr>) c)"

definition tcpStateEstablished :: "TcpHeader \<Rightarrow> NetBuffer \<Rightarrow> nat \<Rightarrow> u32 \<Rightarrow> conn \<Rightarrow> conn option" where
  "tcpStateEstablished h b off len c =
     on_error (tcpCheckSequenceNumber h len c) Some (\<lambda>c.
     if has_flag (flags h) TCP_FLAG_RST then Some (tcpChangeState TCP_STATE_CLOSED c)
     else on_error (tcpCheckSyn h len c) Some (\<lambda>c.
     on_error (tcpCheckAck h len c) Some (\<lambda>c.
     let c = (if len > 0 then tcpProcessSegmentData h b off len c else c);
         c = (if fin_received h len (sk c) then tcpChangeState TCP_STATE_CLOSE_WAIT (ackFin c) else c);
         fl = (if dupAckCount (sk c) > 0 then SOCKET_FLAG_NO_DELAY else 0)
     in nagle fl c)))"

definition tcpStateSynReceived :: "TcpHeader \<Rightarrow> NetBuffer \<Rightarrow> nat \<Rightarrow> u32 \<Rightarrow> conn \<Rightarrow> conn option" where
  "tcpStateSynReceived h b off len c =
     on_error (tcpCheckSequenceNumber h len c) Some (\<lambda>c.
     if has_flag (flags h) TCP_FLAG_RST then Some (tcpChangeState TCP_STATE_CLOSED c)
     else on_error (tcpCheckSyn h len c) Some (\<lambda>c.
     if \<not> has_flag (flags h) TCP_FLAG_ACK then Some c
     else if ackNum h \<noteq> sndNxt (sk c) then Some (snd (tcpSendSegment TCP_FLAG_RST (ackNum h) 0 0 False c))
     else
       let c = upd (\<lambda>s. s\<lparr>sndWnd := window h, sndWl1 := seqNum h, sndWl2 := ackNum h, maxSndWnd := window h\<rparr>) c;
           c = tcpChangeState TCP_STATE_ESTABLISHED c
       in tcpStateEstablished h b off len c))"

definition tcpStateCloseWait :: "TcpHeader \<Rightarrow> u32 \<Rightarrow> conn \<Rightarrow> conn option" where
  "tcpStateCloseWait h len c =
     on_error (tcpCheckSequenceNumber h len c) Some (\<lambda>c.
     if has_flag (flags h) TCP_FLAG_RST then Some (tcpChangeState TCP_STATE_CLOSED c)
     else on_error (tcpCheckSyn h len c) Some (\<lambda>c.
     on_error (tcpCheckAck h len c) Some (\<lambda>c.
     nagle (if dupAckCount (sk c) > 0 then SOCKET_FLAG_NO_DELAY else 0) c)))"

definition tcpStateLastAck :: "TcpHeader \<Rightarrow> u32 \<Rightarrow> conn \<Rightarrow> conn" where
  "tcpStateLastAck h len c =
     on_error (tcpCheckSequenceNumber h len c) id (\<lambda>c.
     if has_flag (flags h) TCP_FLAG_RST then tcpChangeState TCP_STATE_CLOSED c
     else on_error (tcpCheckSyn h len c) id (\<lambda>c.
     if \<not> has_flag (flags h) TCP_FLAG_ACK then c
     else if ackNum h = sndNxt (sk c) then tcpChangeState TCP_STATE_CLOSED c
     else c))"

definition tcpStateFinWait1 :: "TcpHeader \<Rightarrow> NetBuffer \<Rightarrow> nat \<Rightarrow> u32 \<Rightarrow> conn \<Rightarrow> conn" where
  "tcpStateFinWait1 h b off len c =
     on_error (tcpCheckSequenceNumber h len c) id (\<lambda>c.
     if has_flag (flags h) TCP_FLAG_RST then tcpChangeState TCP_STATE_CLOSED c
     else on_error (tcpCheckSyn h len c) id (\<lambda>c.
     on_error (tcpCheckAck h len c) id (\<lambda>c.
     let c = (if ackNum h = sndNxt (sk c)
              then tcpChangeState TCP_STATE_FIN_WAIT_2
                     (start_timer finWait2Timer finWait2Timer_update TCP_FIN_WAIT_2_TIMER c)
              else c);
         c = (if len > 0 then tcpProcessSegmentData h b off len c else c)
     in if fin_received h len (sk c) then
          let c = ackFin c
          in if ackNum h = sndNxt (sk c) then enterTimeWait c else tcpChangeState TCP_STATE_CLOSING c
        else c)))"

definition tcpStateFinWait2 :: "TcpHeader \<Rightarrow> NetBuffer \<Rightarrow> nat \<Rightarrow> u32 \<Rightarrow> conn \<Rightarrow> conn" where
  "tcpStateFinWait2 h b off len c =
     on_error (tcpCheckSequenceNumber h len c) id (\<lambda>c.
     if has_flag (flags h) TCP_FLAG_RST then tcpChangeState TCP_STATE_CLOSED c
     else on_error (tcpCheckSyn h len c) id (\<lambda>c.
     on_error (tcpCheckAck h len c) id (\<lambda>c.
     let c = (if len > 0 then tcpProcessSegmentData h b off len c else c)
     in if fin_received h len (sk c) then enterTimeWait (ackFin c) else c)))"

definition tcpStateClosing :: "TcpHeader \<Rightarrow> u32 \<Rightarrow> conn \<Rightarrow> conn" where
  "tcpStateClosing h len c =
     on_error (tcpCheckSequenceNumber h len c) id (\<lambda>c.
     if has_flag (flags h) TCP_FLAG_RST then tcpChangeState TCP_STATE_CLOSED c
     else on_error (tcpCheckSyn h len c) id (\<lambda>c.
     on_error (tcpCheckAck h len c) id (\<lambda>c.
     if ackNum h = sndNxt (sk c) then enterTimeWait c else c)))"

text \<open>A socket that the user has given up is released.\<close>

definition disposeSocket :: "conn \<Rightarrow> conn" where
  "disposeSocket c =
     (if \<not> ownedFlag (sk c) then upd (\<lambda>s. s\<lparr>sk_type := SOCKET_TYPE_UNUSED\<rparr>) (tcpDeleteControlBlock c) else c)"

definition tcpStateTimeWait :: "TcpHeader \<Rightarrow> u32 \<Rightarrow> conn \<Rightarrow> conn" where
  "tcpStateTimeWait h len c =
     on_error (tcpCheckSequenceNumber h len c) id (\<lambda>c.
     if has_flag (flags h) TCP_FLAG_RST then disposeSocket (tcpChangeState TCP_STATE_CLOSED c)
     else on_error (tcpCheckSyn h len c) id (\<lambda>c.
     if \<not> has_flag (flags h) TCP_FLAG_ACK then c
     else if has_flag (flags h) TCP_FLAG_FIN then
       start_timer timeWaitTimer timeWaitTimer_update TCP_2MSL_TIMER (sendAck c)
     else c))"

section \<open>Incoming segments\<close>

record net =
  nx :: ctx
  socketTable :: "Socket list"

text \<open>Segments to a broadcast or multicast address are discarded.\<close>

definition ipv4IsMulticastAddr :: "u8 list \<Rightarrow> bool" where "ipv4IsMulticastAddr a \<longleftrightarrow> a ! 0 AND 0xF0 = 0xE0"
definition ipv6IsMulticastAddr :: "u8 list \<Rightarrow> bool" where "ipv6IsMulticastAddr a \<longleftrightarrow> a ! 0 = 0xFF"

definition unicast_dest :: "ctx \<Rightarrow> nat \<Rightarrow> IpPseudoHeader \<Rightarrow> bool" where
  "unicast_dest x ifc ph =
     (if phLength ph = SIZEOF_IPV4_PSEUDO_HEADER then
        \<not> isBroadcastAddr x ifc (phDestAddr ph) \<and> \<not> ipv4IsMulticastAddr (phDestAddr ph)
      else if phLength ph = SIZEOF_IPV6_PSEUDO_HEADER then \<not> ipv6IsMulticastAddr (phDestAddr ph)
      else False)"

text \<open>The filters of the search: socket type, interface, local port, local and remote address.\<close>

definition address_filter :: "nat \<Rightarrow> (IpAddr \<Rightarrow> u8 list) \<Rightarrow> IpAddr \<Rightarrow> u8 list \<Rightarrow> bool" where
  "address_filter n member a pkt \<longleftrightarrow> (ipLength a \<noteq> 0 \<longrightarrow> ipLength a = n \<and> member a = pkt)"

definition socket_matches :: "nat \<Rightarrow> IpPseudoHeader \<Rightarrow> TcpHeader \<Rightarrow> Socket \<Rightarrow> bool" where
  "socket_matches ifc ph h s \<longleftrightarrow>
     sk_type s = SOCKET_TYPE_STREAM \<and>
     (case sk_interface s of None \<Rightarrow> True | Some i \<Rightarrow> i = ifc) \<and>
     localPort s \<noteq> 0 \<and> localPort s = destPort h \<and>
     (if phLength ph = SIZEOF_IPV4_PSEUDO_HEADER then
        address_filter 4 ipv4Addr (localIpAddr s) (phDestAddr ph) \<and>
        address_filter 4 ipv4Addr (remoteIpAddr s) (phSrcAddr ph)
      else if phLength ph = SIZEOF_IPV6_PSEUDO_HEADER then
        address_filter 16 ipv6Addr (localIpAddr s) (phDestAddr ph) \<and>
        address_filter 16 ipv6Addr (remoteIpAddr s) (phSrcAddr ph)
      else False)"

text \<open>The loop over the table: the first socket whose remote port matches, else the first listening one.\<close>

fun find_socket :: "nat \<Rightarrow> IpPseudoHeader \<Rightarrow> TcpHeader \<Rightarrow> Socket list \<Rightarrow> nat \<Rightarrow> nat option \<Rightarrow> nat option" where
  "find_socket ifc ph h [] i passive = passive"
| "find_socket ifc ph h (s # ss) i passive =
     (if \<not> socket_matches ifc ph h s then find_socket ifc ph h ss (Suc i) passive
      else if remotePort s \<noteq> srcPort h then
        find_socket ifc ph h ss (Suc i)
          (if sk_state s = TCP_STATE_LISTEN \<and> passive = None then Some i else passive)
      else Some i)"

text \<open>The \<open>switch\<close> over the state of the socket.\<close>

definition run_state :: "nat \<Rightarrow> IpPseudoHeader \<Rightarrow> TcpHeader \<Rightarrow> NetBuffer \<Rightarrow> nat \<Rightarrow> u32 \<Rightarrow> conn \<Rightarrow> conn option" where
  "run_state ifc ph h b off len c =
     (case sk_state (sk c) of
        TCP_STATE_CLOSED \<Rightarrow> Some (c\<lparr>cx := tcpStateClosed ifc ph h len (cx c)\<rparr>)
      | TCP_STATE_LISTEN \<Rightarrow> tcpStateListen ifc ph h len c
      | TCP_STATE_SYN_SENT \<Rightarrow> tcpStateSynSent h len c
      | TCP_STATE_SYN_RECEIVED \<Rightarrow> tcpStateSynReceived h b off len c
      | TCP_STATE_ESTABLISHED \<Rightarrow> tcpStateEstablished h b off len c
      | TCP_STATE_CLOSE_WAIT \<Rightarrow> tcpStateCloseWait h len c
      | TCP_STATE_LAST_ACK \<Rightarrow> Some (tcpStateLastAck h len c)
      | TCP_STATE_FIN_WAIT_1 \<Rightarrow> Some (tcpStateFinWait1 h b off len c)
      | TCP_STATE_FIN_WAIT_2 \<Rightarrow> Some (tcpStateFinWait2 h b off len c)
      | TCP_STATE_CLOSING \<Rightarrow> Some (tcpStateClosing h len c)
      | TCP_STATE_TIME_WAIT \<Rightarrow> Some (tcpStateTimeWait h len c))"

text \<open>Handing a valid segment to its socket, or answering with a reset when there is none.\<close>

definition deliver :: "nat \<Rightarrow> IpPseudoHeader \<Rightarrow> TcpHeader \<Rightarrow> NetBuffer \<Rightarrow> nat \<Rightarrow> u32 \<Rightarrow> net \<Rightarrow> net option" where
  "deliver ifc ph h b off len w =
     (case find_socket ifc ph h (socketTable w) 0 None of
        None \<Rightarrow>
          Some (if \<not> has_flag (flags h) TCP_FLAG_RST
                then w\<lparr>nx := snd (tcpSendResetSegment (Some ifc) ph h len (nx w))\<rparr> else w)
      | Some i \<Rightarrow>
          (case run_state ifc ph h b off len \<lparr>cx = nx w, sk = socketTable w ! i\<rparr> of
             None \<Rightarrow> None
           | Some c \<Rightarrow> Some \<lparr>nx = cx c, socketTable = (socketTable w)[i := sk c]\<rparr>))"

text \<open>
  The header must lie in one block of memory: the code reads it through one pointer
  (\<open>None\<close> otherwise).
\<close>

definition tcpProcessSegment :: "nat \<Rightarrow> IpPseudoHeader \<Rightarrow> NetBuffer \<Rightarrow> nat \<Rightarrow> net \<Rightarrow> net option" where
  "tcpProcessSegment ifc ph b off w =
     (if \<not> unicast_dest (nx w) ifc ph then Some w
      else
        let len = netBufferGetLength b - off
        in case netBufferAt b off of
             None \<Rightarrow> Some w
           | Some (_, m) \<Rightarrow>
               if len < SIZEOF_TCP_HEADER then Some w
               else if length m < SIZEOF_TCP_HEADER then None
               else
                 let h = tcpHeader_of m; hl = unat (dataOffset h) * 4
                 in if dataOffset h < 5 \<or> hl > len then Some w
                    else if ipCalcUpperLayerChecksumEx 0 (pseudoHeader_bytes ph) b off len \<noteq> 0 then Some w
                    else deliver ifc ph h b (off + hl) (word_of_nat (len - hl)) w)"

end
