(* ===== verification/Tcp_Tick.thy ===== *)
theory Tcp_Tick
  imports Tcp_Fsm
begin

text \<open>
  The periodic timer handler \<open>tcpTick\<close> (\<open>core/tcp_timer.c\<close>), one definition per timer, in
  the order the code runs them on each open socket: retransmission, persist, override of the
  silly window avoidance, FIN-WAIT-2 and 2MSL.
\<close>

section \<open>The implementation\<close>

definition tick_congestion :: "Socket \<Rightarrow> Socket" where
  "tick_congestion s =
     (let s = (if retransmitCount s = 0 then
                 let flightSize = sndNxt s - sndUna s
                 in s\<lparr>ssthresh := ucast (max (flightSize div 2) (2 * ucast (smss s)))\<rparr>
               else s)
      in s\<lparr>cwnd := ucast (min (TCP_LOSS_WINDOW * ucast (smss s)) (txBufferSize s)),
           recover := sndNxt s - 1, congestState := TCP_CONGEST_STATE_LOSS_RECOVERY\<rparr>)"

definition tick_retransmit :: "conn \<Rightarrow> conn" where
  "tick_retransmit c =
     (if retransmitQueue (sk c) \<noteq> [] then
        let (elapsed, c) = timer_elapsed retransmitTimer c
        in if elapsed then
             let c = upd tick_congestion c;
                 c = (if retransmitCount (sk c) < TCP_MAX_RETRIES then
                        let c = snd (tcpRetransmitSegment c);
                            c = upd (\<lambda>s. s\<lparr>rto := min (rto s * 2) TCP_MAX_RTO\<rparr>) c;
                            c = start_timer retransmitTimer retransmitTimer_update (rto (sk c)) c
                        in upd (\<lambda>s. s\<lparr>retransmitCount := retransmitCount s + 1\<rparr>) c
                      else
                        upd (retransmitTimer_update tcpTimerStop) (tcpChangeState TCP_STATE_CLOSED c))
             in upd (\<lambda>s. s\<lparr>rttBusy := False\<rparr>) c
           else c
      else c)"

definition tick_persist :: "conn \<Rightarrow> conn" where
  "tick_persist c =
     (if sndWnd (sk c) = 0 \<and> wndProbeInterval (sk c) \<noteq> 0 then
        let (elapsed, c) = timer_elapsed persistTimer c
        in if elapsed then
             if wndProbeCount (sk c) < TCP_MAX_RETRIES then
               let c = snd (tcpSendSegment TCP_FLAG_ACK (sndNxt (sk c) - 1) (rcvNxt (sk c)) 0 False c);
                   c = upd (\<lambda>s. s\<lparr>wndProbeInterval := min (wndProbeInterval s * 2) TCP_MAX_PROBE_INTERVAL\<rparr>) c;
                   c = start_timer persistTimer persistTimer_update (wndProbeInterval (sk c)) c
               in upd (\<lambda>s. s\<lparr>wndProbeCount := wndProbeCount s + 1\<rparr>) c
             else tcpChangeState TCP_STATE_CLOSED c
           else c
      else c)"

text \<open>Sending all that the usable window \<open>u\<close> permits.\<close>

partial_function (option) override_loop :: "u32 \<Rightarrow> conn \<Rightarrow> conn option" where
  "override_loop u c =
     (if sndUser (sk c) > 0 \<and> sint u > 0 then
        (let n = nagle_size u (sk c);
             r = tcpSendSegment (TCP_FLAG_PSH OR TCP_FLAG_ACK) (sndNxt (sk c)) (rcvNxt (sk c)) n True c
         in if fst r \<noteq> NO_ERROR then Some (snd r)
            else override_loop (u - n) (upd (advance_snd n) (snd r)))
      else Some c)"

declare override_loop.simps [code]

definition tick_override :: "conn \<Rightarrow> conn option" where
  "tick_override c =
     (if sk_state (sk c) = TCP_STATE_ESTABLISHED \<or> sk_state (sk c) = TCP_STATE_CLOSE_WAIT then
        let (elapsed, c) = (if sndUser (sk c) \<noteq> 0 then timer_elapsed overrideTimer c else (False, c))
        in if elapsed then
             case override_loop (usable_window (sk c)) c of
               None \<Rightarrow> None
             | Some c \<Rightarrow>
                 let c = tcpUpdateEvents c
                 in Some (if sndUser (sk c) > 0
                          then start_timer overrideTimer overrideTimer_update TCP_OVERRIDE_TIMEOUT c else c)
           else Some c
      else Some c)"

definition tick_finWait2 :: "conn \<Rightarrow> conn" where
  "tick_finWait2 c =
     (if sk_state (sk c) = TCP_STATE_FIN_WAIT_2 then
        let (elapsed, c) = timer_elapsed finWait2Timer c
        in if elapsed then tcpChangeState TCP_STATE_CLOSED c else c
      else c)"

definition tick_timeWait :: "conn \<Rightarrow> conn" where
  "tick_timeWait c =
     (if sk_state (sk c) = TCP_STATE_TIME_WAIT then
        let (elapsed, c) = timer_elapsed timeWaitTimer c
        in if elapsed then disposeSocket (tcpChangeState TCP_STATE_CLOSED c) else c
      else c)"

definition tick_socket :: "conn \<Rightarrow> conn option" where
  "tick_socket c =
     (if sk_type (sk c) \<noteq> SOCKET_TYPE_STREAM then Some c
      else if sk_state (sk c) = TCP_STATE_CLOSED then Some c
      else
        let c = tick_retransmit c
        in if sk_state (sk c) = TCP_STATE_CLOSED then Some c
           else map_option (\<lambda>c. tick_timeWait (tick_finWait2 c)) (tick_override (tick_persist c)))"

fun tick_loop :: "Socket list \<Rightarrow> ctx \<Rightarrow> (ctx \<times> Socket list) option" where
  "tick_loop [] x = Some (x, [])"
| "tick_loop (s # ss) x =
     (case tick_socket \<lparr>cx = x, sk = s\<rparr> of
        None \<Rightarrow> None
      | Some c \<Rightarrow> map_option (\<lambda>(x, ss). (x, sk c # ss)) (tick_loop ss (cx c)))"

definition tcpTick :: "net \<Rightarrow> net option" where
  "tcpTick w = map_option (\<lambda>(x, ss). \<lparr>nx = x, socketTable = ss\<rparr>) (tick_loop (socketTable w) (nx w))"

end
