(* ===== verification/Tcp_User.thy ===== *)
theory Tcp_User
  imports Tcp_Tick
begin

text \<open>
  The user calls of \<open>core/tcp.c\<close>, with \<open>socketOpen\<close> of \<open>core/socket.c\<close> and the
  address functions of \<open>core/ip.c\<close> they use. A call that blocks releases the mutex; the
  parameter \<open>wait\<close> is what the rest of the system does to the socket (or, for
  \<open>tcpAccept\<close>, to the whole table) before the call goes on.
\<close>

section \<open>Ports and addresses\<close>

definition tcpInit :: "ctx \<Rightarrow> error_t \<times> ctx" where
  "tcpInit x = (NO_ERROR, x\<lparr>tcpDynamicPort := 0\<rparr>)"

definition tcpGetDynamicPort :: "ctx \<Rightarrow> u16 \<times> ctx" where
  "tcpGetDynamicPort x =
     (let port = ucast (tcpDynamicPort x) :: u32;
          (port, x) = (if port < SOCKET_EPHEMERAL_PORT_MIN \<or> port > SOCKET_EPHEMERAL_PORT_MAX then
                         let (r, x) = netGetRand x
                         in (SOCKET_EPHEMERAL_PORT_MIN +
                               r mod (SOCKET_EPHEMERAL_PORT_MAX - SOCKET_EPHEMERAL_PORT_MIN + 1), x)
                       else (port, x));
          next = (if port < SOCKET_EPHEMERAL_PORT_MAX then port + 1 else SOCKET_EPHEMERAL_PORT_MIN)
      in (ucast port, x\<lparr>tcpDynamicPort := ucast next\<rparr>))"

definition udpGetDynamicPort :: "ctx \<Rightarrow> u16 \<times> ctx" where
  "udpGetDynamicPort x =
     (let port = ucast (udpDynamicPort x) :: u32;
          (port, x) = (if port < SOCKET_EPHEMERAL_PORT_MIN \<or> port > SOCKET_EPHEMERAL_PORT_MAX then
                         let (r, x) = netGetRand x
                         in (SOCKET_EPHEMERAL_PORT_MIN +
                               r mod (SOCKET_EPHEMERAL_PORT_MAX - SOCKET_EPHEMERAL_PORT_MIN + 1), x)
                       else (port, x));
          next = (if port < SOCKET_EPHEMERAL_PORT_MAX then port + 1 else SOCKET_EPHEMERAL_PORT_MIN)
      in (ucast port, x\<lparr>udpDynamicPort := ucast next\<rparr>))"

text \<open>Source address selection; the interface and address come from the IPv4 or IPv6 module.\<close>

definition ipSelectSourceAddr ::
  "nat option \<Rightarrow> IpAddr \<Rightarrow> IpAddr \<Rightarrow> ctx \<Rightarrow> error_t \<times> nat option \<times> IpAddr \<times> ctx" where
  "ipSelectSourceAddr ifc dest src x =
     (if ipLength dest = 4 \<or> ipLength dest = 16 then
        let (e, i, a) = sourceResult x (calls x); n = ipLength dest
        in (e, i, \<lparr>ipLength = n, ipData = take n a @ drop n (ipData src)\<rparr>, tick_call x)
      else (ERROR_INVALID_ADDRESS, ifc, src, x))"

definition ipCompAddr :: "IpAddr \<Rightarrow> IpAddr \<Rightarrow> bool" where
  "ipCompAddr a b =
     (if ipLength a = 4 \<and> ipLength b = 4 then ipv4Addr a = ipv4Addr b
      else if ipLength a = 16 \<and> ipLength b = 16 then ipv6Addr a = ipv6Addr b
      else ipLength a = 0 \<and> ipLength b = 0)"

definition ipIsUnspecifiedAddr :: "IpAddr \<Rightarrow> bool" where
  "ipIsUnspecifiedAddr a =
     (if ipLength a = 4 then ipv4Addr a = replicate 4 0
      else if ipLength a = 16 then ipv6Addr a = replicate 16 0
      else False)"

section \<open>Active open\<close>

text \<open>Allocating the buffers of a connection (\<open>N(22880) = 15\<close> chunks each).\<close>

definition allocBuffers :: "conn \<Rightarrow> error_t \<times> conn" where
  "allocBuffers c =
     (let c = upd (\<lambda>s. s\<lparr>txBuffer := (txBuffer s)\<lparr>maxChunkCount := 15\<rparr>,
                         rxBuffer := (rxBuffer s)\<lparr>maxChunkCount := 15\<rparr>\<rparr>) c;
          (e, x, b) = bufSetLength (cx c) (txBuffer (sk c)) (unat (txBufferSize (sk c)));
          c = upd (\<lambda>s. s\<lparr>txBuffer := b\<rparr>) (c\<lparr>cx := x\<rparr>)
      in if e = NO_ERROR then
           let (e, x, b) = bufSetLength (cx c) (rxBuffer (sk c)) (unat (rxBufferSize (sk c)))
           in (e, upd (\<lambda>s. s\<lparr>rxBuffer := b\<rparr>) (c\<lparr>cx := x\<rparr>))
         else (e, c))"

definition initConnect :: "u32 \<Rightarrow> Socket \<Rightarrow> Socket" where
  "initConnect r s =
     (let s = s\<lparr>smss := ucast (min TCP_DEFAULT_MSS TCP_MAX_MSS), rmss := ucast (min (rxBufferSize s) TCP_MAX_MSS),
                iss := r, sndUna := r, sndNxt := r + 1, rcvUser := 0, rcvWnd := ucast (rxBufferSize s),
                rto := TCP_INITIAL_RTO, congestState := TCP_CONGEST_STATE_IDLE\<rparr>
      in s\<lparr>cwnd := ucast (min (TCP_INITIAL_WINDOW * ucast (smss s)) (txBufferSize s)),
           ssthresh := 0xFFFF, recover := iss s\<rparr>)"

definition openConnection :: "IpAddr \<Rightarrow> u16 \<Rightarrow> conn \<Rightarrow> error_t \<times> conn" where
  "openConnection addr port c =
     (let c = upd (\<lambda>s. s\<lparr>remoteIpAddr := addr, remotePort := port\<rparr>) c;
          (e, ifc, src, x) = ipSelectSourceAddr (sk_interface (sk c)) (remoteIpAddr (sk c)) (localIpAddr (sk c)) (cx c);
          c = upd (\<lambda>s. s\<lparr>sk_interface := ifc, localIpAddr := src\<rparr>) (c\<lparr>cx := x\<rparr>)
      in if e \<noteq> NO_ERROR then (e, c)
         else if ipIsUnspecifiedAddr (localIpAddr (sk c)) then (ERROR_NOT_CONFIGURED, c)
         else
           let (e, c) = allocBuffers (upd (\<lambda>s. s\<lparr>ownedFlag := True\<rparr>) c)
           in if e \<noteq> NO_ERROR then (e, tcpDeleteControlBlock c)
              else
                let (r, x) = netGetRand (cx c);
                    c = upd (initConnect r) (c\<lparr>cx := x\<rparr>);
                    (e, c) = tcpSendSegment TCP_FLAG_SYN (iss (sk c)) 0 0 True c
                in if e \<noteq> NO_ERROR then (e, c) else (NO_ERROR, tcpChangeState TCP_STATE_SYN_SENT c))"

definition tcpConnect :: "(systime_t \<Rightarrow> conn \<Rightarrow> conn) \<Rightarrow> IpAddr \<Rightarrow> u16 \<Rightarrow> conn \<Rightarrow> error_t \<times> conn" where
  "tcpConnect wait addr port c =
     (let (e, c) = (if sk_state (sk c) = TCP_STATE_CLOSED then openConnection addr port c else (NO_ERROR, c))
      in if e \<noteq> NO_ERROR then (e, c)
         else
           let (ev, c) = tcpWaitForEvents wait (SOCKET_EVENT_CONNECTED OR SOCKET_EVENT_CLOSED) (sk_timeout (sk c)) c
           in (if ev = SOCKET_EVENT_CONNECTED then NO_ERROR
               else if ev = SOCKET_EVENT_CLOSED then ERROR_CONNECTION_FAILED
               else ERROR_TIMEOUT, c))"

section \<open>Passive open\<close>

definition tcpListen :: "u32 \<Rightarrow> conn \<Rightarrow> error_t \<times> conn" where
  "tcpListen backlog c =
     (if sk_state (sk c) \<noteq> TCP_STATE_CLOSED then (ERROR_ALREADY_CONNECTED, c)
      else
        let n = (if backlog > 0 then backlog else TCP_DEFAULT_SYN_QUEUE_SIZE);
            c = upd (\<lambda>s. s\<lparr>synQueueSize := min n TCP_MAX_SYN_QUEUE_SIZE\<rparr>) c
        in (NO_ERROR, tcpChangeState TCP_STATE_LISTEN c))"

section \<open>Closing\<close>

definition releaseSocket :: "conn \<Rightarrow> conn" where
  "releaseSocket c =
     upd (\<lambda>s. s\<lparr>sk_type := SOCKET_TYPE_UNUSED\<rparr>) (tcpDeleteControlBlock (tcpChangeState TCP_STATE_CLOSED c))"

definition tcpAbort :: "conn \<Rightarrow> error_t \<times> conn" where
  "tcpAbort c =
     (if sk_state (sk c) \<in> {TCP_STATE_SYN_RECEIVED, TCP_STATE_ESTABLISHED, TCP_STATE_FIN_WAIT_1,
                            TCP_STATE_FIN_WAIT_2, TCP_STATE_CLOSE_WAIT} then
        let (e, c) = tcpSendSegment TCP_FLAG_RST (sndNxt (sk c)) 0 0 False c in (e, releaseSocket c)
      else if sk_state (sk c) = TCP_STATE_TIME_WAIT then (NO_ERROR, upd (\<lambda>s. s\<lparr>ownedFlag := False\<rparr>) c)
      else (NO_ERROR, releaseSocket c))"

definition tcpGetState :: "Socket \<Rightarrow> TcpState" where
  "tcpGetState s = sk_state s"

section \<open>Sending\<close>

text \<open>The checks of \<open>tcpSend\<close> once the send buffer is reported ready: an error, or the room left.\<close>

definition send_check :: "Socket \<Rightarrow> error_t + u32" where
  "send_check s =
     (if sk_state s = TCP_STATE_ESTABLISHED \<or> sk_state s = TCP_STATE_CLOSE_WAIT then
        let n = ucast (sndUser s) + sndNxt s - sndUna s
        in if n \<ge> txBufferSize s then Inl ERROR_FAILURE else Inr (txBufferSize s - n)
      else if sk_state s \<in> {TCP_STATE_LAST_ACK, TCP_STATE_FIN_WAIT_1, TCP_STATE_FIN_WAIT_2,
                            TCP_STATE_CLOSING, TCP_STATE_TIME_WAIT} then Inl ERROR_CONNECTION_CLOSING
      else Inl (if resetFlag s then ERROR_CONNECTION_RESET else ERROR_NOT_CONNECTED))"

text \<open>Copying \<open>n\<close> bytes behind the data already waiting.\<close>

definition send_copy :: "u8 list \<Rightarrow> u32 \<Rightarrow> conn \<Rightarrow> conn" where
  "send_copy data n c =
     (if n > 0 then
        let c = upd (\<lambda>s. tcpWriteTxBuffer s (sndNxt s + ucast (sndUser s)) data n) c;
            c = upd (\<lambda>s. s\<lparr>sndUser := sndUser s + ucast n\<rparr>) c;
            c = tcpUpdateEvents c
        in if ucast (sndUser (sk c)) = n
           then start_timer overrideTimer overrideTimer_update TCP_OVERRIDE_TIMEOUT c else c
      else c)"

text \<open>The \<open>do\<close> loop: the result is the error code, the number of bytes written and the connection.\<close>

partial_function (option) send_loop ::
  "(systime_t \<Rightarrow> conn \<Rightarrow> conn) \<Rightarrow> u32 \<Rightarrow> u8 list \<Rightarrow> u32 \<Rightarrow> u32 \<Rightarrow> conn \<Rightarrow> (error_t \<times> u32 \<times> conn) option" where
  "send_loop wait fl data len tot c =
     (let r = tcpWaitForEvents wait SOCKET_EVENT_TX_READY (sk_timeout (sk c)) c;
          c = snd r
      in if fst r \<noteq> SOCKET_EVENT_TX_READY then Some (ERROR_TIMEOUT, tot, c)
         else case send_check (sk c) of
           Inl e \<Rightarrow> Some (e, tot, c)
         | Inr room \<Rightarrow>
             (let n = min room (len - tot)
              in case tcpNagleAlgo fl (send_copy (drop (unat tot) data) n c) of
                   None \<Rightarrow> None
                 | Some r \<Rightarrow>
                     if tot + n < len then send_loop wait fl data len (tot + n) (snd r)
                     else Some (NO_ERROR, tot + n, snd r)))"

declare send_loop.simps [code]

definition tcpSend ::
  "(systime_t \<Rightarrow> conn \<Rightarrow> conn) \<Rightarrow> u8 list \<Rightarrow> u32 \<Rightarrow> u32 \<Rightarrow> conn \<Rightarrow> (error_t \<times> u32 \<times> conn) option" where
  "tcpSend wait data len fl c =
     (if sk_state (sk c) = TCP_STATE_LISTEN then Some (ERROR_NOT_CONNECTED, 0, c)
      else case send_loop wait fl data len 0 c of
        None \<Rightarrow> None
      | Some (e, tot, c) \<Rightarrow>
          if e \<noteq> NO_ERROR then Some (e, tot, c)
          else if has_opt fl SOCKET_FLAG_WAIT_ACK then
            let (ev, c) = tcpWaitForEvents wait SOCKET_EVENT_TX_ACKED (sk_timeout (sk c)) c
            in Some (if ev \<noteq> SOCKET_EVENT_TX_ACKED then ERROR_TIMEOUT
                     else if sk_state (sk c) \<noteq> TCP_STATE_ESTABLISHED \<and> sk_state (sk c) \<noteq> TCP_STATE_CLOSE_WAIT
                     then ERROR_NOT_CONNECTED else NO_ERROR, tot, c)
          else Some (NO_ERROR, tot, c))"

section \<open>Receiving\<close>

text \<open>
  The \<open>switch\<close> of \<open>tcpReceive\<close>: an error code to return (\<open>NO_ERROR\<close> included), or the
  sequence number of the first byte to read. \<open>got\<close>: some data has been read already.
\<close>

definition receive_check :: "bool \<Rightarrow> Socket \<Rightarrow> error_t + u32" where
  "receive_check got s =
     (let on_hand = (if rcvUser s = 0 then Inl (if got then NO_ERROR else ERROR_END_OF_STREAM)
                     else Inr (rcvNxt s - 1 - ucast (rcvUser s)))
      in if sk_state s \<in> {TCP_STATE_ESTABLISHED, TCP_STATE_FIN_WAIT_1, TCP_STATE_FIN_WAIT_2} then
           Inr (rcvNxt s - ucast (rcvUser s))
         else if sk_state s \<in> {TCP_STATE_CLOSE_WAIT, TCP_STATE_LAST_ACK, TCP_STATE_CLOSING, TCP_STATE_TIME_WAIT} then
           on_hand
         else if resetFlag s then Inl ERROR_CONNECTION_RESET
         else if \<not> closedFlag s then Inl ERROR_NOT_CONNECTED
         else on_hand)"

text \<open>The number of bytes up to and including the break character, if it is among the first \<open>n\<close>.\<close>

definition break_length :: "u8 \<Rightarrow> u8 list \<Rightarrow> u32 \<Rightarrow> u32" where
  "break_length ch data n = min n (word_of_nat (length (takeWhile (\<lambda>x. x \<noteq> ch) (take (unat n) data))) + 1)"

definition receive_consume :: "u32 \<Rightarrow> conn \<Rightarrow> conn" where
  "receive_consume n c =
     tcpUpdateEvents (tcpUpdateReceiveWindow (upd (\<lambda>s. s\<lparr>rcvUser := ucast (ucast (rcvUser s) - n)\<rparr>) c))"

text \<open>One pass of the loop: a result to return, or the user's buffer, the count and the connection to go on with.\<close>

definition receive_step ::
  "(systime_t \<Rightarrow> conn \<Rightarrow> conn) \<Rightarrow> u32 \<Rightarrow> u32 \<Rightarrow> u8 list \<Rightarrow> u32 \<Rightarrow> conn \<Rightarrow>
   (error_t \<times> u32 \<times> u8 list \<times> conn) + (u8 list \<times> u32 \<times> conn)" where
  "receive_step wait fl sz data received c =
     (let timeout = (if has_opt fl SOCKET_FLAG_DONT_WAIT then 0 else sk_timeout (sk c));
          (ev, c) = tcpWaitForEvents wait SOCKET_EVENT_RX_READY timeout c
      in if ev \<noteq> SOCKET_EVENT_RX_READY then Inl (ERROR_TIMEOUT, received, data, c)
         else case receive_check (received > 0) (sk c) of
           Inl e \<Rightarrow> Inl (e, received, data, c)
         | Inr seq \<Rightarrow>
             if rcvUser (sk c) = 0 then Inl (ERROR_FAILURE, received, data, c)
             else
               let n = min (ucast (rcvUser (sk c))) (sz - received);
                   p = tcpReadRxBuffer (sk c) seq (drop (unat received) data) n;
                   data = take (unat received) data @ p;
                   n = (if has_opt fl SOCKET_FLAG_BREAK_CHAR then break_length (ucast fl) p n else n);
                   c = receive_consume n c;
                   stop = (if has_opt fl SOCKET_FLAG_BREAK_CHAR then p ! unat (n - 1) = ucast fl
                           else \<not> has_opt fl SOCKET_FLAG_WAIT_ALL)
               in if stop then Inl (NO_ERROR, received + n, data, c) else Inr (data, received + n, c))"

lemma break_length_pos: "0 < unat n \<Longrightarrow> unat n < 65536 \<Longrightarrow> 0 < unat (break_length ch p n) \<and> unat (break_length ch p n) \<le> unat n"
proof -
  assume n: "0 < unat n" "unat n < 65536"
  let ?k = "length (takeWhile (\<lambda>x. x \<noteq> ch) (take (unat n) p))"
  have "?k \<le> unat n" using length_takeWhile_le [of _ "take (unat n) p"] by (rule le_trans) simp
  then have "unat (word_of_nat ?k + 1 :: u32) = ?k + 1"
    using n by (subst unat_add_nowrap) (simp_all add: unsigned_of_nat take_bit_nat_eq_self)
  with n show ?thesis by (simp add: break_length_def min_def word_le_nat_alt)
qed

text \<open>A pass that goes on has read at least one byte and not more than was asked for.\<close>

lemma receive_step_progress:
  assumes "receive_step wait fl sz data received c = Inr (d, r, c')" and "received < sz"
  shows "unat received < unat r \<and> unat r \<le> unat sz"
proof -
  obtain ev c1 where w: "tcpWaitForEvents wait SOCKET_EVENT_RX_READY
      (if has_opt fl SOCKET_FLAG_DONT_WAIT then 0 else sk_timeout (sk c)) c = (ev, c1)" by fastforce
  define n where "n = min (ucast (rcvUser (sk c1))) (sz - received)"
  from assms(1) w obtain p where u: "rcvUser (sk c1) \<noteq> 0"
    and r: "r = received + (if has_opt fl SOCKET_FLAG_BREAK_CHAR then break_length (ucast fl) p n else n)"
    by (auto simp: receive_step_def Let_def n_def split: if_splits sum.splits)
  have d: "unat (sz - received) = unat sz - unat received" "unat received < unat sz"
    using assms(2) by (simp_all add: unat_diff_u32 word_less_nat_alt)
  have u': "0 < unat (rcvUser (sk c1))" using u by (simp add: unat_gt_0)
  have n: "0 < unat n" "unat n < 65536" "unat n \<le> unat sz - unat received"
    using u' d u16_bound [of "rcvUser (sk c1)"]
    by (simp_all only: n_def min_def word_le_nat_alt unat_ucast_16_32 split: if_splits) auto
  obtain k where k: "r = received + k" "0 < unat k" "unat k \<le> unat n"
    using r n break_length_pos [of n "ucast fl" p] by (auto split: if_splits)
  then have "unat r = unat received + unat k"
    using n d u32_bound [of sz] by (simp add: unat_add_nowrap)
  with k n d show ?thesis by linarith
qed

function receive_loop ::
  "(systime_t \<Rightarrow> conn \<Rightarrow> conn) \<Rightarrow> u32 \<Rightarrow> u32 \<Rightarrow> u8 list \<Rightarrow> u32 \<Rightarrow> conn \<Rightarrow> error_t \<times> u32 \<times> u8 list \<times> conn" where
  "receive_loop wait fl sz data received c =
     (if received < sz then
        case receive_step wait fl sz data received c of
          Inl r \<Rightarrow> r
        | Inr (data, received, c) \<Rightarrow> receive_loop wait fl sz data received c
      else (NO_ERROR, received, data, c))"
  by pat_completeness auto
termination
  by (relation "measure (\<lambda>(wait, fl, sz, data, received, c). unat sz - unat received)")
    (auto dest: receive_step_progress)

declare receive_loop.simps [simp del]

definition tcpReceive ::
  "(systime_t \<Rightarrow> conn \<Rightarrow> conn) \<Rightarrow> u8 list \<Rightarrow> u32 \<Rightarrow> u32 \<Rightarrow> conn \<Rightarrow> error_t \<times> u32 \<times> u8 list \<times> conn" where
  "tcpReceive wait data sz fl c =
     (if sk_state (sk c) = TCP_STATE_LISTEN then (ERROR_NOT_CONNECTED, 0, data, c)
      else receive_loop wait fl sz data 0 c)"

section \<open>Graceful shutdown\<close>

definition waitFor :: "(systime_t \<Rightarrow> conn \<Rightarrow> conn) \<Rightarrow> u32 \<Rightarrow> conn \<Rightarrow> error_t \<times> conn" where
  "waitFor wait ev c =
     (let (r, c) = tcpWaitForEvents wait ev (sk_timeout (sk c)) c
      in (if r \<noteq> ev then ERROR_TIMEOUT else NO_ERROR, c))"

text \<open>Flushing the send buffer, sending the FIN, and waiting for it to be acknowledged.\<close>

definition flushAndFin :: "(systime_t \<Rightarrow> conn \<Rightarrow> conn) \<Rightarrow> TcpState \<Rightarrow> conn \<Rightarrow> (error_t \<times> conn) option" where
  "flushAndFin wait newState c =
     (case tcpSend wait [] 0 SOCKET_FLAG_NO_DELAY c of
        None \<Rightarrow> None
      | Some (e, _, c) \<Rightarrow>
          if e \<noteq> NO_ERROR then Some (e, c)
          else
            let (e, c) = waitFor wait SOCKET_EVENT_TX_DONE c
            in if e \<noteq> NO_ERROR then Some (e, c)
               else
                 let (e, c) = tcpSendSegment (TCP_FLAG_FIN OR TCP_FLAG_ACK) (sndNxt (sk c)) (rcvNxt (sk c)) 0 True c
                 in if e \<noteq> NO_ERROR then Some (e, c)
                    else
                      let c = upd (\<lambda>s. s\<lparr>sndNxt := sndNxt s + 1\<rparr>) c;
                          c = tcpChangeState newState c
                      in Some (waitFor wait SOCKET_EVENT_TX_SHUTDOWN c))"

definition shutdown_send :: "(systime_t \<Rightarrow> conn \<Rightarrow> conn) \<Rightarrow> conn \<Rightarrow> (error_t \<times> conn) option" where
  "shutdown_send wait c =
     (if sk_state (sk c) \<in> {TCP_STATE_CLOSED, TCP_STATE_LISTEN} then Some (ERROR_NOT_CONNECTED, c)
      else if sk_state (sk c) \<in> {TCP_STATE_SYN_RECEIVED, TCP_STATE_ESTABLISHED} then
        flushAndFin wait TCP_STATE_FIN_WAIT_1 c
      else if sk_state (sk c) = TCP_STATE_CLOSE_WAIT then flushAndFin wait TCP_STATE_LAST_ACK c
      else if sk_state (sk c) \<in> {TCP_STATE_FIN_WAIT_1, TCP_STATE_CLOSING, TCP_STATE_LAST_ACK} then
        Some (waitFor wait SOCKET_EVENT_TX_SHUTDOWN c)
      else Some (NO_ERROR, c))"

definition shutdown_receive :: "(systime_t \<Rightarrow> conn \<Rightarrow> conn) \<Rightarrow> conn \<Rightarrow> error_t \<times> conn" where
  "shutdown_receive wait c =
     (if sk_state (sk c) = TCP_STATE_LISTEN then (ERROR_NOT_CONNECTED, c)
      else if sk_state (sk c) \<in> {TCP_STATE_SYN_SENT, TCP_STATE_SYN_RECEIVED, TCP_STATE_ESTABLISHED,
                                 TCP_STATE_FIN_WAIT_1, TCP_STATE_FIN_WAIT_2} then
        waitFor wait SOCKET_EVENT_RX_SHUTDOWN c
      else (NO_ERROR, c))"

definition tcpShutdown :: "(systime_t \<Rightarrow> conn \<Rightarrow> conn) \<Rightarrow> SocketShutdown \<Rightarrow> conn \<Rightarrow> (error_t \<times> conn) option" where
  "tcpShutdown wait how c =
     (case (if how = SOCKET_SD_SEND \<or> how = SOCKET_SD_BOTH then shutdown_send wait c else Some (NO_ERROR, c)) of
        None \<Rightarrow> None
      | Some (e, c) \<Rightarrow>
          if e \<noteq> NO_ERROR then Some (e, c)
          else if how = SOCKET_SD_RECEIVE \<or> how = SOCKET_SD_BOTH then Some (shutdown_receive wait c)
          else Some (NO_ERROR, c))"

end
