(* ===== verification/Tcp_Reassembly.thy ===== *)
theory Tcp_Reassembly
  imports Tcp_User
begin

text \<open>
  The stream the user receives. The peer sends a stream of bytes \<open>f\<close>; byte \<open>p\<close> has the sequence
  number \<open>irs + 1 + p\<close>. The invariant \<open>rx_flow\<close> says that the receive buffer holds the bytes of
  \<open>f\<close> for the data waiting for the user and for the blocks received out of order, and that these
  blocks are separated and lie in the window. Taking in a segment (\<open>tcpProcessSegmentData\<close>) and
  reading (\<open>tcpReceive\<close>) keep it, so what the user reads is the stream, in order, without gaps or
  repetitions, whatever the order and overlap of the segments. The positions must stay below
  \<open>2^32\<close> (\<open>rx_room\<close>): the code compares raw sequence numbers and reduces relative ones modulo the
  buffer size.
\<close>

section \<open>Blocks received out of order\<close>

definition apart :: "TcpSackBlock \<Rightarrow> TcpSackBlock \<Rightarrow> bool" where
  "apart b d \<longleftrightarrow> unat (rightEdge b) < unat (leftEdge d) \<or> unat (rightEdge d) < unat (leftEdge b)"

lemma apart_sym: "apart b d \<longleftrightarrow> apart d b"
  by (auto simp: apart_def)

abbreviation blk :: "u32 \<Rightarrow> u32 \<Rightarrow> TcpSackBlock" where
  "blk l r \<equiv> \<lparr>leftEdge = l, rightEdge = r\<rparr>"

lemma touch_iff:
  "no_wrap m l r (b # bs) \<Longrightarrow>
   TCP_CMP_SEQ r (leftEdge b) \<ge> 0 \<and> TCP_CMP_SEQ l (rightEdge b) \<le> 0 \<longleftrightarrow> \<not> apart (blk l r) b"
  by (auto simp: no_wrap_def apart_def seq_ge_iff [of m])

lemma unat_min_max: "unat (min a b :: u32) = min (unat a) (unat b)" "unat (max a b :: u32) = max (unat a) (unat b)"
  by (simp_all add: min_def max_def word_le_nat_alt)

lemma apart_join:
  assumes "apart (blk l r) d" "apart b d" "\<not> apart (blk l r) b" "unat l \<le> unat r"
    "unat (leftEdge b) \<le> unat (rightEdge b)" "unat (leftEdge d) \<le> unat (rightEdge d)"
  shows "apart (blk (min l (leftEdge b)) (max r (rightEdge b))) d"
  using assms by (simp add: apart_def unat_min_max) linarith

lemma sack_merge_apart:
  assumes "no_wrap m l r bs" and "sorted_wrt apart bs" and "sack_merge bs l r = (l', r', bs')"
    and "apart (blk l r) d" and "\<forall>b \<in> set bs. apart b d" and "unat (leftEdge d) \<le> unat (rightEdge d)"
  shows "apart (blk l' r') d"
  using assms
proof (induction bs arbitrary: l r l' r' bs')
  case (Cons b bs)
  show ?case
  proof (cases "apart (blk l r) b")
    case False
    have nw: "no_wrap m (min l (leftEdge b)) (max r (rightEdge b)) bs"
      using Cons.prems(1) by (auto simp: no_wrap_def unat_min_max)
    from Cons.IH [OF nw _ _ apart_join [OF Cons.prems(4) _ False]] Cons.prems False show ?thesis
      by (auto simp: touch_iff [OF Cons.prems(1)] no_wrap_def)
  next
    case True
    moreover have "no_wrap m l r bs" using Cons.prems(1) by (simp add: no_wrap_def)
    ultimately show ?thesis using Cons.IH [of l r l' r'] Cons.prems touch_iff [OF Cons.prems(1)]
      by (auto split: prod.splits)
  qed
qed simp


lemma sack_merge_result:
  assumes "no_wrap m l r bs" and "sorted_wrt apart bs" and "sack_merge bs l r = (l', r', bs')"
  shows "set bs' \<subseteq> set bs \<and> sorted_wrt apart bs' \<and> (\<forall>b \<in> set bs'. apart (blk l' r') b)"
    and "unat l' \<le> unat l \<and> unat r \<le> unat r'"
    and "lo \<le> unat l \<Longrightarrow> \<forall>b \<in> set bs. lo \<le> unat (leftEdge b) \<Longrightarrow> lo \<le> unat l'"
    and "unat r \<le> hi \<Longrightarrow> \<forall>b \<in> set bs. unat (rightEdge b) \<le> hi \<Longrightarrow> unat r' \<le> hi"
proof -
  have "(set bs' \<subseteq> set bs \<and> sorted_wrt apart bs' \<and> (\<forall>b \<in> set bs'. apart (blk l' r') b)) \<and>
    (unat l' \<le> unat l \<and> unat r \<le> unat r') \<and>
    (lo \<le> unat l \<longrightarrow> (\<forall>b \<in> set bs. lo \<le> unat (leftEdge b)) \<longrightarrow> lo \<le> unat l') \<and>
    (unat r \<le> hi \<longrightarrow> (\<forall>b \<in> set bs. unat (rightEdge b) \<le> hi) \<longrightarrow> unat r' \<le> hi)"
    using assms
  proof (induction bs arbitrary: l r l' r' bs')
    case (Cons b bs)
    show ?case
    proof (cases "apart (blk l r) b")
      case False
      have nw: "no_wrap m (min l (leftEdge b)) (max r (rightEdge b)) bs"
        using Cons.prems(1) by (auto simp: no_wrap_def unat_min_max)
      have "sack_merge bs (min l (leftEdge b)) (max r (rightEdge b)) = (l', r', bs')"
        using Cons.prems(3) False touch_iff [OF Cons.prems(1)] by simp
      from Cons.IH [OF nw _ this] Cons.prems(2) show ?thesis
        by (simp add: unat_min_max) blast
    next
      case True
      then obtain bs2 where b2: "sack_merge bs l r = (l', r', bs2)" "bs' = b # bs2"
        using Cons.prems(3) touch_iff [OF Cons.prems(1)] by (auto split: prod.splits)
      have nw: "no_wrap m l r bs" using Cons.prems(1) by (simp add: no_wrap_def)
      have "apart (blk l' r') b"
        using sack_merge_apart [OF nw _ b2(1) True] Cons.prems(1,2) by (auto simp: apart_sym [of b] no_wrap_def)
      with Cons.IH [OF nw _ b2(1)] Cons.prems(2) b2(2) show ?thesis by auto
    qed
  qed simp
  then show "set bs' \<subseteq> set bs \<and> sorted_wrt apart bs' \<and> (\<forall>b \<in> set bs'. apart (blk l' r') b)"
    and "unat l' \<le> unat l \<and> unat r \<le> unat r'"
    and "lo \<le> unat l \<Longrightarrow> \<forall>b \<in> set bs. lo \<le> unat (leftEdge b) \<Longrightarrow> lo \<le> unat l'"
    and "unat r \<le> hi \<Longrightarrow> \<forall>b \<in> set bs. unat (rightEdge b) \<le> hi \<Longrightarrow> unat r' \<le> hi"
    by blast+
qed

lemma ring_write_slot:
  assumes "length xs \<le> length r" and "a \<le> p" and "p + length xs \<le> a + length r" and "a \<le> q" and "q < a + length r"
  shows "ring_write r p xs ! (q mod length r) =
    (if p \<le> q \<and> q < p + length xs then xs ! (q - p) else r ! (q mod length r))"
proof (cases "p \<le> q")
  case True
  then show ?thesis using nth_ring_write [of p q r xs] assms by auto
next
  case False
  have "ring_write r p xs ! ((q + length r) mod length r) = r ! ((q + length r) mod length r)"
    using nth_ring_write [of p "q + length r" r xs] assms False by (auto split: if_splits)
  with False show ?thesis by simp
qed


lemma cmp_offset:
  fixes a b :: u32
  assumes "unat b + d = unat a" and "d < 2147483648"
  shows "TCP_CMP_SEQ a b = int d" and "TCP_CMP_SEQ b a = - int d"
proof -
  have u: "unat (a - b) = d" using assms(1) by (simp add: unat_diff_u32)
  then show "TCP_CMP_SEQ a b = int d" using assms(2) unfolding TCP_CMP_SEQ_def sint_u32 by simp
  have "unat (b - a) = (if d = 0 then 0 else 4294967296 - d)"
    using assms u32_bound [of a] by (auto simp: unat_diff_u32)
  then show "TCP_CMP_SEQ b a = - int d" using assms(2) unfolding TCP_CMP_SEQ_def sint_u32 by auto
qed

section \<open>The part of a segment in the window\<close>

text \<open>The first byte of the segment that is taken, and the range of sequence numbers it gives.\<close>

definition seg_skip :: "Socket \<Rightarrow> u32 \<Rightarrow> nat" where
  "seg_skip s seq = (if TCP_CMP_SEQ seq (rcvNxt s) < 0 then unat (rcvNxt s - seq) else 0)"

definition seg_left :: "Socket \<Rightarrow> u32 \<Rightarrow> u32" where
  "seg_left s seq = (if TCP_CMP_SEQ seq (rcvNxt s) < 0 then rcvNxt s else seq)"

definition seg_right :: "Socket \<Rightarrow> u32 \<Rightarrow> u32 \<Rightarrow> u32" where
  "seg_right s seq len =
     (if TCP_CMP_SEQ (seq + len) (rcvNxt s + ucast (rcvWnd s)) > 0 then rcvNxt s + ucast (rcvWnd s) else seq + len)"

lemmas seg_range_defs = seg_skip_def seg_left_def seg_right_def

lemma trim_segment:
  fixes s :: Socket and seq nxt len :: u32 and w :: u16
  defines "nxt \<equiv> rcvNxt s" and "w \<equiv> rcvWnd s"
  assumes lin: "unat nxt + unat w < 2 ^ 32" and len: "0 < unat len" "unat len < 65536"
    and acc: "unat (seq - nxt) < unat w \<or> unat (seq + len - 1 - nxt) < unat w"
  defines "k \<equiv> seg_skip s seq" and "l \<equiv> seg_left s seq" and "r \<equiv> seg_right s seq len"
  shows "l = seq + of_nat k" and "0 < unat (r - l)" and "k + unat (r - l) \<le> unat len"
    and "unat r = unat l + unat (r - l)" and "unat nxt \<le> unat l" and "unat r \<le> unat nxt + unat w"
proof -
  have W: "unat (nxt + ucast w) = unat nxt + unat w" using lin by (subst unat_add_nowrap) auto
  have "l = seq + of_nat k \<and> 0 < unat (r - l) \<and> k + unat (r - l) \<le> unat len \<and> unat r = unat l + unat (r - l)
    \<and> unat nxt \<le> unat l \<and> unat r \<le> unat nxt + unat w"
  proof (cases "unat (seq - nxt) < unat w")
    case True
    define d where "d = unat (seq - nxt)"
    have d: "seq = nxt + word_of_nat d" "d < unat w" "d < 65536" using True u16_bound [of w] by (simp_all add: d_def)
    have s: "unat seq = unat nxt + d" using lin d unfolding d(1) by (subst unat_add_nowrap) (simp_all add: unat_word_of_nat_u32)
    then have c: "TCP_CMP_SEQ seq nxt = int d" using d by (intro cmp_offset) auto
    have "TCP_CMP_SEQ (seq + len) (nxt + ucast w) > 0 \<longleftrightarrow> unat w < d + unat len"
    proof -
      have "seq + len - (nxt + ucast w) = word_of_nat d + len - ucast w" by (simp add: d(1))
      moreover have "unat (word_of_nat d + len) = d + unat len"
        using d len by (subst unat_add_nowrap) (simp_all add: unat_word_of_nat_u32)
      ultimately have "unat (seq + len - (nxt + ucast w)) =
          (if unat w \<le> d + unat len then d + unat len - unat w else d + unat len + 4294967296 - unat w)"
        by (simp only: unat_diff_u32 unat_ucast_16_32)
      then show ?thesis using d len u16_bound [of w] unfolding TCP_CMP_SEQ_def sint_pos_iff by (auto split: if_splits)
    qed
    then have "r = (if unat w < d + unat len then nxt + ucast w else seq + len)" "l = seq" "k = 0"
      using c by (simp_all add: r_def l_def k_def seg_range_defs nxt_def w_def)
    moreover have "unat (seq + len) = unat seq + unat len" if "d + unat len \<le> unat w"
      using that lin s by (subst unat_add_nowrap) auto
    ultimately show ?thesis using d(2) len s W
      by (cases "unat w < d + unat len") (simp_all add: unat_diff_u32)
  next
    case False
    with acc have e: "unat (seq + len - 1 - nxt) < unat w" by simp
    define e where "e = unat (seq + len - 1 - nxt)"
    have seq: "seq + len = nxt + word_of_nat (e + 1)"
      by (simp add: e_def algebra_simps)
    have eb: "e < unat w" "e < 65536" using e u16_bound [of w] by (simp_all add: e_def)
    have sl: "unat (seq + len) = unat nxt + (e + 1)"
      unfolding seq using lin eb by (subst unat_add_nowrap) (simp_all add: unat_word_of_nat_u32 del: of_nat_Suc of_nat_add)
    have ue: "unat (word_of_nat (e + 1) :: u32) = e + 1" using eb by (simp add: unat_word_of_nat_u32 del: of_nat_Suc of_nat_add)
    have diff: "seq - nxt = word_of_nat (e + 1) - len" "nxt - seq = len - word_of_nat (e + 1)"
      using seq by (simp_all add: algebra_simps)
    have lt: "e + 1 < unat len"
    proof (rule ccontr)
      assume "\<not> e + 1 < unat len"
      then have "unat (seq - nxt) = e + 1 - unat len" unfolding diff by (simp only: unat_diff_u32 ue) simp
      with False eb len show False by auto
    qed
    have dn: "unat (nxt - seq) = unat len - (e + 1)" "unat (seq - nxt) = e + 1 + 4294967296 - unat len"
      unfolding diff using lt by (simp_all only: unat_diff_u32 ue) simp_all
    have "\<not> 0 \<le> TCP_CMP_SEQ seq nxt"
      using dn(2) lt len unfolding TCP_CMP_SEQ_def sint_nonneg_iff by linarith
    then have c: "TCP_CMP_SEQ seq nxt < 0" by simp
    have "TCP_CMP_SEQ (seq + len) (nxt + ucast w) = - int (unat w - (e + 1))"
      using sl W eb u16_bound [of w] by (intro cmp_offset(2)) auto
    then have rl: "r = seq + len" "l = nxt" "k = unat (nxt - seq)" using c by (simp_all add: r_def l_def k_def seg_range_defs nxt_def w_def)
    have "r - l = word_of_nat (e + 1)" unfolding rl seq by simp
    then have "unat (r - l) = e + 1" using ue by simp
    moreover have "l = seq + of_nat k" unfolding rl by simp
    moreover have "k = unat len - (e + 1)" unfolding rl by (rule dn(1))
    ultimately show ?thesis using sl lt eb(1) rl by simp
  qed
  then show "l = seq + of_nat k" and "0 < unat (r - l)" and "k + unat (r - l) \<le> unat len"
    and "unat r = unat l + unat (r - l)" and "unat nxt \<le> unat l" and "unat r \<le> unat nxt + unat w" by blast+
qed


section \<open>The stream in the receive buffer\<close>

definition rx_end :: "Socket \<Rightarrow> u32" where
  "rx_end s = (if sk_state s \<in> {TCP_STATE_ESTABLISHED, TCP_STATE_FIN_WAIT_1, TCP_STATE_FIN_WAIT_2}
               then rcvNxt s else rcvNxt s - 1)"

definition rx_base :: "Socket \<Rightarrow> nat" where "rx_base s = unat (irs s) + 1"

definition rx_slot :: "(nat \<Rightarrow> u8) \<Rightarrow> Socket \<Rightarrow> nat \<Rightarrow> bool" where
  "rx_slot f s p \<longleftrightarrow> rx_ring s ! ((p - rx_base s) mod unat (rxBufferSize s)) = f (p - rx_base s)"

definition rx_held :: "Socket \<Rightarrow> nat set" where
  "rx_held s = {unat (rx_end s) - unat (rcvUser s) ..< unat (rx_end s)} \<union> blocks_span (sackBlock s)"

definition rx_blocks_ok :: "Socket \<Rightarrow> bool" where
  "rx_blocks_ok s \<longleftrightarrow> sorted_wrt apart (sackBlock s) \<and>
     (\<forall>b \<in> set (sackBlock s). unat (rx_end s) < unat (leftEdge b) \<and> unat (leftEdge b) \<le> unat (rightEdge b) \<and>
        unat (rightEdge b) \<le> unat (rx_end s) + unat (rcvWnd s))"

definition rx_flow :: "(nat \<Rightarrow> u8) \<Rightarrow> Socket \<Rightarrow> bool" where
  "rx_flow f s \<longleftrightarrow> rx_ok s \<and> rcv_inv s \<and> rx_base s + unat (rcvUser s) \<le> unat (rx_end s) \<and> rx_blocks_ok s \<and>
     (\<forall>p \<in> rx_held s. rx_slot f s p)"

definition rx_room :: "Socket \<Rightarrow> bool" where
  "rx_room s \<longleftrightarrow> unat (rx_end s) - unat (rcvUser s) + unat (rxBufferSize s) < 2 ^ 32"

definition seg_matches :: "(nat \<Rightarrow> u8) \<Rightarrow> Socket \<Rightarrow> u32 \<Rightarrow> NetBuffer \<Rightarrow> nat \<Rightarrow> u32 \<Rightarrow> bool" where
  "seg_matches f s seq b off len \<longleftrightarrow>
     (\<forall>i < unat len. in_window s (seq + of_nat i) \<longrightarrow> nb_bytes b ! (off + i) = f (rx_pos s (seq + of_nat i)))"

lemma rx_pos_base: "rx_base s \<le> unat x \<Longrightarrow> rx_pos s x = unat x - rx_base s"
proof -
  assume "rx_base s \<le> unat x"
  moreover have "x - irs s - 1 = x - (irs s + 1)" by simp
  moreover have "unat (irs s + 1) = unat (irs s) + 1" using calculation u32_bound [of x]
    by (subst unat_add_nowrap) (simp_all add: rx_base_def)
  ultimately show ?thesis unfolding rx_pos_def by (simp only: unat_diff_u32 rx_base_def) simp
qed


lemma rx_write_slots:
  assumes flow: "rx_flow f s" and room: "rx_room s" and l: "unat (rx_end s) \<le> unat l" and n: "0 < unat n"
    and wnd: "unat l + unat n \<le> unat (rx_end s) + unat (rcvWnd s)"
    and b: "nb_wf b" "doff + unat n \<le> length (nb_bytes b)"
    and data: "\<And>i. i < unat n \<Longrightarrow> nb_bytes b ! (doff + i) = f (unat l + i - rx_base s)"
  defines "s' \<equiv> tcpWriteRxBuffer s l b doff n"
  shows "rx_ok s'" and "p \<in> rx_held s \<or> unat l \<le> p \<and> p < unat l + unat n \<Longrightarrow> rx_slot f s' p"
proof -
  let ?N = "unat (rxBufferSize s)" and ?U = "unat (rcvUser s)" and ?E = "unat (rx_end s)" and ?B = "rx_base s"
  let ?xs = "take (unat n) (drop doff (nb_bytes b))"
  have ok: "rx_ok s" and inv: "?U + unat (rcvWnd s) \<le> ?N" and base: "?B + ?U \<le> ?E"
    and blocks: "rx_blocks_ok s" and slots: "\<And>p. p \<in> rx_held s \<Longrightarrow> rx_slot f s p"
    using flow by (auto simp: rx_flow_def rcv_inv_def)
  have nN: "unat n \<le> ?N" using wnd l inv by linarith
  then have "n \<le> rxBufferSize s" "0 < n" using n by (simp_all add: word_le_nat_alt word_less_nat_alt)
  note w = tcpWriteRxBuffer_ring [OF ok b(1) this(2,1) b(2), of l, folded s'_def]
  have fr: "rxBufferSize s' = rxBufferSize s" "irs s' = irs s" by (simp_all add: s'_def)
  have len: "length (rx_ring s) = ?N" using ok by (simp add: rx_ok_def)
  show "rx_ok s'" using ok w fr by (simp add: rx_ok_def)
  assume p: "p \<in> rx_held s \<or> unat l \<le> p \<and> p < unat l + unat n"
  have pr: "?E - ?U \<le> p" "p < ?E + unat (rcvWnd s)"
    using p l wnd blocks n by (auto simp: rx_held_def blocks_span_def span_def rx_blocks_ok_def)
  have pos: "rx_pos s l = unat l - ?B" using l base by (intro rx_pos_base) linarith
  have "ring_write (rx_ring s) (unat l - ?B) ?xs ! ((p - ?B) mod length (rx_ring s)) =
      (if unat l - ?B \<le> p - ?B \<and> p - ?B < unat l - ?B + length ?xs then ?xs ! (p - ?B - (unat l - ?B))
       else rx_ring s ! ((p - ?B) mod length (rx_ring s)))"
    by (rule ring_write_slot [where a = "?E - ?U - ?B"])
      (use b(2) n wnd inv l base pr len nN in \<open>auto\<close>)
  then have ring: "rx_ring s' ! ((p - ?B) mod ?N) =
      (if unat l \<le> p \<and> p < unat l + unat n then nb_bytes b ! (doff + (p - unat l)) else rx_ring s ! ((p - ?B) mod ?N))"
    unfolding w(1) pos using b(2) base pr l by (auto simp: len)
  show "rx_slot f s' p"
  proof (cases "unat l \<le> p \<and> p < unat l + unat n")
    case True
    then have a: "p - unat l < unat n" "unat l + (p - unat l) = p" by linarith+
    show ?thesis using True ring data [OF a(1)] fr unfolding a(2) by (simp add: rx_slot_def rx_base_def)
  next
    case False
    then show ?thesis using ring p slots [of p] fr by (auto simp: rx_slot_def rx_base_def)
  qed
qed


text \<open>The blocks after a range of the window has been stored.\<close>

lemma rx_merge_blocks:
  assumes blocks: "rx_blocks_ok s" and l: "unat (rx_end s) \<le> unat l" "unat l < unat r"
    and wnd: "unat r \<le> unat (rx_end s) + unat (rcvWnd s)"
    and m: "sack_merge (sackBlock s) l r = (l', r', bs)"
  shows "span l' r' \<union> blocks_span bs = span l r \<union> blocks_span (sackBlock s)"
    and "unat (rx_end s) \<le> unat l'" "unat l' \<le> unat l" "unat r \<le> unat r'" "unat r' \<le> unat (rx_end s) + unat (rcvWnd s)"
    and "sorted_wrt apart (blk l' r' # bs)" and "set bs \<subseteq> set (sackBlock s)"
    and "unat (rx_end s) < unat l \<Longrightarrow> unat (rx_end s) < unat l'"
proof -
  let ?E = "unat (rx_end s)"
  have nw: "no_wrap ?E l r (sackBlock s)"
    using blocks l wnd u16_bound [of "rcvWnd s"] by (fastforce simp: no_wrap_def rx_blocks_ok_def)
  have sw: "sorted_wrt apart (sackBlock s)" using blocks by (simp add: rx_blocks_ok_def)
  note res = sack_merge_result [OF nw sw m]
  show "span l' r' \<union> blocks_span bs = span l r \<union> blocks_span (sackBlock s)"
    using sack_merge_span [OF nw m] by blast
  show "?E \<le> unat l'" using res(3) [of ?E] l blocks by (auto simp: rx_blocks_ok_def less_imp_le)
  show "unat l' \<le> unat l" "unat r \<le> unat r'" using res(2) by auto
  show "unat r' \<le> ?E + unat (rcvWnd s)" using res(4) [of "?E + unat (rcvWnd s)"] wnd blocks by (auto simp: rx_blocks_ok_def)
  show "sorted_wrt apart (blk l' r' # bs)" "set bs \<subseteq> set (sackBlock s)" using res(1) by auto
  show "?E < unat l'" if "?E < unat l"
    using res(3) [of "?E + 1"] that blocks by (auto simp: rx_blocks_ok_def Suc_le_eq)
qed

lemma take_blocks_span: "blocks_span (take n bs) \<subseteq> blocks_span bs"
  by (auto simp: blocks_span_def dest: in_set_takeD)

definition data_state :: "Socket \<Rightarrow> bool" where
  "data_state s \<longleftrightarrow> sk_state s \<in> {TCP_STATE_ESTABLISHED, TCP_STATE_FIN_WAIT_1, TCP_STATE_FIN_WAIT_2}"

lemma rx_end_data: "data_state s \<Longrightarrow> rx_end s = rcvNxt s"
  by (simp add: data_state_def rx_end_def)

text \<open>The socket after the data has been taken in.\<close>

lemma tcpProcessSegmentData_sk:
  fixes h :: TcpHeader and c :: conn and len :: u32
  defines "s \<equiv> sk c"
  defines "k \<equiv> seg_skip s (seqNum h)" and "l \<equiv> seg_left s (seqNum h)" and "r \<equiv> seg_right s (seqNum h) len"
  assumes m: "sack_merge (sackBlock s) l r = (l', r', bs)" and c': "c' = tcpProcessSegmentData h b off len c"
  shows "rxBuffer (sk c') = rxBuffer (tcpWriteRxBuffer s l b (off + k) (r - l))"
    and "TCP_CMP_SEQ l' (rcvNxt s) > 0 \<Longrightarrow> rcvNxt (sk c') = rcvNxt s \<and> rcvUser (sk c') = rcvUser s \<and>
      rcvWnd (sk c') = rcvWnd s \<and> sackBlock (sk c') = take TCP_MAX_SACK_BLOCKS (blk l' r' # bs)"
    and "\<not> TCP_CMP_SEQ l' (rcvNxt s) > 0 \<Longrightarrow> rcvNxt (sk c') = rcvNxt s + (r' - l') \<and>
      rcvUser (sk c') = rcvUser s + ucast (r' - l') \<and> rcvWnd (sk c') = rcvWnd s - ucast (r' - l') \<and> sackBlock (sk c') = bs"
proof -
  have e: "c' = (let s1 = tcpWriteRxBuffer s l b (off + k) (r - l);
          (l, r, s2) = tcpUpdateSackBlocks s1 l r;
          c = c\<lparr>sk := s2\<rparr>
      in if TCP_CMP_SEQ l (rcvNxt s2) > 0 then
           snd (tcpSendSegment TCP_FLAG_ACK (sndNxt s2) (rcvNxt s2) 0 False c)
         else
           let len = r - l;
               c = upd (\<lambda>s. s\<lparr>rcvNxt := rcvNxt s + len, rcvUser := rcvUser s + ucast len,
                              rcvWnd := rcvWnd s - ucast len\<rparr>) c;
               c = snd (tcpSendSegment TCP_FLAG_ACK (sndNxt (sk c)) (rcvNxt (sk c)) 0 False c)
           in tcpUpdateEvents c)"
    unfolding c' tcpProcessSegmentData_def Let_def k_def l_def r_def seg_range_defs s_def
    by (simp cong: if_cong)
  have u: "tcpUpdateSackBlocks (tcpWriteRxBuffer s l b (off + k) (r - l)) l r = (l', r',
      (tcpWriteRxBuffer s l b (off + k) (r - l))\<lparr>sackBlock := if TCP_CMP_SEQ l' (rcvNxt s) > 0
         then take TCP_MAX_SACK_BLOCKS (blk l' r' # bs) else bs\<rparr>)"
    using m by (simp add: tcpUpdateSackBlocks_def)
  show "rxBuffer (sk c') = rxBuffer (tcpWriteRxBuffer s l b (off + k) (r - l))"
    unfolding e by (simp add: Let_def u)
  show "TCP_CMP_SEQ l' (rcvNxt s) > 0 \<Longrightarrow> rcvNxt (sk c') = rcvNxt s \<and> rcvUser (sk c') = rcvUser s \<and>
      rcvWnd (sk c') = rcvWnd s \<and> sackBlock (sk c') = take TCP_MAX_SACK_BLOCKS (blk l' r' # bs)"
    unfolding e by (simp add: Let_def u)
  show "\<not> TCP_CMP_SEQ l' (rcvNxt s) > 0 \<Longrightarrow> rcvNxt (sk c') = rcvNxt s + (r' - l') \<and>
      rcvUser (sk c') = rcvUser s + ucast (r' - l') \<and> rcvWnd (sk c') = rcvWnd s - ucast (r' - l') \<and> sackBlock (sk c') = bs"
    unfolding e by (simp add: Let_def u)
qed


lemma seg_left_window:
  assumes "unat (rcvNxt s) \<le> unat (seg_left s seq)" and "unat (seg_left s seq) < unat (rcvNxt s) + unat (rcvWnd s)"
  shows "in_window s seq \<Longrightarrow> seg_left s seq = seq"
    and "seq = rcvNxt s \<or> \<not> in_window s seq \<Longrightarrow> seg_left s seq = rcvNxt s"
proof -
  show l: "seg_left s seq = seq" if "in_window s seq"
  proof -
    have "0 \<le> TCP_CMP_SEQ seq (rcvNxt s)"
      using that u16_bound [of "rcvWnd s"] unfolding in_window_def TCP_CMP_SEQ_def sint_nonneg_iff by linarith
    then show ?thesis by (simp add: seg_left_def)
  qed
  show "seg_left s seq = rcvNxt s" if w: "seq = rcvNxt s \<or> \<not> in_window s seq"
  proof (rule ccontr)
    assume n: "seg_left s seq \<noteq> rcvNxt s"
    then have "seg_left s seq = seq" by (auto simp: seg_left_def split: if_splits)
    with w n assms show False by (simp add: in_window_def unat_diff_u32)
  qed
qed

lemma seg_matches_bytes:
  assumes m: "seg_matches f s seq b off len" and base: "rx_base s \<le> unat (rcvNxt s)"
    and lin: "unat (rcvNxt s) + unat (rcvWnd s) < 2 ^ 32"
    and l: "l = seq + of_nat k" and "k + unat n \<le> unat len"
    and w: "unat (rcvNxt s) \<le> unat l" "unat l + unat n \<le> unat (rcvNxt s) + unat (rcvWnd s)" and i: "i < unat n"
  shows "nb_bytes b ! (off + k + i) = f (unat l + i - rx_base s)"
proof -
  have u: "unat (l + of_nat i) = unat l + i"
    using w i lin by (subst unat_add_nowrap) (simp_all add: unat_word_of_nat_u32)
  have wi: "in_window s (l + of_nat i)" unfolding in_window_def unat_diff_u32 u using w i by simp
  have x: "seq + of_nat (k + i) = l + of_nat i" using l by simp
  have pos: "rx_pos s (l + of_nat i) = unat l + i - rx_base s" using u base w(1) by (subst rx_pos_base) auto
  have "k + i < unat len" using assms(5) i by linarith
  from m [unfolded seg_matches_def, rule_format, OF this, unfolded x, OF wi, unfolded pos]
  show ?thesis by (simp add: add.assoc)
qed

text \<open>Two outcomes: the range stays a block apart from the data in order, or it extends that data.\<close>

lemma rx_flow_out_of_order:
  assumes flow: "rx_flow f s" and E: "rx_end s = rcvNxt s" "rx_end s' = rcvNxt s'"
    and m: "sack_merge (sackBlock s) l r = (l', r', bs)"
    and lr: "unat (rcvNxt s) \<le> unat l" "unat l < unat r" "unat r \<le> unat (rcvNxt s) + unat (rcvWnd s)"
    and s': "rcvNxt s' = rcvNxt s" "rcvUser s' = rcvUser s" "rcvWnd s' = rcvWnd s"
      "sackBlock s' = take n (blk l' r' # bs)" "rxBufferSize s' = rxBufferSize s" "irs s' = irs s"
    and ok: "rx_ok s'" and slots: "\<And>p. p \<in> rx_held s \<or> p \<in> span l r \<Longrightarrow> rx_slot f s' p"
    and ooo: "unat (rcvNxt s) < unat l'"
  shows "rx_flow f s'"
proof -
  let ?E = "unat (rcvNxt s)" and ?W = "unat (rcvWnd s)"
  have blocks: "rx_blocks_ok s" using flow by (simp add: rx_flow_def)
  note mb = rx_merge_blocks [OF blocks _ lr(2) _ m, unfolded E, OF lr(1,3)]
  have "rx_held s' \<subseteq> rx_held s \<union> span l r"
    using take_blocks_span [of n "blk l' r' # bs"] mb(1) E s' by (auto simp: rx_held_def blocks_span_def)
  then have "\<forall>p \<in> rx_held s'. rx_slot f s' p" using slots by blast
  moreover have "rx_blocks_ok s'"
    unfolding rx_blocks_ok_def E s'
  proof (intro conjI ballI sorted_wrt_take [OF mb(6)])
    fix d assume "d \<in> set (take n (blk l' r' # bs))"
    then have "d = blk l' r' \<or> d \<in> set (sackBlock s)" using mb(7) set_take_subset [of n "blk l' r' # bs"] by auto
    then show "?E < unat (leftEdge d)" "unat (leftEdge d) \<le> unat (rightEdge d)" "unat (rightEdge d) \<le> ?E + ?W"
      using mb(2-5) lr ooo blocks E by (auto simp: rx_blocks_ok_def)
  qed
  ultimately show ?thesis using ok flow s' E by (auto simp: rx_flow_def rcv_inv_def rx_base_def)
qed

lemma rx_flow_in_order:
  assumes flow: "rx_flow f s" and E: "rx_end s = rcvNxt s" "rx_end s' = rcvNxt s'"
    and m: "sack_merge (sackBlock s) l r = (l', r', bs)"
    and lr: "unat (rcvNxt s) \<le> unat l" "unat l < unat r" "unat r \<le> unat (rcvNxt s) + unat (rcvWnd s)"
    and s': "rcvNxt s' = rcvNxt s + (r' - l')" "rcvUser s' = rcvUser s + ucast (r' - l')"
      "rcvWnd s' = rcvWnd s - ucast (r' - l')" "sackBlock s' = bs" "rxBufferSize s' = rxBufferSize s" "irs s' = irs s"
    and ok: "rx_ok s'" and slots: "\<And>p. p \<in> rx_held s \<or> p \<in> span l r \<Longrightarrow> rx_slot f s' p"
    and ord: "\<not> unat (rcvNxt s) < unat l'"
  shows "rx_flow f s'" and "unat (rcvNxt s') - unat (rcvUser s') = unat (rcvNxt s) - unat (rcvUser s)"
    and "unat (rcvNxt s) < unat (rcvNxt s')"
proof -
  let ?E = "unat (rcvNxt s)" and ?W = "unat (rcvWnd s)" and ?U = "unat (rcvUser s)"
  have inv: "?U + ?W \<le> unat (rxBufferSize s)" "rxBufferSize s \<le> TCP_MAX_RX_BUFFER_SIZE"
    and base: "rx_base s + ?U \<le> ?E" and blocks: "rx_blocks_ok s"
    using flow E by (auto simp: rx_flow_def rcv_inv_def)
  note mb = rx_merge_blocks [OF blocks _ lr(2) _ m, unfolded E, OF lr(1,3)]
  have l': "l' = rcvNxt s" using mb(2) ord by (simp add: word_unat_eq_iff)
  define n where "n = unat r' - ?E"
  have n: "unat (r' - l') = n" "n \<le> ?W" "0 < n" using mb(2-5) lr l' by (auto simp: n_def unat_diff_u32)
  have n16: "unat (ucast (r' - l') :: u16) = n" using n u16_bound [of "rcvWnd s"] by (simp add: unat_ucast_32_16)
  have N': "rcvNxt s' = r'" using s'(1) l' by simp
  have U': "unat (rcvUser s') = ?U + n"
    unfolding s' using n inv n16 by (subst unat_add_nowrap) (auto simp: word_le_nat_alt)
  have W': "unat (rcvWnd s') = ?W - n" unfolding s' using n16 n by (simp add: unat_sub word_le_nat_alt)
  have r': "unat r' = ?E + n" using n(3) by (simp add: n_def)
  have "rx_held s' \<subseteq> rx_held s \<union> span l r"
    using mb(1) E N' s'(4) U' r' l' by (auto simp: rx_held_def span_def blocks_span_def)
  then have "\<forall>p \<in> rx_held s'. rx_slot f s' p" using slots by blast
  moreover have "rx_blocks_ok s'"
    unfolding rx_blocks_ok_def E(2) N' s'(4) W' using mb(6,7) r' n(2) blocks E(1) l'
    by (fastforce simp: rx_blocks_ok_def apart_def)
  ultimately show "rx_flow f s'"
    using ok inv base U' W' E N' r' n s'(5,6) by (auto simp: rx_flow_def rcv_inv_def rx_base_def)
  show "unat (rcvNxt s') - unat (rcvUser s') = ?E - ?U" "?E < unat (rcvNxt s')"
    using N' U' r' base n(3) by simp_all
qed

lemma tcpProcessSegmentData_flow:
  fixes c :: conn
  assumes flow: "rx_flow f (sk c)" and room: "rx_room (sk c)" and st: "data_state (sk c)"
    and acc: "acceptable (sk c) h len" and len: "0 < len" "unat len < 65536"
    and b: "nb_wf b" "off + unat len \<le> length (nb_bytes b)" and data: "seg_matches f (sk c) (seqNum h) b off len"
  defines "c' \<equiv> tcpProcessSegmentData h b off len c"
  shows "rx_flow f (sk c')"
    and "unat (rcvNxt (sk c')) - unat (rcvUser (sk c')) = unat (rcvNxt (sk c)) - unat (rcvUser (sk c))"
    and "in_window (sk c) (seqNum h) \<Longrightarrow> seqNum h \<noteq> rcvNxt (sk c) \<Longrightarrow> rcvNxt (sk c') = rcvNxt (sk c)"
    and "seqNum h = rcvNxt (sk c) \<or> \<not> in_window (sk c) (seqNum h) \<Longrightarrow> unat (rcvNxt (sk c)) < unat (rcvNxt (sk c'))"
proof -
  define s where "s = sk c"
  define k where "k = seg_skip s (seqNum h)"
  define l where "l = seg_left s (seqNum h)"
  define r where "r = seg_right s (seqNum h) len"
  let ?E = "unat (rcvNxt s)" and ?W = "unat (rcvWnd s)" and ?U = "unat (rcvUser s)"
  let ?s1 = "tcpWriteRxBuffer s l b (off + k) (r - l)"
  have E: "rx_end s = rcvNxt s" using st by (simp add: s_def rx_end_data)
  have inv: "?U + ?W \<le> unat (rxBufferSize s)" and base: "rx_base s + ?U \<le> ?E" and blocks: "rx_blocks_ok s"
    using flow E by (auto simp: rx_flow_def rcv_inv_def s_def)
  have lin: "?E + ?W < 2 ^ 32" using room E inv base by (simp add: rx_room_def s_def)
  have acc': "unat (seqNum h - rcvNxt s) < ?W \<or> unat (seqNum h + len - 1 - rcvNxt s) < ?W"
    using acc len(1) by (auto simp: acceptable_window in_window_def s_def split: if_splits)
  have len': "0 < unat len" using len(1) by (simp add: word_less_nat_alt)
  note t = trim_segment [OF lin len' len(2) acc', folded k_def l_def r_def]
  have lr: "unat l < unat r" and lrn: "unat l + unat (r - l) \<le> ?E + ?W" using t(2,4,6) by linarith+
  obtain l' r' bs where m: "sack_merge (sackBlock s) l r = (l', r', bs)" by (metis prod.collapse)
  note p = tcpProcessSegmentData_sk [where c = c and h = h and len = len, folded s_def, folded k_def l_def r_def, OF m,
    where c' = c', OF meta_eq_to_obj_eq [OF c'_def]]
  note mb = rx_merge_blocks [OF blocks _ lr _ m, unfolded E, OF t(5,6)]
  have "TCP_CMP_SEQ l' (rcvNxt s) = int (unat l' - ?E)"
    using mb(2-5) lr u16_bound [of "rcvWnd s"] by (intro cmp_offset(1)) linarith+
  then have ooo: "TCP_CMP_SEQ l' (rcvNxt s) > 0 \<longleftrightarrow> ?E < unat l'" by auto
  have base': "rx_base s \<le> ?E" using base by linarith
  note bytes = seg_matches_bytes [OF data [folded s_def] base' lin t(1,3,5) lrn]
  have ws: "rx_ok ?s1" "\<And>p. p \<in> rx_held s \<or> p \<in> span l r \<Longrightarrow> rx_slot f ?s1 p"
    using rx_write_slots [where l = l and n = "r - l" and doff = "off + k", OF flow [folded s_def] room [folded s_def]
        _ t(2) _ b(1) _ bytes] t(3-6) b(2) E by (auto simp: span_def)
  have fr: "rxBufferSize (sk c') = rxBufferSize s" "irs (sk c') = irs s" "sk_state (sk c') = sk_state s"
    by (simp_all add: c'_def s_def)
  have E': "rx_end (sk c') = rcvNxt (sk c')" using st fr by (simp add: rx_end_def data_state_def s_def)
  have ok: "rx_ok (sk c')" using ws(1) p(1) fr by (simp add: rx_ok_def)
  have slots: "rx_slot f (sk c') p" if "p \<in> rx_held s \<or> p \<in> span l r" for p
    using ws(2) [OF that] p(1) fr by (simp add: rx_slot_def rx_base_def)
  have "rx_flow f (sk c') \<and> unat (rcvNxt (sk c')) - unat (rcvUser (sk c')) = ?E - ?U \<and>
    (?E < unat l \<longrightarrow> rcvNxt (sk c') = rcvNxt s) \<and> (l = rcvNxt s \<longrightarrow> ?E < unat (rcvNxt (sk c')))"
  proof (cases "?E < unat l'")
    case True
    then show ?thesis
      using rx_flow_out_of_order [OF flow [folded s_def] E E' m t(5) lr t(6) _ _ _ _ fr(1,2) ok slots True] p(2) ooo mb(3)
      by (metis leD order_less_le_trans)
  next
    case False
    then show ?thesis
      using rx_flow_in_order [OF flow [folded s_def] E E' m t(5) lr t(6) _ _ _ _ fr(1,2) ok slots False] p(3) ooo mb(8)
      by blast
  qed
  then show "rx_flow f (sk c')"
    and "unat (rcvNxt (sk c')) - unat (rcvUser (sk c')) = unat (rcvNxt (sk c)) - unat (rcvUser (sk c))"
    and "in_window (sk c) (seqNum h) \<Longrightarrow> seqNum h \<noteq> rcvNxt (sk c) \<Longrightarrow> rcvNxt (sk c') = rcvNxt (sk c)"
    and "seqNum h = rcvNxt (sk c) \<or> \<not> in_window (sk c) (seqNum h) \<Longrightarrow> unat (rcvNxt (sk c)) < unat (rcvNxt (sk c'))"
    using seg_left_window [of s "seqNum h", folded l_def] t(5,6) lr by (auto simp: s_def word_unat_eq_iff)
qed

section \<open>Reading the stream\<close>

text \<open>The sequence number of the first byte waiting for the user, and whether the state lets it be read.\<close>

definition rx_start :: "Socket \<Rightarrow> nat" where "rx_start s = unat (rx_end s) - unat (rcvUser s)"

definition rx_open :: "Socket \<Rightarrow> bool" where
  "rx_open s \<longleftrightarrow> data_state s \<or>
     sk_state s \<in> {TCP_STATE_CLOSE_WAIT, TCP_STATE_LAST_ACK, TCP_STATE_CLOSING, TCP_STATE_TIME_WAIT} \<or>
     \<not> resetFlag s \<and> closedFlag s"

lemma receive_check_Inr: "receive_check got s = Inr q \<Longrightarrow> rx_open s \<and> q = rx_end s - ucast (rcvUser s)"
  by (auto simp: receive_check_def rx_open_def data_state_def rx_end_def Let_def split: if_splits)

lemma receive_check_Inl: "receive_check got s = Inl NO_ERROR \<Longrightarrow> rx_open s"
  by (auto simp: receive_check_def rx_open_def data_state_def Let_def split: if_splits)

lemma rx_flow_read:
  assumes flow: "rx_flow f s" and n: "unat n \<le> unat (rcvUser s)" "unat n \<le> length out"
  shows "tcpReadRxBuffer s (rx_end s - ucast (rcvUser s)) out n =
    map f [rx_start s - rx_base s ..< rx_start s - rx_base s + unat n] @ drop (unat n) out"
proof -
  let ?E = "unat (rx_end s)" and ?U = "unat (rcvUser s)" and ?N = "unat (rxBufferSize s)"
  let ?q = "rx_end s - ucast (rcvUser s)" and ?p = "rx_start s - rx_base s"
  have ok: "rx_ok s" and inv: "?U \<le> ?N" and base: "rx_base s + ?U \<le> ?E" and
    slots: "\<And>p. p \<in> rx_held s \<Longrightarrow> rx_slot f s p" using flow by (auto simp: rx_flow_def rcv_inv_def)
  have q: "unat ?q = rx_start s" using base by (simp add: rx_start_def unat_diff_u32)
  have pos: "rx_pos s ?q = ?p" using base q by (subst rx_pos_base) (simp_all add: rx_start_def)
  have "ring_read (rx_ring s) ?p (unat n) = map f [?p ..< ?p + unat n]"
  proof (rule nth_equalityI)
    fix i assume i: "i < length (ring_read (rx_ring s) ?p (unat n))"
    have "rx_start s + i \<in> rx_held s" using i n base by (auto simp: rx_held_def rx_start_def)
    from slots [OF this] have "rx_ring s ! ((?p + i) mod ?N) = f (?p + i)"
      using base by (simp add: rx_slot_def rx_start_def)
    then show "ring_read (rx_ring s) ?p (unat n) ! i = map f [?p ..< ?p + unat n] ! i"
      using i ok by (simp add: ring_read_def rx_ok_def)
  qed simp
  moreover have "n \<le> rxBufferSize s" using n inv by (simp add: word_le_nat_alt)
  ultimately show ?thesis using tcpReadRxBuffer_ring [OF ok _ n(2), of ?q] pos by (simp add: list_write_def)
qed

text \<open>Consuming data, and offering a larger window.\<close>

lemma rx_flow_consume:
  assumes flow: "rx_flow f s" and same: "rxBuffer s' = rxBuffer s" "rxBufferSize s' = rxBufferSize s" "irs s' = irs s"
      "rx_end s' = rx_end s" "sackBlock s' = sackBlock s"
    and less: "unat (rcvUser s') \<le> unat (rcvUser s)" "unat (rcvWnd s) \<le> unat (rcvWnd s')" and inv: "rcv_inv s'"
  shows "rx_flow f s'"
proof -
  have "rx_held s' \<subseteq> rx_held s" using same less by (auto simp: rx_held_def)
  then have "\<forall>p \<in> rx_held s'. rx_slot f s' p"
    using flow same by (auto simp: rx_flow_def rx_slot_def rx_base_def)
  moreover have "rx_blocks_ok s'" using flow same less by (fastforce simp: rx_flow_def rx_blocks_ok_def)
  ultimately show ?thesis using flow same less inv by (simp add: rx_flow_def rx_ok_def rx_base_def)
qed

lemma receive_consume_flow:
  fixes c :: conn
  assumes flow: "rx_flow f (sk c)" and n: "unat n \<le> unat (rcvUser (sk c))"
  defines "c' \<equiv> receive_consume n c"
  shows "rx_flow f (sk c')" and "rx_start (sk c') = rx_start (sk c) + unat n" and "rx_open (sk c') = rx_open (sk c)"
    and "rx_base (sk c') = rx_base (sk c)" and "rxBufferSize (sk c') = rxBufferSize (sk c)"
proof -
  define c1 where "c1 = upd (\<lambda>s. s\<lparr>rcvUser := ucast (ucast (rcvUser s) - n)\<rparr>) c"
  have c': "c' = tcpUpdateEvents (tcpUpdateReceiveWindow c1)" by (simp add: c'_def receive_consume_def c1_def)
  have inv: "rcv_inv (sk c)" and base: "rx_base (sk c) + unat (rcvUser (sk c)) \<le> unat (rx_end (sk c))"
    using flow by (auto simp: rx_flow_def)
  have U: "unat (rcvUser (sk c1)) = unat (rcvUser (sk c)) - unat n"
    using n u16_bound [of "rcvUser (sk c)"] by (simp add: c1_def unat_ucast_32_16 unat_diff_u32)
  have inv1: "rcv_inv (sk c1)" using inv unfolding rcv_inv_def U by (auto simp: c1_def)
  have e: "rx_end (sk c') = rx_end (sk c)" "rcvUser (sk c') = rcvUser (sk c1)"
    by (simp_all add: rx_end_def c' c1_def)
  have "unat (rcvWnd (sk c)) \<le> unat (rcvWnd (sk c'))"
    using tcpUpdateReceiveWindow_wnd [OF inv1] inv1 by (auto simp: c' c1_def rcv_inv_def)
  moreover have "rcv_inv (sk c')" using tcpUpdateReceiveWindow_inv [OF inv1] by (simp add: c' rcv_inv_def)
  ultimately show "rx_flow f (sk c')"
    by (intro rx_flow_consume [OF flow]) (use U e in \<open>simp_all add: c' c1_def\<close>)
  show "rx_start (sk c') = rx_start (sk c) + unat n" using U n base by (simp add: rx_start_def e)
  show "rx_open (sk c') = rx_open (sk c)" by (simp add: rx_open_def data_state_def c' c1_def)
  show "rx_base (sk c') = rx_base (sk c)" "rxBufferSize (sk c') = rxBufferSize (sk c)"
    by (simp_all add: rx_base_def c' c1_def)
qed


text \<open>
  What the rest of the system may do to the socket while the user waits: it keeps the stream and
  the position of the user in it, as long as the connection stays readable.
\<close>

definition rx_rely :: "(nat \<Rightarrow> u8) \<Rightarrow> (systime_t \<Rightarrow> conn \<Rightarrow> conn) \<Rightarrow> bool" where
  "rx_rely f wait \<longleftrightarrow>
     (\<forall>t c. rx_flow f (sk c) \<and> rx_open (sk c) \<and> rx_room (sk c) \<and> rx_open (sk (wait t c)) \<longrightarrow>
        rx_flow f (sk (wait t c)) \<and> rx_start (sk (wait t c)) = rx_start (sk c) \<and>
        irs (sk (wait t c)) = irs (sk c) \<and> rxBufferSize (sk (wait t c)) = rxBufferSize (sk c))"

text \<open>The state of the stream at a later point of the same connection, \<open>m\<close> bytes further.\<close>

definition rx_later :: "(nat \<Rightarrow> u8) \<Rightarrow> Socket \<Rightarrow> nat \<Rightarrow> Socket \<Rightarrow> bool" where
  "rx_later f s m s' \<longleftrightarrow>
     rx_flow f s' \<and> rx_start s' = rx_start s + m \<and> irs s' = irs s \<and> rxBufferSize s' = rxBufferSize s"

lemma rx_later_refl: "rx_flow f s \<Longrightarrow> rx_later f s 0 s"
  by (simp add: rx_later_def)

lemma rx_later_trans: "rx_later f s m s1 \<Longrightarrow> rx_later f s1 n s2 \<Longrightarrow> rx_later f s (m + n) s2"
  by (simp add: rx_later_def)

lemma rx_flow_cong:
  assumes "rxBuffer s' = rxBuffer s" "rxBufferSize s' = rxBufferSize s" "irs s' = irs s" "sk_state s' = sk_state s"
    "rcvNxt s' = rcvNxt s" "rcvUser s' = rcvUser s" "rcvWnd s' = rcvWnd s" "sackBlock s' = sackBlock s"
  shows "rx_flow f s' = rx_flow f s" "rx_start s' = rx_start s" "rx_room s' = rx_room s" "rx_end s' = rx_end s"
  using assms by (simp_all add: rx_flow_def rx_ok_def rcv_inv_def rx_base_def rx_end_def rx_blocks_ok_def rx_held_def
      rx_slot_def rx_start_def rx_room_def)

lemma tcpWaitForEvents_later:
  assumes rely: "rx_rely f wait" and c: "rx_flow f (sk c)" "rx_open (sk c)" "rx_room (sk c)"
    and w: "tcpWaitForEvents wait ev t c = (r, c')" and op: "rx_open (sk c')"
  shows "rx_later f (sk c) 0 (sk c')"
proof -
  let ?c1 = "tcpUpdateEvents (upd (eventMask_update (\<lambda>_. ev)) c)"
  let ?c2 = "upd (event_update (\<lambda>_. False)) ?c1"
  have same: "rx_flow f (sk ?c1) = rx_flow f (sk c)" "rx_start (sk ?c1) = rx_start (sk c)" "rx_room (sk ?c1) = rx_room (sk c)"
    "rx_flow f (sk ?c2) = rx_flow f (sk ?c1)" "rx_start (sk ?c2) = rx_start (sk ?c1)" "rx_room (sk ?c2) = rx_room (sk ?c1)"
    by (rule rx_flow_cong; simp)+
  have op1: "rx_open (sk ?c1) = rx_open (sk c)" "rx_open (sk ?c2) = rx_open (sk c)"
    by (simp_all add: rx_open_def data_state_def)
  have "c' = ?c1 \<or> c' = wait t ?c2"
    using w by (auto simp: tcpWaitForEvents_def Let_def split: if_splits)
  then show ?thesis
  proof
    assume "c' = ?c1" then show ?thesis using same c by (simp add: rx_later_def)
  next
    assume c': "c' = wait t ?c2"
    then have "rx_flow f (sk ?c2) \<and> rx_open (sk ?c2) \<and> rx_room (sk ?c2) \<and> rx_open (sk (wait t ?c2))"
      using same op1 c op by simp
    then have "rx_flow f (sk c') \<and> rx_start (sk c') = rx_start (sk ?c2) \<and> irs (sk c') = irs (sk ?c2) \<and>
        rxBufferSize (sk c') = rxBufferSize (sk ?c2)"
      using rely unfolding rx_rely_def c' by blast
    then show ?thesis using same by (simp add: rx_later_def)
  qed
qed


text \<open>\<open>m\<close> more bytes of the stream have been stored in the user's buffer.\<close>

definition rx_got :: "(nat \<Rightarrow> u8) \<Rightarrow> Socket \<Rightarrow> u32 \<Rightarrow> u8 list \<Rightarrow> u32 \<Rightarrow> nat \<Rightarrow> u32 \<Rightarrow> u8 list \<Rightarrow> Socket \<Rightarrow> bool" where
  "rx_got f s sz data received m n d s' \<longleftrightarrow>
     unat n = unat received + m \<and> unat n \<le> unat sz \<and> length d = length data \<and>
     take (unat n) d = take (unat received) data @
       map f [rx_start s - rx_base s ..< rx_start s - rx_base s + m] \<and>
     (rx_open s' \<longrightarrow> rx_later f s m s')"

lemma rx_got_refl:
  "(rx_open s' \<Longrightarrow> rx_later f s 0 s') \<Longrightarrow> unat n \<le> unat sz \<Longrightarrow> rx_got f s sz data n 0 n data s'"
  by (simp add: rx_got_def)

lemma rx_got_trans:
  assumes "rx_got f s sz data n0 m1 n1 d1 s1" and "rx_open s1" and "rx_got f s1 sz d1 n1 m2 n2 d2 s2"
    and "rx_base s \<le> rx_start s"
  shows "rx_got f s sz data n0 (m1 + m2) n2 d2 s2"
proof -
  have s1: "rx_later f s m1 s1" using assms by (simp add: rx_got_def)
  let ?p = "rx_start s - rx_base s"
  have p: "rx_start s1 - rx_base s1 = ?p + m1" using s1 assms(4) by (simp add: rx_later_def rx_base_def)
  have "map f [?p ..< ?p + m1] @ map f [?p + m1 ..< ?p + m1 + m2] = map f [?p ..< ?p + (m1 + m2)]"
    using upt_add_eq_append [of ?p "?p + m1" m2] by (simp add: add.assoc flip: map_append)
  with assms(1,3) p rx_later_trans [OF s1] show ?thesis by (auto simp: rx_got_def add.assoc)
qed

lemma rx_got_read:
  assumes later: "rx_later f s 0 (sk c)" and base: "rx_base s \<le> rx_start s"
    and n: "unat n \<le> unat n0" "unat n0 \<le> unat (rcvUser (sk c))" "unat received + unat n0 \<le> unat sz"
    and sz: "unat sz \<le> length data"
    and q: "q = rx_end (sk c) - ucast (rcvUser (sk c))"
  shows "rx_got f s sz data received (unat n) (received + n)
     (take (unat received) data @ tcpReadRxBuffer (sk c) q (drop (unat received) data) n0) (sk (receive_consume n c))"
proof -
  have flow: "rx_flow f (sk c)" and p: "rx_start (sk c) - rx_base (sk c) = rx_start s - rx_base s"
    using later by (simp_all add: rx_later_def rx_base_def)
  note cons = receive_consume_flow [OF flow le_trans [OF n(1,2)]]
  have u: "unat (received + n) = unat received + unat n"
    using n u32_bound [of sz] by (intro unat_add_nowrap) simp
  have "tcpReadRxBuffer (sk c) q (drop (unat received) data) n0 =
      map f [rx_start s - rx_base s ..< rx_start s - rx_base s + unat n0] @ drop (unat n0) (drop (unat received) data)"
    using rx_flow_read [OF flow n(2), of "drop (unat received) data"] n(3) sz by (simp add: q p)
  moreover have "take (unat n) (map f [a ..< a + unat n0]) = map f [a ..< a + unat n]" for a
    using n(1) by (simp add: take_map)
  ultimately have t: "take (unat (received + n))
      (take (unat received) data @ tcpReadRxBuffer (sk c) q (drop (unat received) data) n0) =
      take (unat received) data @ map f [rx_start s - rx_base s ..< rx_start s - rx_base s + unat n]"
    and l: "length (take (unat received) data @ tcpReadRxBuffer (sk c) q (drop (unat received) data) n0) = length data"
    using n sz by (simp_all add: u)
  have "irs (sk (receive_consume n c)) = irs (sk c)" by (simp add: receive_consume_def)
  then have "rx_later f s (unat n) (sk (receive_consume n c))"
    using cons later by (simp add: rx_later_def)
  then show ?thesis unfolding rx_got_def t l using u n by simp
qed


lemma rx_flow_base: "rx_flow f s \<Longrightarrow> rx_base s \<le> rx_start s"
  by (auto simp: rx_flow_def rx_start_def)

lemma receive_step_got:
  assumes rely: "rx_rely f wait" and c: "rx_flow f (sk c)" "rx_open (sk c)" "rx_room (sk c)"
    and lt: "received < sz" and sz: "unat sz \<le> length data"
  shows "receive_step wait fl sz data received c = Inl (e, n, d, c') \<Longrightarrow>
      \<exists>m. rx_got f (sk c) sz data received m n d (sk c')"
    and "receive_step wait fl sz data received c = Inr (d, n, c') \<Longrightarrow>
      \<exists>m. rx_got f (sk c) sz data received m n d (sk c') \<and> rx_open (sk c')"
proof -
  obtain ev c1 where w: "tcpWaitForEvents wait SOCKET_EVENT_RX_READY
      (if has_opt fl SOCKET_FLAG_DONT_WAIT then 0 else sk_timeout (sk c)) c = (ev, c1)" by fastforce
  note later = tcpWaitForEvents_later [OF rely c w]
  have base: "rx_base (sk c) \<le> rx_start (sk c)" using rx_flow_base [OF c(1)] .
  have d: "unat (sz - received) = unat sz - unat received" "unat received < unat sz"
    using lt by (simp_all add: unat_diff_u32 word_less_nat_alt)
  then have none: "rx_got f (sk c) sz data received 0 received data (sk c1)"
    by (intro rx_got_refl later) simp_all
  define n0 where "n0 = min (ucast (rcvUser (sk c1))) (sz - received)"
  have n0: "unat n0 \<le> unat (rcvUser (sk c1))" "unat received + unat n0 \<le> unat sz" "unat n0 < 65536"
    using d u16_bound [of "rcvUser (sk c1)"] by (auto simp: n0_def min_def word_le_nat_alt)
  have rd: "rx_got f (sk c) sz data received (unat k) (received + k)
      (take (unat received) data @ tcpReadRxBuffer (sk c1) q (drop (unat received) data) n0) (sk (receive_consume k c1))
      \<and> rx_open (sk (receive_consume k c1))"
    if "receive_check (received > 0) (sk c1) = Inr q" "unat k \<le> unat n0" for q k
  proof -
    from receive_check_Inr [OF that(1)] have o: "rx_open (sk c1)" and q: "q = rx_end (sk c1) - ucast (rcvUser (sk c1))" by auto
    show ?thesis
      using rx_got_read [OF later [OF o] base that(2) n0(1,2) sz q] o that(2) n0(1) later [OF o]
      by (simp add: receive_consume_flow(3) [where f = f] rx_later_def)
  qed
  have bl: "unat (break_length ch p n0) \<le> unat n0" for ch p
    by (simp add: break_length_def min_def word_le_nat_alt)
  define D where "D = (\<lambda>q. take (unat received) data @ tcpReadRxBuffer (sk c1) q (drop (unat received) data) n0)"
  define R where "R = (\<lambda>n d c'. \<exists>q k. receive_check (received > 0) (sk c1) = Inr q \<and> unat k \<le> unat n0 \<and>
      n = received + k \<and> d = D q \<and> c' = receive_consume k c1)"
  have R: "\<exists>m. rx_got f (sk c) sz data received m n d (sk c') \<and> rx_open (sk c')" if "R n d c'" for n d c'
    using that rd by (auto simp: R_def D_def)
  have ok: "R (received + k) (D q) (receive_consume k c1)"
    if "receive_check (received > 0) (sk c1) = Inr q" "unat k \<le> unat n0" for q k
    using that by (auto simp: R_def)
  note step = receive_step_def [of wait fl sz data received c, unfolded w Let_def prod.case n0_def [symmetric]]
  show "\<exists>m. rx_got f (sk c) sz data received m n d (sk c')"
    if s: "receive_step wait fl sz data received c = Inl (e, n, d, c')"
  proof -
    have "n = received \<and> d = data \<and> c' = c1 \<or> R n d c'"
      using s bl ok unfolding step D_def by (auto split: if_splits sum.splits)
    then show ?thesis using none R by blast
  qed
  show "\<exists>m. rx_got f (sk c) sz data received m n d (sk c') \<and> rx_open (sk c')"
    if s: "receive_step wait fl sz data received c = Inr (d, n, c')"
  proof -
    have "R n d c'"
      using s bl ok unfolding step D_def by (auto split: if_splits sum.splits)
    then show ?thesis by (rule R)
  qed
qed

lemma receive_loop_got:
  assumes "rx_rely f wait" and "rx_flow f (sk c)" and "rx_open (sk c)"
    and "rx_start (sk c) + (unat sz - unat received) + unat (rxBufferSize (sk c)) < 2 ^ 32"
    and "unat sz \<le> length data" and "unat received \<le> unat sz"
    and "receive_loop wait fl sz data received c = (e, n, d, c')"
  shows "\<exists>m. rx_got f (sk c) sz data received m n d (sk c')"
  using assms
proof (induction wait fl sz data received c rule: receive_loop.induct)
  case (1 wait fl sz data received c)
  have room: "rx_room (sk c)" using 1(5) by (simp add: rx_room_def rx_start_def)
  note IH = 1(1) and prems = 1(2-8)
  show ?case
  proof (cases "received < sz")
    case False
    then show ?thesis using prems(7) rx_later_refl [OF prems(2)] prems(6)
      by (intro exI [of _ 0]) (simp add: receive_loop.simps rx_got_refl)
  next
    case lt: True
    note step = receive_step_got [OF prems(1,2,3) room lt prems(5)]
    show ?thesis
    proof (cases "receive_step wait fl sz data received c")
      case (Inl x)
      then show ?thesis using prems(7) lt step(1) by (cases x) (simp add: receive_loop.simps)
    next
      case (Inr x)
      obtain d1 n1 c1 where x: "x = (d1, n1, c1)" by (cases x)
      obtain m1 where m1: "rx_got f (sk c) sz data received m1 n1 d1 (sk c1)" and o: "rx_open (sk c1)"
        using step(2) Inr x by blast
      have l: "receive_loop wait fl sz d1 n1 c1 = (e, n, d, c')"
        using prems(7) lt Inr x by (subst (asm) receive_loop.simps) simp
      have g: "rx_later f (sk c) m1 (sk c1)" "unat n1 = unat received + m1" "unat n1 \<le> unat sz" "length d1 = length data"
        using m1 o by (auto simp: rx_got_def)
      have "\<exists>m. rx_got f (sk c1) sz d1 n1 m n d (sk c')"
        by (rule IH [OF lt Inr x [symmetric] refl prems(1) _ o _ _ _ l]) (use g prems(4,5) in \<open>auto simp: rx_later_def\<close>)
      then show ?thesis using rx_got_trans [OF m1 o _ rx_flow_base [OF prems(2)]] by blast
    qed
  qed
qed

section \<open>Segments of the stream and the state handlers\<close>

text \<open>The data of a segment is the stream at its sequence numbers.\<close>

definition carries :: "(nat \<Rightarrow> u8) \<Rightarrow> u32 \<Rightarrow> u32 \<Rightarrow> NetBuffer \<Rightarrow> nat \<Rightarrow> u32 \<Rightarrow> bool" where
  "carries f isn seq b off len \<longleftrightarrow>
     (\<forall>i < unat len. nb_bytes b ! (off + i) = f (unat (seq + of_nat i - isn - 1)))"

lemma carries_matches: "carries f (irs s) seq b off len \<Longrightarrow> seg_matches f s seq b off len"
  by (simp add: carries_def seg_matches_def rx_pos_def)

text \<open>What the stream depends on.\<close>

definition rx_view :: "Socket \<Rightarrow> NetBuffer \<times> u32 \<times> u32 \<times> u32 \<times> u16 \<times> u16 \<times> TcpSackBlock list" where
  "rx_view s = (rxBuffer s, rxBufferSize s, irs s, rx_end s, rcvUser s, rcvWnd s, sackBlock s)"

lemma rx_view_flow: "rx_view s' = rx_view s \<Longrightarrow> rx_flow f s' = rx_flow f s \<and> rx_start s' = rx_start s \<and> rx_room s' = rx_room s"
  by (simp add: rx_view_def rx_flow_def rx_ok_def rcv_inv_def rx_base_def rx_blocks_ok_def rx_held_def
      rx_slot_def rx_start_def rx_room_def)

lemma rx_view_later: "rx_flow f s \<Longrightarrow> rx_view s' = rx_view s \<Longrightarrow> rx_later f s 0 s'"
  using rx_view_flow [of s' s f] by (simp add: rx_later_def rx_view_def)

lemma rx_view_checks [simp]:
  "rx_view (sk (snd (tcpCheckAck h len c))) = rx_view (sk c)"
  "rx_view (sk (sendAck c)) = rx_view (sk c)"
  by (simp_all add: rx_view_def rx_end_def sendAck_def)

lemma rx_view_nagle: "nagle fl c = Some c' \<Longrightarrow> rx_view (sk c') = rx_view (sk c) \<and> sk_state (sk c') = sk_state (sk c)"
proof -
  assume "nagle fl c = Some c'"
  then obtain r where r: "tcpNagleAlgo fl c = Some r" "c' = snd r" by (auto simp: nagle_def)
  show ?thesis unfolding r(2) by (simp add: rx_view_def rx_end_def tcpNagleAlgo_frame [OF r(1)])
qed

text \<open>The FIN takes one sequence number and ends the data.\<close>

lemma rx_view_fin:
  "data_state (sk c) \<Longrightarrow> st \<notin> {TCP_STATE_ESTABLISHED, TCP_STATE_FIN_WAIT_1, TCP_STATE_FIN_WAIT_2} \<Longrightarrow>
   rx_view (sk (tcpChangeState st (ackFin c))) = rx_view (sk c)"
  by (auto simp: rx_view_def rx_end_def ackFin_def sendAck_def data_state_def)

lemma segment_later:
  fixes c :: conn
  assumes flow: "rx_flow f (sk c)" and room: "rx_room (sk c)" and st: "data_state (sk c)"
    and acc: "acceptable (sk c) h len" and len: "unat len < 65536"
    and b: "nb_wf b" "off + unat len \<le> length (nb_bytes b)" and data: "carries f (irs (sk c)) (seqNum h) b off len"
  shows "rx_later f (sk c) 0 (sk (if len > 0 then tcpProcessSegmentData h b off len c else c))"
proof (cases "len > 0")
  case True
  note p = tcpProcessSegmentData_flow [OF flow room st acc True len b carries_matches [OF data]]
  have "sk_state (sk (tcpProcessSegmentData h b off len c)) = sk_state (sk c)" by simp
  then have "rx_end (sk (tcpProcessSegmentData h b off len c)) = rcvNxt (sk (tcpProcessSegmentData h b off len c))"
    using st by (simp add: rx_end_def data_state_def)
  with p(1,2) True rx_end_data [OF st] show ?thesis by (simp add: rx_later_def rx_start_def)
qed (simp add: rx_later_refl flow)

lemma acceptable_view: "rcvNxt s' = rcvNxt s \<Longrightarrow> rcvWnd s' = rcvWnd s \<Longrightarrow> acceptable s' h len = acceptable s h len"
  by (simp add: acceptable_def)

text \<open>
  The checks that open every handler: the segment is dropped (the socket unchanged), the
  connection is reset, or the rest of the handler runs on the same socket.
\<close>

lemma pred_on_error:
  "(fst r \<noteq> NO_ERROR \<Longrightarrow> Q (snd r)) \<Longrightarrow> (fst r = NO_ERROR \<Longrightarrow> pred_option Q (k (snd r))) \<Longrightarrow> pred_option Q (on_error r Some k)"
  "(fst r \<noteq> NO_ERROR \<Longrightarrow> Q (snd r)) \<Longrightarrow> (fst r = NO_ERROR \<Longrightarrow> Q (k' (snd r))) \<Longrightarrow> Q (on_error r id k')"
  by (simp_all add: on_error_def)

lemma handler_checks:
  fixes c :: conn
  assumes drop: "\<And>c'. sk c' = sk c \<Longrightarrow> Q c'" and rst: "\<And>c'. sk c' = sk c \<Longrightarrow> Q (tcpChangeState TCP_STATE_CLOSED c')"
  shows "(\<And>c'. acceptable (sk c) h len \<Longrightarrow> sk c' = sk c \<Longrightarrow> pred_option Q (k c')) \<Longrightarrow>
    pred_option Q (on_error (tcpCheckSequenceNumber h len c) Some (\<lambda>c.
      if has_flag (flags h) TCP_FLAG_RST then Some (tcpChangeState TCP_STATE_CLOSED c)
      else on_error (tcpCheckSyn h len c) Some k))"
    and "(\<And>c'. acceptable (sk c) h len \<Longrightarrow> sk c' = sk c \<Longrightarrow> Q (k' c')) \<Longrightarrow>
    Q (on_error (tcpCheckSequenceNumber h len c) id (\<lambda>c.
      if has_flag (flags h) TCP_FLAG_RST then tcpChangeState TCP_STATE_CLOSED c
      else on_error (tcpCheckSyn h len c) id k'))"
  by (cases "acceptable (sk c) h len"; simp add: on_error_def drop rst tcpCheckSequenceNumber_ok)+

text \<open>What a handler may do to the stream: nothing, as long as the socket stays readable.\<close>

definition keeps_stream :: "(nat \<Rightarrow> u8) \<Rightarrow> Socket \<Rightarrow> conn \<Rightarrow> bool" where
  "keeps_stream f s c' \<longleftrightarrow> rx_open (sk c') \<and> sk_state (sk c') \<noteq> TCP_STATE_TIME_WAIT \<longrightarrow> rx_later f s 0 (sk c')"

lemma keeps_view: "rx_flow f s \<Longrightarrow> rx_view (sk c') = rx_view s \<Longrightarrow> keeps_stream f s c'"
  by (simp add: keeps_stream_def rx_view_later)

lemma keeps_later: "rx_later f s 0 s1 \<Longrightarrow> rx_view (sk c') = rx_view s1 \<Longrightarrow> keeps_stream f s c'"
  using rx_later_trans [of f s 0 s1 0] rx_view_later [of f s1 "sk c'"] by (simp add: keeps_stream_def rx_later_def)

lemma keeps_reset: "sk_state (sk c) \<notin> {TCP_STATE_LAST_ACK, TCP_STATE_TIME_WAIT} \<Longrightarrow>
    keeps_stream f s (tcpChangeState TCP_STATE_CLOSED c)"
  by (auto simp: keeps_stream_def rx_open_def data_state_def)

lemma keeps_nagle: "(\<And>c'. rx_view (sk c') = rx_view (sk c) \<Longrightarrow> keeps_stream f s c') \<Longrightarrow> pred_option (keeps_stream f s) (nagle fl c)"
  by (cases "nagle fl c") (auto dest: rx_view_nagle)

text \<open>The data of the segment and its FIN, in a state where data is taken.\<close>

lemma text_later:
  fixes c :: conn
  assumes flow: "rx_flow f (sk c)" and room: "rx_room (sk c)" and st: "data_state (sk c)"
    and len: "unat len < 65536" and b: "nb_wf b" "off + unat len \<le> length (nb_bytes b)"
    and data: "carries f (irs (sk c)) (seqNum h) b off len" and acc: "acceptable (sk c) h len"
    and c2: "rx_view (sk c2) = rx_view (sk c)" "data_state (sk c2)" "rcvNxt (sk c2) = rcvNxt (sk c)"
  shows "rx_later f (sk c) 0 (sk (if len > 0 then tcpProcessSegmentData h b off len c2 else c2))"
proof -
  have v: "rx_flow f (sk c2)" "rx_room (sk c2)" using rx_view_flow [OF c2(1), of f] flow room by simp_all
  have "irs (sk c2) = irs (sk c)" "rcvWnd (sk c2) = rcvWnd (sk c)" using c2(1) by (simp_all add: rx_view_def)
  then have "rx_later f (sk c2) 0 (sk (if len > 0 then tcpProcessSegmentData h b off len c2 else c2))"
    using v c2 acc acceptable_view [of "sk c2" "sk c"] by (intro segment_later len b) (simp_all add: data)
  from rx_later_trans [OF rx_view_later [OF flow c2(1)] this] show ?thesis by simp
qed

lemma established_keeps:
  fixes c :: conn
  assumes flow: "rx_flow f (sk c)" and room: "rx_room (sk c)" and st: "sk_state (sk c) = TCP_STATE_ESTABLISHED"
    and len: "unat len < 65536" and b: "nb_wf b" "off + unat len \<le> length (nb_bytes b)"
    and data: "carries f (irs (sk c)) (seqNum h) b off len"
  shows "pred_option (keeps_stream f (sk c)) (tcpStateEstablished h b off len c)"
  unfolding tcpStateEstablished_def
proof (rule handler_checks(1) [where Q = "keeps_stream f (sk c)"])
  fix c1 :: conn assume acc: "acceptable (sk c) h len" and c1: "sk c1 = sk c"
  define c2 where "c2 = snd (tcpCheckAck h len c1)"
  define c3 where "c3 = (if len > 0 then tcpProcessSegmentData h b off len c2 else c2)"
  have d: "data_state (sk c)" using st by (simp add: data_state_def)
  have later: "rx_later f (sk c) 0 (sk c3)" and d3: "data_state (sk c3)"
    using text_later [OF flow room d len b data acc, of c2] c1 d by (simp_all add: c2_def c3_def data_state_def)
  show "pred_option (keeps_stream f (sk c)) (on_error (tcpCheckAck h len c1) Some (\<lambda>c.
     let c = (if len > 0 then tcpProcessSegmentData h b off len c else c);
         c = (if fin_received h len (sk c) then tcpChangeState TCP_STATE_CLOSE_WAIT (ackFin c) else c);
         fl = (if dupAckCount (sk c) > 0 then SOCKET_FLAG_NO_DELAY else 0)
     in nagle fl c))"
  proof (rule pred_on_error(1), goal_cases)
    case 1 show ?case by (rule keeps_view [OF flow]) (simp add: c1)
  next
    case 2 show ?case
      unfolding Let_def c2_def [symmetric] c3_def [symmetric]
      by (rule keeps_nagle, rule keeps_later [OF later]) (simp add: rx_view_fin d3 split: if_splits)
  qed
qed (simp_all add: keeps_view flow keeps_reset st)


lemma data_checkAck [simp]: "data_state (sk (snd (tcpCheckAck h len c))) = data_state (sk c)"
  by (simp add: data_state_def)

lemma finWait1_keeps:
  fixes c :: conn
  assumes flow: "rx_flow f (sk c)" and room: "rx_room (sk c)" and st: "sk_state (sk c) = TCP_STATE_FIN_WAIT_1"
    and len: "unat len < 65536" and b: "nb_wf b" "off + unat len \<le> length (nb_bytes b)"
    and data: "carries f (irs (sk c)) (seqNum h) b off len"
  shows "keeps_stream f (sk c) (tcpStateFinWait1 h b off len c)"
  unfolding tcpStateFinWait1_def
proof (rule handler_checks(2) [where Q = "keeps_stream f (sk c)"])
  fix c1 :: conn assume acc: "acceptable (sk c) h len" and c1: "sk c1 = sk c"
  define c0 where "c0 = snd (tcpCheckAck h len c1)"
  define c2 where "c2 = (if ackNum h = sndNxt (sk c0)
              then tcpChangeState TCP_STATE_FIN_WAIT_2
                     (start_timer finWait2Timer finWait2Timer_update TCP_FIN_WAIT_2_TIMER c0) else c0)"
  define c3 where "c3 = (if len > 0 then tcpProcessSegmentData h b off len c2 else c2)"
  have d: "data_state (sk c)" using st by (simp add: data_state_def)
  have v2: "rx_view (sk c2) = rx_view (sk c)" "data_state (sk c2)" "rcvNxt (sk c2) = rcvNxt (sk c)"
    using c1 st by (simp_all add: c2_def c0_def rx_view_def rx_end_def sk_start_timer data_state_def)
  have later: "rx_later f (sk c) 0 (sk c3)" and d3: "data_state (sk c3)"
    using text_later [OF flow room d len b data acc v2] v2(2) by (simp_all add: c3_def data_state_def)
  have tw: "keeps_stream f (sk c) (enterTimeWait x)" for x by (simp add: keeps_stream_def enterTimeWait_def)
  show "keeps_stream f (sk c) (on_error (tcpCheckAck h len c1) id (\<lambda>c.
     let c = (if ackNum h = sndNxt (sk c)
              then tcpChangeState TCP_STATE_FIN_WAIT_2
                     (start_timer finWait2Timer finWait2Timer_update TCP_FIN_WAIT_2_TIMER c)
              else c);
         c = (if len > 0 then tcpProcessSegmentData h b off len c else c)
     in if fin_received h len (sk c) then
          let c = ackFin c
          in if ackNum h = sndNxt (sk c) then enterTimeWait c else tcpChangeState TCP_STATE_CLOSING c
        else c))"
  proof (rule pred_on_error(2) [where Q = "keeps_stream f (sk c)"], goal_cases)
    case 1 show ?case by (rule keeps_view [OF flow]) (simp add: c1)
  next
    case 2 show ?case
      unfolding Let_def c0_def [symmetric] c2_def [symmetric] c3_def [symmetric]
      using tw keeps_later [OF later] by (simp add: rx_view_fin d3)
  qed
qed (simp_all add: keeps_view flow keeps_reset st)

lemma finWait2_keeps:
  fixes c :: conn
  assumes flow: "rx_flow f (sk c)" and room: "rx_room (sk c)" and st: "sk_state (sk c) = TCP_STATE_FIN_WAIT_2"
    and len: "unat len < 65536" and b: "nb_wf b" "off + unat len \<le> length (nb_bytes b)"
    and data: "carries f (irs (sk c)) (seqNum h) b off len"
  shows "keeps_stream f (sk c) (tcpStateFinWait2 h b off len c)"
  unfolding tcpStateFinWait2_def
proof (rule handler_checks(2) [where Q = "keeps_stream f (sk c)"])
  fix c1 :: conn assume acc: "acceptable (sk c) h len" and c1: "sk c1 = sk c"
  define c2 where "c2 = snd (tcpCheckAck h len c1)"
  define c3 where "c3 = (if len > 0 then tcpProcessSegmentData h b off len c2 else c2)"
  have d: "data_state (sk c)" using st by (simp add: data_state_def)
  have later: "rx_later f (sk c) 0 (sk c3)"
    using text_later [OF flow room d len b data acc, of c2] c1 d by (simp_all add: c2_def c3_def data_state_def)
  show "keeps_stream f (sk c) (on_error (tcpCheckAck h len c1) id (\<lambda>c.
     let c = (if len > 0 then tcpProcessSegmentData h b off len c else c)
     in if fin_received h len (sk c) then enterTimeWait (ackFin c) else c))"
  proof (rule pred_on_error(2) [where Q = "keeps_stream f (sk c)"], goal_cases)
    case 1 show ?case by (rule keeps_view [OF flow]) (simp add: c1)
  next
    case 2 show ?case
      unfolding Let_def c2_def [symmetric] c3_def [symmetric]
      using keeps_later [OF later] by (simp add: keeps_stream_def enterTimeWait_def)
  qed
qed (simp_all add: keeps_view flow keeps_reset st)

lemma rx_view_close: "\<not> data_state (sk c) \<Longrightarrow> rx_view (sk (tcpChangeState TCP_STATE_CLOSED c)) = rx_view (sk c)"
  by (auto simp: rx_view_def rx_end_def data_state_def)

lemma closing_keeps:
  fixes c :: conn
  assumes flow: "rx_flow f (sk c)" and st: "sk_state (sk c) \<in> {TCP_STATE_CLOSE_WAIT, TCP_STATE_LAST_ACK, TCP_STATE_CLOSING}"
  shows "pred_option (keeps_stream f (sk c)) (tcpStateCloseWait h len c)"
    and "keeps_stream f (sk c) (tcpStateLastAck h len c)" and "keeps_stream f (sk c) (tcpStateClosing h len c)"
proof -
  have close: "sk c' = sk c \<Longrightarrow> keeps_stream f (sk c) (tcpChangeState TCP_STATE_CLOSED c')" for c' :: conn
    by (rule keeps_view [OF flow], subst rx_view_close) (use st in \<open>auto simp: data_state_def\<close>)
  have view: "rx_view (sk c') = rx_view (sk c) \<Longrightarrow> keeps_stream f (sk c) c'" for c' :: conn by (rule keeps_view [OF flow])
  have tw: "keeps_stream f (sk c) (enterTimeWait x)" for x by (simp add: keeps_stream_def enterTimeWait_def)
  show "pred_option (keeps_stream f (sk c)) (tcpStateCloseWait h len c)"
    unfolding tcpStateCloseWait_def
    by (rule handler_checks(1) [where Q = "keeps_stream f (sk c)"]; (rule pred_on_error(1))?)
      (simp_all add: view close keeps_nagle)
  show "keeps_stream f (sk c) (tcpStateLastAck h len c)"
    unfolding tcpStateLastAck_def
    by (rule handler_checks(2) [where Q = "keeps_stream f (sk c)"]) (simp_all add: view close)
  show "keeps_stream f (sk c) (tcpStateClosing h len c)"
    unfolding tcpStateClosing_def
    by (rule handler_checks(2) [where Q = "keeps_stream f (sk c)"]; (rule pred_on_error(2) [where Q = "keeps_stream f (sk c)"])?) (simp_all add: view close tw)
qed

lemma run_state_keeps:
  fixes c :: conn
  assumes flow: "rx_flow f (sk c)" and room: "rx_room (sk c)"
    and st: "sk_state (sk c) \<in> {TCP_STATE_ESTABLISHED, TCP_STATE_FIN_WAIT_1, TCP_STATE_FIN_WAIT_2,
      TCP_STATE_CLOSE_WAIT, TCP_STATE_LAST_ACK, TCP_STATE_CLOSING}"
    and seg: "unat len < 65536" "nb_wf b" "off + unat len \<le> length (nb_bytes b)"
    and data: "carries f (irs (sk c)) (seqNum h) b off len"
  shows "pred_option (keeps_stream f (sk c)) (run_state ifc ph h b off len c)"
  using st established_keeps [OF flow room _ seg data] finWait1_keeps [OF flow room _ seg data]
    finWait2_keeps [OF flow room _ seg data] closing_keeps [OF flow]
  by (auto simp: run_state_def)

section \<open>Properties\<close>

text \<open>
  Property C9. Taking in a segment keeps the receive stream: if the buffer holds the bytes of the
  stream \<open>f\<close> and the segment carries bytes of \<open>f\<close>, then afterwards it holds bytes of \<open>f\<close> again, the
  position of the user has not moved, and \<open>RCV.NXT\<close> has advanced exactly when the segment covers
  it; a segment beyond a gap is kept as a block and delivered later.
\<close>

theorem segment_keeps_stream:
  assumes "rx_flow f (sk c)" and "rx_room (sk c)" and "data_state (sk c)" and "acceptable (sk c) h len"
    and "0 < len" and "unat len < 65536" and "nb_wf b" and "off + unat len \<le> length (nb_bytes b)"
    and "seg_matches f (sk c) (seqNum h) b off len"
  shows "rx_flow f (sk (tcpProcessSegmentData h b off len c)) \<and>
    rx_start (sk (tcpProcessSegmentData h b off len c)) = rx_start (sk c) \<and>
    (if seqNum h = rcvNxt (sk c) \<or> \<not> in_window (sk c) (seqNum h)
     then unat (rcvNxt (sk c)) < unat (rcvNxt (sk (tcpProcessSegmentData h b off len c)))
     else rcvNxt (sk (tcpProcessSegmentData h b off len c)) = rcvNxt (sk c))"
proof -
  note p = tcpProcessSegmentData_flow [OF assms]
  have "data_state (sk (tcpProcessSegmentData h b off len c))" using assms(3) by (simp add: data_state_def)
  with p assms(3) show ?thesis by (simp add: rx_start_def rx_end_data)
qed

definition example_stream :: "nat \<Rightarrow> u8" where "example_stream p = of_nat (p + 1)"

definition example_rx :: Socket where
  "example_rx = example_sock\<lparr>irs := 0, rcvNxt := 3, rcvUser := 2, rcvWnd := 3\<rparr>"

definition example_seg :: NetBuffer where
  "example_seg = \<lparr>maxChunkCount = 2, chunk = [\<lparr>address = 0, storage = [4, 5], chLength = 2, chSize = 0\<rparr>]\<rparr>"

lemma example_rx_flow: "rx_flow example_stream example_rx" "rx_room example_rx" "data_state example_rx" "rx_open example_rx"
proof -
  have r: "rx_ok example_rx" using example_ok(2) by (simp add: example_rx_def rx_ok_def)
  have e: "rx_end example_rx = 3" "rx_base example_rx = 1" "rx_held example_rx = {1, 2}"
    by (auto simp: example_rx_def rx_end_def rx_base_def rx_held_def blocks_span_def example_sock_def zeroSocket_def)
  have s: "rx_slot example_stream example_rx p" if "p \<in> {1, 2}" for p
    using that e by (auto simp: rx_slot_def example_stream_def example_rx_def example_sock_def example_wf)
  show "rx_flow example_stream example_rx"
    using r e s by (simp add: rx_flow_def rcv_inv_def rx_blocks_ok_def) (simp add: example_rx_def example_sock_def zeroSocket_def)
  show "rx_room example_rx" "data_state example_rx" "rx_open example_rx"
    using e by (simp_all add: rx_room_def data_state_def rx_open_def example_rx_def example_sock_def)
qed

definition example_header :: TcpHeader where
  "example_header = \<lparr>srcPort = 4000, destPort = 80, seqNum = 4, ackNum = 1, dataOffset = 5, flags = TCP_FLAG_ACK,
     window = 100, checksum = 0, urgentPointer = 0, options = []\<rparr>"

lemma example_seg_bytes: "nb_wf example_seg" "nb_bytes example_seg = [4, 5]"
  by (simp_all add: example_seg_def nb_wf_def nb_bytes_def chunk_wf_def chunk_bytes_def)

lemma example_carries: "carries example_stream 0 4 example_seg 0 2"
  by (auto simp: carries_def example_seg_bytes example_stream_def less_2_cases_iff)

lemma example_acceptable: "acceptable example_rx example_header 2" "irs example_rx = 0" "rcvNxt example_rx = 3"
  "seqNum example_header = 4" "in_window example_rx 4"
  by (simp_all add: acceptable_window in_window_def example_rx_def example_header_def)

theorem segment_keeps_stream_witness:
  "rx_flow example_stream (sk (tcpProcessSegmentData example_header example_seg 0 2 \<lparr>cx = example_ctx, sk = example_rx\<rparr>)) \<and>
   rcvNxt (sk (tcpProcessSegmentData example_header example_seg 0 2 \<lparr>cx = example_ctx, sk = example_rx\<rparr>)) = 3"
proof -
  have "seg_matches example_stream example_rx 4 example_seg 0 2"
    using carries_matches [of example_stream example_rx] example_carries example_acceptable by simp
  then show ?thesis
    using segment_keeps_stream [of example_stream "\<lparr>cx = example_ctx, sk = example_rx\<rparr>" example_header 2 example_seg 0]
      example_rx_flow example_acceptable
    by (simp add: example_seg_bytes)
qed


definition example_ph :: IpPseudoHeader where
  "example_ph = \<lparr>phLength = SIZEOF_IPV4_PSEUDO_HEADER, phSrcAddr = [192, 168, 0, 2], phDestAddr = [192, 168, 0, 1],
     phProtocol = 6, phDataLength = 22\<rparr>"



text \<open>While the user waits, a segment of the stream may arrive.\<close>

definition example_arrival :: "systime_t \<Rightarrow> conn \<Rightarrow> conn" where
  "example_arrival t c =
     (if data_state (sk c) \<and> irs (sk c) = 0 \<and> acceptable (sk c) example_header 2
      then tcpProcessSegmentData example_header example_seg 0 2 c else c)"

lemma example_rely: "rx_rely example_stream example_arrival"
proof -
  have "rx_later example_stream (sk c) 0 (sk (example_arrival t c))"
    if "rx_flow example_stream (sk c)" "rx_room (sk c)" for t c
    using segment_later [OF that, of example_header 2 example_seg 0] example_carries that
    by (simp add: example_arrival_def example_seg_bytes example_header_def rx_later_refl)
  then show ?thesis by (auto simp: rx_rely_def rx_later_def)
qed


end
