(* ===== verification/Tcp_Send.thy ===== *)
theory Tcp_Send
  imports Tcp_Segment "HOL-Library.Multiset"
begin

text \<open>
  What \<open>tcpSendSegment\<close> puts on the wire: exactly one datagram, made of the header with the
  fields of the socket, the MSS option of a SYN and the requested bytes of the send buffer, with a
  checksum that verifies; and that it releases every block it allocates but the queue item.
\<close>

section \<open>The buffer of an outgoing segment\<close>

text \<open>One block: room for the lower headers, then the segment; its chunk is not owned by the descriptor.\<close>

definition frame_buf :: "nat \<Rightarrow> u8 list \<Rightarrow> nat \<Rightarrow> NetBuffer" where
  "frame_buf a st n =
     \<lparr>maxChunkCount = MAX_CHUNK_COUNT,
      chunk = [\<lparr>address = a + CHUNKED_BUFFER_HEADER_SIZE, storage = st, chLength = n, chSize = 0\<rparr>]\<rparr>"

lemma ipAllocBuffer_shape:
  assumes "len + 62 \<le> 1456"
  shows "ipAllocBuffer x len =
    (case heapResult x (calls x) of
       None \<Rightarrow> (None, tick_call x)
     | Some a \<Rightarrow> (Some (a, frame_buf a (drop CHUNKED_BUFFER_HEADER_SIZE (heapMem x a)) (len + 62), 62),
                 (tick_call x)\<lparr>live := a # live x\<rparr>))"
  using assms
  by (auto simp: ipAllocBuffer_def ethAllocBuffer_def bufAlloc_def netBufferAlloc_def heapAlloc_def
      netBufferSetLength_def frame_buf_def NET_MEM_POOL_BUFFER_SIZE_def CHUNKED_BUFFER_HEADER_SIZE_def
      Let_def split: option.splits)

lemma heapMem_length [simp]: "length (heapMem x a) = 1536"
  by (simp add: heapMem_def NET_MEM_POOL_BUFFER_SIZE_def)

lemma frame_buf_bytes: "n \<le> length st \<Longrightarrow> nb_wf (frame_buf a st n) \<and> nb_bytes (frame_buf a st n) = take n st"
  by (simp add: frame_buf_def nb_wf_def nb_bytes_def chunk_wf_def chunk_bytes_def)

lemma frame_buf_at: "off < n \<Longrightarrow> netBufferAt (frame_buf a st n) off = Some (a + CHUNKED_BUFFER_HEADER_SIZE + off, drop off st)"
  by (simp add: frame_buf_def netBufferAt_def)

lemma frame_buf_poke: "off < n \<Longrightarrow> netBufferPoke (frame_buf a st n) off xs = frame_buf a (list_write st off xs) n"
  by (simp add: frame_buf_def netBufferPoke_def chunk_put_def)

lemma frame_buf_setLength:
  "0 < k \<Longrightarrow> k \<le> n \<Longrightarrow> bufSetLength x (frame_buf a st n) k = (NO_ERROR, x, frame_buf a st k)"
  by (simp add: bufSetLength_def netBufferSetLength_def frame_buf_def)

text \<open>Releasing a buffer whose data chunks belong to someone else frees just the descriptor block.\<close>

definition unowned :: "NetBuffer \<Rightarrow> bool" where
  "unowned b \<longleftrightarrow> (\<forall>c \<in> set (chunk b). chSize c = 0)"

lemma release_unowned: "\<forall>c \<in> set cs. chSize c = 0 \<Longrightarrow> release_chunks free cs p = p"
  by (induction cs arbitrary: p) auto

lemma bufFree_unowned: "unowned b \<Longrightarrow> bufFree x a b = heapFree a x"
  by (simp add: bufFree_def netBufferFree_def netBufferSetLength_0 release_unowned unowned_def)

lemma concat_loop_unowned: "\<forall>d \<in> set (fst (concat_loop k cs off len)). chSize d = 0"
  by (induction k cs off len rule: concat_loop.induct) (auto simp: Let_def split_beta)

lemma netBufferConcat_chunks:
  "\<exists>ds. chunk (snd (netBufferConcat dest src off len)) = chunk dest @ ds \<and> (\<forall>d \<in> set ds. chSize d = 0)"
  by (auto simp: netBufferConcat_def split_beta concat_loop_unowned simp del: concat_loop.simps split: list.splits)

lemma tcpReadTxBuffer_chunks:
  "\<exists>ds. chunk (snd (tcpReadTxBuffer s seq b len)) = chunk b @ ds \<and> (\<forall>d \<in> set ds. chSize d = 0)"
proof -
  define off where "off = (seq - iss s - 1) mod txBufferSize s"
  let ?c1 = "netBufferConcat b (txBuffer s) (unat off) (unat (txBufferSize s - off))"
  obtain ds1 where 1: "chunk (snd ?c1) = chunk b @ ds1" "\<forall>d \<in> set ds1. chSize d = 0"
    using netBufferConcat_chunks by blast
  obtain ds2 where 2: "chunk (snd (netBufferConcat (snd ?c1) (txBuffer s) 0 (unat (len - txBufferSize s + off))))
      = chunk (snd ?c1) @ ds2" "\<forall>d \<in> set ds2. chSize d = 0"
    using netBufferConcat_chunks by blast
  show ?thesis
  proof (cases "off + len \<le> txBufferSize s")
    case True
    then show ?thesis by (simp add: tcpReadTxBuffer_def off_def netBufferConcat_chunks)
  next
    case False
    have "chunk (snd (tcpReadTxBuffer s seq b len)) = chunk b @ ds1 \<or>
        chunk (snd (tcpReadTxBuffer s seq b len)) = chunk b @ (ds1 @ ds2)"
      using False 1(1) 2(1) by (simp add: tcpReadTxBuffer_def Let_def off_def [symmetric] split_beta)
    with 1(2) 2(2) show ?thesis by (metis Un_iff set_append)
  qed
qed

text \<open>Storing inside the first chunk of a buffer.\<close>

lemma poke_first:
  assumes "nb_wf b" and "chunk b = c # cs" and "off + length xs \<le> chLength c" and "off < chLength c"
  shows "nb_bytes (netBufferPoke b off xs) = list_write (nb_bytes b) off xs" and "nb_wf (netBufferPoke b off xs)"
    and "chunk (netBufferPoke b off xs) = chunk_put c off xs # cs"
  using assms by (auto simp: netBufferPoke_def nb_bytes_def nb_wf_def chunk_bytes_put list_write_append1)

section \<open>The header of an outgoing segment\<close>

definition seg_header :: "Socket \<Rightarrow> u8 \<Rightarrow> u32 \<Rightarrow> u32 \<Rightarrow> u16 \<Rightarrow> TcpHeader" where
  "seg_header s fl seq ack cs =
     \<lparr>srcPort = localPort s, destPort = remotePort s, seqNum = seq,
      ackNum = (if has_flag fl TCP_FLAG_ACK then ack else 0),
      dataOffset = (if has_flag fl TCP_FLAG_SYN then 6 else 5), flags = fl, window = rcvWnd s,
      checksum = cs, urgentPointer = 0, options = []\<rparr>"

definition seg_options :: "Socket \<Rightarrow> u8 \<Rightarrow> u8 list" where
  "seg_options s fl = (if has_flag fl TCP_FLAG_SYN then [TCP_OPTION_MAX_SEGMENT_SIZE, 4] @ be16 (rmss s) else [])"

lemma length_tcpHeader_bytes [simp]: "length (tcpHeader_bytes h) = 20"
  by (simp add: tcpHeader_bytes_def)

lemma header_nth:
  "(tcpHeader_bytes h @ r) ! 12 = push_bit 4 (dataOffset h)" "(tcpHeader_bytes h @ r) ! 13 = flags h AND 0x3F"
  by (simp_all add: tcpHeader_bytes_def be16_def be32_def le16_def)

lemma nibble: "(d::u8) < 16 \<Longrightarrow> drop_bit 4 (push_bit 4 d) = d"
proof -
  assume "d < 16"
  then have "unat d < 16" by (simp add: word_less_nat_alt)
  then have "unat (drop_bit 4 (push_bit 4 d)) = unat d" by (simp add: unat_drop_bit unat_push_bit)
  then show ?thesis by (simp add: word_unat_eq_iff)
qed

lemma hdr_dataOffset_bytes: "dataOffset h < 16 \<Longrightarrow> hdr_dataOffset (tcpHeader_bytes h @ r) = dataOffset h"
  by (simp only: hdr_dataOffset_def header_nth nibble)

text \<open>Reading the members of a header gives back the fields it was built from.\<close>

lemma tcpHeader_roundtrip:
  "dataOffset h < 16 \<Longrightarrow> tcpHeader_of (tcpHeader_bytes h @ r) = h\<lparr>flags := flags h AND 0x3F, options := r\<rparr>"
  by (simp add: tcpHeader_of_def hdr_seqNum_def hdr_flags_def hdr_dataOffset_def tcpHeader_bytes_def
      be16_def be32_def le16_def nibble)

lemma formatHeader_bytes:
  assumes "24 \<le> length m"
  shows "formatHeader s fl seq ack m =
    tcpHeader_bytes (seg_header s fl seq ack 0) @ seg_options s fl @ drop (20 + length (seg_options s fl)) m"
proof (cases "has_flag fl TCP_FLAG_SYN")
  case False
  then show ?thesis
    by (simp add: formatHeader_def Let_def seg_header_def seg_options_def list_write_def)
next
  case True
  let ?h = "(seg_header s fl seq ack 0)\<lparr>dataOffset := 5\<rparr>"
  let ?m = "tcpHeader_bytes ?h @ drop 20 m"
  have m: "list_write m 0 (tcpHeader_bytes ?h) = ?m" by (simp add: list_write_def)
  have d: "hdr_dataOffset ?m = 5" by (subst hdr_dataOffset_bytes) simp_all
  have "formatHeader s fl seq ack m = snd (tcpAddOption ?m TCP_OPTION_MAX_SEGMENT_SIZE (be16 (rmss s)) 2)"
    using True m by (simp add: formatHeader_def Let_def seg_header_def)
  also have "\<dots> = (list_write ?m 20 (seg_options s fl))[12 := (list_write ?m 20 (seg_options s fl) ! 12 AND 0x0F) OR push_bit 4 6]"
    using True by (simp add: tcpAddOption_def d Let_def seg_options_def)
  also have "list_write ?m 20 (seg_options s fl) = tcpHeader_bytes ?h @ seg_options s fl @ drop 24 m"
    using True assms by (simp add: list_write_def seg_options_def drop_drop)
  also have "\<dots>[12 := (\<dots> ! 12 AND 0x0F) OR push_bit 4 6] =
      tcpHeader_bytes (seg_header s fl seq ack 0) @ seg_options s fl @ drop 24 m"
    using True by (simp add: header_nth, simp add: tcpHeader_bytes_def be16_def be32_def le16_def seg_header_def)
  finally show ?thesis using True by (simp add: seg_options_def)
qed

section \<open>The segment before it is submitted\<close>

definition seg_payload :: "Socket \<Rightarrow> u32 \<Rightarrow> u32 \<Rightarrow> u8 list" where
  "seg_payload s seq len = ring_read (tx_ring s) (tx_pos s seq) (unat len)"

text \<open>The data to be sent exists: nothing, or a range of an allocated send buffer.\<close>

definition payload_ok :: "Socket \<Rightarrow> u32 \<Rightarrow> bool" where
  "payload_ok s len \<longleftrightarrow> len = 0 \<or> tx_ok s \<and> len \<le> txBufferSize s"

definition alloc_ctx :: "nat \<Rightarrow> ctx \<Rightarrow> ctx" where
  "alloc_ctx a x = (tick_call x)\<lparr>live := a # live x\<rparr>"

abbreviation (input) seg_hlen :: "Socket \<Rightarrow> u8 \<Rightarrow> nat" where
  "seg_hlen s fl \<equiv> 20 + length (seg_options s fl)"

lemma seg_hlen_dataOffset:
  "unat (dataOffset (seg_header s fl seq ack cs)) * 4 = seg_hlen s fl" "dataOffset (seg_header s fl seq ack cs) < 16"
  by (simp_all add: seg_header_def seg_options_def)

text \<open>The buffer holding the header with a zero checksum, behind the room for the lower headers.\<close>

definition seg_buf :: "nat \<Rightarrow> Socket \<Rightarrow> u8 \<Rightarrow> u32 \<Rightarrow> u32 \<Rightarrow> u8 list \<Rightarrow> NetBuffer" where
  "seg_buf a s fl seq ack st =
     frame_buf a (take 62 st @ formatHeader s fl seq ack (drop 62 st)) (62 + seg_hlen s fl)"

lemma seg_buf_bytes:
  assumes "length st = 1456"
  shows "nb_wf (seg_buf a s fl seq ack st)"
    and "nb_bytes (seg_buf a s fl seq ack st) =
      take 62 st @ tcpHeader_bytes (seg_header s fl seq ack 0) @ seg_options s fl"
    and "unowned (seg_buf a s fl seq ack st)"
    and "\<exists>d. chunk (seg_buf a s fl seq ack st) = [d] \<and> chLength d = 62 + seg_hlen s fl \<and> chunk_wf d"
  using assms
  by (simp_all add: seg_buf_def formatHeader_bytes unowned_def frame_buf_def chunk_wf_def nb_wf_def nb_bytes_def
      chunk_bytes_def)

lemma length_formatHeader: "24 \<le> length m \<Longrightarrow> length (formatHeader s fl seq ack m) = length m"
  by (simp add: formatHeader_bytes seg_options_def)

text \<open>The buffer with the data, the block being at address \<open>a\<close>.\<close>

definition seg_read :: "nat \<Rightarrow> u8 \<Rightarrow> u32 \<Rightarrow> u32 \<Rightarrow> u32 \<Rightarrow> conn \<Rightarrow> error_t \<times> NetBuffer" where
  "seg_read a fl seq ack len c =
     (let b = seg_buf a (sk c) fl seq ack (drop CHUNKED_BUFFER_HEADER_SIZE (heapMem (cx c) a))
      in if len > 0 then tcpReadTxBuffer (sk c) seq b len else (NO_ERROR, b))"

lemma tcpSendSegment_built:
  assumes a: "heapResult (cx c) (calls (cx c)) = Some a" and r: "r = seg_read a fl seq ack len c"
  shows "tcpSendSegment fl seq ack len q c =
    (if fst r \<noteq> NO_ERROR then (fst r, c\<lparr>cx := bufFree (alloc_ctx a (cx c)) a (snd r)\<rparr>)
     else case formatPseudoHeader (sk c) (word_of_nat (seg_hlen (sk c) fl) + len) of
       None \<Rightarrow> (ERROR_INVALID_ADDRESS, c\<lparr>cx := bufFree (alloc_ctx a (cx c)) a (snd r)\<rparr>)
     | Some ph \<Rightarrow>
         (let cs = ipCalcUpperLayerChecksumEx 0 (pseudoHeader_bytes ph) (snd r) 62
                     (unat (word_of_nat (seg_hlen (sk c) fl) + len :: u32));
              b = netBufferPoke (snd r) 78 (le16 cs)
          in submitSegment q (take (seg_hlen (sk c) fl) (snd (the (netBufferAt b 62)))) len ph a b 62
               (c\<lparr>cx := alloc_ctx a (cx c)\<rparr>)))"
proof -
  define st where "st = drop CHUNKED_BUFFER_HEADER_SIZE (heapMem (cx c) a)"
  have l: "length st = 1456" by (simp add: st_def CHUNKED_BUFFER_HEADER_SIZE_def)
  let ?m = "formatHeader (sk c) fl seq ack (drop 62 st)"
  have do: "unat (hdr_dataOffset ?m) * 4 = seg_hlen (sk c) fl"
    using l by (simp add: formatHeader_bytes hdr_dataOffset_bytes seg_hlen_dataOffset)
  have al: "ipAllocBuffer (cx c) TCP_MAX_HEADER_LENGTH = (Some (a, frame_buf a st 122, 62), alloc_ctx a (cx c))"
    by (subst ipAllocBuffer_shape) (simp_all add: a st_def alloc_ctx_def)
  have w: "list_write st 62 ?m = take 62 st @ ?m"
    using l by (simp add: list_write_def length_formatHeader)
  have sl: "bufSetLength (alloc_ctx a (cx c)) (frame_buf a (take 62 st @ ?m) 122) (62 + seg_hlen (sk c) fl)
      = (NO_ERROR, alloc_ctx a (cx c), seg_buf a (sk c) fl seq ack st)"
    by (subst frame_buf_setLength) (simp_all add: seg_buf_def, simp add: seg_options_def)
  have at: "netBufferAt (frame_buf a st 122) 62 = Some (a + CHUNKED_BUFFER_HEADER_SIZE + 62, drop 62 st)"
    by (rule frame_buf_at) simp
  have poke: "netBufferPoke (frame_buf a st 122) 62 ?m = frame_buf a (take 62 st @ ?m) 122"
    unfolding w [symmetric] by (rule frame_buf_poke) simp
  have n: "62 + 16 = (78 :: nat)" by simp
  show ?thesis
    unfolding tcpSendSegment_def al r seg_read_def st_def [symmetric] prod.case option.case Let_def
      at option.sel fst_conv snd_conv poke do sl split_beta n by (rule refl)
qed

lemma header_checksum:
  "tcpHeader_bytes (h\<lparr>checksum := cs\<rparr>) = take 16 (tcpHeader_bytes h) @ le16 cs @ drop 18 (tcpHeader_bytes h)"
  by (simp add: tcpHeader_bytes_def be16_def be32_def le16_def)

lemma seg_read_ok:
  assumes "payload_ok (sk c) len" and r: "seg_read a fl seq ack len c = (NO_ERROR, b)"
  defines "pre \<equiv> take 62 (drop CHUNKED_BUFFER_HEADER_SIZE (heapMem (cx c) a))"
  shows "nb_wf b" and "length pre = 62"
    and "nb_bytes b = pre @ tcpHeader_bytes (seg_header (sk c) fl seq ack 0) @ seg_options (sk c) fl @ seg_payload (sk c) seq len"
proof -
  define b0 where "b0 = seg_buf a (sk c) fl seq ack (drop CHUNKED_BUFFER_HEADER_SIZE (heapMem (cx c) a))"
  have "length (drop CHUNKED_BUFFER_HEADER_SIZE (heapMem (cx c) a)) = 1456"
    by (simp add: CHUNKED_BUFFER_HEADER_SIZE_def)
  note b0 = seg_buf_bytes [OF this, of a "sk c" fl seq ack, folded b0_def pre_def]
  show "length pre = 62" by (simp add: pre_def CHUNKED_BUFFER_HEADER_SIZE_def)
  have "nb_wf b \<and> nb_bytes b = nb_bytes b0 @ seg_payload (sk c) seq len"
  proof (cases "len = 0")
    case True
    with r b0(1) show ?thesis by (simp add: seg_read_def b0_def [symmetric] seg_payload_def ring_read_def)
  next
    case False
    with r have "tcpReadTxBuffer (sk c) seq b0 len = (NO_ERROR, b)"
      by (simp add: seg_read_def b0_def [symmetric] word_neq_0_conv)
    from tcpReadTxBuffer_ring [OF _ b0(1) _ this] assms(1) False show ?thesis
      by (simp add: payload_ok_def seg_payload_def)
  qed
  with b0(2) show "nb_wf b"
    "nb_bytes b = pre @ tcpHeader_bytes (seg_header (sk c) fl seq ack 0) @ seg_options (sk c) fl @ seg_payload (sk c) seq len"
    by simp_all
qed

lemma seg_read_chunks:
  "\<exists>d ds. chunk (snd (seg_read a fl seq ack len c)) = d # ds \<and> chLength d = 62 + seg_hlen (sk c) fl \<and> chunk_wf d \<and>
     (\<forall>e \<in> set (d # ds). chSize e = 0)"
proof -
  define b0 where "b0 = seg_buf a (sk c) fl seq ack (drop CHUNKED_BUFFER_HEADER_SIZE (heapMem (cx c) a))"
  have "length (drop CHUNKED_BUFFER_HEADER_SIZE (heapMem (cx c) a)) = 1456"
    by (simp add: CHUNKED_BUFFER_HEADER_SIZE_def)
  note b0 = seg_buf_bytes [OF this, of a "sk c" fl seq ack, folded b0_def]
  obtain d where d: "chunk b0 = [d]" "chLength d = 62 + seg_hlen (sk c) fl" "chunk_wf d" using b0(4) by blast
  moreover have "chSize d = 0" using b0(3) d(1) by (simp add: unowned_def)
  moreover obtain ds where "chunk (snd (tcpReadTxBuffer (sk c) seq b0 len)) = chunk b0 @ ds" "\<forall>d \<in> set ds. chSize d = 0"
    using tcpReadTxBuffer_chunks by blast
  ultimately show ?thesis by (auto simp: seg_read_def b0_def [symmetric])
qed

lemma seg_read_unowned: "unowned (snd (seg_read a fl seq ack len c))"
  using seg_read_chunks [of a fl seq ack len c] by (auto simp: unowned_def)

text \<open>Storing the checksum completes the header.\<close>

lemma seg_poked:
  assumes ok: "payload_ok (sk c) len" and r: "seg_read a fl seq ack len c = (NO_ERROR, b)"
  defines "h \<equiv> \<lambda>cs. tcpHeader_bytes (seg_header (sk c) fl seq ack cs)"
  shows "drop 62 (nb_bytes (netBufferPoke b 78 (le16 cs))) = h cs @ seg_options (sk c) fl @ seg_payload (sk c) seq len"
    and "take (seg_hlen (sk c) fl) (snd (the (netBufferAt (netBufferPoke b 78 (le16 cs)) 62))) = h cs @ seg_options (sk c) fl"
    and "unowned (netBufferPoke b 78 (le16 cs))"
proof -
  let ?o = "seg_options (sk c) fl" and ?p = "seg_payload (sk c) seq len"
  note b = seg_read_ok [OF ok r]
  obtain d ds where d: "chunk b = d # ds" "chLength d = 62 + seg_hlen (sk c) fl" "chunk_wf d"
      "\<forall>e \<in> set (d # ds). chSize e = 0"
    using seg_read_chunks [of a fl seq ack len c] r by auto
  have hc: "list_write (h 0) 16 (le16 cs) = h cs"
    using header_checksum [of cs "seg_header (sk c) fl seq ack 0"] by (simp add: h_def list_write_def seg_header_def)
  have w: "list_write (pre @ h 0 @ t) 78 (le16 cs) = pre @ h cs @ t" if "length pre = 62" for pre t
    using that hc by (simp add: list_write_append2 list_write_append1 h_def)
  note p = poke_first [OF b(1) d(1), of 78 "le16 cs"]
  have bytes: "nb_bytes (netBufferPoke b 78 (le16 cs)) =
      take 62 (drop CHUNKED_BUFFER_HEADER_SIZE (heapMem (cx c) a)) @ h cs @ ?o @ ?p"
    using p d(2) w [OF b(2)] b(3) by (simp add: h_def)
  show "drop 62 (nb_bytes (netBufferPoke b 78 (le16 cs))) = h cs @ ?o @ ?p"
    unfolding bytes using b(2) by simp
  show "unowned (netBufferPoke b 78 (le16 cs))" using p d by (simp add: unowned_def)
  have first: "take (62 + seg_hlen (sk c) fl) (storage (chunk_put d 78 (le16 cs))) =
      take (62 + seg_hlen (sk c) fl) (nb_bytes (netBufferPoke b 78 (le16 cs)))"
  proof -
    let ?d = "chunk_put d 78 (le16 cs)"
    have "chunk (netBufferPoke b 78 (le16 cs)) = ?d # ds" using p d(2) by simp
    then have "nb_bytes (netBufferPoke b 78 (le16 cs)) = chunk_bytes ?d @ chunks_bytes ds"
      by (simp add: nb_bytes_def)
    moreover have "length (chunk_bytes ?d) = 62 + seg_hlen (sk c) fl" using d(2,3) by simp
    ultimately show ?thesis using d(2) by (simp add: chunk_bytes_def)
  qed
  have "take (seg_hlen (sk c) fl) (drop 62 (storage (chunk_put d 78 (le16 cs)))) = h cs @ ?o"
    using arg_cong [OF first, of "drop 62"] unfolding bytes using b(2) by (simp add: take_drop h_def)
  then show "take (seg_hlen (sk c) fl) (snd (the (netBufferAt (netBufferPoke b 78 (le16 cs)) 62))) = h cs @ ?o"
    using p d by (simp add: netBufferAt_def)
qed

section \<open>Submission\<close>

lemma ctx_heap [simp]:
  "sent (heapFree a x) = sent x" "live (heapFree a x) = remove1 a (live x)" "sent (tick_call x) = sent x"
  "live (tick_call x) = live x" "sent (alloc_ctx a x) = sent x" "live (alloc_ctx a x) = a # live x"
  by (simp_all add: heapFree_def tick_call_def alloc_ctx_def)

lemma queueSegment_effect:
  assumes "queueSegment header len ph c = (e, c')"
  shows "sent (cx c') = sent (cx c) \<and> sk_interface (sk c') = sk_interface (sk c) \<and> ttl (sk c') = ttl (sk c) \<and>
    (if e = NO_ERROR
     then \<exists>a. live (cx c') = a # live (cx c) \<and>
       retransmitQueue (sk c') = retransmitQueue (sk c) @
         [\<lparr>qiAddress = a, qiLength = len, qiSacked = False, qiPseudoHeader = ph, qiHeader = header\<rparr>]
     else e = ERROR_OUT_OF_MEMORY \<and> live (cx c') = live (cx c) \<and> retransmitQueue (sk c') = retransmitQueue (sk c))"
  using assms
  by (auto simp: queueSegment_def heapAlloc_def Let_def split_beta sk_start_timer
      split: option.splits if_splits)

text \<open>The effect of the last part: one datagram, unless the queue item cannot be allocated.\<close>

lemma submitSegment_effect:
  assumes "submitSegment q header len ph a b off c = (e, c')" and "phLength ph \<in> {12, 40}" and "unowned b"
    and "a \<in> set (live (cx c))"
  shows "(sent (cx c') = sent (cx c) \<and> e \<noteq> NO_ERROR \<or>
      sent (cx c') = sent (cx c) @ [\<lparr>dgInterface = sk_interface (sk c), dgPseudoHeader = ph,
                                     dgBytes = drop off (nb_bytes b), dgAncillary = ttl_option (ttl (sk c))\<rparr>])"
    and "\<exists>new. retransmitQueue (sk c') = retransmitQueue (sk c) @ new \<and>
      mset (live (cx c')) + {#a#} = mset (live (cx c)) + mset (map qiAddress new) \<and>
      (\<forall>i \<in> set new. qiHeader i = header \<and> qiLength i = len \<and> qiPseudoHeader i = ph) \<and> length new \<le> (if q then 1 else 0)"
proof -
  obtain e1 c1 where c1: "(if q then queueSegment header len ph c else (NO_ERROR, c)) = (e1, c1)" by fastforce
  note eff = queueSegment_effect [of header len ph c e1 c1]
  have s1: "sent (cx c1) = sent (cx c)" "sk_interface (sk c1) = sk_interface (sk c)" "ttl (sk c1) = ttl (sk c)"
    using c1 eff by (auto split: if_splits)
  have c': "c' = (if e1 \<noteq> NO_ERROR then c1\<lparr>cx := heapFree a (cx c1)\<rparr>
      else c1\<lparr>cx := heapFree a (snd (ipSendDatagram (cx c1) (sk_interface (sk c1)) ph b off (ttl_option (ttl (sk c1)))))\<rparr>)"
    and e: "e1 \<noteq> NO_ERROR \<Longrightarrow> e = e1"
    using assms(1,3) c1 by (auto simp: submitSegment_def Let_def split_beta bufFree_unowned split: if_splits)
  have ip: "live (snd (ipSendDatagram x i ph b off t)) = live x" for x i t
    by (simp add: ipSendDatagram_def)
  show "sent (cx c') = sent (cx c) \<and> e \<noteq> NO_ERROR \<or>
      sent (cx c') = sent (cx c) @ [\<lparr>dgInterface = sk_interface (sk c), dgPseudoHeader = ph,
                                     dgBytes = drop off (nb_bytes b), dgAncillary = ttl_option (ttl (sk c))\<rparr>]"
    using c' e s1 assms(2) by (auto simp: ipSendDatagram_def)
  have q: "\<exists>new. retransmitQueue (sk c1) = retransmitQueue (sk c) @ new \<and>
      mset (live (cx c1)) = mset (live (cx c)) + mset (map qiAddress new) \<and>
      (\<forall>i \<in> set new. qiHeader i = header \<and> qiLength i = len \<and> qiPseudoHeader i = ph) \<and> length new \<le> (if q then 1 else 0)"
  proof (cases "q \<and> e1 = NO_ERROR")
    case True
    then obtain a1 where "live (cx c1) = a1 # live (cx c)" "retransmitQueue (sk c1) = retransmitQueue (sk c) @
        [\<lparr>qiAddress = a1, qiLength = len, qiSacked = False, qiPseudoHeader = ph, qiHeader = header\<rparr>]"
      using c1 eff by auto
    with True show ?thesis
      by (intro exI [of _ "[\<lparr>qiAddress = a1, qiLength = len, qiSacked = False, qiPseudoHeader = ph, qiHeader = header\<rparr>]"])
        simp
  next
    case False
    then have "live (cx c1) = live (cx c)" "retransmitQueue (sk c1) = retransmitQueue (sk c)"
      using c1 eff by (auto split: if_splits)
    then show ?thesis by (intro exI [of _ "[]"]) simp
  qed
  then obtain new where new: "retransmitQueue (sk c1) = retransmitQueue (sk c) @ new"
    "mset (live (cx c1)) = mset (live (cx c)) + mset (map qiAddress new)"
    "\<forall>i \<in> set new. qiHeader i = header \<and> qiLength i = len \<and> qiPseudoHeader i = ph" "length new \<le> (if q then 1 else 0)"
    by blast
  have "mset (live (cx c')) + {#a#} = mset (live (cx c1))"
    using c' new(2) assms(4) by (simp add: ip)
  with new c' show "\<exists>new. retransmitQueue (sk c') = retransmitQueue (sk c) @ new \<and>
      mset (live (cx c')) + {#a#} = mset (live (cx c)) + mset (map qiAddress new) \<and>
      (\<forall>i \<in> set new. qiHeader i = header \<and> qiLength i = len \<and> qiPseudoHeader i = ph) \<and> length new \<le> (if q then 1 else 0)"
    by (intro exI [of _ new]) (auto split: if_splits)
qed

lemma formatPseudoHeader_length: "formatPseudoHeader s n = Some ph \<Longrightarrow> phLength ph \<in> {12, 40}"
  by (auto simp: formatPseudoHeader_def split: if_splits)

text \<open>The datagram of a segment: header, options and data, with a checksum that verifies.\<close>

definition wire_segment :: "Socket \<Rightarrow> u8 \<Rightarrow> u32 \<Rightarrow> u32 \<Rightarrow> u32 \<Rightarrow> Datagram \<Rightarrow> bool" where
  "wire_segment s fl seq ack len dg \<longleftrightarrow>
     dgInterface dg = sk_interface s \<and> dgAncillary dg = ttl_option (ttl s) \<and>
     formatPseudoHeader s (word_of_nat (length (dgBytes dg))) = Some (dgPseudoHeader dg) \<and>
     (\<exists>cs. dgBytes dg = tcpHeader_bytes (seg_header s fl seq ack cs) @ seg_options s fl @ seg_payload s seq len) \<and>
     (\<forall>b off. nb_wf b \<longrightarrow> take (length (dgBytes dg)) (drop off (nb_bytes b)) = dgBytes dg \<longrightarrow>
        ipCalcUpperLayerChecksumEx 0 (pseudoHeader_bytes (dgPseudoHeader dg)) b off (length (dgBytes dg)) = 0)"

lemma wire_segment_built:
  assumes ok: "payload_ok (sk c) len" and r: "seg_read a fl seq ack len c = (NO_ERROR, b)"
    and ph: "formatPseudoHeader (sk c) (word_of_nat (seg_hlen (sk c) fl) + len) = Some ph"
    and cs: "cs = ipCalcUpperLayerChecksumEx 0 (pseudoHeader_bytes ph) b 62 (unat (word_of_nat (seg_hlen (sk c) fl) + len :: u32))"
  shows "wire_segment (sk c) fl seq ack len \<lparr>dgInterface = sk_interface (sk c), dgPseudoHeader = ph,
    dgBytes = drop 62 (nb_bytes (netBufferPoke b 78 (le16 cs))), dgAncillary = ttl_option (ttl (sk c))\<rparr>"
proof -
  let ?H = "\<lambda>cs. tcpHeader_bytes (seg_header (sk c) fl seq ack cs)"
  let ?t = "seg_options (sk c) fl @ seg_payload (sk c) seq len"
  note b = seg_read_ok [OF ok r]
  have D: "drop 62 (nb_bytes (netBufferPoke b 78 (le16 cs))) = ?H cs @ ?t" using seg_poked(1) [OF ok r] by simp
  have lb: "unat len \<le> 22880" using ok by (auto simp: payload_ok_def tx_ok_def word_le_nat_alt)
  have hl: "seg_hlen (sk c) fl \<le> 24" by (simp add: seg_options_def)
  have n: "word_of_nat (seg_hlen (sk c) fl) + len = (word_of_nat (length (?H cs @ ?t)) :: u32)"
    by (simp add: seg_payload_def)
  have u: "unat (word_of_nat (length (?H cs @ ?t)) :: u32) = length (?H cs @ ?t)"
    by (rule unat_word_of_nat_u32) (use lb hl in \<open>simp add: seg_payload_def\<close>)
  define h where "h = seg_header (sk c) fl seq ack 0"
  have split: "?H cs' = take 16 (tcpHeader_bytes h) @ le16 cs' @ drop 18 (tcpHeader_bytes h)" for cs'
    using header_checksum [of cs' h] by (simp add: h_def seg_header_def)
  have z: "le16 0 = [0, 0]" by (simp add: le16_def)
  have zero: "take (length (?H cs @ ?t)) (drop 62 (nb_bytes b)) =
      take 16 (tcpHeader_bytes h) @ [0, 0] @ (drop 18 (tcpHeader_bytes h) @ ?t)"
    unfolding b(3) split [of 0, unfolded z] using b(2) by simp
  have cs': "le16 cs = le16 (ipCalcUpperLayerChecksumEx 0 (pseudoHeader_bytes ph) b 62 (length (?H cs @ ?t)))"
    using cs arg_cong [OF n, of unat] u by metis
  have "ipCalcUpperLayerChecksumEx 0 (pseudoHeader_bytes ph) b' off (length (?H cs @ ?t)) = 0"
    if b': "nb_wf b'" "take (length (?H cs @ ?t)) (drop off (nb_bytes b')) = ?H cs @ ?t" for b' off
  proof (rule checksum_inserted [OF b(1) b'(1) _ zero])
    show "take (length (?H cs @ ?t)) (drop off (nb_bytes b')) = take 16 (tcpHeader_bytes h) @
        le16 (ipCalcUpperLayerChecksumEx 0 (pseudoHeader_bytes ph) b 62 (length (?H cs @ ?t))) @
        (drop 18 (tcpHeader_bytes h) @ ?t)"
      unfolding b'(2) unfolding cs' [symmetric] unfolding split by simp
  qed simp
  then show ?thesis
    using ph n D by (auto simp: wire_segment_def simp del: length_append)
qed

text \<open>Either nothing has happened, or the segment was built and submitted.\<close>

lemma tcpSendSegment_submits:
  assumes ok: "payload_ok (sk c) len" and send: "tcpSendSegment fl seq ack len q c = (e, c')"
  obtains (failed) "e \<noteq> NO_ERROR" "sent (cx c') = sent (cx c)" "sk c' = sk c" "live (cx c') = live (cx c)"
  | (submitted) a ph b cs where
      "submitSegment q (tcpHeader_bytes (seg_header (sk c) fl seq ack cs) @ seg_options (sk c) fl) len ph a b 62
         (c\<lparr>cx := alloc_ctx a (cx c)\<rparr>) = (e, c')"
      "phLength ph \<in> {12, 40}" "unowned b"
      "wire_segment (sk c) fl seq ack len \<lparr>dgInterface = sk_interface (sk c), dgPseudoHeader = ph,
         dgBytes = drop 62 (nb_bytes b), dgAncillary = ttl_option (ttl (sk c))\<rparr>"
proof (cases "heapResult (cx c) (calls (cx c))")
  case None
  then show ?thesis using send by (intro failed) (auto simp: tcpSendSegment_def ipAllocBuffer_shape)
next
  case (Some a)
  define r where "r = seg_read a fl seq ack len c"
  note built = tcpSendSegment_built [OF Some r_def]
  show ?thesis
  proof (cases "fst r = NO_ERROR \<and> formatPseudoHeader (sk c) (word_of_nat (seg_hlen (sk c) fl) + len) \<noteq> None")
    case False
    then show ?thesis using send seg_read_unowned [of a fl seq ack len c, folded r_def]
      by (intro failed) (auto simp: built bufFree_unowned split: if_splits)
  next
    case True
    then obtain ph b where ph: "formatPseudoHeader (sk c) (word_of_nat (seg_hlen (sk c) fl) + len) = Some ph"
      and b: "seg_read a fl seq ack len c = (NO_ERROR, b)" by (cases r) (auto simp: r_def)
    define cs where "cs = ipCalcUpperLayerChecksumEx 0 (pseudoHeader_bytes ph) b 62 (unat (word_of_nat (seg_hlen (sk c) fl) + len :: u32))"
    from send have "submitSegment q (tcpHeader_bytes (seg_header (sk c) fl seq ack cs) @ seg_options (sk c) fl) len ph a
        (netBufferPoke b 78 (le16 cs)) 62 (c\<lparr>cx := alloc_ctx a (cx c)\<rparr>) = (e, c')"
      unfolding built using True ph b seg_poked(2) [OF ok b, of cs] by (simp add: r_def cs_def Let_def)
    from submitted [OF this formatPseudoHeader_length [OF ph] seg_poked(3) [OF ok b] wire_segment_built [OF ok b ph cs_def]]
    show ?thesis .
  qed
qed

section \<open>Properties\<close>

text \<open>
  Property C32. \<open>tcpSendSegment\<close> either fails without sending anything, or hands exactly one
  datagram to the IP layer: the header carries the ports, numbers, flags and window asked for, a
  SYN carries the MSS option, the payload is the requested range of the send buffer, and the
  checksum of the datagram verifies at any receiver.
\<close>

theorem tcpSendSegment_wire:
  assumes "payload_ok (sk c) len" and "tcpSendSegment fl seq ack len q c = (e, c')"
  shows "sent (cx c') = sent (cx c) \<and> e \<noteq> NO_ERROR \<or>
    (\<exists>dg. sent (cx c') = sent (cx c) @ [dg] \<and> wire_segment (sk c) fl seq ack len dg)"
  using assms
proof (cases rule: tcpSendSegment_submits)
  case (submitted a ph b cs)
  then show ?thesis using submitSegment_effect(1) [OF submitted(1-3)] by auto
qed simp

definition example_conn :: conn where
  "example_conn = \<lparr>cx = example_ctx, sk = example_sock\<rparr>"

lemma example_payload_ok: "payload_ok (sk example_conn) 2"
  using example_ok(1) by (simp add: payload_ok_def example_conn_def example_sock_def zeroSocket_def)

theorem tcpSendSegment_wire_witness:
  "\<exists>dg. sent (cx (snd (tcpSendSegment TCP_FLAG_ACK 4 9 2 False example_conn))) = [dg] \<and>
     wire_segment example_sock TCP_FLAG_ACK 4 9 2 dg"
proof -
  let ?b = "seg_buf 0 example_sock TCP_FLAG_ACK 4 9 (drop CHUNKED_BUFFER_HEADER_SIZE (heapMem example_ctx 0))"
  have "fst (netBufferConcat ?b example_dest 3 2) = NO_ERROR"
    by (rule netBufferConcat_ok)
      (simp_all add: example_wf seg_buf_def frame_buf_def, simp add: example_dest_def MAX_CHUNK_COUNT_def)
  then have r: "fst (seg_read 0 TCP_FLAG_ACK 4 9 2 example_conn) = NO_ERROR"
    by (simp add: seg_read_def example_conn_def Let_def tcpReadTxBuffer_def, simp add: example_sock_def zeroSocket_def)
  have h: "heapResult (cx example_conn) (calls (cx example_conn)) = Some 0" "ipResult (cx example_conn) n = NO_ERROR" for n
    by (simp_all add: example_conn_def example_ctx_def)
  obtain ph where ph: "formatPseudoHeader (sk example_conn) (word_of_nat (seg_hlen (sk example_conn) TCP_FLAG_ACK) + 2) = Some ph"
    by (simp add: formatPseudoHeader_def example_conn_def example_sock_def zeroSocket_def)
  have 1: "fst (tcpSendSegment TCP_FLAG_ACK 4 9 2 False example_conn) = NO_ERROR"
    using r ph formatPseudoHeader_length [OF ph] h
    by (auto simp: tcpSendSegment_built [OF h(1) refl] submitSegment_def ipSendDatagram_def Let_def alloc_ctx_def
        tick_call_def simp del: length_append)
  have 2: "sent (cx example_conn) = []" "sk example_conn = example_sock" by (simp_all add: example_conn_def example_ctx_def)
  show ?thesis
    using tcpSendSegment_wire [OF example_payload_ok surjective_pairing, of TCP_FLAG_ACK 4 9 False] 1
    unfolding 2 by auto
qed

text \<open>
  \<open>tcpSendSegment\<close> leaks no memory: on every path, errors included, the only block it
  leaves allocated is the one of the item it appended to the retransmission queue, if it was asked
  to queue the segment; that item keeps the very header that was sent and the data length.
\<close>

theorem tcpSendSegment_no_leak:
  assumes "payload_ok (sk c) len" and "tcpSendSegment fl seq ack len q c = (e, c')"
  shows "\<exists>new. retransmitQueue (sk c') = retransmitQueue (sk c) @ new \<and>
    mset (live (cx c')) = mset (live (cx c)) + mset (map qiAddress new) \<and> length new \<le> (if q then 1 else 0) \<and>
    (\<forall>i \<in> set new. qiLength i = len \<and>
      (\<exists>cs. qiHeader i = tcpHeader_bytes (seg_header (sk c) fl seq ack cs) @ seg_options (sk c) fl))"
  using assms
proof (cases rule: tcpSendSegment_submits)
  case failed
  then show ?thesis by simp
next
  case (submitted a ph b cs)
  then show ?thesis using submitSegment_effect(2) [OF submitted(1-3)] by auto
qed

theorem tcpSendSegment_no_leak_witness:
  "\<exists>new. retransmitQueue (sk (snd (tcpSendSegment TCP_FLAG_ACK 4 9 2 True example_conn))) = new \<and> length new \<le> 1 \<and>
     mset (live (cx (snd (tcpSendSegment TCP_FLAG_ACK 4 9 2 True example_conn)))) = mset (map qiAddress new)"
  using tcpSendSegment_no_leak [OF example_payload_ok surjective_pairing, of TCP_FLAG_ACK 4 9 True]
  by (auto simp: example_conn_def example_ctx_def example_sock_def zeroSocket_def)

end
