(* ===== verification/Tcp_Transitions.thy ===== *)
theory Tcp_Transitions
  imports Tcp_Reassembly Tcp_Send
begin

text \<open>
  The state machine as a whole: which moves between states a segment or a timer may cause, that
  every handler returns, and the option parser on which the handlers of a SYN depend.
\<close>

section \<open>Parsing options\<close>

text \<open>The parser meets an option of length zero that is not the one it looks for.\<close>

inductive opt_stuck :: "u8 list \<Rightarrow> nat \<Rightarrow> u8 \<Rightarrow> nat \<Rightarrow> bool" for opts len kind where
  zero: "i + 1 < len \<Longrightarrow> opts ! i \<notin> {TCP_OPTION_NOP, TCP_OPTION_END, kind} \<Longrightarrow> opts ! (i + 1) = 0 \<Longrightarrow> opt_stuck opts len kind i"
| nop: "i < len \<Longrightarrow> opts ! i = TCP_OPTION_NOP \<Longrightarrow> opt_stuck opts len kind (i + 1) \<Longrightarrow> opt_stuck opts len kind i"
| skip: "i + 1 < len \<Longrightarrow> opts ! i \<notin> {TCP_OPTION_NOP, TCP_OPTION_END, kind} \<Longrightarrow> i + unat (opts ! (i + 1)) \<le> len \<Longrightarrow>
    opt_stuck opts len kind (i + unat (opts ! (i + 1))) \<Longrightarrow> opt_stuck opts len kind i"

lemma getOption_zero:
  assumes "getOption_loop opts len kind i = Some r"
  shows "\<not> (i + 1 < len \<and> opts ! i \<notin> {TCP_OPTION_NOP, TCP_OPTION_END, kind} \<and> opts ! (i + 1) = 0)"
  by (rule getOption_loop.raw_induct [OF _ assms, where P = "\<lambda>opts len kind i r.
      \<not> (i + 1 < len \<and> opts ! i \<notin> {TCP_OPTION_NOP, TCP_OPTION_END, kind} \<and> opts ! (i + 1) = 0)"])
    (fastforce split: if_splits)

lemma getOption_stuck: "opt_stuck opts len kind i \<Longrightarrow> getOption_loop opts len kind i = None"
proof (induction rule: opt_stuck.induct)
  case (zero i)
  then show ?case using getOption_zero [of opts len kind i] by (cases "getOption_loop opts len kind i") auto
next
  case (nop i)
  then show ?case by (subst getOption_loop.simps) simp
next
  case (skip i)
  then show ?case by (subst getOption_loop.simps) simp
qed

lemma getOption_returns: "\<not> opt_stuck opts len kind i \<Longrightarrow> \<exists>r. getOption_loop opts len kind i = Some r"
proof (induction "len - i" arbitrary: i rule: less_induct)
  case less
  let ?n = "unat (opts ! (i + 1))"
  show ?case
  proof (cases "i < len \<and> opts ! i = TCP_OPTION_NOP")
    case True
    then have "\<not> opt_stuck opts len kind (i + 1)" using less.prems opt_stuck.nop by blast
    with less.hyps [of "i + 1"] True show ?thesis by (subst getOption_loop.simps) auto
  next
    case nop: False
    show ?thesis
    proof (cases "i + 1 < len \<and> opts ! i \<notin> {TCP_OPTION_NOP, TCP_OPTION_END, kind} \<and> i + ?n \<le> len")
      case True
      then have "opts ! (i + 1) \<noteq> 0" "\<not> opt_stuck opts len kind (i + ?n)"
        using less.prems opt_stuck.zero opt_stuck.skip by blast+
      moreover from this have "0 < ?n" by (simp add: unat_gt_0)
      ultimately show ?thesis using True less.hyps [of "i + ?n"] by (subst getOption_loop.simps) auto
    next
      case False
      then show ?thesis using nop by (subst getOption_loop.simps) auto
    qed
  qed
qed

lemma getOption_none_iff: "getOption_loop opts len kind i = None \<longleftrightarrow> opt_stuck opts len kind i"
  using getOption_stuck getOption_returns by (metis option.distinct(1))

section \<open>The state diagram\<close>

text \<open>The moves a segment may cause (RFC 793, figure 6, with the resets).\<close>

inductive seg_edge :: "TcpState \<Rightarrow> TcpState \<Rightarrow> bool" where
  syn_acked: "seg_edge TCP_STATE_SYN_SENT TCP_STATE_ESTABLISHED"
| syn_crossed: "seg_edge TCP_STATE_SYN_SENT TCP_STATE_SYN_RECEIVED"
| opened: "seg_edge TCP_STATE_SYN_RECEIVED TCP_STATE_ESTABLISHED"
| opened_fin: "seg_edge TCP_STATE_SYN_RECEIVED TCP_STATE_CLOSE_WAIT"
| fin: "seg_edge TCP_STATE_ESTABLISHED TCP_STATE_CLOSE_WAIT"
| fin_acked: "seg_edge TCP_STATE_FIN_WAIT_1 TCP_STATE_FIN_WAIT_2"
| fin_crossed: "seg_edge TCP_STATE_FIN_WAIT_1 TCP_STATE_CLOSING"
| fin_fin_acked: "seg_edge TCP_STATE_FIN_WAIT_1 TCP_STATE_TIME_WAIT"
| fin_last: "seg_edge TCP_STATE_FIN_WAIT_2 TCP_STATE_TIME_WAIT"
| closing_acked: "seg_edge TCP_STATE_CLOSING TCP_STATE_TIME_WAIT"
| last_acked: "seg_edge TCP_STATE_LAST_ACK TCP_STATE_CLOSED"
| reset: "st \<notin> {TCP_STATE_CLOSED, TCP_STATE_LISTEN} \<Longrightarrow> seg_edge st TCP_STATE_CLOSED"

inductive_simps seg_edge_simps:
  "seg_edge TCP_STATE_CLOSED st" "seg_edge TCP_STATE_LISTEN st" "seg_edge TCP_STATE_SYN_SENT st"
  "seg_edge TCP_STATE_SYN_RECEIVED st" "seg_edge TCP_STATE_ESTABLISHED st" "seg_edge TCP_STATE_CLOSE_WAIT st"
  "seg_edge TCP_STATE_LAST_ACK st" "seg_edge TCP_STATE_FIN_WAIT_1 st" "seg_edge TCP_STATE_FIN_WAIT_2 st"
  "seg_edge TCP_STATE_CLOSING st" "seg_edge TCP_STATE_TIME_WAIT st"

definition moves :: "TcpState \<Rightarrow> conn \<Rightarrow> bool" where
  "moves st c' \<longleftrightarrow> sk_state (sk c') = st \<or> seg_edge st (sk_state (sk c'))"

lemma moves_stay: "sk_state (sk c') = st \<Longrightarrow> moves st c'"
  by (simp add: moves_def)

lemma moves_nagle: "moves st c \<Longrightarrow> pred_option (moves st) (nagle fl c)"
  by (cases "nagle fl c") (auto simp: moves_def dest: rx_view_nagle)

lemma sk_state_ack [simp]:
  "sk_state (sk (sendAck c)) = sk_state (sk c)" "sk_state (sk (ackFin c)) = sk_state (sk c)"
  "sk_state (sk (enterTimeWait c)) = TCP_STATE_TIME_WAIT" "sk_state (sk (disposeSocket c)) = sk_state (sk c)"
  by (simp_all add: sendAck_def ackFin_def enterTimeWait_def disposeSocket_def)

text \<open>The handlers end with the Nagle algorithm, which does not change the state.\<close>

definition est_next :: "conn \<Rightarrow> bool" where
  "est_next c' \<longleftrightarrow> sk_state (sk c') \<in> {TCP_STATE_ESTABLISHED, TCP_STATE_CLOSE_WAIT, TCP_STATE_CLOSED}"

lemma est_nagle: "est_next c \<Longrightarrow> pred_option est_next (nagle fl c)"
  by (cases "nagle fl c") (auto simp: est_next_def dest: rx_view_nagle)

lemma established_moves:
  assumes "sk_state (sk c) = TCP_STATE_ESTABLISHED"
  shows "pred_option est_next (tcpStateEstablished h b off len c)"
  unfolding tcpStateEstablished_def Let_def
  by (rule handler_checks(1) [where Q = est_next]; (rule pred_on_error(1) [where Q = est_next]; (rule est_nagle)?)?)
    (use assms in \<open>simp_all add: est_next_def\<close>)

lemma synReceived_moves:
  assumes "sk_state (sk c) = TCP_STATE_SYN_RECEIVED"
  shows "pred_option (moves TCP_STATE_SYN_RECEIVED) (tcpStateSynReceived h b off len c)"
  unfolding tcpStateSynReceived_def
proof (rule handler_checks(1) [where Q = "moves TCP_STATE_SYN_RECEIVED"])
  fix c1 :: conn
  assume c1: "sk c1 = sk c"
  have "pred_option (moves TCP_STATE_SYN_RECEIVED) (tcpStateEstablished h b off len c')"
    if "sk_state (sk c') = TCP_STATE_ESTABLISHED" for c'
    using established_moves [of c' h b off len] that
    by (cases "tcpStateEstablished h b off len c'") (auto simp: moves_def est_next_def seg_edge_simps)
  then show "pred_option (moves TCP_STATE_SYN_RECEIVED) (if \<not> has_flag (flags h) TCP_FLAG_ACK then Some c1
     else if ackNum h \<noteq> sndNxt (sk c1) then Some (snd (tcpSendSegment TCP_FLAG_RST (ackNum h) 0 0 False c1))
     else
       let c = upd (\<lambda>s. s\<lparr>sndWnd := window h, sndWl1 := seqNum h, sndWl2 := ackNum h, maxSndWnd := window h\<rparr>) c1;
           c = tcpChangeState TCP_STATE_ESTABLISHED c
       in tcpStateEstablished h b off len c)"
    using assms c1 by (simp add: Let_def moves_stay)
qed (use assms in \<open>simp_all add: moves_def seg_edge_simps\<close>)

lemma synSent_moves:
  assumes "sk_state (sk c) = TCP_STATE_SYN_SENT"
  shows "pred_option (moves TCP_STATE_SYN_SENT) (tcpStateSynSent h len c)"
  using assms
  by (auto simp: tcpStateSynSent_def synSent_syn_def moves_def seg_edge_simps Let_def split: option.splits)

lemma other_moves:
  fixes c :: conn
  shows "sk_state (sk c) = TCP_STATE_CLOSE_WAIT \<Longrightarrow> pred_option (moves TCP_STATE_CLOSE_WAIT) (tcpStateCloseWait h len c)"
    and "sk_state (sk c) = TCP_STATE_LAST_ACK \<Longrightarrow> moves TCP_STATE_LAST_ACK (tcpStateLastAck h len c)"
    and "sk_state (sk c) = TCP_STATE_FIN_WAIT_1 \<Longrightarrow> moves TCP_STATE_FIN_WAIT_1 (tcpStateFinWait1 h b off len c)"
    and "sk_state (sk c) = TCP_STATE_FIN_WAIT_2 \<Longrightarrow> moves TCP_STATE_FIN_WAIT_2 (tcpStateFinWait2 h b off len c)"
    and "sk_state (sk c) = TCP_STATE_CLOSING \<Longrightarrow> moves TCP_STATE_CLOSING (tcpStateClosing h len c)"
    and "sk_state (sk c) = TCP_STATE_TIME_WAIT \<Longrightarrow> moves TCP_STATE_TIME_WAIT (tcpStateTimeWait h len c)"
    and "pred_option (\<lambda>c'. sk_state (sk c') = sk_state (sk c)) (tcpStateListen ifc ph h len c)"
proof -
  show "sk_state (sk c) = TCP_STATE_CLOSE_WAIT \<Longrightarrow> pred_option (moves TCP_STATE_CLOSE_WAIT) (tcpStateCloseWait h len c)"
    unfolding tcpStateCloseWait_def
    by (rule handler_checks(1) [where Q = "moves TCP_STATE_CLOSE_WAIT"];
        (rule pred_on_error(1) [where Q = "moves TCP_STATE_CLOSE_WAIT"]; (rule moves_nagle)?)?)
      (simp_all add: moves_def seg_edge_simps)
  show "sk_state (sk c) = TCP_STATE_LAST_ACK \<Longrightarrow> moves TCP_STATE_LAST_ACK (tcpStateLastAck h len c)"
    by (simp add: tcpStateLastAck_def on_error_def moves_def seg_edge_simps)
  show "sk_state (sk c) = TCP_STATE_FIN_WAIT_1 \<Longrightarrow> moves TCP_STATE_FIN_WAIT_1 (tcpStateFinWait1 h b off len c)"
    by (simp add: tcpStateFinWait1_def on_error_def moves_def seg_edge_simps Let_def sk_start_timer)
  show "sk_state (sk c) = TCP_STATE_FIN_WAIT_2 \<Longrightarrow> moves TCP_STATE_FIN_WAIT_2 (tcpStateFinWait2 h b off len c)"
    by (simp add: tcpStateFinWait2_def on_error_def moves_def seg_edge_simps Let_def)
  show "sk_state (sk c) = TCP_STATE_CLOSING \<Longrightarrow> moves TCP_STATE_CLOSING (tcpStateClosing h len c)"
    by (simp add: tcpStateClosing_def on_error_def moves_def seg_edge_simps)
  show "sk_state (sk c) = TCP_STATE_TIME_WAIT \<Longrightarrow> moves TCP_STATE_TIME_WAIT (tcpStateTimeWait h len c)"
    by (simp add: tcpStateTimeWait_def on_error_def moves_def seg_edge_simps sk_start_timer)
  show "pred_option (\<lambda>c'. sk_state (sk c') = sk_state (sk c)) (tcpStateListen ifc ph h len c)"
    by (auto simp: tcpStateListen_def Let_def split: option.splits prod.splits)
qed

lemma run_state_moves: "pred_option (moves (sk_state (sk c))) (run_state ifc ph h b off len c)"
proof (cases "sk_state (sk c)")
  case TCP_STATE_LISTEN
  then show ?thesis using other_moves(7) [of c ifc ph h len]
    by (cases "tcpStateListen ifc ph h len c") (simp_all add: run_state_def moves_stay)
next
  case TCP_STATE_ESTABLISHED
  then show ?thesis using established_moves [of c h b off len]
    by (cases "tcpStateEstablished h b off len c") (auto simp: run_state_def moves_def est_next_def seg_edge_simps)
qed (simp_all add: run_state_def other_moves synSent_moves synReceived_moves, simp add: moves_stay)


section \<open>The handlers return\<close>

lemma nagle_returns: "0 < smss (sk c) \<Longrightarrow> \<exists>c'. nagle fl c = Some c'"
  using nagle_loop_returns [of c fl "usable_window (sk c)"] by (auto simp: nagle_def tcpNagleAlgo_def)

lemma smss_ack [simp]: "smss (sk (sendAck c)) = smss (sk c)" "smss (sk (ackFin c)) = smss (sk c)"
  by (simp_all add: sendAck_def ackFin_def)

lemma on_error_returns:
  "(fst r = NO_ERROR \<Longrightarrow> \<exists>c'. k (snd r) = Some c') \<Longrightarrow> \<exists>c'. on_error r Some k = Some c'"
  by (simp add: on_error_def)

lemma established_returns: "0 < smss (sk c) \<Longrightarrow> \<exists>c'. tcpStateEstablished h b off len c = Some c'"
  unfolding tcpStateEstablished_def Let_def
  by (auto intro!: on_error_returns nagle_returns)

lemma synReceived_returns: "0 < smss (sk c) \<Longrightarrow> \<exists>c'. tcpStateSynReceived h b off len c = Some c'"
  unfolding tcpStateSynReceived_def Let_def
  by (auto intro!: on_error_returns established_returns)

lemma closeWait_returns: "0 < smss (sk c) \<Longrightarrow> \<exists>c'. tcpStateCloseWait h len c = Some c'"
  unfolding tcpStateCloseWait_def
  by (auto intro!: on_error_returns nagle_returns)

definition mss_parses :: "TcpHeader \<Rightarrow> bool" where
  "mss_parses h \<longleftrightarrow> (\<exists>r. tcpGetOption h TCP_OPTION_MAX_SEGMENT_SIZE = Some r)"

lemma syn_returns:
  assumes "mss_parses h"
  shows "\<exists>c'. tcpStateSynSent h len c = Some c'"
    and "phLength ph \<in> {SIZEOF_IPV4_PSEUDO_HEADER, SIZEOF_IPV6_PSEUDO_HEADER} \<Longrightarrow> \<exists>c'. tcpStateListen ifc ph h len c = Some c'"
  using assms
  by (auto simp: mss_parses_def tcpStateSynSent_def synSent_syn_def tcpStateListen_def Let_def split: option.splits prod.splits)

lemma run_state_some:
  assumes "0 < smss (sk c)" and "mss_parses h" and "phLength ph \<in> {SIZEOF_IPV4_PSEUDO_HEADER, SIZEOF_IPV6_PSEUDO_HEADER}"
  shows "\<exists>c'. run_state ifc ph h b off len c = Some c'"
  using assms syn_returns(1) [OF assms(2), of len c] syn_returns(2) [OF assms(2,3), of ifc len c]
    established_returns [OF assms(1), of h b off len] synReceived_returns [OF assms(1), of h b off len]
    closeWait_returns [OF assms(1), of h len]
  by (cases "sk_state (sk c)") (simp_all add: run_state_def)

section \<open>Adding an option and finding it\<close>

lemma getOption_pad:
  assumes "k < len" and "\<forall>j < k. opts ! j = TCP_OPTION_NOP" and "opts ! k = kind" and "kind \<notin> {TCP_OPTION_NOP, TCP_OPTION_END}"
    and "k + 1 < len" and "k + unat (opts ! (k + 1)) \<le> len" and "i \<le> k"
  shows "getOption_loop opts len kind i = Some (Some k)"
  using assms(7)
proof (induction "k - i" arbitrary: i)
  case 0
  then have "i = k" by simp
  then show ?case using assms by (subst getOption_loop.simps) simp
next
  case (Suc d)
  then have "i < k" by linarith
  then show ?case using Suc.hyps(1) [of "i + 1"] Suc.hyps(2) assms by (subst getOption_loop.simps) simp
qed

definition option_pad :: "nat \<Rightarrow> nat" where
  "option_pad n = (if n mod 4 \<noteq> 0 then 4 - n mod 4 else 0)"

lemma option_pad_aligned: "(option_pad n + n) mod 4 = 0" "option_pad n < 4"
  by (auto simp: option_pad_def mod_add_right_eq) presburger

lemma tcpAddOption_fresh:
  fixes kind :: u8 and "value" :: "u8 list"
  assumes m: "hdr_dataOffset m = 5" and w: "w = len + 2" "unat w = n + 2" and n: "n \<le> 38"
  defines "m1 \<equiv> list_write m 20 (replicate (option_pad (n + 2)) TCP_OPTION_NOP @ [kind, w] @ take n value)"
  shows "tcpAddOption m kind value len = (NO_ERROR,
    m1[12 := (m1 ! 12 AND 0x0F) OR push_bit 4 (word_of_nat ((20 + (option_pad (n + 2) + (n + 2))) div 4))])"
  unfolding tcpAddOption_def w(1) [symmetric] m m1_def Let_def using n by (simp add: w(2) option_pad_def)

lemma nibble_offset: "d < 16 \<Longrightarrow> drop_bit 4 ((x AND 0x0F) OR push_bit 4 d) = (d :: u8)"
proof -
  assume d: "d < 16"
  have "drop_bit 4 (x AND 0x0F :: u8) = 0"
    by (rule bit_eqI) (auto simp: bit_simps bit_numeral_iff)
  then show ?thesis using nibble [OF d] by (simp add: drop_bit_or)
qed

lemma tcpAddOption_found:
  assumes m: "hdr_dataOffset m = 5" "60 \<le> length m" and n: "n \<le> 38" "n \<le> length value"
    and kind: "kind \<notin> {TCP_OPTION_NOP, TCP_OPTION_END}"
  shows "\<exists>m'. tcpAddOption m kind value (of_nat n) = (NO_ERROR, m') \<and>
    tcpGetOption (tcpHeader_of m') kind = Some (Some (option_pad (n + 2))) \<and>
    take (n + 2) (drop (option_pad (n + 2)) (options (tcpHeader_of m'))) = [kind, of_nat (n + 2)] @ take n value"
proof -
  let ?p = "option_pad (n + 2)"
  define w where "w = (of_nat (n + 2) :: u8)"
  have u: "unat w = n + 2" "w = of_nat n + 2"
    using n(1) by (simp_all add: w_def unsigned_of_nat take_bit_nat_eq_self del: of_nat_Suc of_nat_add) simp
  let ?opt = "replicate ?p TCP_OPTION_NOP @ [kind, w] @ take n value"
  define k where "k = (20 + (?p + (n + 2))) div 4"
  have p: "(?p + (n + 2)) mod 4 = 0" "?p < 4" using option_pad_aligned [of "n + 2"] by simp_all
  have k: "k * 4 = 20 + (?p + (n + 2))" "k < 16" "5 \<le> k"
    using p n(1) by (simp_all add: k_def) presburger+
  define m1 where "m1 = list_write m 20 ?opt"
  define m' where "m' = m1[12 := (m1 ! 12 AND 0x0F) OR push_bit 4 (of_nat k)]"
  have add: "tcpAddOption m kind value (of_nat n) = (NO_ERROR, m')"
    unfolding m'_def m1_def k_def by (rule tcpAddOption_fresh [OF m(1) u(2,1) n(1)])
  have uk: "unat (of_nat k :: u8) = k" using k(2) by (simp add: unsigned_of_nat take_bit_nat_eq_self)
  have l: "12 < length m1" using m(2) by (simp add: m1_def list_write_def)
  have dk: "hdr_dataOffset m' = of_nat k"
    unfolding hdr_dataOffset_def m'_def nth_list_update_eq [OF l]
    by (rule nibble_offset) (use k(2) uk in \<open>simp add: word_less_nat_alt\<close>)
  have o: "options (tcpHeader_of m') = ?opt @ drop (20 + length ?opt) m"
    using m(2) by (simp add: tcpHeader_of_def m'_def m1_def list_write_def)
  have "getOption_loop (options (tcpHeader_of m')) (?p + (n + 2)) kind 0 = Some (Some ?p)"
    unfolding o using kind u(1) by (intro getOption_pad) (auto simp: nth_append)
  moreover have "\<not> dataOffset (tcpHeader_of m') < 5" "unat (dataOffset (tcpHeader_of m')) * 4 - 20 = ?p + (n + 2)"
    using k uk by (simp_all add: tcpHeader_of_def dk word_less_nat_alt)
  ultimately have "tcpGetOption (tcpHeader_of m') kind = Some (Some ?p)" by (simp add: tcpGetOption_def)
  with add show ?thesis using o n by (simp add: w_def)
qed


section \<open>Properties\<close>

text \<open>
  Property C28. A segment moves a socket only along the edges of the TCP state diagram, whatever
  its flags, numbers and data are and whatever fails on the way.
\<close>

theorem run_state_legal:
  assumes "run_state ifc ph h b off len c = Some c'"
  shows "sk_state (sk c') = sk_state (sk c) \<or> seg_edge (sk_state (sk c)) (sk_state (sk c'))"
  using run_state_moves [of c ifc ph h b off len] assms by (simp add: moves_def)

theorem run_state_legal_witness:
  "sk_state (sk (tcpStateClosing (example_header\<lparr>seqNum := 0, flags := TCP_FLAG_RST\<rparr>) 0
     \<lparr>cx = example_ctx, sk = example_sock\<lparr>sk_state := TCP_STATE_CLOSING\<rparr>\<rparr>)) = TCP_STATE_CLOSED \<and>
   seg_edge TCP_STATE_CLOSING TCP_STATE_CLOSED"
proof -
  let ?c = "\<lparr>cx = example_ctx, sk = example_sock\<lparr>sk_state := TCP_STATE_CLOSING\<rparr>\<rparr>"
  let ?h = "example_header\<lparr>seqNum := 0, flags := TCP_FLAG_RST\<rparr>"
  have s: "sk_state (sk (tcpStateClosing ?h 0 ?c)) = TCP_STATE_CLOSED"
    by (simp add: tcpStateClosing_def on_error_def tcpCheckSequenceNumber_ok acceptable_window in_window_def
        example_sock_def zeroSocket_def has_flag_def)
  moreover have "run_state 0 example_ph ?h example_seg 0 0 ?c = Some (tcpStateClosing ?h 0 ?c)" by (simp add: run_state_def)
  from run_state_legal [OF this] have "sk_state (sk (tcpStateClosing ?h 0 ?c)) = TCP_STATE_CLOSING \<or>
      seg_edge TCP_STATE_CLOSING (sk_state (sk (tcpStateClosing ?h 0 ?c)))" by simp
  ultimately show ?thesis by simp
qed

text \<open>
  Property C29. Every handler returns: the loops over the options, the retransmission queue and the
  data to send all end, provided that the options of the segment contain no option of length zero
  in front of the MSS and that the maximum segment size is not zero.
\<close>

theorem run_state_returns:
  assumes "0 < smss (sk c)" and "\<not> opt_stuck (options h) (unat (dataOffset h) * 4 - SIZEOF_TCP_HEADER) TCP_OPTION_MAX_SEGMENT_SIZE 0"
    and "phLength ph \<in> {SIZEOF_IPV4_PSEUDO_HEADER, SIZEOF_IPV6_PSEUDO_HEADER}"
  shows "\<exists>c'. run_state ifc ph h b off len c = Some c'"
  using run_state_some [OF assms(1) _ assms(3)] getOption_returns [OF assms(2)]
  by (auto simp: mss_parses_def tcpGetOption_def)

theorem run_state_returns_witness:
  "\<exists>c'. run_state 0 example_ph example_header example_seg 0 2 \<lparr>cx = example_ctx, sk = example_sock\<rparr> = Some c'"
proof (rule run_state_returns)
  show "\<not> opt_stuck (options example_header) (unat (dataOffset example_header) * 4 - SIZEOF_TCP_HEADER)
      TCP_OPTION_MAX_SEGMENT_SIZE 0"
    by (simp add: example_header_def getOption_none_iff [symmetric] getOption_loop.simps)
qed (simp_all add: example_sock_def example_ph_def)

text \<open>
  Property C37. The option parser runs forever exactly when it meets an option of length zero that
  is neither padding nor the option looked for; a remote peer can send such a SYN.
\<close>

theorem tcpGetOption_diverges_iff:
  "tcpGetOption h kind = None \<longleftrightarrow>
     \<not> dataOffset h < 5 \<and> opt_stuck (options h) (unat (dataOffset h) * 4 - SIZEOF_TCP_HEADER) kind 0"
  by (simp add: tcpGetOption_def getOption_none_iff)

text \<open>
  An option added to a header without options is found again by the parser, behind
  its padding, with its length and value; the data offset of the header covers it.
\<close>

theorem tcpAddOption_roundtrip:
  assumes "hdr_dataOffset m = 5" and "60 \<le> length m" and "n \<le> 38" and "n \<le> length value"
    and "kind \<notin> {TCP_OPTION_NOP, TCP_OPTION_END}"
  shows "\<exists>m'. tcpAddOption m kind value (of_nat n) = (NO_ERROR, m') \<and>
    tcpGetOption (tcpHeader_of m') kind = Some (Some (option_pad (n + 2))) \<and>
    take (n + 2) (drop (option_pad (n + 2)) (options (tcpHeader_of m'))) = [kind, of_nat (n + 2)] @ take n value"
  by (rule tcpAddOption_found [OF assms])

theorem tcpAddOption_roundtrip_witness:
  "\<exists>m'. tcpAddOption (replicate 12 0 @ [0x50] @ replicate 47 0) 8 [1, 2, 3] (of_nat 3) = (NO_ERROR, m') \<and>
     tcpGetOption (tcpHeader_of m') 8 = Some (Some 3)"
  using tcpAddOption_roundtrip [of "replicate 12 0 @ [0x50] @ replicate 47 0" 3 "[1, 2, 3]" 8]
  by (auto simp: hdr_dataOffset_def nth_append option_pad_def)

text \<open>
  A segment that is not acceptable does not change a synchronised connection: it is
  answered by an acknowledgment, or ignored when it is a reset, so a reset outside the window
  cannot close the connection.
\<close>

theorem unacceptable_segment_dropped:
  assumes "sk_state (sk c) \<notin> {TCP_STATE_CLOSED, TCP_STATE_LISTEN, TCP_STATE_SYN_SENT}" and "\<not> acceptable (sk c) h len"
  shows "\<exists>c'. run_state ifc ph h b off len c = Some c' \<and> sk c' = sk c \<and>
    (has_flag (flags h) TCP_FLAG_RST \<longrightarrow> c' = c)"
  using assms
  by (cases "sk_state (sk c)")
    (simp_all add: run_state_def tcpStateSynReceived_def tcpStateEstablished_def tcpStateCloseWait_def tcpStateLastAck_def
      tcpStateFinWait1_def tcpStateFinWait2_def tcpStateClosing_def tcpStateTimeWait_def on_error_def
      tcpCheckSequenceNumber_def)

theorem unacceptable_segment_dropped_witness:
  "\<exists>c'. run_state 0 example_ph (example_header\<lparr>seqNum := 7, flags := TCP_FLAG_RST\<rparr>) example_seg 0 0 \<lparr>cx = example_ctx, sk = example_sock\<rparr> = Some c' \<and>
     c' = \<lparr>cx = example_ctx, sk = example_sock\<rparr>"
  using unacceptable_segment_dropped [of "\<lparr>cx = example_ctx, sk = example_sock\<rparr>" "example_header\<lparr>seqNum := 7, flags := TCP_FLAG_RST\<rparr>" 0 0 example_ph example_seg 0]
  by (simp add: acceptable_window in_window_def example_sock_def zeroSocket_def has_flag_def)

end
