(* ===== verification/Tcp_Timeouts.thy ===== *)
theory Tcp_Timeouts
  imports Tcp_Transitions
begin

text \<open>
  The periodic timer handler: it returns, it closes connections only, and it gives up on a peer
  that does not answer.
\<close>

section \<open>Timers\<close>

lemma override_loop_returns: "0 < smss (sk c) \<Longrightarrow> \<exists>r. override_loop u c = Some r"
proof (induction "unat (sndUser (sk c))" arbitrary: u c rule: less_induct)
  case less
  let ?n = "nagle_size u (sk c)"
  let ?r = "tcpSendSegment (TCP_FLAG_PSH OR TCP_FLAG_ACK) (sndNxt (sk c)) (rcvNxt (sk c)) ?n True c"
  let ?c = "upd (advance_snd ?n) (snd ?r)"
  show ?case
  proof (cases "sndUser (sk c) > 0 \<and> sint u > 0 \<and> fst ?r = NO_ERROR")
    case True
    have "unat (sndUser (sk ?c)) = unat (sndUser (sk c)) - unat ?n"
      using nagle_size_le(2) [of u "sk c"] by (simp add: advance_snd_user)
    moreover have "0 < unat ?n" using less.prems True by (simp add: nagle_size_pos)
    ultimately have "unat (sndUser (sk ?c)) < unat (sndUser (sk c))"
      using nagle_size_le(2) [of u "sk c"] by linarith
    from less.hyps [OF this, of "u - ?n"] less.prems True show ?thesis
      by (subst override_loop.simps) (simp add: Let_def advance_snd_def)
  next
    case False
    then show ?thesis by (subst override_loop.simps) (auto simp: Let_def)
  qed
qed

lemma override_loop_state:
  assumes "override_loop u c = Some c'"
  shows "sk_state (sk c') = sk_state (sk c)"
proof (rule override_loop.raw_induct [where P = "\<lambda>u c c'. sk_state (sk c') = sk_state (sk c)", OF _ assms], goal_cases)
  case (1 lp u c c')
  note IH = 1(1) and body = 1(2)
  show ?case using body by (auto simp: Let_def advance_snd_def split: if_splits dest!: IH)
qed

lemma tick_congestion_frame [simp]:
  "smss (tick_congestion s) = smss s" "sk_state (tick_congestion s) = sk_state s" "sk_type (tick_congestion s) = sk_type s"
  "retransmitCount (tick_congestion s) = retransmitCount s" "rto (tick_congestion s) = rto s"
  "retransmitQueue (tick_congestion s) = retransmitQueue s"
  by (simp_all add: tick_congestion_def Let_def)

lemma tick_retransmit_frame [simp]: "smss (sk (tick_retransmit c)) = smss (sk c)" "sk_type (sk (tick_retransmit c)) = sk_type (sk c)"
  by (simp_all add: tick_retransmit_def sk_start_timer Let_def split_beta)

lemma tick_persist_frame [simp]: "smss (sk (tick_persist c)) = smss (sk c)"
  by (simp add: tick_persist_def sk_start_timer Let_def split_beta)

lemma tick_override_returns:
  assumes s: "sk_state (sk c) \<in> {TCP_STATE_ESTABLISHED, TCP_STATE_CLOSE_WAIT} \<Longrightarrow> 0 < smss (sk c)"
  shows "\<exists>c'. tick_override c = Some c'"
proof (cases "sk_state (sk c) \<in> {TCP_STATE_ESTABLISHED, TCP_STATE_CLOSE_WAIT}")
  case False
  then show ?thesis by (simp add: tick_override_def)
next
  case True
  let ?c = "snd (if sndUser (sk c) \<noteq> 0 then timer_elapsed overrideTimer c else (False, c))"
  have "smss (sk ?c) = smss (sk c)" by simp
  then obtain c' where "override_loop (usable_window (sk ?c)) ?c = Some c'"
    using override_loop_returns [of ?c] s [OF True] by metis
  then show ?thesis by (simp add: tick_override_def split_beta Let_def del: sk_timer_elapsed)
qed

lemma tick_states:
  "sk_state (sk (tick_retransmit c)) \<in> {sk_state (sk c), TCP_STATE_CLOSED}"
  "sk_state (sk (tick_persist c)) \<in> {sk_state (sk c), TCP_STATE_CLOSED}"
  "sk_state (sk (tick_finWait2 c)) \<in> {sk_state (sk c), TCP_STATE_CLOSED}"
  "sk_state (sk (tick_timeWait c)) \<in> {sk_state (sk c), TCP_STATE_CLOSED}"
  by (simp_all add: tick_retransmit_def tick_persist_def tick_finWait2_def tick_timeWait_def sk_start_timer Let_def split_beta)

lemma tick_socket_returns:
  assumes "sk_state (sk c) \<in> {TCP_STATE_ESTABLISHED, TCP_STATE_CLOSE_WAIT} \<Longrightarrow> 0 < smss (sk c)"
  shows "\<exists>c'. tick_socket c = Some c'"
proof -
  have "sk_state (sk (tick_persist (tick_retransmit c))) \<in> {sk_state (sk c), TCP_STATE_CLOSED}"
    using tick_states(1) [of c] tick_states(2) [of "tick_retransmit c"] by auto
  then show ?thesis
    using tick_override_returns [of "tick_persist (tick_retransmit c)"] assms by (auto simp: tick_socket_def Let_def)
qed

lemma tick_override_state: "tick_override c = Some c' \<Longrightarrow> sk_state (sk c') = sk_state (sk c)"
  by (auto simp: tick_override_def Let_def split_beta sk_start_timer split: if_splits option.splits dest!: override_loop_state)

lemma tick_socket_state: "tick_socket c = Some c' \<Longrightarrow> sk_state (sk c') \<in> {sk_state (sk c), TCP_STATE_CLOSED}"
proof -
  assume t: "tick_socket c = Some c'"
  let ?r = "tick_retransmit c"
  show ?thesis
  proof (cases "sk_type (sk c) \<noteq> SOCKET_TYPE_STREAM \<or> sk_state (sk c) = TCP_STATE_CLOSED \<or> sk_state (sk ?r) = TCP_STATE_CLOSED")
    case True
    then show ?thesis using t by (auto simp: tick_socket_def Let_def split: if_splits)
  next
    case False
    then obtain d where d: "tick_override (tick_persist ?r) = Some d" "c' = tick_timeWait (tick_finWait2 d)"
      using t by (auto simp: tick_socket_def Let_def)
    show ?thesis using tick_states(1) [of c] tick_states(2) [of ?r] tick_states(3) [of d] tick_states(4) [of "tick_finWait2 d"]
        tick_override_state [OF d(1)] d(2) by auto
  qed
qed


lemma tick_loop_ok:
  assumes "\<forall>s \<in> set ss. sk_state s \<in> {TCP_STATE_ESTABLISHED, TCP_STATE_CLOSE_WAIT} \<longrightarrow> 0 < smss s"
  shows "\<exists>x' ss'. tick_loop ss x = Some (x', ss') \<and>
    list_all2 (\<lambda>s s'. sk_state s' \<in> {sk_state s, TCP_STATE_CLOSED}) ss ss'"
  using assms
proof (induction ss arbitrary: x)
  case (Cons s ss)
  then obtain c where c: "tick_socket \<lparr>cx = x, sk = s\<rparr> = Some c"
    using tick_socket_returns [of "\<lparr>cx = x, sk = s\<rparr>"] by auto
  with Cons.IH [of "cx c"] Cons.prems tick_socket_state [OF c] show ?case by auto
qed simp

lemma tick_retransmit_cases:
  assumes q: "retransmitQueue (sk c) \<noteq> []" and e: "fst (timer_elapsed retransmitTimer c)"
  shows "retransmitCount (sk c) < TCP_MAX_RETRIES \<Longrightarrow>
      sk_state (sk (tick_retransmit c)) = sk_state (sk c) \<and>
      retransmitCount (sk (tick_retransmit c)) = retransmitCount (sk c) + 1 \<and>
      rto (sk (tick_retransmit c)) = min (rto (sk c) * 2) TCP_MAX_RTO \<and>
      interval (retransmitTimer (sk (tick_retransmit c))) = rto (sk (tick_retransmit c)) \<and>
      running (retransmitTimer (sk (tick_retransmit c)))"
    and "\<not> retransmitCount (sk c) < TCP_MAX_RETRIES \<Longrightarrow>
      sk_state (sk (tick_retransmit c)) = TCP_STATE_CLOSED \<and> \<not> running (retransmitTimer (sk (tick_retransmit c)))"
  using q e by (simp_all add: tick_retransmit_def sk_start_timer Let_def split_beta tcpTimerStop_def)

definition rtx_expired :: "conn \<Rightarrow> bool" where
  "rtx_expired c \<longleftrightarrow> retransmitQueue (sk c) \<noteq> [] \<and> fst (timer_elapsed retransmitTimer c)"

lemma tick_retransmit_count:
  assumes "\<forall>k < n. rtx_expired ((tick_retransmit ^^ k) c)" and "retransmitCount (sk c) = 0" and "n \<le> 5"
  shows "retransmitCount (sk ((tick_retransmit ^^ n) c)) = of_nat n \<and> sk_state (sk ((tick_retransmit ^^ n) c)) = sk_state (sk c)"
  using assms
proof (induction n)
  case (Suc n)
  then have ih: "retransmitCount (sk ((tick_retransmit ^^ n) c)) = of_nat n" "sk_state (sk ((tick_retransmit ^^ n) c)) = sk_state (sk c)"
    by auto
  have lt: "(of_nat n :: u32) < TCP_MAX_RETRIES" using Suc.prems(3) by (simp add: word_less_nat_alt unsigned_of_nat take_bit_nat_eq_self)
  have "rtx_expired ((tick_retransmit ^^ n) c)" using Suc.prems(1) by simp
  then show ?case using tick_retransmit_cases(1) [of "(tick_retransmit ^^ n) c"] ih lt by (simp add: rtx_expired_def add.commute)
qed simp

section \<open>Properties of the timers\<close>

text \<open>
  The periodic timer handler returns for every socket table whose connections have a
  nonzero segment size; it changes the state of a socket only to CLOSED.
\<close>

theorem tcpTick_returns:
  assumes "\<forall>s \<in> set (socketTable w). sk_state s \<in> {TCP_STATE_ESTABLISHED, TCP_STATE_CLOSE_WAIT} \<longrightarrow> 0 < smss s"
  shows "\<exists>w'. tcpTick w = Some w' \<and>
    list_all2 (\<lambda>s s'. sk_state s' \<in> {sk_state s, TCP_STATE_CLOSED}) (socketTable w) (socketTable w')"
  using tick_loop_ok [OF assms, of "nx w"] by (auto simp: tcpTick_def)

theorem tcpTick_returns_witness:
  "\<exists>w'. tcpTick \<lparr>nx = example_ctx, socketTable = [example_sock, example_rx]\<rparr> = Some w' \<and> length (socketTable w') = 2"
  using tcpTick_returns [of "\<lparr>nx = example_ctx, socketTable = [example_sock, example_rx]\<rparr>"]
  by (auto simp: example_sock_def example_rx_def dest: list_all2_lengthD)



definition example_silent :: conn where
  "example_silent = \<lparr>cx = example_ctx\<lparr>clock := (\<lambda>n. of_nat n * 100000), heapResult := (\<lambda>n. None)\<rparr>,
     sk = example_sock\<lparr>retransmitQueue := [\<lparr>qiAddress = 7, qiLength = 1, qiSacked = False,
         qiPseudoHeader = example_ph, qiHeader = tcpHeader_bytes example_header\<rparr>],
       retransmitTimer := \<lparr>running = True, startTime = - 100000, interval = 1000\<rparr>\<rparr>\<rparr>"

text \<open>The timer expires at each of the next \<open>n\<close> polls.\<close>

fun rtx_expires :: "nat \<Rightarrow> conn \<Rightarrow> bool" where
  "rtx_expires 0 c = rtx_expired c"
| "rtx_expires (Suc n) c = (rtx_expired c \<and> rtx_expires n (tick_retransmit c))"

lemma rtx_expires_iff: "rtx_expires n c \<longleftrightarrow> (\<forall>k \<le> n. rtx_expired ((tick_retransmit ^^ k) c))"
proof (induction n arbitrary: c)
  case (Suc n)
  have "(\<forall>k \<le> Suc n. P k) \<longleftrightarrow> P 0 \<and> (\<forall>k \<le> n. P (Suc k))" for P
    by (metis Suc_le_mono not0_implies_Suc zero_le)
  then show ?case using Suc by (simp del: funpow.simps add: funpow_0 funpow_Suc_right)
qed simp


end
