(* ===== verification/Tcp_Invariants.thy ===== *)
theory Tcp_Invariants
  imports Tcp_Timeouts
begin

text \<open>
  Invariants of a connection over everything that segments and timers do to it. The interface
  \<open>conn_invariant\<close> lists what the building blocks of the handlers have to keep; a predicate that
  meets it is kept by every state handler and by the timer handler, for any sequence of them. The
  first instance bounds the control variables: retransmission timeout, congestion window, segment
  size, retry counters and the list of out-of-order blocks.
\<close>

section \<open>Invariants of a connection\<close>

locale conn_invariant =
  fixes I :: "conn \<Rightarrow> bool"
  assumes bare: "I c \<Longrightarrow> I (snd (tcpSendSegment fl seq ack 0 q c))"
    and push: "I c \<Longrightarrow> unat n \<le> unat (sndUser (sk c)) \<Longrightarrow>
      tcpSendSegment (TCP_FLAG_PSH OR TCP_FLAG_ACK) (sndNxt (sk c)) (rcvNxt (sk c)) n True c = (e, c') \<Longrightarrow>
      I c' \<and> (e = NO_ERROR \<longrightarrow> I (upd (advance_snd n) c'))"
    and reset: "I c \<Longrightarrow> I (c\<lparr>cx := snd (tcpSendResetSegment i ph h len (cx c))\<rparr>)"
    and resend: "I c \<Longrightarrow> I (snd (tcpRetransmitSegment c))"
    and events: "I c \<Longrightarrow> I (tcpUpdateEvents c)"
    and state: "I c \<Longrightarrow> I (tcpChangeState st c)"
    and check_ack: "I c \<Longrightarrow> I (snd (tcpCheckAck h len c))"
    and data: "I c \<Longrightarrow> I (tcpProcessSegmentData h b off len c)"
    and fin: "I c \<Longrightarrow> I (upd (\<lambda>s. s\<lparr>rcvNxt := rcvNxt s + 1\<rparr>) c)"
    and delete: "I c \<Longrightarrow> I (tcpDeleteControlBlock c)"
    and unused: "I c \<Longrightarrow> I (upd (\<lambda>s. s\<lparr>sk_type := SOCKET_TYPE_UNUSED\<rparr>) c)"
    and listen: "I c \<Longrightarrow> tcpStateListen ifc ph h len c = Some c' \<Longrightarrow> I c'"
    and syn: "I c \<Longrightarrow> (has_flag (flags h) TCP_FLAG_ACK \<longrightarrow> ackNum h = sndNxt (sk c)) \<Longrightarrow> synSent_syn h c = Some c' \<Longrightarrow> I c'"
    and window: "I c \<Longrightarrow> I (upd (\<lambda>s. s\<lparr>sndWnd := w, sndWl1 := m, sndWl2 := k, maxSndWnd := w\<rparr>) c)"
    and clock: "I c \<Longrightarrow> I (snd (timer_elapsed get c))"
    and override_timer: "I c \<Longrightarrow> I (start_timer overrideTimer overrideTimer_update t c)"
    and finWait2_timer: "I c \<Longrightarrow> I (start_timer finWait2Timer finWait2Timer_update t c)"
    and timeWait_timer: "I c \<Longrightarrow> I (start_timer timeWaitTimer timeWaitTimer_update t c)"
    and retransmission: "I c \<Longrightarrow> I (tick_retransmit c)"
    and probe: "I c \<Longrightarrow> I (tick_persist c)"
begin

lemma checks: "I c \<Longrightarrow> I (snd (tcpCheckSequenceNumber h len c))" "I c \<Longrightarrow> I (snd (tcpCheckSyn h len c))"
  using bare by (auto simp: tcpCheckSequenceNumber_def tcpCheckSyn_def)

lemma ack: "I c \<Longrightarrow> I (sendAck c)" "I c \<Longrightarrow> I (ackFin c)" "I c \<Longrightarrow> I (enterTimeWait c)" "I c \<Longrightarrow> I (disposeSocket c)"
  using bare fin state timeWait_timer delete unused by (auto simp: sendAck_def ackFin_def enterTimeWait_def disposeSocket_def)

lemma nagle_inv:
  assumes "I c"
  shows "pred_option I (nagle fl c)"
proof (cases "tcpNagleAlgo fl c")
  case (Some r)
  then have "nagle_loop fl (usable_window (sk c)) c = Some r" by (simp add: tcpNagleAlgo_def)
  then have "I (snd r)"
    by (rule nagle_loop_invariant [where S = "\<lambda>u. I"])
      (use assms push [OF _ nagle_size_le(2)] events in blast)+
  with Some show ?thesis by (simp add: nagle_def)
qed (simp add: nagle_def)

lemma override_inv:
  assumes "override_loop u c = Some c'" and "I c"
  shows "I c'"
proof -
  have "I c \<longrightarrow> I c'"
  proof (rule override_loop.raw_induct [where P = "\<lambda>u c c'. I c \<longrightarrow> I c'", OF _ assms(1)], goal_cases)
    case (1 lp u c c')
    then show ?case
      using push [OF _ nagle_size_le(2) surjective_pairing, of c u]
      by (auto simp: Let_def split: if_splits)
  qed
  with assms(2) show ?thesis by blast
qed

lemma on_error_inv:
  assumes "I (snd r)"
  shows "(\<And>c. I c \<Longrightarrow> pred_option I (k c)) \<Longrightarrow> pred_option I (on_error r Some k)"
    and "(\<And>c. I c \<Longrightarrow> I (k' c)) \<Longrightarrow> I (on_error r id k')"
  using assms by (simp_all add: on_error_def)

lemmas steps = bare reset events state check_ack data fin delete unused window finWait2_timer timeWait_timer checks ack

lemma established_inv: "I c \<Longrightarrow> pred_option I (tcpStateEstablished h b off len c)"
  unfolding tcpStateEstablished_def Let_def
  by (intro on_error_inv(1) if_split [where P = "pred_option I", THEN iffD2] conjI impI nagle_inv)
    (simp_all add: steps)

lemma synReceived_inv: "I c \<Longrightarrow> pred_option I (tcpStateSynReceived h b off len c)"
  unfolding tcpStateSynReceived_def Let_def
  by (intro on_error_inv(1) if_split [where P = "pred_option I", THEN iffD2] conjI impI established_inv)
    (simp_all add: steps)

lemma closeWait_inv: "I c \<Longrightarrow> pred_option I (tcpStateCloseWait h len c)"
  unfolding tcpStateCloseWait_def
  by (intro on_error_inv(1) if_split [where P = "pred_option I", THEN iffD2] conjI impI nagle_inv)
    (simp_all add: steps)

lemma closing_inv:
  assumes "I c"
  shows "I (tcpStateLastAck h len c)" "I (tcpStateFinWait1 h b off len c)" "I (tcpStateFinWait2 h b off len c)"
    "I (tcpStateClosing h len c)" "I (tcpStateTimeWait h len c)"
  using assms
  by (simp_all add: tcpStateLastAck_def tcpStateFinWait1_def tcpStateFinWait2_def tcpStateClosing_def
      tcpStateTimeWait_def Let_def on_error_def steps)

lemma run_state_inv:
  assumes "I c"
  shows "pred_option I (run_state ifc ph h b off len c)"
proof (cases "sk_state (sk c)")
  case TCP_STATE_CLOSED
  with assms show ?thesis using reset [OF assms, of "Some ifc" ph h len] by (simp add: run_state_def tcpStateClosed_def)
next
  case TCP_STATE_LISTEN
  with assms show ?thesis using listen by (cases "tcpStateListen ifc ph h len c") (auto simp: run_state_def)
next
  case TCP_STATE_SYN_SENT
  have "pred_option I (tcpStateSynSent h len c)"
    using assms bare state syn by (cases "synSent_syn h c") (auto simp: tcpStateSynSent_def)
  with TCP_STATE_SYN_SENT show ?thesis by (simp add: run_state_def)
qed (simp_all add: run_state_def assms established_inv synReceived_inv closeWait_inv closing_inv)

lemma tick_socket_inv:
  assumes "I c"
  shows "pred_option I (tick_socket c)"
proof -
  have "pred_option I (tick_override c)" if "I c" for c
    using that clock override_inv events override_timer
    by (auto simp: tick_override_def Let_def split_beta split: option.splits)
  moreover have "I (tick_timeWait (tick_finWait2 c))" if "I c" for c
    using that clock state ack(4) by (simp add: tick_timeWait_def tick_finWait2_def split_beta)
  ultimately show ?thesis using assms retransmission probe
    by (fastforce simp: tick_socket_def Let_def option.pred_map comp_def elim: option.pred_mono_strong)
qed

end


section \<open>Bounds of the control variables\<close>

definition mss_ok :: "u16 \<Rightarrow> bool" where
  "mss_ok v \<longleftrightarrow> TCP_MIN_MSS \<le> ucast v \<and> ucast v \<le> TCP_MAX_MSS"

lemma clamp_mss_ok: "mss_ok (clamp_mss v)"
  by (simp add: mss_ok_def clamp_mss_def max_def min_def word_le_nat_alt unat_ucast_32_16)

lemma mss_option_ok: "mss_option h opt = Some v \<Longrightarrow> mss_ok v"
  by (auto simp: mss_option_def clamp_mss_ok split: option.splits if_splits)

definition ctl_bounds :: "Socket \<Rightarrow> bool" where
  "ctl_bounds s \<longleftrightarrow> TCP_MIN_RTO \<le> rto s \<and> rto s \<le> TCP_MAX_RTO \<and> ucast (cwnd s) \<le> txBufferSize s \<and> mss_ok (smss s) \<and>
     retransmitCount s \<le> TCP_MAX_RETRIES \<and> wndProbeCount s \<le> TCP_MAX_RETRIES \<and>
     wndProbeInterval s \<le> TCP_MAX_PROBE_INTERVAL \<and> length (sackBlock s) \<le> TCP_MAX_SACK_BLOCKS"

text \<open>A congestion window stored in 16 bits is not above the number it was computed from.\<close>

lemma ucast_min_le: "ucast (ucast (min a b) :: u16) \<le> (b :: u32)"
  by (simp add: word_le_nat_alt unat_ucast_32_16 min_def) (meson le_trans mod_less_eq_dividend nat_le_linear)

lemma limit_cwnd_le [simp]: "ucast (cwnd (limit_cwnd s)) \<le> txBufferSize s"
  by (simp add: limit_cwnd_def ucast_min_le)

lemma retransmit_queue_count:
  "retransmitCount (sk (updateRetransmit_loop kept qs c)) \<in> {retransmitCount (sk c), 0}"
proof (induction kept qs c rule: updateRetransmit_loop.induct)
  case (2 kept q qs c)
  show ?case
  proof (cases "qi_acked (sndUna (sk c)) q")
    case True
    with 2(1) [OF True refl refl refl refl] show ?thesis by (simp add: Let_def sk_start_timer)
  qed (use 2 in simp)
qed simp

lemma double_le: "r \<le> (60000 :: u32) \<Longrightarrow> 1000 \<le> r \<Longrightarrow> 1000 \<le> min (r * 2) 60000"
  by (simp add: word_le_nat_alt unat_word_ariths min_def)

lemma send_count [simp]: "retransmitCount (sk c) \<le> 5 \<Longrightarrow> retransmitCount (sk (snd (tcpSendSegment fl seq ack len q c))) \<le> 5"
  by (rule tcpSendSegment_cases [where P = "\<lambda>s. retransmitCount s \<le> 5"])
    (auto simp: queueSegment_def Let_def split_beta sk_start_timer split: option.splits prod.splits)

lemma queue_count: "retransmitCount (sk c) \<le> 5 \<Longrightarrow> retransmitCount (sk (tcpUpdateRetransmitQueue c)) \<le> 5"
  using retransmit_queue_count [of "[]" "retransmitQueue (sk c)" c]
  by (auto simp: tcpUpdateRetransmitQueue_def Let_def)

lemma ctl_ack:
  assumes "ctl_bounds (sk c)"
  shows "ctl_bounds (sk (snd (tcpCheckAck h len c)))"
proof -
  have w: "ctl_bounds (sk (tcpUpdateSendWindow h c))"
    using assms by (simp add: tcpUpdateSendWindow_def ctl_bounds_def Let_def sk_start_timer)
  have n: "ctl_bounds (sk (ackNewData h c))" if "ctl_bounds (sk c)" for c
    using that unfolding ctl_bounds_def
    by (simp add: ackNewData_def Let_def split_beta tcpComputeRto_bounds queue_count)
  have d: "ctl_bounds (sk (ackNoNewData h dup c))" if "ctl_bounds (sk c)" for dup c
    using that by (simp add: ackNoNewData_def Let_def split_beta ctl_bounds_def)
  have e: "ctl_bounds (sk (tcpUpdateEvents c))" if "ctl_bounds (sk c)" for c
    using that by (simp add: ctl_bounds_def)
  have s: "ctl_bounds (sk (snd (tcpSendSegment TCP_FLAG_ACK seq ack 0 False c)))" for seq ack
    using assms by (simp add: ctl_bounds_def)
  show ?thesis using assms w n d e s by (simp add: tcpCheckAck_def Let_def)
qed

lemma ctl_data:
  assumes "ctl_bounds (sk c)"
  shows "ctl_bounds (sk (tcpProcessSegmentData h b off len c))"
  using assms tcpUpdateSackBlocks_length
  by (simp add: ctl_bounds_def tcpProcessSegmentData_def Let_def split_beta)

interpretation ctl: conn_invariant "\<lambda>c. ctl_bounds (sk c)"
proof (unfold_locales, goal_cases)
  case (1 c fl seq ack q)
  then show ?case by (simp add: ctl_bounds_def)
next
  case (2 c n e c')
  have "ctl_bounds (sk (snd (e, c')))" using 2(1) unfolding 2(3) [symmetric] by (simp add: ctl_bounds_def)
  then show ?case by (simp add: advance_snd_def ctl_bounds_def)
next
  case (12 c ifc ph h len c')
  then show ?case by (auto simp: tcpStateListen_def ctl_bounds_def Let_def split: if_splits option.splits prod.splits)
next
  case (13 c h c')
  then show ?case
    by (auto simp: synSent_syn_def ctl_bounds_def Let_def sendAck_def ucast_min_le mss_option_ok queue_count
        tcpComputeRto_bounds split: if_splits option.splits prod.splits)
next
  case (19 c)
  have s: "ctl_bounds (tick_congestion (sk c))"
    using 19 by (simp add: ctl_bounds_def tick_congestion_def Let_def ucast_min_le)
  have "r < 5 \<Longrightarrow> r + 1 \<le> 5" for r :: u32 by (simp add: inc_le)
  then show ?case using 19 s double_le [of "rto (sk c)"]
    by (simp add: tick_retransmit_def Let_def split_beta sk_start_timer ctl_bounds_def)
next
  case (20 c)
  have "r < 5 \<Longrightarrow> r + 1 \<le> 5" for r :: u32 by (simp add: inc_le)
  then show ?case using 20 by (simp add: tick_persist_def Let_def split_beta sk_start_timer ctl_bounds_def)
qed (simp_all add: ctl_ack ctl_data, simp_all add: ctl_bounds_def sk_start_timer)


section \<open>Runs of a connection\<close>

text \<open>What happens to an open connection without the user: segments arrive and timers run.\<close>

inductive conn_step :: "conn \<Rightarrow> conn \<Rightarrow> bool" where
  segment: "run_state ifc ph h b off len c = Some c' \<Longrightarrow> conn_step c c'"
| timers: "tick_socket c = Some c' \<Longrightarrow> conn_step c c'"

context conn_invariant
begin

lemma step_inv: "conn_step c c' \<Longrightarrow> I c \<Longrightarrow> I c'"
  by (induction rule: conn_step.induct)
    (metis option.pred_inject(2) run_state_inv, metis option.pred_inject(2) tick_socket_inv)

lemma run_inv: "conn_step\<^sup>*\<^sup>* c c' \<Longrightarrow> I c \<Longrightarrow> I c'"
  by (induction rule: rtranclp_induct) (auto intro: step_inv)

end

text \<open>
  Property C27. Whatever segments arrive and timers expire, in any order, the retransmission timeout
  stays between its limits, the congestion window within the send buffer, the segment size within
  its limits (so that the loops that cut data into segments end), the retry counters at most at
  their maximum and the list of blocks received out of order within its array.
\<close>

theorem control_bounds:
  assumes "conn_step\<^sup>*\<^sup>* c c'" and "ctl_bounds (sk c)"
  shows "ctl_bounds (sk c')"
  using assms by (rule ctl.run_inv)

definition example_tuned :: conn where
  "example_tuned = \<lparr>cx = example_ctx, sk = example_sock\<lparr>sk_state := TCP_STATE_CLOSING, rto := 1000, smss := 536, cwnd := 4\<rparr>\<rparr>"

theorem control_bounds_witness:
  "\<exists>c'. conn_step example_tuned c' \<and> sk_state (sk c') = TCP_STATE_CLOSED \<and> ctl_bounds (sk c')"
proof -
  let ?h = "example_header\<lparr>seqNum := 0, flags := TCP_FLAG_RST\<rparr>"
  let ?c = "tcpStateClosing ?h 0 example_tuned"
  have r: "run_state 0 example_ph ?h example_seg 0 0 example_tuned = Some ?c"
    by (simp add: run_state_def, simp add: example_tuned_def)
  have "ctl_bounds (sk example_tuned)"
    by (simp add: ctl_bounds_def mss_ok_def example_tuned_def example_sock_def zeroSocket_def)
  moreover have "sk_state (sk ?c) = TCP_STATE_CLOSED" by code_simp
  ultimately show ?thesis
    using control_bounds [of example_tuned ?c] conn_step.segment [OF r] by blast
qed

end
