(* ===== verification/Tcp_Table.thy ===== *)
theory Tcp_Table
  imports Tcp_User
begin

text \<open>
  Operations on the socket table: \<open>socketInit\<close> and \<open>socketOpen\<close> (\<open>core/socket.c\<close>),
  \<open>tcpKillOldestConnection\<close> and \<open>tcpAccept\<close> (\<open>core/tcp.c\<close>). A socket is named by its index in
  the table. \<open>tcpAccept\<close> releases the mutex while it waits for a connection request
  (\<open>wait\<close>) and around \<open>socketOpen\<close> (\<open>yield\<close>).
\<close>

section \<open>The implementation\<close>

text \<open>Running an operation on one socket of the table.\<close>

definition at_socket :: "nat \<Rightarrow> (conn \<Rightarrow> 'a \<times> conn) \<Rightarrow> net \<Rightarrow> 'a \<times> net" where
  "at_socket i f w =
     (let (r, c) = f \<lparr>cx = nx w, sk = socketTable w ! i\<rparr>
      in (r, \<lparr>nx = cx c, socketTable = (socketTable w)[i := sk c]\<rparr>))"

definition put_socket :: "nat \<Rightarrow> (Socket \<Rightarrow> Socket) \<Rightarrow> net \<Rightarrow> net" where
  "put_socket i f w = w\<lparr>socketTable := (socketTable w)[i := f (socketTable w ! i)]\<rparr>"

text \<open>\<open>eventOk i\<close>: the result of \<open>osCreateEvent\<close> for socket \<open>i\<close>.\<close>

fun socketInit_loop :: "(nat \<Rightarrow> bool) \<Rightarrow> nat \<Rightarrow> Socket list \<Rightarrow> error_t \<times> Socket list" where
  "socketInit_loop eventOk i [] = (NO_ERROR, [])"
| "socketInit_loop eventOk i (s # ss) =
     (let s = s\<lparr>descriptor := i\<rparr>
      in if eventOk i then case socketInit_loop eventOk (Suc i) ss of (e, ss) \<Rightarrow> (e, s # ss)
         else (ERROR_OUT_OF_RESOURCES, s # ss))"

definition socketInit :: "(nat \<Rightarrow> bool) \<Rightarrow> net \<Rightarrow> error_t \<times> net" where
  "socketInit eventOk w =
     (let (e, ss) = socketInit_loop eventOk 0 (replicate SOCKET_MAX_COUNT zeroSocket)
      in (e, w\<lparr>socketTable := ss\<rparr>))"

text \<open>The socket that has been in TIME-WAIT for the longest time: its index and the start of its timer.\<close>

fun oldest_loop :: "systime_t \<Rightarrow> nat \<Rightarrow> Socket list \<Rightarrow> (nat \<times> systime_t) option \<Rightarrow> (nat \<times> systime_t) option" where
  "oldest_loop time i [] oldest = oldest"
| "oldest_loop time i (s # ss) oldest =
     oldest_loop time (Suc i) ss
       (if sk_type s = SOCKET_TYPE_STREAM \<and> sk_state s = TCP_STATE_TIME_WAIT then
          let t = startTime (timeWaitTimer s);
              old = (case oldest of None \<Rightarrow> (i, t) | Some old \<Rightarrow> old)
          in Some (if time - t > time - snd old then (i, t) else old)
        else oldest)"

definition tcpKillOldestConnection :: "net \<Rightarrow> nat option \<times> net" where
  "tcpKillOldestConnection w =
     (let (time, x) = osGetSystemTime (nx w);
          w = w\<lparr>nx := x\<rparr>
      in case oldest_loop time 0 (socketTable w) None of
           None \<Rightarrow> (None, w)
         | Some (i, _) \<Rightarrow> (Some i, snd (at_socket i (\<lambda>c. ((), releaseSocket c)) w)))"

fun find_unused :: "Socket list \<Rightarrow> nat \<Rightarrow> nat option" where
  "find_unused [] i = None"
| "find_unused (s # ss) i = (if sk_type s = SOCKET_TYPE_UNUSED then Some i else find_unused ss (Suc i))"

definition newSocket :: "SocketType \<Rightarrow> u32 \<Rightarrow> u16 \<Rightarrow> Socket \<Rightarrow> Socket" where
  "newSocket ty proto port s =
     zeroSocket\<lparr>event := event s, descriptor := descriptor s, sk_type := ty, protocol := proto,
       localPort := port, sk_timeout := INFINITE_DELAY,
       txBufferSize := min TCP_DEFAULT_TX_BUFFER_SIZE TCP_MAX_TX_BUFFER_SIZE,
       rxBufferSize := min TCP_DEFAULT_RX_BUFFER_SIZE TCP_MAX_RX_BUFFER_SIZE\<rparr>"

definition socketOpen :: "SocketType \<Rightarrow> u32 \<Rightarrow> net \<Rightarrow> nat option \<times> net" where
  "socketOpen ty proto w =
     (if ty = SOCKET_TYPE_STREAM \<or> ty = SOCKET_TYPE_DGRAM then
        let (proto, port, x) =
              (if ty = SOCKET_TYPE_STREAM then (6, tcpGetDynamicPort (nx w)) else (17, udpGetDynamicPort (nx w)));
            w = w\<lparr>nx := x\<rparr>;
            (found, w) = (case find_unused (socketTable w) 0 of
                            Some i \<Rightarrow> (Some i, w)
                          | None \<Rightarrow> tcpKillOldestConnection w)
        in (found, case found of None \<Rightarrow> w | Some i \<Rightarrow> put_socket i (newSocket ty proto port) w)
      else (None, w))"

section \<open>Accepting a connection\<close>

text \<open>The first request is taken off the queue of the listening socket \<open>i\<close> and released.\<close>

definition dropRequest :: "nat \<Rightarrow> TcpSynQueueItem \<Rightarrow> net \<Rightarrow> net" where
  "dropRequest i item w =
     (let w = put_socket i (\<lambda>s. s\<lparr>synQueue := tl (synQueue s)\<rparr>) w
      in w\<lparr>nx := heapFree (sqAddress item) (nx w)\<rparr>)"

text \<open>The control block of the new socket; the initial sequence number is \<open>r\<close>.\<close>

definition initAccept :: "TcpSynQueueItem \<Rightarrow> u16 \<Rightarrow> u32 \<Rightarrow> Socket \<Rightarrow> Socket" where
  "initAccept item port r s =
     (let s = s\<lparr>sk_interface := Some (sqInterface item), localIpAddr := sqDestAddr item, localPort := port,
                remoteIpAddr := sqSrcAddr item, remotePort := sqSrcPort item, smss := sqMss item,
                rmss := ucast (min (rxBufferSize s) TCP_MAX_MSS), iss := r, irs := sqIsn item,
                sndUna := r, sndNxt := r + 1, rcvNxt := sqIsn item + 1, rcvUser := 0,
                rcvWnd := ucast (rxBufferSize s), rto := TCP_INITIAL_RTO\<rparr>
      in s\<lparr>cwnd := ucast (min (TCP_INITIAL_WINDOW * ucast (smss s)) (txBufferSize s)),
           ssthresh := 0xFFFF, recover := iss s\<rparr>)"

text \<open>Setting up the new socket \<open>j\<close>. The congestion state that is reset is that of the listening socket.\<close>

definition acceptOn :: "nat \<Rightarrow> nat \<Rightarrow> TcpSynQueueItem \<Rightarrow> net \<Rightarrow> error_t \<times> net" where
  "acceptOn i j item w =
     (let l = socketTable w ! i;
          w = put_socket j (\<lambda>s. s\<lparr>ownedFlag := True, txBufferSize := txBufferSize l, rxBufferSize := rxBufferSize l\<rparr>) w;
          (e, w) = at_socket j allocBuffers w
      in if e \<noteq> NO_ERROR then (e, w)
         else
           let (r, x) = netGetRand (nx w);
               w = put_socket j (initAccept item (localPort (socketTable w ! i)) r) (w\<lparr>nx := x\<rparr>);
               w = put_socket i (\<lambda>s. s\<lparr>congestState := TCP_CONGEST_STATE_IDLE\<rparr>) w;
               (e, w) = at_socket j (\<lambda>c. tcpSendSegment (TCP_FLAG_SYN OR TCP_FLAG_ACK) (iss (sk c)) (rcvNxt (sk c)) 0 True c) w
           in if e \<noteq> NO_ERROR then (e, w)
              else
                let w = dropRequest i item w;
                    w = snd (at_socket i (\<lambda>c. ((), tcpUpdateEvents c)) w);
                    w = snd (at_socket j (\<lambda>c. ((), tcpChangeState TCP_STATE_SYN_RECEIVED c)) w)
                in (NO_ERROR, w))"

text \<open>
  The loop. The result is the index of the new socket with the address and port of the client, or
  nothing on a timeout; it runs as long as requests arrive that cannot be served.
\<close>

partial_function (option) accept_loop ::
  "(systime_t \<Rightarrow> net \<Rightarrow> net) \<Rightarrow> (net \<Rightarrow> net) \<Rightarrow> nat \<Rightarrow> net \<Rightarrow> ((nat \<times> IpAddr \<times> u16) option \<times> net) option" where
  "accept_loop wait yield i w =
     (let w = (if synQueue (socketTable w ! i) = [] then
                 wait (sk_timeout (socketTable w ! i))
                   (put_socket i (\<lambda>s. s\<lparr>eventMask := SOCKET_EVENT_RX_READY, event := False\<rparr>) w)
               else w)
      in case synQueue (socketTable w ! i) of
           [] \<Rightarrow> Some (None, w)
         | item # _ \<Rightarrow>
             (let r = socketOpen SOCKET_TYPE_STREAM 6 (yield w);
                  w = yield (snd r)
              in case fst r of
                   None \<Rightarrow> accept_loop wait yield i (dropRequest i item w)
                 | Some j \<Rightarrow>
                     (let a = acceptOn i j item w
                      in if fst a = NO_ERROR then Some (Some (j, sqSrcAddr item, sqSrcPort item), snd a)
                         else accept_loop wait yield i (dropRequest i item (snd (at_socket j tcpAbort (snd a)))))))"

declare accept_loop.simps [code]

definition tcpAccept ::
  "(systime_t \<Rightarrow> net \<Rightarrow> net) \<Rightarrow> (net \<Rightarrow> net) \<Rightarrow> nat \<Rightarrow> net \<Rightarrow> ((nat \<times> IpAddr \<times> u16) option \<times> net) option" where
  "tcpAccept wait yield i w =
     (if tcpGetState (socketTable w ! i) \<noteq> TCP_STATE_LISTEN then Some (None, w)
      else accept_loop wait yield i w)"

end
