(* ===== verification/Tcp_Demux.thy ===== *)
theory Tcp_Demux
  imports Tcp_Invariants Tcp_Table
begin

text \<open>
  Sharing the socket table between connections: to which socket a segment goes, how connection
  requests queue up on a listening socket, how ephemeral ports are handed out and which slot a new
  socket takes.
\<close>

section \<open>The socket of a segment\<close>

text \<open>The connection the segment belongs to, else the first socket that listens for it.\<close>

definition lookup :: "nat \<Rightarrow> IpPseudoHeader \<Rightarrow> TcpHeader \<Rightarrow> Socket list \<Rightarrow> nat option" where
  "lookup ifc ph h ss =
     (case find (\<lambda>i. socket_matches ifc ph h (ss ! i) \<and> remotePort (ss ! i) = srcPort h) [0..<length ss] of
        Some i \<Rightarrow> Some i
      | None \<Rightarrow> find (\<lambda>i. socket_matches ifc ph h (ss ! i) \<and> sk_state (ss ! i) = TCP_STATE_LISTEN) [0..<length ss])"

lemma find_map_option: "find P (map f xs) = map_option f (find (\<lambda>x. P (f x)) xs)"
  by (induction xs) auto

lemma find_upt_Suc: "find P [0..<Suc n] = (if P 0 then Some 0 else map_option Suc (find (\<lambda>i. P (Suc i)) [0..<n]))"
proof -
  have "[0..<Suc n] = 0 # map Suc [0..<n]" by (simp add: upt_conv_Cons map_Suc_upt)
  then show ?thesis by (simp add: find_map_option del: upt_Suc)
qed

lemma find_socket_lookup:
  "find_socket ifc ph h ss i pas =
     (case find (\<lambda>k. socket_matches ifc ph h (ss ! k) \<and> remotePort (ss ! k) = srcPort h) [0..<length ss] of
        Some k \<Rightarrow> Some (i + k)
      | None \<Rightarrow> (case pas of Some p \<Rightarrow> Some p
          | None \<Rightarrow> map_option (\<lambda>k. i + k)
              (find (\<lambda>k. socket_matches ifc ph h (ss ! k) \<and> sk_state (ss ! k) = TCP_STATE_LISTEN) [0..<length ss])))"
proof (induction ss arbitrary: i pas)
  case (Cons s ss)
  have "map_option ((+) (Suc i)) x = map_option (\<lambda>k. Suc (i + k)) x" for x by (cases x) simp_all
  with Cons show ?case
    unfolding list.size(4) add_Suc_right add_0_right find_upt_Suc
    by (auto simp: option.map_comp comp_def split: option.splits)
qed (auto split: option.splits)

lemma find_socket_spec: "find_socket ifc ph h ss 0 None = lookup ifc ph h ss"
proof -
  have "map_option ((+) 0) x = x" for x :: "nat option" by (cases x) simp_all
  then show ?thesis by (simp add: find_socket_lookup lookup_def split: option.splits)
qed

section \<open>Connection requests\<close>

text \<open>The queue stays within the backlog and never holds a request twice.\<close>

definition same_request :: "TcpSynQueueItem \<Rightarrow> TcpSynQueueItem \<Rightarrow> bool" where
  "same_request a b \<longleftrightarrow> sqSrcAddr a = sqSrcAddr b \<and> sqSrcPort a = sqSrcPort b \<and> sqDestAddr a = sqDestAddr b"

definition syn_inv :: "Socket \<Rightarrow> bool" where
  "syn_inv s \<longleftrightarrow> length (synQueue s) \<le> max 1 (unat (synQueueSize s)) \<and>
     sorted_wrt (\<lambda>a b. \<not> same_request a b) (synQueue s) \<and>
     (\<forall>q \<in> set (synQueue s). mss_ok (sqMss q))"

definition ph_ok :: "IpPseudoHeader \<Rightarrow> bool" where
  "ph_ok ph \<longleftrightarrow> phLength ph = SIZEOF_IPV4_PSEUDO_HEADER \<and> length (phSrcAddr ph) = 4 \<and> length (phDestAddr ph) = 4 \<or>
     phLength ph = SIZEOF_IPV6_PSEUDO_HEADER \<and> length (phSrcAddr ph) = 16 \<and> length (phDestAddr ph) = 16"

lemma matchesSyn_item: "ph_ok ph \<Longrightarrow> same_request q (synItem a ifc ph h mss) \<Longrightarrow> matchesSyn ph h q"
  by (auto simp: ph_ok_def same_request_def synItem_def matchesSyn_def addr_of_def Let_def ipv4Addr_def ipv6Addr_def)


text \<open>
  Property C31. A segment is handed to one socket, the connection it belongs to or else the first
  socket that listens for it, and every other socket of the table is left alone; without such a
  socket no socket changes.
\<close>

theorem deliver_demux:
  assumes "deliver ifc ph h b off len w = Some w'"
  shows "case lookup ifc ph h (socketTable w) of
           None \<Rightarrow> socketTable w' = socketTable w
         | Some i \<Rightarrow> i < length (socketTable w) \<and>
             (\<forall>j. j \<noteq> i \<longrightarrow> socketTable w' ! j = socketTable w ! j) \<and>
             run_state ifc ph h b off len \<lparr>cx = nx w, sk = socketTable w ! i\<rparr> = Some \<lparr>cx = nx w', sk = socketTable w' ! i\<rparr>"
proof -
  have "i < length (socketTable w)" if "lookup ifc ph h (socketTable w) = Some i" for i
    using that by (auto simp: lookup_def find_Some_iff split: option.splits)
  with assms show ?thesis
    by (auto simp: deliver_def find_socket_spec split: option.splits if_splits)
qed

lemma listen_queue:
  fixes c :: conn
  assumes "tcpStateListen ifc ph h len c = Some c'"
  obtains "synQueue (sk c') = synQueue (sk c)" "synQueueSize (sk c') = synQueueSize (sk c)"
  | q where "synQueue (sk c') = synQueue (sk c) @ [q]" "synQueueSize (sk c') = synQueueSize (sk c)"
      "has_flag (flags h) TCP_FLAG_SYN" "\<not> tcpIsDuplicateSyn (sk c) ph h"
      "synQueue (sk c) = [] \<or> word_of_nat (length (synQueue (sk c))) < synQueueSize (sk c)"
      "\<exists>a mss. q = synItem a ifc ph h mss \<and> mss_ok mss"
proof (cases "synQueue (sk c') = synQueue (sk c)")
  case True
  have "synQueueSize (sk c') = synQueueSize (sk c)" using assms
    by (auto simp: tcpStateListen_def Let_def split: if_splits option.splits prod.splits)
  with True that show ?thesis by blast
next
  case False
  have "mss_ok v" if "mss_option h opt = Some v" for opt v using that by (rule mss_option_ok)
  moreover have "mss_ok (ucast (min TCP_DEFAULT_MSS TCP_MAX_MSS))" by (simp add: mss_ok_def min_def)
  ultimately show ?thesis using assms False
    by (auto simp: tcpStateListen_def Let_def not_le split: if_splits option.splits prod.splits intro!: that(2))
qed

lemma syn_inv_append:
  assumes "syn_inv s" "ph_ok ph" "\<not> tcpIsDuplicateSyn s ph h"
    "synQueue s = [] \<or> word_of_nat (length (synQueue s)) < synQueueSize s"
    "mss_ok mss"
    "synQueue s' = synQueue s @ [synItem a ifc ph h mss]" "synQueueSize s' = synQueueSize s"
  shows "syn_inv s'"
proof -
  have "length (synQueue s') \<le> max 1 (unat (synQueueSize s'))"
    using assms(1,4) u32_bound [of "synQueueSize s"]
    by (auto simp: assms(6,7) syn_inv_def word_less_nat_alt unat_of_nat max_def split: if_splits)
  moreover have "\<not> same_request q (synItem a ifc ph h mss)" if "q \<in> set (synQueue s)" for q
    using that assms(2,3) matchesSyn_item by (auto simp: tcpIsDuplicateSyn_iff)
  ultimately show ?thesis using assms(1,5,6)
    by (auto simp: syn_inv_def sorted_wrt_append synItem_def Let_def)
qed

text \<open>
  A listening socket never queues more connection requests than its backlog, never
  two requests with the same addresses and ports, and records for each a maximum segment size
  within the limits of the stack, whatever the options of the request hold. Requests already in
  the queue are neither lost nor reordered.
\<close>

theorem listen_keeps_requests:
  assumes "tcpStateListen ifc ph h len c = Some c'" and "syn_inv (sk c)" and "ph_ok ph"
  shows "syn_inv (sk c') \<and> (\<exists>qs. synQueue (sk c') = synQueue (sk c) @ qs \<and> length qs \<le> 1)"
  using assms(1)
proof (cases rule: listen_queue)
  case 1
  then show ?thesis using assms(2) by (simp add: syn_inv_def)
next
  case (2 q)
  then show ?thesis using syn_inv_append [OF assms(2,3)] by fastforce
qed


section \<open>Ephemeral ports\<close>

fun take_ports :: "nat \<Rightarrow> ctx \<Rightarrow> u16 list" where
  "take_ports 0 x = []"
| "take_ports (Suc n) x = (let (p, x) = tcpGetDynamicPort x in p # take_ports n x)"

abbreviation port_min :: nat where "port_min \<equiv> 49152"
abbreviation port_span :: nat where "port_span \<equiv> 16384"

lemma tcpGetDynamicPort_next:
  fixes x :: ctx
  assumes "tcpGetDynamicPort x = (p, x')"
  shows "port_min \<le> unat p" "unat (tcpDynamicPort x') = port_min + (unat p - port_min + 1) mod port_span"
    "port_min \<le> unat (tcpDynamicPort x) \<Longrightarrow> p = tcpDynamicPort x"
proof -
  obtain q :: u32 where q: "port_min \<le> unat q" "unat q < 65536" "p = ucast q"
     "tcpDynamicPort x' = ucast (if q < SOCKET_EPHEMERAL_PORT_MAX then q + 1 else SOCKET_EPHEMERAL_PORT_MIN)"
     "port_min \<le> unat (tcpDynamicPort x) \<Longrightarrow> q = ucast (tcpDynamicPort x)"
  proof (cases "port_min \<le> unat (tcpDynamicPort x)")
    case True
    then show ?thesis using assms u16_bound [of "tcpDynamicPort x"]
      by (intro that [of "ucast (tcpDynamicPort x)"])
        (auto simp: tcpGetDynamicPort_def Let_def word_less_nat_alt split: prod.splits)
  next
    case False
    obtain r y where r: "netGetRand x = (r, y)" by fastforce
    have "unat (49152 + r mod 16384) = 49152 + unat r mod 16384" by (simp add: unat_word_ariths unat_mod)
    then show ?thesis using assms False r
      by (intro that [of "49152 + r mod 16384"])
        (auto simp: tcpGetDynamicPort_def Let_def word_less_nat_alt split: prod.splits)
  qed
  have p: "unat p = unat q" using q by (simp add: unat_ucast_32_16_small)
  then show "port_min \<le> unat p" using q by simp
  show "unat (tcpDynamicPort x') = port_min + (unat p - port_min + 1) mod port_span"
  proof (cases "unat q = 65535")
    case False
    then show ?thesis using q p by (auto simp: word_less_nat_alt unat_ucast_32_16 unat_word_ariths)
  qed (use q p in \<open>simp add: word_less_nat_alt\<close>)
  show "p = tcpDynamicPort x" if "port_min \<le> unat (tcpDynamicPort x)"
    using q that by (simp add: word_unat_eq_iff unat_ucast_32_16_small)
qed

lemma mod_shift_inj: "i < n \<Longrightarrow> j < n \<Longrightarrow> (a + i) mod n = (a + j) mod (n :: nat) \<Longrightarrow> i = j"
proof (induction i j rule: linorder_wlog)
  case (le i j)
  then have "n dvd j - i" using mod_eq_dvd_iff_nat [of "a + i" "a + j" n] by simp
  then have "j - i = 0" using le by (meson dvd_imp_le less_imp_diff_less not_le zero_less_iff_neq_zero)
  with le show ?case by simp
qed simp

lemma take_ports_nth:
  "i < n \<Longrightarrow> port_min \<le> unat (tcpDynamicPort x) \<Longrightarrow>
    unat (take_ports n x ! i) = port_min + (unat (tcpDynamicPort x) - port_min + i) mod port_span"
proof (induction n arbitrary: i x)
  case (Suc n)
  obtain p x' where px: "tcpGetDynamicPort x = (p, x')" by fastforce
  note nx = tcpGetDynamicPort_next [OF px]
  have p: "p = tcpDynamicPort x" using nx(3) Suc.prems(2) by simp
  show ?case
  proof (cases i)
    case 0
    then show ?thesis using px p Suc.prems u16_bound [of "tcpDynamicPort x"] by simp
  next
    case (Suc j)
    then show ?thesis using px p nx Suc.prems Suc.IH [of j x'] by (simp add: mod_add_left_eq)
  qed
qed simp

lemma length_take_ports [simp]: "length (take_ports n x) = n"
  by (induction n arbitrary: x) (auto split: prod.splits)

text \<open>
  Ports that are handed out to sockets lie in the ephemeral range, and no port comes
  back before all the 16384 others have been used.
\<close>

theorem tcpGetDynamicPort_distinct:
  assumes "n \<le> 16384"
  shows "distinct (take_ports n x) \<and> (\<forall>p \<in> set (take_ports n x). SOCKET_EPHEMERAL_PORT_MIN \<le> ucast p)"
proof (cases n)
  case (Suc m)
  obtain p x' where px: "tcpGetDynamicPort x = (p, x')" by fastforce
  note nx = tcpGetDynamicPort_next [OF px]
  have nth: "unat (take_ports n x ! i) = port_min + (unat p - port_min + i) mod port_span" if "i < n" for i
  proof (cases i)
    case 0
    then show ?thesis using px nx(1) Suc u16_bound [of p] by simp
  next
    case (Suc j)
    then show ?thesis using px nx that \<open>n = Suc m\<close> take_ports_nth [of j m x'] by (simp add: mod_add_left_eq)
  qed
  have "distinct (take_ports n x)" unfolding distinct_conv_nth
  proof (intro allI impI)
    fix i j assume *: "i < length (take_ports n x)" "j < length (take_ports n x)" "i \<noteq> j"
    then have "i < port_span" "j < port_span" using assms by simp_all
    then have "(unat p - port_min + i) mod port_span \<noteq> (unat p - port_min + j) mod port_span"
      using mod_shift_inj \<open>i \<noteq> j\<close> by blast
    then show "take_ports n x ! i \<noteq> take_ports n x ! j" using nth * by (metis length_take_ports add_left_cancel)
  qed
  moreover have "SOCKET_EPHEMERAL_PORT_MIN \<le> ucast p" if "p \<in> set (take_ports n x)" for p
    using that nth by (auto simp: in_set_conv_nth word_le_nat_alt)
  ultimately show ?thesis by blast
qed simp


section \<open>Opening a socket\<close>

definition waiting :: "Socket \<Rightarrow> bool" where
  "waiting s \<longleftrightarrow> sk_type s = SOCKET_TYPE_STREAM \<and> sk_state s = TCP_STATE_TIME_WAIT"

definition waited :: "systime_t \<Rightarrow> Socket \<Rightarrow> systime_t" where
  "waited t s = t - startTime (timeWaitTimer s)"

lemma oldest_loop_None: "oldest_loop t i ss old = None \<longleftrightarrow> old = None \<and> (\<forall>s \<in> set ss. \<not> waiting s)"
  by (induction t i ss old rule: oldest_loop.induct) (auto simp: waiting_def Let_def)

lemma oldest_loop_Some:
  "oldest_loop t i ss old = Some (k, u) \<Longrightarrow>
     (old = Some (k, u) \<or> i \<le> k \<and> k < i + length ss \<and> waiting (ss ! (k - i)) \<and> u = startTime (timeWaitTimer (ss ! (k - i)))) \<and>
     (\<forall>s \<in> set ss. waiting s \<longrightarrow> waited t s \<le> t - u) \<and> (case old of None \<Rightarrow> True | Some (_, v) \<Rightarrow> t - v \<le> t - u)"
proof (induction t i ss old rule: oldest_loop.induct)
  case (2 t i s ss old)
  then show ?case
    by (fastforce simp: waiting_def waited_def Let_def nth_Cons' Suc_diff_le split: if_splits option.splits prod.splits)
qed auto

lemma find_unused_Some: "find_unused ss i = Some k \<Longrightarrow> i \<le> k \<and> k < i + length ss \<and> sk_type (ss ! (k - i)) = SOCKET_TYPE_UNUSED"
  by (induction ss i rule: find_unused.induct) (auto simp: nth_Cons' split: if_splits)

lemma find_unused_None: "find_unused ss i = None \<longleftrightarrow> (\<forall>s \<in> set ss. sk_type s \<noteq> SOCKET_TYPE_UNUSED)"
  by (induction ss i rule: find_unused.induct) auto


lemma tcpGetDynamicPort_world [simp]:
  "calls (snd (tcpGetDynamicPort x)) = calls x" "clock (snd (tcpGetDynamicPort x)) = clock x"
  by (simp_all add: tcpGetDynamicPort_def netGetRand_def Let_def split: prod.splits)

lemma tcpKillOldestConnection_cases:
  fixes w :: net
  assumes "tcpKillOldestConnection w = (r, w')"
  defines "t \<equiv> clock (nx w) (calls (nx w))"
  obtains (none) "r = None" "socketTable w' = socketTable w" "\<forall>s \<in> set (socketTable w). \<not> waiting s"
  | (oldest) i s where "r = Some i" "i < length (socketTable w)" "waiting (socketTable w ! i)"
      "\<forall>s \<in> set (socketTable w). waiting s \<longrightarrow> waited t s \<le> waited t (socketTable w ! i)"
      "socketTable w' = (socketTable w)[i := s]"
proof (cases "oldest_loop t 0 (socketTable w) None")
  case None
  then show ?thesis using assms(1) none oldest_loop_None [of t 0 "socketTable w" None]
    by (auto simp: tcpKillOldestConnection_def osGetSystemTime_def Let_def t_def)
next
  case (Some p)
  obtain i u where p: "p = (i, u)" by fastforce
  have "u = startTime (timeWaitTimer (socketTable w ! i))" "i < length (socketTable w)" "waiting (socketTable w ! i)"
      "\<forall>s \<in> set (socketTable w). waiting s \<longrightarrow> waited t s \<le> t - u"
    using oldest_loop_Some [OF Some [unfolded p]] by auto
  moreover have "r = Some i" "\<exists>s. socketTable w' = (socketTable w)[i := s]"
    using Some assms(1) by (auto simp: p tcpKillOldestConnection_def osGetSystemTime_def Let_def t_def at_socket_def)
  ultimately show ?thesis using oldest by (auto simp: waited_def)
qed

text \<open>What \<open>socketOpen\<close> leaves in the slot it has chosen.\<close>

definition fresh_stream :: "Socket \<Rightarrow> bool" where
  "fresh_stream s \<longleftrightarrow> sk_type s = SOCKET_TYPE_STREAM \<and> sk_state s = TCP_STATE_CLOSED \<and> retransmitQueue s = [] \<and>
     synQueue s = [] \<and> SOCKET_EPHEMERAL_PORT_MIN \<le> ucast (localPort s)"

lemma newSocket_fresh:
  assumes "tcpGetDynamicPort x = (p, x')"
  shows "fresh_stream (newSocket SOCKET_TYPE_STREAM 6 p s)"
  using tcpGetDynamicPort_next(1) [OF assms]
  by (simp add: fresh_stream_def newSocket_def zeroSocket_def word_le_nat_alt)

text \<open>
  Opening a stream socket takes an unused slot of the table; when there is none, it
  takes over the connection that has been in TIME-WAIT for the longest time; it fails only when
  there is neither. The slot holds a fresh closed socket with an ephemeral port, and no other
  socket changes.
\<close>

theorem socketOpen_claims:
  fixes w :: net
  assumes "socketOpen SOCKET_TYPE_STREAM proto w = (r, w')"
  defines "t \<equiv> clock (nx w) (calls (nx w))"
  shows "case r of
      None \<Rightarrow> socketTable w' = socketTable w \<and>
        (\<forall>s \<in> set (socketTable w). sk_type s \<noteq> SOCKET_TYPE_UNUSED \<and> \<not> waiting s)
    | Some i \<Rightarrow> i < length (socketTable w) \<and> fresh_stream (socketTable w' ! i) \<and>
        (\<forall>j. j \<noteq> i \<longrightarrow> socketTable w' ! j = socketTable w ! j) \<and>
        (sk_type (socketTable w ! i) = SOCKET_TYPE_UNUSED \<or>
         waiting (socketTable w ! i) \<and>
         (\<forall>s \<in> set (socketTable w). sk_type s \<noteq> SOCKET_TYPE_UNUSED \<and>
            (waiting s \<longrightarrow> waited t s \<le> waited t (socketTable w ! i))))"
proof -
  obtain p x where px: "tcpGetDynamicPort (nx w) = (p, x)" by fastforce
  let ?w = "w\<lparr>nx := x\<rparr>"
  have t: "t = clock (nx ?w) (calls (nx ?w))"
    using tcpGetDynamicPort_world [of "nx w"] by (simp add: px t_def)
  note fresh = newSocket_fresh [OF px]
  show ?thesis
  proof (cases "find_unused (socketTable w) 0")
    case (Some i)
    have "r = Some i" "w' = put_socket i (newSocket SOCKET_TYPE_STREAM 6 p) ?w"
      using assms(1) Some by (auto simp: socketOpen_def px)
    with find_unused_Some [OF Some] fresh show ?thesis by (auto simp: put_socket_def)
  next
    case None
    obtain f v where k: "tcpKillOldestConnection ?w = (f, v)" by fastforce
    have r: "r = f" "w' = (case f of None \<Rightarrow> v | Some i \<Rightarrow> put_socket i (newSocket SOCKET_TYPE_STREAM 6 p) v)"
      using assms(1) None k by (auto simp: socketOpen_def px)
    from k show ?thesis
      by (cases rule: tcpKillOldestConnection_cases)
        (use r None fresh in \<open>auto simp: find_unused_None put_socket_def t\<close>)
  qed
qed


section \<open>Witnesses\<close>

definition example_listener :: Socket where
  "example_listener = zeroSocket\<lparr>sk_type := SOCKET_TYPE_STREAM, sk_state := TCP_STATE_LISTEN, localPort := 80, synQueueSize := 4\<rparr>"

definition example_syn :: TcpHeader where
  "example_syn = example_header\<lparr>srcPort := 5000, destPort := 80, seqNum := 7, flags := TCP_FLAG_SYN\<rparr>"

definition example_net :: net where
  "example_net = \<lparr>nx = example_ctx, socketTable = [zeroSocket, example_listener]\<rparr>"

lemma example_listen:
  "case tcpStateListen 0 example_ph example_syn 0 \<lparr>cx = example_ctx, sk = example_listener\<rparr> of
     None \<Rightarrow> False | Some c \<Rightarrow> map sqSrcPort (synQueue (sk c)) = [5000]"
  by code_simp

theorem listen_keeps_requests_witness:
  "\<exists>c'. tcpStateListen 0 example_ph example_syn 0 \<lparr>cx = example_ctx, sk = example_listener\<rparr> = Some c' \<and>
     syn_inv (sk c') \<and> length (synQueue (sk c')) = 1"
proof -
  obtain c' where c': "tcpStateListen 0 example_ph example_syn 0 \<lparr>cx = example_ctx, sk = example_listener\<rparr> = Some c'"
      "map sqSrcPort (synQueue (sk c')) = [5000]"
    using example_listen by (auto split: option.splits)
  moreover have "length (synQueue (sk c')) = 1" using arg_cong [OF c'(2), of length] by simp
  ultimately show ?thesis using listen_keeps_requests [OF c'(1)]
    by (auto simp: example_listener_def zeroSocket_def syn_inv_def ph_ok_def example_ph_def)
qed

lemma example_delivery:
  "case deliver 0 example_ph example_syn example_seg 0 0 example_net of
     None \<Rightarrow> False | Some w \<Rightarrow> map (\<lambda>s. length (synQueue s)) (socketTable w) = [0, 1]"
  by code_simp

lemma example_lookup: "lookup 0 example_ph example_syn (socketTable example_net) = Some 1"
  by code_simp

theorem deliver_demux_witness:
  "\<exists>w'. deliver 0 example_ph example_syn example_seg 0 0 example_net = Some w' \<and> socketTable w' ! 0 = zeroSocket"
proof -
  obtain w' where w': "deliver 0 example_ph example_syn example_seg 0 0 example_net = Some w'"
    using example_delivery by (auto split: option.splits)
  then show ?thesis using deliver_demux [OF w'] by (simp add: example_lookup) (simp add: example_net_def)
qed

theorem tcpGetDynamicPort_distinct_witness: "distinct (take_ports 5000 example_ctx)"
  using tcpGetDynamicPort_distinct [of 5000 example_ctx] by simp

theorem socketOpen_claims_witness:
  "fst (socketOpen SOCKET_TYPE_STREAM 6 example_net) = Some 0 \<and>
   fresh_stream (socketTable (snd (socketOpen SOCKET_TYPE_STREAM 6 example_net)) ! 0)"
proof -
  have r: "fst (socketOpen SOCKET_TYPE_STREAM 6 example_net) = Some 0" by code_simp
  then show ?thesis using socketOpen_claims [of 6 example_net "Some 0" "snd (socketOpen SOCKET_TYPE_STREAM 6 example_net)"]
    by (simp add: prod_eq_iff)
qed

end
