(* ===== verification/Tcp_Memory.thy ===== *)
theory Tcp_Memory
  imports Tcp_Invariants
begin

text \<open>
  The heap blocks of a connection. A socket holds the blocks of its retransmission queue, its SYN
  queue and its two circular buffers. The accounting of these blocks is an invariant of the
  connection, an instance of the interface \<open>conn_invariant\<close>.
\<close>

section \<open>Blocks of the heap\<close>

definition owned :: "NetBuffer \<Rightarrow> nat multiset" where
  "owned b = mset (map address (filter (\<lambda>c. 0 < chSize c) (chunk b)))"

definition held :: "Socket \<Rightarrow> nat multiset" where
  "held s = mset (map qiAddress (retransmitQueue s)) + mset (map sqAddress (synQueue s)) +
     owned (txBuffer s) + owned (rxBuffer s)"

definition accounted :: "nat multiset \<Rightarrow> conn \<Rightarrow> bool" where
  "accounted B c \<longleftrightarrow> mset (live (cx c)) = B + held (sk c)"

lemma poke_unowned: "unowned b \<Longrightarrow> unowned (netBufferPoke b off xs)"
proof -
  have "(\<forall>c \<in> set cs. chSize c = 0) \<longrightarrow> (\<forall>c \<in> set (poke_chunks cs off xs). chSize c = 0)" for cs
    by (induction cs off xs rule: poke_chunks.induct) (auto simp: chunk_put_def)
  then show "unowned b \<Longrightarrow> unowned (netBufferPoke b off xs)" by (simp add: unowned_def netBufferPoke_def)
qed

lemma tcpSendSegment_live:
  assumes "tcpSendSegment fl seq ack len q c = (e, c')"
  shows "\<exists>new. retransmitQueue (sk c') = retransmitQueue (sk c) @ new \<and>
    mset (live (cx c')) = mset (live (cx c)) + mset (map qiAddress new)"
proof (cases "heapResult (cx c) (calls (cx c))")
  case None
  then show ?thesis using assms by (auto simp: tcpSendSegment_def ipAllocBuffer_shape)
next
  case (Some a)
  define r where "r = seg_read a fl seq ack len c"
  note u = seg_read_unowned [of a fl seq ack len c, folded r_def]
  note built = tcpSendSegment_built [OF Some r_def]
  show ?thesis
  proof (cases "fst r = NO_ERROR \<and> formatPseudoHeader (sk c) (word_of_nat (seg_hlen (sk c) fl) + len) \<noteq> None")
    case False
    then show ?thesis using assms u by (auto simp: built bufFree_unowned split: if_splits)
  next
    case True
    then obtain ph where ph: "formatPseudoHeader (sk c) (word_of_nat (seg_hlen (sk c) fl) + len) = Some ph" by blast
    with assms True obtain header b where
      "submitSegment q header len ph a b 62 (c\<lparr>cx := alloc_ctx a (cx c)\<rparr>) = (e, c')" "unowned b"
      unfolding built using poke_unowned [OF u] by (simp add: Let_def)
    from submitSegment_effect(2) [OF this(1) formatPseudoHeader_length [OF ph] this(2)] show ?thesis by auto
  qed
qed


text \<open>What the operations below the handlers allocate and release.\<close>

lemma reset_live [simp]: "live (snd (tcpSendResetSegment i ph h len x)) = live x"
proof (cases "heapResult x (calls x)")
  case None
  then show ?thesis by (simp add: tcpSendResetSegment_def ipAllocBuffer_shape split_beta)
next
  case (Some a)
  define st where "st = drop CHUNKED_BUFFER_HEADER_SIZE (heapMem x a)"
  have "ipAllocBuffer x SIZEOF_TCP_HEADER = (Some (a, frame_buf a st 82, 62), alloc_ctx a x)"
    by (subst ipAllocBuffer_shape) (simp_all add: Some st_def alloc_ctx_def)
  moreover have "unowned (frame_buf a st n)" for n by (simp add: unowned_def frame_buf_def)
  ultimately show ?thesis
    by (simp add: tcpSendResetSegment_def Let_def split_beta bufFree_unowned poke_unowned ipSendDatagram_def)
qed

lemma resend_live [simp]: "live (snd (resendItem s q x)) = live x"
proof (cases "heapResult x (calls x)")
  case None
  then show ?thesis by (simp add: resendItem_def ipAllocBuffer_shape)
next
  case (Some a)
  define st where "st = drop CHUNKED_BUFFER_HEADER_SIZE (heapMem x a)"
  have 1: "ipAllocBuffer x 0 = (Some (a, frame_buf a st 62, 62), alloc_ctx a x)"
    by (subst ipAllocBuffer_shape) (simp_all add: Some st_def alloc_ctx_def)
  have 2: "unowned (frame_buf a st n)" for n by (simp add: unowned_def frame_buf_def)
  have 3: "unowned b \<Longrightarrow> unowned (snd (netBufferAppend b ad xs n))" for b ad xs n
    by (auto simp: netBufferAppend_def unowned_def)
  have 4: "unowned b \<Longrightarrow> unowned (snd (tcpReadTxBuffer s seq b n))" for seq b n
    using tcpReadTxBuffer_chunks [of s seq b n] by (auto simp: unowned_def)
  show ?thesis
    by (simp add: resendItem_def 1 Let_def split_beta bufFree_unowned 2 3 4 ipSendDatagram_def)
qed

lemma retransmit_live [simp]: "live (cx (snd (tcpRetransmitSegment c))) = live (cx c)"
proof -
  have "live (snd (retransmit_loop s n qs x)) = live x" for s n qs x
  proof (induction s n qs x rule: retransmit_loop.induct)
    case (2 s n q qs x)
    then show ?case using resend_live [of s q x] by (cases "resendItem s q x") simp
  qed simp
  then show ?thesis by (simp add: tcpRetransmitSegment_def split_beta)
qed

lemma remove_mset: "mset xs \<subseteq># mset ys \<Longrightarrow> mset (fold remove1 xs ys) = mset ys - mset xs"
proof (induction xs arbitrary: ys)
  case (Cons x xs)
  then have "mset xs \<subseteq># mset (remove1 x ys)" by (simp add: insert_subset_eq_iff)
  with Cons.IH [OF this] show ?case by simp
qed simp

lemma update_queue_live:
  assumes "accounted B c"
  shows "accounted B (tcpUpdateRetransmitQueue c)"
proof -
  let ?a = "qi_acked (sndUna (sk c))" and ?q = "retransmitQueue (sk c)"
  have l: "live (cx (tcpUpdateRetransmitQueue c)) = fold remove1 (map qiAddress (filter ?a ?q)) (live (cx c))"
    by (simp add: tcpUpdateRetransmitQueue_def Let_def updateRetransmit_loop_live)
  have q: "mset (map qiAddress ?q) = mset (map qiAddress (filter ?a ?q)) + mset (map qiAddress (filter (\<lambda>q. \<not> ?a q) ?q))"
    by (simp flip: image_mset_union add: multiset_partition [symmetric])
  then have "mset (map qiAddress (filter ?a ?q)) \<subseteq># mset (live (cx c))"
    using assms by (simp add: accounted_def held_def del: mset_map)
  from remove_mset [OF this] show ?thesis
    using assms q by (simp add: accounted_def held_def l tcpUpdateRetransmitQueue_queue del: mset_map)
qed

lemma copy_loop_owner:
  "map (\<lambda>c. (address c, chSize c)) (snd (copy_loop ds doff ss soff n)) = map (\<lambda>c. (address c, chSize c)) ds"
proof (induction ds doff ss soff n rule: copy_loop.induct)
  case (3 d ds doff s ss soff len)
  define n d' ss' soff' where "n = min (min len (chLength d - doff)) (chLength s - soff)"
    and "d' = chunk_put d doff (take n (drop soff (storage s)))"
    and "ss' = (if chLength s \<le> soff + n then ss else s # ss)"
    and "soff' = (if chLength s \<le> soff + n then 0 else soff + n)"
  note defs = n_def [symmetric] d'_def [symmetric] ss'_def [symmetric] soff'_def [symmetric]
  have d': "address d' = address d" "chSize d' = chSize d" by (simp_all add: d'_def chunk_put_def)
  show ?case
  proof (cases "len = 0")
    case False
    note IH = 3 [OF False n_def d'_def ss'_def soff'_def]
    show ?thesis
    proof (cases "chLength d \<le> doff + n")
      case True
      then show ?thesis using IH(1) [OF True] False d' by (simp add: copy_loop.simps(3) Let_def defs split_beta)
    next
      case nd: False
      then show ?thesis using IH(2) [OF nd] False d' by (simp add: copy_loop.simps(3) [of d ds doff] Let_def defs)
    qed
  qed (simp add: copy_loop.simps(3))
qed simp_all

lemma owned_eq: "owned b = mset (map fst (filter (\<lambda>(a, n). 0 < n) (map (\<lambda>c. (address c, chSize c)) (chunk b))))"
  by (simp add: owned_def filter_map comp_def)

lemma owned_copy [simp]: "owned (snd (netBufferCopy d off s soff n)) = owned d"
proof -
  have "map (\<lambda>c. (address c, chSize c)) (chunk (snd (netBufferCopy d off s soff n))) = map (\<lambda>c. (address c, chSize c)) (chunk d)"
  proof (cases "skip_chunks (chunk d) off")
    case (Pair ds doff)
    obtain pre where "chunk d = pre @ ds" using skip_chunks_split [OF Pair] by blast
    then show ?thesis using Pair copy_loop_owner
      by (auto simp: netBufferCopy_def split_beta split: list.splits)
  qed
  then show ?thesis by (simp add: owned_eq)
qed

lemma owned_write_rx [simp]: "owned (rxBuffer (tcpWriteRxBuffer s seq b off n)) = owned (rxBuffer s)"
  by (simp add: tcpWriteRxBuffer_def Let_def)

lemma delete_live: "accounted B c \<Longrightarrow> mset (live (cx (tcpDeleteControlBlock c))) = B \<and> held (sk (tcpDeleteControlBlock c)) = {#}"
proof -
  assume a: "accounted B c"
  have f: "live (fold (\<lambda>q. heapFree (g q)) qs x) = fold remove1 (map g qs) (live x)" for g :: "'a \<Rightarrow> nat" and qs x
    by (induction qs arbitrary: x) simp_all
  have r: "live (release_chunks heapFree cs x) = fold remove1 (map address (filter (\<lambda>c. 0 < chSize c) cs)) (live x)" for cs x
    by (induction cs arbitrary: x) simp_all
  let ?s = "sk c"
  have l: "live (cx (tcpDeleteControlBlock c)) = fold remove1 (map qiAddress (retransmitQueue ?s) @ map sqAddress (synQueue ?s) @
      map address (filter (\<lambda>c. 0 < chSize c) (chunk (txBuffer ?s))) @ map address (filter (\<lambda>c. 0 < chSize c) (chunk (rxBuffer ?s)))) (live (cx c))"
    (is "_ = fold remove1 ?xs _")
    by (simp add: tcpDeleteControlBlock_def tcpFlushRetransmitQueue_def tcpFlushSynQueue_def Let_def split_beta
        bufSetLength_def netBufferSetLength_0 f r)
  have "mset ?xs = held ?s" by (simp add: held_def owned_def)
  then show ?thesis using a remove_mset [of ?xs "live (cx c)"]
    by (simp add: l accounted_def)
      (simp add: tcpDeleteControlBlock_def tcpFlushRetransmitQueue_def tcpFlushSynQueue_def Let_def split_beta
        bufSetLength_def netBufferSetLength_0 held_def owned_def)
qed


lemma accounted_send:
  assumes "accounted B c"
  shows "accounted B (snd (tcpSendSegment fl seq ack len q c))"
proof -
  let ?c = "snd (tcpSendSegment fl seq ack len q c)"
  obtain new where "retransmitQueue (sk ?c) = retransmitQueue (sk c) @ new"
      "mset (live (cx ?c)) = mset (live (cx c)) + mset (map qiAddress new)"
    using tcpSendSegment_live [OF surjective_pairing] by blast
  then show ?thesis using assms by (simp add: accounted_def held_def)
qed

text \<open>An operation that keeps the blocks and the lists of blocks.\<close>

lemma accounted_eq:
  "live (cx c') = live (cx c) \<Longrightarrow> held (sk c') = held (sk c) \<Longrightarrow> accounted B c' = accounted B c"
  by (simp add: accounted_def)

lemma live_timers [simp]:
  "live (cx (start_timer get put t c)) = live (cx c)" "live (cx (snd (timer_elapsed get c))) = live (cx c)"
  by (simp_all add: start_timer_def tcpTimerStart_def timer_elapsed_def tcpTimerElapsed_def osGetSystemTime_def split_beta)

lemma accounted_upd: "held (f (sk c)) = held (sk c) \<Longrightarrow> accounted B (upd f c) = accounted B c"
  by (simp add: accounted_def)

lemma held_update [simp]:
  "held (dupAckCount_update f s) = held s" "held (rto_update f s) = held s" "held (retransmitCount_update f s) = held s"
  "held (rttBusy_update k s) = held s" "held (retransmitTimer_update g s) = held s" "held (wndProbeInterval_update f s) = held s"
  "held (wndProbeCount_update f s) = held s"
  by (simp_all add: held_def)

lemma held_timers [simp]:
  "held (sk (start_timer retransmitTimer retransmitTimer_update t c)) = held (sk c)"
  "held (sk (start_timer persistTimer persistTimer_update t c)) = held (sk c)"
  "held (sk (start_timer overrideTimer overrideTimer_update t c)) = held (sk c)"
  "held (sk (start_timer finWait2Timer finWait2Timer_update t c)) = held (sk c)"
  "held (sk (start_timer timeWaitTimer timeWaitTimer_update t c)) = held (sk c)"
  by (simp_all add: sk_start_timer held_def)

lemma accounted_events [simp]:
  "accounted B (tcpUpdateEvents c) = accounted B c" "accounted B (tcpChangeState st c) = accounted B c"
  by (simp_all add: accounted_def held_def)

lemma accounted_resend [simp]: "accounted B (snd (tcpRetransmitSegment c)) = accounted B c"
  by (simp add: accounted_def)

lemma accounted_rto [simp]: "accounted B (snd (tcpComputeRto c)) = accounted B c"
  by (simp add: accounted_def held_def) (simp add: tcpComputeRto_def osGetSystemTime_def split_beta)

lemma accounted_elapsed [simp]: "accounted B (snd (timer_elapsed get c)) = accounted B c"
  by (simp add: accounted_def)

lemma accounted_ack:
  assumes "accounted B c"
  shows "accounted B (snd (tcpCheckAck h len c))"
proof -
  have w: "accounted B (tcpUpdateSendWindow h c)"
    using assms by (simp add: tcpUpdateSendWindow_def accounted_def Let_def held_def sk_start_timer)
  have r: "accounted B (tcpFastRecovery h n c)" "accounted B (tcpFastLossRecovery h c)" "accounted B (tcpFastRetransmit c)"
    if "accounted B c" for n c
    using that by (simp_all add: tcpFastRecovery_def tcpFastLossRecovery_def tcpFastRetransmit_def Let_def accounted_upd held_def)
  have l: "held (limit_cwnd s) = held s" "held (grow_cwnd n f s) = held s" for n f s by (simp_all add: held_def)
  have n: "accounted B (ackNewData h c)" if "accounted B c" for c
  proof -
    let ?n = "ackNum h - sndUna (sk c)"
    let ?n = "if sndUna (sk c) = iss (sk c) then ?n - 1 else ?n"
    define c1 where "c1 = tcpUpdateRetransmitQueue (snd (tcpComputeRto (upd (\<lambda>s. s\<lparr>sk_n := sk_n s + ?n, sndUna := ackNum h\<rparr>) c)))"
    have "accounted B c1" unfolding c1_def
      by (rule update_queue_live) (use that in \<open>simp add: accounted_upd held_def\<close>)
    then show ?thesis
      by (simp add: ackNewData_def Let_def split_beta c1_def [symmetric] accounted_upd l r)
  qed
  have d: "accounted B (ackNoNewData h dup c)" if "accounted B c" for dup c
    using that by (simp add: ackNoNewData_def Let_def accounted_upd l, simp add: accounted_upd held_def r)
  show ?thesis using assms w n d accounted_send by (simp add: tcpCheckAck_def Let_def)
qed

lemma accounted_data:
  assumes "accounted B c"
  shows "accounted B (tcpProcessSegmentData h b off len c)"
proof -
  have s: "accounted B c1 \<Longrightarrow> accounted B (upd (\<lambda>s. s\<lparr>rcvNxt := rcvNxt s + k, rcvUser := rcvUser s + m, rcvWnd := rcvWnd s - m\<rparr>) c1)"
    for c1 :: conn and k m by (simp add: accounted_upd held_def)
  have "accounted B (c\<lparr>sk := snd (snd (tcpUpdateSackBlocks (tcpWriteRxBuffer (sk c) l b off n) l r))\<rparr>)" for l off n r
    using assms by (simp add: accounted_def held_def tcpWriteRxBuffer_def Let_def)
  then show ?thesis by (simp add: tcpProcessSegmentData_def Let_def split_beta accounted_send s)
qed

interpretation mem: conn_invariant "accounted B" for B
proof (unfold_locales, goal_cases)
  case (2 c n e c')
  then have "accounted B c'" using accounted_send [OF 2(1)] by (metis snd_conv)
  then show ?case by (simp add: accounted_upd held_def advance_snd_def)
next
  case (10 c)
  then show ?case using delete_live [OF 10] by (simp add: accounted_def)
next
  case (12 c ifc ph h len c')
  then show ?case
    by (auto simp: tcpStateListen_def Let_def heapAlloc_def synItem_def accounted_def held_def
        split: if_splits option.splits prod.splits)
next
  case (13 c h c')
  then show ?case
    by (auto simp: synSent_syn_def Let_def sendAck_def accounted_upd held_def
        intro!: accounted_send update_queue_live split: if_splits option.splits)
next
  case (19 c)
  have t: "held (tick_congestion s) = held s" for s by (simp add: held_def tick_congestion_def Let_def)
  have f: "accounted B (start_timer retransmitTimer retransmitTimer_update t c') = accounted B c'" for t c'
    by (simp add: accounted_def)
  show ?case using 19
    by (simp add: tick_retransmit_def Let_def split_beta accounted_upd t f)
next
  case (20 c)
  have f: "accounted B (start_timer persistTimer persistTimer_update t c') = accounted B c'" for t c'
    by (simp add: accounted_def)
  show ?case using 20
    by (simp add: tick_persist_def Let_def split_beta accounted_upd f accounted_send)
qed (simp_all add: accounted_send accounted_ack accounted_data, simp_all add: accounted_def held_def sk_start_timer)


text \<open>
  Property C11. No memory is lost or released twice: whatever segments arrive and timers expire, the
  heap blocks in use are those the other parts of the system hold and those reachable from the
  socket (its two queues and its two buffers), each exactly once; so releasing the socket at any
  time gives back everything the connection ever allocated.
\<close>

theorem connection_no_leak:
  assumes "conn_step\<^sup>*\<^sup>* c c'" and "mset (live (cx c)) = B + held (sk c)"
  shows "mset (live (cx c')) = B + held (sk c') \<and> mset (live (cx (releaseSocket c'))) = B"
proof
  have a: "accounted B c'" using mem.run_inv [OF assms(1)] assms(2) by (simp add: accounted_def)
  then show "mset (live (cx c')) = B + held (sk c')" by (simp add: accounted_def)
  from a show "mset (live (cx (releaseSocket c'))) = B"
    using delete_live [of B "tcpChangeState TCP_STATE_CLOSED c'"] by (simp add: releaseSocket_def)
qed

definition example_queued :: conn where
  "example_queued = \<lparr>cx = example_ctx\<lparr>live := [3, 7]\<rparr>, sk = example_sock\<lparr>sk_state := TCP_STATE_CLOSING,
     txBuffer := \<lparr>maxChunkCount = 15, chunk = []\<rparr>, rxBuffer := \<lparr>maxChunkCount = 15, chunk = []\<rparr>,
     retransmitQueue := [\<lparr>qiAddress = 7, qiLength = 0, qiSacked = False, qiPseudoHeader = example_ph,
       qiHeader = tcpHeader_bytes example_header\<rparr>]\<rparr>\<rparr>"

theorem connection_no_leak_witness:
  "\<exists>c'. conn_step example_queued c' \<and> sk_state (sk c') = TCP_STATE_CLOSED \<and> mset (live (cx (releaseSocket c'))) = {#3#}"
proof -
  let ?h = "example_header\<lparr>seqNum := 0, flags := TCP_FLAG_RST\<rparr>"
  let ?c = "tcpStateClosing ?h 0 example_queued"
  have "run_state 0 example_ph ?h example_seg 0 0 example_queued = Some ?c"
    by (simp add: run_state_def, simp add: example_queued_def)
  then have s: "conn_step example_queued ?c" by (rule conn_step.segment)
  have "mset (live (cx example_queued)) = {#3#} + held (sk example_queued)"
    by (simp add: example_queued_def held_def owned_def, simp add: example_sock_def zeroSocket_def)
  from connection_no_leak [OF r_into_rtranclp [of conn_step, OF s] this]
  have "mset (live (cx (releaseSocket ?c))) = {#3#}" by blast
  moreover have "sk_state (sk ?c) = TCP_STATE_CLOSED" by code_simp
  ultimately show ?thesis using s by blast
qed

end
