(* ===== verification/Tcp_Recovery.thy ===== *)
theory Tcp_Recovery
  imports Tcp_Transitions
begin

text \<open>
  Acceptable segments, acknowledgments, the send windows and the blocks received out of order: what
  the helper functions of \<open>core/tcp_misc.c\<close> guarantee to the state handlers, and where the
  arithmetic of sequence numbers fails.
\<close>

section \<open>Acceptable segments\<close>

text \<open>
  The test of incoming segments is the one of RFC 793: with a window of zero only an
  empty segment at \<open>RCV.NXT\<close> is acceptable, otherwise the first or the last sequence number of the
  segment must lie in the receive window, modulo the wrap-around of sequence numbers.
\<close>

theorem tcpCheckSequenceNumber_rfc793:
  "fst (tcpCheckSequenceNumber h len c) = NO_ERROR \<longleftrightarrow>
     (if rcvWnd (sk c) = 0 then len = 0 \<and> seqNum h = rcvNxt (sk c)
      else in_window (sk c) (seqNum h) \<or> len \<noteq> 0 \<and> in_window (sk c) (seqNum h + len - 1))"
  by (simp only: tcpCheckSequenceNumber_ok acceptable_window)

section \<open>Acknowledgments\<close>

text \<open>The acknowledgment covers data in flight and nothing that was not sent.\<close>

definition acks_new :: "Socket \<Rightarrow> u32 \<Rightarrow> bool" where
  "acks_new s a \<longleftrightarrow> 0 < unat (a - sndUna s) \<and> unat (a - sndUna s) \<le> flight s"

lemma ack_position:
  assumes "flight s < 2147483648"
  shows "TCP_CMP_SEQ a (sndUna s) \<ge> 0 \<and> TCP_CMP_SEQ a (sndNxt s) \<le> 0 \<longleftrightarrow> unat (a - sndUna s) \<le> flight s"
    and "unat (a - sndUna s) \<le> flight s \<Longrightarrow> TCP_CMP_SEQ a (sndUna s) > 0 \<longleftrightarrow> acks_new s a"
proof -
  have d: "a - sndNxt s = (a - sndUna s) - (sndNxt s - sndUna s)" by simp
  have "\<not> 0 < sint (a - sndNxt s) \<longleftrightarrow> \<not> (0 < unat (a - sndNxt s) \<and> unat (a - sndNxt s) < 2147483648)"
    by (simp only: sint_pos_iff)
  then show "TCP_CMP_SEQ a (sndUna s) \<ge> 0 \<and> TCP_CMP_SEQ a (sndNxt s) \<le> 0 \<longleftrightarrow> unat (a - sndUna s) \<le> flight s"
    using assms unat_diff_u32 [of "a - sndUna s" "sndNxt s - sndUna s", folded d] u32_bound [of "a - sndUna s"]
    by (auto simp: TCP_CMP_SEQ_def sint_nonneg_iff flight_def not_less split: if_splits)
  show "TCP_CMP_SEQ a (sndUna s) > 0 \<longleftrightarrow> acks_new s a" if "unat (a - sndUna s) \<le> flight s"
    using assms that by (auto simp: TCP_CMP_SEQ_def sint_pos_iff acks_new_def)
qed

lemma ackNewData_queue:
  "sndUna (sk (ackNewData h c)) = ackNum h"
  "retransmitQueue (sk (ackNewData h c)) = filter (\<lambda>q. \<not> qi_acked (ackNum h) q) (retransmitQueue (sk c))"
  by (simp_all add: ackNewData_def Let_def split_beta tcpUpdateRetransmitQueue_queue tcpFastRecovery_def tcpFastLossRecovery_def)

lemma ackNoNewData_queue [simp]:
  "sndUna (sk (ackNoNewData h d c)) = sndUna (sk c)"
  "retransmitQueue (sk (ackNoNewData h d c)) = retransmitQueue (sk c)"
  by (simp_all add: ackNoNewData_def Let_def tcpFastRetransmit_def)

text \<open>
  Property C30. An acknowledgment is taken if and only if it covers data in flight: \<open>SND.UNA\<close> moves
  to the acknowledged number and exactly the segments it covers leave the retransmission queue, in
  order. An old acknowledgment, a duplicate and one for data never sent change neither.
\<close>

theorem tcpCheckAck_progress:
  assumes "flight (sk c) < 2147483648"
  shows "sndNxt (sk (snd (tcpCheckAck h len c))) = sndNxt (sk c) \<and>
    (if has_flag (flags h) TCP_FLAG_ACK \<and> acks_new (sk c) (ackNum h)
     then sndUna (sk (snd (tcpCheckAck h len c))) = ackNum h \<and>
       retransmitQueue (sk (snd (tcpCheckAck h len c))) = filter (\<lambda>q. \<not> qi_acked (ackNum h) q) (retransmitQueue (sk c))
     else sndUna (sk (snd (tcpCheckAck h len c))) = sndUna (sk c) \<and>
       retransmitQueue (sk (snd (tcpCheckAck h len c))) = retransmitQueue (sk c))"
proof -
  note pos = ack_position [OF assms, of "ackNum h"]
  have "acks_new (sk c) (ackNum h) \<Longrightarrow> unat (ackNum h - sndUna (sk c)) \<le> flight (sk c)" by (simp add: acks_new_def)
  with pos show ?thesis
    by (auto simp: tcpCheckAck_def Let_def ackNewData_queue not_less not_le)
qed

theorem tcpCheckAck_progress_witness:
  "sndUna (sk (snd (tcpCheckAck (example_header\<lparr>ackNum := 3\<rparr>) 0
     \<lparr>cx = example_ctx, sk = example_sock\<lparr>sndUna := 0xFFFFFFFE, sndNxt := 4\<rparr>\<rparr>))) = 3"
  using tcpCheckAck_progress [of "\<lparr>cx = example_ctx, sk = example_sock\<lparr>sndUna := 0xFFFFFFFE, sndNxt := 4\<rparr>\<rparr>" "example_header\<lparr>ackNum := 3\<rparr>" 0]
  by (simp add: flight_def acks_new_def example_header_def has_flag_def)

section \<open>Sending what the windows permit\<close>

text \<open>
  Property C34. The Nagle algorithm ends, neither loses nor adds data (what was sent and what waits
  add up to the same end of the stream), and sends new data only while the data in flight stays
  within the peer's window, the congestion window and the send buffer.
\<close>

theorem tcpNagleAlgo_limits:
  assumes "0 < smss (sk c)" and "flight (sk c) \<le> 2147483648"
  shows "\<exists>e c'. tcpNagleAlgo fl c = Some (e, c') \<and> snd_end (sk c') = snd_end (sk c) \<and> sndUna (sk c') = sndUna (sk c) \<and>
    (sndNxt (sk c') = sndNxt (sk c) \<or> flight (sk c') \<le> send_limit (sk c))"
proof -
  obtain e c' where r: "tcpNagleAlgo fl c = Some (e, c')"
    using nagle_loop_returns [OF assms(1), of fl "usable_window (sk c)"] by (auto simp: tcpNagleAlgo_def)
  with tcpNagleAlgo_end [OF r] tcpNagleAlgo_window [OF r assms(2)] tcpNagleAlgo_frame(20) [OF r] show ?thesis by simp
qed

theorem tcpNagleAlgo_limits_witness:
  "\<exists>e c'. tcpNagleAlgo 0 \<lparr>cx = example_ctx\<lparr>heapResult := \<lambda>n. None\<rparr>, sk = example_sock\<lparr>sndUser := 3\<rparr>\<rparr> = Some (e, c') \<and>
     snd_end (sk c') = 3"
  using tcpNagleAlgo_limits [of "\<lparr>cx = example_ctx\<lparr>heapResult := \<lambda>n. None\<rparr>, sk = example_sock\<lparr>sndUser := 3\<rparr>\<rparr>" 0]
  by (auto simp: flight_def snd_end_def example_sock_def zeroSocket_def)

section \<open>Segments received out of order\<close>

text \<open>
  Recording a segment that arrived out of order keeps exactly the set of received
  sequence numbers: the block returned and the blocks kept cover the old blocks and the new segment,
  as long as the numbers do not straddle the wrap-around.
\<close>

theorem sack_merge_exact:
  assumes "no_wrap m l r (sackBlock s)" and "tcpUpdateSackBlocks s l r = (l', r', s')"
    and "length (sackBlock s) < TCP_MAX_SACK_BLOCKS"
  shows "span l' r' \<union> blocks_span (sackBlock s') = span l r \<union> blocks_span (sackBlock s)"
proof -
  obtain bs where m: "sack_merge (sackBlock s) l r = (l', r', bs)"
    and bs: "sackBlock s' = (if TCP_CMP_SEQ l' (rcvNxt s) > 0
      then take TCP_MAX_SACK_BLOCKS (\<lparr>leftEdge = l', rightEdge = r'\<rparr> # bs) else bs)"
    using assms(2) by (auto simp: tcpUpdateSackBlocks_def split: prod.splits)
  note sp = sack_merge_span [OF assms(1) m]
  then have "take TCP_MAX_SACK_BLOCKS (\<lparr>leftEdge = l', rightEdge = r'\<rparr> # bs) = \<lparr>leftEdge = l', rightEdge = r'\<rparr> # bs"
    using assms(3) by simp
  with sp bs show ?thesis by (auto simp: blocks_span_def)
qed

definition example_gap :: Socket where
  "example_gap = example_sock\<lparr>sackBlock := [\<lparr>leftEdge = 20, rightEdge = 30\<rparr>, \<lparr>leftEdge = 50, rightEdge = 60\<rparr>]\<rparr>"

theorem sack_merge_exact_witness:
  "tcpUpdateSackBlocks example_gap 30 50 = (20, 60, example_gap\<lparr>sackBlock := [\<lparr>leftEdge = 20, rightEdge = 60\<rparr>]\<rparr>) \<and>
   span 20 60 \<union> blocks_span [\<lparr>leftEdge = 20, rightEdge = 60\<rparr>] = span 30 50 \<union> blocks_span (sackBlock example_gap)"
proof -
  have u: "tcpUpdateSackBlocks example_gap 30 50 = (20, 60, example_gap\<lparr>sackBlock := [\<lparr>leftEdge = 20, rightEdge = 60\<rparr>]\<rparr>)"
    by (simp add: tcpUpdateSackBlocks_def example_gap_def example_sock_def zeroSocket_def TCP_CMP_SEQ_def)
  with sack_merge_exact [OF _ u, of 0] show ?thesis
    by (simp add: no_wrap_def example_gap_def)
qed


text \<open>
  At the wrap-around the smaller of two edges is not the earlier one. When the block behind the
  missing segment starts after the wrap-around, merging the missing segment into it yields the edge
  of the old block, and the segment in order is taken for one out of order.
\<close>

lemma cmp_behind: "unat (b - a) < 2147483648 \<Longrightarrow> \<not> TCP_CMP_SEQ a b > 0"
proof -
  assume a: "unat (b - a) < 2147483648"
  have "a - b = 0 - (b - a)" by simp
  then have "unat (a - b) = (if unat (b - a) = 0 then 0 else 4294967296 - unat (b - a))"
    by (simp only: unat_diff_u32) simp
  with a show ?thesis unfolding TCP_CMP_SEQ_def sint_pos_iff by (simp split: if_splits)
qed

lemma merge_wrap:
  assumes "l < n" and "l = n + len" and "unat (r - l) < 65536" and "l \<le> r" and "unat len < 65536"
  shows "sack_merge [\<lparr>leftEdge = l, rightEdge = r\<rparr>] n l = (l, r, [])"
proof -
  have rn: "r - n = (r - l) + len" using assms(2) by simp
  have "unat ((r - l) + len) = unat (r - l) + unat len" using assms(3,5) by (intro unat_add_nowrap) simp
  then have "unat (r - n) < 2147483648" using assms(3,5) unfolding rn by linarith
  from cmp_behind [OF this] have "TCP_CMP_SEQ n r \<le> 0" by simp
  then show ?thesis using assms by (auto simp: TCP_CMP_SEQ_def min_def max_def)
qed

text \<open>
  Property C38. A flaw of the reassembly: when the first missing segment lies before the wrap-around
  of sequence numbers and the block after it starts behind the wrap-around, the missing segment is
  never accepted. However often it is retransmitted, \<open>RCV.NXT\<close> and the recorded blocks stay as they
  are, and the connection stalls.
\<close>

theorem sack_wrap_stalls:
  assumes "sackBlock (sk c) = [\<lparr>leftEdge = l, rightEdge = r\<rparr>]" and "seqNum h = rcvNxt (sk c)" and "l = seqNum h + len"
    and "l < seqNum h" and "l \<le> r" and "unat (r - l) < 65536" and "unat len \<le> unat (rcvWnd (sk c))" and "0 < unat len"
  shows "rcvNxt (sk (tcpProcessSegmentData h b off len c)) = rcvNxt (sk c) \<and>
    sackBlock (sk (tcpProcessSegmentData h b off len c)) = sackBlock (sk c)"
proof -
  have ln: "unat len < 65536" using assms(7) u16_bound [of "rcvWnd (sk c)"] by simp
  have m: "sack_merge [\<lparr>leftEdge = l, rightEdge = r\<rparr>] (rcvNxt (sk c)) l = (l, r, [])"
    using merge_wrap [of l "rcvNxt (sk c)" len r] assms ln by simp
  have gt: "TCP_CMP_SEQ l (rcvNxt (sk c)) > 0"
    using assms ln by (simp add: TCP_CMP_SEQ_def sint_pos_iff)
  have "\<not> TCP_CMP_SEQ l (rcvNxt (sk c) + ucast (rcvWnd (sk c))) > 0"
  proof -
    have "rcvNxt (sk c) + ucast (rcvWnd (sk c)) - l = ucast (rcvWnd (sk c)) - len" using assms by simp
    then have "unat (rcvNxt (sk c) + ucast (rcvWnd (sk c)) - l) < 65536"
      using assms(7) u16_bound [of "rcvWnd (sk c)"] by (simp only: unat_diff_u32 unat_ucast_16_32) simp
    then show ?thesis by (intro cmp_behind) simp
  qed
  moreover have "TCP_CMP_SEQ (rcvNxt (sk c)) (rcvNxt (sk c)) = 0" by (simp add: TCP_CMP_SEQ_def)
  moreover have "tcpUpdateSackBlocks (tcpWriteRxBuffer (sk c) (rcvNxt (sk c)) b off len) (rcvNxt (sk c)) l =
      (l, r, (tcpWriteRxBuffer (sk c) (rcvNxt (sk c)) b off len)\<lparr>sackBlock := [\<lparr>leftEdge = l, rightEdge = r\<rparr>]\<rparr>)"
    using m gt assms(1) by (simp add: tcpUpdateSackBlocks_def tcpWriteRxBuffer_def Let_def del: sack_merge.simps)
  moreover have "l - rcvNxt (sk c) = len" using assms(2,3) by simp
  ultimately show ?thesis using assms(1) gt
    by (simp add: tcpProcessSegmentData_def Let_def assms(2) assms(3) [symmetric, unfolded assms(2)] del: sack_merge.simps)
qed


definition example_wrap :: conn where
  "example_wrap = \<lparr>cx = example_ctx, sk = example_sock\<lparr>rcvNxt := 0xFFFFFFFE,
     sackBlock := [\<lparr>leftEdge = 0, rightEdge = 2\<rparr>]\<rparr>\<rparr>"

theorem sack_wrap_stalls_witness:
  "rcvNxt (sk (tcpProcessSegmentData (example_header\<lparr>seqNum := 0xFFFFFFFE\<rparr>) example_seg 0 2 example_wrap)) = 0xFFFFFFFE"
  using sack_wrap_stalls [of example_wrap 0 2 "example_header\<lparr>seqNum := 0xFFFFFFFE\<rparr>" 2 example_seg 0]
  by (simp add: example_wrap_def, simp add: example_sock_def)

end
