(* ===== verification/Tcp_Stream.thy ===== *)
theory Tcp_Stream
  imports Tcp_Invariants Tcp_Recovery
begin

text \<open>
  The stream of the sender. The user's bytes are numbered from 0; the send buffer holds those that
  are not acknowledged, a segment carries those of its sequence numbers. This is an invariant of
  the connection (an instance of \<open>conn_invariant\<close>) that \<open>tcpSend\<close> extends by what it has written,
  and together with the invariant of the receiver it shows that the bytes arrive unchanged.
\<close>

section \<open>The stream in the send buffer\<close>

text \<open>
  Sequence numbers relative to the initial one (the SYN has number 0), and the first position of
  the stream that is not acknowledged.
\<close>

definition snd_rel :: "Socket \<Rightarrow> u32 \<Rightarrow> nat" where "snd_rel s x = unat (x - iss s)"

definition una_pos :: "Socket \<Rightarrow> nat" where "una_pos s = snd_rel s (sndUna s) - 1"

text \<open>
  \<open>E\<close> bytes have been written by the user and \<open>fin\<close> tells whether a FIN was sent behind them.
  \<open>tx_seq\<close> relates the numbers, \<open>tx_stream\<close> adds that the send buffer, unless it has been released,
  holds the unacknowledged part of the stream \<open>f\<close>.
\<close>

definition tx_seq :: "nat \<Rightarrow> bool \<Rightarrow> Socket \<Rightarrow> bool" where
  "tx_seq E fin s \<longleftrightarrow> E + 2 < 2 ^ 32 \<and> snd_rel s (sndUna s) \<le> snd_rel s (sndNxt s) \<and> 0 < snd_rel s (sndNxt s) \<and>
     snd_rel s (sndNxt s) + unat (sndUser s) = (if fin then E + 2 else E + 1) \<and> (fin \<longrightarrow> sndUser s = 0) \<and>
     E \<le> una_pos s + unat TCP_MAX_TX_BUFFER_SIZE \<and> txBufferSize s \<le> TCP_MAX_TX_BUFFER_SIZE"

definition tx_stream :: "(nat \<Rightarrow> u8) \<Rightarrow> nat \<Rightarrow> bool \<Rightarrow> Socket \<Rightarrow> bool" where
  "tx_stream f E fin s \<longleftrightarrow> tx_seq E fin s \<and> (chunk (txBuffer s) = [] \<or>
     tx_ok s \<and> E \<le> una_pos s + unat (txBufferSize s) \<and>
     (\<forall>p. una_pos s \<le> p \<longrightarrow> p < E \<longrightarrow> tx_ring s ! (p mod unat (txBufferSize s)) = f p))"

text \<open>A saved segment: its header, and the range of the stream it covers.\<close>

definition item_ok :: "nat \<Rightarrow> Socket \<Rightarrow> TcpQueueItem \<Rightarrow> bool" where
  "item_ok E s q \<longleftrightarrow> (\<exists>h opts. qiHeader q = tcpHeader_bytes h @ opts \<and> dataOffset h < 16 \<and>
     unat (dataOffset h) * 4 = 20 + length opts \<and>
     (qiLength q = 0 \<or> 0 < snd_rel s (seqNum h) \<and> snd_rel s (seqNum h) - 1 + unat (qiLength q) \<le> E \<and>
        qiLength q \<le> txBufferSize s))"

text \<open>The data of a datagram is the stream, as far as the stream is not yet acknowledged.\<close>

definition dg_header :: "Datagram \<Rightarrow> TcpHeader" where "dg_header dg = tcpHeader_of (dgBytes dg)"

definition dg_data :: "Datagram \<Rightarrow> u8 list" where
  "dg_data dg = drop (unat (dataOffset (dg_header dg)) * 4) (dgBytes dg)"

definition dg_from :: "(nat \<Rightarrow> u8) \<Rightarrow> u32 \<Rightarrow> nat \<Rightarrow> Datagram \<Rightarrow> bool" where
  "dg_from f isn u dg \<longleftrightarrow>
     (\<forall>i < length (dg_data dg). let p = unat (seqNum (dg_header dg) + of_nat i - isn - 1)
        in u \<le> p \<longrightarrow> dg_data dg ! i = f p)"

definition tx_inv :: "Datagram set \<Rightarrow> (nat \<Rightarrow> u8) \<Rightarrow> nat \<Rightarrow> bool \<Rightarrow> conn \<Rightarrow> bool" where
  "tx_inv D f E fin c \<longleftrightarrow> tx_stream f E fin (sk c) \<and> (\<forall>q \<in> set (retransmitQueue (sk c)). item_ok E (sk c) q) \<and>
     (\<forall>dg \<in> set (sent (cx c)). dg \<in> D \<or> dg_from f (iss (sk c)) (una_pos (sk c)) dg)"

lemma snd_rel_pos: "0 < snd_rel s x \<Longrightarrow> tx_pos s x = snd_rel s x - 1"
  by (simp add: snd_rel_def tx_pos_def unat_diff_u32 [of "x - iss s" 1])

text \<open>Data read from the ring at an unacknowledged position is the stream.\<close>

lemma read_stream:
  assumes "tx_stream f E fin s" and "chunk (txBuffer s) \<noteq> []" and x: "0 < snd_rel s x" "snd_rel s x - 1 + n \<le> E"
    and i: "i < n"
  defines "p \<equiv> unat (x + of_nat i - iss s - 1)"
  shows "p = snd_rel s x - 1 + i" and "una_pos s \<le> p \<Longrightarrow> ring_read (tx_ring s) (tx_pos s x) n ! i = f p"
proof -
  have E: "E + 2 < 2 ^ 32" using assms by (simp add: tx_stream_def tx_seq_def)
  have a: "x + of_nat i - iss s - 1 = (x - iss s - 1) + of_nat i" by simp
  have "unat (x - iss s - 1) = snd_rel s x - 1" using snd_rel_pos [OF x(1)] by (simp add: tx_pos_def)
  moreover have "unat (of_nat i :: u32) = i" using x i E by (simp add: unat_word_of_nat_u32)
  ultimately have "unat ((x - iss s - 1) + of_nat i) = snd_rel s x - 1 + i"
    using x i E by (subst unat_add_nowrap) simp_all
  then show p: "p = snd_rel s x - 1 + i" by (simp only: p_def a)
  show "ring_read (tx_ring s) (tx_pos s x) n ! i = f p" if "una_pos s \<le> p"
    using assms(1,2) that p i x(2) by (simp add: tx_stream_def ring_read_def snd_rel_pos [OF x(1)] tx_ok_def)
qed

lemma dg_from_bytes:
  assumes b: "dgBytes dg = tcpHeader_bytes h @ opts @ data" and h: "dataOffset h < 16" "unat (dataOffset h) * 4 = 20 + length opts"
    and "\<And>i. i < length data \<Longrightarrow> u \<le> unat (seqNum h + of_nat i - isn - 1) \<Longrightarrow> data ! i = f (unat (seqNum h + of_nat i - isn - 1))"
  shows "dg_from f isn u dg"
proof -
  have "dg_header dg = h\<lparr>flags := flags h AND 0x3F, options := opts @ data\<rparr>"
    using tcpHeader_roundtrip [OF h(1), of "opts @ data"] by (simp add: dg_header_def b)
  moreover from this have "dg_data dg = data" using h(2) by (simp add: dg_data_def b)
  ultimately show ?thesis using assms(4) by (simp add: dg_from_def)
qed


section \<open>Segments that are sent\<close>

lemma send_effect:
  assumes "payload_ok (sk c) len" and "tcpSendSegment fl seq ack len q c = (e, c')"
  obtains new dgs where "retransmitQueue (sk c') = retransmitQueue (sk c) @ new" "sent (cx c') = sent (cx c) @ dgs"
    "\<forall>i \<in> set new. qiLength i = len \<and> (\<exists>cs. qiHeader i = tcpHeader_bytes (seg_header (sk c) fl seq ack cs) @ seg_options (sk c) fl)"
    "\<forall>dg \<in> set dgs. wire_segment (sk c) fl seq ack len dg" "e = NO_ERROR \<longrightarrow> dgs \<noteq> []"
  using assms
proof (cases rule: tcpSendSegment_submits)
  case failed
  then show ?thesis by (intro that [of "[]" "[]"]) simp_all
next
  case (submitted a ph b cs)
  note eff = submitSegment_effect [OF submitted(1-3)]
  from eff(2) obtain new where "retransmitQueue (sk c') = retransmitQueue (sk c) @ new"
    "\<forall>i \<in> set new. qiHeader i = tcpHeader_bytes (seg_header (sk c) fl seq ack cs) @ seg_options (sk c) fl \<and> qiLength i = len"
    by auto
  moreover from eff(1) submitted(4) obtain dgs where "sent (cx c') = sent (cx c) @ dgs" "\<forall>dg \<in> set dgs. wire_segment (sk c) fl seq ack len dg"
    "e = NO_ERROR \<longrightarrow> dgs \<noteq> []"
    by fastforce
  ultimately show ?thesis by (intro that [of new dgs]) auto
qed

lemma wire_from:
  assumes w: "wire_segment s fl seq ack len dg" and st: "tx_stream f E fin s"
    and len: "len = 0 \<or> chunk (txBuffer s) \<noteq> [] \<and> 0 < snd_rel s seq \<and> snd_rel s seq - 1 + unat len \<le> E"
  shows "dg_from f (iss s) (una_pos s) dg"
proof -
  obtain cs where b: "dgBytes dg = tcpHeader_bytes (seg_header s fl seq ack cs) @ seg_options s fl @ seg_payload s seq len"
    using w by (auto simp: wire_segment_def)
  show ?thesis
  proof (rule dg_from_bytes [OF b])
    show "dataOffset (seg_header s fl seq ack cs) < 16"
      "unat (dataOffset (seg_header s fl seq ack cs)) * 4 = 20 + length (seg_options s fl)"
      by (rule seg_hlen_dataOffset)+
    fix i assume i: "i < length (seg_payload s seq len)"
      and u: "una_pos s \<le> unat (seqNum (seg_header s fl seq ack cs) + of_nat i - iss s - 1)"
    have q: "seqNum (seg_header s fl seq ack cs) = seq" by (simp add: seg_header_def)
    from i have n: "i < unat len" by (simp add: seg_payload_def)
    then have "chunk (txBuffer s) \<noteq> [] \<and> 0 < snd_rel s seq \<and> snd_rel s seq - 1 + unat len \<le> E" using len by auto
    then have c: "chunk (txBuffer s) \<noteq> []" "0 < snd_rel s seq" "snd_rel s seq - 1 + unat len \<le> E" by blast+
    show "seg_payload s seq len ! i = f (unat (seqNum (seg_header s fl seq ack cs) + of_nat i - iss s - 1))"
      unfolding q seg_payload_def by (rule read_stream(2) [OF st c n u [unfolded q]])
  qed
qed

text \<open>What the invariant depends on.\<close>

definition tx_view :: "Socket \<Rightarrow> NetBuffer \<times> u32 \<times> u32 \<times> u32 \<times> u32 \<times> u16" where
  "tx_view s = (txBuffer s, txBufferSize s, iss s, sndUna s, sndNxt s, sndUser s)"

lemma tx_view_stream:
  assumes "tx_view s' = tx_view s"
  shows "tx_stream f E fin s' = tx_stream f E fin s" "una_pos s' = una_pos s" "iss s' = iss s" "item_ok E s' = item_ok E s"
  using assms by (auto simp: tx_view_def tx_stream_def tx_seq_def una_pos_def snd_rel_def tx_ok_def item_ok_def)

lemma tx_inv_view:
  assumes "tx_inv D f E fin c" and v: "tx_view (sk c') = tx_view (sk c)"
    and "set (retransmitQueue (sk c')) \<subseteq> set (retransmitQueue (sk c)) \<union> {q. item_ok E (sk c) q}"
    and "set (sent (cx c')) \<subseteq> set (sent (cx c)) \<union> {dg. dg_from f (iss (sk c)) (una_pos (sk c)) dg}"
  shows "tx_inv D f E fin c'"
  using assms tx_view_stream [OF v] by (auto simp: tx_inv_def)

lemma tx_inv_send:
  assumes I: "tx_inv D f E fin c" and p: "payload_ok (sk c) len" and s: "tcpSendSegment fl seq ack len q c = (e, c')"
    and len: "len = 0 \<or> chunk (txBuffer (sk c)) \<noteq> [] \<and> 0 < snd_rel (sk c) seq \<and> snd_rel (sk c) seq - 1 + unat len \<le> E"
  shows "tx_inv D f E fin c'"
proof -
  obtain new dgs where n: "retransmitQueue (sk c') = retransmitQueue (sk c) @ new" "sent (cx c') = sent (cx c) @ dgs"
    "\<forall>i \<in> set new. qiLength i = len \<and> (\<exists>cs. qiHeader i = tcpHeader_bytes (seg_header (sk c) fl seq ack cs) @ seg_options (sk c) fl)"
    "\<forall>dg \<in> set dgs. wire_segment (sk c) fl seq ack len dg"
    using send_effect [OF p s] by metis
  have "item_ok E (sk c) i" if "i \<in> set new" for i
  proof -
    from that n(3) obtain cs where "qiLength i = len"
      "qiHeader i = tcpHeader_bytes (seg_header (sk c) fl seq ack cs) @ seg_options (sk c) fl" by auto
    then show ?thesis using len p seg_hlen_dataOffset [of "sk c" fl seq ack cs]
      by (auto simp: item_ok_def payload_ok_def seg_header_def intro!: exI [of _ "seg_header (sk c) fl seq ack cs"])
  qed
  moreover have "dg_from f (iss (sk c)) (una_pos (sk c)) dg" if "dg \<in> set dgs" for dg
    using that n(4) I len by (auto simp: tx_inv_def intro: wire_from)
  moreover have "tx_view (sk c') = tx_view (sk c)"
    using s tcpSendSegment_frame [of fl seq ack len q c] by (simp add: tx_view_def)
  ultimately show ?thesis using n(1,2) by (intro tx_inv_view [OF I]) auto
qed


section \<open>Retransmission\<close>

lemma read_empty: "chunk (txBuffer s) = [] \<Longrightarrow> fst (tcpReadTxBuffer s seq b n) \<noteq> NO_ERROR"
  by (simp add: tcpReadTxBuffer_def netBufferConcat_def Let_def)

lemma resend_sent:
  assumes st: "tx_stream f E fin s" and q: "item_ok E s q"
  shows "\<exists>dgs. sent (snd (resendItem s q x)) = sent x @ dgs \<and> (\<forall>dg \<in> set dgs. dg_from f (iss s) (una_pos s) dg)"
proof (cases "heapResult x (calls x)")
  case None
  then show ?thesis by (intro exI [of _ "[]"]) (simp add: resendItem_def ipAllocBuffer_shape)
next
  case (Some a)
  define m where "m = drop CHUNKED_BUFFER_HEADER_SIZE (heapMem x a)"
  have lm: "length m = 1456" by (simp add: m_def CHUNKED_BUFFER_HEADER_SIZE_def)
  have 1: "ipAllocBuffer x 0 = (Some (a, frame_buf a m 62, 62), alloc_ctx a x)"
    by (subst ipAllocBuffer_shape) (simp_all add: Some m_def alloc_ctx_def)
  obtain h opts where h: "qiHeader q = tcpHeader_bytes h @ opts" "dataOffset h < 16" "unat (dataOffset h) * 4 = 20 + length opts"
     "qiLength q = 0 \<or> 0 < snd_rel s (seqNum h) \<and> snd_rel s (seqNum h) - 1 + unat (qiLength q) \<le> E \<and> qiLength q \<le> txBufferSize s"
    using q by (auto simp: item_ok_def)
  have hs: "hdr_seqNum (qiHeader q) = seqNum h" "hdr_dataOffset (qiHeader q) = dataOffset h"
    using arg_cong [OF tcpHeader_roundtrip [OF h(2), of opts], of seqNum] hdr_dataOffset_bytes [OF h(2), of opts]
    by (simp_all add: h(1), simp add: tcpHeader_of_def)
  define b0 where "b0 = snd (netBufferAppend (frame_buf a m 62) (qiAddress q) (qiHeader q) (unat (dataOffset h) * 4))"
  have len: "unat (dataOffset h) * 4 < 65536" using h(2) by (simp add: word_less_nat_alt)
  have b0: "netBufferAppend (frame_buf a m 62) (qiAddress q) (qiHeader q) (unat (dataOffset h) * 4) = (NO_ERROR, b0)"
      "nb_wf b0" "nb_bytes b0 = take 62 m @ qiHeader q"
    using len h(1,3) lm by (simp_all add: b0_def netBufferAppend_def frame_buf_def MAX_CHUNK_COUNT_def nb_wf_def nb_bytes_def
        chunk_wf_def chunk_bytes_def)
  obtain e b where rd: "tcpReadTxBuffer s (seqNum h) b0 (qiLength q) = (e, b)" by fastforce
  have u: "unowned b0" "unowned b"
    using tcpReadTxBuffer_chunks [of s "seqNum h" b0 "qiLength q"] rd
    by (auto simp: unowned_def b0_def netBufferAppend_def frame_buf_def MAX_CHUNK_COUNT_def)
  let ?dg = "\<lparr>dgInterface = sk_interface s, dgPseudoHeader = qiPseudoHeader q, dgBytes = drop 62 (nb_bytes b), dgAncillary = ttl_option (ttl s)\<rparr>"
  have r: "sent (snd (resendItem s q x)) = (if e \<noteq> NO_ERROR \<or> phLength (qiPseudoHeader q) \<notin> {12, 40} then sent x else sent x @ [?dg])"
    unfolding resendItem_def 1 hs prod.case option.case Let_def b0(1) rd
    by (simp add: bufFree_unowned u ipSendDatagram_def)
  show ?thesis
  proof (cases "e = NO_ERROR")
    case True
    then have ne: "chunk (txBuffer s) \<noteq> []" using read_empty [of s "seqNum h" b0 "qiLength q"] rd by auto
    then have "tx_ok s" "qiLength q \<le> txBufferSize s" using st h(4) by (auto simp: tx_stream_def)
    from tcpReadTxBuffer_ring [OF this(1) b0(2) this(2) rd [unfolded True]]
    have "dgBytes ?dg = tcpHeader_bytes h @ opts @ ring_read (tx_ring s) (tx_pos s (seqNum h)) (unat (qiLength q))"
      using b0(3) h(1) lm by simp
    then have "dg_from f (iss s) (una_pos s) ?dg"
    proof (rule dg_from_bytes [OF _ h(2,3)])
      fix i assume "i < length (ring_read (tx_ring s) (tx_pos s (seqNum h)) (unat (qiLength q)))"
      then have i: "i < unat (qiLength q)" by simp
      assume u: "una_pos s \<le> unat (seqNum h + of_nat i - iss s - 1)"
      from i h(4) have "0 < snd_rel s (seqNum h)" "snd_rel s (seqNum h) - 1 + unat (qiLength q) \<le> E" by auto
      from read_stream(2) [OF st ne this i u]
      show "ring_read (tx_ring s) (tx_pos s (seqNum h)) (unat (qiLength q)) ! i = f (unat (seqNum h + of_nat i - iss s - 1))" .
    qed
    with r show ?thesis by auto
  qed (use r in auto)
qed


lemma tx_inv_same:
  "tx_inv D f E fin c \<Longrightarrow> tx_view (sk c') = tx_view (sk c) \<Longrightarrow> set (retransmitQueue (sk c')) \<subseteq> set (retransmitQueue (sk c)) \<Longrightarrow>
     sent (cx c') = sent (cx c) \<Longrightarrow> tx_inv D f E fin c'"
  by (rule tx_inv_view) auto

lemma tx_inv_resend:
  assumes I: "tx_inv D f E fin c"
  shows "tx_inv D f E fin (snd (tcpRetransmitSegment c))"
proof -
  let ?s = "sk c" and ?G = "{dg. dg_from f (iss (sk c)) (una_pos (sk c)) dg}"
  have "set (sent (snd (retransmit_loop ?s n qs x))) \<subseteq> set (sent x) \<union> ?G" if "\<forall>q \<in> set qs. item_ok E ?s q" for n qs x
    using that
  proof (induction qs arbitrary: n x)
    case (Cons q qs)
    obtain e y where r: "resendItem ?s q x = (e, y)" by fastforce
    have "set (sent y) \<subseteq> set (sent x) \<union> ?G"
      using resend_sent [of f E fin ?s q x] I Cons.prems r by (auto simp: tx_inv_def)
    with Cons.IH [of "n + qiLength q" y] Cons.prems r show ?case by auto
  qed simp
  from this [of "retransmitQueue ?s" 0 "cx c"] I show ?thesis
    by (intro tx_inv_view [OF I]) (auto simp: tx_inv_def tcpRetransmitSegment_def split_beta)
qed

lemma tx_inv_bare:
  assumes "tx_inv D f E fin c"
  shows "tx_inv D f E fin (snd (tcpSendSegment fl seq ack 0 q c))"
  using tx_inv_send [OF assms _ surjective_pairing, of 0] by (simp add: payload_ok_def)

lemma push_ok:
  assumes st: "tx_stream f E fin s" and n: "unat n \<le> unat (sndUser s)" and ne: "chunk (txBuffer s) \<noteq> []"
  shows "payload_ok s n" "n = 0 \<or> chunk (txBuffer s) \<noteq> [] \<and> 0 < snd_rel s (sndNxt s) \<and> snd_rel s (sndNxt s) - 1 + unat n \<le> E"
proof -
  show c: "n = 0 \<or> chunk (txBuffer s) \<noteq> [] \<and> 0 < snd_rel s (sndNxt s) \<and> snd_rel s (sndNxt s) - 1 + unat n \<le> E"
    using st n ne by (cases "n = 0") (auto simp: tx_stream_def tx_seq_def unat_eq_zero)
  show "payload_ok s n"
  proof (cases "n = 0")
    case False
    with c have "snd_rel s (sndNxt s) - 1 + unat n \<le> E" by blast
    moreover have "una_pos s \<le> snd_rel s (sndNxt s) - 1" "E \<le> una_pos s + unat (txBufferSize s)" "tx_ok s"
      using st ne by (auto simp: tx_stream_def tx_seq_def una_pos_def)
    ultimately show ?thesis by (simp add: payload_ok_def word_le_nat_alt)
  qed (simp add: payload_ok_def)
qed

lemma send_empty:
  assumes "chunk (txBuffer (sk c)) = []" and "n \<noteq> 0" and "tcpSendSegment fl seq ack n q c = (e, c')"
  shows "e \<noteq> NO_ERROR \<and> sk c' = sk c \<and> sent (cx c') = sent (cx c)"
proof (cases "heapResult (cx c) (calls (cx c))")
  case None
  then show ?thesis using assms(3) by (auto simp: tcpSendSegment_def ipAllocBuffer_shape)
next
  case (Some a)
  define r where "r = seg_read a fl seq ack n c"
  have "fst r \<noteq> NO_ERROR"
    using read_empty [OF assms(1)] assms(2) by (simp add: r_def seg_read_def Let_def word_neq_0_conv)
  then show ?thesis using assms(3) seg_read_unowned [of a fl seq ack n c, folded r_def]
    by (auto simp: tcpSendSegment_built [OF Some r_def] bufFree_unowned)
qed

lemma snd_rel_add: "snd_rel s x + unat k < 2 ^ 32 \<Longrightarrow> snd_rel s (x + k) = snd_rel s x + unat k"
proof -
  assume a: "snd_rel s x + unat k < 2 ^ 32"
  have e: "x + k - iss s = (x - iss s) + k" by simp
  show ?thesis unfolding snd_rel_def e
    by (rule unat_add_nowrap) (use a in \<open>simp add: snd_rel_def\<close>)
qed

lemma advance_seq:
  assumes "tx_seq E fin s" and n: "unat n \<le> unat (sndUser s)"
  shows "tx_seq E fin (advance_snd n s)"
proof -
  let ?s = "advance_snd n s"
  have f: "snd_rel ?s = snd_rel s" "una_pos ?s = una_pos s" "sndUna ?s = sndUna s" "sndNxt ?s = sndNxt s + n"
    "txBufferSize ?s = txBufferSize s"
    by (simp_all add: fun_eq_iff snd_rel_def una_pos_def advance_snd_def)
  have u: "unat (sndUser ?s) = unat (sndUser s) - unat n" by (rule advance_snd_user [OF n])
  have r: "snd_rel s (sndNxt s + n) = snd_rel s (sndNxt s) + unat n"
    using assms by (intro snd_rel_add) (auto simp: tx_seq_def)
  show ?thesis using assms u r by (auto simp: tx_seq_def f unat_eq_zero [symmetric])
qed

lemma tx_inv_push:
  assumes I: "tx_inv D f E fin c" and n: "unat n \<le> unat (sndUser (sk c))"
    and s: "tcpSendSegment fl (sndNxt (sk c)) ack n True c = (e, c')"
  shows "tx_inv D f E fin c' \<and> (e = NO_ERROR \<longrightarrow> tx_inv D f E fin (upd (advance_snd n) c'))"
proof (cases "chunk (txBuffer (sk c)) = [] \<and> n \<noteq> 0")
  case True
  then show ?thesis using send_empty [OF _ _ s] I by (auto simp: tx_inv_def)
next
  case False
  have st: "tx_stream f E fin (sk c)" using I by (simp add: tx_inv_def)
  have c': "tx_inv D f E fin c'"
  proof (cases "n = 0")
    case True
    then show ?thesis using tx_inv_bare [OF I, of fl "sndNxt (sk c)" ack True] s by simp
  next
    case n0: False
    then have "chunk (txBuffer (sk c)) \<noteq> []" using False by blast
    from push_ok [OF st n this] show ?thesis by (rule tx_inv_send [OF I _ s])
  qed
  have v: "sndUser (sk c') = sndUser (sk c)"
    using s tcpSendSegment_frame [of fl "sndNxt (sk c)" ack n True c] by simp
  have "tx_inv D f E fin (upd (advance_snd n) c')"
    using c' advance_seq [of E fin "sk c'" n] n v
    by (simp add: tx_inv_def tx_stream_def) (simp add: advance_snd_def tx_ok_def una_pos_def item_ok_def snd_rel_def)
  with c' show ?thesis by simp
qed

lemma seq_flight: "tx_seq E fin s \<Longrightarrow> flight s = snd_rel s (sndNxt s) - snd_rel s (sndUna s) \<and> flight s < 2147483648"
proof -
  assume t: "tx_seq E fin s"
  have "sndNxt s - sndUna s = (sndNxt s - iss s) - (sndUna s - iss s)" by simp
  then have "flight s = snd_rel s (sndNxt s) - snd_rel s (sndUna s)"
    using t by (simp only: flight_def unat_diff_u32 snd_rel_def tx_seq_def if_True)
  with t show ?thesis by (auto simp: tx_seq_def una_pos_def)
qed

lemma tx_inv_una:
  assumes I: "tx_inv D f E fin c" and a: "unat (a - sndUna (sk c)) \<le> flight (sk c)"
    and v: "tx_view (sk c') = tx_view ((sk c)\<lparr>sndUna := a\<rparr>)" "set (retransmitQueue (sk c')) \<subseteq> set (retransmitQueue (sk c))"
      "sent (cx c') = sent (cx c)"
  shows "tx_inv D f E fin c'"
proof -
  let ?s = "sk c" and ?t = "(sk c)\<lparr>sndUna := a\<rparr>"
  have t: "tx_seq E fin ?s" using I by (simp add: tx_inv_def tx_stream_def)
  have "a = sndUna ?s + (a - sndUna ?s)" by simp
  moreover have "snd_rel ?s (sndUna ?s) + unat (a - sndUna ?s) < 2 ^ 32"
    using a seq_flight [OF t] t by (auto simp: tx_seq_def split: if_splits)
  ultimately have r: "snd_rel ?s a = snd_rel ?s (sndUna ?s) + unat (a - sndUna ?s)"
    using snd_rel_add [of ?s "sndUna ?s" "a - sndUna ?s"] by simp
  then have le: "snd_rel ?s (sndUna ?s) \<le> snd_rel ?s a" "snd_rel ?s a \<le> snd_rel ?s (sndNxt ?s)"
    using a seq_flight [OF t] t by (auto simp: tx_seq_def)
  have f: "snd_rel ?t = snd_rel ?s" "una_pos ?t = snd_rel ?s a - 1" "tx_ok ?t = tx_ok ?s" "item_ok E ?t = item_ok E ?s"
    by (simp_all add: fun_eq_iff snd_rel_def una_pos_def tx_ok_def item_ok_def)
  have u: "una_pos ?s \<le> una_pos ?t" using le(1) by (simp add: f una_pos_def)
  have "tx_stream f E fin ?t" using I le u by (auto simp: tx_inv_def tx_stream_def tx_seq_def f)
  moreover have "dg_from f i (una_pos ?t) dg" if "dg_from f i (una_pos ?s) dg" for i dg
    using that u by (auto simp: dg_from_def Let_def)
  ultimately have "tx_inv D f E fin (c\<lparr>sk := ?t\<rparr>)" using I by (auto simp: tx_inv_def f)
  then show ?thesis using v by (elim tx_inv_same) simp_all
qed


text \<open>Operations that do not touch the send side.\<close>

lemma sent_same [simp]:
  "sent (cx (start_timer get put t c)) = sent (cx c)" "sent (cx (snd (timer_elapsed get c))) = sent (cx c)"
  "sent (cx (snd (tcpComputeRto c))) = sent (cx c)"
  by (simp_all add: start_timer_def tcpTimerStart_def timer_elapsed_def tcpTimerElapsed_def osGetSystemTime_def
      tcpComputeRto_def split_beta)

lemma sent_update_queue [simp]: "sent (cx (tcpUpdateRetransmitQueue c)) = sent (cx c)"
proof -
  have "sent (cx (updateRetransmit_loop kept qs c)) = sent (cx c)" for kept qs c
  proof (induction kept qs c rule: updateRetransmit_loop.induct)
    case (2 kept q qs c)
    show ?case
    proof (cases "qi_acked (sndUna (sk c)) q")
      case True
      with 2(1) [OF True refl refl refl refl] show ?thesis by (simp add: Let_def)
    qed (use 2 in simp)
  qed simp
  then show ?thesis by (simp add: tcpUpdateRetransmitQueue_def Let_def)
qed

lemma sent_release: "sent (release_chunks heapFree cs x) = sent x"
  by (induction cs arbitrary: x) simp_all

lemma sent_fold: "sent (fold (\<lambda>q. heapFree (g q)) qs x) = sent x"
  by (induction qs arbitrary: x) simp_all

lemma tx_inv_upd: "tx_inv D f E fin c \<Longrightarrow> tx_view (g (sk c)) = tx_view (sk c) \<Longrightarrow> retransmitQueue (g (sk c)) = retransmitQueue (sk c) \<Longrightarrow>
    tx_inv D f E fin (upd g c)"
  by (elim tx_inv_same) simp_all

lemma tx_inv_events: "tx_inv D f E fin c \<Longrightarrow> tx_inv D f E fin (tcpUpdateEvents c)" "tx_inv D f E fin c \<Longrightarrow> tx_inv D f E fin (tcpChangeState st c)"
  by (elim tx_inv_same; simp add: tx_view_def)+

lemma tx_inv_reset:
  assumes "tx_inv D f E fin c"
  shows "tx_inv D f E fin (c\<lparr>cx := snd (tcpSendResetSegment i ph h len (cx c))\<rparr>)"
proof -
  have "\<exists>dgs. sent (snd (tcpSendResetSegment i ph h len x)) = sent x @ dgs \<and> (\<forall>dg \<in> set dgs. dg_from g n u dg)" for x g n u
  proof (cases "heapResult x (calls x)")
    case None
    then show ?thesis by (intro exI [of _ "[]"]) (simp add: tcpSendResetSegment_def ipAllocBuffer_shape split_beta)
  next
    case (Some a)
    define st where "st = drop CHUNKED_BUFFER_HEADER_SIZE (heapMem x a)"
    have l: "length st = 1456" by (simp add: st_def CHUNKED_BUFFER_HEADER_SIZE_def)
    have 1: "ipAllocBuffer x SIZEOF_TCP_HEADER = (Some (a, frame_buf a st 82, 62), alloc_ctx a x)"
      by (subst ipAllocBuffer_shape) (simp_all add: Some st_def alloc_ctx_def)
    have w: "nb_bytes (frame_buf a (list_write (list_write st 62 (tcpHeader_bytes t)) 78 (le16 cs)) 82) =
        take 62 st @ tcpHeader_bytes (t\<lparr>checksum := cs\<rparr>)" for t cs
      using l header_checksum [of cs t] by (simp add: frame_buf_bytes) (simp add: list_write_def)
    have d: "dg_from g n u dg" if "dgBytes dg = tcpHeader_bytes t" "dataOffset t = 5" for dg t
      using dg_from_bytes [of dg t "[]" "[]"] that by simp
    have o: "unowned (frame_buf a m k)" for m k by (simp add: unowned_def frame_buf_def)
    show ?thesis
    proof (cases "phLength ph \<in> {12, 40}")
      case True
      then show ?thesis
        by (simp add: tcpSendResetSegment_def 1 Let_def split_beta frame_buf_poke ipSendDatagram_def bufFree_unowned o w l)
          (rule d, simp, simp)
    next
      case False
      then show ?thesis
        by (intro exI [of _ "[]"])
          (simp add: tcpSendResetSegment_def 1 Let_def split_beta frame_buf_poke bufFree_unowned o)
    qed
  qed
  from this [of "cx c" f "iss (sk c)" "una_pos (sk c)"] show ?thesis using assms by (intro tx_inv_view [OF assms]) auto
qed

lemma tx_inv_ack:
  assumes I: "tx_inv D f E fin c"
  shows "tx_inv D f E fin (snd (tcpCheckAck h len c))"
proof -
  have w: "tx_inv D f E fin (tcpUpdateSendWindow h c)"
    using I by (elim tx_inv_same) (simp_all add: tx_view_def tcpUpdateSendWindow_def Let_def sk_start_timer)
  have r: "tx_inv D f E fin (tcpFastRecovery h n c)" "tx_inv D f E fin (tcpFastLossRecovery h c)" "tx_inv D f E fin (tcpFastRetransmit c)"
    if "tx_inv D f E fin c" for n c
    unfolding tcpFastRecovery_def tcpFastLossRecovery_def tcpFastRetransmit_def Let_def
    using that by (auto intro!: tx_inv_upd tx_inv_resend simp: tx_view_def)
  have d: "tx_inv D f E fin (ackNoNewData h dup c)" if "tx_inv D f E fin c" for dup c
    unfolding ackNoNewData_def Let_def using that by (auto intro!: tx_inv_upd r simp: tx_view_def)
  have n: "tx_inv D f E fin (ackNewData h c)" if J: "tx_inv D f E fin c" and a: "unat (ackNum h - sndUna (sk c)) \<le> flight (sk c)" for c
  proof -
    let ?n = "ackNum h - sndUna (sk c)"
    let ?n = "if sndUna (sk c) = iss (sk c) then ?n - 1 else ?n"
    define c1 where "c1 = tcpUpdateRetransmitQueue (snd (tcpComputeRto (upd (\<lambda>s. s\<lparr>sk_n := sk_n s + ?n, sndUna := ackNum h\<rparr>) c)))"
    have "tx_inv D f E fin c1"
      by (rule tx_inv_una [OF J a]) (auto simp: c1_def tx_view_def tcpUpdateRetransmitQueue_queue)
    then show ?thesis unfolding ackNewData_def Let_def split_beta c1_def [symmetric]
      by (auto intro!: tx_inv_upd r simp: tx_view_def)
  qed
  have fl: "flight (sk c) < 2147483648" using I seq_flight by (auto simp: tx_inv_def tx_stream_def)
  have fw: "flight (sk (tcpUpdateSendWindow h c)) = flight (sk c)" by (simp add: flight_def)
  show ?thesis
    using I w d n ack_position(1) [OF fl, of "ackNum h"] tx_inv_bare [OF I]
    by (auto simp: tcpCheckAck_def Let_def fw intro!: tx_inv_events)
qed

lemma tx_inv_data:
  assumes I: "tx_inv D f E fin c"
  shows "tx_inv D f E fin (tcpProcessSegmentData h b off len c)"
proof -
  have u: "tx_inv D f E fin c1 \<Longrightarrow> tx_inv D f E fin (upd (\<lambda>s. s\<lparr>rcvNxt := rcvNxt s + k, rcvUser := rcvUser s + m, rcvWnd := rcvWnd s - m\<rparr>) c1)"
    for c1 :: conn and k m by (erule tx_inv_upd) (simp_all add: tx_view_def)
  have "tx_inv D f E fin (c\<lparr>sk := snd (snd (tcpUpdateSackBlocks (tcpWriteRxBuffer (sk c) l b off n) l r))\<rparr>)" for l off n r
    using I by (elim tx_inv_same) (simp_all add: tx_view_def tcpWriteRxBuffer_def Let_def)
  then show ?thesis by (simp add: tcpProcessSegmentData_def Let_def split_beta tx_inv_bare tx_inv_events u)
qed

lemma tx_inv_syn:
  assumes I: "tx_inv D f E fin c" and "has_flag (flags h) TCP_FLAG_ACK \<longrightarrow> ackNum h = sndNxt (sk c)" "synSent_syn h c = Some c'"
  shows "tx_inv D f E fin c'"
proof -
  define c1 where "c1 = (if has_flag (flags h) TCP_FLAG_ACK
     then upd (\<lambda>s. s\<lparr>sndUna := ackNum h\<rparr>) (upd (\<lambda>s. s\<lparr>irs := seqNum h, rcvNxt := seqNum h + 1\<rparr>) c)
     else upd (\<lambda>s. s\<lparr>irs := seqNum h, rcvNxt := seqNum h + 1\<rparr>) c)"
  define c2 where "c2 = tcpUpdateRetransmitQueue (snd (tcpComputeRto c1))"
  have "tx_inv D f E fin c2"
  proof (cases "has_flag (flags h) TCP_FLAG_ACK")
    case True
    show ?thesis
      by (rule tx_inv_una [OF I, of "ackNum h"])
        (use True assms(2) in \<open>auto simp: flight_def c2_def c1_def tx_view_def tcpUpdateRetransmitQueue_queue\<close>)
  next
    case False
    then show ?thesis using I
      by (elim tx_inv_same) (auto simp: c2_def c1_def tx_view_def tcpUpdateRetransmitQueue_queue)
  qed
  then show ?thesis using assms(3) unfolding synSent_syn_def Let_def c1_def [symmetric] c2_def [symmetric]
    by (auto simp: sendAck_def tx_view_def intro!: tx_inv_events tx_inv_bare tx_inv_upd split: option.splits if_splits)
qed

interpretation tx: conn_invariant "tx_inv D f E fin" for D f E fin
proof (unfold_locales, goal_cases)
  case (2 c n e c')
  then show ?case by (rule tx_inv_push)
next
  case (10 c)
  let ?s = "sk (tcpDeleteControlBlock c)"
  have "una_pos ?s = una_pos (sk c)" "tx_seq E fin ?s = tx_seq E fin (sk c)" by (simp_all add: una_pos_def snd_rel_def tx_seq_def)
  moreover have "chunk (txBuffer ?s) = []" "retransmitQueue ?s = []" "sent (cx (tcpDeleteControlBlock c)) = sent (cx c)"
    by (simp_all add: tcpDeleteControlBlock_def tcpFlushRetransmitQueue_def tcpFlushSynQueue_def Let_def split_beta
        bufSetLength_def netBufferSetLength_0 sent_release sent_fold)
  ultimately show ?case using 10 by (simp add: tx_inv_def tx_stream_def)
next
  case (12 c ifc ph h len c')
  have "c' = c\<lparr>cx := snd (tcpSendResetSegment (Some ifc) ph h len (cx c))\<rparr> \<or>
      tx_view (sk c') = tx_view (sk c) \<and> retransmitQueue (sk c') = retransmitQueue (sk c) \<and> sent (cx c') = sent (cx c)"
    using 12(2) by (auto simp: tcpStateListen_def Let_def heapAlloc_def tx_view_def split: if_splits option.splits prod.splits)
  then show ?case using tx_inv_reset [OF 12(1), of "Some ifc" ph h len] tx_inv_same [OF 12(1), of c'] by auto
next
  case (13 c h c')
  then show ?case using tx_inv_syn by blast
next
  case (19 c)
  have t: "tx_inv D f E fin (start_timer retransmitTimer retransmitTimer_update t c')" if "tx_inv D f E fin c'" for t c'
    using that by (elim tx_inv_same) (simp_all add: tx_view_def sk_start_timer)
  have e: "tx_inv D f E fin (snd (timer_elapsed retransmitTimer c))" using 19 by (elim tx_inv_same) simp_all
  show ?case unfolding tick_retransmit_def Let_def split_beta using 19 e
    by (auto intro!: tx_inv_upd t tx_inv_resend tx_inv_events simp: tx_view_def tick_congestion_def Let_def)
next
  case (20 c)
  have t: "tx_inv D f E fin (start_timer persistTimer persistTimer_update t c')" if "tx_inv D f E fin c'" for t c'
    using that by (elim tx_inv_same) (simp_all add: tx_view_def sk_start_timer)
  have e: "tx_inv D f E fin (snd (timer_elapsed persistTimer c))" using 20 by (elim tx_inv_same) simp_all
  show ?case unfolding tick_persist_def Let_def split_beta using 20 e
    by (auto intro!: tx_inv_upd t tx_inv_bare tx_inv_events simp: tx_view_def)
qed (simp_all add: tx_inv_bare tx_inv_resend tx_inv_events tx_inv_reset tx_inv_ack tx_inv_data,
    (erule tx_inv_same; simp add: tx_view_def sk_start_timer)+)


section \<open>Writing to the stream\<close>

lemma send_room:
  assumes "tx_seq E False s" and "send_check s = Inr room"
  shows "E + unat room \<le> una_pos s + unat (txBufferSize s)" "unat (sndUser s) + unat room \<le> unat (txBufferSize s)"
proof -
  define n where "n = ucast (sndUser s) + sndNxt s - sndUna s"
  have fl: "flight s = snd_rel s (sndNxt s) - snd_rel s (sndUna s)" "flight s < 2147483648"
    using seq_flight [OF assms(1)] by simp_all
  have "n = (sndNxt s - sndUna s) + ucast (sndUser s)" by (simp add: n_def)
  moreover have "unat ((sndNxt s - sndUna s) + ucast (sndUser s) :: u32) = flight s + unat (sndUser s)"
    using fl u16_bound [of "sndUser s"] by (subst unat_add_nowrap) (simp_all add: flight_def)
  ultimately have n: "unat n = flight s + unat (sndUser s)" by (simp only:)
  have r: "n < txBufferSize s" "room = txBufferSize s - n"
    using assms(2) by (auto simp: send_check_def Let_def n_def split: if_splits)
  then have "unat room = unat (txBufferSize s) - unat n" "unat n < unat (txBufferSize s)"
    by (simp_all add: unat_diff_u32 word_less_nat_alt)
  with n fl(1) assms(1) show "E + unat room \<le> una_pos s + unat (txBufferSize s)"
     "unat (sndUser s) + unat room \<le> unat (txBufferSize s)"
    by (auto simp: tx_seq_def una_pos_def)
qed

lemma write_stream:
  assumes st: "tx_stream f E False s" and room: "E + unat n \<le> una_pos s + unat (txBufferSize s)"
    "unat (sndUser s) + unat n \<le> unat (txBufferSize s)" and E: "E + unat n + 2 < 2 ^ 32"
    and data: "unat n \<le> length data" "\<And>i. i < unat n \<Longrightarrow> data ! i = f (E + i)"
  defines "s' \<equiv> (tcpWriteTxBuffer s (sndNxt s + ucast (sndUser s)) data n)\<lparr>sndUser := sndUser s + ucast n\<rparr>"
  shows "tx_stream f (E + unat n) False s'"
proof -
  let ?N = "unat (txBufferSize s)" and ?x = "sndNxt s + ucast (sndUser s)"
  have seq: "tx_seq E False s" and N: "?N \<le> 22880"
    using st by (simp_all add: tx_stream_def tx_seq_def word_le_nat_alt)
  have f: "snd_rel s' = snd_rel s" "una_pos s' = una_pos s" "sndUna s' = sndUna s" "sndNxt s' = sndNxt s"
      "txBufferSize s' = txBufferSize s" "sndUser s' = sndUser s + ucast n"
    by (simp_all add: fun_eq_iff snd_rel_def una_pos_def s'_def tcpWriteTxBuffer_def Let_def)
  have "unat (ucast n :: u16) = unat n" using room(2) N by (simp add: unat_ucast_32_16)
  then have u: "unat (sndUser s') = unat (sndUser s) + unat n"
    using room(2) N by (simp add: f unat_add_nowrap)
  have sq: "tx_seq (E + unat n) False s'"
    using seq E room(1) u N by (simp add: tx_seq_def f)
  show ?thesis
  proof (cases "chunk (txBuffer s) = []")
    case True
    then have "chunk (txBuffer s') = []"
      by (simp add: s'_def tcpWriteTxBuffer_def Let_def netBufferWrite_def)
    with sq show ?thesis by (simp add: tx_stream_def)
  next
    case False
    with st have ok: "tx_ok s" and ring: "\<forall>p. una_pos s \<le> p \<longrightarrow> p < E \<longrightarrow> tx_ring s ! (p mod ?N) = f p"
      by (simp_all add: tx_stream_def)
    have rx: "snd_rel s ?x = E + 1" using seq by (subst snd_rel_add) (auto simp: tx_seq_def)
    then have px: "tx_pos s ?x = E" using snd_rel_pos [of s ?x] by simp
    have "n \<le> txBufferSize s" using room(2) by (simp add: word_le_nat_alt)
    note w = tcpWriteTxBuffer_ring [OF ok this data(1), of ?x, unfolded px]
    have lr: "length (tx_ring s) = ?N" "0 < ?N" using ok by (auto simp: tx_ok_def word_less_nat_alt)
    have ring': "tx_ring s' = ring_write (tx_ring s) E (take (unat n) data)" "nb_wf (txBuffer s')"
      using w by (simp_all add: s'_def)
    have "tx_ring s' ! (p mod ?N) = f p" if p: "una_pos s \<le> p" "p < E + unat n" for p
    proof (cases "p < E")
      case True
      have "ring_write (tx_ring s) E (take (unat n) data) ! ((p + ?N) mod ?N) = tx_ring s ! ((p + ?N) mod ?N)"
        using nth_ring_write [of E "p + ?N" "tx_ring s" "take (unat n) data"] True p room(1)
        by (simp add: lr data(1) min_absorb2) linarith
      then show ?thesis using True p ring by (simp add: ring')
    next
      case False
      then have "p - E < unat n" using p by linarith
      with False show ?thesis
        using nth_ring_write [of E p "tx_ring s" "take (unat n) data"] p room(2) data by (simp add: lr ring')
    qed
    moreover have "tx_ok s'" using ok ring' lr by (simp add: tx_ok_def f)
    ultimately show ?thesis using sq room(1) by (simp add: tx_stream_def f)
  qed
qed

lemma tx_inv_copy:
  assumes I: "tx_inv D f E False c" and room: "send_check (sk c) = Inr room" "n \<le> room" and E: "E + unat n + 2 < 2 ^ 32"
    and data: "unat n \<le> length data" "\<And>i. i < unat n \<Longrightarrow> data ! i = f (E + i)"
  shows "tx_inv D f (E + unat n) False (send_copy data n c)"
proof (cases "n = 0")
  case False
  let ?s = "(tcpWriteTxBuffer (sk c) (sndNxt (sk c) + ucast (sndUser (sk c))) data n)\<lparr>sndUser := sndUser (sk c) + ucast n\<rparr>"
  have st: "tx_stream f E False (sk c)" using I by (simp add: tx_inv_def)
  have n: "unat n \<le> unat room" using room(2) by (simp add: word_le_nat_alt)
  have "tx_seq E False (sk c)" using st by (simp add: tx_stream_def)
  note r = send_room [OF this room(1)]
  have "tx_stream f (E + unat n) False ?s"
    by (rule write_stream [OF st _ _ E data]) (use r n in simp_all)
  moreover have "item_ok (E + unat n) ?s q" if "item_ok E (sk c) q" for q
    using that by (fastforce simp: item_ok_def snd_rel_def tcpWriteTxBuffer_def Let_def)
  moreover have "retransmitQueue ?s = retransmitQueue (sk c)" "iss ?s = iss (sk c)" "una_pos ?s = una_pos (sk c)"
    by (simp_all add: tcpWriteTxBuffer_def Let_def una_pos_def snd_rel_def)
  ultimately have J: "tx_inv D f (E + unat n) False (c\<lparr>sk := ?s\<rparr>)" using I by (simp add: tx_inv_def)
  show ?thesis
    by (rule tx_inv_same [OF J])
      (use False in \<open>simp_all add: send_copy_def Let_def tx_view_def sk_start_timer word_neq_0_conv\<close>)
qed (use I in \<open>simp add: send_copy_def\<close>)


text \<open>While the user waits, the connection keeps the stream: for example when only segments and timers act on it.\<close>

definition tx_rely :: "Datagram set \<Rightarrow> (nat \<Rightarrow> u8) \<Rightarrow> (systime_t \<Rightarrow> conn \<Rightarrow> conn) \<Rightarrow> bool" where
  "tx_rely D f wait \<longleftrightarrow> (\<forall>E t c. tx_inv D f E False c \<longrightarrow> tx_inv D f E False (wait t c))"

lemma tx_rely_steps: "(\<And>t c. conn_step\<^sup>*\<^sup>* c (wait t c)) \<Longrightarrow> tx_rely D f wait"
  unfolding tx_rely_def using tx.run_inv by blast

lemma wait_stream:
  assumes "tx_rely D f wait" and I: "tx_inv D f E False c"
  shows "tx_inv D f E False (snd (tcpWaitForEvents wait ev t c))"
proof -
  have "tx_inv D f E False (tcpUpdateEvents (upd (eventMask_update (\<lambda>_. ev)) c))"
    using I by (auto intro!: tx_inv_events tx_inv_upd simp: tx_view_def)
  moreover have "tx_inv D f E False (wait t (upd (event_update (\<lambda>_. False)) c'))" if "tx_inv D f E False c'" for c'
    using assms(1) tx_inv_upd [OF that, of "event_update (\<lambda>_. False)"] by (simp add: tx_rely_def tx_view_def)
  ultimately show ?thesis by (simp add: tcpWaitForEvents_def Let_def)
qed

lemma tx_inv_nagle: "tx_inv D f E fin c \<Longrightarrow> tcpNagleAlgo fl c = Some r \<Longrightarrow> tx_inv D f E fin (snd r)"
  using tx.nagle_inv [of D f E fin c fl] by (simp add: nagle_def)

text \<open>One pass of the loop of \<open>tcpSend\<close>; \<open>lp\<close> stands for the passes that follow.\<close>

definition send_ok :: "Datagram set \<Rightarrow> (nat \<Rightarrow> u8) \<Rightarrow> nat \<Rightarrow> u32 \<Rightarrow> error_t \<times> u32 \<times> conn \<Rightarrow> bool" where
  "send_ok D f E len r \<longleftrightarrow> tx_inv D f (E + unat (fst (snd r))) False (snd (snd r)) \<and> fst (snd r) \<le> len \<and>
     (fst r = NO_ERROR \<longrightarrow> fst (snd r) = len)"

lemma send_pass:
  assumes rely: "tx_rely D f wait" and I: "tx_inv D f (E + unat tot) False c" and tot: "tot \<le> len"
    and len: "unat len \<le> length data" "E + unat len + 2 < 2 ^ 32" and data: "\<And>i. i < unat len \<Longrightarrow> data ! i = f (E + i)"
    and lp: "\<And>tot c r. lp tot c = Some r \<Longrightarrow> tx_inv D f (E + unat tot) False c \<Longrightarrow> tot \<le> len \<Longrightarrow> send_ok D f E len r"
    and body: "(let r = tcpWaitForEvents wait SOCKET_EVENT_TX_READY (sk_timeout (sk c)) c; c = snd r
      in if fst r \<noteq> SOCKET_EVENT_TX_READY then Some (ERROR_TIMEOUT, tot, c)
         else case send_check (sk c) of
           Inl e \<Rightarrow> Some (e, tot, c)
         | Inr room \<Rightarrow>
             (let n = min room (len - tot)
              in case tcpNagleAlgo fl (send_copy (drop (unat tot) data) n c) of
                   None \<Rightarrow> None
                 | Some r \<Rightarrow> if tot + n < len then lp (tot + n) (snd r) else Some (NO_ERROR, tot + n, snd r))) = Some r"
  shows "send_ok D f E len r"
proof -
  let ?w = "tcpWaitForEvents wait SOCKET_EVENT_TX_READY (sk_timeout (sk c)) c"
  have J: "tx_inv D f (E + unat tot) False (snd ?w)" by (rule wait_stream [OF rely I])
  have err: "send_check s = Inl e \<Longrightarrow> e \<noteq> NO_ERROR" for s e by (auto simp: send_check_def Let_def split: if_splits)
  show ?thesis
  proof (cases "fst ?w = SOCKET_EVENT_TX_READY \<and> (\<exists>room. send_check (sk (snd ?w)) = Inr room)")
    case False
    then obtain e where "r = (e, tot, snd ?w)" "e \<noteq> NO_ERROR"
      using body err by (cases "send_check (sk (snd ?w))") (auto simp: Let_def split: if_splits)
    with J tot show ?thesis by (simp add: send_ok_def)
  next
    case True
    then obtain room where room: "send_check (sk (snd ?w)) = Inr room" by blast
    define n where "n = min room (len - tot)"
    have d: "unat (len - tot) = unat len - unat tot" "unat tot \<le> unat len" using tot by (simp_all add: unat_diff_u32 word_le_nat_alt)
    have n: "n \<le> room" "unat n \<le> unat len - unat tot"
      using d by (simp_all add: n_def min_def word_le_nat_alt)
    then have t: "unat (tot + n) = unat tot + unat n" "unat (tot + n) \<le> unat len"
      using d(2) u32_bound [of len] by (simp_all add: unat_add_nowrap)
    have c1: "tx_inv D f (E + unat (tot + n)) False (send_copy (drop (unat tot) data) n (snd ?w))"
      unfolding t(1) add.assoc [symmetric]
      by (rule tx_inv_copy [OF J room n(1)]) (use n(2) d(2) len data in \<open>simp_all add: add.assoc\<close>)
    obtain q where q: "tcpNagleAlgo fl (send_copy (drop (unat tot) data) n (snd ?w)) = Some q"
      "(if tot + n < len then lp (tot + n) (snd q) else Some (NO_ERROR, tot + n, snd q)) = Some r"
      using body True room by (auto simp: Let_def n_def [symmetric] split: option.splits)
    have "tx_inv D f (E + unat (tot + n)) False (snd q)" by (rule tx_inv_nagle [OF c1 q(1)])
    then show ?thesis using q(2) t(2) lp [of "tot + n" "snd q" r]
      by (auto simp: send_ok_def word_le_nat_alt word_less_nat_alt word_unat_eq_iff split: if_splits)
  qed
qed

lemma send_loop_stream:
  assumes "send_loop wait fl data len tot c = Some r" and "tx_rely D f wait"
    and "tx_inv D f (E + unat tot) False c" and "tot \<le> len" "unat len \<le> length data" "E + unat len + 2 < 2 ^ 32"
    and "\<And>i. i < unat len \<Longrightarrow> data ! i = f (E + i)"
  shows "send_ok D f E len r"
proof -
  define P where "P = (\<lambda>(w :: systime_t \<Rightarrow> conn \<Rightarrow> conn) (fl :: u32) d l tot c r. tx_rely D f w \<and> tx_inv D f (E + unat tot) False c \<and>
     tot \<le> l \<and> unat l \<le> length d \<and> E + unat l + 2 < 2 ^ 32 \<and> (\<forall>i < unat l. d ! i = f (E + i)) \<longrightarrow> send_ok D f E l r)"
  have "P wait fl data len tot c r"
  proof (rule send_loop.raw_induct [where P = P, OF _ assms(1)], goal_cases)
    case (1 lp w fl d l tot c r)
    have lp: "send_ok D f E l r" if "lp w fl d l tot c = Some r" "tx_inv D f (E + unat tot) False c" "tot \<le> l"
      "tx_rely D f w \<and> unat l \<le> length d \<and> E + unat l + 2 < 2 ^ 32 \<and> (\<forall>i < unat l. d ! i = f (E + i))" for tot c r
      using 1(1) [OF that(1)] that(2-4) by (simp add: P_def)
    show ?case unfolding P_def by (intro impI send_pass [OF _ _ _ _ _ _ lp 1(2)]) auto
  qed
  with assms(2-) show ?thesis by (simp add: P_def)
qed

text \<open>
  Property C3. What the user writes with \<open>tcpSend\<close> becomes the stream of the connection: the bytes
  counted as written follow the \<open>E\<close> bytes written before, in order and each once, also when the
  send buffer is full in between and segments and timers act on the connection while the call
  waits; a call that succeeds has written everything. Every datagram the connection has sent, first
  transmission or not, carries the stream at its sequence numbers.
\<close>

theorem tcpSend_stream:
  assumes "tcpSend wait data len fl c = Some (e, n, c')" and "tx_rely D f wait" and "tx_inv D f E False c"
    and "unat len \<le> length data" and "E + unat len + 2 < 2 ^ 32" and "\<forall>i < unat len. data ! i = f (E + i)"
  shows "tx_inv D f (E + unat n) False c' \<and> n \<le> len \<and> (e = NO_ERROR \<longrightarrow> n = len)"
proof (cases "sk_state (sk c) = TCP_STATE_LISTEN")
  case True
  with assms show ?thesis by (auto simp: tcpSend_def)
next
  case False
  with assms(1) obtain r where r: "send_loop wait fl data len 0 c = Some r" by (auto simp: tcpSend_def split: option.splits)
  have ok: "send_ok D f E len r" by (rule send_loop_stream [OF r assms(2)]) (use assms in simp_all)
  show ?thesis using assms(1) False r ok wait_stream [OF assms(2)]
    by (auto simp: tcpSend_def send_ok_def split_beta Let_def split: if_splits prod.splits)
qed


section \<open>From the sender to the receiver\<close>

lemma window_position:
  assumes "rx_flow f s" and "rx_room s" and "data_state s" and w: "in_window s x"
  shows "rx_pos s (rcvNxt s) \<le> rx_pos s x"
proof -
  have e: "rx_end s = rcvNxt s" using assms(3) by (rule rx_end_data)
  have b: "rx_base s + unat (rcvUser s) \<le> unat (rcvNxt s)" "unat (rcvUser s) + unat (rcvWnd s) \<le> unat (rxBufferSize s)"
    "unat (rcvNxt s) - unat (rcvUser s) + unat (rxBufferSize s) < 2 ^ 32"
    using assms(1,2) by (simp_all add: rx_flow_def rcv_inv_def rx_room_def e)
  have d: "unat (x - rcvNxt s) < unat (rcvWnd s)" using w by (simp add: in_window_def)
  have "unat (rcvNxt s + (x - rcvNxt s)) = unat (rcvNxt s) + unat (x - rcvNxt s)"
    using b d by (intro unat_add_nowrap) simp
  then have "unat (rcvNxt s) \<le> unat x" by simp
  with b(1) show ?thesis by (simp add: rx_pos_base)
qed



section \<open>Witnesses\<close>

definition example_dg :: Datagram where
  "example_dg = \<lparr>dgInterface = None, dgPseudoHeader = example_ph, dgBytes = tcpHeader_bytes example_header @ [4, 5], dgAncillary = NET_DEFAULT_ANCILLARY_DATA\<rparr>"

definition example_tx :: conn where
  "example_tx = \<lparr>cx = example_ctx\<lparr>heapResult := \<lambda>n. None, sent := [example_dg]\<rparr>,
     sk = example_sock\<lparr>sndUna := 1, sndNxt := 6\<rparr>\<rparr>"

lemma example_dg_from: "dg_from example_stream 0 0 example_dg" "dg_data example_dg = [4, 5]"
  "seqNum (dg_header example_dg) = 4" "dataOffset (dg_header example_dg) = 5"
proof -
  have h: "dg_header example_dg = example_header\<lparr>flags := flags example_header AND 0x3F, options := [4, 5]\<rparr>"
    using tcpHeader_roundtrip [of example_header "[4, 5]"] by (simp add: dg_header_def example_dg_def) (simp add: example_header_def)
  then show "dg_data example_dg = [4, 5]" "seqNum (dg_header example_dg) = 4" "dataOffset (dg_header example_dg) = 5"
    by (simp_all add: dg_data_def, simp_all add: example_header_def example_dg_def)
  then show "dg_from example_stream 0 0 example_dg"
    by (auto simp: dg_from_def Let_def example_stream_def less_Suc_eq)
qed

lemma example_tx_inv: "tx_inv {} example_stream 5 False example_tx"
proof -
  have s: "snd_rel (sk example_tx) x = unat x" "una_pos (sk example_tx) = 0" for x
    by (simp_all add: snd_rel_def una_pos_def example_tx_def) (simp_all add: example_sock_def zeroSocket_def)
  have "tx_ok (sk example_tx)" using example_ok(1) by (simp add: tx_ok_def example_tx_def)
  moreover have "tx_ring (sk example_tx) ! (p mod 5) = example_stream p" if "p < 5" for p
  proof -
    have "p \<in> {0, 1, 2, 3, 4}" using that by auto
    then show ?thesis by (auto simp: example_tx_def example_sock_def example_wf example_stream_def)
  qed
  ultimately have "tx_stream example_stream 5 False (sk example_tx)"
    by (simp add: tx_stream_def tx_seq_def s) (simp add: example_tx_def example_sock_def zeroSocket_def)
  moreover have "dg_from example_stream (iss (sk example_tx)) (una_pos (sk example_tx)) example_dg"
    using example_dg_from(1) by (simp add: s, simp add: example_tx_def example_sock_def zeroSocket_def)
  ultimately show ?thesis
    by (simp add: tx_inv_def) (simp add: example_tx_def example_sock_def zeroSocket_def)
qed


text \<open>
  Property C4. Whatever segments arrive and timers expire, in any order, the send buffer keeps the
  unacknowledged part of what the user wrote, and every datagram the connection sends, new data,
  retransmission or probe, carries the user's bytes at its sequence numbers.
\<close>

theorem sender_keeps_stream:
  assumes "conn_step\<^sup>*\<^sup>* c c'" and "tx_stream f E fin (sk c)" and "\<forall>q \<in> set (retransmitQueue (sk c)). item_ok E (sk c) q"
  shows "tx_stream f E fin (sk c') \<and>
    (\<forall>dg \<in> set (sent (cx c')) - set (sent (cx c)). dg_from f (iss (sk c')) (una_pos (sk c')) dg)"
proof -
  have "tx_inv (set (sent (cx c))) f E fin c" using assms(2,3) by (simp add: tx_inv_def)
  from tx.run_inv [OF assms(1) this] show ?thesis by (auto simp: tx_inv_def)
qed

definition example_acks :: TcpHeader where "example_acks = example_header\<lparr>seqNum := 0, ackNum := 4\<rparr>"

lemma example_acked:
  "case run_state 0 example_ph example_acks example_seg 0 0 example_tx of None \<Rightarrow> False | Some c \<Rightarrow> sndUna (sk c) = 4"
  by code_simp

theorem sender_keeps_stream_witness:
  "\<exists>c'. conn_step example_tx c' \<and> sndUna (sk c') = 4 \<and> tx_stream example_stream 5 False (sk c')"
proof -
  obtain c' where c': "run_state 0 example_ph example_acks example_seg 0 0 example_tx = Some c'" "sndUna (sk c') = 4"
    using example_acked by (auto split: option.splits)
  then have "conn_step example_tx c'" by (intro conn_step.segment)
  with c'(2) sender_keeps_stream [OF r_into_rtranclp [of conn_step, OF this]] example_tx_inv show ?thesis
    by (auto simp: tx_inv_def)
qed

definition example_room :: conn where "example_room = upd (\<lambda>s. s\<lparr>sndUna := 4\<rparr>) example_tx"

lemma example_sends:
  "case tcpSend (\<lambda>t c. c) [6, 7] 2 0 example_room of None \<Rightarrow> False | Some (e, n, c) \<Rightarrow> e = NO_ERROR \<and> n = 2"
  by code_simp

theorem tcpSend_stream_witness:
  "\<exists>c'. tcpSend (\<lambda>t c. c) [6, 7] 2 0 example_room = Some (NO_ERROR, 2, c') \<and> tx_inv {} example_stream 7 False c'"
proof -
  obtain c' where c': "tcpSend (\<lambda>t c. c) [6, 7] 2 0 example_room = Some (NO_ERROR, 2, c')"
    using example_sends by (auto split: option.splits)
  have "tx_inv {} example_stream 5 False example_room"
    by (rule tx_inv_una [OF example_tx_inv, of 4])
      (simp_all add: example_room_def, simp_all add: flight_def example_tx_def)
  moreover have "tx_rely {} example_stream (\<lambda>t c. c)" by (simp add: tx_rely_def)
  ultimately show ?thesis
    using tcpSend_stream [OF c', of "{}" example_stream 5] c' by (auto simp: example_stream_def less_2_cases_iff)
qed

end
