(* ===== verification/Ipv4_Frag.thy ===== *)
theory Ipv4_Frag
  imports Tcp_Send
begin

text \<open>
  IPv4 packets (\<open>ipv4/ipv4.c\<close>) and their fragmentation and reassembly (\<open>ipv4/ipv4_frag.c\<close>).

  A packet is the list of its bytes. The reassembly queue of an interface is the list of its
  descriptors; an entry is free when its buffer has no chunk. The hole descriptors live in the
  reassembly buffer itself, in the bytes that are still missing, and are linked by their offsets:
  they are read and written through the memory of the buffer, as in the code.

  Functions of other components are parameters: \<open>deliver\<close> is the effect of \<open>ipv4ProcessDatagram\<close>
  on the outside world, \<open>icmp\<close> that of \<open>icmpSendErrorMessage\<close>, \<open>transmit\<close> is the second half of
  \<open>ipv4SendPacket\<close>, which checks the addresses, chooses the next hop, resolves its address and hands
  the packet to the driver. \<open>None\<close> stands for a loop that does not end or an access outside of the
  memory blocks.
\<close>

section \<open>Data\<close>

abbreviation (input) IPV4_FLAG_MF :: u16 where "IPV4_FLAG_MF \<equiv> 0x2000"
abbreviation (input) IPV4_OFFSET_MASK :: u16 where "IPV4_OFFSET_MASK \<equiv> 0x1FFF"
abbreviation (input) IPV4_INFINITY :: u16 where "IPV4_INFINITY \<equiv> 0xFFFF"
abbreviation (input) IPV4_MAX_FRAG_DATAGRAM_SIZE :: nat where "IPV4_MAX_FRAG_DATAGRAM_SIZE \<equiv> 8192"
abbreviation (input) IPV4_MAX_FRAG_DATAGRAMS :: nat where "IPV4_MAX_FRAG_DATAGRAMS \<equiv> 4"
abbreviation (input) IPV4_FRAG_TIME_TO_LIVE :: systime_t where "IPV4_FRAG_TIME_TO_LIVE \<equiv> 15000"
abbreviation (input) SIZEOF_IPV4_HOLE_DESC :: nat where "SIZEOF_IPV4_HOLE_DESC \<equiv> 6"

text \<open>A hole descriptor, as it is stored in the six bytes of memory it occupies.\<close>

record Ipv4HoleDesc =
  hfirst :: u16
  hlast :: u16
  hnext :: u16

record Ipv4FragDesc =
  fragTimestamp :: systime_t
  fragHeaderLength :: nat
  fragDataLen :: nat
  firstHole :: u16
  fragBuffer :: NetBuffer

text \<open>Members of the header of the packet, a list of bytes.\<close>

definition ip4_headerLength :: "u8 list \<Rightarrow> nat" where "ip4_headerLength p = unat (p ! 0 AND 0x0F) * 4"
definition ip4_fragmentOffset :: "u8 list \<Rightarrow> u16" where "ip4_fragmentOffset p = of_be16 (p ! 6) (p ! 7)"

definition ip4_same :: "u8 list \<Rightarrow> u8 list \<Rightarrow> bool" where
  "ip4_same d p \<longleftrightarrow> take 4 (drop 12 d) = take 4 (drop 12 p) \<and> take 4 (drop 16 d) = take 4 (drop 16 p) \<and>
     take 2 (drop 4 d) = take 2 (drop 4 p) \<and> d ! 9 = p ! 9"

section \<open>Hole descriptors\<close>

text \<open>
  The memory at the pointer \<open>ipv4FindHole\<close> returns, up to the end of its block. The fields are read
  and written through this pointer, in the byte order of the processor (little endian).
\<close>

definition ipv4FindHole :: "Ipv4FragDesc \<Rightarrow> u16 \<Rightarrow> (nat \<times> u8 list) option" where
  "ipv4FindHole frag offset = netBufferAt (fragBuffer frag) (fragHeaderLength frag + unat offset)"

definition hole_of :: "u8 list \<Rightarrow> Ipv4HoleDesc" where
  "hole_of m = \<lparr>hfirst = of_le16 (m ! 0) (m ! 1), hlast = of_le16 (m ! 2) (m ! 3), hnext = of_le16 (m ! 4) (m ! 5)\<rparr>"

definition hole_bytes :: "Ipv4HoleDesc \<Rightarrow> u8 list" where
  "hole_bytes h = le16 (hfirst h) @ le16 (hlast h) @ le16 (hnext h)"

text \<open>A descriptor that does not fit into its block cannot be accessed: \<open>None\<close>, the behaviour is undefined.\<close>

definition get_hole :: "Ipv4FragDesc \<Rightarrow> u16 \<Rightarrow> Ipv4HoleDesc option" where
  "get_hole frag offset =
     (case ipv4FindHole frag offset of
        None \<Rightarrow> None
      | Some (_, m) \<Rightarrow> if length m < SIZEOF_IPV4_HOLE_DESC then None else Some (hole_of m))"

definition put_hole :: "Ipv4FragDesc \<Rightarrow> u16 \<Rightarrow> (Ipv4HoleDesc \<Rightarrow> Ipv4HoleDesc) \<Rightarrow> Ipv4FragDesc option" where
  "put_hole frag offset f =
     (case get_hole frag offset of
        None \<Rightarrow> None
      | Some h \<Rightarrow> Some (frag\<lparr>fragBuffer :=
          netBufferPoke (fragBuffer frag) (fragHeaderLength frag + unat offset) (hole_bytes (f h))\<rparr>))"

text \<open>Setting the link that points to the current hole: in the previous descriptor or in the list head.\<close>

definition set_link :: "u16 option \<Rightarrow> u16 \<Rightarrow> Ipv4FragDesc \<Rightarrow> Ipv4FragDesc option" where
  "set_link prev v frag =
     (case prev of
        None \<Rightarrow> Some (frag\<lparr>firstHole := v\<rparr>)
      | Some p \<Rightarrow> put_hole frag p (\<lambda>h. h\<lparr>hnext := v\<rparr>))"

definition get_link :: "u16 option \<Rightarrow> Ipv4FragDesc \<Rightarrow> u16 option" where
  "get_link prev frag =
     (case prev of
        None \<Rightarrow> Some (firstHole frag)
      | Some p \<Rightarrow> map_option hnext (get_hole frag p))"

text \<open>Creating the descriptor of the hole from \<open>first\<close> to \<open>lst\<close> behind the previous one.\<close>

definition new_hole :: "u16 option \<Rightarrow> u16 \<Rightarrow> u16 \<Rightarrow> Ipv4FragDesc \<Rightarrow> Ipv4FragDesc option" where
  "new_hole prev first lst frag =
     Option.bind (put_hole frag first (\<lambda>h. h\<lparr>hfirst := first, hlast := lst\<rparr>)) (\<lambda>frag.
     Option.bind (get_link prev frag) (\<lambda>n.
     Option.bind (put_hole frag first (\<lambda>h. h\<lparr>hnext := n\<rparr>)) (\<lambda>frag.
     Option.bind (get_hole frag first) (\<lambda>h.
     set_link prev (hfirst h) frag))))"

text \<open>The fragment fills a part of the current hole: the descriptor is removed and up to two new ones are created.\<close>

definition fill_hole :: "u16 \<Rightarrow> u16 \<Rightarrow> bool \<Rightarrow> Ipv4HoleDesc \<Rightarrow> u16 option \<Rightarrow> Ipv4FragDesc \<Rightarrow> (u16 option \<times> Ipv4FragDesc) option" where
  "fill_hole dataFirst dataLast mf hole prev frag =
     Option.bind (set_link prev (hnext hole) frag) (\<lambda>frag.
     Option.bind (if dataFirst > hfirst hole
        then map_option (\<lambda>frag. (Some (hfirst hole), frag)) (new_hole prev (hfirst hole) dataFirst frag)
        else Some (prev, frag)) (\<lambda>(prev, frag).
     if dataLast < hlast hole \<and> mf
     then map_option (\<lambda>frag. (Some dataLast, frag)) (new_hole prev dataLast (hlast hole) frag)
     else Some (prev, frag)))"

partial_function (option) hole_loop ::
  "u16 \<Rightarrow> u16 \<Rightarrow> bool \<Rightarrow> u16 option \<Rightarrow> u16 \<Rightarrow> Ipv4FragDesc \<Rightarrow> Ipv4FragDesc option" where
  "hole_loop dataFirst dataLast mf prev cur frag =
     (if ipv4FindHole frag cur = None then Some frag
      else case get_hole frag cur of
        None \<Rightarrow> None
      | Some hole \<Rightarrow>
          (case (if dataFirst < hlast hole \<and> dataLast > hfirst hole
                 then fill_hole dataFirst dataLast mf hole prev frag
                 else Some (Some cur, frag)) of
             None \<Rightarrow> None
           | Some r \<Rightarrow>
               (case get_link (fst r) (snd r) of
                  None \<Rightarrow> None
                | Some n \<Rightarrow> hole_loop dataFirst dataLast mf (fst r) n (snd r))))"

declare hole_loop.simps [code]


section \<open>The reassembly queue\<close>

text \<open>Setting the length of the first chunk, and dropping a datagram.\<close>

definition fix_first :: "nat \<Rightarrow> NetBuffer \<Rightarrow> NetBuffer" where
  "fix_first n b = b\<lparr>chunk := (hd (chunk b))\<lparr>chLength := n\<rparr> # tl (chunk b)\<rparr>"

definition drop_frag :: "Ipv4FragDesc \<Rightarrow> ctx \<Rightarrow> Ipv4FragDesc \<times> ctx" where
  "drop_frag frag x = (let (_, x, b) = bufSetLength x (fragBuffer frag) 0 in (frag\<lparr>fragBuffer := b\<rparr>, x))"

text \<open>Preparing a free entry for the datagram of the packet.\<close>

definition init_frag :: "u8 list \<Rightarrow> Ipv4FragDesc \<Rightarrow> ctx \<Rightarrow> (bool \<times> Ipv4FragDesc \<times> ctx) option" where
  "init_frag packet frag x =
     (let frag = frag\<lparr>fragBuffer := (fragBuffer frag)\<lparr>maxChunkCount := 7\<rparr>\<rparr>;
          (e, x, b) = bufSetLength x (fragBuffer frag) (NET_MEM_POOL_BUFFER_SIZE + SIZEOF_IPV4_HOLE_DESC);
          frag = frag\<lparr>fragBuffer := b\<rparr>
      in if e \<noteq> NO_ERROR then let (frag, x) = drop_frag frag x in Some (False, frag, x)
         else
           let hl = ip4_headerLength packet;
               b = snd (netBufferWrite (fix_first hl b) 0 (take hl packet));
               (t, x) = osGetSystemTime x;
               frag = frag\<lparr>fragHeaderLength := hl, fragDataLen := 0, fragBuffer := b, fragTimestamp := t, firstHole := 0\<rparr>
           in map_option (\<lambda>frag. (True, frag, x))
                (put_hole frag 0 (\<lambda>h. \<lparr>hfirst = 0, hlast = IPV4_INFINITY, hnext = IPV4_INFINITY\<rparr>)))"

definition frag_matches :: "u8 list \<Rightarrow> Ipv4FragDesc \<Rightarrow> bool" where
  "frag_matches packet frag =
     (chunk (fragBuffer frag) \<noteq> [] \<and>
      (case netBufferAt (fragBuffer frag) 0 of None \<Rightarrow> False | Some (_, d) \<Rightarrow> ip4_same d packet))"

definition ipv4SearchFragQueue :: "u8 list \<Rightarrow> Ipv4FragDesc list \<Rightarrow> ctx \<Rightarrow> (nat option \<times> Ipv4FragDesc list \<times> ctx) option" where
  "ipv4SearchFragQueue packet q x =
     (case find (\<lambda>i. frag_matches packet (q ! i)) [0..<length q] of
        Some i \<Rightarrow> Some (Some i, q, x)
      | None \<Rightarrow>
          (case find (\<lambda>i. chunk (fragBuffer (q ! i)) = []) [0..<length q] of
             None \<Rightarrow> Some (None, q, x)
           | Some i \<Rightarrow>
               map_option (\<lambda>(ok, frag, x). (if ok then Some i else None, q[i := frag], x)) (init_frag packet (q ! i) x)))"

definition ipv4FlushFragQueue :: "Ipv4FragDesc list \<Rightarrow> ctx \<Rightarrow> Ipv4FragDesc list \<times> ctx" where
  "ipv4FlushFragQueue q x = fold (\<lambda>frag (fs, x). let (frag, x) = drop_frag frag x in (fs @ [frag], x)) q ([], x)"

section \<open>Reassembly\<close>

text \<open>The first fragment: the header is taken from it. \<open>None\<close>: the datagram is to be dropped.\<close>

definition take_header :: "u8 list \<Rightarrow> Ipv4FragDesc \<Rightarrow> bool \<times> Ipv4FragDesc" where
  "take_header packet frag =
     (let hl = ip4_headerLength packet;
          frag = frag\<lparr>fragHeaderLength := hl\<rparr>
      in if hl + fragDataLen frag > IPV4_MAX_FRAG_DATAGRAM_SIZE then (False, frag)
         else if hl > chSize (hd (chunk (fragBuffer frag))) then (False, frag)
         else (True, frag\<lparr>fragBuffer := snd (netBufferWrite (fix_first hl (fragBuffer frag)) 0 (take hl packet))\<rparr>))"

text \<open>Increasing the size of the buffer up to the end of the fragment.\<close>

definition extend_frag :: "u16 \<Rightarrow> Ipv4FragDesc \<Rightarrow> ctx \<Rightarrow> bool \<times> Ipv4FragDesc \<times> ctx" where
  "extend_frag dataLast frag x =
     (if unat dataLast > fragDataLen frag then
        if fragHeaderLength frag + unat dataLast > IPV4_MAX_FRAG_DATAGRAM_SIZE then (False, frag, x)
        else
          let (e, x, b) = bufSetLength x (fragBuffer frag) (fragHeaderLength frag + unat dataLast + SIZEOF_IPV4_HOLE_DESC);
              frag = frag\<lparr>fragBuffer := b\<rparr>
          in if e \<noteq> NO_ERROR then (False, frag, x) else (True, frag\<lparr>fragDataLen := unat dataLast\<rparr>, x)
      else (True, frag, x))"

text \<open>
  The end: when no hole is left, the datagram with its corrected header is handed to the upper
  layer and the entry is released. The result is the buffer that \<open>ipv4ProcessDatagram\<close> gets.
\<close>

definition finish_frag ::
  "(NetBuffer \<Rightarrow> ctx \<Rightarrow> ctx) \<Rightarrow> Ipv4FragDesc \<Rightarrow> ctx \<Rightarrow> NetBuffer option \<times> Ipv4FragDesc \<times> ctx" where
  "finish_frag deliver frag x =
     (if ipv4FindHole frag (firstHole frag) = None then
        let (e, x, b) = bufSetLength x (fragBuffer frag) (fragHeaderLength frag + fragDataLen frag);
            frag = frag\<lparr>fragBuffer := b\<rparr>;
            out = (if e \<noteq> NO_ERROR then None
                   else Some (netBufferPoke (netBufferPoke (netBufferPoke b 2
                          (be16 (of_nat (fragHeaderLength frag + fragDataLen frag)))) 6 [0, 0]) 10 [0, 0]));
            (frag, x) = (case out of None \<Rightarrow> (frag, x) | Some b \<Rightarrow> (frag\<lparr>fragBuffer := b\<rparr>, deliver b x));
            (frag, x) = drop_frag frag x
        in (out, frag, x)
      else (None, frag, x))"

definition add_fragment ::
  "(NetBuffer \<Rightarrow> ctx \<Rightarrow> ctx) \<Rightarrow> u8 list \<Rightarrow> nat \<Rightarrow> Ipv4FragDesc \<Rightarrow> ctx \<Rightarrow> (NetBuffer option \<times> Ipv4FragDesc \<times> ctx) option" where
  "add_fragment deliver packet len frag x =
     (let offset = ip4_fragmentOffset packet;
          dataFirst = (offset AND IPV4_OFFSET_MASK) * 8;
          dataLast = dataFirst + of_nat len;
          abandon = (\<lambda>frag x. let (frag, x) = drop_frag frag x in Some (None, frag, x));
          (ok, frag) = (if offset AND IPV4_OFFSET_MASK = 0 then take_header packet frag else (True, frag))
      in if \<not> ok then abandon frag x
         else
           let (ok, frag, x) = extend_frag dataLast frag x
           in if \<not> ok then abandon frag x
              else
                case hole_loop dataFirst dataLast (offset AND IPV4_FLAG_MF \<noteq> 0) None (firstHole frag) frag of
                  None \<Rightarrow> None
                | Some frag \<Rightarrow>
                    let b = snd (netBufferWrite (fragBuffer frag) (fragHeaderLength frag + unat dataFirst)
                              (take len (drop (ip4_headerLength packet) packet)))
                    in Some (finish_frag deliver (frag\<lparr>fragBuffer := b\<rparr>) x))"

definition ipv4ReassembleDatagram ::
  "(NetBuffer \<Rightarrow> ctx \<Rightarrow> ctx) \<Rightarrow> u8 list \<Rightarrow> nat \<Rightarrow> Ipv4FragDesc list \<Rightarrow> ctx \<Rightarrow> (NetBuffer option \<times> Ipv4FragDesc list \<times> ctx) option" where
  "ipv4ReassembleDatagram deliver packet len q x =
     (let len = len - ip4_headerLength packet
      in if ip4_fragmentOffset packet AND IPV4_FLAG_MF \<noteq> 0 \<and> len mod 8 \<noteq> 0 then Some (None, q, x)
         else
           case ipv4SearchFragQueue packet q x of
             None \<Rightarrow> None
           | Some (None, q, x) \<Rightarrow> Some (None, q, x)
           | Some (Some i, q, x) \<Rightarrow>
               map_option (\<lambda>(out, frag, x). (out, q[i := frag], x)) (add_fragment deliver packet len (q ! i) x))"

section \<open>Reassembly timeout\<close>

text \<open>
  Fragment zero has been received when the first hole does not start at zero: then the part before
  the hole is sent back in an ICMP message. The result is the buffer handed to \<open>icmpSendErrorMessage\<close>.
\<close>

definition expire_frag ::
  "(NetBuffer \<Rightarrow> ctx \<Rightarrow> ctx) \<Rightarrow> Ipv4FragDesc \<Rightarrow> ctx \<Rightarrow> (NetBuffer list \<times> Ipv4FragDesc \<times> ctx) option" where
  "expire_frag icmp frag x =
     map_option (\<lambda>(out, frag, x). let (frag, x) = drop_frag frag x in (out, frag, x))
       (if ipv4FindHole frag (firstHole frag) = None then Some ([], frag, x)
        else case get_hole frag (firstHole frag) of
          None \<Rightarrow> None
        | Some hole \<Rightarrow>
            if hfirst hole > 0 then
              let (e, x, b) = bufSetLength x (fragBuffer frag) (fragHeaderLength frag + unat (hfirst hole));
                  frag = frag\<lparr>fragBuffer := b\<rparr>
              in Some (if e = NO_ERROR then ([b], frag, icmp b x) else ([], frag, x))
            else Some ([], frag, x))"

fun frag_tick_loop ::
  "(NetBuffer \<Rightarrow> ctx \<Rightarrow> ctx) \<Rightarrow> systime_t \<Rightarrow> Ipv4FragDesc list \<Rightarrow> ctx \<Rightarrow> (NetBuffer list \<times> Ipv4FragDesc list \<times> ctx) option" where
  "frag_tick_loop icmp time [] x = Some ([], [], x)"
| "frag_tick_loop icmp time (frag # q) x =
     (case (if chunk (fragBuffer frag) \<noteq> [] \<and> time - fragTimestamp frag \<ge> IPV4_FRAG_TIME_TO_LIVE
            then expire_frag icmp frag x else Some ([], frag, x)) of
        None \<Rightarrow> None
      | Some (out, frag, x) \<Rightarrow>
          map_option (\<lambda>(outs, q, x). (out @ outs, frag # q, x)) (frag_tick_loop icmp time q x))"

definition ipv4FragTick ::
  "(NetBuffer \<Rightarrow> ctx \<Rightarrow> ctx) \<Rightarrow> Ipv4FragDesc list \<Rightarrow> ctx \<Rightarrow> (NetBuffer list \<times> Ipv4FragDesc list \<times> ctx) option" where
  "ipv4FragTick icmp q x = (let (time, x) = osGetSystemTime x in frag_tick_loop icmp time q x)"

section \<open>Receiving a packet\<close>

text \<open>
  The address filters of the interface are parameters: they answer whether the source and
  destination addresses are valid and whether the destination is a tentative address.
\<close>

record ip_filter =
  checkSourceAddr :: "u8 list \<Rightarrow> error_t"
  checkDestAddr :: "u8 list \<Rightarrow> error_t"
  isTentativeAddr :: "u8 list \<Rightarrow> bool"

definition ip4_totalLength :: "u8 list \<Rightarrow> u16" where "ip4_totalLength p = of_be16 (p ! 2) (p ! 3)"

definition ip4_valid :: "ip_filter \<Rightarrow> nat \<Rightarrow> u8 list \<Rightarrow> bool" where
  "ip4_valid flt addr p =
     (20 \<le> length p \<and> drop_bit 4 (p ! 0) = 4 \<and> 5 \<le> p ! 0 AND 0x0F \<and>
      ip4_headerLength p \<le> unat (ip4_totalLength p) \<and> unat (ip4_totalLength p) \<le> length p \<and>
      checkSourceAddr flt (take 4 (drop 12 p)) = NO_ERROR \<and> checkDestAddr flt (take 4 (drop 16 p)) = NO_ERROR \<and>
      \<not> isTentativeAddr flt (take 4 (drop 16 p)) \<and> ipCalcChecksum addr (take (ip4_headerLength p) p) = 0)"

text \<open>\<open>addr\<close> is the address of the packet in memory.\<close>

definition ipv4ProcessPacket ::
  "(NetBuffer \<Rightarrow> ctx \<Rightarrow> ctx) \<Rightarrow> ip_filter \<Rightarrow> nat \<Rightarrow> u8 list \<Rightarrow> Ipv4FragDesc list \<Rightarrow> ctx \<Rightarrow>
     (NetBuffer option \<times> Ipv4FragDesc list \<times> ctx) option" where
  "ipv4ProcessPacket deliver flt addr packet q x =
     (if ip4_valid flt addr packet then
        let len = unat (ip4_totalLength packet)
        in if ip4_fragmentOffset packet AND (IPV4_FLAG_MF OR IPV4_OFFSET_MASK) \<noteq> 0
           then ipv4ReassembleDatagram deliver packet len q x
           else
             let b = \<lparr>maxChunkCount = 1, chunk = [\<lparr>address = addr, storage = packet, chLength = len, chSize = 0\<rparr>]\<rparr>
             in Some (Some b, q, deliver b x)
      else Some (None, q, x))"

section \<open>Sending a packet\<close>

text \<open>The outside world with the packets handed to the link layer.\<close>

record ip_out =
  ox :: ctx
  wire :: "u8 list list"

definition ip4_header :: "IpPseudoHeader \<Rightarrow> u16 \<Rightarrow> u16 \<Rightarrow> u8 \<Rightarrow> nat \<Rightarrow> u8 list" where
  "ip4_header ph fragId fragOffset t len =
     [0x45, 0] @ be16 (of_nat len) @ be16 fragId @ be16 fragOffset @ [if t = 0 then 64 else t, phProtocol ph, 0, 0] @
     phSrcAddr ph @ phDestAddr ph"

definition ipv4SendPacket ::
  "(u8 list \<Rightarrow> ctx \<Rightarrow> error_t \<times> ctx) \<Rightarrow> IpPseudoHeader \<Rightarrow> u16 \<Rightarrow> u16 \<Rightarrow> NetBuffer \<Rightarrow> nat \<Rightarrow> u8 \<Rightarrow> ip_out \<Rightarrow>
     error_t \<times> NetBuffer \<times> ip_out" where
  "ipv4SendPacket transmit ph fragId fragOffset b off t w =
     (if off < 20 then (ERROR_INVALID_PARAMETER, b, w)
      else
        let off = off - 20;
            len = netBufferGetLength b - off;
            b = netBufferPoke b off (ip4_header ph fragId fragOffset t len);
            b = netBufferPoke b (off + 10) (le16 (ipCalcChecksumEx b off 20));
            packet = drop off (nb_bytes b);
            (e, x) = transmit packet (ox w)
        in (e, b, w\<lparr>ox := x, wire := (if e = NO_ERROR then wire w @ [packet] else wire w)\<rparr>))"

text \<open>
  The loop of \<open>ipv4FragmentDatagram\<close>. The result of \<open>netBufferConcat\<close> is ignored, as in the code.
\<close>

partial_function (option) fragment_loop ::
  "(u8 list \<Rightarrow> ctx \<Rightarrow> error_t \<times> ctx) \<Rightarrow> IpPseudoHeader \<Rightarrow> u16 \<Rightarrow> NetBuffer \<Rightarrow> nat \<Rightarrow> u8 \<Rightarrow> nat \<Rightarrow> nat \<Rightarrow> nat \<Rightarrow> nat \<Rightarrow>
     NetBuffer \<Rightarrow> ip_out \<Rightarrow> (error_t \<times> NetBuffer \<times> ip_out) option" where
  "fragment_loop transmit ph fragId payload payloadOffset t payloadLen maxSize fragOff offset frag w =
     (if offset < payloadLen then
        let s = bufSetLength (ox w) frag fragOff
        in if fst s \<noteq> NO_ERROR then Some (fst s, snd (snd s), w\<lparr>ox := fst (snd s)\<rparr>)
           else
             let lst = (payloadLen - offset \<le> maxSize);
                 len = (if lst then payloadLen - offset else maxSize);
                 frag = snd (netBufferConcat (snd (snd s)) payload (payloadOffset + offset) len);
                 r = ipv4SendPacket transmit ph fragId
                       (if lst then of_nat (offset div 8) else IPV4_FLAG_MF OR of_nat (offset div 8)) frag fragOff t
                       (w\<lparr>ox := fst (snd s)\<rparr>)
             in if fst r \<noteq> NO_ERROR then Some r
                else fragment_loop transmit ph fragId payload payloadOffset t payloadLen maxSize fragOff (offset + len)
                       (fst (snd r)) (snd (snd r))
      else Some (NO_ERROR, frag, w))"

declare fragment_loop.simps [code]

text \<open>\<open>linkMtu\<close> is at least \<open>IPV4_MINIMUM_MTU\<close> (68), so that the subtraction does not wrap.\<close>

definition ipv4FragmentDatagram ::
  "(u8 list \<Rightarrow> ctx \<Rightarrow> error_t \<times> ctx) \<Rightarrow> nat \<Rightarrow> IpPseudoHeader \<Rightarrow> u16 \<Rightarrow> NetBuffer \<Rightarrow> nat \<Rightarrow> u8 \<Rightarrow> ip_out \<Rightarrow>
     (error_t \<times> ip_out) option" where
  "ipv4FragmentDatagram transmit linkMtu ph fragId payload payloadOffset t w =
     (let payloadLen = netBufferGetLength payload - payloadOffset
      in case ipAllocBuffer (ox w) 0 of
           (None, x) \<Rightarrow> Some (ERROR_OUT_OF_MEMORY, w\<lparr>ox := x\<rparr>)
         | (Some (a, frag, fragOff), x) \<Rightarrow>
             let maxSize = linkMtu - 20;
                 maxSize = maxSize - maxSize mod 8
             in map_option (\<lambda>(e, frag, w). (e, w\<lparr>ox := bufFree (ox w) a frag\<rparr>))
                  (fragment_loop transmit ph fragId payload payloadOffset t payloadLen maxSize fragOff 0 frag (w\<lparr>ox := x\<rparr>)))"

text \<open>\<open>identification\<close>, a counter of the interface, is returned incremented.\<close>

definition ipv4SendDatagram ::
  "(u8 list \<Rightarrow> ctx \<Rightarrow> error_t \<times> ctx) \<Rightarrow> nat \<Rightarrow> u16 \<Rightarrow> IpPseudoHeader \<Rightarrow> NetBuffer \<Rightarrow> nat \<Rightarrow> u8 \<Rightarrow> ip_out \<Rightarrow>
     (error_t \<times> u16 \<times> ip_out) option" where
  "ipv4SendDatagram transmit linkMtu identification ph b off t w =
     (if netBufferGetLength b - off + 20 \<le> linkMtu
      then let (e, b, w) = ipv4SendPacket transmit ph identification 0 b off t w in Some (e, identification + 1, w)
      else map_option (\<lambda>(e, w). (e, identification + 1, w))
             (ipv4FragmentDatagram transmit linkMtu ph identification b off t w))"

end
