(* ===== verification/Ipv4_Holes.thy ===== *)
theory Ipv4_Holes
  imports Ipv4_Frag
begin

text \<open>
  The list of holes of a datagram under reassembly. The descriptors are stored in the reassembly
  buffer; this theory relates the memory of the buffer to a list of intervals and shows that the loop
  of \<open>ipv4ReassembleDatagram\<close> refines the removal of an interval from them (\<open>hole_loop_ok\<close>).
\<close>

section \<open>The memory behind the header\<close>

text \<open>
  The chunks after the first one are full blocks of the memory pool, all but the last one filled:
  \<open>n\<close> bytes altogether. Behind the header the buffer is one contiguous piece of memory, \<open>cmem\<close>.
\<close>

fun blocks :: "ChunkDesc list \<Rightarrow> nat \<Rightarrow> bool" where
  "blocks [] n \<longleftrightarrow> n = 0"
| "blocks (c # cs) n \<longleftrightarrow> length (storage c) = 1536 \<and> chSize c = 1536 \<and> 0 < n \<and> chLength c = min n 1536 \<and>
     blocks cs (n - 1536)"

abbreviation cmem :: "ChunkDesc list \<Rightarrow> u8 list" where "cmem cs \<equiv> concat (map storage cs)"

lemma blocks_length: "blocks cs n \<Longrightarrow> length (cmem cs) = 1536 * length cs \<and> n \<le> 1536 * length cs"
proof (induction cs arbitrary: n)
  case (Cons c cs)
  then have "n - 1536 \<le> 1536 * length cs" "length (cmem cs) = 1536 * length cs" by auto
  with Cons.prems show ?case by (auto simp: min_def split: if_splits)
qed simp

lemma blocks_wf: "blocks cs n \<Longrightarrow> \<forall>c \<in> set cs. chunk_wf c"
  by (induction cs arbitrary: n) (auto simp: chunk_wf_def)

lemma blocks_bytes: "blocks cs n \<Longrightarrow> chunks_bytes cs = take n (cmem cs)"
proof (induction cs arbitrary: n)
  case (Cons c cs)
  then have "chunks_bytes cs = take (n - 1536) (cmem cs)" by simp
  with Cons.prems show ?case by (auto simp: chunk_bytes_def [of c] min_def)
qed simp

lemma blocks_at:
  assumes "blocks cs n"
  shows "off < n \<Longrightarrow> \<exists>a. chunk_at cs off = Some (a, take (1536 - off mod 1536) (drop off (cmem cs)))"
    and "n \<le> off \<Longrightarrow> chunk_at cs off = None"
  using assms
proof (induction cs arbitrary: n off)
  case (Cons c cs)
  { case 1
    show ?case
    proof (cases "off < chLength c")
      case True
      then show ?thesis using 1 by (simp add: drop_append)
    next
      case False
      then have "1536 \<le> off" "off - 1536 < n - 1536" "chLength c = 1536" using 1 by (auto simp: min_def split: if_splits)
      with Cons.IH(1) [of "off - 1536" "n - 1536"] 1 show ?thesis by (simp add: le_mod_geq [symmetric] drop_append)
    qed
  next
    case 2
    then show ?case using Cons.IH(2) [of "n - 1536" "off - chLength c"] by (auto simp: min_def split: if_splits)
  }
qed simp_all

lemma blocks_poke:
  assumes "blocks cs n" and "off < n" and "off mod 1536 + length xs \<le> 1536"
  shows "cmem (poke_chunks cs off xs) = list_write (cmem cs) off xs \<and> blocks (poke_chunks cs off xs) n"
  using assms
proof (induction cs arbitrary: n off)
  case (Cons c cs)
  show ?case
  proof (cases "off < chLength c")
    case True
    then show ?thesis using Cons.prems by (simp add: chunk_put_def list_write_append1)
  next
    case False
    then have "1536 \<le> off" "off - 1536 < n - 1536" "chLength c = 1536" using Cons.prems by (auto simp: min_def split: if_splits)
    with Cons.IH [of "n - 1536" "off - 1536"] Cons.prems show ?thesis
      by (simp add: list_write_append2 le_mod_geq [symmetric])
  qed
qed simp

lemma list_write_span:
  assumes "i \<le> length xs" and "i + length src \<le> length xs + length zs"
  shows "list_write xs i (take (length xs - i) src) @ list_write zs 0 (drop (length xs - i) src)
    = list_write (xs @ zs) i src"
proof (cases "length src \<le> length xs - i")
  case False
  have "take (length xs - i) src @ drop (length xs - i) src @ ys = src @ ys" for ys
    by (simp add: append_assoc [symmetric] del: append_assoc)
  with False assms show ?thesis by (simp add: list_write_def add.commute)
qed (use assms in \<open>simp add: list_write_def\<close>)

lemma blocks_write:
  assumes "blocks cs n" and "off + length src \<le> n"
  shows "cmem (snd (write_loop cs off src)) = list_write (cmem cs) off src \<and> blocks (snd (write_loop cs off src)) n"
  using assms
proof (induction cs arbitrary: n off src)
  case (Cons c cs)
  note l = blocks_length [of cs "n - 1536"]
  show ?case
  proof (cases "src = []")
    case True
    then show ?thesis using Cons.prems blocks_length [OF Cons.prems(1)] by simp
  next
    case ne: False
    show ?thesis
    proof (cases "off < chLength c")
      case True
      define k where "k = min (length src) (chLength c - off)"
      have k: "off + k \<le> 1536" using Cons.prems(1) True by (auto simp: k_def)
      have "0 + length (drop k src) \<le> n - 1536"
        using Cons.prems True by (auto simp: k_def min_def split: if_splits)
      from Cons.IH [OF _ this] Cons.prems(1)
      have ih: "cmem (snd (write_loop cs 0 (drop k src))) = list_write (cmem cs) 0 (drop k src)"
        "blocks (snd (write_loop cs 0 (drop k src))) (n - 1536)" by auto
      have m: "list_write (storage c) off (take k src) @ list_write (cmem cs) 0 (drop k src)
        = list_write (storage c @ cmem cs) off src"
      proof (cases "length src \<le> chLength c - off")
        case True
        then have "k = length src" by (simp add: k_def)
        with k Cons.prems(1) show ?thesis by (simp add: list_write_append1)
      next
        case False
        with Cons.prems ne have "chLength c = 1536" by (auto simp: min_def split: if_splits)
        with False Cons.prems(1) k have "k = length (storage c) - off" by (auto simp: k_def min_def)
        moreover have "off + length src \<le> length (storage c) + length (cmem cs)"
          using Cons.prems l \<open>chLength c = 1536\<close> by auto
        ultimately show ?thesis using list_write_span [of off "storage c" src "cmem cs"] k Cons.prems(1) by simp
      qed
      have "write_loop (c # cs) off src = (k + fst (write_loop cs 0 (drop k src)),
          chunk_put c off (take k src) # snd (write_loop cs 0 (drop k src)))"
        using ne True by (simp add: k_def [symmetric] split_beta Let_def)
      with ih m k Cons.prems(1) show ?thesis by (simp add: chunk_put_def)
    next
      case False
      then have "chLength c < n" using ne Cons.prems(2) by (cases src) auto
      with False have o: "1536 \<le> off" "chLength c = 1536" using Cons.prems by (auto simp: min_def split: if_splits)
      with Cons.prems have "blocks cs (n - 1536)" "off - 1536 + length src \<le> n - 1536" by auto
      from Cons.IH [OF this] o ne Cons.prems(1) show ?thesis by (simp add: split_beta Let_def list_write_append2)
    qed
  qed
qed (simp add: list_write_def)


text \<open>Extending the buffer: the memory grows at its end.\<close>

lemma walk_blocks:
  assumes "blocks cs n" and "n \<le> m" and "cs \<noteq> []"
  shows "\<exists>cs'. set_length_walk cs m = (cs', m - 1536 * length cs, []) \<and> blocks cs' (min m (1536 * length cs)) \<and>
    cmem cs' = cmem cs \<and> length cs' = length cs"
  using assms
proof (induction cs arbitrary: n m)
  case (Cons c cs)
  show ?case
  proof (cases "cs = []")
    case True
    with Cons.prems show ?thesis by (auto simp: Let_def min_def)
  next
    case False
    with Cons.prems have n: "1536 < n" "chLength c = 1536" "blocks cs (n - 1536)" "n - 1536 \<le> m - 1536"
      by (cases cs; auto simp: min_def split: if_splits)+
    from Cons.IH [OF n(3,4) False] obtain cs' where cs': "set_length_walk cs (m - 1536) = (cs', m - 1536 - 1536 * length cs, [])"
      "blocks cs' (min (m - 1536) (1536 * length cs))" "cmem cs' = cmem cs" "length cs' = length cs" by blast
    have "\<not> m \<le> 1536" using n Cons.prems by auto
    moreover have "min m (1536 + 1536 * length cs) - 1536 = min (m - 1536) (1536 * length cs)" by auto
    ultimately show ?thesis using cs' n False Cons.prems(1) by (auto simp: Let_def)
  qed
qed simp

lemma add_chunks_blocks:
  assumes "add_chunks heapAlloc mem k m x = (NO_ERROR, x', cs)" and "\<And>a. length (mem a) = 1536"
  shows "blocks cs m"
  using assms(1)
proof (induction k arbitrary: m x x' cs)
  case 0
  then show ?case by (auto split: if_splits)
next
  case (Suc k)
  from Suc.prems show ?case
  proof (cases rule: add_chunks_SucE)
    case (added a q ds)
    from Suc.IH [OF added(3)] added assms(2) show ?thesis
      by (auto simp: NET_MEM_POOL_BUFFER_SIZE_def min_def split: if_splits)
  qed simp_all
qed

lemma add_chunks_succeeds:
  assumes "\<And>n. heapResult x n \<noteq> None" and "m \<le> 1536 * k"
  shows "\<exists>x' cs. add_chunks heapAlloc mem k m x = (NO_ERROR, x', cs) \<and> heapResult x' = heapResult x"
  using assms
proof (induction k arbitrary: m x)
  case (Suc k)
  obtain a where a: "heapResult x (calls x) = Some a" using Suc.prems(1) [of "calls x"] by auto
  let ?y = "(tick_call x)\<lparr>live := a # live x\<rparr>"
  have y: "heapResult ?y = heapResult x" by (simp add: tick_call_def)
  then have "\<And>n. heapResult ?y n \<noteq> None" using Suc.prems(1) by simp
  moreover have "m - min m 1536 \<le> 1536 * k" using Suc.prems(2) by auto
  ultimately obtain x' cs where ih: "add_chunks heapAlloc mem k (m - min m 1536) ?y = (NO_ERROR, x', cs)" "heapResult x' = heapResult x"
    using Suc.IH [of ?y "m - min m 1536"] y by auto
  have "heapAlloc x = (Some a, ?y)" using a by (simp add: heapAlloc_def)
  with ih show ?case by (simp add: NET_MEM_POOL_BUFFER_SIZE_def Let_def)
qed simp

lemma blocks_append:
  "blocks cs (1536 * length cs) \<Longrightarrow> blocks ds m \<Longrightarrow> blocks (cs @ ds) (1536 * length cs + m)"
  by (induction cs) auto

lemma bufSetLength_grow:
  assumes b: "chunk b = hdr # cs" "blocks cs n" "0 < n" and m: "n \<le> m"
    and r: "bufSetLength x b (chLength hdr + m) = (NO_ERROR, x', b')"
  shows "\<exists>cs' ext. b' = b\<lparr>chunk := hdr # cs'\<rparr> \<and> blocks cs' m \<and> cmem cs' = cmem cs @ ext"
proof -
  have ne: "cs \<noteq> []" using b(2,3) by auto
  from walk_blocks [OF b(2) m ne] obtain cs1 where w: "set_length_walk cs m = (cs1, m - 1536 * length cs, [])"
    "blocks cs1 (min m (1536 * length cs))" "cmem cs1 = cmem cs" "length cs1 = length cs" by blast
  have w': "set_length_walk (chunk b) (chLength hdr + m) = (hdr # cs1, m - 1536 * length cs, [])"
    using b ne m w(1) by (simp add: Let_def)
  show ?thesis
  proof (cases "m \<le> 1536 * length cs")
    case True
    with r w w' show ?thesis by (auto simp: bufSetLength_def netBufferSetLength_def min_def)
  next
    case False
    with r w' obtain ds where ds: "add_chunks heapAlloc (heapMem x) (maxChunkCount b - Suc (length cs1)) (m - 1536 * length cs) x
        = (NO_ERROR, x', ds)" "b' = b\<lparr>chunk := hdr # cs1 @ ds\<rparr>"
      by (auto simp: bufSetLength_def netBufferSetLength_def split: prod.splits)
    from add_chunks_blocks [OF ds(1)] have "blocks ds (m - 1536 * length cs)" by simp
    with blocks_append [of cs1 ds "m - 1536 * length cs"] False w(2,4) have "blocks (cs1 @ ds) m" by (simp add: min_def)
    with ds(2) w(3) show ?thesis by auto
  qed
qed

lemma bufSetLength_succeeds:
  assumes b: "chunk b = hdr # cs" "blocks cs n" "0 < n" and m: "n \<le> m"
    and x: "\<And>k. heapResult x k \<noteq> None" and k: "m \<le> 1536 * (maxChunkCount b - 1)"
  shows "\<exists>x' b'. bufSetLength x b (chLength hdr + m) = (NO_ERROR, x', b') \<and> heapResult x' = heapResult x"
proof -
  have ne: "cs \<noteq> []" using b(2,3) by auto
  from walk_blocks [OF b(2) m ne] obtain cs1 where w: "set_length_walk cs m = (cs1, m - 1536 * length cs, [])"
    "length cs1 = length cs" by blast
  have w': "set_length_walk (chunk b) (chLength hdr + m) = (hdr # cs1, m - 1536 * length cs, [])"
    using b ne m w(1) by (simp add: Let_def)
  have "m - 1536 * length cs \<le> 1536 * (maxChunkCount b - Suc (length cs))" using k by (simp add: diff_mult_distrib2)
  from add_chunks_succeeds [OF x this, of "heapMem x"] w' w(2) show ?thesis
    by (auto simp: bufSetLength_def netBufferSetLength_def)
qed


section \<open>Hole descriptors in memory\<close>

definition frag_ok :: "Ipv4FragDesc \<Rightarrow> bool" where
  "frag_ok frag \<longleftrightarrow>
     (case chunk (fragBuffer frag) of
        [] \<Rightarrow> False
      | hdr # cs \<Rightarrow> length (storage hdr) = 1536 \<and> chSize hdr = 1536 \<and> chLength hdr = fragHeaderLength frag \<and>
          20 \<le> fragHeaderLength frag \<and> fragHeaderLength frag \<le> 60 \<and> blocks cs (fragDataLen frag + 6)) \<and>
     maxChunkCount (fragBuffer frag) = 7"

definition fmem :: "Ipv4FragDesc \<Rightarrow> u8 list" where
  "fmem frag = cmem (tl (chunk (fragBuffer frag)))"

definition hole_at :: "Ipv4FragDesc \<Rightarrow> u16 \<Rightarrow> Ipv4HoleDesc" where
  "hole_at frag off = hole_of (drop (unat off) (fmem frag))"

text \<open>Everything but the memory behind the header and the head of the hole list is the same.\<close>

definition same_frag :: "Ipv4FragDesc \<Rightarrow> Ipv4FragDesc \<Rightarrow> bool" where
  "same_frag frag frag' \<longleftrightarrow> fragHeaderLength frag' = fragHeaderLength frag \<and> fragDataLen frag' = fragDataLen frag \<and>
     fragTimestamp frag' = fragTimestamp frag \<and> length (fmem frag') = length (fmem frag) \<and>
     chunk (fragBuffer frag') \<noteq> [] \<and> hd (chunk (fragBuffer frag')) = hd (chunk (fragBuffer frag))"

lemma same_frag_refl: "frag_ok frag \<Longrightarrow> same_frag frag frag"
  by (auto simp: same_frag_def frag_ok_def)

lemma same_frag_trans: "same_frag f g \<Longrightarrow> same_frag g h \<Longrightarrow> same_frag f h"
  by (simp add: same_frag_def)

lemma frag_okE:
  assumes "frag_ok frag"
  obtains hdr cs where "chunk (fragBuffer frag) = hdr # cs" "length (storage hdr) = 1536" "chSize hdr = 1536"
    "chLength hdr = fragHeaderLength frag" "20 \<le> fragHeaderLength frag" "fragHeaderLength frag \<le> 60"
    "blocks cs (fragDataLen frag + 6)" "fmem frag = cmem cs" "maxChunkCount (fragBuffer frag) = 7"
  using assms by (auto simp: frag_ok_def fmem_def split: list.splits)

lemma fmem_length: "frag_ok frag \<Longrightarrow> fragDataLen frag + 6 \<le> length (fmem frag) \<and> 1536 dvd length (fmem frag)"
  by (elim frag_okE) (use blocks_length in force)

lemma ipv4FindHole_None: "frag_ok frag \<Longrightarrow> ipv4FindHole frag off = None \<longleftrightarrow> fragDataLen frag + 6 \<le> unat off"
proof (elim frag_okE)
  fix hdr cs assume cs: "chunk (fragBuffer frag) = hdr # cs" "chLength hdr = fragHeaderLength frag"
    "blocks cs (fragDataLen frag + 6)"
  then have "ipv4FindHole frag off = chunk_at cs (unat off)" by (simp add: ipv4FindHole_def netBufferAt_def)
  with blocks_at [OF cs(3), of "unat off"] show ?thesis by (cases "unat off < fragDataLen frag + 6") auto
qed

lemma aligned_gap: "8 dvd a \<Longrightarrow> 8 dvd b \<Longrightarrow> a < b \<Longrightarrow> a + 8 \<le> (b::nat)"
  by (elim dvdE) simp

lemma aligned_room: "8 dvd off \<Longrightarrow> off mod 1536 + 6 \<le> (1536::nat)"
  using aligned_gap [of "off mod 1536" 1536] by (simp add: dvd_mod_iff)

lemma aligned_fits: "8 dvd off \<Longrightarrow> off < n \<Longrightarrow> 1536 dvd n \<Longrightarrow> off + 6 \<le> (n::nat)"
  using aligned_gap [of off n] dvd_trans [of 8 1536 n] by simp

lemma hole_of_take: "6 \<le> length m \<Longrightarrow> 6 \<le> k \<Longrightarrow> hole_of (take k m) = hole_of m"
  by (simp add: hole_of_def)

lemma get_hole_ok:
  assumes "frag_ok frag" and "8 dvd unat off" and "unat off < fragDataLen frag + 6"
  shows "get_hole frag off = Some (hole_at frag off)"
  using assms(1)
proof (rule frag_okE)
  fix hdr cs assume cs: "chunk (fragBuffer frag) = hdr # cs" "chLength hdr = fragHeaderLength frag"
    "blocks cs (fragDataLen frag + 6)" "fmem frag = cmem cs"
  from blocks_at(1) [OF cs(3) assms(3)] obtain a
    where a: "chunk_at cs (unat off) = Some (a, take (1536 - unat off mod 1536) (drop (unat off) (cmem cs)))" by blast
  have r: "unat off mod 1536 + 6 \<le> 1536" "unat off + 6 \<le> length (cmem cs)"
    using aligned_room [OF assms(2)] aligned_fits [OF assms(2)] fmem_length [OF assms(1)] assms(3) cs(4) by auto
  with a cs show ?thesis
    by (simp add: get_hole_def ipv4FindHole_def netBufferAt_def hole_at_def hole_of_take)
qed

lemma put_hole_ok:
  assumes ok: "frag_ok frag" and al: "8 dvd unat off" and off: "unat off < fragDataLen frag + 6"
  shows "\<exists>frag'. put_hole frag off f = Some frag' \<and> frag_ok frag' \<and> same_frag frag frag' \<and> firstHole frag' = firstHole frag \<and>
    fmem frag' = list_write (fmem frag) (unat off) (hole_bytes (f (hole_at frag off)))"
  using ok
proof (rule frag_okE)
  fix hdr cs assume cs: "chunk (fragBuffer frag) = hdr # cs" "length (storage hdr) = 1536" "chSize hdr = 1536"
    "chLength hdr = fragHeaderLength frag" "20 \<le> fragHeaderLength frag" "fragHeaderLength frag \<le> 60"
    "blocks cs (fragDataLen frag + 6)" "fmem frag = cmem cs" "maxChunkCount (fragBuffer frag) = 7"
  let ?xs = "hole_bytes (f (hole_at frag off))"
  have l: "length ?xs = 6" by (simp add: hole_bytes_def)
  from blocks_poke [OF cs(7) off, of ?xs] aligned_room [OF al]
  have p: "cmem (poke_chunks cs (unat off) ?xs) = list_write (cmem cs) (unat off) ?xs"
    "blocks (poke_chunks cs (unat off) ?xs) (fragDataLen frag + 6)" by (simp_all add: l)
  have "unat off + 6 \<le> length (cmem cs)"
    using aligned_fits [OF al] fmem_length [OF ok] off cs(8) by auto
  with p cs l show ?thesis
    by (auto simp: put_hole_def get_hole_ok [OF ok al off] netBufferPoke_def frag_ok_def same_frag_def fmem_def)
qed

lemma hole_of_bytes: "hole_of (hole_bytes h @ m) = h"
  by (simp add: hole_of_def hole_bytes_def le16_def)

lemma hole_at_write:
  assumes "fmem frag' = list_write (fmem frag) (unat off) (hole_bytes h)" and "unat off + 6 \<le> length (fmem frag)"
  shows "hole_at frag' off = h"
    and "unat p + 6 \<le> unat off \<or> unat off + 6 \<le> unat p \<Longrightarrow> unat p + 6 \<le> length (fmem frag) \<Longrightarrow> hole_at frag' p = hole_at frag p"
proof -
  have l: "length (hole_bytes h) = 6" by (simp add: hole_bytes_def)
  show "hole_at frag' off = h" using assms by (simp add: hole_at_def list_write_def hole_of_bytes)
  assume "unat p + 6 \<le> unat off \<or> unat off + 6 \<le> unat p" "unat p + 6 \<le> length (fmem frag)"
  with assms l show "hole_at frag' p = hole_at frag p"
    by (auto simp: hole_at_def hole_of_def nth_list_write)
qed


section \<open>The list of holes\<close>

text \<open>
  \<open>hole_path h v hs w\<close>: following the links from offset \<open>v\<close> one meets the holes \<open>hs\<close>, pairs of
  first and last, and ends at offset \<open>w\<close>.
\<close>

primrec hole_path :: "(u16 \<Rightarrow> Ipv4HoleDesc) \<Rightarrow> u16 \<Rightarrow> (u16 \<times> u16) list \<Rightarrow> u16 \<Rightarrow> bool" where
  "hole_path h v [] w \<longleftrightarrow> v = w"
| "hole_path h v (ab # hs) w \<longleftrightarrow> v = fst ab \<and> hfirst (h v) = fst ab \<and> hlast (h v) = snd ab \<and> hole_path h (hnext (h v)) hs w"

abbreviation holes_to :: "Ipv4FragDesc \<Rightarrow> (u16 \<times> u16) list \<Rightarrow> u16 \<Rightarrow> bool" where
  "holes_to frag hs w \<equiv> hole_path (hole_at frag) (firstHole frag) hs w"

definition slot_ok :: "Ipv4FragDesc \<Rightarrow> u16 \<Rightarrow> bool" where
  "slot_ok frag a \<longleftrightarrow> 8 dvd unat a \<and> unat a \<le> fragDataLen frag"

definition wf_holes :: "Ipv4FragDesc \<Rightarrow> (u16 \<times> u16) list \<Rightarrow> bool" where
  "wf_holes frag hs \<longleftrightarrow> sorted_wrt (\<lambda>h k. snd h \<le> fst k) hs \<and> (\<forall>h \<in> set hs. fst h < snd h \<and> slot_ok frag (fst h))"

text \<open>The memory changes at most in the descriptors at the offsets \<open>S\<close>.\<close>

definition touched :: "u16 set \<Rightarrow> Ipv4FragDesc \<Rightarrow> Ipv4FragDesc \<Rightarrow> bool" where
  "touched S f g \<longleftrightarrow> (\<forall>p < length (fmem f). (\<forall>s \<in> S. p < unat s \<or> unat s + 6 \<le> p) \<longrightarrow> fmem g ! p = fmem f ! p)"

definition prev_of :: "(u16 \<times> u16) list \<Rightarrow> u16 option" where
  "prev_of ds = (if ds = [] then None else Some (fst (last ds)))"

lemma hole_path_append: "hole_path h v (xs @ ys) w \<longleftrightarrow> (\<exists>u. hole_path h v xs u \<and> hole_path h u ys w)"
  by (induction xs arbitrary: v) auto

lemma hole_path_cong:
  "hole_path h v hs w \<Longrightarrow> (\<And>a. a \<in> fst ` set hs \<Longrightarrow> h' a = h a) \<Longrightarrow> hole_path h' v hs w"
  by (induction hs arbitrary: v) auto

lemma touched_refl: "touched S f f"
  by (simp add: touched_def)

lemma touched_trans:
  "touched S f g \<Longrightarrow> touched T g h \<Longrightarrow> same_frag f g \<Longrightarrow> S \<subseteq> U \<Longrightarrow> T \<subseteq> U \<Longrightarrow> touched U f h"
  unfolding touched_def same_frag_def by (metis subsetD)

lemma slot_same: "same_frag f g \<Longrightarrow> slot_ok g a \<longleftrightarrow> slot_ok f a"
  by (simp add: slot_ok_def same_frag_def)

lemma wf_holes_same: "same_frag f g \<Longrightarrow> wf_holes g hs \<longleftrightarrow> wf_holes f hs"
  by (simp add: wf_holes_def slot_same)

lemma slot_fits: "frag_ok frag \<Longrightarrow> slot_ok frag a \<Longrightarrow> unat a + 6 \<le> length (fmem frag)"
  using fmem_length [of frag] by (auto simp: slot_ok_def)

lemma touched_hole_at:
  assumes "touched S f g" and "frag_ok f" and "slot_ok f a" and "a \<notin> S" and "\<forall>s \<in> S. slot_ok f s" and "length (fmem g) = length (fmem f)"
  shows "hole_at g a = hole_at f a"
proof -
  have "unat a + 8 \<le> unat s \<or> unat s + 8 \<le> unat a" if "s \<in> S" for s
  proof -
    have "8 dvd unat s" "8 dvd unat a" "s \<noteq> a" using that assms(3,4,5) by (auto simp: slot_ok_def)
    then have "8 dvd unat s" "8 dvd unat a" "unat s \<noteq> unat a" by (simp_all add: word_unat_eq_iff [symmetric])
    then show ?thesis using aligned_gap [of "unat s" "unat a"] aligned_gap [of "unat a" "unat s"] by linarith
  qed
  then have "\<forall>s \<in> S. unat a + k < unat s \<or> unat s + 6 \<le> unat a + k" if "k < 6" for k
    using that by fastforce
  then have e: "fmem g ! (unat a + k) = fmem f ! (unat a + k)" if "k < 6" for k
    using that assms(1) slot_fits [OF assms(2,3)] by (simp add: touched_def)
  from e [of 0] e [of 1] e [of 2] e [of 3] e [of 4] e [of 5] slot_fits [OF assms(2,3)] assms(6) show ?thesis
    by (simp add: hole_at_def hole_of_def)
qed

lemma put_hole_slot:
  assumes "frag_ok frag" and "slot_ok frag a"
  shows "\<exists>frag'. put_hole frag a f = Some frag' \<and> frag_ok frag' \<and> same_frag frag frag' \<and> firstHole frag' = firstHole frag \<and>
    hole_at frag' a = f (hole_at frag a) \<and> touched {a} frag frag'"
proof -
  from assms(2) have "8 dvd unat a" "unat a < fragDataLen frag + 6" by (auto simp: slot_ok_def)
  from put_hole_ok [OF assms(1) this, of f] obtain frag' where p: "put_hole frag a f = Some frag'" "frag_ok frag'"
    "same_frag frag frag'" "firstHole frag' = firstHole frag"
    "fmem frag' = list_write (fmem frag) (unat a) (hole_bytes (f (hole_at frag a)))" by blast
  have "length (hole_bytes (f (hole_at frag a))) = 6" by (simp add: hole_bytes_def)
  with p(5) slot_fits [OF assms] have "touched {a} frag frag'" by (auto simp: touched_def nth_list_write)
  with p hole_at_write(1) [OF p(5) slot_fits [OF assms]] show ?thesis by blast
qed

lemma get_hole_slot: "frag_ok frag \<Longrightarrow> slot_ok frag a \<Longrightarrow> get_hole frag a = Some (hole_at frag a)"
  by (rule get_hole_ok) (auto simp: slot_ok_def)

text \<open>Reading and changing the link behind the holes \<open>ds\<close>.\<close>

lemma get_link_ok:
  assumes "frag_ok frag" and "holes_to frag ds u" and "\<forall>h \<in> set ds. slot_ok frag (fst h)"
  shows "get_link (prev_of ds) frag = Some u"
proof (cases ds rule: rev_cases)
  case Nil
  with assms(2) show ?thesis by (simp add: prev_of_def get_link_def)
next
  case (snoc xs h)
  with assms get_hole_slot [of frag "fst h"] show ?thesis by (auto simp: prev_of_def get_link_def hole_path_append)
qed

lemma set_link_ok:
  assumes ok: "frag_ok frag" and path: "holes_to frag ds u" and sl: "\<forall>h \<in> set ds. slot_ok frag (fst h)" and d: "distinct (map fst ds)"
  shows "\<exists>frag'. set_link (prev_of ds) v frag = Some frag' \<and> frag_ok frag' \<and> same_frag frag frag' \<and> holes_to frag' ds v \<and>
    touched (fst ` set ds) frag frag'"
proof (cases ds rule: rev_cases)
  case Nil
  from ok have "frag_ok (frag\<lparr>firstHole := v\<rparr>) \<and> same_frag frag (frag\<lparr>firstHole := v\<rparr>)"
    by (auto simp: frag_ok_def same_frag_def fmem_def split: list.splits)
  then show ?thesis using Nil by (auto simp: prev_of_def set_link_def touched_def fmem_def)
next
  case (snoc xs h)
  from put_hole_slot [OF ok, of "fst h"] sl snoc obtain frag' where p: "put_hole frag (fst h) (\<lambda>h. h\<lparr>hnext := v\<rparr>) = Some frag'"
    "frag_ok frag'" "same_frag frag frag'" "firstHole frag' = firstHole frag"
    "hole_at frag' (fst h) = (hole_at frag (fst h))\<lparr>hnext := v\<rparr>" "touched {fst h} frag frag'" by (auto; blast)
  have l: "length (fmem frag') = length (fmem frag)" using p(3) by (simp add: same_frag_def)
  have "fst h \<notin> fst ` set xs" "\<And>a. a \<in> fst ` set xs \<Longrightarrow> slot_ok frag a" "slot_ok frag (fst h)" using d sl snoc by auto
  then have "hole_at frag' a = hole_at frag a" if "a \<in> fst ` set xs" for a
    using that l by (intro touched_hole_at [OF p(6) ok]) blast+
  with path snoc have "hole_path (hole_at frag') (firstHole frag') xs (fst h)"
    by (auto simp: hole_path_append p(4) intro: hole_path_cong)
  with path p snoc have "holes_to frag' ds v" by (auto simp: hole_path_append)
  moreover have "touched (fst ` set ds) frag frag'" using touched_trans [OF p(6) touched_refl p(3), of "fst ` set ds"] snoc by auto
  ultimately show ?thesis using p snoc by (auto simp: prev_of_def set_link_def)
qed

lemma new_hole_ok:
  assumes ok: "frag_ok frag" and path: "holes_to frag ds u" and sl: "\<forall>h \<in> set ds. slot_ok frag (fst h)"
    and d: "distinct (map fst ds)" and a: "slot_ok frag a" "a \<notin> fst ` set ds"
  shows "\<exists>frag'. new_hole (prev_of ds) a b frag = Some frag' \<and> frag_ok frag' \<and> same_frag frag frag' \<and> holes_to frag' (ds @ [(a, b)]) u \<and>
    touched (insert a (fst ` set ds)) frag frag'"
proof -
  from put_hole_slot [OF ok a(1), of "\<lambda>h. h\<lparr>hfirst := a, hlast := b\<rparr>"] obtain f1
    where f1: "put_hole frag a (\<lambda>h. h\<lparr>hfirst := a, hlast := b\<rparr>) = Some f1" "frag_ok f1" "same_frag frag f1" "firstHole f1 = firstHole frag"
    "hole_at f1 a = (hole_at frag a)\<lparr>hfirst := a, hlast := b\<rparr>" "touched {a} frag f1" by blast
  have keep: "holes_to g ds u" if "touched {a} f g" "frag_ok f" "same_frag f g" "firstHole g = firstHole f" "holes_to f ds u" "same_frag frag f" for f g
  proof -
    have "length (fmem g) = length (fmem f)" using that(3) by (simp add: same_frag_def)
    then have "hole_at g s = hole_at f s" if "s \<in> fst ` set ds" for s
      using that \<open>touched {a} f g\<close> \<open>frag_ok f\<close> a sl slot_same [OF \<open>same_frag frag f\<close>] by (intro touched_hole_at) auto
    with that show ?thesis by (auto intro: hole_path_cong)
  qed
  have p1: "holes_to f1 ds u" by (rule keep [OF f1(6) ok f1(3,4) path same_frag_refl [OF ok]])
  have sl1: "\<forall>h \<in> set ds. slot_ok f1 (fst h)" "slot_ok f1 a" using sl a(1) by (simp_all add: slot_same [OF f1(3)])
  from put_hole_slot [OF f1(2) sl1(2), of "\<lambda>h. h\<lparr>hnext := u\<rparr>"] obtain f2
    where f2: "put_hole f1 a (\<lambda>h. h\<lparr>hnext := u\<rparr>) = Some f2" "frag_ok f2" "same_frag f1 f2" "firstHole f2 = firstHole f1"
    "hole_at f2 a = (hole_at f1 a)\<lparr>hnext := u\<rparr>" "touched {a} f1 f2" by blast
  have p2: "holes_to f2 ds u" by (rule keep [OF f2(6) f1(2) f2(3,4) p1 f1(3)])
  have s2: "same_frag frag f2" by (rule same_frag_trans [OF f1(3) f2(3)])
  have sl2: "\<forall>h \<in> set ds. slot_ok f2 (fst h)" "slot_ok f2 a" using sl a(1) by (simp_all add: slot_same [OF s2])
  from set_link_ok [OF f2(2) p2 sl2(1) d, of a] obtain f3
    where f3: "set_link (prev_of ds) a f2 = Some f3" "frag_ok f3" "same_frag f2 f3" "holes_to f3 ds a" "touched (fst ` set ds) f2 f3" by blast
  have "length (fmem f3) = length (fmem f2)" using f3(3) by (simp add: same_frag_def)
  then have "hole_at f3 a = hole_at f2 a"
    using touched_hole_at [OF f3(5) f2(2) sl2(2) a(2)] sl2(1) by auto
  with f3(4) f1(5) f2(5) have path3: "holes_to f3 (ds @ [(a, b)]) u" by (simp add: hole_path_append)
  have t2: "touched {a} frag f2" by (rule touched_trans [OF f1(6) f2(6) f1(3)]) auto
  have "touched (insert a (fst ` set ds)) frag f3" by (rule touched_trans [OF t2 f3(5) s2]) auto
  moreover have "new_hole (prev_of ds) a b frag = Some f3"
    using f1 f2 f3(1) get_link_ok [OF f1(2) p1 sl1(1)] get_hole_slot [OF f2(2) sl2(2)] by (simp add: new_hole_def)
  ultimately show ?thesis using f3(2) path3 same_frag_trans [OF s2 f3(3)] by blast
qed


section \<open>Filling holes\<close>

text \<open>What a fragment from \<open>df\<close> to \<open>dl\<close> leaves of a hole.\<close>

definition cut_hole :: "u16 \<Rightarrow> u16 \<Rightarrow> bool \<Rightarrow> u16 \<times> u16 \<Rightarrow> (u16 \<times> u16) list" where
  "cut_hole df dl mf h =
     (if df < snd h \<and> dl > fst h
      then (if df > fst h then [(fst h, df)] else []) @ (if dl < snd h \<and> mf then [(dl, snd h)] else [])
      else [h])"

definition cut_holes :: "u16 \<Rightarrow> u16 \<Rightarrow> bool \<Rightarrow> (u16 \<times> u16) list \<Rightarrow> (u16 \<times> u16) list" where
  "cut_holes df dl mf hs = concat (map (cut_hole df dl mf) hs)"

lemma wf_distinct: "wf_holes frag hs \<Longrightarrow> distinct (map fst hs)"
proof (induction hs)
  case (Cons h hs)
  then have "wf_holes frag hs" "\<forall>k \<in> set hs. fst h < fst k" by (auto simp: wf_holes_def)
  with Cons.IH show ?case by auto
qed simp

lemma wf_holes_append:
  "wf_holes f (xs @ ys) \<longleftrightarrow> wf_holes f xs \<and> wf_holes f ys \<and> (\<forall>x \<in> set xs. \<forall>y \<in> set ys. snd x \<le> fst y)"
  by (auto simp: wf_holes_def sorted_wrt_append)

lemma wf_holes_Cons:
  "wf_holes f (h # hs) \<longleftrightarrow> fst h < snd h \<and> slot_ok f (fst h) \<and> (\<forall>k \<in> set hs. snd h \<le> fst k) \<and> wf_holes f hs"
  by (auto simp: wf_holes_def)

lemma cut_hole_within: "k \<in> set (cut_hole df dl mf h) \<Longrightarrow> fst h \<le> fst k \<and> snd k \<le> snd h"
  by (auto simp: cut_hole_def split: if_splits)

lemma cut_hole_wf:
  assumes "wf_holes f (ds @ h # hs)" and "df < dl" and "mf \<longrightarrow> slot_ok f dl"
  shows "wf_holes f ((ds @ cut_hole df dl mf h) @ hs)"
proof -
  have "wf_holes f (cut_hole df dl mf h)" using assms by (auto simp: cut_hole_def wf_holes_append wf_holes_Cons) (simp add: wf_holes_def)+
  with assms(1) show ?thesis
    by (auto simp: wf_holes_append wf_holes_Cons dest!: cut_hole_within intro: order_trans)
qed

text \<open>One iteration: the hole behind \<open>ds\<close> is replaced by what is left of it.\<close>

lemma fill_hole_ok:
  assumes ok: "frag_ok frag" and path: "holes_to frag (ds @ h # hs) w" and wf: "wf_holes frag (ds @ h # hs)"
    and cut: "df < snd h" "fst h < dl" and df: "df < dl" and dl: "mf \<longrightarrow> slot_ok frag dl"
  shows "\<exists>frag'. fill_hole df dl mf (hole_at frag (fst h)) (prev_of ds) frag = Some (prev_of (ds @ cut_hole df dl mf h), frag') \<and>
    frag_ok frag' \<and> same_frag frag frag' \<and> holes_to frag' ((ds @ cut_hole df dl mf h) @ hs) w \<and>
    touched (fst ` set ds \<union> fst ` set (cut_hole df dl mf h)) frag frag'"
proof -
  obtain a b where h: "h = (a, b)" by fastforce
  define n where "n = hnext (hole_at frag a)"
  from path h have pd: "holes_to frag ds a" and ph: "hfirst (hole_at frag a) = a" "hlast (hole_at frag a) = b"
    and pn: "hole_path (hole_at frag) n hs w" by (auto simp: hole_path_append n_def)
  have sl: "\<forall>h \<in> set (ds @ h # hs). slot_ok frag (fst h)" and d: "distinct (map fst (ds @ h # hs))"
    using wf wf_distinct [OF wf] by (auto simp: wf_holes_def)
  have less: "fst k < a" if "k \<in> set ds" for k using that wf h
    by (auto simp: wf_holes_append wf_holes_Cons wf_holes_def [of _ ds] intro: order.strict_trans2)
  have more: "b \<le> fst k" if "k \<in> set hs" for k using that wf h by (auto simp: wf_holes_append wf_holes_Cons)
  have ab: "a < b" using wf h by (simp add: wf_holes_append wf_holes_Cons)
  have sd: "\<forall>h \<in> set ds. slot_ok frag (fst h)" "distinct (map fst ds)" using sl d by auto
  from set_link_ok [OF ok pd sd, of n]
  obtain f1 where f1: "set_link (prev_of ds) n frag = Some f1" "frag_ok f1" "same_frag frag f1" "holes_to f1 ds n"
    "touched (fst ` set ds) frag f1" by auto
  define xs where "xs = (if df > a then [(a, df)] else [])"
  have "\<exists>f2. (if df > a then map_option (\<lambda>frag. (Some a, frag)) (new_hole (prev_of ds) a df f1) else Some (prev_of ds, f1))
        = Some (prev_of (ds @ xs), f2) \<and> frag_ok f2 \<and> same_frag f1 f2 \<and> holes_to f2 (ds @ xs) n \<and> touched (fst ` set (ds @ xs)) f1 f2"
  proof (cases "df > a")
    case True
    have "\<forall>h \<in> set ds. slot_ok f1 (fst h)" "slot_ok f1 a" "a \<notin> fst ` set ds"
      using sl h less by (auto simp: slot_same [OF f1(3)])
    from new_hole_ok [OF f1(2,4) this(1) sd(2) this(2,3), of df] True show ?thesis
      by (auto simp: xs_def prev_of_def [of "ds @ _"])
  qed (use f1 same_frag_refl in \<open>auto simp: xs_def touched_refl\<close>)
  then obtain f2 where f2: "(if df > a then map_option (\<lambda>frag. (Some a, frag)) (new_hole (prev_of ds) a df f1) else Some (prev_of ds, f1))
      = Some (prev_of (ds @ xs), f2)" "frag_ok f2" "same_frag f1 f2" "holes_to f2 (ds @ xs) n" "touched (fst ` set (ds @ xs)) f1 f2" by blast
  have s2: "same_frag frag f2" by (rule same_frag_trans [OF f1(3) f2(3)])
  have t2: "touched (fst ` set (ds @ xs)) frag f2" by (rule touched_trans [OF f1(5) f2(5) f1(3)]) auto
  define ys where "ys = (if dl < b \<and> mf then [(dl, b)] else [])"
  have "\<exists>f3. (if dl < b \<and> mf then map_option (\<lambda>frag. (Some dl, frag)) (new_hole (prev_of (ds @ xs)) dl b f2) else Some (prev_of (ds @ xs), f2))
        = Some (prev_of (ds @ xs @ ys), f3) \<and> frag_ok f3 \<and> same_frag f2 f3 \<and> holes_to f3 (ds @ xs @ ys) n \<and> touched (fst ` set (ds @ xs @ ys)) f2 f3"
  proof (cases "dl < b \<and> mf")
    case True
    have "\<forall>h \<in> set (ds @ xs). slot_ok f2 (fst h)" "slot_ok f2 dl" "dl \<notin> fst ` set (ds @ xs)" "distinct (map fst (ds @ xs))"
      using sl h less True dl df cut sd by (auto simp: slot_same [OF s2] xs_def dest: less_trans)
    from new_hole_ok [OF f2(2,4) this(1,4,2,3), of b] True show ?thesis
      by (auto simp: ys_def prev_of_def [of "ds @ xs @ _"])
  qed (use f2 same_frag_refl in \<open>auto simp: ys_def touched_refl\<close>)
  then obtain f3 where f3: "(if dl < b \<and> mf then map_option (\<lambda>frag. (Some dl, frag)) (new_hole (prev_of (ds @ xs)) dl b f2) else Some (prev_of (ds @ xs), f2))
      = Some (prev_of (ds @ xs @ ys), f3)" "frag_ok f3" "same_frag f2 f3" "holes_to f3 (ds @ xs @ ys) n" "touched (fst ` set (ds @ xs @ ys)) f2 f3" by blast
  have c: "cut_hole df dl mf h = xs @ ys" using cut h by (simp add: cut_hole_def xs_def ys_def)
  have s3: "same_frag frag f3" by (rule same_frag_trans [OF s2 f3(3)])
  have t3: "touched (fst ` set (ds @ xs @ ys)) frag f3" by (rule touched_trans [OF t2 f3(5) s2]) auto
  have "hole_at f3 s = hole_at frag s" if "s \<in> fst ` set hs" for s
  proof (rule touched_hole_at [OF t3 ok])
    show "slot_ok frag s" "\<forall>s \<in> fst ` set (ds @ xs @ ys). slot_ok frag s" using that sl h dl by (auto simp: xs_def ys_def)
    have "b \<le> s" using that more by auto
    then show "s \<notin> fst ` set (ds @ xs @ ys)" using ab less by (force simp: xs_def ys_def)
    show "length (fmem f3) = length (fmem frag)" using s3 by (simp add: same_frag_def)
  qed
  with pn f3(4) have "holes_to f3 ((ds @ xs @ ys) @ hs) w" by (auto simp only: hole_path_append intro: hole_path_cong)
  moreover have "fill_hole df dl mf (hole_at frag (fst h)) (prev_of ds) frag = Some (prev_of (ds @ cut_hole df dl mf h), f3)"
    unfolding fill_hole_def h fst_conv ph n_def [symmetric] f1(1) Option.bind.simps f2(1) split_conv f3(1) c [unfolded h] ..
  ultimately show ?thesis using f3(2) s3 t3 by (auto simp: c image_Un)
qed

lemma hole_loop_ok:
  assumes "frag_ok frag" and "holes_to frag ds cur" and "hole_path (hole_at frag) cur hs IPV4_INFINITY" and "wf_holes frag (ds @ hs)"
    and "df < dl" and "mf \<longrightarrow> slot_ok frag dl" and "fragDataLen frag + 6 \<le> 65535"
  shows "\<exists>frag'. hole_loop df dl mf (prev_of ds) cur frag = Some frag' \<and> frag_ok frag' \<and> same_frag frag frag' \<and>
    holes_to frag' (ds @ cut_holes df dl mf hs) IPV4_INFINITY \<and> wf_holes frag' (ds @ cut_holes df dl mf hs) \<and>
    touched (fst ` set ds \<union> fst ` set (cut_holes df dl mf hs)) frag frag'"
  using assms(1-4,6,7)
proof (induction hs arbitrary: ds cur frag)
  case Nil
  then have "ipv4FindHole frag cur = None" by (simp add: ipv4FindHole_None)
  with Nil show ?case by (subst hole_loop.simps) (simp add: cut_holes_def same_frag_refl touched_refl)
next
  case (Cons h hs)
  from Cons.prems(3) have cur: "cur = fst h" "hfirst (hole_at frag cur) = fst h" "hlast (hole_at frag cur) = snd h"
    "hole_path (hole_at frag) (hnext (hole_at frag cur)) hs IPV4_INFINITY" by auto
  have sl: "slot_ok frag cur" using Cons.prems(4) cur(1) by (simp add: wf_holes_append wf_holes_Cons)
  then have find: "ipv4FindHole frag cur \<noteq> None" using Cons.prems(1) by (simp add: ipv4FindHole_None slot_ok_def)
  define ds' where "ds' = ds @ cut_hole df dl mf h"
  obtain frag1 where f1: "(if df < snd h \<and> dl > fst h then fill_hole df dl mf (hole_at frag cur) (prev_of ds) frag else Some (Some cur, frag))
      = Some (prev_of ds', frag1)" "frag_ok frag1" "same_frag frag frag1" "holes_to frag1 (ds' @ hs) IPV4_INFINITY"
    "touched (fst ` set ds') frag frag1"
  proof (cases "df < snd h \<and> dl > fst h")
    case True
    have "holes_to frag (ds @ h # hs) IPV4_INFINITY" using Cons.prems(2,3) by (auto simp: hole_path_append)
    from fill_hole_ok [OF Cons.prems(1) this Cons.prems(4) _ _ assms(5) Cons.prems(5)] True cur(1) that show ?thesis
      by (auto simp: ds'_def image_Un)
  next
    case False
    then have "ds' = ds @ [h]" by (auto simp: ds'_def cut_hole_def)
    with False Cons.prems that [of frag] cur same_frag_refl show ?thesis
      by (auto simp: hole_path_append prev_of_def touched_refl)
  qed
  from f1(4) obtain n where n: "holes_to frag1 ds' n" "hole_path (hole_at frag1) n hs IPV4_INFINITY" by (auto simp: hole_path_append)
  have wf1: "wf_holes frag1 (ds' @ hs)"
    using cut_hole_wf [OF Cons.prems(4) assms(5) Cons.prems(5)] by (simp add: ds'_def wf_holes_same [OF f1(3)])
  have link: "get_link (prev_of ds') frag1 = Some n"
    using get_link_ok [OF f1(2) n(1)] wf1 by (auto simp: wf_holes_def)
  have "mf \<longrightarrow> slot_ok frag1 dl" "fragDataLen frag1 + 6 \<le> 65535" using Cons.prems(5,6) f1(3) by (auto simp: slot_same [OF f1(3)] same_frag_def)
  from Cons.IH [OF f1(2) n wf1 this] obtain frag' where f': "hole_loop df dl mf (prev_of ds') n frag1 = Some frag'" "frag_ok frag'"
    "same_frag frag1 frag'" "holes_to frag' (ds' @ cut_holes df dl mf hs) IPV4_INFINITY" "wf_holes frag' (ds' @ cut_holes df dl mf hs)"
    "touched (fst ` set ds' \<union> fst ` set (cut_holes df dl mf hs)) frag1 frag'" by blast
  have "hole_loop df dl mf (prev_of ds) cur frag = Some frag'"
    using find f1(1) link f'(1) by (subst hole_loop.simps) (auto simp: get_hole_slot [OF Cons.prems(1) sl] cur(2,3))
  moreover have "ds' @ cut_holes df dl mf hs = ds @ cut_holes df dl mf (h # hs)" by (simp add: ds'_def cut_holes_def)
  moreover have "touched (fst ` set ds' \<union> fst ` set (cut_holes df dl mf hs)) frag frag'"
    by (rule touched_trans [OF f1(5) f'(6) f1(3)]) auto
  ultimately show ?case using f'(2,4,5) same_frag_trans [OF f1(3) f'(3)] by (auto simp: ds'_def cut_holes_def image_Un Un_assoc)
qed

end
