(* ===== verification/Buffer_Memory.thy ===== *)
theory Buffer_Memory
  imports Tcp_Memory Ipv4_Holes
begin

text \<open>
  The memory of multi-part buffers: the blocks a buffer owns, what allocating and releasing it do to the blocks in use,
  and when an allocation succeeds.
\<close>

section \<open>Memory\<close>

text \<open>The blocks of a buffer: its own and those of its chunks.\<close>

lemma release_live: "live (release_chunks heapFree cs x) = fold remove1 (map address (filter (\<lambda>c. 0 < chSize c) cs)) (live x)"
  by (induction cs arbitrary: x) simp_all

lemma add_chunks_mset:
  assumes "add_chunks heapAlloc mem k n x = (e, x', cs)"
  shows "mset (live x') = mset (live x) + mset (map address (filter (\<lambda>c. 0 < chSize c) cs))"
  using assms
proof (induction k arbitrary: n x x' cs)
  case 0
  then show ?case by simp
next
  case (Suc k)
  from Suc.prems show ?case
  proof (cases rule: add_chunks_SucE)
    case failed
    then show ?thesis by (auto simp: heapAlloc_def tick_call_def split: option.splits)
  next
    case (added a q ds)
    have "mset (live q) = add_mset a (mset (live x))"
      using added(2) by (auto simp: heapAlloc_def tick_call_def split: option.splits)
    with Suc.IH [OF added(3)] added(4) show ?thesis by (simp add: NET_MEM_POOL_BUFFER_SIZE_def)
  qed simp
qed

lemma bufFree_mset:
  assumes "add_mset a (owned b) \<subseteq># mset (live x)"
  shows "mset (live (bufFree x a b)) = mset (live x) - add_mset a (owned b)"
proof -
  let ?l = "map address (filter (\<lambda>c. 0 < chSize c) (chunk b))"
  have "live (bufFree x a b) = fold remove1 (?l @ [a]) (live x)"
    by (simp add: bufFree_def netBufferFree_def netBufferSetLength_0 release_live)
  moreover have "mset (?l @ [a]) = add_mset a (owned b)" by (simp add: owned_def)
  ultimately show ?thesis using remove_mset [of "?l @ [a]" "live x"] assms by simp
qed

lemma bufAlloc_shape:
  assumes "heapAlloc x = (Some a, y)" and "c = \<lparr>address = a + CHUNKED_BUFFER_HEADER_SIZE, storage = drop CHUNKED_BUFFER_HEADER_SIZE (heapMem x a),
      chLength = 1456, chSize = 0\<rparr>"
  shows "bufAlloc x n =
    (if n \<le> 1456 then (Some (a, \<lparr>maxChunkCount = 9, chunk = if n = 0 then [] else [c\<lparr>chLength := n\<rparr>]\<rparr>), y)
     else case add_chunks heapAlloc (heapMem x) 8 (n - 1456) y of
       (e, z, cs) \<Rightarrow> if e \<noteq> NO_ERROR then (None, bufFree z a \<lparr>maxChunkCount = 9, chunk = c # cs\<rparr>)
                    else (Some (a, \<lparr>maxChunkCount = 9, chunk = c # cs\<rparr>), z))"
  using assms
  by (auto simp: bufAlloc_def netBufferAlloc_def netBufferSetLength_def Let_def NET_MEM_POOL_BUFFER_SIZE_def
      CHUNKED_BUFFER_HEADER_SIZE_def MAX_CHUNK_COUNT_def bufFree_def netBufferFree_def split: prod.splits)

lemma heapAlloc_Some_live: "heapAlloc x = (Some a, y) \<Longrightarrow> mset (live y) = add_mset a (mset (live x))"
  by (auto simp: heapAlloc_def tick_call_def split: option.splits)

lemma heapAlloc_None_live: "heapAlloc x = (None, y) \<Longrightarrow> live y = live x"
  by (auto simp: heapAlloc_def tick_call_def split: option.splits)

lemma bufAlloc_result:
  assumes "bufAlloc x n = (r, x')"
  shows "(case r of None \<Rightarrow> mset (live x') = mset (live x)
    | Some (a, b) \<Rightarrow> nb_wf b \<and> length (nb_bytes b) = n \<and> (owned b = {#} \<longleftrightarrow> n \<le> 1456) \<and> mset (live x') = mset (live x) + add_mset a (owned b))"
proof (cases "heapAlloc x")
  case (Pair r1 y)
  show ?thesis
  proof (cases r1)
    case None
    then show ?thesis using assms Pair heapAlloc_None_live [of x y] by (simp add: bufAlloc_def netBufferAlloc_def)
  next
    case (Some a)
    define c :: ChunkDesc where "c = \<lparr>address = a + CHUNKED_BUFFER_HEADER_SIZE, storage = drop CHUNKED_BUFFER_HEADER_SIZE (heapMem x a),
      chLength = 1456, chSize = 0\<rparr>"
    have y: "mset (live y) = add_mset a (mset (live x))" using Pair Some heapAlloc_Some_live by simp
    have wf: "length (storage c) = 1456" by (simp add: c_def CHUNKED_BUFFER_HEADER_SIZE_def)
    note shape = bufAlloc_shape [OF Pair [unfolded Some] c_def, of n]
    show ?thesis
    proof (cases "n \<le> 1456")
      case True
      then show ?thesis using shape assms y wf
        by (auto simp: nb_wf_def chunk_wf_def nb_bytes_def chunk_bytes_def owned_def c_def)
    next
      case False
      obtain e z cs where ad: "add_chunks heapAlloc (heapMem x) 8 (n - 1456) y = (e, z, cs)" by (metis prod_cases3)
      let ?b = "\<lparr>maxChunkCount = 9, chunk = c # cs\<rparr>"
      have o: "mset (live z) = mset (live x) + add_mset a (owned ?b)"
        using add_chunks_mset [OF ad] y by (simp add: owned_def c_def)
      show ?thesis
      proof (cases "e = NO_ERROR")
        case True
        then have r: "r = Some (a, ?b)" "x' = z" using shape False ad assms by simp_all
        have "\<forall>c \<in> set cs. chunk_wf c" by (rule add_chunks_wf [OF ad]) (simp add: NET_MEM_POOL_BUFFER_SIZE_def)
        moreover have "sum_list (map chLength cs) = n - 1456" by (rule add_chunks_length [OF ad [unfolded True]])
        ultimately have "nb_wf ?b" "length (nb_bytes ?b) = n"
          using False wf by (simp_all add: nb_wf_def nb_bytes_def chunk_wf_def length_chunks_bytes chunk_bytes_def c_def)
        moreover have "owned ?b \<noteq> {#}"
        proof -
          have "blocks cs (n - 1456)" using add_chunks_blocks [OF ad [unfolded True]] by simp
          with False obtain d ds where "cs = d # ds" "chSize d = 1536" by (cases cs) auto
          then show ?thesis by (simp add: owned_def c_def)
        qed
        ultimately show ?thesis using o r False by simp
      next
        case f: False
        then have "r = None" "x' = bufFree z a ?b" using shape False ad assms by simp_all
        moreover have "add_mset a (owned ?b) \<subseteq># mset (live z)" by (simp add: o)
        ultimately show ?thesis using bufFree_mset o by simp
      qed
    qed
  qed
qed

lemma bufAlloc_succeeds:
  assumes "\<forall>k. heapResult x k \<noteq> None" and "n \<le> 13744"
  shows "\<exists>a b x'. bufAlloc x n = (Some (a, b), x') \<and> heapResult x' = heapResult x"
proof -
  obtain a where a: "heapResult x (calls x) = Some a" using assms(1) by auto
  define y where "y = (tick_call x)\<lparr>live := a # live x\<rparr>"
  have h: "heapAlloc x = (Some a, y)" "heapResult y = heapResult x" by (simp_all add: heapAlloc_def a y_def tick_call_def)
  from assms(1) h(2) have y: "\<And>k. heapResult y k \<noteq> None" by simp
  from add_chunks_succeeds [OF y, of "n - 1456" 8 "heapMem x"] assms(2)
  obtain z cs where "add_chunks heapAlloc (heapMem x) 8 (n - 1456) y = (NO_ERROR, z, cs)" "heapResult z = heapResult y"
    by (auto simp: le_diff_conv)
  then show ?thesis using bufAlloc_shape [OF h(1) refl, of n] h(2) by auto
qed

end
