(* ===== verification/Udp.thy ===== *)
theory Udp
  imports Tcp_Table Tcp_Send
begin

text \<open>
  The UDP module (\<open>core/udp.c\<close>): sending a datagram, delivering a received one to the receive queue of
  its socket or to the callbacks registered for its port, and reading from the queue.

  The state is the socket table with the world (\<open>net\<close>) and the callback table. A callback is a
  number; what the function behind it does to the state is the parameter \<open>callback\<close>. Of the buffers
  passed to \<open>udpSendDatagramEx\<close> the headers lie in one block, as in those of \<open>udpAllocBuffer\<close>; a received
  header that does not is read beyond its block, and the result is \<open>None\<close>.
\<close>

section \<open>The implementation\<close>

abbreviation (input) SIZEOF_UDP_HEADER :: nat where "SIZEOF_UDP_HEADER \<equiv> 8"
abbreviation (input) SIZEOF_SOCKET_QUEUE_ITEM :: nat where "SIZEOF_SOCKET_QUEUE_ITEM \<equiv> 64"
abbreviation (input) UDP_RX_QUEUE_SIZE :: nat where "UDP_RX_QUEUE_SIZE \<equiv> 4"
abbreviation (input) UDP_CALLBACK_TABLE_SIZE :: nat where "UDP_CALLBACK_TABLE_SIZE \<equiv> 10"
abbreviation (input) SOCKET_FLAG_PEEK :: u32 where "SOCKET_FLAG_PEEK \<equiv> 0x0200"
abbreviation (input) SOCKET_FLAG_DONT_ROUTE :: u32 where "SOCKET_FLAG_DONT_ROUTE \<equiv> 0x0400"

record UdpRxCallbackDesc =
  cbInterface :: "nat option"
  cbPort :: u16
  cbCallback :: "nat option"
  cbParam :: "nat option"

record stack =
  sn :: net
  udpCallbackTable :: "UdpRxCallbackDesc list"

type_synonym rx_callback =
  "nat \<Rightarrow> nat \<Rightarrow> IpPseudoHeader \<Rightarrow> u8 list \<Rightarrow> NetBuffer \<Rightarrow> nat \<Rightarrow> NetAncillaryData \<Rightarrow> nat option \<Rightarrow> stack \<Rightarrow> stack"

text \<open>\<open>mutexOk\<close>: the result of \<open>osCreateMutex\<close>.\<close>

definition udpInit :: "bool \<Rightarrow> stack \<Rightarrow> error_t \<times> stack" where
  "udpInit mutexOk st =
     (let w = sn st; st = st\<lparr>sn := w\<lparr>nx := (nx w)\<lparr>udpDynamicPort := 0\<rparr>\<rparr>\<rparr>
      in if \<not> mutexOk then (ERROR_OUT_OF_RESOURCES, st)
         else (NO_ERROR, st\<lparr>udpCallbackTable := replicate UDP_CALLBACK_TABLE_SIZE
                 \<lparr>cbInterface = None, cbPort = 0, cbCallback = None, cbParam = None\<rparr>\<rparr>))"

subsection \<open>Events\<close>

definition udpUpdateEvents :: "conn \<Rightarrow> conn" where
  "udpUpdateEvents c =
     (let s = sk c;
          ev = (if receiveQueue s \<noteq> [] then SOCKET_EVENT_RX_READY else 0) OR link_events (cx c) s;
          ev = ev AND eventMask s;
          s = s\<lparr>eventFlags := ev\<rparr>
      in if ev \<noteq> 0
         then c\<lparr>sk := s\<lparr>event := True, userEvent := map_option (\<lambda>_. True) (userEvent s)\<rparr>\<rparr>
         else c\<lparr>sk := s\<rparr>)"

subsection \<open>Callbacks\<close>

fun attach_loop :: "UdpRxCallbackDesc \<Rightarrow> UdpRxCallbackDesc list \<Rightarrow> UdpRxCallbackDesc list option" where
  "attach_loop d [] = None"
| "attach_loop d (e # es) = (if cbCallback e = None then Some (d # es) else map_option ((#) e) (attach_loop d es))"

definition udpAttachRxCallback :: "nat option \<Rightarrow> u16 \<Rightarrow> nat \<Rightarrow> nat option \<Rightarrow> stack \<Rightarrow> error_t \<times> stack" where
  "udpAttachRxCallback ifc port f param st =
     (case attach_loop \<lparr>cbInterface = ifc, cbPort = port, cbCallback = Some f, cbParam = param\<rparr> (udpCallbackTable st) of
        None \<Rightarrow> (ERROR_OUT_OF_RESOURCES, st)
      | Some t \<Rightarrow> (NO_ERROR, st\<lparr>udpCallbackTable := t\<rparr>))"

definition registered :: "nat option \<Rightarrow> u16 \<Rightarrow> UdpRxCallbackDesc \<Rightarrow> bool" where
  "registered ifc port e \<longleftrightarrow> cbCallback e \<noteq> None \<and> cbPort e = port \<and> cbInterface e = ifc"

fun detach_loop :: "nat option \<Rightarrow> u16 \<Rightarrow> error_t \<Rightarrow> UdpRxCallbackDesc list \<Rightarrow> error_t \<times> UdpRxCallbackDesc list" where
  "detach_loop ifc port err [] = (err, [])"
| "detach_loop ifc port err (e # es) =
     (if registered ifc port e
      then let (err, es) = detach_loop ifc port NO_ERROR es in (err, e\<lparr>cbCallback := None\<rparr> # es)
      else let (err, es) = detach_loop ifc port err es in (err, e # es))"

definition udpDetachRxCallback :: "nat option \<Rightarrow> u16 \<Rightarrow> stack \<Rightarrow> error_t \<times> stack" where
  "udpDetachRxCallback ifc port st =
     (let (err, t) = detach_loop ifc port ERROR_FAILURE (udpCallbackTable st) in (err, st\<lparr>udpCallbackTable := t\<rparr>))"

text \<open>The loop over the indices \<open>is\<close>; a callback may change the table.\<close>

fun invoke_loop :: "(nat \<Rightarrow> nat option \<Rightarrow> stack \<Rightarrow> stack) \<Rightarrow> nat \<Rightarrow> u16 \<Rightarrow> nat list \<Rightarrow> error_t \<times> stack \<Rightarrow> error_t \<times> stack" where
  "invoke_loop run ifc port [] r = r"
| "invoke_loop run ifc port (i # is) r =
     (let e = udpCallbackTable (snd r) ! i
      in case cbCallback e of
           Some f \<Rightarrow>
             if (cbInterface e = None \<or> cbInterface e = Some ifc) \<and> cbPort e = port
             then invoke_loop run ifc port is (NO_ERROR, run f (cbParam e) (snd r))
             else invoke_loop run ifc port is r
         | None \<Rightarrow> invoke_loop run ifc port is r)"

definition udpInvokeRxCallback ::
  "rx_callback \<Rightarrow> nat \<Rightarrow> IpPseudoHeader \<Rightarrow> u8 list \<Rightarrow> NetBuffer \<Rightarrow> nat \<Rightarrow> NetAncillaryData \<Rightarrow> stack \<Rightarrow> error_t \<times> stack" where
  "udpInvokeRxCallback callback ifc ph hdr b off anc st =
     invoke_loop (\<lambda>f. callback f ifc ph hdr b off anc) ifc (of_be16 (hdr ! 2) (hdr ! 3))
       [0..<UDP_CALLBACK_TABLE_SIZE] (ERROR_PORT_UNREACHABLE, st)"

subsection \<open>Receiving\<close>

definition dgram_matches :: "nat \<Rightarrow> IpPseudoHeader \<Rightarrow> u16 \<Rightarrow> u16 \<Rightarrow> Socket \<Rightarrow> bool" where
  "dgram_matches ifc ph sport dport s \<longleftrightarrow>
     sk_type s = SOCKET_TYPE_DGRAM \<and>
     (case sk_interface s of None \<Rightarrow> True | Some i \<Rightarrow> i = ifc) \<and>
     localPort s \<noteq> 0 \<and> localPort s = dport \<and>
     (remotePort s \<noteq> 0 \<longrightarrow> remotePort s = sport) \<and>
     (if phLength ph = SIZEOF_IPV4_PSEUDO_HEADER then
        address_filter 4 ipv4Addr (localIpAddr s) (phDestAddr ph) \<and>
        address_filter 4 ipv4Addr (remoteIpAddr s) (phSrcAddr ph)
      else if phLength ph = SIZEOF_IPV6_PSEUDO_HEADER then
        address_filter 16 ipv6Addr (localIpAddr s) (phDestAddr ph) \<and>
        address_filter 16 ipv6Addr (remoteIpAddr s) (phSrcAddr ph)
      else False)"

fun find_dgram :: "nat \<Rightarrow> IpPseudoHeader \<Rightarrow> u16 \<Rightarrow> u16 \<Rightarrow> Socket list \<Rightarrow> nat \<Rightarrow> nat option" where
  "find_dgram ifc ph sport dport [] i = None"
| "find_dgram ifc ph sport dport (s # ss) i =
     (if dgram_matches ifc ph sport dport s then Some i else find_dgram ifc ph sport dport ss (Suc i))"

text \<open>
  Appending a datagram to the queue of a socket. The result of the copy is ignored, as in the code.
  \<open>addr_of\<close> is an address of the family of the pseudo header.
\<close>

definition queue_addr :: "IpPseudoHeader \<Rightarrow> u8 list \<Rightarrow> IpAddr" where
  "queue_addr ph a = addr_of (if phLength ph = SIZEOF_IPV4_PSEUDO_HEADER then 4 else 16) a"

definition enqueue :: "IpPseudoHeader \<Rightarrow> u16 \<Rightarrow> NetBuffer \<Rightarrow> nat \<Rightarrow> nat \<Rightarrow> NetAncillaryData \<Rightarrow> conn \<Rightarrow> error_t \<times> conn" where
  "enqueue ph sport b off len anc c =
     (if receiveQueue (sk c) \<noteq> [] \<and> length (receiveQueue (sk c)) \<ge> UDP_RX_QUEUE_SIZE then (ERROR_RECEIVE_QUEUE_FULL, c)
      else case bufAlloc (cx c) (SIZEOF_SOCKET_QUEUE_ITEM + len) of
        (None, x) \<Rightarrow> (ERROR_OUT_OF_MEMORY, c\<lparr>cx := x\<rparr>)
      | (Some (a, p), x) \<Rightarrow>
          (let item = \<lparr>rqSrcIpAddr = queue_addr ph (phSrcAddr ph), rqSrcPort = sport,
                       rqDestIpAddr = queue_addr ph (phDestAddr ph), rqAddress = a,
                       rqBuffer = snd (netBufferCopy p SIZEOF_SOCKET_QUEUE_ITEM b off len),
                       rqOffset = SIZEOF_SOCKET_QUEUE_ITEM, rqAncillary = anc\<rparr>
           in (NO_ERROR, udpUpdateEvents (upd (\<lambda>s. s\<lparr>receiveQueue := receiveQueue s @ [item]\<rparr>) (c\<lparr>cx := x\<rparr>)))))"

definition udpProcessDatagram ::
  "rx_callback \<Rightarrow> nat \<Rightarrow> IpPseudoHeader \<Rightarrow> NetBuffer \<Rightarrow> nat \<Rightarrow> NetAncillaryData \<Rightarrow> stack \<Rightarrow> (error_t \<times> stack) option" where
  "udpProcessDatagram callback ifc ph b off anc st =
     (let len = netBufferGetLength b - off
      in if len < SIZEOF_UDP_HEADER then Some (ERROR_INVALID_HEADER, st)
         else case netBufferAt b off of
           None \<Rightarrow> Some (ERROR_FAILURE, st)
         | Some (_, m) \<Rightarrow>
             if length m < SIZEOF_UDP_HEADER then None
             else if (of_le16 (m ! 6) (m ! 7) \<noteq> 0 \<or> phLength ph = SIZEOF_IPV6_PSEUDO_HEADER) \<and>
                     ipCalcUpperLayerChecksumEx 0 (pseudoHeader_bytes ph) b off len \<noteq> 0
             then Some (ERROR_WRONG_CHECKSUM, st)
             else
               let sport = of_be16 (m ! 0) (m ! 1); dport = of_be16 (m ! 2) (m ! 3);
                   off = off + SIZEOF_UDP_HEADER; len = len - SIZEOF_UDP_HEADER
               in case find_dgram ifc ph sport dport (socketTable (sn st)) 0 of
                    None \<Rightarrow> Some (udpInvokeRxCallback callback ifc ph (take SIZEOF_UDP_HEADER m) b off anc st)
                  | Some i \<Rightarrow>
                      (let (e, w) = at_socket i (enqueue ph sport b off len anc) (sn st)
                       in Some (e, st\<lparr>sn := w\<rparr>)))"

text \<open>
  Reading the first datagram of the queue: the data, the source address and port and the
  destination address. The mutex is released while the function waits (\<open>wait\<close>).
\<close>

definition udpReceiveDatagram ::
  "(systime_t \<Rightarrow> conn \<Rightarrow> conn) \<Rightarrow> nat \<Rightarrow> u32 \<Rightarrow> conn \<Rightarrow> error_t \<times> (u8 list \<times> IpAddr \<times> u16 \<times> IpAddr) option \<times> conn" where
  "udpReceiveDatagram wait sz fl c =
     (let c = (if \<not> has_opt fl SOCKET_FLAG_DONT_WAIT \<and> receiveQueue (sk c) = []
               then wait (sk_timeout (sk c)) (upd (\<lambda>s. s\<lparr>eventMask := SOCKET_EVENT_RX_READY, event := False\<rparr>) c) else c)
      in case receiveQueue (sk c) of
           [] \<Rightarrow> (ERROR_TIMEOUT, None, c)
         | q # qs \<Rightarrow>
             (let r = (netBufferRead (rqBuffer q) (rqOffset q) sz, rqSrcIpAddr q, rqSrcPort q, rqDestIpAddr q);
                  c = (if has_opt fl SOCKET_FLAG_PEEK then c
                       else upd (\<lambda>s. s\<lparr>receiveQueue := qs\<rparr>) (c\<lparr>cx := bufFree (cx c) (rqAddress q) (rqBuffer q)\<rparr>))
              in (NO_ERROR, Some r, udpUpdateEvents c)))"

subsection \<open>Sending\<close>

definition udpAllocBuffer :: "ctx \<Rightarrow> nat \<Rightarrow> (nat \<times> NetBuffer \<times> nat) option \<times> ctx" where
  "udpAllocBuffer x len =
     (case ipAllocBuffer x (len + SIZEOF_UDP_HEADER) of
        (None, x) \<Rightarrow> (None, x)
      | (Some (a, b, off), x) \<Rightarrow> (Some (a, b, off + SIZEOF_UDP_HEADER), x))"

text \<open>The 8 bytes of the header; the checksum is stored as computed.\<close>

definition udpHeader_bytes :: "u16 \<Rightarrow> u16 \<Rightarrow> u16 \<Rightarrow> u16 \<Rightarrow> u8 list" where
  "udpHeader_bytes sport dport len cs = be16 sport @ be16 dport @ be16 len @ le16 cs"

text \<open>
  The source address: the one given, when it is of the family of the destination, else a selected one,
  else, for a broadcast on a given interface, the unspecified address.
\<close>

definition udpSourceAddr :: "nat option \<Rightarrow> IpAddr option \<Rightarrow> IpAddr \<Rightarrow> ctx \<Rightarrow> error_t \<times> nat option \<times> u8 list \<times> ctx" where
  "udpSourceAddr ifc src dest x =
     (if src \<noteq> None \<and> ipLength (the src) = ipLength dest then
        (NO_ERROR, ifc, take (ipLength dest) (ipData (the src)), x)
      else
        let (e, i, a) = sourceResult x (calls x); x = tick_call x
        in if e = NO_ERROR then (NO_ERROR, i, take (ipLength dest) a, x)
           else if ipLength dest = 4 \<and> ipv4Addr dest = replicate 4 0xFF \<and> ifc \<noteq> None then
             (NO_ERROR, ifc, replicate 4 0, x)
           else (e, ifc, [], x))"

definition udp_pseudo :: "IpAddr \<Rightarrow> u8 list \<Rightarrow> nat \<Rightarrow> IpPseudoHeader" where
  "udp_pseudo dest a len =
     \<lparr>phLength = (if ipLength dest = 4 then SIZEOF_IPV4_PSEUDO_HEADER else SIZEOF_IPV6_PSEUDO_HEADER),
      phSrcAddr = a, phDestAddr = take (ipLength dest) (ipData dest), phProtocol = 17, phDataLength = of_nat len\<rparr>"

definition udpSendDatagramEx ::
  "nat option \<Rightarrow> IpAddr option \<Rightarrow> u16 \<Rightarrow> IpAddr \<Rightarrow> u16 \<Rightarrow> NetBuffer \<Rightarrow> nat \<Rightarrow> NetAncillaryData \<Rightarrow> ctx \<Rightarrow>
     error_t \<times> NetBuffer \<times> ctx" where
  "udpSendDatagramEx ifc src sport dest dport b off anc x =
     (let off = off - SIZEOF_UDP_HEADER; len = netBufferGetLength b - off
      in if netBufferAt b off = None then (ERROR_FAILURE, b, x)
         else
           let b = netBufferPoke b off (udpHeader_bytes sport dport (of_nat len) 0)
           in if ipLength dest = 4 \<or> ipLength dest = 16 then
                (let (e, ifc, a, x) = udpSourceAddr ifc src dest x
                 in if e \<noteq> NO_ERROR then (e, b, x)
                    else
                      let ph = udp_pseudo dest a len;
                          cs = ipCalcUpperLayerChecksumEx 0 (pseudoHeader_bytes ph) b off len;
                          cs = (if cs = 0 then 0xFFFF else cs);
                          b = netBufferPoke b (off + 6) (le16 cs);
                          (e, x) = ipSendDatagram x ifc ph b off anc
                      in (e, b, x))
              else (ERROR_FAILURE, b, x))"

definition ipIsMulticastAddr :: "IpAddr \<Rightarrow> bool" where
  "ipIsMulticastAddr a =
     (if ipLength a = 4 then ipv4IsMulticastAddr (ipData a)
      else if ipLength a = 16 then ipv6IsMulticastAddr (ipData a)
      else False)"

text \<open>
  \<open>data\<close> is the memory of the user at address \<open>addr\<close>, of which \<open>len\<close> bytes are sent; the number of
  bytes reported as written is the second component.
\<close>

definition udp_ancillary :: "Socket \<Rightarrow> IpAddr \<Rightarrow> u32 \<Rightarrow> NetAncillaryData" where
  "udp_ancillary s dest fl =
     NET_DEFAULT_ANCILLARY_DATA\<lparr>anTtl := (if ipIsMulticastAddr dest then multicastTtl s else ttl s),
       dontRoute := has_opt fl SOCKET_FLAG_DONT_ROUTE\<rparr>"

definition udpSendDatagram ::
  "Socket \<Rightarrow> IpAddr \<Rightarrow> u16 \<Rightarrow> nat \<Rightarrow> u8 list \<Rightarrow> nat \<Rightarrow> u32 \<Rightarrow> ctx \<Rightarrow> error_t \<times> nat option \<times> ctx" where
  "udpSendDatagram s dest dport addr data len fl x =
     (case udpAllocBuffer x 0 of
        (None, x) \<Rightarrow> (ERROR_OUT_OF_MEMORY, None, x)
      | (Some (a, b, off), x) \<Rightarrow>
          (let (e, b) = netBufferAppend b addr data len;
               (e, b, x) = (if e = NO_ERROR
                            then udpSendDatagramEx (sk_interface s) None (localPort s) dest dport b off (udp_ancillary s dest fl) x
                            else (e, b, x))
           in (e, if e = NO_ERROR then Some len else None, bufFree x a b)))"

end
