(* ===== verification/Socket_Api.thy ===== *)
theory Socket_Api
  imports Udp
begin

text \<open>
  The socket interface (\<open>core/socket.c\<close>): options, addresses, the calls that dispatch on the type of the
  socket, closing, and polling for events. A handle is the index of a socket in the table, or \<open>None\<close> for
  \<open>NULL\<close>. Raw sockets and VLAN tags are disabled in the default configuration. A call that goes
  through \<open>tcpSend\<close> is partial, as \<open>tcpSend\<close> is.
\<close>

section \<open>Options and addresses\<close>

definition socketSetTimeout :: "nat option \<Rightarrow> systime_t \<Rightarrow> net \<Rightarrow> error_t \<times> net" where
  "socketSetTimeout h timeout w =
     (case h of
        None \<Rightarrow> (ERROR_INVALID_PARAMETER, w)
      | Some i \<Rightarrow> (NO_ERROR, put_socket i (\<lambda>s. s\<lparr>sk_timeout := timeout\<rparr>) w))"

definition socketSetTtl :: "nat option \<Rightarrow> u8 \<Rightarrow> net \<Rightarrow> error_t \<times> net" where
  "socketSetTtl h t w =
     (case h of
        None \<Rightarrow> (ERROR_INVALID_PARAMETER, w)
      | Some i \<Rightarrow> (NO_ERROR, put_socket i (\<lambda>s. s\<lparr>ttl := t\<rparr>) w))"

definition socketSetMulticastTtl :: "nat option \<Rightarrow> u8 \<Rightarrow> net \<Rightarrow> error_t \<times> net" where
  "socketSetMulticastTtl h t w =
     (case h of
        None \<Rightarrow> (ERROR_INVALID_PARAMETER, w)
      | Some i \<Rightarrow> (NO_ERROR, put_socket i (\<lambda>s. s\<lparr>multicastTtl := t\<rparr>) w))"

definition socketSetVlanPcp :: "nat option \<Rightarrow> u8 \<Rightarrow> net \<Rightarrow> error_t \<times> net" where
  "socketSetVlanPcp h pcp w = (ERROR_NOT_IMPLEMENTED, w)"

definition socketSetVlanDei :: "nat option \<Rightarrow> bool \<Rightarrow> net \<Rightarrow> error_t \<times> net" where
  "socketSetVlanDei h dei w = (ERROR_NOT_IMPLEMENTED, w)"

definition socketSetVmanPcp :: "nat option \<Rightarrow> u8 \<Rightarrow> net \<Rightarrow> error_t \<times> net" where
  "socketSetVmanPcp h pcp w = (ERROR_NOT_IMPLEMENTED, w)"

definition socketSetVmanDei :: "nat option \<Rightarrow> bool \<Rightarrow> net \<Rightarrow> error_t \<times> net" where
  "socketSetVmanDei h dei w = (ERROR_NOT_IMPLEMENTED, w)"

definition socketSetTxBufferSize :: "nat option \<Rightarrow> nat \<Rightarrow> net \<Rightarrow> error_t \<times> net" where
  "socketSetTxBufferSize h sz w =
     (case h of
        None \<Rightarrow> (ERROR_INVALID_PARAMETER, w)
      | Some i \<Rightarrow>
          if sz < 1 \<or> sz > unat TCP_MAX_TX_BUFFER_SIZE then (ERROR_INVALID_PARAMETER, w)
          else if sk_type (socketTable w ! i) \<noteq> SOCKET_TYPE_STREAM then (ERROR_INVALID_SOCKET, w)
          else if tcpGetState (socketTable w ! i) \<noteq> TCP_STATE_CLOSED then (ERROR_INVALID_SOCKET, w)
          else (NO_ERROR, put_socket i (\<lambda>s. s\<lparr>txBufferSize := of_nat sz\<rparr>) w))"

definition socketSetRxBufferSize :: "nat option \<Rightarrow> nat \<Rightarrow> net \<Rightarrow> error_t \<times> net" where
  "socketSetRxBufferSize h sz w =
     (case h of
        None \<Rightarrow> (ERROR_INVALID_PARAMETER, w)
      | Some i \<Rightarrow>
          if sz < 1 \<or> sz > unat TCP_MAX_RX_BUFFER_SIZE then (ERROR_INVALID_PARAMETER, w)
          else if sk_type (socketTable w ! i) \<noteq> SOCKET_TYPE_STREAM then (ERROR_INVALID_SOCKET, w)
          else if tcpGetState (socketTable w ! i) \<noteq> TCP_STATE_CLOSED then (ERROR_INVALID_SOCKET, w)
          else (NO_ERROR, put_socket i (\<lambda>s. s\<lparr>rxBufferSize := of_nat sz\<rparr>) w))"

definition socketSetInterface :: "nat option \<Rightarrow> nat option \<Rightarrow> net \<Rightarrow> error_t \<times> net" where
  "socketSetInterface h ifc w =
     (case h of
        None \<Rightarrow> (ERROR_INVALID_PARAMETER, w)
      | Some i \<Rightarrow> (NO_ERROR, put_socket i (\<lambda>s. s\<lparr>sk_interface := ifc\<rparr>) w))"

definition socketGetInterface :: "nat option \<Rightarrow> net \<Rightarrow> nat option" where
  "socketGetInterface h w = (case h of None \<Rightarrow> None | Some i \<Rightarrow> sk_interface (socketTable w ! i))"

definition socketBind :: "nat option \<Rightarrow> IpAddr option \<Rightarrow> u16 \<Rightarrow> net \<Rightarrow> error_t \<times> net" where
  "socketBind h addr port w =
     (case (h, addr) of
        (Some i, Some a) \<Rightarrow>
          if sk_type (socketTable w ! i) \<noteq> SOCKET_TYPE_STREAM \<and> sk_type (socketTable w ! i) \<noteq> SOCKET_TYPE_DGRAM
          then (ERROR_INVALID_SOCKET, w)
          else (NO_ERROR, put_socket i (\<lambda>s. s\<lparr>localIpAddr := a, localPort := port\<rparr>) w)
      | _ \<Rightarrow> (ERROR_INVALID_PARAMETER, w))"

definition socketGetLocalAddr :: "nat option \<Rightarrow> net \<Rightarrow> error_t \<times> (IpAddr \<times> u16) option" where
  "socketGetLocalAddr h w =
     (case h of
        None \<Rightarrow> (ERROR_INVALID_PARAMETER, None)
      | Some i \<Rightarrow> (NO_ERROR, Some (localIpAddr (socketTable w ! i), localPort (socketTable w ! i))))"

definition socketGetRemoteAddr :: "nat option \<Rightarrow> net \<Rightarrow> error_t \<times> (IpAddr \<times> u16) option" where
  "socketGetRemoteAddr h w =
     (case h of
        None \<Rightarrow> (ERROR_INVALID_PARAMETER, None)
      | Some i \<Rightarrow> (NO_ERROR, Some (remoteIpAddr (socketTable w ! i), remotePort (socketTable w ! i))))"

section \<open>Connections\<close>

definition at_socket_opt :: "nat \<Rightarrow> (conn \<Rightarrow> ('a \<times> conn) option) \<Rightarrow> net \<Rightarrow> ('a \<times> net) option" where
  "at_socket_opt i f w =
     map_option (\<lambda>(r, c). (r, \<lparr>nx = cx c, socketTable = (socketTable w)[i := sk c]\<rparr>))
       (f \<lparr>cx = nx w, sk = socketTable w ! i\<rparr>)"

definition socketConnect ::
  "(systime_t \<Rightarrow> conn \<Rightarrow> conn) \<Rightarrow> nat option \<Rightarrow> IpAddr option \<Rightarrow> u16 \<Rightarrow> net \<Rightarrow> error_t \<times> net" where
  "socketConnect wait h addr port w =
     (case (h, addr) of
        (Some i, Some a) \<Rightarrow>
          (case sk_type (socketTable w ! i) of
             SOCKET_TYPE_STREAM \<Rightarrow> at_socket i (tcpConnect wait a port) w
           | SOCKET_TYPE_DGRAM \<Rightarrow> (NO_ERROR, put_socket i (\<lambda>s. s\<lparr>remoteIpAddr := a, remotePort := port\<rparr>) w)
           | SOCKET_TYPE_RAW_IP \<Rightarrow> (NO_ERROR, put_socket i (\<lambda>s. s\<lparr>remoteIpAddr := a\<rparr>) w)
           | _ \<Rightarrow> (ERROR_INVALID_SOCKET, w))
      | _ \<Rightarrow> (ERROR_INVALID_PARAMETER, w))"

definition socketListen :: "nat option \<Rightarrow> u32 \<Rightarrow> net \<Rightarrow> error_t \<times> net" where
  "socketListen h backlog w =
     (case h of
        None \<Rightarrow> (ERROR_INVALID_PARAMETER, w)
      | Some i \<Rightarrow>
          if sk_type (socketTable w ! i) \<noteq> SOCKET_TYPE_STREAM then (ERROR_INVALID_SOCKET, w)
          else at_socket i (tcpListen backlog) w)"

definition socketAccept ::
  "(systime_t \<Rightarrow> net \<Rightarrow> net) \<Rightarrow> (net \<Rightarrow> net) \<Rightarrow> nat option \<Rightarrow> net \<Rightarrow> ((nat \<times> IpAddr \<times> u16) option \<times> net) option" where
  "socketAccept wait yield h w =
     (case h of
        None \<Rightarrow> Some (None, w)
      | Some i \<Rightarrow>
          if sk_type (socketTable w ! i) \<noteq> SOCKET_TYPE_STREAM then Some (None, w)
          else tcpAccept wait yield i w)"

definition socketShutdown ::
  "(systime_t \<Rightarrow> conn \<Rightarrow> conn) \<Rightarrow> nat option \<Rightarrow> SocketShutdown \<Rightarrow> net \<Rightarrow> (error_t \<times> net) option" where
  "socketShutdown wait h how w =
     (case h of
        None \<Rightarrow> Some (ERROR_INVALID_PARAMETER, w)
      | Some i \<Rightarrow>
          if sk_type (socketTable w ! i) \<noteq> SOCKET_TYPE_STREAM then Some (ERROR_INVALID_SOCKET, w)
          else at_socket_opt i (tcpShutdown wait how) w)"

section \<open>Data\<close>

text \<open>
  The user's data is the memory \<open>data\<close> at address \<open>addr\<close>, of which \<open>len\<close> bytes are sent; the second
  component of the result is the number of bytes written.
\<close>

definition socketSendTo ::
  "(systime_t \<Rightarrow> conn \<Rightarrow> conn) \<Rightarrow> nat option \<Rightarrow> IpAddr \<Rightarrow> u16 \<Rightarrow> nat \<Rightarrow> u8 list \<Rightarrow> nat \<Rightarrow> u32 \<Rightarrow> net \<Rightarrow>
     ((error_t \<times> nat) \<times> net) option" where
  "socketSendTo wait h dest port addr data len fl w =
     (case h of
        None \<Rightarrow> Some ((ERROR_INVALID_PARAMETER, 0), w)
      | Some i \<Rightarrow>
          (case sk_type (socketTable w ! i) of
             SOCKET_TYPE_STREAM \<Rightarrow>
               at_socket_opt i (\<lambda>c. map_option (\<lambda>(e, n, c). ((e, unat n), c)) (tcpSend wait data (of_nat len) fl c)) w
           | SOCKET_TYPE_DGRAM \<Rightarrow>
               (let (e, n, x) = udpSendDatagram (socketTable w ! i) dest port addr data len fl (nx w)
                in Some ((e, case n of None \<Rightarrow> 0 | Some n \<Rightarrow> n), w\<lparr>nx := x\<rparr>))
           | _ \<Rightarrow> Some ((ERROR_INVALID_SOCKET, 0), w)))"

text \<open>The code reads the remote address of the socket before it checks the handle.\<close>

definition socketSend ::
  "(systime_t \<Rightarrow> conn \<Rightarrow> conn) \<Rightarrow> nat \<Rightarrow> nat \<Rightarrow> u8 list \<Rightarrow> nat \<Rightarrow> u32 \<Rightarrow> net \<Rightarrow> ((error_t \<times> nat) \<times> net) option" where
  "socketSend wait i addr data len fl w =
     socketSendTo wait (Some i) (remoteIpAddr (socketTable w ! i)) (remotePort (socketTable w ! i)) addr data len fl w"

text \<open>
  The result: the error code, the bytes received, and the source address and port with the destination
  address when they are stored. \<open>buf\<close> is the user's buffer of \<open>sz\<close> bytes.
\<close>

definition socketReceiveEx ::
  "(systime_t \<Rightarrow> conn \<Rightarrow> conn) \<Rightarrow> nat option \<Rightarrow> u8 list \<Rightarrow> nat \<Rightarrow> u32 \<Rightarrow> net \<Rightarrow>
     (error_t \<times> u8 list \<times> (IpAddr \<times> u16 \<times> IpAddr) option) \<times> net" where
  "socketReceiveEx wait h buf sz fl w =
     (case h of
        None \<Rightarrow> ((ERROR_INVALID_PARAMETER, [], None), w)
      | Some i \<Rightarrow>
          (case sk_type (socketTable w ! i) of
             SOCKET_TYPE_STREAM \<Rightarrow>
               at_socket i (\<lambda>c. case tcpReceive wait buf (of_nat sz) fl c of
                 (e, n, d, c) \<Rightarrow>
                   ((e, take (unat n) d, Some (remoteIpAddr (sk c), remotePort (sk c), localIpAddr (sk c))), c)) w
           | SOCKET_TYPE_DGRAM \<Rightarrow>
               at_socket i (\<lambda>c. case udpReceiveDatagram wait sz fl c of
                 (e, None, c) \<Rightarrow> ((e, [], None), c)
               | (e, Some (d, src, port, dest), c) \<Rightarrow> ((e, d, Some (src, port, dest)), c)) w
           | _ \<Rightarrow> ((ERROR_INVALID_SOCKET, [], None), w)))"

definition socketReceiveFrom ::
  "(systime_t \<Rightarrow> conn \<Rightarrow> conn) \<Rightarrow> nat option \<Rightarrow> u8 list \<Rightarrow> nat \<Rightarrow> u32 \<Rightarrow> net \<Rightarrow>
     (error_t \<times> u8 list \<times> (IpAddr \<times> u16) option) \<times> net" where
  "socketReceiveFrom wait h buf sz fl w =
     (let ((e, d, a), w) = socketReceiveEx wait h buf sz fl w
      in ((e, d, map_option (\<lambda>(src, port, dest). (src, port)) a), w))"

definition socketReceive ::
  "(systime_t \<Rightarrow> conn \<Rightarrow> conn) \<Rightarrow> nat option \<Rightarrow> u8 list \<Rightarrow> nat \<Rightarrow> u32 \<Rightarrow> net \<Rightarrow> (error_t \<times> u8 list) \<times> net" where
  "socketReceive wait h buf sz fl w =
     (let ((e, d, a), w) = socketReceiveEx wait h buf sz fl w in ((e, d), w))"

section \<open>Closing\<close>

text \<open>
  The purge of the receive queue releases the block of each buffer with \<open>memPoolFree\<close>. The
  second test reads the type that \<open>tcpAbort\<close> has left.
\<close>

fun purge_queue :: "SocketQueueItem list \<Rightarrow> ctx \<Rightarrow> ctx" where
  "purge_queue [] x = x"
| "purge_queue (q # qs) x = purge_queue qs (heapFree (rqAddress q) x)"

definition close_conn :: "conn \<Rightarrow> conn" where
  "close_conn c =
     (let c = (if sk_type (sk c) = SOCKET_TYPE_STREAM then snd (tcpAbort c) else c)
      in if sk_type (sk c) = SOCKET_TYPE_DGRAM \<or> sk_type (sk c) = SOCKET_TYPE_RAW_IP \<or>
            sk_type (sk c) = SOCKET_TYPE_RAW_ETH
         then upd (\<lambda>s. s\<lparr>sk_type := SOCKET_TYPE_UNUSED\<rparr>) (c\<lparr>cx := purge_queue (receiveQueue (sk c)) (cx c)\<rparr>)
         else c)"

definition socketClose :: "nat option \<Rightarrow> net \<Rightarrow> net" where
  "socketClose h w =
     (case h of None \<Rightarrow> w | Some i \<Rightarrow> snd (at_socket i (\<lambda>c. ((), close_conn c)) w))"

section \<open>Events\<close>

text \<open>
  One event object may be registered with several sockets: \<open>ev\<close> is its state before the call, and the
  result the state behind it.
\<close>

definition socketRegisterEvents :: "nat option \<Rightarrow> bool \<Rightarrow> u32 \<Rightarrow> net \<Rightarrow> bool \<times> net" where
  "socketRegisterEvents h ev msk w =
     (case h of
        None \<Rightarrow> (ev, w)
      | Some i \<Rightarrow>
          at_socket i (\<lambda>c.
            let m = (if userEvent (sk c) \<noteq> None then eventMask (sk c) OR msk else msk);
                c = upd (\<lambda>s. s\<lparr>eventMask := m, userEvent := Some ev\<rparr>) c;
                c = (if sk_type (sk c) = SOCKET_TYPE_STREAM then tcpUpdateEvents c else c);
                c = (if sk_type (sk c) = SOCKET_TYPE_DGRAM then udpUpdateEvents c else c)
            in (userEvent (sk c) = Some True, c)) w)"

definition socketUnregisterEvents :: "nat option \<Rightarrow> net \<Rightarrow> net" where
  "socketUnregisterEvents h w =
     (case h of None \<Rightarrow> w | Some i \<Rightarrow> put_socket i (\<lambda>s. s\<lparr>userEvent := None\<rparr>) w)"

definition socketGetEvents :: "nat option \<Rightarrow> net \<Rightarrow> u32" where
  "socketGetEvents h w = (case h of None \<Rightarrow> 0 | Some i \<Rightarrow> eventFlags (socketTable w ! i))"

record SocketEventDesc =
  edSocket :: "nat option"
  edEventMask :: u32
  edEventFlags :: u32

fun poll_register :: "SocketEventDesc list \<Rightarrow> bool \<Rightarrow> net \<Rightarrow> SocketEventDesc list \<times> bool \<times> net" where
  "poll_register [] ev w = ([], ev, w)"
| "poll_register (d # ds) ev w =
     (let (ev, w) = socketRegisterEvents (edSocket d) ev (edEventMask d) w;
          d = (if edSocket d \<noteq> None then d\<lparr>edEventFlags := 0\<rparr> else d);
          (ds, ev, w) = poll_register ds ev w
      in (d # ds, ev, w))"

fun poll_collect :: "bool \<Rightarrow> SocketEventDesc list \<Rightarrow> net \<Rightarrow> SocketEventDesc list \<times> net" where
  "poll_collect status [] w = ([], w)"
| "poll_collect status (d # ds) w =
     (let d = (if edSocket d \<noteq> None \<and> status
               then d\<lparr>edEventFlags := socketGetEvents (edSocket d) w AND edEventMask d\<rparr> else d);
          w = socketUnregisterEvents (edSocket d) w;
          (ds, w) = poll_collect status ds w
      in (d # ds, w))"

text \<open>
  \<open>extEvent\<close> is the state of the event object of the caller, if there is one; \<open>createOk\<close> the result of
  \<open>osCreateEvent\<close> otherwise. \<open>wait timeout ev\<close> is \<open>osWaitForEvent\<close> on the object with state \<open>ev\<close> while
  the other tasks run: whether the event was signalled in time, and the state then.
\<close>

definition socketPoll ::
  "(systime_t \<Rightarrow> bool \<Rightarrow> net \<Rightarrow> bool \<times> net) \<Rightarrow> bool \<Rightarrow> SocketEventDesc list \<Rightarrow> bool option \<Rightarrow> systime_t \<Rightarrow> net \<Rightarrow>
     error_t \<times> SocketEventDesc list \<times> net" where
  "socketPoll wait createOk ds extEvent timeout w =
     (if ds = [] then (ERROR_INVALID_PARAMETER, ds, w)
      else if extEvent = None \<and> \<not> createOk then (ERROR_OUT_OF_RESOURCES, ds, w)
      else
        let (ds, ev, w) = poll_register ds (extEvent = Some True) w;
            (status, w) = wait timeout ev w;
            (ds, w) = poll_collect status ds w
        in (if status then NO_ERROR else ERROR_TIMEOUT, ds, w))"

end
