(* ===== verification/Udp_Queue.thy ===== *)
theory Udp_Queue
  imports Buffer_Memory Socket_Api
begin

text \<open>
  The receive queues of UDP sockets: what \<open>udpProcessDatagram\<close> and
  \<open>udpReceiveDatagram\<close> do to a queue, and the module as a state machine whose invariant bounds every
  queue, types its items and accounts for every block of memory.
\<close>

section \<open>The receive queue\<close>

text \<open>What an item holds for the reader, and the blocks it keeps allocated.\<close>

type_synonym datagram = "u8 list \<times> IpAddr \<times> u16 \<times> IpAddr"

definition datagram_of :: "SocketQueueItem \<Rightarrow> datagram" where
  "datagram_of q = (drop (rqOffset q) (nb_bytes (rqBuffer q)), rqSrcIpAddr q, rqSrcPort q, rqDestIpAddr q)"

definition rq_blocks :: "SocketQueueItem \<Rightarrow> nat multiset" where
  "rq_blocks q = add_mset (rqAddress q) (owned (rqBuffer q))"

definition rq_held :: "Socket \<Rightarrow> nat multiset" where
  "rq_held s = sum_list (map rq_blocks (receiveQueue s))"

text \<open>The type of a queue item: where its payload starts, and addresses of one family.\<close>

definition addr_ok :: "IpAddr \<Rightarrow> bool" where
  "addr_ok a \<longleftrightarrow> (ipLength a = 4 \<or> ipLength a = 16) \<and> length (ipData a) = ipLength a"

definition item_ok :: "SocketQueueItem \<Rightarrow> bool" where
  "item_ok q \<longleftrightarrow> nb_wf (rqBuffer q) \<and> rqOffset q = 64 \<and> 64 \<le> length (nb_bytes (rqBuffer q)) \<and>
     addr_ok (rqSrcIpAddr q) \<and> addr_ok (rqDestIpAddr q) \<and> ipLength (rqSrcIpAddr q) = ipLength (rqDestIpAddr q)"

definition pseudo_ok :: "IpPseudoHeader \<Rightarrow> bool" where
  "pseudo_ok ph \<longleftrightarrow>
     phLength ph = SIZEOF_IPV4_PSEUDO_HEADER \<and> length (phSrcAddr ph) = 4 \<and> length (phDestAddr ph) = 4 \<or>
     phLength ph = SIZEOF_IPV6_PSEUDO_HEADER \<and> length (phSrcAddr ph) = 16 \<and> length (phDestAddr ph) = 16"

lemma queue_addr_ok: "pseudo_ok ph \<Longrightarrow> addr_ok (queue_addr ph (phSrcAddr ph)) \<and> addr_ok (queue_addr ph (phDestAddr ph))"
  by (auto simp: pseudo_ok_def addr_ok_def queue_addr_def addr_of_def)

lemma udpUpdateEvents_frame [simp]:
  "receiveQueue (sk (udpUpdateEvents c)) = receiveQueue (sk c)" "sk_type (sk (udpUpdateEvents c)) = sk_type (sk c)"
  "cx (udpUpdateEvents c) = cx c"
  by (simp_all add: udpUpdateEvents_def Let_def)

text \<open>The copy into a fresh buffer: its bytes behind the item are those of the datagram.\<close>

lemma copied_payload:
  assumes "nb_wf p" and "length (nb_bytes p) = 64 + len" and "nb_wf b" and "off + len \<le> length (nb_bytes b)"
  shows "nb_wf (snd (netBufferCopy p 64 b off len)) \<and> length (nb_bytes (snd (netBufferCopy p 64 b off len))) = 64 + len \<and>
    drop 64 (nb_bytes (snd (netBufferCopy p 64 b off len))) = take len (drop off (nb_bytes b))"
proof (cases "len = 0")
  case True
  have "snd (netBufferCopy p 64 b off 0) = p"
  proof -
    have "fst (skip_chunks cs n) = []" if "\<forall>c \<in> set cs. chunk_wf c" "length (chunks_bytes cs) \<le> n" for cs n
      using that by (induction cs arbitrary: n) auto
    then have "fst (skip_chunks (chunk p) 64) = []"
      using assms(1,2) True by (simp add: nb_wf_def nb_bytes_def)
    then show ?thesis by (simp add: netBufferCopy_def split_beta)
  qed
  with assms True show ?thesis by simp
next
  case False
  then have l: "0 < len" "64 + len \<le> length (nb_bytes p)" using assms(2) by simp_all
  note netBufferCopy_bytes [OF assms(1,3) l(2) assms(4) l(1)]
  then show ?thesis using assms(2,4) by (simp add: list_write_def)
qed

lemma owned_copy_blocks: "rqBuffer q = snd (netBufferCopy p d b off len) \<Longrightarrow> rqAddress q = a \<Longrightarrow> rq_blocks q = add_mset a (owned p)"
  by (simp add: rq_blocks_def)

text \<open>Appending: the datagram joins the end of the queue, or nothing is kept of it.\<close>

lemma enqueue_result:
  assumes "enqueue ph sport b off len anc c = (e, c')" and "nb_wf b" and "off + len \<le> length (nb_bytes b)" and "pseudo_ok ph"
  obtains (queued) q where "e = NO_ERROR" "length (receiveQueue (sk c)) < 4" "receiveQueue (sk c') = receiveQueue (sk c) @ [q]"
      "item_ok q" "sk_type (sk c') = sk_type (sk c)"
      "datagram_of q = (take len (drop off (nb_bytes b)), queue_addr ph (phSrcAddr ph), sport, queue_addr ph (phDestAddr ph))"
      "mset (live (cx c')) = mset (live (cx c)) + rq_blocks q" "owned (rqBuffer q) = {#} \<longleftrightarrow> len \<le> 1392"
  | (full) "e = ERROR_RECEIVE_QUEUE_FULL" "4 \<le> length (receiveQueue (sk c))" "c' = c"
  | (memory) "e = ERROR_OUT_OF_MEMORY" "sk c' = sk c" "mset (live (cx c')) = mset (live (cx c))"
      "fst (bufAlloc (cx c) (64 + len)) = None"
proof (cases "length (receiveQueue (sk c)) < 4")
  case False
  then have "receiveQueue (sk c) \<noteq> []" "4 \<le> length (receiveQueue (sk c))" by auto
  then show ?thesis using assms(1) by (intro full) (auto simp: enqueue_def)
next
  case True
  obtain r x where al: "bufAlloc (cx c) (64 + len) = (r, x)" by fastforce
  note al' = bufAlloc_result [OF al]
  show ?thesis
  proof (cases r)
    case None
    then show ?thesis using assms(1) True al al' by (intro memory) (auto simp: enqueue_def)
  next
    case (Some ap)
    obtain a p where ap: "ap = (a, p)" by fastforce
    define q where "q = \<lparr>rqSrcIpAddr = queue_addr ph (phSrcAddr ph), rqSrcPort = sport, rqDestIpAddr = queue_addr ph (phDestAddr ph),
      rqAddress = a, rqBuffer = snd (netBufferCopy p 64 b off len), rqOffset = 64, rqAncillary = anc\<rparr>"
    have p: "nb_wf p" "length (nb_bytes p) = 64 + len" "owned p = {#} \<longleftrightarrow> len \<le> 1392" "mset (live x) = mset (live (cx c)) + add_mset a (owned p)"
      using al' Some ap by simp_all
    note cp = copied_payload [OF p(1,2) assms(2,3)]
    have r: "e = NO_ERROR" "c' = udpUpdateEvents (upd (\<lambda>s. s\<lparr>receiveQueue := receiveQueue s @ [q]\<rparr>) (c\<lparr>cx := x\<rparr>))"
      using assms(1) True al Some ap by (auto simp: enqueue_def Let_def q_def)
    have "item_ok q" using cp queue_addr_ok [OF assms(4)] by (simp add: item_ok_def q_def queue_addr_def addr_of_def)
    moreover have "datagram_of q = (take len (drop off (nb_bytes b)), queue_addr ph (phSrcAddr ph), sport, queue_addr ph (phDestAddr ph))"
      using cp by (simp add: datagram_of_def q_def)
    moreover have "rq_blocks q = add_mset a (owned p)" by (simp add: rq_blocks_def q_def)
    ultimately show ?thesis using True r p(3,4) cp by (intro queued) (simp_all, simp_all add: q_def)
  qed
qed

text \<open>Reading: the head of the queue, cut to the size of the user's buffer.\<close>

lemma receive_result:
  assumes "receiveQueue (sk c) = q # qs" and "item_ok q" and "rq_held (sk c) \<subseteq># mset (live (cx c))"
    and "udpReceiveDatagram wait sz fl c = (e, r, c')"
  shows "e = NO_ERROR" and "r = Some (case datagram_of q of (d, rest) \<Rightarrow> (take sz d, rest))"
    and "receiveQueue (sk c') = (if has_opt fl SOCKET_FLAG_PEEK then q # qs else qs)"
    and "sk_type (sk c') = sk_type (sk c)"
    and "mset (live (cx c')) = (if has_opt fl SOCKET_FLAG_PEEK then mset (live (cx c)) else mset (live (cx c)) - rq_blocks q)"
proof -
  have d: "netBufferRead (rqBuffer q) (rqOffset q) sz = take sz (drop (rqOffset q) (nb_bytes (rqBuffer q)))"
    using assms(2) by (simp add: item_ok_def netBufferRead_bytes)
  have "rq_blocks q \<subseteq># mset (live (cx c))"
    using assms(1,3) by (simp add: rq_held_def) (metis subset_mset.order_trans mset_subset_eq_add_left)
  then have f: "mset (live (bufFree (cx c) (rqAddress q) (rqBuffer q))) = mset (live (cx c)) - rq_blocks q"
    using bufFree_mset unfolding rq_blocks_def by blast
  show "e = NO_ERROR" "r = Some (case datagram_of q of (d, rest) \<Rightarrow> (take sz d, rest))"
    "receiveQueue (sk c') = (if has_opt fl SOCKET_FLAG_PEEK then q # qs else qs)"
    "sk_type (sk c') = sk_type (sk c)"
    "mset (live (cx c')) = (if has_opt fl SOCKET_FLAG_PEEK then mset (live (cx c)) else mset (live (cx c)) - rq_blocks q)"
    using assms(1,4) d f by (auto simp: udpReceiveDatagram_def datagram_of_def Let_def)
qed

lemma receive_empty:
  assumes "receiveQueue (sk c) = []" and "has_opt fl SOCKET_FLAG_DONT_WAIT"
  shows "udpReceiveDatagram wait sz fl c = (ERROR_TIMEOUT, None, c)"
  using assms by (simp add: udpReceiveDatagram_def)

section \<open>The module as a state machine\<close>

text \<open>
  The events of the module: a datagram arrives, the user reads a socket without waiting, callbacks are
  attached and detached. What a callback does is a parameter; the invariant is shown for
  callbacks that keep it themselves.
\<close>

definition dgram_held :: "Socket list \<Rightarrow> nat multiset" where
  "dgram_held ss = sum_list (map (\<lambda>s. if sk_type s = SOCKET_TYPE_DGRAM then rq_held s else {#}) ss)"

definition queue_ok :: "Socket \<Rightarrow> bool" where
  "queue_ok s \<longleftrightarrow> length (receiveQueue s) \<le> UDP_RX_QUEUE_SIZE \<and> (\<forall>q \<in> set (receiveQueue s). item_ok q)"

definition udp_inv :: "nat multiset \<Rightarrow> stack \<Rightarrow> bool" where
  "udp_inv B st \<longleftrightarrow>
     (\<forall>s \<in> set (socketTable (sn st)). sk_type s = SOCKET_TYPE_DGRAM \<longrightarrow> queue_ok s) \<and>
     mset (live (nx (sn st))) = B + dgram_held (socketTable (sn st)) \<and>
     length (udpCallbackTable st) = UDP_CALLBACK_TABLE_SIZE"

inductive udp_step :: "rx_callback \<Rightarrow> stack \<Rightarrow> stack \<Rightarrow> bool" for callback where
  arrive: "udpProcessDatagram callback ifc ph b off anc st = Some (e, st') \<Longrightarrow> nb_wf b \<Longrightarrow> pseudo_ok ph \<Longrightarrow>
     udp_step callback st st'"
| read: "i < length (socketTable (sn st)) \<Longrightarrow> sk_type (socketTable (sn st) ! i) = SOCKET_TYPE_DGRAM \<Longrightarrow>
     has_opt fl SOCKET_FLAG_DONT_WAIT \<Longrightarrow> socketReceiveEx wait (Some i) buf sz fl (sn st) = (r, w) \<Longrightarrow>
     udp_step callback st (st\<lparr>sn := w\<rparr>)"
| attach: "udpAttachRxCallback ifc port f param st = (e, st') \<Longrightarrow> udp_step callback st st'"
| detach: "udpDetachRxCallback ifc port st = (e, st') \<Longrightarrow> udp_step callback st st'"

lemma dgram_held_update:
  assumes "i < length ss" and "sk_type (ss ! i) = SOCKET_TYPE_DGRAM" and "sk_type s = SOCKET_TYPE_DGRAM"
  shows "dgram_held (ss[i := s]) + rq_held (ss ! i) = dgram_held ss + rq_held s"
  using assms
proof (induction ss arbitrary: i)
  case (Cons t ss)
  then show ?case by (cases i) (auto simp: dgram_held_def ac_simps)
qed simp

lemma dgram_held_member:
  "i < length ss \<Longrightarrow> sk_type (ss ! i) = SOCKET_TYPE_DGRAM \<Longrightarrow> rq_held (ss ! i) \<subseteq># dgram_held ss"
proof (induction ss arbitrary: i)
  case (Cons t ss)
  then show ?case
    by (cases i) (auto simp: dgram_held_def intro: subset_mset.order_trans mset_subset_eq_add_right)
qed simp

lemma find_dgram_Some:
  "find_dgram ifc ph sport dport ss k = Some i \<Longrightarrow>
   k \<le> i \<and> i - k < length ss \<and> dgram_matches ifc ph sport dport (ss ! (i - k)) \<and>
   (\<forall>j < i - k. \<not> dgram_matches ifc ph sport dport (ss ! j))"
proof (induction ss arbitrary: k)
  case (Cons s ss)
  show ?case
  proof (cases "dgram_matches ifc ph sport dport s")
    case False
    with Cons.prems Cons.IH [of "Suc k"] have *: "Suc k \<le> i" "i - Suc k < length ss"
      "dgram_matches ifc ph sport dport (ss ! (i - Suc k))" "\<forall>j < i - Suc k. \<not> dgram_matches ifc ph sport dport (ss ! j)" by auto
    then have "i - k = Suc (i - Suc k)" by simp
    with * False show ?thesis by (auto simp: less_Suc_eq_0_disj nth_Cons')
  qed (use Cons.prems in auto)
qed simp

lemma find_dgram_None: "find_dgram ifc ph sport dport ss k = None \<longleftrightarrow> (\<forall>s \<in> set ss. \<not> dgram_matches ifc ph sport dport s)"
  by (induction ss arbitrary: k) auto

lemma inv_update:
  assumes inv: "udp_inv B st" and i: "i < length (socketTable (sn st))" "sk_type (socketTable (sn st) ! i) = SOCKET_TYPE_DGRAM"
    and s: "sk_type s = SOCKET_TYPE_DGRAM" "queue_ok s"
    and l: "mset (live x) + rq_held (socketTable (sn st) ! i) = mset (live (nx (sn st))) + rq_held s"
  shows "udp_inv B (st\<lparr>sn := \<lparr>nx = x, socketTable = (socketTable (sn st))[i := s]\<rparr>\<rparr>)"
proof -
  let ?ss = "socketTable (sn st)"
  have "mset (live x) + rq_held (?ss ! i) + dgram_held ?ss = mset (live (nx (sn st))) + (dgram_held ?ss + rq_held s)"
    using l by (simp add: ac_simps)
  also have "\<dots> = B + dgram_held ?ss + (dgram_held (?ss[i := s]) + rq_held (?ss ! i))"
    using inv dgram_held_update [OF i s(1)] by (simp add: udp_inv_def)
  finally have "mset (live x) = B + dgram_held (?ss[i := s])" by (simp add: ac_simps)
  moreover have "\<forall>t \<in> set (?ss[i := s]). sk_type t = SOCKET_TYPE_DGRAM \<longrightarrow> queue_ok t"
    using inv s(2) set_update_subset_insert [of ?ss i s] by (auto simp: udp_inv_def)
  ultimately show ?thesis using inv by (simp add: udp_inv_def)
qed

lemma enqueue_inv:
  assumes inv: "udp_inv B st" and i: "i < length (socketTable (sn st))" "sk_type (socketTable (sn st) ! i) = SOCKET_TYPE_DGRAM"
    and b: "nb_wf b" "off + len \<le> length (nb_bytes b)" "pseudo_ok ph"
    and r: "at_socket i (enqueue ph sport b off len anc) (sn st) = (e, w)"
  shows "udp_inv B (st\<lparr>sn := w\<rparr>)"
proof -
  let ?c = "\<lparr>cx = nx (sn st), sk = socketTable (sn st) ! i\<rparr>"
  obtain c' where e: "enqueue ph sport b off len anc ?c = (e, c')" "w = \<lparr>nx = cx c', socketTable = (socketTable (sn st))[i := sk c']\<rparr>"
    using r by (auto simp: at_socket_def split: prod.splits)
  have q: "queue_ok (socketTable (sn st) ! i)" using inv i by (auto simp: udp_inv_def)
  from e(1) b show ?thesis
  proof (cases rule: enqueue_result)
    case (queued q)
    with q i show ?thesis unfolding e(2)
      by (intro inv_update [OF inv i]) (auto simp: queue_ok_def rq_held_def ac_simps)
  next
    case full
    with q i show ?thesis unfolding e(2) by (intro inv_update [OF inv i]) auto
  next
    case memory
    with q i show ?thesis unfolding e(2) by (intro inv_update [OF inv i]) auto
  qed
qed

text \<open>What \<open>udpProcessDatagram\<close> does with a datagram whose header starts the memory \<open>m\<close>.\<close>

definition udp_valid :: "IpPseudoHeader \<Rightarrow> NetBuffer \<Rightarrow> nat \<Rightarrow> u8 list \<Rightarrow> bool" where
  "udp_valid ph b off m \<longleftrightarrow>
     of_le16 (m ! 6) (m ! 7) = 0 \<and> phLength ph \<noteq> SIZEOF_IPV6_PSEUDO_HEADER \<or>
     ipCalcUpperLayerChecksumEx 0 (pseudoHeader_bytes ph) b off (netBufferGetLength b - off) = 0"

lemma udpProcessDatagram_cases:
  assumes "udpProcessDatagram callback ifc ph b off anc st = Some (e, st')"
  obtains (rejected) "st' = st" "e \<in> {ERROR_INVALID_HEADER, ERROR_FAILURE, ERROR_WRONG_CHECKSUM}"
  | (called) a m where "8 \<le> netBufferGetLength b - off" "netBufferAt b off = Some (a, m)" "8 \<le> length m" "udp_valid ph b off m"
      "find_dgram ifc ph (of_be16 (m ! 0) (m ! 1)) (of_be16 (m ! 2) (m ! 3)) (socketTable (sn st)) 0 = None"
      "udpInvokeRxCallback callback ifc ph (take 8 m) b (off + 8) anc st = (e, st')"
  | (found) a m i w where "8 \<le> netBufferGetLength b - off" "netBufferAt b off = Some (a, m)" "8 \<le> length m" "udp_valid ph b off m"
      "find_dgram ifc ph (of_be16 (m ! 0) (m ! 1)) (of_be16 (m ! 2) (m ! 3)) (socketTable (sn st)) 0 = Some i"
      "at_socket i (enqueue ph (of_be16 (m ! 0) (m ! 1)) b (off + 8) (netBufferGetLength b - off - 8) anc) (sn st) = (e, w)"
      "st' = st\<lparr>sn := w\<rparr>"
proof (cases "netBufferGetLength b - off < 8")
  case True
  then show ?thesis using assms by (intro rejected) (simp_all add: udpProcessDatagram_def)
next
  case len: False
  show ?thesis
  proof (cases "netBufferAt b off")
    case None
    then show ?thesis using assms len by (intro rejected) (simp_all add: udpProcessDatagram_def)
  next
    case (Some am)
    obtain a m where am: "netBufferAt b off = Some (a, m)" using Some by (cases am) simp
    have m: "8 \<le> length m"
      by (rule ccontr) (use assms len am in \<open>simp add: udpProcessDatagram_def not_le\<close>)
    show ?thesis
    proof (cases "udp_valid ph b off m")
      case False
      then show ?thesis using assms len am m
        by (intro rejected) (simp_all add: udpProcessDatagram_def udp_valid_def Let_def)
    next
      case v: True
      then have nv: "\<not> ((of_le16 (m ! 6) (m ! 7) \<noteq> 0 \<or> phLength ph = SIZEOF_IPV6_PSEUDO_HEADER) \<and>
          ipCalcUpperLayerChecksumEx 0 (pseudoHeader_bytes ph) b off (netBufferGetLength b - off) \<noteq> 0)"
        by (auto simp: udp_valid_def)
      let ?sp = "of_be16 (m ! 0) (m ! 1)" and ?dp = "of_be16 (m ! 2) (m ! 3)" and ?n = "netBufferGetLength b - off - 8"
      have r: "Some (e, st') = (case find_dgram ifc ph ?sp ?dp (socketTable (sn st)) 0 of
            None \<Rightarrow> Some (udpInvokeRxCallback callback ifc ph (take 8 m) b (off + 8) anc st)
          | Some i \<Rightarrow> let (e, w) = at_socket i (enqueue ph ?sp b (off + 8) ?n anc) (sn st) in Some (e, st\<lparr>sn := w\<rparr>))"
        unfolding assms [symmetric] udpProcessDatagram_def Let_def if_not_P [OF len] am option.case prod.case
          if_not_P [OF m [unfolded linorder_not_less [symmetric]]] if_not_P [OF nv] ..
      show ?thesis
      proof (cases "find_dgram ifc ph ?sp ?dp (socketTable (sn st)) 0")
        case None
        then show ?thesis using r len am m v by (intro called) simp_all
      next
        case (Some i)
        obtain e1 w where w: "at_socket i (enqueue ph ?sp b (off + 8) ?n anc) (sn st) = (e1, w)" by fastforce
        then show ?thesis using r len am m v Some by (intro found [of a m i w]) simp_all
      qed
    qed
  qed
qed


definition callback_keeps :: "rx_callback \<Rightarrow> bool" where
  "callback_keeps callback \<longleftrightarrow>
     (\<forall>B f ifc ph h b off anc p st. udp_inv B st \<longrightarrow> udp_inv B (callback f ifc ph h b off anc p st))"

lemma invoke_loop_inv:
  assumes "\<And>f p st. udp_inv B st \<Longrightarrow> udp_inv B (run f p st)" and "udp_inv B (snd r)"
  shows "udp_inv B (snd (invoke_loop run ifc port is r))"
  using assms(2) by (induction "is" arbitrary: r) (auto simp: Let_def assms(1) split: option.splits)

lemma attach_loop_length: "attach_loop d es = Some t \<Longrightarrow> length t = length es"
  by (induction es arbitrary: t) (auto split: if_splits)

lemma detach_loop_length: "length (snd (detach_loop ifc port err es)) = length es"
  by (induction es arbitrary: err) (auto simp: split_beta)

lemma udp_step_inv:
  assumes "udp_step callback st st'" and "callback_keeps callback" and inv: "udp_inv B st"
  shows "udp_inv B st'"
  using assms(1)
proof cases
  case (arrive ifc ph b off anc e)
  let ?len = "netBufferGetLength b - off"
  have l: "netBufferGetLength b = length (nb_bytes b)" using netBufferGetLength_bytes [OF arrive(2)] .
  from arrive(1) show ?thesis
  proof (cases rule: udpProcessDatagram_cases)
    case (called a m)
    then have "st' = snd (udpInvokeRxCallback callback ifc ph (take 8 m) b (off + 8) anc st)" by simp
    then show ?thesis using assms(2) inv
      unfolding udpInvokeRxCallback_def callback_keeps_def by (auto intro: invoke_loop_inv)
  next
    case (found a m i w)
    from find_dgram_Some [OF found(5)] have i: "i < length (socketTable (sn st))" "sk_type (socketTable (sn st) ! i) = SOCKET_TYPE_DGRAM"
      by (auto simp: dgram_matches_def)
    from found(1) l have "off + 8 + (?len - 8) \<le> length (nb_bytes b)" by simp
    from enqueue_inv [OF inv i \<open>nb_wf b\<close> this \<open>pseudo_ok ph\<close> found(6)] show ?thesis by (simp add: found(7))
  qed (simp add: inv)
next
  case (read i fl wait buf sz r w)
  let ?s = "socketTable (sn st) ! i" and ?c = "\<lparr>cx = nx (sn st), sk = socketTable (sn st) ! i\<rparr>"
  obtain e d c' where u: "udpReceiveDatagram wait sz fl ?c = (e, d, c')" by (metis prod_cases3)
  have w: "w = \<lparr>nx = cx c', socketTable = (socketTable (sn st))[i := sk c']\<rparr>"
    using read(5) u read(3) by (auto simp: socketReceiveEx_def at_socket_def split: option.splits)
  have q: "queue_ok ?s" using inv read(2,3) by (auto simp: udp_inv_def)
  have sub: "rq_held ?s \<subseteq># mset (live (nx (sn st)))"
    using dgram_held_member [OF read(2,3)] inv by (auto simp: udp_inv_def intro: subset_mset.order_trans)
  show ?thesis
  proof (cases "receiveQueue ?s")
    case Nil
    then have "c' = ?c" using receive_empty [of ?c fl wait sz] read(4) u by simp
    then show ?thesis unfolding read(1) w using q read(3) by (intro inv_update [OF inv read(2,3)]) auto
  next
    case (Cons t qs)
    then have "item_ok t" using q by (simp add: queue_ok_def)
    with receive_result [OF _ this _ u] Cons sub have r: "receiveQueue (sk c') = (if has_opt fl SOCKET_FLAG_PEEK then t # qs else qs)"
      "sk_type (sk c') = SOCKET_TYPE_DGRAM"
      "mset (live (cx c')) = (if has_opt fl SOCKET_FLAG_PEEK then mset (live (nx (sn st))) else mset (live (nx (sn st))) - rq_blocks t)"
      using read(3) by auto
    have "rq_held ?s = rq_blocks t + sum_list (map rq_blocks qs)" by (simp add: rq_held_def Cons)
    moreover from this sub obtain M where M: "mset (live (nx (sn st))) = rq_blocks t + sum_list (map rq_blocks qs) + M"
      by (auto simp: mset_subset_eq_exists_conv)
    moreover have "queue_ok (sk c')" using q r(1) Cons by (cases "has_opt fl SOCKET_FLAG_PEEK") (simp_all add: queue_ok_def)
    moreover have "rq_held (sk c') = (if has_opt fl SOCKET_FLAG_PEEK then rq_held ?s else sum_list (map rq_blocks qs))"
      by (simp add: rq_held_def r(1) Cons)
    ultimately show ?thesis unfolding read(1) w using r(2,3)
      by (intro inv_update [OF inv read(2,3)]) (simp_all add: ac_simps)
  qed
next
  case (attach ifc port f param e)
  then show ?thesis using inv attach_loop_length
    by (fastforce simp: udpAttachRxCallback_def udp_inv_def split: option.splits)
next
  case (detach ifc port e)
  then show ?thesis using inv detach_loop_length [of ifc port ERROR_FAILURE "udpCallbackTable st"]
    by (auto simp: udpDetachRxCallback_def udp_inv_def split_beta)
qed


section \<open>Properties\<close>


definition example_stack :: stack where
  "example_stack = \<lparr>sn = \<lparr>nx = example_ctx, socketTable = [zeroSocket\<lparr>sk_type := SOCKET_TYPE_DGRAM, localPort := 7\<rparr>]\<rparr>,
     udpCallbackTable = replicate 10 \<lparr>cbInterface = None, cbPort = 0, cbCallback = None, cbParam = None\<rparr>\<rparr>"

definition example_arrival :: NetBuffer where
  "example_arrival = \<lparr>maxChunkCount = 1, chunk = [\<lparr>address = 0, storage = [0x13, 0x88, 0, 7, 0, 10, 0, 0, 1, 2], chLength = 10, chSize = 0\<rparr>]\<rparr>"


text \<open>
  Reading a UDP socket takes the datagrams in the order of their arrival: the data is the payload
  of the oldest one, cut to the user's buffer, with the addresses and the port it came with; its memory is given
  back, unless the user only peeks, when nothing changes.
\<close>

theorem udp_receive_oldest:
  assumes "receiveQueue (sk c) = q # qs" and "item_ok q" and "rq_held (sk c) \<subseteq># mset (live (cx c))"
    and "udpReceiveDatagram wait sz fl c = (e, r, c')"
  shows "e = NO_ERROR \<and> r = Some (case datagram_of q of (d, rest) \<Rightarrow> (take sz d, rest)) \<and>
    (if has_opt fl SOCKET_FLAG_PEEK then receiveQueue (sk c') = q # qs \<and> live (cx c') = live (cx c)
     else receiveQueue (sk c') = qs \<and> mset (live (cx c')) = mset (live (cx c)) - rq_blocks q)"
proof -
  have "live (cx c') = live (cx c)" if "has_opt fl SOCKET_FLAG_PEEK"
    using assms(1,4) that by (auto simp: udpReceiveDatagram_def Let_def)
  then show ?thesis using receive_result [OF assms] by simp
qed

definition example_item :: SocketQueueItem where
  "example_item = \<lparr>rqSrcIpAddr = \<lparr>ipLength = 4, ipData = [10, 0, 0, 1]\<rparr>, rqSrcPort = 5000,
     rqDestIpAddr = \<lparr>ipLength = 4, ipData = [10, 0, 0, 2]\<rparr>, rqAddress = 3,
     rqBuffer = \<lparr>maxChunkCount = 9, chunk = [\<lparr>address = 83, storage = replicate 64 0 @ [1, 2, 3], chLength = 67, chSize = 0\<rparr>]\<rparr>,
     rqOffset = 64, rqAncillary = NET_DEFAULT_ANCILLARY_DATA\<rparr>"

theorem udp_receive_oldest_witness:
  "\<exists>c'. udpReceiveDatagram (\<lambda>t c. c) 2 0 \<lparr>cx = example_ctx\<lparr>live := [3]\<rparr>, sk = zeroSocket\<lparr>receiveQueue := [example_item]\<rparr>\<rparr> =
     (NO_ERROR, Some ([1, 2], \<lparr>ipLength = 4, ipData = [10, 0, 0, 1]\<rparr>, 5000, \<lparr>ipLength = 4, ipData = [10, 0, 0, 2]\<rparr>), c') \<and>
     live (cx c') = []"
proof -
  let ?c = "\<lparr>cx = example_ctx\<lparr>live := [3]\<rparr>, sk = zeroSocket\<lparr>receiveQueue := [example_item]\<rparr>\<rparr>"
  obtain e r c' where u: "udpReceiveDatagram (\<lambda>t c. c) 2 0 ?c = (e, r, c')" by (metis prod_cases3)
  have ok: "receiveQueue (sk ?c) = example_item # []" "item_ok example_item" "rq_held (sk ?c) \<subseteq># mset (live (cx ?c))"
    by (simp_all add: item_ok_def addr_ok_def example_item_def nb_wf_def chunk_wf_def nb_bytes_def rq_held_def rq_blocks_def owned_def)
  have d: "datagram_of example_item = ([1, 2, 3], \<lparr>ipLength = 4, ipData = [10, 0, 0, 1]\<rparr>, 5000, \<lparr>ipLength = 4, ipData = [10, 0, 0, 2]\<rparr>)"
    "rq_blocks example_item = {#3#}"
    by (simp_all add: datagram_of_def example_item_def nb_bytes_def chunk_bytes_def rq_blocks_def owned_def)
  have "e = NO_ERROR" "r = Some ([1, 2], \<lparr>ipLength = 4, ipData = [10, 0, 0, 1]\<rparr>, 5000, \<lparr>ipLength = 4, ipData = [10, 0, 0, 2]\<rparr>)"
    "live (cx c') = []"
    using udp_receive_oldest [OF ok u] by (simp_all add: d has_opt_def)
  with u show ?thesis by blast
qed



end
