(* ===== verification/Icmp.thy ===== *)
theory Icmp
  imports Udp Ipv4_Frag
begin

text \<open>
  ICMP (\<open>ipv4/icmp.c\<close>) and the dispatch of a received datagram to its protocol
  (\<open>ipv4ProcessDatagram\<close> of \<open>ipv4/ipv4.c\<close>). With an IPv4 pseudo header, \<open>ipSendDatagram\<close> is
  \<open>ipv4SendDatagram\<close>. A header that does not lie in one block of memory is read beyond it: the result
  is \<open>None\<close>. IGMP and raw sockets are disabled in the default configuration; the statistics are the
  subject of the MIB modules.
\<close>

section \<open>ICMP\<close>

abbreviation (input) ICMP_TYPE_ECHO_REPLY :: u8 where "ICMP_TYPE_ECHO_REPLY \<equiv> 0"
abbreviation (input) ICMP_TYPE_DEST_UNREACHABLE :: u8 where "ICMP_TYPE_DEST_UNREACHABLE \<equiv> 3"
abbreviation (input) ICMP_TYPE_ECHO_REQUEST :: u8 where "ICMP_TYPE_ECHO_REQUEST \<equiv> 8"
abbreviation (input) ICMP_CODE_PROTOCOL_UNREACHABLE :: u8 where "ICMP_CODE_PROTOCOL_UNREACHABLE \<equiv> 2"
abbreviation (input) ICMP_CODE_PORT_UNREACHABLE :: u8 where "ICMP_CODE_PORT_UNREACHABLE \<equiv> 3"
abbreviation (input) SIZEOF_ICMP_HEADER :: nat where "SIZEOF_ICMP_HEADER \<equiv> 4"
abbreviation (input) SIZEOF_ICMP_ECHO_MESSAGE :: nat where "SIZEOF_ICMP_ECHO_MESSAGE \<equiv> 8"
abbreviation (input) SIZEOF_ICMP_ERROR_MESSAGE :: nat where "SIZEOF_ICMP_ERROR_MESSAGE \<equiv> 8"

definition icmp_pseudo :: "u8 list \<Rightarrow> u8 list \<Rightarrow> nat \<Rightarrow> IpPseudoHeader" where
  "icmp_pseudo src dest len =
     \<lparr>phLength = SIZEOF_IPV4_PSEUDO_HEADER, phSrcAddr = src, phDestAddr = dest, phProtocol = 1, phDataLength = of_nat len\<rparr>"

text \<open>
  The interface and source address of the reply; none when a broadcast request is not answered.
  \<open>bcastEcho\<close> is the setting \<open>enableBroadcastEchoReq\<close> of the interface.
\<close>

definition echo_source :: "bool \<Rightarrow> nat \<Rightarrow> IpPseudoHeader \<Rightarrow> ctx \<Rightarrow> (nat option \<times> u8 list) option \<times> ctx" where
  "echo_source bcastEcho ifc ph x =
     (if isBroadcastAddr x ifc (phDestAddr ph) \<or> ipv4IsMulticastAddr (phDestAddr ph) then
        if \<not> bcastEcho then (None, x)
        else let (e, i, a) = sourceResult x (calls x); x = tick_call x
             in if e \<noteq> NO_ERROR then (None, x) else (Some (i, take 4 a), x)
      else (Some (Some ifc, phDestAddr ph), x))"

text \<open>Answering with a message that starts with \<open>hdr\<close> and goes on with a part of the packet \<open>b\<close>.\<close>

definition icmp_send ::
  "nat option \<Rightarrow> u8 list \<Rightarrow> u8 list \<Rightarrow> u8 list \<Rightarrow> NetBuffer \<Rightarrow> nat \<Rightarrow> nat \<Rightarrow> ctx \<Rightarrow> error_t \<times> ctx" where
  "icmp_send ifc src dest hdr b off len x =
     (case ipAllocBuffer x SIZEOF_ICMP_ECHO_MESSAGE of
        (None, x) \<Rightarrow> (ERROR_OUT_OF_MEMORY, x)
      | (Some (a, reply, roff), x) \<Rightarrow>
          (let reply = netBufferPoke reply roff hdr;
               (e, reply) = netBufferConcat reply b off len;
               (e, x) =
                 (if e = NO_ERROR then
                    let n = netBufferGetLength reply - roff;
                        reply = netBufferPoke reply (roff + 2) (le16 (ipCalcChecksumEx reply roff n))
                    in ipSendDatagram x ifc (icmp_pseudo src dest n) reply roff NET_DEFAULT_ANCILLARY_DATA
                  else (e, x))
           in (e, bufFree x a reply)))"

definition icmpProcessEchoRequest :: "bool \<Rightarrow> nat \<Rightarrow> IpPseudoHeader \<Rightarrow> NetBuffer \<Rightarrow> nat \<Rightarrow> ctx \<Rightarrow> ctx option" where
  "icmpProcessEchoRequest bcastEcho ifc ph b off x =
     (let len = netBufferGetLength b - off
      in if len < SIZEOF_ICMP_ECHO_MESSAGE then Some x
         else case netBufferAt b off of
           None \<Rightarrow> Some x
         | Some (_, m) \<Rightarrow>
             if length m < SIZEOF_ICMP_ECHO_MESSAGE then None
             else (case echo_source bcastEcho ifc ph x of
                 (None, x) \<Rightarrow> Some x
               | (Some (i, src), x) \<Rightarrow>
                   Some (snd (icmp_send i src (phSrcAddr ph) ([ICMP_TYPE_ECHO_REPLY, 0, 0, 0] @ take 4 (drop 4 m))
                     b (off + SIZEOF_ICMP_ECHO_MESSAGE) (len - SIZEOF_ICMP_ECHO_MESSAGE) x))))"

definition icmpProcessMessage :: "bool \<Rightarrow> nat \<Rightarrow> IpPseudoHeader \<Rightarrow> NetBuffer \<Rightarrow> nat \<Rightarrow> ctx \<Rightarrow> ctx option" where
  "icmpProcessMessage bcastEcho ifc ph b off x =
     (let len = netBufferGetLength b - off
      in if len < SIZEOF_ICMP_HEADER then Some x
         else case netBufferAt b off of
           None \<Rightarrow> Some x
         | Some (_, m) \<Rightarrow>
             if m = [] then None
             else if ipCalcChecksumEx b off len \<noteq> 0 then Some x
             else if m ! 0 = ICMP_TYPE_ECHO_REQUEST then icmpProcessEchoRequest bcastEcho ifc ph b off x
             else Some x)"

definition icmpSendErrorMessage ::
  "nat \<Rightarrow> u8 \<Rightarrow> u8 \<Rightarrow> u8 \<Rightarrow> NetBuffer \<Rightarrow> nat \<Rightarrow> ctx \<Rightarrow> (error_t \<times> ctx) option" where
  "icmpSendErrorMessage ifc ty code param b off x =
     (let len = netBufferGetLength b - off
      in if len < 20 then Some (ERROR_INVALID_LENGTH, x)
         else case netBufferAt b off of
           None \<Rightarrow> Some (ERROR_FAILURE, x)
         | Some (_, m) \<Rightarrow>
             if length m < 20 then None
             else
               let src = take 4 (drop 12 m); dest = take 4 (drop 16 m)
               in if isBroadcastAddr x ifc dest \<or> ipv4IsMulticastAddr dest then Some (ERROR_INVALID_ADDRESS, x)
                  else Some (icmp_send (Some ifc) dest src [ty, code, 0, 0, param, 0, 0, 0] b off
                         (min len (unat (m ! 0 AND 0x0F) * 4 + 8)) x))"

section \<open>Dispatch\<close>

definition on_net :: "(net \<Rightarrow> net option) \<Rightarrow> stack \<Rightarrow> stack option" where
  "on_net f st = map_option (\<lambda>w. st\<lparr>sn := w\<rparr>) (f (sn st))"

definition on_ctx :: "(ctx \<Rightarrow> ctx option) \<Rightarrow> stack \<Rightarrow> stack option" where
  "on_ctx f st = map_option (\<lambda>x. st\<lparr>sn := (sn st)\<lparr>nx := x\<rparr>\<rparr>) (f (nx (sn st)))"

definition ipv4_pseudo :: "u8 list \<Rightarrow> nat \<Rightarrow> IpPseudoHeader" where
  "ipv4_pseudo m len =
     \<lparr>phLength = SIZEOF_IPV4_PSEUDO_HEADER, phSrcAddr = take 4 (drop 12 m), phDestAddr = take 4 (drop 16 m),
      phProtocol = m ! 9, phDataLength = of_nat len\<rparr>"

definition destUnreachable :: "nat \<Rightarrow> u8 \<Rightarrow> NetBuffer \<Rightarrow> stack \<Rightarrow> stack option" where
  "destUnreachable ifc code b =
     on_ctx (\<lambda>x. map_option snd (icmpSendErrorMessage ifc ICMP_TYPE_DEST_UNREACHABLE code 0 b 0 x))"

definition ipv4ProcessDatagram ::
  "rx_callback \<Rightarrow> bool \<Rightarrow> nat \<Rightarrow> NetBuffer \<Rightarrow> NetAncillaryData \<Rightarrow> stack \<Rightarrow> stack option" where
  "ipv4ProcessDatagram callback bcastEcho ifc b anc st =
     (case netBufferAt b 0 of
        None \<Rightarrow> Some st
      | Some (_, m) \<Rightarrow>
          if length m < 20 then None
          else
            let off = unat (m ! 0 AND 0x0F) * 4;
                ph = ipv4_pseudo m (netBufferGetLength b - off)
            in if m ! 9 = 1 then on_ctx (icmpProcessMessage bcastEcho ifc ph b off) st
               else if m ! 9 = 6 then on_net (tcpProcessSegment ifc ph b off) st
               else if m ! 9 = 17 then
                 (case udpProcessDatagram callback ifc ph b off anc st of
                    None \<Rightarrow> None
                  | Some (e, st) \<Rightarrow>
                      if e = ERROR_PORT_UNREACHABLE then destUnreachable ifc ICMP_CODE_PORT_UNREACHABLE b st else Some st)
               else destUnreachable ifc ICMP_CODE_PROTOCOL_UNREACHABLE b st)"

end
