(* ===== verification/Ipv4_Reassembly.thy ===== *)
theory Ipv4_Reassembly
  imports Ipv4_Holes
begin

text \<open>
  Reassembly of a datagram from its fragments: in whatever order they arrive, duplicated or
  overlapping, the datagram is delivered when it is complete, with its header and payload. The
  abstract state is the set of bytes received so far; taking in a fragment refines the union with
  the bytes of the fragment (\<open>add_fragment_step\<close>). Two crafted fragments that do not belong to a
  datagram, however, leave a hole linked to itself: the loop over the holes does not end.
\<close>

section \<open>Fragments of a datagram\<close>

text \<open>The header of the complete datagram: length, fragmentation fields and checksum are set.\<close>

definition mend :: "nat \<Rightarrow> u8 list \<Rightarrow> u8 list" where
  "mend n h = list_write (list_write (list_write h 2 (be16 (of_nat (length h + n)))) 6 [0, 0]) 10 [0, 0]"

definition frag_first :: "u8 list \<Rightarrow> nat" where
  "frag_first p = 8 * unat (ip4_fragmentOffset p AND IPV4_OFFSET_MASK)"

definition frag_range :: "u8 list \<times> nat \<Rightarrow> nat set" where
  "frag_range pl = {frag_first (fst pl) ..< frag_first (fst pl) + (snd pl - ip4_headerLength (fst pl))}"

text \<open>
  The packet \<open>p\<close> of \<open>len\<close> bytes is a fragment of the datagram with header \<open>hdr\<close> and payload \<open>D\<close>: it
  carries the bytes of \<open>D\<close> at its offset, says whether more follow, and has the addresses,
  identification and protocol of the datagram.
\<close>

definition fragment_of :: "u8 list \<Rightarrow> u8 list \<Rightarrow> u8 list \<times> nat \<Rightarrow> bool" where
  "fragment_of hdr D pl \<longleftrightarrow>
     (let p = fst pl; len = snd pl; hl = ip4_headerLength p; df = frag_first p; n = len - hl;
          mf = (ip4_fragmentOffset p AND IPV4_FLAG_MF \<noteq> 0)
      in 20 \<le> hl \<and> hl < len \<and> len \<le> length p \<and> hl + length D \<le> IPV4_MAX_FRAG_DATAGRAM_SIZE \<and>
         df + n \<le> length D \<and> (mf \<longleftrightarrow> df + n < length D) \<and> (mf \<longrightarrow> 8 dvd n) \<and>
         take n (drop hl p) = take n (drop df D) \<and> ip4_same hdr p \<and>
         (df = 0 \<longrightarrow> hl = length hdr \<and> mend (length D) (take hl p) = mend (length D) hdr))"

section \<open>A datagram under reassembly\<close>

definition hole_set :: "(u16 \<times> u16) list \<Rightarrow> nat set" where
  "hole_set hs = (\<Union>h \<in> set hs. {unat (fst h) ..< unat (snd h)})"

definition missing :: "u8 list \<Rightarrow> nat set \<Rightarrow> nat set" where
  "missing D R = (if length D - 1 \<in> R then {..<length D} else {..<65535}) - R"

definition header_of :: "Ipv4FragDesc \<Rightarrow> u8 list" where
  "header_of frag = take (fragHeaderLength frag) (storage (hd (chunk (fragBuffer frag))))"

definition header_done :: "u8 list \<Rightarrow> u8 list \<Rightarrow> Ipv4FragDesc \<Rightarrow> bool" where
  "header_done hdr D frag \<longleftrightarrow> fragHeaderLength frag = length hdr \<and> mend (length D) (header_of frag) = mend (length D) hdr"

text \<open>
  The bytes \<open>R\<close> of the datagram have been received: the list of holes describes exactly the missing
  ones, where the end is open until the last fragment has come, and the memory holds the others.
\<close>

definition tracks :: "u8 list \<Rightarrow> nat set \<Rightarrow> Ipv4FragDesc \<Rightarrow> (u16 \<times> u16) list \<Rightarrow> bool" where
  "tracks D S frag hs \<longleftrightarrow> holes_to frag hs IPV4_INFINITY \<and> wf_holes frag hs \<and> hole_set hs = S \<and>
     (\<forall>h \<in> set hs. unat (fst h) < length D \<and> (8 dvd unat (snd h) \<or> snd h = IPV4_INFINITY))"

definition assembling :: "u8 list \<Rightarrow> u8 list \<Rightarrow> nat set \<Rightarrow> Ipv4FragDesc \<Rightarrow> bool" where
  "assembling hdr D R frag \<longleftrightarrow> frag_ok frag \<and> fragDataLen frag \<le> length D \<and> R \<subseteq> {..<fragDataLen frag} \<and>
     fragHeaderLength frag + length D \<le> IPV4_MAX_FRAG_DATAGRAM_SIZE \<and>
     (\<exists>hs. tracks D (missing D R) frag hs) \<and> (\<forall>p \<in> R. fmem frag ! p = D ! p) \<and>
     ip4_same (storage (hd (chunk (fragBuffer frag)))) hdr \<and> (0 \<in> R \<longrightarrow> header_done hdr D frag)"

lemma ip4_headerLength_le: "ip4_headerLength p \<le> 60"
proof -
  have "unat (p ! 0 AND 0x0F) \<le> unat (0x0F :: u8)" by (rule word_le_nat_alt [THEN iffD1]) (rule word_and_le1)
  then show ?thesis by (simp add: ip4_headerLength_def)
qed

lemma ip4_same_sym: "ip4_same d p \<Longrightarrow> ip4_same p d"
  by (auto simp: ip4_same_def)

lemma ip4_same_trans: "ip4_same d p \<Longrightarrow> ip4_same p e \<Longrightarrow> ip4_same d e"
  by (auto simp: ip4_same_def)

lemma ip4_same_write:
  assumes "20 \<le> n" and "n \<le> length p" and "n \<le> length st"
  shows "ip4_same (list_write st 0 (take n p)) p"
proof -
  have "take k (drop i (take n p @ ys)) = take k (drop i p)" if "i + k \<le> 20" for i k ys
    using that assms by (simp add: drop_take)
  with assms show ?thesis by (simp add: ip4_same_def list_write_def nth_append)
qed

text \<open>The header of the fragment that starts the datagram.\<close>

lemma write_header:
  assumes "length st = 1536" and "hl \<le> 60" and "0 < hl" and "hl \<le> length p" and "b = \<lparr>maxChunkCount = k, chunk = c # cs\<rparr>" and "storage c = st"
  shows "snd (netBufferWrite (fix_first hl b) 0 (take hl p)) =
    \<lparr>maxChunkCount = k, chunk = c\<lparr>chLength := hl, storage := list_write st 0 (take hl p)\<rparr> # cs\<rparr>"
proof -
  have "write_loop cs 0 [] = (0, cs)" by (cases cs) auto
  with assms show ?thesis by (auto simp: netBufferWrite_def fix_first_def chunk_put_def split_beta)
qed

lemma take_header_raw:
  assumes ok: "frag_ok frag" and hl: "20 \<le> ip4_headerLength p" "ip4_headerLength p < length p"
    and sz: "ip4_headerLength p + fragDataLen frag \<le> IPV4_MAX_FRAG_DATAGRAM_SIZE"
  shows "\<exists>g. take_header p frag = (True, g) \<and> frag_ok g \<and> fragHeaderLength g = ip4_headerLength p \<and> fragDataLen g = fragDataLen frag \<and>
    firstHole g = firstHole frag \<and> fmem g = fmem frag \<and> header_of g = take (ip4_headerLength p) p \<and>
    ip4_same (storage (hd (chunk (fragBuffer g)))) p"
  using ok
proof (rule frag_okE)
  let ?hl = "ip4_headerLength p"
  fix c cs assume c: "chunk (fragBuffer frag) = c # cs" "length (storage c) = 1536" "chSize c = 1536"
    "chLength c = fragHeaderLength frag" "blocks cs (fragDataLen frag + 6)" "fmem frag = cmem cs"
    "maxChunkCount (fragBuffer frag) = 7"
  define st where "st = list_write (storage c) 0 (take ?hl p)"
  define c' where "c' = c\<lparr>chLength := ?hl, storage := st\<rparr>"
  define g where "g = frag\<lparr>fragHeaderLength := ?hl, fragBuffer := \<lparr>maxChunkCount = 7, chunk = c' # cs\<rparr>\<rparr>"
  have h60: "?hl \<le> 60" by (rule ip4_headerLength_le)
  have "0 < ?hl" "?hl \<le> length p" using hl by auto
  then have "snd (netBufferWrite (fix_first ?hl (fragBuffer frag)) 0 (take ?hl p)) = \<lparr>maxChunkCount = 7, chunk = c' # cs\<rparr>"
    using write_header [OF c(2) h60 _ _ _ refl, of p "fragBuffer frag" 7 cs] c by (simp add: c'_def st_def)
  then have th: "take_header p frag = (True, g)"
    using sz c h60 by (simp add: take_header_def Let_def g_def)
  have st: "length st = 1536" "take ?hl st = take ?hl p" using hl h60 c(2) by (simp_all add: st_def list_write_def)
  have "ip4_same st p" using hl h60 c(2) unfolding st_def by (intro ip4_same_write) auto
  with th st c hl(1) h60 show ?thesis by (simp add: frag_ok_def fmem_def header_of_def g_def c'_def)
qed

lemma hole_at_same: "fmem g = fmem f \<Longrightarrow> hole_at g = hole_at f"
  by (simp add: hole_at_def fun_eq_iff)

lemma take_header_ok:
  assumes as: "assembling hdr D R frag" and p: "fragment_of hdr D (p, len)" and z: "frag_first p = 0"
  shows "\<exists>frag'. take_header p frag = (True, frag') \<and> assembling hdr D R frag' \<and> header_done hdr D frag' \<and>
    fragDataLen frag' = fragDataLen frag"
proof -
  from p z have hl: "20 \<le> ip4_headerLength p" "ip4_headerLength p < length p" "ip4_headerLength p + length D \<le> 8192" "ip4_same hdr p"
    "ip4_headerLength p = length hdr" "mend (length D) (take (ip4_headerLength p) p) = mend (length D) hdr"
    by (auto simp: fragment_of_def Let_def)
  from as have ok: "frag_ok frag" and dl: "fragDataLen frag \<le> length D" by (simp_all add: assembling_def)
  have sz: "ip4_headerLength p + fragDataLen frag \<le> 8192" using dl hl(3) by simp
  from take_header_raw [OF ok hl(1,2) sz] obtain g where g: "take_header p frag = (True, g)" "frag_ok g"
    "fragHeaderLength g = ip4_headerLength p" "fragDataLen g = fragDataLen frag" "firstHole g = firstHole frag" "fmem g = fmem frag"
    "header_of g = take (ip4_headerLength p) p" "ip4_same (storage (hd (chunk (fragBuffer g)))) p" by blast
  have tr: "tracks D S g hs = tracks D S frag hs" for S hs
    by (simp add: tracks_def wf_holes_def slot_ok_def hole_at_same [OF g(6)] g(4,5))
  have done': "header_done hdr D g" using hl(5,6) g(3,7) by (simp add: header_done_def)
  have "ip4_same (storage (hd (chunk (fragBuffer g)))) hdr" using g(8) hl(4) by (auto intro: ip4_same_trans ip4_same_sym)
  then have "assembling hdr D R g" using as g(2) done' hl(3) unfolding assembling_def tr g(3,4,6) by simp
  with g(1,4) done' show ?thesis by blast
qed

text \<open>Making room for the fragment.\<close>

lemma hole_at_append:
  assumes "fmem g = fmem f @ ext" and "frag_ok f" and "slot_ok f a"
  shows "hole_at g a = hole_at f a"
proof -
  have "unat a < length (fmem f)" "5 < length (fmem f) - unat a" using slot_fits [OF assms(2,3)] by auto
  with assms(1) show ?thesis by (simp add: hole_at_def hole_of_def nth_append)
qed

lemma missing_R: "R \<subseteq> {..<length D} \<Longrightarrow> p < length D \<Longrightarrow> length D \<le> 65535 \<Longrightarrow> p \<in> missing D R \<longleftrightarrow> p \<notin> R"
  by (auto simp: missing_def)

lemma assembling_grow:
  assumes as: "assembling hdr D R frag" and ok: "frag_ok g" and m: "fmem g = fmem frag @ ext"
    and g: "firstHole g = firstHole frag" "fragHeaderLength g = fragHeaderLength frag"
      "hd (chunk (fragBuffer g)) = hd (chunk (fragBuffer frag))" "fragDataLen frag \<le> fragDataLen g" "fragDataLen g \<le> length D"
  shows "assembling hdr D R g"
proof -
  from as have f: "frag_ok frag" by (simp add: assembling_def)
  from as obtain hs where hs: "tracks D (missing D R) frag hs" by (auto simp: assembling_def)
  have "slot_ok g a" if "slot_ok frag a" for a using that g(4) by (simp add: slot_ok_def)
  then have wf: "wf_holes g hs" using hs by (simp add: tracks_def wf_holes_def)
  have "hole_at g a = hole_at frag a" if "a \<in> fst ` set hs" for a
    using that hs by (intro hole_at_append [OF m f]) (auto simp: tracks_def wf_holes_def)
  then have "holes_to g hs IPV4_INFINITY" using hs by (auto simp: tracks_def g(1) intro: hole_path_cong)
  with wf hs have tr: "tracks D (missing D R) g hs" by (simp add: tracks_def)
  have mem: "fmem g ! p = D ! p" if "p \<in> R" for p
  proof -
    have "p < length (fmem frag)" using that as fmem_length [OF f] by (auto simp: assembling_def)
    with that as show ?thesis by (simp add: assembling_def m nth_append)
  qed
  have h: "header_done hdr D g = header_done hdr D frag" by (simp add: header_done_def header_of_def g)
  have R: "R \<subseteq> {..<fragDataLen g}" using as g(4) by (force simp: assembling_def)
  show ?thesis using as tr mem R ok g(5) unfolding assembling_def h g(2,3) by blast
qed

lemma extend_frag_raw:
  assumes ok: "frag_ok frag" and sz: "fragHeaderLength frag + unat dl \<le> IPV4_MAX_FRAG_DATAGRAM_SIZE"
  shows "(\<exists>g x' ext. extend_frag dl frag x = (True, g, x') \<and> frag_ok g \<and> fmem g = fmem frag @ ext \<and>
      firstHole g = firstHole frag \<and> fragHeaderLength g = fragHeaderLength frag \<and> fragDataLen g = max (fragDataLen frag) (unat dl) \<and>
      hd (chunk (fragBuffer g)) = hd (chunk (fragBuffer frag)) \<and> ((\<forall>k. heapResult x k \<noteq> None) \<longrightarrow> heapResult x' = heapResult x))
    \<or> (\<exists>k. heapResult x k = None) \<and> fst (extend_frag dl frag x) = False"
proof (cases "fragDataLen frag < unat dl")
  case False
  with ok show ?thesis by (auto simp: extend_frag_def)
next
  case True
  from ok show ?thesis
  proof (rule frag_okE)
    fix c cs assume c: "chunk (fragBuffer frag) = c # cs" "length (storage c) = 1536" "chSize c = 1536"
      "chLength c = fragHeaderLength frag" "20 \<le> fragHeaderLength frag" "fragHeaderLength frag \<le> 60"
      "blocks cs (fragDataLen frag + 6)" "fmem frag = cmem cs" "maxChunkCount (fragBuffer frag) = 7"
    let ?n = "fragHeaderLength frag + (unat dl + 6)"
    obtain e x' b' where r: "bufSetLength x (fragBuffer frag) ?n = (e, x', b')" by (metis prod.exhaust)
    then have ex: "extend_frag dl frag x = (if e \<noteq> NO_ERROR then (False, frag\<lparr>fragBuffer := b'\<rparr>, x')
        else (True, frag\<lparr>fragBuffer := b', fragDataLen := unat dl\<rparr>, x'))"
      using True sz by (simp add: extend_frag_def add.assoc)
    have le: "fragDataLen frag + 6 \<le> unat dl + 6" "0 < fragDataLen frag + 6" using True by auto
    have sc: "(\<forall>k. heapResult x k \<noteq> None) \<longrightarrow> e = NO_ERROR \<and> heapResult x' = heapResult x"
      using bufSetLength_succeeds [OF c(1,7) le(2,1), of x] r c(4,9) sz c(5) by (auto simp: c(4))
    show ?thesis
    proof (cases "e = NO_ERROR")
      case True
      with bufSetLength_grow [OF c(1,7) le(2,1), of x x' b'] r c(4)
      obtain cs' ext where cs': "b' = (fragBuffer frag)\<lparr>chunk := c # cs'\<rparr>" "blocks cs' (unat dl + 6)" "cmem cs' = cmem cs @ ext" by auto
      let ?g = "frag\<lparr>fragBuffer := b', fragDataLen := unat dl\<rparr>"
      have "frag_ok ?g" using c cs' by (simp add: frag_ok_def)
      moreover have "fmem ?g = fmem frag @ ext" using c(8) cs'(1,3) by (simp add: fmem_def)
      ultimately show ?thesis using ex True sc cs'(1) c(1) \<open>fragDataLen frag < unat dl\<close> by (auto simp: max_def)
    next
      case False
      then show ?thesis using ex sc by auto
    qed
  qed
qed

lemma extend_frag_ok:
  assumes as: "assembling hdr D R frag" and dl: "unat dl \<le> length D"
  shows "(\<exists>frag' x'. extend_frag dl frag x = (True, frag', x') \<and> assembling hdr D R frag' \<and> unat dl \<le> fragDataLen frag' \<and>
      fragHeaderLength frag' = fragHeaderLength frag \<and> header_of frag' = header_of frag \<and>
      ((\<forall>k. heapResult x k \<noteq> None) \<longrightarrow> heapResult x' = heapResult x))
    \<or> (\<exists>k. heapResult x k = None) \<and> fst (extend_frag dl frag x) = False"
proof -
  from as dl have ok: "frag_ok frag" and sz: "fragHeaderLength frag + unat dl \<le> 8192" and le: "fragDataLen frag \<le> length D"
    by (simp_all add: assembling_def)
  from extend_frag_raw [OF ok sz, of x] show ?thesis
  proof (elim disjE exE conjE)
    fix g x' ext assume g: "extend_frag dl frag x = (True, g, x')" "frag_ok g" "fmem g = fmem frag @ ext" "firstHole g = firstHole frag"
      "fragHeaderLength g = fragHeaderLength frag" "fragDataLen g = max (fragDataLen frag) (unat dl)"
      "hd (chunk (fragBuffer g)) = hd (chunk (fragBuffer frag))" "(\<forall>k. heapResult x k \<noteq> None) \<longrightarrow> heapResult x' = heapResult x"
    have "assembling hdr D R g" using g le dl by (intro assembling_grow [OF as g(2,3,4,5,7)]) auto
    with g show ?thesis by (auto simp: header_of_def)
  qed blast
qed


text \<open>Cutting the fragment out of the holes.\<close>

lemma hole_set_simps [simp]:
  "hole_set [] = {}" "hole_set (h # hs) = {unat (fst h) ..< unat (snd h)} \<union> hole_set hs"
  "hole_set (xs @ ys) = hole_set xs \<union> hole_set ys"
  by (auto simp: hole_set_def)

lemma cut_hole_set:
  assumes "df < dl" and "\<not> mf \<longrightarrow> fst h < dl"
  shows "hole_set (cut_hole df dl mf h) = {unat (fst h) ..< unat (snd h)} - (if mf then {unat df ..< unat dl} else {unat df ..})"
  using assms by (auto simp: cut_hole_def word_less_nat_alt)

lemma cut_holes_set:
  assumes "df < dl" and "\<not> mf \<longrightarrow> (\<forall>h \<in> set hs. fst h < dl)"
  shows "hole_set (cut_holes df dl mf hs) = hole_set hs - (if mf then {unat df ..< unat dl} else {unat df ..})"
  using assms(2)
proof (induction hs)
  case (Cons h hs)
  with cut_hole_set [OF assms(1), of mf h] show ?case by (auto simp: cut_holes_def split: if_splits)
qed (simp add: cut_holes_def)

lemma missing_cut:
  assumes "dl = length D \<or> mf" and "mf \<longleftrightarrow> dl < length D" and "df < dl" and "R \<subseteq> {..<length D}" and "length D \<le> 65535"
  shows "missing D R - (if mf then {df ..< dl} else {df ..}) = missing D (R \<union> {df ..< dl})"
proof (cases mf)
  case True
  then have "length D - 1 \<notin> {df..<dl}" using assms(2,3) by auto
  with True show ?thesis by (auto simp: missing_def)
next
  case False
  then have "length D - 1 \<in> {df..<dl}" "dl = length D" using assms(1,3) by auto
  with False assms(4,5) show ?thesis by (auto simp: missing_def split: if_splits)
qed

lemma slot_in_holes:
  assumes "tracks D S frag hs" and "h \<in> set hs" and "length D \<le> 8192"
  shows "{unat (fst h) ..< unat (fst h) + 6} \<subseteq> S"
proof -
  have "unat (fst h) < unat (snd h)" "8 dvd unat (fst h)" "unat (fst h) < 8192" "8 dvd unat (snd h) \<or> snd h = IPV4_INFINITY"
    using assms by (auto simp: tracks_def wf_holes_def slot_ok_def word_less_nat_alt)
  then have "unat (fst h) + 6 \<le> unat (snd h)" using aligned_gap [of "unat (fst h)" "unat (snd h)"] by auto
  moreover have "{unat (fst h) ..< unat (snd h)} \<subseteq> S" using assms(1,2) by (auto simp: tracks_def hole_set_def)
  ultimately show ?thesis by auto
qed

lemma hole_loop_tracks:
  assumes ok: "frag_ok frag" and tr: "tracks D (missing D R) frag hs" and R: "R \<subseteq> {..<length D}" and D: "length D \<le> 8172"
    and df: "df < dl" "8 dvd unat df" and dl: "unat dl \<le> fragDataLen frag" "fragDataLen frag \<le> length D"
    and mf: "mf \<longleftrightarrow> unat dl < length D" "mf \<longrightarrow> 8 dvd unat dl"
  defines "R' \<equiv> R \<union> {unat df ..< unat dl}"
  shows "\<exists>frag' hs'. hole_loop df dl mf None (firstHole frag) frag = Some frag' \<and> frag_ok frag' \<and> same_frag frag frag' \<and>
    tracks D (missing D R') frag' hs' \<and> (\<forall>p \<in> R'. p < length (fmem frag) \<longrightarrow> fmem frag' ! p = fmem frag ! p)"
proof -
  let ?hs' = "cut_holes df dl mf hs"
  have wf: "holes_to frag hs IPV4_INFINITY" "wf_holes frag ([] @ hs)" and st: "hole_set hs = missing D R"
    and hs: "\<forall>h \<in> set hs. unat (fst h) < length D \<and> (8 dvd unat (snd h) \<or> snd h = IPV4_INFINITY)"
    using tr by (auto simp: tracks_def)
  have sl: "mf \<longrightarrow> slot_ok frag dl" using mf dl by (simp add: slot_ok_def)
  have n: "fragDataLen frag + 6 \<le> 65535" using dl D by simp
  have e: "holes_to frag [] (firstHole frag)" by simp
  from hole_loop_ok [OF ok e wf(1) wf(2) df(1) sl n] obtain frag' where f: "hole_loop df dl mf None (firstHole frag) frag = Some frag'" "frag_ok frag'"
    "same_frag frag frag'" "holes_to frag' ?hs' IPV4_INFINITY" "wf_holes frag' ?hs'" "touched (fst ` set ?hs') frag frag'"
    by (auto simp: prev_of_def)
  have "unat dl = length D \<or> mf" using mf dl by auto
  moreover have "\<not> mf \<longrightarrow> (\<forall>h \<in> set hs. fst h < dl)" using hs mf dl by (auto simp: word_less_nat_alt)
  ultimately have set': "hole_set ?hs' = missing D R'"
    using cut_holes_set [OF df(1), of mf hs] missing_cut [of "unat dl" D mf "unat df" R] mf(1) df(1) R D
    by (simp add: st R'_def word_less_nat_alt)
  have "\<forall>h \<in> set ?hs'. unat (fst h) < length D \<and> (8 dvd unat (snd h) \<or> snd h = IPV4_INFINITY)"
    using hs mf df(2) by (auto simp: cut_holes_def cut_hole_def split: if_splits)
  with f(4,5) set' have tr': "tracks D (missing D R') frag' ?hs'" by (simp add: tracks_def)
  have "fmem frag' ! p = fmem frag ! p" if "p \<in> R'" "p < length (fmem frag)" for p
  proof -
    have "p \<notin> missing D R'" using that(1) by (simp add: missing_def)
    then have "p \<notin> {unat s ..< unat s + 6}" if "s \<in> fst ` set ?hs'" for s
    proof -
      from that obtain h where h: "h \<in> set ?hs'" "s = fst h" by auto
      with slot_in_holes [OF tr' h(1)] D have "{unat s ..< unat s + 6} \<subseteq> missing D R'" by simp
      with \<open>p \<notin> missing D R'\<close> show ?thesis by blast
    qed
    then have "p < unat s \<or> unat s + 6 \<le> p" if "s \<in> fst ` set ?hs'" for s
      using that by (meson atLeastLessThan_iff not_le)
    then show ?thesis using f(6) that(2) unfolding touched_def by blast
  qed
  with f tr' show ?thesis by blast
qed

text \<open>Storing the data of the fragment.\<close>

lemma write_data_ok:
  assumes ok: "frag_ok frag" and n: "df + length xs \<le> fragDataLen frag" "xs \<noteq> []"
  defines "g \<equiv> frag\<lparr>fragBuffer := snd (netBufferWrite (fragBuffer frag) (fragHeaderLength frag + df) xs)\<rparr>"
  shows "frag_ok g \<and> fmem g = list_write (fmem frag) df xs \<and> hd (chunk (fragBuffer g)) = hd (chunk (fragBuffer frag))"
  using ok
proof (rule frag_okE)
  fix c cs assume c: "chunk (fragBuffer frag) = c # cs" "length (storage c) = 1536" "chSize c = 1536"
    "chLength c = fragHeaderLength frag" "20 \<le> fragHeaderLength frag" "fragHeaderLength frag \<le> 60"
    "blocks cs (fragDataLen frag + 6)" "fmem frag = cmem cs" "maxChunkCount (fragBuffer frag) = 7"
  have "df + length xs \<le> fragDataLen frag + 6" using n by simp
  from blocks_write [OF c(7) this] have w: "cmem (snd (write_loop cs df xs)) = list_write (cmem cs) df xs"
    "blocks (snd (write_loop cs df xs)) (fragDataLen frag + 6)" by auto
  have "chunk (fragBuffer g) = c # snd (write_loop cs df xs)" "maxChunkCount (fragBuffer g) = 7"
    using c n(2) by (simp_all add: g_def netBufferWrite_def split_beta)
  with c w show ?thesis by (simp add: frag_ok_def fmem_def g_def)
qed

lemma write_keeps_tracks:
  assumes ok: "frag_ok frag" and tr: "tracks D S frag hs" and D: "length D \<le> 8192" and len: "length (fmem g) = length (fmem frag)"
    and mem: "\<And>p. p \<in> S \<Longrightarrow> p < length (fmem frag) \<Longrightarrow> fmem g ! p = fmem frag ! p"
    and g: "firstHole g = firstHole frag" "fragDataLen g = fragDataLen frag"
  shows "tracks D S g hs"
proof -
  have "hole_at g (fst h) = hole_at frag (fst h)" if h: "h \<in> set hs" for h
  proof -
    have fit: "unat (fst h) + 6 \<le> length (fmem frag)" using slot_fits [OF ok, of "fst h"] tr h by (auto simp: tracks_def wf_holes_def)
    have e: "fmem g ! (unat (fst h) + k) = fmem frag ! (unat (fst h) + k)" if "k < 6" for k
      using that slot_in_holes [OF tr h D] fit by (intro mem) auto
    from e [of 0] e [of 1] e [of 2] e [of 3] e [of 4] e [of 5] fit len show ?thesis by (simp add: hole_at_def hole_of_def)
  qed
  then have "hole_path (hole_at g) (firstHole frag) hs IPV4_INFINITY" using tr by (auto simp: tracks_def intro: hole_path_cong)
  moreover have "slot_ok g = slot_ok frag" by (simp add: slot_ok_def g fun_eq_iff)
  ultimately show ?thesis using tr by (simp add: tracks_def wf_holes_def g(1))
qed


text \<open>The positions of a fragment as 16-bit words.\<close>

lemma frag_first_word: "unat ((o' AND IPV4_OFFSET_MASK) * 8 :: u16) = 8 * unat (o' AND IPV4_OFFSET_MASK)"
proof -
  have "unat (o' AND IPV4_OFFSET_MASK) \<le> unat (IPV4_OFFSET_MASK)" by (rule word_le_nat_alt [THEN iffD1]) (rule word_and_le1)
  then show ?thesis by (simp add: unat_mult_lem [THEN iffD1])
qed

lemma frag_last_word:
  "unat df + n < 65536 \<Longrightarrow> unat (df + of_nat n :: u16) = unat df + n"
  by (simp add: unat_word_ariths unat_of_nat mod_simps)

lemma mask_zero: "frag_first p = 0 \<longleftrightarrow> ip4_fragmentOffset p AND IPV4_OFFSET_MASK = 0"
  by (simp add: frag_first_def unat_eq_0)

lemma drop_frag_chunks: "drop_frag frag x = (f, y) \<Longrightarrow> chunk (fragBuffer f) = []"
  by (auto simp: drop_frag_def bufSetLength_def netBufferSetLength_0)

text \<open>The hole list is empty exactly when everything has been received.\<close>

lemma tracks_empty:
  assumes ok: "frag_ok frag" and tr: "tracks D (missing D R) frag hs" and D: "fragDataLen frag \<le> length D" "length D \<le> 8172" "0 < length D"
    and R: "R \<subseteq> {..<length D}"
  shows "ipv4FindHole frag (firstHole frag) = None \<longleftrightarrow> R = {..<length D}"
proof -
  have "ipv4FindHole frag (firstHole frag) = None \<longleftrightarrow> hs = []"
  proof (cases hs)
    case Nil
    then show ?thesis using tr D by (simp add: tracks_def ipv4FindHole_None [OF ok])
  next
    case (Cons h hs')
    then show ?thesis using tr by (auto simp: tracks_def ipv4FindHole_None [OF ok] wf_holes_def slot_ok_def)
  qed
  also have "hs = [] \<longleftrightarrow> hole_set hs = {}" using tr by (cases hs) (auto simp: tracks_def wf_holes_def word_less_nat_alt)
  also have "\<dots> \<longleftrightarrow> missing D R = {}" using tr by (simp add: tracks_def)
  also have "\<dots> \<longleftrightarrow> R = {..<length D}" using R D by (fastforce simp: missing_def split: if_splits)
  finally show ?thesis .
qed

lemma nb_wf_frag: "frag_ok frag \<Longrightarrow> nb_wf (fragBuffer frag)"
  by (elim frag_okE) (auto simp: nb_wf_def chunk_wf_def dest: blocks_wf)

lemma nb_bytes_frag: "frag_ok frag \<Longrightarrow> nb_bytes (fragBuffer frag) = header_of frag @ take (fragDataLen frag + 6) (fmem frag)"
  by (elim frag_okE) (simp add: nb_bytes_def header_of_def chunk_bytes_def blocks_bytes)

text \<open>
  The layout of a datagram with a header of \<open>hl\<close> bytes: the header lies in one block, and so does the
  header of the next layer behind it.
\<close>

definition laid_out :: "nat \<Rightarrow> NetBuffer \<Rightarrow> bool" where
  "laid_out hl b \<longleftrightarrow>
     nb_wf b \<and> (\<exists>a m. netBufferAt b 0 = Some (a, m) \<and> hl \<le> length m \<and> take hl m = take hl (nb_bytes b)) \<and>
     (hl < length (nb_bytes b) \<longrightarrow>
        (\<exists>a m. netBufferAt b hl = Some (a, m) \<and> min 60 (length (nb_bytes b) - hl) \<le> length m \<and>
          take (min 60 (length (nb_bytes b) - hl)) m = take 60 (drop hl (nb_bytes b))))"

text \<open>The header is mended in the first chunk of the complete datagram.\<close>

lemma finish_frag_ok:
  assumes ok: "frag_ok frag" and n: "0 < fragDataLen frag" "ipv4FindHole frag (firstHole frag) = None"
  shows "\<exists>b frag' x'. finish_frag deliver frag x = (Some b, frag', x') \<and> chunk (fragBuffer frag') = [] \<and>
    nb_bytes b = mend (fragDataLen frag) (header_of frag) @ take (fragDataLen frag) (fmem frag) \<and>
    laid_out (fragHeaderLength frag) b"
  using ok
proof (rule frag_okE)
  fix c cs assume c: "chunk (fragBuffer frag) = c # cs" "length (storage c) = 1536" "chSize c = 1536"
    "chLength c = fragHeaderLength frag" "20 \<le> fragHeaderLength frag" "fragHeaderLength frag \<le> 60"
    "blocks cs (fragDataLen frag + 6)" "fmem frag = cmem cs" "maxChunkCount (fragBuffer frag) = 7"
  let ?n = "fragHeaderLength frag + fragDataLen frag"
  obtain e y b where r: "bufSetLength x (fragBuffer frag) ?n = (e, y, b)" by (metis prod.exhaust)
  have h: "length (header_of frag) = fragHeaderLength frag" using c by (simp add: header_of_def)
  have l: "length (nb_bytes (fragBuffer frag)) = ?n + 6" using nb_bytes_frag [OF ok] h fmem_length [OF ok] by simp
  have le: "?n \<le> length (nb_bytes (fragBuffer frag))" using l by simp
  from netBufferSetLength_shrink [OF nb_wf_frag [OF ok] le r [unfolded bufSetLength_def]]
  have b: "e = NO_ERROR" "nb_wf b" "nb_bytes b = take ?n (nb_bytes (fragBuffer frag))" by auto
  have nbb: "nb_bytes b = header_of frag @ take (fragDataLen frag) (fmem frag)"
    using b(3) nb_bytes_frag [OF ok] h by simp
  moreover obtain d ds where cb: "chunk b = c # d # ds" and d: "length (storage d) = 1536" "chLength d = min (fragDataLen frag) 1536"
  proof -
    obtain d ds where cs: "cs = d # ds" "length (storage d) = 1536" "chSize d = 1536" "chLength d = min (fragDataLen frag + 6) 1536"
      using c(7) by (cases cs) auto
    with r c n that [of "d\<lparr>chLength := fragDataLen frag\<rparr>"] that [of d] that [of "d\<lparr>chLength := min (fragDataLen frag) 1536\<rparr>"] show ?thesis
      by (auto simp: bufSetLength_def netBufferSetLength_def Let_def split: prod.splits if_splits)
  qed
  define cs' where "cs' = d # ds"
  note cb = cb [folded cs'_def]
  let ?b1 = "netBufferPoke b 2 (be16 (of_nat ?n))"
  have p1: "nb_bytes ?b1 = list_write (nb_bytes b) 2 (be16 (of_nat ?n))" "nb_wf ?b1" "chunk ?b1 = chunk_put c 2 (be16 (of_nat ?n)) # cs'"
    using poke_first [OF b(2) cb, of 2 "be16 (of_nat ?n)"] c(4,5) by simp_all
  let ?b2 = "netBufferPoke ?b1 6 [0, 0]"
  have p2: "nb_bytes ?b2 = list_write (nb_bytes ?b1) 6 [0, 0]" "nb_wf ?b2"
    "chunk ?b2 = chunk_put (chunk_put c 2 (be16 (of_nat ?n))) 6 [0, 0] # cs'"
    using poke_first [OF p1(2,3), of 6 "[0, 0]"] c(4,5) by simp_all
  let ?b3 = "netBufferPoke ?b2 10 [0, 0]"
  have p3: "nb_bytes ?b3 = list_write (nb_bytes ?b2) 10 [0, 0]" "nb_wf ?b3"
    "chunk ?b3 = chunk_put (chunk_put (chunk_put c 2 (be16 (of_nat ?n))) 6 [0, 0]) 10 [0, 0] # cs'"
    using poke_first [OF p2(2,3), of 10 "[0, 0]"] c(4,5) by simp_all
  have lo: "laid_out (fragHeaderLength frag) b'" if "nb_wf b'" "chunk b' = c' # d # ds" "length (storage c') = 1536"
      "chLength c' = fragHeaderLength frag" "length (nb_bytes b') = ?n" for b' c'
  proof -
    have hb: "length (chunk_bytes c') = fragHeaderLength frag" "length (chunk_bytes d) = chLength d"
      using that c(6) d by (simp_all add: chunk_bytes_def)
    have nb: "nb_bytes b' = chunk_bytes c' @ chunk_bytes d @ chunks_bytes ds" using that by (simp add: nb_bytes_def)
    have at: "netBufferAt b' 0 = Some (address c', storage c')" "netBufferAt b' (fragHeaderLength frag) = Some (address d, storage d)"
      using that c(5) d(2) n(1) by (simp_all add: netBufferAt_def)
    have dr: "drop (fragHeaderLength frag) (nb_bytes b') = chunk_bytes d @ chunks_bytes ds" using hb(1) by (simp add: nb)
    have "take (min 60 (fragDataLen frag)) (storage d) = take 60 (drop (fragHeaderLength frag) (nb_bytes b'))"
    proof (cases "fragDataLen frag < 60")
      case True
      then have "chunks_bytes ds = []" using that(5) nb hb d by (simp flip: length_0_conv)
      with True show ?thesis using d unfolding dr by (simp add: chunk_bytes_def)
    next
      case False
      then have "take 60 (chunk_bytes d) = take 60 (storage d)" "60 \<le> length (chunk_bytes d)" using hb(2) d by (simp_all add: chunk_bytes_def)
      then show ?thesis using False unfolding dr by simp
    qed
    moreover have "take (fragHeaderLength frag) (storage c') = take (fragHeaderLength frag) (nb_bytes b')"
      using that(4) hb(1) by (simp add: nb chunk_bytes_def)
    ultimately show ?thesis using that c(6) d at by (simp add: laid_out_def min_def)
  qed
  have len3: "length (nb_bytes ?b3) = ?n"
    unfolding p3(1) p2(1) p1(1) nbb using c(5) h fmem_length [OF ok] by simp
  have lay: "laid_out (fragHeaderLength frag) ?b3"
    by (rule lo [OF p3(2) p3(3) [unfolded cs'_def] _ _ len3]) (use c(2,4,5) in \<open>simp_all add: chunk_put_def\<close>)
  have "nb_bytes ?b3 = mend (fragDataLen frag) (header_of frag) @ take (fragDataLen frag) (fmem frag)"
    unfolding p3(1) p2(1) p1(1) calculation mend_def h using c(5) h by (simp add: list_write_append1)
  moreover obtain frag' x' where "drop_frag (frag\<lparr>fragBuffer := ?b3\<rparr>) (deliver ?b3 y) = (frag', x')" by fastforce
  moreover from this have "chunk (fragBuffer frag') = []" by (rule drop_frag_chunks)
  ultimately show ?thesis using n(2) r b(1) lay by (simp add: finish_frag_def)
qed


text \<open>
  One fragment. Either the memory runs out and the datagram is given up, or the fragment is taken in;
  when it was the last one missing, the datagram is delivered.
\<close>

definition taken :: "u8 list \<Rightarrow> u8 list \<Rightarrow> nat set \<Rightarrow> NetBuffer option \<Rightarrow> Ipv4FragDesc \<Rightarrow> bool" where
  "taken hdr D R out frag \<longleftrightarrow>
     (if R = {..<length D} then (\<exists>b. out = Some b \<and> nb_bytes b = mend (length D) hdr @ D \<and> laid_out (length hdr) b) \<and> chunk (fragBuffer frag) = []
      else out = None \<and> assembling hdr D R frag)"

lemma header_of_same: "same_frag f g \<Longrightarrow> header_of g = header_of f"
  by (simp add: same_frag_def header_of_def)

lemma store_fragment:
  assumes as: "assembling hdr D R frag" and D: "length D \<le> 8172" and df: "df < dl" "8 dvd unat df"
    and dl: "unat dl \<le> fragDataLen frag" and mf: "mf \<longleftrightarrow> unat dl < length D" "mf \<longrightarrow> 8 dvd unat dl"
    and xs: "xs = take (unat dl - unat df) (drop (unat df) D)" and hd0: "unat df = 0 \<longrightarrow> header_done hdr D frag"
  defines "R' \<equiv> R \<union> {unat df ..< unat dl}"
  shows "\<exists>frag'. hole_loop df dl mf None (firstHole frag) frag = Some frag' \<and>
    assembling hdr D R' (frag'\<lparr>fragBuffer := snd (netBufferWrite (fragBuffer frag') (fragHeaderLength frag' + unat df) xs)\<rparr>)"
proof -
  from as have ok: "frag_ok frag" and le: "fragDataLen frag \<le> length D" and R: "R \<subseteq> {..<length D}" "R \<subseteq> {..<fragDataLen frag}"
    by (auto simp: assembling_def)
  from as obtain hs where hs: "tracks D (missing D R) frag hs" by (auto simp: assembling_def)
  from hole_loop_tracks [OF ok hs R(1) D df dl le mf] obtain f hs' where f: "hole_loop df dl mf None (firstHole frag) frag = Some f"
    "frag_ok f" "same_frag frag f" "tracks D (missing D R') f hs'" "\<forall>p \<in> R'. p < length (fmem frag) \<longrightarrow> fmem f ! p = fmem frag ! p"
    unfolding R'_def by blast
  have lf: "length (fmem f) = length (fmem frag)" "fragDataLen f = fragDataLen frag" "fragHeaderLength f = fragHeaderLength frag"
    "hd (chunk (fragBuffer f)) = hd (chunk (fragBuffer frag))" using f(3) by (simp_all add: same_frag_def)
  have lt: "unat df < unat dl" using df(1) by (simp add: word_less_nat_alt)
  have lx: "length xs = unat dl - unat df" "xs \<noteq> []" using xs lt dl le by auto
  define g where "g = f\<lparr>fragBuffer := snd (netBufferWrite (fragBuffer f) (fragHeaderLength f + unat df) xs)\<rparr>"
  have g: "frag_ok g" "fmem g = list_write (fmem f) (unat df) xs" "hd (chunk (fragBuffer g)) = hd (chunk (fragBuffer f))"
    using write_data_ok [OF f(2), of "unat df" xs] lx lt dl lf(2) by (simp_all add: g_def)
  have fit: "unat df + length xs \<le> length (fmem f)" using lx lt dl fmem_length [OF ok] lf(1) by simp
  have lg: "length (fmem g) = length (fmem f)" using g(2) fit by simp
  have "fmem g ! p = fmem f ! p" if "p \<in> missing D R'" "p < length (fmem f)" for p
  proof -
    have "\<not> (unat df \<le> p \<and> p < unat dl)" using that(1) by (simp add: missing_def R'_def)
    then show ?thesis using that(2) fit lx lt by (auto simp: g(2) nth_list_write)
  qed
  then have tr: "tracks D (missing D R') g hs'"
    using D by (intro write_keeps_tracks [OF f(2,4) _ lg]) (auto simp: g_def)
  have mem: "fmem g ! p = D ! p" if p: "p \<in> R'" for p
  proof (cases "p \<in> {unat df ..< unat dl}")
    case True
    then show ?thesis using fit lx le dl by (auto simp: g(2) nth_list_write xs)
  next
    case False
    then have "p \<in> R" using p by (auto simp: R'_def)
    then have "p < length (fmem frag)" "fmem frag ! p = D ! p" using as fmem_length [OF ok] by (auto simp: assembling_def)
    with False fit lx lt p f(5) lf(1) show ?thesis by (auto simp: g(2) nth_list_write)
  qed
  have done': "header_done hdr D g = header_done hdr D frag"
    by (simp add: header_done_def header_of_def g(3) lf(4)) (simp add: g_def lf(3))
  have "0 \<in> R' \<longrightarrow> header_done hdr D g" using as hd0 by (auto simp: done' R'_def assembling_def)
  moreover have "R' \<subseteq> {..<fragDataLen g}" using R dl by (auto simp: R'_def g_def lf(2))
  ultimately have "assembling hdr D R' g"
    using as g(1,3) tr mem lf unfolding assembling_def by (auto simp: g_def)
  then show ?thesis using f(1) by (auto simp: g_def)
qed

lemma finish_taken:
  assumes as: "assembling hdr D R frag" and D: "length D \<le> 8172" "0 < length D"
  shows "\<exists>out frag' x'. finish_frag deliver frag x = (out, frag', x') \<and> taken hdr D R out frag' \<and> (R \<noteq> {..<length D} \<longrightarrow> x' = x)"
proof -
  from as have ok: "frag_ok frag" and le: "fragDataLen frag \<le> length D" and R: "R \<subseteq> {..<length D}" "R \<subseteq> {..<fragDataLen frag}"
    by (auto simp: assembling_def)
  from as obtain hs where hs: "tracks D (missing D R) frag hs" by (auto simp: assembling_def)
  note e = tracks_empty [OF ok hs le D R(1)]
  show ?thesis
  proof (cases "R = {..<length D}")
    case False
    with e have "ipv4FindHole frag (firstHole frag) \<noteq> None" by blast
    then have "finish_frag deliver frag x = (None, frag, x)" unfolding finish_frag_def by (simp only: if_False)
    with False as show ?thesis by (simp add: taken_def)
  next
    case True
    then have "length D - 1 \<in> R" "0 \<in> R" using D(2) by auto
    with R le have n: "fragDataLen frag = length D" by (metis D(2) One_nat_def Suc_pred le_antisym less_eq_Suc_le lessThan_iff subsetD)
    have "fmem frag ! p = D ! p" if "p < length D" for p using as True that by (simp add: assembling_def)
    moreover have "length D \<le> length (fmem frag)" using fmem_length [OF ok] n by simp
    ultimately have "take (length D) (fmem frag) = D" by (intro nth_equalityI) auto
    moreover have "header_done hdr D frag" using as \<open>0 \<in> R\<close> by (simp add: assembling_def)
    ultimately show ?thesis using finish_frag_ok [OF ok, of deliver x] e True n D(2) by (auto simp: taken_def header_done_def)
  qed
qed

lemma add_fragment_step:
  assumes as: "assembling hdr D R frag" and p: "fragment_of hdr D (p, len)"
  shows "\<exists>out frag' x'. add_fragment deliver p (len - ip4_headerLength p) frag x = Some (out, frag', x') \<and>
    ((\<exists>k. heapResult x k = None) \<and> out = None \<and> chunk (fragBuffer frag') = [] \<or>
     taken hdr D (R \<union> frag_range (p, len)) out frag' \<and>
       ((\<forall>k. heapResult x k \<noteq> None) \<longrightarrow> R \<union> frag_range (p, len) \<noteq> {..<length D} \<longrightarrow> heapResult x' = heapResult x))"
proof -
  let ?hl = "ip4_headerLength p" and ?o = "ip4_fragmentOffset p"
  define n where "n = len - ?hl"
  define df where "df = (?o AND IPV4_OFFSET_MASK) * 8"
  define dl where "dl = df + of_nat n"
  define mf where "mf \<longleftrightarrow> ?o AND IPV4_FLAG_MF \<noteq> 0"
  have udf: "unat df = frag_first p" by (simp add: df_def frag_first_word frag_first_def)
  from p have hl: "20 \<le> ?hl" "?hl + length D \<le> 8192" "0 < n" "frag_first p + n \<le> length D"
    "mf \<longleftrightarrow> frag_first p + n < length D" "mf \<longrightarrow> 8 dvd n" "take n (drop ?hl p) = take n (drop (frag_first p) D)"
    by (auto simp: fragment_of_def Let_def n_def mf_def)
  have udl: "unat dl = unat df + n" unfolding dl_def using hl udf by (intro frag_last_word) auto
  have D: "length D \<le> 8172" "0 < length D" using hl by auto
  have rng: "frag_range (p, len) = {unat df ..< unat dl}" by (simp add: frag_range_def udl udf n_def)
  have lt: "df < dl" and al: "8 dvd unat df" using hl(3) udl by (simp_all add: word_less_nat_alt udf) (simp add: frag_first_def)
  obtain frag0 where f0: "(if ?o AND IPV4_OFFSET_MASK = 0 then take_header p frag else (True, frag)) = (True, frag0)"
    "assembling hdr D R frag0" "unat df = 0 \<longrightarrow> header_done hdr D frag0"
  proof (cases "?o AND IPV4_OFFSET_MASK = 0")
    case True
    then have "frag_first p = 0" by (simp add: mask_zero)
    from take_header_ok [OF as p this] True that show ?thesis by auto
  next
    case False
    then have "unat df \<noteq> 0" by (simp add: udf mask_zero)
    with False as that show ?thesis by simp
  qed
  have add: "add_fragment deliver p (len - ?hl) frag x =
    (let (ok, frag, x) = extend_frag dl frag0 x
     in if \<not> ok then (let (frag, x) = drop_frag frag x in Some (None, frag, x))
        else case hole_loop df dl mf None (firstHole frag) frag of
          None \<Rightarrow> None
        | Some frag \<Rightarrow> Some (finish_frag deliver (frag\<lparr>fragBuffer := snd (netBufferWrite (fragBuffer frag)
              (fragHeaderLength frag + unat df) (take n (drop ?hl p)))\<rparr>) x))"
    unfolding add_fragment_def Let_def df_def [symmetric] n_def [symmetric] dl_def [symmetric] mf_def [symmetric] f0(1) by simp
  have "unat dl \<le> length D" using hl(4) udl udf by simp
  from extend_frag_ok [OF f0(2) this, of x] show ?thesis
  proof (elim disjE exE conjE)
    fix f1 x1 assume ex: "extend_frag dl frag0 x = (True, f1, x1)" "assembling hdr D R f1" "unat dl \<le> fragDataLen f1"
      "fragHeaderLength f1 = fragHeaderLength frag0" "header_of f1 = header_of frag0"
      "(\<forall>k. heapResult x k \<noteq> None) \<longrightarrow> heapResult x1 = heapResult x"
    have hd1: "unat df = 0 \<longrightarrow> header_done hdr D f1" using f0(3) ex(4,5) by (simp add: header_done_def)
    have mf': "mf \<longleftrightarrow> unat dl < length D" "mf \<longrightarrow> 8 dvd unat dl" using hl(5,6) al udl udf by auto
    have xs: "take n (drop ?hl p) = take (unat dl - unat df) (drop (unat df) D)" using hl(7) udl udf by simp
    from store_fragment [OF ex(2) D(1) lt al ex(3) mf' xs hd1] obtain f2 where f2:
      "hole_loop df dl mf None (firstHole f1) f1 = Some f2"
      "assembling hdr D (R \<union> frag_range (p, len)) (f2\<lparr>fragBuffer := snd (netBufferWrite (fragBuffer f2) (fragHeaderLength f2 + unat df) (take n (drop ?hl p)))\<rparr>)"
      unfolding rng by blast
    from finish_taken [OF f2(2) D, of deliver x1] f2(1) ex(1,6) show ?thesis by (auto simp: add)
  next
    fix k assume "heapResult x k = None" "fst (extend_frag dl frag0 x) = False"
    moreover obtain f1 x1 where ex: "extend_frag dl frag0 x = (False, f1, x1)"
      using \<open>fst (extend_frag dl frag0 x) = False\<close> by (metis prod.collapse)
    moreover obtain f2 x2 where dr: "drop_frag f1 x1 = (f2, x2)" by fastforce
    moreover have "chunk (fragBuffer f2) = []" by (rule drop_frag_chunks [OF dr])
    ultimately show ?thesis by (auto simp: add)
  qed
qed


section \<open>The reassembly queue\<close>

text \<open>A new entry: everything is missing.\<close>

lemma init_frag_raw:
  assumes hl: "20 \<le> ip4_headerLength p" "ip4_headerLength p < length p"
    and free: "chunk (fragBuffer frag) = []" and x: "\<And>k. heapResult x k \<noteq> None"
  shows "\<exists>g x'. init_frag p frag x = Some (True, g, x') \<and> frag_ok g \<and> fragDataLen g = 0 \<and> fragHeaderLength g = ip4_headerLength p \<and>
    holes_to g [(0, IPV4_INFINITY)] IPV4_INFINITY \<and> ip4_same (storage (hd (chunk (fragBuffer g)))) p \<and> heapResult x' = heapResult x"
proof -
  let ?hl = "ip4_headerLength p"
  have h60: "?hl \<le> 60" by (rule ip4_headerLength_le)
  obtain x1 cs where add: "add_chunks heapAlloc (heapMem x) 7 1542 x = (NO_ERROR, x1, cs)" "heapResult x1 = heapResult x"
    using add_chunks_succeeds [OF x, of 1542 7 "heapMem x"] by auto
  from add_chunks_blocks [OF add(1)] have "blocks cs 1542" by simp
  then obtain c ds where c: "cs = c # ds" "length (storage c) = 1536" "chSize c = 1536" "blocks ds 6" by (cases cs) auto
  have set_len: "bufSetLength x ((fragBuffer frag)\<lparr>maxChunkCount := 7\<rparr>) (NET_MEM_POOL_BUFFER_SIZE + 6) =
      (NO_ERROR, x1, \<lparr>maxChunkCount = 7, chunk = c # ds\<rparr>)"
    using add(1) free c(1) by (cases "fragBuffer frag") (simp add: bufSetLength_def netBufferSetLength_def NET_MEM_POOL_BUFFER_SIZE_def)
  define st where "st = list_write (storage c) 0 (take ?hl p)"
  define c' where "c' = c\<lparr>chLength := ?hl, storage := st\<rparr>"
  have w: "snd (netBufferWrite (fix_first ?hl \<lparr>maxChunkCount = 7, chunk = c # ds\<rparr>) 0 (take ?hl p)) = \<lparr>maxChunkCount = 7, chunk = c' # ds\<rparr>"
    using write_header [OF c(2) h60 _ _ refl refl, of p 7 ds] hl by (simp add: c'_def st_def)
  define f where "f = frag\<lparr>fragHeaderLength := ?hl, fragDataLen := 0, fragBuffer := \<lparr>maxChunkCount = 7, chunk = c' # ds\<rparr>,
      fragTimestamp := fst (osGetSystemTime x1), firstHole := 0\<rparr>"
  have st: "length st = 1536" using hl h60 c(2) by (simp add: st_def)
  have ok: "frag_ok f" using hl(1) h60 c(3,4) st by (simp add: frag_ok_def f_def c'_def)
  have sl: "slot_ok f 0" by (simp add: slot_ok_def)
  from put_hole_slot [OF ok sl, of "\<lambda>h. \<lparr>hfirst = 0, hlast = IPV4_INFINITY, hnext = IPV4_INFINITY\<rparr>"] obtain g
    where g: "put_hole f 0 (\<lambda>h. \<lparr>hfirst = 0, hlast = IPV4_INFINITY, hnext = IPV4_INFINITY\<rparr>) = Some g" "frag_ok g" "same_frag f g"
      "firstHole g = firstHole f" "hole_at g 0 = \<lparr>hfirst = 0, hlast = IPV4_INFINITY, hnext = IPV4_INFINITY\<rparr>" by blast
  have "init_frag p frag x = Some (True, g, snd (osGetSystemTime x1))"
    using set_len g(1) w unfolding f_def by (simp add: init_frag_def Let_def split_beta)
  moreover have "ip4_same st p"
    using hl h60 c(2) ip4_same_write [of ?hl p "storage c"] by (simp add: st_def)
  ultimately show ?thesis
    using g(2-5) add(2) by (auto simp: same_frag_def f_def c'_def osGetSystemTime_def tick_call_def)
qed

lemma init_frag_ok:
  assumes p: "fragment_of hdr D (p, len)" and free: "chunk (fragBuffer frag) = []" and x: "\<And>k. heapResult x k \<noteq> None"
  shows "\<exists>frag' x'. init_frag p frag x = Some (True, frag', x') \<and> assembling hdr D {} frag' \<and> heapResult x' = heapResult x"
proof -
  from p have hl: "20 \<le> ip4_headerLength p" "ip4_headerLength p < length p" "ip4_headerLength p + length D \<le> 8192" "ip4_same hdr p" "0 < length D"
    by (auto simp: fragment_of_def Let_def)
  from init_frag_raw [OF hl(1,2) free x] obtain g x' where g: "init_frag p frag x = Some (True, g, x')" "frag_ok g" "fragDataLen g = 0"
    "fragHeaderLength g = ip4_headerLength p" "holes_to g [(0, IPV4_INFINITY)] IPV4_INFINITY"
    "ip4_same (storage (hd (chunk (fragBuffer g)))) p" "heapResult x' = heapResult x" by blast
  have "tracks D (missing D {}) g [(0, IPV4_INFINITY)]"
    using g(5) hl(5) by (auto simp: tracks_def missing_def wf_holes_def slot_ok_def lessThan_atLeast0)
  with g hl show ?thesis by (auto simp: assembling_def intro: ip4_same_trans ip4_same_sym)
qed

text \<open>
  The queue holds at most one entry for the datagram, with the bytes \<open>R\<close>, or has a free entry for it.
\<close>

definition reassembling :: "u8 list \<Rightarrow> u8 list \<Rightarrow> nat set \<Rightarrow> Ipv4FragDesc list \<Rightarrow> bool" where
  "reassembling hdr D R q \<longleftrightarrow>
     (R = {} \<and> (\<forall>frag \<in> set q. \<not> frag_matches hdr frag) \<and> (\<exists>frag \<in> set q. chunk (fragBuffer frag) = [])) \<or>
     (\<exists>i < length q. assembling hdr D R (q ! i) \<and> (\<forall>j < length q. j \<noteq> i \<longrightarrow> \<not> frag_matches hdr (q ! j)))"

lemma frag_matches_same: "ip4_same p r \<Longrightarrow> frag_matches p frag \<longleftrightarrow> frag_matches r frag"
  by (auto simp: frag_matches_def split: option.splits intro: ip4_same_trans ip4_same_sym)

lemma assembling_matches: "assembling hdr D R frag \<Longrightarrow> frag_matches hdr frag"
  by (auto simp: assembling_def frag_matches_def netBufferAt_def frag_ok_def split: list.splits)

lemma find_only:
  assumes "i < n" and "P i" and "\<And>j. j < n \<Longrightarrow> j \<noteq> i \<Longrightarrow> \<not> P j"
  shows "find P [0..<n] = Some i"
proof -
  from find_None_iff [of P "[0..<n]"] assms(1,2) obtain k where k: "find P [0..<n] = Some k" by (cases "find P [0..<n]") auto
  then have "k < n" "P k" by (auto simp: find_Some_iff)
  with assms(3) k show ?thesis by blast
qed

lemma search_ok:
  assumes q: "reassembling hdr D R q" and p: "fragment_of hdr D (p, len)" and x: "\<And>k. heapResult x k \<noteq> None"
  shows "\<exists>i q' x'. ipv4SearchFragQueue p q x = Some (Some i, q', x') \<and> i < length q' \<and> assembling hdr D R (q' ! i) \<and>
    (\<forall>j < length q'. j \<noteq> i \<longrightarrow> \<not> frag_matches hdr (q' ! j)) \<and> heapResult x' = heapResult x"
proof -
  have same: "ip4_same hdr p" using p by (auto simp: fragment_of_def Let_def)
  note m = frag_matches_same [OF same]
  from q consider (old) i where "i < length q" "assembling hdr D R (q ! i)" "\<forall>j < length q. j \<noteq> i \<longrightarrow> \<not> frag_matches hdr (q ! j)"
    | (new) "R = {}" "\<forall>frag \<in> set q. \<not> frag_matches hdr frag" "\<exists>frag \<in> set q. chunk (fragBuffer frag) = []"
    by (auto simp: reassembling_def)
  then show ?thesis
  proof cases
    case old
    then have "find (\<lambda>i. frag_matches p (q ! i)) [0..<length q] = Some i"
      using assembling_matches by (intro find_only) (auto simp: m [symmetric])
    with old show ?thesis by (simp add: ipv4SearchFragQueue_def)
  next
    case new
    then have none: "find (\<lambda>i. frag_matches p (q ! i)) [0..<length q] = None" by (auto simp: find_None_iff m [symmetric])
    obtain i where i: "find (\<lambda>i. chunk (fragBuffer (q ! i)) = []) [0..<length q] = Some i"
      using new(3) by (cases "find (\<lambda>i. chunk (fragBuffer (q ! i)) = []) [0..<length q]") (auto simp: find_None_iff in_set_conv_nth)
    then have "i < length q" "chunk (fragBuffer (q ! i)) = []" by (auto simp: find_Some_iff)
    from init_frag_ok [OF p this(2) x] obtain f x' where f: "init_frag p (q ! i) x = Some (True, f, x')" "assembling hdr D {} f"
      "heapResult x' = heapResult x" by blast
    have "ipv4SearchFragQueue p q x = Some (Some i, q[i := f], x')" using none i f(1) by (simp add: ipv4SearchFragQueue_def)
    with f(2,3) new(1,2) \<open>i < length q\<close> show ?thesis by (auto simp: nth_list_update)
  qed
qed

lemma reassemble_step:
  assumes q: "reassembling hdr D R q" and p: "fragment_of hdr D (p, len)" and x: "\<And>k. heapResult x k \<noteq> None"
  defines "R' \<equiv> R \<union> frag_range (p, len)"
  shows "\<exists>out q' x'. ipv4ReassembleDatagram deliver p len q x = Some (out, q', x') \<and>
    (if R' = {..<length D} then (\<exists>b. out = Some b \<and> nb_bytes b = mend (length D) hdr @ D \<and> laid_out (length hdr) b) \<and> reassembling hdr D {} q'
     else out = None \<and> reassembling hdr D R' q' \<and> heapResult x' = heapResult x)"
proof -
  from search_ok [OF q p x] obtain i q1 x1 where s: "ipv4SearchFragQueue p q x = Some (Some i, q1, x1)" "i < length q1"
    "assembling hdr D R (q1 ! i)" "\<forall>j < length q1. j \<noteq> i \<longrightarrow> \<not> frag_matches hdr (q1 ! j)" "heapResult x1 = heapResult x" by blast
  from add_fragment_step [OF s(3) p, of deliver x1] x s(5) obtain out f x2 where a:
    "add_fragment deliver p (len - ip4_headerLength p) (q1 ! i) x1 = Some (out, f, x2)" "taken hdr D R' out f"
    "R' \<noteq> {..<length D} \<longrightarrow> heapResult x2 = heapResult x" by (auto simp: R'_def)
  have "\<not> (ip4_fragmentOffset p AND IPV4_FLAG_MF \<noteq> 0 \<and> (len - ip4_headerLength p) mod 8 \<noteq> 0)"
    using p by (auto simp: fragment_of_def Let_def)
  then have r: "ipv4ReassembleDatagram deliver p len q x = Some (out, q1[i := f], x2)"
    using s(1) a(1) unfolding ipv4ReassembleDatagram_def Let_def by (auto simp only: if_False option.case split_conv option.map)
  show ?thesis
  proof (cases "R' = {..<length D}")
    case True
    with a(2) have f: "chunk (fragBuffer f) = []" by (simp add: taken_def)
    then have "\<not> frag_matches hdr f" by (simp add: frag_matches_def)
    then have "\<forall>g \<in> set (q1[i := f]). \<not> frag_matches hdr g"
      using s(4) by (auto simp: in_set_conv_nth) (metis nth_list_update_eq nth_list_update_neq)
    moreover have "f \<in> set (q1[i := f])" using s(2) by (rule set_update_memI)
    ultimately have "reassembling hdr D {} (q1[i := f])" using f by (auto simp: reassembling_def)
    with r a(2) True show ?thesis by (auto simp: taken_def)
  next
    case False
    then have "reassembling hdr D R' (q1[i := f])" using a(2) s(2,4) by (auto simp: reassembling_def taken_def nth_list_update)
    with r a(2,3) False show ?thesis by (simp add: taken_def)
  qed
qed

text \<open>A sequence of packets, with the datagrams that are delivered.\<close>

fun reassemble_all :: "(NetBuffer \<Rightarrow> ctx \<Rightarrow> ctx) \<Rightarrow> (u8 list \<times> nat) list \<Rightarrow> Ipv4FragDesc list \<Rightarrow> ctx \<Rightarrow> NetBuffer list option" where
  "reassemble_all deliver [] q x = Some []"
| "reassemble_all deliver ((p, len) # ps) q x =
     (case ipv4ReassembleDatagram deliver p len q x of
        None \<Rightarrow> None
      | Some (out, q, x) \<Rightarrow>
          map_option (\<lambda>bs. (case out of None \<Rightarrow> bs | Some b \<Rightarrow> b # bs)) (reassemble_all deliver ps q x))"

lemma reassemble_run:
  assumes "reassembling hdr D R q" and "\<forall>pl \<in> set (ps @ [l]). fragment_of hdr D pl" and "\<And>k. heapResult x k \<noteq> None"
    and "R \<union> (\<Union>pl \<in> set ps. frag_range pl) \<noteq> {..<length D}" and "R \<union> (\<Union>pl \<in> set (ps @ [l]). frag_range pl) = {..<length D}"
  shows "\<exists>b. reassemble_all deliver (ps @ [l]) q x = Some [b] \<and> nb_bytes b = mend (length D) hdr @ D \<and> laid_out (length hdr) b"
  using assms
proof (induction ps arbitrary: R q x)
  case Nil
  obtain p len where l: "l = (p, len)" by fastforce
  with Nil reassemble_step [OF Nil(1) _ Nil(3), of p len deliver] show ?case by (auto simp: Un_commute)
next
  case (Cons pl ps)
  obtain p len where l: "pl = (p, len)" by fastforce
  have p: "fragment_of hdr D (p, len)" using Cons.prems(2) l by simp
  let ?R = "R \<union> frag_range (p, len)"
  have sub: "?R \<union> (\<Union>pl \<in> set ps. frag_range pl) \<subseteq> {..<length D}" using Cons.prems(5) l by auto
  have "?R \<noteq> {..<length D}" using Cons.prems(4) sub l by auto
  with reassemble_step [OF Cons.prems(1) p Cons.prems(3), of deliver] obtain q1 x1 where s:
    "ipv4ReassembleDatagram deliver p len q x = Some (None, q1, x1)" "reassembling hdr D ?R q1" "heapResult x1 = heapResult x" by auto
  have "\<exists>b. reassemble_all deliver (ps @ [l]) q1 x1 = Some [b] \<and> nb_bytes b = mend (length D) hdr @ D \<and> laid_out (length hdr) b"
    using Cons.prems l s(3) by (intro Cons.IH [OF s(2)]) (auto simp: Un_assoc)
  with s(1) l show ?case by auto
qed


section \<open>Fragments that hang the receiver\<close>

text \<open>
  The end of a fragment is computed in 16 bits. A first fragment at the largest offset wraps around and
  leaves overlapping holes; a second one then links a hole to itself.
\<close>

lemma hole_loop_cycle:
  assumes "get_hole frag cur = Some h" and "hnext h = cur" and "\<not> (df < hlast h \<and> dl > hfirst h)"
  shows "hole_loop df dl mf prev cur frag = None"
proof (rule ccontr)
  assume "hole_loop df dl mf prev cur frag \<noteq> None"
  then obtain y where y: "hole_loop df dl mf prev cur frag = Some y" by auto
  define P where "P = (\<lambda>df' dl' (mf'::bool) (prev' :: u16 option) cur' frag' (y::Ipv4FragDesc).
      df' = df \<longrightarrow> dl' = dl \<longrightarrow> cur' = cur \<longrightarrow> frag' = frag \<longrightarrow> False)"
  have find: "ipv4FindHole frag cur \<noteq> None" using assms(1) by (cases "ipv4FindHole frag cur") (simp_all add: get_hole_def)
  have "P df dl mf prev cur frag y"
  proof (rule hole_loop.raw_induct [where P = P, OF _ y], goal_cases)
    case (1 loop df' dl' mf' prev' cur' frag' y')
    show ?case unfolding P_def
    proof (intro impI)
      assume e: "df' = df" "dl' = dl" "cur' = cur" "frag' = frag"
      have "loop df dl mf' (Some cur) cur frag = Some y'"
        using 1(2) find assms by (auto simp: e get_link_def split: if_splits)
      from 1(1) [OF this] show False by (simp add: P_def)
    qed
  qed
  then show False by (simp add: P_def)
qed

lemma write_loop_beyond: "sum_list (map chLength cs) \<le> off \<Longrightarrow> snd (write_loop cs off src) = cs"
  by (induction cs arbitrary: off) (auto simp: Let_def split_beta)

lemma blocks_sum: "blocks cs n \<Longrightarrow> sum_list (map chLength cs) = n"
  by (induction cs arbitrary: n) auto

lemma write_beyond:
  assumes "frag_ok frag" and "fragDataLen frag + 6 \<le> df"
  shows "frag\<lparr>fragBuffer := snd (netBufferWrite (fragBuffer frag) (fragHeaderLength frag + df) xs)\<rparr> = frag"
  using assms(1)
proof (rule frag_okE)
  fix c cs assume c: "chunk (fragBuffer frag) = c # cs" "chLength c = fragHeaderLength frag" "blocks cs (fragDataLen frag + 6)"
  with blocks_sum [OF c(3)] assms(2) have "snd (write_loop (c # cs) (fragHeaderLength frag + df) xs) = c # cs"
    by (intro write_loop_beyond) simp
  with c(1) show ?thesis by (cases frag) (simp add: netBufferWrite_def split_beta)
qed

text \<open>The holes after the first of the two fragments.\<close>

definition overlapping :: "Ipv4FragDesc \<Rightarrow> bool" where
  "overlapping frag \<longleftrightarrow> frag_ok frag \<and> fragDataLen frag = 8 \<and> holes_to frag [(0, 0xFFF8), (8, 0xFFFF)] IPV4_INFINITY"

lemma wrap_loop:
  assumes ok: "frag_ok frag" and n: "fragDataLen frag = 8" and h: "holes_to frag [(0, IPV4_INFINITY)] IPV4_INFINITY"
  shows "\<exists>g. hole_loop 0xFFF8 8 True None (firstHole frag) frag = Some g \<and> overlapping g \<and> same_frag frag g"
proof -
  have h0: "firstHole frag = 0" "hole_at frag 0 = \<lparr>hfirst = 0, hlast = IPV4_INFINITY, hnext = IPV4_INFINITY\<rparr>" using h by auto
  have sl: "slot_ok frag 0" "slot_ok frag 8" by (simp_all add: slot_ok_def n)
  from set_link_ok [OF ok, of "[]" 0 IPV4_INFINITY] h0(1) obtain f1 where f1: "set_link None IPV4_INFINITY frag = Some f1" "frag_ok f1"
    "same_frag frag f1" "holes_to f1 [] IPV4_INFINITY" by (auto simp: prev_of_def)
  from new_hole_ok [OF f1(2,4), of 0 "0xFFF8"] sl slot_same [OF f1(3)] obtain f2 where f2: "new_hole None 0 0xFFF8 f1 = Some f2" "frag_ok f2"
    "same_frag f1 f2" "holes_to f2 [(0, 0xFFF8)] IPV4_INFINITY" by (auto simp: prev_of_def)
  have s2: "same_frag frag f2" by (rule same_frag_trans [OF f1(3) f2(3)])
  have l2: "\<forall>h \<in> set [(0, 0xFFF8)]. slot_ok f2 (fst h)" "distinct (map fst [(0::u16, 0xFFF8::u16)])" "slot_ok f2 8"
    "8 \<notin> fst ` set [(0::u16, 0xFFF8::u16)]"
    using sl by (simp_all add: slot_same [OF s2])
  from new_hole_ok [OF f2(2,4) l2, of "0xFFFF"] obtain f3 where f3: "new_hole (Some 0) 8 0xFFFF f2 = Some f3" "frag_ok f3"
    "same_frag f2 f3" "holes_to f3 [(0, 0xFFF8), (8, 0xFFFF)] IPV4_INFINITY" by (auto simp: prev_of_def)
  have s3: "same_frag frag f3" by (rule same_frag_trans [OF s2 f3(3)])
  have n3: "fragDataLen f3 = 8" using s3 n by (simp add: same_frag_def)
  have sl3: "slot_ok f3 8" by (simp add: slot_ok_def n3)
  have fill: "fill_hole 0xFFF8 8 True (hole_at frag 0) None frag = Some (Some 8, f3)"
    unfolding fill_hole_def h0(2) using f1(1) f2(1) f3(1) by simp
  have "get_link (Some 8) f3 = Some IPV4_INFINITY"
    using f3(4) get_hole_slot [OF f3(2) sl3] by (auto simp: get_link_def)
  moreover have "hole_loop 0xFFF8 8 True (Some 8) IPV4_INFINITY f3 = Some f3"
    using ipv4FindHole_None [OF f3(2), of IPV4_INFINITY] n3 by (subst hole_loop.simps) simp
  moreover have "ipv4FindHole frag 0 \<noteq> None" using ipv4FindHole_None [OF ok, of 0] by simp
  ultimately have "hole_loop 0xFFF8 8 True None 0 frag = Some f3"
    using fill get_hole_slot [OF ok sl(1)] h0(2) by (subst hole_loop.simps) auto
  with f3 n3 s3 h0(1) show ?thesis by (auto simp: overlapping_def)
qed

lemma overlapping_loop:
  assumes ok: "frag_ok frag" and n: "fragDataLen frag = 16" and h: "holes_to frag [(0, 0xFFF8), (8, 0xFFFF)] IPV4_INFINITY"
  shows "hole_loop 0 16 True None (firstHole frag) frag = None"
proof -
  have h0: "firstHole frag = 0" "hole_at frag 0 = \<lparr>hfirst = 0, hlast = 0xFFF8, hnext = 8\<rparr>"
    "hole_at frag 8 = \<lparr>hfirst = 8, hlast = 0xFFFF, hnext = IPV4_INFINITY\<rparr>" using h by auto
  have sl: "slot_ok frag 0" "slot_ok frag 8" "slot_ok frag 16" by (simp_all add: slot_ok_def n)
  from set_link_ok [OF ok, of "[]" 0 8] h0(1) obtain f1 where f1: "set_link None 8 frag = Some f1" "frag_ok f1"
    "same_frag frag f1" "holes_to f1 [] 8" "touched {} frag f1" by (auto simp: prev_of_def)
  from new_hole_ok [OF f1(2,4), of 16 "0xFFF8"] sl slot_same [OF f1(3)] obtain f2 where f2: "new_hole None 16 0xFFF8 f1 = Some f2" "frag_ok f2"
    "same_frag f1 f2" "holes_to f2 [(16, 0xFFF8)] 8" "touched {16} f1 f2" by (auto simp: prev_of_def)
  have s2: "same_frag frag f2" by (rule same_frag_trans [OF f1(3) f2(3)])
  have t2: "touched {16} frag f2" by (rule touched_trans [OF f1(5) f2(5) f1(3)]) auto
  have sl2: "slot_ok f2 8" "slot_ok f2 16" using sl by (simp_all add: slot_same [OF s2])
  have h8: "hole_at f2 8 = hole_at frag 8" using sl s2 by (intro touched_hole_at [OF t2 ok]) (auto simp: same_frag_def)
  have fill1: "fill_hole 0 16 True (hole_at frag 0) None frag = Some (Some 16, f2)"
    unfolding fill_hole_def h0(2) using f1(1) f2(1) by simp
  have link2: "get_link (Some 16) f2 = Some 8" using f2(4) get_hole_slot [OF f2(2) sl2(2)] by (auto simp: get_link_def)
  \<comment> \<open>the second hole: its successor would have to be stored where the new hole already is\<close>
  from put_hole_slot [OF f2(2) sl2(2), of "\<lambda>h. h\<lparr>hnext := IPV4_INFINITY\<rparr>"] obtain g1
    where g1: "put_hole f2 16 (\<lambda>h. h\<lparr>hnext := IPV4_INFINITY\<rparr>) = Some g1" "frag_ok g1" "same_frag f2 g1" by blast
  have k1: "slot_ok g1 16" using sl2 by (simp add: slot_same [OF g1(3)])
  from put_hole_slot [OF g1(2) k1, of "\<lambda>h. h\<lparr>hfirst := 16, hlast := 0xFFFF\<rparr>"] obtain g2
    where g2: "put_hole g1 16 (\<lambda>h. h\<lparr>hfirst := 16, hlast := 0xFFFF\<rparr>) = Some g2" "frag_ok g2" "same_frag g1 g2"
      "hole_at g2 16 = (hole_at g1 16)\<lparr>hfirst := 16, hlast := 0xFFFF\<rparr>" by blast
  have k2: "slot_ok g2 16" using k1 by (simp add: slot_same [OF g2(3)])
  from put_hole_slot [OF g2(2) k2, of "\<lambda>h. h\<lparr>hnext := hnext (hole_at g2 16)\<rparr>"] obtain g3
    where g3: "put_hole g2 16 (\<lambda>h. h\<lparr>hnext := hnext (hole_at g2 16)\<rparr>) = Some g3" "frag_ok g3" "same_frag g2 g3"
      "hole_at g3 16 = (hole_at g2 16)\<lparr>hnext := hnext (hole_at g2 16)\<rparr>" by blast
  have k3: "slot_ok g3 16" using k2 by (simp add: slot_same [OF g3(3)])
  from put_hole_slot [OF g3(2) k3, of "\<lambda>h. h\<lparr>hnext := 16\<rparr>"] obtain g4
    where g4: "put_hole g3 16 (\<lambda>h. h\<lparr>hnext := 16\<rparr>) = Some g4" "frag_ok g4" "same_frag g3 g4"
      "hole_at g4 16 = (hole_at g3 16)\<lparr>hnext := 16\<rparr>" by blast
  have k4: "slot_ok g4 16" using k3 by (simp add: slot_same [OF g4(3)])
  have h16: "hole_at g4 16 = \<lparr>hfirst = 16, hlast = 0xFFFF, hnext = 16\<rparr>" using g4(4) g3(4) g2(4) by simp
  have "new_hole (Some 16) 16 0xFFFF g1 = Some g4"
    using g2(1) g3(1) g4(1) get_hole_slot [OF g2(2) k2] get_hole_slot [OF g3(2) k3] g3(4) g2(4)
    by (simp add: new_hole_def get_link_def set_link_def)
  then have fill2: "fill_hole 0 16 True (hole_at f2 8) (Some 16) f2 = Some (Some 16, g4)"
    unfolding fill_hole_def h8 h0(3) using g1(1) by (simp add: set_link_def)
  have link4: "get_link (Some 16) g4 = Some 16" using get_hole_slot [OF g4(2) k4] h16 by (simp add: get_link_def)
  have end4: "hole_loop 0 16 True (Some 16) 16 g4 = None"
    using hole_loop_cycle [OF get_hole_slot [OF g4(2) k4]] h16 by simp
  have "fragDataLen f2 = 16" using s2 n by (simp add: same_frag_def)
  then have "hole_loop 0 16 True (Some 16) 8 f2 = None"
    using fill2 link4 end4 get_hole_slot [OF f2(2) sl2(1)] ipv4FindHole_None [OF f2(2), of 8] h8 h0(3)
    by (subst hole_loop.simps) auto
  then show ?thesis
    using fill1 link2 get_hole_slot [OF ok sl(1)] ipv4FindHole_None [OF ok, of 0] h0(1,2) by (subst hole_loop.simps) auto
qed

lemma grow_holes:
  assumes "fmem g = fmem f @ ext" and "frag_ok f" and "firstHole g = firstHole f" and "\<forall>h \<in> set hs. slot_ok f (fst h)" and "holes_to f hs w"
  shows "holes_to g hs w"
  using assms hole_at_append [OF assms(1,2)] by (auto intro: hole_path_cong)

lemma wrapping_fragment:
  assumes ok: "frag_ok frag" and n: "fragDataLen frag = 0" and h: "holes_to frag [(0, IPV4_INFINITY)] IPV4_INFINITY"
    and p: "ip4_fragmentOffset p = 0x3FFF" and x: "\<And>k. heapResult x k \<noteq> None"
  shows "\<exists>g x'. add_fragment deliver p 16 frag x = Some (None, g, x') \<and> overlapping g \<and> heapResult x' = heapResult x \<and>
    hd (chunk (fragBuffer g)) = hd (chunk (fragBuffer frag))"
proof -
  have sz: "fragHeaderLength frag + unat (8::u16) \<le> 8192" using ok by (auto elim: frag_okE)
  from extend_frag_raw [OF ok sz, of x] x obtain f1 x1 ext where f1: "extend_frag 8 frag x = (True, f1, x1)" "frag_ok f1"
    "fmem f1 = fmem frag @ ext" "firstHole f1 = firstHole frag" "fragDataLen f1 = 8" "hd (chunk (fragBuffer f1)) = hd (chunk (fragBuffer frag))"
    "heapResult x1 = heapResult x" by (auto simp: n)
  have "holes_to f1 [(0, IPV4_INFINITY)] IPV4_INFINITY"
    by (rule grow_holes [OF f1(3) ok f1(4) _ h]) (simp add: slot_ok_def)
  from wrap_loop [OF f1(2,5) this] obtain g where g: "hole_loop 0xFFF8 8 True None (firstHole f1) f1 = Some g" "overlapping g" "same_frag f1 g" by blast
  have gok: "frag_ok g" "fragDataLen g = 8" "firstHole g = 0" using g(2) by (auto simp: overlapping_def)
  have "ipv4FindHole g (firstHole g) \<noteq> None" using ipv4FindHole_None [OF gok(1), of 0] gok(3) by simp
  then have "finish_frag deliver g x1 = (None, g, x1)" unfolding finish_frag_def by (simp only: if_False)
  moreover have "fragDataLen g + 6 \<le> unat (0xFFF8::u16)" using gok(2) by simp
  note write_beyond [OF gok(1) this, of "take 16 (drop (ip4_headerLength p) p)"]
  moreover have w: "(0x3FFF AND IPV4_OFFSET_MASK) * 8 = (0xFFF8 :: u16)" "0xFFF8 + of_nat 16 = (8 :: u16)"
    "(0x3FFF :: u16) AND IPV4_OFFSET_MASK \<noteq> 0" "(0x3FFF :: u16) AND IPV4_FLAG_MF \<noteq> 0" by simp_all
  ultimately have "add_fragment deliver p 16 frag x = Some (None, g, x1)"
    using f1(1) g(1) unfolding add_fragment_def p Let_def w(1,2) by (simp only: w if_False split_conv not_True_eq_False refl option.case) simp
  moreover have "hd (chunk (fragBuffer g)) = hd (chunk (fragBuffer frag))" using g(3) f1(6) by (simp add: same_frag_def)
  ultimately show ?thesis using g(2) f1(7) by simp
qed

lemma overlapped_fragment:
  assumes ov: "overlapping frag" and p: "ip4_fragmentOffset p = 0x2000" "20 \<le> ip4_headerLength p" "ip4_headerLength p < length p"
    and x: "\<And>k. heapResult x k \<noteq> None"
  shows "add_fragment deliver p 16 frag x = None"
proof -
  from ov have ok: "frag_ok frag" and n: "fragDataLen frag = 8" and h: "holes_to frag [(0, 0xFFF8), (8, 0xFFFF)] IPV4_INFINITY"
    by (auto simp: overlapping_def)
  have sl: "\<forall>h \<in> set [(0::u16, 0xFFF8::u16), (8, 0xFFFF)]. slot_ok frag (fst h)" by (simp add: slot_ok_def n)
  have "ip4_headerLength p + fragDataLen frag \<le> 8192" using ip4_headerLength_le [of p] n by simp
  from take_header_raw [OF ok p(2,3) this] obtain f1 where f1: "take_header p frag = (True, f1)" "frag_ok f1" "fragDataLen f1 = 8"
    "firstHole f1 = firstHole frag" "fmem f1 = fmem frag" by (auto simp: n)
  have sl1: "\<forall>h \<in> set [(0::u16, 0xFFF8::u16), (8, 0xFFFF)]. slot_ok f1 (fst h)" by (simp add: slot_ok_def f1(3))
  have h1: "holes_to f1 [(0, 0xFFF8), (8, 0xFFFF)] IPV4_INFINITY" using h by (simp only: hole_at_same [OF f1(5)] f1(4))
  have sz: "fragHeaderLength f1 + unat (16::u16) \<le> 8192" using f1(2) by (auto elim: frag_okE)
  from extend_frag_raw [OF f1(2) sz, of x] x obtain f2 x2 ext where f2: "extend_frag 16 f1 x = (True, f2, x2)" "frag_ok f2"
    "fmem f2 = fmem f1 @ ext" "firstHole f2 = firstHole f1" "fragDataLen f2 = 16" by (auto simp: f1(3))
  from overlapping_loop [OF f2(2,5) grow_holes [OF f2(3) f1(2) f2(4) sl1 h1]] f1(1) f2(1)
  show ?thesis by (simp add: add_fragment_def p(1) Let_def)
qed


section \<open>Properties\<close>

definition example_free :: Ipv4FragDesc where
  "example_free = \<lparr>fragTimestamp = 0, fragHeaderLength = 0, fragDataLen = 0, firstHole = 0, fragBuffer = \<lparr>maxChunkCount = 0, chunk = []\<rparr>\<rparr>"

text \<open>A packet with the given length, fragment offset field and payload.\<close>

definition example_fragment :: "u8 \<Rightarrow> u16 \<Rightarrow> u8 list \<Rightarrow> u8 list" where
  "example_fragment n off xs = [0x45, 0, 0, n, 0, 7] @ be16 off @ [64, 17, 0, 0, 10, 0, 0, 1, 10, 0, 0, 2] @ xs"

definition example_heap :: ctx where
  "example_heap = example_ctx\<lparr>heapResult := \<lambda>n. Some n\<rparr>"

lemma example_fragment_nth:
  "example_fragment n off xs ! 0 = 0x45" "example_fragment n off xs ! 6 = ucast (drop_bit 8 off)" "example_fragment n off xs ! 7 = ucast off"
  "length (example_fragment n off xs) = 20 + length xs" "take 20 (example_fragment n off xs) = example_fragment n off []"
  "drop 20 (example_fragment n off xs) = xs"
  by (simp_all add: example_fragment_def be16_def)

lemma example_fragment_simps [simp]:
  "ip4_headerLength (example_fragment n off xs) = 20" "ip4_fragmentOffset (example_fragment n off xs) = off"
  by (simp_all add: ip4_headerLength_def ip4_fragmentOffset_def example_fragment_nth)

lemma example_fragment_same [simp]: "ip4_same (example_fragment n off xs) (example_fragment m off' ys)"
  by (simp add: ip4_same_def example_fragment_def be16_def)

lemma example_fragment_mend: "mend k (example_fragment n off []) = mend k (example_fragment m off' [])"
  by (simp add: mend_def example_fragment_def be16_def list_write_def)

text \<open>
  Property C6. A datagram whose fragments arrive in any order, duplicated or overlapping, is delivered
  once, with its header and its payload, at the moment when the last missing byte has arrived, and
  never before.
\<close>

theorem reassembly_any_order:
  assumes "\<forall>pl \<in> set (ps @ [l]). fragment_of hdr D pl" and "\<forall>frag \<in> set q. \<not> frag_matches hdr frag"
    and "\<exists>frag \<in> set q. chunk (fragBuffer frag) = []" and "\<forall>k. heapResult x k \<noteq> None"
    and "(\<Union>pl \<in> set ps. frag_range pl) \<noteq> {..<length D}" and "(\<Union>pl \<in> set (ps @ [l]). frag_range pl) = {..<length D}"
  shows "\<exists>b. reassemble_all deliver (ps @ [l]) q x = Some [b] \<and> nb_bytes b = mend (length D) hdr @ D"
  using reassemble_run [of hdr D "{}" q ps l x deliver] assms by (auto simp: reassembling_def)

theorem reassembly_any_order_witness:
  "\<exists>b. reassemble_all (\<lambda>b x. x) ([(example_fragment 23 1 [9, 10, 11], 23)] @ [(example_fragment 28 0x2000 [1, 2, 3, 4, 5, 6, 7, 8], 28)])
      [example_free] example_heap = Some [b] \<and>
    nb_bytes b = mend 11 (example_fragment 31 0 []) @ [1, 2, 3, 4, 5, 6, 7, 8, 9, 10, 11]"
proof -
  let ?a = "(example_fragment 23 1 [9, 10, 11], 23::nat)" and ?b = "(example_fragment 28 0x2000 [1, 2, 3, 4, 5, 6, 7, 8], 28::nat)"
  let ?h = "example_fragment 31 0 []" and ?D = "[1, 2, 3, 4, 5, 6, 7, 8, 9, 10, 11] :: u8 list"
  have f: "fragment_of ?h ?D ?a" "fragment_of ?h ?D ?b"
    by (simp_all add: fragment_of_def Let_def frag_first_def example_fragment_nth example_fragment_mend [of _ 28 _ 31 0])
  have m: "\<not> frag_matches ?h example_free" "chunk (fragBuffer example_free) = []" by (simp_all add: frag_matches_def example_free_def)
  have r: "frag_range ?a = {8..<11}" "frag_range ?b = {0..<8}"
  proof -
    have "frag_first (fst ?a) = 8" "frag_first (fst ?b) = 0" by (simp_all add: frag_first_def)
    then show "frag_range ?a = {8..<11}" "frag_range ?b = {0..<8}" by (simp_all add: frag_range_def)
  qed
  have "(0::nat) \<in> {..<11}" "(0::nat) \<notin> {8..<11}" by simp_all
  then have c: "{8..<11::nat} \<noteq> {..<11}" by blast
  have d: "{8..<11::nat} \<union> {0..<8} = {..<11}" by (simp add: Un_commute ivl_disj_un lessThan_atLeast0)
  have l: "length ?D = 11" by simp
  then have n: "{..<length ?D} = {..<11}" by (simp only:)
  have u: "(\<Union>pl \<in> set [?a]. frag_range pl) = {8..<11}" "(\<Union>pl \<in> set ([?a] @ [?b]). frag_range pl) = {8..<11} \<union> {0..<8}"
    by (simp_all add: r Un_commute)
  have "\<exists>b. reassemble_all (\<lambda>b x. x) ([?a] @ [?b]) [example_free] example_heap = Some [b] \<and> nb_bytes b = mend (length ?D) ?h @ ?D"
  proof (rule reassembly_any_order)
    show "\<forall>pl \<in> set ([?a] @ [?b]). fragment_of ?h ?D pl" using f by simp
    show "(\<Union>pl \<in> set [?a]. frag_range pl) \<noteq> {..<length ?D}" unfolding u n by (rule c)
    show "(\<Union>pl \<in> set ([?a] @ [?b]). frag_range pl) = {..<length ?D}" unfolding u n by (rule d)
  qed (use m in \<open>simp_all add: example_heap_def\<close>)
  then show ?thesis unfolding l .
qed

text \<open>
  Property C39. Two crafted fragments make the reassembly loop forever: the first one lies at the largest
  offset, so that its end wraps around to 8, the second one at offset zero; both carry 16 bytes and announce
  more fragments.
\<close>

theorem reassembly_hangs:
  assumes "ip4_fragmentOffset p1 = 0x3FFF" and "ip4_fragmentOffset p2 = 0x2000" and "ip4_same p1 p2"
    and "20 \<le> ip4_headerLength p1" and "20 \<le> ip4_headerLength p2"
    and "length p1 = ip4_headerLength p1 + 16" and "length p2 = ip4_headerLength p2 + 16"
    and "\<forall>frag \<in> set q. \<not> frag_matches p1 frag" and "\<exists>frag \<in> set q. chunk (fragBuffer frag) = []"
    and "\<forall>k. heapResult x k \<noteq> None"
  shows "\<exists>q' x'. ipv4ReassembleDatagram deliver p1 (length p1) q x = Some (None, q', x') \<and>
    ipv4ReassembleDatagram deliver p2 (length p2) q' x' = None"
proof -
  have none: "find (\<lambda>i. frag_matches p1 (q ! i)) [0..<length q] = None" using assms(8) by (auto simp: find_None_iff)
  obtain i where i: "find (\<lambda>i. chunk (fragBuffer (q ! i)) = []) [0..<length q] = Some i"
    using assms(9) by (cases "find (\<lambda>i. chunk (fragBuffer (q ! i)) = []) [0..<length q]") (auto simp: find_None_iff in_set_conv_nth)
  then have il: "i < length q" "chunk (fragBuffer (q ! i)) = []" by (auto simp: find_Some_iff)
  have x: "\<And>k. heapResult x k \<noteq> None" using assms(10) by simp
  have hl1: "ip4_headerLength p1 < length p1" using assms(6) by simp
  from init_frag_raw [OF assms(4) hl1 il(2) x] obtain g x1 where g: "init_frag p1 (q ! i) x = Some (True, g, x1)" "frag_ok g"
    "fragDataLen g = 0" "holes_to g [(0, IPV4_INFINITY)] IPV4_INFINITY" "ip4_same (storage (hd (chunk (fragBuffer g)))) p1"
    "heapResult x1 = heapResult x" by blast
  from wrapping_fragment [OF g(2,3,4) assms(1), of x1 deliver] x g(6) obtain f x2 where f:
    "add_fragment deliver p1 16 g x1 = Some (None, f, x2)" "overlapping f" "heapResult x2 = heapResult x1"
    "hd (chunk (fragBuffer f)) = hd (chunk (fragBuffer g))" by auto
  let ?q = "(q[i := g])[i := f]"
  have s1: "ipv4SearchFragQueue p1 q x = Some (Some i, q[i := g], x1)" using none i g(1) by (simp add: ipv4SearchFragQueue_def)
  have r1: "ipv4ReassembleDatagram deliver p1 (length p1) q x = Some (None, ?q, x2)"
    using s1 f(1) il(1) by (simp add: ipv4ReassembleDatagram_def Let_def assms(6))
  have "frag_ok f" using f(2) by (simp add: overlapping_def)
  then have "frag_matches p1 f" using g(5) f(4)
    by (auto simp: frag_matches_def netBufferAt_def frag_ok_def split: list.splits)
  moreover have "\<not> frag_matches p1 (?q ! j)" if "j < length ?q" "j \<noteq> i" for j using that assms(8) by simp
  ultimately have "find (\<lambda>i. frag_matches p2 (?q ! i)) [0..<length ?q] = Some i"
    using il(1) by (intro find_only) (auto simp: frag_matches_same [OF assms(3), symmetric])
  then have s2: "ipv4SearchFragQueue p2 ?q x2 = Some (Some i, ?q, x2)" by (simp add: ipv4SearchFragQueue_def)
  have "ip4_headerLength p2 < length p2" using assms(7) by simp
  then have "add_fragment deliver p2 16 f x2 = None"
    using overlapped_fragment [OF f(2) assms(2,5), of x2 deliver] x f(3) g(6) by simp
  with s2 il(1) have "ipv4ReassembleDatagram deliver p2 (length p2) ?q x2 = None"
    by (simp add: ipv4ReassembleDatagram_def Let_def assms(7))
  with r1 show ?thesis by blast
qed

theorem reassembly_hangs_witness:
  "\<exists>q' x'. ipv4ReassembleDatagram (\<lambda>b x. x) (example_fragment 36 0x3FFF (replicate 16 1)) 36 [example_free] example_heap = Some (None, q', x') \<and>
    ipv4ReassembleDatagram (\<lambda>b x. x) (example_fragment 36 0x2000 (replicate 16 1)) 36 q' x' = None"
proof -
  let ?a = "example_fragment 36 0x3FFF (replicate 16 1)" and ?b = "example_fragment 36 0x2000 (replicate 16 1)"
  have p: "ip4_fragmentOffset ?a = 0x3FFF" "ip4_fragmentOffset ?b = 0x2000" "ip4_same ?a ?b" "ip4_headerLength ?a = 20"
    "ip4_headerLength ?b = 20" "length ?a = 36" "length ?b = 36" by (simp_all add: example_fragment_nth)
  have m: "\<not> frag_matches ?a example_free" "chunk (fragBuffer example_free) = []" by (simp_all add: frag_matches_def example_free_def)
  have "\<exists>q' x'. ipv4ReassembleDatagram (\<lambda>b x. x) ?a (length ?a) [example_free] example_heap = Some (None, q', x') \<and>
      ipv4ReassembleDatagram (\<lambda>b x. x) ?b (length ?b) q' x' = None"
    by (rule reassembly_hangs) (use p m in \<open>simp_all add: example_heap_def\<close>)
  then show ?thesis by (simp only: p)
qed

end
