(* ===== verification/Ipv4_Fragmentation.thy ===== *)
theory Ipv4_Fragmentation
  imports Ipv4_Reassembly
begin

text \<open>
  From the sender to the receiver of an IPv4 datagram: the packets \<open>ipv4SendPacket\<close> puts on the wire
  are valid for \<open>ipv4ProcessPacket\<close>, \<open>ipv4FragmentDatagram\<close> returns and cuts the payload into fragments
  in the sense of \<open>Ipv4_Reassembly\<close>, disjoint and complete, and the receiver delivers the datagram.
\<close>

section \<open>The header of a packet that is sent\<close>

abbreviation ipv4_addrs :: "IpPseudoHeader \<Rightarrow> bool" where
  "ipv4_addrs ph \<equiv> length (phSrcAddr ph) = 4 \<and> length (phDestAddr ph) = 4"

definition sent_packet :: "IpPseudoHeader \<Rightarrow> u16 \<Rightarrow> u16 \<Rightarrow> u8 \<Rightarrow> u16 \<Rightarrow> u8 list \<Rightarrow> u8 list" where
  "sent_packet ph fragId fo t cs xs = list_write (ip4_header ph fragId fo t (20 + length xs)) 10 (le16 cs) @ xs"

lemma ip4_header_length [simp]: "ipv4_addrs ph \<Longrightarrow> length (ip4_header ph fragId fo t n) = 20"
  by (simp add: ip4_header_def)

lemma header_bytes:
  "ip4_header ph fragId fo t n = [0x45, 0] @ be16 (of_nat n) @ be16 fragId @ be16 fo @ [if t = 0 then 64 else t, phProtocol ph] @
    [0, 0] @ phSrcAddr ph @ phDestAddr ph"
  by (simp add: ip4_header_def)

lemma sent_packet_bytes:
  "sent_packet ph fragId fo t cs xs = [0x45, 0] @ be16 (of_nat (20 + length xs)) @ be16 fragId @ be16 fo @
    [if t = 0 then 64 else t, phProtocol ph] @ le16 cs @ phSrcAddr ph @ phDestAddr ph @ xs"
  by (simp add: sent_packet_def header_bytes list_write_def be16_def le16_def)

lemma sent_packet_fields:
  assumes "ipv4_addrs ph"
  shows "sent_packet ph fragId fo t cs xs ! 0 = 0x45" "ip4_headerLength (sent_packet ph fragId fo t cs xs) = 20"
    "ip4_fragmentOffset (sent_packet ph fragId fo t cs xs) = fo"
    "ip4_totalLength (sent_packet ph fragId fo t cs xs) = of_nat (20 + length xs)"
    "take 4 (drop 12 (sent_packet ph fragId fo t cs xs)) = phSrcAddr ph"
    "take 4 (drop 16 (sent_packet ph fragId fo t cs xs)) = phDestAddr ph"
    "drop 20 (sent_packet ph fragId fo t cs xs) = xs" "length (sent_packet ph fragId fo t cs xs) = 20 + length xs"
  using assms by (simp_all add: sent_packet_bytes be16_def le16_def ip4_headerLength_def ip4_fragmentOffset_def ip4_totalLength_def)

lemma sent_packet_same: "ipv4_addrs ph \<Longrightarrow> ip4_same (sent_packet ph fragId fo t cs xs) (sent_packet ph fragId fo' t cs' ys)"
  by (simp add: ip4_same_def sent_packet_bytes be16_def le16_def)

text \<open>The header of the whole datagram, and the headers of its fragments once they are mended.\<close>

lemma mend_sent:
  assumes "ipv4_addrs ph"
  shows "mend n (take 20 (sent_packet ph fragId fo t cs xs)) = ip4_header ph fragId 0 t (20 + n)"
  using assms by (simp add: sent_packet_bytes header_bytes mend_def be16_def le16_def list_write_def)

lemma mend_header: "ipv4_addrs ph \<Longrightarrow> mend n (ip4_header ph fragId 0 t (20 + n)) = ip4_header ph fragId 0 t (20 + n)"
  by (simp add: header_bytes mend_def be16_def list_write_def)

lemma header_same: "ipv4_addrs ph \<Longrightarrow> ip4_same (ip4_header ph fragId 0 t n) (sent_packet ph fragId fo t cs xs)"
  by (simp add: ip4_same_def sent_packet_bytes header_bytes be16_def le16_def)

lemma sent_packet_checksum:
  assumes "ipv4_addrs ph" and "unat cs = 65535 - oc_sum (ip4_header ph fragId fo t (20 + length xs))"
  shows "ipCalcChecksum addr (take 20 (sent_packet ph fragId fo t cs xs)) = 0"
proof -
  define pre where "pre = [0x45, 0] @ be16 (of_nat (20 + length xs)) @ be16 fragId @ be16 fo @ [if t = 0 then 64 else t, phProtocol ph]"
  have e: "even (length pre)" by (simp add: pre_def)
  have z: "oc_add (oc_sum []) (oc_sum ys) = oc_sum ys" for ys using oc_sum_le [of ys] by (simp add: oc_add_def)
  have "unat cs = 65535 - oc_add (oc_sum []) (oc_sum (pre @ [0, 0] @ phSrcAddr ph @ phDestAddr ph))"
    unfolding z using assms(2) by (simp only: header_bytes pre_def append_assoc)
  from oc_sum_field [OF e this] have "oc_sum (pre @ le16 cs @ phSrcAddr ph @ phDestAddr ph) = 65535"
    by (simp only: z)
  moreover have "take 20 (sent_packet ph fragId fo t cs xs) = pre @ le16 cs @ phSrcAddr ph @ phDestAddr ph"
    using assms(1) by (simp add: sent_packet_bytes be16_def le16_def pre_def)
  ultimately have "unat (ipCalcChecksum addr (take 20 (sent_packet ph fragId fo t cs xs))) = 0"
    by (simp only: ipCalcChecksum_sum)
  then show ?thesis by (simp add: unat_eq_zero)
qed

section \<open>Sending a packet\<close>

lemma ipv4SendPacket_ok:
  assumes b: "nb_wf b" "chunk b = c # ch" "off \<le> chLength c" "20 \<le> off" and ph: "ipv4_addrs ph"
  shows "\<exists>cs e x c'. ipv4SendPacket transmit ph fragId fo b off t w =
      (e, \<lparr>maxChunkCount = maxChunkCount b, chunk = c' # ch\<rparr>,
       w\<lparr>ox := x, wire := (if e = NO_ERROR then wire w @ [sent_packet ph fragId fo t cs (drop off (nb_bytes b))] else wire w)\<rparr>) \<and>
      unat cs = 65535 - oc_sum (ip4_header ph fragId fo t (20 + length (drop off (nb_bytes b)))) \<and>
      (e, x) = transmit (sent_packet ph fragId fo t cs (drop off (nb_bytes b))) (ox w) \<and>
      chLength c' = chLength c \<and> chSize c' = chSize c \<and> chunk_wf c'"
proof -
  let ?off = "off - 20" and ?n = "length (nb_bytes b) - (off - 20)"
  have len: "off \<le> length (nb_bytes b)"
    using b(1,2,3) by (simp add: nb_bytes_def nb_wf_def)
  have n: "?n = 20 + length (drop off (nb_bytes b))" using len b(4) by simp
  define h where "h = ip4_header ph fragId fo t ?n"
  have hl: "length h = 20" using ph by (simp add: h_def)
  have p1: "nb_bytes (netBufferPoke b ?off h) = list_write (nb_bytes b) ?off h" "nb_wf (netBufferPoke b ?off h)"
    "chunk (netBufferPoke b ?off h) = chunk_put c ?off h # ch"
    using poke_first [OF b(1,2), of ?off h] b(3,4) hl by simp_all
  define cs where "cs = ipCalcChecksumEx (netBufferPoke b ?off h) ?off 20"
  define b2 where "b2 = netBufferPoke (netBufferPoke b ?off h) (?off + 10) (le16 cs)"
  have p2: "nb_bytes b2 = list_write (nb_bytes (netBufferPoke b ?off h)) (?off + 10) (le16 cs)" "nb_wf b2"
    "chunk b2 = chunk_put (chunk_put c ?off h) (?off + 10) (le16 cs) # ch"
    using poke_first [OF p1(2,3), of "?off + 10" "le16 cs"] b(3,4) unfolding b2_def by simp_all
  have "drop ?off (nb_bytes b2) = list_write h 10 (le16 cs) @ drop off (nb_bytes b)"
    using len b(4) hl unfolding p2(1) p1(1) list_write_def by (simp add: drop_take)
  then have pk: "drop ?off (nb_bytes b2) = sent_packet ph fragId fo t cs (drop off (nb_bytes b))"
    by (simp only: sent_packet_def h_def n)
  have "take 20 (drop ?off (nb_bytes (netBufferPoke b ?off h))) = h"
    using len b(4) hl by (simp add: p1(1) list_write_def)
  then have cs: "unat cs = 65535 - oc_sum (ip4_header ph fragId fo t (20 + length (drop off (nb_bytes b))))"
    using ipCalcChecksumEx_sum [OF p1(2), of ?off 20] by (simp add: cs_def h_def n)
  obtain e x where tr: "transmit (sent_packet ph fragId fo t cs (drop off (nb_bytes b))) (ox w) = (e, x)" by fastforce
  let ?c = "chunk_put (chunk_put c ?off h) (?off + 10) (le16 cs)"
  have gl: "netBufferGetLength b - ?off = ?n" using netBufferGetLength_bytes [OF b(1)] by simp
  have b2: "b2 = \<lparr>maxChunkCount = maxChunkCount b, chunk = ?c # ch\<rparr>"
    using p2(3) by (cases b) (auto simp: b2_def netBufferPoke_def)
  have "ipv4SendPacket transmit ph fragId fo b off t w =
      (e, b2, w\<lparr>ox := x, wire := (if e = NO_ERROR then wire w @ [sent_packet ph fragId fo t cs (drop off (nb_bytes b))] else wire w)\<rparr>)"
    using b(4) tr pk unfolding ipv4SendPacket_def Let_def gl h_def [symmetric] cs_def [symmetric] b2_def [symmetric] by simp
  moreover have "chunk_wf ?c" using p2(2,3) by (simp add: nb_wf_def)
  ultimately show ?thesis using cs tr b2 by (intro exI [of _ cs] exI [of _ e] exI [of _ x] exI [of _ ?c]) auto
qed


section \<open>Fragmenting a datagram\<close>

text \<open>The buffer in which the fragments are built: one chunk with room for the headers.\<close>

definition frag_buf :: "NetBuffer \<Rightarrow> bool" where
  "frag_buf b \<longleftrightarrow> nb_wf b \<and> unowned b \<and> maxChunkCount b = 9 \<and> (\<exists>c cs. chunk b = c # cs \<and> chLength c = 62)"

lemma frag_buf_reset:
  assumes "frag_buf b"
  shows "\<exists>c. bufSetLength x b 62 = (NO_ERROR, x, \<lparr>maxChunkCount = 9, chunk = [c]\<rparr>) \<and> chLength c = 62 \<and> chSize c = 0 \<and> chunk_wf c"
proof -
  from assms obtain c cs where c: "chunk b = c # cs" "chLength c = 62" "chunk_wf c" "chSize c = 0" "\<forall>d \<in> set cs. chSize d = 0"
    by (auto simp: frag_buf_def unowned_def nb_wf_def)
  have "set_length_walk cs 0 = ([], 0, cs)" by (cases cs) auto
  moreover have "c\<lparr>chLength := 62\<rparr> = c" using c(2) by (cases c) simp
  ultimately have "bufSetLength x b 62 = (NO_ERROR, x, b\<lparr>chunk := [c]\<rparr>)"
    using c by (simp add: bufSetLength_def netBufferSetLength_def release_unowned)
  moreover have "b\<lparr>chunk := [c]\<rparr> = \<lparr>maxChunkCount = 9, chunk = [c]\<rparr>" using assms by (cases b) (simp add: frag_buf_def)
  ultimately show ?thesis using c(2-4) by auto
qed

text \<open>A packet as it is put on the wire for a fragment of \<open>D\<close>.\<close>

definition wire_fragment :: "IpPseudoHeader \<Rightarrow> u16 \<Rightarrow> u8 \<Rightarrow> u8 list \<Rightarrow> u8 list \<Rightarrow> bool" where
  "wire_fragment ph fragId t D p \<longleftrightarrow> fragment_of (ip4_header ph fragId 0 t (20 + length D)) D (p, length p) \<and>
     (\<exists>fo cs xs. p = sent_packet ph fragId fo t cs xs \<and> unat cs = 65535 - oc_sum (ip4_header ph fragId fo t (20 + length xs)) \<and>
        fo AND (IPV4_FLAG_MF OR IPV4_OFFSET_MASK) \<noteq> 0)"

abbreviation prange :: "u8 list \<Rightarrow> nat set" where
  "prange p \<equiv> frag_range (p, length p)"

definition cuts :: "IpPseudoHeader \<Rightarrow> u16 \<Rightarrow> u8 \<Rightarrow> u8 list \<Rightarrow> nat \<Rightarrow> u8 list list \<Rightarrow> bool" where
  "cuts ph fragId t D o' ps \<longleftrightarrow> (\<forall>p \<in> set ps. wire_fragment ph fragId t D p \<and> prange p \<noteq> {}) \<and>
     sorted_wrt (\<lambda>p r. prange p \<inter> prange r = {}) ps \<and> (\<Union>p \<in> set ps. prange p) = {o' ..< length D}"

lemma offset_field:
  assumes "8 dvd o'" and "o' < 8192"
  shows "8 * unat (of_nat (o' div 8) AND IPV4_OFFSET_MASK :: u16) = o'"
    and "8 * unat ((IPV4_FLAG_MF OR of_nat (o' div 8)) AND IPV4_OFFSET_MASK :: u16) = o'"
    and "(of_nat (o' div 8) AND IPV4_FLAG_MF :: u16) = 0" and "(IPV4_FLAG_MF OR of_nat (o' div 8)) AND IPV4_FLAG_MF = (IPV4_FLAG_MF :: u16)"
    and "(IPV4_FLAG_MF OR of_nat (o' div 8)) AND (IPV4_FLAG_MF OR IPV4_OFFSET_MASK) \<noteq> (0 :: u16)"
    and "0 < o' \<Longrightarrow> of_nat (o' div 8) AND (IPV4_FLAG_MF OR IPV4_OFFSET_MASK) \<noteq> (0 :: u16)"
proof -
  define k where "k = o' div 8"
  have k: "k < 1024" "o' = 8 * k" using assms by (auto simp: k_def)
  let ?w = "of_nat k :: u16"
  have uk: "unat ?w = k" using k(1) by (simp add: unat_of_nat)
  have lt: "?w < 2 ^ 13" using k(1) uk by (simp add: word_less_nat_alt)
  have m: "?w AND 0x1FFF = ?w" using less_mask_eq [OF lt] by (simp add: mask_eq_exp_minus_1)
  have z: "?w AND 0x2000 = 0"
  proof -
    have "?w AND 0x2000 = ?w AND (0x1FFF AND 0x2000)" by (simp only: and.assoc [symmetric] m)
    then show ?thesis by simp
  qed
  have f: "?w AND 0x3FFF = ?w"
  proof -
    have "?w AND 0x3FFF = ?w AND (0x1FFF AND 0x3FFF)" by (simp only: and.assoc [symmetric] m)
    then show ?thesis using m by simp
  qed
  note b = m z f
  show "8 * unat (of_nat (o' div 8) AND IPV4_OFFSET_MASK :: u16) = o'" using uk k by (simp add: b)
  show "8 * unat ((IPV4_FLAG_MF OR of_nat (o' div 8)) AND IPV4_OFFSET_MASK :: u16) = o'"
    using uk k by (simp add: b bit.conj_disj_distrib2)
  show "(of_nat (o' div 8) AND IPV4_FLAG_MF :: u16) = 0" using k by (simp add: b)
  show mf: "(IPV4_FLAG_MF OR of_nat (o' div 8)) AND IPV4_FLAG_MF = (IPV4_FLAG_MF :: u16)"
    using b(2) k by (simp add: bit.conj_disj_distrib2)
  show "(IPV4_FLAG_MF OR of_nat (o' div 8)) AND (IPV4_FLAG_MF OR IPV4_OFFSET_MASK) \<noteq> (0 :: u16)"
  proof
    assume "(IPV4_FLAG_MF OR of_nat (o' div 8)) AND (IPV4_FLAG_MF OR IPV4_OFFSET_MASK) = (0 :: u16)"
    then have "(IPV4_FLAG_MF OR of_nat (o' div 8)) AND ((IPV4_FLAG_MF OR IPV4_OFFSET_MASK) AND IPV4_FLAG_MF) = (0 :: u16)"
      by (simp only: and.assoc [symmetric] and_zero_eq zero_and_eq)
    with mf show False by simp
  qed
  assume "0 < o'"
  then have "?w \<noteq> 0" using uk k by (auto simp: unat_eq_0 [symmetric])
  then show "of_nat (o' div 8) AND (IPV4_FLAG_MF OR IPV4_OFFSET_MASK) \<noteq> (0 :: u16)" using k f by simp
qed


lemma sent_fragment:
  assumes ph: "ipv4_addrs ph" and D: "length D \<le> 8172" and o: "8 dvd o'" "o' + n \<le> length D" "0 < n"
    and mf: "mf \<longleftrightarrow> o' + n < length D" "mf \<longrightarrow> 8 dvd n" "mf \<or> 0 < o'"
    and fo: "fo = (if mf then IPV4_FLAG_MF OR of_nat (o' div 8) else of_nat (o' div 8))"
    and xs: "xs = take n (drop o' D)" and cs: "unat cs = 65535 - oc_sum (ip4_header ph fragId fo t (20 + length xs))"
  defines "p \<equiv> sent_packet ph fragId fo t cs xs"
  shows "wire_fragment ph fragId t D p" and "prange p = {o' ..< o' + n}"
proof -
  have lx: "length xs = n" using o by (simp add: xs)
  have o8: "o' < 8192" using o D by simp
  note f = sent_packet_fields [OF ph, of fragId fo t cs xs, folded p_def] and w = offset_field [OF o(1) o8]
  have first: "frag_first p = o'" using w(1,2) fo by (auto simp: frag_first_def f(3) simp del: One_nat_def)
  then show rng: "prange p = {o' ..< o' + n}" by (simp add: frag_range_def f(2,8) lx)
  have m: "(ip4_fragmentOffset p AND IPV4_FLAG_MF \<noteq> 0) = mf" using w(3,4) fo by (simp add: f(3))
  have h: "o' = 0 \<longrightarrow> mend (length D) (take 20 p) = mend (length D) (ip4_header ph fragId 0 t (20 + length D))"
    using mend_sent [OF ph] mend_header [OF ph] by (simp add: p_def)
  have "fragment_of (ip4_header ph fragId 0 t (20 + length D)) D (p, length p)"
    unfolding fragment_of_def Let_def fst_conv snd_conv f(2) first m
    using o mf D h ph header_same [OF ph, of fragId t _ fo cs xs, folded p_def] by (simp add: f(7,8) lx) (simp add: xs)
  moreover have "fo AND (IPV4_FLAG_MF OR IPV4_OFFSET_MASK) \<noteq> 0" using w(5,6) fo mf(3) by auto
  ultimately show "wire_fragment ph fragId t D p" using cs unfolding wire_fragment_def p_def by blast
qed

lemma fragment_loop_ok:
  assumes "nb_wf payload" and "chunkCount payload \<le> 8" and "po \<le> length (nb_bytes payload)" and "D = drop po (nb_bytes payload)"
    and "length D \<le> 8172" and "0 < ms" and "8 dvd ms" and ph: "ipv4_addrs ph"
    and "frag_buf b" and "8 dvd o'" and "o' < length D \<longrightarrow> 0 < o' \<or> ms < length D"
  shows "\<exists>e b' w'. fragment_loop transmit ph fragId payload po t (length D) ms 62 o' b w = Some (e, b', w') \<and> frag_buf b' \<and>
    ((\<forall>p x. fst (transmit p x) = NO_ERROR) \<longrightarrow> e = NO_ERROR) \<and>
    (e = NO_ERROR \<longrightarrow> (\<exists>ps. wire w' = wire w @ ps \<and> (o' \<le> length D \<longrightarrow> cuts ph fragId t D o' ps)))"
  using assms(9-11)
proof (induction "length D - o'" arbitrary: o' b w rule: less_induct)
  case less
  show ?case
  proof (cases "o' < length D")
    case False
    then have "fragment_loop transmit ph fragId payload po t (length D) ms 62 o' b w = Some (NO_ERROR, b, w)"
      by (subst fragment_loop.simps) simp
    moreover have "o' \<le> length D \<longrightarrow> cuts ph fragId t D o' []" using False by (simp add: cuts_def)
    ultimately show ?thesis using less.prems(1) by (intro exI [of _ NO_ERROR] exI [of _ b] exI [of _ w]) (auto intro!: exI [of _ "[]"])
  next
    case True
    from frag_buf_reset [OF less.prems(1), of "ox w"] obtain c where c: "bufSetLength (ox w) b 62 = (NO_ERROR, ox w, \<lparr>maxChunkCount = 9, chunk = [c]\<rparr>)"
      "chLength c = 62" "chSize c = 0" "chunk_wf c" by blast
    define lst where "lst \<longleftrightarrow> length D - o' \<le> ms"
    define n where "n = (if lst then length D - o' else ms)"
    define fo where "fo = (if lst then of_nat (o' div 8) else IPV4_FLAG_MF OR of_nat (o' div 8) :: u16)"
    then have fo: "fo = (if \<not> lst then IPV4_FLAG_MF OR of_nat (o' div 8) else of_nat (o' div 8))" by simp
    have n: "0 < n" "o' + n \<le> length D" "(\<not> lst) \<longleftrightarrow> o' + n < length D" "\<not> lst \<longrightarrow> 8 dvd n" "\<not> lst \<or> 0 < o'"
      using True assms(6,7) less.prems(3) by (auto simp: n_def lst_def)
    let ?d = "\<lparr>maxChunkCount = 9, chunk = [c]\<rparr> :: NetBuffer"
    have dwf: "nb_wf ?d" using c(4) by (simp add: nb_wf_def)
    have "fst (netBufferConcat ?d payload (po + o') n) = NO_ERROR"
      using n(2) True assms(2,3) by (intro netBufferConcat_ok [OF assms(1)]) (auto simp: assms(4))
    then obtain g where g: "netBufferConcat ?d payload (po + o') n = (NO_ERROR, g)" by (cases "netBufferConcat ?d payload (po + o') n") simp
    from netBufferConcat_bytes [OF dwf assms(1) g] have gb: "nb_bytes g = chunk_bytes c @ take n (drop o' D)" "nb_wf g"
      by (simp_all add: nb_bytes_def assms(4) add.commute)
    from netBufferConcat_chunks [of ?d payload "po + o'" n] g obtain ds where ds: "chunk g = c # ds" "\<forall>d \<in> set ds. chSize d = 0" by auto
    have gm: "maxChunkCount g = 9" using g by (auto simp: netBufferConcat_def split: list.splits prod.splits)
    have dr: "drop 62 (nb_bytes g) = take n (drop o' D)" using gb(1) c(2,4) by simp
    have "62 \<le> chLength c" "20 \<le> (62::nat)" using c(2) by simp_all
    from ipv4SendPacket_ok [OF gb(2) ds(1) this ph, of transmit fragId fo t w, unfolded dr gm c(2,3)] obtain cs e x c' where s:
      "ipv4SendPacket transmit ph fragId fo g 62 t w = (e, \<lparr>maxChunkCount = 9, chunk = c' # ds\<rparr>,
         w\<lparr>ox := x, wire := (if e = NO_ERROR then wire w @ [sent_packet ph fragId fo t cs (take n (drop o' D))] else wire w)\<rparr>)"
      "unat cs = 65535 - oc_sum (ip4_header ph fragId fo t (20 + length (take n (drop o' D))))"
      "(e, x) = transmit (sent_packet ph fragId fo t cs (take n (drop o' D))) (ox w)"
      "chLength c' = 62" "chSize c' = 0" "chunk_wf c'" by (elim exE conjE) (rule that)
    let ?b = "\<lparr>maxChunkCount = 9, chunk = c' # ds\<rparr> :: NetBuffer"
      and ?p = "sent_packet ph fragId fo t cs (take n (drop o' D))"
    have b': "frag_buf ?b" using s(4-6) ds gb(2) by (simp add: frag_buf_def nb_wf_def unowned_def)
    have loop: "fragment_loop transmit ph fragId payload po t (length D) ms 62 o' b w =
        (if e \<noteq> NO_ERROR then Some (e, ?b, w\<lparr>ox := x, wire := wire w\<rparr>)
         else fragment_loop transmit ph fragId payload po t (length D) ms 62 (o' + n) ?b (w\<lparr>ox := x, wire := wire w @ [?p]\<rparr>))"
      unfolding fragment_loop.simps [of _ _ _ _ _ _ _ _ _ o'] Let_def c(1) fst_conv snd_conv
        lst_def [symmetric] n_def [symmetric] fo_def [symmetric] g if_P [OF True] by (simp add: s(1))
    show ?thesis
    proof (cases "e = NO_ERROR")
      case False
      moreover have "fst (transmit ?p (ox w)) = e" by (simp add: s(3) [symmetric])
      ultimately show ?thesis unfolding loop using b' by auto
    next
      case ok: True
      have m: "length D - (o' + n) < length D - o'" using True n(1) by simp
      have "8 dvd o' + n" if "o' + n < length D" using that n less.prems(2) by auto
      show ?thesis
      proof (cases "lst")
        case True
        then have e: "o' + n = length D" using n by auto
        let ?w = "w\<lparr>ox := x, wire := wire w @ [?p]\<rparr>"
        have "fragment_loop transmit ph fragId payload po t (length D) ms 62 (o' + n) ?b ?w = Some (NO_ERROR, ?b, ?w)"
          unfolding e by (subst fragment_loop.simps) simp
        moreover have "cuts ph fragId t D o' [?p]"
          using sent_fragment [OF ph assms(5) less.prems(2) n(2,1) n(3-5) fo refl s(2)] e n(1) by (simp add: cuts_def)
        ultimately show ?thesis unfolding loop using ok b' by auto
      next
        case False
        have al: "8 dvd o' + n" using False n less.prems(2) by auto
        have le: "o' + n \<le> length D" by (rule n(2))
        have pos: "o' + n < length D \<longrightarrow> 0 < o' + n \<or> ms < length D" using n(1) by simp
        from less.hyps [OF m b' al pos, of "w\<lparr>ox := x, wire := wire w @ [?p]\<rparr>"] obtain e2 b2 w2 where r:
          "fragment_loop transmit ph fragId payload po t (length D) ms 62 (o' + n) ?b (w\<lparr>ox := x, wire := wire w @ [?p]\<rparr>) = Some (e2, b2, w2)"
          "frag_buf b2" "(\<forall>p x. fst (transmit p x) = NO_ERROR) \<longrightarrow> e2 = NO_ERROR"
          "e2 = NO_ERROR \<longrightarrow> (\<exists>ps. wire w2 = (wire w @ [?p]) @ ps \<and> cuts ph fragId t D (o' + n) ps)"
          using le by (elim exE conjE) (rule that, simp_all)
        have "cuts ph fragId t D o' (?p # ps)" if "cuts ph fragId t D (o' + n) ps" for ps
        proof -
          note sf = sent_fragment [OF ph assms(5) less.prems(2) n(2,1) n(3-5) fo refl s(2)]
          have "prange q \<subseteq> {o' + n ..< length D}" if "q \<in> set ps" for q using that \<open>cuts ph fragId t D (o' + n) ps\<close> by (auto simp: cuts_def)
          then have "\<forall>q \<in> set ps. prange ?p \<inter> prange q = {}" using sf(2) by fastforce
          moreover have "{o' ..< o' + n} \<union> {o' + n ..< length D} = {o' ..< length D}" using le by auto
          ultimately show ?thesis using sf that n(1) by (simp add: cuts_def)
        qed
        with r(4) have "e2 = NO_ERROR \<longrightarrow> (\<exists>ps. wire w2 = wire w @ ps \<and> cuts ph fragId t D o' ps)" by (auto simp: append_assoc)
        then show ?thesis unfolding loop using ok r(1-3) by auto
      qed
    qed
  qed
qed


lemma frame_frag_buf: "62 \<le> length st \<Longrightarrow> frag_buf (frame_buf a st 62)"
  by (simp add: frag_buf_def frame_buf_def unowned_def nb_wf_def chunk_wf_def MAX_CHUNK_COUNT_def)

lemma ipv4FragmentDatagram_ok:
  assumes b: "nb_wf b" "chunkCount b \<le> 8" "po \<le> length (nb_bytes b)" and D: "D = drop po (nb_bytes b)" "length D \<le> 8172"
    and mtu: "28 \<le> mtu" "mtu < length D + 20" and ph: "ipv4_addrs ph"
  shows "\<exists>e w'. ipv4FragmentDatagram transmit mtu ph fragId b po t w = Some (e, w') \<and>
    ((\<forall>p x. fst (transmit p x) = NO_ERROR) \<and> (\<forall>k. heapResult (ox w) k \<noteq> None) \<longrightarrow> e = NO_ERROR) \<and>
    (e = NO_ERROR \<longrightarrow> (\<exists>ps. wire w' = wire w @ ps \<and> cuts ph fragId t D 0 ps))"
proof -
  let ?ms = "mtu - 20 - (mtu - 20) mod 8"
  have ms: "0 < ?ms" "8 dvd ?ms" "?ms < length D" using mtu by (simp_all add: minus_mod_eq_div_mult)
  have gl: "netBufferGetLength b - po = length D" using netBufferGetLength_bytes [OF b(1)] D(1) by simp
  show ?thesis
  proof (cases "heapResult (ox w) (calls (ox w))")
    case None
    then show ?thesis using ipAllocBuffer_shape [of 0 "ox w"] by (auto simp: ipv4FragmentDatagram_def)
  next
    case (Some a)
    define f where "f = frame_buf a (drop CHUNKED_BUFFER_HEADER_SIZE (heapMem (ox w) a)) 62"
    define x where "x = (tick_call (ox w))\<lparr>live := a # live (ox w)\<rparr>"
    have al: "ipAllocBuffer (ox w) 0 = (Some (a, f, 62), x)"
      using Some ipAllocBuffer_shape [of 0 "ox w"] by (simp add: f_def x_def)
    have fb: "frag_buf f" unfolding f_def by (rule frame_frag_buf) (simp add: CHUNKED_BUFFER_HEADER_SIZE_def)
    have z: "8 dvd (0::nat)" "0 < length D \<longrightarrow> 0 < (0::nat) \<or> ?ms < length D" using ms(3) by simp_all
    from fragment_loop_ok [OF b D ms(1,2) ph fb z, of transmit fragId t "w\<lparr>ox := x\<rparr>"] obtain e b' w' where l:
      "fragment_loop transmit ph fragId b po t (length D) ?ms 62 0 f (w\<lparr>ox := x\<rparr>) = Some (e, b', w')"
      "(\<forall>p x. fst (transmit p x) = NO_ERROR) \<longrightarrow> e = NO_ERROR"
      "e = NO_ERROR \<longrightarrow> (\<exists>ps. wire w' = wire w @ ps \<and> cuts ph fragId t D 0 ps)"
      by (elim exE conjE) (rule that, simp_all)
    then show ?thesis by (auto simp: ipv4FragmentDatagram_def al gl Let_def)
  qed
qed

section \<open>Receiving the packets\<close>

definition accepts :: "ip_filter \<Rightarrow> IpPseudoHeader \<Rightarrow> bool" where
  "accepts flt ph \<longleftrightarrow> checkSourceAddr flt (phSrcAddr ph) = NO_ERROR \<and> checkDestAddr flt (phDestAddr ph) = NO_ERROR \<and>
     \<not> isTentativeAddr flt (phDestAddr ph)"

lemma sent_packet_valid:
  assumes ph: "ipv4_addrs ph" and "accepts flt ph" and cs: "unat cs = 65535 - oc_sum (ip4_header ph fragId fo t (20 + length xs))"
    and n: "20 + length xs < 65536"
  shows "ip4_valid flt addr (sent_packet ph fragId fo t cs xs)" and "unat (ip4_totalLength (sent_packet ph fragId fo t cs xs)) = 20 + length xs"
proof -
  note f = sent_packet_fields [OF ph, of fragId fo t cs xs]
  show tl: "unat (ip4_totalLength (sent_packet ph fragId fo t cs xs)) = 20 + length xs" unfolding f(4) using n by (simp only: unat_of_nat) simp
  have "5 \<le> (0x45 :: u8) AND 0x0F" "drop_bit 4 (0x45 :: u8) = 4" by simp_all
  with assms(2) show "ip4_valid flt addr (sent_packet ph fragId fo t cs xs)"
    using sent_packet_checksum [OF ph cs, of addr] by (simp add: ip4_valid_def f(1,2,5-8) tl accepts_def)
qed

text \<open>A sequence of packets with their addresses in memory, and the datagrams that are delivered.\<close>

fun receive_all ::
  "(NetBuffer \<Rightarrow> ctx \<Rightarrow> ctx) \<Rightarrow> ip_filter \<Rightarrow> (nat \<times> u8 list) list \<Rightarrow> Ipv4FragDesc list \<Rightarrow> ctx \<Rightarrow> NetBuffer list option" where
  "receive_all deliver flt [] q x = Some []"
| "receive_all deliver flt ((addr, p) # ps) q x =
     (case ipv4ProcessPacket deliver flt addr p q x of
        None \<Rightarrow> None
      | Some (out, q, x) \<Rightarrow>
          map_option (\<lambda>bs. (case out of None \<Rightarrow> bs | Some b \<Rightarrow> b # bs)) (receive_all deliver flt ps q x))"

lemma receive_fragment:
  assumes "wire_fragment ph fragId t D p" and "ipv4_addrs ph" and "accepts flt ph"
  shows "ipv4ProcessPacket deliver flt addr p q x = ipv4ReassembleDatagram deliver p (length p) q x"
proof -
  from assms(1) obtain fo cs xs where p: "p = sent_packet ph fragId fo t cs xs"
    "unat cs = 65535 - oc_sum (ip4_header ph fragId fo t (20 + length xs))" "fo AND (IPV4_FLAG_MF OR IPV4_OFFSET_MASK) \<noteq> 0"
    and fr: "fragment_of (ip4_header ph fragId 0 t (20 + length D)) D (p, length p)" by (auto simp: wire_fragment_def)
  note f = sent_packet_fields [OF assms(2), of fragId fo t cs xs]
  have "20 + length xs < 65536" using fr f(2,8) p(1) by (simp add: fragment_of_def Let_def)
  note v = sent_packet_valid(1) [OF assms(2,3) p(2) this, of addr] sent_packet_valid(2) [OF assms(2,3) p(2) this]
  have "ip4_fragmentOffset p AND (IPV4_FLAG_MF OR IPV4_OFFSET_MASK) \<noteq> 0" using p(3) by (simp only: p(1) f(3)) simp
  moreover have "ip4_valid flt addr p" "unat (ip4_totalLength p) = length p" using v f(8) by (simp_all add: p(1))
  ultimately show ?thesis unfolding ipv4ProcessPacket_def Let_def by (simp only: if_True simp_thms)
qed

lemma receive_fragments:
  assumes "\<forall>ap \<in> set ps. wire_fragment ph fragId t D (snd ap)" and "ipv4_addrs ph" and "accepts flt ph"
  shows "receive_all deliver flt ps q x = reassemble_all deliver (map (\<lambda>ap. (snd ap, length (snd ap))) ps) q x"
  using assms(1)
proof (induction ps arbitrary: q x)
  case (Cons ap ps)
  obtain a p where ap: "ap = (a, p)" by fastforce
  with Cons.prems have "wire_fragment ph fragId t D p" by simp
  from receive_fragment [OF this assms(2,3)] Cons show ?case by (simp add: ap split: option.splits)
qed simp

text \<open>The datagram as it is delivered: its header, but for the checksum, and its payload.\<close>

definition delivers :: "IpPseudoHeader \<Rightarrow> u16 \<Rightarrow> u8 \<Rightarrow> u8 list \<Rightarrow> NetBuffer list option \<Rightarrow> bool" where
  "delivers ph fragId t D r \<longleftrightarrow> (\<exists>b. r = Some [b] \<and> laid_out 20 b \<and> drop 20 (nb_bytes b) = D \<and>
     mend (length D) (take 20 (nb_bytes b)) = ip4_header ph fragId 0 t (20 + length D))"

lemma receive_cuts:
  assumes c: "cuts ph fragId t D 0 qs" and ph: "ipv4_addrs ph" and acc: "accepts flt ph"
    and q: "\<forall>frag \<in> set q. \<not> frag_matches (ip4_header ph fragId 0 t (20 + length D)) frag" "\<exists>frag \<in> set q. chunk (fragBuffer frag) = []"
    and x: "\<And>k. heapResult x k \<noteq> None" and ps: "snd ` set (ps @ [l]) = set qs" "snd l \<notin> snd ` set ps"
  shows "delivers ph fragId t D (receive_all deliver flt (ps @ [l]) q x)"
proof -
  let ?h = "ip4_header ph fragId 0 t (20 + length D)" and ?f = "\<lambda>ap. (snd ap, length (snd ap)) :: u8 list \<times> nat"
  have wf: "\<forall>ap \<in> set (ps @ [l]). wire_fragment ph fragId t D (snd ap)"
  proof
    fix ap assume "ap \<in> set (ps @ [l])"
    then have "snd ap \<in> set qs" using ps(1) by blast
    then show "wire_fragment ph fragId t D (snd ap)" using c by (simp add: cuts_def)
  qed
  have r: "receive_all deliver flt (ps @ [l]) q x = reassemble_all deliver (map ?f ps @ [?f l]) q x"
    using receive_fragments [OF wf ph acc, of deliver q x] by simp
  have f: "\<forall>pl \<in> set (map ?f ps @ [?f l]). fragment_of ?h D pl" using wf by (auto simp: wire_fragment_def)
  have all: "(\<Union>pl \<in> set (map ?f ps @ [?f l]). frag_range pl) = {..<length D}"
  proof -
    have "(\<Union>pl \<in> set (map ?f ps @ [?f l]). frag_range pl) = (\<Union>p \<in> snd ` set (ps @ [l]). prange p)" by auto
    then show ?thesis using c unfolding ps(1) by (auto simp: cuts_def)
  qed
  have "snd l \<in> set qs" using ps(1) by auto
  then have ne: "prange (snd l) \<noteq> {}" using c by (auto simp: cuts_def)
  have "sorted_wrt (\<lambda>p r. prange p \<inter> prange r = {}) qs" using c by (simp add: cuts_def)
  then have dis: "prange p \<inter> prange r = {}" if "p \<in> set qs" "r \<in> set qs" "p \<noteq> r" for p r
    using that by (induction qs) auto
  have "prange (snd l) \<inter> prange p = {}" if "p \<in> snd ` set ps" for p
    using that ps \<open>snd l \<in> set qs\<close> by (intro dis) auto
  then have dl: "(\<Union>pl \<in> set (map ?f ps). frag_range pl) \<inter> prange (snd l) = {}" by auto
  have sub: "prange (snd l) \<subseteq> {..<length D}" using all by auto
  have part: "{} \<union> (\<Union>pl \<in> set (map ?f ps). frag_range pl) \<noteq> {..<length D}"
  proof
    assume "{} \<union> (\<Union>pl \<in> set (map ?f ps). frag_range pl) = {..<length D}"
    with dl have "{..<length D} \<inter> prange (snd l) = {}" by simp
    with sub ne show False by (simp add: Int_absorb1)
  qed
  from reassemble_run [of ?h D "{}" q "map ?f ps" "?f l" x deliver] q f x part all
  obtain b where b: "reassemble_all deliver (map ?f ps @ [?f l]) q x = Some [b]" "nb_bytes b = mend (length D) ?h @ D" "laid_out (length ?h) b"
    by (auto simp: reassembling_def)
  then show ?thesis using ph by (simp add: delivers_def r mend_header)
qed

lemma receive_whole:
  assumes ph: "ipv4_addrs ph" and acc: "accepts flt ph" and cs: "unat cs = 65535 - oc_sum (ip4_header ph fragId 0 t (20 + length D))"
    and D: "length D \<le> 8172"
  shows "delivers ph fragId t D (receive_all deliver flt [(addr, sent_packet ph fragId 0 t cs D)] q x)"
proof -
  let ?p = "sent_packet ph fragId 0 t cs D"
  note f = sent_packet_fields [OF ph, of fragId 0 t cs D]
  have "20 + length D < 65536" using D by simp
  note v = sent_packet_valid(1) [OF ph acc cs this, of addr] sent_packet_valid(2) [OF ph acc cs this]
  let ?b = "\<lparr>maxChunkCount = 1, chunk = [\<lparr>address = addr, storage = ?p, chLength = 20 + length D, chSize = 0\<rparr>]\<rparr>"
  have "ipv4ProcessPacket deliver flt addr ?p q x = Some (Some ?b, q, deliver ?b x)"
    using v f(3) by (simp add: ipv4ProcessPacket_def Let_def)
  moreover have "nb_bytes ?b = ?p" using f(8) by (simp add: nb_bytes_def chunk_bytes_def)
  moreover have "laid_out 20 ?b"
    using f(7,8) by (simp add: laid_out_def nb_wf_def chunk_wf_def netBufferAt_def nb_bytes_def chunk_bytes_def min_def)
  ultimately show ?thesis using f(7) mend_sent [OF ph, of "length D" fragId 0 t cs D] by (simp add: delivers_def)
qed


lemma ipv4_transfers:
  assumes "nb_wf b" and "chunkCount b \<le> 8" and "chunk b = c # ch" and "20 \<le> off" and "off \<le> chLength c"
    and "D = drop off (nb_bytes b)" and "length D \<le> 8172" and "28 \<le> mtu" and "ipv4_addrs ph" and "accepts flt ph"
    and "\<forall>frag \<in> set q. \<not> frag_matches (ip4_header ph ident 0 t (20 + length D)) frag"
    and "\<exists>frag \<in> set q. chunk (fragBuffer frag) = []" and "\<forall>k. heapResult x k \<noteq> None"
  shows "\<exists>e w'. ipv4SendDatagram transmit mtu ident ph b off t w = Some (e, ident + 1, w') \<and>
    ((\<forall>p x. fst (transmit p x) = NO_ERROR) \<and> (\<forall>k. heapResult (ox w) k \<noteq> None) \<longrightarrow> e = NO_ERROR) \<and>
    (e = NO_ERROR \<longrightarrow> (\<exists>qs. wire w' = wire w @ qs \<and>
       (\<forall>ps l. snd ` set (ps @ [l]) = set qs \<and> snd l \<notin> snd ` set ps \<longrightarrow>
          delivers ph ident t D (receive_all deliver flt (ps @ [l]) q x))))"
proof -
  have ol: "off \<le> length (nb_bytes b)" using assms(1,3,5) by (simp add: nb_bytes_def nb_wf_def)
  have gl: "netBufferGetLength b - off = length D" using netBufferGetLength_bytes [OF assms(1)] assms(6) by simp
  show ?thesis
  proof (cases "length D + 20 \<le> mtu")
    case True
    from ipv4SendPacket_ok [OF assms(1,3,5,4,9), of transmit ident 0 t w, folded assms(6)] obtain cs e y c' where s:
      "ipv4SendPacket transmit ph ident 0 b off t w = (e, \<lparr>maxChunkCount = maxChunkCount b, chunk = c' # ch\<rparr>,
        w\<lparr>ox := y, wire := (if e = NO_ERROR then wire w @ [sent_packet ph ident 0 t cs D] else wire w)\<rparr>)"
      "unat cs = 65535 - oc_sum (ip4_header ph ident 0 t (20 + length D))"
      "(e, y) = transmit (sent_packet ph ident 0 t cs D) (ox w)" by (elim exE conjE) (rule that)
    have "fst (transmit (sent_packet ph ident 0 t cs D) (ox w)) = e" by (simp add: s(3) [symmetric])
    moreover have "delivers ph ident t D (receive_all deliver flt (ps @ [l]) q x)"
      if "snd ` set (ps @ [l]) = set [sent_packet ph ident 0 t cs D]" "snd l \<notin> snd ` set ps" for ps l
    proof -
      have "ps = []" "l = (fst l, sent_packet ph ident 0 t cs D)" using that by (cases ps; cases l; auto)+
      with receive_whole [OF assms(9,10) s(2) assms(7), of deliver "fst l" q x] show ?thesis by (metis append_Nil)
    qed
    ultimately show ?thesis using True s(1) by (auto simp: ipv4SendDatagram_def gl intro!: exI [of _ "[sent_packet ph ident 0 t cs D]"])
  next
    case False
    then have lt: "mtu < length D + 20" by simp
    from ipv4FragmentDatagram_ok [OF assms(1,2) ol assms(6,7,8) lt assms(9), of transmit ident t w] obtain e w' where s:
      "ipv4FragmentDatagram transmit mtu ph ident b off t w = Some (e, w')"
      "(\<forall>p x. fst (transmit p x) = NO_ERROR) \<and> (\<forall>k. heapResult (ox w) k \<noteq> None) \<longrightarrow> e = NO_ERROR"
      "e = NO_ERROR \<longrightarrow> (\<exists>ps. wire w' = wire w @ ps \<and> cuts ph ident t D 0 ps)" by (elim exE conjE) (rule that)
    have r: "ipv4SendDatagram transmit mtu ident ph b off t w = Some (e, ident + 1, w')"
      using False s(1) by (simp add: ipv4SendDatagram_def gl)
    have "\<exists>qs. wire w' = wire w @ qs \<and> (\<forall>ps l. snd ` set (ps @ [l]) = set qs \<and> snd l \<notin> snd ` set ps \<longrightarrow>
        delivers ph ident t D (receive_all deliver flt (ps @ [l]) q x))" if "e = NO_ERROR"
    proof -
      from s(3) that obtain qs where qs: "wire w' = wire w @ qs" "cuts ph ident t D 0 qs" by blast
      have hp: "\<And>k. heapResult x k \<noteq> None" using assms(13) by simp
      from receive_cuts [OF qs(2) assms(9,10,11,12) hp] qs(1) show ?thesis by blast
    qed
    with r s(2) show ?thesis by blast
  qed
qed

section \<open>Properties\<close>

text \<open>
  Property C5. A datagram sent by \<open>ipv4SendDatagram\<close>, whole or in fragments, is delivered by
  \<open>ipv4ProcessPacket\<close> at the receiver with its addresses, protocol, identification and payload,
  when all its packets have arrived: in any order, some of them more than once. Sending returns in
  every case, without an error when the link takes the packets and memory does not run out.
\<close>

theorem ipv4_transfer:
  assumes "nb_wf b" and "chunkCount b \<le> 8" and "chunk b = c # ch" and "20 \<le> off" and "off \<le> chLength c"
    and "D = drop off (nb_bytes b)" and "length D \<le> 8172" and "28 \<le> mtu" and "ipv4_addrs ph" and "accepts flt ph"
    and "\<forall>frag \<in> set q. \<not> frag_matches (ip4_header ph ident 0 t (20 + length D)) frag"
    and "\<exists>frag \<in> set q. chunk (fragBuffer frag) = []" and "\<forall>k. heapResult x k \<noteq> None"
  shows "\<exists>e w'. ipv4SendDatagram transmit mtu ident ph b off t w = Some (e, ident + 1, w') \<and>
    ((\<forall>p x. fst (transmit p x) = NO_ERROR) \<and> (\<forall>k. heapResult (ox w) k \<noteq> None) \<longrightarrow> e = NO_ERROR) \<and>
    (e = NO_ERROR \<longrightarrow> (\<exists>qs. wire w' = wire w @ qs \<and>
       (\<forall>ps l. snd ` set (ps @ [l]) = set qs \<and> snd l \<notin> snd ` set ps \<longrightarrow>
          delivers ph ident t D (receive_all deliver flt (ps @ [l]) q x))))"
  by (rule ipv4_transfers [OF assms])

definition example_payload :: NetBuffer where
  "example_payload = \<lparr>maxChunkCount = 9, chunk = [\<lparr>address = 0, storage = replicate 20 0 @ [1, 2, 3, 4, 5, 6, 7, 8, 9, 10, 11, 12],
     chLength = 32, chSize = 0\<rparr>]\<rparr>"

definition example_addrs :: IpPseudoHeader where
  "example_addrs = \<lparr>phLength = 12, phSrcAddr = [10, 0, 0, 1], phDestAddr = [10, 0, 0, 2], phProtocol = 17, phDataLength = 12\<rparr>"

definition example_filter :: ip_filter where
  "example_filter = \<lparr>checkSourceAddr = \<lambda>_. NO_ERROR, checkDestAddr = \<lambda>_. NO_ERROR, isTentativeAddr = \<lambda>_. False\<rparr>"

theorem ipv4_transfer_witness:
  "\<exists>w' qs. ipv4SendDatagram (\<lambda>p x. (NO_ERROR, x)) 28 7 example_addrs example_payload 20 64 \<lparr>ox = example_heap, wire = []\<rparr> =
      Some (NO_ERROR, 8, w') \<and> wire w' = qs \<and>
    (\<forall>ps l. snd ` set (ps @ [l]) = set qs \<and> snd l \<notin> snd ` set ps \<longrightarrow>
       delivers example_addrs 7 64 [1, 2, 3, 4, 5, 6, 7, 8, 9, 10, 11, 12]
         (receive_all (\<lambda>b x. x) example_filter (ps @ [l]) [example_free] example_heap))"
proof -
  let ?c = "\<lparr>address = 0, storage = replicate 20 0 @ [1, 2, 3, 4, 5, 6, 7, 8, 9, 10, 11, 12], chLength = 32, chSize = 0\<rparr> :: ChunkDesc"
  let ?D = "[1, 2, 3, 4, 5, 6, 7, 8, 9, 10, 11, 12] :: u8 list"
  have b: "nb_wf example_payload" "chunkCount example_payload \<le> 8" "chunk example_payload = ?c # []" "?D = drop 20 (nb_bytes example_payload)"
    by (simp_all add: example_payload_def nb_wf_def chunk_wf_def nb_bytes_def chunk_bytes_def)
  have h: "\<forall>k. heapResult example_heap k \<noteq> None" by (simp add: example_heap_def)
  have m: "\<forall>frag \<in> set [example_free]. \<not> frag_matches (ip4_header example_addrs 7 0 64 (20 + length ?D)) frag"
    "\<exists>frag \<in> set [example_free]. chunk (fragBuffer frag) = []" by (simp_all add: frag_matches_def example_free_def)
  have a: "ipv4_addrs example_addrs" "accepts example_filter example_addrs"
    by (simp_all add: example_addrs_def accepts_def example_filter_def)
  have n: "20 \<le> chLength ?c" "length ?D \<le> 8172" "28 \<le> (28::nat)" "20 \<le> (20::nat)" by simp_all
  from ipv4_transfer [OF b(1,2,3) n(4,1) b(4) n(2,3) a m h, of "\<lambda>p x. (NO_ERROR, x)" "\<lparr>ox = example_heap, wire = []\<rparr>" "\<lambda>b x. x"] h
  obtain e w' where s: "ipv4SendDatagram (\<lambda>p x. (NO_ERROR, x)) 28 7 example_addrs example_payload 20 64 \<lparr>ox = example_heap, wire = []\<rparr>
      = Some (e, 7 + 1, w')" "e = NO_ERROR"
    "\<exists>qs. wire w' = qs \<and> (\<forall>ps l. snd ` set (ps @ [l]) = set qs \<and> snd l \<notin> snd ` set ps \<longrightarrow>
       delivers example_addrs 7 64 ?D (receive_all (\<lambda>b x. x) example_filter (ps @ [l]) [example_free] example_heap))"
    by simp blast
  then show ?thesis by auto
qed

end
