(* ===== verification/Udp_Transfer.thy ===== *)
theory Udp_Transfer
  imports Udp_Queue Icmp Ipv4_Fragmentation
begin

text \<open>
  From a UDP socket to another one: the datagram \<open>udpSendDatagram\<close> builds, its checksum, what the receiver makes of
  it, and the composition with fragmentation and reassembly of IPv4 and the dispatch of
  \<open>ipv4ProcessDatagram\<close>.
\<close>

section \<open>The datagram on the wire\<close>

definition udp_datagram :: "u16 \<Rightarrow> u16 \<Rightarrow> u16 \<Rightarrow> u8 list \<Rightarrow> u8 list" where
  "udp_datagram sport dport cs xs = udpHeader_bytes sport dport (of_nat (8 + length xs)) cs @ xs"

definition udp_verifies :: "IpPseudoHeader \<Rightarrow> u8 list \<Rightarrow> bool" where
  "udp_verifies ph D \<longleftrightarrow>
     (\<forall>b off. nb_wf b \<longrightarrow> drop off (nb_bytes b) = D \<longrightarrow>
        ipCalcUpperLayerChecksumEx 0 (pseudoHeader_bytes ph) b off (length D) = 0)"

lemma oc_add_le: "oc_add (oc_sum ph) (oc_sum ys) \<le> 65535"
  using oc_sum_le [of ph] oc_sum_le [of ys] by (auto simp: oc_add_def)

text \<open>A checksum that comes out as zero is sent as all ones, and verifies all the same.\<close>

lemma oc_sum_ones:
  assumes "even (length pre)" and "oc_add (oc_sum ph) (oc_sum (pre @ [0, 0] @ post)) = 65535"
  shows "oc_add (oc_sum ph) (oc_sum (pre @ le16 0xFFFF @ post)) = 65535"
proof -
  let ?z = "pre @ [0, 0] @ post" and ?f = "pre @ le16 0xFFFF @ post"
  have s: "rep (oc_add (oc_sum ph) (oc_sum ys)) (le_sum ph + le_sum ys)" for ys
    using rep_trans [OF rep_oc_add rep_add [OF rep_oc_sum rep_oc_sum]] .
  have u: "unat (0xFFFF :: u16) = 65535" by (simp add: take_bit_eq_mod)
  have "rep (le_sum ph + le_sum ?f) (le_sum ph + (65535 + le_sum ?z))"
    unfolding u [symmetric] by (intro rep_add rep_refl field_sum assms(1))
  then have "rep (oc_add (oc_sum ph) (oc_sum ?f)) (65535 + (le_sum ph + le_sum ?z))"
    using rep_trans [OF s [of ?f]] by (simp only: ac_simps)
  moreover have "rep 65535 (65535 + (le_sum ph + le_sum ?z))"
    using s [of ?z] assms(2) by (auto simp: rep_def)
  ultimately show ?thesis using oc_add_le by (intro rep_unique) auto
qed

lemma udp_checksum:
  assumes b: "nb_wf b" "drop off (nb_bytes b) = udp_datagram sport dport 0 xs"
    and cs: "cs = ipCalcUpperLayerChecksumEx 0 (pseudoHeader_bytes ph) b off (8 + length xs)"
  shows "udp_verifies ph (udp_datagram sport dport (if cs = 0 then 0xFFFF else cs) xs)"
  unfolding udp_verifies_def
proof (intro allI impI)
  fix b' off' let ?c = "if cs = 0 then 0xFFFF else cs" and ?n = "length (udp_datagram sport dport (if cs = 0 then 0xFFFF else cs) xs)"
  assume b': "nb_wf b'" "drop off' (nb_bytes b') = udp_datagram sport dport ?c xs"
  define pre where "pre = be16 sport @ be16 dport @ be16 (of_nat (8 + length xs))"
  have e: "even (length pre)" by (simp add: pre_def)
  have z: "le16 0 = [0, 0]" by (simp add: le16_def)
  have d: "udp_datagram sport dport v xs = pre @ le16 v @ xs" for v by (simp add: udp_datagram_def udpHeader_bytes_def pre_def)
  have n: "?n = 8 + length xs" "length (udp_datagram sport dport 0 xs) = 8 + length xs" by (simp_all add: d pre_def)
  have t: "take ?n (drop off' (nb_bytes b')) = pre @ le16 ?c @ xs" "take (8 + length xs) (drop off (nb_bytes b)) = pre @ [0, 0] @ xs"
    using n b' b(2) by (simp_all add: d z)
  have u: "unat cs = 65535 - oc_add (oc_sum (pseudoHeader_bytes ph)) (oc_sum (pre @ [0, 0] @ xs))"
    using ipCalcUpperLayerChecksumEx_sum [OF b(1), of 0 "pseudoHeader_bytes ph" off "8 + length xs"] t(2) by (simp add: cs)
  have "oc_add (oc_sum (pseudoHeader_bytes ph)) (oc_sum (pre @ le16 ?c @ xs)) = 65535"
  proof (cases "cs = 0")
    case True
    then have "oc_add (oc_sum (pseudoHeader_bytes ph)) (oc_sum (pre @ [0, 0] @ xs)) = 65535"
      using u oc_add_le [of "pseudoHeader_bytes ph" "pre @ [0, 0] @ xs"] by simp
    with oc_sum_ones [OF e] True show ?thesis by simp
  next
    case False
    with oc_sum_field [OF e u] show ?thesis by simp
  qed
  then have "unat (ipCalcUpperLayerChecksumEx 0 (pseudoHeader_bytes ph) b' off' ?n) = 0"
    using ipCalcUpperLayerChecksumEx_sum [OF b'(1), of 0 "pseudoHeader_bytes ph" off' ?n] t(1) by simp
  then show "ipCalcUpperLayerChecksumEx 0 (pseudoHeader_bytes ph) b' off' ?n = 0" by (simp add: unat_eq_zero)
qed

section \<open>Sending\<close>

text \<open>A selected source address has the length of its family.\<close>

definition source_ok :: "ctx \<Rightarrow> IpAddr \<Rightarrow> bool" where
  "source_ok x dest \<longleftrightarrow> (\<forall>k. ipLength dest \<le> length (snd (snd (sourceResult x k))))"

text \<open>The datagram that was handed to the IP layer for \<open>len\<close> bytes of user data.\<close>

definition udp_sent :: "ctx \<Rightarrow> Socket \<Rightarrow> IpAddr \<Rightarrow> u16 \<Rightarrow> u8 list \<Rightarrow> u32 \<Rightarrow> Datagram \<Rightarrow> bool" where
  "udp_sent x s dest dport xs fl dg \<longleftrightarrow>
     (\<exists>a cs. dgPseudoHeader dg = udp_pseudo dest a (8 + length xs) \<and>
        (source_ok x dest \<longrightarrow> length a = ipLength dest) \<and>
        dgBytes dg = udp_datagram (localPort s) dport cs xs \<and>
        udp_verifies (dgPseudoHeader dg) (dgBytes dg)) \<and>
     dgAncillary dg = udp_ancillary s dest fl \<and> (ipLength dest = 4 \<or> ipLength dest = 16)"

lemma udpSourceAddr_frame:
  "udpSourceAddr ifc src dest x = (e, i, a, x') \<Longrightarrow> sent x' = sent x \<and> live x' = live x \<and> (e = NO_ERROR \<longrightarrow> source_ok x dest \<longrightarrow>
    src = None \<longrightarrow> length a = ipLength dest)"
  by (auto simp: udpSourceAddr_def source_ok_def Let_def tick_call_def split: if_splits prod.splits) (metis min.absorb2 snd_conv)+

lemma udpSendDatagramEx_result:
  assumes b: "nb_wf b" "chunk b = c # ch" "8 \<le> off" "off \<le> chLength c" and s: "udpSendDatagramEx ifc src sport dest dport b off anc x = (e, b', x')"
  shows "(e \<noteq> NO_ERROR \<and> sent x' = sent x \<or>
      (\<exists>i a cs. sent x' = sent x @ [\<lparr>dgInterface = i, dgPseudoHeader = udp_pseudo dest a (8 + length (drop off (nb_bytes b))),
          dgBytes = udp_datagram sport dport cs (drop off (nb_bytes b)), dgAncillary = anc\<rparr>] \<and>
        (source_ok x dest \<longrightarrow> src = None \<longrightarrow> length a = ipLength dest) \<and> (ipLength dest = 4 \<or> ipLength dest = 16) \<and>
        udp_verifies (udp_pseudo dest a (8 + length (drop off (nb_bytes b)))) (udp_datagram sport dport cs (drop off (nb_bytes b))))) \<and>
    live x' = live x \<and> owned b' = owned b"
proof -
  let ?o = "off - 8" and ?xs = "drop off (nb_bytes b)"
  have ol: "off \<le> length (nb_bytes b)" using b(1,2,4) by (simp add: nb_bytes_def nb_wf_def)
  have gl: "netBufferGetLength b - ?o = 8 + length ?xs" using netBufferGetLength_bytes [OF b(1)] ol b(3) by simp
  have lt: "?o < chLength c" using b(3,4) by simp
  then have at: "netBufferAt b ?o \<noteq> None" using b(2) by (simp add: netBufferAt_def)
  let ?h = "udpHeader_bytes sport dport (of_nat (8 + length ?xs)) 0"
  have hl: "length ?h = 8" by (simp add: udpHeader_bytes_def)
  let ?b1 = "netBufferPoke b ?o ?h"
  have p1: "nb_bytes ?b1 = list_write (nb_bytes b) ?o ?h" "nb_wf ?b1" "chunk ?b1 = chunk_put c ?o ?h # ch"
    using poke_first [OF b(1,2), of ?o ?h] b(3,4) hl by simp_all
  have D1: "drop ?o (nb_bytes ?b1) = udp_datagram sport dport 0 ?xs"
    unfolding p1(1) list_write_def using ol b(3) hl by (simp add: udp_datagram_def)
  obtain e1 i a y where sa: "udpSourceAddr ifc src dest x = (e1, i, a, y)" by (metis prod_cases4)
  note fr = udpSourceAddr_frame [OF sa]
  show ?thesis
  proof (cases "(ipLength dest = 4 \<or> ipLength dest = 16) \<and> e1 = NO_ERROR")
    case False
    have "owned ?b1 = owned b" using b(2) p1(3) by (simp add: owned_def)
    with False s at sa fr show ?thesis
      unfolding udpSendDatagramEx_def Let_def gl by (auto split: if_splits)
  next
    case True
    let ?ph = "udp_pseudo dest a (8 + length ?xs)"
    define cs where "cs = ipCalcUpperLayerChecksumEx 0 (pseudoHeader_bytes ?ph) ?b1 ?o (8 + length ?xs)"
    define c1 where "c1 = (if cs = 0 then 0xFFFF else cs)"
    let ?b2 = "netBufferPoke ?b1 (?o + 6) (le16 c1)"
    have p2: "nb_bytes ?b2 = list_write (nb_bytes ?b1) (?o + 6) (le16 c1)" "chunk ?b2 = chunk_put (chunk_put c ?o ?h) (?o + 6) (le16 c1) # ch"
      using poke_first [OF p1(2,3), of "?o + 6" "le16 c1"] b(3,4) by simp_all
    have pre: "take (?o + 6) (nb_bytes ?b1) = take ?o (nb_bytes b) @ be16 sport @ be16 dport @ be16 (of_nat (8 + length ?xs))"
      "drop (?o + 8) (nb_bytes ?b1) = ?xs"
      unfolding p1(1) list_write_def using ol b(3) by (simp_all add: udpHeader_bytes_def)
    have D2: "drop ?o (nb_bytes ?b2) = udp_datagram sport dport c1 ?xs"
    proof -
      have k: "?o + 6 + length (le16 c1) = ?o + 8" by simp
      show ?thesis unfolding p2(1) list_write_def k pre using ol by (simp add: udp_datagram_def udpHeader_bytes_def)
    qed
    have ok: "udp_verifies ?ph (udp_datagram sport dport c1 ?xs)" unfolding c1_def by (rule udp_checksum [OF p1(2) D1 cs_def])
    have phl: "phLength ?ph = 12 \<or> phLength ?ph = 40" by (simp add: udp_pseudo_def)
    have "(e, b', x') = (let (e, x) = ipSendDatagram y i ?ph ?b2 ?o anc in (e, ?b2, x))"
      using s at True sa unfolding udpSendDatagramEx_def Let_def gl
      by (simp only: if_False if_True prod.case simp_thms cs_def [symmetric] c1_def [symmetric]) 
    then have r: "sent x' = sent y @ [\<lparr>dgInterface = i, dgPseudoHeader = ?ph, dgBytes = drop ?o (nb_bytes ?b2), dgAncillary = anc\<rparr>]"
      "live x' = live y" "b' = ?b2"
      using phl by (auto simp: ipSendDatagram_def tick_call_def)
    have "owned ?b2 = owned b" using b(2) p2(2) by (simp add: owned_def)
    with r fr True ok show ?thesis unfolding D2 by auto
  qed
qed

lemma unowned_iff: "unowned b \<longleftrightarrow> owned b = {#}"
  by (auto simp: unowned_def owned_def filter_empty_conv)

lemma udpSendDatagram_result:
  assumes s: "udpSendDatagram s dest dport addr data len fl x = (e, wr, x')" and len: "len \<le> length data" "len < 65536"
  shows "wr = (if e = NO_ERROR then Some len else None) \<and> live x' = live x \<and>
    (sent x' = sent x \<and> e \<noteq> NO_ERROR \<or> (\<exists>dg. sent x' = sent x @ [dg] \<and> udp_sent x s dest dport (take len data) fl dg))"
proof (cases "heapResult x (calls x)")
  case None
  have "ipAllocBuffer x 8 = (None, tick_call x)" using None by (simp add: ipAllocBuffer_shape)
  then show ?thesis using s by (auto simp: udpSendDatagram_def udpAllocBuffer_def tick_call_def)
next
  case (Some a)
  define st where "st = drop CHUNKED_BUFFER_HEADER_SIZE (heapMem x a)"
  define y where "y = (tick_call x)\<lparr>live := a # live x\<rparr>"
  have "ipAllocBuffer x 8 = (Some (a, frame_buf a st 70, 62), y)" using Some by (simp add: ipAllocBuffer_shape st_def y_def)
  then have al: "udpAllocBuffer x 0 = (Some (a, frame_buf a st 70, 70), y)" by (simp add: udpAllocBuffer_def)
  have y: "sent y = sent x" "live y = a # live x" by (simp_all add: y_def tick_call_def)
  let ?c = "\<lparr>address = a + CHUNKED_BUFFER_HEADER_SIZE, storage = st, chLength = 70, chSize = 0\<rparr> :: ChunkDesc"
  let ?d = "\<lparr>address = addr, storage = data, chLength = len, chSize = 0\<rparr> :: ChunkDesc"
  define b where "b = \<lparr>maxChunkCount = 9, chunk = [?c, ?d]\<rparr>"
  have ap: "netBufferAppend (frame_buf a st 70) addr data len = (NO_ERROR, b)"
    using len(2) by (simp add: netBufferAppend_def frame_buf_def b_def MAX_CHUNK_COUNT_def)
  have lst: "70 \<le> length st" by (simp add: st_def CHUNKED_BUFFER_HEADER_SIZE_def)
  have b: "nb_wf b" "chunk b = ?c # [?d]" using lst len(1) by (simp_all add: b_def nb_wf_def chunk_wf_def)
  have xs: "drop 70 (nb_bytes b) = take len data" using lst len(1) by (simp add: b_def nb_bytes_def chunk_bytes_def)
  have ob: "owned b = {#}" by (simp add: b_def owned_def)
  obtain b2 z where ex: "udpSendDatagramEx (sk_interface s) None (localPort s) dest dport b 70 (udp_ancillary s dest fl) y = (e, b2, z)"
    and x': "x' = bufFree z a b2" and wr: "wr = (if e = NO_ERROR then Some len else None)"
    using s al ap by (auto simp: udpSendDatagram_def Let_def split: prod.splits)
  have "8 \<le> (70::nat)" "70 \<le> chLength ?c" by simp_all
  note r = udpSendDatagramEx_result [OF b this ex, unfolded xs]
  then have "unowned b2" by (simp add: unowned_iff ob)
  then have "sent x' = sent z" "live x' = remove1 a (live z)" by (simp_all add: x' bufFree_unowned)
  moreover have "live z = a # live x" using r y(2) by simp
  ultimately have "live x' = live x" "sent x' = sent z" by simp_all
  moreover from r have "sent z = sent x \<and> e \<noteq> NO_ERROR \<or> (\<exists>dg. sent z = sent x @ [dg] \<and> udp_sent x s dest dport (take len data) fl dg)"
  proof -
    let ?ph = "\<lambda>a. udp_pseudo dest a (8 + length (take len data))" and ?D = "\<lambda>cs. udp_datagram (localPort s) dport cs (take len data)"
    let ?dg = "\<lambda>i a cs. \<lparr>dgInterface = i, dgPseudoHeader = ?ph a, dgBytes = ?D cs, dgAncillary = udp_ancillary s dest fl\<rparr>"
    have so: "source_ok y dest = source_ok x dest" by (simp add: source_ok_def y_def tick_call_def)
    from r consider "sent z = sent x" "e \<noteq> NO_ERROR" | i a cs where "sent z = sent x @ [?dg i a cs]" "source_ok y dest \<longrightarrow> length a = ipLength dest"
        "ipLength dest = 4 \<or> ipLength dest = 16" "udp_verifies (?ph a) (?D cs)"
      unfolding y(1) by blast
    then show ?thesis
    proof cases
      case (2 i a cs)
      from 2(2-4) so have "udp_sent x s dest dport (take len data) fl (?dg i a cs)"
        by (simp add: udp_sent_def del: length_take) blast
      with 2(1) show ?thesis by blast
    qed simp
  qed
  ultimately show ?thesis using wr by simp
qed

section \<open>Receiving\<close>

text \<open>The header that the receiver reads is the one that was written.\<close>

lemma udp_header_fields:
  "of_be16 (udp_datagram sport dport cs xs ! 0) (udp_datagram sport dport cs xs ! 1) = sport"
  "of_be16 (udp_datagram sport dport cs xs ! 2) (udp_datagram sport dport cs xs ! 3) = dport"
  "of_le16 (udp_datagram sport dport cs xs ! 6) (udp_datagram sport dport cs xs ! 7) = cs"
  "length (udp_datagram sport dport cs xs) = 8 + length xs" "drop 8 (udp_datagram sport dport cs xs) = xs"
  by (simp_all add: udp_datagram_def udpHeader_bytes_def be16_def le16_def)

definition dgram_queued :: "nat \<Rightarrow> datagram \<Rightarrow> stack \<Rightarrow> stack \<Rightarrow> bool" where
  "dgram_queued i d st st' \<longleftrightarrow>
     (\<exists>q. receiveQueue (socketTable (sn st') ! i) = receiveQueue (socketTable (sn st) ! i) @ [q] \<and> item_ok q \<and> datagram_of q = d) \<and>
     (\<forall>j. j \<noteq> i \<longrightarrow> socketTable (sn st') ! j = socketTable (sn st) ! j) \<and> udpCallbackTable st' = udpCallbackTable st"

lemma udp_receive:
  assumes lo: "laid_out hl b" and D: "drop hl (nb_bytes b) = udp_datagram sport dport cs xs"
    and v: "udp_verifies ph (udp_datagram sport dport cs xs)" and ph: "pseudo_ok ph"
    and i: "find_dgram ifc ph sport dport (socketTable (sn st)) 0 = Some i" "length (receiveQueue (socketTable (sn st) ! i)) < 4"
    and mem: "\<forall>k. heapResult (nx (sn st)) k \<noteq> None" "length xs \<le> 13680"
  shows "\<exists>st'. udpProcessDatagram callback ifc ph b hl anc st = Some (NO_ERROR, st') \<and>
    dgram_queued i (xs, queue_addr ph (phSrcAddr ph), sport, queue_addr ph (phDestAddr ph)) st st'"
proof -
  let ?D = "udp_datagram sport dport cs xs"
  have wf: "nb_wf b" using lo by (simp add: laid_out_def)
  have l: "length (nb_bytes b) - hl = 8 + length xs" using arg_cong [OF D, of length] by (simp add: udp_header_fields)
  then have gl: "netBufferGetLength b - hl = 8 + length xs" using netBufferGetLength_bytes [OF wf] by simp
  have "hl < length (nb_bytes b)" using l by simp
  with lo obtain a m where at: "netBufferAt b hl = Some (a, m)" "min 60 (8 + length xs) \<le> length m"
    "take (min 60 (8 + length xs)) m = take 60 ?D" by (auto simp: laid_out_def l D)
  have mD: "m ! k = ?D ! k" if "k < 8" for k
  proof -
    have "m ! k = take (min 60 (8 + length xs)) m ! k" using that by simp
    also have "\<dots> = ?D ! k" unfolding at(3) using that by simp
    finally show ?thesis .
  qed
  have mk: "m ! 0 = ?D ! 0" "m ! 1 = ?D ! 1" "m ! 2 = ?D ! 2" "m ! 3 = ?D ! 3" by (rule mD, simp)+
  have f: "of_be16 (m ! 0) (m ! 1) = sport" "of_be16 (m ! 2) (m ! 3) = dport" unfolding mk by (rule udp_header_fields)+
  have cks: "ipCalcUpperLayerChecksumEx 0 (pseudoHeader_bytes ph) b hl (8 + length xs) = 0"
    using v wf D by (auto simp: udp_verifies_def udp_header_fields)
  let ?c = "\<lparr>cx = nx (sn st), sk = socketTable (sn st) ! i\<rparr>"
  have it: "i < length (socketTable (sn st))" using find_dgram_Some [OF i(1)] by simp
  obtain e c' where en: "enqueue ph sport b (hl + 8) (length xs) anc ?c = (e, c')" by fastforce
  have le: "hl + 8 + length xs \<le> length (nb_bytes b)" using l by simp
  have p: "udpProcessDatagram callback ifc ph b hl anc st =
      Some (e, st\<lparr>sn := \<lparr>nx = cx c', socketTable = (socketTable (sn st))[i := sk c']\<rparr>\<rparr>)"
    using at(1,2) f i(1) cks en unfolding udpProcessDatagram_def Let_def gl by (simp add: at_socket_def)
  from en wf le ph show ?thesis
  proof (cases rule: enqueue_result)
    case (queued q)
    have "take (length xs) (drop (hl + 8) (nb_bytes b)) = xs"
      using arg_cong [OF D, of "drop 8"] by (simp add: udp_header_fields add.commute)
    with queued p it show ?thesis by (auto simp: dgram_queued_def intro!: exI [of _ q])
  next
    case full
    then show ?thesis using i(2) by simp
  next
    case memory
    moreover have "\<exists>a b x'. bufAlloc (nx (sn st)) (64 + length xs) = (Some (a, b), x')"
      using bufAlloc_succeeds [OF mem(1), of "64 + length xs"] mem(2) by auto
    ultimately show ?thesis by auto
  qed
qed

section \<open>Across the network\<close>

lemma mend_drop: "length h = 20 \<Longrightarrow> mend n h ! 0 = h ! 0 \<and> mend n h ! 9 = h ! 9 \<and> drop 12 (mend n h) = drop 12 h"
  by (simp add: mend_def nth_list_write, simp add: list_write_def)

lemma delivered_header:
  assumes "ipv4_addrs ph" and "length h = 20" and "mend n h = ip4_header ph ident 0 t (20 + n)"
  shows "h ! 0 = 0x45" "h ! 9 = phProtocol ph" "take 4 (drop 12 h) = phSrcAddr ph" "take 4 (drop 16 h) = phDestAddr ph"
proof -
  have "ip4_header ph ident 0 t (20 + n) ! 0 = 0x45" "ip4_header ph ident 0 t (20 + n) ! 9 = phProtocol ph"
    "drop 12 (ip4_header ph ident 0 t (20 + n)) = phSrcAddr ph @ phDestAddr ph"
    using assms(1) by (simp_all add: ip4_header_def be16_def)
  moreover from this(3) have "drop 12 h = phSrcAddr ph @ phDestAddr ph" using mend_drop [OF assms(2), of n] assms(3) by simp
  moreover have "drop 16 h = drop 4 (drop 12 h)" by simp
  moreover from calculation have "drop 16 h = phDestAddr ph" using assms(1) by simp
  ultimately show "h ! 0 = 0x45" "h ! 9 = phProtocol ph" "take 4 (drop 12 h) = phSrcAddr ph" "take 4 (drop 16 h) = phDestAddr ph"
    using mend_drop [OF assms(2), of n] assms by simp_all
qed

text \<open>
  A datagram reaches the socket that is bound to its port, when there is room in the queue of the
  socket and in memory.
\<close>

definition udp_arrives :: "IpPseudoHeader \<Rightarrow> u16 \<Rightarrow> u16 \<Rightarrow> u8 list \<Rightarrow> NetBuffer \<Rightarrow> bool" where
  "udp_arrives ph sport dport xs b \<longleftrightarrow>
     (\<forall>callback bcastEcho ifc anc st i.
        find_dgram ifc ph sport dport (socketTable (sn st)) 0 = Some i \<and>
        length (receiveQueue (socketTable (sn st) ! i)) < UDP_RX_QUEUE_SIZE \<and>
        (\<forall>k. heapResult (nx (sn st)) k \<noteq> None) \<longrightarrow>
        (\<exists>st'. ipv4ProcessDatagram callback bcastEcho ifc b anc st = Some st' \<and>
           dgram_queued i (xs, queue_addr ph (phSrcAddr ph), sport, queue_addr ph (phDestAddr ph)) st st'))"

lemma delivers_arrives:
  assumes d: "delivers ph ident t D r" and D: "D = udp_datagram sport dport cs xs" "length xs \<le> 8164"
    and ph: "ph = udp_pseudo dest a (length D)" "ipLength dest = 4" "4 \<le> length (ipData dest)" "length a = 4"
    and v: "udp_verifies ph D"
  shows "\<exists>b. r = Some [b] \<and> udp_arrives ph sport dport xs b"
proof -
  have f: "phLength ph = 12" "phSrcAddr ph = a" "phDestAddr ph = take 4 (ipData dest)" "phProtocol ph = 17"
    "phDataLength ph = of_nat (length D)" using ph by (simp_all add: udp_pseudo_def)
  have pa: "ipv4_addrs ph" "pseudo_ok ph" using f ph by (simp_all add: pseudo_ok_def)
  from d obtain b where b: "r = Some [b]" "laid_out 20 b" "drop 20 (nb_bytes b) = D"
    "mend (length D) (take 20 (nb_bytes b)) = ip4_header ph ident 0 t (20 + length D)" by (auto simp: delivers_def)
  have lD: "length D = 8 + length xs" by (simp add: D(1) udp_header_fields)
  then have ln: "length (nb_bytes b) = 20 + length D" using arg_cong [OF b(3), of length] by simp
  then have "length (take 20 (nb_bytes b)) = 20" by simp
  note h = delivered_header [OF pa(1) this b(4)]
  from b(2) obtain ad m where at: "netBufferAt b 0 = Some (ad, m)" "20 \<le> length m" "take 20 m = take 20 (nb_bytes b)"
    by (auto simp: laid_out_def)
  have m: "m ! 0 = 0x45" "m ! 9 = 17" "take 4 (drop 12 m) = phSrcAddr ph" "take 4 (drop 16 m) = phDestAddr ph"
  proof -
    have "m ! 0 = take 20 m ! 0" "m ! 9 = take 20 m ! 9" by simp_all
    then show "m ! 0 = 0x45" "m ! 9 = 17" unfolding at(3) using h(1,2) f(4) by simp_all
    have "take 4 (drop 12 m) = take 4 (drop 12 (take 20 m))" "take 4 (drop 16 m) = take 4 (drop 16 (take 20 m))" by (simp_all add: drop_take)
    then show "take 4 (drop 12 m) = phSrcAddr ph" "take 4 (drop 16 m) = phDestAddr ph" unfolding at(3) using h(3,4) by simp_all
  qed
  have wf: "nb_wf b" using b(2) by (simp add: laid_out_def)
  have hl: "unat (m ! 0 AND 0x0F) * 4 = 20" by (simp add: m(1))
  have p: "ipv4_pseudo m (netBufferGetLength b - 20) = ph"
    using f m(2,3,4) netBufferGetLength_bytes [OF wf] ln by (intro IpPseudoHeader.equality) (simp_all add: ipv4_pseudo_def)
  have "udp_arrives ph sport dport xs b"
    unfolding udp_arrives_def
  proof (intro allI impI, elim conjE)
    fix callback :: rx_callback and bcastEcho ifc anc and st :: stack and i
    assume "find_dgram ifc ph sport dport (socketTable (sn st)) 0 = Some i"
      "length (receiveQueue (socketTable (sn st) ! i)) < 4" "\<forall>k. heapResult (nx (sn st)) k \<noteq> None"
    from udp_receive [OF b(2) b(3) [unfolded D(1)] v [unfolded D(1)] pa(2) this] D(2)
    obtain st' where "udpProcessDatagram callback ifc ph b 20 anc st = Some (NO_ERROR, st')"
      "dgram_queued i (xs, queue_addr ph (phSrcAddr ph), sport, queue_addr ph (phDestAddr ph)) st st'" by auto
    with at(1,2) m(2) p hl show "\<exists>st'. ipv4ProcessDatagram callback bcastEcho ifc b anc st = Some st' \<and>
        dgram_queued i (xs, queue_addr ph (phSrcAddr ph), sport, queue_addr ph (phDestAddr ph)) st st'"
      by (simp add: ipv4ProcessDatagram_def Let_def)
  qed
  with b(1) show ?thesis by blast
qed

section \<open>Properties\<close>

text \<open>A buffer that holds the datagram \<open>D\<close> at \<open>off\<close>, with room for the IP header in front of it.\<close>

definition datagram_at :: "NetBuffer \<Rightarrow> nat \<Rightarrow> u8 list \<Rightarrow> bool" where
  "datagram_at b off D \<longleftrightarrow> nb_wf b \<and> chunkCount b \<le> 8 \<and> 20 \<le> off \<and> (\<exists>c ch. chunk b = c # ch \<and> off \<le> chLength c) \<and>
     drop off (nb_bytes b) = D"

text \<open>A reassembly queue with a free entry, and none that is in use for the same datagram.\<close>

definition queue_free :: "Ipv4FragDesc list \<Rightarrow> u8 list \<Rightarrow> bool" where
  "queue_free q hdr \<longleftrightarrow> (\<forall>frag \<in> set q. \<not> frag_matches hdr frag) \<and> (\<exists>frag \<in> set q. chunk (fragBuffer frag) = [])"


lemma udpSendDatagramEx_succeeds:
  assumes "netBufferAt b (off - 8) \<noteq> None" and "\<forall>k. fst (sourceResult x k) = NO_ERROR" and "\<forall>k. ipResult x k = NO_ERROR"
    and "ipLength dest = 4"
  shows "fst (udpSendDatagramEx ifc None sport dest dport b off anc x) = NO_ERROR"
proof -
  obtain i a where "sourceResult x (calls x) = (NO_ERROR, i, a)" using assms(2) by (metis prod.collapse)
  then show ?thesis using assms
    by (simp add: udpSendDatagramEx_def Let_def udpSourceAddr_def ipSendDatagram_def udp_pseudo_def tick_call_def)
qed

lemma udpSendDatagram_succeeds:
  assumes "heapResult x (calls x) \<noteq> None" and "\<forall>k. fst (sourceResult x k) = NO_ERROR" and "\<forall>k. ipResult x k = NO_ERROR"
    and "ipLength dest = 4"
  shows "fst (udpSendDatagram s dest dport addr data len fl x) = NO_ERROR"
proof -
  obtain a where a: "heapResult x (calls x) = Some a" using assms(1) by auto
  define y where "y = (tick_call x)\<lparr>live := a # live x\<rparr>"
  define f where "f = frame_buf a (drop CHUNKED_BUFFER_HEADER_SIZE (heapMem x a)) 70"
  have "ipAllocBuffer x 8 = (Some (a, f, 62), y)" using a by (simp add: ipAllocBuffer_shape y_def f_def)
  then have al: "udpAllocBuffer x 0 = (Some (a, f, 70), y)" by (simp add: udpAllocBuffer_def)
  obtain b where ap: "netBufferAppend f addr data len = (NO_ERROR, b)" and at: "netBufferAt b (70 - 8) \<noteq> None"
    by (simp add: f_def netBufferAppend_def frame_buf_def MAX_CHUNK_COUNT_def netBufferAt_def)
  have y: "\<forall>k. fst (sourceResult y k) = NO_ERROR" "\<forall>k. ipResult y k = NO_ERROR" using assms(2,3) by (simp_all add: y_def tick_call_def)
  have "fst (udpSendDatagramEx (sk_interface s) None (localPort s) dest dport b 70 (udp_ancillary s dest fl) y) = NO_ERROR"
    by (rule udpSendDatagramEx_succeeds [OF at y assms(4)])
  then show ?thesis by (auto simp: udpSendDatagram_def al ap Let_def split: prod.splits)
qed

definition example_dgram :: Socket where
  "example_dgram = zeroSocket\<lparr>sk_type := SOCKET_TYPE_DGRAM, localPort := 5000, ttl := 64\<rparr>"

definition example_peer :: IpAddr where
  "example_peer = \<lparr>ipLength = 4, ipData = [10, 0, 0, 2]\<rparr>"


end
