(* ===== verification/Icmp_Messages.thy ===== *)
theory Icmp_Messages
  imports Udp_Queue Icmp Ipv4_Fragmentation
begin

text \<open>
  What the host answers with ICMP messages: echo requests and datagrams to ports nobody listens to. The
  message sent is the one built by \<open>icmp_send\<close>, whose checksum verifies at the receiver (\<open>icmp_verifies\<close>).
\<close>

section \<open>Sending a message\<close>

definition icmp_verifies :: "u8 list \<Rightarrow> bool" where
  "icmp_verifies D \<longleftrightarrow>
     (\<forall>b off. nb_wf b \<longrightarrow> drop off (nb_bytes b) = D \<longrightarrow> ipCalcChecksumEx b off (length D) = 0)"

lemma icmp_checksum:
  assumes "length pre = 2" and "unat cs = 65535 - oc_sum (pre @ [0, 0] @ post)"
  shows "icmp_verifies (pre @ le16 cs @ post)"
proof -
  have z: "oc_add (oc_sum []) (oc_sum ys) = oc_sum ys" for ys using oc_sum_le [of ys] by (simp add: oc_add_def)
  have "even (length pre)" using assms(1) by simp
  from oc_sum_field [OF this, of cs "[]" post, unfolded z, OF assms(2)]
  have s: "oc_sum (pre @ le16 cs @ post) = 65535" .
  have "unat (ipCalcChecksumEx b off (length (pre @ le16 cs @ post))) = 0"
    if "nb_wf b" "drop off (nb_bytes b) = pre @ le16 cs @ post" for b off
    using ipCalcChecksumEx_sum [OF that(1), of off "length (pre @ le16 cs @ post)"] s that(2) by simp
  then show ?thesis by (simp add: icmp_verifies_def unat_eq_zero)
qed

lemma skip_all:
  assumes "nb_wf b" and "length (nb_bytes b) \<le> n"
  shows "fst (skip_chunks (chunk b) n) = []"
proof -
  have "fst (skip_chunks cs n) = []" if "\<forall>c \<in> set cs. chunk_wf c" "length (chunks_bytes cs) \<le> n" for cs n
    using that by (induction cs arbitrary: n) auto
  with assms show ?thesis by (simp add: nb_wf_def nb_bytes_def)
qed

text \<open>
  The message that goes out: the header with its checksum, then the copied part of the packet. Nothing goes
  out when there is nothing to copy: \<open>netBufferConcat\<close> rejects an offset at the end of the buffer.
\<close>

lemma icmp_send_result:
  assumes b: "nb_wf b" "chunkCount b \<le> 8" "off + len \<le> length (nb_bytes b)" and h: "length pre = 2" "length post = 4"
    and s: "icmp_send ifc src dest (pre @ [0, 0] @ post) b off len x = (e, x')" and x: "heapResult x (calls x) \<noteq> None"
  shows "live x' = live x" and "length (nb_bytes b) \<le> off \<Longrightarrow> e = ERROR_INVALID_PARAMETER \<and> sent x' = sent x"
    and "off < length (nb_bytes b) \<Longrightarrow> \<exists>cs. sent x' = sent x @ [\<lparr>dgInterface = ifc, dgPseudoHeader = icmp_pseudo src dest (8 + len),
        dgBytes = pre @ le16 cs @ post @ take len (drop off (nb_bytes b)), dgAncillary = NET_DEFAULT_ANCILLARY_DATA\<rparr>] \<and>
      icmp_verifies (pre @ le16 cs @ post @ take len (drop off (nb_bytes b)))"
proof -
  obtain a where a: "heapResult x (calls x) = Some a" using x by auto
  define st where "st = drop CHUNKED_BUFFER_HEADER_SIZE (heapMem x a)"
  define y where "y = (tick_call x)\<lparr>live := a # live x\<rparr>"
  have al: "ipAllocBuffer x 8 = (Some (a, frame_buf a st 70, 62), y)" using a by (simp add: ipAllocBuffer_shape st_def y_def)
  have y: "sent y = sent x" "live y = a # live x" by (simp_all add: y_def tick_call_def)
  have lst: "length st = 1456" by (simp add: st_def CHUNKED_BUFFER_HEADER_SIZE_def)
  define r where "r = frame_buf a (list_write st 62 (pre @ [0, 0] @ post)) 70"
  have po: "netBufferPoke (frame_buf a st 70) 62 (pre @ [0, 0] @ post) = r" by (simp add: frame_buf_poke r_def)
  have rl: "length (list_write st 62 (pre @ [0, 0] @ post)) = 1456" using lst h by simp
  then have rw: "nb_wf r" "nb_bytes r = take 62 st @ pre @ [0, 0] @ post"
    using lst h frame_buf_bytes [of 70 "list_write st 62 (pre @ [0, 0] @ post)" a] by (simp_all add: r_def list_write_def)
  have ru: "unowned r" "chunkCount r = 1" "maxChunkCount r = 9" by (simp_all add: r_def unowned_def frame_buf_def MAX_CHUNK_COUNT_def)
  obtain e1 r1 where co: "netBufferConcat r b off len = (e1, r1)" by fastforce
  obtain ds where ds: "chunk r1 = chunk r @ ds" "\<forall>d \<in> set ds. chSize d = 0" using netBufferConcat_chunks [of r b off len] co by auto
  have r1u: "unowned r1" using ru(1) ds by (auto simp: unowned_def)
  have res: "(e, x') = (let (e, x) = (if e1 = NO_ERROR then
        let n = netBufferGetLength r1 - 62; r2 = netBufferPoke r1 64 (le16 (ipCalcChecksumEx r1 62 n))
        in (fst (ipSendDatagram y ifc (icmp_pseudo src dest n) r2 62 NET_DEFAULT_ANCILLARY_DATA),
            heapFree a (snd (ipSendDatagram y ifc (icmp_pseudo src dest n) r2 62 NET_DEFAULT_ANCILLARY_DATA)))
      else (e1, heapFree a y)) in (e, x))"
    using s [unfolded icmp_send_def al] po co bufFree_unowned [OF r1u] by (simp add: Let_def split_beta split: if_splits)
  show "live x' = live x" using res y(2) by (auto simp: Let_def ipSendDatagram_def tick_call_def icmp_pseudo_def split: if_splits)
  show "e = ERROR_INVALID_PARAMETER \<and> sent x' = sent x" if "length (nb_bytes b) \<le> off"
  proof -
    have "e1 = ERROR_INVALID_PARAMETER" using co skip_all [OF b(1) that] by (simp add: netBufferConcat_def split_beta)
    then show ?thesis using res y(1) by simp
  qed
  assume lt: "off < length (nb_bytes b)"
  have e1: "e1 = NO_ERROR" using netBufferConcat_ok [OF b(1,3) lt, of r] co ru b(2) by simp
  note cb = netBufferConcat_bytes [OF rw(1) b(1) co [unfolded e1]]
  let ?xs = "take len (drop off (nb_bytes b))"
  have xl: "length ?xs = len" using b(3) by simp
  have rb: "nb_bytes r1 = take 62 st @ pre @ [0, 0] @ post @ ?xs" using cb(1) rw(2) by simp
  then have n: "netBufferGetLength r1 - 62 = 8 + len" using netBufferGetLength_bytes [OF cb(2)] lst h xl by simp
  define cs where "cs = ipCalcChecksumEx r1 62 (8 + len)"
  obtain c where c: "chunk r1 = c # ds" "chLength c = 70" using ds(1) by (auto simp: r_def frame_buf_def)
  have "nb_bytes (netBufferPoke r1 64 (le16 cs)) = list_write (nb_bytes r1) 64 (le16 cs)"
    using poke_first(1) [OF cb(2) c(1), of 64 "le16 cs"] c(2) by simp
  then have D: "drop 62 (nb_bytes (netBufferPoke r1 64 (le16 cs))) = pre @ le16 cs @ post @ ?xs"
    using lst h by (simp add: rb list_write_def)
  have "unat cs = 65535 - oc_sum (pre @ [0, 0] @ (post @ ?xs))"
    using ipCalcChecksumEx_sum [OF cb(2), of 62 "8 + len"] lst h xl by (simp add: cs_def rb)
  from icmp_checksum [OF h(1) this] have v: "icmp_verifies (pre @ le16 cs @ post @ ?xs)" by simp
  have "x' = heapFree a (snd (ipSendDatagram y ifc (icmp_pseudo src dest (8 + len)) (netBufferPoke r1 64 (le16 cs)) 62 NET_DEFAULT_ANCILLARY_DATA))"
    using res e1 by (simp add: Let_def n cs_def)
  then have "sent x' = sent x @ [\<lparr>dgInterface = ifc, dgPseudoHeader = icmp_pseudo src dest (8 + len),
        dgBytes = pre @ le16 cs @ post @ ?xs, dgAncillary = NET_DEFAULT_ANCILLARY_DATA\<rparr>]"
    using y(1) by (simp add: ipSendDatagram_def icmp_pseudo_def tick_call_def D)
  with v show "\<exists>cs. sent x' = sent x @ [\<lparr>dgInterface = ifc, dgPseudoHeader = icmp_pseudo src dest (8 + len),
        dgBytes = pre @ le16 cs @ post @ ?xs, dgAncillary = NET_DEFAULT_ANCILLARY_DATA\<rparr>] \<and> icmp_verifies (pre @ le16 cs @ post @ ?xs)"
    by blast
qed
lemma laid_out_reads:
  assumes "laid_out off b" and "8 \<le> length (drop off (nb_bytes b))"
  obtains a m where "netBufferAt b off = Some (a, m)" "8 \<le> length m" "take 8 m = take 8 (drop off (nb_bytes b))"
proof -
  let ?k = "min 60 (length (nb_bytes b) - off)"
  have "off < length (nb_bytes b)" using assms(2) by simp
  with assms(1) obtain a m where m: "netBufferAt b off = Some (a, m)" "?k \<le> length m" "take ?k m = take 60 (drop off (nb_bytes b))"
    by (auto simp: laid_out_def)
  have k: "8 \<le> ?k" using assms(2) by simp
  have "take 8 m = take 8 (take ?k m)" using k by (simp add: min_absorb1)
  also have "\<dots> = take 8 (drop off (nb_bytes b))" unfolding m(3) by simp
  finally have "take 8 m = take 8 (drop off (nb_bytes b))" .
  moreover have "8 \<le> length m" using m(2) k by linarith
  ultimately show ?thesis using m(1) by (intro that)
qed

section \<open>Properties\<close>

text \<open>
  Property C35. An echo request addressed to the host is answered with one echo reply to its sender, with the
  identifier, the sequence number and the data of the request and a checksum that verifies, and no memory
  is lost; a request without data is not answered at all.
\<close>

theorem icmp_echo:
  assumes "laid_out off b" and "chunkCount b \<le> 8" and "M = drop off (nb_bytes b)" and "8 \<le> length M"
    and "M ! 0 = ICMP_TYPE_ECHO_REQUEST" and "ipCalcChecksumEx b off (length M) = 0"
    and "\<not> isBroadcastAddr x ifc (phDestAddr ph)" and "\<not> ipv4IsMulticastAddr (phDestAddr ph)"
    and "heapResult x (calls x) \<noteq> None"
  shows "\<exists>x'. icmpProcessMessage bcastEcho ifc ph b off x = Some x' \<and> live x' = live x \<and>
    (if length M = 8 then sent x' = sent x
     else \<exists>cs. sent x' = sent x @ [\<lparr>dgInterface = Some ifc, dgPseudoHeader = icmp_pseudo (phDestAddr ph) (phSrcAddr ph) (length M),
         dgBytes = [ICMP_TYPE_ECHO_REPLY, 0] @ le16 cs @ drop 4 M, dgAncillary = NET_DEFAULT_ANCILLARY_DATA\<rparr>] \<and>
       icmp_verifies ([ICMP_TYPE_ECHO_REPLY, 0] @ le16 cs @ drop 4 M))"
proof -
  have wf: "nb_wf b" using assms(1) by (simp add: laid_out_def)
  have gl: "netBufferGetLength b - off = length M" using netBufferGetLength_bytes [OF wf] assms(3) by simp
  from laid_out_reads [OF assms(1)] assms(3,4) obtain a m where m: "netBufferAt b off = Some (a, m)" "8 \<le> length m" "take 8 m = take 8 M"
    by blast
  have m0: "m ! 0 = 8" using arg_cong [OF m(3), of "\<lambda>l. l ! 0"] assms(4,5) by simp
  have post: "take 4 (drop 4 m) = take 4 (drop 4 M)" using arg_cong [OF m(3), of "drop 4"] by (simp add: drop_take)
  let ?post = "take 4 (drop 4 M)"
  obtain e x' where s: "icmp_send (Some ifc) (phDestAddr ph) (phSrcAddr ph) ([ICMP_TYPE_ECHO_REPLY, 0] @ [0, 0] @ ?post) b (off + 8) (length M - 8) x = (e, x')"
    by fastforce
  have "off + 8 + (length M - 8) \<le> length (nb_bytes b)" "length [ICMP_TYPE_ECHO_REPLY, 0] = 2" "length ?post = 4" using assms(3,4) by simp_all
  note r = icmp_send_result [OF wf assms(2) this s assms(9)]
  have p: "icmpProcessMessage bcastEcho ifc ph b off x = Some x'"
    using m(1,2) m0 s assms(4,6,7,8) post
    by (auto simp: icmpProcessMessage_def icmpProcessEchoRequest_def echo_source_def Let_def gl)
  have d: "?post @ take (length M - 8) (drop (off + 8) (nb_bytes b)) = drop 4 M"
  proof -
    have "drop (off + 8) (nb_bytes b) = drop 4 (drop 4 M)" by (simp add: assms(3) add.commute)
    then have "take (length M - 8) (drop (off + 8) (nb_bytes b)) = drop 4 (drop 4 M)" by simp
    then show ?thesis by (simp only: append_take_drop_id)
  qed
  show ?thesis
  proof (cases "length M = 8")
    case True
    then have "length (nb_bytes b) \<le> off + 8" using assms(3) by simp
    from r(2) [OF this] r(1) p True show ?thesis by auto
  next
    case False
    then have "off + 8 < length (nb_bytes b)" using assms(3,4) by simp
    from r(3) [OF this, unfolded d] r(1) p False assms(4) show ?thesis by auto
  qed
qed

definition example_echo :: NetBuffer where
  "example_echo = \<lparr>maxChunkCount = 1, chunk = [\<lparr>address = 0, storage = [8, 0, 0x4D, 0x41, 0, 1, 0, 2, 0xAA, 0xBB], chLength = 10, chSize = 0\<rparr>]\<rparr>"

theorem icmp_echo_witness:
  "\<exists>x' cs. icmpProcessMessage False 0 (icmp_pseudo [10, 0, 0, 1] [10, 0, 0, 2] 10) example_echo 0 example_ctx = Some x' \<and>
     map dgBytes (sent x') = [[0, 0] @ le16 cs @ [0, 1, 0, 2, 0xAA, 0xBB]]"
proof -
  let ?M = "[8, 0, 0x4D, 0x41, 0, 1, 0, 2, 0xAA, 0xBB] :: u8 list"
  have nb: "nb_bytes example_echo = ?M" "nb_wf example_echo"
    by (simp_all add: example_echo_def nb_bytes_def chunk_bytes_def nb_wf_def chunk_wf_def)
  have lo: "laid_out 0 example_echo"
    using nb(2) by (simp add: laid_out_def nb(1), simp add: example_echo_def netBufferAt_def)
  have l: "length ?M = 10" by simp
  have "unat (ipCalcChecksumEx example_echo 0 10) = 65535 - oc_sum ?M" using ipCalcChecksumEx_sum [OF nb(2), of 0 10] nb(1) by simp
  also have "oc_sum ?M = 65535" by (simp add: oc_add_def)
  finally have ck: "ipCalcChecksumEx example_echo 0 (length ?M) = 0" unfolding l by (simp add: unat_eq_zero)
  have M: "?M = drop 0 (nb_bytes example_echo)" by (simp add: nb(1))
  have h: "chunkCount example_echo \<le> 8" "8 \<le> length ?M" "?M ! 0 = 8"
    "\<not> isBroadcastAddr example_ctx 0 (phDestAddr (icmp_pseudo [10, 0, 0, 1] [10, 0, 0, 2] 10))"
    "\<not> ipv4IsMulticastAddr (phDestAddr (icmp_pseudo [10, 0, 0, 1] [10, 0, 0, 2] 10))"
    "heapResult example_ctx (calls example_ctx) \<noteq> None"
    by (simp_all add: example_echo_def example_ctx_def icmp_pseudo_def ipv4IsMulticastAddr_def)
  from icmp_echo [OF lo h(1) M h(2,3) ck h(4-6), of False] show ?thesis by (auto simp: example_ctx_def)
qed

subsection \<open>Ports nobody listens to\<close>

definition port_closed :: "u16 \<Rightarrow> stack \<Rightarrow> bool" where
  "port_closed p st \<longleftrightarrow>
     (\<forall>s \<in> set (socketTable (sn st)). sk_type s = SOCKET_TYPE_DGRAM \<longrightarrow> localPort s \<noteq> p) \<and>
     length (udpCallbackTable st) = UDP_CALLBACK_TABLE_SIZE \<and>
     (\<forall>e \<in> set (udpCallbackTable st). cbCallback e = None \<or> cbPort e \<noteq> p)"

lemma invoke_loop_skip:
  assumes "\<forall>i \<in> set is. cbCallback (udpCallbackTable (snd r) ! i) = None \<or> cbPort (udpCallbackTable (snd r) ! i) \<noteq> p"
  shows "invoke_loop run ifc p is r = r"
  using assms by (induction "is") (auto simp: Let_def split: option.splits)

lemma port_closed_unreachable:
  assumes "port_closed (of_be16 (m ! 2) (m ! 3)) st" and "8 \<le> netBufferGetLength b - off"
    and "netBufferAt b off = Some (a, m)" and "8 \<le> length m" and "udp_valid ph b off m"
  shows "udpProcessDatagram callback ifc ph b off anc st = Some (ERROR_PORT_UNREACHABLE, st)"
proof -
  let ?dp = "of_be16 (m ! 2) (m ! 3)"
  have "\<forall>s \<in> set (socketTable (sn st)). \<not> dgram_matches ifc ph (of_be16 (m ! 0) (m ! 1)) ?dp s"
    using assms(1) by (auto simp: port_closed_def dgram_matches_def)
  then have f: "find_dgram ifc ph (of_be16 (m ! 0) (m ! 1)) ?dp (socketTable (sn st)) 0 = None" by (simp add: find_dgram_None)
  have "udpInvokeRxCallback callback ifc ph (take 8 m) b (off + 8) anc st = (ERROR_PORT_UNREACHABLE, st)"
    using assms(1,4) unfolding udpInvokeRxCallback_def by (simp, intro invoke_loop_skip) (auto simp: port_closed_def)
  with f show ?thesis using assms(2-5) by (auto simp: udpProcessDatagram_def udp_valid_def Let_def)
qed

text \<open>
  A UDP datagram to a port without a socket and without a callback is answered with exactly one
  ICMP message, destination unreachable with the code for the port, that quotes the header of the packet and its
  first 8 bytes and has a valid checksum; nothing else changes.
\<close>

theorem port_unreachable:
  assumes "laid_out hl b" and "chunkCount b \<le> 8" and "M = nb_bytes b" and "hl = unat (M ! 0 AND 0x0F) * 4" and "20 \<le> hl"
    and "hl + 8 \<le> length M" and "M ! 9 = 17" and "udp_valid (ipv4_pseudo M (length M - hl)) b hl (drop hl M)"
    and "port_closed (of_be16 (M ! (hl + 2)) (M ! (hl + 3))) st"
    and "\<not> isBroadcastAddr (nx (sn st)) ifc (take 4 (drop 16 M))" and "\<not> ipv4IsMulticastAddr (take 4 (drop 16 M))"
    and "heapResult (nx (sn st)) (calls (nx (sn st))) \<noteq> None"
  shows "\<exists>x' cs. ipv4ProcessDatagram callback bcastEcho ifc b anc st = Some (st\<lparr>sn := (sn st)\<lparr>nx := x'\<rparr>\<rparr>) \<and>
    live x' = live (nx (sn st)) \<and>
    sent x' = sent (nx (sn st)) @ [\<lparr>dgInterface = Some ifc,
      dgPseudoHeader = icmp_pseudo (take 4 (drop 16 M)) (take 4 (drop 12 M)) (8 + (hl + 8)),
      dgBytes = [ICMP_TYPE_DEST_UNREACHABLE, ICMP_CODE_PORT_UNREACHABLE] @ le16 cs @ [0, 0, 0, 0] @ take (hl + 8) M,
      dgAncillary = NET_DEFAULT_ANCILLARY_DATA\<rparr>] \<and>
    icmp_verifies ([ICMP_TYPE_DEST_UNREACHABLE, ICMP_CODE_PORT_UNREACHABLE] @ le16 cs @ [0, 0, 0, 0] @ take (hl + 8) M)"
proof -
  have wf: "nb_wf b" using assms(1) by (simp add: laid_out_def)
  have gl: "netBufferGetLength b = length M" using netBufferGetLength_bytes [OF wf] assms(3) by simp
  from assms(1) obtain a m where m: "netBufferAt b 0 = Some (a, m)" "hl \<le> length m" "take hl m = take hl M"
    by (auto simp: laid_out_def assms(3))
  have hdr: "m ! i = M ! i" if "i < hl" for i using arg_cong [OF m(3), of "\<lambda>l. l ! i"] that by simp
  have fld: "take 4 (drop 12 m) = take 4 (drop 12 M)" "take 4 (drop 16 m) = take 4 (drop 16 M)"
    using arg_cong [OF m(3), of "\<lambda>l. take 4 (drop 12 l)"] arg_cong [OF m(3), of "\<lambda>l. take 4 (drop 16 l)"] assms(5)
    by (simp_all add: drop_take min_absorb1)
  have h: "m ! 0 = M ! 0" "m ! 9 = 17" using hdr assms(5,7) by simp_all
  have ps: "ipv4_pseudo m n = ipv4_pseudo M n" for n using h(2) assms(7) by (simp add: ipv4_pseudo_def fld)
  have d8: "8 \<le> length (drop hl (nb_bytes b))" using assms(3,6) by simp
  obtain a' u where u: "netBufferAt b hl = Some (a', u)" "8 \<le> length u" "take 8 u = take 8 (drop hl M)"
    using laid_out_reads [OF assms(1) d8] assms(3) by blast
  have uh: "u ! i = M ! (hl + i)" if "i < 8" for i using arg_cong [OF u(3), of "\<lambda>l. l ! i"] that assms(6) by simp
  have "udp_valid (ipv4_pseudo M (length M - hl)) b hl u" using assms(6,8) by (simp add: udp_valid_def uh)
  moreover have "port_closed (of_be16 (u ! 2) (u ! 3)) st" using assms(9) by (simp add: uh)
  ultimately have p: "udpProcessDatagram callback ifc (ipv4_pseudo M (length M - hl)) b hl anc st = Some (ERROR_PORT_UNREACHABLE, st)"
    using u(1,2) gl assms(6) by (intro port_closed_unreachable) simp_all
  let ?x = "nx (sn st)" and ?pre = "[3, 3] :: u8 list" and ?post = "[0, 0, 0, 0] :: u8 list"
  obtain e x' where s: "icmp_send (Some ifc) (take 4 (drop 16 M)) (take 4 (drop 12 M)) (?pre @ [0, 0] @ ?post) b 0 (hl + 8) ?x = (e, x')"
    by fastforce
  have "0 + (hl + 8) \<le> length (nb_bytes b)" "length ?pre = 2" "length ?post = 4" "0 < length (nb_bytes b)" using assms(3,6) by auto
  note r = icmp_send_result(1,3) [OF wf assms(2) this(1-3) s assms(12)] this(4)
  have c: "min (length M) (unat (m ! 0 AND 0x0F) * 4 + 8) = hl + 8" using assms(4,6) h by simp
  have "icmpSendErrorMessage ifc ICMP_TYPE_DEST_UNREACHABLE ICMP_CODE_PORT_UNREACHABLE 0 b 0 ?x = Some (e, x')"
    unfolding icmpSendErrorMessage_def Let_def gl m(1) option.case prod.case diff_zero c fld
    using assms(5,6,10,11) m(2) s by simp
  then have "ipv4ProcessDatagram callback bcastEcho ifc b anc st = Some (st\<lparr>sn := (sn st)\<lparr>nx := x'\<rparr>\<rparr>)"
    using m(1,2) assms(5) h p by (simp add: ipv4ProcessDatagram_def Let_def gl ps assms(4) [symmetric] destUnreachable_def on_ctx_def)
  with r show ?thesis by (simp add: assms(3)) blast
qed

definition example_probe :: NetBuffer where
  "example_probe = \<lparr>maxChunkCount = 1, chunk = [\<lparr>address = 0,
     storage = [0x45, 0, 0, 28, 0, 1, 0, 0, 64, 17, 0, 0, 10, 0, 0, 2, 10, 0, 0, 1, 0x13, 0x88, 0, 9, 0, 8, 0, 0], chLength = 28, chSize = 0\<rparr>]\<rparr>"

theorem port_unreachable_witness:
  "\<exists>x' cs. ipv4ProcessDatagram (\<lambda>f ifc ph h b off anc p st. st) False 0 example_probe NET_DEFAULT_ANCILLARY_DATA example_stack =
       Some (example_stack\<lparr>sn := (sn example_stack)\<lparr>nx := x'\<rparr>\<rparr>) \<and>
     map dgBytes (sent x') = [[3, 3] @ le16 cs @ [0, 0, 0, 0] @
       [0x45, 0, 0, 28, 0, 1, 0, 0, 64, 17, 0, 0, 10, 0, 0, 2, 10, 0, 0, 1, 0x13, 0x88, 0, 9, 0, 8, 0, 0]]"
proof -
  let ?M = "[0x45, 0, 0, 28, 0, 1, 0, 0, 64, 17, 0, 0, 10, 0, 0, 2, 10, 0, 0, 1, 0x13, 0x88, 0, 9, 0, 8, 0, 0] :: u8 list"
  have nb: "nb_bytes example_probe = ?M" "nb_wf example_probe"
    by (simp_all add: example_probe_def nb_bytes_def chunk_bytes_def nb_wf_def chunk_wf_def)
  have lo: "laid_out 20 example_probe"
    using nb(2) by (simp add: laid_out_def nb(1), simp add: example_probe_def netBufferAt_def)
  have pc: "port_closed (of_be16 (?M ! (20 + 2)) (?M ! (20 + 3))) example_stack"
    by (simp add: port_closed_def example_stack_def zeroSocket_def of_be16_def)
  have uv: "udp_valid (ipv4_pseudo ?M (length ?M - 20)) example_probe 20 (drop 20 ?M)"
    by (simp add: udp_valid_def ipv4_pseudo_def of_le16_def)
  have h: "chunkCount example_probe \<le> 8" "20 = unat (?M ! 0 AND 0x0F) * 4" "20 \<le> (20::nat)" "20 + 8 \<le> length ?M" "?M ! 9 = 17"
    by (simp_all add: example_probe_def)
  have k: "\<not> isBroadcastAddr (nx (sn example_stack)) 0 (take 4 (drop 16 ?M))" "\<not> ipv4IsMulticastAddr (take 4 (drop 16 ?M))"
    "heapResult (nx (sn example_stack)) (calls (nx (sn example_stack))) \<noteq> None"
    by (simp_all add: example_stack_def example_ctx_def ipv4IsMulticastAddr_def)
  have s: "sent (nx (sn example_stack)) = []" by (simp add: example_stack_def example_ctx_def)
  have t: "take (20 + 8) ?M = ?M" by simp
  from port_unreachable [OF lo h(1) nb(1) [symmetric] h(2-5) uv pc k, of "\<lambda>f ifc ph h b off anc p st. st" False NET_DEFAULT_ANCILLARY_DATA, unfolded t]
  obtain x' cs where "ipv4ProcessDatagram (\<lambda>f ifc ph h b off anc p st. st) False 0 example_probe NET_DEFAULT_ANCILLARY_DATA example_stack =
       Some (example_stack\<lparr>sn := (sn example_stack)\<lparr>nx := x'\<rparr>\<rparr>)" "map dgBytes (sent x') = [[3, 3] @ le16 cs @ [0, 0, 0, 0] @ ?M]"
    by (elim exE conjE) (simp add: s)
  then show ?thesis by (intro exI conjI)
qed

end
