(* ===== verification/Eth_Crc.thy ===== *)
theory Eth_Crc
  imports Tcp_Types
begin

text \<open>
  The Ethernet CRC (\<open>ethCalcCrc\<close>, \<open>ethCalcCrcEx\<close>, \<open>ethCheckCrc\<close> of \<open>core/ethernet_misc.c\<close>), in both
  configurations of \<open>ETH_FAST_CRC_SUPPORT\<close>. One step of the calculation is a linear and injective map on the
  32-bit state; the residue and the detection of burst errors follow from that.
\<close>

unbundle bit_operations_syntax

section \<open>The calculation\<close>

text \<open>Bit by bit, the default.\<close>

definition crc_bit :: "u32 \<Rightarrow> u32" where
  "crc_bit crc = (if crc AND 0x00000001 \<noteq> 0 then drop_bit 1 crc XOR 0xEDB88320 else drop_bit 1 crc)"

definition crc_byte :: "u32 \<Rightarrow> u8 \<Rightarrow> u32" where
  "crc_byte crc p = (crc_bit ^^ 8) (crc XOR ucast p)"

definition ethCalcCrc :: "u8 list \<Rightarrow> nat \<Rightarrow> u32" where
  "ethCalcCrc data len = NOT (foldl crc_byte 0xFFFFFFFF (take len data))"

text \<open>Byte by byte, with a lookup table.\<close>

definition crc32Table :: "u32 list" where
  "crc32Table = [
    0x00000000, 0x77073096, 0xEE0E612C, 0x990951BA, 0x076DC419, 0x706AF48F, 0xE963A535, 0x9E6495A3,
    0x0EDB8832, 0x79DCB8A4, 0xE0D5E91E, 0x97D2D988, 0x09B64C2B, 0x7EB17CBD, 0xE7B82D07, 0x90BF1D91,
    0x1DB71064, 0x6AB020F2, 0xF3B97148, 0x84BE41DE, 0x1ADAD47D, 0x6DDDE4EB, 0xF4D4B551, 0x83D385C7,
    0x136C9856, 0x646BA8C0, 0xFD62F97A, 0x8A65C9EC, 0x14015C4F, 0x63066CD9, 0xFA0F3D63, 0x8D080DF5,
    0x3B6E20C8, 0x4C69105E, 0xD56041E4, 0xA2677172, 0x3C03E4D1, 0x4B04D447, 0xD20D85FD, 0xA50AB56B,
    0x35B5A8FA, 0x42B2986C, 0xDBBBC9D6, 0xACBCF940, 0x32D86CE3, 0x45DF5C75, 0xDCD60DCF, 0xABD13D59,
    0x26D930AC, 0x51DE003A, 0xC8D75180, 0xBFD06116, 0x21B4F4B5, 0x56B3C423, 0xCFBA9599, 0xB8BDA50F,
    0x2802B89E, 0x5F058808, 0xC60CD9B2, 0xB10BE924, 0x2F6F7C87, 0x58684C11, 0xC1611DAB, 0xB6662D3D,
    0x76DC4190, 0x01DB7106, 0x98D220BC, 0xEFD5102A, 0x71B18589, 0x06B6B51F, 0x9FBFE4A5, 0xE8B8D433,
    0x7807C9A2, 0x0F00F934, 0x9609A88E, 0xE10E9818, 0x7F6A0DBB, 0x086D3D2D, 0x91646C97, 0xE6635C01,
    0x6B6B51F4, 0x1C6C6162, 0x856530D8, 0xF262004E, 0x6C0695ED, 0x1B01A57B, 0x8208F4C1, 0xF50FC457,
    0x65B0D9C6, 0x12B7E950, 0x8BBEB8EA, 0xFCB9887C, 0x62DD1DDF, 0x15DA2D49, 0x8CD37CF3, 0xFBD44C65,
    0x4DB26158, 0x3AB551CE, 0xA3BC0074, 0xD4BB30E2, 0x4ADFA541, 0x3DD895D7, 0xA4D1C46D, 0xD3D6F4FB,
    0x4369E96A, 0x346ED9FC, 0xAD678846, 0xDA60B8D0, 0x44042D73, 0x33031DE5, 0xAA0A4C5F, 0xDD0D7CC9,
    0x5005713C, 0x270241AA, 0xBE0B1010, 0xC90C2086, 0x5768B525, 0x206F85B3, 0xB966D409, 0xCE61E49F,
    0x5EDEF90E, 0x29D9C998, 0xB0D09822, 0xC7D7A8B4, 0x59B33D17, 0x2EB40D81, 0xB7BD5C3B, 0xC0BA6CAD,
    0xEDB88320, 0x9ABFB3B6, 0x03B6E20C, 0x74B1D29A, 0xEAD54739, 0x9DD277AF, 0x04DB2615, 0x73DC1683,
    0xE3630B12, 0x94643B84, 0x0D6D6A3E, 0x7A6A5AA8, 0xE40ECF0B, 0x9309FF9D, 0x0A00AE27, 0x7D079EB1,
    0xF00F9344, 0x8708A3D2, 0x1E01F268, 0x6906C2FE, 0xF762575D, 0x806567CB, 0x196C3671, 0x6E6B06E7,
    0xFED41B76, 0x89D32BE0, 0x10DA7A5A, 0x67DD4ACC, 0xF9B9DF6F, 0x8EBEEFF9, 0x17B7BE43, 0x60B08ED5,
    0xD6D6A3E8, 0xA1D1937E, 0x38D8C2C4, 0x4FDFF252, 0xD1BB67F1, 0xA6BC5767, 0x3FB506DD, 0x48B2364B,
    0xD80D2BDA, 0xAF0A1B4C, 0x36034AF6, 0x41047A60, 0xDF60EFC3, 0xA867DF55, 0x316E8EEF, 0x4669BE79,
    0xCB61B38C, 0xBC66831A, 0x256FD2A0, 0x5268E236, 0xCC0C7795, 0xBB0B4703, 0x220216B9, 0x5505262F,
    0xC5BA3BBE, 0xB2BD0B28, 0x2BB45A92, 0x5CB36A04, 0xC2D7FFA7, 0xB5D0CF31, 0x2CD99E8B, 0x5BDEAE1D,
    0x9B64C2B0, 0xEC63F226, 0x756AA39C, 0x026D930A, 0x9C0906A9, 0xEB0E363F, 0x72076785, 0x05005713,
    0x95BF4A82, 0xE2B87A14, 0x7BB12BAE, 0x0CB61B38, 0x92D28E9B, 0xE5D5BE0D, 0x7CDCEFB7, 0x0BDBDF21,
    0x86D3D2D4, 0xF1D4E242, 0x68DDB3F8, 0x1FDA836E, 0x81BE16CD, 0xF6B9265B, 0x6FB077E1, 0x18B74777,
    0x88085AE6, 0xFF0F6A70, 0x66063BCA, 0x11010B5C, 0x8F659EFF, 0xF862AE69, 0x616BFFD3, 0x166CCF45,
    0xA00AE278, 0xD70DD2EE, 0x4E048354, 0x3903B3C2, 0xA7672661, 0xD06016F7, 0x4969474D, 0x3E6E77DB,
    0xAED16A4A, 0xD9D65ADC, 0x40DF0B66, 0x37D83BF0, 0xA9BCAE53, 0xDEBB9EC5, 0x47B2CF7F, 0x30B5FFE9,
    0xBDBDF21C, 0xCABAC28A, 0x53B39330, 0x24B4A3A6, 0xBAD03605, 0xCDD70693, 0x54DE5729, 0x23D967BF,
    0xB3667A2E, 0xC4614AB8, 0x5D681B02, 0x2A6F2B94, 0xB40BBE37, 0xC30C8EA1, 0x5A05DF1B, 0x2D02EF8D]"

definition crc_byte_fast :: "u32 \<Rightarrow> u8 \<Rightarrow> u32" where
  "crc_byte_fast crc p = drop_bit 8 crc XOR crc32Table ! unat ((crc AND 0xFF) XOR ucast p)"

definition ethCalcCrcFast :: "u8 list \<Rightarrow> nat \<Rightarrow> u32" where
  "ethCalcCrcFast data len = NOT (foldl crc_byte_fast 0xFFFFFFFF (take len data))"

text \<open>Over a multi-part buffer; \<open>step\<close> is the update for one byte.\<close>

fun crcEx_loop :: "('s \<Rightarrow> u8 \<Rightarrow> 's) \<Rightarrow> ChunkDesc list \<Rightarrow> nat \<Rightarrow> nat \<Rightarrow> 's \<Rightarrow> 's" where
  "crcEx_loop step [] off len crc = crc"
| "crcEx_loop step (c # cs) off len crc =
     (if len = 0 then crc
      else if off < chLength c then
        let n = min (chLength c - off) len
        in crcEx_loop step cs 0 (len - n) (foldl step crc (take n (drop off (storage c))))
      else crcEx_loop step cs (off - chLength c) len crc)"

definition ethCalcCrcEx :: "NetBuffer \<Rightarrow> nat \<Rightarrow> nat \<Rightarrow> u32" where
  "ethCalcCrcEx b off len = NOT (crcEx_loop crc_byte (chunk b) off len 0xFFFFFFFF)"

definition ethCalcCrcExFast :: "NetBuffer \<Rightarrow> nat \<Rightarrow> nat \<Rightarrow> u32" where
  "ethCalcCrcExFast b off len = NOT (crcEx_loop crc_byte_fast (chunk b) off len 0xFFFFFFFF)"

section \<open>Verification of a received frame\<close>

abbreviation (input) ETH_CRC_SIZE :: nat where "ETH_CRC_SIZE \<equiv> 4"
abbreviation (input) SIZEOF_ETH_HEADER :: nat where "SIZEOF_ETH_HEADER \<equiv> 14"

definition netInitRand :: "u32 \<Rightarrow> ctx \<Rightarrow> ctx" where
  "netInitRand seed x = x\<lparr>prngState := prngState x + seed\<rparr>"

definition LOAD32BE :: "u8 list \<Rightarrow> u32" where
  "LOAD32BE d = push_bit 24 (ucast (d ! 0)) OR push_bit 16 (ucast (d ! 1)) OR push_bit 8 (ucast (d ! 2)) OR ucast (d ! 3)"

text \<open>\<open>autoCrcVerif\<close> says that the driver has verified the CRC already.\<close>

definition ethCheckCrc :: "bool \<Rightarrow> u8 list \<Rightarrow> nat \<Rightarrow> ctx \<Rightarrow> error_t \<times> ctx" where
  "ethCheckCrc autoCrcVerif frame len x =
     (if len < SIZEOF_ETH_HEADER + ETH_CRC_SIZE then (ERROR_INVALID_LENGTH, x)
      else if \<not> autoCrcVerif \<and> ethCalcCrc frame len \<noteq> 0x2144DF1C then (ERROR_WRONG_CHECKSUM, x)
      else (NO_ERROR, netInitRand (LOAD32BE (drop (len - ETH_CRC_SIZE) frame)) x))"
section \<open>The step as a linear map\<close>

lemma xor_eq_0: "(x :: 'a :: len word) XOR y = 0 \<longleftrightarrow> x = y"
  by (metis xor.assoc xor.left_neutral xor_self_eq xor.right_neutral)

lemma odd_and1: "(x :: u32) AND 1 \<noteq> 0 \<longleftrightarrow> bit x 0"
  by (simp add: and_one_eq bit_0 mod2_eq_if)

lemma crc_bit_alt: "crc_bit x = drop_bit 1 x XOR (if bit x 0 then 0xEDB88320 else 0)"
  using odd_and1 [of x] by (simp add: crc_bit_def)

lemma crc_bit_xor: "crc_bit (x XOR y) = crc_bit x XOR crc_bit y"
  by (simp add: crc_bit_alt drop_bit_xor bit_xor_iff ac_simps)

lemma crc_bit_0 [simp]: "crc_bit 0 = 0"
  by (simp add: crc_bit_alt)

lemma crc_bits_xor: "(crc_bit ^^ n) (x XOR y) = (crc_bit ^^ n) x XOR (crc_bit ^^ n) y"
  by (induction n) (simp_all add: crc_bit_xor)

lemma crc_bits_0 [simp]: "(crc_bit ^^ n) 0 = 0"
  by (induction n) simp_all

lemma crc_bit_kernel: "crc_bit x = 0 \<longleftrightarrow> x = 0"
proof
  assume z: "crc_bit x = 0"
  have b31: "bit (0xEDB88320 :: u32) 31" by simp
  have n0: "\<not> bit x 0"
  proof
    assume "bit x 0"
    then have "drop_bit 1 x = 0xEDB88320" using z xor_eq_0 [of "drop_bit 1 x" "0xEDB88320"] by (simp add: crc_bit_alt)
    then have "bit (drop_bit 1 x) 31" using b31 by simp
    then show False by (simp add: bit_drop_bit_eq bit_imp_le_length) (use bit_imp_le_length in fastforce)
  qed
  then have d: "drop_bit 1 x = 0" using z by (simp add: crc_bit_alt)
  have "\<not> bit x n" for n
  proof (cases n)
    case (Suc m)
    have "bit (drop_bit 1 x) m = False" using d by simp
    then show ?thesis using Suc by (simp add: bit_drop_bit_eq)
  qed (use n0 in simp)
  then show "x = 0" by (simp add: bit_eq_iff)
qed simp

lemma crc_bits_kernel: "(crc_bit ^^ n) x = 0 \<longleftrightarrow> x = 0"
  by (induction n) (simp_all add: crc_bit_kernel)

lemma crc_bits_inj: "(crc_bit ^^ n) x = (crc_bit ^^ n) y \<longleftrightarrow> x = y"
proof -
  have "(crc_bit ^^ n) x = (crc_bit ^^ n) y \<longleftrightarrow> (crc_bit ^^ n) (x XOR y) = 0" by (simp add: crc_bits_xor xor_eq_0)
  then show ?thesis by (simp add: crc_bits_kernel xor_eq_0)
qed

lemma crc_bits_shift:
  "(\<forall>i < n. \<not> bit x i) \<Longrightarrow> (crc_bit ^^ n) x = drop_bit n x"
proof (induction n arbitrary: x)
  case (Suc n)
  have "crc_bit x = drop_bit 1 x" using Suc.prems by (simp add: crc_bit_alt)
  moreover have "\<forall>i < n. \<not> bit (drop_bit 1 x) i" using Suc.prems by (simp add: bit_drop_bit_eq)
  ultimately show ?case using Suc.IH [of "drop_bit 1 x"] by (simp add: funpow_Suc_right del: funpow.simps) 
qed simp

section \<open>Bytes\<close>

fun le_num :: "u8 list \<Rightarrow> u32" where
  "le_num [] = 0"
| "le_num (b # bs) = ucast b XOR push_bit 8 (le_num bs)"

lemma bit_le_num: "bit (le_num bs) i \<Longrightarrow> i < 8 * length bs"
proof (induction bs arbitrary: i)
  case (Cons b bs)
  have "\<not> bit b i" if "\<not> i < 8" using that bit_imp_le_length [of b i] by auto
  then show ?case using Cons.prems Cons.IH [of "i - 8"]
    by (cases "i < 8") (auto simp: bit_xor_iff bit_push_bit_iff bit_ucast_iff)
qed simp

lemma xor_cancel: "(s :: 'a :: len word) XOR a = t XOR a \<longleftrightarrow> s = t" "a XOR s = a XOR t \<longleftrightarrow> s = t"
proof -
  have "s = t" if "s XOR a = t XOR a" for s t :: "'a word" using arg_cong [OF that, of "\<lambda>z. z XOR a"] by (simp add: xor.assoc)
  then show "s XOR a = t XOR a \<longleftrightarrow> s = t" "a XOR s = a XOR t \<longleftrightarrow> s = t" by (auto simp: xor.commute)
qed

lemma shift_le_num:
  assumes "length bs \<le> 3"
  shows "(crc_bit ^^ 8) (push_bit 8 (le_num bs)) = le_num bs"
proof -
  have "(crc_bit ^^ 8) (push_bit 8 (le_num bs)) = drop_bit 8 (push_bit 8 (le_num bs))"
    by (rule crc_bits_shift) (simp add: bit_push_bit_iff)
  also have "\<dots> = le_num bs"
  proof (rule bit_word_eqI)
    fix n :: nat assume "n < LENGTH(32)"
    show "bit (drop_bit 8 (push_bit 8 (le_num bs))) n = bit (le_num bs) n"
      using bit_le_num [of bs n] assms by (auto simp: bit_drop_bit_eq bit_push_bit_iff)
  qed
  finally show ?thesis .
qed

lemma foldl_crc_byte:
  "length bs \<le> 4 \<Longrightarrow> foldl crc_byte s bs = (crc_bit ^^ (8 * length bs)) (s XOR le_num bs)"
proof (induction bs arbitrary: s)
  case (Cons b bs)
  have "foldl crc_byte s (b # bs) = (crc_bit ^^ (8 * length bs)) ((crc_bit ^^ 8) (s XOR ucast b) XOR le_num bs)"
    using Cons.IH [of "crc_byte s b"] Cons.prems by (simp add: crc_byte_def [of s b])
  also have "(crc_bit ^^ 8) (s XOR ucast b) XOR le_num bs = (crc_bit ^^ 8) (s XOR ucast b) XOR (crc_bit ^^ 8) (push_bit 8 (le_num bs))"
    using shift_le_num [of bs] Cons.prems by simp
  also have "\<dots> = (crc_bit ^^ 8) (s XOR le_num (b # bs))" by (simp only: crc_bits_xor [symmetric] le_num.simps xor.assoc)
  also have "(crc_bit ^^ (8 * length bs)) \<dots> = (crc_bit ^^ (8 * length (b # bs))) (s XOR le_num (b # bs))"
    by (simp only: length_Cons mult_Suc_right add.commute [of 8] funpow_add o_apply)
  finally show ?case .
qed simp

lemma le_num_inj:
  "length xs = length ys \<Longrightarrow> length xs \<le> 4 \<Longrightarrow> le_num xs = le_num ys \<Longrightarrow> xs = ys"
proof (induction xs ys rule: list_induct2)
  case (Cons x xs y ys)
  have e: "bit (le_num (x # xs)) n = bit (le_num (y # ys)) n" for n using Cons.prems(2) by simp
  have "x = y"
  proof (rule bit_word_eqI)
    fix n :: nat assume "n < LENGTH(8)"
    then show "bit x n = bit y n" using e [of n] by (simp add: bit_xor_iff bit_push_bit_iff bit_ucast_iff)
  qed
  moreover have "le_num xs = le_num ys"
  proof (rule bit_word_eqI)
    fix n :: nat assume n: "n < LENGTH(32)"
    show "bit (le_num xs) n = bit (le_num ys) n"
    proof (cases "n < 24")
      case True
      have "\<not> bit x (n + 8)" "\<not> bit y (n + 8)" using bit_imp_le_length by fastforce+
      then show ?thesis using e [of "n + 8"] True by (simp add: bit_xor_iff bit_push_bit_iff bit_ucast_iff)
    next
      case False
      then show ?thesis using bit_le_num [of xs n] bit_le_num [of ys n] Cons.prems(1) Cons.hyps by auto
    qed
  qed
  ultimately show ?case using Cons by simp
qed simp

lemma crc_byte_inj: "crc_byte s b = crc_byte t b \<longleftrightarrow> s = t"
  unfolding crc_byte_def crc_bits_inj by (rule xor_cancel)

lemma foldl_crc_inj: "foldl crc_byte s bs = foldl crc_byte t bs \<longleftrightarrow> s = t"
  by (induction bs arbitrary: s t) (simp_all add: crc_byte_inj)

lemma crc_burst:
  assumes "length new = length old" and "length old \<le> 4" and "new \<noteq> old"
  shows "foldl crc_byte s (pre @ new @ post) \<noteq> foldl crc_byte s (pre @ old @ post)"
proof
  assume "foldl crc_byte s (pre @ new @ post) = foldl crc_byte s (pre @ old @ post)"
  then have "foldl crc_byte (foldl crc_byte s pre) new = foldl crc_byte (foldl crc_byte s pre) old"
    by (simp add: foldl_crc_inj)
  then have "foldl crc_byte s pre XOR le_num new = foldl crc_byte s pre XOR le_num old"
    using assms(1,2) by (simp add: foldl_crc_byte crc_bits_inj)
  then have "le_num new = le_num old" by (simp only: xor_cancel)
  with le_num_inj [OF assms(1)] assms show False by simp
qed

text \<open>The four bytes of a CRC as they are appended to a frame.\<close>

definition crc_field :: "u32 \<Rightarrow> u8 list" where
  "crc_field v = [ucast v, ucast (drop_bit 8 v), ucast (drop_bit 16 v), ucast (drop_bit 24 v)]"

lemma length_crc_field [simp]: "length (crc_field v) = 4"
  by (simp add: crc_field_def)

lemma le_num_crc_field: "le_num (crc_field v) = v"
proof (rule bit_word_eqI)
  fix n :: nat assume n: "n < LENGTH(32)"
  consider "n < 8" | "8 \<le> n" "n < 16" | "16 \<le> n" "n < 24" | "24 \<le> n" "n < 32" using n by force
  then show "bit (le_num (crc_field v)) n = bit v n"
    by cases (auto simp: crc_field_def bit_xor_iff bit_push_bit_iff bit_ucast_iff bit_drop_bit_eq)
qed

lemma crc_bits_8: "(crc_bit ^^ 8) x = crc_bit (crc_bit (crc_bit (crc_bit (crc_bit (crc_bit (crc_bit (crc_bit x)))))))"
  by (simp add: numeral_eq_Suc)

lemma crc_residue: "foldl crc_byte s (crc_field (NOT s)) = NOT 0x2144DF1C"
proof -
  have "s XOR NOT s = - 1" by (intro bit_word_eqI) (simp add: bit_xor_iff bit_not_iff)
  also have "(- 1 :: u32) = 0xFFFFFFFF" by simp
  finally have e: "s XOR NOT s = 0xFFFFFFFF" .
  have "foldl crc_byte s (crc_field (NOT s)) = (crc_bit ^^ (8 + (8 + (8 + 8)))) (s XOR NOT s)"
    using foldl_crc_byte [of "crc_field (NOT s)" s] unfolding le_num_crc_field length_crc_field by simp
  also have "\<dots> = (crc_bit ^^ 8) ((crc_bit ^^ 8) ((crc_bit ^^ 8) ((crc_bit ^^ 8) 0xFFFFFFFF)))"
    unfolding e by (simp only: funpow_add o_apply)
  also have "\<dots> = NOT 0x2144DF1C" by (simp add: crc_bits_8 crc_bit_def)
  finally show ?thesis .
qed

section \<open>The lookup table\<close>

lemma of_nat_doubling:
  assumes "i < 2 ^ k" and "k < 32"
  shows "(of_nat (i + 2 ^ k) :: u32) = of_nat i XOR 2 ^ k"
proof -
  have "(of_nat i :: u32) AND 2 ^ k = 0"
  proof (rule bit_word_eqI)
    fix n :: nat
    have "\<not> bit i k" using assms(1) by (simp add: bit_iff_odd)
    then show "bit ((of_nat i :: u32) AND 2 ^ k) n = bit (0 :: u32) n"
      by (auto simp: bit_and_iff bit_exp_iff bit_of_nat_iff)
  qed
  then show ?thesis by (simp add: disjunctive_add_eq_xor)
qed

lemma table_doubling:
  assumes "k < 32"
  shows "map (\<lambda>i. (crc_bit ^^ 8) (of_nat i)) [0..<2 ^ Suc k] =
    map (\<lambda>i. (crc_bit ^^ 8) (of_nat i)) [0..<2 ^ k] @
    map (\<lambda>v. v XOR (crc_bit ^^ 8) (2 ^ k)) (map (\<lambda>i. (crc_bit ^^ 8) (of_nat i)) [0..<2 ^ k])"
proof -
  have e: "(2 :: nat) ^ Suc k = 2 ^ k + 2 ^ k" by simp
  have "[0..<2 ^ Suc k] = [0..<2 ^ k] @ map (\<lambda>i. i + 2 ^ k) [0..<2 ^ k]"
    unfolding e using upt_add_eq_append [of 0 "2 ^ k" "2 ^ k"] map_add_upt [of "2 ^ k" "2 ^ k"] by simp
  then show ?thesis using assms by (simp add: of_nat_doubling crc_bits_xor del: of_nat_add)
qed

lemma crc32Table_entries: "crc32Table = map (\<lambda>i. (crc_bit ^^ 8) (of_nat i)) [0..<256]"
proof -
  let ?L = "\<lambda>k. map (\<lambda>i. (crc_bit ^^ 8) (of_nat i)) [0..<2 ^ k]"
  define grow where "grow L v = L @ map (\<lambda>x. x XOR v) L" for L and v :: u32
  have c: "(crc_bit ^^ 8) (2 ^ 0) = 0x77073096" "(crc_bit ^^ 8) (2 ^ 1) = 0xEE0E612C" "(crc_bit ^^ 8) (2 ^ 2) = 0x076DC419"
    "(crc_bit ^^ 8) (2 ^ 3) = 0x0EDB8832" "(crc_bit ^^ 8) (2 ^ 4) = 0x1DB71064" "(crc_bit ^^ 8) (2 ^ 5) = 0x3B6E20C8"
    "(crc_bit ^^ 8) (2 ^ 6) = 0x76DC4190" "(crc_bit ^^ 8) (2 ^ 7) = 0xEDB88320"
    by (simp_all add: crc_bits_8 crc_bit_def)
  have d: "?L (Suc k) = grow (?L k) ((crc_bit ^^ 8) (2 ^ k))" if "k < 8" for k
    unfolding grow_def by (rule table_doubling) (use that in simp)
  have p: "?L 0 = [0]" by simp
  have "?L 1 = grow [0] 0x77073096"
    using d [of 0] unfolding c p by simp
  then have "?L 2 = grow (grow [0] 0x77073096) 0xEE0E612C"
    using d [of 1] unfolding c by (simp add: numeral_2_eq_2)
  then have "?L 3 = grow (grow (grow [0] 0x77073096) 0xEE0E612C) 0x076DC419"
    using d [of 2] unfolding c by simp
  then have "?L 4 = grow (grow (grow (grow [0] 0x77073096) 0xEE0E612C) 0x076DC419) 0x0EDB8832"
    using d [of 3] unfolding c by simp
  then have "?L 5 = grow (grow (grow (grow (grow [0] 0x77073096) 0xEE0E612C) 0x076DC419) 0x0EDB8832) 0x1DB71064"
    using d [of 4] unfolding c by simp
  then have "?L 6 = grow (grow (grow (grow (grow (grow [0] 0x77073096) 0xEE0E612C) 0x076DC419) 0x0EDB8832) 0x1DB71064) 0x3B6E20C8"
    using d [of 5] unfolding c by simp
  then have "?L 7 = grow (grow (grow (grow (grow (grow (grow [0] 0x77073096) 0xEE0E612C) 0x076DC419) 0x0EDB8832) 0x1DB71064) 0x3B6E20C8) 0x76DC4190"
    using d [of 6] unfolding c by simp
  then have "?L 8 = grow (grow (grow (grow (grow (grow (grow (grow [0] 0x77073096) 0xEE0E612C) 0x076DC419) 0x0EDB8832) 0x1DB71064) 0x3B6E20C8) 0x76DC4190) 0xEDB88320"
    using d [of 7] unfolding c by simp
  also have "\<dots> = crc32Table" by (simp add: grow_def crc32Table_def)
  finally show ?thesis by simp
qed

lemma crc_byte_fast_eq: "crc_byte_fast s p = crc_byte s p"
proof -
  define m :: u32 where "m = mask 8"
  have m: "m = 0xFF" by (simp add: m_def mask_eq_exp_minus_1)
  have b: "bit m n \<longleftrightarrow> n < 8" for n by (auto simp: m_def bit_mask_iff)
  let ?w = "(s AND m) XOR ucast p" and ?h = "s AND NOT m"
  have nb: "n < 8" if "bit p n" for n using that bit_imp_le_length [of p n] by auto
  have "s XOR ucast p = ?h XOR ?w"
    by (rule bit_word_eqI) (auto simp: bit_xor_iff bit_and_iff bit_not_iff b)
  moreover have "(crc_bit ^^ 8) ?h = drop_bit 8 s"
  proof -
    have "(crc_bit ^^ 8) ?h = drop_bit 8 ?h" by (rule crc_bits_shift) (simp add: bit_and_iff bit_not_iff b)
    also have "\<dots> = drop_bit 8 s"
      by (rule bit_word_eqI) (auto simp: bit_drop_bit_eq bit_and_iff bit_not_iff b dest: bit_imp_le_length)
    finally show ?thesis .
  qed
  moreover have "(crc_bit ^^ 8) ?w = crc32Table ! unat ?w"
  proof -
    have "?w AND m = ?w"
      by (rule bit_word_eqI) (auto simp: bit_xor_iff bit_and_iff b bit_ucast_iff dest: nb)
    then have "take_bit 8 ?w = ?w" by (simp add: take_bit_eq_mask m_def)
    then have "unat ?w = take_bit 8 (unat ?w)" by (metis unsigned_take_bit_eq)
    also have "\<dots> < 2 ^ 8" by (rule take_bit_nat_less_exp)
    finally have "unat ?w < 256" by simp
    then show ?thesis by (simp add: crc32Table_entries)
  qed
  ultimately show ?thesis by (simp add: crc_byte_fast_def crc_byte_def crc_bits_xor m [symmetric])
qed

lemma crcEx_loop_flat:
  "\<forall>c \<in> set cs. chunk_wf c \<Longrightarrow> crcEx_loop step cs off len s = foldl step s (take len (drop off (chunks_bytes cs)))"
proof (induction cs arbitrary: off len s)
  case (Cons c cs)
  show ?case
  proof (cases "off < chLength c")
    case True
    let ?n = "min (chLength c - off) len"
    have "take len (drop off (chunks_bytes (c # cs))) = take ?n (drop off (storage c)) @ take (len - ?n) (chunks_bytes cs)"
    proof -
      have l: "length (chunk_bytes c) = chLength c" using Cons.prems by simp
      have "take ?n (drop off (storage c)) = take len (drop off (chunk_bytes c))"
        by (simp add: chunk_bytes_def drop_take take_take ac_simps)
      then show ?thesis using True l by (cases "chLength c - off \<le> len") (simp_all add: min_def)
    qed
    then show ?thesis using True Cons by (simp add: Let_def)
  next
    case False
    have "length (chunk_bytes c) = chLength c" using Cons.prems by simp
    with False show ?thesis using Cons by simp
  qed
qed simp

lemma ethCalcCrcEx_flat: "nb_wf b \<Longrightarrow> ethCalcCrcEx b off len = ethCalcCrc (drop off (nb_bytes b)) len"
  by (simp add: ethCalcCrcEx_def ethCalcCrc_def crcEx_loop_flat nb_wf_def nb_bytes_def)

lemma crc_verifies:
  assumes "F = D @ crc_field (ethCalcCrc D (length D))"
  shows "foldl crc_byte 0xFFFFFFFF F = NOT 0x2144DF1C" and "ethCalcCrc F (length F) = 0x2144DF1C"
proof -
  show r: "foldl crc_byte 0xFFFFFFFF F = NOT 0x2144DF1C"
    unfolding assms ethCalcCrc_def foldl_append take_all [OF order_refl] by (rule crc_residue)
  show "ethCalcCrc F (length F) = 0x2144DF1C" unfolding ethCalcCrc_def take_all [OF order_refl] r by simp
qed

section \<open>Properties\<close>

text \<open>
  The four ways to compute the CRC agree: bit by bit or with the lookup table, over a block of
  memory or over a multi-part buffer, however it is cut into chunks.
\<close>

theorem crc_implementations:
  assumes "nb_wf b"
  shows "ethCalcCrcFast data n = ethCalcCrc data n \<and>
    ethCalcCrcEx b off len = ethCalcCrc (drop off (nb_bytes b)) len \<and>
    ethCalcCrcExFast b off len = ethCalcCrc (drop off (nb_bytes b)) len"
proof (intro conjI)
  have f: "crc_byte_fast = crc_byte" by (intro ext) (rule crc_byte_fast_eq)
  show "ethCalcCrcFast data n = ethCalcCrc data n" by (simp add: ethCalcCrcFast_def ethCalcCrc_def f)
  show "ethCalcCrcEx b off len = ethCalcCrc (drop off (nb_bytes b)) len"
    "ethCalcCrcExFast b off len = ethCalcCrc (drop off (nb_bytes b)) len"
    using assms by (simp_all add: ethCalcCrcEx_def ethCalcCrcExFast_def ethCalcCrc_def f crcEx_loop_flat nb_wf_def nb_bytes_def)
qed

definition example_parts :: NetBuffer where
  "example_parts = \<lparr>maxChunkCount = 2, chunk = [\<lparr>address = 0, storage = [0x31, 0x32, 0x33], chLength = 3, chSize = 0\<rparr>,
     \<lparr>address = 0, storage = [0x34, 0x35, 0x36, 0x37, 0x38, 0x39, 0], chLength = 6, chSize = 0\<rparr>]\<rparr>"

theorem crc_implementations_witness:
  "ethCalcCrcExFast example_parts 0 9 = 0xCBF43926"
proof -
  have b: "nb_wf example_parts" "nb_bytes example_parts = [0x31, 0x32, 0x33, 0x34, 0x35, 0x36, 0x37, 0x38, 0x39]"
    by (simp_all add: example_parts_def nb_wf_def chunk_wf_def nb_bytes_def chunk_bytes_def)
  have "ethCalcCrc [0x31, 0x32, 0x33, 0x34, 0x35, 0x36, 0x37, 0x38, 0x39] 9 = 0xCBF43926"
    by (simp add: ethCalcCrc_def crc_byte_def crc_bits_8 crc_bit_def)
  then show ?thesis using crc_implementations [OF b(1), of _ _ 0 9] b(2) by simp
qed

text \<open>
  Property C23. A frame that was sent with its CRC passes the verification, and the verification finds every error
  that is confined to four consecutive bytes, the field of the CRC included.
\<close>

theorem crc_detects:
  assumes "14 \<le> length D" and "F = D @ crc_field (ethCalcCrc D (length D))"
    and "F = pre @ old @ post" and "length new = length old" and "length old \<le> 4" and "new \<noteq> old"
  shows "fst (ethCheckCrc v F (length F) x) = NO_ERROR \<and>
    ethCheckCrc False (pre @ new @ post) (length F) x = (ERROR_WRONG_CHECKSUM, x)"
proof (intro conjI)
  have l: "14 + 4 \<le> length F" using assms(1,2) by simp
  note r = crc_verifies(1) [OF assms(2)] and ok = crc_verifies(2) [OF assms(2)]
  show "fst (ethCheckCrc v F (length F) x) = NO_ERROR" using l ok by (simp add: ethCheckCrc_def)
  have n: "length (pre @ new @ post) = length F" using assms(3,4) by simp
  have "foldl crc_byte 0xFFFFFFFF (pre @ new @ post) \<noteq> NOT 0x2144DF1C"
    using crc_burst [OF assms(4-6), of "0xFFFFFFFF" pre post] unfolding r [unfolded assms(3)] .
  then have "ethCalcCrc (pre @ new @ post) (length (pre @ new @ post)) \<noteq> 0x2144DF1C"
    unfolding ethCalcCrc_def take_all [OF order_refl] by (metis bit.double_compl)
  then show "ethCheckCrc False (pre @ new @ post) (length F) x = (ERROR_WRONG_CHECKSUM, x)"
    using l unfolding n by (simp add: ethCheckCrc_def)
qed

theorem crc_detects_witness:
  "\<exists>c. length c = 4 \<and> fst (ethCheckCrc False (replicate 14 0 @ c) 18 example_ctx) = NO_ERROR \<and>
     ethCheckCrc False (replicate 12 0 @ [0xAB, 0xCD] @ c) 18 example_ctx = (ERROR_WRONG_CHECKSUM, example_ctx)"
proof -
  let ?D = "replicate 14 0 :: u8 list"
  let ?c = "crc_field (ethCalcCrc ?D (length ?D))"
  have r: "replicate 14 (0 :: u8) = replicate 12 0 @ [0, 0]" by (simp add: numeral_eq_Suc)
  have a: "14 \<le> length ?D" "length [0xAB, 0xCD] = length [0, 0 :: u8]" "length [0, 0 :: u8] \<le> 4" "[0xAB, 0xCD] \<noteq> [0, 0 :: u8]" by simp_all
  have f: "?D @ ?c = replicate 12 0 @ [0, 0] @ ?c" unfolding r by simp
  have l: "length (?D @ ?c) = 18" by simp
  show ?thesis using crc_detects [OF a(1) refl f a(2-4), of False example_ctx, unfolded l] length_crc_field by blast
qed

end
