(* ===== verification/Net_Interface.thy ===== *)
theory Net_Interface
  imports Tcp_Segment Tcp_Timer Eth_Crc
begin

text \<open>
  The state of a network interface (\<open>NetInterface\<close> of \<open>core/net.h\<close>): the driver's properties, the MAC
  filter, the IPv4 context and the ARP cache, in the default configuration without VLAN tags, virtual interfaces
  and port tagging, where the logical and the physical interface are the interface itself. The sizes of the tables
  are configuration constants, here the lengths of the lists. An IPv4 address is the 32-bit word of the
  target (little endian), whose bytes in memory are in network order.
\<close>

unbundle bit_operations_syntax

type_synonym MacAddr = "u8 list"
type_synonym Ipv4Addr = u32

definition MAC_UNSPECIFIED_ADDR :: MacAddr where "MAC_UNSPECIFIED_ADDR = replicate 6 0x00"
definition MAC_BROADCAST_ADDR :: MacAddr where "MAC_BROADCAST_ADDR = replicate 6 0xFF"

definition macIsMulticastAddr :: "MacAddr \<Rightarrow> bool" where "macIsMulticastAddr m \<longleftrightarrow> m ! 0 AND 0x01 \<noteq> 0"

definition IPV4_ADDR :: "u8 \<Rightarrow> u8 \<Rightarrow> u8 \<Rightarrow> u8 \<Rightarrow> Ipv4Addr" where
  "IPV4_ADDR a b c d = ucast a OR push_bit 8 (ucast b) OR push_bit 16 (ucast c) OR push_bit 24 (ucast d)"

text \<open>An address as it lies in memory and back.\<close>

definition ip_bytes :: "Ipv4Addr \<Rightarrow> u8 list" where
  "ip_bytes a = [ucast a, ucast (drop_bit 8 a), ucast (drop_bit 16 a), ucast (drop_bit 24 a)]"

definition ip_addr :: "u8 list \<Rightarrow> Ipv4Addr" where
  "ip_addr p = IPV4_ADDR (p ! 0) (p ! 1) (p ! 2) (p ! 3)"

abbreviation (input) IPV4_UNSPECIFIED_ADDR :: Ipv4Addr where "IPV4_UNSPECIFIED_ADDR \<equiv> 0"
abbreviation (input) IPV4_BROADCAST_ADDR :: Ipv4Addr where "IPV4_BROADCAST_ADDR \<equiv> 0xFFFFFFFF"

section \<open>Drivers\<close>

datatype NicType = NIC_TYPE_UNKNOWN | NIC_TYPE_ETHERNET | NIC_TYPE_PPP | NIC_TYPE_6LOWPAN | NIC_TYPE_LOOPBACK

record NicDriver =
  nicType :: NicType
  nicMtu :: nat
  autoPadding :: bool
  autoCrcCalc :: bool
  autoCrcVerif :: bool
  autoCrcStrip :: bool

section \<open>Tables\<close>

record MacFilterEntry =
  mfAddr :: MacAddr
  mfRefCount :: u32
  addFlag :: bool
  deleteFlag :: bool

datatype Ipv4AddrState = IPV4_ADDR_STATE_INVALID | IPV4_ADDR_STATE_TENTATIVE | IPV4_ADDR_STATE_VALID

record Ipv4AddrEntry =
  aeAddr :: Ipv4Addr
  aeState :: Ipv4AddrState
  conflict :: bool
  subnetMask :: Ipv4Addr
  defaultGateway :: Ipv4Addr

record Ipv4FilterEntry =
  feAddr :: Ipv4Addr
  feRefCount :: u32

record Ipv4Context =
  linkMtu :: nat
  isRouter :: bool
  enableBroadcastEchoReq :: bool
  identification :: u16
  addrList :: "Ipv4AddrEntry list"
  dnsServerList :: "Ipv4Addr list"
  multicastFilter :: "Ipv4FilterEntry list"

datatype ArpState = ARP_STATE_NONE | ARP_STATE_INCOMPLETE | ARP_STATE_REACHABLE | ARP_STATE_STALE
  | ARP_STATE_DELAY | ARP_STATE_PROBE | ARP_STATE_PERMANENT

text \<open>
  A packet waiting for an address, with the address of its block. The first \<open>queueSize\<close> elements of the
  queue of an entry are the list \<open>arpQueue\<close>.
\<close>

record ArpQueueItem =
  aqAddress :: nat
  aqBuffer :: NetBuffer
  aqOffset :: nat
  aqAncillary :: NetAncillaryData

record ArpCacheEntry =
  arpState :: ArpState
  arpIpAddr :: Ipv4Addr
  arpMacAddr :: MacAddr
  arpTimestamp :: systime_t
  arpTimeout :: systime_t
  arpRetransmitCount :: u32
  arpQueue :: "ArpQueueItem list"

record NetInterface =
  nicDriver :: "NicDriver option"
  configured :: bool
  macAddr :: MacAddr
  macAddrFilter :: "MacFilterEntry list"
  ipv4Context :: Ipv4Context
  arpCache :: "ArpCacheEntry list"

text \<open>
  The interfaces of the host and the outside world, with the frames and the MAC filter tables handed to the
  drivers. \<open>txReady\<close> says whether the transmitter becomes ready in time, \<open>nicResult\<close> what the driver answers,
  at each call.
\<close>

record link =
  lx :: ctx
  netInterface :: "NetInterface list"
  txReady :: "nat \<Rightarrow> bool"
  nicResult :: "nat \<Rightarrow> error_t"
  frames :: "(nat \<times> u8 list) list"
  filterUpdates :: "(nat \<times> MacFilterEntry list) list"

definition put_interface :: "nat \<Rightarrow> (NetInterface \<Rightarrow> NetInterface) \<Rightarrow> link \<Rightarrow> link" where
  "put_interface i f w = w\<lparr>netInterface := (netInterface w)[i := f (netInterface w ! i)]\<rparr>"

definition put_lx :: "(ctx \<Rightarrow> ctx) \<Rightarrow> link \<Rightarrow> link" where
  "put_lx f w = w\<lparr>lx := f (lx w)\<rparr>"

text \<open>The index of the first element with a property.\<close>

fun index_of :: "('a \<Rightarrow> bool) \<Rightarrow> 'a list \<Rightarrow> nat option" where
  "index_of P [] = None"
| "index_of P (x # xs) = (if P x then Some 0 else map_option Suc (index_of P xs))"

lemma index_of_Some: "index_of P xs = Some i \<Longrightarrow> i < length xs \<and> P (xs ! i) \<and> (\<forall>j < i. \<not> P (xs ! j))"
proof (induction xs arbitrary: i)
  case (Cons x xs)
  then show ?case by (cases "P x") (auto simp: less_Suc_eq_0_disj nth_Cons')
qed simp

lemma index_of_None: "index_of P xs = None \<longleftrightarrow> (\<forall>x \<in> set xs. \<not> P x)"
  by (induction xs) auto

end
