(* ===== verification/Ipv4_Addr.thy ===== *)
theory Ipv4_Addr
  imports Net_Interface "HOL-Library.Product_Lexorder"
begin

text \<open>
  IPv4 addresses (\<open>ipv4/ipv4_misc.c\<close> and the address functions of \<open>ipv4/ipv4.c\<close>): the configuration of an
  interface, the address filters, scopes and prefixes, the choice of a source address, and the dot-decimal notation.
\<close>

section \<open>Classes of addresses\<close>

definition is_multicast :: "Ipv4Addr \<Rightarrow> bool" where
  "is_multicast a \<longleftrightarrow> a AND IPV4_ADDR 240 0 0 0 = IPV4_ADDR 224 0 0 0"

definition ipv4IsLoopbackAddr :: "Ipv4Addr \<Rightarrow> bool" where
  "ipv4IsLoopbackAddr a \<longleftrightarrow> a AND IPV4_ADDR 255 0 0 0 = IPV4_ADDR 127 0 0 0"

definition ipv4IsLinkLocalAddr :: "Ipv4Addr \<Rightarrow> bool" where
  "ipv4IsLinkLocalAddr a \<longleftrightarrow> a AND IPV4_ADDR 255 255 0 0 = IPV4_ADDR 169 254 0 0"

definition ipv4IsOnSubnet :: "Ipv4AddrEntry \<Rightarrow> Ipv4Addr \<Rightarrow> bool" where
  "ipv4IsOnSubnet e a \<longleftrightarrow> a AND subnetMask e = aeAddr e AND subnetMask e"

definition ipv4GetAddrScope :: "Ipv4Addr \<Rightarrow> nat" where
  "ipv4GetAddrScope a =
     (if a = IPV4_BROADCAST_ADDR then 2
      else if is_multicast a then (if a AND IPV4_ADDR 255 255 255 0 = IPV4_ADDR 224 0 0 0 then 2 else 3)
      else if ipv4IsLoopbackAddr a then 1
      else if ipv4IsLinkLocalAddr a then 2
      else 3)"

text \<open>The length of the prefix of ones of \<open>m\<close> from the bit \<open>31 - i\<close> on.\<close>

definition ntohl :: "u32 \<Rightarrow> u32" where
  "ntohl v = push_bit 24 (v AND 0xFF) OR push_bit 8 (v AND 0xFF00) OR drop_bit 8 (v AND 0xFF0000) OR drop_bit 24 v"

function prefix_loop :: "u32 \<Rightarrow> nat \<Rightarrow> nat" where
  "prefix_loop m i = (if i < 32 \<and> m AND push_bit (31 - i) 1 \<noteq> 0 then prefix_loop m (Suc i) else i)"
  by auto
termination by (relation "measure (\<lambda>(m, i). 32 - i)") auto

definition ipv4GetPrefixLength :: "Ipv4Addr \<Rightarrow> nat" where
  "ipv4GetPrefixLength m = prefix_loop (ntohl m) 0"

section \<open>Configuration\<close>

text \<open>\<open>h\<close> is the interface, \<open>None\<close> the null pointer.\<close>

definition put_ipv4 :: "nat \<Rightarrow> (Ipv4Context \<Rightarrow> Ipv4Context) \<Rightarrow> link \<Rightarrow> link" where
  "put_ipv4 i f = put_interface i (\<lambda>ifc. ifc\<lparr>ipv4Context := f (ipv4Context ifc)\<rparr>)"

definition put_addr :: "nat \<Rightarrow> nat \<Rightarrow> (Ipv4AddrEntry \<Rightarrow> Ipv4AddrEntry) \<Rightarrow> link \<Rightarrow> link" where
  "put_addr i k f = put_ipv4 i (\<lambda>c. c\<lparr>addrList := (addrList c)[k := f (addrList c ! k)]\<rparr>)"

abbreviation addrs :: "link \<Rightarrow> nat \<Rightarrow> Ipv4AddrEntry list" where
  "addrs w i \<equiv> addrList (ipv4Context (netInterface w ! i))"

definition zeroAddrEntry :: Ipv4AddrEntry where
  "zeroAddrEntry = \<lparr>aeAddr = 0, aeState = IPV4_ADDR_STATE_INVALID, conflict = False, subnetMask = 0, defaultGateway = 0\<rparr>"

definition zeroFilterEntry :: Ipv4FilterEntry where
  "zeroFilterEntry = \<lparr>feAddr = 0, feRefCount = 0\<rparr>"

text \<open>The driver of the interface is read without a test against the null pointer.\<close>

definition ipv4Init :: "nat \<Rightarrow> link \<Rightarrow> link option" where
  "ipv4Init i w =
     (case nicDriver (netInterface w ! i) of
        None \<Rightarrow> None
      | Some d \<Rightarrow>
          Some (put_ipv4 i (\<lambda>c. \<lparr>linkMtu = nicMtu d, isRouter = False, enableBroadcastEchoReq = True, identification = 0,
            addrList = replicate (length (addrList c)) zeroAddrEntry,
            dnsServerList = replicate (length (dnsServerList c)) 0,
            multicastFilter = replicate (length (multicastFilter c)) zeroFilterEntry\<rparr>) w))"

definition ipv4SetHostAddrEx :: "nat option \<Rightarrow> nat \<Rightarrow> Ipv4Addr \<Rightarrow> link \<Rightarrow> error_t \<times> link" where
  "ipv4SetHostAddrEx h k a w =
     (case h of
        None \<Rightarrow> (ERROR_INVALID_PARAMETER, w)
      | Some i \<Rightarrow>
          if k \<ge> length (addrs w i) then (ERROR_OUT_OF_RANGE, w)
          else if is_multicast a then (ERROR_INVALID_ADDRESS, w)
          else (NO_ERROR, put_addr i k (\<lambda>e. e\<lparr>aeAddr := a, conflict := False,
                  aeState := (if a \<noteq> IPV4_UNSPECIFIED_ADDR then IPV4_ADDR_STATE_VALID else IPV4_ADDR_STATE_INVALID)\<rparr>) w))"

definition ipv4GetHostAddrEx :: "nat option \<Rightarrow> nat \<Rightarrow> link \<Rightarrow> error_t \<times> Ipv4Addr option" where
  "ipv4GetHostAddrEx h k w =
     (case h of
        None \<Rightarrow> (ERROR_INVALID_PARAMETER, None)
      | Some i \<Rightarrow>
          if k \<ge> length (addrs w i) then (ERROR_OUT_OF_RANGE, Some IPV4_UNSPECIFIED_ADDR)
          else (NO_ERROR, Some (if aeState (addrs w i ! k) = IPV4_ADDR_STATE_VALID then aeAddr (addrs w i ! k) else IPV4_UNSPECIFIED_ADDR)))"

definition ipv4SetSubnetMaskEx :: "nat option \<Rightarrow> nat \<Rightarrow> Ipv4Addr \<Rightarrow> link \<Rightarrow> error_t \<times> link" where
  "ipv4SetSubnetMaskEx h k m w =
     (case h of
        None \<Rightarrow> (ERROR_INVALID_PARAMETER, w)
      | Some i \<Rightarrow>
          if k \<ge> length (addrs w i) then (ERROR_OUT_OF_RANGE, w)
          else (NO_ERROR, put_addr i k (\<lambda>e. e\<lparr>subnetMask := m\<rparr>) w))"

definition ipv4GetSubnetMaskEx :: "nat option \<Rightarrow> nat \<Rightarrow> link \<Rightarrow> error_t \<times> Ipv4Addr option" where
  "ipv4GetSubnetMaskEx h k w =
     (case h of
        None \<Rightarrow> (ERROR_INVALID_PARAMETER, None)
      | Some i \<Rightarrow>
          if k \<ge> length (addrs w i) then (ERROR_OUT_OF_RANGE, Some IPV4_UNSPECIFIED_ADDR)
          else (NO_ERROR, Some (subnetMask (addrs w i ! k))))"

definition ipv4SetDefaultGatewayEx :: "nat option \<Rightarrow> nat \<Rightarrow> Ipv4Addr \<Rightarrow> link \<Rightarrow> error_t \<times> link" where
  "ipv4SetDefaultGatewayEx h k a w =
     (case h of
        None \<Rightarrow> (ERROR_INVALID_PARAMETER, w)
      | Some i \<Rightarrow>
          if k \<ge> length (addrs w i) then (ERROR_OUT_OF_RANGE, w)
          else if is_multicast a then (ERROR_INVALID_ADDRESS, w)
          else (NO_ERROR, put_addr i k (\<lambda>e. e\<lparr>defaultGateway := a\<rparr>) w))"

definition ipv4GetDefaultGatewayEx :: "nat option \<Rightarrow> nat \<Rightarrow> link \<Rightarrow> error_t \<times> Ipv4Addr option" where
  "ipv4GetDefaultGatewayEx h k w =
     (case h of
        None \<Rightarrow> (ERROR_INVALID_PARAMETER, None)
      | Some i \<Rightarrow>
          if k \<ge> length (addrs w i) then (ERROR_OUT_OF_RANGE, Some IPV4_UNSPECIFIED_ADDR)
          else (NO_ERROR, Some (defaultGateway (addrs w i ! k))))"

definition ipv4SetDnsServer :: "nat option \<Rightarrow> nat \<Rightarrow> Ipv4Addr \<Rightarrow> link \<Rightarrow> error_t \<times> link" where
  "ipv4SetDnsServer h k a w =
     (case h of
        None \<Rightarrow> (ERROR_INVALID_PARAMETER, w)
      | Some i \<Rightarrow>
          if k \<ge> length (dnsServerList (ipv4Context (netInterface w ! i))) then (ERROR_OUT_OF_RANGE, w)
          else if is_multicast a then (ERROR_INVALID_ADDRESS, w)
          else (NO_ERROR, put_ipv4 i (\<lambda>c. c\<lparr>dnsServerList := (dnsServerList c)[k := a]\<rparr>) w))"

definition ipv4GetDnsServer :: "nat option \<Rightarrow> nat \<Rightarrow> link \<Rightarrow> error_t \<times> Ipv4Addr option" where
  "ipv4GetDnsServer h k w =
     (case h of
        None \<Rightarrow> (ERROR_INVALID_PARAMETER, None)
      | Some i \<Rightarrow>
          if k \<ge> length (dnsServerList (ipv4Context (netInterface w ! i))) then (ERROR_OUT_OF_RANGE, Some IPV4_UNSPECIFIED_ADDR)
          else (NO_ERROR, Some (dnsServerList (ipv4Context (netInterface w ! i)) ! k)))"

definition ipv4GetBroadcastAddr :: "nat option \<Rightarrow> link \<Rightarrow> error_t \<times> Ipv4Addr option" where
  "ipv4GetBroadcastAddr h w =
     (case h of
        None \<Rightarrow> (ERROR_INVALID_PARAMETER, None)
      | Some i \<Rightarrow> (NO_ERROR, Some (aeAddr (addrs w i ! 0) OR NOT (subnetMask (addrs w i ! 0)))))"

section \<open>Filters\<close>

definition ipv4IsOnLink :: "NetInterface \<Rightarrow> Ipv4Addr \<Rightarrow> bool" where
  "ipv4IsOnLink ifc a \<longleftrightarrow>
     (\<exists>e \<in> set (addrList (ipv4Context ifc)). aeState e \<noteq> IPV4_ADDR_STATE_INVALID \<and> ipv4IsOnSubnet e a)"

definition ipv4IsBroadcastAddr :: "NetInterface \<Rightarrow> Ipv4Addr \<Rightarrow> bool" where
  "ipv4IsBroadcastAddr ifc a \<longleftrightarrow> a = IPV4_BROADCAST_ADDR \<or>
     (\<exists>e \<in> set (addrList (ipv4Context ifc)). aeState e \<noteq> IPV4_ADDR_STATE_INVALID \<and> ipv4IsOnSubnet e a \<and>
        subnetMask e \<noteq> IPV4_BROADCAST_ADDR \<and> a OR subnetMask e = IPV4_BROADCAST_ADDR)"

definition ipv4IsTentativeAddr :: "NetInterface \<Rightarrow> Ipv4Addr \<Rightarrow> bool" where
  "ipv4IsTentativeAddr ifc a \<longleftrightarrow>
     (\<exists>e \<in> set (addrList (ipv4Context ifc)). aeState e = IPV4_ADDR_STATE_TENTATIVE \<and> aeAddr e = a)"

definition ipv4IsLocalHostAddr :: "NetInterface list \<Rightarrow> Ipv4Addr \<Rightarrow> bool" where
  "ipv4IsLocalHostAddr ifs a \<longleftrightarrow> ipv4IsLoopbackAddr a \<or>
     (\<exists>ifc \<in> set ifs. \<exists>e \<in> set (addrList (ipv4Context ifc)). aeState e = IPV4_ADDR_STATE_VALID \<and> aeAddr e = a)"

definition ipv4CheckSourceAddr :: "NetInterface \<Rightarrow> Ipv4Addr \<Rightarrow> error_t" where
  "ipv4CheckSourceAddr ifc a = (if ipv4IsBroadcastAddr ifc a \<or> is_multicast a then ERROR_INVALID_ADDRESS else NO_ERROR)"

definition ipv4CheckDestAddr :: "NetInterface \<Rightarrow> Ipv4Addr \<Rightarrow> error_t" where
  "ipv4CheckDestAddr ifc a =
     (if ipv4IsBroadcastAddr ifc a then NO_ERROR
      else if is_multicast a then
        (if \<exists>e \<in> set (multicastFilter (ipv4Context ifc)). feRefCount e > 0 \<and> feAddr e = a then NO_ERROR else ERROR_INVALID_ADDRESS)
      else
        (if \<exists>e \<in> set (addrList (ipv4Context ifc)). aeState e \<noteq> IPV4_ADDR_STATE_INVALID \<and> aeAddr e = a
         then NO_ERROR else ERROR_INVALID_ADDRESS))"

definition ipv4MapMulticastAddrToMac :: "Ipv4Addr \<Rightarrow> error_t \<times> MacAddr option" where
  "ipv4MapMulticastAddrToMac a =
     (if \<not> is_multicast a then (ERROR_INVALID_ADDRESS, None)
      else let p = ip_bytes a in (NO_ERROR, Some [0x01, 0x00, 0x5E, p ! 1 AND 0x7F, p ! 2, p ! 3]))"

section \<open>Source address\<close>

text \<open>Whether the candidate \<open>c\<close> replaces the best address so far.\<close>

definition better :: "Ipv4Addr \<Rightarrow> Ipv4AddrEntry \<Rightarrow> Ipv4AddrEntry \<Rightarrow> bool" where
  "better dest c best =
     (if aeAddr best = dest then False
      else if aeAddr c = dest then True
      else if defaultGateway best = dest then False
      else if defaultGateway c = dest then True
      else if ipv4GetAddrScope (aeAddr c) < ipv4GetAddrScope (aeAddr best) then
        ipv4GetAddrScope (aeAddr c) \<ge> ipv4GetAddrScope dest
      else if ipv4GetAddrScope (aeAddr best) < ipv4GetAddrScope (aeAddr c) then
        ipv4GetAddrScope (aeAddr best) < ipv4GetAddrScope dest
      else if ipv4IsOnSubnet best dest then
        ipv4IsOnSubnet c dest \<and> ipv4GetPrefixLength (subnetMask c) > ipv4GetPrefixLength (subnetMask best)
      else if ipv4IsOnSubnet c dest then True
      else if defaultGateway best \<noteq> IPV4_UNSPECIFIED_ADDR then False
      else defaultGateway c \<noteq> IPV4_UNSPECIFIED_ADDR)"

definition consider_addr :: "Ipv4Addr \<Rightarrow> (nat \<times> Ipv4AddrEntry) option \<Rightarrow> nat \<times> Ipv4AddrEntry \<Rightarrow> (nat \<times> Ipv4AddrEntry) option" where
  "consider_addr dest best c =
     (if aeState (snd c) = IPV4_ADDR_STATE_VALID then
        (case best of
           None \<Rightarrow> Some c
         | Some b \<Rightarrow> if better dest (snd c) (snd b) then Some c else Some b)
      else best)"

text \<open>The loop over the interfaces, numbered from \<open>k\<close> on, and over the addresses of each.\<close>

fun select_loop :: "Ipv4Addr \<Rightarrow> nat option \<Rightarrow> nat \<Rightarrow> NetInterface list \<Rightarrow> (nat \<times> Ipv4AddrEntry) option \<Rightarrow>
    (nat \<times> Ipv4AddrEntry) option" where
  "select_loop dest hint k [] best = best"
| "select_loop dest hint k (ifc # ifs) best =
     select_loop dest hint (Suc k) ifs
       (if hint \<noteq> Some k \<and> hint \<noteq> None then best
        else foldl (consider_addr dest) best (map (Pair k) (addrList (ipv4Context ifc))))"

definition ipv4SelectSourceAddr :: "NetInterface list \<Rightarrow> nat option \<Rightarrow> Ipv4Addr \<Rightarrow> error_t \<times> nat option \<times> Ipv4Addr option" where
  "ipv4SelectSourceAddr ifs hint dest =
     (case select_loop dest hint 0 ifs None of
        Some (i, e) \<Rightarrow> (NO_ERROR, Some i, Some (aeAddr e))
      | None \<Rightarrow> (ERROR_NO_ADDRESS, hint, None))"

section \<open>Dot-decimal notation\<close>

definition osIsdigit :: "char \<Rightarrow> bool" where
  "osIsdigit c \<longleftrightarrow> 48 \<le> (of_char c :: nat) \<and> (of_char c :: nat) \<le> 57"

text \<open>The bytes stored so far are \<open>out\<close>; the end of the list is the terminating null character.\<close>

fun ipv4_parse :: "string \<Rightarrow> nat \<Rightarrow> int \<Rightarrow> u8 list \<Rightarrow> error_t \<times> u8 list" where
  "ipv4_parse [] i v out =
     (if i = 3 then (if v < 0 then (ERROR_INVALID_SYNTAX, out) else (NO_ERROR, out @ [of_int v]))
      else (ERROR_INVALID_SYNTAX, out))"
| "ipv4_parse (c # cs) i v out =
     (if osIsdigit c then
        let v = (if v < 0 then 0 else v); v = v * 10 + (of_char c - 48)
        in if v > 255 then (ERROR_INVALID_SYNTAX, out) else ipv4_parse cs i v out
      else if c = CHR ''.'' \<and> i < 4 then
        (if v < 0 then (ERROR_INVALID_SYNTAX, out) else ipv4_parse cs (Suc i) (-1) (out @ [of_int v]))
      else (ERROR_INVALID_SYNTAX, out))"

definition ipv4StringToAddr :: "string \<Rightarrow> error_t \<times> u8 list" where
  "ipv4StringToAddr str = ipv4_parse str 0 (-1) []"

text \<open>The format \<open>%u\<close> of \<open>sprintf\<close>.\<close>

fun dec_string :: "nat \<Rightarrow> string" where
  "dec_string n = (if n < 10 then [char_of (48 + n)] else dec_string (n div 10) @ [char_of (48 + n mod 10)])"

definition ipv4AddrToString :: "Ipv4Addr \<Rightarrow> string" where
  "ipv4AddrToString a =
     (let p = ip_bytes a
      in dec_string (unat (p ! 0)) @ ''.'' @ dec_string (unat (p ! 1)) @ ''.'' @
         dec_string (unat (p ! 2)) @ ''.'' @ dec_string (unat (p ! 3)))"

declare dec_string.simps [simp del] prefix_loop.simps [simp del]

lemma of_char_digit: "d < 10 \<Longrightarrow> (of_char (char_of (48 + d :: nat)) :: int) = 48 + int d \<and> osIsdigit (char_of (48 + d :: nat))"
proof -
  assume "d < 10"
  then have n: "(of_char (char_of (48 + d :: nat)) :: nat) = 48 + d" by simp
  then have "(of_char (char_of (48 + d :: nat)) :: int) = int (48 + d)" by (metis of_nat_of_char)
  with n \<open>d < 10\<close> show ?thesis by (simp add: osIsdigit_def)
qed

lemma ipv4_parse_dec:
  "n < 256 \<Longrightarrow> ipv4_parse (dec_string n @ cs) i (-1) out = ipv4_parse cs i (int n) out"
proof (induction n arbitrary: cs rule: dec_string.induct)
  case (1 n)
  note d = of_char_digit [of "n mod 10"]
  show ?case
  proof (cases "n < 10")
    case True
    then show ?thesis using of_char_digit [of n] by (simp add: dec_string.simps [of n] Let_def)
  next
    case False
    have n: "int (n div 10) * 10 + int (n mod 10) = int n" by (metis div_mult_mod_eq of_nat_add of_nat_mult of_nat_numeral)
    have "ipv4_parse (dec_string n @ cs) i (-1) out = ipv4_parse (char_of (48 + n mod 10) # cs) i (int (n div 10)) out"
      using 1 False by (simp add: dec_string.simps [of n])
    also have "\<dots> = ipv4_parse cs i (int n) out" using d 1(2) n by (simp add: Let_def)
    finally show ?thesis .
  qed
qed

lemma ipv4_parse_dot: "n < 256 \<Longrightarrow> i < 4 \<Longrightarrow>
  ipv4_parse (dec_string n @ CHR ''.'' # cs) i (-1) out = ipv4_parse cs (Suc i) (-1) (out @ [of_nat n])"
  by (simp add: ipv4_parse_dec osIsdigit_def)

lemma ipv4_string_roundtrip: "ipv4StringToAddr (ipv4AddrToString a) = (NO_ERROR, ip_bytes a)"
proof -
  have u: "unat (b :: u8) < 256" for b using unsigned_less [of b] by simp
  have "ipv4_parse (dec_string n) i (-1) out = ipv4_parse [] i (int n) out" if "n < 256" for n i out
    using ipv4_parse_dec [OF that, of "[]"] by simp
  then show ?thesis
    by (simp add: ipv4StringToAddr_def ipv4AddrToString_def Let_def ipv4_parse_dot u) (simp add: ip_bytes_def)
qed

section \<open>The choice of a source address\<close>

lemma prefix_loop_le: "i \<le> 32 \<Longrightarrow> prefix_loop m i \<le> 32"
proof (induction m i rule: prefix_loop.induct)
  case (1 m i)
  then show ?case by (subst prefix_loop.simps) simp
qed

text \<open>
  The rank of a source address for a destination, smaller is better: the destination itself, an address whose
  gateway is the destination, then the scope (the smallest one that reaches the destination, or else the largest),
  the longest prefix that contains the destination, and the presence of a gateway.
\<close>

definition rank :: "Ipv4Addr \<Rightarrow> Ipv4AddrEntry \<Rightarrow> nat \<times> nat \<times> nat \<times> nat" where
  "rank dest e =
     (let s = ipv4GetAddrScope (aeAddr e); d = ipv4GetAddrScope dest
      in if aeAddr e = dest then (0, 0, 0, 0)
         else if defaultGateway e = dest then (1, 0, 0, 0)
         else (2, (if d \<le> s then s - d else 10 - s),
           (if ipv4IsOnSubnet e dest then 32 - ipv4GetPrefixLength (subnetMask e) else 33),
           (if ipv4IsOnSubnet e dest \<or> defaultGateway e \<noteq> IPV4_UNSPECIFIED_ADDR then 0 else 1)))"

lemma scope_bounds: "1 \<le> ipv4GetAddrScope a" "ipv4GetAddrScope a \<le> 3"
  by (simp_all add: ipv4GetAddrScope_def)

lemma better_rank: "better dest c b \<longleftrightarrow> rank dest c < rank dest b"
proof -
  have p: "ipv4GetPrefixLength m \<le> 32" for m by (simp add: ipv4GetPrefixLength_def prefix_loop_le)
  let ?s = "\<lambda>e. ipv4GetAddrScope (aeAddr e)" and ?d = "ipv4GetAddrScope dest"
  have sc: "?s c < ?s b \<Longrightarrow> (if ?d \<le> ?s c then ?s c - ?d else 10 - ?s c) < (if ?d \<le> ?s b then ?s b - ?d else 10 - ?s b) \<longleftrightarrow> ?d \<le> ?s c"
    "?s c < ?s b \<Longrightarrow> (if ?d \<le> ?s c then ?s c - ?d else 10 - ?s c) \<noteq> (if ?d \<le> ?s b then ?s b - ?d else 10 - ?s b)"
    "?s b < ?s c \<Longrightarrow> (if ?d \<le> ?s c then ?s c - ?d else 10 - ?s c) < (if ?d \<le> ?s b then ?s b - ?d else 10 - ?s b) \<longleftrightarrow> ?s b < ?d"
    "?s b < ?s c \<Longrightarrow> (if ?d \<le> ?s c then ?s c - ?d else 10 - ?s c) \<noteq> (if ?d \<le> ?s b then ?s b - ?d else 10 - ?s b)"
    using scope_bounds [of "aeAddr c"] scope_bounds [of "aeAddr b"] scope_bounds [of dest] by auto
  consider "aeAddr b = dest" | "aeAddr b \<noteq> dest" "aeAddr c = dest"
    | "aeAddr b \<noteq> dest" "aeAddr c \<noteq> dest" "defaultGateway b = dest"
    | "aeAddr b \<noteq> dest" "aeAddr c \<noteq> dest" "defaultGateway b \<noteq> dest" "defaultGateway c = dest"
    | "aeAddr b \<noteq> dest" "aeAddr c \<noteq> dest" "defaultGateway b \<noteq> dest" "defaultGateway c \<noteq> dest" by blast
  then show ?thesis
  proof cases
    case 5
    consider "?s c < ?s b" | "?s b < ?s c" | "?s c = ?s b" by linarith
    then show ?thesis
    proof cases
      case 1
      then show ?thesis using 5 sc(1,2) by (simp add: better_def rank_def Let_def less_prod_def')
    next
      case 2
      then show ?thesis using 5 sc(3,4) by (simp add: better_def rank_def Let_def less_prod_def')
    next
      case 3
      then show ?thesis using 5 p [of "subnetMask c"] p [of "subnetMask b"]
        by (auto simp: better_def rank_def Let_def less_prod_def')
    qed
  qed (simp_all add: better_def rank_def Let_def less_prod_def')
qed

text \<open>The addresses among which the choice is made: the valid ones of the interface given, or of all interfaces.\<close>

definition addresses :: "nat option \<Rightarrow> nat \<Rightarrow> NetInterface list \<Rightarrow> (nat \<times> Ipv4AddrEntry) list" where
  "addresses hint k ifs =
     concat (map (\<lambda>(i, ifc). if hint = None \<or> hint = Some i then map (Pair i) (addrList (ipv4Context ifc)) else []) (enumerate k ifs))"

definition candidates :: "nat option \<Rightarrow> NetInterface list \<Rightarrow> (nat \<times> Ipv4AddrEntry) list" where
  "candidates hint ifs = filter (\<lambda>c. aeState (snd c) = IPV4_ADDR_STATE_VALID) (addresses hint 0 ifs)"

lemma select_loop_fold: "select_loop dest hint k ifs best = foldl (consider_addr dest) best (addresses hint k ifs)"
  by (induction ifs arbitrary: k best) (auto simp: addresses_def)

lemma fold_first_best:
  "(filter (\<lambda>c. aeState (snd c) = IPV4_ADDR_STATE_VALID) cs = [] \<and> foldl (consider_addr dest) None cs = None) \<or>
   (\<exists>xs m ys. filter (\<lambda>c. aeState (snd c) = IPV4_ADDR_STATE_VALID) cs = xs @ m # ys \<and>
      foldl (consider_addr dest) None cs = Some m \<and>
      (\<forall>c \<in> set xs. rank dest (snd m) < rank dest (snd c)) \<and> (\<forall>c \<in> set ys. rank dest (snd m) \<le> rank dest (snd c)))"
proof (induction cs rule: rev_induct)
  case (snoc c cs)
  show ?case
  proof (cases "aeState (snd c) = IPV4_ADDR_STATE_VALID")
    case False
    with snoc show ?thesis by (simp add: consider_addr_def)
  next
    case v: True
    from snoc show ?thesis
    proof (elim disjE exE conjE)
      assume "filter (\<lambda>c. aeState (snd c) = IPV4_ADDR_STATE_VALID) cs = []" "foldl (consider_addr dest) None cs = None"
      then have "foldl (consider_addr dest) None (cs @ [c]) = Some c"
        "filter (\<lambda>c. aeState (snd c) = IPV4_ADDR_STATE_VALID) (cs @ [c]) = [] @ c # []" using v by (simp_all add: consider_addr_def)
      then show ?thesis by (metis empty_iff list.set(1))
    next
      fix xs m ys
      assume f: "filter (\<lambda>c. aeState (snd c) = IPV4_ADDR_STATE_VALID) cs = xs @ m # ys" "foldl (consider_addr dest) None cs = Some m"
        and r: "\<forall>c \<in> set xs. rank dest (snd m) < rank dest (snd c)" "\<forall>c \<in> set ys. rank dest (snd m) \<le> rank dest (snd c)"
      show ?thesis
      proof (cases "rank dest (snd c) < rank dest (snd m)")
        case True
        then have "foldl (consider_addr dest) None (cs @ [c]) = Some c" using f v by (simp add: consider_addr_def better_rank)
        moreover have "filter (\<lambda>c. aeState (snd c) = IPV4_ADDR_STATE_VALID) (cs @ [c]) = (xs @ m # ys) @ c # []" using f v by simp
        moreover have "\<forall>d \<in> set (xs @ m # ys). rank dest (snd c) < rank dest (snd d)"
          using True r by (auto intro: less_trans less_le_trans)
        ultimately show ?thesis by (metis empty_iff list.set(1))
      next
        case False
        then have "foldl (consider_addr dest) None (cs @ [c]) = Some m" using f v by (simp add: consider_addr_def better_rank)
        moreover have "filter (\<lambda>c. aeState (snd c) = IPV4_ADDR_STATE_VALID) (cs @ [c]) = xs @ m # (ys @ [c])" using f v by simp
        moreover have "\<forall>d \<in> set (ys @ [c]). rank dest (snd m) \<le> rank dest (snd d)" using False r(2) by auto
        ultimately show ?thesis using r(1) by metis
      qed
    qed
  qed
qed simp

section \<open>Properties\<close>

text \<open>
  Property C16. The source address for a destination is the first address of the best rank among the valid addresses of
  the interface given, or of all interfaces when none is given; it is an error only when there is no valid address.
\<close>

theorem ipv4SelectSourceAddr_best:
  "(candidates hint ifs = [] \<longrightarrow> ipv4SelectSourceAddr ifs hint dest = (ERROR_NO_ADDRESS, hint, None)) \<and>
   (candidates hint ifs \<noteq> [] \<longrightarrow>
     (\<exists>xs i e ys. candidates hint ifs = xs @ (i, e) # ys \<and> ipv4SelectSourceAddr ifs hint dest = (NO_ERROR, Some i, Some (aeAddr e)) \<and>
        (\<forall>c \<in> set xs. rank dest e < rank dest (snd c)) \<and> (\<forall>c \<in> set ys. rank dest e \<le> rank dest (snd c))))"
  using fold_first_best [of "addresses hint 0 ifs" dest]
proof (elim disjE exE conjE)
  assume "filter (\<lambda>c. aeState (snd c) = IPV4_ADDR_STATE_VALID) (addresses hint 0 ifs) = []"
    "foldl (consider_addr dest) None (addresses hint 0 ifs) = None"
  then show ?thesis by (simp add: ipv4SelectSourceAddr_def select_loop_fold candidates_def)
next
  fix xs m ys
  assume a: "filter (\<lambda>c. aeState (snd c) = IPV4_ADDR_STATE_VALID) (addresses hint 0 ifs) = xs @ m # ys"
    "foldl (consider_addr dest) None (addresses hint 0 ifs) = Some m"
    "\<forall>c \<in> set xs. rank dest (snd m) < rank dest (snd c)" "\<forall>c \<in> set ys. rank dest (snd m) \<le> rank dest (snd c)"
  obtain i e where m: "m = (i, e)" by force
  show ?thesis using a unfolding m ipv4SelectSourceAddr_def select_loop_fold candidates_def
    by (intro conjI impI exI [of _ xs] exI [of _ i] exI [of _ e] exI [of _ ys]) simp_all
qed

definition example_addr :: "u8 \<Rightarrow> Ipv4AddrEntry" where
  "example_addr n = \<lparr>aeAddr = IPV4_ADDR 10 0 n 1, aeState = IPV4_ADDR_STATE_VALID, conflict = False,
     subnetMask = IPV4_ADDR 255 255 255 0, defaultGateway = 0\<rparr>"

definition example_if :: "Ipv4AddrEntry list \<Rightarrow> NetInterface" where
  "example_if es = \<lparr>nicDriver = Some \<lparr>nicType = NIC_TYPE_ETHERNET, nicMtu = 1500, autoPadding = False, autoCrcCalc = False,
       autoCrcVerif = False, autoCrcStrip = False\<rparr>, configured = True, macAddr = [2, 0, 0, 0, 0, 1],
     macAddrFilter = replicate 12 \<lparr>mfAddr = MAC_UNSPECIFIED_ADDR, mfRefCount = 0, addFlag = False, deleteFlag = False\<rparr>,
     ipv4Context = \<lparr>linkMtu = 1500, isRouter = False, enableBroadcastEchoReq = True, identification = 0, addrList = es,
       dnsServerList = [], multicastFilter = replicate 4 zeroFilterEntry\<rparr>,
     arpCache = replicate 8 \<lparr>arpState = ARP_STATE_NONE, arpIpAddr = 0, arpMacAddr = MAC_UNSPECIFIED_ADDR, arpTimestamp = 0,
       arpTimeout = 0, arpRetransmitCount = 0, arpQueue = []\<rparr>\<rparr>"

theorem ipv4SelectSourceAddr_best_witness:
  "ipv4SelectSourceAddr [example_if [example_addr 1], example_if [example_addr 2]] None (IPV4_ADDR 10 0 2 9) =
     (NO_ERROR, Some 1, Some (IPV4_ADDR 10 0 2 1))"
proof -
  let ?ifs = "[example_if [example_addr 1], example_if [example_addr 2]]" and ?d = "IPV4_ADDR 10 0 2 9"
  have c: "candidates None ?ifs = [(0, example_addr 1), (1, example_addr 2)]"
    by (simp add: candidates_def addresses_def example_if_def example_addr_def)
  have r: "rank ?d (example_addr 2) < rank ?d (example_addr 1)"
    by (simp add: rank_def example_addr_def ipv4IsOnSubnet_def ipv4GetAddrScope_def is_multicast_def ipv4IsLoopbackAddr_def
        ipv4IsLinkLocalAddr_def IPV4_ADDR_def ipv4GetPrefixLength_def ntohl_def prefix_loop.simps less_prod_def')
  from ipv4SelectSourceAddr_best [of None ?ifs ?d] c obtain xs i e ys
    where x: "[(0, example_addr 1), (1, example_addr 2)] = xs @ (i, e) # ys" "ipv4SelectSourceAddr ?ifs None ?d = (NO_ERROR, Some i, Some (aeAddr e))"
      "\<forall>c \<in> set ys. rank ?d e \<le> rank ?d (snd c)" by auto
  then have "i = 1 \<and> e = example_addr 2" using r by (cases xs) (auto simp: Cons_eq_append_conv)
  with x(2) show ?thesis by (simp add: example_addr_def)
qed

end
