(* ===== verification/Ethernet.thy ===== *)
theory Ethernet
  imports Ipv4_Addr
begin

text \<open>
  Ethernet frames (\<open>core/ethernet.c\<close>, \<open>core/ethernet_misc.c\<close>, the packet functions of \<open>core/nic.c\<close>) and the multicast
  groups of \<open>ipv4/ipv4.c\<close>, which share the MAC filter. The protocols above are parameters of \<open>ethProcessFrame\<close>.
  The bytes appended to a frame lie in memory whose address does not matter; it is given as 0.
\<close>

abbreviation (input) ETH_MIN_FRAME_SIZE :: nat where "ETH_MIN_FRAME_SIZE \<equiv> 64"
abbreviation (input) ETH_TYPE_IPV4 :: u16 where "ETH_TYPE_IPV4 \<equiv> 0x0800"
abbreviation (input) ETH_TYPE_ARP :: u16 where "ETH_TYPE_ARP \<equiv> 0x0806"
abbreviation (input) ETH_TYPE_IPV6 :: u16 where "ETH_TYPE_IPV6 \<equiv> 0x86DD"

section \<open>MAC filter\<close>

definition zeroMacFilterEntry :: MacFilterEntry where
  "zeroMacFilterEntry = \<lparr>mfAddr = MAC_UNSPECIFIED_ADDR, mfRefCount = 0, addFlag = False, deleteFlag = False\<rparr>"

definition ethInit :: "nat \<Rightarrow> link \<Rightarrow> link" where
  "ethInit i = put_interface i (\<lambda>ifc. ifc\<lparr>macAddrFilter := replicate (length (macAddrFilter ifc)) zeroMacFilterEntry\<rparr>)"

abbreviation mac_filter :: "link \<Rightarrow> nat \<Rightarrow> MacFilterEntry list" where
  "mac_filter w i \<equiv> macAddrFilter (netInterface w ! i)"

definition put_filter :: "nat \<Rightarrow> nat \<Rightarrow> (MacFilterEntry \<Rightarrow> MacFilterEntry) \<Rightarrow> link \<Rightarrow> link" where
  "put_filter i k f = put_interface i (\<lambda>ifc. ifc\<lparr>macAddrFilter := (macAddrFilter ifc)[k := f (macAddrFilter ifc ! k)]\<rparr>)"

definition nicUpdateMacAddrFilter :: "nat \<Rightarrow> link \<Rightarrow> error_t \<times> link" where
  "nicUpdateMacAddrFilter i w =
     (if nicDriver (netInterface w ! i) \<noteq> None
      then (nicResult w (calls (lx w)), put_lx tick_call (w\<lparr>filterUpdates := filterUpdates w @ [(i, mac_filter w i)]\<rparr>))
      else (ERROR_INVALID_INTERFACE, w))"

definition ethAcceptMacAddr :: "nat \<Rightarrow> MacAddr \<Rightarrow> link \<Rightarrow> error_t \<times> link" where
  "ethAcceptMacAddr i m w =
     (case index_of (\<lambda>e. mfRefCount e > 0 \<and> mfAddr e = m) (mac_filter w i) of
        Some k \<Rightarrow> (NO_ERROR, put_filter i k (\<lambda>e. e\<lparr>mfRefCount := mfRefCount e + 1\<rparr>) w)
      | None \<Rightarrow>
          (case index_of (\<lambda>e. \<not> mfRefCount e > 0) (mac_filter w i) of
             None \<Rightarrow> (ERROR_FAILURE, w)
           | Some k \<Rightarrow>
               (let w = put_filter i k (\<lambda>e. e\<lparr>mfAddr := m, mfRefCount := 1, addFlag := True, deleteFlag := False\<rparr>) w;
                    (_, w) = nicUpdateMacAddrFilter i w
                in (NO_ERROR, put_filter i k (\<lambda>e. e\<lparr>addFlag := False\<rparr>) w))))"

definition ethDropMacAddr :: "nat \<Rightarrow> MacAddr \<Rightarrow> link \<Rightarrow> error_t \<times> link" where
  "ethDropMacAddr i m w =
     (case index_of (\<lambda>e. mfRefCount e > 0 \<and> mfAddr e = m) (mac_filter w i) of
        None \<Rightarrow> (ERROR_ADDRESS_NOT_FOUND, w)
      | Some k \<Rightarrow>
          (let w = put_filter i k (\<lambda>e. e\<lparr>mfRefCount := mfRefCount e - 1\<rparr>) w
           in if mfRefCount (mac_filter w i ! k) = 0 then
                let w = put_filter i k (\<lambda>e. e\<lparr>deleteFlag := True\<rparr>) w;
                    (_, w) = nicUpdateMacAddrFilter i w
                in (NO_ERROR, put_filter i k (\<lambda>e. e\<lparr>deleteFlag := False, mfAddr := MAC_UNSPECIFIED_ADDR\<rparr>) w)
              else (NO_ERROR, w)))"

definition ethCheckDestAddr :: "NetInterface \<Rightarrow> MacAddr \<Rightarrow> error_t" where
  "ethCheckDestAddr ifc m =
     (if m = macAddr ifc then NO_ERROR
      else if m = MAC_BROADCAST_ADDR then NO_ERROR
      else if macIsMulticastAddr m \<and> (\<exists>e \<in> set (macAddrFilter ifc). mfRefCount e > 0 \<and> mfAddr e = m) then NO_ERROR
      else ERROR_INVALID_ADDRESS)"

section \<open>Multicast groups\<close>

definition put_group :: "nat \<Rightarrow> nat \<Rightarrow> (Ipv4FilterEntry \<Rightarrow> Ipv4FilterEntry) \<Rightarrow> link \<Rightarrow> link" where
  "put_group i k f = put_ipv4 i (\<lambda>c. c\<lparr>multicastFilter := (multicastFilter c)[k := f (multicastFilter c ! k)]\<rparr>)"

abbreviation groups :: "link \<Rightarrow> nat \<Rightarrow> Ipv4FilterEntry list" where
  "groups w i \<equiv> multicastFilter (ipv4Context (netInterface w ! i))"

definition ipv4JoinMulticastGroup :: "nat \<Rightarrow> Ipv4Addr \<Rightarrow> link \<Rightarrow> error_t \<times> link" where
  "ipv4JoinMulticastGroup i g w =
     (if \<not> is_multicast g then (ERROR_INVALID_ADDRESS, w)
      else case index_of (\<lambda>e. feRefCount e > 0 \<and> feAddr e = g) (groups w i) of
        Some k \<Rightarrow> (NO_ERROR, put_group i k (\<lambda>e. e\<lparr>feRefCount := feRefCount e + 1\<rparr>) w)
      | None \<Rightarrow>
          (case index_of (\<lambda>e. \<not> feRefCount e > 0) (groups w i) of
             None \<Rightarrow> (ERROR_FAILURE, w)
           | Some k \<Rightarrow>
               (let (error, w) = ethAcceptMacAddr i (the (snd (ipv4MapMulticastAddrToMac g))) w
                in if error = NO_ERROR then (NO_ERROR, put_group i k (\<lambda>e. e\<lparr>feAddr := g, feRefCount := 1\<rparr>) w)
                   else (error, w))))"

definition ipv4LeaveMulticastGroup :: "nat \<Rightarrow> Ipv4Addr \<Rightarrow> link \<Rightarrow> error_t \<times> link" where
  "ipv4LeaveMulticastGroup i g w =
     (if \<not> is_multicast g then (ERROR_INVALID_ADDRESS, w)
      else case index_of (\<lambda>e. feRefCount e > 0 \<and> feAddr e = g) (groups w i) of
        None \<Rightarrow> (ERROR_ADDRESS_NOT_FOUND, w)
      | Some k \<Rightarrow>
          (let w = put_group i k (\<lambda>e. e\<lparr>feRefCount := feRefCount e - 1\<rparr>) w
           in if feRefCount (groups w i ! k) = 0 then
                let (_, w) = ethDropMacAddr i (the (snd (ipv4MapMulticastAddrToMac g))) w
                in (NO_ERROR, put_group i k (\<lambda>e. e\<lparr>feAddr := IPV4_UNSPECIFIED_ADDR\<rparr>) w)
              else (NO_ERROR, w)))"

section \<open>Sending\<close>

text \<open>The driver gets the bytes of the buffer from the offset on.\<close>

definition nicSendPacket :: "nat \<Rightarrow> NetBuffer \<Rightarrow> nat \<Rightarrow> link \<Rightarrow> error_t \<times> link" where
  "nicSendPacket i b off w =
     (case nicDriver (netInterface w ! i) of
        None \<Rightarrow> (ERROR_INVALID_INTERFACE, w)
      | Some d \<Rightarrow>
          if \<not> configured (netInterface w ! i) then (ERROR_INVALID_INTERFACE, w)
          else
            let (status, w) = (if nicType d = NIC_TYPE_LOOPBACK then (True, w) else (txReady w (calls (lx w)), put_lx tick_call w))
            in if status
               then (nicResult w (calls (lx w)), put_lx tick_call (w\<lparr>frames := frames w @ [(i, drop off (nb_bytes b))]\<rparr>))
               else (ERROR_TRANSMITTER_BUSY, w))"

definition ethPadFrame :: "NetBuffer \<Rightarrow> nat \<Rightarrow> error_t \<times> NetBuffer \<times> nat" where
  "ethPadFrame b len =
     (if len < ETH_MIN_FRAME_SIZE - ETH_CRC_SIZE then
        let n = ETH_MIN_FRAME_SIZE - ETH_CRC_SIZE - len;
            (e, b) = netBufferAppend b 0 (replicate 64 0x00) n
        in (e, b, if e = NO_ERROR then len + n else len)
      else (NO_ERROR, b, len))"

text \<open>The padding and the CRC, where the hardware does not add them.\<close>

definition ethCompleteFrame :: "NicDriver \<Rightarrow> NetBuffer \<Rightarrow> nat \<Rightarrow> nat \<Rightarrow> error_t \<times> NetBuffer" where
  "ethCompleteFrame d b off len =
     (let (e, b, len) = (if autoPadding d then (NO_ERROR, b, len) else ethPadFrame b len)
      in if e \<noteq> NO_ERROR then (e, b)
         else if autoCrcCalc d then (NO_ERROR, b)
         else netBufferAppend b 0 (crc_field (ethCalcCrcEx b off len)) ETH_CRC_SIZE)"

definition ethSendFrame :: "nat \<Rightarrow> MacAddr \<Rightarrow> u16 \<Rightarrow> NetBuffer \<Rightarrow> nat \<Rightarrow> link \<Rightarrow> error_t \<times> NetBuffer \<times> link" where
  "ethSendFrame i dest ty b off w =
     (if off < SIZEOF_ETH_HEADER then (ERROR_INVALID_PARAMETER, b, w)
      else
        let off = off - SIZEOF_ETH_HEADER;
            len = netBufferGetLength b - off;
            b = netBufferPoke b off (dest @ macAddr (netInterface w ! i) @ be16 ty);
            (e, b) = (case nicDriver (netInterface w ! i) of None \<Rightarrow> (NO_ERROR, b) | Some d \<Rightarrow> ethCompleteFrame d b off len)
        in if e \<noteq> NO_ERROR then (e, b, w)
           else let (e, w) = nicSendPacket i b off w in (e, b, w))"

section \<open>Receiving\<close>

text \<open>The handlers of the protocols get the interface and the data of the frame.\<close>

type_synonym handler = "nat \<Rightarrow> u8 list \<Rightarrow> link \<Rightarrow> link"

definition eth_dispatch :: "handler \<Rightarrow> handler \<Rightarrow> handler \<Rightarrow> nat \<Rightarrow> MacAddr \<Rightarrow> u16 \<Rightarrow> u8 list \<Rightarrow> link \<Rightarrow> link" where
  "eth_dispatch arp ipv4 ipv6 k dest ty data w =
     (if ethCheckDestAddr (netInterface w ! k) dest \<noteq> NO_ERROR then w
      else if ty = ETH_TYPE_ARP then arp k data w
      else if ty = ETH_TYPE_IPV4 then ipv4 k data w
      else if ty = ETH_TYPE_IPV6 then ipv6 k data w
      else w)"

text \<open>
  The loop over the interfaces stops only at those attached to the interface \<open>i\<close>: the interface itself. The driver
  of \<open>i\<close> is used without a test.
\<close>

definition ethProcessFrame :: "handler \<Rightarrow> handler \<Rightarrow> handler \<Rightarrow> nat \<Rightarrow> u8 list \<Rightarrow> link \<Rightarrow> link option" where
  "ethProcessFrame arp ipv4 ipv6 i frame w =
     (case nicDriver (netInterface w ! i) of
        None \<Rightarrow> None
      | Some d \<Rightarrow>
          Some (let len = length frame;
                    (e, x) = (if autoCrcStrip d then (NO_ERROR, lx w) else ethCheckCrc (autoCrcVerif d) frame len (lx w));
                    len = (if autoCrcStrip d then len else len - ETH_CRC_SIZE);
                    w = w\<lparr>lx := x\<rparr>
                in if e \<noteq> NO_ERROR then w
                   else if len < SIZEOF_ETH_HEADER then w
                   else foldl (\<lambda>w k. if k \<noteq> i then w
                          else eth_dispatch arp ipv4 ipv6 k (take 6 frame) (of_be16 (frame ! 12) (frame ! 13))
                                 (drop SIZEOF_ETH_HEADER (take len frame)) w) w [0..<length (netInterface w)]))"

text \<open>The case of an Ethernet interface; the driver is used without a test here too.\<close>

definition nicProcessEthernet :: "handler \<Rightarrow> handler \<Rightarrow> handler \<Rightarrow> nat \<Rightarrow> u8 list \<Rightarrow> link \<Rightarrow> link option" where
  "nicProcessEthernet arp ipv4 ipv6 i packet w =
     (if \<not> configured (netInterface w ! i) then Some w
      else case nicDriver (netInterface w ! i) of
        None \<Rightarrow> None
      | Some d \<Rightarrow> if nicType d = NIC_TYPE_ETHERNET then ethProcessFrame arp ipv4 ipv6 i packet w else Some w)"

section \<open>Addresses\<close>

definition macAddrToEui64 :: "MacAddr \<Rightarrow> u8 list" where
  "macAddrToEui64 m = [m ! 0 XOR 0x02, m ! 1, m ! 2, 0xFF, 0xFE, m ! 3, m ! 4, m ! 5]"

definition hex_value :: "char \<Rightarrow> int option" where
  "hex_value c =
     (let n = of_char c :: int
      in if 48 \<le> n \<and> n \<le> 57 then Some (n - 48)
         else if 65 \<le> n \<and> n \<le> 70 then Some (n - 65 + 10)
         else if 97 \<le> n \<and> n \<le> 102 then Some (n - 97 + 10)
         else None)"

fun mac_parse :: "string \<Rightarrow> nat \<Rightarrow> int \<Rightarrow> u8 list \<Rightarrow> error_t \<times> u8 list" where
  "mac_parse [] i v out =
     (if i = 5 then (if v < 0 then (ERROR_INVALID_SYNTAX, out) else (NO_ERROR, out @ [of_int v]))
      else (ERROR_INVALID_SYNTAX, out))"
| "mac_parse (c # cs) i v out =
     (case hex_value c of
        Some d \<Rightarrow>
          let v = (if v < 0 then 0 else v) * 16 + d
          in if v > 0xFF then (ERROR_INVALID_SYNTAX, out) else mac_parse cs i v out
      | None \<Rightarrow>
          if (c = CHR ''-'' \<or> c = CHR '':'') \<and> i < 6 then
            (if v < 0 then (ERROR_INVALID_SYNTAX, out) else mac_parse cs (Suc i) (-1) (out @ [of_int v]))
          else (ERROR_INVALID_SYNTAX, out))"

definition macStringToAddr :: "string \<Rightarrow> error_t \<times> u8 list" where
  "macStringToAddr str = mac_parse str 0 (-1) []"

definition hex_digit :: "nat \<Rightarrow> char" where
  "hex_digit n = char_of (if n < 10 then 48 + n else 55 + n)"

definition hex2 :: "u8 \<Rightarrow> string" where
  "hex2 b = [hex_digit (unat b div 16), hex_digit (unat b mod 16)]"

definition macAddrToString :: "MacAddr \<Rightarrow> string" where
  "macAddrToString m =
     hex2 (m ! 0) @ ''-'' @ hex2 (m ! 1) @ ''-'' @ hex2 (m ! 2) @ ''-'' @ hex2 (m ! 3) @ ''-'' @ hex2 (m ! 4) @ ''-'' @ hex2 (m ! 5)"

end
