(* ===== verification/Arp.thy ===== *)
theory Arp
  imports Ethernet Ipv4_Frag
begin

text \<open>
  Address resolution (\<open>ipv4/arp.c\<close>) and the way of an IPv4 packet to the link layer (\<open>ipv4SendPacket\<close> of
  \<open>ipv4/ipv4.c\<close>), for Ethernet interfaces without PPP and without a loopback interface, the default.
\<close>

abbreviation (input) ARP_MAX_PENDING_PACKETS :: nat where "ARP_MAX_PENDING_PACKETS \<equiv> 2"
abbreviation (input) ARP_MAX_REQUESTS :: u32 where "ARP_MAX_REQUESTS \<equiv> 3"
abbreviation (input) ARP_MAX_PROBES :: u32 where "ARP_MAX_PROBES \<equiv> 2"
abbreviation (input) ARP_REQUEST_TIMEOUT :: systime_t where "ARP_REQUEST_TIMEOUT \<equiv> 1000"
abbreviation (input) ARP_PROBE_TIMEOUT :: systime_t where "ARP_PROBE_TIMEOUT \<equiv> 60000"
abbreviation (input) ARP_REACHABLE_TIME :: systime_t where "ARP_REACHABLE_TIME \<equiv> 60000"
abbreviation (input) ARP_DELAY_FIRST_PROBE_TIME :: systime_t where "ARP_DELAY_FIRST_PROBE_TIME \<equiv> 5000"
abbreviation (input) ARP_OPCODE_ARP_REQUEST :: u16 where "ARP_OPCODE_ARP_REQUEST \<equiv> 1"
abbreviation (input) ARP_OPCODE_ARP_REPLY :: u16 where "ARP_OPCODE_ARP_REPLY \<equiv> 2"
abbreviation (input) SIZEOF_ARP_PACKET :: nat where "SIZEOF_ARP_PACKET \<equiv> 28"

section \<open>Cache entries\<close>

abbreviation arp_cache :: "link \<Rightarrow> nat \<Rightarrow> ArpCacheEntry list" where
  "arp_cache w i \<equiv> arpCache (netInterface w ! i)"

definition put_arp :: "nat \<Rightarrow> nat \<Rightarrow> (ArpCacheEntry \<Rightarrow> ArpCacheEntry) \<Rightarrow> link \<Rightarrow> link" where
  "put_arp i k f = put_interface i (\<lambda>ifc. ifc\<lparr>arpCache := (arpCache ifc)[k := f (arpCache ifc ! k)]\<rparr>)"

definition zeroArpEntry :: ArpCacheEntry where
  "zeroArpEntry = \<lparr>arpState = ARP_STATE_NONE, arpIpAddr = 0, arpMacAddr = MAC_UNSPECIFIED_ADDR, arpTimestamp = 0,
     arpTimeout = 0, arpRetransmitCount = 0, arpQueue = []\<rparr>"

definition arpInit :: "nat \<Rightarrow> link \<Rightarrow> link" where
  "arpInit i = put_interface i (\<lambda>ifc. ifc\<lparr>arpCache := replicate (length (arpCache ifc)) zeroArpEntry\<rparr>)"

definition arpFindEntry :: "nat \<Rightarrow> Ipv4Addr \<Rightarrow> link \<Rightarrow> nat option" where
  "arpFindEntry i a w = index_of (\<lambda>e. arpState e \<noteq> ARP_STATE_NONE \<and> arpIpAddr e = a) (arp_cache w i)"

fun free_queue :: "ArpQueueItem list \<Rightarrow> link \<Rightarrow> link" where
  "free_queue [] w = w"
| "free_queue (q # qs) w = free_queue qs (put_lx (\<lambda>x. bufFree x (aqAddress q) (aqBuffer q)) w)"

definition arpFlushQueuedPackets :: "nat \<Rightarrow> nat \<Rightarrow> link \<Rightarrow> link" where
  "arpFlushQueuedPackets i k w =
     (let e = arp_cache w i ! k;
          w = (if arpState e = ARP_STATE_INCOMPLETE then free_queue (arpQueue e) w else w)
      in put_arp i k (\<lambda>e. e\<lparr>arpQueue := []\<rparr>) w)"

text \<open>The frames go out in the order of the queue; the result of sending is not looked at.\<close>

fun send_queue :: "nat \<Rightarrow> MacAddr \<Rightarrow> ArpQueueItem list \<Rightarrow> link \<Rightarrow> link" where
  "send_queue i m [] w = w"
| "send_queue i m (q # qs) w =
     (let (_, b, w) = ethSendFrame i m ETH_TYPE_IPV4 (aqBuffer q) (aqOffset q) w
      in send_queue i m qs (put_lx (\<lambda>x. bufFree x (aqAddress q) b) w))"

definition arpSendQueuedPackets :: "nat \<Rightarrow> nat \<Rightarrow> link \<Rightarrow> link" where
  "arpSendQueuedPackets i k w =
     (let e = arp_cache w i ! k;
          w = (if arpState e = ARP_STATE_INCOMPLETE then send_queue i (arpMacAddr e) (arpQueue e) w else w)
      in put_arp i k (\<lambda>e. e\<lparr>arpQueue := []\<rparr>) w)"

definition arpFlushCache :: "nat \<Rightarrow> link \<Rightarrow> link" where
  "arpFlushCache i w =
     foldl (\<lambda>w k. put_arp i k (\<lambda>e. e\<lparr>arpState := ARP_STATE_NONE\<rparr>) (arpFlushQueuedPackets i k w)) w [0..<length (arp_cache w i)]"

text \<open>The oldest entry: the first of those with the greatest age at time \<open>t\<close>.\<close>

fun oldest_entry :: "systime_t \<Rightarrow> ArpCacheEntry list \<Rightarrow> nat \<Rightarrow> nat \<times> systime_t \<Rightarrow> nat" where
  "oldest_entry t [] k best = fst best"
| "oldest_entry t (e # es) k best =
     oldest_entry t es (Suc k) (if t - arpTimestamp e > t - snd best then (k, arpTimestamp e) else best)"

definition link_time :: "link \<Rightarrow> systime_t \<times> link" where
  "link_time w = (let (t, x) = osGetSystemTime (lx w) in (t, w\<lparr>lx := x\<rparr>))"

definition arpCreateEntry :: "nat \<Rightarrow> link \<Rightarrow> nat \<times> link" where
  "arpCreateEntry i w =
     (let (t, w) = link_time w
      in case index_of (\<lambda>e. arpState e = ARP_STATE_NONE) (arp_cache w i) of
           Some k \<Rightarrow> (k, put_arp i k (\<lambda>e. zeroArpEntry) w)
         | None \<Rightarrow>
             (let k = oldest_entry t (arp_cache w i) 0 (0, arpTimestamp (arp_cache w i ! 0))
              in (k, put_arp i k (\<lambda>e. zeroArpEntry) (arpFlushQueuedPackets i k w))))"

section \<open>Sending ARP packets\<close>

definition arp_packet :: "u16 \<Rightarrow> MacAddr \<Rightarrow> Ipv4Addr \<Rightarrow> MacAddr \<Rightarrow> Ipv4Addr \<Rightarrow> u8 list" where
  "arp_packet op sha spa tha tpa =
     be16 0x0001 @ be16 0x0800 @ [6, 4] @ be16 op @ sha @ ip_bytes spa @ tha @ ip_bytes tpa"

text \<open>Allocating a buffer, filling it with an ARP packet, sending it and releasing the buffer.\<close>

definition arp_transmit :: "nat \<Rightarrow> MacAddr \<Rightarrow> u8 list \<Rightarrow> link \<Rightarrow> error_t \<times> link" where
  "arp_transmit i dest packet w =
     (case ethAllocBuffer (lx w) SIZEOF_ARP_PACKET of
        (None, x) \<Rightarrow> (ERROR_OUT_OF_MEMORY, w\<lparr>lx := x\<rparr>)
      | (Some (a, b, off), x) \<Rightarrow>
          (let (e, b, w) = ethSendFrame i dest ETH_TYPE_ARP (netBufferPoke b off packet) off (w\<lparr>lx := x\<rparr>)
           in (e, put_lx (\<lambda>x. bufFree x a b) w)))"

definition arpSendProbe :: "nat \<Rightarrow> Ipv4Addr \<Rightarrow> link \<Rightarrow> error_t \<times> link" where
  "arpSendProbe i target w =
     arp_transmit i MAC_BROADCAST_ADDR
       (arp_packet ARP_OPCODE_ARP_REQUEST (macAddr (netInterface w ! i)) IPV4_UNSPECIFIED_ADDR MAC_UNSPECIFIED_ADDR target) w"

definition arpSendRequest :: "nat \<Rightarrow> Ipv4Addr \<Rightarrow> MacAddr \<Rightarrow> link \<Rightarrow> error_t \<times> link" where
  "arpSendRequest i target dest w =
     (case ipv4SelectSourceAddr (netInterface w) (Some i) target of
        (NO_ERROR, Some j, Some sender) \<Rightarrow>
          arp_transmit j dest
            (arp_packet ARP_OPCODE_ARP_REQUEST (macAddr (netInterface w ! i)) sender MAC_UNSPECIFIED_ADDR target) w
      | (e, _, _) \<Rightarrow> (e, w))"

definition arpSendReply :: "nat \<Rightarrow> Ipv4Addr \<Rightarrow> Ipv4Addr \<Rightarrow> MacAddr \<Rightarrow> link \<Rightarrow> error_t \<times> link" where
  "arpSendReply i sender target targetMac w =
     arp_transmit i targetMac
       (arp_packet ARP_OPCODE_ARP_REPLY (macAddr (netInterface w ! i)) sender targetMac target) w"

section \<open>Resolution\<close>

definition arpResolve :: "nat \<Rightarrow> Ipv4Addr \<Rightarrow> link \<Rightarrow> error_t \<times> MacAddr option \<times> link" where
  "arpResolve i a w =
     (case arpFindEntry i a w of
        Some k \<Rightarrow>
          (let e = arp_cache w i ! k
           in if arpState e = ARP_STATE_INCOMPLETE then (ERROR_IN_PROGRESS, None, w)
              else if arpState e = ARP_STATE_STALE then
                let (t, w) = link_time w
                in (NO_ERROR, Some (arpMacAddr e),
                    put_arp i k (\<lambda>e. e\<lparr>arpTimestamp := t, arpTimeout := ARP_DELAY_FIRST_PROBE_TIME, arpState := ARP_STATE_DELAY\<rparr>) w)
              else (NO_ERROR, Some (arpMacAddr e), w))
      | None \<Rightarrow>
          (let (k, w) = arpCreateEntry i w;
               w = put_arp i k (\<lambda>e. e\<lparr>arpIpAddr := a, arpRetransmitCount := 0, arpQueue := []\<rparr>) w;
               (_, w) = arpSendRequest i a MAC_BROADCAST_ADDR w;
               (t, w) = link_time w
           in (ERROR_IN_PROGRESS, None,
               put_arp i k (\<lambda>e. e\<lparr>arpTimestamp := t, arpTimeout := ARP_REQUEST_TIMEOUT, arpState := ARP_STATE_INCOMPLETE\<rparr>) w)))"

text \<open>When the queue is full, the oldest packet makes room for the new one, also if there is no memory for that one.\<close>

definition arpEnqueuePacket :: "nat \<Rightarrow> Ipv4Addr \<Rightarrow> NetBuffer \<Rightarrow> nat \<Rightarrow> NetAncillaryData \<Rightarrow> link \<Rightarrow> error_t \<times> link" where
  "arpEnqueuePacket i a b off anc w =
     (let len = netBufferGetLength b
      in case arpFindEntry i a w of
           None \<Rightarrow> (ERROR_NOT_FOUND, w)
         | Some k \<Rightarrow>
             (let e = arp_cache w i ! k
              in if arpState e \<noteq> ARP_STATE_INCOMPLETE then (ERROR_UNEXPECTED_STATE, w)
                 else
                   let w = (if length (arpQueue e) \<ge> ARP_MAX_PENDING_PACKETS then
                              let q = arpQueue e ! 0
                              in put_arp i k (\<lambda>e. e\<lparr>arpQueue := tl (arpQueue e)\<rparr>) (put_lx (\<lambda>x. bufFree x (aqAddress q) (aqBuffer q)) w)
                            else w)
                   in case bufAlloc (lx w) len of
                        (None, x) \<Rightarrow> (ERROR_OUT_OF_MEMORY, w\<lparr>lx := x\<rparr>)
                      | (Some (adr, p), x) \<Rightarrow>
                          (NO_ERROR, put_arp i k (\<lambda>e. e\<lparr>arpQueue := arpQueue e @
                             [\<lparr>aqAddress = adr, aqBuffer = snd (netBufferCopy p 0 b 0 len), aqOffset = off, aqAncillary = anc\<rparr>]\<rparr>)
                             (w\<lparr>lx := x\<rparr>))))"

section \<open>The timer\<close>

definition arp_due :: "systime_t \<Rightarrow> ArpCacheEntry \<Rightarrow> bool" where
  "arp_due t e \<longleftrightarrow> timeCompare t (arpTimestamp e + arpTimeout e) \<ge> 0"

definition arp_tick_entry :: "nat \<Rightarrow> systime_t \<Rightarrow> nat \<Rightarrow> link \<Rightarrow> link" where
  "arp_tick_entry i t k w =
     (let e = arp_cache w i ! k
      in if arpState e = ARP_STATE_INCOMPLETE then
           (if arp_due t e then
              let w = put_arp i k (\<lambda>e. e\<lparr>arpRetransmitCount := arpRetransmitCount e + 1\<rparr>) w
              in if arpRetransmitCount e + 1 < ARP_MAX_REQUESTS then
                   put_arp i k (\<lambda>e. e\<lparr>arpTimestamp := t, arpTimeout := ARP_REQUEST_TIMEOUT\<rparr>)
                     (snd (arpSendRequest i (arpIpAddr e) MAC_BROADCAST_ADDR w))
                 else put_arp i k (\<lambda>e. e\<lparr>arpState := ARP_STATE_NONE\<rparr>) (arpFlushQueuedPackets i k w)
            else w)
         else if arpState e = ARP_STATE_REACHABLE then
           (if arp_due t e then
              let (t', w) = link_time w in put_arp i k (\<lambda>e. e\<lparr>arpTimestamp := t', arpState := ARP_STATE_STALE\<rparr>) w
            else w)
         else if arpState e = ARP_STATE_DELAY then
           (if arp_due t e then
              put_arp i k (\<lambda>e. e\<lparr>arpTimestamp := t, arpTimeout := ARP_PROBE_TIMEOUT, arpState := ARP_STATE_PROBE\<rparr>)
                (snd (arpSendRequest i (arpIpAddr e) (arpMacAddr e) w))
            else w)
         else if arpState e = ARP_STATE_PROBE then
           (if arp_due t e then
              let w = put_arp i k (\<lambda>e. e\<lparr>arpRetransmitCount := arpRetransmitCount e + 1\<rparr>) w
              in if arpRetransmitCount e + 1 < ARP_MAX_PROBES then
                   put_arp i k (\<lambda>e. e\<lparr>arpTimestamp := t, arpTimeout := ARP_PROBE_TIMEOUT\<rparr>)
                     (snd (arpSendRequest i (arpIpAddr e) (arpMacAddr e) w))
                 else put_arp i k (\<lambda>e. e\<lparr>arpState := ARP_STATE_NONE\<rparr>) w
            else w)
         else w)"

definition arpTick :: "nat \<Rightarrow> link \<Rightarrow> link" where
  "arpTick i w =
     (let (t, w) = link_time w
      in foldl (\<lambda>w k. arp_tick_entry i t k w) w [0..<length (arp_cache w i)])"

section \<open>Incoming packets\<close>

definition arp_op :: "u8 list \<Rightarrow> u16" where "arp_op p = of_be16 (p ! 6) (p ! 7)"
definition arp_sha :: "u8 list \<Rightarrow> MacAddr" where "arp_sha p = take 6 (drop 8 p)"
definition arp_spa :: "u8 list \<Rightarrow> Ipv4Addr" where "arp_spa p = ip_addr (take 4 (drop 14 p))"
definition arp_tpa :: "u8 list \<Rightarrow> Ipv4Addr" where "arp_tpa p = ip_addr (take 4 (drop 24 p))"

definition arpProcessRequest :: "nat \<Rightarrow> u8 list \<Rightarrow> link \<Rightarrow> link" where
  "arpProcessRequest i p w =
     (let ifc = netInterface w ! i
      in if ipv4IsBroadcastAddr ifc (arp_spa p) \<or> is_multicast (arp_spa p) then w
         else
           let w' = put_ipv4 i (\<lambda>c. c\<lparr>addrList := map (\<lambda>e.
                  if aeState e = IPV4_ADDR_STATE_TENTATIVE \<and> aeAddr e = arp_tpa p \<and> arp_spa p = IPV4_UNSPECIFIED_ADDR \<and>
                     arp_sha p \<noteq> macAddr ifc then e\<lparr>conflict := True\<rparr> else e) (addrList c)\<rparr>) w
           in if ipv4IsTentativeAddr ifc (arp_tpa p) then w'
              else snd (arpSendReply i (arp_tpa p) (arp_spa p) (arp_sha p) w'))"

definition arpProcessReply :: "nat \<Rightarrow> u8 list \<Rightarrow> link \<Rightarrow> link" where
  "arpProcessReply i p w =
     (let ifc = netInterface w ! i
      in if arp_spa p = IPV4_UNSPECIFIED_ADDR \<or> ipv4IsBroadcastAddr ifc (arp_spa p) \<or> is_multicast (arp_spa p) \<or>
            arp_sha p = MAC_UNSPECIFIED_ADDR \<or> arp_sha p = MAC_BROADCAST_ADDR \<or> macIsMulticastAddr (arp_sha p) \<or>
            ipv4IsTentativeAddr ifc (arp_tpa p)
         then w
         else case arpFindEntry i (arp_spa p) w of
           None \<Rightarrow> w
         | Some k \<Rightarrow>
             (let e = arp_cache w i ! k
              in if arpState e = ARP_STATE_INCOMPLETE then
                   let w = put_arp i k (\<lambda>e. e\<lparr>arpMacAddr := arp_sha p\<rparr>) w;
                       w = arpSendQueuedPackets i k w;
                       (t, w) = link_time w
                   in put_arp i k (\<lambda>e. e\<lparr>arpTimestamp := t, arpTimeout := ARP_REACHABLE_TIME, arpState := ARP_STATE_REACHABLE\<rparr>) w
                 else if arpState e = ARP_STATE_REACHABLE then
                   (if arp_sha p \<noteq> arpMacAddr e then put_arp i k (\<lambda>e. e\<lparr>arpState := ARP_STATE_STALE\<rparr>) w else w)
                 else if arpState e = ARP_STATE_PROBE then
                   let (t, w) = link_time w
                   in put_arp i k (\<lambda>e. e\<lparr>arpIpAddr := arp_spa p, arpMacAddr := arp_sha p, arpTimestamp := t,
                        arpTimeout := ARP_REACHABLE_TIME, arpState := ARP_STATE_REACHABLE\<rparr>) w
                 else w))"

text \<open>
  The loop over the addresses of the interface ends at the first address in conflict with the sender: a tentative
  address with the sender's address, or any address with it when the sender has another MAC address.
\<close>

definition arp_conflict :: "MacAddr \<Rightarrow> u8 list \<Rightarrow> Ipv4AddrEntry \<Rightarrow> bool" where
  "arp_conflict own p e \<longleftrightarrow>
     aeState e \<noteq> IPV4_ADDR_STATE_INVALID \<and> aeAddr e = arp_spa p \<and>
     (aeState e = IPV4_ADDR_STATE_TENTATIVE \<or> arp_sha p \<noteq> own)"

definition arpProcessPacket :: "nat \<Rightarrow> u8 list \<Rightarrow> link \<Rightarrow> link" where
  "arpProcessPacket i p w =
     (let ifc = netInterface w ! i; es = addrList (ipv4Context ifc)
      in if length p < SIZEOF_ARP_PACKET \<or> of_be16 (p ! 0) (p ! 1) \<noteq> 0x0001 \<or> of_be16 (p ! 2) (p ! 3) \<noteq> 0x0800 \<or>
            p ! 4 \<noteq> 6 \<or> p ! 5 \<noteq> 4 then w
         else case index_of (arp_conflict (macAddr ifc) p) es of
           Some k \<Rightarrow> put_addr i k (\<lambda>e. e\<lparr>conflict := True\<rparr>) w
         | None \<Rightarrow>
             if \<exists>e \<in> set es. aeState e \<noteq> IPV4_ADDR_STATE_INVALID \<and> aeAddr e = arp_tpa p then
               (if arp_op p = ARP_OPCODE_ARP_REQUEST then arpProcessRequest i p w
                else if arp_op p = ARP_OPCODE_ARP_REPLY then arpProcessReply i p w
                else w)
             else w)"

section \<open>The way of an IPv4 packet\<close>

text \<open>The next hop: the MAC address or the address to resolve.\<close>

datatype hop = Hop_Mac MacAddr | Hop_Resolve Ipv4Addr | Hop_None

definition next_hop :: "NetInterface \<Rightarrow> Ipv4Addr \<Rightarrow> Ipv4Addr \<Rightarrow> NetAncillaryData \<Rightarrow> hop" where
  "next_hop ifc src dest anc =
     (if ipv4IsBroadcastAddr ifc dest then Hop_Mac MAC_BROADCAST_ADDR
      else if is_multicast dest then Hop_Mac (the (snd (ipv4MapMulticastAddrToMac dest)))
      else if ipv4IsLinkLocalAddr src \<or> ipv4IsLinkLocalAddr dest then Hop_Resolve dest
      else if ipv4IsOnLink ifc dest then Hop_Resolve dest
      else if dontRoute anc then Hop_Resolve dest
      else case index_of (\<lambda>e. aeState e = IPV4_ADDR_STATE_VALID \<and> defaultGateway e \<noteq> IPV4_UNSPECIFIED_ADDR \<and> aeAddr e = src)
                  (addrList (ipv4Context ifc)) of
             Some k \<Rightarrow> Hop_Resolve (defaultGateway (addrList (ipv4Context ifc) ! k))
           | None \<Rightarrow> Hop_None)"

text \<open>The buffer holds the packet from the offset on.\<close>

definition ipv4_transmit :: "nat \<Rightarrow> Ipv4Addr \<Rightarrow> Ipv4Addr \<Rightarrow> NetBuffer \<Rightarrow> nat \<Rightarrow> NetAncillaryData \<Rightarrow> link \<Rightarrow> error_t \<times> NetBuffer \<times> link" where
  "ipv4_transmit i src dest b off anc w =
     (case nicDriver (netInterface w ! i) of
        None \<Rightarrow> (ERROR_INVALID_INTERFACE, b, w)
      | Some d \<Rightarrow>
          if nicType d \<noteq> NIC_TYPE_ETHERNET then (ERROR_INVALID_INTERFACE, b, w)
          else case next_hop (netInterface w ! i) src dest anc of
            Hop_None \<Rightarrow> (ERROR_NO_ROUTE, b, w)
          | Hop_Mac m \<Rightarrow> ethSendFrame i m ETH_TYPE_IPV4 b off w
          | Hop_Resolve a \<Rightarrow>
              (case arpResolve i a w of
                 (NO_ERROR, Some m, w) \<Rightarrow> ethSendFrame i m ETH_TYPE_IPV4 b off w
               | (ERROR_IN_PROGRESS, _, w) \<Rightarrow> (let (e, w) = arpEnqueuePacket i a b off anc w in (e, b, w))
               | (e, _, w) \<Rightarrow> (e, b, w)))"

definition ipv4SendPacketTo ::
  "nat \<Rightarrow> IpPseudoHeader \<Rightarrow> u16 \<Rightarrow> u16 \<Rightarrow> NetBuffer \<Rightarrow> nat \<Rightarrow> NetAncillaryData \<Rightarrow> link \<Rightarrow> error_t \<times> NetBuffer \<times> link" where
  "ipv4SendPacketTo i ph fragId fragOffset b off anc w =
     (if off < 20 then (ERROR_INVALID_PARAMETER, b, w)
      else
        let off = off - 20;
            len = netBufferGetLength b - off;
            b = netBufferPoke b off (ip4_header ph fragId fragOffset (anTtl anc) len);
            b = netBufferPoke b (off + 10) (le16 (ipCalcChecksumEx b off 20));
            src = ip_addr (phSrcAddr ph); dest = ip_addr (phDestAddr ph);
            e = ipv4CheckSourceAddr (netInterface w ! i) src
        in if e \<noteq> NO_ERROR then (e, b, w)
           else if dest = IPV4_UNSPECIFIED_ADDR then (ERROR_INVALID_ADDRESS, b, w)
           else if ipv4IsLocalHostAddr (netInterface w) dest then (ERROR_NO_ROUTE, b, w)
           else ipv4_transmit i src dest b off anc w)"

end
