(* ===== verification/Multicast_Filter.thy ===== *)
theory Multicast_Filter
  imports Ethernet "HOL-Library.Multiset"
begin

text \<open>
  The two filters for multicast packets, the MAC filter and the table of IPv4 groups. Both are tables of counted
  references: the locale \<open>counted_table\<close> has the bag such a table represents and the effect of counting up, counting
  down and adding an entry; it is interpreted on the entries of both tables.
\<close>

section \<open>Tables of counted references\<close>

text \<open>
  A table of entries with an address and a reference count represents the bag of its addresses. An address
  is in one valid entry at most.
\<close>

locale counted_table =
  fixes key :: "'e \<Rightarrow> 'a" and refs :: "'e \<Rightarrow> u32"
begin

definition bag :: "'e list \<Rightarrow> 'a multiset" where
  "bag t = sum_list (map (\<lambda>e. replicate_mset (unat (refs e)) (key e)) t)"

definition wf :: "'e list \<Rightarrow> bool" where
  "wf t \<longleftrightarrow> (\<forall>j < length t. \<forall>k < length t. refs (t ! j) > 0 \<and> refs (t ! k) > 0 \<and> key (t ! j) = key (t ! k) \<longrightarrow> j = k)"

lemma in_bag: "m \<in># bag t \<longleftrightarrow> (\<exists>e \<in> set t. refs e > 0 \<and> key e = m)"
proof -
  have "unat (refs e) = 0 \<longleftrightarrow> \<not> refs e > 0" for e by (simp add: unat_eq_zero word_neq_0_conv [symmetric])
  then show ?thesis by (auto simp: bag_def)
qed

lemma bag_update:
  "k < length t \<Longrightarrow> bag (t[k := e]) + replicate_mset (unat (refs (t ! k))) (key (t ! k)) = bag t + replicate_mset (unat (refs e)) (key e)"
proof (induction t arbitrary: k)
  case (Cons x t)
  then show ?case by (cases k) (auto simp: bag_def ac_simps)
qed simp

lemma find_key:
  assumes "index_of (\<lambda>e. refs e > 0 \<and> key e = m) t = r"
  shows "r = None \<Longrightarrow> m \<notin># bag t" and "r = Some k \<Longrightarrow> k < length t \<and> refs (t ! k) > 0 \<and> key (t ! k) = m \<and> m \<in># bag t"
  using assms index_of_None [of "\<lambda>e. refs e > 0 \<and> key e = m" t] index_of_Some [of "\<lambda>e. refs e > 0 \<and> key e = m" t]
  by (auto simp: in_bag)

lemma count_entry: "wf t \<Longrightarrow> k < length t \<Longrightarrow> refs (t ! k) > 0 \<Longrightarrow> count (bag t) (key (t ! k)) = unat (refs (t ! k))"
proof -
  assume a: "wf t" "k < length t" "refs (t ! k) > 0"
  define e where "e = t ! k"
  have b: "bag t = replicate_mset (unat (refs e)) (key e) + bag (take k t) + bag (drop (Suc k) t)"
    unfolding e_def using a(2) by (subst id_take_nth_drop [OF a(2)]) (simp add: bag_def ac_simps)
  have x: "x \<noteq> k \<Longrightarrow> x < length t \<Longrightarrow> refs (t ! x) > 0 \<Longrightarrow> key (t ! x) \<noteq> key e" for x using a by (auto simp: wf_def e_def)
  have "key e \<notin># bag (take k t)"
  proof
    assume "key e \<in># bag (take k t)"
    then obtain j where "j < k" "refs (t ! j) > 0" "key (t ! j) = key e" using a(2) by (auto simp: in_bag in_set_conv_nth)
    with x [of j] a(2) show False by simp
  qed
  moreover have "key e \<notin># bag (drop (Suc k) t)"
  proof
    assume "key e \<in># bag (drop (Suc k) t)"
    then obtain j where "Suc k + j < length t" "refs (t ! (Suc k + j)) > 0" "key (t ! (Suc k + j)) = key e"
      using a(2) by (auto simp: in_bag in_set_conv_nth less_diff_conv add.commute)
    with x [of "Suc k + j"] show False by simp
  qed
  ultimately show ?thesis unfolding b e_def [symmetric] by (simp add: not_in_iff)
qed

lemma wf_update:
  assumes "wf t" and "\<And>j. j < length t \<Longrightarrow> j \<noteq> k \<Longrightarrow> refs (t ! j) > 0 \<Longrightarrow> refs e > 0 \<Longrightarrow> key (t ! j) \<noteq> key e"
  shows "wf (t[k := e])"
  unfolding wf_def
proof (intro allI impI)
  fix i j
  assume i: "i < length (t[k := e])" "j < length (t[k := e])"
    and h: "refs (t[k := e] ! i) > 0 \<and> refs (t[k := e] ! j) > 0 \<and> key (t[k := e] ! i) = key (t[k := e] ! j)"
  show "i = j"
  proof (cases "i = k \<or> j = k")
    case True
    then show ?thesis using i h assms(2) [of i] assms(2) [of j] by (auto simp: nth_list_update split: if_splits)
  next
    case False
    then show ?thesis using i h assms(1) by (auto simp: wf_def)
  qed
qed

lemma other_key: "wf t \<Longrightarrow> k < length t \<Longrightarrow> refs (t ! k) > 0 \<Longrightarrow> j < length t \<Longrightarrow> j \<noteq> k \<Longrightarrow> refs (t ! j) > 0 \<Longrightarrow> key (t ! j) \<noteq> key (t ! k)"
  by (auto simp: wf_def)

lemma increment:
  assumes "wf t" and "k < length t" and "refs (t ! k) > 0" and "size (bag t) < 2 ^ 32 - 1"
    and "key e = key (t ! k)" and "refs e = refs (t ! k) + 1"
  shows "bag (t[k := e]) = add_mset (key e) (bag t)" and "wf (t[k := e])"
proof -
  have "unat (refs (t ! k)) < 2 ^ 32 - 1"
    using count_entry [OF assms(1-3)] count_le_size [of "bag t" "key (t ! k)"] assms(4) by simp
  then have n: "unat (refs e) = Suc (unat (refs (t ! k)))" unfolding assms(6) by (simp add: unat_word_ariths)
  from bag_update [OF assms(2), of e] show "bag (t[k := e]) = add_mset (key e) (bag t)"
    unfolding n by (simp add: assms(5))
  show "wf (t[k := e])" using wf_update [OF assms(1)] other_key [OF assms(1-3)] assms(5) by metis
qed

lemma decrement:
  assumes "wf t" and "k < length t" and "refs (t ! k) > 0"
    and "refs e = refs (t ! k) - 1" and "refs e > 0 \<longrightarrow> key e = key (t ! k)"
  shows "bag (t[k := e]) = bag t - {#key (t ! k)#}" and "wf (t[k := e])"
proof -
  have n: "unat (refs (t ! k)) = Suc (unat (refs e))"
    using assms(3) unfolding assms(4) by (simp add: unat_minus_one unat_gt_0)
  have r: "replicate_mset (unat (refs e)) (key e) = replicate_mset (unat (refs e)) (key (t ! k))"
    using assms(5) by (cases "refs e = 0") (auto simp: word_gt_0)
  from bag_update [OF assms(2), of e] have "add_mset (key (t ! k)) (bag (t[k := e])) = bag t" unfolding r n by simp
  then show "bag (t[k := e]) = bag t - {#key (t ! k)#}" by (metis add_mset_remove_trivial)
  show "wf (t[k := e])" using wf_update [OF assms(1)] other_key [OF assms(1-3)] assms(5) by metis
qed

lemma insert_new:
  assumes "wf t" and "k < length t" and "\<not> refs (t ! k) > 0" and "key e \<notin># bag t" and "refs e = 1"
  shows "bag (t[k := e]) = add_mset (key e) (bag t)" and "wf (t[k := e])"
proof -
  have "unat (refs (t ! k)) = 0" using assms(3) by (simp add: unat_eq_zero word_gt_0)
  with bag_update [OF assms(2), of e] assms(5) show "bag (t[k := e]) = add_mset (key e) (bag t)" by simp
  have "\<not> (refs (t ! j) > 0 \<and> key (t ! j) = key e)" if "j < length t" for j using assms(4) that by (auto simp: in_bag)
  then show "wf (t[k := e])" using wf_update [OF assms(1)] by metis
qed

lemma full_table:
  assumes "wf t"
  shows "index_of (\<lambda>e. \<not> refs e > 0) t = None \<longleftrightarrow> card (set_mset (bag t)) = length t"
proof -
  let ?V = "{k. k < length t \<and> refs (t ! k) > 0}"
  have "set_mset (bag t) = (\<lambda>k. key (t ! k)) ` ?V" 
  proof (rule set_eqI)
    fix m
    have "m \<in># bag t \<longleftrightarrow> (\<exists>k < length t. refs (t ! k) > 0 \<and> key (t ! k) = m)" unfolding in_bag by (metis in_set_conv_nth)
    then show "m \<in># bag t \<longleftrightarrow> m \<in> (\<lambda>k. key (t ! k)) ` ?V" by auto
  qed
  moreover have "inj_on (\<lambda>k. key (t ! k)) ?V" 
    by (rule inj_onI) (use assms in \<open>simp add: wf_def\<close>)
  ultimately have c: "card (set_mset (bag t)) = card ?V" by (simp add: card_image)
  have "index_of (\<lambda>e. \<not> refs e > 0) t = None \<longleftrightarrow> ?V = {..<length t}"
    unfolding index_of_None all_set_conv_all_nth by auto
  also have "\<dots> \<longleftrightarrow> card ?V = length t"
  proof
    assume e: "card ?V = length t"
    have "?V \<subseteq> {..<length t}" by auto
    from card_subset_eq [OF _ this] e show "?V = {..<length t}" by simp
  qed simp
  finally show ?thesis using c by simp
qed

end

interpretation mac: counted_table mfAddr mfRefCount .
interpretation grp: counted_table feAddr feRefCount .

section \<open>The MAC filter\<close>

lemma netInterface_updates [simp]:
  "length (netInterface (put_interface i f w)) = length (netInterface w)"
  "i < length (netInterface w) \<Longrightarrow> netInterface (put_interface i f w) ! i = f (netInterface w ! i)"
  "netInterface (put_lx g w) = netInterface w"
  by (simp_all add: put_interface_def put_lx_def)

lemma nicUpdateMacAddrFilter_keeps [simp]: "netInterface (snd (nicUpdateMacAddrFilter i w)) = netInterface w"
  by (simp add: nicUpdateMacAddrFilter_def)

lemma put_filter_simps [simp]:
  "length (netInterface (put_filter i k f w)) = length (netInterface w)"
  "i < length (netInterface w) \<Longrightarrow> mac_filter (put_filter i k f w) i = (mac_filter w i)[k := f (mac_filter w i ! k)]"
  "i < length (netInterface w) \<Longrightarrow> ipv4Context (netInterface (put_filter i k f w) ! i) = ipv4Context (netInterface w ! i)"
  "i < length (netInterface w) \<Longrightarrow> macAddr (netInterface (put_filter i k f w) ! i) = macAddr (netInterface w ! i)"
  by (simp_all add: put_filter_def)

lemma put_group_simps [simp]:
  "length (netInterface (put_group i k f w)) = length (netInterface w)"
  "i < length (netInterface w) \<Longrightarrow> groups (put_group i k f w) i = (groups w i)[k := f (groups w i ! k)]"
  "i < length (netInterface w) \<Longrightarrow> mac_filter (put_group i k f w) i = mac_filter w i"
  "i < length (netInterface w) \<Longrightarrow> macAddr (netInterface (put_group i k f w) ! i) = macAddr (netInterface w ! i)"
  "i < length (netInterface w) \<Longrightarrow> addrList (ipv4Context (netInterface (put_group i k f w) ! i)) = addrList (ipv4Context (netInterface w ! i))"
  by (simp_all add: put_group_def put_ipv4_def)

text \<open>What an operation leaves alone: everything but the MAC filter of the interface.\<close>

definition same_but_filter :: "nat \<Rightarrow> link \<Rightarrow> link \<Rightarrow> bool" where
  "same_but_filter i w w' \<longleftrightarrow> length (netInterface w') = length (netInterface w) \<and>
     ipv4Context (netInterface w' ! i) = ipv4Context (netInterface w ! i) \<and> macAddr (netInterface w' ! i) = macAddr (netInterface w ! i)"

lemma ethAcceptMacAddr_bag:
  assumes i: "i < length (netInterface w)" and wf: "mac.wf (mac_filter w i)" and sz: "size (mac.bag (mac_filter w i)) < 2 ^ 32 - 1"
    and e: "ethAcceptMacAddr i m w = (e, w')"
  shows "if m \<in># mac.bag (mac_filter w i) \<or> card (set_mset (mac.bag (mac_filter w i))) < length (mac_filter w i)
    then e = NO_ERROR \<and> same_but_filter i w w' \<and> mac.wf (mac_filter w' i) \<and> length (mac_filter w' i) = length (mac_filter w i) \<and>
      mac.bag (mac_filter w' i) = add_mset m (mac.bag (mac_filter w i))
    else e = ERROR_FAILURE \<and> w' = w"
proof (cases "index_of (\<lambda>e. mfRefCount e > 0 \<and> mfAddr e = m) (mac_filter w i)")
  case (Some k)
  note k = mac.find_key(2) [OF Some refl]
  have "w' = put_filter i k (\<lambda>e. e\<lparr>mfRefCount := mfRefCount e + 1\<rparr>) w" "e = NO_ERROR"
    using e Some by (simp_all add: ethAcceptMacAddr_def)
  then show ?thesis using i k mac.increment [OF wf _ _ sz, of k "(mac_filter w i ! k)\<lparr>mfRefCount := mfRefCount (mac_filter w i ! k) + 1\<rparr>"]
    by (simp add: same_but_filter_def)
next
  case None
  note n = mac.find_key(1) [OF None refl]
  show ?thesis
  proof (cases "index_of (\<lambda>e. \<not> mfRefCount e > 0) (mac_filter w i)")
    case f: None
    with n mac.full_table [OF wf] e None show ?thesis by (simp add: ethAcceptMacAddr_def)
  next
    case (Some k)
    note k = index_of_Some [OF Some]
    have c: "card (set_mset (mac.bag (mac_filter w i))) \<noteq> length (mac_filter w i)" using mac.full_table [OF wf] Some by simp
    have "set_mset (mac.bag (mac_filter w i)) \<subseteq> mfAddr ` set (mac_filter w i)" by (auto simp: mac.in_bag)
    then have "card (set_mset (mac.bag (mac_filter w i))) \<le> length (mac_filter w i)"
      by (meson card_image_le card_length card_mono finite_imageI finite_set le_trans)
    with c have lt: "card (set_mset (mac.bag (mac_filter w i))) < length (mac_filter w i)" by simp
    have w': "w' = put_filter i k (\<lambda>e. e\<lparr>addFlag := False\<rparr>) (snd (nicUpdateMacAddrFilter i
        (put_filter i k (\<lambda>e. e\<lparr>mfAddr := m, mfRefCount := 1, addFlag := True, deleteFlag := False\<rparr>) w)))" "e = NO_ERROR"
      using e None Some by (auto simp: ethAcceptMacAddr_def split_beta Let_def)
    let ?e = "(mac_filter w i ! k)\<lparr>mfAddr := m, mfRefCount := 1, deleteFlag := False, addFlag := False\<rparr>"
    have "mac_filter w' i = (mac_filter w i)[k := ?e]" using i k by (simp add: w')
    then show ?thesis using w' i k lt n mac.insert_new [OF wf, of k ?e] by (simp add: same_but_filter_def)
  qed
qed

lemma ethDropMacAddr_bag:
  assumes i: "i < length (netInterface w)" and wf: "mac.wf (mac_filter w i)" and m: "m \<in># mac.bag (mac_filter w i)"
    and e: "ethDropMacAddr i m w = (e, w')"
  shows "e = NO_ERROR \<and> same_but_filter i w w' \<and> mac.wf (mac_filter w' i) \<and> length (mac_filter w' i) = length (mac_filter w i) \<and>
    mac.bag (mac_filter w' i) = mac.bag (mac_filter w i) - {#m#}"
proof (cases "index_of (\<lambda>e. mfRefCount e > 0 \<and> mfAddr e = m) (mac_filter w i)")
  case None
  from mac.find_key(1) [OF None refl] m show ?thesis by simp
next
  case (Some k)
  note k = mac.find_key(2) [OF Some refl]
  let ?r = "mfRefCount (mac_filter w i ! k) - 1"
  show ?thesis
  proof (cases "?r = 0")
    case True
    let ?e = "(mac_filter w i ! k)\<lparr>mfRefCount := ?r, deleteFlag := False, mfAddr := MAC_UNSPECIFIED_ADDR\<rparr>"
    have w': "w' = put_filter i k (\<lambda>e. e\<lparr>deleteFlag := False, mfAddr := MAC_UNSPECIFIED_ADDR\<rparr>) (snd (nicUpdateMacAddrFilter i
        (put_filter i k (\<lambda>e. e\<lparr>deleteFlag := True\<rparr>) (put_filter i k (\<lambda>e. e\<lparr>mfRefCount := mfRefCount e - 1\<rparr>) w))))" "e = NO_ERROR"
      using e Some i k True by (auto simp: ethDropMacAddr_def split_beta Let_def)
    have "mac_filter w' i = (mac_filter w i)[k := ?e]" using i k by (simp add: w')
    then show ?thesis using w' i k True mac.decrement [OF wf, of k ?e] by (simp add: same_but_filter_def)
  next
    case False
    let ?e = "(mac_filter w i ! k)\<lparr>mfRefCount := ?r\<rparr>"
    have w': "w' = put_filter i k (\<lambda>e. e\<lparr>mfRefCount := mfRefCount e - 1\<rparr>) w" "e = NO_ERROR"
      using e Some i k False by (auto simp: ethDropMacAddr_def split_beta Let_def)
    then show ?thesis using i k mac.decrement [OF wf, of k ?e] by (simp add: same_but_filter_def)
  qed
qed

section \<open>Multicast groups\<close>

definition mac_of :: "Ipv4Addr \<Rightarrow> MacAddr" where
  "mac_of g = the (snd (ipv4MapMulticastAddrToMac g))"

datatype group_op = Join Ipv4Addr | Leave Ipv4Addr

definition group_run :: "nat \<Rightarrow> group_op list \<Rightarrow> link \<Rightarrow> link" where
  "group_run i ops w = foldl (\<lambda>w op. case op of Join g \<Rightarrow> snd (ipv4JoinMulticastGroup i g w) | Leave g \<Rightarrow> snd (ipv4LeaveMulticastGroup i g w)) w ops"

text \<open>
  What the operations mean: the bag of joined groups. A group is joined when it was already, or when there is room for
  it among \<open>cap\<close> groups and for its MAC address, which other groups may share, among \<open>mcap\<close> addresses.
\<close>

fun group_step :: "nat \<Rightarrow> nat \<Rightarrow> Ipv4Addr multiset \<Rightarrow> group_op \<Rightarrow> Ipv4Addr multiset" where
  "group_step cap mcap G (Join g) =
     (if is_multicast g \<and> (g \<in># G \<or> card (set_mset G) < cap \<and>
          (mac_of g \<in> mac_of ` set_mset G \<or> card (mac_of ` set_mset G) < mcap))
      then add_mset g G else G)"
| "group_step cap mcap G (Leave g) = G - {#g#}"

text \<open>The tables of an interface represent the bag \<open>G\<close>; the MAC address of a group is counted once.\<close>

definition joined :: "MacAddr \<Rightarrow> nat \<Rightarrow> nat \<Rightarrow> nat \<Rightarrow> link \<Rightarrow> Ipv4Addr multiset \<Rightarrow> bool" where
  "joined own i cap mcap w G \<longleftrightarrow>
     i < length (netInterface w) \<and> macAddr (netInterface w ! i) = own \<and> length (groups w i) = cap \<and> length (mac_filter w i) = mcap \<and>
     grp.wf (groups w i) \<and> grp.bag (groups w i) = G \<and> mac.wf (mac_filter w i) \<and>
     mac.bag (mac_filter w i) = image_mset mac_of (mset_set (set_mset G)) \<and> (\<forall>g \<in># G. is_multicast g)"

lemma card_le_size: "card (set_mset G) \<le> size G"
  by (induction G) (auto intro: le_trans [OF card_insert_le_m1] simp: card_insert_if)

lemma joined_step:
  assumes "joined own i cap mcap w G" and "size G < 2 ^ 32 - 1"
  shows "joined own i cap mcap (group_run i [op] w) (group_step cap mcap G op)"
proof (cases op)
  case (Join g)
  note j = assms(1) [unfolded joined_def]
  have ms: "size (mac.bag (mac_filter w i)) < 2 ^ 32 - 1" using j assms(2) card_le_size [of G] by simp
  have mset: "set_mset (mac.bag (mac_filter w i)) = mac_of ` set_mset G" using j by simp
  obtain e w' where e: "ipv4JoinMulticastGroup i g w = (e, w')" by fastforce
  show ?thesis
  proof (cases "is_multicast g")
    case False
    then show ?thesis using assms(1) Join by (simp add: group_run_def ipv4JoinMulticastGroup_def)
  next
    case mc: True
    show ?thesis
    proof (cases "index_of (\<lambda>e. feRefCount e > 0 \<and> feAddr e = g) (groups w i)")
      case (Some k)
      note k = grp.find_key(2) [OF Some refl]
      have gs: "size (grp.bag (groups w i)) < 2 ^ 32 - 1" using j assms(2) by simp
      have "w' = put_group i k (\<lambda>e. e\<lparr>feRefCount := feRefCount e + 1\<rparr>) w" using e mc Some by (simp add: ipv4JoinMulticastGroup_def)
      then show ?thesis
        using Join e j k mc grp.increment [of "groups w i" k "(groups w i ! k)\<lparr>feRefCount := feRefCount (groups w i ! k) + 1\<rparr>"] gs
        by (simp add: joined_def group_run_def insert_absorb)
    next
      case None
      have ng: "g \<notin># G" using grp.find_key(1) [OF None refl] j by simp
      show ?thesis
      proof (cases "index_of (\<lambda>e. \<not> feRefCount e > 0) (groups w i)")
        case f: None
        then have "card (set_mset G) = cap" using grp.full_table [of "groups w i"] j by simp
        then show ?thesis using e f None mc ng Join assms(1) by (simp add: group_run_def ipv4JoinMulticastGroup_def)
      next
        case (Some k)
        note k = index_of_Some [OF Some]
        have lt: "card (set_mset G) < cap"
        proof -
          have "set_mset G \<subseteq> feAddr ` set (groups w i)" using j by (auto simp: grp.in_bag)
          then have "card (set_mset G) \<le> cap" using j by (meson card_image_le card_length card_mono finite_imageI finite_set le_trans)
          moreover have "card (set_mset G) \<noteq> cap" using grp.full_table [of "groups w i"] j Some by simp
          ultimately show ?thesis by simp
        qed
        obtain e1 w1 where a: "ethAcceptMacAddr i (mac_of g) w = (e1, w1)" by fastforce
        note b = ethAcceptMacAddr_bag [OF _ _ ms a, unfolded mset]
        show ?thesis
        proof (cases "mac_of g \<in> mac_of ` set_mset G \<or> card (mac_of ` set_mset G) < mcap")
          case False
          then have "w' = w" using e None Some mc a b j mset by (auto simp: ipv4JoinMulticastGroup_def mac_of_def split: if_splits)
          then show ?thesis using e mc ng False Join assms(1) by (simp add: group_run_def)
        next
          case True
          let ?f = "\<lambda>e. e\<lparr>feAddr := g, feRefCount := 1\<rparr>"
          have w': "w' = put_group i k ?f w1" and b': "same_but_filter i w w1" "mac.wf (mac_filter w1 i)"
            "length (mac_filter w1 i) = mcap" "mac.bag (mac_filter w1 i) = add_mset (mac_of g) (mac.bag (mac_filter w i))"
            using e None Some mc a b j True mset by (auto simp: ipv4JoinMulticastGroup_def mac_of_def split: if_splits)
          have i1: "i < length (netInterface w1)" "groups w1 i = groups w i" "macAddr (netInterface w1 ! i) = own" using b'(1) j by (simp_all add: same_but_filter_def)
          show ?thesis using Join e w' b' i1 j k mc ng lt True grp.insert_new [of "groups w i" k "?f (groups w i ! k)"]
            by (simp add: joined_def group_run_def)
        qed
      qed
    qed
  qed
next
  case (Leave g)
  note j = assms(1) [unfolded joined_def]
  obtain e w' where e: "ipv4LeaveMulticastGroup i g w = (e, w')" by fastforce
  have mset: "set_mset (mac.bag (mac_filter w i)) = mac_of ` set_mset G" using j by simp
  show ?thesis
  proof (cases "index_of (\<lambda>e. feRefCount e > 0 \<and> feAddr e = g) (groups w i)")
    case None
    have ng: "g \<notin># G" using grp.find_key(1) [OF None refl] j by simp
    have "w' = w" using e None by (auto simp: ipv4LeaveMulticastGroup_def split: if_splits)
    then show ?thesis using e ng Leave assms(1) by (simp add: group_run_def diff_single_trivial)
  next
    case (Some k)
    note k = grp.find_key(2) [OF Some refl]
    have mc: "is_multicast g" and gG: "g \<in># G" using j k by auto
    let ?r = "feRefCount (groups w i ! k) - 1"
    let ?w = "put_group i k (\<lambda>e. e\<lparr>feRefCount := feRefCount e - 1\<rparr>) w"
    have cg: "count G g = unat (feRefCount (groups w i ! k))" using grp.count_entry [of "groups w i" k] j k by simp
    show ?thesis
    proof (cases "?r = 0")
      case False
      have "w' = ?w" using e mc Some k j False by (auto simp: ipv4LeaveMulticastGroup_def Let_def)
      moreover have "g \<in># G - {#g#}"
      proof -
        have "feRefCount (groups w i ! k) \<noteq> 1" using False by auto
        then have "unat (feRefCount (groups w i ! k)) \<noteq> 1" using word_unat_eq_iff [of "feRefCount (groups w i ! k)" 1] by simp
        then have "1 < count G g" using cg gG by (metis One_nat_def count_greater_eq_one_iff le_neq_implies_less)
        then show ?thesis by (simp add: in_diff_count)
      qed
      then have "set_mset (G - {#g#}) = set_mset G" using gG by (metis insert_DiffM insert_absorb set_mset_add_mset_insert)
      ultimately show ?thesis using Leave e j k False grp.decrement [of "groups w i" k "(groups w i ! k)\<lparr>feRefCount := ?r\<rparr>"]
        by (auto simp: joined_def group_run_def dest: in_diffD)
    next
      case True
      have i1: "i < length (netInterface ?w)" "mac_filter ?w i = mac_filter w i" using j by simp_all
      obtain e1 w1 where d: "ethDropMacAddr i (mac_of g) ?w = (e1, w1)" by fastforce
      have "mac_of g \<in># mac.bag (mac_filter ?w i)" unfolding i1 mset using gG by simp
      note b = ethDropMacAddr_bag [OF i1(1) _ this d, unfolded i1]
      have w': "w' = put_group i k (\<lambda>e. e\<lparr>feAddr := IPV4_UNSPECIFIED_ADDR\<rparr>) w1"
        using e mc Some k j True d by (auto simp: ipv4LeaveMulticastGroup_def Let_def mac_of_def split_beta)
      have "count G g = 1"
      proof -
        have "feRefCount (groups w i ! k) = 1" using True by (simp add: diff_eq_eq)
        then show ?thesis using cg by simp
      qed
      then have ng: "g \<notin># G - {#g#}" by (simp add: in_diff_count)
      have G: "G = add_mset g (G - {#g#})" using gG by simp
      have "mset_set (set_mset G) = add_mset g (mset_set (set_mset (G - {#g#})))" using ng by (subst G) simp
      then have mb: "mac.bag (mac_filter w i) - {#mac_of g#} = image_mset mac_of (mset_set (set_mset (G - {#g#})))" using j by simp
      have g1: "groups w1 i = (groups w i)[k := (groups w i ! k)\<lparr>feRefCount := ?r\<rparr>]" "i < length (netInterface w1)"
        "macAddr (netInterface w1 ! i) = own" using b j by (simp_all add: same_but_filter_def)
      let ?e = "(groups w i ! k)\<lparr>feRefCount := ?r, feAddr := IPV4_UNSPECIFIED_ADDR\<rparr>"
      have "groups w' i = (groups w i)[k := ?e]" using g1 k by (simp add: w')
      then show ?thesis using Leave e w' b mb g1(2,3) j k True grp.decrement [of "groups w i" k ?e]
        by (auto simp: joined_def group_run_def dest: in_diffD)
    qed
  qed
qed

lemma size_group_step: "size (group_step cap mcap G op) \<le> Suc (size G)"
  by (cases op) (auto simp: size_Diff_singleton_if)

lemma joined_run:
  assumes "joined own i cap mcap w {#}" and "length ops < 2 ^ 32 - 1"
  shows "joined own i cap mcap (group_run i ops w) (foldl (group_step cap mcap) {#} ops) \<and>
    size (foldl (group_step cap mcap) {#} ops) \<le> length ops"
  using assms(2)
proof (induction ops rule: rev_induct)
  case Nil
  then show ?case using assms(1) by (simp add: group_run_def)
next
  case (snoc op ops)
  let ?G = "foldl (group_step cap mcap) {#} ops"
  have "joined own i cap mcap (group_run i ops w) ?G" "size ?G < 2 ^ 32 - 1" using snoc by auto
  from joined_step [OF this, of op] size_group_step [of cap mcap ?G op] snoc show ?case by (simp add: group_run_def)
qed

lemma joined_checks:
  assumes "joined own i cap mcap w G"
  shows "g \<in># G \<Longrightarrow> ipv4CheckDestAddr (netInterface w ! i) g = NO_ERROR \<and> ethCheckDestAddr (netInterface w ! i) (mac_of g) = NO_ERROR"
    and "is_multicast g \<Longrightarrow> g \<notin># G \<Longrightarrow> \<not> ipv4IsBroadcastAddr (netInterface w ! i) g \<Longrightarrow> ipv4CheckDestAddr (netInterface w ! i) g = ERROR_INVALID_ADDRESS"
    and "m \<notin> mac_of ` set_mset G \<Longrightarrow> m \<noteq> own \<Longrightarrow> m \<noteq> MAC_BROADCAST_ADDR \<Longrightarrow>
      ethCheckDestAddr (netInterface w ! i) m = ERROR_INVALID_ADDRESS"
proof -
  have G: "(\<exists>e \<in> set (groups w i). feRefCount e > 0 \<and> feAddr e = g) \<longleftrightarrow> g \<in># G" for g
    using assms grp.in_bag [of g "groups w i"] by (simp add: joined_def)
  have M: "(\<exists>e \<in> set (mac_filter w i). mfRefCount e > 0 \<and> mfAddr e = m) \<longleftrightarrow> m \<in> mac_of ` set_mset G" for m
    using assms mac.in_bag [of m "mac_filter w i"] by (auto simp: joined_def)
  have mm: "macIsMulticastAddr (mac_of g)" if "is_multicast g" for g
    using that by (simp add: mac_of_def ipv4MapMulticastAddrToMac_def macIsMulticastAddr_def Let_def)
  have mc: "is_multicast g" if "g \<in># G" for g using that assms by (simp add: joined_def)
  show "ipv4CheckDestAddr (netInterface w ! i) g = NO_ERROR \<and> ethCheckDestAddr (netInterface w ! i) (mac_of g) = NO_ERROR"
    if "g \<in># G"
    using that mc [OF that] mm [OF mc [OF that]] G [of g] M [of "mac_of g"]
    unfolding ipv4CheckDestAddr_def ethCheckDestAddr_def by (simp add: imageI)
  show "ipv4CheckDestAddr (netInterface w ! i) g = ERROR_INVALID_ADDRESS"
    if "is_multicast g" "g \<notin># G" "\<not> ipv4IsBroadcastAddr (netInterface w ! i) g"
    using that G [of g] unfolding ipv4CheckDestAddr_def by simp
  show "ethCheckDestAddr (netInterface w ! i) m = ERROR_INVALID_ADDRESS"
    if "m \<notin> mac_of ` set_mset G" "m \<noteq> own" "m \<noteq> MAC_BROADCAST_ADDR"
    using that M [of m] assms unfolding ethCheckDestAddr_def joined_def by simp
qed

section \<open>Properties\<close>

text \<open>
  Property C15. Whatever groups an interface joins and leaves, the two filters together let in exactly the joined groups:
  a group that was joined more often than it was left passes both, any other group is rejected by the IPv4 filter, and
  a MAC address that belongs to no joined group is rejected by the MAC filter, also when groups share MAC addresses.
  The operations refine adding to and removing from a bag of groups, limited by the sizes of the tables.
\<close>

theorem multicast_groups:
  assumes "i < length (netInterface w)" and "\<forall>e \<in> set (groups w i). feRefCount e = 0" and "\<forall>e \<in> set (mac_filter w i). mfRefCount e = 0"
    and "length ops < 2 ^ 32 - 1" and "G = foldl (group_step (length (groups w i)) (length (mac_filter w i))) {#} ops"
    and "ifc = netInterface (group_run i ops w) ! i"
  shows "(\<forall>g \<in># G. ipv4CheckDestAddr ifc g = NO_ERROR \<and> ethCheckDestAddr ifc (mac_of g) = NO_ERROR) \<and>
    (\<forall>g. is_multicast g \<and> g \<notin># G \<and> \<not> ipv4IsBroadcastAddr ifc g \<longrightarrow> ipv4CheckDestAddr ifc g = ERROR_INVALID_ADDRESS) \<and>
    (\<forall>m. m \<notin> mac_of ` set_mset G \<and> m \<noteq> macAddr (netInterface w ! i) \<and> m \<noteq> MAC_BROADCAST_ADDR \<longrightarrow> ethCheckDestAddr ifc m = ERROR_INVALID_ADDRESS)"
proof -
  have b: "grp.bag (groups w i) = {#}" "mac.bag (mac_filter w i) = {#}"
    using assms(2,3) grp.in_bag [of _ "groups w i"] mac.in_bag [of _ "mac_filter w i"] by (metis all_not_in_conv less_irrefl set_mset_eq_empty_iff)+
  have "grp.wf (groups w i)" "mac.wf (mac_filter w i)" using assms(2,3) by (auto simp: grp.wf_def mac.wf_def)
  with b assms(1) have "joined (macAddr (netInterface w ! i)) i (length (groups w i)) (length (mac_filter w i)) w {#}" by (simp add: joined_def)
  from joined_checks [OF conjunct1 [OF joined_run [OF this assms(4)]], folded assms(5,6)] show ?thesis by blast
qed

definition example_link :: "NetInterface list \<Rightarrow> link" where
  "example_link ifs = \<lparr>lx = example_ctx, netInterface = ifs, txReady = (\<lambda>n. True), nicResult = (\<lambda>n. NO_ERROR),
     frames = [], filterUpdates = []\<rparr>"

theorem multicast_groups_witness:
  "\<exists>ifc. ifc = netInterface (group_run 0 [Join (IPV4_ADDR 224 1 2 3), Join (IPV4_ADDR 225 1 2 3), Leave (IPV4_ADDR 224 1 2 3)]
       (example_link [example_if [example_addr 1]])) ! 0 \<and>
     ipv4CheckDestAddr ifc (IPV4_ADDR 225 1 2 3) = NO_ERROR \<and>
     ethCheckDestAddr ifc [1, 0, 0x5E, 1, 2, 3] = NO_ERROR \<and> ethCheckDestAddr ifc [1, 0, 0x5E, 1, 2, 4] = ERROR_INVALID_ADDRESS"
proof -
  let ?w = "example_link [example_if [example_addr 1]]"
  let ?ops = "[Join (IPV4_ADDR 224 1 2 3), Join (IPV4_ADDR 225 1 2 3), Leave (IPV4_ADDR 224 1 2 3)]"
  define ifc where "ifc = netInterface (group_run 0 ?ops ?w) ! 0"
  have h: "0 < length (netInterface ?w)" "\<forall>e \<in> set (groups ?w 0). feRefCount e = 0" "\<forall>e \<in> set (mac_filter ?w 0). mfRefCount e = 0"
    "length ?ops < 2 ^ 32 - 1" "length (groups ?w 0) = 4" "length (mac_filter ?w 0) = 12"
    by (auto simp: example_link_def example_if_def zeroFilterEntry_def)
  have d: "IPV4_ADDR 224 1 2 3 \<noteq> IPV4_ADDR 225 1 2 3" by (simp add: IPV4_ADDR_def)
  have m: "is_multicast (IPV4_ADDR 224 1 2 3)" "is_multicast (IPV4_ADDR 225 1 2 3)"
    "mac_of (IPV4_ADDR 224 1 2 3) = [1, 0, 0x5E, 1, 2, 3]" "mac_of (IPV4_ADDR 225 1 2 3) = [1, 0, 0x5E, 1, 2, 3]"
    by (simp_all add: mac_of_def ipv4MapMulticastAddrToMac_def is_multicast_def ip_bytes_def IPV4_ADDR_def)
  have G: "{#IPV4_ADDR 225 1 2 3#} = foldl (group_step (length (groups ?w 0)) (length (mac_filter ?w 0))) {#} ?ops"
    unfolding h(5,6) using d m by simp
  note r = multicast_groups [OF h(1-4) G ifc_def]
  have "macAddr (netInterface ?w ! 0) = [2, 0, 0, 0, 0, 1]" by (simp add: example_link_def example_if_def)
  moreover have "[1, 0, 0x5E, 1, 2, 4] ! 1 \<noteq> MAC_BROADCAST_ADDR ! 1" by (simp add: MAC_BROADCAST_ADDR_def)
  then have "[1, 0, 0x5E, 1, 2, 4] \<noteq> MAC_BROADCAST_ADDR" by metis
  ultimately show ?thesis using r m unfolding ifc_def [symmetric] by (intro exI [of _ ifc]) auto
qed

end
