(* ===== verification/Eth_Frames.thy ===== *)
theory Eth_Frames
  imports Multicast_Filter Tcp_Send
begin

text \<open>
  What the notations of addresses and the Ethernet layer do together: an address is read back from its string, and
  a frame that one interface sends is delivered by another with its payload, whatever of the padding and the CRC
  the hardware takes over (\<open>hw_send\<close>, \<open>hw_receive\<close>).
\<close>

section \<open>MAC addresses as strings\<close>

lemma hex_digit_value: "n < 16 \<Longrightarrow> hex_value (hex_digit n) = Some (int n)"
proof -
  assume n: "n < 16"
  have "(of_char (hex_digit n) :: nat) = (if n < 10 then 48 + n else 55 + n)" using n by (simp add: hex_digit_def)
  then have "(of_char (hex_digit n) :: int) = (if n < 10 then 48 + int n else 55 + int n)" by (metis of_nat_add of_nat_numeral of_nat_of_char)
  then show ?thesis using n by (auto simp: hex_value_def Let_def)
qed

lemma mac_parse_hex2: "mac_parse (hex2 b @ cs) i (-1) out = mac_parse cs i (uint b) out"
proof -
  have l: "unat b < 256" using unsigned_less [of b] by simp
  then have d: "unat b div 16 < 16" "unat b mod 16 < 16" by auto
  have "int (unat b div 16 * 16 + unat b mod 16) = int (unat b)" by (simp only: div_mult_mod_eq)
  then have n: "int (unat b div 16) * 16 + int (unat b mod 16) = uint b" by (simp only: of_nat_add of_nat_mult of_nat_numeral uint_nat)
  have u: "uint b \<le> 255" using uint_bounded [of b] by simp
  define p q where "p = unat b div 16" and "q = unat b mod 16"
  have "mac_parse (hex_digit p # hex_digit q # cs) i (-1) out = mac_parse cs i (int p * 16 + int q) out"
    using hex_digit_value [OF d(1)] hex_digit_value [OF d(2)] d n u by (simp add: p_def [symmetric] q_def [symmetric] Let_def)
  then show ?thesis unfolding hex2_def p_def q_def n by simp
qed

lemma mac_parse_dash: "i < 6 \<Longrightarrow> mac_parse (hex2 b @ CHR ''-'' # cs) i (-1) out = mac_parse cs (Suc i) (-1) (out @ [b])"
  by (simp add: mac_parse_hex2 hex_value_def)

lemma mac_string_roundtrip:
  assumes "length m = 6"
  shows "macStringToAddr (macAddrToString m) = (NO_ERROR, m)"
proof -
  have e: "mac_parse (hex2 b) i (-1) out = mac_parse [] i (uint b) out" for b i out using mac_parse_hex2 [of b "[]"] by simp
  obtain a b c d f g where "m = [a, b, c, d, f, g]"
    using assms by (auto simp: numeral_eq_Suc length_Suc_conv)
  then show ?thesis by (simp add: macStringToAddr_def macAddrToString_def mac_parse_dash e)
qed

text \<open>
  The two notations of addresses are read back as they are written: parsing the dot-decimal string of an IPv4
  address gives its bytes, parsing the string of a MAC address gives the address.
\<close>

theorem address_strings:
  assumes "length m = 6"
  shows "ipv4StringToAddr (ipv4AddrToString a) = (NO_ERROR, ip_bytes a) \<and> macStringToAddr (macAddrToString m) = (NO_ERROR, m)"
  using ipv4_string_roundtrip mac_string_roundtrip [OF assms] by blast

theorem address_strings_witness:
  "macStringToAddr (macAddrToString [0, 0xAB, 0x10, 0xFF, 9, 1]) = (NO_ERROR, [0, 0xAB, 0x10, 0xFF, 9, 1]) \<and>
   ipv4StringToAddr (ipv4AddrToString (IPV4_ADDR 192 168 0 20)) = (NO_ERROR, [192, 168, 0, 20])"
  using address_strings [of "[0, 0xAB, 0x10, 0xFF, 9, 1]" "IPV4_ADDR 192 168 0 20"] by (simp add: ip_bytes_def IPV4_ADDR_def)

section \<open>From one host to another\<close>

definition pad60 :: "u8 list \<Rightarrow> u8 list" where
  "pad60 F = F @ replicate (60 - length F) 0"

definition with_crc :: "u8 list \<Rightarrow> u8 list" where
  "with_crc F = F @ crc_field (ethCalcCrc F (length F))"

text \<open>What the hardware does with a frame: the padding and the CRC, where it adds them, and stripping the CRC.\<close>

definition hw_send :: "NicDriver \<Rightarrow> u8 list \<Rightarrow> u8 list" where
  "hw_send d F = (let F = (if autoPadding d then pad60 F else F) in if autoCrcCalc d then with_crc F else F)"

definition hw_receive :: "NicDriver \<Rightarrow> u8 list \<Rightarrow> u8 list" where
  "hw_receive d F = (if autoCrcStrip d then take (length F - 4) F else F)"

lemma netBufferAppend_bytes:
  assumes "nb_wf b" and "chunkCount b < maxChunkCount b" and "n \<le> length xs" and "n < 2 ^ 16"
  shows "\<exists>b'. netBufferAppend b a xs n = (NO_ERROR, b') \<and> nb_wf b' \<and> nb_bytes b' = nb_bytes b @ take n xs \<and>
    chunkCount b' = Suc (chunkCount b) \<and> maxChunkCount b' = maxChunkCount b"
  using assms by (simp add: netBufferAppend_def nb_wf_def nb_bytes_def chunk_wf_def chunk_bytes_def)

lemma ethCompleteFrame_bytes:
  assumes "nb_wf b" and "chunkCount b + 2 \<le> maxChunkCount b" and "F = drop off (nb_bytes b)" and "off < length (nb_bytes b)"
    and "autoPadding d \<longrightarrow> autoCrcCalc d"
  shows "\<exists>b'. ethCompleteFrame d b off (length F) = (NO_ERROR, b') \<and> hw_send d (drop off (nb_bytes b')) = with_crc (pad60 F)"
proof (cases "autoPadding d")
  case True
  then show ?thesis using assms by (simp add: ethCompleteFrame_def hw_send_def)
next
  case np: False
  have "\<exists>b1. ethPadFrame b (length F) = (NO_ERROR, b1, length (pad60 F)) \<and> nb_wf b1 \<and> drop off (nb_bytes b1) = pad60 F \<and>
    chunkCount b1 < maxChunkCount b1"
  proof (cases "length F < 60")
    case True
    have m: "60 - length F \<le> 64" "60 - length F < 2 ^ 16" by simp_all
    obtain b1 where "netBufferAppend b 0 (replicate 64 0) (60 - length F) = (NO_ERROR, b1)" "nb_wf b1"
      "nb_bytes b1 = nb_bytes b @ replicate (60 - length F) 0" "chunkCount b1 = Suc (chunkCount b)" "maxChunkCount b1 = maxChunkCount b"
      using netBufferAppend_bytes [OF assms(1), of "60 - length F" "replicate 64 0" 0] m assms(2) by auto
    with True assms show ?thesis by (simp add: ethPadFrame_def pad60_def)
  next
    case False
    with assms show ?thesis by (simp add: ethPadFrame_def pad60_def)
  qed
  then obtain b1 where b1: "ethPadFrame b (length F) = (NO_ERROR, b1, length (pad60 F))" "nb_wf b1" "drop off (nb_bytes b1) = pad60 F"
    "chunkCount b1 < maxChunkCount b1" by blast
  show ?thesis
  proof (cases "autoCrcCalc d")
    case True
    then show ?thesis using np b1 by (simp add: ethCompleteFrame_def hw_send_def)
  next
    case False
    let ?c = "crc_field (ethCalcCrcEx b1 off (length (pad60 F)))"
    from netBufferAppend_bytes [OF b1(2,4), of 4 ?c 0]
    obtain b2 where b2: "netBufferAppend b1 0 ?c 4 = (NO_ERROR, b2)" "nb_bytes b2 = nb_bytes b1 @ ?c" by auto
    have "ethCalcCrcEx b1 off (length (pad60 F)) = ethCalcCrc (pad60 F) (length (pad60 F))"
      using ethCalcCrcEx_flat [OF b1(2), of off "length (pad60 F)"] b1(3) by simp
    moreover have "off \<le> length (nb_bytes b1)"
    proof -
      have "pad60 F \<noteq> []" using assms(3,4) by (simp add: pad60_def)
      with b1(3) show ?thesis by (metis drop_all nle_le)
    qed
    ultimately show ?thesis using np False b1 b2 by (simp add: ethCompleteFrame_def hw_send_def with_crc_def)
  qed
qed

lemma ethSendFrame_frame:
  assumes b: "nb_wf b" "chunk b = c # cs" "14 \<le> off" "off \<le> chLength c" "chunkCount b + 2 \<le> maxChunkCount b"
    and a: "length dest = 6" "length (macAddr (netInterface w ! i)) = 6" and d: "nicDriver (netInterface w ! i) = Some d"
      "autoPadding d \<longrightarrow> autoCrcCalc d" "configured (netInterface w ! i)" "txReady w (calls (lx w))"
  shows "\<exists>b' w' F. ethSendFrame i dest ty b off w = (nicResult w (calls (lx w) + (if nicType d = NIC_TYPE_LOOPBACK then 0 else 1)), b', w') \<and>
    frames w' = frames w @ [(i, F)] \<and>
    hw_send d F = with_crc (pad60 (dest @ macAddr (netInterface w ! i) @ be16 ty @ drop off (nb_bytes b)))"
proof -
  let ?h = "dest @ macAddr (netInterface w ! i) @ be16 ty" and ?o = "off - 14"
  have l: "length ?h = 14" using a by simp
  let ?b = "netBufferPoke b ?o ?h"
  have p: "nb_bytes ?b = list_write (nb_bytes b) ?o ?h" "nb_wf ?b"
    using poke_first(1,2) [OF b(1,2), of ?o ?h] b(3,4) l by simp_all
  have n: "off \<le> length (nb_bytes b)" using b(1,2,4) by (simp add: nb_wf_def nb_bytes_def)
  have F: "drop ?o (nb_bytes ?b) = ?h @ drop off (nb_bytes b)" using n b(3) a unfolding p(1) by (simp add: list_write_def)
  have lF: "netBufferGetLength b - ?o = length (?h @ drop off (nb_bytes b))"
    using netBufferGetLength_bytes [OF b(1)] n b(3) l by simp
  have "chunk ?b = chunk_put c ?o ?h # cs" using poke_first(3) [OF b(1,2), of ?o ?h] b(3,4) l by simp
  then have cnt: "chunkCount ?b + 2 \<le> maxChunkCount ?b" using b(2,5) by (simp only: list.size) (simp add: netBufferPoke_def)
  have lb: "?o < length (nb_bytes ?b)" using b(3) n l unfolding p(1) by (simp add: list_write_def)
  from ethCompleteFrame_bytes [OF p(2) cnt F [symmetric] lb d(2)]
  obtain b' where b': "ethCompleteFrame d ?b ?o (length (?h @ drop off (nb_bytes b))) = (NO_ERROR, b')"
    "hw_send d (drop ?o (nb_bytes b')) = with_crc (pad60 (?h @ drop off (nb_bytes b)))" by blast
  have "ethSendFrame i dest ty b off w = (let (e, w) = nicSendPacket i b' ?o w in (e, b', w))"
    using b(3) d(1) b'(1) lF by (simp add: ethSendFrame_def Let_def)
  then show ?thesis using b'(2) d by (auto simp: nicSendPacket_def put_lx_def tick_call_def Let_def)
qed

lemma foldl_only: "foldl (\<lambda>w k. if k \<noteq> j then w else g k w) w [0..<n] = (if j < n then g j w else w)"
  by (induction n) (auto simp: less_Suc_eq)

lemma ethProcessFrame_accepts:
  assumes d: "nicDriver (netInterface w ! j) = Some d" and j: "j < length (netInterface w)" and l: "14 \<le> length G"
  shows "\<exists>s. ethProcessFrame arp ip4 ip6 j (hw_receive d (with_crc G)) w =
    Some (eth_dispatch arp ip4 ip6 j (take 6 G) (of_be16 (G ! 12) (G ! 13)) (drop 14 G) (w\<lparr>lx := (lx w)\<lparr>prngState := s\<rparr>\<rparr>))"
proof (cases "autoCrcStrip d")
  case True
  have "hw_receive d (with_crc G) = G" using True by (simp add: hw_receive_def with_crc_def)
  then show ?thesis using d j l True unfolding ethProcessFrame_def d option.case
    by (simp add: Let_def foldl_only) (rule exI [of _ "prngState (lx w)"], simp)
next
  case False
  let ?F = "with_crc G"
  have r: "hw_receive d ?F = ?F" using False by (simp add: hw_receive_def)
  have lF: "length ?F = length G + 4" by (simp add: with_crc_def)
  have t: "take 6 ?F = take 6 G" "?F ! 12 = G ! 12" "?F ! 13 = G ! 13" "take (length G) ?F = G"
    using l by (simp_all add: with_crc_def nth_append)
  have "\<exists>s. ethCheckCrc (autoCrcVerif d) ?F (length ?F) (lx w) = (NO_ERROR, (lx w)\<lparr>prngState := s\<rparr>)"
    using crc_verifies(2) [of ?F G] l by (auto simp: ethCheckCrc_def netInitRand_def with_crc_def)
  then obtain s where c: "ethCheckCrc (autoCrcVerif d) ?F (length ?F) (lx w) = (NO_ERROR, (lx w)\<lparr>prngState := s\<rparr>)" by blast
  show ?thesis unfolding ethProcessFrame_def d option.case r Let_def c lF
    using False j l c lF by (simp add: foldl_only t) blast
qed

text \<open>
  Property C14. A frame sent by \<open>ethSendFrame\<close> is taken in by every interface whose address filter accepts its
  destination: the handler of its protocol gets the payload, padded with zeros to 46 bytes, once. The padding and the CRC may
  be added by the software or the hardware of the sender, and the CRC checked and stripped by the software or the hardware
  of the receiver.
\<close>

theorem eth_transfer:
  assumes "nb_wf b" and "chunk b = c # cs" and "14 \<le> off" and "off \<le> chLength c" and "chunkCount b + 2 \<le> maxChunkCount b"
    and "length dest = 6" and "length (macAddr (netInterface w ! i)) = 6" and "nicDriver (netInterface w ! i) = Some d"
    and "autoPadding d \<longrightarrow> autoCrcCalc d" and "configured (netInterface w ! i)" and "txReady w (calls (lx w))"
    and "j < length (netInterface w2)" and "nicDriver (netInterface w2 ! j) = Some d2" and "nicType d2 = NIC_TYPE_ETHERNET"
    and "configured (netInterface w2 ! j)" and "ethCheckDestAddr (netInterface w2 ! j) dest = NO_ERROR"
    and "P = drop off (nb_bytes b)" and "D = P @ replicate (46 - length P) 0"
  shows "\<exists>b' w' F s. snd (ethSendFrame i dest ty b off w) = (b', w') \<and> frames w' = frames w @ [(i, F)] \<and>
    nicProcessEthernet arp ip4 ip6 j (hw_receive d2 (hw_send d F)) w2 =
      (let w2 = w2\<lparr>lx := (lx w2)\<lparr>prngState := s\<rparr>\<rparr>
       in Some (if ty = ETH_TYPE_ARP then arp j D w2 else if ty = ETH_TYPE_IPV4 then ip4 j D w2
                else if ty = ETH_TYPE_IPV6 then ip6 j D w2 else w2))"
proof -
  let ?G = "dest @ macAddr (netInterface w ! i) @ be16 ty @ P"
  obtain b' w' F where s: "snd (ethSendFrame i dest ty b off w) = (b', w')" "frames w' = frames w @ [(i, F)]" "hw_send d F = with_crc (pad60 ?G)"
    using ethSendFrame_frame [OF assms(1-11), of ty] unfolding assms(17) by force
  have l: "length ?G = 14 + length P" using assms(6,7) by simp
  have G: "take 6 (pad60 ?G) = dest" "drop 14 (pad60 ?G) = D" "14 \<le> length (pad60 ?G)"
    using assms(6,7) l by (simp_all add: pad60_def assms(18))
  have ty: "of_be16 (pad60 ?G ! 12) (pad60 ?G ! 13) = ty"
    using assms(6,7) by (simp add: pad60_def nth_append be16_def)
  from ethProcessFrame_accepts [OF assms(13,12) G(3), of arp ip4 ip6] obtain r where
    "ethProcessFrame arp ip4 ip6 j (hw_receive d2 (hw_send d F)) w2 =
      Some (eth_dispatch arp ip4 ip6 j dest ty D (w2\<lparr>lx := (lx w2)\<lparr>prngState := r\<rparr>\<rparr>))"
    unfolding s(3) G(1,2) ty by blast
  then have "nicProcessEthernet arp ip4 ip6 j (hw_receive d2 (hw_send d F)) w2 =
      (let w2 = w2\<lparr>lx := (lx w2)\<lparr>prngState := r\<rparr>\<rparr>
       in Some (if ty = ETH_TYPE_ARP then arp j D w2 else if ty = ETH_TYPE_IPV4 then ip4 j D w2
                else if ty = ETH_TYPE_IPV6 then ip6 j D w2 else w2))"
    using assms(13-16) by (simp add: nicProcessEthernet_def eth_dispatch_def Let_def)
  with s(1,2) show ?thesis by blast
qed

theorem eth_transfer_witness:
  "\<exists>F w'. (let w = example_link [example_if []];
             b = \<lparr>maxChunkCount = 3, chunk = [\<lparr>address = 0, storage = replicate 14 0 @ [1, 2, 3], chLength = 17, chSize = 0\<rparr>]\<rparr>
         in frames (snd (snd (ethSendFrame 0 [2, 0, 0, 0, 0, 1] ETH_TYPE_ARP b 14 w))) = [(0, F)] \<and>
            nicProcessEthernet (\<lambda>j D w. w\<lparr>frames := [(j, D)]\<rparr>) (\<lambda>j D w. w) (\<lambda>j D w. w) 0 F w = Some w' \<and>
            frames w' = [(0, [1, 2, 3] @ replicate 43 0)])"
proof -
  let ?w = "example_link [example_if []]"
  let ?c = "\<lparr>address = 0, storage = replicate 14 0 @ [1, 2, 3], chLength = 17, chSize = 0\<rparr>"
  let ?b = "\<lparr>maxChunkCount = 3, chunk = [?c]\<rparr>"
  let ?d = "\<lparr>nicType = NIC_TYPE_ETHERNET, nicMtu = 1500, autoPadding = False, autoCrcCalc = False, autoCrcVerif = False, autoCrcStrip = False\<rparr>"
  let ?arp = "\<lambda>j D (w :: link). w\<lparr>frames := [(j, D)]\<rparr>" and ?id = "\<lambda>(j :: nat) (D :: u8 list) (w :: link). w"
  have w: "netInterface ?w ! 0 = example_if []" "length (netInterface ?w) = 1" "txReady ?w n" "frames ?w = []" for n
    by (simp_all add: example_link_def)
  have m: "macAddr (example_if []) = [2, 0, 0, 0, 0, 1]" "nicDriver (example_if []) = Some ?d" "configured (example_if [])"
    by (simp_all add: example_if_def)
  have nb: "nb_wf ?b" "nb_bytes ?b = replicate 14 0 @ [1, 2, 3]" by (simp_all add: nb_wf_def chunk_wf_def nb_bytes_def chunk_bytes_def)
  have h: "chunk ?b = ?c # []" "14 \<le> (14 :: nat)" "14 \<le> chLength ?c" "chunkCount ?b + 2 \<le> maxChunkCount ?b"
    "length ([2, 0, 0, 0, 0, 1] :: u8 list) = 6" "length (macAddr (netInterface ?w ! 0)) = 6" "nicDriver (netInterface ?w ! 0) = Some ?d"
    "autoPadding ?d \<longrightarrow> autoCrcCalc ?d" "configured (netInterface ?w ! 0)" "0 < length (netInterface ?w)" "nicType ?d = NIC_TYPE_ETHERNET"
    "ethCheckDestAddr (netInterface ?w ! 0) [2, 0, 0, 0, 0, 1] = NO_ERROR" "[1, 2, 3] = drop 14 (nb_bytes ?b)"
    "[1, 2, 3] @ replicate 43 0 = ([1, 2, 3] :: u8 list) @ replicate (46 - length ([1, 2, 3] :: u8 list)) 0"
    unfolding nb(2) w m by (simp_all add: ethCheckDestAddr_def m)
  from eth_transfer [OF nb(1) h(1-9) w(3) h(10,7,11,9,12,13,14), of ETH_TYPE_ARP ?arp ?id ?id]
  obtain F s where F: "frames (snd (snd (ethSendFrame 0 [2, 0, 0, 0, 0, 1] ETH_TYPE_ARP ?b 14 ?w))) = [(0, F)]"
    "nicProcessEthernet ?arp ?id ?id 0 (hw_receive ?d (hw_send ?d F)) ?w =
       Some (?w\<lparr>lx := (lx ?w)\<lparr>prngState := s\<rparr>, frames := [(0, [1, 2, 3] @ replicate 43 0)]\<rparr>)"
    by (auto simp: w(4) Let_def)
  have "hw_receive ?d (hw_send ?d F) = F" by (simp add: hw_receive_def hw_send_def)
  with F show ?thesis by (auto simp: Let_def)
qed

end
