(* ===== verification/Arp_Cache.thy ===== *)
theory Arp_Cache
  imports Arp Buffer_Memory Eth_Frames
begin

text \<open>
  The ARP cache over any run of packets sent and received, timeouts and flushes (\<open>arp_inv\<close>, an invariant of every operation of
  \<open>Arp\<close>): its entries, their queues and the memory they hold. What a reply does to the packets that wait for it, and what happens
  when none comes.
\<close>

section \<open>What sending leaves alone\<close>

lemma owned_poke: "owned (netBufferPoke b off xs) = owned b"
proof -
  have "mset (map address (filter (\<lambda>c. 0 < chSize c) (poke_chunks cs off xs))) = mset (map address (filter (\<lambda>c. 0 < chSize c) cs))" for cs
    by (induction cs off xs rule: poke_chunks.induct) (auto simp: chunk_put_def)
  then show ?thesis by (simp add: owned_def netBufferPoke_def)
qed

lemma owned_append: "owned (snd (netBufferAppend b a xs n)) = owned b"
  by (simp add: netBufferAppend_def owned_def)

lemma owned_complete: "owned (snd (ethCompleteFrame d b off len)) = owned b"
  using owned_append by (auto simp: ethCompleteFrame_def ethPadFrame_def Let_def split_beta)

text \<open>The interfaces are the same and no block is lost or gained.\<close>

definition quiet :: "link \<Rightarrow> link \<Rightarrow> bool" where
  "quiet w w' \<longleftrightarrow> netInterface w' = netInterface w \<and> mset (live (lx w')) = mset (live (lx w))"

lemma quiet_refl [simp]: "quiet w w" and quiet_trans: "quiet w w' \<Longrightarrow> quiet w' w'' \<Longrightarrow> quiet w w''"
  by (simp_all add: quiet_def)

lemma nicSendPacket_quiet: "quiet w (snd (nicSendPacket i b off w))"
  by (simp add: nicSendPacket_def quiet_def put_lx_def tick_call_def split: option.split)

lemma ethSendFrame_quiet:
  assumes "ethSendFrame i m ty b off w = (e, b', w')"
  shows "quiet w w'" and "owned b' = owned b"
proof -
  have *: "quiet w (snd (snd (ethSendFrame i m ty b off w))) \<and> owned (fst (snd (ethSendFrame i m ty b off w))) = owned b"
    using nicSendPacket_quiet
    by (auto simp: ethSendFrame_def Let_def split_beta owned_poke owned_complete split: option.split)
  then show "quiet w w'" "owned b' = owned b" using assms by simp_all
qed

lemma link_time_quiet: "link_time w = (t, w') \<Longrightarrow> quiet w w'"
  by (auto simp: link_time_def osGetSystemTime_def quiet_def tick_call_def)

lemma arp_transmit_quiet: "arp_transmit i m p w = (e, w') \<Longrightarrow> quiet w w'"
proof -
  assume e: "arp_transmit i m p w = (e, w')"
  obtain r x where al: "bufAlloc (lx w) (SIZEOF_ARP_PACKET + 14) = (r, x)" by fastforce
  note res = bufAlloc_result [OF al]
  show ?thesis
  proof (cases r)
    case None
    then show ?thesis using e al res by (auto simp: arp_transmit_def ethAllocBuffer_def quiet_def)
  next
    case (Some ab)
    obtain a b where ab: "ab = (a, b)" by force
    obtain e1 b1 w1 where s: "ethSendFrame i m ETH_TYPE_ARP (netBufferPoke b 14 p) 14 (w\<lparr>lx := x\<rparr>) = (e1, b1, w1)" by (metis prod_cases3)
    have w': "w' = put_lx (\<lambda>x. bufFree x a b1) w1" using e al Some ab s by (simp add: arp_transmit_def ethAllocBuffer_def)
    have o: "owned b1 = owned b" using ethSendFrame_quiet(2) [OF s] by (simp add: owned_poke)
    have q: "netInterface w1 = netInterface w" "mset (live (lx w1)) = mset (live x)" using ethSendFrame_quiet(1) [OF s] by (simp_all add: quiet_def)
    have l: "mset (live x) = mset (live (lx w)) + add_mset a (owned b)" using res Some ab by simp
    have "add_mset a (owned b1) \<subseteq># mset (live (lx w1))" using q(2) l o by simp
    from bufFree_mset [OF this] show ?thesis using q l o by (simp add: w' quiet_def put_lx_def)
  qed
qed

lemma arpSendRequest_quiet: "quiet w (snd (arpSendRequest i a m w))"
  using arp_transmit_quiet
  by (auto simp: arpSendRequest_def split: prod.split option.split error_t.split) (metis prod.collapse)

section \<open>The cache\<close>

text \<open>The blocks held by the queue of an entry and by a cache.\<close>

definition queue_held :: "ArpQueueItem list \<Rightarrow> nat multiset" where
  "queue_held qs = sum_list (map (\<lambda>q. add_mset (aqAddress q) (owned (aqBuffer q))) qs)"

definition entry_held :: "ArpCacheEntry \<Rightarrow> nat multiset" where
  "entry_held e = queue_held (arpQueue e)"

definition cache_held :: "ArpCacheEntry list \<Rightarrow> nat multiset" where
  "cache_held cs = sum_list (map entry_held cs)"

text \<open>A MAC address that a host can have.\<close>

definition host_mac :: "MacAddr \<Rightarrow> bool" where
  "host_mac m \<longleftrightarrow> length m = 6 \<and> m \<noteq> MAC_UNSPECIFIED_ADDR \<and> \<not> macIsMulticastAddr m"

definition entry_ok :: "ArpCacheEntry \<Rightarrow> bool" where
  "entry_ok e \<longleftrightarrow>
     (arpState e \<noteq> ARP_STATE_INCOMPLETE \<longrightarrow> arpQueue e = []) \<and> length (arpQueue e) \<le> ARP_MAX_PENDING_PACKETS \<and>
     (arpState e \<in> {ARP_STATE_REACHABLE, ARP_STATE_STALE, ARP_STATE_DELAY, ARP_STATE_PROBE} \<longrightarrow> host_mac (arpMacAddr e))"

definition arp_inv :: "nat multiset \<Rightarrow> nat \<Rightarrow> nat \<Rightarrow> link \<Rightarrow> bool" where
  "arp_inv B n i w \<longleftrightarrow> 0 < n \<and> i < length (netInterface w) \<and> length (arp_cache w i) = n \<and> (\<forall>e \<in> set (arp_cache w i). entry_ok e) \<and>
     (\<forall>j < n. \<forall>k < n. arpState (arp_cache w i ! j) \<noteq> ARP_STATE_NONE \<and> arpState (arp_cache w i ! k) \<noteq> ARP_STATE_NONE \<and>
        arpIpAddr (arp_cache w i ! j) = arpIpAddr (arp_cache w i ! k) \<longrightarrow> j = k) \<and>
     mset (live (lx w)) = B + cache_held (arp_cache w i)"

lemma cache_held_update: "k < length cs \<Longrightarrow> cache_held (cs[k := e]) + entry_held (cs ! k) = cache_held cs + entry_held e"
proof (induction cs arbitrary: k)
  case (Cons c cs)
  then show ?case by (cases k) (auto simp: cache_held_def ac_simps)
qed simp

lemma put_arp_simps [simp]:
  "i < length (netInterface w) \<Longrightarrow> netInterface (put_arp i k f w) =
     (netInterface w)[i := (netInterface w ! i)\<lparr>arpCache := (arp_cache w i)[k := f (arp_cache w i ! k)]\<rparr>]"
  "lx (put_arp i k f w) = lx w"
  by (simp_all add: put_arp_def put_interface_def)

lemma cache_put:
  assumes "i < length (netInterface w)" and "k < length (arp_cache w i)"
  shows "arp_cache (put_arp i k f w) i = (arp_cache w i)[k := f (arp_cache w i ! k)]"
    and "length (netInterface (put_arp i k f w)) = length (netInterface w)"
  using assms by simp_all

lemma put_put: "i < length (netInterface w) \<Longrightarrow> k < length (arp_cache w i) \<Longrightarrow>
    put_arp i k g (put_arp i k f w) = put_arp i k (\<lambda>e. g (f e)) w"
  by (simp add: put_arp_def put_interface_def)

text \<open>What an interface keeps besides its cache.\<close>

definition same_cache :: "nat \<Rightarrow> link \<Rightarrow> link \<Rightarrow> bool" where
  "same_cache i w w' \<longleftrightarrow> length (netInterface w') = length (netInterface w) \<and> arp_cache w' i = arp_cache w i \<and>
     mset (live (lx w')) = mset (live (lx w))"

lemma quiet_same_cache: "quiet w w' \<Longrightarrow> same_cache i w w'"
  by (simp add: quiet_def same_cache_def)

lemma arp_inv_same: "arp_inv B n i w \<Longrightarrow> same_cache i w w' \<Longrightarrow> arp_inv B n i w'"
  by (simp add: arp_inv_def same_cache_def)

lemma arp_invD:
  assumes "arp_inv B n i w"
  shows "i < length (netInterface w)" and "length (arp_cache w i) = n" and "0 < n"
    and "k < n \<Longrightarrow> entry_ok (arp_cache w i ! k)"
    and "mset (live (lx w)) = B + cache_held (arp_cache w i)"
    and "j < n \<Longrightarrow> k < n \<Longrightarrow> arpState (arp_cache w i ! j) \<noteq> ARP_STATE_NONE \<Longrightarrow> arpState (arp_cache w i ! k) \<noteq> ARP_STATE_NONE \<Longrightarrow>
      arpIpAddr (arp_cache w i ! j) = arpIpAddr (arp_cache w i ! k) \<Longrightarrow> j = k"
  using assms by (auto simp: arp_inv_def)

text \<open>One entry is replaced by another, and the blocks of the old one by those of the new one.\<close>

lemma arp_inv_put:
  assumes inv: "arp_inv B n i w" and k: "k < n" and same: "netInterface w' = netInterface w"
    and e: "e = f (arp_cache w i ! k)" "entry_ok e"
    and mem: "mset (live (lx w')) + entry_held (arp_cache w i ! k) = mset (live (lx w)) + entry_held e"
    and new: "arpState e \<noteq> ARP_STATE_NONE \<Longrightarrow>
      \<forall>j < n. j \<noteq> k \<and> arpState (arp_cache w i ! j) \<noteq> ARP_STATE_NONE \<longrightarrow> arpIpAddr (arp_cache w i ! j) \<noteq> arpIpAddr e"
  shows "arp_inv B n i (put_arp i k f w')"
proof -
  note d = arp_invD [OF inv]
  let ?cs = "arp_cache w i"
  have c: "arp_cache (put_arp i k f w') i = ?cs[k := e]" using d(1,2) k same e(1) by simp
  have "\<forall>e' \<in> set (?cs[k := e]). entry_ok e'"
    using inv e(2) set_update_subset_insert [of ?cs k e] unfolding arp_inv_def by blast
  moreover have "\<forall>j < n. \<forall>l < n. arpState (?cs[k := e] ! j) \<noteq> ARP_STATE_NONE \<and> arpState (?cs[k := e] ! l) \<noteq> ARP_STATE_NONE \<and>
        arpIpAddr (?cs[k := e] ! j) = arpIpAddr (?cs[k := e] ! l) \<longrightarrow> j = l"
  proof (intro allI impI)
    fix j l assume "j < n" "l < n" "arpState (?cs[k := e] ! j) \<noteq> ARP_STATE_NONE \<and> arpState (?cs[k := e] ! l) \<noteq> ARP_STATE_NONE \<and>
        arpIpAddr (?cs[k := e] ! j) = arpIpAddr (?cs[k := e] ! l)"
    then show "j = l" using d(2) d(6) [of j l] k new by (cases "j = k"; cases "l = k") auto
  qed
  moreover have "mset (live (lx w')) = B + cache_held (?cs[k := e])"
  proof -
    have "mset (live (lx w')) + entry_held (?cs ! k) = B + cache_held (?cs[k := e]) + entry_held (?cs ! k)"
      using mem d(5) cache_held_update [of k ?cs e] k d(2) by (simp add: ac_simps)
    then show ?thesis by simp
  qed
  ultimately show ?thesis using c d(1,2,3) same by (simp add: arp_inv_def)
qed

text \<open>A change of the entry that keeps its address, its queue and whether it is in use.\<close>

lemma arp_inv_change:
  assumes inv: "arp_inv B n i w" and k: "k < n"
    and f: "entry_ok (f (arp_cache w i ! k))" "arpQueue (f (arp_cache w i ! k)) = arpQueue (arp_cache w i ! k)"
      "arpState (f (arp_cache w i ! k)) \<noteq> ARP_STATE_NONE \<Longrightarrow>
        arpIpAddr (f (arp_cache w i ! k)) = arpIpAddr (arp_cache w i ! k) \<and> arpState (arp_cache w i ! k) \<noteq> ARP_STATE_NONE"
  shows "arp_inv B n i (put_arp i k f w)"
  by (rule arp_inv_put [OF inv k refl _ f(1)]) (use f(2,3) arp_invD(6) [OF inv _ k] in \<open>auto simp: entry_held_def\<close>)

section \<open>Queues\<close>

lemma free_queue_live:
  "queue_held qs \<subseteq># mset (live (lx w)) \<Longrightarrow>
    netInterface (free_queue qs w) = netInterface w \<and> mset (live (lx (free_queue qs w))) + queue_held qs = mset (live (lx w))"
proof (induction qs w rule: free_queue.induct)
  case (2 q qs w)
  let ?h = "add_mset (aqAddress q) (owned (aqBuffer q))" and ?w = "put_lx (\<lambda>x. bufFree x (aqAddress q) (aqBuffer q)) w"
  from 2(2) have s: "?h + queue_held qs \<subseteq># mset (live (lx w))" by (simp add: queue_held_def)
  have "?h \<subseteq># mset (live (lx w))" using s by (rule subset_mset.order_trans [rotated]) simp
  from bufFree_mset [OF this] have l: "mset (live (lx ?w)) = mset (live (lx w)) - ?h" by (simp add: put_lx_def)
  obtain R where R: "mset (live (lx w)) = (?h + queue_held qs) + R" using s by (auto simp: subset_mset.le_iff_add)
  then have l': "mset (live (lx ?w)) = queue_held qs + R" using l by simp
  from 2(1) l' R show ?case by (simp add: queue_held_def put_lx_def ac_simps)
qed (simp add: queue_held_def)

lemma send_queue_live:
  "queue_held qs \<subseteq># mset (live (lx w)) \<Longrightarrow>
    netInterface (send_queue i m qs w) = netInterface w \<and> mset (live (lx (send_queue i m qs w))) + queue_held qs = mset (live (lx w))"
proof (induction i m qs w rule: send_queue.induct)
  case (2 i m q qs w)
  obtain e b w1 where s: "ethSendFrame i m ETH_TYPE_IPV4 (aqBuffer q) (aqOffset q) w = (e, b, w1)" by (metis prod_cases3)
  have q: "netInterface w1 = netInterface w" "mset (live (lx w1)) = mset (live (lx w))" "owned b = owned (aqBuffer q)"
    using ethSendFrame_quiet [OF s] by (simp_all add: quiet_def)
  let ?h = "add_mset (aqAddress q) (owned (aqBuffer q))" and ?w = "put_lx (\<lambda>x. bufFree x (aqAddress q) b) w1"
  from 2(2) have "?h + queue_held qs \<subseteq># mset (live (lx w))" by (simp add: queue_held_def)
  then obtain R where R: "mset (live (lx w)) = (?h + queue_held qs) + R" by (auto simp: subset_mset.le_iff_add)
  have "add_mset (aqAddress q) (owned b) \<subseteq># mset (live (lx w1))" using R q by (simp add: subset_mset.le_iff_add)
  from bufFree_mset [OF this] R q have l: "mset (live (lx ?w)) = queue_held qs + R" by (simp add: put_lx_def)
  from 2(1) [OF s [symmetric] refl] l have
    "netInterface (send_queue i m qs ?w) = netInterface ?w \<and> mset (live (lx (send_queue i m qs ?w))) + queue_held qs = mset (live (lx ?w))" by simp
  then show ?case using s l R q by (simp add: queue_held_def put_lx_def ac_simps)
qed (simp add: queue_held_def)

lemma entry_held_le: "arp_inv B n i w \<Longrightarrow> k < n \<Longrightarrow> entry_held (arp_cache w i ! k) \<subseteq># mset (live (lx w))"
proof -
  assume inv: "arp_inv B n i w" and k: "k < n"
  let ?e = "arp_cache w i ! k"
  have "cache_held ((arp_cache w i)[k := ?e\<lparr>arpQueue := []\<rparr>]) + entry_held ?e = cache_held (arp_cache w i)"
    using cache_held_update [of k "arp_cache w i" "?e\<lparr>arpQueue := []\<rparr>"] k arp_invD(2) [OF inv]
    by (simp add: entry_held_def queue_held_def)
  then have "mset (live (lx w)) = (B + cache_held ((arp_cache w i)[k := ?e\<lparr>arpQueue := []\<rparr>])) + entry_held ?e"
    using arp_invD(5) [OF inv] by (simp add: ac_simps)
  then show ?thesis by simp
qed

text \<open>Emptying a queue, by sending or dropping what it holds, keeps the invariant.\<close>

lemma arp_inv_emptied:
  assumes inv: "arp_inv B n i w" and k: "k < n" and same: "netInterface w' = netInterface w"
    and mem: "mset (live (lx w')) + entry_held (arp_cache w i ! k) = mset (live (lx w))"
  shows "arp_inv B n i (put_arp i k (\<lambda>e. e\<lparr>arpQueue := []\<rparr>) w')"
proof (rule arp_inv_put [OF inv k same refl])
  show "entry_ok ((arp_cache w i ! k)\<lparr>arpQueue := []\<rparr>)" using arp_invD(4) [OF inv k] by (auto simp: entry_ok_def)
qed (use mem arp_invD(6) [OF inv _ k] in \<open>auto simp: entry_held_def queue_held_def\<close>)

lemma entry_held_idle: "entry_ok e \<Longrightarrow> arpState e \<noteq> ARP_STATE_INCOMPLETE \<Longrightarrow> entry_held e = {#}"
  by (simp add: entry_ok_def entry_held_def queue_held_def)

lemma arpFlushQueuedPackets_inv:
  assumes "arp_inv B n i w" and "k < n"
  shows "arp_inv B n i (arpFlushQueuedPackets i k w)"
proof -
  let ?e = "arp_cache w i ! k"
  let ?w = "if arpState ?e = ARP_STATE_INCOMPLETE then free_queue (arpQueue ?e) w else w"
  have "netInterface ?w = netInterface w \<and> mset (live (lx ?w)) + entry_held ?e = mset (live (lx w))"
    using free_queue_live [of "arpQueue ?e" w] entry_held_le [OF assms] entry_held_idle [OF arp_invD(4) [OF assms]]
    by (auto simp: entry_held_def)
  from arp_inv_emptied [OF assms conjunct1 [OF this] conjunct2 [OF this]] show ?thesis
    by (simp add: arpFlushQueuedPackets_def Let_def)
qed

lemma arpFlushQueuedPackets_cache:
  assumes "arp_inv B n i w" and "k < n"
  shows "arp_cache (arpFlushQueuedPackets i k w) i = (arp_cache w i)[k := (arp_cache w i ! k)\<lparr>arpQueue := []\<rparr>]"
proof -
  let ?e = "arp_cache w i ! k"
  let ?w = "if arpState ?e = ARP_STATE_INCOMPLETE then free_queue (arpQueue ?e) w else w"
  have "netInterface ?w = netInterface w"
    using free_queue_live [of "arpQueue ?e" w] entry_held_le [OF assms] by (simp add: entry_held_def)
  then show ?thesis using arp_invD(1,2) [OF assms(1)] assms(2) by (simp add: arpFlushQueuedPackets_def Let_def)
qed

lemma arpSendQueuedPackets_inv:
  assumes "arp_inv B n i w" and "k < n"
  shows "arp_inv B n i (arpSendQueuedPackets i k w)" and
    "arp_cache (arpSendQueuedPackets i k w) i = (arp_cache w i)[k := (arp_cache w i ! k)\<lparr>arpQueue := []\<rparr>]"
proof -
  let ?e = "arp_cache w i ! k"
  let ?w = "if arpState ?e = ARP_STATE_INCOMPLETE then send_queue i (arpMacAddr ?e) (arpQueue ?e) w else w"
  have *: "netInterface ?w = netInterface w \<and> mset (live (lx ?w)) + entry_held ?e = mset (live (lx w))"
    using send_queue_live [of "arpQueue ?e" w i "arpMacAddr ?e"] entry_held_le [OF assms] entry_held_idle [OF arp_invD(4) [OF assms]]
    by (auto simp: entry_held_def)
  from arp_inv_emptied [OF assms conjunct1 [OF this] conjunct2 [OF this]] show "arp_inv B n i (arpSendQueuedPackets i k w)"
    by (simp add: arpSendQueuedPackets_def Let_def)
  show "arp_cache (arpSendQueuedPackets i k w) i = (arp_cache w i)[k := ?e\<lparr>arpQueue := []\<rparr>]"
    using * arp_invD(1,2) [OF assms(1)] assms(2) by (simp add: arpSendQueuedPackets_def Let_def)
qed

section \<open>The operations keep the invariant\<close>

lemma entry_ok_zero [simp]: "entry_ok zeroArpEntry" "entry_held zeroArpEntry = {#}" "arpState zeroArpEntry = ARP_STATE_NONE"
  "arpQueue zeroArpEntry = []"
  by (simp_all add: entry_ok_def zeroArpEntry_def entry_held_def queue_held_def)

lemma link_time_same: "link_time w = (t, w') \<Longrightarrow> same_cache i w w'"
  by (rule quiet_same_cache) (rule link_time_quiet)

lemma oldest_entry_bound: "fst best < k + length es \<Longrightarrow> oldest_entry t es k best < k + length es"
proof (induction t es k best rule: oldest_entry.induct)
  case (2 t e es k best)
  show ?case using 2(1) 2(2) by (simp split: if_splits)
qed simp

text \<open>A new entry is in a slot of its own; the addresses in use before are the ones in use now, less the one replaced.\<close>

lemma arpCreateEntry_inv:
  assumes inv: "arp_inv B n i w" and c: "arpCreateEntry i w = (k, w')"
  shows "k < n \<and> arp_inv B n i w' \<and> arp_cache w' i = (arp_cache w i)[k := zeroArpEntry]"
proof -
  obtain t w1 where t: "link_time w = (t, w1)" by force
  have inv1: "arp_inv B n i w1" and c1: "arp_cache w1 i = arp_cache w i"
    using arp_inv_same [OF inv] link_time_same [OF t] by (auto simp: same_cache_def)
  note d = arp_invD [OF inv1]
  show ?thesis
  proof (cases "index_of (\<lambda>e. arpState e = ARP_STATE_NONE) (arp_cache w1 i)")
    case (Some j)
    from index_of_Some [OF this] d(2) have j: "j < n" "arpState (arp_cache w1 i ! j) = ARP_STATE_NONE" by auto
    have "entry_held (arp_cache w1 i ! j) = {#}" using entry_held_idle [OF d(4) [OF j(1)]] j(2) by simp
    then have "arp_inv B n i (put_arp i j (\<lambda>e. zeroArpEntry) w1)" by (intro arp_inv_put [OF inv1 j(1) refl refl]) simp_all
    then show ?thesis using c t Some j d(1,2) c1 by (auto simp: arpCreateEntry_def)
  next
    case None
    let ?k = "oldest_entry t (arp_cache w1 i) 0 (0, arpTimestamp (arp_cache w1 i ! 0))" and ?w = "arpFlushQueuedPackets i"
    have k: "?k < n" using oldest_entry_bound [of "(0, arpTimestamp (arp_cache w1 i ! 0))" 0 "arp_cache w1 i" t] d(2,3) by simp
    note inv2 = arpFlushQueuedPackets_inv [OF inv1 k] and c2 = arpFlushQueuedPackets_cache [OF inv1 k]
    have "entry_held (arp_cache (arpFlushQueuedPackets i ?k w1) i ! ?k) = {#}" using c2 k d(2) by (simp add: entry_held_def queue_held_def)
    then have "arp_inv B n i (put_arp i ?k (\<lambda>e. zeroArpEntry) (arpFlushQueuedPackets i ?k w1))"
      by (intro arp_inv_put [OF inv2 k refl refl]) simp_all
    moreover have "k = ?k" "w' = put_arp i ?k (\<lambda>e. zeroArpEntry) (arpFlushQueuedPackets i ?k w1)"
      using c t None by (auto simp: arpCreateEntry_def Let_def)
    ultimately show ?thesis using k c2 c1 arp_invD(1,2) [OF inv2] by simp
  qed
qed

lemma arpSendRequest_same: "same_cache i w (snd (arpSendRequest j a m w))"
  by (rule quiet_same_cache [OF arpSendRequest_quiet])

lemma arpFindEntry_None: "arpFindEntry i a w = None \<Longrightarrow> j < length (arp_cache w i) \<Longrightarrow>
    arpState (arp_cache w i ! j) \<noteq> ARP_STATE_NONE \<Longrightarrow> arpIpAddr (arp_cache w i ! j) \<noteq> a"
  by (auto simp: arpFindEntry_def index_of_None)

lemma arpFindEntry_Some: "arpFindEntry i a w = Some k \<Longrightarrow> k < length (arp_cache w i) \<and>
    arpState (arp_cache w i ! k) \<noteq> ARP_STATE_NONE \<and> arpIpAddr (arp_cache w i ! k) = a"
  using index_of_Some by (fastforce simp: arpFindEntry_def)

lemma arpResolve_inv:
  assumes inv: "arp_inv B n i w"
  shows "arp_inv B n i (snd (snd (arpResolve i a w)))"
proof (cases "arpFindEntry i a w")
  case (Some k)
  let ?e = "arp_cache w i ! k"
  from arpFindEntry_Some [OF Some] arp_invD(2) [OF inv] have k: "k < n" by simp
  obtain t w1 where t: "link_time w = (t, w1)" by force
  have inv1: "arp_inv B n i w1" and c1: "arp_cache w1 i = arp_cache w i"
    using arp_inv_same [OF inv] link_time_same [OF t] by (auto simp: same_cache_def)
  have "arpState ?e = ARP_STATE_STALE \<Longrightarrow>
    arp_inv B n i (put_arp i k (\<lambda>e. e\<lparr>arpTimestamp := t, arpTimeout := ARP_DELAY_FIRST_PROBE_TIME, arpState := ARP_STATE_DELAY\<rparr>) w1)"
    using arp_invD(4) [OF inv k] by (intro arp_inv_change [OF inv1 k]) (auto simp: c1 entry_ok_def)
  then show ?thesis using inv t Some by (simp add: arpResolve_def Let_def)
next
  case None
  obtain k w1 where c: "arpCreateEntry i w = (k, w1)" by force
  from arpCreateEntry_inv [OF inv this] have k: "k < n" and inv1: "arp_inv B n i w1" and c1: "arp_cache w1 i = (arp_cache w i)[k := zeroArpEntry]" by auto
  let ?e = "zeroArpEntry\<lparr>arpIpAddr := a, arpRetransmitCount := 0, arpQueue := []\<rparr>"
  let ?w2 = "put_arp i k (\<lambda>e. e\<lparr>arpIpAddr := a, arpRetransmitCount := 0, arpQueue := []\<rparr>) w1"
  have n: "length (arp_cache w i) = n" by (rule arp_invD(2) [OF inv])
  have inv2: "arp_inv B n i ?w2"
    by (rule arp_inv_change [OF inv1 k]) (use k n in \<open>simp_all add: c1 entry_ok_def\<close>)
  have c2: "arp_cache ?w2 i = (arp_cache w i)[k := ?e]" using arp_invD(1,2) [OF inv1] k c1 n by simp
  obtain r w3 where s: "arpSendRequest i a MAC_BROADCAST_ADDR ?w2 = (r, w3)" by force
  obtain t w4 where t: "link_time w3 = (t, w4)" by force
  have "same_cache i ?w2 w3" using arpSendRequest_same [of i ?w2 i a MAC_BROADCAST_ADDR] s by simp
  then have inv4: "arp_inv B n i w4" and c4: "arp_cache w4 i = (arp_cache w i)[k := ?e]"
    using arp_inv_same [OF arp_inv_same [OF inv2] link_time_same [OF t]] link_time_same [OF t, of i] c2 by (simp_all add: same_cache_def)
  have "arp_inv B n i (put_arp i k (\<lambda>e. e\<lparr>arpTimestamp := t, arpTimeout := ARP_REQUEST_TIMEOUT, arpState := ARP_STATE_INCOMPLETE\<rparr>) w4)"
    using k n arpFindEntry_None [OF None]
    by (intro arp_inv_put [OF inv4 k refl refl]) (simp_all add: c4 entry_ok_def entry_held_def queue_held_def nth_list_update)
  then show ?thesis using None c s t by (simp add: arpResolve_def Let_def)
qed

lemma arpEnqueuePacket_incomplete:
  assumes "arpFindEntry i a w = Some k" and "arpState (arp_cache w i ! k) = ARP_STATE_INCOMPLETE"
    and w1: "w1 = (if length (arpQueue (arp_cache w i ! k)) \<ge> ARP_MAX_PENDING_PACKETS
      then put_arp i k (\<lambda>e. e\<lparr>arpQueue := tl (arpQueue e)\<rparr>)
        (put_lx (\<lambda>x. bufFree x (aqAddress (arpQueue (arp_cache w i ! k) ! 0)) (aqBuffer (arpQueue (arp_cache w i ! k) ! 0))) w)
      else w)"
    and al: "bufAlloc (lx w1) (netBufferGetLength b) = (r, x)"
  shows "snd (arpEnqueuePacket i a b off anc w) = (case r of None \<Rightarrow> w1\<lparr>lx := x\<rparr> | Some (adr, p) \<Rightarrow>
    put_arp i k (\<lambda>e. e\<lparr>arpQueue := arpQueue e @ [\<lparr>aqAddress = adr,
      aqBuffer = snd (netBufferCopy p 0 b 0 (netBufferGetLength b)), aqOffset = off, aqAncillary = anc\<rparr>]\<rparr>) (w1\<lparr>lx := x\<rparr>))"
proof -
  have "arpEnqueuePacket i a b off anc w = (case bufAlloc (lx w1) (netBufferGetLength b) of
      (None, x) \<Rightarrow> (ERROR_OUT_OF_MEMORY, w1\<lparr>lx := x\<rparr>)
    | (Some (adr, p), x) \<Rightarrow> (NO_ERROR, put_arp i k (\<lambda>e. e\<lparr>arpQueue := arpQueue e @ [\<lparr>aqAddress = adr,
        aqBuffer = snd (netBufferCopy p 0 b 0 (netBufferGetLength b)), aqOffset = off, aqAncillary = anc\<rparr>]\<rparr>) (w1\<lparr>lx := x\<rparr>)))"
    unfolding arpEnqueuePacket_def w1 Let_def assms(1) option.case assms(2) by simp
  then show ?thesis unfolding al by (simp split: option.split)
qed

lemma arpEnqueuePacket_inv:
  assumes inv: "arp_inv B n i w"
  shows "arp_inv B n i (snd (arpEnqueuePacket i a b off anc w))"
proof (cases "arpFindEntry i a w")
  case (Some k)
  let ?e = "arp_cache w i ! k"
  from arpFindEntry_Some [OF Some] arp_invD(2) [OF inv] have k: "k < n" by simp
  show ?thesis
  proof (cases "arpState ?e = ARP_STATE_INCOMPLETE")
    case inc: True
    let ?q = "arpQueue ?e ! 0" and ?f = "\<lambda>e. e\<lparr>arpQueue := tl (arpQueue e)\<rparr>"
    let ?w1 = "if length (arpQueue ?e) \<ge> ARP_MAX_PENDING_PACKETS
      then put_arp i k ?f (put_lx (\<lambda>x. bufFree x (aqAddress ?q) (aqBuffer ?q)) w) else w"
    let ?e1 = "if length (arpQueue ?e) \<ge> ARP_MAX_PENDING_PACKETS then ?f ?e else ?e"
    have ok: "entry_ok ?e" by (rule arp_invD(4) [OF inv k])
    have inv1: "arp_inv B n i ?w1"
    proof (cases "length (arpQueue ?e) \<ge> ARP_MAX_PENDING_PACKETS")
      case True
      then obtain q qs where q: "arpQueue ?e = q # qs" by (cases "arpQueue ?e") auto
      let ?h = "add_mset (aqAddress q) (owned (aqBuffer q))"
      have h: "entry_held ?e = ?h + queue_held qs" by (simp add: entry_held_def q queue_held_def)
      then have s: "?h \<subseteq># mset (live (lx w))"
        using entry_held_le [OF inv k] by (metis mset_subset_eq_add_left subset_mset.order_trans)
      let ?w0 = "put_lx (\<lambda>x. bufFree x (aqAddress ?q) (aqBuffer ?q)) w"
      from s obtain R where "mset (live (lx w)) = ?h + R" by (auto simp only: subset_mset.le_iff_add)
      with bufFree_mset [OF s] q have "mset (live (lx ?w0)) + ?h = mset (live (lx w))" by (simp add: put_lx_def)
      then have "arp_inv B n i (put_arp i k ?f ?w0)"
        using ok arp_invD(6) [OF inv _ k] q h
        by (intro arp_inv_put [OF inv k _ refl]) (auto simp: entry_ok_def entry_held_def put_lx_def queue_held_def)
      then show ?thesis using True by simp
    qed (simp add: inv)
    have c1: "arp_cache ?w1 i = (arp_cache w i)[k := ?e1]" using arp_invD(1,2) [OF inv] k by (simp add: put_lx_def)
    obtain r x where al: "bufAlloc (lx ?w1) (netBufferGetLength b) = (r, x)" by force
    note res = bufAlloc_result [OF al]
    show ?thesis
    proof (cases r)
      case None
      have "arp_inv B n i (?w1\<lparr>lx := x\<rparr>)" by (rule arp_inv_same [OF inv1]) (use res None in \<open>simp add: same_cache_def\<close>)
      then show ?thesis using arpEnqueuePacket_incomplete [OF Some inc refl al] None by simp
    next
      case r: (Some ap)
      obtain adr p where ap: "ap = (adr, p)" by force
      let ?it = "\<lparr>aqAddress = adr, aqBuffer = snd (netBufferCopy p 0 b 0 (netBufferGetLength b)), aqOffset = off, aqAncillary = anc\<rparr>"
      have o: "owned (aqBuffer ?it) = owned p" by simp
      have "arp_inv B n i (put_arp i k (\<lambda>e. e\<lparr>arpQueue := arpQueue e @ [?it]\<rparr>) (?w1\<lparr>lx := x\<rparr>))"
      proof (rule arp_inv_put [OF inv1 k _ refl])
        have e1: "arp_cache ?w1 i ! k = ?e1" using c1 k arp_invD(2) [OF inv] by simp
        show "entry_ok ((arp_cache ?w1 i ! k)\<lparr>arpQueue := arpQueue (arp_cache ?w1 i ! k) @ [?it]\<rparr>)"
          unfolding e1 using ok inc by (auto simp: entry_ok_def)
        show "mset (live (lx (?w1\<lparr>lx := x\<rparr>))) + entry_held (arp_cache ?w1 i ! k) =
          mset (live (lx ?w1)) + entry_held ((arp_cache ?w1 i ! k)\<lparr>arpQueue := arpQueue (arp_cache ?w1 i ! k) @ [?it]\<rparr>)"
          using res r ap o by (simp add: entry_held_def queue_held_def)
        show "\<forall>j < n. j \<noteq> k \<and> arpState (arp_cache ?w1 i ! j) \<noteq> ARP_STATE_NONE \<longrightarrow>
          arpIpAddr (arp_cache ?w1 i ! j) \<noteq> arpIpAddr ((arp_cache ?w1 i ! k)\<lparr>arpQueue := arpQueue (arp_cache ?w1 i ! k) @ [?it]\<rparr>)"
          using arp_invD(6) [OF inv1 _ k] inc by (auto simp: e1)
      qed simp
      then show ?thesis using arpEnqueuePacket_incomplete [OF Some inc refl al] r ap by simp
    qed
  qed (simp add: arpEnqueuePacket_def Some inv)
qed (simp add: arpEnqueuePacket_def inv)

lemma arpSendRequest_inv: "arp_inv B n i w \<Longrightarrow> arp_inv B n i (snd (arpSendRequest j a m w))"
  by (rule arp_inv_same [OF _ arpSendRequest_same])

lemma arp_request_cache: "arp_cache (snd (arpSendRequest j a m w)) i = arp_cache w i"
  using arpSendRequest_same [of i w j a m] by (simp add: same_cache_def)

text \<open>Giving up an entry: its queue is released before.\<close>

lemma arp_drop_inv:
  assumes inv: "arp_inv B n i w" and k: "k < n" and q: "arpQueue (arp_cache w i ! k) = []"
  shows "arp_inv B n i (put_arp i k (\<lambda>e. e\<lparr>arpState := ARP_STATE_NONE\<rparr>) w)"
  by (rule arp_inv_change [OF inv k]) (use q in \<open>simp_all add: entry_ok_def\<close>)

lemma arp_flush_drop_inv:
  assumes inv: "arp_inv B n i w" and k: "k < n"
  shows "arp_inv B n i (put_arp i k (\<lambda>e. e\<lparr>arpState := ARP_STATE_NONE\<rparr>) (arpFlushQueuedPackets i k w))"
  by (rule arp_drop_inv [OF arpFlushQueuedPackets_inv [OF inv k] k])
    (use k arp_invD(2) [OF inv] in \<open>simp add: arpFlushQueuedPackets_cache [OF inv k]\<close>)

lemma arp_tick_entry_inv:
  assumes inv: "arp_inv B n i w" and k: "k < n"
  shows "arp_inv B n i (arp_tick_entry i t k w)"
proof -
  let ?e = "arp_cache w i ! k"
  let ?w1 = "put_arp i k (\<lambda>e. e\<lparr>arpRetransmitCount := arpRetransmitCount e + 1\<rparr>) w"
  have ok: "entry_ok ?e" by (rule arp_invD(4) [OF inv k])
  have n: "length (arp_cache w i) = n" "i < length (netInterface w)" using arp_invD(1,2) [OF inv] by simp_all
  have inv1: "arpState ?e \<noteq> ARP_STATE_NONE \<Longrightarrow> arp_inv B n i ?w1"
    using ok by (intro arp_inv_change [OF inv k]) (auto simp: entry_ok_def)
  have c1: "arp_cache ?w1 i ! k = ?e\<lparr>arpRetransmitCount := arpRetransmitCount ?e + 1\<rparr>" using n k by simp
  have again: "arpState ?e \<noteq> ARP_STATE_NONE \<Longrightarrow>
      arp_inv B n i (put_arp i k (\<lambda>e. e\<lparr>arpTimestamp := t, arpTimeout := z\<rparr>) (snd (arpSendRequest i a m ?w1)))" for z a m
    using ok by (intro arp_inv_change [OF arpSendRequest_inv [OF inv1] k]) (auto simp: arp_request_cache c1 entry_ok_def)
  have stale: "arpState ?e = ARP_STATE_REACHABLE \<Longrightarrow> link_time w = (t', w') \<Longrightarrow>
      arp_inv B n i (put_arp i k (\<lambda>e. e\<lparr>arpTimestamp := t', arpState := ARP_STATE_STALE\<rparr>) w')" for t' w'
    using ok link_time_same [of w t' w' i]
    by (intro arp_inv_change [OF arp_inv_same [OF inv] k]) (auto simp: same_cache_def entry_ok_def)
  have probe: "arpState ?e = ARP_STATE_DELAY \<Longrightarrow>
      arp_inv B n i (put_arp i k (\<lambda>e. e\<lparr>arpTimestamp := t, arpTimeout := ARP_PROBE_TIMEOUT, arpState := ARP_STATE_PROBE\<rparr>)
        (snd (arpSendRequest i a m w)))" for a m
    using ok by (intro arp_inv_change [OF arpSendRequest_inv [OF inv] k]) (auto simp: arp_request_cache entry_ok_def)
  have "arpState ?e = ARP_STATE_PROBE \<Longrightarrow> arp_inv B n i (put_arp i k (\<lambda>e. e\<lparr>arpState := ARP_STATE_NONE\<rparr>) ?w1)"
    using ok by (intro arp_drop_inv [OF inv1 k]) (auto simp: c1 entry_ok_def)
  then show ?thesis using inv again stale probe arp_flush_drop_inv [OF inv1 k]
    by (auto simp: arp_tick_entry_def Let_def simp del: put_arp_simps split: prod.split)
qed

lemma arp_foldl_inv:
  assumes "arp_inv B n i w" and "set ks \<subseteq> {..<n}" and "\<And>w k. arp_inv B n i w \<Longrightarrow> k < n \<Longrightarrow> arp_inv B n i (f w k)"
  shows "arp_inv B n i (foldl f w ks)"
  using assms(1,2) by (induction ks arbitrary: w) (auto simp: assms(3))

lemma arpTick_inv: "arp_inv B n i w \<Longrightarrow> arp_inv B n i (arpTick i w)"
proof -
  assume inv: "arp_inv B n i w"
  obtain t w1 where t: "link_time w = (t, w1)" by force
  have inv1: "arp_inv B n i w1" by (rule arp_inv_same [OF inv link_time_same [OF t]])
  have "set [0..<length (arp_cache w1 i)] \<subseteq> {..<n}" using arp_invD(2) [OF inv1] by auto
  then have "arp_inv B n i (foldl (\<lambda>w k. arp_tick_entry i t k w) w1 [0..<length (arp_cache w1 i)])"
    by (rule arp_foldl_inv [OF inv1]) (rule arp_tick_entry_inv)
  then show ?thesis by (simp add: arpTick_def t)
qed

lemma arpFlushCache_inv: "arp_inv B n i w \<Longrightarrow> arp_inv B n i (arpFlushCache i w)"
  using arp_invD(2) by (auto simp: arpFlushCache_def intro!: arp_foldl_inv arp_flush_drop_inv)

lemma arp_transmit_same: "same_cache i w (snd (arp_transmit j m p w))"
  using quiet_same_cache [OF arp_transmit_quiet [of j m p w "fst (arp_transmit j m p w)" "snd (arp_transmit j m p w)"]] by simp

lemma put_ipv4_same: "same_cache i w (put_ipv4 j f w)"
  by (cases "j < length (netInterface w)"; cases "i = j") (simp_all add: same_cache_def put_ipv4_def put_interface_def list_update_beyond)

lemma same_cache_trans: "same_cache i w w1 \<Longrightarrow> same_cache i w1 w2 \<Longrightarrow> same_cache i w w2"
  by (simp add: same_cache_def)

lemma same_cache_refl [simp]: "same_cache i w w"
  by (simp add: same_cache_def)

lemma arpProcessRequest_same: "same_cache i w (arpProcessRequest j p w)"
  by (auto simp: arpProcessRequest_def Let_def arpSendReply_def intro: put_ipv4_same same_cache_trans [OF put_ipv4_same arp_transmit_same])

lemma arp_inv_if: "(g \<Longrightarrow> arp_inv B n i x) \<Longrightarrow> (\<not> g \<Longrightarrow> arp_inv B n i y) \<Longrightarrow> arp_inv B n i (if g then x else y)"
  by simp

text \<open>A reply is ignored or handled by the entry of its sender.\<close>

lemma arpProcessReply_rule:
  assumes f: "arpFindEntry i (arp_spa p) w = Some k" and "Q w"
    and "Q (let e = arp_cache w i ! k
              in if arpState e = ARP_STATE_INCOMPLETE then
                   let (t, w) = link_time (arpSendQueuedPackets i k (put_arp i k (\<lambda>e. e\<lparr>arpMacAddr := arp_sha p\<rparr>) w))
                   in put_arp i k (\<lambda>e. e\<lparr>arpTimestamp := t, arpTimeout := ARP_REACHABLE_TIME, arpState := ARP_STATE_REACHABLE\<rparr>) w
                 else if arpState e = ARP_STATE_REACHABLE then
                   (if arp_sha p \<noteq> arpMacAddr e then put_arp i k (\<lambda>e. e\<lparr>arpState := ARP_STATE_STALE\<rparr>) w else w)
                 else if arpState e = ARP_STATE_PROBE then
                   let (t, w) = link_time w
                   in put_arp i k (\<lambda>e. e\<lparr>arpIpAddr := arp_spa p, arpMacAddr := arp_sha p, arpTimestamp := t,
                        arpTimeout := ARP_REACHABLE_TIME, arpState := ARP_STATE_REACHABLE\<rparr>) w
                 else w)"
  shows "Q (arpProcessReply i p w)"
  using assms(2,3) unfolding arpProcessReply_def f option.case Let_def by simp

lemma arpProcessReply_inv:
  assumes inv: "arp_inv B n i w" and l: "14 \<le> length p"
  shows "arp_inv B n i (arpProcessReply i p w)"
proof (cases "arp_sha p = MAC_UNSPECIFIED_ADDR \<or> macIsMulticastAddr (arp_sha p) \<or> arpFindEntry i (arp_spa p) w = None")
  case True
  then show ?thesis using inv by (auto simp: arpProcessReply_def Let_def)
next
  case False
  then obtain k where f: "arpFindEntry i (arp_spa p) w = Some k" and m: "host_mac (arp_sha p)"
    using l by (auto simp: host_mac_def arp_sha_def)
  let ?e = "arp_cache w i ! k"
  from arpFindEntry_Some [OF f] arp_invD(2) [OF inv] have k: "k < n" and a: "arpIpAddr ?e = arp_spa p" by simp_all
  have ok: "entry_ok ?e" by (rule arp_invD(4) [OF inv k])
  have n: "length (arp_cache w i) = n" "i < length (netInterface w)" using arp_invD(1,2) [OF inv] by simp_all
  obtain t w1 where t: "link_time w = (t, w1)" by force
  have inv1: "arp_inv B n i w1" and c1: "arp_cache w1 i = arp_cache w i"
    using arp_inv_same [OF inv] link_time_same [OF t] by (auto simp: same_cache_def)
  have probe: "arpState ?e = ARP_STATE_PROBE \<Longrightarrow> arp_inv B n i (put_arp i k (\<lambda>e. e\<lparr>arpIpAddr := arp_spa p, arpMacAddr := arp_sha p, arpTimestamp := t,
      arpTimeout := ARP_REACHABLE_TIME, arpState := ARP_STATE_REACHABLE\<rparr>) w1)"
    using ok m a by (intro arp_inv_change [OF inv1 k]) (auto simp: c1 entry_ok_def)
  have stale: "arpState ?e = ARP_STATE_REACHABLE \<Longrightarrow> arp_inv B n i (put_arp i k (\<lambda>e. e\<lparr>arpState := ARP_STATE_STALE\<rparr>) w)"
    using ok by (intro arp_inv_change [OF inv k]) (auto simp: entry_ok_def)
  have "arp_inv B n i (put_arp i k (\<lambda>e. e\<lparr>arpTimestamp := t2, arpTimeout := ARP_REACHABLE_TIME, arpState := ARP_STATE_REACHABLE\<rparr>) w2)"
    if inc: "arpState ?e = ARP_STATE_INCOMPLETE"
      and t2: "link_time (arpSendQueuedPackets i k (put_arp i k (\<lambda>e. e\<lparr>arpMacAddr := arp_sha p\<rparr>) w)) = (t2, w2)" for t2 w2
  proof -
    let ?w1 = "put_arp i k (\<lambda>e. e\<lparr>arpMacAddr := arp_sha p\<rparr>) w"
    have i1: "arp_inv B n i ?w1" using ok inc by (intro arp_inv_change [OF inv k]) (auto simp: entry_ok_def)
    have c: "arp_cache ?w1 i ! k = ?e\<lparr>arpMacAddr := arp_sha p\<rparr>" "length (arp_cache ?w1 i) = n" using n k by simp_all
    have i2: "arp_inv B n i w2" and c2: "arp_cache w2 i ! k = ?e\<lparr>arpMacAddr := arp_sha p, arpQueue := []\<rparr>"
      using arp_inv_same [OF arpSendQueuedPackets_inv(1) [OF i1 k] link_time_same [OF t2]] link_time_same [OF t2, of i]
        arpSendQueuedPackets_inv(2) [OF i1 k] c k by (simp_all add: same_cache_def)
    show ?thesis using m inc by (intro arp_inv_change [OF i2 k]) (auto simp: c2 entry_ok_def)
  qed
  then have inc: "arpState ?e = ARP_STATE_INCOMPLETE \<Longrightarrow>
    arp_inv B n i (let (t, w) = link_time (arpSendQueuedPackets i k (put_arp i k (\<lambda>e. e\<lparr>arpMacAddr := arp_sha p\<rparr>) w))
      in put_arp i k (\<lambda>e. e\<lparr>arpTimestamp := t, arpTimeout := ARP_REACHABLE_TIME, arpState := ARP_STATE_REACHABLE\<rparr>) w)"
    by (simp only: Let_def split: prod.split) simp
  have probe': "arpState ?e = ARP_STATE_PROBE \<Longrightarrow> arp_inv B n i (let (t, w) = link_time w
      in put_arp i k (\<lambda>e. e\<lparr>arpIpAddr := arp_spa p, arpMacAddr := arp_sha p, arpTimestamp := t,
                        arpTimeout := ARP_REACHABLE_TIME, arpState := ARP_STATE_REACHABLE\<rparr>) w)"
    using probe unfolding t Let_def prod.case .
  show ?thesis
    by (rule arpProcessReply_rule [where Q = "arp_inv B n i", OF f inv], unfold Let_def [of ?e], intro arp_inv_if) (simp_all only: inc stale probe' inv)
qed

lemma arpProcessPacket_inv:
  assumes "arp_inv B n i w"
  shows "arp_inv B n i (arpProcessPacket i p w)"
proof -
  have a: "arp_inv B n i (put_addr i k f w)" for k f
    unfolding put_addr_def by (rule arp_inv_same [OF assms put_ipv4_same])
  show ?thesis using assms a arpProcessReply_inv [OF assms, of p] arp_inv_same [OF assms arpProcessRequest_same]
    by (auto simp: arpProcessPacket_def Let_def split: option.split)
qed

lemma ipv4_transmit_inv:
  assumes "arp_inv B n i w"
  shows "arp_inv B n i (snd (snd (ipv4_transmit i src dest b off anc w)))"
proof -
  have s: "arp_inv B n i (snd (snd (ethSendFrame i m ty b off w)))" if w: "arp_inv B n i w" for m ty w
  proof -
    obtain e b' w' where e: "ethSendFrame i m ty b off w = (e, b', w')" by (metis prod_cases3)
    show ?thesis using arp_inv_same [OF w quiet_same_cache [OF ethSendFrame_quiet(1) [OF e]]] e by simp
  qed
  have resolve: "arp_inv B n i (snd (snd (case arpResolve i a w of
                 (NO_ERROR, Some m, w) \<Rightarrow> ethSendFrame i m ETH_TYPE_IPV4 b off w
               | (ERROR_IN_PROGRESS, _, w) \<Rightarrow> (let (e, w) = arpEnqueuePacket i a b off anc w in (e, b, w))
               | (e, _, w) \<Rightarrow> (e, b, w))))" for a
  proof -
    obtain e m w' where r: "arpResolve i a w = (e, m, w')" by (metis prod_cases3)
    have inv: "arp_inv B n i w'" using arpResolve_inv [OF assms, of a] r by simp
    have q: "arp_inv B n i (snd (snd (let (e, w) = arpEnqueuePacket i a b off anc w' in (e, b, w))))"
      using arpEnqueuePacket_inv [OF inv, of a b off anc] by (simp add: split_beta)
    show ?thesis unfolding r using s [OF inv] q inv by (cases e; cases m) simp_all
  qed
  show ?thesis unfolding ipv4_transmit_def using assms s [OF assms] resolve by (simp split: option.split hop.split)
qed

section \<open>Any run\<close>

datatype arp_event = Arp_Send Ipv4Addr Ipv4Addr NetBuffer nat NetAncillaryData | Arp_Tick | Arp_Receive "u8 list" | Arp_Flush

fun arp_step :: "nat \<Rightarrow> link \<Rightarrow> arp_event \<Rightarrow> link" where
  "arp_step i w (Arp_Send src dest b off anc) = snd (snd (ipv4_transmit i src dest b off anc w))"
| "arp_step i w Arp_Tick = arpTick i w"
| "arp_step i w (Arp_Receive p) = arpProcessPacket i p w"
| "arp_step i w Arp_Flush = arpFlushCache i w"

lemma arp_step_inv: "arp_inv B n i w \<Longrightarrow> arp_inv B n i (arp_step i w ev)"
  by (cases ev) (simp_all add: ipv4_transmit_inv arpTick_inv arpProcessPacket_inv arpFlushCache_inv)

lemma arp_run_inv: "arp_inv B n i w \<Longrightarrow> arp_inv B n i (foldl (arp_step i) w evs)"
  by (induction evs arbitrary: w) (simp_all add: arp_step_inv)

lemma arpInit_inv:
  assumes "0 < n" and "i < length (netInterface w)" and "length (arp_cache w i) = n"
  shows "arp_inv (mset (live (lx w))) n i (arpInit i w)"
proof -
  have "cache_held (replicate n zeroArpEntry) = {#}" by (induction n) (simp_all add: cache_held_def)
  then show ?thesis using assms by (simp add: arp_inv_def arpInit_def put_interface_def)
qed

text \<open>After a flush no entry is in use, and none holds a packet.\<close>

lemma arpFlushCache_none:
  assumes "arp_inv B n i w"
  shows "\<forall>e \<in> set (arp_cache (arpFlushCache i w) i). arpState e = ARP_STATE_NONE"
proof -
  let ?f = "\<lambda>w k. put_arp i k (\<lambda>e. e\<lparr>arpState := ARP_STATE_NONE\<rparr>) (arpFlushQueuedPackets i k w)"
  have "\<forall>k < m. arpState (arp_cache (foldl ?f w [0..<m]) i ! k) = ARP_STATE_NONE" if "m \<le> n" for m
    using that
  proof (induction m)
    case (Suc m)
    let ?w = "foldl ?f w [0..<m]"
    have inv: "arp_inv B n i ?w" using Suc.prems by (intro arp_foldl_inv [OF assms]) (auto simp: arp_flush_drop_inv)
    note c = arpFlushQueuedPackets_cache [OF inv] and d = arp_invD(1,2) [OF arpFlushQueuedPackets_inv [OF inv]]
    show ?case using Suc c [of m] d [of m] arp_invD(2) [OF inv] by (simp add: less_Suc_eq)
  qed simp
  from this [of n] show ?thesis
    using arp_invD(2) [OF assms] arp_invD(2) [OF arpFlushCache_inv [OF assms]] by (auto simp: arpFlushCache_def in_set_conv_nth)
qed

lemma cache_held_none:
  assumes "\<forall>e \<in> set cs. entry_ok e \<and> arpState e = ARP_STATE_NONE"
  shows "cache_held cs = {#}"
  using assms by (induction cs) (auto simp: cache_held_def entry_held_idle)

text \<open>
  Property C12. From its initialization on, whatever is sent, received, timed out or flushed: the ARP cache keeps its size, no two
  entries in use have the same address, only incomplete entries hold packets and at most two each, every resolved entry has the
  MAC address of a host, and the blocks in use are those in use before and those of the packets held; a flush gives
  the latter back.
\<close>

theorem arp_cache_invariant:
  assumes "0 < n" and "i < length (netInterface w)" and "length (arp_cache w i) = n"
    and "w' = foldl (arp_step i) (arpInit i w) evs"
  shows "length (arp_cache w' i) = n \<and> (\<forall>e \<in> set (arp_cache w' i). entry_ok e) \<and>
    (\<forall>j < n. \<forall>k < n. arpState (arp_cache w' i ! j) \<noteq> ARP_STATE_NONE \<and> arpState (arp_cache w' i ! k) \<noteq> ARP_STATE_NONE \<and>
      arpIpAddr (arp_cache w' i ! j) = arpIpAddr (arp_cache w' i ! k) \<longrightarrow> j = k) \<and>
    mset (live (lx w')) = mset (live (lx w)) + cache_held (arp_cache w' i) \<and>
    mset (live (lx (arpFlushCache i w'))) = mset (live (lx w))"
proof -
  have inv: "arp_inv (mset (live (lx w))) n i w'"
    unfolding assms(4) by (rule arp_run_inv [OF arpInit_inv [OF assms(1-3)]])
  note flushed = arpFlushCache_inv [OF inv]
  have "cache_held (arp_cache (arpFlushCache i w') i) = {#}"
    using arpFlushCache_none [OF inv] flushed by (intro cache_held_none) (auto simp: arp_inv_def)
  then show ?thesis using inv arp_invD(5) [OF flushed] by (simp add: arp_inv_def)
qed

theorem arp_cache_invariant_witness:
  "\<exists>w'. w' = foldl (arp_step 0) (arpInit 0 (example_link [example_if [example_addr 1]]))
      [Arp_Send (IPV4_ADDR 10 0 1 1) (IPV4_ADDR 10 0 1 9) \<lparr>maxChunkCount = 3, chunk = []\<rparr> 0 NET_DEFAULT_ANCILLARY_DATA, Arp_Tick,
       Arp_Receive [], Arp_Tick] \<and>
    length (arp_cache w' 0) = 8 \<and> mset (live (lx (arpFlushCache 0 w'))) = mset (live (lx (example_link [example_if [example_addr 1]])))"
proof -
  let ?w = "example_link [example_if [example_addr 1]]"
  have "length (netInterface ?w) = 1" "length (arp_cache ?w 0) = 8" by (simp_all add: example_link_def example_if_def)
  then have *: "w' = foldl (arp_step 0) (arpInit 0 ?w) evs \<Longrightarrow>
    length (arp_cache w' 0) = 8 \<and> mset (live (lx (arpFlushCache 0 w'))) = mset (live (lx ?w))" for w' evs
    using arp_cache_invariant [of 8 0 ?w w' evs] by simp
  show ?thesis by (intro exI conjI, rule refl) (use * in blast)+
qed

section \<open>A reply\<close>

lemma ethSendFrame_ready: "txReady (snd (snd (ethSendFrame i m ty b off w))) = txReady w"
  by (auto simp: ethSendFrame_def nicSendPacket_def put_lx_def Let_def split: option.split prod.split)

text \<open>A packet that the Ethernet layer can send from its buffer, and the frame it makes of it.\<close>

definition sendable :: "ArpQueueItem \<Rightarrow> bool" where
  "sendable q \<longleftrightarrow> nb_wf (aqBuffer q) \<and> 14 \<le> aqOffset q \<and> chunkCount (aqBuffer q) + 2 \<le> maxChunkCount (aqBuffer q) \<and>
     (case chunk (aqBuffer q) of [] \<Rightarrow> False | c # cs \<Rightarrow> aqOffset q \<le> chLength c)"

definition packet_frame :: "MacAddr \<Rightarrow> MacAddr \<Rightarrow> ArpQueueItem \<Rightarrow> u8 list" where
  "packet_frame dest src q = with_crc (pad60 (dest @ src @ be16 ETH_TYPE_IPV4 @ drop (aqOffset q) (nb_bytes (aqBuffer q))))"

lemma send_queue_frames:
  assumes d: "nicDriver (netInterface w ! i) = Some d" "autoPadding d \<longrightarrow> autoCrcCalc d" "configured (netInterface w ! i)"
      "\<forall>n. txReady w n" "length m = 6" "length (macAddr (netInterface w ! i)) = 6"
    and qs: "\<forall>q \<in> set qs. sendable q"
  shows "\<exists>Fs. frames (send_queue i m qs w) = frames w @ map (Pair i) Fs \<and>
    map (hw_send d) Fs = map (packet_frame m (macAddr (netInterface w ! i))) qs"
  using d(1,3,4,6) qs
proof (induction qs arbitrary: w)
  case (Cons q qs)
  from Cons.prems(5) obtain c cs where q: "nb_wf (aqBuffer q)" "chunk (aqBuffer q) = c # cs" "14 \<le> aqOffset q" "aqOffset q \<le> chLength c"
    "chunkCount (aqBuffer q) + 2 \<le> maxChunkCount (aqBuffer q)"
    by (auto simp: sendable_def split: list.splits)
  from ethSendFrame_frame [OF q d(5) Cons.prems(4,1) d(2) Cons.prems(2), of ETH_TYPE_IPV4] Cons.prems(3) obtain e b w1 F where
    s: "ethSendFrame i m ETH_TYPE_IPV4 (aqBuffer q) (aqOffset q) w = (e, b, w1)" and F: "frames w1 = frames w @ [(i, F)]"
      "hw_send d F = packet_frame m (macAddr (netInterface w ! i)) q" by (auto simp: packet_frame_def)
  let ?w = "put_lx (\<lambda>x. bufFree x (aqAddress q) b) w1"
  have w: "netInterface ?w = netInterface w" "txReady ?w = txReady w" "frames ?w = frames w1"
    using ethSendFrame_quiet(1) [OF s] ethSendFrame_ready [of i m ETH_TYPE_IPV4 "aqBuffer q" "aqOffset q" w] s
    by (simp_all add: quiet_def put_lx_def)
  from Cons.IH [of ?w] Cons.prems obtain Fs where "frames (send_queue i m qs ?w) = frames w1 @ map (Pair i) Fs"
    "map (hw_send d) Fs = map (packet_frame m (macAddr (netInterface w ! i))) qs" unfolding w by auto
  with s F show ?case by (auto intro!: exI [of _ "F # Fs"])
qed simp

text \<open>A reply that the interface accepts: from a host of the link, to one of its own addresses.\<close>

definition accepted_reply :: "NetInterface \<Rightarrow> u8 list \<Rightarrow> bool" where
  "accepted_reply ifc p \<longleftrightarrow> SIZEOF_ARP_PACKET \<le> length p \<and> take 6 p = [0, 1, 8, 0, 6, 4] \<and> arp_op p = ARP_OPCODE_ARP_REPLY \<and>
     (\<forall>e \<in> set (addrList (ipv4Context ifc)). \<not> arp_conflict (macAddr ifc) p e) \<and>
     (\<exists>e \<in> set (addrList (ipv4Context ifc)). aeState e \<noteq> IPV4_ADDR_STATE_INVALID \<and> aeAddr e = arp_tpa p) \<and>
     arp_spa p \<noteq> IPV4_UNSPECIFIED_ADDR \<and> \<not> ipv4IsBroadcastAddr ifc (arp_spa p) \<and> \<not> is_multicast (arp_spa p) \<and>
     host_mac (arp_sha p) \<and> \<not> ipv4IsTentativeAddr ifc (arp_tpa p)"

lemma take6: "take 6 p = [a, b, c, d, e, f] \<Longrightarrow> p ! 0 = a \<and> p ! 1 = b \<and> p ! 2 = c \<and> p ! 3 = d \<and> p ! 4 = e \<and> p ! 5 = f"
  using nth_take [of 0 6 p] nth_take [of 1 6 p] nth_take [of 2 6 p] nth_take [of 3 6 p] nth_take [of 4 6 p] nth_take [of 5 6 p] by simp

lemma arpProcessPacket_reply:
  assumes "accepted_reply (netInterface w ! i) p"
  shows "arpProcessPacket i p w = arpProcessReply i p w"
proof -
  have "p ! 0 = 0 \<and> p ! 1 = 1 \<and> p ! 2 = 8 \<and> p ! 3 = 0 \<and> p ! 4 = 6 \<and> p ! 5 = 4" using take6 [of p 0 1 8 0 6 4] assms by (simp add: accepted_reply_def)
  moreover have "index_of (arp_conflict (macAddr (netInterface w ! i)) p) (addrList (ipv4Context (netInterface w ! i))) = None"
    using assms by (simp add: accepted_reply_def index_of_None)
  ultimately show ?thesis using assms by (simp add: arpProcessPacket_def accepted_reply_def of_be16_def)
qed

lemma arpProcessReply_incomplete:
  assumes "accepted_reply (netInterface w ! i) p" and "arpFindEntry i (arp_spa p) w = Some k"
    and "arpState (arp_cache w i ! k) = ARP_STATE_INCOMPLETE"
    and "link_time (arpSendQueuedPackets i k (put_arp i k (\<lambda>e. e\<lparr>arpMacAddr := arp_sha p\<rparr>) w)) = (t, w1)"
  shows "arpProcessReply i p w =
    put_arp i k (\<lambda>e. e\<lparr>arpTimestamp := t, arpTimeout := ARP_REACHABLE_TIME, arpState := ARP_STATE_REACHABLE\<rparr>) w1"
proof -
  have "\<not> (arp_spa p = IPV4_UNSPECIFIED_ADDR \<or> ipv4IsBroadcastAddr (netInterface w ! i) (arp_spa p) \<or> is_multicast (arp_spa p) \<or>
      arp_sha p = MAC_UNSPECIFIED_ADDR \<or> arp_sha p = MAC_BROADCAST_ADDR \<or> macIsMulticastAddr (arp_sha p) \<or>
      ipv4IsTentativeAddr (netInterface w ! i) (arp_tpa p))"
    using assms(1) by (auto simp: accepted_reply_def host_mac_def macIsMulticastAddr_def MAC_BROADCAST_ADDR_def)
  then show ?thesis using assms(2-4) unfolding arpProcessReply_def Let_def by simp
qed

text \<open>
  Property C13. The reply for which packets wait sends them all, in the order in which they came, to the MAC address of the
  replier, releases their blocks and leaves the entry reachable under that address.
\<close>

theorem arp_reply_sends:
  assumes "arp_inv B n i w" and "accepted_reply (netInterface w ! i) p" and "arpFindEntry i (arp_spa p) w = Some k"
    and "e = arp_cache w i ! k" and "arpState e = ARP_STATE_INCOMPLETE" and "\<forall>q \<in> set (arpQueue e). sendable q"
    and "nicDriver (netInterface w ! i) = Some d" and "autoPadding d \<longrightarrow> autoCrcCalc d" and "configured (netInterface w ! i)"
    and "\<forall>n. txReady w n" and "length (macAddr (netInterface w ! i)) = 6" and "w' = arpProcessPacket i p w"
  shows "(\<exists>Fs. frames w' = frames w @ map (Pair i) Fs \<and>
      map (hw_send d) Fs = map (packet_frame (arp_sha p) (macAddr (netInterface w ! i))) (arpQueue e)) \<and>
    (\<exists>t. arp_cache w' i = (arp_cache w i)[k := e\<lparr>arpMacAddr := arp_sha p, arpQueue := [], arpTimestamp := t,
      arpTimeout := ARP_REACHABLE_TIME, arpState := ARP_STATE_REACHABLE\<rparr>]) \<and>
    mset (live (lx w')) + entry_held e = mset (live (lx w))"
proof -
  note inv = assms(1)
  have k: "k < n" using arpFindEntry_Some [OF assms(3)] arp_invD(2) [OF inv] by simp
  have nk: "i < length (netInterface w)" "k < length (arp_cache w i)" using arp_invD(1,2) [OF inv] k by simp_all
  let ?m = "arp_sha p"
  let ?w1 = "put_arp i k (\<lambda>e. e\<lparr>arpMacAddr := ?m\<rparr>) w"
  have i1: "arp_inv B n i ?w1"
    using arp_invD(4) [OF inv k] assms(4,5) by (intro arp_inv_change [OF inv k]) (auto simp: entry_ok_def)
  have c1: "arp_cache ?w1 i = (arp_cache w i)[k := e\<lparr>arpMacAddr := ?m\<rparr>]" "arp_cache ?w1 i ! k = e\<lparr>arpMacAddr := ?m\<rparr>"
    using nk assms(4) by simp_all
  have w1: "nicDriver (netInterface ?w1 ! i) = Some d" "configured (netInterface ?w1 ! i)"
    "macAddr (netInterface ?w1 ! i) = macAddr (netInterface w ! i)" "\<forall>n. txReady ?w1 n" "frames ?w1 = frames w" "lx ?w1 = lx w"
    using nk assms(7,9,10) by (simp_all add: put_arp_def put_interface_def)
  let ?w2 = "send_queue i ?m (arpQueue e) ?w1"
  have m: "length ?m = 6" using assms(2) by (simp add: accepted_reply_def host_mac_def)
  obtain Fs where F: "frames ?w2 = frames w @ map (Pair i) Fs"
    "map (hw_send d) Fs = map (packet_frame ?m (macAddr (netInterface w ! i))) (arpQueue e)"
    using send_queue_frames [OF w1(1) assms(8) w1(2,4) m _ assms(6)] assms(11) unfolding w1(3,5) by blast
  have h: "queue_held (arpQueue e) \<subseteq># mset (live (lx ?w1))" using entry_held_le [OF i1 k] c1(2) by (simp add: entry_held_def)
  have s: "netInterface ?w2 = netInterface ?w1" "mset (live (lx ?w2)) + entry_held e = mset (live (lx w))"
    using send_queue_live [OF h, of i ?m] w1(6) by (simp_all add: entry_held_def)
  let ?w3 = "put_arp i k (\<lambda>e. e\<lparr>arpQueue := []\<rparr>) ?w2"
  have a: "arpSendQueuedPackets i k ?w1 = ?w3" using c1(2) assms(5) by (simp add: arpSendQueuedPackets_def Let_def)
  obtain t w4 where t: "link_time ?w3 = (t, w4)" by force
  have w4: "netInterface w4 = netInterface ?w3" "mset (live (lx w4)) = mset (live (lx ?w2))" "frames w4 = frames ?w2"
    using t nk s(1) by (auto simp: link_time_def osGetSystemTime_def tick_call_def put_arp_def put_interface_def)
  have w': "w' = put_arp i k (\<lambda>e. e\<lparr>arpTimestamp := t, arpTimeout := ARP_REACHABLE_TIME, arpState := ARP_STATE_REACHABLE\<rparr>) w4"
    using arpProcessReply_incomplete [OF assms(2,3) assms(5) [unfolded assms(4)], folded assms(4), of t w4] t a
      arpProcessPacket_reply [OF assms(2)] assms(12) by simp
  have "arp_cache w' i = (arp_cache w i)[k := e\<lparr>arpMacAddr := ?m, arpQueue := [], arpTimestamp := t,
      arpTimeout := ARP_REACHABLE_TIME, arpState := ARP_STATE_REACHABLE\<rparr>]"
    using nk w4(1) s(1) assms(4) by (simp add: w')
  moreover have "frames w' = frames ?w2" "lx w' = lx w4" using w4(3) by (simp_all add: w' put_arp_def put_interface_def)
  ultimately show ?thesis using F s(2) w4(2) by (auto simp del: put_arp_simps)
qed

definition waiting_item :: ArpQueueItem where
  "waiting_item = \<lparr>aqAddress = 7,
     aqBuffer = \<lparr>maxChunkCount = 3, chunk = [\<lparr>address = 0, storage = replicate 14 0 @ [1, 2, 3], chLength = 17, chSize = 0\<rparr>]\<rparr>,
     aqOffset = 14, aqAncillary = NET_DEFAULT_ANCILLARY_DATA\<rparr>"

definition waiting_entry :: ArpCacheEntry where
  "waiting_entry = zeroArpEntry\<lparr>arpState := ARP_STATE_INCOMPLETE, arpIpAddr := IPV4_ADDR 10 0 1 9, arpQueue := [waiting_item]\<rparr>"

definition waiting_link :: link where
  "waiting_link = (example_link [(example_if [example_addr 1])\<lparr>arpCache := waiting_entry # replicate 7 zeroArpEntry\<rparr>])
     \<lparr>lx := example_ctx\<lparr>live := [7]\<rparr>\<rparr>"

lemma waiting_link_simps [simp]:
  "arp_cache waiting_link 0 = waiting_entry # replicate 7 zeroArpEntry" "length (netInterface waiting_link) = 1"
  "live (lx waiting_link) = [7]" "frames waiting_link = []" "txReady waiting_link n"
  "macAddr (netInterface waiting_link ! 0) = [2, 0, 0, 0, 0, 1]" "configured (netInterface waiting_link ! 0)"
  "nicDriver (netInterface waiting_link ! 0) = Some \<lparr>nicType = NIC_TYPE_ETHERNET, nicMtu = 1500, autoPadding = False, autoCrcCalc = False,
       autoCrcVerif = False, autoCrcStrip = False\<rparr>"
  "addrList (ipv4Context (netInterface waiting_link ! 0)) = [example_addr 1]"
  by (simp_all add: waiting_link_def example_link_def example_if_def)

lemma waiting_held: "entry_held waiting_entry = {#7#}"
  by (simp add: entry_held_def queue_held_def waiting_entry_def waiting_item_def owned_def)

lemma waiting_inv: "arp_inv {#} 8 0 waiting_link"
proof -
  have "entry_ok waiting_entry" by (simp add: entry_ok_def waiting_entry_def)
  moreover have "cache_held (waiting_entry # replicate 7 zeroArpEntry) = {#7#}"
    by (simp add: cache_held_def waiting_held numeral_eq_Suc)
  moreover have "arpState ((waiting_entry # replicate 7 zeroArpEntry) ! j) \<noteq> ARP_STATE_NONE \<Longrightarrow> j < 8 \<Longrightarrow> j = 0" for j
    by (cases j) simp_all
  ultimately show ?thesis by (auto simp: arp_inv_def)
qed

theorem arp_reply_sends_witness:
  "\<exists>w'. w' = arpProcessPacket 0 (arp_packet ARP_OPCODE_ARP_REPLY [2, 0, 0, 0, 0, 9] (IPV4_ADDR 10 0 1 9) [2, 0, 0, 0, 0, 1] (IPV4_ADDR 10 0 1 1))
      waiting_link \<and>
    frames w' = [(0, with_crc (pad60 [2, 0, 0, 0, 0, 9, 2, 0, 0, 0, 0, 1, 8, 0, 1, 2, 3]))] \<and> live (lx w') = [] \<and>
    arpMacAddr (arp_cache w' 0 ! 0) = [2, 0, 0, 0, 0, 9]"
proof -
  let ?p = "arp_packet ARP_OPCODE_ARP_REPLY [2, 0, 0, 0, 0, 9] (IPV4_ADDR 10 0 1 9) [2, 0, 0, 0, 0, 1] (IPV4_ADDR 10 0 1 1)"
  have p: "arp_sha ?p = [2, 0, 0, 0, 0, 9]" "arp_spa ?p = IPV4_ADDR 10 0 1 9" "arp_tpa ?p = IPV4_ADDR 10 0 1 1" "arp_op ?p = 2"
    "take 6 ?p = [0, 1, 8, 0, 6, 4]" "length ?p = 28"
    by (simp_all add: arp_packet_def arp_sha_def arp_spa_def arp_tpa_def arp_op_def be16_def of_be16_def ip_bytes_def ip_addr_def IPV4_ADDR_def)
  have nz: "[2, 0, 0, 0, 0, 9] \<noteq> (replicate 6 0 :: u8 list)" by (auto dest: arg_cong [where f = hd])
  have r: "accepted_reply (netInterface waiting_link ! 0) ?p"
    unfolding accepted_reply_def arp_conflict_def p
    using nz by (simp add: p example_addr_def host_mac_def MAC_UNSPECIFIED_ADDR_def macIsMulticastAddr_def IPV4_ADDR_def
        ipv4IsBroadcastAddr_def ipv4IsTentativeAddr_def is_multicast_def)
  have f: "arpFindEntry 0 (arp_spa ?p) waiting_link = Some 0" by (simp add: arpFindEntry_def p waiting_entry_def)
  have q: "\<forall>q \<in> set (arpQueue waiting_entry). sendable q"
    by (simp add: waiting_entry_def waiting_item_def sendable_def nb_wf_def chunk_wf_def)
  obtain F t where F: "frames (arpProcessPacket 0 ?p waiting_link) = [(0, F)]"
      "hw_send \<lparr>nicType = NIC_TYPE_ETHERNET, nicMtu = 1500, autoPadding = False, autoCrcCalc = False,
       autoCrcVerif = False, autoCrcStrip = False\<rparr> F = packet_frame [2, 0, 0, 0, 0, 9] [2, 0, 0, 0, 0, 1] waiting_item"
    and c: "arp_cache (arpProcessPacket 0 ?p waiting_link) 0 = (waiting_entry\<lparr>arpMacAddr := [2, 0, 0, 0, 0, 9], arpQueue := [], arpTimestamp := t,
      arpTimeout := ARP_REACHABLE_TIME, arpState := ARP_STATE_REACHABLE\<rparr>) # replicate 7 zeroArpEntry"
    and l: "mset (live (lx (arpProcessPacket 0 ?p waiting_link))) + {#7#} = {#7#}"
    using arp_reply_sends [OF waiting_inv r f refl _ _ _ _ _ _ _ refl] q
    by (auto simp: p waiting_held) (auto simp: waiting_entry_def)
  have ty: "be16 0x0800 = [8, 0]" by (simp add: be16_def)
  have "packet_frame [2, 0, 0, 0, 0, 9] [2, 0, 0, 0, 0, 1] waiting_item = with_crc (pad60 [2, 0, 0, 0, 0, 9, 2, 0, 0, 0, 0, 1, 8, 0, 1, 2, 3])"
    using ty by (simp add: packet_frame_def waiting_item_def nb_bytes_def chunk_bytes_def)
  with F c l show ?thesis by (auto simp: hw_send_def)
qed

section \<open>No reply\<close>

lemma arp_tick_entry_others:
  assumes inv: "arp_inv B n i w" and "j < n" and "k \<noteq> j"
  shows "arp_cache (arp_tick_entry i t j w) i ! k = arp_cache w i ! k"
proof -
  have n: "j < length (arp_cache w i)" "i < length (netInterface w)" using arp_invD(1,2) [OF inv] assms(2) by simp_all
  let ?e = "arp_cache w i ! j"
  let ?w1 = "put_arp i j (\<lambda>e. e\<lparr>arpRetransmitCount := arpRetransmitCount e + 1\<rparr>) w"
  have put: "i < length (netInterface w') \<Longrightarrow> j < length (arp_cache w' i) \<Longrightarrow> arp_cache (put_arp i j f w') i ! k = arp_cache w' i ! k" for f w'
    using assms(3) by simp
  have inv1: "arpState ?e \<noteq> ARP_STATE_NONE \<Longrightarrow> arp_inv B n i ?w1"
    using arp_invD(4) [OF inv assms(2)] by (intro arp_inv_change [OF inv assms(2)]) (auto simp: entry_ok_def)
  have c1: "arp_cache ?w1 i ! k = arp_cache w i ! k" by (rule put [OF n(2,1)])
  have r: "arp_cache (put_arp i j f (snd (arpSendRequest i a m w'))) i ! k = arp_cache w' i ! k"
    if "i < length (netInterface w')" "j < length (arp_cache w' i)" for f a m w'
    using that arpSendRequest_same [of i w' i a m] put [of "snd (arpSendRequest i a m w')" f] by (simp only: same_cache_def)
  have w1: "i < length (netInterface ?w1)" "j < length (arp_cache ?w1 i)" using n by simp_all
  have fl: "arp_cache (put_arp i j f (arpFlushQueuedPackets i j ?w1)) i ! k = arp_cache w i ! k" if "arpState ?e \<noteq> ARP_STATE_NONE" for f
    using arpFlushQueuedPackets_cache [OF inv1 [OF that] assms(2)] arp_invD(1,2) [OF arpFlushQueuedPackets_inv [OF inv1 [OF that] assms(2)]]
      put [of "arpFlushQueuedPackets i j ?w1" f] assms(2,3) c1 by simp
  have lt: "arp_cache (put_arp i j f w') i ! k = arp_cache w i ! k" if "link_time w = (t', w')" for f t' w'
    using link_time_same [OF that, of i] n put [of w' f] by (simp only: same_cache_def)
  show ?thesis
    using r [OF w1, unfolded c1] r [OF n(2,1)] fl lt put [OF w1, unfolded c1]
    by (auto simp: arp_tick_entry_def Let_def simp del: put_arp_simps split: prod.split)
qed

text \<open>A due entry that waits for a reply asks again, or is given up after the last request.\<close>

lemma arp_tick_entry_incomplete:
  assumes inv: "arp_inv B n i w" and k: "k < n" and e: "e = arp_cache w i ! k" "arpState e = ARP_STATE_INCOMPLETE" "arp_due t e"
  shows "arp_cache (arp_tick_entry i t k w) i ! k =
    (if arpRetransmitCount e + 1 < ARP_MAX_REQUESTS
     then e\<lparr>arpRetransmitCount := arpRetransmitCount e + 1, arpTimestamp := t, arpTimeout := ARP_REQUEST_TIMEOUT\<rparr>
     else e\<lparr>arpState := ARP_STATE_NONE, arpRetransmitCount := arpRetransmitCount e + 1, arpQueue := []\<rparr>)"
proof -
  have n: "k < length (arp_cache w i)" "i < length (netInterface w)" using arp_invD(1,2) [OF inv] k by simp_all
  let ?w1 = "put_arp i k (\<lambda>e. e\<lparr>arpRetransmitCount := arpRetransmitCount e + 1\<rparr>) w"
  have inv1: "arp_inv B n i ?w1"
    using arp_invD(4) [OF inv k] e by (intro arp_inv_change [OF inv k]) (auto simp: entry_ok_def)
  have c1: "arp_cache ?w1 i ! k = e\<lparr>arpRetransmitCount := arpRetransmitCount e + 1\<rparr>" "k < length (arp_cache ?w1 i)" "i < length (netInterface ?w1)"
    using n e by simp_all
  have s: "arp_cache (put_arp i k f (snd (arpSendRequest i a m ?w1))) i ! k = f (e\<lparr>arpRetransmitCount := arpRetransmitCount e + 1\<rparr>)" for f a m
    using arpSendRequest_same [of i ?w1 i a m] cache_put(1) [of i "snd (arpSendRequest i a m ?w1)" k f] c1 by (simp only: same_cache_def nth_list_update_eq)
  have fl: "arp_cache (put_arp i k f (arpFlushQueuedPackets i k ?w1)) i ! k =
      f (e\<lparr>arpRetransmitCount := arpRetransmitCount e + 1, arpQueue := []\<rparr>)" for f
    using arpFlushQueuedPackets_cache [OF inv1 k] arp_invD(1,2) [OF arpFlushQueuedPackets_inv [OF inv1 k]] c1 k by simp
  show ?thesis using e s fl by (auto simp: arp_tick_entry_def Let_def simp del: put_arp_simps)
qed

lemma arp_foldl_others:
  assumes "arp_inv B n i w" and "set ks \<subseteq> {..<n} - {k}"
  shows "arp_cache (foldl (\<lambda>w k. arp_tick_entry i t k w) w ks) i ! k = arp_cache w i ! k"
  using assms
proof (induction ks arbitrary: w)
  case (Cons j ks)
  then show ?case using arp_tick_entry_others [OF Cons.prems(1), of j k t] arp_tick_entry_inv [OF Cons.prems(1), of j t] by auto
qed simp

lemma arpTick_entry:
  assumes inv: "arp_inv B n i w" and k: "k < n" and t: "link_time w = (t, w1)"
  shows "\<exists>w2. arp_inv B n i w2 \<and> arp_cache w2 i ! k = arp_cache w i ! k \<and>
    arp_cache (arpTick i w) i ! k = arp_cache (arp_tick_entry i t k w2) i ! k"
proof -
  let ?f = "\<lambda>w k. arp_tick_entry i t k w"
  have inv1: "arp_inv B n i w1" and c1: "arp_cache w1 i = arp_cache w i"
    using arp_inv_same [OF inv] link_time_same [OF t] by (auto simp: same_cache_def)
  have u: "[0..<n] = [0..<k] @ k # [Suc k..<n]" using upt_add_eq_append [of 0 k "n - k"] upt_conv_Cons [of k n] k by simp
  let ?w2 = "foldl ?f w1 [0..<k]"
  have inv2: "arp_inv B n i ?w2" using k by (intro arp_foldl_inv [OF inv1]) (auto simp: arp_tick_entry_inv)
  have c2: "arp_cache ?w2 i ! k = arp_cache w i ! k" 
  proof -
    have "set [0..<k] \<subseteq> {..<n} - {k}" using k by auto
    from arp_foldl_others [OF inv1 this, of t] c1 show ?thesis by simp
  qed
  have "arpTick i w = foldl ?f (arp_tick_entry i t k ?w2) [Suc k..<n]"
    using t arp_invD(2) [OF inv1] by (simp add: arpTick_def u)
  then have "arp_cache (arpTick i w) i ! k = arp_cache (arp_tick_entry i t k ?w2) i ! k"
  proof -
    assume *: "arpTick i w = foldl ?f (arp_tick_entry i t k ?w2) [Suc k..<n]"
    have "set [Suc k..<n] \<subseteq> {..<n} - {k}" by auto
    from arp_foldl_others [OF arp_tick_entry_inv [OF inv2 k] this, of t t] show ?thesis by (simp add: *)
  qed
  with inv2 c2 show ?thesis by blast
qed

lemma arpTick_incomplete:
  assumes inv: "arp_inv B n i w" and k: "k < n" and e: "e = arp_cache w i ! k" "arpState e = ARP_STATE_INCOMPLETE"
    "arp_due (fst (link_time w)) e"
  shows "arp_cache (arpTick i w) i ! k =
    (if arpRetransmitCount e + 1 < ARP_MAX_REQUESTS
     then e\<lparr>arpRetransmitCount := arpRetransmitCount e + 1, arpTimestamp := fst (link_time w), arpTimeout := ARP_REQUEST_TIMEOUT\<rparr>
     else e\<lparr>arpState := ARP_STATE_NONE, arpRetransmitCount := arpRetransmitCount e + 1, arpQueue := []\<rparr>)"
proof -
  obtain t w1 where t: "link_time w = (t, w1)" by force
  from arpTick_entry [OF inv k t] obtain w2 where w2: "arp_inv B n i w2" "arp_cache w2 i ! k = arp_cache w i ! k"
    "arp_cache (arpTick i w) i ! k = arp_cache (arp_tick_entry i t k w2) i ! k" by blast
  from arp_tick_entry_incomplete [OF w2(1) k, of e t] w2(2,3) e t show ?thesis by simp
qed


text \<open>A link without an address to ask from, where a second passes with every call.\<close>

definition silent_link :: "ArpCacheEntry \<Rightarrow> nat \<Rightarrow> link" where
  "silent_link e m = (example_link [(example_if [])\<lparr>arpCache := e # replicate 7 zeroArpEntry\<rparr>])
     \<lparr>lx := example_ctx\<lparr>live := [7], clock := \<lambda>n. 1000 * of_nat n, calls := m\<rparr>\<rparr>"

lemma silent_link_simps [simp]:
  "arp_cache (silent_link e m) 0 = e # replicate 7 zeroArpEntry" "length (netInterface (silent_link e m)) = 1"
  "live (lx (silent_link e m)) = [7]" "link_time (silent_link e m) = (1000 * of_nat m, silent_link e (Suc m))"
  "put_arp 0 0 f (silent_link e m) = silent_link (f e) m" "arpSendRequest 0 a d (silent_link e m) = (ERROR_NO_ADDRESS, silent_link e m)"
  by (simp_all add: silent_link_def example_link_def example_if_def link_time_def osGetSystemTime_def tick_call_def put_arp_def
      put_interface_def arpSendRequest_def ipv4SelectSourceAddr_def)

lemma silent_tick:
  assumes "arpState e = ARP_STATE_INCOMPLETE" and "arp_due (1000 * of_nat m) e" and "arpRetransmitCount e + 1 < ARP_MAX_REQUESTS"
  shows "arpTick 0 (silent_link e m) =
    silent_link (e\<lparr>arpRetransmitCount := arpRetransmitCount e + 1, arpTimestamp := 1000 * of_nat m, arpTimeout := ARP_REQUEST_TIMEOUT\<rparr>) (Suc m)"
proof -
  have u: "[0..<8] = [0, 1, 2, 3, 4, 5, 6, 7 :: nat]" by (simp add: upt_rec)
  show ?thesis using assms by (simp add: arpTick_def u arp_tick_entry_def Let_def numeral_eq_Suc)
qed


text \<open>
  The count of requests is not reset by a reply: an entry whose first request was lost gets one probe, not two, when its
  host is probed later.
\<close>

lemma arp_probes_cut_short:
  assumes "i < length (netInterface w)" and "k < length (arp_cache w i)" and "e = arp_cache w i ! k"
    and "arpState e = ARP_STATE_PROBE" and "arpRetransmitCount e = 1" and "arp_due t e"
  shows "arpState (arp_cache (arp_tick_entry i t k w) i ! k) = ARP_STATE_NONE"
  using assms by (simp add: arp_tick_entry_def Let_def)

end
