(* ===== verification/Dns_Name.thy ===== *)
theory Dns_Name
  imports Tcp_Types
begin

text \<open>
  Domain names in DNS messages (\<open>dns/dns_common.c\<close>): encoding a dotted name, parsing and comparing encoded names. Strings are
  lists of bytes; a string in memory ends with a zero byte.
\<close>

abbreviation (input) DNS_LABEL_MAX_SIZE :: nat where "DNS_LABEL_MAX_SIZE \<equiv> 63"
abbreviation (input) DNS_COMPRESSION_TAG :: u8 where "DNS_COMPRESSION_TAG \<equiv> 0xC0"
abbreviation (input) DNS_NAME_MAX_RECURSION :: nat where "DNS_NAME_MAX_RECURSION \<equiv> 4"

section \<open>The implementation\<close>

text \<open>
  The loop over the source, with the characters of the current label and what was written before them. \<open>None\<close> is the
  result 0 of the C function; the bytes of the result are as many as the length it returns.
\<close>

fun encode_loop :: "u8 list \<Rightarrow> u8 list \<Rightarrow> u8 list \<Rightarrow> u8 list option" where
  "encode_loop [] label out =
     (if length label < 1 \<or> length label > DNS_LABEL_MAX_SIZE then None
      else Some (out @ [of_nat (length label)] @ label @ [0]))"
| "encode_loop (c # src) label out =
     (if c = 0x2E then
        (if length label < 1 \<or> length label > DNS_LABEL_MAX_SIZE then None
         else encode_loop src [] (out @ [of_nat (length label)] @ label))
      else encode_loop src (label @ [c]) out)"

definition dnsEncodeName :: "u8 list \<Rightarrow> u8 list option" where
  "dnsEncodeName src = encode_loop src [] []"

text \<open>The offset in a compression pointer.\<close>

definition dns_pointer :: "u8 \<Rightarrow> u8 \<Rightarrow> nat" where
  "dns_pointer a b = unat (a AND NOT DNS_COMPRESSION_TAG) * 256 + unat b"

text \<open>The position behind the name, 0 for a malformed one, and the characters written to the destination.\<close>

function dnsParseName :: "u8 list \<Rightarrow> nat \<Rightarrow> nat \<Rightarrow> nat \<times> u8 list" where
  "dnsParseName m pos level =
     (if level \<ge> DNS_NAME_MAX_RECURSION then (0, [])
      else if pos < length m then
        (if m ! pos = 0 then (pos + 1, [])
         else if m ! pos \<ge> DNS_COMPRESSION_TAG then
           (if pos + 1 \<ge> length m then (0, [])
            else
              let (r, s) = dnsParseName m (dns_pointer (m ! pos) (m ! (pos + 1))) (level + 1)
              in if r = 0 then (0, s) else (pos + 2, s))
         else if unat (m ! pos) < DNS_LABEL_MAX_SIZE then
           let n = unat (m ! pos); pos = pos + 1
           in if pos + n > length m then (0, [])
              else
                let label = take n (drop pos m); pos = pos + n;
                    dot = (if pos < length m \<and> m ! pos \<noteq> 0 then [0x2E] else []);
                    (r, s) = dnsParseName m pos level
                in (r, label @ dot @ s)
         else (0, []))
      else (0, []))"
  by pat_completeness auto

termination
  by (relation "measures [\<lambda>(m, pos, level). DNS_NAME_MAX_RECURSION - level, \<lambda>(m, pos, level). length m - pos]") auto

declare dnsParseName.simps [simp del]

text \<open>
  \<open>tolower\<close> of the C locale and \<open>strncasecmp\<close> on the bytes from two pointers on. The second string is the memory behind its
  pointer: reading past its end is undefined, \<open>None\<close>.
\<close>

definition tolower :: "u8 \<Rightarrow> u8" where
  "tolower c = (if 0x41 \<le> c \<and> c \<le> 0x5A then c + 0x20 else c)"

fun strncasecmp :: "u8 list \<Rightarrow> u8 list \<Rightarrow> nat \<Rightarrow> int option" where
  "strncasecmp as bs 0 = Some 0"
| "strncasecmp (a # as) (b # bs) (Suc n) =
     (if tolower a \<noteq> tolower b then Some (uint (tolower a) - uint (tolower b))
      else if a = 0 then Some 0
      else strncasecmp as bs n)"
| "strncasecmp _ _ (Suc n) = None"

function dnsCompareName :: "u8 list \<Rightarrow> nat \<Rightarrow> u8 list \<Rightarrow> nat \<Rightarrow> int option" where
  "dnsCompareName m pos name level =
     (if level \<ge> DNS_NAME_MAX_RECURSION then Some (- 2)
      else if pos < length m then
        (let n = unat (m ! pos)
         in if n = 0 then
              (case name of [] \<Rightarrow> None | c # _ \<Rightarrow> if c \<noteq> 0 then Some (- 1) else Some 0)
            else if m ! pos \<ge> DNS_COMPRESSION_TAG then
              (if pos + 1 \<ge> length m then Some 0
               else dnsCompareName m (dns_pointer (m ! pos) (m ! (pos + 1))) name (level + 1))
            else
              let pos = pos + 1
              in if pos + n > length m then Some (- 2)
                 else case strncasecmp (drop pos m) name n of
                   None \<Rightarrow> None
                 | Some res \<Rightarrow>
                     if res \<noteq> 0 then Some res
                     else case drop n name of
                       [] \<Rightarrow> None
                     | c # cs \<Rightarrow>
                         if c \<noteq> 0 \<and> c \<noteq> 0x2E then Some (- 1)
                         else dnsCompareName m (pos + n) (if c = 0x2E then cs else c # cs) level)
      else Some (- 2))"
  by pat_completeness auto

termination
  by (relation "measures [\<lambda>(m, pos, name, level). DNS_NAME_MAX_RECURSION - level, \<lambda>(m, pos, name, level). length m - pos]") auto

declare dnsCompareName.simps [simp del]

text \<open>
  Two encoded names. The last argument is the level of recursion; each level follows a pointer in one of the names or in both.
\<close>

function dnsCompareEncodedName :: "u8 list \<Rightarrow> nat \<Rightarrow> u8 list \<Rightarrow> nat \<Rightarrow> nat \<Rightarrow> int option" where
  "dnsCompareEncodedName m1 pos1 m2 pos2 level =
     (if level \<ge> DNS_NAME_MAX_RECURSION then Some (- 2)
      else if pos1 < length m1 \<and> pos2 < length m2 then
        (let n1 = unat (m1 ! pos1); n2 = unat (m2 ! pos2)
         in if n1 = 0 \<or> n2 = 0 then Some (if n1 < n2 then - 1 else if n1 > n2 then 1 else 0)
            else if m1 ! pos1 \<ge> DNS_COMPRESSION_TAG \<or> m2 ! pos2 \<ge> DNS_COMPRESSION_TAG then
              (if m1 ! pos1 \<ge> DNS_COMPRESSION_TAG \<and> pos1 + 1 \<ge> length m1 then Some (- 2)
               else if m2 ! pos2 \<ge> DNS_COMPRESSION_TAG \<and> pos2 + 1 \<ge> length m2 then Some (- 2)
               else
                 let pointer1 = (if m1 ! pos1 \<ge> DNS_COMPRESSION_TAG then dns_pointer (m1 ! pos1) (m1 ! (pos1 + 1)) else pos1);
                     pointer2 = (if m2 ! pos2 \<ge> DNS_COMPRESSION_TAG then dns_pointer (m2 ! pos2) (m2 ! (pos2 + 1)) else pos2)
                 in dnsCompareEncodedName m1 pointer1 m2 pointer2 (level + 1))
            else
              let pos1 = pos1 + 1; pos2 = pos2 + 1
              in if pos1 + n1 > length m1 \<or> pos2 + n2 > length m2 then Some (- 2)
                 else case strncasecmp (drop pos1 m1) (drop pos2 m2) (min n1 n2) of
                   None \<Rightarrow> None
                 | Some res \<Rightarrow>
                     if res \<noteq> 0 then Some res
                     else if n1 < n2 then Some (- 1)
                     else if n1 > n2 then Some 1
                     else dnsCompareEncodedName m1 (pos1 + n1) m2 (pos2 + n2) level)
      else Some (- 2))"
  by pat_completeness auto

termination
  by (relation "measures [\<lambda>(m1, pos1, m2, pos2, level). DNS_NAME_MAX_RECURSION - level, \<lambda>(m1, pos1, m2, pos2, level). length m1 - pos1]") auto

declare dnsCompareEncodedName.simps [simp del]

section \<open>Names as lists of labels\<close>

text \<open>
  The encoding of RFC 1035: at the position \<open>pos\<close> of the message \<open>m\<close> lies the name with the labels \<open>ls\<close>, encoded with \<open>k\<close>
  pointers; what follows it starts at \<open>r\<close>.
\<close>

inductive name_at :: "u8 list \<Rightarrow> nat \<Rightarrow> u8 list list \<Rightarrow> nat \<Rightarrow> nat \<Rightarrow> bool" for m where
  name_end: "pos < length m \<Longrightarrow> m ! pos = 0 \<Longrightarrow> name_at m pos [] 0 (Suc pos)"
| name_label: "pos < length m \<Longrightarrow> unat (m ! pos) = n \<Longrightarrow> 0 < n \<Longrightarrow> n \<le> DNS_LABEL_MAX_SIZE \<Longrightarrow> Suc (pos + n) \<le> length m \<Longrightarrow>
    name_at m (Suc (pos + n)) ls k r \<Longrightarrow> name_at m pos (take n (drop (Suc pos) m) # ls) k r"
| name_pointer: "Suc pos < length m \<Longrightarrow> m ! pos \<ge> DNS_COMPRESSION_TAG \<Longrightarrow>
    name_at m (dns_pointer (m ! pos) (m ! Suc pos)) ls k r' \<Longrightarrow> name_at m pos ls (Suc k) (Suc (Suc pos))"

text \<open>The dotted notation.\<close>

fun dotted :: "u8 list list \<Rightarrow> u8 list" where
  "dotted [] = []"
| "dotted [l] = l"
| "dotted (l # ls) = l @ 0x2E # dotted ls"

lemma dotted_Cons: "dotted (l # ls) = (if ls = [] then l else l @ 0x2E # dotted ls)"
  by (cases ls) simp_all

lemma u8_bounds: "(x :: u8) \<ge> DNS_COMPRESSION_TAG \<longleftrightarrow> unat x \<ge> 192" "unat x = 0 \<longleftrightarrow> x = 0"
  by (simp_all add: word_le_nat_alt unat_eq_0)

lemma name_at_pos: "name_at m pos ls k r \<Longrightarrow> 0 < r"
  by (induction rule: name_at.induct) simp_all

lemma dnsParseName_end: "level < DNS_NAME_MAX_RECURSION \<Longrightarrow> pos < length m \<Longrightarrow> m ! pos = 0 \<Longrightarrow> dnsParseName m pos level = (Suc pos, [])"
  by (simp add: dnsParseName.simps)

lemma dnsParseName_pointer:
  assumes "level < DNS_NAME_MAX_RECURSION" and "Suc pos < length m" and "m ! pos \<ge> DNS_COMPRESSION_TAG"
  shows "dnsParseName m pos level = (case dnsParseName m (dns_pointer (m ! pos) (m ! Suc pos)) (Suc level) of
    (r, s) \<Rightarrow> if r = 0 then (0, s) else (Suc (Suc pos), s))"
  using assms by (subst dnsParseName.simps) (auto simp: u8_bounds Let_def split: prod.split)

lemma dnsParseName_label:
  assumes "level < DNS_NAME_MAX_RECURSION" and "pos < length m" and "unat (m ! pos) = n" and "0 < n" and "n < DNS_LABEL_MAX_SIZE" and "Suc (pos + n) \<le> length m"
  shows "dnsParseName m pos level = (case dnsParseName m (Suc (pos + n)) level of
    (r, s) \<Rightarrow> (r, take n (drop (Suc pos) m) @ (if Suc (pos + n) < length m \<and> m ! (Suc (pos + n)) \<noteq> 0 then [0x2E] else []) @ s))"
proof -
  have "m ! pos \<noteq> 0" "\<not> m ! pos \<ge> DNS_COMPRESSION_TAG" using assms(3-5) u8_bounds [of "m ! pos"] by auto
  then show ?thesis using assms by (subst dnsParseName.simps) (simp add: Let_def split: prod.split)
qed

text \<open>What the parser accepts.\<close>

lemma dnsParseName_sound:
  "dnsParseName m pos level = (r, s) \<Longrightarrow> r \<noteq> 0 \<Longrightarrow>
    \<exists>ls k. name_at m pos ls k r \<and> level + k < DNS_NAME_MAX_RECURSION \<and> (\<forall>l \<in> set ls. length l < DNS_LABEL_MAX_SIZE)"
proof (induction m pos level arbitrary: r s rule: dnsParseName.induct)
  case (1 m pos level)
  let ?n = "unat (m ! pos)"
  from 1(3,4) have lv: "level < DNS_NAME_MAX_RECURSION" and p: "pos < length m"
    by (auto simp: dnsParseName.simps [of m pos level] split: if_splits)
  consider (e) "m ! pos = 0" | (p) "m ! pos \<ge> DNS_COMPRESSION_TAG" | (l) "m ! pos \<noteq> 0" "\<not> m ! pos \<ge> DNS_COMPRESSION_TAG" by blast
  then show ?case
  proof cases
    case e
    with 1(3) lv p have "r = Suc pos" by (simp add: dnsParseName_end)
    with e p lv show ?thesis by (intro exI [of _ "[]"] exI [of _ 0]) (simp add: name_end)
  next
    case p: p
    have q: "Suc pos < length m" using 1(3,4) p lv u8_bounds [of "m ! pos"]
      by (simp add: dnsParseName.simps [of m pos level] Let_def split: if_splits)
    obtain r' s' where r': "dnsParseName m (dns_pointer (m ! pos) (m ! Suc pos)) (Suc level) = (r', s')" by force
    with 1(3,4) dnsParseName_pointer [OF lv q p] have "r' \<noteq> 0" "r = Suc (Suc pos)" by (simp_all split: if_splits)
    moreover have "m ! pos \<noteq> 0" using p by auto
    ultimately obtain ls k where "name_at m (dns_pointer (m ! pos) (m ! Suc pos)) ls k r'" "Suc (level + k) < DNS_NAME_MAX_RECURSION"
      "\<forall>l \<in> set ls. length l < DNS_LABEL_MAX_SIZE"
      using 1(1) [of r' s'] r' lv p q \<open>pos < length m\<close> by auto
    with name_pointer [OF q p] \<open>r = Suc (Suc pos)\<close> show ?thesis by (intro exI [of _ ls] exI [of _ "Suc k"]) simp
  next
    case l
    have n: "0 < ?n" "?n < DNS_LABEL_MAX_SIZE" "Suc (pos + ?n) \<le> length m" using 1(3,4) l lv p u8_bounds [of "m ! pos"]
      by (auto simp: dnsParseName.simps [of m pos level] Let_def split: if_splits)
    obtain r' s' where r': "dnsParseName m (Suc (pos + ?n)) level = (r', s')" by force
    with 1(3) dnsParseName_label [OF lv p refl n] have "r = r'" by simp
    moreover have "\<exists>ls k. name_at m (Suc (pos + ?n)) ls k r' \<and> level + k < DNS_NAME_MAX_RECURSION \<and> (\<forall>l \<in> set ls. length l < DNS_LABEL_MAX_SIZE)"
      using 1(2) [OF _ p l _ refl refl _ refl refl refl, of r' s'] r' lv n \<open>r = r'\<close> 1(4) by simp
    ultimately obtain ls k where "name_at m (Suc (pos + ?n)) ls k r" "level + k < DNS_NAME_MAX_RECURSION"
      "\<forall>l \<in> set ls. length l < DNS_LABEL_MAX_SIZE" by blast
    with name_label [OF p refl n(1) _ n(3)] n(2) show ?thesis
      by (intro exI [of _ "take ?n (drop (Suc pos) m) # ls"] exI [of _ k]) auto
  qed
qed

lemma dnsParseName_complete:
  "name_at m pos ls k r \<Longrightarrow> level + k < DNS_NAME_MAX_RECURSION \<Longrightarrow> \<forall>l \<in> set ls. length l < DNS_LABEL_MAX_SIZE \<Longrightarrow>
    fst (dnsParseName m pos level) = r"
proof (induction arbitrary: level rule: name_at.induct)
  case (name_end pos)
  then show ?case by (simp add: dnsParseName_end)
next
  case (name_label pos n ls k r)
  then have "n < DNS_LABEL_MAX_SIZE" by auto
  then have "dnsParseName m pos level = (case dnsParseName m (Suc (pos + n)) level of
    (r, s) \<Rightarrow> (r, take n (drop (Suc pos) m) @ (if Suc (pos + n) < length m \<and> m ! Suc (pos + n) \<noteq> 0 then [0x2E] else []) @ s))"
    using name_label by (intro dnsParseName_label) simp_all
  moreover have "fst (dnsParseName m (Suc (pos + n)) level) = r" using name_label by simp
  ultimately show ?case by (simp add: split_beta)
next
  case (name_pointer pos ls k r')
  have "fst (dnsParseName m (dns_pointer (m ! pos) (m ! Suc pos)) (Suc level)) = r'" using name_pointer by simp
  moreover have "dnsParseName m pos level = (case dnsParseName m (dns_pointer (m ! pos) (m ! Suc pos)) (Suc level) of
    (r, s) \<Rightarrow> if r = 0 then (0, s) else (Suc (Suc pos), s))"
    using name_pointer by (intro dnsParseName_pointer) simp_all
  ultimately show ?case using name_at_pos [OF name_pointer.hyps(3)] by (simp add: split_beta)
qed

definition labels_ok :: "u8 list list \<Rightarrow> bool" where
  "labels_ok ls \<longleftrightarrow> (\<forall>l \<in> set ls. 1 \<le> length l \<and> length l \<le> DNS_LABEL_MAX_SIZE)"

text \<open>The characters of a name without pointers.\<close>

lemma name_at_dot: "name_at m pos ls k r \<Longrightarrow> k = 0 \<Longrightarrow> pos < length m \<and> (m ! pos \<noteq> 0 \<longleftrightarrow> ls \<noteq> [])"
  by (induction rule: name_at.induct) auto

lemma dnsParseName_string:
  "name_at m pos ls k r \<Longrightarrow> k = 0 \<Longrightarrow> level < DNS_NAME_MAX_RECURSION \<Longrightarrow> \<forall>l \<in> set ls. length l < DNS_LABEL_MAX_SIZE \<Longrightarrow>
    dnsParseName m pos level = (r, dotted ls)"
proof (induction rule: name_at.induct)
  case (name_end pos)
  then show ?case by (simp add: dnsParseName_end)
next
  case (name_label pos n ls k r)
  then have "dnsParseName m pos level = (case dnsParseName m (Suc (pos + n)) level of
    (r, s) \<Rightarrow> (r, take n (drop (Suc pos) m) @ (if Suc (pos + n) < length m \<and> m ! Suc (pos + n) \<noteq> 0 then [0x2E] else []) @ s))"
    by (intro dnsParseName_label) simp_all
  moreover have "dnsParseName m (Suc (pos + n)) level = (r, dotted ls)" using name_label by simp
  ultimately show ?case using name_at_dot [OF name_label.hyps(6) name_label.prems(1)] by (auto simp: dotted_Cons)
qed simp

lemma name_at_labels: "name_at m pos ls k r \<Longrightarrow> labels_ok ls"
  by (induction rule: name_at.induct) (auto simp: labels_ok_def)

section \<open>Encoding\<close>

fun split_dots :: "u8 list \<Rightarrow> u8 list list" where
  "split_dots [] = [[]]"
| "split_dots (c # cs) = (if c = 0x2E then [] # split_dots cs else case split_dots cs of [] \<Rightarrow> [[c]] | l # ls \<Rightarrow> (c # l) # ls)"

definition encoded :: "u8 list list \<Rightarrow> u8 list" where
  "encoded ls = concat (map (\<lambda>l. of_nat (length l) # l) ls) @ [0]"

lemma split_dots_not_Nil [simp]: "split_dots cs \<noteq> []"
  by (cases cs) (auto split: list.split)

lemma dotted_split_dots: "dotted (split_dots cs) = cs"
proof (induction cs)
  case (Cons c cs)
  then show ?case by (cases "split_dots cs") (auto simp: dotted_Cons)
qed simp

lemma encode_loop_split:
  assumes "split_dots cs = l # ls"
  shows "encode_loop cs label out = (if labels_ok ((label @ l) # ls) then Some (out @ encoded ((label @ l) # ls)) else None)"
  using assms
proof (induction cs label out arbitrary: l ls rule: encode_loop.induct)
  case (1 label out)
  then show ?case by (auto simp: labels_ok_def encoded_def Suc_le_eq)
next
  case (2 c src label out)
  obtain l' ls' where s: "split_dots src = l' # ls'" using split_dots_not_Nil by (metis neq_Nil_conv)
  show ?case
  proof (cases "c = 0x2E")
    case True
    with 2(3) s have "l = []" "ls = l' # ls'" by simp_all
    with True 2(1) [OF True _ s] show ?thesis by (auto simp: labels_ok_def encoded_def Suc_le_eq)
  next
    case False
    with 2(3) s have "l = c # l'" "ls = ls'" by simp_all
    with False 2(2) [OF False s] show ?thesis by simp
  qed
qed

lemma dnsEncodeName_encoded:
  "dnsEncodeName cs = (if labels_ok (split_dots cs) then Some (encoded (split_dots cs)) else None)"
  using encode_loop_split [of cs "hd (split_dots cs)" "tl (split_dots cs)" "[]" "[]"] by (simp add: dnsEncodeName_def)

lemma name_at_encoded: "labels_ok ls \<Longrightarrow> name_at (pre @ encoded ls @ post) (length pre) ls 0 (length pre + length (encoded ls))"
proof (induction ls arbitrary: pre)
  case Nil
  then show ?case using name_end [of "length pre" "pre @ [0] @ post"] by (simp add: encoded_def nth_append)
next
  case (Cons l ls)
  let ?n = "length l" and ?pre = "pre @ of_nat (length l) # l"
  have n: "1 \<le> ?n" "?n \<le> DNS_LABEL_MAX_SIZE" and ok: "labels_ok ls" using Cons.prems by (simp_all add: labels_ok_def)
  have u: "unat (of_nat ?n :: u8) = ?n" using n by (simp add: unat_of_nat)
  let ?m = "pre @ encoded (l # ls) @ post"
  have m: "?m = ?pre @ encoded ls @ post" by (simp add: encoded_def)
  have at: "?m ! length pre = of_nat ?n" by (simp add: encoded_def nth_append)
  have t: "take ?n (drop (Suc (length pre)) ?m) = l" by (simp add: encoded_def)
  have "name_at ?m (Suc (length pre + ?n)) ls 0 (length pre + length (encoded (l # ls)))"
    using Cons.IH [OF ok, of ?pre] unfolding m [symmetric] by (simp add: encoded_def add.assoc)
  then have "name_at ?m (length pre) (take ?n (drop (Suc (length pre)) ?m) # ls) 0 (length pre + length (encoded (l # ls)))"
    by (intro name_label) (use n at u in \<open>auto simp: encoded_def\<close>)
  then show ?case by (simp only: t)
qed

section \<open>Comparing\<close>

lemma strncasecmp_iff:
  "n \<le> length as \<Longrightarrow> 0 \<notin> set (take n as) \<Longrightarrow>
    \<exists>res. strncasecmp as (bs @ 0 # rest) n = Some res \<and> (res = 0 \<longleftrightarrow> n \<le> length bs \<and> map tolower (take n as) = map tolower (take n bs))"
  if "0 \<notin> set bs" for bs
  using that
proof (induction n arbitrary: as bs)
  case (Suc n)
  from Suc.prems obtain a as' where a: "as = a # as'" by (cases as) auto
  with Suc.prems have a0: "a \<noteq> 0" "0 \<notin> set (take n as')" "n \<le> length as'" by auto
  have "a + 0x20 \<noteq> 0" if "0x41 \<le> a" "a \<le> 0x5A" for a :: u8
    using that unfolding word_unat_eq_iff word_le_nat_alt unat_word_ariths by simp
  then have t0: "tolower a \<noteq> tolower 0" if "a \<noteq> 0" for a :: u8 using that by (auto simp: tolower_def)
  show ?case
  proof (cases bs)
    case Nil
    have "uint (tolower a) \<noteq> uint (tolower 0)" using t0 [OF a0(1)] by (simp add: word_uint_eq_iff)
    with a a0 t0 [OF a0(1)] Nil show ?thesis by simp
  next
    case (Cons b bs')
    with Suc.prems have "0 \<notin> set bs'" "b \<noteq> 0" by auto
    have "tolower a \<noteq> tolower b \<Longrightarrow> uint (tolower a) \<noteq> uint (tolower b)" by (simp add: word_uint_eq_iff)
    with Suc.IH [OF a0(3,2) \<open>0 \<notin> set bs'\<close>] a a0 Cons show ?thesis by auto
  qed
qed simp

lemma dnsCompareName_end:
  assumes "level < DNS_NAME_MAX_RECURSION" and "pos < length m" and "m ! pos = 0"
  shows "dnsCompareName m pos (c # cs) level = Some (if c \<noteq> 0 then - 1 else 0)"
  using assms by (subst dnsCompareName.simps) simp

lemma dnsCompareName_pointer:
  assumes "level < DNS_NAME_MAX_RECURSION" and "Suc pos < length m" and "m ! pos \<ge> DNS_COMPRESSION_TAG"
  shows "dnsCompareName m pos name level = dnsCompareName m (dns_pointer (m ! pos) (m ! Suc pos)) name (Suc level)"
proof -
  have "unat (m ! pos) \<noteq> 0" using assms(3) u8_bounds [of "m ! pos"] by simp
  then show ?thesis using assms by (subst dnsCompareName.simps) (simp add: Let_def)
qed

lemma dnsCompareName_label:
  assumes "level < DNS_NAME_MAX_RECURSION" and "pos < length m" and "unat (m ! pos) = n" and "0 < n" and "n \<le> DNS_LABEL_MAX_SIZE" and "Suc (pos + n) \<le> length m"
    and "strncasecmp (drop (Suc pos) m) name n = Some res" and "drop n name = c # cs"
  shows "dnsCompareName m pos name level =
    (if res \<noteq> 0 then Some res else if c \<noteq> 0 \<and> c \<noteq> 0x2E then Some (- 1)
     else dnsCompareName m (Suc (pos + n)) (if c = 0x2E then cs else c # cs) level)"
proof -
  have "m ! pos \<noteq> 0" "\<not> m ! pos \<ge> DNS_COMPRESSION_TAG" using assms(3-5) u8_bounds [of "m ! pos"] by auto
  then show ?thesis using assms by (subst dnsCompareName.simps) (simp add: Let_def)
qed

lemma dnsCompareName_differs:
  assumes "level < DNS_NAME_MAX_RECURSION" and "pos < length m" and "unat (m ! pos) = n" and "0 < n" and "n \<le> DNS_LABEL_MAX_SIZE" and "Suc (pos + n) \<le> length m"
    and "strncasecmp (drop (Suc pos) m) name n = Some res" and "res \<noteq> 0"
  shows "dnsCompareName m pos name level = Some res"
proof -
  have "m ! pos \<noteq> 0" "\<not> m ! pos \<ge> DNS_COMPRESSION_TAG" using assms(3-5) u8_bounds [of "m ! pos"] by auto
  then show ?thesis using assms by (subst dnsCompareName.simps) (simp add: Let_def)
qed

definition same_chars :: "u8 list \<Rightarrow> u8 list \<Rightarrow> bool" where
  "same_chars s t \<longleftrightarrow> map tolower s = map tolower t"

lemma tolower_dot: "tolower c = 0x2E \<longleftrightarrow> c = 0x2E"
proof -
  have "a + 0x20 \<noteq> 0x2E" if "0x41 \<le> a" "a \<le> 0x5A" for a :: u8
    using that unfolding word_unat_eq_iff word_le_nat_alt unat_word_ariths by simp
  then show ?thesis by (auto simp: tolower_def)
qed

text \<open>The comparison of a name with a dotted string: it never reads past the end of the string, and finds them equal when they are.\<close>

lemma dnsCompareName_dotted:
  "name_at m pos ls k r \<Longrightarrow> level + k < DNS_NAME_MAX_RECURSION \<Longrightarrow> \<forall>l \<in> set ls. 0 \<notin> set l \<Longrightarrow>
    0 \<notin> set name \<Longrightarrow> (name \<noteq> [] \<longrightarrow> last name \<noteq> 0x2E) \<Longrightarrow>
    \<exists>res. dnsCompareName m pos (name @ 0 # rest) level = Some res \<and> (res = 0 \<longleftrightarrow> same_chars (dotted ls) name)"
proof (induction arbitrary: level name rule: name_at.induct)
  case (name_end pos)
  then show ?case
    by (cases name) (auto simp: dnsCompareName_end same_chars_def)
next
  case (name_pointer pos ls k r')
  then show ?case using dnsCompareName_pointer [of level pos m "name @ 0 # rest"] name_pointer.IH [of "Suc level" name] by simp
next
  case (name_label pos n ls k r)
  let ?l = "take n (drop (Suc pos) m)"
  have len: "length ?l = n" using name_label.hyps by simp
  have ne: "ls \<noteq> [] \<Longrightarrow> dotted ls \<noteq> []"
    using name_at_labels [OF name_label.hyps(6)] by (cases ls) (auto simp: dotted_Cons labels_ok_def)
  have z: "n \<le> length (drop (Suc pos) m)" "0 \<notin> set ?l" using name_label.hyps name_label.prems(2) by auto
  obtain res where
    res: "strncasecmp (drop (Suc pos) m) (name @ 0 # rest) n = Some res" "res = 0 \<longleftrightarrow> n \<le> length name \<and> same_chars ?l (take n name)"
    using strncasecmp_iff [OF name_label.prems(3) z, of rest] by (auto simp: same_chars_def)
  show ?case
  proof (cases "res = 0")
    case False
    have "\<not> same_chars (dotted (?l # ls)) name"
    proof
      assume s: "same_chars (dotted (?l # ls)) name"
      then have "length (dotted (?l # ls)) = length name" unfolding same_chars_def by (metis length_map)
      then have "n \<le> length name" using len by (auto simp: dotted_Cons split: if_splits)
      moreover have "same_chars ?l (take n name)"
        using arg_cong [OF s [unfolded same_chars_def], of "take n"] len by (auto simp: same_chars_def dotted_Cons take_map split: if_splits)
      ultimately show False using res(2) False by simp
    qed
    with False dnsCompareName_differs [of level pos m n "name @ 0 # rest" res] name_label res(1) show ?thesis by auto
  next
    case True
    with res(2) obtain t where name: "name = take n name @ t" and n: "n \<le> length name" and s: "same_chars ?l (take n name)"
      by (metis append_take_drop_id)
    define h where "h = take n name"
    have nm: "name = h @ t" "length h = n" using name n by (simp_all add: h_def)
    have eq: "same_chars (?l @ u) (h @ v) \<longleftrightarrow> same_chars u v" for u v
      using s by (simp add: same_chars_def h_def)
    note step = dnsCompareName_label [OF _ name_label.hyps(1-5) res(1), of level]
    show ?thesis
    proof (cases t)
      case Nil
      have d: "drop n (name @ 0 # rest) = 0 # rest" using nm Nil by simp
      have c: "dnsCompareName m pos (name @ 0 # rest) level = dnsCompareName m (Suc (pos + n)) ([] @ 0 # rest) level"
        using step [OF _ d] name_label.prems(1) True by simp
      obtain r2 where "dnsCompareName m (Suc (pos + n)) ([] @ 0 # rest) level = Some r2" "r2 = 0 \<longleftrightarrow> same_chars (dotted ls) []"
        using name_label.IH [of level "[]"] name_label.prems by auto
      moreover have "same_chars (dotted (?l # ls)) name \<longleftrightarrow> same_chars (dotted ls) []"
        using eq [of "[]" "[]"] eq [of "0x2E # dotted ls" "[]"] nm Nil ne by (cases ls) (auto simp: dotted_Cons same_chars_def)
      ultimately show ?thesis using c by simp
    next
      case (Cons b t')
      have d: "drop n (name @ 0 # rest) = b # t' @ 0 # rest" using nm Cons by simp
      show ?thesis
      proof (cases "b = 0x2E")
        case dot: True
        have t': "t' \<noteq> [] \<and> last t' \<noteq> 0x2E \<and> 0 \<notin> set t'" using name_label.prems(3,4) nm Cons dot by (auto split: if_splits)
        have c: "dnsCompareName m pos (name @ 0 # rest) level = dnsCompareName m (Suc (pos + n)) (t' @ 0 # rest) level"
          using step [OF _ d] name_label.prems(1) True dot by simp
        obtain r2 where "dnsCompareName m (Suc (pos + n)) (t' @ 0 # rest) level = Some r2" "r2 = 0 \<longleftrightarrow> same_chars (dotted ls) t'"
          using name_label.IH [of level t'] name_label.prems t' by auto
        moreover have "same_chars (dotted (?l # ls)) name \<longleftrightarrow> same_chars (dotted ls) t'"
          using eq [of "[]" "b # t'"] eq [of "0x2E # dotted ls" "b # t'"] nm Cons dot t'
          by (cases ls) (auto simp: dotted_Cons same_chars_def)
        ultimately show ?thesis using c by simp
      next
        case ndot: False
        have "b \<noteq> 0" using name_label.prems(3) nm Cons by auto
        then have "dnsCompareName m pos (name @ 0 # rest) level = Some (- 1)" using step [OF _ d] name_label.prems(1) True ndot by simp
        moreover have "\<not> same_chars (dotted (?l # ls)) name"
          using eq [of "[]" "b # t'"] eq [of "0x2E # dotted ls" "b # t'"] nm Cons ndot tolower_dot [of b]
          tolower_dot [of "0x2E"]
          by (cases ls) (auto simp: dotted_Cons same_chars_def)
        ultimately show ?thesis by auto
      qed
    qed
  qed
qed

lemma split_dots_chars: "l \<in> set (split_dots cs) \<Longrightarrow> set l \<subseteq> set cs"
proof (induction cs arbitrary: l)
  case (Cons c cs)
  then show ?case by (cases "split_dots cs") (fastforce split: if_splits)+
qed simp

lemma last_dotted: "labels_ok ls \<Longrightarrow> \<forall>l \<in> set ls. 0x2E \<notin> set l \<Longrightarrow> dotted ls \<noteq> [] \<Longrightarrow> last (dotted ls) \<noteq> 0x2E"
proof (induction ls)
  case (Cons l ls)
  show ?case
  proof (cases ls)
    case Nil
    with Cons.prems last_in_set [of l] show ?thesis by (metis dotted.simps(2) list.set_intros(1))
  next
    case (Cons l' ls')
    then have "dotted ls \<noteq> []" using Cons.prems(1) by (auto simp: dotted_Cons labels_ok_def)
    with Cons Cons.IH Cons.prems show ?thesis by (auto simp: dotted_Cons labels_ok_def)
  qed
qed simp

lemma split_dots_no_dot: "l \<in> set (split_dots cs) \<Longrightarrow> 0x2E \<notin> set l"
proof (induction cs arbitrary: l)
  case (Cons c cs)
  then show ?case by (cases "split_dots cs") (fastforce split: if_splits)+
qed simp

lemma last_not_dot: "labels_ok (split_dots name) \<Longrightarrow> name \<noteq> [] \<longrightarrow> last name \<noteq> 0x2E"
  using last_dotted [of "split_dots name"] split_dots_no_dot by (auto simp: dotted_split_dots)

section \<open>Round trip and exactness\<close>





end
