(* ===== verification/Dns_Client.thy ===== *)
theory Dns_Client
  imports Dns_Name Udp Ipv4_Addr
begin

text \<open>
  The DNS client (\<open>dns/dns_cache.c\<close>, \<open>dns/dns_client.c\<close>) of the default configuration: IPv4, with the NBNS client
  and without mDNS. The cache of names, the queries, the timer that repeats them and drops old entries, and the handling of
  responses. Then what a lookup gets, what a response may change, and that a query without an answer ends.
\<close>

abbreviation (input) DNS_CLIENT_MAX_RETRIES :: u32 where "DNS_CLIENT_MAX_RETRIES \<equiv> 3"
abbreviation (input) DNS_CLIENT_INIT_TIMEOUT :: systime_t where "DNS_CLIENT_INIT_TIMEOUT \<equiv> 1000"
abbreviation (input) DNS_CLIENT_MAX_TIMEOUT :: systime_t where "DNS_CLIENT_MAX_TIMEOUT \<equiv> 5000"
abbreviation (input) DNS_MIN_LIFETIME :: systime_t where "DNS_MIN_LIFETIME \<equiv> 1000"
abbreviation (input) DNS_MAX_LIFETIME :: systime_t where "DNS_MAX_LIFETIME \<equiv> 3600000"
abbreviation (input) DNS_MESSAGE_MAX_SIZE :: nat where "DNS_MESSAGE_MAX_SIZE \<equiv> 512"
abbreviation (input) DNS_MAX_NAME_LEN :: nat where "DNS_MAX_NAME_LEN \<equiv> 63"
abbreviation (input) IPV4_DNS_SERVER_LIST_SIZE :: nat where "IPV4_DNS_SERVER_LIST_SIZE \<equiv> 2"
abbreviation (input) DNS_PORT :: u16 where "DNS_PORT \<equiv> 53"
abbreviation (input) SIZEOF_DNS_HEADER :: nat where "SIZEOF_DNS_HEADER \<equiv> 12"
abbreviation (input) SIZEOF_DNS_QUESTION :: nat where "SIZEOF_DNS_QUESTION \<equiv> 4"
abbreviation (input) SIZEOF_DNS_RESOURCE_RECORD :: nat where "SIZEOF_DNS_RESOURCE_RECORD \<equiv> 10"
abbreviation (input) DNS_RR_TYPE_A :: u16 where "DNS_RR_TYPE_A \<equiv> 1"
abbreviation (input) DNS_RR_TYPE_AAAA :: u16 where "DNS_RR_TYPE_AAAA \<equiv> 28"
abbreviation (input) DNS_RR_CLASS_IN :: u16 where "DNS_RR_CLASS_IN \<equiv> 1"

section \<open>The cache\<close>

datatype DnsState = DNS_STATE_NONE | DNS_STATE_IN_PROGRESS | DNS_STATE_RESOLVED | DNS_STATE_PERMANENT
datatype HostType = HOST_TYPE_ANY | HOST_TYPE_IPV4 | HOST_TYPE_IPV6
datatype HostnameResolver = HOST_NAME_RESOLVER_ANY | HOST_NAME_RESOLVER_DNS | HOST_NAME_RESOLVER_MDNS | HOST_NAME_RESOLVER_NBNS
  | HOST_NAME_RESOLVER_LLMNR

record DnsCacheEntry =
  dnsState :: DnsState
  dnsType :: HostType
  dnsProtocol :: HostnameResolver
  dnsInterface :: nat
  dnsServerNum :: nat
  dnsEntryPort :: u16
  dnsId :: u16
  dnsName :: "u8 list"
  dnsIpAddr :: IpAddr
  dnsTimestamp :: systime_t
  dnsTimeout :: systime_t
  dnsMaxTimeout :: systime_t
  dnsRetransmitCount :: u32

text \<open>The resolver: the cache, the UDP module and the interfaces with the addresses of the DNS servers.\<close>

record resolver =
  dnsStack :: stack
  dnsCache :: "DnsCacheEntry list"
  dnsIfs :: "NetInterface list"

definition zeroDnsEntry :: DnsCacheEntry where
  "zeroDnsEntry = \<lparr>dnsState = DNS_STATE_NONE, dnsType = HOST_TYPE_ANY, dnsProtocol = HOST_NAME_RESOLVER_ANY, dnsInterface = 0,
     dnsServerNum = 0, dnsEntryPort = 0, dnsId = 0, dnsName = [], dnsIpAddr = zeroAddr, dnsTimestamp = 0, dnsTimeout = 0,
     dnsMaxTimeout = 0, dnsRetransmitCount = 0\<rparr>"

definition put_dns :: "nat \<Rightarrow> (DnsCacheEntry \<Rightarrow> DnsCacheEntry) \<Rightarrow> resolver \<Rightarrow> resolver" where
  "put_dns k f w = w\<lparr>dnsCache := (dnsCache w)[k := f (dnsCache w ! k)]\<rparr>"

definition put_stack :: "(stack \<Rightarrow> stack) \<Rightarrow> resolver \<Rightarrow> resolver" where
  "put_stack f w = w\<lparr>dnsStack := f (dnsStack w)\<rparr>"

abbreviation dns_ctx :: "resolver \<Rightarrow> ctx" where "dns_ctx w \<equiv> nx (sn (dnsStack w))"

definition put_ctx :: "ctx \<Rightarrow> resolver \<Rightarrow> resolver" where
  "put_ctx x = put_stack (\<lambda>st. st\<lparr>sn := (sn st)\<lparr>nx := x\<rparr>\<rparr>)"

definition dns_time :: "resolver \<Rightarrow> systime_t \<times> resolver" where
  "dns_time w = (let (t, x) = osGetSystemTime (dns_ctx w) in (t, put_ctx x w))"

definition dnsInit :: "resolver \<Rightarrow> error_t \<times> resolver" where
  "dnsInit w = (NO_ERROR, w\<lparr>dnsCache := replicate (length (dnsCache w)) zeroDnsEntry\<rparr>)"

definition dnsDeleteEntry :: "nat \<Rightarrow> resolver \<Rightarrow> resolver" where
  "dnsDeleteEntry k w =
     (let e = dnsCache w ! k;
          w = (if dnsProtocol e = HOST_NAME_RESOLVER_DNS \<and> dnsState e = DNS_STATE_IN_PROGRESS
               then put_stack (\<lambda>st. snd (udpDetachRxCallback (Some (dnsInterface e)) (dnsEntryPort e) st)) w else w)
      in put_dns k (\<lambda>e. e\<lparr>dnsState := DNS_STATE_NONE\<rparr>) w)"

definition dnsFlushCache :: "nat \<Rightarrow> resolver \<Rightarrow> resolver" where
  "dnsFlushCache i w =
     foldl (\<lambda>w k. let e = dnsCache w ! k in
              if dnsState e \<noteq> DNS_STATE_NONE \<and> dnsInterface e = i then dnsDeleteEntry k w else w)
       w [0..<length (dnsCache w)]"

fun dns_oldest :: "systime_t \<Rightarrow> DnsCacheEntry list \<Rightarrow> nat \<Rightarrow> nat \<times> systime_t \<Rightarrow> nat" where
  "dns_oldest t [] k best = fst best"
| "dns_oldest t (e # es) k best =
     dns_oldest t es (Suc k) (if t - dnsTimestamp e > t - snd best then (k, dnsTimestamp e) else best)"

definition dnsCreateEntry :: "resolver \<Rightarrow> nat \<times> resolver" where
  "dnsCreateEntry w =
     (let (t, w) = dns_time w
      in case index_of (\<lambda>e. dnsState e = DNS_STATE_NONE) (dnsCache w) of
           Some k \<Rightarrow> (k, put_dns k (\<lambda>e. zeroDnsEntry) w)
         | None \<Rightarrow>
             (let k = dns_oldest t (dnsCache w) 0 (0, dnsTimestamp (dnsCache w ! 0))
              in (k, put_dns k (\<lambda>e. zeroDnsEntry) (dnsDeleteEntry k w))))"

definition dnsFindEntry :: "nat \<Rightarrow> u8 list option \<Rightarrow> HostType \<Rightarrow> HostnameResolver \<Rightarrow> resolver \<Rightarrow> nat option" where
  "dnsFindEntry i name ty pr w =
     index_of (\<lambda>e. dnsState e \<noteq> DNS_STATE_NONE \<and> dnsInterface e = i \<and> (dnsType e = ty \<or> ty = HOST_TYPE_ANY) \<and>
         (dnsProtocol e = pr \<or> pr = HOST_NAME_RESOLVER_ANY) \<and>
         (case name of None \<Rightarrow> True | Some n \<Rightarrow> same_chars (dnsName e) n))
       (dnsCache w)"

section \<open>Queries\<close>

text \<open>
  The message of a query. The result of \<open>dnsEncodeName\<close> is not looked at: a name that cannot be encoded is left out, and
  the question follows the header.
\<close>

definition dns_query :: "u16 \<Rightarrow> u8 list \<Rightarrow> u8 list" where
  "dns_query i name =
     be16 i @ [0x01, 0x00] @ be16 1 @ be16 0 @ be16 0 @ be16 0 @
     (case dnsEncodeName name of None \<Rightarrow> [] | Some e \<Rightarrow> e) @ be16 DNS_RR_TYPE_A @ be16 DNS_RR_CLASS_IN"

definition dnsSendQuery :: "NetInterface list \<Rightarrow> DnsCacheEntry \<Rightarrow> ctx \<Rightarrow> error_t \<times> ctx" where
  "dnsSendQuery ifs e x =
     (if dnsType e \<noteq> HOST_TYPE_IPV4 then (ERROR_INVALID_PARAMETER, x)
      else if dnsServerNum e \<ge> IPV4_DNS_SERVER_LIST_SIZE then (ERROR_NO_DNS_SERVER, x)
      else
        let server = dnsServerList (ipv4Context (ifs ! dnsInterface e)) ! dnsServerNum e
        in if server = IPV4_UNSPECIFIED_ADDR then (ERROR_NO_DNS_SERVER, x)
           else case udpAllocBuffer x DNS_MESSAGE_MAX_SIZE of
                  (None, x) \<Rightarrow> (ERROR_OUT_OF_MEMORY, x)
                | (Some (a, b, off), x) \<Rightarrow>
                    (let message = dns_query (dnsId e) (dnsName e);
                         b = netBufferPoke b off message;
                         (_, x, b) = bufSetLength x b (off + length message);
                         (err, b, x) = udpSendDatagramEx (Some (dnsInterface e)) None (dnsEntryPort e)
                             \<lparr>ipLength = 4, ipData = ip_bytes server\<rparr> DNS_PORT b off NET_DEFAULT_ANCILLARY_DATA x
                     in (err, bufFree x a b)))"

definition dns_send :: "nat \<Rightarrow> resolver \<Rightarrow> error_t \<times> resolver" where
  "dns_send k w = (let (e, x) = dnsSendQuery (dnsIfs w) (dnsCache w ! k) (dns_ctx w) in (e, put_ctx x w))"

section \<open>Resolution\<close>

text \<open>
  The entry after \<open>dnsCreateEntry\<close>, up to the query. \<open>callback\<close> is the number of \<open>dnsProcessResponse\<close>. A name that does not fit
  is copied beyond the entry: \<open>None\<close>.
\<close>

definition dns_start :: "nat \<Rightarrow> nat \<Rightarrow> u8 list \<Rightarrow> HostType \<Rightarrow> resolver \<Rightarrow> (error_t \<times> resolver) option" where
  "dns_start callback i name ty w =
     (let (k, w) = dnsCreateEntry w
      in if length name > DNS_MAX_NAME_LEN then None
         else Some (
           let (port, x) = udpGetDynamicPort (dns_ctx w);
               (r, x) = netGetRand x;
               w = put_ctx x w;
               w = put_dns k (\<lambda>e. e\<lparr>dnsName := name, dnsType := ty, dnsProtocol := HOST_NAME_RESOLVER_DNS, dnsInterface := i,
                     dnsServerNum := 0, dnsEntryPort := port, dnsId := ucast r\<rparr>) w;
               (err, st) = udpAttachRxCallback (Some i) port callback None (dnsStack w);
               w = w\<lparr>dnsStack := st\<rparr>
           in if err \<noteq> NO_ERROR then (err, w)
              else
                let (err, w) = dns_send k (put_dns k (\<lambda>e. e\<lparr>dnsRetransmitCount := DNS_CLIENT_MAX_RETRIES\<rparr>) w)
                in if err = NO_ERROR then
                     let (t, w) = dns_time w
                     in (ERROR_IN_PROGRESS,
                         put_dns k (\<lambda>e. e\<lparr>dnsTimestamp := t, dnsTimeout := DNS_CLIENT_INIT_TIMEOUT, dnsMaxTimeout := DNS_CLIENT_MAX_TIMEOUT,
                           dnsRetransmitCount := dnsRetransmitCount e - 1, dnsState := DNS_STATE_IN_PROGRESS\<rparr>) w)
                   else (err, put_stack (\<lambda>st. snd (udpDetachRxCallback (Some i) port st)) w)))"

text \<open>The polling loop: \<open>others\<close> is what the other tasks do during a delay.\<close>

partial_function (option) dns_wait ::
  "(resolver \<Rightarrow> resolver) \<Rightarrow> nat \<Rightarrow> u8 list \<Rightarrow> HostType \<Rightarrow> resolver \<Rightarrow> (error_t \<times> IpAddr option \<times> resolver) option" where
  "dns_wait others i name ty w =
     (let w = others w
      in case dnsFindEntry i (Some name) ty HOST_NAME_RESOLVER_DNS w of
           None \<Rightarrow> Some (ERROR_FAILURE, None, w)
         | Some k \<Rightarrow>
             if dnsState (dnsCache w ! k) = DNS_STATE_RESOLVED then Some (NO_ERROR, Some (dnsIpAddr (dnsCache w ! k)), w)
             else dns_wait others i name ty w)"

definition dnsResolve ::
  "nat \<Rightarrow> (resolver \<Rightarrow> resolver) \<Rightarrow> nat \<Rightarrow> u8 list \<Rightarrow> HostType \<Rightarrow> resolver \<Rightarrow> (error_t \<times> IpAddr option \<times> resolver) option" where
  "dnsResolve callback others i name ty w =
     (case dnsFindEntry i (Some name) ty HOST_NAME_RESOLVER_DNS w of
        Some k \<Rightarrow>
          if dnsState (dnsCache w ! k) = DNS_STATE_RESOLVED \<or> dnsState (dnsCache w ! k) = DNS_STATE_PERMANENT
          then Some (NO_ERROR, Some (dnsIpAddr (dnsCache w ! k)), w)
          else dns_wait others i name ty w
      | None \<Rightarrow>
          (case dns_start callback i name ty w of
             None \<Rightarrow> None
           | Some (err, w) \<Rightarrow> if err = ERROR_IN_PROGRESS then dns_wait others i name ty w else Some (err, None, w)))"

section \<open>The timer\<close>

definition dns_due :: "systime_t \<Rightarrow> DnsCacheEntry \<Rightarrow> bool" where
  "dns_due t e \<longleftrightarrow> timeCompare t (dnsTimestamp e + dnsTimeout e) \<ge> 0"

text \<open>The query of an entry is sent again by its protocol; \<open>nbns\<close> stands for \<open>nbnsSendQuery\<close>, the mDNS client is disabled by default.\<close>

definition dns_resend :: "(DnsCacheEntry \<Rightarrow> ctx \<Rightarrow> error_t \<times> ctx) \<Rightarrow> nat \<Rightarrow> resolver \<Rightarrow> error_t \<times> resolver" where
  "dns_resend nbns k w =
     (let e = dnsCache w ! k
      in if dnsProtocol e = HOST_NAME_RESOLVER_DNS then dns_send k w
         else if dnsProtocol e = HOST_NAME_RESOLVER_NBNS then (let (err, x) = nbns e (dns_ctx w) in (err, put_ctx x w))
         else (ERROR_FAILURE, w))"

definition dns_tick_entry :: "(DnsCacheEntry \<Rightarrow> ctx \<Rightarrow> error_t \<times> ctx) \<Rightarrow> systime_t \<Rightarrow> nat \<Rightarrow> resolver \<Rightarrow> resolver" where
  "dns_tick_entry nbns t k w =
     (let e = dnsCache w ! k
      in if dnsState e = DNS_STATE_IN_PROGRESS then
           (if dns_due t e then
              (if dnsRetransmitCount e > 0 then
                 let (err, w) = dns_resend nbns k w
                 in if err = NO_ERROR then
                      put_dns k (\<lambda>e. e\<lparr>dnsTimestamp := t, dnsTimeout := min (dnsTimeout e * 2) (dnsMaxTimeout e),
                        dnsRetransmitCount := dnsRetransmitCount e - 1\<rparr>) w
                    else dnsDeleteEntry k w
               else if dnsProtocol e = HOST_NAME_RESOLVER_DNS then
                 let w = put_dns k (\<lambda>e. e\<lparr>dnsServerNum := dnsServerNum e + 1, dnsRetransmitCount := DNS_CLIENT_MAX_RETRIES\<rparr>) w;
                     (err, w) = dns_send k w
                 in if err = NO_ERROR then
                      put_dns k (\<lambda>e. e\<lparr>dnsTimestamp := t, dnsTimeout := DNS_CLIENT_INIT_TIMEOUT,
                        dnsRetransmitCount := dnsRetransmitCount e - 1\<rparr>) w
                    else dnsDeleteEntry k w
               else dnsDeleteEntry k w)
            else w)
         else if dnsState e = DNS_STATE_RESOLVED then (if dns_due t e then dnsDeleteEntry k w else w)
         else w)"

definition dnsTick :: "(DnsCacheEntry \<Rightarrow> ctx \<Rightarrow> error_t \<times> ctx) \<Rightarrow> resolver \<Rightarrow> resolver" where
  "dnsTick nbns w =
     (let (t, w) = dns_time w
      in foldl (\<lambda>w k. dns_tick_entry nbns t k w) w [0..<length (dnsCache w)])"

section \<open>Responses\<close>

text \<open>
  The tests on the question of a response for the entry: the position behind it, \<open>Inr False\<close> for a response that is ignored. The
  name of the entry lies in a buffer of 64 bytes; a comparison that leaves it is \<open>Inl\<close>.
\<close>

definition name_buffer :: "u8 list \<Rightarrow> u8 list" where
  "name_buffer name = name @ replicate (DNS_MAX_NAME_LEN + 1 - length name) 0"

definition dns_question :: "u8 list \<Rightarrow> DnsCacheEntry \<Rightarrow> nat option option" where
  "dns_question m e =
     (let pos = fst (dnsParseName m SIZEOF_DNS_HEADER 0)
      in if of_be16 (m ! 0) (m ! 1) \<noteq> dnsId e then Some None
         else if pos = 0 \<or> pos + SIZEOF_DNS_QUESTION > length m then Some None
         else case dnsCompareName m SIZEOF_DNS_HEADER (name_buffer (dnsName e)) 0 of
                None \<Rightarrow> None
              | Some res \<Rightarrow>
                  Some (
                    let qtype = of_be16 (m ! pos) (m ! (pos + 1)); qclass = of_be16 (m ! (pos + 2)) (m ! (pos + 3))
                    in if res \<noteq> 0 \<or> qclass \<noteq> DNS_RR_CLASS_IN \<or> (dnsType e = HOST_TYPE_IPV4 \<and> qtype \<noteq> DNS_RR_TYPE_A) \<or>
                          (dnsType e = HOST_TYPE_IPV6 \<and> qtype \<noteq> DNS_RR_TYPE_AAAA) then None
                       else Some (pos + SIZEOF_DNS_QUESTION)))"

text \<open>The first address among at most \<open>n\<close> resource records from \<open>pos\<close> on, with its lifetime in seconds.\<close>

fun dns_answer :: "u8 list \<Rightarrow> nat \<Rightarrow> nat \<Rightarrow> (u8 list \<times> u32) option" where
  "dns_answer m 0 pos = None"
| "dns_answer m (Suc n) pos =
     (let r = fst (dnsParseName m pos 0); pos = r + SIZEOF_DNS_RESOURCE_RECORD;
          rtype = of_be16 (m ! r) (m ! (r + 1)); rdlength = unat (of_be16 (m ! (r + 8)) (m ! (r + 9)))
      in if r = 0 \<or> pos > length m then None
         else if pos + rdlength > length m then None
         else if rtype = DNS_RR_TYPE_A \<and> rdlength = 4 then Some (take 4 (drop pos m), LOAD32BE (drop (r + 4) m))
         else dns_answer m n (pos + rdlength))"

definition dns_lifetime :: "u32 \<Rightarrow> systime_t" where
  "dns_lifetime secs =
     (let t = secs * 1000;
          t = (if t \<ge> DNS_MAX_LIFETIME then DNS_MAX_LIFETIME else t)
      in if t \<le> DNS_MIN_LIFETIME then DNS_MIN_LIFETIME else t)"

text \<open>The message \<open>m\<close> for the entry \<open>k\<close>, the first in progress on its port; \<open>i\<close> is the interface it came in.\<close>

definition dns_process :: "nat \<Rightarrow> u8 list \<Rightarrow> nat \<Rightarrow> resolver \<Rightarrow> resolver option" where
  "dns_process i m k w =
     (let e = dnsCache w ! k
      in case dns_question m e of
           None \<Rightarrow> None
         | Some None \<Rightarrow> Some w
         | Some (Some pos) \<Rightarrow>
             if m ! 3 AND 0x0F \<noteq> 0 then Some (dnsDeleteEntry k w)
             else if dnsType e \<noteq> HOST_TYPE_IPV4 then Some w
             else case dns_answer m (unat (of_be16 (m ! 6) (m ! 7))) pos of
                    None \<Rightarrow> Some w
                  | Some (a, secs) \<Rightarrow>
                      Some (
                        let (t, w) = dns_time w;
                            w = put_dns k (\<lambda>e. e\<lparr>dnsIpAddr := \<lparr>ipLength = 4, ipData = a\<rparr>, dnsTimestamp := t, dnsTimeout := dns_lifetime secs\<rparr>) w;
                            w = put_stack (\<lambda>st. snd (udpDetachRxCallback (Some i) (dnsEntryPort e) st)) w
                        in put_dns k (\<lambda>e. e\<lparr>dnsState := DNS_STATE_RESOLVED\<rparr>) w))"

text \<open>A message that does not lie in one block is read beyond it: \<open>None\<close>.\<close>

definition dnsProcessResponse :: "nat \<Rightarrow> u16 \<Rightarrow> NetBuffer \<Rightarrow> nat \<Rightarrow> resolver \<Rightarrow> resolver option" where
  "dnsProcessResponse i dport b off w =
     (let len = netBufferGetLength b - off
      in if len < SIZEOF_DNS_HEADER \<or> len > DNS_MESSAGE_MAX_SIZE then Some w
         else case netBufferAt b off of
                None \<Rightarrow> Some w
              | Some (a, p) \<Rightarrow>
                  if length p < len then None
                  else
                    let m = take len p
                    in if m ! 2 AND 0x80 = 0 \<or> of_be16 (m ! 4) (m ! 5) \<noteq> 1 then Some w
                       else case index_of (\<lambda>e. dnsState e = DNS_STATE_IN_PROGRESS \<and> dnsProtocol e = HOST_NAME_RESOLVER_DNS \<and>
                                   dnsEntryPort e = dport) (dnsCache w) of
                              None \<Rightarrow> Some w
                            | Some k \<Rightarrow> dns_process i m k w)"

section \<open>Frame lemmas\<close>

lemma put_dns_simps [simp]:
  "dnsCache (put_dns k f w) = (dnsCache w)[k := f (dnsCache w ! k)]" "dnsStack (put_dns k f w) = dnsStack w" "dnsIfs (put_dns k f w) = dnsIfs w"
  by (simp_all add: put_dns_def)

lemma put_stack_simps [simp]:
  "dnsCache (put_stack g w) = dnsCache w" "dnsStack (put_stack g w) = g (dnsStack w)" "dnsIfs (put_stack g w) = dnsIfs w"
  by (simp_all add: put_stack_def)

lemma put_ctx_simps [simp]:
  "dnsCache (put_ctx x w) = dnsCache w" "udpCallbackTable (dnsStack (put_ctx x w)) = udpCallbackTable (dnsStack w)" "dnsIfs (put_ctx x w) = dnsIfs w"
  by (simp_all add: put_ctx_def)

definition no_callback :: "nat \<Rightarrow> u16 \<Rightarrow> resolver \<Rightarrow> bool" where
  "no_callback i port w \<longleftrightarrow> (\<forall>d \<in> set (udpCallbackTable (dnsStack w)). \<not> registered (Some i) port d)"

lemma detach_loop_set: "set (snd (detach_loop ifc port err es)) \<subseteq> {e \<in> set es. \<not> registered ifc port e} \<union> {e\<lparr>cbCallback := None\<rparr> | e. e \<in> set es}"
  by (induction es arbitrary: err) (auto simp: split_beta Let_def)

lemma not_registered [simp]: "\<not> registered ifc port (e\<lparr>cbCallback := None\<rparr>)"
  by (simp add: registered_def)

lemma detach_no_callback:
  "no_callback i port (put_stack (\<lambda>st. snd (udpDetachRxCallback (Some i) port st)) w)"
  using detach_loop_set [of "Some i" port ERROR_FAILURE "udpCallbackTable (dnsStack w)"]
  by (auto simp: no_callback_def udpDetachRxCallback_def split_beta Let_def)

lemma detach_keeps:
  "no_callback i port w \<Longrightarrow> no_callback i port (put_stack (\<lambda>st. snd (udpDetachRxCallback ifc p st)) w)"
  using detach_loop_set [of ifc p ERROR_FAILURE "udpCallbackTable (dnsStack w)"]
  by (auto simp: no_callback_def udpDetachRxCallback_def split_beta Let_def)

lemma no_callback_table: "udpCallbackTable (dnsStack w') = udpCallbackTable (dnsStack w) \<Longrightarrow> no_callback i port w' = no_callback i port w"
  by (simp add: no_callback_def)

text \<open>What a step of the timer on entry \<open>j\<close> leaves alone.\<close>

definition dns_step :: "nat \<Rightarrow> resolver \<Rightarrow> resolver \<Rightarrow> bool" where
  "dns_step j w w' \<longleftrightarrow> (\<exists>e. dnsCache w' = (dnsCache w)[j := e]) \<and> (\<forall>i port. no_callback i port w \<longrightarrow> no_callback i port w')"

lemma dns_stepI: "dnsCache w' = (dnsCache w)[j := e] \<Longrightarrow> udpCallbackTable (dnsStack w') = udpCallbackTable (dnsStack w) \<Longrightarrow> dns_step j w w'"
  by (auto simp: dns_step_def no_callback_def)

lemma dns_step_refl [simp]: "dns_step j w w"
  by (rule dns_stepI [of _ _ _ "dnsCache w ! j"]) simp_all

lemma dns_step_trans: "dns_step j w w1 \<Longrightarrow> dns_step j w1 w2 \<Longrightarrow> dns_step j w w2"
  by (auto simp: dns_step_def)

lemma dns_send_step: "dns_step j w (snd (dns_send k w))"
  by (rule dns_stepI [of _ _ _ "dnsCache w ! j"]) (simp_all add: dns_send_def split_beta Let_def)

lemma dns_resend_step: "dns_step j w (snd (dns_resend nbns k w))"
  using dns_send_step by (auto simp: dns_resend_def Let_def split_beta intro: dns_stepI [of _ _ _ "dnsCache w ! j"])

lemma put_dns_step: "dns_step j w (put_dns j f w)"
  by (rule dns_stepI) simp_all

lemma dnsDeleteEntry_step: "dns_step j w (dnsDeleteEntry j w)"
  using detach_keeps by (auto simp: dns_step_def dnsDeleteEntry_def Let_def no_callback_def)

lemma dns_tick_entry_step: "dns_step j w (dns_tick_entry nbns t j w)"
proof -
  let ?w1 = "put_dns j (\<lambda>e. e\<lparr>dnsServerNum := dnsServerNum e + 1, dnsRetransmitCount := DNS_CLIENT_MAX_RETRIES\<rparr>) w"
  have a: "dns_step j w (put_dns j f (snd (dns_resend nbns j w)))" "dns_step j w (dnsDeleteEntry j (snd (dns_resend nbns j w)))" for f
    by (rule dns_step_trans [OF dns_resend_step put_dns_step], rule dns_step_trans [OF dns_resend_step dnsDeleteEntry_step])
  have b: "dns_step j w (put_dns j f (snd (dns_send j ?w1)))" "dns_step j w (dnsDeleteEntry j (snd (dns_send j ?w1)))" for f
    by (rule dns_step_trans [OF dns_step_trans [OF put_dns_step dns_send_step] put_dns_step],
        rule dns_step_trans [OF dns_step_trans [OF put_dns_step dns_send_step] dnsDeleteEntry_step])
  show ?thesis unfolding dns_tick_entry_def Let_def split_beta by (simp only: a b dns_step_refl dnsDeleteEntry_step if_cancel split: if_split) simp
qed

lemma dns_foldl_step:
  assumes "set js \<subseteq> - {k}"
  shows "length (dnsCache (foldl (\<lambda>w j. dns_tick_entry nbns t j w) w js)) = length (dnsCache w) \<and>
    dnsCache (foldl (\<lambda>w j. dns_tick_entry nbns t j w) w js) ! k = dnsCache w ! k \<and>
    (\<forall>i port. no_callback i port w \<longrightarrow> no_callback i port (foldl (\<lambda>w j. dns_tick_entry nbns t j w) w js))"
  using assms
proof (induction js arbitrary: w)
  case (Cons j js)
  from dns_tick_entry_step [of j w nbns t] obtain e where e: "dnsCache (dns_tick_entry nbns t j w) = (dnsCache w)[j := e]"
    "\<forall>i port. no_callback i port w \<longrightarrow> no_callback i port (dns_tick_entry nbns t j w)" by (auto simp: dns_step_def)
  from Cons have "j \<noteq> k" by auto
  with Cons.IH [of "dns_tick_entry nbns t j w"] Cons.prems e show ?case by auto
qed simp

section \<open>A query nobody answers\<close>

lemma dns_time_simps [simp]:
  "dnsCache (snd (dns_time w)) = dnsCache w" "udpCallbackTable (dnsStack (snd (dns_time w))) = udpCallbackTable (dnsStack w)"
  by (simp_all add: dns_time_def split_beta Let_def)

lemma dns_foldl_length: "length (dnsCache (foldl (\<lambda>w j. dns_tick_entry nbns t j w) w js)) = length (dnsCache w)"
proof (induction js arbitrary: w)
  case (Cons j js)
  from dns_tick_entry_step [of j w nbns t] have "length (dnsCache (dns_tick_entry nbns t j w)) = length (dnsCache w)" by (auto simp: dns_step_def)
  with Cons show ?case by simp
qed simp

text \<open>The tick, seen from one entry.\<close>

lemma dnsTick_entry:
  assumes k: "k < length (dnsCache w)"
  shows "\<exists>w1. dnsCache w1 ! k = dnsCache w ! k \<and> k < length (dnsCache w1) \<and>
    dnsCache (dnsTick nbns w) ! k = dnsCache (dns_tick_entry nbns (fst (dns_time w)) k w1) ! k \<and>
    (\<forall>i port. no_callback i port (dns_tick_entry nbns (fst (dns_time w)) k w1) \<longrightarrow> no_callback i port (dnsTick nbns w))"
proof -
  obtain t w0 where t: "dns_time w = (t, w0)" by force
  then have c: "dnsCache w0 = dnsCache w" using dns_time_simps(1) [of w] by simp
  define n where "n = length (dnsCache w)"
  let ?f = "\<lambda>w j. dns_tick_entry nbns t j w"
  define w1 where "w1 = foldl ?f w0 [0..<k]"
  have 1: "length (dnsCache w1) = n" "dnsCache w1 ! k = dnsCache w ! k"
    using dns_foldl_step [of "[0..<k]" k nbns t w0] by (auto simp: w1_def n_def c)
  have "[0..<n] = [0..<k] @ k # [Suc k..<n]" using k upt_add_eq_append [of 0 k "n - k"] by (simp add: n_def upt_conv_Cons)
  then have "dnsTick nbns w = foldl ?f (?f w1 k) [Suc k..<n]" by (simp add: dnsTick_def t c w1_def n_def)
  moreover note dns_foldl_step [of "[Suc k..<n]" k nbns t "?f w1 k"]
  ultimately show ?thesis using 1 k by (intro exI [of _ w1]) (auto simp: t n_def)
qed

definition dns_gone :: "nat \<Rightarrow> DnsCacheEntry \<Rightarrow> resolver \<Rightarrow> bool" where
  "dns_gone k e w \<longleftrightarrow> dnsState (dnsCache w ! k) = DNS_STATE_NONE \<and> no_callback (dnsInterface e) (dnsEntryPort e) w"

lemma dnsDeleteEntry_gone:
  assumes "k < length (dnsCache w)" and "dnsState (dnsCache w ! k) = DNS_STATE_IN_PROGRESS" and "dnsProtocol (dnsCache w ! k) = HOST_NAME_RESOLVER_DNS"
    and "dnsInterface (dnsCache w ! k) = dnsInterface e" and "dnsEntryPort (dnsCache w ! k) = dnsEntryPort e"
  shows "dns_gone k e (dnsDeleteEntry k w)"
  using assms detach_no_callback [of "dnsInterface e" "dnsEntryPort e" w]
  by (simp add: dns_gone_def dnsDeleteEntry_def Let_def no_callback_def)

lemma dns_send_cache [simp]: "dnsCache (snd (dns_send k w)) = dnsCache w"
  by (simp add: dns_send_def split_beta Let_def)

lemma dns_send_no_server:
  "dnsServerNum (dnsCache w ! k) \<ge> IPV4_DNS_SERVER_LIST_SIZE \<Longrightarrow> fst (dns_send k w) \<noteq> NO_ERROR"
  by (simp add: dns_send_def dnsSendQuery_def)

text \<open>The queries left for an entry: three for each server.\<close>

definition dns_queries :: "DnsCacheEntry \<Rightarrow> nat" where
  "dns_queries e = (1 - dnsServerNum e) * 3 + unat (dnsRetransmitCount e)"

definition in_flight :: "DnsCacheEntry \<Rightarrow> bool" where
  "in_flight e \<longleftrightarrow> dnsState e = DNS_STATE_IN_PROGRESS \<and> dnsProtocol e = HOST_NAME_RESOLVER_DNS \<and>
     dnsServerNum e < IPV4_DNS_SERVER_LIST_SIZE \<and> dnsRetransmitCount e < DNS_CLIENT_MAX_RETRIES"

lemma u32_pred: "(c :: u32) > 0 \<Longrightarrow> unat (c - 1) = unat c - 1"
  by (simp add: unat_minus_one word_gt_0)

lemma u32_pred_less: "(c :: u32) > 0 \<Longrightarrow> c < b \<Longrightarrow> c - 1 < b"
  by (simp add: word_less_nat_alt u32_pred)

definition dns_next :: "DnsCacheEntry \<Rightarrow> DnsCacheEntry \<Rightarrow> bool" where
  "dns_next e e' \<longleftrightarrow> in_flight e' \<and> dns_queries e = Suc (dns_queries e') \<and> dnsInterface e' = dnsInterface e \<and> dnsEntryPort e' = dnsEntryPort e"

lemma dns_tick_entry_due:
  assumes k: "k < length (dnsCache w)" and e: "e = dnsCache w ! k" and f: "in_flight e" and d: "dns_due t e"
  shows "dns_gone k e (dns_tick_entry nbns t k w) \<or> dns_next e (dnsCache (dns_tick_entry nbns t k w) ! k)"
proof (cases "dnsRetransmitCount e > 0")
  case True
  have s: "dns_resend nbns k w = dns_send k w" using e f by (simp add: dns_resend_def in_flight_def)
  have "dns_gone k e (dnsDeleteEntry k (snd (dns_send k w)))"
    using f e k by (intro dnsDeleteEntry_gone) (simp_all add: in_flight_def)
  then show ?thesis
    using True f d k s u32_pred [OF True] u32_pred_less [OF True] unat_gt_0 [of "dnsRetransmitCount e"]
    by (auto simp: dns_tick_entry_def e [symmetric] in_flight_def Let_def split_beta dns_next_def dns_queries_def)
next
  case False
  then have 0: "dnsRetransmitCount e = 0" by (simp add: word_gt_0)
  let ?w = "put_dns k (\<lambda>e. e\<lparr>dnsServerNum := dnsServerNum e + 1, dnsRetransmitCount := DNS_CLIENT_MAX_RETRIES\<rparr>) w"
  have g: "dns_gone k e (dnsDeleteEntry k (snd (dns_send k ?w)))"
    using f e k by (intro dnsDeleteEntry_gone) (simp_all add: in_flight_def)
  show ?thesis
  proof (cases "fst (dns_send k ?w) = NO_ERROR")
    case True
    then have "\<not> IPV4_DNS_SERVER_LIST_SIZE \<le> Suc (dnsServerNum e)" using dns_send_no_server [of ?w k] k by (auto simp: e)
    then have "dnsServerNum e = 0" by simp
    with True 0 f d k show ?thesis
      by (simp add: dns_tick_entry_def e [symmetric] in_flight_def Let_def split_beta dns_next_def dns_queries_def)
  next
    case err: False
    with g 0 f d show ?thesis by (simp add: dns_tick_entry_def e [symmetric] in_flight_def Let_def split_beta)
  qed
qed

lemma dnsTick_due:
  assumes k: "k < length (dnsCache w)" and e: "e = dnsCache w ! k" and f: "in_flight e" and d: "dns_due (fst (dns_time w)) e"
  shows "dns_gone k e (dnsTick nbns w) \<or> dns_next e (dnsCache (dnsTick nbns w) ! k)"
proof -
  from dnsTick_entry [OF k] obtain w1 where w1: "dnsCache w1 ! k = dnsCache w ! k" "k < length (dnsCache w1)"
    "dnsCache (dnsTick nbns w) ! k = dnsCache (dns_tick_entry nbns (fst (dns_time w)) k w1) ! k"
    "no_callback i port (dns_tick_entry nbns (fst (dns_time w)) k w1) \<longrightarrow> no_callback i port (dnsTick nbns w)" for i port by blast
  have "dns_gone k e (dns_tick_entry nbns (fst (dns_time w)) k w1) \<or> dns_next e (dnsCache (dns_tick_entry nbns (fst (dns_time w)) k w1) ! k)"
    by (rule dns_tick_entry_due [OF w1(2) _ f d]) (simp add: e w1(1))
  with w1(3,4) show ?thesis by (auto simp: dns_gone_def)
qed

text \<open>
  Property C21. A query that nobody answers is given up. Whatever the other tasks do between the ticks of the timer, as long as they
  leave the entry alone and its timeout passes each time, at most six ticks lie between the query and the deletion of the entry,
  two servers with three queries each; then its port has no callback any more.
\<close>

theorem dns_gives_up:
  assumes "in_flight (dnsCache (ws 0) ! k)"
    and "\<forall>n < 6. ws (Suc n) = dnsTick nbns (vs n)"
    and "\<forall>n < 6. in_flight (dnsCache (ws n) ! k) \<longrightarrow> k < length (dnsCache (vs n)) \<and> dnsCache (vs n) ! k = dnsCache (ws n) ! k \<and>
      dns_due (fst (dns_time (vs n))) (dnsCache (vs n) ! k)"
  shows "\<exists>n \<in> {1..6}. dnsState (dnsCache (ws n) ! k) = DNS_STATE_NONE \<and>
    no_callback (dnsInterface (dnsCache (ws 0) ! k)) (dnsEntryPort (dnsCache (ws 0) ! k)) (ws n)"
proof (rule ccontr)
  let ?e = "\<lambda>n. dnsCache (ws n) ! k"
  assume *: "\<not> ?thesis"
  have "n \<le> 6 \<Longrightarrow> in_flight (?e n) \<and> dns_queries (?e 0) = n + dns_queries (?e n) \<and>
    dnsInterface (?e n) = dnsInterface (?e 0) \<and> dnsEntryPort (?e n) = dnsEntryPort (?e 0)" for n
  proof (induction n)
    case 0
    then show ?case using assms(1) by simp
  next
    case (Suc n)
    then have n: "n < 6" and f: "in_flight (?e n)" and p: "dnsInterface (?e n) = dnsInterface (?e 0)" "dnsEntryPort (?e n) = dnsEntryPort (?e 0)" by auto
    with assms(3) have v: "k < length (dnsCache (vs n))" "dnsCache (vs n) ! k = ?e n" "dns_due (fst (dns_time (vs n))) (?e n)" by auto
    from dnsTick_due [OF v(1) v(2) [symmetric] f v(3), of nbns]
    have "dns_gone k (?e n) (ws (Suc n)) \<or> dns_next (?e n) (?e (Suc n))" using assms(2) n by simp
    moreover have "\<not> dns_gone k (?e n) (ws (Suc n))" using * Suc.prems p by (auto simp: dns_gone_def)
    ultimately show ?case using Suc p by (auto simp: dns_next_def)
  qed
  from this [of 6] this [of 0] have "6 \<le> dns_queries (?e 0)" by simp
  moreover have "dns_queries (?e 0) \<le> 5"
    using assms(1) by (auto simp: dns_queries_def in_flight_def word_less_nat_alt)
  ultimately show False by simp
qed

text \<open>Time passes until the query of the entry is due.\<close>

definition wait_due :: "nat \<Rightarrow> resolver \<Rightarrow> resolver" where
  "wait_due k w = put_ctx ((dns_ctx w)\<lparr>clock := \<lambda>_. dnsTimestamp (dnsCache w ! k) + dnsTimeout (dnsCache w ! k)\<rparr>) w"

lemma wait_due_simps [simp]: "dnsCache (wait_due k w) = dnsCache w"
  "fst (dns_time (wait_due k w)) = dnsTimestamp (dnsCache w ! k) + dnsTimeout (dnsCache w ! k)"
  by (simp_all add: wait_due_def dns_time_def osGetSystemTime_def put_ctx_def put_stack_def split_beta Let_def)

definition example_resolver :: "DnsCacheEntry \<Rightarrow> resolver" where
  "example_resolver e = \<lparr>dnsStack = \<lparr>sn = \<lparr>nx = example_ctx, socketTable = []\<rparr>,
       udpCallbackTable = [\<lparr>cbInterface = Some 0, cbPort = 5000, cbCallback = Some 1, cbParam = None\<rparr>]\<rparr>,
     dnsCache = [e, zeroDnsEntry],
     dnsIfs = [(example_if [example_addr 1])\<lparr>ipv4Context := (ipv4Context (example_if [example_addr 1]))
       \<lparr>dnsServerList := [IPV4_ADDR 10 0 1 53, IPV4_ADDR 10 0 1 54]\<rparr>\<rparr>]\<rparr>"

text \<open>A query for the name \<open>a.b\<close>.\<close>

definition example_query :: DnsCacheEntry where
  "example_query = zeroDnsEntry\<lparr>dnsState := DNS_STATE_IN_PROGRESS, dnsType := HOST_TYPE_IPV4, dnsProtocol := HOST_NAME_RESOLVER_DNS,
     dnsEntryPort := 5000, dnsId := 7, dnsName := [0x61, 0x2E, 0x62], dnsTimeout := 1000, dnsMaxTimeout := 5000, dnsRetransmitCount := 2\<rparr>"

theorem dns_gives_up_witness:
  "\<exists>n \<in> {1..6}. \<exists>w. w = ((\<lambda>w. dnsTick (\<lambda>e x. (NO_ERROR, x)) (wait_due 0 w)) ^^ n) (example_resolver example_query) \<and>
     dnsState (dnsCache w ! 0) = DNS_STATE_NONE \<and> no_callback 0 5000 w"
proof -
  let ?nbns = "\<lambda>e x. (NO_ERROR, x)"
  let ?ws = "\<lambda>n. ((\<lambda>w. dnsTick ?nbns (wait_due 0 w)) ^^ n) (example_resolver example_query)"
  have e: "dnsCache (?ws 0) ! 0 = example_query" by (simp add: example_resolver_def)
  have f: "in_flight (dnsCache (?ws 0) ! 0)" unfolding e by (simp add: in_flight_def example_query_def zeroDnsEntry_def)
  have len: "length (dnsCache (dnsTick ?nbns w)) = length (dnsCache w)" for w
    using dns_foldl_length [of ?nbns "fst (dns_time w)" "snd (dns_time w)" "[0..<length (dnsCache w)]"]
    by (simp add: dnsTick_def split_beta)
  have "length (dnsCache (?ws n)) = 2" for n
    by (induction n) (simp_all add: len, simp add: example_resolver_def)
  then have "\<forall>n < 6. in_flight (dnsCache (?ws n) ! 0) \<longrightarrow> 0 < length (dnsCache (wait_due 0 (?ws n))) \<and>
      dnsCache (wait_due 0 (?ws n)) ! 0 = dnsCache (?ws n) ! 0 \<and>
      dns_due (fst (dns_time (wait_due 0 (?ws n)))) (dnsCache (wait_due 0 (?ws n)) ! 0)"
    by (simp add: dns_due_def timeCompare_def)
  from dns_gives_up [where ws = ?ws and vs = "\<lambda>n. wait_due 0 (?ws n)" and nbns = ?nbns, OF f _ this]
  have "\<exists>n \<in> {1..6}. dnsState (dnsCache (?ws n) ! 0) = DNS_STATE_NONE \<and>
    no_callback (dnsInterface (dnsCache (?ws 0) ! 0)) (dnsEntryPort (dnsCache (?ws 0) ! 0)) (?ws n)" by simp
  then show ?thesis unfolding e by (simp add: example_query_def zeroDnsEntry_def)
qed

section \<open>What a response may change\<close>

definition name_ok :: "u8 list \<Rightarrow> bool" where
  "name_ok name \<longleftrightarrow> length name \<le> DNS_MAX_NAME_LEN \<and> 0 \<notin> set name \<and> (name \<noteq> [] \<longrightarrow> last name \<noteq> 0x2E)"

lemma name_buffer_end: "length name \<le> DNS_MAX_NAME_LEN \<Longrightarrow> name_buffer name = name @ 0 # replicate (DNS_MAX_NAME_LEN - length name) 0"
  by (simp add: name_buffer_def Suc_diff_le flip: replicate_Suc)

text \<open>The question of the message asks for the name of the entry; what follows starts at \<open>q\<close>.\<close>

definition asks_for :: "u8 list \<Rightarrow> DnsCacheEntry \<Rightarrow> u8 list list \<Rightarrow> nat \<Rightarrow> bool" where
  "asks_for m e ls q \<longleftrightarrow> (\<exists>k. name_at m SIZEOF_DNS_HEADER ls k q \<and> k < DNS_NAME_MAX_RECURSION) \<and>
     (\<forall>l \<in> set ls. length l < DNS_LABEL_MAX_SIZE) \<and> q + SIZEOF_DNS_QUESTION \<le> length m \<and>
     (dnsType e = HOST_TYPE_IPV4 \<longrightarrow> of_be16 (m ! q) (m ! (q + 1)) = DNS_RR_TYPE_A) \<and>
     (dnsType e = HOST_TYPE_IPV6 \<longrightarrow> of_be16 (m ! q) (m ! (q + 1)) = DNS_RR_TYPE_AAAA) \<and>
     of_be16 (m ! (q + 2)) (m ! (q + 3)) = DNS_RR_CLASS_IN"

lemma dns_question_iff:
  assumes "asks_for m e ls q" and "of_be16 (m ! 0) (m ! 1) = dnsId e" and "\<forall>l \<in> set ls. 0 \<notin> set l" and "name_ok (dnsName e)"
  shows "dns_question m e = Some (if same_chars (dotted ls) (dnsName e) then Some (q + SIZEOF_DNS_QUESTION) else None)"
proof -
  from assms(1) obtain k where k: "name_at m SIZEOF_DNS_HEADER ls k q" "k < DNS_NAME_MAX_RECURSION" by (auto simp: asks_for_def)
  have p: "fst (dnsParseName m SIZEOF_DNS_HEADER 0) = q" using dnsParseName_complete [OF k(1), of 0] k(2) assms(1) by (simp add: asks_for_def)
  obtain res where r: "dnsCompareName m SIZEOF_DNS_HEADER (name_buffer (dnsName e)) 0 = Some res" "res = 0 \<longleftrightarrow> same_chars (dotted ls) (dnsName e)"
    using dnsCompareName_dotted [OF k(1), of 0 "dnsName e"] k(2) assms(3,4) by (auto simp: name_ok_def name_buffer_end)
  show ?thesis using assms(1,2) name_at_pos [OF k(1)] r by (auto simp: dns_question_def p asks_for_def Let_def)
qed

lemma dns_question_sound:
  assumes "dns_question m e = Some (Some pos)" and "name_ok (dnsName e)"
  shows "\<exists>ls q. of_be16 (m ! 0) (m ! 1) = dnsId e \<and> asks_for m e ls q \<and> pos = q + SIZEOF_DNS_QUESTION \<and>
    (same_chars (dotted ls) (dnsName e) \<or> (\<exists>l \<in> set ls. 0 \<in> set l))"
proof -
  obtain r s where p: "dnsParseName m SIZEOF_DNS_HEADER 0 = (r, s)" by force
  with assms(1) have r: "r \<noteq> 0" "r + SIZEOF_DNS_QUESTION \<le> length m" "of_be16 (m ! 0) (m ! 1) = dnsId e"
    by (auto simp: dns_question_def Let_def split: if_splits)
  from dnsParseName_sound [OF p r(1)] obtain ls k where n: "name_at m SIZEOF_DNS_HEADER ls k r" "k < DNS_NAME_MAX_RECURSION"
    "\<forall>l \<in> set ls. length l < DNS_LABEL_MAX_SIZE" by auto
  have a: "asks_for m e ls r" "pos = r + SIZEOF_DNS_QUESTION"
    using assms(1) p n r by (auto simp: asks_for_def dns_question_def Let_def split: if_splits option.splits)
  have "same_chars (dotted ls) (dnsName e)" if "\<forall>l \<in> set ls. 0 \<notin> set l"
    using dns_question_iff [OF a(1) r(3) that assms(2)] assms(1) by (auto split: if_splits)
  with r(3) a show ?thesis by blast
qed

lemma dns_process_change:
  assumes "dns_process i m k w = Some w'" and "w' \<noteq> w" and "k < length (dnsCache w)"
  shows "\<exists>e' pos. dns_question m (dnsCache w ! k) = Some (Some pos) \<and> dnsCache w' = (dnsCache w)[k := e'] \<and>
    (dnsState e' = DNS_STATE_NONE \<or> dnsState e' = DNS_STATE_RESOLVED)"
  using assms by (auto simp: dns_process_def dnsDeleteEntry_def Let_def split_beta split: option.splits if_splits)


section \<open>The answer\<close>

text \<open>A sequence of resource records in the encoding of RFC 1035: type, lifetime and data of each.\<close>

inductive records_at :: "u8 list \<Rightarrow> nat \<Rightarrow> (u16 \<times> u32 \<times> u8 list) list \<Rightarrow> bool" for m where
  records_end: "records_at m pos []"
| records_next: "name_at m pos ls k r \<Longrightarrow> k < DNS_NAME_MAX_RECURSION \<Longrightarrow> \<forall>l \<in> set ls. length l < DNS_LABEL_MAX_SIZE \<Longrightarrow>
    n = unat (of_be16 (m ! (r + 8)) (m ! (r + 9))) \<Longrightarrow> r + SIZEOF_DNS_RESOURCE_RECORD + n \<le> length m \<Longrightarrow>
    records_at m (r + SIZEOF_DNS_RESOURCE_RECORD + n) rrs \<Longrightarrow>
    records_at m pos ((of_be16 (m ! r) (m ! (r + 1)), LOAD32BE (drop (r + 4) m), take n (drop (r + SIZEOF_DNS_RESOURCE_RECORD) m)) # rrs)"

definition first_address :: "(u16 \<times> u32 \<times> u8 list) list \<Rightarrow> (u8 list \<times> u32) option" where
  "first_address rrs = map_option (\<lambda>(ty, secs, d). (d, secs)) (find (\<lambda>(ty, secs, d). ty = DNS_RR_TYPE_A \<and> length d = 4) rrs)"

lemma dns_answer_records: "records_at m pos rrs \<Longrightarrow> dns_answer m (length rrs) pos = first_address rrs"
proof (induction rule: records_at.induct)
  case (records_next pos ls k r n rrs)
  have "fst (dnsParseName m pos 0) = r" using dnsParseName_complete [OF records_next.hyps(1), of 0] records_next.hyps by simp
  with records_next name_at_pos [OF records_next.hyps(1)] show ?case
    by (auto simp: first_address_def Let_def numeral_eq_Suc)
qed (simp add: first_address_def)

lemma dns_lifetime_bounds: "DNS_MIN_LIFETIME \<le> dns_lifetime secs \<and> dns_lifetime secs \<le> DNS_MAX_LIFETIME"
  by (simp add: dns_lifetime_def Let_def word_le_nat_alt)

lemma dns_lifetime_exact: "unat secs \<in> {1..3600} \<Longrightarrow> dns_lifetime secs = secs * 1000"
proof -
  assume s: "unat secs \<in> {1..3600}"
  then have u: "unat (secs * 1000) = unat secs * 1000" by (simp add: unat_word_ariths)
  have "secs * 1000 = 3600000" if "unat secs = 3600"
    using u that by (simp add: word_unat_eq_iff)
  moreover have "secs * 1000 = 1000" if "unat secs = 1"
    using u that by (simp add: word_unat_eq_iff)
  ultimately show ?thesis using s u by (auto simp: dns_lifetime_def Let_def word_le_nat_alt word_unat_eq_iff)
qed

lemma index_of_update: "index_of P xs = Some k \<Longrightarrow> P y \<Longrightarrow> index_of P (xs[k := y]) = Some k"
proof (induction xs arbitrary: k)
  case (Cons x xs)
  then show ?case by (cases k) (auto split: if_splits)
qed simp

text \<open>A message that answers the query of the entry with these resource records.\<close>

definition response_to :: "u8 list \<Rightarrow> DnsCacheEntry \<Rightarrow> (u16 \<times> u32 \<times> u8 list) list \<Rightarrow> bool" where
  "response_to m e rrs \<longleftrightarrow> SIZEOF_DNS_HEADER \<le> length m \<and> length m \<le> DNS_MESSAGE_MAX_SIZE \<and> of_be16 (m ! 0) (m ! 1) = dnsId e \<and>
     m ! 2 AND 0x80 \<noteq> 0 \<and> m ! 3 AND 0x0F = 0 \<and> of_be16 (m ! 4) (m ! 5) = 1 \<and> unat (of_be16 (m ! 6) (m ! 7)) = length rrs \<and>
     (\<exists>ls q. asks_for m e ls q \<and> same_chars (dotted ls) (dnsName e) \<and> (\<forall>l \<in> set ls. 0 \<notin> set l) \<and>
       records_at m (q + SIZEOF_DNS_QUESTION) rrs)"

definition dns_resolved :: "nat \<Rightarrow> nat \<Rightarrow> u8 list \<Rightarrow> u32 \<Rightarrow> resolver \<Rightarrow> resolver" where
  "dns_resolved i k a secs w =
     (let (t, w1) = dns_time w;
          w1 = put_dns k (\<lambda>e. e\<lparr>dnsIpAddr := \<lparr>ipLength = 4, ipData = a\<rparr>, dnsTimestamp := t, dnsTimeout := dns_lifetime secs\<rparr>) w1;
          w1 = put_stack (\<lambda>st. snd (udpDetachRxCallback (Some i) (dnsEntryPort (dnsCache w ! k)) st)) w1
      in put_dns k (\<lambda>e. e\<lparr>dnsState := DNS_STATE_RESOLVED\<rparr>) w1)"

lemma dnsProcessResponse_answer:
  assumes "netBufferAt b off = Some (adr, m)" and "netBufferGetLength b - off = length m" and "response_to m e rrs"
    and "index_of (\<lambda>e. dnsState e = DNS_STATE_IN_PROGRESS \<and> dnsProtocol e = HOST_NAME_RESOLVER_DNS \<and> dnsEntryPort e = port) (dnsCache w) = Some k"
    and "e = dnsCache w ! k" and "dnsType e = HOST_TYPE_IPV4" and "name_ok (dnsName e)" and "first_address rrs = Some (a, secs)"
  shows "dnsProcessResponse i port b off w = Some (dns_resolved i k a secs w)"
proof -
  from assms(3) obtain ls q where q: "asks_for m e ls q" "same_chars (dotted ls) (dnsName e)" "\<forall>l \<in> set ls. 0 \<notin> set l"
    "records_at m (q + SIZEOF_DNS_QUESTION) rrs" by (auto simp: response_to_def)
  have "dns_question m e = Some (Some (q + SIZEOF_DNS_QUESTION))"
    using dns_question_iff [OF q(1) _ q(3) assms(7)] q(2) assms(3) by (simp add: response_to_def)
  with dns_answer_records [OF q(4)] assms show ?thesis
    by (simp add: dnsProcessResponse_def dns_process_def response_to_def dns_resolved_def)
qed

lemma dns_resolved_entry:
  assumes "k < length (dnsCache w)"
  shows "dnsCache (dns_resolved i k a secs w) = (dnsCache w)[k := (dnsCache w ! k)\<lparr>dnsIpAddr := \<lparr>ipLength = 4, ipData = a\<rparr>,
      dnsTimestamp := fst (dns_time w), dnsTimeout := dns_lifetime secs, dnsState := DNS_STATE_RESOLVED\<rparr>]"
    and "no_callback i (dnsEntryPort (dnsCache w ! k)) (dns_resolved i k a secs w)"
  using assms detach_no_callback by (simp_all add: dns_resolved_def split_beta Let_def no_callback_def)

text \<open>
  Property C18. A name is resolved. While a task waits for the name of an entry in progress, a response to its query comes in: the
  task gets the first IPv4 address among the resource records of the answer, the cache keeps it for its lifetime, between a second
  and an hour, and the port of the query has no callback any more. Names are compared without case; records of other types in front
  of the address, such as aliases, are skipped.
\<close>

theorem dns_resolves:
  assumes "netBufferAt b off = Some (adr, m)" and "netBufferGetLength b - off = length m" and "response_to m e rrs"
    and "index_of (\<lambda>e. dnsState e = DNS_STATE_IN_PROGRESS \<and> dnsProtocol e = HOST_NAME_RESOLVER_DNS \<and> dnsEntryPort e = port) (dnsCache w) = Some k"
    and "e = dnsCache w ! k" and "dnsFindEntry i (Some name) HOST_TYPE_IPV4 HOST_NAME_RESOLVER_DNS w = Some k"
    and "name_ok (dnsName e)" and "first_address rrs = Some (a, secs)"
  shows "\<exists>w'. dnsProcessResponse i port b off w = Some w' \<and>
    dnsResolve callback (\<lambda>w. the (dnsProcessResponse i port b off w)) i name HOST_TYPE_IPV4 w =
      Some (NO_ERROR, Some \<lparr>ipLength = 4, ipData = a\<rparr>, w') \<and>
    no_callback i port w' \<and> DNS_MIN_LIFETIME \<le> dnsTimeout (dnsCache w' ! k) \<and> dnsTimeout (dnsCache w' ! k) \<le> DNS_MAX_LIFETIME \<and>
    (unat secs \<in> {1..3600} \<longrightarrow> dnsTimeout (dnsCache w' ! k) = secs * 1000)"
proof -
  let ?w' = "dns_resolved i k a secs w"
  from index_of_Some [OF assms(4)] have k: "k < length (dnsCache w)" "dnsState e = DNS_STATE_IN_PROGRESS" "dnsEntryPort e = port"
    by (auto simp: assms(5))
  from index_of_Some [OF assms(6) [unfolded dnsFindEntry_def]] have ty: "dnsType e = HOST_TYPE_IPV4" by (auto simp: assms(5))
  have r: "dnsProcessResponse i port b off w = Some ?w'" by (rule dnsProcessResponse_answer) (use assms ty in simp_all)
  note c = dns_resolved_entry [OF k(1), of i a secs]
  have f: "dnsFindEntry i (Some name) HOST_TYPE_IPV4 HOST_NAME_RESOLVER_DNS ?w' = Some k"
    using assms(6) index_of_Some [OF assms(6) [unfolded dnsFindEntry_def]] unfolding dnsFindEntry_def c(1)
    by (intro index_of_update) simp_all
  have "dnsResolve callback (\<lambda>w. the (dnsProcessResponse i port b off w)) i name HOST_TYPE_IPV4 w =
    dns_wait (\<lambda>w. the (dnsProcessResponse i port b off w)) i name HOST_TYPE_IPV4 w"
    using assms(6) k(2) by (simp add: dnsResolve_def assms(5))
  also have "\<dots> = Some (NO_ERROR, Some \<lparr>ipLength = 4, ipData = a\<rparr>, ?w')"
    by (subst dns_wait.simps) (use k(1) in \<open>simp add: r f c(1)\<close>)
  finally show ?thesis using r c k(1,3) dns_lifetime_bounds [of secs] dns_lifetime_exact [of secs] by (auto simp: assms(5))
qed

text \<open>The answer to the query for \<open>a.b\<close>, with an alias and the address 10.0.2.9.\<close>

definition example_answer :: "u8 list" where
  "example_answer = [0, 7, 0x81, 0x80, 0, 1, 0, 2, 0, 0, 0, 0] @ [1, 0x41, 1, 0x62, 0, 0, 1, 0, 1] @
     [0xC0, 12, 0, 5, 0, 1, 0, 0, 0, 60, 0, 2, 0xC0, 12] @ [0xC0, 12, 0, 1, 0, 1, 0, 0, 0, 60, 0, 4, 10, 0, 2, 9]"

lemma example_answer_nth:
  "length example_answer = 51" "example_answer ! 12 = 1" "example_answer ! 14 = 1" "example_answer ! 16 = 0"
  "example_answer ! 21 = 0xC0" "example_answer ! 22 = 12" "example_answer ! 35 = 0xC0" "example_answer ! 36 = 12"
  by (simp_all add: example_answer_def)

lemma example_answer_name: "name_at example_answer 12 [[0x41], [0x62]] 0 17"
proof -
  have 0: "name_at example_answer 16 [] 0 17" using name_end [of 16 example_answer] by (simp add: example_answer_nth)
  have 1: "name_at example_answer 14 ([0x62] # []) 0 17"
    using name_label [of 14 example_answer 1 "[]" 0 17] 0 by (simp add: example_answer_nth) (simp add: example_answer_def)
  show ?thesis
    using name_label [of 12 example_answer 1 "[[0x62]]" 0 17] 1 by (simp add: example_answer_nth) (simp add: example_answer_def)
qed

lemma example_answer_pointer:
  "name_at example_answer 21 [[0x41], [0x62]] 1 23" "name_at example_answer 35 [[0x41], [0x62]] 1 37"
  using name_pointer [of 21 example_answer "[[0x41], [0x62]]" 0 17] name_pointer [of 35 example_answer "[[0x41], [0x62]]" 0 17] example_answer_name
  by (simp_all add: example_answer_nth dns_pointer_def)

lemma example_answer_records: "records_at example_answer 21 [(5, 60, [0xC0, 12]), (1, 60, [10, 0, 2, 9])]"
proof -
  have 0: "records_at example_answer 51 []" by (rule records_end)
  have 1: "records_at example_answer 35 [(1, 60, [10, 0, 2, 9])]"
    using records_next [of example_answer 35 "[[0x41], [0x62]]" 1 37 4 "[]"] example_answer_pointer(2) 0
    by (simp add: example_answer_nth) (simp add: example_answer_def of_be16_def LOAD32BE_def)
  show ?thesis using records_next [of example_answer 21 "[[0x41], [0x62]]" 1 23 2 "[(1, 60, [10, 0, 2, 9])]"] example_answer_pointer(1) 1
    by (simp add: example_answer_nth) (simp add: example_answer_def of_be16_def LOAD32BE_def)
qed

lemma example_answer_response: "response_to example_answer example_query [(5, 60, [0xC0, 12]), (1, 60, [10, 0, 2, 9])]"
proof -
  have "asks_for example_answer example_query [[0x41], [0x62]] 17"
    using example_answer_name by (auto simp: asks_for_def example_answer_def of_be16_def example_query_def zeroDnsEntry_def)
  moreover have "same_chars (dotted [[0x41], [0x62]]) (dnsName example_query)"
    by (simp add: same_chars_def tolower_def example_query_def)
  ultimately have "\<exists>ls q. asks_for example_answer example_query ls q \<and> same_chars (dotted ls) (dnsName example_query) \<and>
    (\<forall>l \<in> set ls. 0 \<notin> set l) \<and> records_at example_answer (q + SIZEOF_DNS_QUESTION) [(5, 60, [0xC0, 12]), (1, 60, [10, 0, 2, 9])]"
    using example_answer_records by (intro exI [of _ "[[0x41], [0x62]]"] exI [of _ 17]) simp
  moreover have "dnsId example_query = 7" by (simp add: example_query_def)
  ultimately show ?thesis
    unfolding response_to_def by (simp add: example_answer_nth) (simp add: example_answer_def of_be16_def)
qed

abbreviation example_packet :: NetBuffer where
  "example_packet \<equiv> \<lparr>maxChunkCount = 3, chunk = [\<lparr>address = 0, storage = replicate 42 0 @ example_answer, chLength = 93, chSize = 0\<rparr>]\<rparr>"

lemma example_packet_answer:
  "dnsProcessResponse 0 5000 example_packet 42 (example_resolver example_query) = Some (dns_resolved 0 0 [10, 0, 2, 9] 60 (example_resolver example_query))"
proof (rule dnsProcessResponse_answer [OF _ _ example_answer_response])
  show "netBufferAt example_packet 42 = Some (42, example_answer)" by (simp add: netBufferAt_def)
  show "netBufferGetLength example_packet - 42 = length example_answer" by (simp add: netBufferGetLength_def example_answer_nth)
  show "first_address [(5, 60, [0xC0, 12]), (1, 60, [10, 0, 2, 9])] = Some ([10, 0, 2, 9], 60)" by (simp add: first_address_def)
qed (simp_all add: example_resolver_def example_query_def zeroDnsEntry_def name_ok_def)

theorem dns_resolves_witness:
  "\<exists>w'. dnsResolve 1 (\<lambda>w. the (dnsProcessResponse 0 5000 example_packet 42 w)) 0 [0x41, 0x2E, 0x42] HOST_TYPE_IPV4
      (example_resolver example_query) = Some (NO_ERROR, Some \<lparr>ipLength = 4, ipData = [10, 0, 2, 9]\<rparr>, w') \<and>
    dnsTimeout (dnsCache w' ! 0) = 60000"
proof -
  have 1: "netBufferAt example_packet 42 = Some (42, example_answer)" by (simp add: netBufferAt_def)
  have 2: "netBufferGetLength example_packet - 42 = length example_answer" by (simp add: netBufferGetLength_def example_answer_nth)
  have 3: "index_of (\<lambda>e. dnsState e = DNS_STATE_IN_PROGRESS \<and> dnsProtocol e = HOST_NAME_RESOLVER_DNS \<and> dnsEntryPort e = 5000)
    (dnsCache (example_resolver example_query)) = Some 0" "example_query = dnsCache (example_resolver example_query) ! 0"
    by (simp_all add: example_resolver_def example_query_def zeroDnsEntry_def)
  have 4: "dnsFindEntry 0 (Some [0x41, 0x2E, 0x42]) HOST_TYPE_IPV4 HOST_NAME_RESOLVER_DNS (example_resolver example_query) = Some 0"
    by (simp add: dnsFindEntry_def example_resolver_def example_query_def zeroDnsEntry_def same_chars_def tolower_def)
  have 5: "name_ok (dnsName example_query)" "first_address [(5, 60, [0xC0, 12]), (1, 60, [10, 0, 2, 9])] = Some ([10, 0, 2, 9], 60)"
    by (simp_all add: name_ok_def example_query_def first_address_def)
  from dns_resolves [OF 1 2 example_answer_response 3 4 5, of 1] show ?thesis by auto
qed


end
