(* ===== verification/Ppp_Link.thy ===== *)
theory Ppp_Link
  imports Net_Interface
begin

text \<open>
  The link layer of PPP: the frames of \<open>ppp/ppp.c\<close> (frame check sequence, header, sending, dispatch to the protocols), the
  context of \<open>ppp/ppp.h\<close>, and the driver of \<open>ppp/ppp_hdlc.c\<close> with octet stuffing and the two ring buffers it shares with the
  UART. IPv4 only, PAP enabled and CHAP disabled, as in the default configuration.
\<close>

unbundle bit_operations_syntax

section \<open>Frame check sequence\<close>

definition fcsTable :: "u16 list" where
  "fcsTable = [
    0x0000, 0x1189, 0x2312, 0x329B, 0x4624, 0x57AD, 0x6536, 0x74BF, 0x8C48, 0x9DC1, 0xAF5A, 0xBED3,
    0xCA6C, 0xDBE5, 0xE97E, 0xF8F7, 0x1081, 0x0108, 0x3393, 0x221A, 0x56A5, 0x472C, 0x75B7, 0x643E,
    0x9CC9, 0x8D40, 0xBFDB, 0xAE52, 0xDAED, 0xCB64, 0xF9FF, 0xE876, 0x2102, 0x308B, 0x0210, 0x1399,
    0x6726, 0x76AF, 0x4434, 0x55BD, 0xAD4A, 0xBCC3, 0x8E58, 0x9FD1, 0xEB6E, 0xFAE7, 0xC87C, 0xD9F5,
    0x3183, 0x200A, 0x1291, 0x0318, 0x77A7, 0x662E, 0x54B5, 0x453C, 0xBDCB, 0xAC42, 0x9ED9, 0x8F50,
    0xFBEF, 0xEA66, 0xD8FD, 0xC974, 0x4204, 0x538D, 0x6116, 0x709F, 0x0420, 0x15A9, 0x2732, 0x36BB,
    0xCE4C, 0xDFC5, 0xED5E, 0xFCD7, 0x8868, 0x99E1, 0xAB7A, 0xBAF3, 0x5285, 0x430C, 0x7197, 0x601E,
    0x14A1, 0x0528, 0x37B3, 0x263A, 0xDECD, 0xCF44, 0xFDDF, 0xEC56, 0x98E9, 0x8960, 0xBBFB, 0xAA72,
    0x6306, 0x728F, 0x4014, 0x519D, 0x2522, 0x34AB, 0x0630, 0x17B9, 0xEF4E, 0xFEC7, 0xCC5C, 0xDDD5,
    0xA96A, 0xB8E3, 0x8A78, 0x9BF1, 0x7387, 0x620E, 0x5095, 0x411C, 0x35A3, 0x242A, 0x16B1, 0x0738,
    0xFFCF, 0xEE46, 0xDCDD, 0xCD54, 0xB9EB, 0xA862, 0x9AF9, 0x8B70, 0x8408, 0x9581, 0xA71A, 0xB693,
    0xC22C, 0xD3A5, 0xE13E, 0xF0B7, 0x0840, 0x19C9, 0x2B52, 0x3ADB, 0x4E64, 0x5FED, 0x6D76, 0x7CFF,
    0x9489, 0x8500, 0xB79B, 0xA612, 0xD2AD, 0xC324, 0xF1BF, 0xE036, 0x18C1, 0x0948, 0x3BD3, 0x2A5A,
    0x5EE5, 0x4F6C, 0x7DF7, 0x6C7E, 0xA50A, 0xB483, 0x8618, 0x9791, 0xE32E, 0xF2A7, 0xC03C, 0xD1B5,
    0x2942, 0x38CB, 0x0A50, 0x1BD9, 0x6F66, 0x7EEF, 0x4C74, 0x5DFD, 0xB58B, 0xA402, 0x9699, 0x8710,
    0xF3AF, 0xE226, 0xD0BD, 0xC134, 0x39C3, 0x284A, 0x1AD1, 0x0B58, 0x7FE7, 0x6E6E, 0x5CF5, 0x4D7C,
    0xC60C, 0xD785, 0xE51E, 0xF497, 0x8028, 0x91A1, 0xA33A, 0xB2B3, 0x4A44, 0x5BCD, 0x6956, 0x78DF,
    0x0C60, 0x1DE9, 0x2F72, 0x3EFB, 0xD68D, 0xC704, 0xF59F, 0xE416, 0x90A9, 0x8120, 0xB3BB, 0xA232,
    0x5AC5, 0x4B4C, 0x79D7, 0x685E, 0x1CE1, 0x0D68, 0x3FF3, 0x2E7A, 0xE70E, 0xF687, 0xC41C, 0xD595,
    0xA12A, 0xB0A3, 0x8238, 0x93B1, 0x6B46, 0x7ACF, 0x4854, 0x59DD, 0x2D62, 0x3CEB, 0x0E70, 0x1FF9,
    0xF78F, 0xE606, 0xD49D, 0xC514, 0xB1AB, 0xA022, 0x92B9, 0x8330, 0x7BC7, 0x6A4E, 0x58D5, 0x495C,
    0x3DE3, 0x2C6A, 0x1EF1, 0x0F78]"

definition fcs_step :: "u16 \<Rightarrow> u8 \<Rightarrow> u16" where
  "fcs_step fcs p = drop_bit 8 fcs XOR fcsTable ! unat ((fcs AND 0xFF) XOR ucast p)"

definition pppCalcFcs :: "u8 list \<Rightarrow> nat \<Rightarrow> u16" where
  "pppCalcFcs data len = NOT (foldl fcs_step 0xFFFF (take len data))"

definition pppCalcFcsEx :: "NetBuffer \<Rightarrow> nat \<Rightarrow> nat \<Rightarrow> u16" where
  "pppCalcFcsEx b off len = NOT (crcEx_loop fcs_step (chunk b) off len 0xFFFF)"

section \<open>Frame header\<close>

abbreviation (input) PPP_FRAME_HEADER_SIZE :: nat where "PPP_FRAME_HEADER_SIZE \<equiv> 4"
abbreviation (input) PPP_FCS_SIZE :: nat where "PPP_FCS_SIZE \<equiv> 2"
abbreviation (input) PPP_MAX_FRAME_SIZE :: nat where "PPP_MAX_FRAME_SIZE \<equiv> 1506"
abbreviation (input) PPP_ADDR_FIELD :: u8 where "PPP_ADDR_FIELD \<equiv> 0xFF"
abbreviation (input) PPP_CTRL_FIELD :: u8 where "PPP_CTRL_FIELD \<equiv> 0x03"
abbreviation (input) PPP_PROTOCOL_IP :: u16 where "PPP_PROTOCOL_IP \<equiv> 0x0021"
abbreviation (input) PPP_PROTOCOL_IPV6 :: u16 where "PPP_PROTOCOL_IPV6 \<equiv> 0x0057"
abbreviation (input) PPP_PROTOCOL_IPCP :: u16 where "PPP_PROTOCOL_IPCP \<equiv> 0x8021"
abbreviation (input) PPP_PROTOCOL_IPV6CP :: u16 where "PPP_PROTOCOL_IPV6CP \<equiv> 0x8057"
abbreviation (input) PPP_PROTOCOL_LCP :: u16 where "PPP_PROTOCOL_LCP \<equiv> 0xC021"
abbreviation (input) PPP_PROTOCOL_PAP :: u16 where "PPP_PROTOCOL_PAP \<equiv> 0xC023"
abbreviation (input) PPP_PROTOCOL_CHAP :: u16 where "PPP_PROTOCOL_CHAP \<equiv> 0xC223"
abbreviation (input) PPP_MASK_CHAR :: u8 where "PPP_MASK_CHAR \<equiv> 0x20"
abbreviation (input) PPP_ESC_CHAR :: u8 where "PPP_ESC_CHAR \<equiv> 0x7D"
abbreviation (input) PPP_FLAG_CHAR :: u8 where "PPP_FLAG_CHAR \<equiv> 0x7E"
abbreviation (input) PPP_DEFAULT_ACCM :: u32 where "PPP_DEFAULT_ACCM \<equiv> 0xFFFFFFFF"
abbreviation (input) PPP_TX_BUFFER_SIZE :: nat where "PPP_TX_BUFFER_SIZE \<equiv> 4096"
abbreviation (input) PPP_RX_BUFFER_SIZE :: nat where "PPP_RX_BUFFER_SIZE \<equiv> 8192"
abbreviation (input) PPP_RESERVE :: nat where "PPP_RESERVE \<equiv> 3006"

text \<open>The size of the header and the protocol; 0 for a malformed header, whose protocol is not set.\<close>

definition pppParseFrameHeader :: "u8 list \<Rightarrow> nat \<Rightarrow> nat \<times> u16" where
  "pppParseFrameHeader frame len =
     (let n = (if len \<ge> 2 \<and> frame ! 0 = PPP_ADDR_FIELD \<and> frame ! 1 = PPP_CTRL_FIELD then 2 else 0)
      in if len \<ge> n + 1 then
           (if frame ! n AND 0x01 \<noteq> 0 then (n + 1, ucast (frame ! n))
            else if len \<ge> n + 2 then (n + 2, of_be16 (frame ! n) (frame ! (n + 1)))
            else (0, 0))
         else (0, 0))"

section \<open>The PPP context\<close>

datatype PppPhase = PPP_PHASE_DEAD | PPP_PHASE_ESTABLISH | PPP_PHASE_AUTHENTICATE | PPP_PHASE_NETWORK | PPP_PHASE_TERMINATE

datatype PppState = PPP_STATE_0_INITIAL | PPP_STATE_1_STARTING | PPP_STATE_2_CLOSED | PPP_STATE_3_STOPPED | PPP_STATE_4_CLOSING
  | PPP_STATE_5_STOPPING | PPP_STATE_6_REQ_SENT | PPP_STATE_7_ACK_RCVD | PPP_STATE_8_ACK_SENT | PPP_STATE_9_OPENED

record PppFsm =
  fsmState :: PppState
  fsmIdentifier :: u8
  fsmRestartCounter :: u32
  fsmFailureCounter :: u32
  fsmTimestamp :: systime_t

datatype PapState = PAP_STATE_0_INITIAL | PAP_STATE_1_STARTED | PAP_STATE_2_REQ_SENT | PAP_STATE_3_REQ_RCVD | PAP_STATE_4_ACK_SENT
  | PAP_STATE_5_ACK_RCVD | PAP_STATE_6_NAK_SENT | PAP_STATE_7_NAK_RCVD

text \<open>The password is the one in the last Authenticate-Request, with the length it announces.\<close>

record PapFsm =
  papLocalState :: PapState
  papPeerState :: PapState
  papIdentifier :: u8
  papRestartCounter :: u32
  papTimestamp :: systime_t
  papPassword :: "u8 list"
  papPasswordLen :: nat

record PppConfig =
  cfMru :: u16
  cfMruRejected :: bool
  cfAccm :: u32
  cfAccmRejected :: bool
  cfAuthProtocol :: u16
  cfAuthAlgo :: u8
  cfAuthProtocolRejected :: bool
  cfMagicNumber :: u32
  cfMagicNumberRejected :: bool
  cfPfc :: bool
  cfPfcRejected :: bool
  cfAcfc :: bool
  cfAcfcRejected :: bool
  cfIpAddr :: Ipv4Addr
  cfIpAddrRejected :: bool
  cfPrimaryDns :: Ipv4Addr
  cfPrimaryDnsRejected :: bool
  cfSecondaryDns :: Ipv4Addr
  cfSecondaryDnsRejected :: bool

text \<open>Of the settings, the default values of the options and the allowed authentication protocols.\<close>

record PppSettings =
  setMru :: u16
  setAccm :: u32
  setAuthProtocol :: u32
  setAuthCallback :: bool

record PppContext =
  pppSettings :: PppSettings
  pppTimeout :: systime_t
  pppUsername :: "u8 list"
  pppPassword :: "u8 list"
  peerName :: "u8 list"
  localAuthDone :: bool
  peerAuthDone :: bool
  pppPhase :: PppPhase
  lcpFsm :: PppFsm
  ipcpFsm :: PppFsm
  papFsm :: PapFsm
  localConfig :: PppConfig
  peerConfig :: PppConfig
  ipRejected :: bool
  ipv6Rejected :: bool
  pppTxBuffer :: "u8 list"
  pppTxBufferLen :: nat
  pppTxWriteIndex :: nat
  pppTxReadIndex :: nat
  pppRxBuffer :: "u8 list"
  pppRxBufferLen :: nat
  pppRxWriteIndex :: nat
  pppRxReadIndex :: nat
  pppRxFrameCount :: nat

text \<open>
  A PPP interface with its context and the outside world. \<open>nicTxEvent\<close> says that the transmitter can accept a packet,
  \<open>nicEvent\<close> that the network task has to look at the interface. While a task waits for \<open>nicTxEvent\<close> at the call \<open>n\<close>, the
  UART takes \<open>uartReads n\<close> characters from the transmit queue; \<open>uartLine\<close> is what it has taken. \<open>linkChanges\<close> are the link
  states of which \<open>netProcessLinkChange\<close> was told.
\<close>

record ppp =
  pctx :: PppContext
  px :: ctx
  pppIf :: NetInterface
  nicTxEvent :: bool
  nicEvent :: bool
  pppLinkState :: bool
  linkChanges :: "bool list"
  uartReads :: "nat \<Rightarrow> nat"
  uartLine :: "u8 list"

definition put_ppp :: "(PppContext \<Rightarrow> PppContext) \<Rightarrow> ppp \<Rightarrow> ppp" where
  "put_ppp f w = w\<lparr>pctx := f (pctx w)\<rparr>"

section \<open>The queues of the driver\<close>

definition pppHdlcDriverPurgeTxBuffer :: "PppContext \<Rightarrow> error_t \<times> PppContext" where
  "pppHdlcDriverPurgeTxBuffer c = (NO_ERROR, c\<lparr>pppTxBufferLen := 0, pppTxWriteIndex := 0, pppTxReadIndex := 0\<rparr>)"

definition pppHdlcDriverPurgeRxBuffer :: "PppContext \<Rightarrow> error_t \<times> PppContext" where
  "pppHdlcDriverPurgeRxBuffer c = (NO_ERROR, c\<lparr>pppRxBufferLen := 0, pppRxWriteIndex := 0, pppRxReadIndex := 0, pppRxFrameCount := 0\<rparr>)"

definition pppHdlcDriverInit :: "ppp \<Rightarrow> error_t \<times> ppp" where
  "pppHdlcDriverInit w =
     (NO_ERROR, (put_ppp (\<lambda>c. c\<lparr>pppTxBufferLen := 0, pppTxWriteIndex := 0, pppTxReadIndex := 0, pppRxBufferLen := 0, pppRxWriteIndex := 0,
        pppRxReadIndex := 0, pppRxFrameCount := 0\<rparr>) w)\<lparr>nicTxEvent := True\<rparr>)"

definition pppHdlcDriverWriteTxQueue :: "u8 \<Rightarrow> PppContext \<Rightarrow> PppContext" where
  "pppHdlcDriverWriteTxQueue x c =
     (let k = pppTxWriteIndex c
      in c\<lparr>pppTxBuffer := (pppTxBuffer c)[k := x], pppTxWriteIndex := (if k + 1 \<ge> PPP_TX_BUFFER_SIZE then 0 else k + 1),
           pppTxBufferLen := pppTxBufferLen c + 1\<rparr>)"

text \<open>The character, \<open>None\<close> for \<open>EOF\<close>.\<close>

definition pppHdlcDriverReadTxQueue :: "ppp \<Rightarrow> u8 option \<times> ppp" where
  "pppHdlcDriverReadTxQueue w =
     (let c = pctx w; k = pppTxReadIndex c
      in if pppTxBufferLen c > 0 then
           let n = pppTxBufferLen c - 1;
               w = put_ppp (\<lambda>c. c\<lparr>pppTxReadIndex := (if k + 1 \<ge> PPP_TX_BUFFER_SIZE then 0 else k + 1), pppTxBufferLen := n\<rparr>) w
           in (Some (pppTxBuffer c ! k), if n = PPP_TX_BUFFER_SIZE - PPP_RESERVE then w\<lparr>nicTxEvent := True\<rparr> else w)
         else (None, w))"

definition pppHdlcDriverReadRxQueue :: "PppContext \<Rightarrow> u8 \<times> PppContext" where
  "pppHdlcDriverReadRxQueue c =
     (let k = pppRxReadIndex c
      in (pppRxBuffer c ! k, c\<lparr>pppRxReadIndex := (if k + 1 \<ge> PPP_RX_BUFFER_SIZE then 0 else k + 1), pppRxBufferLen := pppRxBufferLen c - 1\<rparr>))"

definition pppHdlcDriverWriteRxQueue :: "u8 \<Rightarrow> ppp \<Rightarrow> ppp" where
  "pppHdlcDriverWriteRxQueue x w =
     (let c = pctx w; k = pppRxWriteIndex c
      in if pppRxBufferLen c < PPP_RX_BUFFER_SIZE then
           let w = put_ppp (\<lambda>c. c\<lparr>pppRxBuffer := (pppRxBuffer c)[k := x], pppRxWriteIndex := (if k + 1 \<ge> PPP_RX_BUFFER_SIZE then 0 else k + 1),
                 pppRxBufferLen := pppRxBufferLen c + 1\<rparr>) w
           in if x = PPP_FLAG_CHAR then (put_ppp (\<lambda>c. c\<lparr>pppRxFrameCount := pppRxFrameCount c + 1\<rparr>) w)\<lparr>nicEvent := True\<rparr> else w
         else w)"

text \<open>The UART takes \<open>n\<close> characters, or all there are.\<close>

fun uart_run :: "nat \<Rightarrow> ppp \<Rightarrow> ppp" where
  "uart_run 0 w = w"
| "uart_run (Suc n) w =
     (case pppHdlcDriverReadTxQueue w of (None, w) \<Rightarrow> w | (Some x, w) \<Rightarrow> uart_run n (w\<lparr>uartLine := uartLine w @ [x]\<rparr>))"

section \<open>Octet stuffing\<close>

definition hdlc_escape :: "u32 \<Rightarrow> u8 \<Rightarrow> u8 list" where
  "hdlc_escape accm p =
     (if p < PPP_MASK_CHAR then (if accm AND push_bit (unat p) 1 \<noteq> 0 then [PPP_ESC_CHAR, p XOR PPP_MASK_CHAR] else [p])
      else if p = PPP_ESC_CHAR \<or> p = PPP_FLAG_CHAR then [PPP_ESC_CHAR, p XOR PPP_MASK_CHAR]
      else [p])"

definition write_tx :: "u8 list \<Rightarrow> PppContext \<Rightarrow> PppContext" where
  "write_tx xs c = foldl (\<lambda>c x. pppHdlcDriverWriteTxQueue x c) c xs"

fun hdlc_chunks :: "u32 \<Rightarrow> ChunkDesc list \<Rightarrow> nat \<Rightarrow> PppContext \<Rightarrow> PppContext" where
  "hdlc_chunks accm [] off c = c"
| "hdlc_chunks accm (d # ds) off c =
     (if off < chLength d
      then hdlc_chunks accm ds 0 (foldl (\<lambda>c p. write_tx (hdlc_escape accm p) c) c (drop off (take (chLength d) (storage d))))
      else hdlc_chunks accm ds (off - chLength d) c)"

text \<open>The header of a frame that does not lie at the start of a block is read at the null pointer: \<open>None\<close>.\<close>

definition pppHdlcDriverSendPacket :: "NetBuffer \<Rightarrow> nat \<Rightarrow> ppp \<Rightarrow> (error_t \<times> ppp) option" where
  "pppHdlcDriverSendPacket b off w =
     (case netBufferAt b off of
        None \<Rightarrow> None
      | Some (a, p) \<Rightarrow>
          (let proto = snd (pppParseFrameHeader p PPP_FRAME_HEADER_SIZE);
               accm = (if proto = PPP_PROTOCOL_IP \<or> proto = PPP_PROTOCOL_IPV6 then cfAccm (peerConfig (pctx w)) else PPP_DEFAULT_ACCM);
               w = put_ppp (\<lambda>c. write_tx [PPP_FLAG_CHAR] (hdlc_chunks accm (chunk b) off (write_tx [PPP_FLAG_CHAR] c))) w
           in Some (NO_ERROR, if pppTxBufferLen (pctx w) \<le> PPP_TX_BUFFER_SIZE - PPP_RESERVE then w\<lparr>nicTxEvent := True\<rparr> else w)))"

text \<open>\<open>nicSendPacket\<close> for an interface with this driver. Waiting for the event resets it.\<close>

definition nicSendPacket_ppp :: "NetBuffer \<Rightarrow> nat \<Rightarrow> ppp \<Rightarrow> (error_t \<times> ppp) option" where
  "nicSendPacket_ppp b off w =
     (if \<not> configured (pppIf w) \<or> nicDriver (pppIf w) = None then Some (ERROR_INVALID_INTERFACE, w)
      else
        let w = (if nicTxEvent w then w else (uart_run (uartReads w (calls (px w))) w)\<lparr>px := tick_call (px w)\<rparr>)
        in if nicTxEvent w then pppHdlcDriverSendPacket b off (w\<lparr>nicTxEvent := False\<rparr>) else Some (ERROR_TRANSMITTER_BUSY, w))"

text \<open>The receiver reverses the stuffing: the characters of a frame read so far and the flag for an escape character.\<close>

function unstuff :: "u32 \<Rightarrow> u8 list \<Rightarrow> bool \<Rightarrow> PppContext \<Rightarrow> u8 list \<times> PppContext" where
  "unstuff accm frame escFlag c =
     (if length frame < PPP_MAX_FRAME_SIZE \<and> pppRxBufferLen c > 0 then
        let (x, c) = pppHdlcDriverReadRxQueue c
        in if x < PPP_MASK_CHAR then
             (if accm AND push_bit (unat x) 1 \<noteq> 0 then unstuff accm frame escFlag c else unstuff accm (frame @ [x]) escFlag c)
           else if x = PPP_ESC_CHAR then unstuff accm frame True c
           else if x = PPP_FLAG_CHAR then (frame, c)
           else if escFlag then unstuff accm (frame @ [x XOR PPP_MASK_CHAR]) False c
           else unstuff accm (frame @ [x]) escFlag c
      else (frame, c))"
  by pat_completeness auto

termination
  by (relation "measure (\<lambda>(accm, frame, escFlag, c). pppRxBufferLen c)") (auto simp: pppHdlcDriverReadRxQueue_def Let_def)

declare unstuff.simps [simp del]

text \<open>\<open>process\<close> is \<open>pppProcessFrame\<close>; \<open>nicProcessPacket\<close> drops the frame when the interface is not configured.\<close>

definition pppHdlcDriverReceivePacket :: "(u8 list \<Rightarrow> ppp \<Rightarrow> ppp option) \<Rightarrow> ppp \<Rightarrow> ppp option" where
  "pppHdlcDriverReceivePacket process w =
     (let (frame, c) = unstuff (cfAccm (localConfig (pctx w))) [] False (pctx w);
          w = w\<lparr>pctx := c\<rparr>
      in if frame \<noteq> [] \<and> configured (pppIf w) then process frame w else Some w)"

partial_function (option) hdlc_events :: "(u8 list \<Rightarrow> ppp \<Rightarrow> ppp option) \<Rightarrow> ppp \<Rightarrow> ppp option" where
  "hdlc_events process w =
     (if pppRxFrameCount (pctx w) > 0
      then Option.bind (pppHdlcDriverReceivePacket process w)
        (\<lambda>w. hdlc_events process (put_ppp (\<lambda>c. c\<lparr>pppRxFrameCount := pppRxFrameCount c - 1\<rparr>) w))
      else Some w)"

definition pppHdlcDriverEventHandler :: "(u8 list \<Rightarrow> ppp \<Rightarrow> ppp option) \<Rightarrow> ppp \<Rightarrow> ppp option" where
  "pppHdlcDriverEventHandler process w = (if pppPhase (pctx w) \<noteq> PPP_PHASE_DEAD then hdlc_events process w else Some w)"

section \<open>Frames\<close>

definition pppAllocBuffer :: "ctx \<Rightarrow> nat \<Rightarrow> (nat \<times> NetBuffer \<times> nat) option \<times> ctx" where
  "pppAllocBuffer x len =
     (case bufAlloc x (len + PPP_FRAME_HEADER_SIZE) of
        (None, x) \<Rightarrow> (None, x)
      | (Some (a, b), x) \<Rightarrow> (Some (a, b, PPP_FRAME_HEADER_SIZE), x))"

text \<open>Protocol, address and control field in front of the payload: the buffer and the offset of the frame, \<open>None\<close> without room.\<close>

definition ppp_header :: "PppConfig \<Rightarrow> u16 \<Rightarrow> NetBuffer \<Rightarrow> nat \<Rightarrow> NetBuffer \<times> nat option" where
  "ppp_header cf proto b off =
     (let n = (if cfPfc cf \<and> drop_bit 8 proto = 0 then 1 else 2)
      in if off < n then (b, None)
         else
           let off = off - n; b = netBufferPoke b off (if n = 1 then [ucast proto] else be16 proto)
           in if cfAcfc cf \<and> proto \<noteq> PPP_PROTOCOL_LCP then (b, Some off)
              else if off < 2 then (b, None)
              else (netBufferPoke b (off - 2) [PPP_ADDR_FIELD, PPP_CTRL_FIELD], Some (off - 2)))"

definition pppSendFrame :: "NetBuffer \<Rightarrow> nat \<Rightarrow> u16 \<Rightarrow> ppp \<Rightarrow> (error_t \<times> NetBuffer \<times> ppp) option" where
  "pppSendFrame b off proto w =
     (case ppp_header (peerConfig (pctx w)) proto b off of
        (b, None) \<Rightarrow> Some (ERROR_FAILURE, b, w)
      | (b, Some off) \<Rightarrow>
          (let len = netBufferGetLength b - off;
               (e, b) = netBufferAppend b 0 (le16 (pppCalcFcsEx b off len)) PPP_FCS_SIZE
           in if e \<noteq> NO_ERROR then Some (e, b, w)
              else case nicSendPacket_ppp b off w of None \<Rightarrow> None | Some (e, w) \<Rightarrow> Some (e, b, w)))"

text \<open>The handlers of the protocols get the payload; the one for unknown protocols also the protocol. A handler that reads beyond the
  payload gives \<open>None\<close>.\<close>

record ppp_handlers =
  hdLcp :: "u8 list \<Rightarrow> ppp \<Rightarrow> ppp option"
  hdIpcp :: "u8 list \<Rightarrow> ppp \<Rightarrow> ppp option"
  hdIp :: "u8 list \<Rightarrow> ppp \<Rightarrow> ppp option"
  hdPap :: "u8 list \<Rightarrow> ppp \<Rightarrow> ppp option"
  hdUnknown :: "u16 \<Rightarrow> u8 list \<Rightarrow> ppp \<Rightarrow> ppp option"

definition ppp_dispatch :: "ppp_handlers \<Rightarrow> u16 \<Rightarrow> u8 list \<Rightarrow> ppp \<Rightarrow> ppp option" where
  "ppp_dispatch h proto data =
     (if proto = PPP_PROTOCOL_LCP then hdLcp h data
      else if proto = PPP_PROTOCOL_IPCP then hdIpcp h data
      else if proto = PPP_PROTOCOL_IP then hdIp h data
      else if proto = PPP_PROTOCOL_PAP then hdPap h data
      else hdUnknown h proto data)"

definition pppProcessFrame :: "ppp_handlers \<Rightarrow> u8 list \<Rightarrow> ppp \<Rightarrow> ppp option" where
  "pppProcessFrame h frame w =
     (if length frame < PPP_FCS_SIZE then Some w
      else if pppCalcFcs frame (length frame) \<noteq> 0x0F47 then Some w
      else
        let len = length frame - PPP_FCS_SIZE; (n, proto) = pppParseFrameHeader frame len
        in if n = 0 then Some w else ppp_dispatch h proto (drop n (take len frame)) w)"

end
