(* ===== verification/Ppp_Fsm.thy ===== *)
theory Ppp_Fsm
  imports Ppp_Link
begin

text \<open>
  The option negotiation automaton of PPP (\<open>ppp/ppp_fsm.c\<close>), which LCP and IPCP drive with callbacks of their own, and the
  table of RFC 1661 it implements. The locale \<open>ppp_layer\<close> is what the automaton asks of the callbacks.
\<close>

section \<open>The automaton and its callbacks\<close>

abbreviation (input) PPP_MAX_CONFIGURE :: u32 where "PPP_MAX_CONFIGURE \<equiv> 10"
abbreviation (input) PPP_MAX_TERMINATE :: u32 where "PPP_MAX_TERMINATE \<equiv> 2"
abbreviation (input) PPP_CODE_CONFIGURE_REQ :: u8 where "PPP_CODE_CONFIGURE_REQ \<equiv> 1"
abbreviation (input) PPP_CODE_CONFIGURE_ACK :: u8 where "PPP_CODE_CONFIGURE_ACK \<equiv> 2"
abbreviation (input) PPP_CODE_CONFIGURE_NAK :: u8 where "PPP_CODE_CONFIGURE_NAK \<equiv> 3"
abbreviation (input) PPP_CODE_CONFIGURE_REJ :: u8 where "PPP_CODE_CONFIGURE_REJ \<equiv> 4"

text \<open>Which of the automata of the context a pointer to \<open>PppFsm\<close> means.\<close>

datatype PppLayer = LCP | IPCP

definition layer_fsm :: "PppLayer \<Rightarrow> ppp \<Rightarrow> PppFsm" where
  "layer_fsm l w = (case l of LCP \<Rightarrow> lcpFsm (pctx w) | IPCP \<Rightarrow> ipcpFsm (pctx w))"

definition put_fsm :: "PppLayer \<Rightarrow> (PppFsm \<Rightarrow> PppFsm) \<Rightarrow> ppp \<Rightarrow> ppp" where
  "put_fsm l f = (case l of LCP \<Rightarrow> put_ppp (\<lambda>c. c\<lparr>lcpFsm := f (lcpFsm c)\<rparr>) | IPCP \<Rightarrow> put_ppp (\<lambda>c. c\<lparr>ipcpFsm := f (ipcpFsm c)\<rparr>))"

text \<open>
  The events ignore what the callbacks return. A callback that reads memory beyond the packet, or that is a null pointer, gives
  \<open>None\<close>. A packet is the list of its bytes.
\<close>

record PppCallbacks =
  thisLayerUp :: "ppp \<Rightarrow> ppp option"
  thisLayerDown :: "ppp \<Rightarrow> ppp option"
  thisLayerStarted :: "ppp \<Rightarrow> ppp option"
  thisLayerFinished :: "ppp \<Rightarrow> ppp option"
  initRestartCount :: "u32 \<Rightarrow> ppp \<Rightarrow> ppp option"
  zeroRestartCount :: "ppp \<Rightarrow> ppp option"
  sendConfigureReq :: "ppp \<Rightarrow> ppp option"
  sendConfigureAck :: "u8 list \<Rightarrow> ppp \<Rightarrow> ppp option"
  sendConfigureNak :: "u8 list \<Rightarrow> ppp \<Rightarrow> ppp option"
  sendConfigureRej :: "u8 list \<Rightarrow> ppp \<Rightarrow> ppp option"
  sendTerminateReq :: "ppp \<Rightarrow> ppp option"
  sendTerminateAck :: "u8 list option \<Rightarrow> ppp \<Rightarrow> ppp option"
  sendCodeRej :: "u8 list \<Rightarrow> ppp \<Rightarrow> ppp option"
  sendEchoRep :: "u8 list \<Rightarrow> ppp \<Rightarrow> ppp option"

fun run_all :: "(ppp \<Rightarrow> ppp option) list \<Rightarrow> ppp \<Rightarrow> ppp option" where
  "run_all [] w = Some w"
| "run_all (f # fs) w = Option.bind (f w) (run_all fs)"

lemma run_all_Nil [simp]: "run_all [] = Some"
  by (rule ext) simp

lemma run_all_one [simp]: "run_all [f] = f"
  by (rule ext) simp

definition pppChangeState :: "PppLayer \<Rightarrow> PppState \<Rightarrow> ppp \<Rightarrow> ppp option" where
  "pppChangeState l s w = Some (put_fsm l (\<lambda>f. f\<lparr>fsmState := s\<rparr>) w)"

section \<open>Events\<close>

definition pppUpEvent :: "PppLayer \<Rightarrow> PppCallbacks \<Rightarrow> ppp \<Rightarrow> ppp option" where
  "pppUpEvent l cb w =
     (case fsmState (layer_fsm l w) of
        PPP_STATE_0_INITIAL \<Rightarrow> pppChangeState l PPP_STATE_2_CLOSED w
      | PPP_STATE_1_STARTING \<Rightarrow> run_all [initRestartCount cb PPP_MAX_CONFIGURE, sendConfigureReq cb, pppChangeState l PPP_STATE_6_REQ_SENT] w
      | _ \<Rightarrow> Some w)"

definition pppDownEvent :: "PppLayer \<Rightarrow> PppCallbacks \<Rightarrow> ppp \<Rightarrow> ppp option" where
  "pppDownEvent l cb w =
     (case fsmState (layer_fsm l w) of
        PPP_STATE_2_CLOSED \<Rightarrow> pppChangeState l PPP_STATE_0_INITIAL w
      | PPP_STATE_3_STOPPED \<Rightarrow> run_all [pppChangeState l PPP_STATE_1_STARTING, thisLayerStarted cb] w
      | PPP_STATE_4_CLOSING \<Rightarrow> pppChangeState l PPP_STATE_0_INITIAL w
      | PPP_STATE_5_STOPPING \<Rightarrow> pppChangeState l PPP_STATE_1_STARTING w
      | PPP_STATE_6_REQ_SENT \<Rightarrow> pppChangeState l PPP_STATE_1_STARTING w
      | PPP_STATE_7_ACK_RCVD \<Rightarrow> pppChangeState l PPP_STATE_1_STARTING w
      | PPP_STATE_8_ACK_SENT \<Rightarrow> pppChangeState l PPP_STATE_1_STARTING w
      | PPP_STATE_9_OPENED \<Rightarrow> run_all [pppChangeState l PPP_STATE_1_STARTING, thisLayerDown cb] w
      | _ \<Rightarrow> Some w)"

definition pppOpenEvent :: "PppLayer \<Rightarrow> PppCallbacks \<Rightarrow> ppp \<Rightarrow> ppp option" where
  "pppOpenEvent l cb w =
     (case fsmState (layer_fsm l w) of
        PPP_STATE_0_INITIAL \<Rightarrow> run_all [pppChangeState l PPP_STATE_1_STARTING, thisLayerStarted cb] w
      | PPP_STATE_2_CLOSED \<Rightarrow> run_all [initRestartCount cb PPP_MAX_CONFIGURE, sendConfigureReq cb, pppChangeState l PPP_STATE_6_REQ_SENT] w
      | PPP_STATE_4_CLOSING \<Rightarrow> pppChangeState l PPP_STATE_5_STOPPING w
      | _ \<Rightarrow> Some w)"

definition pppCloseEvent :: "PppLayer \<Rightarrow> PppCallbacks \<Rightarrow> ppp \<Rightarrow> ppp option" where
  "pppCloseEvent l cb w =
     (let close = [initRestartCount cb PPP_MAX_TERMINATE, sendTerminateReq cb, pppChangeState l PPP_STATE_4_CLOSING]
      in case fsmState (layer_fsm l w) of
           PPP_STATE_1_STARTING \<Rightarrow> run_all [pppChangeState l PPP_STATE_0_INITIAL, thisLayerFinished cb] w
         | PPP_STATE_3_STOPPED \<Rightarrow> pppChangeState l PPP_STATE_2_CLOSED w
         | PPP_STATE_5_STOPPING \<Rightarrow> pppChangeState l PPP_STATE_4_CLOSING w
         | PPP_STATE_6_REQ_SENT \<Rightarrow> run_all close w
         | PPP_STATE_7_ACK_RCVD \<Rightarrow> run_all close w
         | PPP_STATE_8_ACK_SENT \<Rightarrow> run_all close w
         | PPP_STATE_9_OPENED \<Rightarrow> run_all (close @ [thisLayerDown cb]) w
         | _ \<Rightarrow> Some w)"

definition pppTimeoutEvent :: "PppLayer \<Rightarrow> PppCallbacks \<Rightarrow> ppp \<Rightarrow> ppp option" where
  "pppTimeoutEvent l cb w =
     (let stop = [pppChangeState l PPP_STATE_3_STOPPED, thisLayerFinished cb]
      in if fsmRestartCounter (layer_fsm l w) > 0 then
           case fsmState (layer_fsm l w) of
             PPP_STATE_4_CLOSING \<Rightarrow> sendTerminateReq cb w
           | PPP_STATE_5_STOPPING \<Rightarrow> sendTerminateReq cb w
           | PPP_STATE_6_REQ_SENT \<Rightarrow> run_all [sendConfigureReq cb, pppChangeState l PPP_STATE_6_REQ_SENT] w
           | PPP_STATE_7_ACK_RCVD \<Rightarrow> run_all [sendConfigureReq cb, pppChangeState l PPP_STATE_6_REQ_SENT] w
           | PPP_STATE_8_ACK_SENT \<Rightarrow> sendConfigureReq cb w
           | _ \<Rightarrow> Some w
         else
           case fsmState (layer_fsm l w) of
             PPP_STATE_4_CLOSING \<Rightarrow> run_all [pppChangeState l PPP_STATE_2_CLOSED, thisLayerFinished cb] w
           | PPP_STATE_5_STOPPING \<Rightarrow> run_all stop w
           | PPP_STATE_6_REQ_SENT \<Rightarrow> run_all stop w
           | PPP_STATE_7_ACK_RCVD \<Rightarrow> run_all stop w
           | PPP_STATE_8_ACK_SENT \<Rightarrow> run_all stop w
           | _ \<Rightarrow> Some w)"

text \<open>A Configure-Request that is not acceptable is answered alike by a Nak or a Reject.\<close>

definition rcv_unacceptable :: "PppLayer \<Rightarrow> PppCallbacks \<Rightarrow> (ppp \<Rightarrow> ppp option) \<Rightarrow> ppp \<Rightarrow> ppp option" where
  "rcv_unacceptable l cb answer w =
     (case fsmState (layer_fsm l w) of
        PPP_STATE_2_CLOSED \<Rightarrow> sendTerminateAck cb None w
      | PPP_STATE_3_STOPPED \<Rightarrow> run_all [initRestartCount cb PPP_MAX_CONFIGURE, sendConfigureReq cb, answer, pppChangeState l PPP_STATE_6_REQ_SENT] w
      | PPP_STATE_6_REQ_SENT \<Rightarrow> answer w
      | PPP_STATE_7_ACK_RCVD \<Rightarrow> answer w
      | PPP_STATE_8_ACK_SENT \<Rightarrow> run_all [answer, pppChangeState l PPP_STATE_6_REQ_SENT] w
      | PPP_STATE_9_OPENED \<Rightarrow> run_all [sendConfigureReq cb, answer, pppChangeState l PPP_STATE_6_REQ_SENT, thisLayerDown cb] w
      | _ \<Rightarrow> Some w)"

definition pppRcvConfigureReqEvent :: "PppLayer \<Rightarrow> PppCallbacks \<Rightarrow> u8 list \<Rightarrow> u8 \<Rightarrow> ppp \<Rightarrow> ppp option" where
  "pppRcvConfigureReqEvent l cb packet code w =
     (if code = PPP_CODE_CONFIGURE_ACK then
        case fsmState (layer_fsm l w) of
          PPP_STATE_2_CLOSED \<Rightarrow> sendTerminateAck cb None w
        | PPP_STATE_3_STOPPED \<Rightarrow> run_all [initRestartCount cb PPP_MAX_CONFIGURE, sendConfigureReq cb, sendConfigureAck cb packet,
              pppChangeState l PPP_STATE_8_ACK_SENT] w
        | PPP_STATE_6_REQ_SENT \<Rightarrow> run_all [sendConfigureAck cb packet, pppChangeState l PPP_STATE_8_ACK_SENT] w
        | PPP_STATE_7_ACK_RCVD \<Rightarrow> run_all [sendConfigureAck cb packet, pppChangeState l PPP_STATE_9_OPENED, thisLayerUp cb] w
        | PPP_STATE_8_ACK_SENT \<Rightarrow> sendConfigureAck cb packet w
        | PPP_STATE_9_OPENED \<Rightarrow> run_all [sendConfigureReq cb, sendConfigureAck cb packet, pppChangeState l PPP_STATE_8_ACK_SENT,
              thisLayerDown cb] w
        | _ \<Rightarrow> Some w
      else if code = PPP_CODE_CONFIGURE_NAK then rcv_unacceptable l cb (sendConfigureNak cb packet) w
      else if code = PPP_CODE_CONFIGURE_REJ then rcv_unacceptable l cb (sendConfigureRej cb packet) w
      else Some w)"

definition pppRcvConfigureAckEvent :: "PppLayer \<Rightarrow> PppCallbacks \<Rightarrow> ppp \<Rightarrow> ppp option" where
  "pppRcvConfigureAckEvent l cb w =
     (case fsmState (layer_fsm l w) of
        PPP_STATE_2_CLOSED \<Rightarrow> sendTerminateAck cb None w
      | PPP_STATE_3_STOPPED \<Rightarrow> sendTerminateAck cb None w
      | PPP_STATE_6_REQ_SENT \<Rightarrow> run_all [initRestartCount cb PPP_MAX_CONFIGURE, pppChangeState l PPP_STATE_7_ACK_RCVD] w
      | PPP_STATE_7_ACK_RCVD \<Rightarrow> run_all [sendConfigureReq cb, pppChangeState l PPP_STATE_6_REQ_SENT] w
      | PPP_STATE_8_ACK_SENT \<Rightarrow> run_all [initRestartCount cb PPP_MAX_CONFIGURE, pppChangeState l PPP_STATE_9_OPENED, thisLayerUp cb] w
      | PPP_STATE_9_OPENED \<Rightarrow> run_all [sendConfigureReq cb, pppChangeState l PPP_STATE_6_REQ_SENT, thisLayerDown cb] w
      | _ \<Rightarrow> Some w)"

definition pppRcvConfigureNakEvent :: "PppLayer \<Rightarrow> PppCallbacks \<Rightarrow> ppp \<Rightarrow> ppp option" where
  "pppRcvConfigureNakEvent l cb w =
     (case fsmState (layer_fsm l w) of
        PPP_STATE_2_CLOSED \<Rightarrow> sendTerminateAck cb None w
      | PPP_STATE_3_STOPPED \<Rightarrow> sendTerminateAck cb None w
      | PPP_STATE_6_REQ_SENT \<Rightarrow> run_all [initRestartCount cb PPP_MAX_CONFIGURE, sendConfigureReq cb] w
      | PPP_STATE_7_ACK_RCVD \<Rightarrow> run_all [sendConfigureReq cb, pppChangeState l PPP_STATE_6_REQ_SENT] w
      | PPP_STATE_8_ACK_SENT \<Rightarrow> run_all [initRestartCount cb PPP_MAX_CONFIGURE, sendConfigureReq cb] w
      | PPP_STATE_9_OPENED \<Rightarrow> run_all [sendConfigureReq cb, pppChangeState l PPP_STATE_6_REQ_SENT, thisLayerDown cb] w
      | _ \<Rightarrow> Some w)"

definition pppRcvTerminateReqEvent :: "PppLayer \<Rightarrow> PppCallbacks \<Rightarrow> u8 list \<Rightarrow> ppp \<Rightarrow> ppp option" where
  "pppRcvTerminateReqEvent l cb packet w =
     (let s = fsmState (layer_fsm l w)
      in if s \<in> {PPP_STATE_2_CLOSED, PPP_STATE_3_STOPPED, PPP_STATE_4_CLOSING, PPP_STATE_5_STOPPING} then sendTerminateAck cb (Some packet) w
         else if s \<in> {PPP_STATE_6_REQ_SENT, PPP_STATE_7_ACK_RCVD, PPP_STATE_8_ACK_SENT}
           then run_all [sendTerminateAck cb (Some packet), pppChangeState l PPP_STATE_6_REQ_SENT] w
         else if s = PPP_STATE_9_OPENED
           then run_all [zeroRestartCount cb, sendTerminateAck cb (Some packet), pppChangeState l PPP_STATE_5_STOPPING, thisLayerDown cb] w
         else Some w)"

definition pppRcvTerminateAckEvent :: "PppLayer \<Rightarrow> PppCallbacks \<Rightarrow> ppp \<Rightarrow> ppp option" where
  "pppRcvTerminateAckEvent l cb w =
     (case fsmState (layer_fsm l w) of
        PPP_STATE_4_CLOSING \<Rightarrow> run_all [pppChangeState l PPP_STATE_2_CLOSED, thisLayerFinished cb] w
      | PPP_STATE_5_STOPPING \<Rightarrow> run_all [pppChangeState l PPP_STATE_3_STOPPED, thisLayerFinished cb] w
      | PPP_STATE_6_REQ_SENT \<Rightarrow> pppChangeState l PPP_STATE_6_REQ_SENT w
      | PPP_STATE_7_ACK_RCVD \<Rightarrow> pppChangeState l PPP_STATE_6_REQ_SENT w
      | PPP_STATE_9_OPENED \<Rightarrow> run_all [sendConfigureReq cb, pppChangeState l PPP_STATE_6_REQ_SENT, thisLayerDown cb] w
      | _ \<Rightarrow> Some w)"

definition pppRcvUnknownCodeEvent :: "PppLayer \<Rightarrow> PppCallbacks \<Rightarrow> u8 list \<Rightarrow> ppp \<Rightarrow> ppp option" where
  "pppRcvUnknownCodeEvent l cb packet w =
     (if fsmState (layer_fsm l w) \<in> {PPP_STATE_0_INITIAL, PPP_STATE_1_STARTING} then Some w else sendCodeRej cb packet w)"

definition pppRcvCodeRejEvent :: "PppLayer \<Rightarrow> PppCallbacks \<Rightarrow> bool \<Rightarrow> ppp \<Rightarrow> ppp option" where
  "pppRcvCodeRejEvent l cb acceptable w =
     (let stop = [pppChangeState l PPP_STATE_3_STOPPED, thisLayerFinished cb]
      in if acceptable then
           case fsmState (layer_fsm l w) of PPP_STATE_7_ACK_RCVD \<Rightarrow> pppChangeState l PPP_STATE_6_REQ_SENT w | _ \<Rightarrow> Some w
         else
           case fsmState (layer_fsm l w) of
             PPP_STATE_2_CLOSED \<Rightarrow> thisLayerFinished cb w
           | PPP_STATE_3_STOPPED \<Rightarrow> thisLayerFinished cb w
           | PPP_STATE_4_CLOSING \<Rightarrow> run_all [pppChangeState l PPP_STATE_2_CLOSED, thisLayerFinished cb] w
           | PPP_STATE_5_STOPPING \<Rightarrow> run_all stop w
           | PPP_STATE_6_REQ_SENT \<Rightarrow> run_all stop w
           | PPP_STATE_7_ACK_RCVD \<Rightarrow> run_all stop w
           | PPP_STATE_8_ACK_SENT \<Rightarrow> run_all stop w
           | PPP_STATE_9_OPENED \<Rightarrow> run_all [initRestartCount cb PPP_MAX_TERMINATE, sendTerminateReq cb, pppChangeState l PPP_STATE_5_STOPPING,
                thisLayerDown cb] w
           | _ \<Rightarrow> Some w)"

definition pppRcvEchoReqEvent :: "PppLayer \<Rightarrow> PppCallbacks \<Rightarrow> u8 list \<Rightarrow> ppp \<Rightarrow> ppp option" where
  "pppRcvEchoReqEvent l cb packet w = (if fsmState (layer_fsm l w) = PPP_STATE_9_OPENED then sendEchoRep cb packet w else Some w)"

section \<open>The table of RFC 1661\<close>

datatype rfc_event = Up | Down | Open | Close | TO_plus | TO_minus | RCR_plus | RCR_minus | RCA | RCN | RTR | RTA | RUC | RXJ_plus | RXJ_minus | RXR

datatype rfc_action = Tlu | Tld | Tls | Tlf | Irc | Zrc | Scr | Sca | Scn | Str | Sta | Scj | Ser

text \<open>
  Section 4.1: for each state from Initial to Opened the actions and the number of the next state; \<open>None\<close> is the dash of the
  table. The restart option, which the table marks with r, is not used.
\<close>

fun rfc_row :: "rfc_event \<Rightarrow> (rfc_action list \<times> nat) option list" where
  "rfc_row Up = [Some ([], 2), Some ([Irc, Scr], 6), None, None, None, None, None, None, None, None]"
| "rfc_row Down = [None, None, Some ([], 0), Some ([Tls], 1), Some ([], 0), Some ([], 1), Some ([], 1), Some ([], 1), Some ([], 1), Some ([Tld], 1)]"
| "rfc_row Open = [Some ([Tls], 1), Some ([], 1), Some ([Irc, Scr], 6), Some ([], 3), Some ([], 5), Some ([], 5), Some ([], 6), Some ([], 7), Some ([], 8),
     Some ([], 9)]"
| "rfc_row Close = [Some ([], 0), Some ([Tlf], 0), Some ([], 2), Some ([], 2), Some ([], 4), Some ([], 4), Some ([Irc, Str], 4), Some ([Irc, Str], 4),
     Some ([Irc, Str], 4), Some ([Tld, Irc, Str], 4)]"
| "rfc_row TO_plus = [None, None, None, None, Some ([Str], 4), Some ([Str], 5), Some ([Scr], 6), Some ([Scr], 6), Some ([Scr], 8), None]"
| "rfc_row TO_minus = [None, None, None, None, Some ([Tlf], 2), Some ([Tlf], 3), Some ([Tlf], 3), Some ([Tlf], 3), Some ([Tlf], 3), None]"
| "rfc_row RCR_plus = [None, None, Some ([Sta], 2), Some ([Irc, Scr, Sca], 8), Some ([], 4), Some ([], 5), Some ([Sca], 8), Some ([Sca, Tlu], 9),
     Some ([Sca], 8), Some ([Tld, Scr, Sca], 8)]"
| "rfc_row RCR_minus = [None, None, Some ([Sta], 2), Some ([Irc, Scr, Scn], 6), Some ([], 4), Some ([], 5), Some ([Scn], 6), Some ([Scn], 7),
     Some ([Scn], 6), Some ([Tld, Scr, Scn], 6)]"
| "rfc_row RCA = [None, None, Some ([Sta], 2), Some ([Sta], 3), Some ([], 4), Some ([], 5), Some ([Irc], 7), Some ([Scr], 6), Some ([Irc, Tlu], 9),
     Some ([Tld, Scr], 6)]"
| "rfc_row RCN = [None, None, Some ([Sta], 2), Some ([Sta], 3), Some ([], 4), Some ([], 5), Some ([Irc, Scr], 6), Some ([Scr], 6), Some ([Irc, Scr], 8),
     Some ([Tld, Scr], 6)]"
| "rfc_row RTR = [None, None, Some ([Sta], 2), Some ([Sta], 3), Some ([Sta], 4), Some ([Sta], 5), Some ([Sta], 6), Some ([Sta], 6), Some ([Sta], 6),
     Some ([Tld, Zrc, Sta], 5)]"
| "rfc_row RTA = [None, None, Some ([], 2), Some ([], 3), Some ([Tlf], 2), Some ([Tlf], 3), Some ([], 6), Some ([], 6), Some ([], 8), Some ([Tld, Scr], 6)]"
| "rfc_row RUC = [None, None, Some ([Scj], 2), Some ([Scj], 3), Some ([Scj], 4), Some ([Scj], 5), Some ([Scj], 6), Some ([Scj], 7), Some ([Scj], 8),
     Some ([Scj], 9)]"
| "rfc_row RXJ_plus = [None, None, Some ([], 2), Some ([], 3), Some ([], 4), Some ([], 5), Some ([], 6), Some ([], 6), Some ([], 8), Some ([], 9)]"
| "rfc_row RXJ_minus = [None, None, Some ([Tlf], 2), Some ([Tlf], 3), Some ([Tlf], 2), Some ([Tlf], 3), Some ([Tlf], 3), Some ([Tlf], 3), Some ([Tlf], 3),
     Some ([Tld, Irc, Str], 5)]"
| "rfc_row RXR = [None, None, Some ([], 2), Some ([], 3), Some ([], 4), Some ([], 5), Some ([], 6), Some ([], 7), Some ([], 8), Some ([Ser], 9)]"

definition rfc_states :: "PppState list" where
  "rfc_states = [PPP_STATE_0_INITIAL, PPP_STATE_1_STARTING, PPP_STATE_2_CLOSED, PPP_STATE_3_STOPPED, PPP_STATE_4_CLOSING, PPP_STATE_5_STOPPING,
     PPP_STATE_6_REQ_SENT, PPP_STATE_7_ACK_RCVD, PPP_STATE_8_ACK_SENT, PPP_STATE_9_OPENED]"

definition state_no :: "PppState \<Rightarrow> nat" where
  "state_no s = (case s of PPP_STATE_0_INITIAL \<Rightarrow> 0 | PPP_STATE_1_STARTING \<Rightarrow> 1 | PPP_STATE_2_CLOSED \<Rightarrow> 2 | PPP_STATE_3_STOPPED \<Rightarrow> 3
     | PPP_STATE_4_CLOSING \<Rightarrow> 4 | PPP_STATE_5_STOPPING \<Rightarrow> 5 | PPP_STATE_6_REQ_SENT \<Rightarrow> 6 | PPP_STATE_7_ACK_RCVD \<Rightarrow> 7
     | PPP_STATE_8_ACK_SENT \<Rightarrow> 8 | PPP_STATE_9_OPENED \<Rightarrow> 9)"

text \<open>What happens to the automaton, with the packet, the answer to a request or whether a rejection can be accepted.\<close>

datatype ppp_input = InUp | InDown | InOpen | InClose | InTimeout | InConfigureReq "u8 list" u8 | InConfigureAck | InConfigureNak
  | InTerminateReq "u8 list" | InTerminateAck | InUnknownCode "u8 list" | InCodeRej bool | InEchoReq "u8 list"

fun fsm_step :: "PppLayer \<Rightarrow> PppCallbacks \<Rightarrow> ppp_input \<Rightarrow> ppp \<Rightarrow> ppp option" where
  "fsm_step l cb InUp = pppUpEvent l cb"
| "fsm_step l cb InDown = pppDownEvent l cb"
| "fsm_step l cb InOpen = pppOpenEvent l cb"
| "fsm_step l cb InClose = pppCloseEvent l cb"
| "fsm_step l cb InTimeout = pppTimeoutEvent l cb"
| "fsm_step l cb (InConfigureReq p code) = pppRcvConfigureReqEvent l cb p code"
| "fsm_step l cb InConfigureAck = pppRcvConfigureAckEvent l cb"
| "fsm_step l cb InConfigureNak = pppRcvConfigureNakEvent l cb"
| "fsm_step l cb (InTerminateReq p) = pppRcvTerminateReqEvent l cb p"
| "fsm_step l cb InTerminateAck = pppRcvTerminateAckEvent l cb"
| "fsm_step l cb (InUnknownCode p) = pppRcvUnknownCodeEvent l cb p"
| "fsm_step l cb (InCodeRej acceptable) = pppRcvCodeRejEvent l cb acceptable"
| "fsm_step l cb (InEchoReq p) = pppRcvEchoReqEvent l cb p"

fun classify :: "ppp_input \<Rightarrow> PppFsm \<Rightarrow> rfc_event" where
  "classify InUp f = Up"
| "classify InDown f = Down"
| "classify InOpen f = Open"
| "classify InClose f = Close"
| "classify InTimeout f = (if fsmRestartCounter f > 0 then TO_plus else TO_minus)"
| "classify (InConfigureReq p code) f = (if code = PPP_CODE_CONFIGURE_ACK then RCR_plus else RCR_minus)"
| "classify InConfigureAck f = RCA"
| "classify InConfigureNak f = RCN"
| "classify (InTerminateReq p) f = RTR"
| "classify InTerminateAck f = RTA"
| "classify (InUnknownCode p) f = RUC"
| "classify (InCodeRej acceptable) f = (if acceptable then RXJ_plus else RXJ_minus)"
| "classify (InEchoReq p) f = RXR"

text \<open>
  What an action of the table means here. The restart counter starts at the limit for Terminate-Requests where the row sends
  one. A Nak stands for the answer chosen, a Nak or a Reject; a Terminate-Ack without a request carries no packet.
\<close>

definition input_packet :: "ppp_input \<Rightarrow> u8 list" where
  "input_packet i = (case i of InConfigureReq p code \<Rightarrow> p | InTerminateReq p \<Rightarrow> p | InUnknownCode p \<Rightarrow> p | InEchoReq p \<Rightarrow> p | _ \<Rightarrow> [])"

definition rfc_do :: "PppCallbacks \<Rightarrow> ppp_input \<Rightarrow> rfc_action list \<Rightarrow> rfc_action \<Rightarrow> ppp \<Rightarrow> ppp option" where
  "rfc_do cb i acts a =
     (case a of
        Tlu \<Rightarrow> thisLayerUp cb | Tld \<Rightarrow> thisLayerDown cb | Tls \<Rightarrow> thisLayerStarted cb | Tlf \<Rightarrow> thisLayerFinished cb
      | Irc \<Rightarrow> initRestartCount cb (if Str \<in> set acts then PPP_MAX_TERMINATE else PPP_MAX_CONFIGURE)
      | Zrc \<Rightarrow> zeroRestartCount cb | Scr \<Rightarrow> sendConfigureReq cb | Sca \<Rightarrow> sendConfigureAck cb (input_packet i)
      | Scn \<Rightarrow> (case i of InConfigureReq p code \<Rightarrow> if code = PPP_CODE_CONFIGURE_NAK then sendConfigureNak cb p else sendConfigureRej cb p
                 | _ \<Rightarrow> \<lambda>w. None)
      | Str \<Rightarrow> sendTerminateReq cb
      | Sta \<Rightarrow> sendTerminateAck cb (case i of InTerminateReq p \<Rightarrow> Some p | _ \<Rightarrow> None)
      | Scj \<Rightarrow> sendCodeRej cb (input_packet i) | Ser \<Rightarrow> sendEchoRep cb (input_packet i))"

definition indication :: "rfc_action \<Rightarrow> bool" where
  "indication a \<longleftrightarrow> a \<in> {Tlu, Tld, Tls, Tlf}"

text \<open>The entry of the table, performed: the actions in order, the change of the state, then the indications to the other layers.\<close>

definition rfc_run :: "PppLayer \<Rightarrow> PppCallbacks \<Rightarrow> ppp_input \<Rightarrow> ppp \<Rightarrow> ppp option" where
  "rfc_run l cb i w =
     (case rfc_row (classify i (layer_fsm l w)) ! state_no (fsmState (layer_fsm l w)) of
        None \<Rightarrow> Some w
      | Some (acts, s) \<Rightarrow> run_all (map (rfc_do cb i acts) (filter (\<lambda>a. \<not> indication a) acts) @
          [pppChangeState l (rfc_states ! s)] @ map (rfc_do cb i acts) (filter indication acts)) w)"

section \<open>What the automaton asks of the callbacks\<close>

locale ppp_layer =
  fixes l :: PppLayer and cb :: PppCallbacks
  assumes keeps_irc: "initRestartCount cb n w = Some w' \<Longrightarrow> fsmState (layer_fsm l w') = fsmState (layer_fsm l w)"
    and keeps_scr: "sendConfigureReq cb w = Some w' \<Longrightarrow> fsmState (layer_fsm l w') = fsmState (layer_fsm l w)"
    and keeps_scn: "sendConfigureNak cb p w = Some w' \<Longrightarrow> fsmState (layer_fsm l w') = fsmState (layer_fsm l w)"
    and keeps_sca: "sendConfigureAck cb p w = Some w' \<Longrightarrow> fsmState (layer_fsm l w') = fsmState (layer_fsm l w)"
    and keeps_rej: "sendConfigureRej cb p w = Some w' \<Longrightarrow> fsmState (layer_fsm l w') = fsmState (layer_fsm l w)"
    and keeps_str: "sendTerminateReq cb w = Some w' \<Longrightarrow> fsmState (layer_fsm l w') = fsmState (layer_fsm l w)"
    and keeps_sta: "sendTerminateAck cb q w = Some w' \<Longrightarrow> fsmState (layer_fsm l w') = fsmState (layer_fsm l w)"
    and keeps_scj: "sendCodeRej cb p w = Some w' \<Longrightarrow> fsmState (layer_fsm l w') = fsmState (layer_fsm l w)"
    and keeps_ser: "sendEchoRep cb p w = Some w' \<Longrightarrow> fsmState (layer_fsm l w') = fsmState (layer_fsm l w)"
begin

lemma change_same: "fsmState (layer_fsm l w) = s \<Longrightarrow> pppChangeState l s w = Some w"
  by (cases l) (auto simp: pppChangeState_def put_fsm_def put_ppp_def layer_fsm_def)

lemma then_change_same:
  "(\<And>w'. f w = Some w' \<Longrightarrow> fsmState (layer_fsm l w') = fsmState (layer_fsm l w)) \<Longrightarrow> fsmState (layer_fsm l w) = s \<Longrightarrow>
    Option.bind (f w) (pppChangeState l s) = f w"
  by (cases "f w") (simp_all add: change_same)

lemma then_change_same2:
  "(\<And>w'. f w = Some w' \<Longrightarrow> fsmState (layer_fsm l w') = fsmState (layer_fsm l w)) \<Longrightarrow>
   (\<And>w w'. g w = Some w' \<Longrightarrow> fsmState (layer_fsm l w') = fsmState (layer_fsm l w)) \<Longrightarrow> fsmState (layer_fsm l w) = s \<Longrightarrow>
    Option.bind (f w) (run_all [g, pppChangeState l s]) = Option.bind (f w) g"
  by (cases "f w") (simp_all add: then_change_same)

lemmas change_after = change_same then_change_same [OF keeps_scr] then_change_same [OF keeps_scn] then_change_same [OF keeps_sca]
  then_change_same [OF keeps_rej] then_change_same [OF keeps_str] then_change_same [OF keeps_sta] then_change_same [OF keeps_scj]
  then_change_same [OF keeps_ser] then_change_same2 [OF keeps_irc keeps_scr]

text \<open>Every event does what the table says, in the order of the table but for the indications, which come last.\<close>

lemma rfc1661:
  assumes "\<And>p code. i = InConfigureReq p code \<Longrightarrow> code \<in> {PPP_CODE_CONFIGURE_ACK, PPP_CODE_CONFIGURE_NAK, PPP_CODE_CONFIGURE_REJ}"
  shows "fsm_step l cb i w = rfc_run l cb i w"
proof -
  note defs = rfc_run_def state_no_def rfc_states_def rfc_do_def indication_def input_packet_def
  show ?thesis
  proof (cases i)
    case (InConfigureReq p code)
    then have "code = PPP_CODE_CONFIGURE_ACK \<or> code = PPP_CODE_CONFIGURE_NAK \<or> code = PPP_CODE_CONFIGURE_REJ" using assms by blast
    moreover have ?thesis if "code = PPP_CODE_CONFIGURE_ACK"
      using that InConfigureReq by (cases "fsmState (layer_fsm l w)"; simp add: defs pppRcvConfigureReqEvent_def change_after)
    moreover have ?thesis if "code = PPP_CODE_CONFIGURE_NAK"
      using that InConfigureReq by (cases "fsmState (layer_fsm l w)"; simp add: defs pppRcvConfigureReqEvent_def rcv_unacceptable_def change_after)
    moreover have ?thesis if "code = PPP_CODE_CONFIGURE_REJ"
      using that InConfigureReq by (cases "fsmState (layer_fsm l w)"; simp add: defs pppRcvConfigureReqEvent_def rcv_unacceptable_def change_after)
    ultimately show ?thesis by blast
  next
    case InUp
    then show ?thesis by (cases "fsmState (layer_fsm l w)"; simp add: defs pppUpEvent_def Let_def change_after)
  next
    case InDown
    then show ?thesis by (cases "fsmState (layer_fsm l w)"; simp add: defs pppDownEvent_def Let_def change_after)
  next
    case InOpen
    then show ?thesis by (cases "fsmState (layer_fsm l w)"; simp add: defs pppOpenEvent_def Let_def change_after)
  next
    case InClose
    then show ?thesis by (cases "fsmState (layer_fsm l w)"; simp add: defs pppCloseEvent_def Let_def change_after)
  next
    case InTimeout
    then show ?thesis by (cases "fsmState (layer_fsm l w)"; simp add: defs pppTimeoutEvent_def Let_def change_after)
  next
    case InConfigureAck
    then show ?thesis by (cases "fsmState (layer_fsm l w)"; simp add: defs pppRcvConfigureAckEvent_def Let_def change_after)
  next
    case InConfigureNak
    then show ?thesis by (cases "fsmState (layer_fsm l w)"; simp add: defs pppRcvConfigureNakEvent_def Let_def change_after)
  next
    case (InTerminateReq p)
    then show ?thesis by (cases "fsmState (layer_fsm l w)"; simp add: defs pppRcvTerminateReqEvent_def Let_def change_after)
  next
    case InTerminateAck
    then show ?thesis by (cases "fsmState (layer_fsm l w)"; simp add: defs pppRcvTerminateAckEvent_def Let_def change_after)
  next
    case (InUnknownCode p)
    then show ?thesis by (cases "fsmState (layer_fsm l w)"; simp add: defs pppRcvUnknownCodeEvent_def Let_def change_after)
  next
    case (InCodeRej acceptable)
    then show ?thesis by (cases "fsmState (layer_fsm l w)"; simp add: defs pppRcvCodeRejEvent_def Let_def change_after)
  next
    case (InEchoReq p)
    then show ?thesis by (cases "fsmState (layer_fsm l w)"; simp add: defs pppRcvEchoReqEvent_def Let_def change_after)
  qed
qed

end

end
