(* ===== verification/Ppp_Options.thy ===== *)
theory Ppp_Options
  imports Ppp_Fsm Ipv4_Addr
begin

text \<open>
  The options of LCP and IPCP (the \<open>Parse\<close> functions of \<open>ppp/lcp.c\<close> and \<open>ppp/ipcp.c\<close>, \<open>pppAddOption\<close> of \<open>ppp/ppp_misc.c\<close>):
  what is acceptable in a Configure-Request of the peer, and what the answer repeats or proposes.
\<close>

unbundle bit_operations_syntax

section \<open>Configure packets\<close>

abbreviation (input) LCP_OPTION_MRU :: u8 where "LCP_OPTION_MRU \<equiv> 1"
abbreviation (input) LCP_OPTION_ACCM :: u8 where "LCP_OPTION_ACCM \<equiv> 2"
abbreviation (input) LCP_OPTION_AUTH_PROTOCOL :: u8 where "LCP_OPTION_AUTH_PROTOCOL \<equiv> 3"
abbreviation (input) LCP_OPTION_MAGIC_NUMBER :: u8 where "LCP_OPTION_MAGIC_NUMBER \<equiv> 5"
abbreviation (input) LCP_OPTION_PFC :: u8 where "LCP_OPTION_PFC \<equiv> 7"
abbreviation (input) LCP_OPTION_ACFC :: u8 where "LCP_OPTION_ACFC \<equiv> 8"
abbreviation (input) IPCP_OPTION_IP_ADDRESS :: u8 where "IPCP_OPTION_IP_ADDRESS \<equiv> 3"
abbreviation (input) IPCP_OPTION_PRIMARY_DNS :: u8 where "IPCP_OPTION_PRIMARY_DNS \<equiv> 129"
abbreviation (input) IPCP_OPTION_SECONDARY_DNS :: u8 where "IPCP_OPTION_SECONDARY_DNS \<equiv> 131"
abbreviation (input) PPP_DEFAULT_MRU :: u16 where "PPP_DEFAULT_MRU \<equiv> 1500"
abbreviation (input) PPP_MIN_MRU :: u16 where "PPP_MIN_MRU \<equiv> 32"
abbreviation (input) PPP_MAX_MRU :: u16 where "PPP_MAX_MRU \<equiv> 1500"
abbreviation (input) PPP_AUTH_PROTOCOL_PAP :: u32 where "PPP_AUTH_PROTOCOL_PAP \<equiv> 1"
abbreviation (input) PPP_AUTH_PROTOCOL_CHAP_MD5 :: u32 where "PPP_AUTH_PROTOCOL_CHAP_MD5 \<equiv> 2"
abbreviation (input) CHAP_ALGO_ID_CHAP_MD5 :: u8 where "CHAP_ALGO_ID_CHAP_MD5 \<equiv> 5"

text \<open>A packet under construction. Its length field counts the header of four bytes and the options added so far.\<close>

record PppConfigurePacket =
  cfgCode :: u8
  cfgIdentifier :: u8
  cfgOptions :: "u8 list"

definition cfg_bytes :: "PppConfigurePacket \<Rightarrow> u8 list" where
  "cfg_bytes p = [cfgCode p, cfgIdentifier p] @ be16 (of_nat (4 + length (cfgOptions p))) @ cfgOptions p"

definition pppAddOption :: "PppConfigurePacket \<Rightarrow> u8 \<Rightarrow> u8 list \<Rightarrow> error_t \<times> PppConfigurePacket" where
  "pppAddOption p ty val =
     (if length val > 253 then (ERROR_INVALID_LENGTH, p)
      else (NO_ERROR, p\<lparr>cfgOptions := cfgOptions p @ [ty, of_nat (length val + 2)] @ val\<rparr>))"

text \<open>The answer under construction, if there is one and it has this code, gets an option.\<close>

definition answer :: "u8 \<Rightarrow> u8 \<Rightarrow> u8 list \<Rightarrow> PppConfigurePacket option \<Rightarrow> PppConfigurePacket option" where
  "answer code ty val out =
     (case out of None \<Rightarrow> None | Some p \<Rightarrow> Some (if cfgCode p = code then snd (pppAddOption p ty val) else p))"

definition acking :: "PppConfigurePacket option \<Rightarrow> bool" where
  "acking out \<longleftrightarrow> (case out of None \<Rightarrow> False | Some p \<Rightarrow> cfgCode p = PPP_CODE_CONFIGURE_ACK)"

definition put_peer :: "PppConfigurePacket option \<Rightarrow> (PppConfig \<Rightarrow> PppConfig) \<Rightarrow> PppContext \<Rightarrow> PppContext" where
  "put_peer out f c = (if acking out then c\<lparr>peerConfig := f (peerConfig c)\<rparr> else c)"

type_synonym ppp_parser = "PppContext \<Rightarrow> u8 list \<Rightarrow> PppConfigurePacket option \<Rightarrow> error_t \<times> PppContext \<times> PppConfigurePacket option"

definition opt_length :: "u8 list \<Rightarrow> nat" where
  "opt_length opt = unat (opt ! 1)"

definition opt_value :: "u8 list \<Rightarrow> u8 list" where
  "opt_value opt = drop 2 (take (opt_length opt) opt)"

definition opt_word :: "u8 list \<Rightarrow> u32" where
  "opt_word opt = of_be32 (opt ! 2) (opt ! 3) (opt ! 4) (opt ! 5)"

section \<open>Options of LCP\<close>

text \<open>The peer's MRU is stored through \<open>ntohl\<close> on the 16 bits of the field.\<close>

definition lcpParseMruOption :: ppp_parser where
  "lcpParseMruOption c opt out =
     (if opt_length opt = 4 then
        if of_be16 (opt ! 2) (opt ! 3) \<ge> PPP_MIN_MRU
        then (NO_ERROR, put_peer out (\<lambda>p. p\<lparr>cfMru := ucast (ntohl (ucast (of_le16 (opt ! 2) (opt ! 3))))\<rparr>) c,
              answer PPP_CODE_CONFIGURE_ACK LCP_OPTION_MRU (opt_value opt) out)
        else (ERROR_INVALID_VALUE, c, answer PPP_CODE_CONFIGURE_NAK LCP_OPTION_MRU (be16 PPP_DEFAULT_MRU) out)
      else (ERROR_INVALID_LENGTH, c, out))"

definition lcpParseAccmOption :: ppp_parser where
  "lcpParseAccmOption c opt out =
     (if opt_length opt = 6
      then (NO_ERROR, put_peer out (\<lambda>p. p\<lparr>cfAccm := opt_word opt\<rparr>) c, answer PPP_CODE_CONFIGURE_ACK LCP_OPTION_ACCM (opt_value opt) out)
      else (ERROR_INVALID_LENGTH, c, out))"

definition lcpParseAuthProtocolOption :: ppp_parser where
  "lcpParseAuthProtocolOption c opt out =
     (let proto = of_be16 (opt ! 2) (opt ! 3); allowed = setAuthProtocol (pppSettings c)
      in if opt_length opt \<ge> 4 \<and> (proto = PPP_PROTOCOL_PAP \<and> opt_length opt = 4 \<or> proto = PPP_PROTOCOL_CHAP \<and> opt_length opt = 5) then
           if allowed AND PPP_AUTH_PROTOCOL_PAP \<noteq> 0 \<and> proto = PPP_PROTOCOL_PAP
           then (NO_ERROR, put_peer out (\<lambda>p. p\<lparr>cfAuthProtocol := PPP_PROTOCOL_PAP\<rparr>) c, answer PPP_CODE_CONFIGURE_ACK (opt ! 0) (opt_value opt) out)
           else if allowed AND PPP_AUTH_PROTOCOL_CHAP_MD5 \<noteq> 0 \<and> proto = PPP_PROTOCOL_CHAP \<and> opt ! 4 = CHAP_ALGO_ID_CHAP_MD5
           then (NO_ERROR, put_peer out (\<lambda>p. p\<lparr>cfAuthProtocol := PPP_PROTOCOL_CHAP, cfAuthAlgo := CHAP_ALGO_ID_CHAP_MD5\<rparr>) c,
                 answer PPP_CODE_CONFIGURE_ACK (opt ! 0) (opt_value opt) out)
           else if allowed AND PPP_AUTH_PROTOCOL_PAP \<noteq> 0
           then (ERROR_INVALID_VALUE, c, answer PPP_CODE_CONFIGURE_NAK LCP_OPTION_AUTH_PROTOCOL (be16 PPP_PROTOCOL_PAP) out)
           else if allowed AND PPP_AUTH_PROTOCOL_CHAP_MD5 \<noteq> 0
           then (ERROR_INVALID_VALUE, c, answer PPP_CODE_CONFIGURE_NAK LCP_OPTION_AUTH_PROTOCOL (be16 PPP_PROTOCOL_CHAP @ [CHAP_ALGO_ID_CHAP_MD5]) out)
           else (ERROR_INVALID_TYPE, c, answer PPP_CODE_CONFIGURE_REJ (opt ! 0) (opt_value opt) out)
         else (ERROR_INVALID_LENGTH, c, out))"

definition lcpParseMagicNumberOption :: ppp_parser where
  "lcpParseMagicNumberOption c opt out =
     (if opt_length opt = 6
      then (NO_ERROR, put_peer out (\<lambda>p. p\<lparr>cfMagicNumber := opt_word opt\<rparr>) c,
            answer PPP_CODE_CONFIGURE_ACK LCP_OPTION_MAGIC_NUMBER (opt_value opt) out)
      else (ERROR_INVALID_LENGTH, c, out))"

definition lcpParsePfcOption :: ppp_parser where
  "lcpParsePfcOption c opt out =
     (if opt_length opt = 2 then (NO_ERROR, put_peer out (\<lambda>p. p\<lparr>cfPfc := True\<rparr>) c, answer PPP_CODE_CONFIGURE_ACK LCP_OPTION_PFC [] out)
      else (ERROR_INVALID_LENGTH, c, out))"

definition lcpParseAcfcOption :: ppp_parser where
  "lcpParseAcfcOption c opt out =
     (if opt_length opt = 2 then (NO_ERROR, put_peer out (\<lambda>p. p\<lparr>cfAcfc := True\<rparr>) c, answer PPP_CODE_CONFIGURE_ACK LCP_OPTION_ACFC [] out)
      else (ERROR_INVALID_LENGTH, c, out))"

text \<open>The list starts with the option and ends with the packet.\<close>

definition lcpParseOption :: ppp_parser where
  "lcpParseOption c opt out =
     (if length opt < 2 then (ERROR_INVALID_LENGTH, c, out)
      else if opt_length opt < 2 then (ERROR_INVALID_LENGTH, c, out)
      else if opt_length opt > length opt then (ERROR_INVALID_LENGTH, c, out)
      else if opt ! 0 = LCP_OPTION_MRU then lcpParseMruOption c opt out
      else if opt ! 0 = LCP_OPTION_ACCM then lcpParseAccmOption c opt out
      else if opt ! 0 = LCP_OPTION_AUTH_PROTOCOL then lcpParseAuthProtocolOption c opt out
      else if opt ! 0 = LCP_OPTION_MAGIC_NUMBER then lcpParseMagicNumberOption c opt out
      else if opt ! 0 = LCP_OPTION_PFC then lcpParsePfcOption c opt out
      else if opt ! 0 = LCP_OPTION_ACFC then lcpParseAcfcOption c opt out
      else (ERROR_INVALID_TYPE, c, answer PPP_CODE_CONFIGURE_REJ (opt ! 0) (opt_value opt) out))"

section \<open>Options of IPCP\<close>

text \<open>An address is the word that holds its bytes in memory, as everywhere.\<close>

definition opt_addr :: "u8 list \<Rightarrow> Ipv4Addr" where
  "opt_addr opt = ip_addr (drop 2 opt)"

definition ipcpParseIpAddressOption :: ppp_parser where
  "ipcpParseIpAddressOption c opt out =
     (if opt_length opt = 6 then
        if opt_addr opt \<noteq> IPV4_UNSPECIFIED_ADDR
        then (NO_ERROR, put_peer out (\<lambda>p. p\<lparr>cfIpAddr := opt_addr opt\<rparr>) c, answer PPP_CODE_CONFIGURE_ACK IPCP_OPTION_IP_ADDRESS (opt_value opt) out)
        else (ERROR_INVALID_VALUE, c, answer PPP_CODE_CONFIGURE_NAK IPCP_OPTION_IP_ADDRESS (ip_bytes (cfIpAddr (peerConfig c))) out)
      else (ERROR_INVALID_LENGTH, c, out))"

definition ipcpParseOption :: ppp_parser where
  "ipcpParseOption c opt out =
     (if length opt < 2 then (ERROR_INVALID_LENGTH, c, out)
      else if opt_length opt < 2 then (ERROR_INVALID_LENGTH, c, out)
      else if opt_length opt > length opt then (ERROR_INVALID_LENGTH, c, out)
      else if opt ! 0 = IPCP_OPTION_IP_ADDRESS then ipcpParseIpAddressOption c opt out
      else (ERROR_INVALID_TYPE, c, answer PPP_CODE_CONFIGURE_REJ (opt ! 0) (opt_value opt) out))"

end
