(* ===== verification/Ppp_Packet.thy ===== *)
theory Ppp_Packet
  imports Ppp_Options
begin

text \<open>
  The packets all control protocols of PPP send (\<open>ppp/ppp_misc.c\<close>): answers to Configure-Requests, Terminate-Request and
  Terminate-Ack, rejections, and the answer to an Echo-Request. A function that reads memory beyond the packet it was given, or
  writes beyond the block it has allocated, gives \<open>None\<close>.
\<close>

unbundle bit_operations_syntax

abbreviation (input) PPP_CODE_TERMINATE_REQ :: u8 where "PPP_CODE_TERMINATE_REQ \<equiv> 5"
abbreviation (input) PPP_CODE_TERMINATE_ACK :: u8 where "PPP_CODE_TERMINATE_ACK \<equiv> 6"
abbreviation (input) PPP_CODE_CODE_REJ :: u8 where "PPP_CODE_CODE_REJ \<equiv> 7"
abbreviation (input) PPP_CODE_PROTOCOL_REJ :: u8 where "PPP_CODE_PROTOCOL_REJ \<equiv> 8"
abbreviation (input) PPP_CODE_ECHO_REQ :: u8 where "PPP_CODE_ECHO_REQ \<equiv> 9"
abbreviation (input) PPP_CODE_ECHO_REP :: u8 where "PPP_CODE_ECHO_REP \<equiv> 10"
abbreviation (input) PPP_CODE_DISCARD_REQ :: u8 where "PPP_CODE_DISCARD_REQ \<equiv> 11"

text \<open>The length field of a packet, and the header of a packet of \<open>n\<close> bytes.\<close>

definition pkt_length :: "u8 list \<Rightarrow> nat" where
  "pkt_length p = unat (of_be16 (p ! 2) (p ! 3))"

definition pkt_header :: "u8 \<Rightarrow> u8 \<Rightarrow> nat \<Rightarrow> u8 list" where
  "pkt_header code ident n = [code, ident] @ be16 (of_nat n)"

section \<open>Sending\<close>

definition ppp_send_free :: "u16 \<Rightarrow> nat \<Rightarrow> NetBuffer \<Rightarrow> nat \<Rightarrow> ppp \<Rightarrow> (error_t \<times> ppp) option" where
  "ppp_send_free proto a b off w =
     (case pppSendFrame b off proto w of
        None \<Rightarrow> None
      | Some (e, b, w) \<Rightarrow> Some (e, w\<lparr>px := bufFree (px w) a b\<rparr>))"

text \<open>A packet written in place: \<open>n\<close> bytes are allocated, the packet is \<open>bytes\<close>, and the buffer is cut to its length.\<close>

definition ppp_send_bytes :: "u16 \<Rightarrow> nat \<Rightarrow> NetBuffer \<Rightarrow> nat \<Rightarrow> u8 list \<Rightarrow> ppp \<Rightarrow> (error_t \<times> ppp) option" where
  "ppp_send_bytes proto a b off bytes w =
     (case netBufferAt b off of
        None \<Rightarrow> None
      | Some (_, mem) \<Rightarrow>
          if length bytes > length mem then None
          else
            let b = netBufferPoke b off bytes;
                (_, x, b) = bufSetLength (px w) b (off + length bytes)
            in ppp_send_free proto a b off (w\<lparr>px := x\<rparr>))"

text \<open>A header with \<open>n\<close> bytes of \<open>data\<close> behind it, \<open>n\<close> as the 32-bit difference the code computes.\<close>

definition ppp_send_append :: "u16 \<Rightarrow> u8 list \<Rightarrow> u8 list \<Rightarrow> u32 \<Rightarrow> ppp \<Rightarrow> (error_t \<times> ppp) option" where
  "ppp_send_append proto header data n w =
     (case pppAllocBuffer (px w) (length header) of
        (None, x) \<Rightarrow> Some (ERROR_OUT_OF_MEMORY, w\<lparr>px := x\<rparr>)
      | (Some (a, b, off), x) \<Rightarrow>
          if unat n > length data then None
          else
            let (e, b) = netBufferAppend (netBufferPoke b off header) 0 (take (unat n) data) (unat n)
            in if e \<noteq> NO_ERROR then Some (e, w\<lparr>px := bufFree x a b\<rparr>) else ppp_send_free proto a b off (w\<lparr>px := x\<rparr>))"

section \<open>Answers to a Configure-Request\<close>

text \<open>
  The options one after the other; what the parser reports is ignored here. An option that is longer than the rest of the packet
  leads beyond it, one of length zero makes no progress.
\<close>

partial_function (option) conf_options :: "ppp_parser \<Rightarrow> PppContext \<Rightarrow> u8 list \<Rightarrow> PppConfigurePacket \<Rightarrow> (PppContext \<times> PppConfigurePacket) option" where
  "conf_options parse c opts out =
     (if opts = [] then Some (c, out)
      else if length opts < 2 \<or> length opts < opt_length opts then None
      else case parse c opts (Some out) of
             (e, c, None) \<Rightarrow> None
           | (e, c, Some out) \<Rightarrow> conf_options parse c (drop (opt_length opts) opts) out)"

definition option_parser :: "u16 \<Rightarrow> ppp_parser" where
  "option_parser proto =
     (if proto = PPP_PROTOCOL_LCP then lcpParseOption
      else if proto = PPP_PROTOCOL_IPCP then ipcpParseOption
      else (\<lambda>c opt out. (NO_ERROR, c, out)))"

definition pkt_options :: "u8 list \<Rightarrow> u8 list" where
  "pkt_options packet = drop 4 (take (pkt_length packet) packet)"

definition pppSendConfigureAckNak :: "u8 list \<Rightarrow> u16 \<Rightarrow> u8 \<Rightarrow> ppp \<Rightarrow> (error_t \<times> ppp) option" where
  "pppSendConfigureAckNak packet proto code w =
     (if length packet < 4 \<or> pkt_length packet < 4 \<or> pkt_length packet > length packet then None
      else
        case pppAllocBuffer (px w) (pkt_length packet) of
          (None, x) \<Rightarrow> Some (ERROR_OUT_OF_MEMORY, w\<lparr>px := x\<rparr>)
        | (Some (a, b, off), x) \<Rightarrow>
            (case conf_options (option_parser proto) (pctx w) (pkt_options packet)
                    \<lparr>cfgCode = code, cfgIdentifier = packet ! 1, cfgOptions = []\<rparr> of
               None \<Rightarrow> None
             | Some (c, out) \<Rightarrow> ppp_send_bytes proto a b off (cfg_bytes out) (w\<lparr>px := x, pctx := c\<rparr>)))"

section \<open>The other packets\<close>

definition ppp_send_header :: "u8 \<Rightarrow> u8 \<Rightarrow> u16 \<Rightarrow> ppp \<Rightarrow> (error_t \<times> ppp) option" where
  "ppp_send_header code ident proto w =
     (case pppAllocBuffer (px w) 4 of
        (None, x) \<Rightarrow> Some (ERROR_OUT_OF_MEMORY, w\<lparr>px := x\<rparr>)
      | (Some (a, b, off), x) \<Rightarrow> ppp_send_free proto a (netBufferPoke b off (pkt_header code ident 4)) off (w\<lparr>px := x\<rparr>))"

definition pppSendTerminateReq :: "u8 \<Rightarrow> u16 \<Rightarrow> ppp \<Rightarrow> (error_t \<times> ppp) option" where
  "pppSendTerminateReq ident proto w = ppp_send_header PPP_CODE_TERMINATE_REQ ident proto w"

definition pppSendTerminateAck :: "u8 \<Rightarrow> u16 \<Rightarrow> ppp \<Rightarrow> (error_t \<times> ppp) option" where
  "pppSendTerminateAck ident proto w = ppp_send_header PPP_CODE_TERMINATE_ACK ident proto w"

definition pppSendCodeRej :: "u8 list \<Rightarrow> u8 \<Rightarrow> u16 \<Rightarrow> ppp \<Rightarrow> (error_t \<times> ppp) option" where
  "pppSendCodeRej packet ident proto w =
     (let n = min (pkt_length packet + 4) (unat (cfMru (peerConfig (pctx w))))
      in ppp_send_append proto (pkt_header PPP_CODE_CODE_REJ ident n) packet (of_nat n - 4) w)"

definition pppSendProtocolRej :: "u8 \<Rightarrow> u16 \<Rightarrow> u8 list \<Rightarrow> ppp \<Rightarrow> (error_t \<times> ppp) option" where
  "pppSendProtocolRej ident proto information w =
     (let n = min (length information + 6) (unat (cfMru (peerConfig (pctx w))))
      in ppp_send_append PPP_PROTOCOL_LCP (pkt_header PPP_CODE_PROTOCOL_REJ ident n @ be16 proto) information (of_nat n - 6) w)"

text \<open>The magic number is stored in the byte order of the host.\<close>

definition pppSendEchoRep :: "u8 list \<Rightarrow> u16 \<Rightarrow> ppp \<Rightarrow> (error_t \<times> ppp) option" where
  "pppSendEchoRep packet proto w =
     (let n = pkt_length packet
      in if n < 8 then Some (ERROR_INVALID_LENGTH, w)
         else if n > unat (cfMru (peerConfig (pctx w))) then Some (ERROR_INVALID_LENGTH, w)
         else ppp_send_append proto (pkt_header PPP_CODE_ECHO_REP (packet ! 1) n @ rev (be32 (cfMagicNumber (localConfig (pctx w)))))
                (drop 8 packet) (of_nat n - 8) w)"

end
