(* ===== verification/Ppp_Control.thy ===== *)
theory Ppp_Control
  imports Ppp_Packet
begin

text \<open>
  The control protocols of PPP: IPCP (\<open>ppp/ipcp.c\<close>), PAP (\<open>ppp/pap.c\<close>), LCP (\<open>ppp/lcp.c\<close>), and the calls of the user and the
  timer (\<open>ppp/ppp.c\<close>). A function returns \<open>None\<close> when it reads memory beyond a packet or does not return.
\<close>

unbundle bit_operations_syntax

section \<open>What LCP and IPCP have in common\<close>

definition drop_error :: "(error_t \<times> ppp) option \<Rightarrow> ppp option" where
  "drop_error r = map_option snd r"

definition ppp_time :: "ppp \<Rightarrow> systime_t \<times> ppp" where
  "ppp_time w = (let (t, x) = osGetSystemTime (px w) in (t, w\<lparr>px := x\<rparr>))"

text \<open>After a request the restart counter goes down and the timer starts again.\<close>

definition request_sent :: "PppLayer \<Rightarrow> ppp \<Rightarrow> ppp" where
  "request_sent l w =
     (let (t, w) = ppp_time w
      in put_fsm l (\<lambda>f. f\<lparr>fsmRestartCounter := (if fsmRestartCounter f > 0 then fsmRestartCounter f - 1 else 0), fsmTimestamp := t\<rparr>) w)"

definition next_identifier :: "PppLayer \<Rightarrow> ppp \<Rightarrow> ppp" where
  "next_identifier l = put_fsm l (\<lambda>f. f\<lparr>fsmIdentifier := fsmIdentifier f + 1\<rparr>)"

definition init_restart :: "PppLayer \<Rightarrow> u32 \<Rightarrow> ppp \<Rightarrow> ppp option" where
  "init_restart l n w = Some (put_fsm l (\<lambda>f. f\<lparr>fsmRestartCounter := n\<rparr>) w)"

definition zero_restart :: "PppLayer \<Rightarrow> ppp \<Rightarrow> ppp option" where
  "zero_restart l w =
     (let (t, w) = ppp_time (put_fsm l (\<lambda>f. f\<lparr>fsmRestartCounter := 0\<rparr>) w) in Some (put_fsm l (\<lambda>f. f\<lparr>fsmTimestamp := t\<rparr>) w))"

text \<open>A Configure-Request with the options \<open>opts_of c\<close>; \<open>proto\<close> is the protocol of the layer.\<close>

definition send_configure_req :: "PppLayer \<Rightarrow> u16 \<Rightarrow> (PppConfig \<Rightarrow> (u8 \<times> u8 list) list) \<Rightarrow> ppp \<Rightarrow> ppp option" where
  "send_configure_req l proto opts_of w =
     (case pppAllocBuffer (px w) 128 of
        (None, x) \<Rightarrow> Some (w\<lparr>px := x\<rparr>)
      | (Some (a, b, off), x) \<Rightarrow>
          (let w = next_identifier l (w\<lparr>px := x\<rparr>);
               packet = foldl (\<lambda>p (ty, val). snd (pppAddOption p ty val))
                 \<lparr>cfgCode = PPP_CODE_CONFIGURE_REQ, cfgIdentifier = fsmIdentifier (layer_fsm l w), cfgOptions = []\<rparr> (opts_of (localConfig (pctx w)))
           in map_option (\<lambda>(e, w). request_sent l w) (ppp_send_bytes proto a b off (cfg_bytes packet) w)))"

definition send_terminate_req :: "PppLayer \<Rightarrow> u16 \<Rightarrow> ppp \<Rightarrow> ppp option" where
  "send_terminate_req l proto w =
     (let w = next_identifier l w
      in map_option (\<lambda>(e, w). request_sent l w) (pppSendTerminateReq (fsmIdentifier (layer_fsm l w)) proto w))"

definition send_terminate_ack :: "PppLayer \<Rightarrow> u16 \<Rightarrow> u8 list option \<Rightarrow> ppp \<Rightarrow> ppp option" where
  "send_terminate_ack l proto packet w =
     (case packet of
        Some p \<Rightarrow> drop_error (pppSendTerminateAck (p ! 1) proto w)
      | None \<Rightarrow> (let w = next_identifier l w in drop_error (pppSendTerminateAck (fsmIdentifier (layer_fsm l w)) proto w)))"

definition send_code_rej :: "PppLayer \<Rightarrow> u16 \<Rightarrow> u8 list \<Rightarrow> ppp \<Rightarrow> ppp option" where
  "send_code_rej l proto packet w =
     (let w = next_identifier l w in drop_error (pppSendCodeRej packet (fsmIdentifier (layer_fsm l w)) proto w))"

text \<open>The timer of an automaton. The states compared as numbers are those from Closing to Ack-Sent.\<close>

definition fsm_waits :: "PppState \<Rightarrow> bool" where
  "fsm_waits s \<longleftrightarrow> s \<in> {PPP_STATE_4_CLOSING, PPP_STATE_5_STOPPING, PPP_STATE_6_REQ_SENT, PPP_STATE_7_ACK_RCVD, PPP_STATE_8_ACK_SENT}"

definition fsm_tick :: "PppLayer \<Rightarrow> PppCallbacks \<Rightarrow> ppp \<Rightarrow> ppp option" where
  "fsm_tick l cb w =
     (if fsm_waits (fsmState (layer_fsm l w)) then
        let (t, w) = ppp_time w
        in if t - fsmTimestamp (layer_fsm l w) \<ge> 3000 then pppTimeoutEvent l cb w else Some w
      else Some w)"

text \<open>The options of a Configure-Request, with the two flags for what is not recognized and what is not acceptable.\<close>

partial_function (option) check_options :: "ppp_parser \<Rightarrow> PppContext \<Rightarrow> u8 list \<Rightarrow> bool \<Rightarrow> bool \<Rightarrow> (error_t \<times> bool \<times> bool \<times> PppContext) option" where
  "check_options parse c opts nr na =
     (if opts = [] then Some (NO_ERROR, nr, na, c)
      else
        case parse c opts None of
          (e, c, out) \<Rightarrow>
            if e = ERROR_INVALID_TYPE then check_options parse c (drop (opt_length opts) opts) True na
            else if e = ERROR_INVALID_VALUE then check_options parse c (drop (opt_length opts) opts) nr True
            else if e \<noteq> NO_ERROR then Some (e, nr, na, c)
            else check_options parse c (drop (opt_length opts) opts) nr na)"

definition process_configure_req :: "PppLayer \<Rightarrow> PppCallbacks \<Rightarrow> ppp_parser \<Rightarrow> u8 list \<Rightarrow> ppp \<Rightarrow> (error_t \<times> ppp) option" where
  "process_configure_req l cb parse packet w =
     (case check_options parse (pctx w) (pkt_options packet) False False of
        None \<Rightarrow> None
      | Some (e, nr, na, c) \<Rightarrow>
          if e \<noteq> NO_ERROR then Some (e, w\<lparr>pctx := c\<rparr>)
          else map_option (Pair NO_ERROR) (pppRcvConfigureReqEvent l cb packet
                 (if nr then PPP_CODE_CONFIGURE_REJ else if na then PPP_CODE_CONFIGURE_NAK else PPP_CODE_CONFIGURE_ACK) (w\<lparr>pctx := c\<rparr>)))"

text \<open>
  The options of a Nak or a Reject: \<open>f\<close> is what the loop does with one of them, a result other than \<open>NO_ERROR\<close> ends it. An option
  is at least two bytes long, so that the loop ends. One byte left over is
  rejected whatever lies behind it.
\<close>

function each_option :: "(u8 list \<Rightarrow> ppp \<Rightarrow> (error_t \<times> ppp) option) \<Rightarrow> u8 list \<Rightarrow> ppp \<Rightarrow> (error_t \<times> ppp) option" where
  "each_option f opts w =
     (if opts = [] then Some (NO_ERROR, w)
      else if length opts < 2 \<or> opt_length opts < 2 then Some (ERROR_INVALID_LENGTH, w)
      else if opt_length opts > length opts then Some (ERROR_INVALID_LENGTH, w)
      else case f opts w of
             None \<Rightarrow> None
           | Some (e, w) \<Rightarrow> if e \<noteq> NO_ERROR then Some (e, w) else each_option f (drop (opt_length opts) opts) w)"
  by pat_completeness auto

termination
  by (relation "measure (\<lambda>(f, opts, w). length opts)") auto

declare each_option.simps [simp del]

text \<open>The functions on received packets return an error code nobody looks at. \<open>ident\<close> is the identifier that has to match.\<close>

definition with_identifier :: "PppLayer \<Rightarrow> u8 list \<Rightarrow> (ppp \<Rightarrow> (error_t \<times> ppp) option) \<Rightarrow> ppp \<Rightarrow> (error_t \<times> ppp) option" where
  "with_identifier l packet f w = (if packet ! 1 \<noteq> fsmIdentifier (layer_fsm l w) then Some (ERROR_WRONG_IDENTIFIER, w) else f w)"

definition no_error :: "ppp option \<Rightarrow> (error_t \<times> ppp) option" where
  "no_error r = map_option (Pair NO_ERROR) r"

definition and_then :: "(error_t \<times> ppp) option \<Rightarrow> (ppp \<Rightarrow> (error_t \<times> ppp) option) \<Rightarrow> (error_t \<times> ppp) option" where
  "and_then r f = (case r of None \<Rightarrow> None | Some (e, w) \<Rightarrow> if e \<noteq> NO_ERROR then Some (e, w) else f w)"

definition process_code_rej :: "PppLayer \<Rightarrow> PppCallbacks \<Rightarrow> u8 \<Rightarrow> u8 list \<Rightarrow> ppp \<Rightarrow> (error_t \<times> ppp) option" where
  "process_code_rej l cb last_code packet w =
     (if pkt_length packet - 4 < 4 then Some (ERROR_INVALID_LENGTH, w)
      else if packet ! 4 < PPP_CODE_CONFIGURE_REQ \<or> packet ! 4 > last_code then no_error (pppRcvCodeRejEvent l cb True w)
      else no_error (pppRcvCodeRejEvent l cb False w))"

text \<open>The checks of the length at the start of every \<open>ProcessPacket\<close>.\<close>

definition packet_ok :: "u8 list \<Rightarrow> bool" where
  "packet_ok packet \<longleftrightarrow> length packet \<ge> 4 \<and> pkt_length packet \<le> length packet \<and> pkt_length packet \<ge> 4"

section \<open>IPCP\<close>

text \<open>The address negotiated becomes the one of the interface. Of the list of DNS servers the first two are set.\<close>

definition ipcpThisLayerUp :: "ppp \<Rightarrow> ppp option" where
  "ipcpThisLayerUp w =
     (let lc = localConfig (pctx w); pc = peerConfig (pctx w); ic = ipv4Context (pppIf w);
          e = (addrList ic ! 0)\<lparr>aeAddr := cfIpAddr lc, aeState := IPV4_ADDR_STATE_VALID, defaultGateway := cfIpAddr pc,
                subnetMask := IPV4_ADDR 255 255 255 255\<rparr>;
          ic = ic\<lparr>addrList := (addrList ic)[0 := e], dnsServerList := (dnsServerList ic)[0 := cfPrimaryDns lc, 1 := cfSecondaryDns lc]\<rparr>
      in Some (w\<lparr>pppIf := (pppIf w)\<lparr>ipv4Context := ic\<rparr>, pppLinkState := True, linkChanges := linkChanges w @ [True]\<rparr>))"

definition ipcpThisLayerDown :: "ppp \<Rightarrow> ppp option" where
  "ipcpThisLayerDown w = Some (w\<lparr>pppLinkState := False, linkChanges := linkChanges w @ [False]\<rparr>)"

definition ipcp_options :: "PppConfig \<Rightarrow> (u8 \<times> u8 list) list" where
  "ipcp_options p =
     (if cfIpAddrRejected p then [] else [(IPCP_OPTION_IP_ADDRESS, ip_bytes (cfIpAddr p))]) @
     (if cfPrimaryDnsRejected p then [] else [(IPCP_OPTION_PRIMARY_DNS, ip_bytes (cfPrimaryDns p))]) @
     (if cfSecondaryDnsRejected p then [] else [(IPCP_OPTION_SECONDARY_DNS, ip_bytes (cfSecondaryDns p))])"

definition ipcpSendConfigureReq :: "ppp \<Rightarrow> ppp option" where
  "ipcpSendConfigureReq = send_configure_req IPCP PPP_PROTOCOL_IPCP ipcp_options"

definition ipcpCallbacks :: PppCallbacks where
  "ipcpCallbacks = \<lparr>thisLayerUp = ipcpThisLayerUp, thisLayerDown = ipcpThisLayerDown, thisLayerStarted = Some, thisLayerFinished = Some,
     initRestartCount = init_restart IPCP, zeroRestartCount = zero_restart IPCP, sendConfigureReq = ipcpSendConfigureReq,
     sendConfigureAck = (\<lambda>p w. drop_error (pppSendConfigureAckNak p PPP_PROTOCOL_IPCP PPP_CODE_CONFIGURE_ACK w)),
     sendConfigureNak = (\<lambda>p w. drop_error (pppSendConfigureAckNak p PPP_PROTOCOL_IPCP PPP_CODE_CONFIGURE_NAK w)),
     sendConfigureRej = (\<lambda>p w. drop_error (pppSendConfigureAckNak p PPP_PROTOCOL_IPCP PPP_CODE_CONFIGURE_REJ w)),
     sendTerminateReq = send_terminate_req IPCP PPP_PROTOCOL_IPCP, sendTerminateAck = send_terminate_ack IPCP PPP_PROTOCOL_IPCP,
     sendCodeRej = send_code_rej IPCP PPP_PROTOCOL_IPCP, sendEchoRep = (\<lambda>p w. None)\<rparr>"

definition ipcpOpen :: "ppp \<Rightarrow> ppp option" where
  "ipcpOpen = run_all [pppOpenEvent IPCP ipcpCallbacks, pppUpEvent IPCP ipcpCallbacks]"

definition ipcpClose :: "ppp \<Rightarrow> ppp option" where
  "ipcpClose = run_all [pppDownEvent IPCP ipcpCallbacks, pppCloseEvent IPCP ipcpCallbacks]"

definition ipcpTick :: "ppp \<Rightarrow> ppp option" where
  "ipcpTick = fsm_tick IPCP ipcpCallbacks"

definition put_local :: "(PppConfig \<Rightarrow> PppConfig) \<Rightarrow> ppp \<Rightarrow> ppp" where
  "put_local f = put_ppp (\<lambda>c. c\<lparr>localConfig := f (localConfig c)\<rparr>)"

definition ipcp_nak_option :: "u8 list \<Rightarrow> ppp \<Rightarrow> (error_t \<times> ppp) option" where
  "ipcp_nak_option opt w =
     Some (if opt ! 0 = IPCP_OPTION_IP_ADDRESS then
             if opt_length opt \<noteq> 6 then (ERROR_INVALID_LENGTH, w) else (NO_ERROR, put_local (\<lambda>p. p\<lparr>cfIpAddr := opt_addr opt\<rparr>) w)
           else if opt ! 0 = IPCP_OPTION_PRIMARY_DNS then
             if opt_length opt \<noteq> 6 then (ERROR_INVALID_LENGTH, w) else (NO_ERROR, put_local (\<lambda>p. p\<lparr>cfPrimaryDns := opt_addr opt\<rparr>) w)
           else if opt ! 0 = IPCP_OPTION_SECONDARY_DNS then
             if opt_length opt \<noteq> 6 then (ERROR_INVALID_LENGTH, w) else (NO_ERROR, put_local (\<lambda>p. p\<lparr>cfSecondaryDns := opt_addr opt\<rparr>) w)
           else (NO_ERROR, w))"

definition ipcp_reject_option :: "u8 list \<Rightarrow> ppp \<Rightarrow> (error_t \<times> ppp) option" where
  "ipcp_reject_option opt w =
     Some (NO_ERROR,
       if opt ! 0 = IPCP_OPTION_IP_ADDRESS then put_local (\<lambda>p. p\<lparr>cfIpAddrRejected := True\<rparr>) w
       else if opt ! 0 = IPCP_OPTION_PRIMARY_DNS then put_local (\<lambda>p. p\<lparr>cfPrimaryDnsRejected := True\<rparr>) w
       else if opt ! 0 = IPCP_OPTION_SECONDARY_DNS then put_local (\<lambda>p. p\<lparr>cfSecondaryDnsRejected := True\<rparr>) w
       else w)"

definition ipcpProcessConfigureReq :: "u8 list \<Rightarrow> ppp \<Rightarrow> (error_t \<times> ppp) option" where
  "ipcpProcessConfigureReq = process_configure_req IPCP ipcpCallbacks ipcpParseOption"

definition ipcpProcessConfigureAck :: "u8 list \<Rightarrow> ppp \<Rightarrow> (error_t \<times> ppp) option" where
  "ipcpProcessConfigureAck packet = with_identifier IPCP packet (\<lambda>w. no_error (pppRcvConfigureAckEvent IPCP ipcpCallbacks w))"

definition ipcpProcessConfigureNak :: "u8 list \<Rightarrow> ppp \<Rightarrow> (error_t \<times> ppp) option" where
  "ipcpProcessConfigureNak packet = with_identifier IPCP packet
     (\<lambda>w. and_then (each_option ipcp_nak_option (pkt_options packet) w) (\<lambda>w. no_error (pppRcvConfigureNakEvent IPCP ipcpCallbacks w)))"

definition ipcpProcessConfigureReject :: "u8 list \<Rightarrow> ppp \<Rightarrow> (error_t \<times> ppp) option" where
  "ipcpProcessConfigureReject packet = with_identifier IPCP packet
     (\<lambda>w. and_then (each_option ipcp_reject_option (pkt_options packet) w) (\<lambda>w. no_error (pppRcvConfigureNakEvent IPCP ipcpCallbacks w)))"

definition ipcpProcessPacket :: "u8 list \<Rightarrow> ppp \<Rightarrow> ppp option" where
  "ipcpProcessPacket data w =
     (if \<not> packet_ok data then Some w
      else
        let packet = take (pkt_length data) data; code = packet ! 0
        in if code = PPP_CODE_CONFIGURE_REQ then drop_error (ipcpProcessConfigureReq packet w)
           else if code = PPP_CODE_CONFIGURE_ACK then drop_error (ipcpProcessConfigureAck packet w)
           else if code = PPP_CODE_CONFIGURE_NAK then drop_error (ipcpProcessConfigureNak packet w)
           else if code = PPP_CODE_CONFIGURE_REJ then drop_error (ipcpProcessConfigureReject packet w)
           else if code = PPP_CODE_TERMINATE_REQ then pppRcvTerminateReqEvent IPCP ipcpCallbacks packet w
           else if code = PPP_CODE_TERMINATE_ACK then pppRcvTerminateAckEvent IPCP ipcpCallbacks w
           else if code = PPP_CODE_CODE_REJ then drop_error (process_code_rej IPCP ipcpCallbacks PPP_CODE_CODE_REJ packet w)
           else pppRcvUnknownCodeEvent IPCP ipcpCallbacks packet w)"

section \<open>PAP: sending\<close>

abbreviation (input) PAP_CODE_AUTH_REQ :: u8 where "PAP_CODE_AUTH_REQ \<equiv> 1"
abbreviation (input) PAP_CODE_AUTH_ACK :: u8 where "PAP_CODE_AUTH_ACK \<equiv> 2"
abbreviation (input) PAP_CODE_AUTH_NAK :: u8 where "PAP_CODE_AUTH_NAK \<equiv> 3"
abbreviation (input) PAP_MAX_REQUESTS :: u32 where "PAP_MAX_REQUESTS \<equiv> 5"
abbreviation (input) PPP_MAX_USERNAME_LEN :: nat where "PPP_MAX_USERNAME_LEN \<equiv> 31"

definition put_pap :: "(PapFsm \<Rightarrow> PapFsm) \<Rightarrow> ppp \<Rightarrow> ppp" where
  "put_pap f = put_ppp (\<lambda>c. c\<lparr>papFsm := f (papFsm c)\<rparr>)"

definition papSendAuthReq :: "ppp \<Rightarrow> ppp option" where
  "papSendAuthReq w =
     (let user = pppUsername (pctx w); pass = pppPassword (pctx w); n = 6 + length user + length pass
      in case pppAllocBuffer (px w) n of
           (None, x) \<Rightarrow> Some (w\<lparr>px := x\<rparr>)
         | (Some (a, b, off), x) \<Rightarrow>
             (let w = put_pap (\<lambda>f. f\<lparr>papIdentifier := papIdentifier f + 1\<rparr>) (w\<lparr>px := x\<rparr>);
                  packet = pkt_header PAP_CODE_AUTH_REQ (papIdentifier (papFsm (pctx w))) n @
                    [of_nat (length user)] @ user @ [of_nat (length pass)] @ pass
              in map_option (\<lambda>(e, w). let (t, w) = ppp_time w
                     in put_pap (\<lambda>f. f\<lparr>papRestartCounter := (if papRestartCounter f > 0 then papRestartCounter f - 1 else 0),
                          papTimestamp := t\<rparr>) w)
                   (ppp_send_bytes PPP_PROTOCOL_PAP a b off packet w)))"

definition pap_send_answer :: "u8 \<Rightarrow> u8 \<Rightarrow> ppp \<Rightarrow> ppp option" where
  "pap_send_answer code ident w =
     (case pppAllocBuffer (px w) 5 of
        (None, x) \<Rightarrow> Some (w\<lparr>px := x\<rparr>)
      | (Some (a, b, off), x) \<Rightarrow>
          drop_error (ppp_send_free PPP_PROTOCOL_PAP a (netBufferPoke b off (pkt_header code ident 5 @ [0])) off (w\<lparr>px := x\<rparr>)))"

definition papSendAuthAck :: "u8 \<Rightarrow> ppp \<Rightarrow> ppp option" where
  "papSendAuthAck = pap_send_answer PAP_CODE_AUTH_ACK"

definition papSendAuthNak :: "u8 \<Rightarrow> ppp \<Rightarrow> ppp option" where
  "papSendAuthNak = pap_send_answer PAP_CODE_AUTH_NAK"

definition papStartAuth :: "ppp \<Rightarrow> ppp option" where
  "papStartAuth w =
     (let w = (if cfAuthProtocol (localConfig (pctx w)) = PPP_PROTOCOL_PAP then put_pap (\<lambda>f. f\<lparr>papLocalState := PAP_STATE_1_STARTED\<rparr>) w else w)
      in if cfAuthProtocol (peerConfig (pctx w)) = PPP_PROTOCOL_PAP
         then map_option (put_pap (\<lambda>f. f\<lparr>papPeerState := PAP_STATE_2_REQ_SENT\<rparr>))
                (papSendAuthReq (put_pap (\<lambda>f. f\<lparr>papRestartCounter := PAP_MAX_REQUESTS\<rparr>) w))
         else Some w)"

definition papAbortAuth :: "ppp \<Rightarrow> ppp option" where
  "papAbortAuth w = Some (put_pap (\<lambda>f. f\<lparr>papLocalState := PAP_STATE_0_INITIAL, papPeerState := PAP_STATE_0_INITIAL\<rparr>) w)"

section \<open>LCP\<close>

definition put_phase :: "PppPhase \<Rightarrow> ppp \<Rightarrow> ppp" where
  "put_phase ph = put_ppp (\<lambda>c. c\<lparr>pppPhase := ph\<rparr>)"

definition lcpThisLayerUp :: "ppp \<Rightarrow> ppp option" where
  "lcpThisLayerUp w =
     (let lp = cfAuthProtocol (localConfig (pctx w)); pp = cfAuthProtocol (peerConfig (pctx w));
          w = put_ppp (\<lambda>c. c\<lparr>localAuthDone := (lp = 0), peerAuthDone := (pp = 0)\<rparr>) w
      in Option.bind (if lp = PPP_PROTOCOL_PAP \<or> pp = PPP_PROTOCOL_PAP then papStartAuth (put_phase PPP_PHASE_AUTHENTICATE w) else Some w)
           (\<lambda>w. if localAuthDone (pctx w) \<and> peerAuthDone (pctx w) then ipcpOpen (put_phase PPP_PHASE_NETWORK w) else Some w))"

definition lcpThisLayerDown :: "ppp \<Rightarrow> ppp option" where
  "lcpThisLayerDown w = run_all [ipcpClose, papAbortAuth] (put_phase PPP_PHASE_TERMINATE w)"

definition lcp_options :: "PppConfig \<Rightarrow> (u8 \<times> u8 list) list" where
  "lcp_options p =
     (if cfMruRejected p then [] else [(LCP_OPTION_MRU, be16 (cfMru p))]) @
     (if cfAccmRejected p then [] else [(LCP_OPTION_ACCM, be32 (cfAccm p))]) @
     (if cfAuthProtocolRejected p then []
      else if cfAuthProtocol p = PPP_PROTOCOL_PAP then [(LCP_OPTION_AUTH_PROTOCOL, be16 PPP_PROTOCOL_PAP)]
      else if cfAuthProtocol p = PPP_PROTOCOL_CHAP then [(LCP_OPTION_AUTH_PROTOCOL, be16 PPP_PROTOCOL_CHAP @ [cfAuthAlgo p])]
      else []) @
     (if \<not> cfPfcRejected p \<and> cfPfc p then [(LCP_OPTION_PFC, [])] else []) @
     (if \<not> cfAcfcRejected p \<and> cfAcfc p then [(LCP_OPTION_ACFC, [])] else [])"

definition lcpSendConfigureReq :: "ppp \<Rightarrow> ppp option" where
  "lcpSendConfigureReq = send_configure_req LCP PPP_PROTOCOL_LCP lcp_options"

text \<open>
  The callback for This-Layer-Finished works on the automaton with the same callbacks. It is called in the states Initial, Closed
  and Stopped, where the events it raises do not call it again: \<open>finished\<close> is that inner call.
\<close>

definition lcp_callbacks :: "(ppp \<Rightarrow> ppp option) \<Rightarrow> PppCallbacks" where
  "lcp_callbacks finished = \<lparr>thisLayerUp = lcpThisLayerUp, thisLayerDown = lcpThisLayerDown, thisLayerStarted = Some, thisLayerFinished = finished,
     initRestartCount = init_restart LCP, zeroRestartCount = zero_restart LCP, sendConfigureReq = lcpSendConfigureReq,
     sendConfigureAck = (\<lambda>p w. drop_error (pppSendConfigureAckNak p PPP_PROTOCOL_LCP PPP_CODE_CONFIGURE_ACK w)),
     sendConfigureNak = (\<lambda>p w. drop_error (pppSendConfigureAckNak p PPP_PROTOCOL_LCP PPP_CODE_CONFIGURE_NAK w)),
     sendConfigureRej = (\<lambda>p w. drop_error (pppSendConfigureAckNak p PPP_PROTOCOL_LCP PPP_CODE_CONFIGURE_REJ w)),
     sendTerminateReq = send_terminate_req LCP PPP_PROTOCOL_LCP, sendTerminateAck = send_terminate_ack LCP PPP_PROTOCOL_LCP,
     sendCodeRej = send_code_rej LCP PPP_PROTOCOL_LCP, sendEchoRep = (\<lambda>p w. drop_error (pppSendEchoRep p PPP_PROTOCOL_LCP w))\<rparr>"

definition lcpThisLayerFinished :: "ppp \<Rightarrow> ppp option" where
  "lcpThisLayerFinished =
     (let cb = lcp_callbacks (\<lambda>w. None) in run_all [pppCloseEvent LCP cb, pppDownEvent LCP cb, \<lambda>w. Some (put_phase PPP_PHASE_DEAD w)])"

definition lcpCallbacks :: PppCallbacks where
  "lcpCallbacks = lcp_callbacks lcpThisLayerFinished"

definition lcpOpen :: "ppp \<Rightarrow> ppp option" where
  "lcpOpen w = run_all [pppOpenEvent LCP lcpCallbacks, pppUpEvent LCP lcpCallbacks] (put_phase PPP_PHASE_ESTABLISH w)"

definition lcpClose :: "ppp \<Rightarrow> ppp option" where
  "lcpClose = pppCloseEvent LCP lcpCallbacks"

definition lcpTick :: "ppp \<Rightarrow> ppp option" where
  "lcpTick = fsm_tick LCP lcpCallbacks"

definition lcp_nak_option :: "u8 list \<Rightarrow> ppp \<Rightarrow> (error_t \<times> ppp) option" where
  "lcp_nak_option opt w =
     Some (if opt ! 0 = LCP_OPTION_MRU then
             if opt_length opt \<noteq> 4 then (ERROR_INVALID_LENGTH, w)
             else (NO_ERROR, put_local (\<lambda>p. p\<lparr>cfMru := min (max (of_be16 (opt ! 2) (opt ! 3)) PPP_MIN_MRU) PPP_MAX_MRU\<rparr>) w)
           else if opt ! 0 = LCP_OPTION_ACCM then
             if opt_length opt \<noteq> 6 then (ERROR_INVALID_LENGTH, w) else (NO_ERROR, put_local (\<lambda>p. p\<lparr>cfAccm := opt_word opt\<rparr>) w)
           else if opt ! 0 = LCP_OPTION_AUTH_PROTOCOL then
             if opt_length opt < 4 then (ERROR_INVALID_LENGTH, w)
             else (NO_ERROR,
               if of_be16 (opt ! 2) (opt ! 3) = PPP_PROTOCOL_PAP \<and> setAuthProtocol (pppSettings (pctx w)) AND PPP_AUTH_PROTOCOL_PAP \<noteq> 0
               then put_local (\<lambda>p. p\<lparr>cfAuthProtocol := PPP_PROTOCOL_PAP\<rparr>) w else w)
           else (NO_ERROR, w))"

definition lcp_reject_option :: "u8 list \<Rightarrow> ppp \<Rightarrow> (error_t \<times> ppp) option" where
  "lcp_reject_option opt w =
     (if opt ! 0 = LCP_OPTION_MRU then Some (NO_ERROR, put_local (\<lambda>p. p\<lparr>cfMruRejected := True, cfMru := PPP_DEFAULT_MRU\<rparr>) w)
      else if opt ! 0 = LCP_OPTION_ACCM then Some (NO_ERROR, put_local (\<lambda>p. p\<lparr>cfAccmRejected := True, cfAccm := PPP_DEFAULT_ACCM\<rparr>) w)
      else if opt ! 0 = LCP_OPTION_AUTH_PROTOCOL then map_option (Pair ERROR_FAILURE) (pppRcvCodeRejEvent LCP lcpCallbacks False w)
      else if opt ! 0 = LCP_OPTION_MAGIC_NUMBER
        then Some (NO_ERROR, put_local (\<lambda>p. p\<lparr>cfMagicNumberRejected := True, cfMagicNumber := 0\<rparr>) w)
      else if opt ! 0 = LCP_OPTION_PFC then Some (NO_ERROR, put_local (\<lambda>p. p\<lparr>cfPfcRejected := True, cfPfc := False\<rparr>) w)
      else if opt ! 0 = LCP_OPTION_ACFC then Some (NO_ERROR, put_local (\<lambda>p. p\<lparr>cfAcfcRejected := True, cfAcfc := False\<rparr>) w)
      else Some (NO_ERROR, w))"

definition lcpProcessConfigureReq :: "u8 list \<Rightarrow> ppp \<Rightarrow> (error_t \<times> ppp) option" where
  "lcpProcessConfigureReq = process_configure_req LCP lcpCallbacks lcpParseOption"

definition lcpProcessConfigureAck :: "u8 list \<Rightarrow> ppp \<Rightarrow> (error_t \<times> ppp) option" where
  "lcpProcessConfigureAck packet = with_identifier LCP packet (\<lambda>w. no_error (pppRcvConfigureAckEvent LCP lcpCallbacks w))"

definition lcpProcessConfigureNak :: "u8 list \<Rightarrow> ppp \<Rightarrow> (error_t \<times> ppp) option" where
  "lcpProcessConfigureNak packet = with_identifier LCP packet
     (\<lambda>w. and_then (each_option lcp_nak_option (pkt_options packet) w) (\<lambda>w. no_error (pppRcvConfigureNakEvent LCP lcpCallbacks w)))"

definition lcpProcessConfigureReject :: "u8 list \<Rightarrow> ppp \<Rightarrow> (error_t \<times> ppp) option" where
  "lcpProcessConfigureReject packet = with_identifier LCP packet
     (\<lambda>w. and_then (each_option lcp_reject_option (pkt_options packet) w) (\<lambda>w. no_error (pppRcvConfigureNakEvent LCP lcpCallbacks w)))"

definition lcpProcessProtocolRej :: "u8 list \<Rightarrow> ppp \<Rightarrow> (error_t \<times> ppp) option" where
  "lcpProcessProtocolRej packet w =
     (if pkt_length packet < 6 then Some (ERROR_INVALID_LENGTH, w)
      else
        let proto = of_be16 (packet ! 4) (packet ! 5)
        in if proto = PPP_PROTOCOL_LCP then no_error (pppRcvCodeRejEvent LCP lcpCallbacks False w)
           else if proto = PPP_PROTOCOL_IP \<or> proto = PPP_PROTOCOL_IPCP
             then no_error (pppRcvCodeRejEvent LCP lcpCallbacks True (put_ppp (\<lambda>c. c\<lparr>ipRejected := True\<rparr>) w))
           else if proto = PPP_PROTOCOL_IPV6 \<or> proto = PPP_PROTOCOL_IPV6CP
             then no_error (pppRcvCodeRejEvent LCP lcpCallbacks True (put_ppp (\<lambda>c. c\<lparr>ipv6Rejected := True\<rparr>) w))
           else Some (NO_ERROR, w))"

definition lcpProcessPacket :: "u8 list \<Rightarrow> ppp \<Rightarrow> ppp option" where
  "lcpProcessPacket data w =
     (if \<not> packet_ok data then Some w
      else
        let packet = take (pkt_length data) data; code = packet ! 0
        in if code = PPP_CODE_CONFIGURE_REQ then drop_error (lcpProcessConfigureReq packet w)
           else if code = PPP_CODE_CONFIGURE_ACK then drop_error (lcpProcessConfigureAck packet w)
           else if code = PPP_CODE_CONFIGURE_NAK then drop_error (lcpProcessConfigureNak packet w)
           else if code = PPP_CODE_CONFIGURE_REJ then drop_error (lcpProcessConfigureReject packet w)
           else if code = PPP_CODE_TERMINATE_REQ then pppRcvTerminateReqEvent LCP lcpCallbacks packet w
           else if code = PPP_CODE_TERMINATE_ACK then pppRcvTerminateAckEvent LCP lcpCallbacks w
           else if code = PPP_CODE_CODE_REJ then drop_error (process_code_rej LCP lcpCallbacks PPP_CODE_DISCARD_REQ packet w)
           else if code = PPP_CODE_PROTOCOL_REJ then drop_error (lcpProcessProtocolRej packet w)
           else if code = PPP_CODE_ECHO_REQ then pppRcvEchoReqEvent LCP lcpCallbacks packet w
           else if code = PPP_CODE_ECHO_REP \<or> code = PPP_CODE_DISCARD_REQ then Some w
           else pppRcvUnknownCodeEvent LCP lcpCallbacks packet w)"

definition lcpProcessUnknownProtocol :: "u16 \<Rightarrow> u8 list \<Rightarrow> ppp \<Rightarrow> ppp option" where
  "lcpProcessUnknownProtocol proto information w =
     (if fsmState (layer_fsm LCP w) = PPP_STATE_9_OPENED then
        let w = next_identifier LCP w
        in drop_error (pppSendProtocolRej (fsmIdentifier (layer_fsm LCP w)) proto information w)
      else Some w)"

end
