(* ===== verification/Ppp_Session.thy ===== *)
theory Ppp_Session
  imports Ppp_Control
begin

text \<open>
  A PPP session: the receiving side of PAP (\<open>ppp/pap.c\<close>), initialization, the timer and the calls of the user (\<open>ppp/ppp.c\<close>), and
  the handlers of the protocols put together.
\<close>

unbundle bit_operations_syntax

section \<open>PAP: receiving\<close>

definition papTick :: "ppp \<Rightarrow> ppp option" where
  "papTick w =
     (if papPeerState (papFsm (pctx w)) = PAP_STATE_2_REQ_SENT then
        let (t, w) = ppp_time w
        in if t - papTimestamp (papFsm (pctx w)) \<ge> 3000 then
             if papRestartCounter (papFsm (pctx w)) > 0 then papSendAuthReq w
             else lcpClose (put_pap (\<lambda>f. f\<lparr>papPeerState := PAP_STATE_0_INITIAL\<rparr>) w)
           else Some w
      else Some w)"

text \<open>When both sides are authenticated the network layer can start.\<close>

definition auth_done :: "ppp \<Rightarrow> ppp option" where
  "auth_done w =
     (if localAuthDone (pctx w) \<and> peerAuthDone (pctx w) \<and> pppPhase (pctx w) = PPP_PHASE_AUTHENTICATE
      then ipcpOpen (put_phase PPP_PHASE_NETWORK w) else Some w)"

text \<open>
  \<open>auth\<close> is the callback of the user, which sees the context with the name and the password of the peer. A name that is too long is
  cut off, and the password is looked for right behind the part that is kept.
\<close>

definition papProcessAuthReq :: "(PppContext \<Rightarrow> bool) \<Rightarrow> u8 list \<Rightarrow> ppp \<Rightarrow> (error_t \<times> ppp) option" where
  "papProcessAuthReq auth packet w =
     (if cfAuthProtocol (localConfig (pctx w)) \<noteq> PPP_PROTOCOL_PAP then Some (ERROR_FAILURE, w)
      else if length packet < 5 then Some (ERROR_INVALID_LENGTH, w)
      else if length packet < 6 + unat (packet ! 4) then Some (ERROR_INVALID_LENGTH, w)
      else
        let n = min (unat (packet ! 4)) PPP_MAX_USERNAME_LEN;
            w = put_ppp (\<lambda>c. c\<lparr>peerName := take n (drop 5 packet)\<rparr>) w;
            w = put_pap (\<lambda>f. f\<lparr>papPasswordLen := unat (packet ! (5 + n)), papPassword := drop (6 + n) packet\<rparr>) w
        in if length packet < 6 + n + papPasswordLen (papFsm (pctx w)) then Some (ERROR_INVALID_LENGTH, w)
           else if setAuthCallback (pppSettings (pctx w)) \<and> auth (pctx w) then
             no_error (run_all [papSendAuthAck (packet ! 1),
               \<lambda>w. Some (put_ppp (\<lambda>c. c\<lparr>localAuthDone := True\<rparr>) (put_pap (\<lambda>f. f\<lparr>papLocalState := PAP_STATE_4_ACK_SENT\<rparr>) w)), auth_done] w)
           else
             no_error (run_all [papSendAuthNak (packet ! 1),
               \<lambda>w. Some (put_pap (\<lambda>f. f\<lparr>papLocalState := PAP_STATE_6_NAK_SENT\<rparr>) w), lcpClose] w))"

definition papProcessAuthAck :: "u8 list \<Rightarrow> ppp \<Rightarrow> (error_t \<times> ppp) option" where
  "papProcessAuthAck packet w =
     (if cfAuthProtocol (peerConfig (pctx w)) \<noteq> PPP_PROTOCOL_PAP then Some (ERROR_FAILURE, w)
      else if length packet < 5 then Some (ERROR_INVALID_LENGTH, w)
      else if packet ! 1 \<noteq> papIdentifier (papFsm (pctx w)) then Some (ERROR_WRONG_IDENTIFIER, w)
      else no_error (auth_done (put_ppp (\<lambda>c. c\<lparr>peerAuthDone := True\<rparr>) (put_pap (\<lambda>f. f\<lparr>papPeerState := PAP_STATE_5_ACK_RCVD\<rparr>) w))))"

definition papProcessAuthNak :: "u8 list \<Rightarrow> ppp \<Rightarrow> (error_t \<times> ppp) option" where
  "papProcessAuthNak packet w =
     (if cfAuthProtocol (peerConfig (pctx w)) \<noteq> PPP_PROTOCOL_PAP then Some (ERROR_FAILURE, w)
      else if length packet < 5 then Some (ERROR_INVALID_LENGTH, w)
      else if packet ! 1 \<noteq> papIdentifier (papFsm (pctx w)) then Some (ERROR_WRONG_IDENTIFIER, w)
      else no_error (lcpClose (put_pap (\<lambda>f. f\<lparr>papPeerState := PAP_STATE_7_NAK_RCVD\<rparr>) w)))"

definition papProcessPacket :: "(PppContext \<Rightarrow> bool) \<Rightarrow> u8 list \<Rightarrow> ppp \<Rightarrow> ppp option" where
  "papProcessPacket auth data w =
     (if \<not> packet_ok data then Some w
      else if pppPhase (pctx w) \<noteq> PPP_PHASE_AUTHENTICATE \<and> pppPhase (pctx w) \<noteq> PPP_PHASE_NETWORK then Some w
      else
        let packet = take (pkt_length data) data; code = packet ! 0
        in if code = PAP_CODE_AUTH_REQ then drop_error (papProcessAuthReq auth packet w)
           else if code = PAP_CODE_AUTH_ACK then drop_error (papProcessAuthAck packet w)
           else if code = PAP_CODE_AUTH_NAK then drop_error (papProcessAuthNak packet w)
           else Some w)"

text \<open>The callback of the user checks the password with this function.\<close>

definition papCheckPassword :: "PppContext \<Rightarrow> u8 list \<Rightarrow> bool" where
  "papCheckPassword c password \<longleftrightarrow>
     length password = papPasswordLen (papFsm c) \<and> password = take (length password) (papPassword (papFsm c))"

definition pppCheckPassword :: "PppContext \<Rightarrow> u8 list \<Rightarrow> bool" where
  "pppCheckPassword c password \<longleftrightarrow> cfAuthProtocol (localConfig c) = PPP_PROTOCOL_PAP \<and> papCheckPassword c password"

section \<open>The protocols together\<close>

text \<open>\<open>ip\<close> is \<open>ipv4ProcessPacket\<close>.\<close>

definition ppp_protocols :: "(PppContext \<Rightarrow> bool) \<Rightarrow> (u8 list \<Rightarrow> ppp \<Rightarrow> ppp option) \<Rightarrow> ppp_handlers" where
  "ppp_protocols auth ip = \<lparr>hdLcp = lcpProcessPacket, hdIpcp = ipcpProcessPacket, hdIp = ip, hdPap = papProcessPacket auth,
     hdUnknown = lcpProcessUnknownProtocol\<rparr>"

definition pppTick :: "ppp \<Rightarrow> ppp option" where
  "pppTick w =
     (case nicDriver (pppIf w) of
        None \<Rightarrow> None
      | Some d \<Rightarrow> if nicType d = NIC_TYPE_PPP then run_all [lcpTick, ipcpTick, papTick] w else Some w)"

section \<open>Calls of the user\<close>

definition pppGetDefaultSettings :: PppSettings where
  "pppGetDefaultSettings = \<lparr>setMru = PPP_DEFAULT_MRU, setAccm = PPP_DEFAULT_ACCM,
     setAuthProtocol = PPP_AUTH_PROTOCOL_PAP OR PPP_AUTH_PROTOCOL_CHAP_MD5, setAuthCallback = False\<rparr>"

definition zeroFsm :: PppFsm where
  "zeroFsm = \<lparr>fsmState = PPP_STATE_0_INITIAL, fsmIdentifier = 0, fsmRestartCounter = 0, fsmFailureCounter = 0, fsmTimestamp = 0\<rparr>"

definition zeroConfig :: PppConfig where
  "zeroConfig = \<lparr>cfMru = 0, cfMruRejected = False, cfAccm = 0, cfAccmRejected = False, cfAuthProtocol = 0, cfAuthAlgo = 0,
     cfAuthProtocolRejected = False, cfMagicNumber = 0, cfMagicNumberRejected = False, cfPfc = False, cfPfcRejected = False, cfAcfc = False,
     cfAcfcRejected = False, cfIpAddr = 0, cfIpAddrRejected = False, cfPrimaryDns = 0, cfPrimaryDnsRejected = False, cfSecondaryDns = 0,
     cfSecondaryDnsRejected = False\<rparr>"

definition pppHdlcDriver :: NicDriver where
  "pppHdlcDriver = \<lparr>nicType = NIC_TYPE_PPP, nicMtu = 1500, autoPadding = False, autoCrcCalc = False, autoCrcVerif = False, autoCrcStrip = False\<rparr>"

text \<open>The context is cleared but for the settings. PAP is enabled, so that no protocol is removed from them.\<close>

definition pppInit :: "PppSettings \<Rightarrow> ppp \<Rightarrow> error_t \<times> ppp" where
  "pppInit settings w =
     (NO_ERROR, w\<lparr>pctx := \<lparr>pppSettings = settings, pppTimeout = INFINITE_DELAY, pppUsername = [], pppPassword = [], peerName = [], localAuthDone = False,
          peerAuthDone = False, pppPhase = PPP_PHASE_DEAD, lcpFsm = zeroFsm, ipcpFsm = zeroFsm,
          papFsm = \<lparr>papLocalState = PAP_STATE_0_INITIAL, papPeerState = PAP_STATE_0_INITIAL, papIdentifier = 0, papRestartCounter = 0,
            papTimestamp = 0, papPassword = [], papPasswordLen = 0\<rparr>,
          localConfig = zeroConfig, peerConfig = zeroConfig, ipRejected = False, ipv6Rejected = False, pppTxBuffer = replicate PPP_TX_BUFFER_SIZE 0,
          pppTxBufferLen = 0, pppTxWriteIndex = 0, pppTxReadIndex = 0, pppRxBuffer = replicate PPP_RX_BUFFER_SIZE 0, pppRxBufferLen = 0,
          pppRxWriteIndex = 0, pppRxReadIndex = 0, pppRxFrameCount = 0\<rparr>,
        pppIf := (pppIf w)\<lparr>nicDriver := Some pppHdlcDriver\<rparr>\<rparr>)"

definition pppSetTimeout :: "systime_t \<Rightarrow> ppp \<Rightarrow> ppp" where
  "pppSetTimeout t = put_ppp (\<lambda>c. c\<lparr>pppTimeout := t\<rparr>)"

text \<open>\<open>strSafeCopy\<close> keeps a byte for the end of the string.\<close>

definition pppSetAuthInfo :: "u8 list \<Rightarrow> u8 list \<Rightarrow> ppp \<Rightarrow> ppp" where
  "pppSetAuthInfo user pass = put_ppp (\<lambda>c. c\<lparr>pppUsername := take 30 user, pppPassword := take 30 pass\<rparr>)"

definition reset_fsm :: "PppFsm \<Rightarrow> PppFsm" where
  "reset_fsm f = f\<lparr>fsmState := PPP_STATE_0_INITIAL, fsmIdentifier := 0, fsmRestartCounter := 0, fsmFailureCounter := 0\<rparr>"

text \<open>The state in which \<open>pppConnect\<close> starts: the automata, the options to ask for, and what the peer has by default.\<close>

definition ppp_start :: "ppp \<Rightarrow> ppp" where
  "ppp_start w =
     (let ic = ipv4Context (pppIf w); e = addrList ic ! 0; dns1 = dnsServerList ic ! 0; dns2 = dnsServerList ic ! 1
      in put_ppp (\<lambda>c. c\<lparr>pppPhase := PPP_PHASE_DEAD, lcpFsm := reset_fsm (lcpFsm c), ipcpFsm := reset_fsm (ipcpFsm c), localAuthDone := False,
             peerAuthDone := False, papFsm := (papFsm c)\<lparr>papLocalState := PAP_STATE_0_INITIAL, papPeerState := PAP_STATE_0_INITIAL, papIdentifier := 0,
               papRestartCounter := 0\<rparr>,
             localConfig := \<lparr>cfMru = setMru (pppSettings c), cfMruRejected = False, cfAccm = setAccm (pppSettings c), cfAccmRejected = False,
               cfAuthProtocol = (if setAuthCallback (pppSettings c) \<and> setAuthProtocol (pppSettings c) AND PPP_AUTH_PROTOCOL_PAP \<noteq> 0
                 then PPP_PROTOCOL_PAP else 0),
               cfAuthAlgo = 0, cfAuthProtocolRejected = False, cfMagicNumber = 0, cfMagicNumberRejected = False, cfPfc = True, cfPfcRejected = False,
               cfAcfc = True, cfAcfcRejected = False, cfIpAddr = aeAddr e, cfIpAddrRejected = False, cfPrimaryDns = dns1,
               cfPrimaryDnsRejected = (dns1 \<noteq> IPV4_UNSPECIFIED_ADDR), cfSecondaryDns = dns2,
               cfSecondaryDnsRejected = (dns2 \<noteq> IPV4_UNSPECIFIED_ADDR)\<rparr>,
             peerConfig := (peerConfig c)\<lparr>cfMru := PPP_DEFAULT_MRU, cfAccm := PPP_DEFAULT_ACCM, cfAuthProtocol := 0, cfMagicNumber := 0,
               cfPfc := False, cfAcfc := False, cfIpAddr := defaultGateway e\<rparr>\<rparr>) w)"

text \<open>
  The polling loops: \<open>others\<close> is what the other tasks do during a delay, \<open>ready\<close> the result when the loop is to end. Without a
  timeout a loop may run forever.
\<close>

partial_function (option) ppp_poll :: "(ppp \<Rightarrow> ppp) \<Rightarrow> (ppp \<Rightarrow> error_t option) \<Rightarrow> systime_t \<Rightarrow> ppp \<Rightarrow> (error_t \<times> ppp) option" where
  "ppp_poll others ready start w =
     (case ready w of
        Some e \<Rightarrow> Some (e, w)
      | None \<Rightarrow>
          if pppTimeout (pctx w) \<noteq> INFINITE_DELAY then
            let (t, w) = ppp_time w
            in if timeCompare t (start + pppTimeout (pctx w)) \<ge> 0 then Some (ERROR_TIMEOUT, w)
               else ppp_poll others ready start (others w)
          else ppp_poll others ready start (others w))"

definition ppp_abort :: "ppp \<Rightarrow> ppp" where
  "ppp_abort = put_ppp (\<lambda>c. c\<lparr>pppPhase := PPP_PHASE_DEAD, lcpFsm := (lcpFsm c)\<lparr>fsmState := PPP_STATE_0_INITIAL\<rparr>,
     ipcpFsm := (ipcpFsm c)\<lparr>fsmState := PPP_STATE_0_INITIAL\<rparr>,
     papFsm := (papFsm c)\<lparr>papLocalState := PAP_STATE_0_INITIAL, papPeerState := PAP_STATE_0_INITIAL\<rparr>\<rparr>)"

definition ppp_wait :: "(ppp \<Rightarrow> ppp) \<Rightarrow> (ppp \<Rightarrow> error_t option) \<Rightarrow> ppp \<Rightarrow> (error_t \<times> ppp) option" where
  "ppp_wait others ready w =
     (let (start, w) = ppp_time w
      in map_option (\<lambda>(e, w). (e, if e \<noteq> NO_ERROR then ppp_abort w else w)) (ppp_poll others ready start w))"

definition connect_ready :: "ppp \<Rightarrow> error_t option" where
  "connect_ready w =
     (if pppPhase (pctx w) = PPP_PHASE_NETWORK then if fsmState (ipcpFsm (pctx w)) = PPP_STATE_9_OPENED then Some NO_ERROR else None
      else if pppPhase (pctx w) = PPP_PHASE_DEAD then Some ERROR_CONNECTION_FAILED
      else None)"

definition pppConnect :: "(ppp \<Rightarrow> ppp) \<Rightarrow> ppp \<Rightarrow> (error_t \<times> ppp) option" where
  "pppConnect others w = Option.bind (lcpOpen (ppp_start w)) (ppp_wait others connect_ready)"

definition close_ready :: "ppp \<Rightarrow> error_t option" where
  "close_ready w = (if pppPhase (pctx w) = PPP_PHASE_DEAD then Some NO_ERROR else None)"

definition pppClose :: "(ppp \<Rightarrow> ppp) \<Rightarrow> ppp \<Rightarrow> (error_t \<times> ppp) option" where
  "pppClose others w = Option.bind (lcpClose w) (ppp_wait others close_ready)"

end
