(* ===== verification/Ppp_Frames.thy ===== *)
theory Ppp_Frames
  imports Ppp_Link Ipv4_Addr Tcp_Send
begin

text \<open>
  The link layer of PPP at work: what the frame check sequence detects, the ring buffers as queues, the stuffing read back,
  and a frame on its way from the sender's buffer to the handler of its protocol at the receiver.
\<close>

section \<open>The frame check sequence\<close>

lemma fcs_entries: "fcsTable ! 0xFF = 0x0F78" "fcsTable ! 0x87 = 0xF0B7"
  by (simp_all add: fcsTable_def)

lemma fcs_table_length: "length fcsTable = 256"
  by (simp add: fcsTable_def)

lemma fcs_index: "unat ((fcs AND 0xFF) XOR ucast (p :: u8) :: u16) = unat (ucast fcs XOR p)"
proof -
  have "(fcs AND 0xFF) XOR ucast p = (ucast (ucast fcs XOR p) :: u16)"
  proof (rule bit_word_eqI)
    fix n :: nat assume "n < LENGTH(16)"
    have m: "bit (0xFF :: u16) n \<longleftrightarrow> n < 8" if "n < 16" for n
      using that bit_mask_iff [of 8 n, where ?'a = u16] by (simp add: mask_eq_exp_minus_1)
    show "bit ((fcs AND 0xFF) XOR ucast p) n = bit (ucast (ucast fcs XOR p) :: u16) n"
      using m [of n] \<open>n < LENGTH(16)\<close> by (auto simp: bit_and_iff bit_xor_iff bit_ucast_iff dest: bit_imp_le_length)
  qed
  moreover have "unat (x :: u8) < 256" for x using unsigned_less [of x] by simp
  then have "unat (x :: u8) < 2 ^ 16" for x by (rule less_trans) simp
  ultimately show ?thesis by (simp add: unsigned_ucast_eq take_bit_nat_eq_self)
qed

lemma fcs_step_alt: "fcs_step fcs p = drop_bit 8 fcs XOR fcsTable ! unat (ucast fcs XOR p)"
  by (simp add: fcs_step_def fcs_index)

lemma drop_high: "drop_bit 8 (drop_bit 8 (s :: u16)) = 0"
proof (rule bit_word_eqI)
  fix n :: nat
  show "bit (drop_bit 8 (drop_bit 8 s)) n = bit (0 :: u16) n" using bit_imp_le_length [of s "n + 16"] by (auto simp: bit_drop_bit_eq add.commute)
qed

lemma fcs_field: "foldl fcs_step s (le16 (NOT s)) = NOT 0x0F47"
proof -
  have n8: "n < LENGTH(8) \<Longrightarrow> n = 0 \<or> n = 1 \<or> n = 2 \<or> n = 3 \<or> n = 4 \<or> n = 5 \<or> n = 6 \<or> n = 7" for n by auto
  have x: "ucast s XOR ucast (NOT s) = (0xFF :: u8)"
    by (rule bit_word_eqI, drule n8) (auto simp: bit_xor_iff bit_ucast_iff bit_not_iff)
  have 1: "fcs_step s (ucast (NOT s)) = drop_bit 8 s XOR 0x0F78" by (simp add: fcs_step_alt x fcs_entries)
  have y: "ucast (drop_bit 8 s XOR 0x0F78) XOR ucast (drop_bit 8 (NOT s)) = (0x87 :: u8)"
    by (rule bit_word_eqI, drule n8) (auto simp: bit_xor_iff bit_ucast_iff bit_not_iff bit_drop_bit_eq)
  have z: "drop_bit 8 (drop_bit 8 s XOR 0x0F78 :: u16) = 0x0F"
    by (simp add: drop_bit_xor drop_high)
  show ?thesis unfolding le16_def by (simp add: 1 fcs_step_alt [of "drop_bit 8 s XOR 0x0F78"] y z fcs_entries)
qed

lemma fcs_verifies: "pppCalcFcs (D @ le16 (pppCalcFcs D (length D))) (length D + 2) = 0x0F47"
proof -
  have "foldl fcs_step 0xFFFF (D @ le16 (pppCalcFcs D (length D))) = NOT 0x0F47"
    by (simp add: pppCalcFcs_def fcs_field)
  then show ?thesis by (simp add: pppCalcFcs_def [of "D @ _"] le16_def)
qed

lemma pppCalcFcsEx_flat: "nb_wf b \<Longrightarrow> pppCalcFcsEx b off len = pppCalcFcs (drop off (nb_bytes b)) len"
  by (simp add: pppCalcFcsEx_def pppCalcFcs_def crcEx_loop_flat nb_wf_def nb_bytes_def)

section \<open>Errors the check sequence finds\<close>

lemma fcs_high: "drop_bit 8 (drop_bit 8 s XOR t :: u16) = drop_bit 8 t"
  by (simp add: drop_bit_xor drop_high)

lemma fcs_table_distinct: "distinct (map (\<lambda>v. unat (drop_bit 8 v)) fcsTable)"
  unfolding fcsTable_def by simp

lemma fcs_table_inj: "drop_bit 8 (fcsTable ! i) = drop_bit 8 (fcsTable ! j) \<Longrightarrow> i < 256 \<Longrightarrow> j < 256 \<Longrightarrow> i = j"
  using nth_eq_iff_index_eq [OF fcs_table_distinct, of i j] by (simp add: fcs_table_length)

lemma fcs_step_high:
  assumes "drop_bit 8 (fcs_step s p) = drop_bit 8 (fcs_step t q)"
  shows "ucast s XOR p = ucast t XOR q"
proof -
  have b: "unat (x :: u8) < 256" for x using unsigned_less [of x] by simp
  have "unat (ucast s XOR p) = unat (ucast t XOR q)"
    by (rule fcs_table_inj [OF _ b b]) (use assms in \<open>simp add: fcs_step_alt fcs_high\<close>)
  then show ?thesis by (simp add: unsigned_word_eqI)
qed

lemma fcs_step_eq:
  assumes "fcs_step s p = fcs_step t q"
  shows "ucast s XOR p = ucast t XOR q \<and> drop_bit 8 s = drop_bit 8 t"
proof -
  have i: "ucast s XOR p = ucast t XOR q" by (rule fcs_step_high) (simp add: assms)
  with assms have "drop_bit 8 s XOR fcsTable ! unat (ucast t XOR q) = drop_bit 8 t XOR fcsTable ! unat (ucast t XOR q)"
    by (simp add: fcs_step_alt)
  with i show ?thesis by (simp add: xor_cancel)
qed

lemma halves_eq: "ucast s = (ucast t :: u8) \<Longrightarrow> drop_bit 8 s = drop_bit 8 t \<Longrightarrow> s = (t :: u16)"
proof (rule bit_word_eqI)
  fix n :: nat
  assume e: "ucast s = (ucast t :: u8)" "drop_bit 8 s = drop_bit 8 t"
  show "bit s n = bit t n"
  proof (cases "n < 8")
    case True
    then show ?thesis using arg_cong [OF e(1), of "\<lambda>x. bit x n"] by (simp add: bit_ucast_iff)
  next
    case False
    then show ?thesis using arg_cong [OF e(2), of "\<lambda>x. bit x (n - 8)"] by (simp add: bit_drop_bit_eq)
  qed
qed

lemma fcs_step_inj: "fcs_step s p = fcs_step t p \<longleftrightarrow> s = t"
  using fcs_step_eq [of s p t p] halves_eq [of s t] by (auto simp: xor_cancel)

lemma foldl_fcs_inj: "foldl fcs_step s D = foldl fcs_step t D \<longleftrightarrow> s = t"
  by (induction D arbitrary: s t) (simp_all add: fcs_step_inj)

lemma fcs_two_bytes:
  assumes "fcs_step (fcs_step s a) b = fcs_step (fcs_step s a') b'"
  shows "a = a' \<and> b = b'"
proof -
  from fcs_step_eq [OF assms] have 1: "ucast (fcs_step s a) XOR b = ucast (fcs_step s a') XOR b'" "drop_bit 8 (fcs_step s a) = drop_bit 8 (fcs_step s a')" by auto
  from fcs_step_high [OF 1(2)] have "a = a'" by (simp add: xor_cancel)
  with 1(1) show ?thesis by (simp add: xor_cancel)
qed

text \<open>
  The frame check sequence of PPP. A frame followed by its check sequence, computed over the chunks of a buffer or
  over flat bytes, is accepted, and a frame that differs from an accepted one in at most two neighbouring bytes is rejected.
\<close>

theorem fcs_detects:
  assumes "nb_wf b" and "D = drop off (nb_bytes b)" and "F = D @ le16 (pppCalcFcsEx b off (length D))"
    and "F = pre @ [x, y] @ post" and "(x', y') \<noteq> (x, y)" and "F' = pre @ [x', y'] @ post"
  shows "pppCalcFcs F (length F) = 0x0F47 \<and> pppCalcFcs F' (length F') \<noteq> 0x0F47"
proof -
  have l: "length F = length D + 2" by (simp add: assms(3) le16_def)
  have ok: "pppCalcFcs F (length F) = 0x0F47"
    using fcs_verifies [of D] l pppCalcFcsEx_flat [OF assms(1), of off "length D"] unfolding assms(3) by (simp add: assms(2))
  moreover have "pppCalcFcs F' (length F') \<noteq> 0x0F47"
  proof
    assume "pppCalcFcs F' (length F') = 0x0F47"
    with ok have "pppCalcFcs F' (length F') = pppCalcFcs F (length F)" by simp
    then have "foldl fcs_step 0xFFFF F' = foldl fcs_step 0xFFFF F" by (simp add: pppCalcFcs_def)
    then have "foldl fcs_step (foldl fcs_step 0xFFFF pre) [x', y'] = foldl fcs_step (foldl fcs_step 0xFFFF pre) [x, y]"
      unfolding assms(4,6) foldl_append foldl_fcs_inj .
    then have "x' = x \<and> y' = y" by (intro fcs_two_bytes) simp
    with assms(5) show False by simp
  qed
  ultimately show ?thesis ..
qed

section \<open>Ring buffers\<close>

definition ring_seq :: "nat \<Rightarrow> 'a list \<Rightarrow> nat \<Rightarrow> nat \<Rightarrow> 'a list" where
  "ring_seq sz buf rd len = map (\<lambda>k. buf ! ((rd + k) mod sz)) [0..<len]"

lemma length_ring [simp]: "length (ring_seq sz buf rd len) = len"
  by (simp add: ring_seq_def)

lemma ring_0 [simp]: "ring_seq sz buf rd 0 = []"
  by (simp add: ring_seq_def)

lemma ring_next: "k < sz \<Longrightarrow> (if sz \<le> Suc k then 0 else Suc k) = Suc k mod sz"
  by (cases "Suc k = sz") simp_all

lemma ring_slot:
  assumes "k < n" and "n < (sz :: nat)"
  shows "(rd + k) mod sz \<noteq> (rd + n) mod sz"
proof
  assume e: "(rd + k) mod sz = (rd + n) mod sz"
  then have "sz dvd (rd + n) - (rd + k)" using assms by (intro mod_eq_dvd_iff_nat [THEN iffD1]) simp_all
  then show False using assms by (auto dest: dvd_imp_le)
qed

lemma ring_put:
  assumes "length buf = sz" and "len < sz" and "wr = (rd + len) mod sz"
  shows "ring_seq sz (buf[wr := x]) rd (Suc len) = ring_seq sz buf rd len @ [x]"
proof -
  have "buf[wr := x] ! ((rd + k) mod sz) = buf ! ((rd + k) mod sz)" if "k < len" for k
    using ring_slot [OF that assms(2), of rd] assms(3) by simp
  then have "map (\<lambda>k. buf[wr := x] ! ((rd + k) mod sz)) [0..<len] = ring_seq sz buf rd len" by (simp add: ring_seq_def)
  then show ?thesis using assms by (simp add: ring_seq_def)
qed

lemma ring_get:
  assumes "rd < sz"
  shows "ring_seq sz buf rd (Suc len) = buf ! rd # ring_seq sz buf (Suc rd mod sz) len"
proof -
  have "(rd + Suc k) mod sz = (Suc rd mod sz + k) mod sz" for k by (simp add: mod_add_left_eq)
  then show ?thesis using assms by (simp add: ring_seq_def upt_conv_Cons map_Suc_upt [symmetric] del: upt_Suc)
qed

definition hdlc_tx :: "PppContext \<Rightarrow> u8 list" where
  "hdlc_tx c = ring_seq PPP_TX_BUFFER_SIZE (pppTxBuffer c) (pppTxReadIndex c) (pppTxBufferLen c)"

definition hdlc_tx_ok :: "PppContext \<Rightarrow> bool" where
  "hdlc_tx_ok c \<longleftrightarrow> length (pppTxBuffer c) = PPP_TX_BUFFER_SIZE \<and> pppTxReadIndex c < PPP_TX_BUFFER_SIZE \<and> pppTxBufferLen c \<le> PPP_TX_BUFFER_SIZE \<and>
     pppTxWriteIndex c = (pppTxReadIndex c + pppTxBufferLen c) mod PPP_TX_BUFFER_SIZE"

definition hdlc_rx :: "PppContext \<Rightarrow> u8 list" where
  "hdlc_rx c = ring_seq PPP_RX_BUFFER_SIZE (pppRxBuffer c) (pppRxReadIndex c) (pppRxBufferLen c)"

definition hdlc_rx_ok :: "PppContext \<Rightarrow> bool" where
  "hdlc_rx_ok c \<longleftrightarrow> length (pppRxBuffer c) = PPP_RX_BUFFER_SIZE \<and> pppRxReadIndex c < PPP_RX_BUFFER_SIZE \<and> pppRxBufferLen c \<le> PPP_RX_BUFFER_SIZE \<and>
     pppRxWriteIndex c = (pppRxReadIndex c + pppRxBufferLen c) mod PPP_RX_BUFFER_SIZE"

text \<open>What writing to the transmit queue and reading from the receive queue leave alone.\<close>

definition same_but_tx :: "PppContext \<Rightarrow> PppContext \<Rightarrow> bool" where
  "same_but_tx c c' \<longleftrightarrow> c' = c\<lparr>pppTxBuffer := pppTxBuffer c', pppTxWriteIndex := pppTxWriteIndex c', pppTxBufferLen := pppTxBufferLen c'\<rparr>"

lemma same_but_tx_trans: "same_but_tx c c1 \<Longrightarrow> same_but_tx c1 c2 \<Longrightarrow> same_but_tx c c2"
  unfolding same_but_tx_def by (cases c; cases c1; cases c2) simp

lemma write_one:
  assumes "hdlc_tx_ok c" and "pppTxBufferLen c < PPP_TX_BUFFER_SIZE"
  shows "hdlc_tx_ok (pppHdlcDriverWriteTxQueue x c) \<and> hdlc_tx (pppHdlcDriverWriteTxQueue x c) = hdlc_tx c @ [x] \<and>
    pppTxBufferLen (pppHdlcDriverWriteTxQueue x c) = Suc (pppTxBufferLen c)"
proof -
  let ?k = "(pppTxReadIndex c + pppTxBufferLen c) mod PPP_TX_BUFFER_SIZE"
  have "(if PPP_TX_BUFFER_SIZE \<le> Suc ?k then 0 else Suc ?k) = Suc ?k mod PPP_TX_BUFFER_SIZE" by (rule ring_next) simp
  also have "\<dots> = (pppTxReadIndex c + Suc (pppTxBufferLen c)) mod PPP_TX_BUFFER_SIZE" by (simp add: mod_Suc_eq)
  finally have n: "(if PPP_TX_BUFFER_SIZE \<le> Suc ?k then 0 else Suc ?k) = (pppTxReadIndex c + Suc (pppTxBufferLen c)) mod PPP_TX_BUFFER_SIZE" .
  have wr: "pppTxWriteIndex c = ?k" using assms(1) by (simp add: hdlc_tx_ok_def)
  have "pppHdlcDriverWriteTxQueue x c = c\<lparr>pppTxBuffer := (pppTxBuffer c)[?k := x],
    pppTxWriteIndex := (pppTxReadIndex c + Suc (pppTxBufferLen c)) mod PPP_TX_BUFFER_SIZE, pppTxBufferLen := Suc (pppTxBufferLen c)\<rparr>"
    unfolding pppHdlcDriverWriteTxQueue_def Let_def wr Suc_eq_plus1 [symmetric] n ..
  then show ?thesis using assms ring_put [of "pppTxBuffer c" PPP_TX_BUFFER_SIZE "pppTxBufferLen c" ?k "pppTxReadIndex c" x]
    by (simp add: hdlc_tx_ok_def hdlc_tx_def)
qed

lemma write_one_same: "same_but_tx c (pppHdlcDriverWriteTxQueue x c)"
  by (simp add: same_but_tx_def pppHdlcDriverWriteTxQueue_def Let_def)

lemma write_tx_Nil [simp]: "write_tx [] c = c"
  by (simp add: write_tx_def)

lemma write_tx_append: "write_tx (xs @ ys) c = write_tx ys (write_tx xs c)"
  by (simp add: write_tx_def)

lemma write_tx_queue:
  "hdlc_tx_ok c \<Longrightarrow> pppTxBufferLen c + length xs \<le> PPP_TX_BUFFER_SIZE \<Longrightarrow>
    hdlc_tx_ok (write_tx xs c) \<and> hdlc_tx (write_tx xs c) = hdlc_tx c @ xs \<and> pppTxBufferLen (write_tx xs c) = pppTxBufferLen c + length xs"
proof (induction xs arbitrary: c)
  case (Cons x xs)
  have w: "hdlc_tx_ok (pppHdlcDriverWriteTxQueue x c) \<and> hdlc_tx (pppHdlcDriverWriteTxQueue x c) = hdlc_tx c @ [x] \<and>
    pppTxBufferLen (pppHdlcDriverWriteTxQueue x c) = Suc (pppTxBufferLen c)" by (rule write_one) (use Cons.prems in simp_all)
  moreover have "write_tx (x # xs) c = write_tx xs (pppHdlcDriverWriteTxQueue x c)" by (simp add: write_tx_def)
  ultimately show ?case using Cons.IH [of "pppHdlcDriverWriteTxQueue x c"] Cons.prems by simp
qed (simp add: write_tx_def)

lemma write_tx_same: "same_but_tx c (write_tx xs c)"
proof (induction xs arbitrary: c)
  case Nil
  then show ?case by (simp add: write_tx_def same_but_tx_def)
next
  case (Cons x xs)
  then show ?case using same_but_tx_trans [OF write_one_same [of c x] Cons.IH [of "pppHdlcDriverWriteTxQueue x c"]] by (simp add: write_tx_def)
qed

lemma write_tx_concat: "foldl (\<lambda>c p. write_tx (f p) c) c ps = write_tx (concat (map f ps)) c"
  by (induction ps arbitrary: c) (simp_all add: write_tx_append)

lemma hdlc_chunks_write:
  "\<forall>d \<in> set ds. chunk_wf d \<Longrightarrow> hdlc_chunks accm ds off c = write_tx (concat (map (hdlc_escape accm) (drop off (chunks_bytes ds)))) c"
proof (induction ds arbitrary: off c)
  case (Cons d ds)
  have l: "length (chunk_bytes d) = chLength d" using Cons.prems by simp
  then show ?case using Cons by (auto simp: write_tx_concat write_tx_append chunk_bytes_def)
qed (simp add: write_tx_def)

section \<open>The line\<close>

definition same_but_read :: "ppp \<Rightarrow> ppp \<Rightarrow> bool" where
  "same_but_read w w' \<longleftrightarrow> (\<exists>rd n e l. w' = (put_ppp (\<lambda>c. c\<lparr>pppTxReadIndex := rd, pppTxBufferLen := n\<rparr>) w)\<lparr>nicTxEvent := e, uartLine := l\<rparr>)"

lemma read_one:
  assumes "pppTxReadIndex (pctx w) < PPP_TX_BUFFER_SIZE" and "pppTxBufferLen (pctx w) = Suc m"
  shows "\<exists>w1. pppHdlcDriverReadTxQueue w = (Some (pppTxBuffer (pctx w) ! pppTxReadIndex (pctx w)), w1) \<and> uartLine w1 = uartLine w \<and>
    pctx w1 = (pctx w)\<lparr>pppTxReadIndex := Suc (pppTxReadIndex (pctx w)) mod PPP_TX_BUFFER_SIZE, pppTxBufferLen := m\<rparr>"
proof -
  have l: "0 < pppTxBufferLen (pctx w)" "pppTxBufferLen (pctx w) - 1 = m" using assms(2) by simp_all
  show ?thesis unfolding pppHdlcDriverReadTxQueue_def Let_def if_P [OF l(1)] l(2) Suc_eq_plus1 [symmetric] ring_next [OF assms(1)]
    by (simp add: put_ppp_def)
qed

lemma uart_run_line:
  "hdlc_tx_ok (pctx w) \<Longrightarrow> hdlc_tx_ok (pctx (uart_run n w)) \<and> hdlc_tx (pctx (uart_run n w)) = drop n (hdlc_tx (pctx w)) \<and>
    uartLine (uart_run n w) = uartLine w @ take n (hdlc_tx (pctx w))"
proof (induction n arbitrary: w)
  case (Suc n)
  let ?c = "pctx w"
  show ?case
  proof (cases "pppTxBufferLen ?c")
    case 0
    with Suc.prems show ?thesis by (simp add: pppHdlcDriverReadTxQueue_def hdlc_tx_def Let_def)
  next
    case (Suc m)
    let ?k = "pppTxReadIndex ?c"
    have k: "?k < PPP_TX_BUFFER_SIZE" using Suc.prems by (simp add: hdlc_tx_ok_def)
    from read_one [OF k Suc] obtain w1 where w1: "pppHdlcDriverReadTxQueue w = (Some (pppTxBuffer ?c ! ?k), w1)" "uartLine w1 = uartLine w"
      "pctx w1 = ?c\<lparr>pppTxReadIndex := Suc ?k mod PPP_TX_BUFFER_SIZE, pppTxBufferLen := m\<rparr>" by blast
    have q: "hdlc_tx ?c = pppTxBuffer ?c ! ?k # hdlc_tx (pctx w1)"
      using ring_get [OF k, of "pppTxBuffer ?c" m] Suc by (simp add: hdlc_tx_def w1(3))
    have "(?k + Suc m) mod PPP_TX_BUFFER_SIZE = (Suc ?k mod PPP_TX_BUFFER_SIZE + m) mod PPP_TX_BUFFER_SIZE" by (simp add: mod_add_left_eq)
    then have ok: "hdlc_tx_ok (pctx w1)" using Suc.prems Suc by (simp add: hdlc_tx_ok_def w1(3))
    then have "hdlc_tx_ok (pctx (w1\<lparr>uartLine := uartLine w1 @ [pppTxBuffer ?c ! ?k]\<rparr>))" by simp
    from Suc.IH [OF this] show ?thesis using w1(1,2) q by simp
  qed
qed simp

section \<open>Reading a frame back\<close>

definition same_but_rx :: "PppContext \<Rightarrow> PppContext \<Rightarrow> bool" where
  "same_but_rx c c' \<longleftrightarrow> c' = c\<lparr>pppRxReadIndex := pppRxReadIndex c', pppRxBufferLen := pppRxBufferLen c'\<rparr>"

lemma same_but_rx_trans: "same_but_rx c c1 \<Longrightarrow> same_but_rx c1 c2 \<Longrightarrow> same_but_rx c c2"
  unfolding same_but_rx_def by (cases c; cases c1; cases c2) simp

lemma read_rx:
  assumes "hdlc_rx_ok c" and "hdlc_rx c = x # xs"
  shows "\<exists>c1. pppHdlcDriverReadRxQueue c = (x, c1) \<and> hdlc_rx_ok c1 \<and> hdlc_rx c1 = xs \<and> same_but_rx c c1 \<and> 0 < pppRxBufferLen c"
proof -
  let ?k = "pppRxReadIndex c"
  have k: "?k < PPP_RX_BUFFER_SIZE" using assms(1) by (simp add: hdlc_rx_ok_def)
  have "length (hdlc_rx c) = pppRxBufferLen c" by (simp add: hdlc_rx_def)
  with assms(2) obtain m where m: "pppRxBufferLen c = Suc m" "length xs = m" by (cases "pppRxBufferLen c") simp_all
  let ?c1 = "c\<lparr>pppRxReadIndex := Suc ?k mod PPP_RX_BUFFER_SIZE, pppRxBufferLen := m\<rparr>"
  have q: "hdlc_rx c = pppRxBuffer c ! ?k # hdlc_rx ?c1"
    using ring_get [OF k, of "pppRxBuffer c" m] m by (simp add: hdlc_rx_def)
  have r: "pppHdlcDriverReadRxQueue c = (pppRxBuffer c ! ?k, ?c1)"
    unfolding pppHdlcDriverReadRxQueue_def Let_def Suc_eq_plus1 [symmetric] ring_next [OF k] m(1) by simp
  have "(?k + Suc m) mod PPP_RX_BUFFER_SIZE = (Suc ?k mod PPP_RX_BUFFER_SIZE + m) mod PPP_RX_BUFFER_SIZE" by (simp add: mod_add_left_eq)
  then have ok: "hdlc_rx_ok ?c1" using assms(1) m(1) by (simp add: hdlc_rx_ok_def)
  have same: "same_but_rx c ?c1" by (simp add: same_but_rx_def)
  show ?thesis using q r ok same assms(2) m(1) by (intro exI [of _ ?c1]) simp
qed

lemma accm_bit: "accm AND 2 ^ n = 0 \<longleftrightarrow> \<not> bit (accm :: u32) n"
  by (simp add: bit_iff_and_push_bit_not_eq_0)

text \<open>The cases of the loop on the next character.\<close>

lemma unstuff_char:
  assumes "hdlc_rx_ok c" and "hdlc_rx c = x # xs" and "length frame < PPP_MAX_FRAME_SIZE" and "PPP_MASK_CHAR \<le> x \<or> \<not> bit accm (unat x)"
    and "x \<noteq> PPP_ESC_CHAR" and "x \<noteq> PPP_FLAG_CHAR"
  shows "\<exists>c1. unstuff accm frame False c = unstuff accm (frame @ [x]) False c1 \<and> hdlc_rx_ok c1 \<and> hdlc_rx c1 = xs \<and> same_but_rx c c1"
proof -
  from read_rx [OF assms(1,2)] obtain c1 where c1: "pppHdlcDriverReadRxQueue c = (x, c1)" "hdlc_rx_ok c1" "hdlc_rx c1 = xs" "same_but_rx c c1" "0 < pppRxBufferLen c" by blast
  have "unstuff accm frame False c = unstuff accm (frame @ [x]) False c1"
    using assms(3-6) c1(1,5) by (subst unstuff.simps) (auto simp: accm_bit not_less)
  with c1 show ?thesis by blast
qed

lemma unstuff_escape:
  assumes "hdlc_rx_ok c" and "hdlc_rx c = PPP_ESC_CHAR # y # xs" and "length frame < PPP_MAX_FRAME_SIZE" and "PPP_MASK_CHAR \<le> y"
    and "y \<noteq> PPP_ESC_CHAR" and "y \<noteq> PPP_FLAG_CHAR" and "y XOR PPP_MASK_CHAR = p"
  shows "\<exists>c1. unstuff accm frame False c = unstuff accm (frame @ [p]) False c1 \<and> hdlc_rx_ok c1 \<and> hdlc_rx c1 = xs \<and> same_but_rx c c1"
proof -
  from read_rx [OF assms(1,2)] obtain c1 where c1: "pppHdlcDriverReadRxQueue c = (PPP_ESC_CHAR, c1)" "hdlc_rx_ok c1" "hdlc_rx c1 = y # xs" "same_but_rx c c1" "0 < pppRxBufferLen c" by blast
  from read_rx [OF c1(2,3)] obtain c2 where c2: "pppHdlcDriverReadRxQueue c1 = (y, c2)" "hdlc_rx_ok c2" "hdlc_rx c2 = xs" "same_but_rx c1 c2" "0 < pppRxBufferLen c1" by blast
  have "unstuff accm frame False c = unstuff accm frame True c1" using assms(3) c1(1,5) by (subst unstuff.simps) (simp add: word_less_nat_alt)
  also have "\<dots> = unstuff accm (frame @ [p]) False c2"
    using assms(3-7) c2(1,5) by (subst unstuff.simps) (simp add: not_less [symmetric])
  finally show ?thesis using c2 same_but_rx_trans [OF c1(4) c2(4)] by blast
qed

lemma unstuff_flag:
  assumes "hdlc_rx_ok c" and "hdlc_rx c = PPP_FLAG_CHAR # xs" and "length frame < PPP_MAX_FRAME_SIZE"
  shows "\<exists>c1. unstuff accm frame False c = (frame, c1) \<and> hdlc_rx_ok c1 \<and> hdlc_rx c1 = xs \<and> same_but_rx c c1"
proof -
  from read_rx [OF assms(1,2)] obtain c1 where c1: "pppHdlcDriverReadRxQueue c = (PPP_FLAG_CHAR, c1)" "hdlc_rx_ok c1" "hdlc_rx c1 = xs" "same_but_rx c c1" "0 < pppRxBufferLen c" by blast
  have "unstuff accm frame False c = (frame, c1)" using assms(3) c1(1,5) by (subst unstuff.simps) (simp add: word_less_nat_alt)
  with c1 show ?thesis by blast
qed

lemma low_char:
  assumes "(p :: u8) < PPP_MASK_CHAR"
  shows "PPP_MASK_CHAR \<le> p XOR PPP_MASK_CHAR \<and> p XOR PPP_MASK_CHAR \<noteq> PPP_ESC_CHAR \<and> p XOR PPP_MASK_CHAR \<noteq> PPP_FLAG_CHAR \<and>
    (p XOR PPP_MASK_CHAR) XOR PPP_MASK_CHAR = p"
proof -
  have "unat p \<in> set [0..<32]" using assms by (simp add: word_less_nat_alt)
  then have "p \<in> of_nat ` set [0..<32]" by (intro image_eqI [of _ _ "unat p"]) simp_all
  then show ?thesis by (simp add: upt_rec) (elim disjE; simp add: word_le_nat_alt)
qed

lemma unstuff_one:
  assumes "hdlc_rx_ok c" and "hdlc_rx c = hdlc_escape sa p @ xs" and "length frame < PPP_MAX_FRAME_SIZE" and "\<forall>n < 32. bit ra n \<longrightarrow> bit sa n"
  shows "\<exists>c1. unstuff ra frame False c = unstuff ra (frame @ [p]) False c1 \<and> hdlc_rx_ok c1 \<and> hdlc_rx c1 = xs \<and> same_but_rx c c1"
proof -
  have n: "p < PPP_MASK_CHAR \<Longrightarrow> unat p < 32" by (simp add: word_less_nat_alt)
  have lt: "p < PPP_MASK_CHAR \<Longrightarrow> p \<noteq> PPP_ESC_CHAR \<and> p \<noteq> PPP_FLAG_CHAR" by auto
  have special: "(PPP_ESC_CHAR :: u8) XOR PPP_MASK_CHAR = 0x5D" "(PPP_FLAG_CHAR :: u8) XOR PPP_MASK_CHAR = 0x5E" by simp_all
  consider (plain) "hdlc_escape sa p = [p]" "PPP_MASK_CHAR \<le> p \<or> \<not> bit ra (unat p)" "p \<noteq> PPP_ESC_CHAR" "p \<noteq> PPP_FLAG_CHAR"
    | (low) "hdlc_escape sa p = [PPP_ESC_CHAR, p XOR PPP_MASK_CHAR]" "p < PPP_MASK_CHAR"
    | (esc) "hdlc_escape sa p = [PPP_ESC_CHAR, p XOR PPP_MASK_CHAR]" "p = PPP_ESC_CHAR \<or> p = PPP_FLAG_CHAR"
    using assms(4) n lt by (cases "p < PPP_MASK_CHAR"; cases "bit sa (unat p)") (auto simp: hdlc_escape_def accm_bit not_less split: if_splits)
  then show ?thesis
  proof cases
    case plain
    with assms(2) have "hdlc_rx c = p # xs" by simp
    from unstuff_char [OF assms(1) this assms(3) plain(2-4)] show ?thesis .
  next
    case low
    with assms(2) have "hdlc_rx c = PPP_ESC_CHAR # (p XOR PPP_MASK_CHAR) # xs" by simp
    from unstuff_escape [OF assms(1) this assms(3), of p ra] low_char [OF low(2)] show ?thesis by simp
  next
    case esc
    with assms(2) have "hdlc_rx c = PPP_ESC_CHAR # (p XOR PPP_MASK_CHAR) # xs" by simp
    from unstuff_escape [OF assms(1) this assms(3), of p ra] esc(2) show ?thesis by (elim disjE) (simp_all add: word_le_nat_alt)
  qed
qed

lemma unstuff_frame:
  "hdlc_rx_ok c \<Longrightarrow> hdlc_rx c = concat (map (hdlc_escape sa) F) @ PPP_FLAG_CHAR # xs \<Longrightarrow> length (frame @ F) < PPP_MAX_FRAME_SIZE \<Longrightarrow>
    \<forall>n < 32. bit ra n \<longrightarrow> bit sa n \<Longrightarrow>
    \<exists>c1. unstuff ra frame False c = (frame @ F, c1) \<and> hdlc_rx_ok c1 \<and> hdlc_rx c1 = xs \<and> same_but_rx c c1"
proof (induction F arbitrary: frame c)
  case Nil
  then show ?case using unstuff_flag [of c xs frame ra] by simp
next
  case (Cons p F)
  from unstuff_one [of c sa p "concat (map (hdlc_escape sa) F) @ PPP_FLAG_CHAR # xs" frame ra] Cons.prems obtain c1 where
    c1: "unstuff ra frame False c = unstuff ra (frame @ [p]) False c1" "hdlc_rx_ok c1" "hdlc_rx c1 = concat (map (hdlc_escape sa) F) @ PPP_FLAG_CHAR # xs"
    "same_but_rx c c1" by auto
  from Cons.IH [OF c1(2,3), of "frame @ [p]"] Cons.prems(3,4) c1(1) same_but_rx_trans [OF c1(4)] show ?case by auto
qed

text \<open>The characters arrive.\<close>

lemma write_rx_one:
  assumes "hdlc_rx_ok (pctx w)" and "pppRxBufferLen (pctx w) < PPP_RX_BUFFER_SIZE"
  shows "hdlc_rx_ok (pctx (pppHdlcDriverWriteRxQueue x w)) \<and> hdlc_rx (pctx (pppHdlcDriverWriteRxQueue x w)) = hdlc_rx (pctx w) @ [x] \<and>
    pppRxBufferLen (pctx (pppHdlcDriverWriteRxQueue x w)) = Suc (pppRxBufferLen (pctx w)) \<and>
    pppRxFrameCount (pctx (pppHdlcDriverWriteRxQueue x w)) = pppRxFrameCount (pctx w) + (if x = PPP_FLAG_CHAR then 1 else 0)"
proof -
  let ?c = "pctx w"
  let ?k = "(pppRxReadIndex ?c + pppRxBufferLen ?c) mod PPP_RX_BUFFER_SIZE"
  have "(if PPP_RX_BUFFER_SIZE \<le> Suc ?k then 0 else Suc ?k) = Suc ?k mod PPP_RX_BUFFER_SIZE" by (rule ring_next) simp
  also have "\<dots> = (pppRxReadIndex ?c + Suc (pppRxBufferLen ?c)) mod PPP_RX_BUFFER_SIZE" by (simp add: mod_Suc_eq)
  finally have n: "(if PPP_RX_BUFFER_SIZE \<le> Suc ?k then 0 else Suc ?k) = (pppRxReadIndex ?c + Suc (pppRxBufferLen ?c)) mod PPP_RX_BUFFER_SIZE" .
  have wr: "pppRxWriteIndex ?c = ?k" using assms(1) by (simp add: hdlc_rx_ok_def)
  let ?c1 = "?c\<lparr>pppRxBuffer := (pppRxBuffer ?c)[?k := x],
    pppRxWriteIndex := (pppRxReadIndex ?c + Suc (pppRxBufferLen ?c)) mod PPP_RX_BUFFER_SIZE, pppRxBufferLen := Suc (pppRxBufferLen ?c)\<rparr>"
  have e: "pctx (pppHdlcDriverWriteRxQueue x w) = (if x = PPP_FLAG_CHAR then ?c1\<lparr>pppRxFrameCount := pppRxFrameCount ?c + 1\<rparr> else ?c1)"
    unfolding pppHdlcDriverWriteRxQueue_def Let_def wr Suc_eq_plus1 [symmetric] n if_P [OF assms(2)] by (simp add: put_ppp_def)
  have "hdlc_rx_ok ?c1 \<and> hdlc_rx ?c1 = hdlc_rx ?c @ [x]"
    using assms ring_put [of "pppRxBuffer ?c" PPP_RX_BUFFER_SIZE "pppRxBufferLen ?c" ?k "pppRxReadIndex ?c" x] by (simp add: hdlc_rx_ok_def hdlc_rx_def)
  then show ?thesis unfolding e by (cases "x = PPP_FLAG_CHAR") (auto simp: hdlc_rx_ok_def hdlc_rx_def)
qed

section \<open>From one host to another\<close>

text \<open>The numbers RFC 1661 allows for protocols: the last byte is odd, the first even, and 0x00FF is reserved.\<close>

definition valid_protocol :: "u16 \<Rightarrow> bool" where
  "valid_protocol proto \<longleftrightarrow> (ucast proto :: u8) AND 1 \<noteq> 0 \<and> (ucast (drop_bit 8 proto) :: u8) AND 1 = 0 \<and> proto \<noteq> 0x00FF"

definition ppp_header_bytes :: "PppConfig \<Rightarrow> u16 \<Rightarrow> u8 list" where
  "ppp_header_bytes cf proto = (if cfAcfc cf \<and> proto \<noteq> PPP_PROTOCOL_LCP then [] else [PPP_ADDR_FIELD, PPP_CTRL_FIELD]) @
     (if cfPfc cf \<and> drop_bit 8 proto = 0 then [ucast proto] else be16 proto)"

lemma header_length: "1 \<le> length (ppp_header_bytes cf proto) \<and> length (ppp_header_bytes cf proto) \<le> 4"
  by (simp add: ppp_header_bytes_def be16_def)

lemma low_byte:
  assumes "drop_bit 8 (proto :: u16) = 0"
  shows "ucast (ucast proto :: u8) = proto"
proof (rule bit_word_eqI)
  fix n :: nat
  have "\<not> bit proto n" if "\<not> n < 8" using arg_cong [OF assms, of "\<lambda>x. bit x (n - 8)"] that by (simp add: bit_drop_bit_eq)
  moreover assume "n < LENGTH(16)"
  ultimately show "bit (ucast (ucast proto :: u8) :: u16) n = bit proto n" by (auto simp: bit_ucast_iff)
qed

lemma parse_header:
  assumes "valid_protocol proto" and "take (length (ppp_header_bytes cf proto)) p = ppp_header_bytes cf proto" and "length (ppp_header_bytes cf proto) \<le> len"
  shows "pppParseFrameHeader p len = (length (ppp_header_bytes cf proto), proto)"
proof -
  let ?l = "ucast proto :: u8" and ?m = "ucast (drop_bit 8 proto) :: u8"
  have v: "?l AND 1 \<noteq> 0" "?m AND 1 = 0" "proto \<noteq> 0x00FF" using assms(1) by (auto simp: valid_protocol_def)
  have m: "?m \<noteq> 0xFF" using v(2) by auto
  have n: "p ! k = ppp_header_bytes cf proto ! k" if "k < length (ppp_header_bytes cf proto)" for k
    using assms(2) that by (metis nth_take)
  have z: "?l \<noteq> 0xFF" if "drop_bit 8 proto = 0"
  proof
    assume "?l = 0xFF"
    with low_byte [OF that] v(3) show False by simp
  qed
  show ?thesis
  proof (cases "cfAcfc cf \<and> proto \<noteq> PPP_PROTOCOL_LCP"; cases "cfPfc cf \<and> drop_bit 8 proto = 0")
    assume c: "cfAcfc cf \<and> proto \<noteq> PPP_PROTOCOL_LCP" "cfPfc cf \<and> drop_bit 8 proto = 0"
    with n [of 0] z v low_byte [of proto] assms(3) show ?thesis by (simp add: pppParseFrameHeader_def ppp_header_bytes_def Let_def)
  next
    assume c: "cfAcfc cf \<and> proto \<noteq> PPP_PROTOCOL_LCP" "\<not> (cfPfc cf \<and> drop_bit 8 proto = 0)"
    with n [of 0] n [of 1] m v assms(3) show ?thesis
      by (simp add: pppParseFrameHeader_def ppp_header_bytes_def Let_def be16_def)
  next
    assume c: "\<not> (cfAcfc cf \<and> proto \<noteq> PPP_PROTOCOL_LCP)" "cfPfc cf \<and> drop_bit 8 proto = 0"
    with n [of 0] n [of 1] n [of 2] v low_byte [of proto] assms(3) show ?thesis
      by (simp add: pppParseFrameHeader_def ppp_header_bytes_def Let_def)
  next
    assume c: "\<not> (cfAcfc cf \<and> proto \<noteq> PPP_PROTOCOL_LCP)" "\<not> (cfPfc cf \<and> drop_bit 8 proto = 0)"
    with n [of 0] n [of 1] n [of 2] n [of 3] v assms(3) show ?thesis
      by (simp add: pppParseFrameHeader_def ppp_header_bytes_def Let_def be16_def numeral_3_eq_3)
  qed
qed

lemma poke_before:
  assumes b: "nb_wf b" "chunk b = c # cs" and off: "length x \<le> off" "off \<le> chLength c" "x \<noteq> []"
  shows "drop (off - length x) (nb_bytes (netBufferPoke b (off - length x) x)) = x @ drop off (nb_bytes b)"
    and "nb_wf (netBufferPoke b (off - length x) x)" and "chunk (netBufferPoke b (off - length x) x) = chunk_put c (off - length x) x # cs"
    and "length (nb_bytes (netBufferPoke b (off - length x) x)) = length (nb_bytes b)"
proof -
  have len: "off \<le> length (nb_bytes b)" using b off by (simp add: nb_wf_def nb_bytes_def)
  have "0 < length x" using off(3) by simp
  then have o: "off - length x + length x \<le> chLength c" "off - length x < chLength c" using off(1,2) by linarith+
  note p = poke_first [OF b o]
  show "drop (off - length x) (nb_bytes (netBufferPoke b (off - length x) x)) = x @ drop off (nb_bytes b)"
    and "length (nb_bytes (netBufferPoke b (off - length x) x)) = length (nb_bytes b)"
    using len off unfolding p(1) by (simp_all add: list_write_def)
  show "nb_wf (netBufferPoke b (off - length x) x)" and "chunk (netBufferPoke b (off - length x) x) = chunk_put c (off - length x) x # cs"
    by (rule p(2), rule p(3))
qed

lemma chunk_head:
  assumes "nb_wf b" and "chunk b = c # cs" and "drop o' (nb_bytes b) = h @ t" and "o' + length h \<le> chLength c" and "o' < chLength c"
  shows "\<exists>a q. netBufferAt b o' = Some (a, q) \<and> take (length h) q = h"
proof -
  have w: "chLength c \<le> length (storage c)" using assms(1,2) by (simp add: nb_wf_def chunk_wf_def)
  have "nb_bytes b = take (chLength c) (storage c) @ chunks_bytes cs" using assms(2) by (simp add: nb_bytes_def chunk_bytes_def)
  then have "drop o' (nb_bytes b) = take (chLength c - o') (drop o' (storage c)) @ chunks_bytes cs"
    using assms(5) w by (simp add: drop_take)
  moreover have "length h \<le> chLength c - o'" "length h \<le> length (storage c) - o'" using assms(4) w by simp_all
  ultimately have "take (length h) (drop o' (nb_bytes b)) = take (length h) (drop o' (storage c))"
    by (simp add: min_absorb1)
  moreover have "take (length h) (drop o' (nb_bytes b)) = h" unfolding assms(3) by simp
  ultimately have "take (length h) (drop o' (storage c)) = h" by simp
  then show ?thesis using assms(2,5) by (simp add: netBufferAt_def)
qed

lemma chLength_put [simp]: "chLength (chunk_put c o' x) = chLength c"
  by (simp add: chunk_put_def)

lemma ppp_header_frame:
  assumes b: "nb_wf b" "chunk b = c # cs" and off: "4 \<le> off" "off \<le> chLength c"
  shows "\<exists>b' o'. ppp_header cf proto b off = (b', Some o') \<and> nb_wf b' \<and> chunkCount b' = chunkCount b \<and> maxChunkCount b' = maxChunkCount b \<and>
    o' = off - length (ppp_header_bytes cf proto) \<and> drop o' (nb_bytes b') = ppp_header_bytes cf proto @ drop off (nb_bytes b) \<and>
    length (nb_bytes b') = length (nb_bytes b) \<and>
    (\<exists>a q. netBufferAt b' o' = Some (a, q) \<and> take (length (ppp_header_bytes cf proto)) q = ppp_header_bytes cf proto)"
proof -
  define x where "x = (if cfPfc cf \<and> drop_bit 8 proto = 0 then [ucast proto] else be16 proto)"
  have n: "x \<noteq> []" "length x \<le> 2" "(if cfPfc cf \<and> drop_bit 8 proto = 0 then 1 else 2) = length x" by (simp_all add: x_def be16_def)
  have e: "(if length x = 1 then [ucast proto] else be16 proto) = x" by (simp add: x_def be16_def)
  have pos: "0 < length x" "off - length x < chLength c" using n(1,2) off by (cases x; auto)+
  have ox: "length x \<le> off" "\<not> off < length x" using n(2) off(1) by auto
  let ?b1 = "netBufferPoke b (off - length x) x"
  note p1 = poke_before [OF b ox(1) off(2) n(1)]
  have m1: "maxChunkCount ?b1 = maxChunkCount b" by (simp add: netBufferPoke_def)
  have hdr: "ppp_header cf proto b off =
    (if cfAcfc cf \<and> proto \<noteq> PPP_PROTOCOL_LCP then (?b1, Some (off - length x))
     else if off - length x < 2 then (?b1, None)
     else (netBufferPoke ?b1 (off - length x - 2) [PPP_ADDR_FIELD, PPP_CTRL_FIELD], Some (off - length x - 2)))"
    unfolding ppp_header_def n(3) Let_def e if_not_P [OF ox(2)] ..
  show ?thesis
  proof (cases "cfAcfc cf \<and> proto \<noteq> PPP_PROTOCOL_LCP")
    case True
    have h: "ppp_header_bytes cf proto = x" using True by (simp add: ppp_header_bytes_def x_def)
    have "\<exists>a q. netBufferAt ?b1 (off - length x) = Some (a, q) \<and> take (length x) q = x"
      by (rule chunk_head [OF p1(2,3,1)]) (use ox off n pos in auto)
    then show ?thesis using True p1 m1 b(2) unfolding h hdr by (intro exI [of _ ?b1] exI [of _ "off - length x"]) simp
  next
    case False
    let ?h = "[PPP_ADDR_FIELD, PPP_CTRL_FIELD]"
    let ?b2 = "netBufferPoke ?b1 (off - length x - length ?h) ?h"
    have h: "ppp_header_bytes cf proto = ?h @ x" using False by (simp add: ppp_header_bytes_def x_def)
    have o2: "length ?h \<le> off - length x" "off - length x \<le> chLength (chunk_put c (off - length x) x)" "?h \<noteq> []" using n(2) off by auto
    note p2 = poke_before [OF p1(2,3) o2]
    have d2: "drop (off - length x - length ?h) (nb_bytes ?b2) = (?h @ x) @ drop off (nb_bytes b)" unfolding p2(1) p1(1) by simp
    have "\<exists>a q. netBufferAt ?b2 (off - length x - length ?h) = Some (a, q) \<and> take (length (?h @ x)) q = ?h @ x"
      by (rule chunk_head [OF p2(2,3) d2]) (use ox off n pos in auto)
    moreover have "off - length x - length ?h = off - length (?h @ x)" by simp
    ultimately show ?thesis using False o2 p2 d2 p1(4) b(2) unfolding h hdr
      by (intro exI [of _ ?b2] exI [of _ "off - length x - length ?h"]) (auto simp: netBufferPoke_def)
  qed
qed

definition ppp_frame :: "PppConfig \<Rightarrow> u16 \<Rightarrow> u8 list \<Rightarrow> u8 list" where
  "ppp_frame cf proto P = (let D = ppp_header_bytes cf proto @ P in D @ le16 (pppCalcFcs D (length D)))"

definition ppp_accm :: "PppConfig \<Rightarrow> u16 \<Rightarrow> u32" where
  "ppp_accm cf proto = (if proto = PPP_PROTOCOL_IP \<or> proto = PPP_PROTOCOL_IPV6 then cfAccm cf else PPP_DEFAULT_ACCM)"

definition hdlc_line :: "u32 \<Rightarrow> u8 list \<Rightarrow> u8 list" where
  "hdlc_line accm F = PPP_FLAG_CHAR # concat (map (hdlc_escape accm) F) @ [PPP_FLAG_CHAR]"

lemma frame_length: "length (ppp_frame cf proto P) \<le> length P + 6"
  using header_length [of cf proto] by (simp add: ppp_frame_def Let_def le16_def)

lemma line_length: "length (hdlc_line accm F) \<le> 2 * length F + 2"
proof -
  have "length (concat (map (hdlc_escape accm) F)) \<le> 2 * length F"
    by (induction F) (auto simp: hdlc_escape_def)
  then show ?thesis by (simp add: hdlc_line_def)
qed

lemma chunk_at_append: "chunk_at cs off = Some v \<Longrightarrow> chunk_at (cs @ ds) off = Some v"
  by (induction cs off rule: chunk_at.induct) (auto split: if_splits)

lemma pppSendFrame_line:
  assumes b: "nb_wf b" "chunk b = c # cs" "4 \<le> off" "off \<le> chLength c" "chunkCount b < maxChunkCount b"
    and w: "hdlc_tx_ok (pctx w)" "nicTxEvent w" "configured (pppIf w)" "nicDriver (pppIf w) \<noteq> None"
    and proto: "valid_protocol proto" and F: "F = ppp_frame (peerConfig (pctx w)) proto (drop off (nb_bytes b))"
    and L: "L = hdlc_line (ppp_accm (peerConfig (pctx w)) proto) F" "pppTxBufferLen (pctx w) + length L \<le> PPP_TX_BUFFER_SIZE"
  shows "\<exists>b' w'. pppSendFrame b off proto w = Some (NO_ERROR, b', w') \<and> hdlc_tx_ok (pctx w') \<and> hdlc_tx (pctx w') = hdlc_tx (pctx w) @ L \<and>
    pppTxBufferLen (pctx w') = pppTxBufferLen (pctx w) + length L \<and> uartLine w' = uartLine w"
proof -
  let ?cf = "peerConfig (pctx w)" and ?h = "ppp_header_bytes (peerConfig (pctx w)) proto" and ?D = "ppp_header_bytes (peerConfig (pctx w)) proto @ drop off (nb_bytes b)"
  from ppp_header_frame [OF b(1-4), of ?cf proto] obtain b1 o1 a q where
    h: "ppp_header ?cf proto b off = (b1, Some o1)" "nb_wf b1" "chunkCount b1 = chunkCount b" "maxChunkCount b1 = maxChunkCount b"
      "drop o1 (nb_bytes b1) = ?D" "netBufferAt b1 o1 = Some (a, q)" "take (length ?h) q = ?h" by blast
  have o1: "o1 \<le> length (nb_bytes b1)"
  proof (rule ccontr)
    assume "\<not> ?thesis"
    then have "?D = []" unfolding h(5) [symmetric] by simp
    with header_length [of ?cf proto] show False by auto
  qed
  have len: "netBufferGetLength b1 - o1 = length ?D" unfolding h(5) [symmetric] using netBufferGetLength_bytes [OF h(2)] by simp
  have fcs: "pppCalcFcsEx b1 o1 (length ?D) = pppCalcFcs ?D (length ?D)" unfolding pppCalcFcsEx_flat [OF h(2)] h(5) ..
  let ?f = "le16 (pppCalcFcs ?D (length ?D))"
  let ?b2 = "b1\<lparr>chunk := chunk b1 @ [\<lparr>address = 0, storage = ?f, chLength = 2, chSize = 0\<rparr>]\<rparr>"
  have app: "netBufferAppend b1 0 ?f 2 = (NO_ERROR, ?b2)" using b(5) h(3,4) by (simp add: netBufferAppend_def)
  have wf2: "\<forall>d \<in> set (chunk ?b2). chunk_wf d" using h(2) by (auto simp: nb_wf_def chunk_wf_def le16_def)
  have "chunks_bytes (chunk ?b2) = nb_bytes b1 @ ?f" by (simp add: nb_bytes_def chunk_bytes_def le16_def)
  then have D2: "drop o1 (chunks_bytes (chunk ?b2)) = F" using o1 h(5) by (simp add: F ppp_frame_def Let_def)
  have at2: "netBufferAt ?b2 o1 = Some (a, q)" using h(6) chunk_at_append by (simp add: netBufferAt_def)
  have pr: "snd (pppParseFrameHeader q PPP_FRAME_HEADER_SIZE) = proto"
    using parse_header [OF proto h(7), of 4] header_length [of ?cf proto] by simp
  let ?c1 = "write_tx L (pctx w)"
  have wr: "write_tx [PPP_FLAG_CHAR] (hdlc_chunks (ppp_accm ?cf proto) (chunk ?b2) o1 (write_tx [PPP_FLAG_CHAR] (pctx w))) = ?c1"
    unfolding hdlc_chunks_write [OF wf2] D2 L(1) hdlc_line_def write_tx_append [symmetric] by simp
  have send: "pppHdlcDriverSendPacket ?b2 o1 (w\<lparr>nicTxEvent := False\<rparr>) =
    Some (NO_ERROR, if pppTxBufferLen ?c1 \<le> PPP_TX_BUFFER_SIZE - PPP_RESERVE then (w\<lparr>nicTxEvent := True, pctx := ?c1\<rparr>) else w\<lparr>nicTxEvent := False, pctx := ?c1\<rparr>)"
    unfolding pppHdlcDriverSendPacket_def at2 option.case prod.case Let_def pr ppp_accm_def [symmetric] put_ppp_def
    using wr by (simp add: ppp_accm_def)
  have nc: "\<not> (\<not> configured (pppIf w) \<or> nicDriver (pppIf w) = None)" using w(3,4) by blast
  have nic: "nicSendPacket_ppp ?b2 o1 w = pppHdlcDriverSendPacket ?b2 o1 (w\<lparr>nicTxEvent := False\<rparr>)"
    unfolding nicSendPacket_ppp_def if_not_P [OF nc] Let_def if_P [OF w(2)] ..
  have "\<exists>w'. pppSendFrame b off proto w = Some (NO_ERROR, ?b2, w') \<and> pctx w' = ?c1 \<and> uartLine w' = uartLine w"
    unfolding pppSendFrame_def h(1) prod.case option.case len Let_def fcs app nic send by simp
  then show ?thesis using write_tx_queue [OF w(1) L(2)] by auto
qed

section \<open>At the receiver\<close>

lemma flag_not_escaped: "PPP_FLAG_CHAR \<notin> set (hdlc_escape accm p)"
  using low_char [of p] by (auto simp: hdlc_escape_def)

text \<open>The receive queue is the only part of the interface that has changed.\<close>

definition same_but_line :: "ppp \<Rightarrow> ppp \<Rightarrow> bool" where
  "same_but_line w w' \<longleftrightarrow> w' = w\<lparr>pctx := (pctx w)\<lparr>pppRxBuffer := pppRxBuffer (pctx w'), pppRxWriteIndex := pppRxWriteIndex (pctx w'),
     pppRxBufferLen := pppRxBufferLen (pctx w'), pppRxReadIndex := pppRxReadIndex (pctx w'), pppRxFrameCount := pppRxFrameCount (pctx w')\<rparr>, nicEvent := nicEvent w'\<rparr>"

lemma same_but_line_trans: "same_but_line w w1 \<Longrightarrow> same_but_line w1 w2 \<Longrightarrow> same_but_line w w2"
  unfolding same_but_line_def by (cases w; cases w1; cases w2; cases "pctx w"; cases "pctx w1"; cases "pctx w2") simp

lemma write_rx_same: "same_but_line w (pppHdlcDriverWriteRxQueue x w)"
  by (simp add: same_but_line_def pppHdlcDriverWriteRxQueue_def put_ppp_def Let_def)

lemma write_rx_line:
  "hdlc_rx_ok (pctx r) \<Longrightarrow> pppRxBufferLen (pctx r) + length L \<le> PPP_RX_BUFFER_SIZE \<Longrightarrow>
    hdlc_rx_ok (pctx (foldl (\<lambda>w x. pppHdlcDriverWriteRxQueue x w) r L)) \<and>
    hdlc_rx (pctx (foldl (\<lambda>w x. pppHdlcDriverWriteRxQueue x w) r L)) = hdlc_rx (pctx r) @ L \<and>
    pppRxFrameCount (pctx (foldl (\<lambda>w x. pppHdlcDriverWriteRxQueue x w) r L)) = pppRxFrameCount (pctx r) + count_list L PPP_FLAG_CHAR \<and>
    same_but_line r (foldl (\<lambda>w x. pppHdlcDriverWriteRxQueue x w) r L)"
proof (induction L arbitrary: r)
  case Nil
  then show ?case by (simp add: same_but_line_def)
next
  case (Cons x L)
  from write_rx_one [of r x] Cons.prems have o: "hdlc_rx_ok (pctx (pppHdlcDriverWriteRxQueue x r))"
    "hdlc_rx (pctx (pppHdlcDriverWriteRxQueue x r)) = hdlc_rx (pctx r) @ [x]"
    "pppRxBufferLen (pctx (pppHdlcDriverWriteRxQueue x r)) = Suc (pppRxBufferLen (pctx r))"
    "pppRxFrameCount (pctx (pppHdlcDriverWriteRxQueue x r)) = pppRxFrameCount (pctx r) + (if x = PPP_FLAG_CHAR then 1 else 0)" by auto
  from Cons.IH [OF o(1)] o(2-4) Cons.prems(2) same_but_line_trans [OF write_rx_same [of r x]] show ?case by simp
qed

lemma line_flags: "count_list (hdlc_line accm F) PPP_FLAG_CHAR = 2"
proof -
  have "count_list (concat (map (hdlc_escape accm) F)) PPP_FLAG_CHAR = 0"
    using flag_not_escaped by (induction F) (simp_all add: count_list_0_iff)
  then show ?thesis by (simp add: hdlc_line_def)
qed

lemma unstuff_same: "same_but_rx (pctx w) c \<Longrightarrow> same_but_line w (w\<lparr>pctx := c\<rparr>)"
  unfolding same_but_rx_def same_but_line_def by (cases w; cases "pctx w"; cases c) simp

lemma count_same: "same_but_line w (put_ppp (\<lambda>c. c\<lparr>pppRxFrameCount := n\<rparr>) w)"
  by (simp add: same_but_line_def put_ppp_def)

lemma same_but_line_keeps:
  assumes "same_but_line w w'"
  shows "pppPhase (pctx w') = pppPhase (pctx w)" and "configured (pppIf w') = configured (pppIf w)" and "localConfig (pctx w') = localConfig (pctx w)"
  using assms unfolding same_but_line_def by (cases w; cases w'; cases "pctx w"; cases "pctx w'"; simp)+

lemma receive_flag:
  assumes "hdlc_rx_ok (pctx r)" and "hdlc_rx (pctx r) = PPP_FLAG_CHAR # xs"
  shows "\<exists>r1. pppHdlcDriverReceivePacket process r = Some r1 \<and> same_but_line r r1 \<and> hdlc_rx_ok (pctx r1) \<and> hdlc_rx (pctx r1) = xs \<and>
    pppRxFrameCount (pctx r1) = pppRxFrameCount (pctx r)"
proof -
  from unstuff_flag [OF assms, of "[]" "cfAccm (localConfig (pctx r))"] obtain c where c: "unstuff (cfAccm (localConfig (pctx r))) [] False (pctx r) = ([], c)"
    "hdlc_rx_ok c" "hdlc_rx c = xs" "same_but_rx (pctx r) c" by auto
  have "pppRxFrameCount c = pppRxFrameCount (pctx r)" using c(4) unfolding same_but_rx_def by (cases c; cases "pctx r") simp
  with c unstuff_same [OF c(4)] show ?thesis by (simp add: pppHdlcDriverReceivePacket_def)
qed

lemma receive_frame:
  assumes "hdlc_rx_ok (pctx r)" and "hdlc_rx (pctx r) = concat (map (hdlc_escape sa) F) @ [PPP_FLAG_CHAR]" and "length F < PPP_MAX_FRAME_SIZE" and "F \<noteq> []"
    and "\<forall>n < 32. bit (cfAccm (localConfig (pctx r))) n \<longrightarrow> bit sa n" and "configured (pppIf r)"
  shows "\<exists>r1. pppHdlcDriverReceivePacket process r = process F r1 \<and> same_but_line r r1 \<and> hdlc_rx_ok (pctx r1) \<and> hdlc_rx (pctx r1) = [] \<and>
    pppRxFrameCount (pctx r1) = pppRxFrameCount (pctx r)"
proof -
  from unstuff_frame [OF assms(1,2), of "[]" "cfAccm (localConfig (pctx r))"] assms(3,5) obtain c where
    c: "unstuff (cfAccm (localConfig (pctx r))) [] False (pctx r) = (F, c)" "hdlc_rx_ok c" "hdlc_rx c = []" "same_but_rx (pctx r) c" by auto
  have "pppRxFrameCount c = pppRxFrameCount (pctx r)" using c(4) unfolding same_but_rx_def by (cases c; cases "pctx r") simp
  with c unstuff_same [OF c(4)] assms(4,6) show ?thesis by (intro exI [of _ "r\<lparr>pctx := c\<rparr>"]) (simp add: pppHdlcDriverReceivePacket_def)
qed

lemma receive_line:
  assumes r: "hdlc_rx_ok (pctx r)" "hdlc_rx (pctx r) = hdlc_line sa F" "pppRxFrameCount (pctx r) = 2" "configured (pppIf r)" "pppPhase (pctx r) \<noteq> PPP_PHASE_DEAD"
    and F: "length F < PPP_MAX_FRAME_SIZE" "F \<noteq> []" "\<forall>n < 32. bit (cfAccm (localConfig (pctx r))) n \<longrightarrow> bit sa n"
    and p: "\<And>w1 w2. process F w1 = Some w2 \<Longrightarrow> pppRxFrameCount (pctx w2) = pppRxFrameCount (pctx w1)"
  shows "\<exists>r1. same_but_line r r1 \<and> hdlc_rx (pctx r1) = [] \<and>
    pppHdlcDriverEventHandler process r = map_option (put_ppp (\<lambda>c. c\<lparr>pppRxFrameCount := 0\<rparr>)) (process F r1)"
proof -
  from receive_flag [OF r(1) r(2) [unfolded hdlc_line_def], of process] obtain r1 where r1: "pppHdlcDriverReceivePacket process r = Some r1" "same_but_line r r1"
    "hdlc_rx_ok (pctx r1)" "hdlc_rx (pctx r1) = concat (map (hdlc_escape sa) F) @ [PPP_FLAG_CHAR]" "pppRxFrameCount (pctx r1) = 2" using r(3) by auto
  let ?r2 = "put_ppp (\<lambda>c. c\<lparr>pppRxFrameCount := 1\<rparr>) r1"
  have same: "same_but_line r ?r2" by (rule same_but_line_trans [OF r1(2) count_same])
  have rx2: "hdlc_rx_ok (pctx ?r2)" "hdlc_rx (pctx ?r2) = concat (map (hdlc_escape sa) F) @ [PPP_FLAG_CHAR]"
    using r1(3,4) by (simp_all add: put_ppp_def hdlc_rx_ok_def hdlc_rx_def)
  have "\<forall>n < 32. bit (cfAccm (localConfig (pctx ?r2))) n \<longrightarrow> bit sa n" "configured (pppIf ?r2)" unfolding same_but_line_keeps [OF same] using F(3) r(4) by auto
  from receive_frame [OF rx2 F(1,2) this, of process] obtain r3 where r3: "pppHdlcDriverReceivePacket process ?r2 = process F r3" "same_but_line ?r2 r3"
    "hdlc_rx (pctx r3) = []" "pppRxFrameCount (pctx r3) = 1" by (auto simp: put_ppp_def)
  have e1: "put_ppp (\<lambda>c. c\<lparr>pppRxFrameCount := pppRxFrameCount c - 1\<rparr>) r1 = ?r2" using r1(5) by (simp add: put_ppp_def)
  have c2: "pppRxFrameCount (pctx ?r2) = 1" by (simp add: put_ppp_def)
  have "hdlc_events process r = hdlc_events process ?r2"
    by (subst hdlc_events.simps) (simp add: r(3) r1(1) e1 del: One_nat_def)
  also have "\<dots> = Option.bind (process F r3) (\<lambda>w. hdlc_events process (put_ppp (\<lambda>c. c\<lparr>pppRxFrameCount := pppRxFrameCount c - 1\<rparr>) w))"
    by (subst hdlc_events.simps) (simp add: r3(1) c2 del: One_nat_def)
  also have "\<dots> = map_option (put_ppp (\<lambda>c. c\<lparr>pppRxFrameCount := 0\<rparr>)) (process F r3)"
  proof (cases "process F r3")
    case (Some w2)
    have e3: "put_ppp (\<lambda>c. c\<lparr>pppRxFrameCount := pppRxFrameCount c - 1\<rparr>) w2 = put_ppp (\<lambda>c. c\<lparr>pppRxFrameCount := 0\<rparr>) w2"
      using p [OF Some] r3(4) by (simp add: put_ppp_def)
    have "hdlc_events process (put_ppp (\<lambda>c. c\<lparr>pppRxFrameCount := 0\<rparr>) w2) = Some (put_ppp (\<lambda>c. c\<lparr>pppRxFrameCount := 0\<rparr>) w2)"
      by (subst hdlc_events.simps) (simp add: put_ppp_def)
    then show ?thesis using Some e3 by (simp del: One_nat_def)
  qed simp
  finally show ?thesis using r(5) r3(3) same_but_line_trans [OF same r3(2)] by (auto simp: pppHdlcDriverEventHandler_def)
qed

lemma process_frame:
  assumes "valid_protocol proto"
  shows "pppProcessFrame h (ppp_frame cf proto P) = ppp_dispatch h proto P"
proof -
  let ?hb = "ppp_header_bytes cf proto"
  let ?D = "?hb @ P"
  have f: "ppp_frame cf proto P = ?D @ le16 (pppCalcFcs ?D (length ?D))" by (simp add: ppp_frame_def Let_def)
  have l: "length (ppp_frame cf proto P) = length ?D + 2" by (simp add: f le16_def)
  have fcs: "pppCalcFcs (ppp_frame cf proto P) (length (ppp_frame cf proto P)) = 0x0F47"
    unfolding l unfolding f by (rule fcs_verifies)
  have t: "take (length ?D) (ppp_frame cf proto P) = ?D" by (simp add: f)
  have pr: "pppParseFrameHeader (ppp_frame cf proto P) (length ?D) = (length ?hb, proto)"
    by (rule parse_header [OF assms]) (simp_all add: f)
  have n: "length ?hb \<noteq> 0" using header_length [of cf proto] by linarith
  have l2: "length (ppp_frame cf proto P) - 2 = length ?D" "\<not> length (ppp_frame cf proto P) < 2" using l by simp_all
  show ?thesis
    unfolding pppProcessFrame_def fcs l2(1) pr t Let_def prod.case if_not_P [OF n] if_not_P [OF l2(2)] by simp
qed

lemma frame_not_empty: "ppp_frame cf proto P \<noteq> []"
  by (simp add: ppp_frame_def Let_def le16_def)

text \<open>
  Property C24. A packet travels over a PPP line. A host puts the header and the check sequence around a payload that starts where
  a chunk leaves room for the header, stuffs the frame and queues it; the UART carries the characters to another host that
  escapes at most the characters the sender escapes, and that host's task hands exactly the payload to the handler of its protocol,
  with nothing but the receive queue changed on the way and the queue empty again.
\<close>

theorem ppp_transfer:
  assumes "nb_wf b" and "chunk b = c # cs" and "4 \<le> off" and "off \<le> chLength c" and "chunkCount b < maxChunkCount b"
    and "hdlc_tx_ok (pctx w)" and "pppTxBufferLen (pctx w) = 0" and "uartLine w = []" and "nicTxEvent w"
    and "configured (pppIf w)" and "nicDriver (pppIf w) \<noteq> None" and "valid_protocol proto" and "netBufferGetLength b - off < 1500"
    and "hdlc_rx_ok (pctx r)" and "pppRxBufferLen (pctx r) = 0" and "pppRxFrameCount (pctx r) = 0"
    and "configured (pppIf r)" and "pppPhase (pctx r) \<noteq> PPP_PHASE_DEAD"
    and "\<forall>n < 32. bit (cfAccm (localConfig (pctx r))) n \<longrightarrow> bit (ppp_accm (peerConfig (pctx w)) proto) n"
    and "\<And>r1 r2. ppp_dispatch h proto (drop off (nb_bytes b)) r1 = Some r2 \<Longrightarrow> pppRxFrameCount (pctx r2) = pppRxFrameCount (pctx r1)"
  shows "\<exists>b' w' r1. pppSendFrame b off proto w = Some (NO_ERROR, b', w') \<and> same_but_line r r1 \<and> hdlc_rx (pctx r1) = [] \<and>
    pppHdlcDriverEventHandler (pppProcessFrame h) (foldl (\<lambda>r x. pppHdlcDriverWriteRxQueue x r) r (uartLine (uart_run PPP_TX_BUFFER_SIZE w'))) =
      map_option (put_ppp (\<lambda>c. c\<lparr>pppRxFrameCount := 0\<rparr>)) (ppp_dispatch h proto (drop off (nb_bytes b)) r1)"
proof -
  define P where "P = drop off (nb_bytes b)"
  define F where "F = ppp_frame (peerConfig (pctx w)) proto P"
  define L where "L = hdlc_line (ppp_accm (peerConfig (pctx w)) proto) F"
  have lF: "length F < PPP_MAX_FRAME_SIZE" using frame_length [of "peerConfig (pctx w)" proto P] assms(13) netBufferGetLength_bytes [OF assms(1)] by (simp add: F_def P_def)
  with line_length [of "ppp_accm (peerConfig (pctx w)) proto" F] have lL: "length L \<le> 3014" by (simp add: L_def)
  have room: "pppTxBufferLen (pctx w) + length L \<le> PPP_TX_BUFFER_SIZE" using lL assms(7) by simp
  from pppSendFrame_line [OF assms(1-6,9-12) F_def [unfolded P_def] L_def room] obtain b' w' where
    s: "pppSendFrame b off proto w = Some (NO_ERROR, b', w')" "hdlc_tx_ok (pctx w')" "hdlc_tx (pctx w') = hdlc_tx (pctx w) @ L" "uartLine w' = uartLine w" by blast
  have line: "uartLine (uart_run PPP_TX_BUFFER_SIZE w') = L"
    using uart_run_line [OF s(2), of PPP_TX_BUFFER_SIZE] s(3,4) assms(7,8) lL by (simp add: hdlc_tx_def)
  let ?r = "foldl (\<lambda>r x. pppHdlcDriverWriteRxQueue x r) r L"
  have fits: "pppRxBufferLen (pctx r) + length L \<le> PPP_RX_BUFFER_SIZE" using lL assms(15) by simp
  note fed = write_rx_line [OF assms(14) fits]
  have same: "same_but_line r ?r" using fed by blast
  have rx: "hdlc_rx (pctx ?r) = hdlc_line (ppp_accm (peerConfig (pctx w)) proto) F" using fed assms(15) by (simp add: L_def hdlc_rx_def [of "pctx r"])
  have cnt: "pppRxFrameCount (pctx ?r) = 2" using fed assms(16) line_flags [of "ppp_accm (peerConfig (pctx w)) proto" F] by (simp add: L_def)
  have "\<exists>r1. same_but_line ?r r1 \<and> hdlc_rx (pctx r1) = [] \<and>
    pppHdlcDriverEventHandler (pppProcessFrame h) ?r = map_option (put_ppp (\<lambda>c. c\<lparr>pppRxFrameCount := 0\<rparr>)) (pppProcessFrame h F r1)"
    by (rule receive_line [OF _ rx cnt _ _ lF])
      (use fed assms(17-20) frame_not_empty process_frame [OF assms(12)] in \<open>simp_all add: same_but_line_keeps [OF same] F_def P_def\<close>)
  then obtain r1 where "same_but_line ?r r1" "hdlc_rx (pctx r1) = []"
    "pppHdlcDriverEventHandler (pppProcessFrame h) ?r = map_option (put_ppp (\<lambda>c. c\<lparr>pppRxFrameCount := 0\<rparr>)) (pppProcessFrame h F r1)" by blast
  then have "same_but_line r r1 \<and> hdlc_rx (pctx r1) = [] \<and>
    pppHdlcDriverEventHandler (pppProcessFrame h) ?r = map_option (put_ppp (\<lambda>c. c\<lparr>pppRxFrameCount := 0\<rparr>)) (ppp_dispatch h proto (drop off (nb_bytes b)) r1)"
    using same_but_line_trans [OF same] process_frame [OF assms(12), of h] by (simp add: F_def P_def)
  then show ?thesis using s(1) by (intro exI [of _ b'] exI [of _ w'] exI [of _ r1]) (simp only: line simp_thms)
qed

definition example_fsm :: PppFsm where
  "example_fsm = \<lparr>fsmState = PPP_STATE_9_OPENED, fsmIdentifier = 1, fsmRestartCounter = 0, fsmFailureCounter = 5, fsmTimestamp = 0\<rparr>"

definition example_config :: PppConfig where
  "example_config = \<lparr>cfMru = 1500, cfMruRejected = False, cfAccm = PPP_DEFAULT_ACCM, cfAccmRejected = False, cfAuthProtocol = 0, cfAuthAlgo = 0,
     cfAuthProtocolRejected = False, cfMagicNumber = 0, cfMagicNumberRejected = False, cfPfc = True, cfPfcRejected = False, cfAcfc = False,
     cfAcfcRejected = False, cfIpAddr = 0, cfIpAddrRejected = False, cfPrimaryDns = 0, cfPrimaryDnsRejected = False, cfSecondaryDns = 0,
     cfSecondaryDnsRejected = False\<rparr>"

definition example_ppp :: ppp where
  "example_ppp = \<lparr>pctx = \<lparr>pppSettings = \<lparr>setMru = 1500, setAccm = 0, setAuthProtocol = 0, setAuthCallback = False\<rparr>, pppTimeout = 0, pppUsername = [],
       pppPassword = [], peerName = [], localAuthDone = True, peerAuthDone = True, pppPhase = PPP_PHASE_NETWORK, lcpFsm = example_fsm,
       ipcpFsm = example_fsm, papFsm = \<lparr>papLocalState = PAP_STATE_0_INITIAL, papPeerState = PAP_STATE_0_INITIAL, papIdentifier = 0,
         papRestartCounter = 0, papTimestamp = 0, papPassword = [], papPasswordLen = 0\<rparr>, localConfig = example_config, peerConfig = example_config,
       ipRejected = False, ipv6Rejected = False, pppTxBuffer = replicate PPP_TX_BUFFER_SIZE 0, pppTxBufferLen = 0, pppTxWriteIndex = 0, pppTxReadIndex = 0,
       pppRxBuffer = replicate PPP_RX_BUFFER_SIZE 0, pppRxBufferLen = 0, pppRxWriteIndex = 0, pppRxReadIndex = 0, pppRxFrameCount = 0\<rparr>,
     px = example_ctx, pppIf = example_if [], nicTxEvent = True, nicEvent = False, pppLinkState = True, linkChanges = [], uartReads = (\<lambda>n. 0), uartLine = []\<rparr>"

definition example_payload :: NetBuffer where
  "example_payload = \<lparr>maxChunkCount = 4, chunk = [\<lparr>address = 1, storage = [0, 0, 0, 0, 0x7E, 0x11, 0x7D], chLength = 7, chSize = 7\<rparr>]\<rparr>"

theorem ppp_transfer_witness:
  "\<exists>b' w' r'. pppSendFrame example_payload 4 PPP_PROTOCOL_IP example_ppp = Some (NO_ERROR, b', w') \<and>
     pppHdlcDriverEventHandler (pppProcessFrame \<lparr>hdLcp = \<lambda>p. Some, hdIpcp = \<lambda>p. Some, hdIp = \<lambda>p w. Some (w\<lparr>uartLine := p\<rparr>), hdPap = \<lambda>p. Some, hdUnknown = \<lambda>n p. Some\<rparr>)
       (foldl (\<lambda>r x. pppHdlcDriverWriteRxQueue x r) example_ppp (uartLine (uart_run PPP_TX_BUFFER_SIZE w'))) = Some r' \<and>
     uartLine r' = [0x7E, 0x11, 0x7D]"
proof -
  let ?h = "\<lparr>hdLcp = \<lambda>p. Some, hdIpcp = \<lambda>p. Some, hdIp = \<lambda>p w. Some (w\<lparr>uartLine := p\<rparr>), hdPap = \<lambda>p. Some, hdUnknown = \<lambda>n p. Some\<rparr>"
  have p: "drop 4 (nb_bytes example_payload) = [0x7E, 0x11, 0x7D]" by (simp add: nb_bytes_def example_payload_def chunk_bytes_def)
  have d: "ppp_dispatch ?h PPP_PROTOCOL_IP xs r1 = Some (r1\<lparr>uartLine := xs\<rparr>)" for xs r1 by (simp add: ppp_dispatch_def)
  have "valid_protocol PPP_PROTOCOL_IP" by (simp add: valid_protocol_def)
  then show ?thesis
    using ppp_transfer [of example_payload "\<lparr>address = 1, storage = [0, 0, 0, 0, 0x7E, 0x11, 0x7D], chLength = 7, chSize = 7\<rparr>" "[]" 4 example_ppp PPP_PROTOCOL_IP example_ppp ?h]
    unfolding p d
    by (auto simp: example_payload_def example_ppp_def example_config_def example_if_def nb_wf_def chunk_wf_def hdlc_tx_ok_def hdlc_rx_ok_def
        netBufferGetLength_def ppp_accm_def put_ppp_def)
qed

theorem fcs_detects_witness:
  "pppCalcFcs ([0x7E, 0x11, 0x7D] @ le16 (pppCalcFcsEx example_payload 4 3)) 5 = 0x0F47 \<and>
   pppCalcFcs ([0x11, 0x7E, 0x7D] @ le16 (pppCalcFcsEx example_payload 4 3)) 5 \<noteq> 0x0F47"
proof -
  let ?post = "0x7D # le16 (pppCalcFcsEx example_payload 4 3)"
  have D: "drop 4 (nb_bytes example_payload) = [0x7E, 0x11, 0x7D]" "nb_wf example_payload"
    by (simp_all add: nb_bytes_def example_payload_def chunk_bytes_def nb_wf_def chunk_wf_def)
  let ?F = "[0x7E, 0x11, 0x7D] @ le16 (pppCalcFcsEx example_payload 4 3)" and ?G = "[0x11, 0x7E, 0x7D] @ le16 (pppCalcFcsEx example_payload 4 3)"
  have l: "length ?F = 5" "length ?G = 5" "length [0x7E, 0x11, 0x7D :: u8] = 3" by (simp_all add: le16_def)
  have "pppCalcFcs ?F (length ?F) = 0x0F47 \<and> pppCalcFcs ?G (length ?G) \<noteq> 0x0F47"
    by (rule fcs_detects [OF D(2) D(1) [symmetric], of ?F "[]" "0x7E" "0x11" ?post "0x11" "0x7E", unfolded l(3)]) simp_all
  then show ?thesis unfolding l .
qed

end
