(* ===== verification/Ppp_Safety.thy ===== *)
theory Ppp_Safety
  imports Ppp_Session Ppp_Frames
begin

text \<open>
  What sending and the callbacks of the control protocols of PPP leave alone, and that the automata of LCP and IPCP are those of
  RFC 1661.
\<close>

section \<open>What sending leaves alone\<close>

text \<open>The part of the state the control protocols decide by.\<close>

definition ppp_control :: "ppp \<Rightarrow> PppFsm \<times> PppFsm \<times> PapFsm \<times> PppPhase \<times> bool \<times> bool \<times> PppConfig \<times> PppConfig \<times> PppSettings" where
  "ppp_control w = (let c = pctx w in (lcpFsm c, ipcpFsm c, papFsm c, pppPhase c, localAuthDone c, peerAuthDone c, localConfig c, peerConfig c, pppSettings c))"

lemma control_px [simp]: "ppp_control (w\<lparr>px := x\<rparr>) = ppp_control w"
  by (simp add: ppp_control_def)

lemma control_tx: "same_but_tx (pctx w) c \<Longrightarrow> ppp_control (w\<lparr>pctx := c\<rparr>) = ppp_control w"
  unfolding same_but_tx_def by (cases "pctx w"; cases c) (simp add: ppp_control_def)

lemma control_uart: "ppp_control (uart_run n w) = ppp_control w"
proof (induction n arbitrary: w)
  case (Suc n)
  have "ppp_control (snd (pppHdlcDriverReadTxQueue w)) = ppp_control w"
    by (simp add: pppHdlcDriverReadTxQueue_def ppp_control_def put_ppp_def Let_def)
  moreover have "ppp_control (w\<lparr>uartLine := l\<rparr>) = ppp_control w" for w l by (simp add: ppp_control_def)
  ultimately show ?case using Suc by (auto split: prod.splits option.splits)
qed simp

lemma chunks_same_tx: "same_but_tx c (hdlc_chunks accm ds off c)"
proof (induction ds arbitrary: off c)
  case Nil
  show ?case by (simp add: same_but_tx_def)
next
  case (Cons d ds)
  have "same_but_tx c (foldl (\<lambda>c p. write_tx (hdlc_escape accm p) c) c ps)" for ps by (simp add: write_tx_concat write_tx_same)
  from same_but_tx_trans [OF this Cons.IH] Cons.IH show ?case by simp
qed

lemma control_send: "pppHdlcDriverSendPacket b off w = Some (e, w') \<Longrightarrow> ppp_control w' = ppp_control w"
proof -
  have s: "same_but_tx c (write_tx ys (hdlc_chunks accm ds o' (write_tx xs c)))" for c xs ys accm ds o'
    by (rule same_but_tx_trans [OF write_tx_same same_but_tx_trans [OF chunks_same_tx write_tx_same]])
  have "ppp_control (w\<lparr>nicTxEvent := v\<rparr>) = ppp_control w" for w v by (simp add: ppp_control_def)
  moreover assume "pppHdlcDriverSendPacket b off w = Some (e, w')"
  ultimately show ?thesis
    by (auto simp: pppHdlcDriverSendPacket_def put_ppp_def Let_def control_tx [OF s] split: option.splits prod.splits if_splits)
qed

lemma control_nic: "nicSendPacket_ppp b off w = Some (e, w') \<Longrightarrow> ppp_control w' = ppp_control w"
proof -
  have "ppp_control (w\<lparr>nicTxEvent := v\<rparr>) = ppp_control w" for w v by (simp add: ppp_control_def)
  moreover assume "nicSendPacket_ppp b off w = Some (e, w')"
  ultimately show ?thesis
    by (auto simp: nicSendPacket_ppp_def Let_def control_uart dest!: control_send split: if_splits)
qed

lemma control_frame: "pppSendFrame b off proto w = Some (e, b', w') \<Longrightarrow> ppp_control w' = ppp_control w"
  by (auto simp: pppSendFrame_def Let_def dest!: control_nic split: option.splits prod.splits if_splits)

lemma control_free: "ppp_send_free proto a b off w = Some (e, w') \<Longrightarrow> ppp_control w' = ppp_control w"
  by (auto simp: ppp_send_free_def dest!: control_frame split: option.splits)

lemma control_bytes: "ppp_send_bytes proto a b off bytes w = Some (e, w') \<Longrightarrow> ppp_control w' = ppp_control w"
  by (auto simp: ppp_send_bytes_def Let_def dest!: control_free split: option.splits prod.splits if_splits)

lemma control_append: "ppp_send_append proto header data n w = Some (e, w') \<Longrightarrow> ppp_control w' = ppp_control w"
  by (auto simp: ppp_send_append_def Let_def dest!: control_free split: option.splits prod.splits if_splits)

lemma control_header: "ppp_send_header code ident proto w = Some (e, w') \<Longrightarrow> ppp_control w' = ppp_control w"
  by (auto simp: ppp_send_header_def Let_def dest!: control_free split: option.splits prod.splits)

section \<open>What the callbacks leave alone\<close>

text \<open>The states of the automata, the phase, who is authenticated, and what authentication is asked for.\<close>

definition ppp_states :: "ppp \<Rightarrow> PppState \<times> PppState \<times> PppPhase \<times> bool \<times> bool \<times> PapState \<times> PppConfig \<times> PppSettings" where
  "ppp_states w = (let c = pctx w in (fsmState (lcpFsm c), fsmState (ipcpFsm c), pppPhase c, localAuthDone c, peerAuthDone c,
     papLocalState (papFsm c), localConfig c, pppSettings c))"

lemma control_states: "ppp_control w' = ppp_control w \<Longrightarrow> ppp_states w' = ppp_states w"
  by (simp add: ppp_control_def ppp_states_def Let_def)

lemma states_px [simp]: "ppp_states (w\<lparr>px := x\<rparr>) = ppp_states w"
  by (simp add: ppp_states_def)

lemma states_fsm: "(\<And>f. fsmState (g f) = fsmState f) \<Longrightarrow> ppp_states (put_fsm l g w) = ppp_states w"
  by (cases l) (simp_all add: ppp_states_def put_fsm_def put_ppp_def Let_def)

lemma states_time: "ppp_time w = (t, w') \<Longrightarrow> ppp_states w' = ppp_states w"
  by (auto simp: ppp_time_def split: prod.splits)

lemma states_request [simp]: "ppp_states (request_sent l w) = ppp_states w"
proof -
  have "fsmState (f\<lparr>fsmRestartCounter := n, fsmTimestamp := t\<rparr>) = fsmState f" for f n t by simp
  then show ?thesis unfolding request_sent_def Let_def by (auto simp: states_fsm states_time split: prod.splits)
qed

lemma states_identifier [simp]: "ppp_states (next_identifier l w) = ppp_states w"
  unfolding next_identifier_def by (rule states_fsm) simp

definition only_peer :: "PppContext \<Rightarrow> PppContext \<Rightarrow> bool" where
  "only_peer c c' \<longleftrightarrow> c' = c\<lparr>peerConfig := peerConfig c'\<rparr>"

lemma only_peer_put [simp]: "only_peer c (put_peer out f c)" "only_peer c c"
  by (simp_all add: only_peer_def put_peer_def)

lemma only_peer_trans: "only_peer c c1 \<Longrightarrow> only_peer c1 c2 \<Longrightarrow> only_peer c c2"
  unfolding only_peer_def by (cases c; cases c1; cases c2) simp

lemma option_only_peer [simp]:
  "only_peer c (fst (snd (lcpParseMruOption c opt out)))" "only_peer c (fst (snd (lcpParseAccmOption c opt out)))"
  "only_peer c (fst (snd (lcpParseAuthProtocolOption c opt out)))" "only_peer c (fst (snd (lcpParseMagicNumberOption c opt out)))"
  "only_peer c (fst (snd (lcpParsePfcOption c opt out)))" "only_peer c (fst (snd (lcpParseAcfcOption c opt out)))"
  "only_peer c (fst (snd (ipcpParseIpAddressOption c opt out)))"
  by (simp_all add: lcpParseMruOption_def lcpParseAccmOption_def lcpParseAuthProtocolOption_def lcpParseMagicNumberOption_def
      lcpParsePfcOption_def lcpParseAcfcOption_def ipcpParseIpAddressOption_def Let_def)

lemma parser_only_peer:
  "only_peer c (fst (snd (lcpParseOption c opt out)))" "only_peer c (fst (snd (ipcpParseOption c opt out)))"
  "only_peer c (fst (snd (option_parser proto c opt out)))"
  by (simp_all add: option_parser_def lcpParseOption_def ipcpParseOption_def)

lemma conf_options_only_peer:
  assumes "\<And>c opt out. only_peer c (fst (snd (parse c opt out)))" and "conf_options parse c opts out = Some r"
  shows "only_peer c (fst r)"
proof -
  have "(\<forall>c opt out. only_peer c (fst (snd (parse c opt out)))) \<longrightarrow> only_peer c (fst r)"
  proof (rule conf_options.raw_induct [OF _ assms(2), where P = "\<lambda>parse c opts out r. (\<forall>c opt out. only_peer c (fst (snd (parse c opt out)))) \<longrightarrow> only_peer c (fst r)"])
    fix rec parse c opts out r
    assume IH: "\<And>parse c opts out r. rec parse c opts out = Some r \<Longrightarrow> (\<forall>c opt out. only_peer c (fst (snd (parse c opt out)))) \<longrightarrow> only_peer c (fst r)"
      and r: "(if opts = [] then Some (c, out) else if length opts < 2 \<or> length opts < opt_length opts then None
        else case parse c opts (Some out) of (e, c, None) \<Rightarrow> None | (e, c, Some out) \<Rightarrow> rec parse c (drop (opt_length opts) opts) out) = Some r"
    show "(\<forall>c opt out. only_peer c (fst (snd (parse c opt out)))) \<longrightarrow> only_peer c (fst r)"
    proof
      assume pp: "\<forall>c opt out. only_peer c (fst (snd (parse c opt out)))"
      show "only_peer c (fst r)"
      proof (cases "opts = []")
        case True
        then show ?thesis using r by auto
      next
        case False
        obtain e c1 o1 where p: "parse c opts (Some out) = (e, c1, o1)" by (cases "parse c opts (Some out)") auto
        from False r p obtain out1 where "o1 = Some out1" "rec parse c1 (drop (opt_length opts) opts) out1 = Some r" by (auto split: if_splits option.splits)
        with IH [of parse c1 _ out1 r] pp have "only_peer c1 (fst r)" by blast
        moreover have "only_peer c c1" using pp [rule_format, of c opts "Some out"] p by simp
        ultimately show ?thesis by (rule only_peer_trans [rotated])
      qed
    qed
  qed
  with assms(1) show ?thesis by blast
qed

lemma states_only_peer: "only_peer (pctx w) c \<Longrightarrow> ppp_states (w\<lparr>pctx := c\<rparr>) = ppp_states w"
  unfolding only_peer_def by (cases "pctx w"; cases c) (simp add: ppp_states_def)

lemma states_ack_nak: "pppSendConfigureAckNak packet proto code w = Some (e, w') \<Longrightarrow> ppp_states w' = ppp_states w"
  by (auto simp: pppSendConfigureAckNak_def split: if_splits prod.splits option.splits
      dest!: control_bytes [THEN control_states] conf_options_only_peer [OF parser_only_peer(3)] simp: states_only_peer)

lemma states_configure_req: "send_configure_req l proto opts_of w = Some w' \<Longrightarrow> ppp_states w' = ppp_states w"
  by (auto simp: send_configure_req_def Let_def split: prod.splits option.splits dest!: control_bytes [THEN control_states])

lemma states_terminate_req: "send_terminate_req l proto w = Some w' \<Longrightarrow> ppp_states w' = ppp_states w"
  by (auto simp: send_terminate_req_def pppSendTerminateReq_def Let_def dest!: control_header [THEN control_states])

lemma states_terminate_ack: "send_terminate_ack l proto packet w = Some w' \<Longrightarrow> ppp_states w' = ppp_states w"
  by (auto simp: send_terminate_ack_def pppSendTerminateAck_def drop_error_def Let_def split: option.splits dest!: control_header [THEN control_states])

lemma states_code_rej: "send_code_rej l proto packet w = Some w' \<Longrightarrow> ppp_states w' = ppp_states w"
  by (auto simp: send_code_rej_def pppSendCodeRej_def drop_error_def Let_def dest!: control_append [THEN control_states])

lemma states_echo_rep: "pppSendEchoRep packet proto w = Some (e, w') \<Longrightarrow> ppp_states w' = ppp_states w"
  by (auto simp: pppSendEchoRep_def Let_def split: if_splits dest!: control_append [THEN control_states])

lemma states_protocol_rej: "pppSendProtocolRej ident proto information w = Some (e, w') \<Longrightarrow> ppp_states w' = ppp_states w"
  by (auto simp: pppSendProtocolRej_def Let_def dest!: control_append [THEN control_states])

lemma states_restart:
  "init_restart l n w = Some w' \<Longrightarrow> ppp_states w' = ppp_states w"
  "zero_restart l w = Some w' \<Longrightarrow> ppp_states w' = ppp_states w"
  by (auto simp: init_restart_def zero_restart_def Let_def states_fsm split: prod.splits dest!: states_time)

lemma states_layer: "ppp_states w' = ppp_states w \<Longrightarrow> fsmState (layer_fsm l w') = fsmState (layer_fsm l w)"
  by (cases l) (simp_all add: ppp_states_def layer_fsm_def Let_def)

lemmas callback_states = states_ack_nak states_configure_req states_terminate_req states_terminate_ack states_code_rej states_echo_rep states_restart

interpretation lcp: ppp_layer LCP lcpCallbacks
  by unfold_locales (auto simp: lcpCallbacks_def lcp_callbacks_def lcpSendConfigureReq_def drop_error_def intro!: states_layer dest!: callback_states)

interpretation ipcp: ppp_layer IPCP ipcpCallbacks
  by unfold_locales (auto simp: ipcpCallbacks_def ipcpSendConfigureReq_def drop_error_def intro!: states_layer dest!: callback_states)

section \<open>The automaton of RFC 1661\<close>

text \<open>
  Property C25. The option negotiation of LCP and of IPCP is the automaton of RFC 1661. In every state every event performs the
  actions of the table in its order and enters the state of the table, with the indications to the other layers after the change
  of the state; a dash of the table changes nothing.
\<close>

theorem ppp_rfc1661:
  assumes "\<And>p code. i = InConfigureReq p code \<Longrightarrow> code \<in> {PPP_CODE_CONFIGURE_ACK, PPP_CODE_CONFIGURE_NAK, PPP_CODE_CONFIGURE_REJ}"
  shows "fsm_step LCP lcpCallbacks i w = rfc_run LCP lcpCallbacks i w \<and> fsm_step IPCP ipcpCallbacks i w = rfc_run IPCP ipcpCallbacks i w"
  using lcp.rfc1661 [of i w] ipcp.rfc1661 [of i w] assms by blast

theorem ppp_rfc1661_witness:
  "pppRcvConfigureReqEvent LCP lcpCallbacks [1, 7, 0, 4] PPP_CODE_CONFIGURE_NAK example_ppp =
     run_all [sendConfigureReq lcpCallbacks, sendConfigureNak lcpCallbacks [1, 7, 0, 4], pppChangeState LCP PPP_STATE_6_REQ_SENT,
       thisLayerDown lcpCallbacks] example_ppp"
  using ppp_rfc1661 [of "InConfigureReq [1, 7, 0, 4] PPP_CODE_CONFIGURE_NAK" example_ppp]
  by (simp add: rfc_run_def rfc_states_def rfc_do_def indication_def state_no_def layer_fsm_def example_ppp_def example_fsm_def)

end
