(* ===== verification/Ppp_Protection.thy ===== *)
theory Ppp_Protection
  imports Ppp_Safety
begin

text \<open>
  The protection of the network layer of PPP: an invariant of the two automata, the phase and PAP, kept by every event of LCP and
  IPCP. The events are those of the table of RFC 1661, so that only the layer indications have to be looked at.
\<close>

unbundle bit_operations_syntax

section \<open>Events in terms of the states\<close>

lemma run_all_append: "run_all (fs @ gs) w = Option.bind (run_all fs w) (run_all gs)"
  by (induction fs arbitrary: w) (auto split: bind_splits)

lemma run_all_states:
  "\<forall>f \<in> set fs. \<forall>w w'. f w = Some w' \<longrightarrow> ppp_states w' = ppp_states w \<Longrightarrow> run_all fs w = Some w' \<Longrightarrow> ppp_states w' = ppp_states w"
  by (induction fs arbitrary: w) (auto split: bind_splits)

lemma lcp_do_states: "\<not> indication a \<Longrightarrow> rfc_do lcpCallbacks i acts a w = Some w' \<Longrightarrow> ppp_states w' = ppp_states w"
  by (cases a) (auto simp: rfc_do_def indication_def lcpCallbacks_def lcp_callbacks_def lcpSendConfigureReq_def drop_error_def
      split: ppp_input.splits if_splits dest!: callback_states)

lemma ipcp_do_states: "a \<noteq> Ser \<Longrightarrow> rfc_do ipcpCallbacks i acts a w = Some w' \<Longrightarrow> ppp_states w' = ppp_states w"
proof -
  have "ipcpThisLayerUp w = Some w' \<Longrightarrow> ppp_states w' = ppp_states w" "ipcpThisLayerDown w = Some w' \<Longrightarrow> ppp_states w' = ppp_states w"
    by (auto simp: ipcpThisLayerUp_def ipcpThisLayerDown_def ppp_states_def Let_def)
  then show "a \<noteq> Ser \<Longrightarrow> rfc_do ipcpCallbacks i acts a w = Some w' \<Longrightarrow> ppp_states w' = ppp_states w"
    by (cases a) (auto simp: rfc_do_def ipcpCallbacks_def ipcpSendConfigureReq_def drop_error_def
        split: ppp_input.splits if_splits dest!: callback_states)
qed

lemma ipcp_no_echo: "rfc_do ipcpCallbacks i acts Ser w = None"
  by (simp add: rfc_do_def ipcpCallbacks_def)

text \<open>The inputs whose answer to a Configure-Request is one of the three codes.\<close>

definition input_ok :: "ppp_input \<Rightarrow> bool" where
  "input_ok i \<longleftrightarrow> (case i of InConfigureReq p code \<Rightarrow> code \<in> {PPP_CODE_CONFIGURE_ACK, PPP_CODE_CONFIGURE_NAK, PPP_CODE_CONFIGURE_REJ} | _ \<Rightarrow> True)"

lemma input_code: "input_ok i \<Longrightarrow> i = InConfigureReq p code \<Longrightarrow> code \<in> {PPP_CODE_CONFIGURE_ACK, PPP_CODE_CONFIGURE_NAK, PPP_CODE_CONFIGURE_REJ}"
  by (simp add: input_ok_def)

lemma lcp_event:
  assumes "input_ok i" and "fsm_step LCP lcpCallbacks i w = Some w'"
  shows "rfc_row (classify i (layer_fsm LCP w)) ! state_no (fsmState (layer_fsm LCP w)) = None \<and> w' = w \<or>
    (\<exists>acts s w1. rfc_row (classify i (layer_fsm LCP w)) ! state_no (fsmState (layer_fsm LCP w)) = Some (acts, s) \<and> ppp_states w1 = ppp_states w \<and>
      run_all (map (rfc_do lcpCallbacks i acts) (filter indication acts)) (put_fsm LCP (\<lambda>f. f\<lparr>fsmState := rfc_states ! s\<rparr>) w1) = Some w')"
proof -
  have "fsm_step LCP lcpCallbacks i w = rfc_run LCP lcpCallbacks i w" by (rule lcp.rfc1661) (rule input_code [OF assms(1)])
  with assms(2) have r: "rfc_run LCP lcpCallbacks i w = Some w'" by simp
  show ?thesis
  proof (cases "rfc_row (classify i (layer_fsm LCP w)) ! state_no (fsmState (layer_fsm LCP w))")
    case None
    then show ?thesis using r by (simp add: rfc_run_def)
  next
    case (Some e)
    obtain acts s where e: "e = (acts, s)" by (cases e)
    from r Some e obtain w1 where w1: "run_all (map (rfc_do lcpCallbacks i acts) (filter (\<lambda>a. \<not> indication a) acts)) w = Some w1"
      "run_all (map (rfc_do lcpCallbacks i acts) (filter indication acts)) (put_fsm LCP (\<lambda>f. f\<lparr>fsmState := rfc_states ! s\<rparr>) w1) = Some w'"
      by (auto simp: rfc_run_def run_all_append pppChangeState_def split: bind_splits)
    have "ppp_states w1 = ppp_states w" by (rule run_all_states [OF _ w1(1)]) (auto dest: lcp_do_states)
    with Some e w1(2) show ?thesis by blast
  qed
qed

lemma ipcp_event:
  assumes "input_ok i" and "fsm_step IPCP ipcpCallbacks i w = Some w'"
  shows "\<exists>s. ppp_states w' = ppp_states (put_fsm IPCP (\<lambda>f. f\<lparr>fsmState := s\<rparr>) w) \<and>
    (i \<notin> {InUp, InOpen} \<longrightarrow> fsmState (layer_fsm IPCP w) = PPP_STATE_0_INITIAL \<longrightarrow> s = PPP_STATE_0_INITIAL)"
proof -
  let ?st = "fsmState (layer_fsm IPCP w)"
  have "fsm_step IPCP ipcpCallbacks i w = rfc_run IPCP ipcpCallbacks i w" by (rule ipcp.rfc1661) (rule input_code [OF assms(1)])
  with assms(2) have r: "rfc_run IPCP ipcpCallbacks i w = Some w'" by simp
  have same: "ppp_states (put_fsm IPCP (\<lambda>f. f\<lparr>fsmState := ?st\<rparr>) w) = ppp_states w" by (simp add: ppp_states_def put_fsm_def put_ppp_def layer_fsm_def Let_def)
  show ?thesis
  proof (cases "rfc_row (classify i (layer_fsm IPCP w)) ! state_no ?st")
    case None
    then show ?thesis using r same by (intro exI [of _ ?st]) (simp add: rfc_run_def)
  next
    case (Some e)
    obtain acts s where e: "e = (acts, s)" by (cases e)
    let ?do = "\<lambda>as. map (rfc_do ipcpCallbacks i acts) as"
    from r Some e obtain w1 where w1: "run_all (?do (filter (\<lambda>a. \<not> indication a) acts)) w = Some w1"
      "run_all (?do (filter indication acts)) (put_fsm IPCP (\<lambda>f. f\<lparr>fsmState := rfc_states ! s\<rparr>) w1) = Some w'"
      by (auto simp: rfc_run_def run_all_append pppChangeState_def split: bind_splits)
    have do: "rfc_do ipcpCallbacks i acts a v = Some v' \<Longrightarrow> ppp_states v' = ppp_states v" for a v v'
      using ipcp_do_states [of a] ipcp_no_echo by (cases "a = Ser") auto
    have 1: "ppp_states w1 = ppp_states w" by (rule run_all_states [OF _ w1(1)]) (auto dest: do)
    have 2: "ppp_states w' = ppp_states (put_fsm IPCP (\<lambda>f. f\<lparr>fsmState := rfc_states ! s\<rparr>) w1)" by (rule run_all_states [OF _ w1(2)]) (auto dest: do)
    have "rfc_states ! s = PPP_STATE_0_INITIAL" if "i \<notin> {InUp, InOpen}" "?st = PPP_STATE_0_INITIAL"
      using that Some e by (cases i) (auto simp: state_no_def rfc_states_def split: if_splits)
    moreover have "ppp_states w' = ppp_states (put_fsm IPCP (\<lambda>f. f\<lparr>fsmState := rfc_states ! s\<rparr>) w)"
      using 1 2 by (simp add: ppp_states_def put_fsm_def put_ppp_def Let_def)
    ultimately show ?thesis by blast
  qed
qed

section \<open>Authentication\<close>

text \<open>The peer has to authenticate itself when the user has set a callback and allows PAP.\<close>

definition auth_required :: "ppp \<Rightarrow> bool" where
  "auth_required w \<longleftrightarrow> setAuthCallback (pppSettings (pctx w)) \<and> setAuthProtocol (pppSettings (pctx w)) AND PPP_AUTH_PROTOCOL_PAP \<noteq> 0"

definition upper_phase :: "ppp \<Rightarrow> bool" where
  "upper_phase w \<longleftrightarrow> pppPhase (pctx w) = PPP_PHASE_AUTHENTICATE \<or> pppPhase (pctx w) = PPP_PHASE_NETWORK"

text \<open>What holds in whatever state the automata are: PAP is asked for, and a request has been accepted (\<open>acc\<close>) if PAP says so.\<close>

definition auth_asked :: "PppSettings \<Rightarrow> bool \<Rightarrow> ppp \<Rightarrow> bool" where
  "auth_asked st acc w \<longleftrightarrow>
     (auth_required w \<longrightarrow> fsmState (lcpFsm (pctx w)) \<noteq> PPP_STATE_0_INITIAL \<longrightarrow> cfAuthProtocol (localConfig (pctx w)) = PPP_PROTOCOL_PAP) \<and>
     (papLocalState (papFsm (pctx w)) = PAP_STATE_4_ACK_SENT \<longrightarrow> acc) \<and>
     pppSettings (pctx w) = st"

definition ppp_safe :: "PppSettings \<Rightarrow> bool \<Rightarrow> ppp \<Rightarrow> bool" where
  "ppp_safe st acc w \<longleftrightarrow> auth_asked st acc w \<and>
     (upper_phase w \<longrightarrow> fsmState (lcpFsm (pctx w)) = PPP_STATE_9_OPENED) \<and>
     (fsmState (ipcpFsm (pctx w)) \<noteq> PPP_STATE_0_INITIAL \<longrightarrow> pppPhase (pctx w) = PPP_PHASE_NETWORK) \<and>
     (pppPhase (pctx w) = PPP_PHASE_NETWORK \<longrightarrow> localAuthDone (pctx w) \<and> peerAuthDone (pctx w)) \<and>
     (auth_required w \<longrightarrow> localAuthDone (pctx w) \<longrightarrow> upper_phase w \<longrightarrow> papLocalState (papFsm (pctx w)) = PAP_STATE_4_ACK_SENT)"

lemmas safe_defs = ppp_safe_def auth_asked_def upper_phase_def auth_required_def

lemma safe_states: "ppp_states w' = ppp_states w \<Longrightarrow> ppp_safe st acc w' = ppp_safe st acc w"
  by (simp add: safe_defs ppp_states_def Let_def)

lemma asked_states: "ppp_states w' = ppp_states w \<Longrightarrow> auth_asked st acc w' = auth_asked st acc w"
  by (simp add: safe_defs ppp_states_def Let_def)

text \<open>IPCP only runs in the network phase, where its state does not matter.\<close>

lemma ipcp_safe:
  assumes "ppp_safe st acc w" and "input_ok i" and "fsm_step IPCP ipcpCallbacks i w = Some w'" and "i \<notin> {InUp, InOpen} \<or> pppPhase (pctx w) = PPP_PHASE_NETWORK"
  shows "ppp_safe st acc w'"
proof -
  from ipcp_event [OF assms(2,3)] obtain s where s: "ppp_states w' = ppp_states (put_fsm IPCP (\<lambda>f. f\<lparr>fsmState := s\<rparr>) w)"
    "i \<notin> {InUp, InOpen} \<Longrightarrow> fsmState (layer_fsm IPCP w) = PPP_STATE_0_INITIAL \<Longrightarrow> s = PPP_STATE_0_INITIAL" by blast
  have "ppp_safe st acc (put_fsm IPCP (\<lambda>f. f\<lparr>fsmState := s\<rparr>) w)"
    using assms(1,4) s(2) by (auto simp: safe_defs put_fsm_def put_ppp_def layer_fsm_def)
  then show ?thesis using safe_states [OF s(1)] by simp
qed

lemma ipcpOpen_states:
  assumes "ipcpOpen w = Some w'"
  shows "\<exists>s. ppp_states w' = ppp_states (put_fsm IPCP (\<lambda>f. f\<lparr>fsmState := s\<rparr>) w)"
proof -
  from assms obtain w1 where w1: "fsm_step IPCP ipcpCallbacks InOpen w = Some w1" "fsm_step IPCP ipcpCallbacks InUp w1 = Some w'"
    by (auto simp: ipcpOpen_def split: bind_splits)
  from ipcp_event [OF _ w1(1)] obtain s where s: "ppp_states w1 = ppp_states (put_fsm IPCP (\<lambda>f. f\<lparr>fsmState := s\<rparr>) w)" by (auto simp: input_ok_def)
  from ipcp_event [OF _ w1(2)] obtain s' where "ppp_states w' = ppp_states (put_fsm IPCP (\<lambda>f. f\<lparr>fsmState := s'\<rparr>) w1)" by (auto simp: input_ok_def)
  with s show ?thesis by (intro exI [of _ s']) (simp add: ppp_states_def put_fsm_def put_ppp_def Let_def)
qed

lemma ipcpClose_states:
  assumes "ipcpClose w = Some w'"
  shows "ppp_states w' = ppp_states (put_fsm IPCP (\<lambda>f. f\<lparr>fsmState := PPP_STATE_0_INITIAL\<rparr>) w)"
  using assms
  by (cases "fsmState (ipcpFsm (pctx w))")
    (auto simp: ipcpClose_def pppDownEvent_def pppCloseEvent_def layer_fsm_def pppChangeState_def put_fsm_def put_ppp_def ipcpCallbacks_def
      ipcpThisLayerDown_def ppp_states_def Let_def)

section \<open>The layer indications of LCP\<close>

lemma lcp_down_safe:
  assumes "auth_asked st acc w" and "lcpThisLayerDown w = Some w'"
  shows "ppp_safe st acc w'"
proof -
  from assms(2) obtain w1 where w1: "ipcpClose (put_phase PPP_PHASE_TERMINATE w) = Some w1" "papAbortAuth w1 = Some w'"
    by (auto simp: lcpThisLayerDown_def split: bind_splits)
  have "ppp_states w1 = ppp_states (put_fsm IPCP (\<lambda>f. f\<lparr>fsmState := PPP_STATE_0_INITIAL\<rparr>) (put_phase PPP_PHASE_TERMINATE w))"
    by (rule ipcpClose_states [OF w1(1)])
  then show ?thesis using assms(1) w1(2)
    by (auto simp: safe_defs papAbortAuth_def put_pap_def put_phase_def put_fsm_def put_ppp_def ppp_states_def Let_def)
qed

lemma lcp_finished_safe:
  assumes "auth_asked st acc w" and "fsmState (ipcpFsm (pctx w)) = PPP_STATE_0_INITIAL"
    and "fsmState (lcpFsm (pctx w)) \<in> {PPP_STATE_0_INITIAL, PPP_STATE_2_CLOSED, PPP_STATE_3_STOPPED}" and "lcpThisLayerFinished w = Some w'"
  shows "ppp_safe st acc w'"
  using assms
  by (auto simp: lcpThisLayerFinished_def pppCloseEvent_def pppDownEvent_def pppChangeState_def put_fsm_def put_ppp_def put_phase_def layer_fsm_def
      safe_defs Let_def)

lemma states_pap: "(\<And>f. papLocalState (g f) = papLocalState f) \<Longrightarrow> ppp_states (put_pap g w) = ppp_states w"
  by (simp add: put_pap_def put_ppp_def ppp_states_def Let_def)

lemma states_time_snd [simp]: "ppp_states (snd (ppp_time w)) = ppp_states w"
  using states_time [of w "fst (ppp_time w)" "snd (ppp_time w)"] by simp

lemma pap_send_states: "papSendAuthReq w = Some w' \<Longrightarrow> ppp_states w' = ppp_states w"
  by (auto simp: papSendAuthReq_def Let_def states_pap case_prod_beta split: prod.splits option.splits dest!: control_bytes [THEN control_states])

lemma lcp_up_safe:
  assumes "auth_asked st acc w" and "\<not> upper_phase w" and "fsmState (lcpFsm (pctx w)) = PPP_STATE_9_OPENED"
    and "fsmState (ipcpFsm (pctx w)) = PPP_STATE_0_INITIAL" and "lcpThisLayerUp w = Some w'"
  shows "ppp_safe st acc w'"
proof -
  let ?lp = "cfAuthProtocol (localConfig (pctx w))" and ?pp = "cfAuthProtocol (peerConfig (pctx w))"
  define w0 where "w0 = put_ppp (\<lambda>c. c\<lparr>localAuthDone := (?lp = 0), peerAuthDone := (?pp = 0)\<rparr>) w"
  have req: "auth_required w \<Longrightarrow> ?lp = PPP_PROTOCOL_PAP" using assms(1,3) by (simp add: auth_asked_def)
  show ?thesis
  proof (cases "?lp = PPP_PROTOCOL_PAP \<or> ?pp = PPP_PROTOCOL_PAP")
    case True
    from assms(5) True obtain w1 where w1: "papStartAuth (put_phase PPP_PHASE_AUTHENTICATE w0) = Some w1"
      "(if localAuthDone (pctx w1) \<and> peerAuthDone (pctx w1) then ipcpOpen (put_phase PPP_PHASE_NETWORK w1) else Some w1) = Some w'"
      by (auto simp: lcpThisLayerUp_def Let_def w0_def split: bind_splits)
    have s: "\<exists>ps. ppp_states w1 = ppp_states (put_pap (\<lambda>f. f\<lparr>papLocalState := ps\<rparr>) (put_phase PPP_PHASE_AUTHENTICATE w0)) \<and>
      (ps = PAP_STATE_1_STARTED \<or> ps = papLocalState (papFsm (pctx w)))"
      using w1(1) by (auto simp: papStartAuth_def w0_def put_phase_def put_pap_def put_ppp_def ppp_states_def Let_def
          split: if_splits dest!: pap_send_states)
    then obtain ps where ps: "ppp_states w1 = ppp_states (put_pap (\<lambda>f. f\<lparr>papLocalState := ps\<rparr>) (put_phase PPP_PHASE_AUTHENTICATE w0))"
      "ps = PAP_STATE_1_STARTED \<or> ps = papLocalState (papFsm (pctx w))" by blast
    have "\<not> (localAuthDone (pctx w1) \<and> peerAuthDone (pctx w1))"
      using True ps(1) by (auto simp: w0_def put_phase_def put_pap_def put_ppp_def ppp_states_def Let_def)
    with w1(2) have "w' = w1" by simp
    moreover have "ppp_safe st acc (put_pap (\<lambda>f. f\<lparr>papLocalState := ps\<rparr>) (put_phase PPP_PHASE_AUTHENTICATE w0))"
      using assms(1,3,4) req ps(2) by (auto simp: safe_defs w0_def put_phase_def put_pap_def put_ppp_def)
    ultimately show ?thesis using safe_states [OF ps(1)] by simp
  next
    case False
    then have nr: "\<not> auth_required w" using req by blast
    from assms(5) False have w1: "(if localAuthDone (pctx w0) \<and> peerAuthDone (pctx w0) then ipcpOpen (put_phase PPP_PHASE_NETWORK w0) else Some w0) = Some w'"
      unfolding lcpThisLayerUp_def Let_def w0_def [symmetric] by simp
    show ?thesis
    proof (cases "localAuthDone (pctx w0) \<and> peerAuthDone (pctx w0)")
      case True
      with w1 have "ipcpOpen (put_phase PPP_PHASE_NETWORK w0) = Some w'" by simp
      from ipcpOpen_states [OF this] obtain s where s: "ppp_states w' = ppp_states (put_fsm IPCP (\<lambda>f. f\<lparr>fsmState := s\<rparr>) (put_phase PPP_PHASE_NETWORK w0))" by blast
      have "ppp_safe st acc (put_fsm IPCP (\<lambda>f. f\<lparr>fsmState := s\<rparr>) (put_phase PPP_PHASE_NETWORK w0))"
        using assms(1,3) nr True by (auto simp: safe_defs w0_def put_phase_def put_fsm_def put_ppp_def)
      then show ?thesis using safe_states [OF s] by simp
    next
      case False
      with w1 have "w' = w0" by simp
      then show ?thesis using assms(1-4) by (auto simp: safe_defs w0_def put_ppp_def)
    qed
  qed
qed

section \<open>LCP\<close>

definition row_ok :: "rfc_event \<Rightarrow> nat \<Rightarrow> bool" where
  "row_ok e k = (case rfc_row e ! k of None \<Rightarrow> True
     | Some (acts, n) \<Rightarrow> n < 10 \<and> (k = 0 \<longrightarrow> e = Up \<or> e = Open \<or> n = 0) \<and>
         (let ind = filter indication acts
          in if k = 9 then ind = (if n = 9 then [] else [Tld])
             else if n = 9 then ind = [Tlu] else ind = [] \<or> ind = [Tls] \<or> ind = [Tlf] \<and> (n = 0 \<or> n = 2 \<or> n = 3)))"

lemma table_ok:
  "list_all (\<lambda>e. list_all (row_ok e) [0, 1, 2, 3, 4, 5, 6, 7, 8, 9])
     [Up, Down, Open, Close, TO_plus, TO_minus, RCR_plus, RCR_minus, RCA, RCN, RTR, RTA, RUC, RXJ_plus, RXJ_minus, RXR]"
  by (simp add: row_ok_def indication_def)

lemma entries_ok: "row_ok e (state_no s)"
proof -
  have "e \<in> set [Up, Down, Open, Close, TO_plus, TO_minus, RCR_plus, RCR_minus, RCA, RCN, RTR, RTA, RUC, RXJ_plus, RXJ_minus, RXR]" by (cases e) simp_all
  moreover have "state_no s \<in> set [0, 1, 2, 3, 4, 5, 6, 7, 8, 9]" by (cases s) (simp_all add: state_no_def)
  ultimately show ?thesis using table_ok unfolding list_all_iff by blast
qed

lemma table_indications:
  assumes "rfc_row e ! state_no s = Some (acts, n)"
  shows "n < 10"
    and "s = PPP_STATE_9_OPENED \<Longrightarrow> filter indication acts = (if n = 9 then [] else [Tld])"
    and "s \<noteq> PPP_STATE_9_OPENED \<Longrightarrow> n = 9 \<Longrightarrow> filter indication acts = [Tlu]"
    and "s \<noteq> PPP_STATE_9_OPENED \<Longrightarrow> n \<noteq> 9 \<Longrightarrow> filter indication acts \<in> {[], [Tls]} \<or> filter indication acts = [Tlf] \<and> n \<in> {0, 2, 3}"
    and "s = PPP_STATE_0_INITIAL \<Longrightarrow> e \<notin> {Up, Open} \<Longrightarrow> n = 0"
proof -
  have "state_no s = 9 \<longleftrightarrow> s = PPP_STATE_9_OPENED" "state_no s = 0 \<longleftrightarrow> s = PPP_STATE_0_INITIAL" by (cases s; simp add: state_no_def)+
  then show "n < 10" "s = PPP_STATE_9_OPENED \<Longrightarrow> filter indication acts = (if n = 9 then [] else [Tld])"
    "s \<noteq> PPP_STATE_9_OPENED \<Longrightarrow> n = 9 \<Longrightarrow> filter indication acts = [Tlu]"
    "s \<noteq> PPP_STATE_9_OPENED \<Longrightarrow> n \<noteq> 9 \<Longrightarrow> filter indication acts \<in> {[], [Tls]} \<or> filter indication acts = [Tlf] \<and> n \<in> {0, 2, 3}"
    "s = PPP_STATE_0_INITIAL \<Longrightarrow> e \<notin> {Up, Open} \<Longrightarrow> n = 0"
    using entries_ok [of e s] assms by (auto simp: row_ok_def Let_def split: if_splits)
qed

lemma state_nth: "n < 10 \<Longrightarrow> rfc_states ! n = PPP_STATE_9_OPENED \<longleftrightarrow> n = 9"
  by (auto simp: rfc_states_def less_Suc_eq numeral_eq_Suc)

text \<open>
  An event of LCP keeps the protection, and closing an open link restores it. Only Up and Open leave the initial state; then PAP has
  to be asked for already.
\<close>

lemma lcp_event_safe:
  assumes asked: "auth_asked st acc w" and ok: "input_ok i" and step: "fsm_step LCP lcpCallbacks i w = Some w'"
    and up: "i \<in> {InUp, InOpen} \<Longrightarrow> auth_required w \<Longrightarrow> cfAuthProtocol (localConfig (pctx w)) = PPP_PROTOCOL_PAP"
    and safe: "ppp_safe st acc w \<or> i = InClose \<and> fsmState (lcpFsm (pctx w)) = PPP_STATE_9_OPENED"
  shows "ppp_safe st acc w'"
proof -
  let ?st = "fsmState (lcpFsm (pctx w))" and ?e = "classify i (lcpFsm (pctx w))"
  have l: "layer_fsm LCP w = lcpFsm (pctx w)" by (simp add: layer_fsm_def)
  have e: "?e \<in> {Up, Open} \<longleftrightarrow> i \<in> {InUp, InOpen}" by (cases i) auto
  from lcp_event [OF ok step, unfolded l] show ?thesis
  proof (elim disjE exE conjE)
    assume "rfc_row ?e ! state_no ?st = None" "w' = w"
    then show ?thesis using safe by (auto simp: state_no_def)
  next
    fix acts n w1
    assume row: "rfc_row ?e ! state_no ?st = Some (acts, n)" "ppp_states w1 = ppp_states w"
      "run_all (map (rfc_do lcpCallbacks i acts) (filter indication acts)) (put_fsm LCP (\<lambda>f. f\<lparr>fsmState := rfc_states ! n\<rparr>) w1) = Some w'"
    define w2 where "w2 = put_fsm LCP (\<lambda>f. f\<lparr>fsmState := rfc_states ! n\<rparr>) w1"
    note run = row(3) [folded w2_def] and T = table_indications [OF row(1)]
    have s2: "ppp_states w2 = ppp_states (put_fsm LCP (\<lambda>f. f\<lparr>fsmState := rfc_states ! n\<rparr>) w)"
      using row(2) by (simp add: w2_def ppp_states_def put_fsm_def put_ppp_def Let_def)
    have "?st = PPP_STATE_0_INITIAL \<Longrightarrow> rfc_states ! n \<noteq> PPP_STATE_0_INITIAL \<Longrightarrow> i \<in> {InUp, InOpen}"
      using T(5) e by (auto simp: rfc_states_def)
    then have asked2: "auth_asked st acc w2" using asked up asked_states [OF s2] by (auto simp: auth_asked_def auth_required_def put_fsm_def put_ppp_def)
    have st2: "fsmState (lcpFsm (pctx w2)) = rfc_states ! n" by (simp add: w2_def put_fsm_def put_ppp_def)
    show ?thesis
    proof (cases "?st = PPP_STATE_9_OPENED")
      case True
      show ?thesis
      proof (cases "n = 9")
        case True
        have "i \<noteq> InClose" using row(1) \<open>?st = _\<close> True by (auto simp: state_no_def)
        then have "ppp_safe st acc w" using safe by blast
        moreover have "ppp_states w2 = ppp_states w" using s2 True \<open>?st = _\<close> by (simp add: ppp_states_def put_fsm_def put_ppp_def Let_def rfc_states_def)
        then have "ppp_safe st acc w2 = ppp_safe st acc w" by (rule safe_states)
        moreover have "w' = w2" using run T(2) [OF \<open>?st = _\<close>] True by simp
        ultimately show ?thesis by blast
      next
        case False
        then have "lcpThisLayerDown w2 = Some w'" using run T(2) [OF True] by (simp add: rfc_do_def lcpCallbacks_def lcp_callbacks_def)
        then show ?thesis by (rule lcp_down_safe [OF asked2])
      qed
    next
      case False
      then have w: "ppp_safe st acc w" "\<not> upper_phase w" using safe by (auto simp: ppp_safe_def)
      then have i: "fsmState (ipcpFsm (pctx w)) = PPP_STATE_0_INITIAL" by (auto simp: ppp_safe_def upper_phase_def)
      have w2: "\<not> upper_phase w2" "fsmState (ipcpFsm (pctx w2)) = PPP_STATE_0_INITIAL"
        using w i s2 by (auto simp: upper_phase_def ppp_states_def put_fsm_def put_ppp_def Let_def)
      have safe2: "ppp_safe st acc w2" using asked2 w2 by (auto simp: ppp_safe_def upper_phase_def)
      show ?thesis
      proof (cases "n = 9")
        case True
        have "lcpThisLayerUp w2 = Some w'" using run T(3) [OF False True] by (simp add: rfc_do_def lcpCallbacks_def lcp_callbacks_def)
        moreover have "fsmState (lcpFsm (pctx w2)) = PPP_STATE_9_OPENED" using st2 True by (simp add: rfc_states_def)
        ultimately show ?thesis by (intro lcp_up_safe [OF asked2 w2(1) _ w2(2)])
      next
        case n: False
        from T(4) [OF False n] show ?thesis
        proof
          assume "filter indication acts \<in> {[], [Tls]}"
          then have "w' = w2" using run by (auto simp: rfc_do_def lcpCallbacks_def lcp_callbacks_def)
          then show ?thesis using safe2 by simp
        next
          assume f: "filter indication acts = [Tlf] \<and> n \<in> {0, 2, 3}"
          then have "lcpThisLayerFinished w2 = Some w'" using run by (simp add: rfc_do_def lcpCallbacks_def lcp_callbacks_def)
          moreover have "fsmState (lcpFsm (pctx w2)) \<in> {PPP_STATE_0_INITIAL, PPP_STATE_2_CLOSED, PPP_STATE_3_STOPPED}"
            using st2 f by (auto simp: rfc_states_def)
          ultimately show ?thesis by (intro lcp_finished_safe [OF asked2 w2(2)])
        qed
      qed
    qed
  qed
qed

lemma lcp_safe:
  "ppp_safe st acc w \<Longrightarrow> input_ok i \<Longrightarrow> i \<notin> {InUp, InOpen} \<Longrightarrow> fsm_step LCP lcpCallbacks i w = Some w' \<Longrightarrow> ppp_safe st acc w'"
  by (rule lcp_event_safe [of st acc w i]) (auto simp: ppp_safe_def)

lemmas lcp_events_safe = lcp_safe [where i = InClose, simplified] lcp_safe [where i = InTimeout, simplified]
  lcp_safe [where i = "InConfigureReq p code" for p code, simplified] lcp_safe [where i = InConfigureAck, simplified]
  lcp_safe [where i = InConfigureNak, simplified] lcp_safe [where i = "InTerminateReq p" for p, simplified]
  lcp_safe [where i = InTerminateAck, simplified] lcp_safe [where i = "InUnknownCode p" for p, simplified]
  lcp_safe [where i = "InCodeRej b" for b, simplified] lcp_safe [where i = "InEchoReq p" for p, simplified]

lemma lcp_close_safe:
  "ppp_safe st acc w \<Longrightarrow> lcpClose w = Some w' \<Longrightarrow> ppp_safe st acc w'"
  "auth_asked st acc w \<Longrightarrow> fsmState (lcpFsm (pctx w)) = PPP_STATE_9_OPENED \<Longrightarrow> lcpClose w = Some w' \<Longrightarrow> ppp_safe st acc w'"
  using lcp_event_safe [of st acc w InClose w'] by (auto simp: lcpClose_def input_ok_def ppp_safe_def)

text \<open>The connection starts with PAP asked for when it is required.\<close>

lemma lcp_open_safe:
  assumes "ppp_safe st acc w" and "lcpOpen (ppp_start w) = Some w'"
  shows "ppp_safe st acc w'"
proof -
  let ?asks = "\<lambda>w. auth_required w \<longrightarrow> cfAuthProtocol (localConfig (pctx w)) = PPP_PROTOCOL_PAP"
  let ?w = "put_phase PPP_PHASE_ESTABLISH (ppp_start w)"
  from assms(2) obtain w1 where w1: "pppOpenEvent LCP lcpCallbacks ?w = Some w1" "pppUpEvent LCP lcpCallbacks w1 = Some w'"
    by (auto simp: lcpOpen_def split: bind_splits)
  have s: "ppp_safe st acc ?w" "?asks ?w"
    using assms(1) by (auto simp: safe_defs ppp_start_def put_phase_def put_ppp_def reset_fsm_def Let_def)
  have "ppp_states w1 = ppp_states (put_fsm LCP (\<lambda>f. f\<lparr>fsmState := PPP_STATE_1_STARTING\<rparr>) ?w)"
    using w1(1) by (auto simp: pppOpenEvent_def layer_fsm_def ppp_start_def put_phase_def put_ppp_def reset_fsm_def Let_def
        pppChangeState_def put_fsm_def lcpCallbacks_def lcp_callbacks_def)
  then have "?asks w1" using s(2) by (simp add: auth_required_def ppp_states_def put_fsm_def put_ppp_def Let_def)
  moreover have "ppp_safe st acc w1" by (rule lcp_event_safe [of st acc ?w InOpen]) (use s w1(1) in \<open>auto simp: input_ok_def ppp_safe_def\<close>)
  ultimately show ?thesis by (intro lcp_event_safe [of st acc w1 InUp w']) (use w1(2) in \<open>auto simp: input_ok_def ppp_safe_def\<close>)
qed

end
