(* ===== verification/Ppp_Auth.thy ===== *)
theory Ppp_Auth
  imports Ppp_Protection
begin

text \<open>
  Sessions of PPP: every packet, timer and call of the user keeps the protection of the network layer, so that no session enters the
  network phase before the callback of the user has accepted a name and a password.
\<close>

unbundle bit_operations_syntax

section \<open>Packets\<close>

lemma drop_error_Some: "drop_error r = Some w' \<longleftrightarrow> (\<exists>e. r = Some (e, w'))"
  by (auto simp: drop_error_def)

lemma no_error_Some: "no_error r = Some (e, w') \<longleftrightarrow> e = NO_ERROR \<and> r = Some w'"
  by (auto simp: no_error_def)

lemma and_then_Some: "and_then r f = Some (e', w') \<longleftrightarrow> (\<exists>e w. r = Some (e, w) \<and> (if e \<noteq> NO_ERROR then (e', w') = (e, w) else f w = Some (e', w')))"
  by (auto simp: and_then_def split: option.splits)

lemma with_identifier_Some:
  "with_identifier l p f w = Some (e, w') \<longleftrightarrow>
     (if p ! 1 \<noteq> fsmIdentifier (layer_fsm l w) then e = ERROR_WRONG_IDENTIFIER \<and> w' = w else f w = Some (e, w'))"
  by (auto simp: with_identifier_def)

lemma check_options_only_peer:
  assumes "\<And>c opt out. only_peer c (fst (snd (parse c opt out)))" and "check_options parse c opts nr na = Some r"
  shows "only_peer c (snd (snd (snd r)))"
proof -
  let ?Q = "\<lambda>parse. \<forall>c opt out. only_peer c (fst (snd (parse c opt out)))"
  have "?Q parse \<longrightarrow> only_peer c (snd (snd (snd r)))"
  proof (rule check_options.raw_induct [OF _ assms(2), where P = "\<lambda>parse c opts nr na r. ?Q parse \<longrightarrow> only_peer c (snd (snd (snd r)))"])
    fix rec parse c opts nr na r
    assume IH: "\<And>parse c opts nr na r. rec parse c opts nr na = Some r \<Longrightarrow> ?Q parse \<longrightarrow> only_peer c (snd (snd (snd r)))"
      and r: "(if opts = [] then Some (NO_ERROR, nr, na, c)
        else case parse c opts None of (e, c, out) \<Rightarrow>
            if e = ERROR_INVALID_TYPE then rec parse c (drop (opt_length opts) opts) True na
            else if e = ERROR_INVALID_VALUE then rec parse c (drop (opt_length opts) opts) nr True
            else if e \<noteq> NO_ERROR then Some (e, nr, na, c)
            else rec parse c (drop (opt_length opts) opts) nr na) = Some r"
    show "?Q parse \<longrightarrow> only_peer c (snd (snd (snd r)))"
    proof
      assume pp: "?Q parse"
      obtain e c1 o1 where p: "parse c opts None = (e, c1, o1)" by (cases "parse c opts None") auto
      then have 1: "only_peer c c1" using pp [rule_format, of c opts None] by simp
      have 2: "rec parse c1 os n a = Some r \<Longrightarrow> only_peer c (snd (snd (snd r)))" for os n a using IH pp only_peer_trans [OF 1] by blast
      show "only_peer c (snd (snd (snd r)))" using r p 1 2 by (auto split: if_splits)
    qed
  qed
  with assms(1) show ?thesis by blast
qed

lemma each_option_keeps:
  assumes "each_option f opts w = Some (e, w')" and "P w" and "\<And>opt w e w'. P w \<Longrightarrow> f opt w = Some (e, w') \<Longrightarrow> P w'"
  shows "P w'"
  using assms
proof (induction f opts w rule: each_option.induct)
  case (1 f opts w)
  show ?case
  proof (cases "opts = [] \<or> length opts < 2 \<or> opt_length opts < 2 \<or> opt_length opts > length opts")
    case True
    then show ?thesis using 1(2,3) by (subst (asm) each_option.simps) (auto split: if_splits)
  next
    case False
    then obtain e1 w1 where f: "f opts w = Some (e1, w1)" "if e1 \<noteq> NO_ERROR then w' = w1 else each_option f (drop (opt_length opts) opts) w1 = Some (e, w')"
      using 1(2) by (subst (asm) each_option.simps) (auto split: option.splits if_splits)
    have "P w1" by (rule 1(4) [OF 1(3) f(1)])
    with f(2) 1(1) [OF _ _ _ f(1) refl] 1(4) False show ?thesis by (auto split: if_splits)
  qed
qed

lemma safe_put_local:
  assumes "\<And>p. cfAuthProtocol (f p) = cfAuthProtocol p \<or> cfAuthProtocol (f p) = PPP_PROTOCOL_PAP" and "ppp_safe st acc w"
  shows "ppp_safe st acc (put_local f w)"
proof -
  from assms(1) [of "localConfig (pctx w)"]
  have "cfAuthProtocol (localConfig (pctx w)) = PPP_PROTOCOL_PAP \<longrightarrow> cfAuthProtocol (f (localConfig (pctx w))) = PPP_PROTOCOL_PAP" by auto
  with assms(2) show ?thesis by (simp add: safe_defs put_local_def put_ppp_def)
qed

lemma nak_option_safe:
  "ppp_safe st acc w \<Longrightarrow> lcp_nak_option opt w = Some (e, w') \<Longrightarrow> ppp_safe st acc w'"
  "ppp_safe st acc w \<Longrightarrow> ipcp_nak_option opt w = Some (e, w') \<Longrightarrow> ppp_safe st acc w'"
  "ppp_safe st acc w \<Longrightarrow> ipcp_reject_option opt w = Some (e, w') \<Longrightarrow> ppp_safe st acc w'"
  by (auto simp: lcp_nak_option_def ipcp_nak_option_def ipcp_reject_option_def split: if_splits intro!: safe_put_local)

lemma reject_option_safe: "ppp_safe st acc w \<Longrightarrow> lcp_reject_option opt w = Some (e, w') \<Longrightarrow> ppp_safe st acc w'"
  by (auto simp: lcp_reject_option_def input_ok_def split: if_splits intro!: safe_put_local elim: lcp_events_safe(9))

lemmas options_safe = each_option_keeps [where P = "ppp_safe st acc" for st acc]

lemma safe_peer: "only_peer (pctx w) c \<Longrightarrow> ppp_safe st acc (w\<lparr>pctx := c\<rparr>) = ppp_safe st acc w"
  by (rule safe_states) (rule states_only_peer)

lemma lcp_req_safe: "ppp_safe st acc w \<Longrightarrow> lcpProcessConfigureReq p w = Some (e, w') \<Longrightarrow> ppp_safe st acc w'"
  by (auto simp: lcpProcessConfigureReq_def process_configure_req_def safe_peer input_ok_def split: option.splits if_splits
      dest!: check_options_only_peer [OF parser_only_peer(1)] elim!: lcp_events_safe(3) [rotated 2])

lemmas lcp_simps = lcpProcessPacket_def lcpProcessConfigureAck_def lcpProcessConfigureNak_def lcpProcessConfigureReject_def
  lcpProcessProtocolRej_def process_code_rej_def drop_error_Some no_error_Some and_then_Some with_identifier_Some

lemma safe_rejected:
  "ppp_safe st acc (put_ppp (\<lambda>c. c\<lparr>ipRejected := b\<rparr>) w) = ppp_safe st acc w" "ppp_safe st acc (put_ppp (\<lambda>c. c\<lparr>ipv6Rejected := b\<rparr>) w) = ppp_safe st acc w"
  by (auto intro!: safe_states simp: ppp_states_def put_ppp_def Let_def)

lemma lcp_packet_safe:
  assumes "ppp_safe st acc w" and "lcpProcessPacket p w = Some w'"
  shows "ppp_safe st acc w'"
proof -
  have rej: "pppRcvCodeRejEvent LCP lcpCallbacks a v = Some w' \<Longrightarrow> ppp_safe st acc v \<Longrightarrow> ppp_safe st acc w'" for a v
    using lcp_events_safe(9) [of st acc v a w'] by (simp add: input_ok_def)
  have ack: "lcpProcessConfigureAck q w = Some (e, w') \<Longrightarrow> ppp_safe st acc w'" for q e
    using assms(1) lcp_events_safe(4) [of st acc w w'] by (auto simp: lcp_simps input_ok_def split: if_splits)
  have nak: "lcpProcessConfigureNak q w = Some (e, w') \<Longrightarrow> ppp_safe st acc w'" for q e
    using assms(1) lcp_events_safe(5) [of st acc _ w']
    by (auto simp: lcp_simps input_ok_def split: if_splits dest: options_safe [OF _ _ nak_option_safe(1)])
  have reject: "lcpProcessConfigureReject q w = Some (e, w') \<Longrightarrow> ppp_safe st acc w'" for q e
    using assms(1) lcp_events_safe(5) [of st acc _ w']
    by (auto simp: lcp_simps input_ok_def split: if_splits dest: options_safe [OF _ _ reject_option_safe])
  have code_rej: "process_code_rej LCP lcpCallbacks n q w = Some (e, w') \<Longrightarrow> ppp_safe st acc w'" for n q e
    using assms(1) by (auto simp: lcp_simps split: if_splits elim!: rej)
  have proto: "lcpProcessProtocolRej q w = Some (e, w') \<Longrightarrow> ppp_safe st acc w'" for q e
    using assms(1) by (auto simp: lcp_simps safe_rejected Let_def split: if_splits elim!: rej)
  show ?thesis
    using assms lcp_req_safe [OF assms(1), of _ _ w'] ack nak reject code_rej proto lcp_events_safe(7) [of st acc w w']
      lcp_events_safe(6,8,10) [of st acc w _ w']
    by (auto simp: lcpProcessPacket_def drop_error_Some input_ok_def Let_def split: if_splits)
qed

lemma ipcp_packet_safe:
  assumes "ppp_safe st acc w" and "ipcpProcessPacket p w = Some w'"
  shows "ppp_safe st acc w'"
proof -
  have ev: "ppp_safe st acc v \<Longrightarrow> input_ok i \<Longrightarrow> i \<notin> {InUp, InOpen} \<Longrightarrow> fsm_step IPCP ipcpCallbacks i v = Some w' \<Longrightarrow> ppp_safe st acc w'" for v i
    by (rule ipcp_safe) auto
  have req: "ipcpProcessConfigureReq q w = Some (e, w') \<Longrightarrow> ppp_safe st acc w'" for q e
    using assms(1)
    by (auto simp: ipcpProcessConfigureReq_def process_configure_req_def safe_peer input_ok_def split: option.splits if_splits
      dest!: check_options_only_peer [OF parser_only_peer(2)] elim!: ev [where i = "InConfigureReq q c" for c, simplified, rotated 2])
  have ack: "ipcpProcessConfigureAck q w = Some (e, w') \<Longrightarrow> ppp_safe st acc w'" for q e
    using assms(1) ev [of w InConfigureAck] by (auto simp: ipcpProcessConfigureAck_def lcp_simps input_ok_def split: if_splits)
  have nak: "ipcpProcessConfigureNak q w = Some (e, w') \<Longrightarrow> ppp_safe st acc w'" for q e
    using assms(1) ev [of _ InConfigureNak]
    by (auto simp: ipcpProcessConfigureNak_def lcp_simps input_ok_def split: if_splits dest: options_safe [OF _ _ nak_option_safe(2)])
  have reject: "ipcpProcessConfigureReject q w = Some (e, w') \<Longrightarrow> ppp_safe st acc w'" for q e
    using assms(1) ev [of _ InConfigureNak]
    by (auto simp: ipcpProcessConfigureReject_def lcp_simps input_ok_def split: if_splits dest: options_safe [OF _ _ nak_option_safe(3)])
  have code_rej: "process_code_rej IPCP ipcpCallbacks n q w = Some (e, w') \<Longrightarrow> ppp_safe st acc w'" for n q e
    using assms(1) ev [of w "InCodeRej b" for b] by (auto simp: lcp_simps input_ok_def split: if_splits)
  show ?thesis
    using assms req ack nak reject code_rej ev [of w "InTerminateReq q" for q] ev [of w InTerminateAck] ev [of w "InUnknownCode q" for q]
    by (auto simp: ipcpProcessPacket_def drop_error_Some input_ok_def Let_def split: if_splits)
qed

section \<open>PAP\<close>

text \<open>What the callback sees of an Authenticate-Request, and that it accepts the one \<open>p\<close> in the state \<open>w\<close>.\<close>

definition pap_seen :: "u8 list \<Rightarrow> PppContext \<Rightarrow> PppContext" where
  "pap_seen p c =
     (let n = min (unat (p ! 4)) PPP_MAX_USERNAME_LEN
      in c\<lparr>peerName := take n (drop 5 p), papFsm := (papFsm c)\<lparr>papPasswordLen := unat (p ! (5 + n)), papPassword := drop (6 + n) p\<rparr>\<rparr>)"

definition pap_accepts :: "(PppContext \<Rightarrow> bool) \<Rightarrow> u8 list \<Rightarrow> ppp \<Rightarrow> bool" where
  "pap_accepts auth p w \<longleftrightarrow> upper_phase w \<and> p ! 0 = PAP_CODE_AUTH_REQ \<and> 6 + unat (p ! 4) \<le> length p \<and> auth (pap_seen p (pctx w))"

lemma pap_answer_states: "pap_send_answer code ident w = Some w' \<Longrightarrow> ppp_states w' = ppp_states w"
  by (auto simp: pap_send_answer_def drop_error_Some split: prod.splits option.splits dest!: control_free [THEN control_states])

lemma auth_done_safe:
  assumes "ppp_safe st acc w" and "auth_done w = Some w'"
  shows "ppp_safe st acc w'"
proof (cases "localAuthDone (pctx w) \<and> peerAuthDone (pctx w) \<and> pppPhase (pctx w) = PPP_PHASE_AUTHENTICATE")
  case True
  with assms(2) have "ipcpOpen (put_phase PPP_PHASE_NETWORK w) = Some w'" by (simp add: auth_done_def)
  from ipcpOpen_states [OF this] obtain s where s: "ppp_states w' = ppp_states (put_fsm IPCP (\<lambda>f. f\<lparr>fsmState := s\<rparr>) (put_phase PPP_PHASE_NETWORK w))" by blast
  have "ppp_safe st acc (put_fsm IPCP (\<lambda>f. f\<lparr>fsmState := s\<rparr>) (put_phase PPP_PHASE_NETWORK w))"
    using assms(1) True by (auto simp: safe_defs put_phase_def put_fsm_def put_ppp_def)
  then show ?thesis using safe_states [OF s] by simp
next
  case False
  then have "w' = w" using assms(2) unfolding auth_done_def if_not_P [OF False] by simp
  then show ?thesis using assms(1) by simp
qed

lemma pap_req_safe:
  assumes "ppp_safe st acc w" and "upper_phase w" and "papProcessAuthReq auth p w = Some (e, w')" and "p ! 0 = PAP_CODE_AUTH_REQ"
    and acc: "pap_accepts auth p w \<Longrightarrow> acc"
  shows "ppp_safe st acc w'"
proof -
  define n where "n = min (unat (p ! 4)) PPP_MAX_USERNAME_LEN"
  define w1 where "w1 = put_pap (\<lambda>f. f\<lparr>papPasswordLen := unat (p ! (5 + n)), papPassword := drop (6 + n) p\<rparr>)
    (put_ppp (\<lambda>c. c\<lparr>peerName := take n (drop 5 p)\<rparr>) w)"
  have seen: "pctx w1 = pap_seen p (pctx w)" by (simp add: w1_def n_def pap_seen_def put_pap_def put_ppp_def Let_def)
  have s1: "ppp_states w1 = ppp_states w" by (simp add: w1_def ppp_states_def put_pap_def put_ppp_def Let_def)
  then have safe: "ppp_safe st acc w1" using assms(1) safe_states [OF s1] by simp
  have up: "fsmState (lcpFsm (pctx w1)) = PPP_STATE_9_OPENED" using assms(1,2) s1 by (simp add: ppp_safe_def ppp_states_def Let_def)
  from assms(3) consider "w' = w \<or> w' = w1"
    | "length p \<ge> 6 + unat (p ! 4)" "auth (pctx w1)" "run_all [papSendAuthAck (p ! 1),
         \<lambda>w. Some (put_ppp (\<lambda>c. c\<lparr>localAuthDone := True\<rparr>) (put_pap (\<lambda>f. f\<lparr>papLocalState := PAP_STATE_4_ACK_SENT\<rparr>) w)), auth_done] w1 = Some w'"
    | "run_all [papSendAuthNak (p ! 1), \<lambda>w. Some (put_pap (\<lambda>f. f\<lparr>papLocalState := PAP_STATE_6_NAK_SENT\<rparr>) w), lcpClose] w1 = Some w'"
    unfolding papProcessAuthReq_def Let_def n_def [symmetric] w1_def [symmetric] no_error_Some
    by (auto simp only: no_error_Some option.inject prod.inject split: if_splits)
  then show ?thesis
  proof cases
    case 1
    then show ?thesis using assms(1) safe by blast
  next
    case 2
    from 2(3) obtain w2 where w2: "papSendAuthAck (p ! 1) w1 = Some w2"
      "auth_done (put_ppp (\<lambda>c. c\<lparr>localAuthDone := True\<rparr>) (put_pap (\<lambda>f. f\<lparr>papLocalState := PAP_STATE_4_ACK_SENT\<rparr>) w2)) = Some w'"
      by (auto split: bind_splits)
    have "ppp_safe st acc w2" using safe safe_states [OF pap_answer_states [OF w2(1) [unfolded papSendAuthAck_def]]] by simp
    then have "ppp_safe st acc (put_ppp (\<lambda>c. c\<lparr>localAuthDone := True\<rparr>) (put_pap (\<lambda>f. f\<lparr>papLocalState := PAP_STATE_4_ACK_SENT\<rparr>) w2))"
      using acc [unfolded pap_accepts_def] assms(2,4) 2(1,2) seen by (auto simp: safe_defs put_pap_def put_ppp_def)
    then show ?thesis by (rule auth_done_safe [OF _ w2(2)])
  next
    case 3
    then obtain w2 where w2: "papSendAuthNak (p ! 1) w1 = Some w2" "lcpClose (put_pap (\<lambda>f. f\<lparr>papLocalState := PAP_STATE_6_NAK_SENT\<rparr>) w2) = Some w'"
      by (auto split: bind_splits)
    have s2: "ppp_states w2 = ppp_states w1" by (rule pap_answer_states [OF w2(1) [unfolded papSendAuthNak_def]])
    have "auth_asked st acc w2" using safe asked_states [OF s2, of st acc] by (simp add: ppp_safe_def)
    then have "auth_asked st acc (put_pap (\<lambda>f. f\<lparr>papLocalState := PAP_STATE_6_NAK_SENT\<rparr>) w2)" by (simp add: safe_defs put_pap_def put_ppp_def)
    moreover have "fsmState (lcpFsm (pctx w2)) = PPP_STATE_9_OPENED" using up s2 by (simp add: ppp_states_def Let_def)
    ultimately show ?thesis by (intro lcp_close_safe(2) [OF _ _ w2(2)]) (simp_all add: put_pap_def put_ppp_def)
  qed
qed

lemma pap_packet_safe:
  assumes "ppp_safe st acc w" and "papProcessPacket auth p w = Some w'" 
    and acc: "pap_accepts auth (take (pkt_length p) p) w \<Longrightarrow> acc"
  shows "ppp_safe st acc w'"
proof -
  have peer: "ppp_states (put_pap (\<lambda>f. f\<lparr>papPeerState := s\<rparr>) w) = ppp_states w" for s by (rule states_pap) simp
  have req: "upper_phase w \<Longrightarrow> papProcessAuthReq auth (take (pkt_length p) p) w = Some (e, w') \<Longrightarrow> take (pkt_length p) p ! 0 = PAP_CODE_AUTH_REQ \<Longrightarrow>
      ppp_safe st acc w'" for e
    using pap_req_safe [OF assms(1)] acc by blast
  have "ppp_safe st acc (put_ppp (\<lambda>c. c\<lparr>peerAuthDone := True\<rparr>) (put_pap (\<lambda>f. f\<lparr>papPeerState := PAP_STATE_5_ACK_RCVD\<rparr>) w))"
    using assms(1) by (auto simp: safe_defs put_pap_def put_ppp_def)
  then have ack: "papProcessAuthAck q w = Some (e, w') \<Longrightarrow> ppp_safe st acc w'" for q e
    using assms(1) auth_done_safe by (auto simp: papProcessAuthAck_def no_error_Some split: if_splits)
  have nak: "papProcessAuthNak q w = Some (e, w') \<Longrightarrow> ppp_safe st acc w'" for q e
    using assms(1) safe_states [OF peer] lcp_close_safe(1) [of st acc _ w']
    by (auto simp: papProcessAuthNak_def no_error_Some split: if_splits)
  show ?thesis using assms req ack nak
    by (auto simp: papProcessPacket_def drop_error_Some upper_phase_def Let_def split: if_splits)
qed

section \<open>Sessions\<close>

text \<open>
  What changes the state of the automata: a frame received, the timer, \<open>pppClose\<close>, the end of \<open>pppConnect\<close> or \<open>pppClose\<close> after a
  timeout. Everything else (the UART driver, datagrams in both directions, the other calls of the user) leaves the control state alone.
\<close>

inductive ppp_step :: "(PppContext \<Rightarrow> bool) \<Rightarrow> (u8 list \<Rightarrow> ppp \<Rightarrow> ppp option) \<Rightarrow> ppp \<Rightarrow> ppp \<Rightarrow> bool" for auth ip where
  receive: "pppProcessFrame (ppp_protocols auth ip) frame w = Some w' \<Longrightarrow> ppp_step auth ip w w'"
| tick: "pppTick w = Some w' \<Longrightarrow> ppp_step auth ip w w'"
| close: "lcpClose w = Some w' \<Longrightarrow> ppp_step auth ip w w'"
| abort: "ppp_step auth ip w (ppp_abort w)"
| other: "ppp_control w' = ppp_control w \<Longrightarrow> ppp_step auth ip w w'"

inductive ppp_run :: "(PppContext \<Rightarrow> bool) \<Rightarrow> (u8 list \<Rightarrow> ppp \<Rightarrow> ppp option) \<Rightarrow> PppSettings \<Rightarrow> ppp \<Rightarrow> bool" for auth ip settings where
  init: "pppInit settings w = (e, w') \<Longrightarrow> ppp_run auth ip settings w'"
| step: "ppp_run auth ip settings w \<Longrightarrow> ppp_step auth ip w w' \<Longrightarrow> ppp_run auth ip settings w'"
| connect: "ppp_run auth ip settings w \<Longrightarrow> lcpOpen (ppp_start w) = Some w' \<Longrightarrow> ppp_run auth ip settings w'"

text \<open>
  The packet of a PAP frame, and that the callback has accepted a request received in a state of the session from which \<open>w\<close> was
  reached without a new connection.
\<close>

definition pap_frame :: "u8 list \<Rightarrow> u8 list option" where
  "pap_frame frame =
     (let len = length frame - PPP_FCS_SIZE; (n, proto) = pppParseFrameHeader frame len; data = drop n (take len frame)
      in if n \<noteq> 0 \<and> proto = PPP_PROTOCOL_PAP then Some (take (pkt_length data) data) else None)"

definition was_accepted :: "(PppContext \<Rightarrow> bool) \<Rightarrow> (u8 list \<Rightarrow> ppp \<Rightarrow> ppp option) \<Rightarrow> PppSettings \<Rightarrow> ppp \<Rightarrow> bool" where
  "was_accepted auth ip settings w \<longleftrightarrow>
     (\<exists>v frame p v'. ppp_run auth ip settings v \<and> pap_frame frame = Some p \<and> pap_accepts auth p v \<and>
        pppProcessFrame (ppp_protocols auth ip) frame v = Some v' \<and> (ppp_step auth ip)\<^sup>*\<^sup>* v' w)"

section \<open>Every step keeps the protection\<close>

lemma timer_safe:
  "ppp_safe st acc w \<Longrightarrow> lcpTick w = Some w' \<Longrightarrow> ppp_safe st acc w'"
  "ppp_safe st acc w \<Longrightarrow> ipcpTick w = Some w' \<Longrightarrow> ppp_safe st acc w'"
  "ppp_safe st acc w \<Longrightarrow> papTick w = Some w' \<Longrightarrow> ppp_safe st acc w'"
proof -
  assume s: "ppp_safe st acc w"
  have t: "ppp_time w = (t, v) \<Longrightarrow> ppp_safe st acc v" for t v using s safe_states [OF states_time] by blast
  show "lcpTick w = Some w' \<Longrightarrow> ppp_safe st acc w'"
    using s t lcp_events_safe(2) [of st acc _ w'] by (auto simp: lcpTick_def fsm_tick_def input_ok_def Let_def split: prod.splits if_splits)
  show "ipcpTick w = Some w' \<Longrightarrow> ppp_safe st acc w'"
    using s t ipcp_safe [of st acc _ InTimeout w'] by (auto simp: ipcpTick_def fsm_tick_def input_ok_def Let_def split: prod.splits if_splits)
  have p: "ppp_safe st acc (put_pap (\<lambda>f. f\<lparr>papPeerState := s\<rparr>) v) = ppp_safe st acc v" for s v by (rule safe_states, rule states_pap) simp
  have r: "papSendAuthReq v = Some w' \<Longrightarrow> ppp_safe st acc v \<Longrightarrow> ppp_safe st acc w'" for v using safe_states [OF pap_send_states] by blast
  show "papTick w = Some w' \<Longrightarrow> ppp_safe st acc w'"
    using s t by (auto simp: papTick_def p Let_def split: prod.splits if_splits elim!: r lcp_close_safe(1) [rotated])
qed

lemma tick_safe:
  assumes "ppp_safe st acc w" and "pppTick w = Some w'"
  shows "ppp_safe st acc w'"
proof -
  from assms(2) have "w' = w \<or> (\<exists>w1 w2. lcpTick w = Some w1 \<and> ipcpTick w1 = Some w2 \<and> papTick w2 = Some w')"
    by (auto simp: pppTick_def split: option.splits bind_splits if_splits)
  then show ?thesis
  proof (elim disjE exE conjE)
    fix w1 w2
    assume w: "lcpTick w = Some w1" "ipcpTick w1 = Some w2" "papTick w2 = Some w'"
    show ?thesis by (rule timer_safe(3) [OF timer_safe(2) [OF timer_safe(1) [OF assms(1) w(1)] w(2)] w(3)])
  qed (simp add: assms(1))
qed

lemma unknown_states: "lcpProcessUnknownProtocol proto p w = Some w' \<Longrightarrow> ppp_states w' = ppp_states w"
  by (auto simp: lcpProcessUnknownProtocol_def drop_error_Some Let_def split: if_splits dest!: states_protocol_rej)

lemma frame_safe:
  assumes "ppp_safe st acc w" and "pppProcessFrame (ppp_protocols auth ip) frame w = Some w'" and acc: "\<And>p. pap_frame frame = Some p \<Longrightarrow> pap_accepts auth p w \<Longrightarrow> acc"
    and "\<And>p v v'. ip p v = Some v' \<Longrightarrow> ppp_control v' = ppp_control v"
  shows "ppp_safe st acc w'"
proof -
  have i: "ip p w = Some w' \<Longrightarrow> ppp_safe st acc w'" for p using assms(1) safe_states [OF control_states [OF assms(4)]] by blast
  have u: "lcpProcessUnknownProtocol proto p w = Some w' \<Longrightarrow> ppp_safe st acc w'" for proto p
    using assms(1) safe_states [OF unknown_states] by blast
  show ?thesis
  proof (cases "length frame < PPP_FCS_SIZE \<or> pppCalcFcs frame (length frame) \<noteq> 0x0F47 \<or> fst (pppParseFrameHeader frame (length frame - PPP_FCS_SIZE)) = 0")
    case True
    then have "w' = w" using assms(2) by (auto simp: pppProcessFrame_def Let_def split: prod.splits if_splits)
    then show ?thesis using assms(1) by simp
  next
    case False
    obtain n proto where h: "pppParseFrameHeader frame (length frame - PPP_FCS_SIZE) = (n, proto)" by (cases "pppParseFrameHeader frame (length frame - PPP_FCS_SIZE)")
    define q where "q = drop n (take (length frame - PPP_FCS_SIZE) frame)"
    have d: "ppp_dispatch (ppp_protocols auth ip) proto q w = Some w'" using assms(2) False h by (simp add: pppProcessFrame_def Let_def q_def)
    have "proto = PPP_PROTOCOL_PAP \<Longrightarrow> pap_accepts auth (take (pkt_length q) q) w \<Longrightarrow> acc" using acc False h by (simp add: pap_frame_def Let_def q_def)
    then have "proto = PPP_PROTOCOL_PAP \<Longrightarrow> papProcessPacket auth q w = Some w' \<Longrightarrow> ppp_safe st acc w'" by (intro pap_packet_safe [OF assms(1)])
    then show ?thesis
      using lcp_packet_safe [OF assms(1), of q w'] ipcp_packet_safe [OF assms(1), of q w'] i [of q] u [of proto q] d
      by (auto simp: ppp_dispatch_def ppp_protocols_def split: if_splits)
  qed
qed

lemma safe_weaken: "ppp_safe st acc w \<Longrightarrow> (acc \<Longrightarrow> acc') \<Longrightarrow> ppp_safe st acc' w"
  by (auto simp: safe_defs)

lemma step_safe:
  assumes "ppp_step auth ip w w'" and "ppp_safe st acc w"
    and acc: "\<And>frame p. pppProcessFrame (ppp_protocols auth ip) frame w = Some w' \<Longrightarrow> pap_frame frame = Some p \<Longrightarrow> pap_accepts auth p w \<Longrightarrow> acc"
    and "\<And>p v v'. ip p v = Some v' \<Longrightarrow> ppp_control v' = ppp_control v"
  shows "ppp_safe st acc w'"
  using assms(1)
proof cases
  case (receive frame)
  show ?thesis by (rule frame_safe [OF assms(2) receive acc [OF receive] assms(4)])
next
  case tick
  then show ?thesis by (rule tick_safe [OF assms(2)])
next
  case close
  then show ?thesis by (rule lcp_close_safe(1) [OF assms(2)])
next
  case abort
  then show ?thesis using assms(2) by (auto simp: ppp_abort_def safe_defs put_ppp_def)
next
  case other
  then show ?thesis using assms(2) safe_states [OF control_states [OF other]] by simp
qed

lemma connect_pap: "lcpOpen (ppp_start w) = Some w' \<Longrightarrow> papLocalState (papFsm (pctx w')) = PAP_STATE_0_INITIAL"
proof -
  have s: "run_all [init_restart LCP n, lcpSendConfigureReq] v = Some v' \<Longrightarrow> papLocalState (papFsm (pctx v')) = papLocalState (papFsm (pctx v))" for n v v'
    by (auto simp: lcpSendConfigureReq_def ppp_states_def Let_def split: bind_splits dest!: states_restart(1) states_configure_req)
  show "lcpOpen (ppp_start w) = Some w' \<Longrightarrow> papLocalState (papFsm (pctx w')) = PAP_STATE_0_INITIAL"
    by (auto simp: lcpOpen_def pppOpenEvent_def pppUpEvent_def layer_fsm_def ppp_start_def put_phase_def put_ppp_def reset_fsm_def Let_def
        pppChangeState_def put_fsm_def lcpCallbacks_def lcp_callbacks_def lcpSendConfigureReq_def ppp_states_def split: bind_splits
        dest!: states_restart(1) states_configure_req)
qed

lemma run_safe:
  assumes "ppp_run auth ip st w" and "\<And>p v v'. ip p v = Some v' \<Longrightarrow> ppp_control v' = ppp_control v"
  shows "ppp_safe st (was_accepted auth ip st w) w"
  using assms(1)
proof induction
  case (init w e w')
  then show ?case by (auto simp: pppInit_def safe_defs zeroFsm_def)
next
  case (step w w')
  have m: "was_accepted auth ip st w \<Longrightarrow> was_accepted auth ip st w'" using step(2) unfolding was_accepted_def by (blast intro: rtranclp.rtrancl_into_rtrancl)
  have "pppProcessFrame (ppp_protocols auth ip) frame w = Some w' \<Longrightarrow> pap_frame frame = Some p \<Longrightarrow> pap_accepts auth p w \<Longrightarrow> was_accepted auth ip st w'"
    for frame p using step(1) unfolding was_accepted_def by blast
  then show ?case by (intro step_safe [OF step(2) safe_weaken [OF step(3) m]] assms(2))
next
  case (connect w w')
  from lcp_open_safe [OF connect(3,2)] have s: "ppp_safe st (was_accepted auth ip st w) w'" .
  have "papLocalState (papFsm (pctx w')) \<noteq> PAP_STATE_4_ACK_SENT" using connect_pap [OF connect(2)] by simp
  with s show ?case by (simp add: safe_defs)
qed

section \<open>No network without authentication\<close>

text \<open>
  Property C26. When the user sets a callback and allows PAP, the network phase is not entered and IPCP does not leave its initial
  state, in whatever order frames, timers, connections and calls of the user come, unless LCP is open, PAP has been negotiated, both
  sides are authenticated and, since the connection began, the callback has accepted the name and the password of an
  Authenticate-Request received on it. The handler of IP packets, \<open>ip\<close>, is assumed to leave the control state of PPP alone.
\<close>

theorem ppp_authentication:
  assumes "ppp_run auth ip settings w" and "\<And>p v v'. ip p v = Some v' \<Longrightarrow> ppp_control v' = ppp_control v"
    and "setAuthCallback settings" and "setAuthProtocol settings AND PPP_AUTH_PROTOCOL_PAP \<noteq> 0"
    and "pppPhase (pctx w) = PPP_PHASE_NETWORK \<or> fsmState (ipcpFsm (pctx w)) \<noteq> PPP_STATE_0_INITIAL"
  shows "fsmState (lcpFsm (pctx w)) = PPP_STATE_9_OPENED \<and> cfAuthProtocol (localConfig (pctx w)) = PPP_PROTOCOL_PAP \<and>
    localAuthDone (pctx w) \<and> peerAuthDone (pctx w) \<and> papLocalState (papFsm (pctx w)) = PAP_STATE_4_ACK_SENT \<and>
    was_accepted auth ip settings w"
proof -
  have s: "ppp_safe settings (was_accepted auth ip settings w) w" by (rule run_safe [OF assms(1,2)])
  then have n: "pppPhase (pctx w) = PPP_PHASE_NETWORK" using assms(5) by (auto simp: ppp_safe_def)
  then have o: "fsmState (lcpFsm (pctx w)) = PPP_STATE_9_OPENED" "localAuthDone (pctx w)" "peerAuthDone (pctx w)"
    using s by (simp_all add: ppp_safe_def upper_phase_def)
  moreover have "auth_required w" using s assms(3,4) by (simp add: ppp_safe_def auth_asked_def auth_required_def)
  ultimately have "papLocalState (papFsm (pctx w)) = PAP_STATE_4_ACK_SENT" "cfAuthProtocol (localConfig (pctx w)) = PPP_PROTOCOL_PAP"
    using s n by (simp_all add: ppp_safe_def auth_asked_def upper_phase_def)
  with s o show ?thesis unfolding ppp_safe_def auth_asked_def by blast
qed

text \<open>
  A session without memory for what is sent: the peer configures nothing, acknowledges an empty request and authenticates itself
  with the name a and the password b.
\<close>

definition example_user :: "PppContext \<Rightarrow> bool" where
  "example_user c \<longleftrightarrow> peerName c = [0x61] \<and> pppCheckPassword c [0x62]"

definition example_settings :: PppSettings where
  "example_settings = pppGetDefaultSettings\<lparr>setAuthCallback := True\<rparr>"

definition example_handlers :: ppp_handlers where
  "example_handlers = ppp_protocols example_user (\<lambda>p. Some)"

definition idle_ppp :: "PppState \<Rightarrow> PppPhase \<Rightarrow> ppp \<Rightarrow> bool" where
  "idle_ppp s ph w \<longleftrightarrow> heapResult (px w) = (\<lambda>n. None) \<and> fsmState (lcpFsm (pctx w)) = s \<and> fsmIdentifier (lcpFsm (pctx w)) = 0 \<and>
     fsmState (ipcpFsm (pctx w)) = PPP_STATE_0_INITIAL \<and> pppPhase (pctx w) = ph \<and> cfAuthProtocol (localConfig (pctx w)) = PPP_PROTOCOL_PAP \<and>
     cfAuthProtocol (peerConfig (pctx w)) = 0 \<and> setAuthCallback (pppSettings (pctx w)) \<and> (ph = PPP_PHASE_AUTHENTICATE \<longrightarrow> peerAuthDone (pctx w))"

lemma no_memory [simp]: "heapResult x = (\<lambda>n. None) \<Longrightarrow> pppAllocBuffer x n = (None, tick_call x)"
  by (simp add: pppAllocBuffer_def bufAlloc_def netBufferAlloc_def heapAlloc_def)

lemma heap_tick [simp]: "heapResult (tick_call x) = heapResult x"
  by (simp add: tick_call_def)

lemmas example_defs = idle_ppp_def layer_fsm_def put_phase_def put_ppp_def put_pap_def put_fsm_def pppChangeState_def Let_def
  lcpCallbacks_def lcp_callbacks_def lcpSendConfigureReq_def send_configure_req_def init_restart_def

lemma example_connect:
  assumes "pppInit example_settings (example_ppp\<lparr>px := (px example_ppp)\<lparr>heapResult := \<lambda>n. None\<rparr>\<rparr>) = (e, w)"
  shows "\<exists>w'. lcpOpen (ppp_start w) = Some w' \<and> idle_ppp PPP_STATE_6_REQ_SENT PPP_PHASE_ESTABLISH w'"
proof -
  from assms have "heapResult (px w) = (\<lambda>n. None)" "pppSettings (pctx w) = example_settings" by (auto simp: pppInit_def)
  then show ?thesis
    by (simp add: example_defs lcpOpen_def ppp_start_def reset_fsm_def pppOpenEvent_def pppUpEvent_def example_settings_def pppGetDefaultSettings_def)
qed

lemma example_frame:
  assumes "pppCalcFcs f (length f) = 0x0F47" and "pppParseFrameHeader f (length f - 2) = (4, proto)" and "2 \<le> length f"
    and "drop 4 (take (length f - 2) f) = data"
  shows "pppProcessFrame h f w = ppp_dispatch h proto data w"
  using assms by (simp add: pppProcessFrame_def)

lemma example_request:
  assumes "idle_ppp PPP_STATE_6_REQ_SENT PPP_PHASE_ESTABLISH w"
  shows "\<exists>w'. pppProcessFrame example_handlers [0xFF, 0x03, 0xC0, 0x21, 1, 1, 0, 4, 0xD1, 0xB5] w = Some w' \<and>
    idle_ppp PPP_STATE_8_ACK_SENT PPP_PHASE_ESTABLISH w'"
proof -
  let ?f = "[0xFF, 0x03, 0xC0, 0x21, 1, 1, 0, 4, 0xD1, 0xB5] :: u8 list" and ?p = "[1, 1, 0, 4] :: u8 list"
  have h: "of_be16 0 4 = 4" by code_simp
  have d: "pppProcessFrame example_handlers ?f w = ppp_dispatch example_handlers PPP_PROTOCOL_LCP ?p w" by (rule example_frame) code_simp+
  have "pppProcessFrame example_handlers ?f w = lcpProcessPacket ?p w"
    unfolding d by (simp add: ppp_dispatch_def example_handlers_def ppp_protocols_def)
  moreover have "\<exists>w'. lcpProcessPacket ?p w = Some w' \<and> idle_ppp PPP_STATE_8_ACK_SENT PPP_PHASE_ESTABLISH w'"
    using assms h by (simp add: lcpProcessPacket_def packet_ok_def pkt_length_def lcpProcessConfigureReq_def process_configure_req_def pkt_options_def
        check_options.simps example_defs drop_error_def pppRcvConfigureReqEvent_def pppSendConfigureAckNak_def)
  ultimately show ?thesis by simp
qed

lemma example_ack:
  assumes "idle_ppp PPP_STATE_8_ACK_SENT PPP_PHASE_ESTABLISH w"
  shows "\<exists>w'. pppProcessFrame example_handlers [0xFF, 0x03, 0xC0, 0x21, 2, 0, 0, 4, 0xC0, 0xCA] w = Some w' \<and>
    idle_ppp PPP_STATE_9_OPENED PPP_PHASE_AUTHENTICATE w'"
proof -
  let ?f = "[0xFF, 0x03, 0xC0, 0x21, 2, 0, 0, 4, 0xC0, 0xCA] :: u8 list" and ?p = "[2, 0, 0, 4] :: u8 list"
  have h: "of_be16 0 4 = 4" by code_simp
  have d: "pppProcessFrame example_handlers ?f w = ppp_dispatch example_handlers PPP_PROTOCOL_LCP ?p w" by (rule example_frame) code_simp+
  have "pppProcessFrame example_handlers ?f w = lcpProcessPacket ?p w"
    unfolding d by (simp add: ppp_dispatch_def example_handlers_def ppp_protocols_def)
  moreover have "\<exists>w'. lcpProcessPacket ?p w = Some w' \<and> idle_ppp PPP_STATE_9_OPENED PPP_PHASE_AUTHENTICATE w'"
    using assms h by (simp add: lcpProcessPacket_def packet_ok_def pkt_length_def lcpProcessConfigureAck_def with_identifier_def no_error_def
        example_defs drop_error_def pppRcvConfigureAckEvent_def lcpThisLayerUp_def papStartAuth_def)
  ultimately show ?thesis by simp
qed

lemma example_auth:
  assumes "idle_ppp PPP_STATE_9_OPENED PPP_PHASE_AUTHENTICATE w"
  shows "\<exists>w'. pppProcessFrame example_handlers [0xFF, 0x03, 0xC0, 0x23, 1, 1, 0, 8, 1, 0x61, 1, 0x62, 0xCE, 0x5D] w = Some w' \<and>
    pppPhase (pctx w') = PPP_PHASE_NETWORK"
proof -
  let ?f = "[0xFF, 0x03, 0xC0, 0x23, 1, 1, 0, 8, 1, 0x61, 1, 0x62, 0xCE, 0x5D] :: u8 list" and ?p = "[1, 1, 0, 8, 1, 0x61, 1, 0x62] :: u8 list"
  have h: "of_be16 0 8 = 8" by code_simp
  have d: "pppProcessFrame example_handlers ?f w = ppp_dispatch example_handlers PPP_PROTOCOL_PAP ?p w" by (rule example_frame) code_simp+
  have "pppProcessFrame example_handlers ?f w = papProcessPacket example_user ?p w"
    unfolding d by (simp add: ppp_dispatch_def example_handlers_def ppp_protocols_def)
  moreover have "\<exists>w'. papProcessPacket example_user ?p w = Some w' \<and> pppPhase (pctx w') = PPP_PHASE_NETWORK"
    using assms h by (simp add: papProcessPacket_def packet_ok_def pkt_length_def papProcessAuthReq_def example_user_def pppCheckPassword_def
        papCheckPassword_def example_defs drop_error_def no_error_def papSendAuthAck_def pap_send_answer_def auth_done_def ipcpOpen_def pppOpenEvent_def
        pppUpEvent_def ipcpCallbacks_def ipcpSendConfigureReq_def)
  ultimately show ?thesis by simp
qed

theorem ppp_authentication_witness:
  "\<exists>w. ppp_run example_user (\<lambda>p. Some) example_settings w \<and> pppPhase (pctx w) = PPP_PHASE_NETWORK \<and>
     papLocalState (papFsm (pctx w)) = PAP_STATE_4_ACK_SENT \<and> was_accepted example_user (\<lambda>p. Some) example_settings w"
proof -
  let ?run = "ppp_run example_user (\<lambda>p. Some) example_settings"
  have frame: "?run v \<Longrightarrow> pppProcessFrame example_handlers f v = Some v' \<Longrightarrow> ?run v'" for v f v'
    unfolding example_handlers_def by (blast intro: ppp_run.step ppp_step.receive)
  obtain e w where w: "pppInit example_settings (example_ppp\<lparr>px := (px example_ppp)\<lparr>heapResult := \<lambda>n. None\<rparr>\<rparr>) = (e, w)" by fastforce
  obtain w1 where w1: "lcpOpen (ppp_start w) = Some w1" "idle_ppp PPP_STATE_6_REQ_SENT PPP_PHASE_ESTABLISH w1" using example_connect [OF w] by blast
  have 1: "?run w1" by (rule ppp_run.connect [OF ppp_run.init [OF w] w1(1)])
  obtain w2 where 2: "?run w2" "idle_ppp PPP_STATE_8_ACK_SENT PPP_PHASE_ESTABLISH w2" using example_request [OF w1(2)] frame [OF 1] by blast
  obtain w3 where 3: "?run w3" "idle_ppp PPP_STATE_9_OPENED PPP_PHASE_AUTHENTICATE w3" using example_ack [OF 2(2)] frame [OF 2(1)] by blast
  obtain w4 where 4: "?run w4" "pppPhase (pctx w4) = PPP_PHASE_NETWORK" using example_auth [OF 3(2)] frame [OF 3(1)] by blast
  have "setAuthCallback example_settings" "setAuthProtocol example_settings AND PPP_AUTH_PROTOCOL_PAP \<noteq> 0"
    by (simp_all add: example_settings_def pppGetDefaultSettings_def)
  with ppp_authentication [OF 4(1)] 4(2) have "papLocalState (papFsm (pctx w4)) = PAP_STATE_4_ACK_SENT \<and> was_accepted example_user (\<lambda>p. Some) example_settings w4"
    by simp
  with 4 show ?thesis by blast
qed

end
