(* ===== verification/Spec2Isabelle.thy ===== *)
theory Spec2Isabelle
  imports Tcp_Demux Tcp_Memory Tcp_Stream Udp_Transfer Icmp_Messages Arp_Cache Dns_Client Ppp_Auth
begin

text \<open>
  \<^bold>\<open>Verification of the CycloneTCP core (\<open>src/src/cyclone_tcp/core\<close>).\<close>

  CycloneTCP is a TCP/IP stack for embedded systems, written in C. The part verified here is the
  path of the user's data: the multi-part buffers every layer passes around, the checksum, the whole
  TCP and UDP modules with the socket interface, ICMP, the way of a datagram through IPv4 with its
  fragmentation and reassembly, the addresses and routes of an interface, the ARP cache and the
  Ethernet layer, PPP with its control protocols, and the resolution of host names by DNS.

  \<^bold>\<open>The parts of the program.\<close> A user task calls the functions of \<open>tcp.c\<close>; the network task
  hands an incoming segment to \<open>tcpProcessSegment\<close> (\<open>tcp_fsm.c\<close>) and runs \<open>tcpTick\<close>
  (\<open>tcp_timer.c\<close>) periodically. All of them work on the same table of sockets, one at a time, under
  one mutex (\<open>netMutex\<close>), which a user call gives up only while it waits for an event. They share
  the helpers of \<open>tcp_misc.c\<close>: building and sending segments, the acceptability tests, the
  retransmission queue, congestion control and the circular buffers. A segment leaves through
  \<open>ipSendDatagram\<close> in a multi-part buffer (\<open>net_mem.c\<close>) with the checksum of \<open>ip.c\<close>.

  \<^bold>\<open>The model and its theories\<close>, in the order of their imports:

  \<^item> \<open>Prelude\<close>: the integer types of the target (32-bit, little endian), error codes, byte order
    conversions, lemmas on lists and words.
  \<^item> \<open>Net_Mem\<close> (\<open>net_mem.c\<close>): the block pool (\<open>memPoolAlloc\<close>, \<open>memPoolFree\<close>, \<open>memPoolInit\<close>) and all
    functions on \<open>NetBuffer\<close>. The locale \<open>block_allocator\<close> is what the buffers ask of an
    allocator; the pool provides it. The locale \<open>byte_store\<close> is what the users of a buffer ask of
    it; multi-part buffers and flat byte lists provide it.
  \<^item> \<open>Ip_Checksum\<close> (\<open>ip.c\<close>): the optimised checksum, over one chunk and over a multi-part buffer,
    with and without the pseudo header.
  \<^item> \<open>Tcp_Types\<close> (\<open>tcp.h\<close>, \<open>socket.h\<close>, \<open>netGetRand\<close> of \<open>net.c\<close>): the TCP header, the socket as the record
    \<open>Socket\<close> with the members of the C structure, queue items, the comparison macros for sequence
    numbers, and the outside world \<open>ctx\<close>.
  \<^item> \<open>Tcp_Timer\<close> (\<open>tcp_timer.c\<close> without \<open>tcpTick\<close>), \<open>Tcp_Buffer\<close> (the circular buffers at the end of
    \<open>tcp_misc.c\<close>), \<open>Tcp_Events\<close> (\<open>tcpUpdateEvents\<close>, \<open>tcpChangeState\<close>, \<open>tcpWaitForEvents\<close>).
  \<^item> \<open>Tcp_Segment\<close> (\<open>tcpSendSegment\<close>, \<open>tcpSendResetSegment\<close>, \<open>tcpAddOption\<close>, \<open>tcpGetOption\<close>,
    \<open>tcpFormatPseudoHeader\<close>, with \<open>ipAllocBuffer\<close> and \<open>ethAllocBuffer\<close>), \<open>Tcp_Window\<close>
    (\<open>tcpCheckSequenceNumber\<close>, \<open>tcpCheckSyn\<close>, \<open>tcpUpdateSackBlocks\<close>, \<open>tcpUpdateSendWindow\<close>,
    \<open>tcpUpdateReceiveWindow\<close>, \<open>tcpComputeRto\<close>), \<open>Tcp_Retransmit\<close> (\<open>tcpUpdateRetransmitQueue\<close>,
    the flush functions, \<open>tcpDeleteControlBlock\<close>, \<open>tcpRetransmitSegment\<close>), \<open>Tcp_Ack\<close>
    (\<open>tcpCheckAck\<close>, \<open>tcpFastRetransmit\<close>, \<open>tcpFastRecovery\<close>, \<open>tcpFastLossRecovery\<close>,
    \<open>tcpProcessSegmentData\<close>), \<open>Tcp_Nagle\<close> (\<open>tcpNagleAlgo\<close>): the rest of \<open>tcp_misc.c\<close>.
  \<^item> \<open>Tcp_Fsm\<close> (\<open>tcp_fsm.c\<close>): \<open>tcpProcessSegment\<close> and the eleven state handlers. \<open>Tcp_Tick\<close>:
    \<open>tcpTick\<close>. \<open>Tcp_User\<close> (\<open>tcp.c\<close>): the user calls. \<open>Tcp_Table\<close>: the operations on the table of
    sockets (\<open>socketInit\<close>, \<open>socketOpen\<close> of \<open>socket.c\<close>, \<open>tcpKillOldestConnection\<close>,
    \<open>tcpGetDynamicPort\<close>).
  \<^item> \<open>Ipv4_Frag\<close> (\<open>ipv4_frag.c\<close> with \<open>ipv4SendDatagram\<close>, \<open>ipv4ProcessPacket\<close> and the header part of
    \<open>ipv4SendPacket\<close> of \<open>ipv4.c\<close>): fragmentation, reassembly in the memory of the fragment queue, and
    its timer. The list of holes lies in the missing bytes themselves, as in the code.
  \<^item> \<open>Udp\<close> (\<open>udp.c\<close>), \<open>Socket_Api\<close> (the rest of \<open>socket.c\<close>), \<open>Icmp\<close> (\<open>icmp.c\<close> and
    \<open>ipv4ProcessDatagram\<close> of \<open>ipv4.c\<close>, the dispatch to ICMP, TCP and UDP). The state of the host is
    \<open>stack\<close>: the table of sockets and the table of UDP callbacks.
  \<^item> \<open>Eth_Crc\<close> (\<open>ethernet_misc.c\<close>): the CRC, bit by bit and with the table, over flat and multi-part data.
    \<open>Net_Interface\<close> (\<open>net.h\<close>, \<open>nic.h\<close>, \<open>arp.h\<close>, \<open>ipv4.h\<close>): the interface with its addresses, filters and ARP
    cache. \<open>Ipv4_Addr\<close> (\<open>ipv4_misc.c\<close>, the first half of \<open>ipv4.c\<close>): address configuration, address checks,
    source address selection, address strings. \<open>Ethernet\<close> (\<open>ethernet.c\<close>, \<open>nic.c\<close>, the multicast functions of
    \<open>ipv4.c\<close>): frames out and in, the MAC and the multicast filter. \<open>Arp\<close> (\<open>arp.c\<close>, \<open>ipv4SendPacket\<close>): address
    resolution and the choice of the next hop. Their state is \<open>link\<close>: the table of interfaces, the outside world and the
    frames handed to the drivers.
  \<^item> \<open>Dns_Name\<close> (\<open>dns_common.c\<close>): encoded domain names. \<open>Dns_Client\<close> (\<open>dns_cache.c\<close>, \<open>dns_client.c\<close>): the cache of
    names, queries, responses and the timer. The state is \<open>resolver\<close>: the cache, the \<open>stack\<close> with the UDP callbacks, and the
    interfaces with the addresses of the servers.

  \<^item> \<open>Ppp_Link\<close> (\<open>ppp.c\<close>, \<open>ppp_hdlc.c\<close>, \<open>ppp.h\<close>): the link layer of PPP, from \<open>pppSendFrame\<close> to the queue the UART
    reads, and from the queue the UART writes to \<open>pppProcessFrame\<close>. The state is \<open>ppp\<close>: the interface with its context.
    \<open>Ppp_Fsm\<close> (\<open>ppp_fsm.c\<close>): the automaton LCP and IPCP share, one definition per event; the locale \<open>ppp_layer\<close> is what it
    asks of the callbacks. \<open>Ppp_Options\<close> (the option parsers of \<open>lcp.c\<close> and \<open>ipcp.c\<close>), \<open>Ppp_Packet\<close> (\<open>ppp_misc.c\<close>),
    \<open>Ppp_Control\<close> (\<open>lcp.c\<close>, \<open>ipcp.c\<close>, the sending half of \<open>pap.c\<close>), \<open>Ppp_Session\<close> (the receiving half of \<open>pap.c\<close>, the
    timer and the calls of the user in \<open>ppp.c\<close>). A result \<open>None\<close> means that the code reads memory beyond the packet or
    writes beyond its buffer.

  \<^bold>\<open>State.\<close> A handler works on a \<open>conn\<close>: the socket \<open>sk\<close> and the outside world \<open>cx\<close>. The
  outside world keeps the datagrams sent and the heap blocks in use, and it answers the calls
  that leave the modelled code by streams of results: the clock, the heap (\<open>heapResult\<close>: whether an
  allocation succeeds), \<open>ipSendDatagram\<close> (\<open>ipResult\<close>) and the choice of a source address
  (\<open>sourceResult\<close>). Nothing is assumed of these answers except where a theorem says so. What other
  tasks do to a connection while a user call waits is a parameter of that call, a function from
  connection to connection; the theorems require of it what the handlers are shown to keep. So are
  the callbacks of UDP users, the other tasks during a lookup, the delivery of a complete datagram and the transmission of a packet in
  the models of \<open>ipv4_frag.c\<close>, and the address filters of \<open>ipv4ProcessPacket\<close>.
  Errors are the codes of \<open>error_t\<close>, returned with the state as the code leaves it.

  \<^bold>\<open>Partiality and bounds.\<close> Loops whose end depends on the data or on the peer are partial functions
  with result \<open>None\<close> for "does not return" (\<open>tcpGetOption\<close>, \<open>tcpNagleAlgo\<close>, \<open>tcpSend\<close>, which waits
  for room as long as the peer makes it wait); \<open>tcpReceive\<close> is total, every wait that does not end the
  call yields data. The loop over the holes of a datagram is partial too (crafted fragments make it
  run forever, \<open>reassembly_hangs\<close>), and so is the loop that sends the fragments. The code reads a
  protocol header through a pointer to its first byte; a header that does not lie in one block of
  memory gives \<open>None\<close>. There is no fuel. That the loops end, or exactly when they do not, is
  proved (\<open>Tcp_Transitions\<close>, \<open>Tcp_Recovery\<close>, \<open>Tcp_Timeouts\<close>). Sequence numbers, windows, lengths and
  times are 32-bit words and wrap as in C, port numbers and MSS options 16-bit words.

  \<^bold>\<open>What is shown\<close>, from the bottom:

  \<^item> \<open>Net_Mem\<close>: growing, shrinking, copying, concatenating, reading and writing multi-part buffers
    refine the same operations on flat bytes; no block of the pool is lost or freed twice.
  \<^item> \<open>Ip_Checksum\<close>: the optimised sum is the one's complement sum of RFC 1071 for every alignment and
    every cut into chunks; a packet with its checksum filled in verifies.
  \<^item> \<open>Tcp_Timer\<close>, \<open>Tcp_Buffer\<close>: timers across the wrap-around of the clock; reading back what was
    written to the circular buffers, and what a write leaves alone.
  \<^item> \<open>Tcp_Send\<close>: exactly what \<open>tcpSendSegment\<close> puts on the wire, and what it leaves allocated.
  \<^item> \<open>Tcp_Reassembly\<close>: the receiving side. The abstract state is the peer's stream and a position
    in it; segment processing, every state handler and \<open>tcpReceive\<close> refine it.
  \<^item> \<open>Tcp_Transitions\<close>: the state diagram as a relation, every handler stays within it and returns;
    unacceptable segments change nothing; the option parser.
  \<^item> \<open>Tcp_Timeouts\<close>: \<open>tcpTick\<close> returns, only closes, and gives up on a silent peer.
  \<^item> \<open>Tcp_Recovery\<close>: the acceptability test is the one of RFC 793; acknowledgments remove exactly
    what they cover; the limits of \<open>tcpNagleAlgo\<close>; the out-of-order blocks.
  \<^item> \<open>Tcp_Invariants\<close>: the locale \<open>conn_invariant\<close> lists what the building blocks of the handlers
    have to keep of a predicate; inside it, the handlers, the timers and every run of them keep
    it. Its interpretations are the bounds of the control variables (\<open>ctl\<close>, here), the
    accounting of heap blocks (\<open>mem\<close>, in \<open>Tcp_Memory\<close>) and the stream of the sender (\<open>tx\<close>, in
    \<open>Tcp_Stream\<close>).
  \<^item> \<open>Tcp_Demux\<close>: a segment reaches the socket it belongs to and no other; the queue of requests of
    a listening socket; ephemeral ports; the slot a new socket takes.
  \<^item> \<open>Tcp_Stream\<close>: what the user wrote is what the segments carry, retransmissions included, and a
    receiver in the abstract state of \<open>Tcp_Reassembly\<close> takes it in.
  \<^item> \<open>Ipv4_Holes\<close>, \<open>Ipv4_Reassembly\<close>: the chain of holes in memory represents the set of missing
    bytes; fragments in any order, repeated or overlapping, reassemble to the datagram.
    \<open>Ipv4_Fragmentation\<close>: what is sent whole or in fragments is delivered.
  \<^item> \<open>Udp_Queue\<close>: the receive queues and their memory, as the invariant of a step relation over
    arrivals, reads and sends. \<open>Udp_Transfer\<close>: from \<open>udpSendDatagram\<close> through IPv4 to
    \<open>udpReceiveDatagram\<close> on another host.
  \<^item> \<open>Icmp_Messages\<close>: the answers to echo requests and to datagrams for closed ports.
  \<^item> \<open>Eth_Crc\<close>: the implementations of the CRC agree, and the errors it finds. \<open>Ipv4_Addr\<close>: source address
    selection takes the best of the candidates. \<open>Multicast_Filter\<close>: the locale \<open>counted_table\<close> is a table with
    reference counts as a bag; its interpretations are the MAC filter and the multicast filter, which together let in
    exactly the joined groups. \<open>Eth_Frames\<close>: a frame sent is delivered; address strings are read back.
  \<^item> \<open>Buffer_Memory\<close>: the memory of multi-part buffers. \<open>Arp_Cache\<close>: the invariant of the ARP cache over any run, what a
    reply sends, and that an address nobody answers for is given up.
  \<^item> \<open>Dns_Name\<close>: the inductive relation \<open>name_at\<close> is the encoding of RFC 1035 with compression; parser and comparison agree
    with it on every message, and the encoder is its inverse. \<open>Dns_Client\<close>: a lookup gets the first address of the answer,
    a response that was not asked for changes nothing, and a query without an answer ends.
  \<^item> \<open>Ppp_Frames\<close>: the errors the frame check sequence finds, the queues of the driver as sequences, and the way of a packet
    over the line. \<open>Ppp_Safety\<close>: sending leaves the automata alone, and they are those of RFC 1661. \<open>Ppp_Protection\<close>: an
    invariant of the phase, the automata and PAP that every event keeps. \<open>Ppp_Auth\<close>: so does every step of a session, the
    step relation \<open>ppp_step\<close>, and no session enters the network phase before the peer has authenticated itself.

  \<^bold>\<open>Not modelled.\<close> IPv6 with NDP and ICMPv6, raw and BSD sockets, the start-up and the task of \<open>net.c\<close>, CHAP and IPV6CP, the AT commands of PPP, VLAN and
  switch port tags (off by default), the other name resolvers (mDNS and LLMNR are off by default, NBNS is a parameter of
  the timer), the other application protocols, the counters of the management information
  bases (they are written, never read, by the modelled code), drivers and board support, trace output. The models of TCP and
  UDP take the answers of IP from the streams of \<open>ctx\<close>; the model of IPv4 below them, from \<open>ipv4_frag.c\<close> down to the
  frame, is linked to them by the theorems on what is sent and what is delivered, not by one state.
\<close>

end
